(* ===== verification/QF_Prelude.thy ===== *)
theory QF_Prelude
  imports Complex_Main "HOL-Library.AList"
begin

text \<open>
  What every component theory shares: the names of the model's basic types, the reading of the
  JavaScript primitives the code uses (string case folding, trimming, truthiness of strings,
  \<open>Math.min\<close>, \<open>Math.max\<close>, \<open>Math.floor\<close>, \<open>Math.ceil\<close>), errors as values of a sum, generic
  lemmas on lists and maps, and the collections of simplification rules the component proofs use.

  Times are integers in milliseconds since the epoch; an operation that reads the clock takes the
  reading as its argument \<open>now\<close>. JavaScript numbers that may be fractions are rationals: rounding
  of binary floating point is outside the model. Strings are lists of bytes, so case folding and
  trimming are those of ASCII.
\<close>

type_synonym ms = int
type_synonym key = string

named_theorems status_simps
named_theorems clock_simps

subsection \<open>Errors as values\<close>

text \<open>A call that may throw returns \<open>Inl\<close> the error or \<open>Inr\<close> the value.\<close>

definition bindE :: "'e + 'a \<Rightarrow> ('a \<Rightarrow> 'e + 'b) \<Rightarrow> 'e + 'b" where
  "bindE x f = (case x of Inl e \<Rightarrow> Inl e | Inr v \<Rightarrow> f v)"

lemma bindE_Inl [simp]: "bindE (Inl e) f = Inl e"
  by (simp add: bindE_def)

lemma bindE_Inr [simp]: "bindE (Inr v) f = f v"
  by (simp add: bindE_def)

lemma bindE_eq_Inr_iff [simp]: "bindE x f = Inr w \<longleftrightarrow> (\<exists>v. x = Inr v \<and> f v = Inr w)"
  by (cases x) auto

lemma bindE_eq_Inl_iff:
  "bindE x f = Inl e \<longleftrightarrow> x = Inl e \<or> (\<exists>v. x = Inr v \<and> f v = Inl e)"
  by (cases x) auto

definition guardE :: "bool \<Rightarrow> 'e \<Rightarrow> 'e + unit" where
  "guardE b e = (if b then Inr () else Inl e)"

lemma guardE_simps [simp]:
  "guardE True e = Inr ()" "guardE False e = Inl e"
  "guardE b e = Inr u \<longleftrightarrow> b"
  by (auto simp: guardE_def)

definition okE :: "'e + 'a \<Rightarrow> bool" where
  "okE x \<longleftrightarrow> (case x of Inl _ \<Rightarrow> False | Inr _ \<Rightarrow> True)"

lemma okE_simps [simp]: "okE (Inr v)" "\<not> okE (Inl e)"
  by (simp_all add: okE_def)

lemma okE_iff: "okE x \<longleftrightarrow> (\<exists>v. x = Inr v)"
  by (cases x) auto

text \<open>Collecting the results of a fallible call over a list, stopping at the first error.\<close>

fun mapE :: "('a \<Rightarrow> 'e + 'b) \<Rightarrow> 'a list \<Rightarrow> 'e + 'b list" where
  "mapE f [] = Inr []"
| "mapE f (x # xs) = bindE (f x) (\<lambda>y. bindE (mapE f xs) (\<lambda>ys. Inr (y # ys)))"

lemma mapE_Inr_length: "mapE f xs = Inr ys \<Longrightarrow> length ys = length xs"
  by (induction xs arbitrary: ys) auto

text \<open>A method that mutates its object returns the object after the call together with the
  exception it threw, if any: an exception does not undo the assignments made before it.\<close>

type_synonym ('s, 'e) eff = "'s \<times> 'e option"

definition ret :: "'s \<Rightarrow> ('s, 'e) eff" where
  "ret s = (s, None)"

definition throw :: "'s \<Rightarrow> 'e \<Rightarrow> ('s, 'e) eff" where
  "throw s e = (s, Some e)"

definition andThen :: "('s, 'e) eff \<Rightarrow> ('s \<Rightarrow> ('s, 'e) eff) \<Rightarrow> ('s, 'e) eff" where
  "andThen m f = (case m of (s, None) \<Rightarrow> f s | (s, Some e) \<Rightarrow> (s, Some e))"

lemma eff_simps [simp]:
  "fst (ret s) = s" "snd (ret s) = None" "fst (throw s e) = s" "snd (throw s e) = Some e"
  "andThen (ret s) f = f s" "andThen (throw s e) f = throw s e"
  by (simp_all add: ret_def throw_def andThen_def)

lemma ret_eq_iff [simp]:
  "ret s = (t, None) \<longleftrightarrow> s = t" "ret s \<noteq> (t, Some e)" "throw s e \<noteq> (t, None)"
  "throw s e = (t, Some e') \<longleftrightarrow> s = t \<and> e = e'" "ret s = ret t \<longleftrightarrow> s = t" "ret s \<noteq> throw t e" "throw t e \<noteq> ret s"
  "throw s e = throw t e' \<longleftrightarrow> s = t \<and> e = e'"
  by (auto simp: ret_def throw_def)

text \<open>The errors of \<open>src/resilience/errors\<close>, with \<open>Cause\<close> for an error the protected call threw.\<close>

datatype 'e resilience_error =
    CircuitOpenError string
  | BulkheadFullError string
  | BackpressureError string string
  | TimeoutError string int
  | Cause 'e

subsection \<open>JavaScript strings\<close>

definition upper_char :: "char \<Rightarrow> char" where
  "upper_char c = (let n = of_char c :: nat
     in if 97 \<le> n \<and> n \<le> 122 then char_of (n - 32) else c)"

definition lower_char :: "char \<Rightarrow> char" where
  "lower_char c = (let n = of_char c :: nat
     in if 65 \<le> n \<and> n \<le> 90 then char_of (n + 32) else c)"

definition upper :: "string \<Rightarrow> string" where
  "upper s = map upper_char s"

definition lower :: "string \<Rightarrow> string" where
  "lower s = map lower_char s"

definition is_space :: "char \<Rightarrow> bool" where
  "is_space c \<longleftrightarrow> c \<in> set [CHR '' '', CHR 0x09, CHR 0x0A, CHR 0x0B, CHR 0x0C, CHR 0x0D]"

definition trim :: "string \<Rightarrow> string" where
  "trim s = rev (dropWhile is_space (rev (dropWhile is_space s)))"

fun starts_with :: "string \<Rightarrow> string \<Rightarrow> bool" where
  "starts_with [] s = True"
| "starts_with (p # ps) [] = False"
| "starts_with (p # ps) (c # s) = (p = c \<and> starts_with ps s)"

fun includes_str :: "string \<Rightarrow> string \<Rightarrow> bool" where
  "includes_str [] p = (p = [])"
| "includes_str (c # s) p = (starts_with p (c # s) \<or> includes_str s p)"

fun split_on :: "char \<Rightarrow> string \<Rightarrow> string list" where
  "split_on d [] = [[]]"
| "split_on d (c # s) =
     (if c = d then [] # split_on d s
      else (case split_on d s of [] \<Rightarrow> [[c]] | w # ws \<Rightarrow> (c # w) # ws))"

lemma upper_simps [simp]: "upper [] = []" "upper (c # s) = upper_char c # upper s"
  by (simp_all add: upper_def)

lemma lower_simps [simp]: "lower [] = []" "lower (c # s) = lower_char c # lower s"
  by (simp_all add: lower_def)

lemma upper_char_lower_char [simp]: "upper_char (lower_char c) = upper_char c"
  using nat_of_char_less_256 [of c] by (auto simp: upper_char_def lower_char_def Let_def)

lemma lower_char_upper_char [simp]: "lower_char (upper_char c) = lower_char c"
  using nat_of_char_less_256 [of c] by (auto simp: upper_char_def lower_char_def Let_def)

lemma upper_char_idem [simp]: "upper_char (upper_char c) = upper_char c"
  using nat_of_char_less_256 [of c] by (auto simp: upper_char_def Let_def)

lemma upper_lower [simp]: "upper (lower s) = upper s" "lower (upper s) = lower s"
  by (simp_all add: upper_def lower_def)

lemma upper_idem [simp]: "upper (upper s) = upper s"
  by (simp add: upper_def)

lemma starts_with_append [simp]: "starts_with p (p @ s)"
  by (induction p) auto

lemma starts_with_iff: "starts_with p s \<longleftrightarrow> (\<exists>t. s = p @ t)"
  by (induction p s rule: starts_with.induct) auto

lemma split_on_nonempty [simp]: "split_on d s \<noteq> []"
  by (induction s) (auto split: list.splits)

lemma split_on_fresh: "d \<notin> set s \<Longrightarrow> split_on d s = [s]"
  by (induction s) auto

lemma split_on_append: "d \<notin> set a \<Longrightarrow> split_on d (a @ d # s) = a # split_on d s"
  by (induction a) (auto split: list.splits)

lemma trim_ends:
  assumes "trim s \<noteq> []"
  shows "\<not> is_space (hd (trim s)) \<and> \<not> is_space (last (trim s))"
proof -
  define t where "t = dropWhile is_space s"
  define u where "u = dropWhile is_space (rev t)"
  have u: "trim s = rev u" by (simp add: trim_def t_def u_def)
  with assms have ne: "u \<noteq> []" by simp
  then have "t \<noteq> []" by (auto simp: u_def)
  then have "\<not> is_space (hd t)" unfolding t_def by (rule hd_dropWhile)
  moreover have "last u = hd t"
    using ne \<open>t \<noteq> []\<close> takeWhile_dropWhile_id [of is_space "rev t"] u_def
    by (metis last_appendR last_rev)
  moreover have "\<not> is_space (hd u)" using ne unfolding u_def by (rule hd_dropWhile)
  ultimately show ?thesis using ne by (simp add: u hd_rev last_rev)
qed

lemma trim_unchanged:
  assumes "s \<noteq> []" "\<not> is_space (hd s)" "\<not> is_space (last s)"
  shows "trim s = s"
proof -
  have "dropWhile is_space s = s" "dropWhile is_space (rev s) = rev s"
    using assms by (auto simp: dropWhile_eq_self_iff hd_rev)
  then show ?thesis by (simp add: trim_def)
qed

lemma trim_Nil [simp]: "trim [] = []"
  by (simp add: trim_def)

lemma trim_trim [simp]: "trim (trim s) = trim s"
proof (cases "trim s = []")
  case True
  then show ?thesis by simp
next
  case False
  then show ?thesis using trim_ends [OF False] by (simp add: trim_unchanged)
qed

subsection \<open>JavaScript maps\<close>

text \<open>A \<open>Map\<close> keeps its entries in insertion order: \<open>set\<close> replaces in place or appends, \<open>delete\<close>
  removes. An association list with distinct keys.\<close>

type_synonym ('k, 'v) js_map = "('k \<times> 'v) list"

definition mget :: "('k, 'v) js_map \<Rightarrow> 'k \<Rightarrow> 'v option" where
  "mget m k = map_of m k"

definition mset_at :: "'k \<Rightarrow> 'v \<Rightarrow> ('k, 'v) js_map \<Rightarrow> ('k, 'v) js_map" where
  "mset_at k v m = AList.update k v m"

definition mdel :: "'k \<Rightarrow> ('k, 'v) js_map \<Rightarrow> ('k, 'v) js_map" where
  "mdel k m = AList.delete k m"

lemma mget_simps [simp]:
  "mget [] k = None"
  "mget (mset_at k v m) k' = (if k' = k then Some v else mget m k')"
  "mget (mdel k m) k' = (if k' = k then None else mget m k')"
  by (simp_all add: mget_def mset_at_def mdel_def update_conv' delete_conv')

lemma mset_at_keys [simp]:
  "set (map fst (mset_at k v m)) = insert k (set (map fst m))"
  "distinct (map fst m) \<Longrightarrow> distinct (map fst (mset_at k v m))"
  by (simp_all add: mset_at_def dom_update distinct_update)

subsection \<open>JavaScript numbers\<close>

text \<open>\<open>Math.round\<close> rounds halves up.\<close>

definition js_round :: "rat \<Rightarrow> int" where
  "js_round x = floor (x + 1 / 2)"

text \<open>\<open>a || d\<close> on numbers: a missing value, \<open>0\<close> (and \<open>NaN\<close>) falls through to the default.\<close>

definition num_or :: "int option \<Rightarrow> int \<Rightarrow> int" where
  "num_or v d = (case v of None \<Rightarrow> d | Some n \<Rightarrow> if n = 0 then d else n)"

definition rat_or :: "rat option \<Rightarrow> rat \<Rightarrow> rat" where
  "rat_or v d = (case v of None \<Rightarrow> d | Some x \<Rightarrow> if x = 0 then d else x)"

text \<open>\<open>a ?? d\<close>: only a missing value falls through.\<close>

definition nullish_or :: "'a option \<Rightarrow> 'a \<Rightarrow> 'a" where
  "nullish_or v d = (case v of None \<Rightarrow> d | Some x \<Rightarrow> x)"

text \<open>\<open>a || d\<close> on strings: a missing or empty string falls through.\<close>

definition str_or :: "string option \<Rightarrow> string \<Rightarrow> string" where
  "str_or v d = (case v of None \<Rightarrow> d | Some s \<Rightarrow> if s = [] then d else s)"

lemma num_or_simps [simp]:
  "num_or None d = d" "num_or (Some n) d = (if n = 0 then d else n)"
  by (simp_all add: num_or_def)

lemma nullish_or_simps [simp]: "nullish_or None d = d" "nullish_or (Some x) d = x"
  by (simp_all add: nullish_or_def)

lemma str_or_simps [simp]: "str_or None d = d" "str_or (Some s) d = (if s = [] then d else s)"
  by (simp_all add: str_or_def)

subsection \<open>Decimal text\<close>

fun show_nat :: "nat \<Rightarrow> string" where
  "show_nat n = (if n < 10 then [char_of (48 + n)] else show_nat (n div 10) @ [char_of (48 + n mod 10)])"

declare show_nat.simps [simp del]

definition show_int :: "int \<Rightarrow> string" where
  "show_int i = (if i < 0 then CHR ''-'' # show_nat (nat (- i)) else show_nat (nat i))"

definition digit_char :: "char \<Rightarrow> bool" where
  "digit_char c \<longleftrightarrow> 48 \<le> (of_char c :: nat) \<and> (of_char c :: nat) \<le> 57"

definition alpha_char :: "char \<Rightarrow> bool" where
  "alpha_char c \<longleftrightarrow> (let n = of_char c :: nat in 65 \<le> n \<and> n \<le> 90 \<or> 97 \<le> n \<and> n \<le> 122)"

definition alnum_char :: "char \<Rightarrow> bool" where
  "alnum_char c \<longleftrightarrow> alpha_char c \<or> digit_char c"

definition hex_char :: "char \<Rightarrow> bool" where
  "hex_char c \<longleftrightarrow> digit_char c \<or> c \<in> set ''abcdefABCDEF''"

subsection \<open>Lists\<close>

lemma length_filter_mono:
  "(\<And>x. x \<in> set xs \<Longrightarrow> P x \<Longrightarrow> Q x) \<Longrightarrow> length (filter P xs) \<le> length (filter Q xs)"
  by (induction xs) (auto simp: le_Suc_eq)

lemma sum_list_bounded:
  fixes f :: "'a \<Rightarrow> int"
  assumes "\<And>x. x \<in> set xs \<Longrightarrow> f x \<le> c"
  shows "sum_list (map f xs) \<le> int (length xs) * c"
  using assms
proof (induction xs)
  case Nil
  then show ?case by simp
next
  case (Cons x xs)
  then have "f x \<le> c" and "sum_list (map f xs) \<le> int (length xs) * c" by auto
  then show ?case by (simp add: algebra_simps)
qed

subsection \<open>Registries\<close>

text \<open>A registry makes the entry of a key on first use, if it can be made, and returns the same entry
  from then on.\<close>

locale registry =
  fixes fetch :: "'k \<Rightarrow> 'm \<Rightarrow> 'e + ('v \<times> 'm)"
    and peek :: "'m \<Rightarrow> 'k \<Rightarrow> 'v option"
  assumes fetch_hit: "peek m k = Some v \<Longrightarrow> fetch k m = Inr (v, m)"
    and fetch_miss: "\<lbrakk> peek m k = None; fetch k m = Inr (v, m') \<rbrakk> \<Longrightarrow> peek m' k = Some v"
    and fetch_frame: "\<lbrakk> fetch k m = Inr (v, m'); k' \<noteq> k \<rbrakk> \<Longrightarrow> peek m' k' = peek m k'"
begin

lemma fetch_peek: "fetch k m = Inr (v, m') \<Longrightarrow> peek m' k = Some v"
  by (cases "peek m k") (auto simp: fetch_hit dest: fetch_miss)

lemma fetch_keeps: "\<lbrakk> fetch k m = Inr (v, m'); peek m k' = Some w \<rbrakk> \<Longrightarrow> peek m' k' = Some w"
  by (cases "k' = k") (auto simp: fetch_hit fetch_frame)

fun fetch_all :: "'k list \<Rightarrow> 'm \<Rightarrow> 'm" where
  "fetch_all [] m = m"
| "fetch_all (k # ks) m = (case fetch k m of Inl _ \<Rightarrow> fetch_all ks m | Inr (v, m') \<Rightarrow> fetch_all ks m')"

lemma fetch_all_keeps: "peek m k = Some v \<Longrightarrow> peek (fetch_all ks m) k = Some v"
  by (induction ks arbitrary: m) (auto split: sum.splits dest: fetch_keeps)

text \<open>Whatever other entries are made in between, a key keeps the entry it was first given.\<close>

lemma fetch_stable:
  assumes "fetch k m = Inr (v, m')"
  shows "fetch k (fetch_all ks m') = Inr (v, fetch_all ks m')"
  using fetch_hit [OF fetch_all_keeps [OF fetch_peek [OF assms]]] .

end

end
