(* ===== verification/QF_Values.thy ===== *)
theory QF_Values
  imports QF_Prelude
begin

text \<open>
  The value objects of \<open>src/domain/value-objects\<close>: delivery status, destination type, HTTP status
  code, confidence score, agent and e-mail identifiers, delivery error and retry attempt. A
  constructor that throws \<open>ValidationError\<close> returns \<open>Inl\<close>; error texts are not modelled, the
  error classes are. The constructors that accept \<open>any\<close> take a \<open>js_arg\<close>, the shapes the code
  distinguishes with \<open>typeof\<close>.
\<close>

subsection \<open>Errors of the domain layer\<close>

datatype domain_error =
    ValidationError
  | InvalidDeliveryStateError string string
  | MaxRetriesExceededError string int int
  | NotFoundError string string
  | TypeError

definition is_validation :: "domain_error + 'a \<Rightarrow> bool" where
  "is_validation x \<longleftrightarrow> (case x of Inl ValidationError \<Rightarrow> True | _ \<Rightarrow> False)"

subsection \<open>Arguments of type any\<close>

text \<open>A string, an object with optional string fields \<open>kind\<close> and \<open>value\<close>, or one of the callable
  constants made by \<open>createStatusObj\<close> and \<open>createTypeObj\<close>, which carry a lower case kind.\<close>

datatype js_arg =
    JNull
  | JUndefined
  | JStr string
  | JObj (obj_kind: "string option") (obj_value: "string option")
  | JFn string

definition js_truthy :: "js_arg \<Rightarrow> bool" where
  "js_truthy a = (case a of JNull \<Rightarrow> False | JUndefined \<Rightarrow> False | JStr s \<Rightarrow> s \<noteq> [] | _ \<Rightarrow> True)"

definition js_String :: "js_arg \<Rightarrow> string" where
  "js_String a = (case a of JNull \<Rightarrow> ''null'' | JUndefined \<Rightarrow> ''undefined'' | JStr s \<Rightarrow> s
     | JObj _ _ \<Rightarrow> ''[object Object]'' | JFn k \<Rightarrow> upper k)"

text \<open>\<open>value.kind || value.value || String(value)\<close> for an object, \<open>String(value)\<close> otherwise.\<close>

definition rawVal :: "js_arg \<Rightarrow> string" where
  "rawVal a = (case a of JObj k v \<Rightarrow> str_or k (str_or v (js_String a)) | _ \<Rightarrow> js_String a)"

text \<open>\<open>typeof status === 'function' ? status() : status\<close>: calling a constant yields \<open>{ kind }\<close>.\<close>

definition js_call :: "js_arg \<Rightarrow> js_arg" where
  "js_call a = (case a of JFn k \<Rightarrow> JObj (Some k) None | _ \<Rightarrow> a)"

subsection \<open>DeliveryStatusVO\<close>

datatype DeliveryStatus = PENDING | PROCESSING | COMPLETED | SCHEDULED_RETRY | FAILED_DLQ

definition status_str :: "DeliveryStatus \<Rightarrow> string" where
  "status_str s = (case s of PENDING \<Rightarrow> ''PENDING'' | PROCESSING \<Rightarrow> ''PROCESSING''
     | COMPLETED \<Rightarrow> ''COMPLETED'' | SCHEDULED_RETRY \<Rightarrow> ''SCHEDULED_RETRY''
     | FAILED_DLQ \<Rightarrow> ''FAILED_DLQ'')"

definition createStatusObj :: "string \<Rightarrow> js_arg" where
  "createStatusObj kind = JFn kind"

definition DeliveryStatusVO_new :: "js_arg \<Rightarrow> domain_error + DeliveryStatus" where
  "DeliveryStatusVO_new value = (let stringVal = upper (rawVal value) in
     if stringVal = ''PENDING'' then Inr PENDING
     else if stringVal = ''PROCESSING'' then Inr PROCESSING
     else if stringVal = ''COMPLETED'' then Inr COMPLETED
     else if stringVal = ''SCHEDULED_RETRY'' \<or> stringVal = ''SCHEDULEDRETRY'' then Inr SCHEDULED_RETRY
     else if stringVal = ''FAILED_DLQ'' \<or> stringVal = ''FAILEDDLQ'' then Inr FAILED_DLQ
     else Inl ValidationError)"

definition DeliveryStatusVO_kind :: "DeliveryStatus \<Rightarrow> string" where
  "DeliveryStatusVO_kind s = lower (status_str s)"

definition DeliveryStatusVO_isFinal :: "DeliveryStatus \<Rightarrow> bool" where
  "DeliveryStatusVO_isFinal s \<longleftrightarrow> s = COMPLETED \<or> s = FAILED_DLQ"

definition DeliveryStatusVO_canRetry :: "DeliveryStatus \<Rightarrow> bool" where
  "DeliveryStatusVO_canRetry s \<longleftrightarrow> \<not> DeliveryStatusVO_isFinal s"

text \<open>A status object handed back to the constructor: its \<open>kind\<close> getter and its \<open>value\<close>.\<close>

definition DeliveryStatusVO_arg :: "DeliveryStatus \<Rightarrow> js_arg" where
  "DeliveryStatusVO_arg s = JObj (Some (DeliveryStatusVO_kind s)) (Some (status_str s))"

text \<open>The free predicates of the module, which read a status of any shape.\<close>

definition status_text :: "js_arg \<Rightarrow> string" where
  "status_text status = upper (rawVal (js_call status))"

definition isPending :: "js_arg \<Rightarrow> bool" where
  "isPending status \<longleftrightarrow> js_truthy status \<and> status_text status = ''PENDING''"

definition isProcessing :: "js_arg \<Rightarrow> bool" where
  "isProcessing status \<longleftrightarrow> js_truthy status \<and> status_text status = ''PROCESSING''"

definition isCompleted :: "js_arg \<Rightarrow> bool" where
  "isCompleted status \<longleftrightarrow> js_truthy status \<and> status_text status = ''COMPLETED''"

definition isScheduledRetry :: "js_arg \<Rightarrow> bool" where
  "isScheduledRetry status \<longleftrightarrow> js_truthy status \<and>
     (let s = status_text status in s = ''SCHEDULED_RETRY'' \<or> s = ''SCHEDULEDRETRY'')"

definition isFailedDLQ :: "js_arg \<Rightarrow> bool" where
  "isFailedDLQ status = (if \<not> js_truthy status then False else
     let s = status_text status in
     if s = ''FAILED_DLQ'' \<or> s = ''FAILEDDLQ'' \<or> includes_str s ''DLQ'' \<or> includes_str s ''FAILED''
     then True
     else \<not> isPending status \<and> \<not> isProcessing status \<and> \<not> isCompleted status
        \<and> \<not> isScheduledRetry status)"

lemma DeliveryStatusVO_new_Inr_iff:
  "DeliveryStatusVO_new a = Inr s \<longleftrightarrow>
     upper (rawVal a) = status_str s \<or>
     s = SCHEDULED_RETRY \<and> upper (rawVal a) = ''SCHEDULEDRETRY'' \<or>
     s = FAILED_DLQ \<and> upper (rawVal a) = ''FAILEDDLQ''"
  by (cases s) (auto simp: DeliveryStatusVO_new_def Let_def status_str_def)

lemma rawVal_simps [simp]:
  "rawVal (JStr s) = s" "rawVal (JFn k) = upper k"
  by (simp_all add: rawVal_def js_String_def)

lemma upper_status_str [simp]: "upper (status_str s) = status_str s"
  by (cases s) (simp_all add: status_str_def upper_char_def)

lemma status_str_inject [simp]: "status_str s = status_str t \<longleftrightarrow> s = t"
  by (cases s; cases t) (simp_all add: status_str_def)

lemma status_str_nonempty [simp]: "status_str s \<noteq> []" "lower (status_str s) \<noteq> []"
  by (cases s; simp add: status_str_def)+

lemma status_text_status_arg [simp]:
  "status_text (DeliveryStatusVO_arg s) = status_str s"
  by (simp add: status_text_def DeliveryStatusVO_arg_def js_call_def rawVal_def
      DeliveryStatusVO_kind_def)

lemma status_predicates_arg [status_simps]:
  "isPending (DeliveryStatusVO_arg s) \<longleftrightarrow> s = PENDING"
  "isProcessing (DeliveryStatusVO_arg s) \<longleftrightarrow> s = PROCESSING"
  "isCompleted (DeliveryStatusVO_arg s) \<longleftrightarrow> s = COMPLETED"
  "isScheduledRetry (DeliveryStatusVO_arg s) \<longleftrightarrow> s = SCHEDULED_RETRY"
  "isFailedDLQ (DeliveryStatusVO_arg s) \<longleftrightarrow> s = FAILED_DLQ"
  by (cases s; simp add: isPending_def isProcessing_def isCompleted_def isScheduledRetry_def
      isFailedDLQ_def js_truthy_def DeliveryStatusVO_arg_def[symmetric] status_text_status_arg,
      simp add: status_str_def DeliveryStatusVO_arg_def)+

subsection \<open>DestinationTypeVO\<close>

datatype DestinationType = WEBHOOK | DATABASE | QUEUE | AUDIT

definition type_str :: "DestinationType \<Rightarrow> string" where
  "type_str t = (case t of WEBHOOK \<Rightarrow> ''WEBHOOK'' | DATABASE \<Rightarrow> ''DATABASE''
     | QUEUE \<Rightarrow> ''QUEUE'' | AUDIT \<Rightarrow> ''AUDIT'')"

definition createTypeObj :: "string \<Rightarrow> js_arg" where
  "createTypeObj kind = JFn kind"

definition DestinationTypeVO_new :: "js_arg \<Rightarrow> domain_error + DestinationType" where
  "DestinationTypeVO_new value = (let stringVal = upper (rawVal value) in
     if stringVal = ''WEBHOOK'' then Inr WEBHOOK
     else if stringVal = ''DATABASE'' then Inr DATABASE
     else if stringVal = ''QUEUE'' then Inr QUEUE
     else if stringVal = ''AUDIT'' then Inr AUDIT
     else Inl ValidationError)"

definition DestinationTypeVO_kind :: "DestinationType \<Rightarrow> string" where
  "DestinationTypeVO_kind t = lower (type_str t)"

text \<open>The free predicates read the \<open>kind\<close> or \<open>value\<close> property of anything that is not a string;
  the callable constants have both.\<close>

definition type_text :: "js_arg \<Rightarrow> string" where
  "type_text a = upper (case a of JStr s \<Rightarrow> s
     | JObj k v \<Rightarrow> str_or k (str_or v (js_String a))
     | JFn k \<Rightarrow> str_or (Some k) (str_or (Some (upper k)) (js_String a))
     | _ \<Rightarrow> js_String a)"

definition isWebhook :: "js_arg \<Rightarrow> bool" where
  "isWebhook a \<longleftrightarrow> js_truthy a \<and> type_text a = ''WEBHOOK''"

definition isDatabase :: "js_arg \<Rightarrow> bool" where
  "isDatabase a \<longleftrightarrow> js_truthy a \<and> type_text a = ''DATABASE''"

definition isQueue :: "js_arg \<Rightarrow> bool" where
  "isQueue a \<longleftrightarrow> js_truthy a \<and> type_text a = ''QUEUE''"

definition isAudit :: "js_arg \<Rightarrow> bool" where
  "isAudit a \<longleftrightarrow> js_truthy a \<and> type_text a = ''AUDIT''"

subsection \<open>HttpStatusCode\<close>

text \<open>The argument is \<open>None\<close> when it is not a number (or \<open>NaN\<close>).\<close>

definition HttpStatusCode_new :: "rat option \<Rightarrow> domain_error + int" where
  "HttpStatusCode_new value = (case value of None \<Rightarrow> Inl ValidationError
     | Some x \<Rightarrow> if of_int \<lfloor>x\<rfloor> \<noteq> x then Inl ValidationError
         else if \<lfloor>x\<rfloor> < 100 \<or> \<lfloor>x\<rfloor> > 599 then Inl ValidationError else Inr \<lfloor>x\<rfloor>)"

definition HttpStatusCode_isSuccess :: "int \<Rightarrow> bool" where
  "HttpStatusCode_isSuccess v \<longleftrightarrow> v \<ge> 200 \<and> v < 300"

definition HttpStatusCode_isClientError :: "int \<Rightarrow> bool" where
  "HttpStatusCode_isClientError v \<longleftrightarrow> v \<ge> 400 \<and> v < 500"

definition HttpStatusCode_isServerError :: "int \<Rightarrow> bool" where
  "HttpStatusCode_isServerError v \<longleftrightarrow> v \<ge> 500 \<and> v < 600"

definition HttpStatusCode_isRetryable :: "int \<Rightarrow> bool" where
  "HttpStatusCode_isRetryable v \<longleftrightarrow> v = 408 \<or> v = 429 \<or> HttpStatusCode_isServerError v"

definition HttpStatusCode_isPermanentError :: "int \<Rightarrow> bool" where
  "HttpStatusCode_isPermanentError v \<longleftrightarrow> v \<in> set [400, 401, 403, 404, 422]"

definition HttpStatusCode_isPermanentFailure :: "int \<Rightarrow> bool" where
  "HttpStatusCode_isPermanentFailure v \<longleftrightarrow> HttpStatusCode_isClientError v \<and> v \<noteq> 408 \<and> v \<noteq> 429"

subsection \<open>ConfidenceScore\<close>

definition ConfidenceScore_new :: "rat option \<Rightarrow> domain_error + rat" where
  "ConfidenceScore_new value = (case value of None \<Rightarrow> Inl ValidationError
     | Some x \<Rightarrow> if x < 0 \<or> x > 1 then Inl ValidationError else Inr x)"

definition ConfidenceScore_equals :: "rat \<Rightarrow> rat \<Rightarrow> bool" where
  "ConfidenceScore_equals a b \<longleftrightarrow> \<bar>a - b\<bar> < 1 / 1000000000"

definition ConfidenceScore_isHigh :: "rat option \<Rightarrow> rat \<Rightarrow> bool" where
  "ConfidenceScore_isHigh threshold v \<longleftrightarrow> v \<ge> nullish_or threshold (3 / 4)"

definition ConfidenceScore_isLow :: "rat option \<Rightarrow> rat \<Rightarrow> bool" where
  "ConfidenceScore_isLow threshold v \<longleftrightarrow> v < nullish_or threshold (35 / 100)"

definition ConfidenceScore_isMedium :: "rat option \<Rightarrow> rat option \<Rightarrow> rat \<Rightarrow> bool" where
  "ConfidenceScore_isMedium lowThreshold highThreshold v \<longleftrightarrow>
     v \<ge> nullish_or lowThreshold (25 / 100) \<and> v < nullish_or highThreshold (3 / 4)"

subsection \<open>AgentId and EmailId\<close>

definition agent_char :: "char \<Rightarrow> bool" where
  "agent_char c \<longleftrightarrow> alnum_char c \<or> c \<in> set ''-_.''"

definition AgentId_new :: "js_arg \<Rightarrow> domain_error + string" where
  "AgentId_new value = (case value of
       JStr s \<Rightarrow> if s = [] then Inl ValidationError else
         let trimmed = trim s in
         if length trimmed < 1 \<or> length trimmed > 255 then Inl ValidationError
         else if \<not> list_all agent_char trimmed then Inl ValidationError
         else Inr trimmed
     | _ \<Rightarrow> Inl ValidationError)"

text \<open>The e-mail expression: a non-empty local part, one at-sign, and labels of 1 to 63 letters,
  digits and inner hyphens, separated by dots.\<close>

definition email_local_char :: "char \<Rightarrow> bool" where
  "email_local_char c \<longleftrightarrow> alnum_char c \<or> c \<in> set ''.!#$%&*+/=?^_`{|}~-'' \<or> c = CHR 0x27"

definition email_label :: "string \<Rightarrow> bool" where
  "email_label l \<longleftrightarrow> l \<noteq> [] \<and> length l \<le> 63 \<and> alnum_char (hd l) \<and> alnum_char (last l) \<and>
     list_all (\<lambda>c. alnum_char c \<or> c = CHR ''-'') l"

definition emailRegex :: "string \<Rightarrow> bool" where
  "emailRegex s = (case split_on CHR ''@'' s of
       [l, d] \<Rightarrow> l \<noteq> [] \<and> list_all email_local_char l \<and> list_all email_label (split_on CHR ''.'' d)
     | _ \<Rightarrow> False)"

definition EmailId_new :: "js_arg \<Rightarrow> domain_error + string" where
  "EmailId_new value = (case value of
       JStr s \<Rightarrow> if s = [] then Inl ValidationError else
         let trimmed = trim s in
         if \<not> emailRegex trimmed then Inl ValidationError else Inr trimmed
     | _ \<Rightarrow> Inl ValidationError)"

definition EmailId_equals :: "string \<Rightarrow> string \<Rightarrow> bool" where
  "EmailId_equals a b \<longleftrightarrow> lower a = lower b"

subsection \<open>DeliveryError\<close>

datatype DeliveryErrorCategory = TRANSIENT | PERMANENT | NETWORK | TIMEOUT | SERVER | UNKNOWN

record DeliveryError =
  de_category :: DeliveryErrorCategory
  de_message :: string
  de_statusCode :: "int option"
  de_deliveryId :: "string option"

definition category_str :: "DeliveryErrorCategory \<Rightarrow> string" where
  "category_str c = (case c of TRANSIENT \<Rightarrow> ''TRANSIENT'' | PERMANENT \<Rightarrow> ''PERMANENT''
     | NETWORK \<Rightarrow> ''NETWORK'' | TIMEOUT \<Rightarrow> ''TIMEOUT'' | SERVER \<Rightarrow> ''SERVER'' | UNKNOWN \<Rightarrow> ''UNKNOWN'')"

definition parse_category :: "string \<Rightarrow> DeliveryErrorCategory" where
  "parse_category s = (let stringCat = upper s in
     if stringCat = ''TRANSIENT'' then TRANSIENT
     else if stringCat = ''PERMANENT'' then PERMANENT
     else if stringCat = ''NETWORK'' then NETWORK
     else if stringCat = ''TIMEOUT'' then TIMEOUT
     else if stringCat = ''SERVER'' then SERVER
     else UNKNOWN)"

text \<open>The third constructor argument is a number, a boolean, or missing.\<close>

datatype status_or_flag = Absent | Code int | Flag bool

definition DeliveryError_new ::
  "string \<Rightarrow> string \<Rightarrow> status_or_flag \<Rightarrow> int option \<Rightarrow> domain_error + DeliveryError" where
  "DeliveryError_new categoryOrDeliveryId message statusCodeOrRetryable statusCode =
     (if message = [] then Inl ValidationError
      else case statusCodeOrRetryable of
        Flag b \<Rightarrow> Inr \<lparr> de_category = (if b then TRANSIENT else PERMANENT), de_message = message,
                        de_statusCode = statusCode, de_deliveryId = Some categoryOrDeliveryId \<rparr>
      | Code n \<Rightarrow> Inr \<lparr> de_category = parse_category categoryOrDeliveryId, de_message = message,
                        de_statusCode = Some n, de_deliveryId = None \<rparr>
      | Absent \<Rightarrow> Inr \<lparr> de_category = parse_category categoryOrDeliveryId, de_message = message,
                        de_statusCode = None, de_deliveryId = None \<rparr>)"

definition DeliveryError_getDeliveryId :: "DeliveryError \<Rightarrow> string" where
  "DeliveryError_getDeliveryId e = str_or (de_deliveryId e) []"

definition DeliveryError_isRetryable :: "DeliveryError \<Rightarrow> bool" where
  "DeliveryError_isRetryable e \<longleftrightarrow> de_category e = TRANSIENT \<or> de_category e = NETWORK \<or>
     de_category e = TIMEOUT \<or> de_category e = SERVER"

definition DeliveryError_equals :: "DeliveryError \<Rightarrow> DeliveryError \<Rightarrow> bool" where
  "DeliveryError_equals a b \<longleftrightarrow> de_category a = de_category b \<and> de_message a = de_message b \<and>
     de_statusCode a = de_statusCode b"

definition DeliveryError_toString :: "DeliveryError \<Rightarrow> string" where
  "DeliveryError_toString e = ''['' @ category_str (de_category e) @ ''] '' @
     (case de_statusCode e of None \<Rightarrow> []
      | Some n \<Rightarrow> if n = 0 then [] else ''(HTTP '' @ show_int n @ '') '') @ de_message e"

definition DeliveryError_fromStatusCode :: "int \<Rightarrow> string option \<Rightarrow> domain_error + DeliveryError" where
  "DeliveryError_fromStatusCode statusCode message =
     (let defaultMsg = str_or message (''HTTP Status Code '' @ show_int statusCode) in
      if statusCode = 408 \<or> statusCode = 429
      then DeliveryError_new (category_str TRANSIENT) defaultMsg (Code statusCode) None
      else if statusCode \<ge> 400 \<and> statusCode < 500
      then DeliveryError_new (category_str PERMANENT) defaultMsg (Code statusCode) None
      else if statusCode \<ge> 500 \<and> statusCode < 600
      then DeliveryError_new (category_str SERVER) defaultMsg (Code statusCode) None
      else DeliveryError_new (category_str UNKNOWN) defaultMsg (Code statusCode) None)"

text \<open>A caught exception: its optional \<open>message\<close> and \<open>code\<close>, and its text \<open>String(error)\<close>.\<close>

record js_exn =
  exn_message :: "string option"
  exn_code :: "string option"
  exn_text :: string

definition exn_msg :: "js_exn \<Rightarrow> string" where
  "exn_msg error = str_or (exn_message error) (exn_text error)"

definition DeliveryError_fromException :: "js_exn \<Rightarrow> domain_error + DeliveryError" where
  "DeliveryError_fromException error =
     (let msg = exn_msg error; code = str_or (exn_code error) [] in
      if code \<in> set [''ECONNRESET'', ''ECONNREFUSED'', ''ENOTFOUND''] \<or>
         includes_str msg ''ECONNREFUSED'' \<or> includes_str msg ''ECONNRESET'' \<or>
         includes_str msg ''network''
      then DeliveryError_new (category_str NETWORK) msg Absent None
      else if code = ''ETIMEDOUT'' \<or> includes_str msg ''ETIMEDOUT'' \<or> includes_str msg ''timeout''
      then DeliveryError_new (category_str TIMEOUT) msg Absent None
      else DeliveryError_new (category_str UNKNOWN) msg Absent None)"

subsection \<open>RetryAttempt\<close>

record RetryAttempt =
  ra_number :: int
  ra_statusCode :: "int option"
  ra_error :: "string option"
  ra_latencyMs :: "rat option"
  ra_timestamp :: ms

definition RetryAttempt_new ::
  "ms \<Rightarrow> int \<Rightarrow> int option \<Rightarrow> string option \<Rightarrow> rat option \<Rightarrow> ms option \<Rightarrow> domain_error + RetryAttempt" where
  "RetryAttempt_new now attemptNumber statusCode error latencyMs timestamp =
     (if attemptNumber < 1 then Inl ValidationError
      else if (case statusCode of None \<Rightarrow> False | Some c \<Rightarrow> c < 100 \<or> c > 599) then Inl ValidationError
      else if (case latencyMs of None \<Rightarrow> False | Some l \<Rightarrow> l < 0) then Inl ValidationError
      else Inr \<lparr> ra_number = attemptNumber, ra_statusCode = statusCode, ra_error = error,
                 ra_latencyMs = latencyMs, ra_timestamp = nullish_or timestamp now \<rparr>)"

definition RetryAttempt_wasSuccessful :: "RetryAttempt \<Rightarrow> bool" where
  "RetryAttempt_wasSuccessful a \<longleftrightarrow>
     (case ra_statusCode a of None \<Rightarrow> False | Some c \<Rightarrow> c \<ge> 200 \<and> c < 300)"

definition RetryAttempt_equals :: "RetryAttempt \<Rightarrow> RetryAttempt \<Rightarrow> bool" where
  "RetryAttempt_equals a b \<longleftrightarrow> ra_number a = ra_number b \<and> ra_statusCode a = ra_statusCode b \<and>
     ra_error a = ra_error b \<and> ra_latencyMs a = ra_latencyMs b \<and> ra_timestamp a = ra_timestamp b"

lemma parse_category_str [simp]: "parse_category (category_str c) = c"
  by (cases c) (simp_all add: parse_category_def category_str_def upper_char_def Let_def)

lemma DeliveryError_new_ok [simp]:
  "message \<noteq> [] \<Longrightarrow> DeliveryError_new (category_str c) message (Code n) None =
     Inr \<lparr> de_category = c, de_message = message, de_statusCode = Some n, de_deliveryId = None \<rparr>"
  "message \<noteq> [] \<Longrightarrow> DeliveryError_new (category_str c) message Absent None =
     Inr \<lparr> de_category = c, de_message = message, de_statusCode = None, de_deliveryId = None \<rparr>"
  by (simp_all add: DeliveryError_new_def)

text \<open>Parsing is a left inverse of printing, in either letter case, and of handing a status
  object back to its constructor; and whatever text parses, its own upper and lower case variants
  parse to the same status.\<close>

theorem DeliveryStatusVO_roundtrip:
  "DeliveryStatusVO_new (JStr (status_str s)) = Inr s \<and>
   DeliveryStatusVO_new (JStr (DeliveryStatusVO_kind s)) = Inr s \<and>
   DeliveryStatusVO_new (createStatusObj (DeliveryStatusVO_kind s)) = Inr s \<and>
   DeliveryStatusVO_new (DeliveryStatusVO_arg s) = Inr s \<and>
   DeliveryStatusVO_new (JStr (lower t)) = DeliveryStatusVO_new (JStr t) \<and>
   DeliveryStatusVO_new (JStr (upper t)) = DeliveryStatusVO_new (JStr t)"
proof -
  have "DeliveryStatusVO_new (JStr (lower t)) = DeliveryStatusVO_new (JStr t)"
       "DeliveryStatusVO_new (JStr (upper t)) = DeliveryStatusVO_new (JStr t)"
    by (simp_all add: DeliveryStatusVO_new_def)
  then show ?thesis
    by (simp add: DeliveryStatusVO_new_Inr_iff createStatusObj_def DeliveryStatusVO_arg_def
        DeliveryStatusVO_kind_def rawVal_def js_String_def)
qed

text \<open>On every truthy argument, of whatever shape and text, exactly one of the five free
  predicates holds: text that is no status at all counts as failed, so the predicates split even
  the inputs the constructor rejects.\<close>

theorem status_predicates_partition:
  "js_truthy a \<longleftrightarrow>
   length (filter (\<lambda>p. p a) [isPending, isProcessing, isCompleted, isScheduledRetry, isFailedDLQ]) = 1"
  by (auto simp: isPending_def isProcessing_def isCompleted_def isScheduledRetry_def
      isFailedDLQ_def Let_def)

lemma emailRegex_nonempty [simp]: "\<not> emailRegex []"
  by (simp add: emailRegex_def)

text \<open>An accepted identifier is in normal form: constructing it again from its own value
  returns that value, it carries no surrounding white space, an agent id is 1 to 255 characters of
  the allowed alphabet, and an e-mail id matches the address expression; equality of e-mail ids is
  equality up to letter case, so normalising twice is the same as once.\<close>

theorem identifiers_normal_form:
  "(AgentId_new a = Inr v \<longrightarrow>
      AgentId_new (JStr v) = Inr v \<and> trim v = v \<and> v \<noteq> [] \<and> length v \<le> 255 \<and>
      (\<forall>c \<in> set v. agent_char c)) \<and>
   (EmailId_new a = Inr v \<longrightarrow>
      EmailId_new (JStr v) = Inr v \<and> trim v = v \<and> emailRegex v \<and> EmailId_equals (upper v) v)"
  by (auto simp: AgentId_new_def EmailId_new_def EmailId_equals_def Let_def list_all_iff
      split: js_arg.splits if_splits)

theorem identifiers_normal_form_witness:
  "AgentId_new (JStr '' agent_7 '') = Inr ''agent_7'' \<and> AgentId_new (JStr ''agent_7'') = Inr ''agent_7'' \<and>
   EmailId_new (JStr ''A.b@ex-1.org '') = Inr ''A.b@ex-1.org'' \<and>
   EmailId_new (JStr ''A.b@ex-1.org'') = Inr ''A.b@ex-1.org''"
proof -
  have "AgentId_new (JStr '' agent_7 '') = Inr ''agent_7''" "EmailId_new (JStr ''A.b@ex-1.org '') = Inr ''A.b@ex-1.org''"
    by code_simp+
  with identifiers_normal_form [of "JStr '' agent_7 ''" "''agent_7''"]
       identifiers_normal_form [of "JStr ''A.b@ex-1.org ''" "''A.b@ex-1.org''"]
  show ?thesis by blast
qed

text \<open>Within the valid codes, \<open>isRetryable\<close> of the status code and of the error made from it
  agree, and every 4xx or 5xx code is either retryable or a permanent failure, never both. The
  list behind \<open>isPermanentError\<close> is strictly smaller than its comment says (4xx except 408 and
  429): 405 is a permanent failure outside it.\<close>

theorem status_code_retryability:
  "HttpStatusCode_new x = Inr c \<longrightarrow>
     (\<exists>e. DeliveryError_fromStatusCode c m = Inr e \<and> de_statusCode e = Some c \<and>
        (DeliveryError_isRetryable e \<longleftrightarrow> HttpStatusCode_isRetryable c) \<and>
        (de_category e = PERMANENT \<longleftrightarrow> HttpStatusCode_isPermanentFailure c)) \<and>
     (400 \<le> c \<longrightarrow> HttpStatusCode_isRetryable c \<noteq> HttpStatusCode_isPermanentFailure c) \<and>
     (HttpStatusCode_isPermanentError c \<longrightarrow> HttpStatusCode_isPermanentFailure c) \<and>
     HttpStatusCode_isPermanentFailure 405 \<and> \<not> HttpStatusCode_isPermanentError 405"
proof
  assume "HttpStatusCode_new x = Inr c"
  then have "100 \<le> c" "c \<le> 599"
    by (auto simp: HttpStatusCode_new_def split: option.splits if_splits)
  moreover have "str_or m (''HTTP Status Code '' @ show_int c) \<noteq> []"
    by (simp add: str_or_def split: option.splits)
  ultimately show "(\<exists>e. DeliveryError_fromStatusCode c m = Inr e \<and> de_statusCode e = Some c \<and>
        (DeliveryError_isRetryable e \<longleftrightarrow> HttpStatusCode_isRetryable c) \<and>
        (de_category e = PERMANENT \<longleftrightarrow> HttpStatusCode_isPermanentFailure c)) \<and>
     (400 \<le> c \<longrightarrow> HttpStatusCode_isRetryable c \<noteq> HttpStatusCode_isPermanentFailure c) \<and>
     (HttpStatusCode_isPermanentError c \<longrightarrow> HttpStatusCode_isPermanentFailure c) \<and>
     HttpStatusCode_isPermanentFailure 405 \<and> \<not> HttpStatusCode_isPermanentError 405"
    by (auto simp: DeliveryError_fromStatusCode_def Let_def DeliveryError_isRetryable_def
        HttpStatusCode_isRetryable_def HttpStatusCode_isPermanentFailure_def
        HttpStatusCode_isServerError_def HttpStatusCode_isClientError_def
        HttpStatusCode_isPermanentError_def)
qed

theorem status_code_retryability_witness:
  "\<exists>e. DeliveryError_fromStatusCode 503 None = Inr e \<and> de_statusCode e = Some 503 \<and> DeliveryError_isRetryable e"
proof -
  have "HttpStatusCode_new (Some 503) = Inr 503" by (simp add: HttpStatusCode_new_def)
  then show ?thesis using status_code_retryability [of "Some 503" 503 None]
    by (auto simp: HttpStatusCode_isRetryable_def HttpStatusCode_isServerError_def)
qed

end
