(* ===== verification/QF_Backoff.thy ===== *)
theory QF_Backoff
  imports QF_Values
begin

text \<open>
  The backoff calculators: \<open>RetryStrategyVO\<close> of the domain, \<open>BackoffCalculator\<close>,
  \<open>calculateExponentialBackoff\<close> and \<open>RetryEngine\<close> of \<open>resilience/retry\<close>. A draw of
  \<open>Math.random\<close> is the argument \<open>r\<close>, with \<open>0 \<le> r < 1\<close>; configured delays are integers, jitter
  factors are rationals. The locale \<open>backoff\<close> states what a retry loop needs from a calculator;
  all four are interpreted in it.
\<close>

subsection \<open>RetryStrategyVO\<close>

record RetryConfig =
  initialDelayMs :: int
  maxDelayMs :: int
  jitterFactor :: rat
  maxRetries :: "int option"

record RetryStrategyVO =
  rs_type :: string
  rs_config :: RetryConfig

definition RetryStrategyVO_new :: "string \<Rightarrow> RetryConfig option \<Rightarrow> domain_error + RetryStrategyVO" where
  "RetryStrategyVO_new type config = (case config of None \<Rightarrow> Inl ValidationError
     | Some c \<Rightarrow>
         if initialDelayMs c < 0 \<or> maxDelayMs c < 0 then Inl ValidationError
         else if initialDelayMs c > maxDelayMs c then Inl ValidationError
         else if jitterFactor c < 0 \<or> jitterFactor c > 1 then Inl ValidationError
         else Inr \<lparr> rs_type = upper type, rs_config = c \<rparr>)"

definition RetryStrategyVO_equals :: "RetryStrategyVO \<Rightarrow> RetryStrategyVO \<Rightarrow> bool" where
  "RetryStrategyVO_equals a b \<longleftrightarrow> rs_type a = rs_type b \<and>
     initialDelayMs (rs_config a) = initialDelayMs (rs_config b) \<and>
     maxDelayMs (rs_config a) = maxDelayMs (rs_config b) \<and>
     jitterFactor (rs_config a) = jitterFactor (rs_config b) \<and>
     maxRetries (rs_config a) = maxRetries (rs_config b)"

definition with_jitter :: "rat \<Rightarrow> rat \<Rightarrow> rat \<Rightarrow> rat" where
  "with_jitter jf r base = base + (if jf > 0 then base * jf * r else 0)"

definition RetryStrategyVO_calculateDelay :: "RetryStrategyVO \<Rightarrow> rat \<Rightarrow> int \<Rightarrow> int" where
  "RetryStrategyVO_calculateDelay vo r attemptNumber =
     (let c = rs_config vo; attempt = max 1 attemptNumber;
          delay = (if rs_type vo = ''EXPONENTIAL''
                   then with_jitter (jitterFactor c) r (of_int (initialDelayMs c * 2 ^ nat (attempt - 1)))
                   else if rs_type vo = ''LINEAR''
                   then with_jitter (jitterFactor c) r (of_int (initialDelayMs c * attempt))
                   else of_int (initialDelayMs c))
      in min \<lfloor>delay\<rfloor> (maxDelayMs c))"

definition RetryStrategyVO_calculateBackoff :: "RetryStrategyVO \<Rightarrow> rat \<Rightarrow> int \<Rightarrow> int" where
  "RetryStrategyVO_calculateBackoff vo r attemptNumber =
     (if attemptNumber \<le> 1 then RetryStrategyVO_calculateDelay vo r 1
      else let c = rs_config vo;
               delay = with_jitter (jitterFactor c) r (of_int (initialDelayMs c * 2 ^ nat attemptNumber))
           in min \<lfloor>delay\<rfloor> (maxDelayMs c))"

definition RetryStrategyVO_maxRetries :: "RetryStrategyVO \<Rightarrow> int" where
  "RetryStrategyVO_maxRetries vo = nullish_or (maxRetries (rs_config vo)) 5"

definition RetryStrategyVO_isMaxRetriesExceeded :: "RetryStrategyVO \<Rightarrow> int \<Rightarrow> int option \<Rightarrow> bool" where
  "RetryStrategyVO_isMaxRetriesExceeded vo attemptCount maxR \<longleftrightarrow>
     attemptCount \<ge> nullish_or (maxRetries (rs_config vo)) (nullish_or maxR 5)"

definition RetryStrategyVO_canRetry :: "RetryStrategyVO \<Rightarrow> int \<Rightarrow> bool" where
  "RetryStrategyVO_canRetry vo attemptCount \<longleftrightarrow>
     \<not> RetryStrategyVO_isMaxRetriesExceeded vo attemptCount None"

definition RetryStrategyVO_toString :: "RetryStrategyVO \<Rightarrow> string" where
  "RetryStrategyVO_toString vo = rs_type vo @ '':'' @ show_int (initialDelayMs (rs_config vo)) @ '':''
     @ show_int (maxDelayMs (rs_config vo))"

definition RetryStrategyVO_exponential ::
  "int option \<Rightarrow> int option \<Rightarrow> rat option \<Rightarrow> int option \<Rightarrow> domain_error + RetryStrategyVO" where
  "RetryStrategyVO_exponential initial maxD jf maxR = RetryStrategyVO_new ''EXPONENTIAL''
     (Some \<lparr> initialDelayMs = nullish_or initial 1000, maxDelayMs = nullish_or maxD 3600000,
             jitterFactor = nullish_or jf (1 / 10), maxRetries = Some (nullish_or maxR 5) \<rparr>)"

definition RetryStrategyVO_linear ::
  "int option \<Rightarrow> int option \<Rightarrow> rat option \<Rightarrow> int option \<Rightarrow> domain_error + RetryStrategyVO" where
  "RetryStrategyVO_linear delay maxD jf maxR = RetryStrategyVO_new ''LINEAR''
     (Some \<lparr> initialDelayMs = nullish_or delay 1000, maxDelayMs = nullish_or maxD 3600000,
             jitterFactor = nullish_or jf 0, maxRetries = Some (nullish_or maxR 5) \<rparr>)"

definition RetryStrategyVO_fixed :: "int option \<Rightarrow> int option \<Rightarrow> domain_error + RetryStrategyVO" where
  "RetryStrategyVO_fixed delay maxR = RetryStrategyVO_new ''FIXED''
     (Some \<lparr> initialDelayMs = nullish_or delay 1000, maxDelayMs = nullish_or delay 1000,
             jitterFactor = 0, maxRetries = Some (nullish_or maxR 5) \<rparr>)"

definition RetryStrategyVO_create :: "string \<Rightarrow> RetryConfig option \<Rightarrow> domain_error + RetryStrategyVO" where
  "RetryStrategyVO_create type config = RetryStrategyVO_new type (Some (nullish_or config
     \<lparr> initialDelayMs = 1000, maxDelayMs = 3600000, jitterFactor = 1 / 10, maxRetries = None \<rparr>))"

text \<open>The constant object \<open>RetryStrategy\<close> and its overloaded \<open>create\<close>.\<close>

datatype create_first = FirstNumber int | FirstType string
datatype create_second = SecondNumber int | SecondConfig RetryConfig | SecondAbsent

definition RetryStrategy_create ::
  "create_first \<Rightarrow> create_second \<Rightarrow> int option \<Rightarrow> rat option \<Rightarrow> domain_error + RetryStrategyVO" where
  "RetryStrategy_create a b maxRetriesOrJitter jitterOrMaxRetries = (case a of
       FirstNumber initial \<Rightarrow>
         (let maxD = (case b of SecondNumber n \<Rightarrow> n | _ \<Rightarrow> 3600000);
              maxR = nullish_or maxRetriesOrJitter 5;
              jf = nullish_or jitterOrMaxRetries (1 / 10) in
          if maxR \<le> 0 then Inl ValidationError
          else RetryStrategyVO_exponential (Some initial) (Some maxD) (Some jf) (Some maxR))
     | FirstType t \<Rightarrow> (case b of
           SecondConfig c \<Rightarrow> RetryStrategyVO_create t (Some c)
         | _ \<Rightarrow> RetryStrategyVO_exponential None None None None))"

definition RetryStrategy_calculateBackoff :: "int \<Rightarrow> rat" where
  "RetryStrategy_calculateBackoff attempt = 1000 * 2 powi (attempt - 1)"

subsection \<open>BackoffCalculator\<close>

definition exponentialBackoff :: "rat \<Rightarrow> int \<Rightarrow> int \<Rightarrow> int \<Rightarrow> rat \<Rightarrow> int" where
  "exponentialBackoff r attempt baseDelay maxDelay jf =
     (let attemptIndex = max 0 (attempt - 1);
          rawDelay = of_int (baseDelay * 2 ^ nat attemptIndex) :: rat;
          jitter = rawDelay * (r * jf)
      in \<lfloor>min (rawDelay + jitter) (of_int maxDelay)\<rfloor>)"

definition linearBackoff :: "int \<Rightarrow> int \<Rightarrow> int \<Rightarrow> int" where
  "linearBackoff attempt delay maxDelay = min (delay * max 1 attempt) maxDelay"

definition fixedBackoff :: "rat \<Rightarrow> int" where
  "fixedBackoff delay = \<lfloor>max 0 delay\<rfloor>"

definition exponentialBackoffWithJitter :: "rat \<Rightarrow> int \<Rightarrow> int \<Rightarrow> int \<Rightarrow> rat \<Rightarrow> int" where
  "exponentialBackoffWithJitter = exponentialBackoff"

subsection \<open>calculateExponentialBackoff and RetryEngine\<close>

definition calculateExponentialBackoff ::
  "rat \<Rightarrow> int \<Rightarrow> int \<Rightarrow> int \<Rightarrow> rat \<Rightarrow> domain_error + int" where
  "calculateExponentialBackoff r retryCount baseMs maxMs jf =
     (if retryCount < 0 then Inl ValidationError
      else if baseMs \<le> 0 then Inl ValidationError
      else if maxMs < baseMs then Inl ValidationError
      else if jf < 0 \<or> jf > 1 then Inl ValidationError
      else let backoff = of_int (2 ^ nat retryCount * baseMs) :: rat;
               jitter = r * (backoff * jf)
           in Inr (min maxMs \<lceil>backoff + jitter\<rceil>))"

record ResilienceRetry =
  cfg_maxRetries :: "int option"
  cfg_backoffBaseMs :: "int option"
  cfg_backoffMaxMs :: "int option"
  cfg_backoffJitterFactor :: "rat option"

record RetryParams =
  p_maxRetries :: int
  p_baseMs :: int
  p_maxMs :: int
  p_jitterFactor :: rat

definition getRetryConfig :: "ResilienceRetry \<Rightarrow> domain_error + RetryParams" where
  "getRetryConfig config =
     (let maxR = nullish_or (cfg_maxRetries config) 5;
          baseMs = nullish_or (cfg_backoffBaseMs config) 1000;
          maxMs = nullish_or (cfg_backoffMaxMs config) 3600000;
          jf = nullish_or (cfg_backoffJitterFactor config) 1 in
      if maxR < 0 then Inl ValidationError
      else if baseMs \<le> 0 then Inl ValidationError
      else if maxMs < baseMs then Inl ValidationError
      else if jf < 0 \<or> jf > 1 then Inl ValidationError
      else Inr \<lparr> p_maxRetries = maxR, p_baseMs = baseMs, p_maxMs = maxMs, p_jitterFactor = jf \<rparr>)"

definition RetryEngine_calculateBackoff :: "ResilienceRetry \<Rightarrow> rat \<Rightarrow> int \<Rightarrow> domain_error + int" where
  "RetryEngine_calculateBackoff config r retryCount =
     bindE (getRetryConfig config) (\<lambda>p.
       calculateExponentialBackoff r retryCount (p_baseMs p) (p_maxMs p) (p_jitterFactor p))"

text \<open>An error given to \<open>RetryEngine.isRetryable\<close>: its own \<open>isRetryable\<close> method if it has one, its
  status (\<open>statusCode || status\<close>) and its message.\<close>

record engine_error =
  ee_isRetryable :: "bool option"
  ee_statusCode :: "int option"
  ee_status :: "int option"
  ee_exn :: js_exn

definition RetryEngine_isRetryable :: "engine_error option \<Rightarrow> bool" where
  "RetryEngine_isRetryable error = (case error of None \<Rightarrow> False
     | Some e \<Rightarrow> (case ee_isRetryable e of Some b \<Rightarrow> b
         | None \<Rightarrow> (let status = num_or (ee_statusCode e) (num_or (ee_status e) 0) in
             if status \<noteq> 0 then status = 429 \<or> status = 408 \<or> (status \<ge> 500 \<and> status \<le> 599)
             else list_ex (includes_str (exn_msg (ee_exn e)))
               [''ECONNRESET'', ''ETIMEDOUT'', ''EADDRINUSE'', ''ECONNREFUSED'', ''Connection Timeout''])))"

subsection \<open>The contract of a backoff calculator\<close>

text \<open>The waits of a run of retries, from attempt \<open>n\<close> on, one random draw each.\<close>

fun waits :: "('c \<Rightarrow> rat \<Rightarrow> int \<Rightarrow> int) \<Rightarrow> 'c \<Rightarrow> int \<Rightarrow> rat list \<Rightarrow> int list" where
  "waits delay c n [] = []"
| "waits delay c n (r # rs) = delay c r n # waits delay c (n + 1) rs"

definition draws :: "rat list \<Rightarrow> bool" where
  "draws rs \<longleftrightarrow> list_all (\<lambda>r. 0 \<le> r \<and> r < 1) rs"

lemma draws_simps [simp]: "draws []" "draws (r # rs) \<longleftrightarrow> 0 \<le> r \<and> r < 1 \<and> draws rs"
  by (auto simp: draws_def)

lemma length_waits [simp]: "length (waits delay c n rs) = length rs"
  by (induction rs arbitrary: n) auto

locale backoff =
  fixes delay :: "'c \<Rightarrow> rat \<Rightarrow> int \<Rightarrow> int"
    and valid :: "'c \<Rightarrow> bool"
    and base :: "'c \<Rightarrow> int"
    and cap :: "'c \<Rightarrow> int"
  assumes lower: "\<lbrakk> valid c; 0 \<le> r; 1 \<le> n \<rbrakk> \<Longrightarrow> min (base c) (cap c) \<le> delay c r n"
    and upper: "valid c \<Longrightarrow> delay c r n \<le> cap c"
begin

lemma waits_bounds:
  "\<lbrakk> valid c; draws rs; 1 \<le> n \<rbrakk> \<Longrightarrow>
    \<forall>w \<in> set (waits delay c n rs). min (base c) (cap c) \<le> w \<and> w \<le> cap c"
proof (induction rs arbitrary: n)
  case (Cons r rs)
  then show ?case using lower[of c r n] upper[of c r n] Cons.IH[of "n + 1"] by simp
qed simp

lemma total_wait:
  assumes "valid c" "draws rs" "1 \<le> n"
  shows "int (length rs) * min (base c) (cap c) \<le> sum_list (waits delay c n rs)"
    and "sum_list (waits delay c n rs) \<le> int (length rs) * cap c"
  using assms
proof (induction rs arbitrary: n)
  case (Cons r rs)
  { case 1
    then show ?case using Cons.IH(1)[of "n + 1"] lower[of c r n] by (simp add: algebra_simps) }
  { case 2
    then show ?case using Cons.IH(2)[of "n + 1"] upper[of c r n] by (simp add: algebra_simps) }
qed simp_all

end

locale rising_backoff = backoff +
  fixes rises :: "'c \<Rightarrow> bool"
  assumes rising: "\<lbrakk> valid c; rises c; 0 \<le> r; r < 1; 0 \<le> r'; 1 \<le> n \<rbrakk> \<Longrightarrow>
    delay c r n \<le> delay c r' (n + 1)"
begin

lemma waits_sorted:
  "\<lbrakk> valid c; rises c; draws rs; 1 \<le> n \<rbrakk> \<Longrightarrow> sorted (waits delay c n rs)"
proof (induction rs arbitrary: n)
  case (Cons r rs)
  then have tl: "sorted (waits delay c (n + 1) rs)" by simp
  show ?case
  proof (cases rs)
    case (Cons r' rs')
    with \<open>valid c\<close> \<open>rises c\<close> \<open>draws (r # rs)\<close> \<open>1 \<le> n\<close> have "delay c r n \<le> delay c r' (n + 1)"
      by (intro rising) auto
    with tl Cons show ?thesis by fastforce
  qed simp
qed simp

end

lemma with_jitter_eq: "0 \<le> jf \<Longrightarrow> with_jitter jf r b = b * (1 + jf * r)"
  by (auto simp: with_jitter_def algebra_simps)

lemma jitter_unit:
  assumes "0 \<le> (jf :: rat)" "jf \<le> 1" "0 \<le> r" "r < 1"
  shows "0 \<le> jf * r" "jf * r \<le> 1"
proof -
  show "0 \<le> jf * r" using assms by simp
  have "jf * r \<le> 1 * 1" using assms by (intro mult_mono) auto
  then show "jf * r \<le> 1" by simp
qed

lemma le_with_jitter: "\<lbrakk> 0 \<le> jf; 0 \<le> r; 0 \<le> (b :: rat) \<rbrakk> \<Longrightarrow> b \<le> b * (1 + jf * r)"
  by (simp add: algebra_simps)

lemma doubling_dominates:
  assumes "0 \<le> (jf :: rat)" "jf \<le> 1" "0 \<le> r" "r < 1" "0 \<le> r'" "0 \<le> b"
  shows "b * 2 ^ k * (1 + jf * r) \<le> b * 2 ^ Suc k * (1 + jf * r')"
proof -
  have "b * 2 ^ k * (1 + jf * r) \<le> b * 2 ^ k * 2"
    using jitter_unit(2) [OF assms(1-4)] assms by (intro mult_left_mono) auto
  also have "\<dots> = b * 2 ^ Suc k" by simp
  also have "\<dots> \<le> b * 2 ^ Suc k * (1 + jf * r')" using assms by (intro le_with_jitter) auto
  finally show ?thesis .
qed

lemma base_le_doubled: "0 \<le> (b :: int) \<Longrightarrow> b \<le> b * 2 ^ k"
  using mult_left_mono [of 1 "2 ^ k" b] by simp

subsection \<open>The calculators meet the contract\<close>

definition valid_strategy :: "RetryStrategyVO \<Rightarrow> bool" where
  "valid_strategy vo \<longleftrightarrow> (let c = rs_config vo in
     0 \<le> initialDelayMs c \<and> initialDelayMs c \<le> maxDelayMs c \<and> 0 \<le> jitterFactor c \<and> jitterFactor c \<le> 1)"

definition rising_strategy :: "RetryStrategyVO \<Rightarrow> bool" where
  "rising_strategy vo \<longleftrightarrow> (rs_type vo = ''LINEAR'' \<longrightarrow> jitterFactor (rs_config vo) = 0)"

definition valid_params :: "RetryParams \<Rightarrow> bool" where
  "valid_params p \<longleftrightarrow> 0 < p_baseMs p \<and> p_baseMs p \<le> p_maxMs p \<and> 0 \<le> p_jitterFactor p \<and> p_jitterFactor p \<le> 1"

text \<open>The calculators over the same parameters, attempt numbers starting at 1;
  \<open>calculateExponentialBackoff\<close> counts retries from 0.\<close>

definition calculator_delay :: "RetryParams \<Rightarrow> rat \<Rightarrow> int \<Rightarrow> int" where
  "calculator_delay p r n = exponentialBackoff r n (p_baseMs p) (p_maxMs p) (p_jitterFactor p)"

definition engine_delay :: "RetryParams \<Rightarrow> rat \<Rightarrow> int \<Rightarrow> int" where
  "engine_delay p r n =
     (case calculateExponentialBackoff r (n - 1) (p_baseMs p) (p_maxMs p) (p_jitterFactor p) of
        Inr d \<Rightarrow> d | Inl _ \<Rightarrow> p_maxMs p)"

lemma RetryStrategyVO_new_valid:
  "RetryStrategyVO_new t c = Inr vo \<Longrightarrow> valid_strategy vo \<and> rs_type vo = upper t \<and> c = Some (rs_config vo)"
  by (auto simp: RetryStrategyVO_new_def valid_strategy_def Let_def split: option.splits if_splits)

lemma getRetryConfig_valid: "getRetryConfig config = Inr p \<Longrightarrow> valid_params p \<and> 0 \<le> p_maxRetries p"
  by (auto simp: getRetryConfig_def valid_params_def Let_def split: if_splits)

lemma nat_pred_add [simp]: "1 \<le> (n :: int) \<Longrightarrow> nat (n + 1 - 1) = Suc (nat (n - 1))" "1 \<le> n \<Longrightarrow> nat n = Suc (nat (n - 1))"
  by auto

lemma calculateDelay_cases:
  assumes "valid_strategy vo" "1 \<le> n"
  shows "rs_type vo = ''EXPONENTIAL'' \<Longrightarrow> RetryStrategyVO_calculateDelay vo r n =
      min \<lfloor>of_int (initialDelayMs (rs_config vo)) * 2 ^ nat (n - 1) * (1 + jitterFactor (rs_config vo) * r)\<rfloor>
          (maxDelayMs (rs_config vo))"
    and "rs_type vo = ''LINEAR'' \<Longrightarrow> RetryStrategyVO_calculateDelay vo r n =
      min \<lfloor>of_int (initialDelayMs (rs_config vo) * n) * (1 + jitterFactor (rs_config vo) * r)\<rfloor>
          (maxDelayMs (rs_config vo))"
    and "\<lbrakk> rs_type vo \<noteq> ''EXPONENTIAL''; rs_type vo \<noteq> ''LINEAR'' \<rbrakk> \<Longrightarrow>
      RetryStrategyVO_calculateDelay vo r n = initialDelayMs (rs_config vo)"
  using assms
  by (auto simp: RetryStrategyVO_calculateDelay_def Let_def with_jitter_eq valid_strategy_def)

lemma strategy_lower:
  assumes "valid_strategy vo" "0 \<le> r" "1 \<le> n"
  shows "initialDelayMs (rs_config vo) \<le> RetryStrategyVO_calculateDelay vo r n"
proof -
  let ?i = "initialDelayMs (rs_config vo)" and ?j = "jitterFactor (rs_config vo)"
  have v: "0 \<le> ?i" "?i \<le> maxDelayMs (rs_config vo)" "0 \<le> ?j"
    using assms by (auto simp: valid_strategy_def Let_def)
  have grow: "?i \<le> \<lfloor>of_int b * (1 + ?j * r)\<rfloor>" if "?i \<le> b" for b
  proof -
    have "of_int ?i \<le> (of_int b :: rat)" using that by simp
    also have "\<dots> \<le> of_int b * (1 + ?j * r)" using v assms that by (intro le_with_jitter) auto
    finally show ?thesis by (simp add: le_floor_iff)
  qed
  consider "rs_type vo = ''EXPONENTIAL''" | "rs_type vo = ''LINEAR''"
    | "rs_type vo \<noteq> ''EXPONENTIAL''" "rs_type vo \<noteq> ''LINEAR''" by blast
  then show ?thesis
  proof cases
    case 1
    with v show ?thesis using grow [OF base_le_doubled, of "nat (n - 1)"]
      by (simp add: calculateDelay_cases [OF assms(1,3)])
  next
    case 2
    have "?i \<le> ?i * n" using v assms mult_left_mono [of 1 n ?i] by simp
    with 2 v show ?thesis using grow [of "?i * n"] by (simp add: calculateDelay_cases [OF assms(1,3)])
  qed (simp add: calculateDelay_cases [OF assms(1,3)])
qed

lemma strategy_rising:
  assumes "valid_strategy vo" "rising_strategy vo" "0 \<le> r" "r < 1" "0 \<le> r'" "1 \<le> n"
  shows "RetryStrategyVO_calculateDelay vo r n \<le> RetryStrategyVO_calculateDelay vo r' (n + 1)"
proof -
  let ?i = "initialDelayMs (rs_config vo)" and ?j = "jitterFactor (rs_config vo)"
  have v: "0 \<le> ?i" "0 \<le> ?j" "?j \<le> 1" using assms by (auto simp: valid_strategy_def Let_def)
  have n1: "1 \<le> n + 1" using assms by simp
  note eqs = calculateDelay_cases [OF assms(1,6)] calculateDelay_cases [OF assms(1) n1]
  consider "rs_type vo = ''EXPONENTIAL''" | "rs_type vo = ''LINEAR''" "?j = 0"
    | "rs_type vo \<noteq> ''EXPONENTIAL''" "rs_type vo \<noteq> ''LINEAR''"
    using assms(2) by (auto simp: rising_strategy_def)
  then show ?thesis
  proof cases
    case 1
    have "\<lfloor>of_int ?i * 2 ^ nat (n - 1) * (1 + ?j * r)\<rfloor> \<le> \<lfloor>of_int ?i * 2 ^ nat (n + 1 - 1) * (1 + ?j * r')\<rfloor>"
      unfolding nat_pred_add(1) [OF assms(6)]
      using v assms by (intro floor_mono doubling_dominates) auto
    then show ?thesis unfolding eqs(1,4) [OF 1] by (rule min.mono) simp
  next
    case 2
    have "?i * n \<le> ?i * (n + 1)" using v by (simp add: algebra_simps)
    then show ?thesis unfolding eqs(2,5) [OF 2(1)] 2(2)
      by (intro min.mono) (simp_all del: of_int_mult)
  qed (simp add: eqs)
qed

interpretation strategy: rising_backoff RetryStrategyVO_calculateDelay valid_strategy
  "\<lambda>vo. initialDelayMs (rs_config vo)" "\<lambda>vo. maxDelayMs (rs_config vo)" rising_strategy
proof unfold_locales
  show "min (initialDelayMs (rs_config c)) (maxDelayMs (rs_config c)) \<le> RetryStrategyVO_calculateDelay c r n"
    if "valid_strategy c" "0 \<le> r" "1 \<le> n" for c r n
    using strategy_lower [OF that] by simp
  show "RetryStrategyVO_calculateDelay c r n \<le> maxDelayMs (rs_config c)"
    if "valid_strategy c" for c r n
    by (simp add: RetryStrategyVO_calculateDelay_def Let_def)
qed (rule strategy_rising)

lemma floor_min: "\<lfloor>min x (of_int m)\<rfloor> = min \<lfloor>x\<rfloor> m" for x :: rat
proof (cases "x \<le> of_int m")
  case True
  then have "\<lfloor>x\<rfloor> \<le> m" using floor_mono [of x "of_int m"] by simp
  with True show ?thesis by (simp add: min_absorb1)
next
  case False
  then have "m \<le> \<lfloor>x\<rfloor>" by (simp add: le_floor_iff)
  with False show ?thesis by (simp add: min_absorb2)
qed

lemma exponentialBackoff_eq:
  "1 \<le> n \<Longrightarrow> exponentialBackoff r n b m j = min \<lfloor>of_int b * 2 ^ nat (n - 1) * (1 + j * r)\<rfloor> m"
  by (simp add: exponentialBackoff_def Let_def floor_min algebra_simps)

lemma engine_delay_eq:
  "\<lbrakk> valid_params p; 1 \<le> n \<rbrakk> \<Longrightarrow> engine_delay p r n =
     min \<lceil>of_int (p_baseMs p) * 2 ^ nat (n - 1) * (1 + p_jitterFactor p * r)\<rceil> (p_maxMs p)"
  by (auto simp: engine_delay_def calculateExponentialBackoff_def valid_params_def Let_def
      algebra_simps min.commute)

lemma calculateExponentialBackoff_ok:
  "\<lbrakk> valid_params p; 1 \<le> n \<rbrakk> \<Longrightarrow>
    calculateExponentialBackoff r (n - 1) (p_baseMs p) (p_maxMs p) (p_jitterFactor p) = Inr (engine_delay p r n)"
  by (auto simp: engine_delay_def calculateExponentialBackoff_def valid_params_def Let_def)

lemma params_base_le:
  assumes "valid_params p" "0 \<le> r"
  shows "of_int (p_baseMs p) \<le> (of_int (p_baseMs p) * 2 ^ k * (1 + p_jitterFactor p * r) :: rat)"
proof -
  have "p_baseMs p \<le> p_baseMs p * 2 ^ k" using assms by (intro base_le_doubled) (simp add: valid_params_def)
  then have "of_int (p_baseMs p) \<le> (of_int (p_baseMs p * 2 ^ k) :: rat)" by (simp only: of_int_le_iff)
  also have "\<dots> \<le> of_int (p_baseMs p * 2 ^ k) * (1 + p_jitterFactor p * r)"
    using assms by (intro le_with_jitter) (auto simp: valid_params_def)
  finally show ?thesis by simp
qed

lemma params_doubling:
  assumes "valid_params p" "0 \<le> r" "r < 1" "0 \<le> r'" "1 \<le> n"
  shows "of_int (p_baseMs p) * 2 ^ nat (n - 1) * (1 + p_jitterFactor p * r)
    \<le> (of_int (p_baseMs p) * 2 ^ nat (n + 1 - 1) * (1 + p_jitterFactor p * r') :: rat)"
  unfolding nat_pred_add(1) [OF assms(5)]
  using assms by (intro doubling_dominates) (auto simp: valid_params_def)

interpretation calculator: rising_backoff calculator_delay valid_params p_baseMs p_maxMs "\<lambda>_. True"
proof unfold_locales
  show "min (p_baseMs c) (p_maxMs c) \<le> calculator_delay c r n" if "valid_params c" "0 \<le> r" "1 \<le> n" for c r n
    using params_base_le [OF that(1,2), of "nat (n - 1)"] that
    by (simp add: calculator_delay_def exponentialBackoff_eq le_floor_iff min.coboundedI1)
  show "calculator_delay c r n \<le> p_maxMs c" for c r n
    by (simp add: calculator_delay_def exponentialBackoff_def Let_def floor_min)
  show "calculator_delay c r n \<le> calculator_delay c r' (n + 1)"
    if "valid_params c" "0 \<le> r" "r < 1" "0 \<le> r'" "1 \<le> n" for c r r' n
    using floor_mono [OF params_doubling [OF that]] that
    by (simp add: calculator_delay_def exponentialBackoff_eq min.coboundedI1)
qed

interpretation engine: rising_backoff engine_delay valid_params p_baseMs p_maxMs "\<lambda>_. True"
proof unfold_locales
  show "min (p_baseMs c) (p_maxMs c) \<le> engine_delay c r n" if "valid_params c" "0 \<le> r" "1 \<le> n" for c r n
    using order_trans [OF params_base_le [OF that(1,2)] le_of_int_ceiling] that
    by (auto simp: engine_delay_eq min_le_iff_disj)
  show "engine_delay c r n \<le> p_maxMs c" if "valid_params c" for c r n
    using that by (auto simp: engine_delay_def calculateExponentialBackoff_def Let_def)
  show "engine_delay c r n \<le> engine_delay c r' (n + 1)"
    if "valid_params c" "0 \<le> r" "r < 1" "0 \<le> r'" "1 \<le> n" for c r r' n
    using ceiling_mono [OF params_doubling [OF that]] that
    by (simp add: engine_delay_eq min.coboundedI1)
qed

subsection \<open>Properties\<close>

text \<open>A run of retries under any strategy the constructor accepts waits between the initial
  and the maximal delay each time, so at most as many maximal delays as there are retries in
  total; and except for a linear strategy with jitter the waits never get shorter, whatever
  \<open>Math.random\<close> returns.\<close>

theorem strategy_waits:
  assumes "RetryStrategyVO_new t (Some c) = Inr vo" "draws rs"
  shows "(\<forall>w \<in> set (waits RetryStrategyVO_calculateDelay vo 1 rs).
            initialDelayMs c \<le> w \<and> w \<le> maxDelayMs c) \<and>
         int (length rs) * initialDelayMs c \<le> sum_list (waits RetryStrategyVO_calculateDelay vo 1 rs) \<and>
         sum_list (waits RetryStrategyVO_calculateDelay vo 1 rs) \<le> int (length rs) * maxDelayMs c \<and>
         (upper t \<noteq> ''LINEAR'' \<or> jitterFactor c = 0 \<longrightarrow>
            sorted (waits RetryStrategyVO_calculateDelay vo 1 rs))"
proof -
  have v: "valid_strategy vo" "rs_type vo = upper t" "rs_config vo = c"
    using RetryStrategyVO_new_valid [OF assms(1)] by auto
  then have "initialDelayMs c \<le> maxDelayMs c" by (simp add: valid_strategy_def Let_def)
  then show ?thesis
    using v assms strategy.waits_bounds [of vo rs 1] strategy.total_wait [of vo rs 1]
      strategy.waits_sorted [of vo rs 1]
    by (auto simp: rising_strategy_def min_absorb1)
qed

theorem strategy_waits_witness:
  "\<exists>vo. RetryStrategyVO_new ''EXPONENTIAL'' (Some \<lparr> initialDelayMs = 1000, maxDelayMs = 3000,
      jitterFactor = 1 / 10, maxRetries = None \<rparr>) = Inr vo \<and>
    waits RetryStrategyVO_calculateDelay vo 1 [0, 1 / 2, 9 / 10] = [1000, 2100, 3000] \<and>
    sorted (waits RetryStrategyVO_calculateDelay vo 1 [0, 1 / 2, 9 / 10])"
proof -
  let ?c = "\<lparr> initialDelayMs = 1000, maxDelayMs = 3000, jitterFactor = 1 / 10, maxRetries = None \<rparr>"
  let ?vo = "\<lparr> rs_type = ''EXPONENTIAL'', rs_config = ?c \<rparr>"
  have new: "RetryStrategyVO_new ''EXPONENTIAL'' (Some ?c) = Inr ?vo"
    by (simp add: RetryStrategyVO_new_def upper_char_def)
  have "waits RetryStrategyVO_calculateDelay ?vo 1 [0, 1 / 2, 9 / 10] = [1000, 2100, 3000]"
    by (simp add: RetryStrategyVO_calculateDelay_def with_jitter_def)
  moreover have "sorted (waits RetryStrategyVO_calculateDelay ?vo 1 [0, 1 / 2, 9 / 10])"
    using strategy_waits [OF new, of "[0, 1 / 2, 9 / 10]"] by (simp add: upper_char_def)
  ultimately show ?thesis using new by (intro exI [of _ ?vo] conjI)
qed

text \<open>C32: The three implementations of exponential backoff agree: under a configuration the engine
  accepts, the domain strategy and \<open>BackoffCalculator\<close> give the same wait for every attempt and
  random draw, and \<open>RetryEngine\<close>, which counts retries from 0 and rounds up instead of down, gives
  that wait or one millisecond more.\<close>

theorem backoff_implementations_agree:
  assumes "getRetryConfig config = Inr p" "0 \<le> r" "1 \<le> n"
    and "vo = \<lparr> rs_type = ''EXPONENTIAL'', rs_config = \<lparr> initialDelayMs = p_baseMs p,
      maxDelayMs = p_maxMs p, jitterFactor = p_jitterFactor p, maxRetries = Some (p_maxRetries p) \<rparr> \<rparr>"
  shows "RetryStrategyVO_calculateDelay vo r n =
           exponentialBackoff r n (p_baseMs p) (p_maxMs p) (p_jitterFactor p) \<and>
         (\<exists>d. RetryEngine_calculateBackoff config r (n - 1) = Inr d \<and>
            RetryStrategyVO_calculateDelay vo r n \<le> d \<and>
            d \<le> RetryStrategyVO_calculateDelay vo r n + 1)"
proof -
  have p: "valid_params p" using getRetryConfig_valid [OF assms(1)] by simp
  then have "valid_strategy vo" by (simp add: assms(4) valid_strategy_def valid_params_def)
  then have vo: "RetryStrategyVO_calculateDelay vo r n =
      min \<lfloor>of_int (p_baseMs p) * 2 ^ nat (n - 1) * (1 + p_jitterFactor p * r)\<rfloor> (p_maxMs p)"
    using assms(3,4) by (simp add: calculateDelay_cases)
  moreover have "RetryEngine_calculateBackoff config r (n - 1) = Inr (engine_delay p r n)"
    using assms(1,3) p by (simp add: RetryEngine_calculateBackoff_def calculateExponentialBackoff_ok)
  moreover have "min \<lfloor>x\<rfloor> m \<le> min \<lceil>x\<rceil> m \<and> min \<lceil>x\<rceil> m \<le> min \<lfloor>x\<rfloor> m + 1" for x :: rat and m
    using ceiling_diff_floor_le_1 [of x] floor_le_ceiling [of x] by linarith
  ultimately show ?thesis
    using p assms(3) by (simp add: exponentialBackoff_eq engine_delay_eq)
qed

theorem backoff_implementations_agree_witness:
  "RetryStrategyVO_calculateDelay \<lparr> rs_type = ''EXPONENTIAL'', rs_config = \<lparr> initialDelayMs = 100,
      maxDelayMs = 500, jitterFactor = 1, maxRetries = Some 5 \<rparr> \<rparr> (1 / 3) 2 = 266 \<and>
   exponentialBackoff (1 / 3) 2 100 500 1 = 266 \<and>
   RetryEngine_calculateBackoff \<lparr> cfg_maxRetries = None, cfg_backoffBaseMs = Some 100,
      cfg_backoffMaxMs = Some 500, cfg_backoffJitterFactor = None \<rparr> (1 / 3) 1 = Inr 267"
proof -
  let ?cfg = "\<lparr> cfg_maxRetries = None, cfg_backoffBaseMs = Some 100,
      cfg_backoffMaxMs = Some 500, cfg_backoffJitterFactor = None \<rparr>"
  let ?p = "\<lparr> p_maxRetries = 5, p_baseMs = 100, p_maxMs = 500, p_jitterFactor = 1 \<rparr>"
  have c: "getRetryConfig ?cfg = Inr ?p" by (simp add: getRetryConfig_def)
  then have "RetryEngine_calculateBackoff ?cfg (1 / 3) 1 = Inr 267" "exponentialBackoff (1 / 3) 2 100 500 1 = 266"
    by (simp_all add: RetryEngine_calculateBackoff_def calculateExponentialBackoff_def
        exponentialBackoff_def floor_eq_iff ceiling_eq_iff)
  with backoff_implementations_agree [OF c, of "1 / 3" 2] show ?thesis by auto
qed

text \<open>\<open>calculateBackoff\<close> is documented as an alias of \<open>calculateDelay\<close> but raises 2 to the
  attempt number instead of the attempt number minus 1: from the second attempt on an exponential
  strategy answers the wait of the next attempt, strictly longer wherever the cap does not hide
  it.\<close>

theorem calculateBackoff_is_one_attempt_ahead:
  assumes "RetryStrategyVO_new ''EXPONENTIAL'' (Some c) = Inr vo" "2 \<le> n"
  shows "RetryStrategyVO_calculateBackoff vo r n = RetryStrategyVO_calculateDelay vo r (n + 1) \<and>
         (0 < initialDelayMs c \<and> initialDelayMs c * 2 ^ nat (n - 1) < maxDelayMs c \<longrightarrow>
            RetryStrategyVO_calculateDelay vo 0 n < RetryStrategyVO_calculateBackoff vo 0 n)"
proof -
  have v: "valid_strategy vo" "rs_type vo = ''EXPONENTIAL''" "rs_config vo = c"
    using RetryStrategyVO_new_valid [OF assms(1)] by (auto simp: upper_char_def)
  have ahead: "RetryStrategyVO_calculateBackoff vo r n = RetryStrategyVO_calculateDelay vo r (n + 1)" for r
    using assms(2) v by (simp add: RetryStrategyVO_calculateBackoff_def RetryStrategyVO_calculateDelay_def Let_def)
  have eqs: "RetryStrategyVO_calculateDelay vo 0 n = min (initialDelayMs c * 2 ^ nat (n - 1)) (maxDelayMs c)"
    "RetryStrategyVO_calculateDelay vo 0 (n + 1) = min (initialDelayMs c * 2 ^ nat (n + 1 - 1)) (maxDelayMs c)"
    using assms(2) v
    by (simp_all add: RetryStrategyVO_calculateDelay_def Let_def with_jitter_def del: of_int_mult of_int_power)
  have "0 < initialDelayMs c \<Longrightarrow> initialDelayMs c * 2 ^ nat (n - 1) < initialDelayMs c * 2 ^ nat (n + 1 - 1)"
    using assms(2) by simp
  then show ?thesis unfolding ahead eqs by auto
qed

theorem calculateBackoff_is_one_attempt_ahead_witness:
  "\<exists>vo. RetryStrategyVO_exponential None None None None = Inr vo \<and>
     RetryStrategyVO_calculateDelay vo 0 3 = 4000 \<and> RetryStrategyVO_calculateBackoff vo 0 3 = 8000"
proof -
  let ?c = "\<lparr> initialDelayMs = 1000, maxDelayMs = 3600000, jitterFactor = 1 / 10, maxRetries = Some 5 \<rparr>"
  let ?vo = "\<lparr> rs_type = ''EXPONENTIAL'', rs_config = ?c \<rparr>"
  have n: "RetryStrategyVO_new ''EXPONENTIAL'' (Some ?c) = Inr ?vo"
    by (simp add: RetryStrategyVO_new_def upper_char_def)
  have "RetryStrategyVO_exponential None None None None = Inr ?vo"
    using n by (simp add: RetryStrategyVO_exponential_def)
  moreover have "RetryStrategyVO_calculateDelay ?vo 0 3 = 4000" "RetryStrategyVO_calculateDelay ?vo 0 4 = 8000"
    by (simp_all add: RetryStrategyVO_calculateDelay_def with_jitter_def)
  ultimately show ?thesis using calculateBackoff_is_one_attempt_ahead [OF n, of 3 0] by auto
qed

end
