(* ===== verification/QF_Delivery.thy ===== *)
theory QF_Delivery
  imports QF_Backoff
begin

text \<open>
  The entity \<open>Delivery\<close> (\<open>domain/entities/delivery.entity.ts\<close>): its record, its constructor,
  factories and mutating methods. A method takes the clock reading \<open>now\<close> and, where it draws a
  jittered delay, the draw \<open>r\<close>, and returns the object after the call with the exception, if any.
\<close>

record Delivery =
  dl_id :: string
  dl_taskResultId :: string
  dl_destinationId :: string
  dl_status :: DeliveryStatus
  dl_retryCount :: int
  dl_nextRetryAt :: "ms option"
  dl_lastAttemptAt :: "ms option"
  dl_lastError :: "DeliveryError option"
  dl_completedAt :: "ms option"
  dl_createdAt :: ms
  dl_updatedAt :: ms
  dl_attempts :: "RetryAttempt list"
  dl_deletedAt :: "ms option"

subsection \<open>Construction\<close>

definition Delivery_new ::
  "ms \<Rightarrow> string \<Rightarrow> string \<Rightarrow> string \<Rightarrow> DeliveryStatus \<Rightarrow> int \<Rightarrow> ms option \<Rightarrow> ms option \<Rightarrow>
   DeliveryError option \<Rightarrow> ms option \<Rightarrow> ms option \<Rightarrow> ms option \<Rightarrow> RetryAttempt list \<Rightarrow> ms option \<Rightarrow>
   domain_error + Delivery" where
  "Delivery_new now eid taskResultId destinationId status retryCount nextRetryAt lastAttemptAt
     lastError completedAt createdAt updatedAt attempts deletedAt =
     (if eid = [] then Inl ValidationError
      else if taskResultId = [] then Inl ValidationError
      else if destinationId = [] then Inl ValidationError
      else Inr \<lparr> dl_id = eid, dl_taskResultId = taskResultId, dl_destinationId = destinationId,
        dl_status = status, dl_retryCount = retryCount, dl_nextRetryAt = nextRetryAt,
        dl_lastAttemptAt = lastAttemptAt, dl_lastError = lastError, dl_completedAt = completedAt,
        dl_createdAt = nullish_or createdAt now,
        dl_updatedAt = nullish_or updatedAt (nullish_or createdAt now),
        dl_attempts = attempts, dl_deletedAt = deletedAt \<rparr>)"

text \<open>\<open>id || uuidv4()\<close>: the generated identifier is an argument.\<close>

definition Delivery_create :: "ms \<Rightarrow> string \<Rightarrow> string \<Rightarrow> string \<Rightarrow> string option \<Rightarrow> domain_error + Delivery" where
  "Delivery_create now uuid taskResultId destinationId did =
     Delivery_new now (str_or did uuid) taskResultId destinationId PENDING 0 None None None None
       (Some now) (Some now) [] None"

text \<open>Rows read back from persistence: errors and attempts are instances or plain objects.\<close>

datatype restore_error =
    ErrInstance DeliveryError
  | ErrPlain "string option" "string option" string "int option"

datatype restore_attempt =
    AttInstance RetryAttempt
  | AttPlain "int option" "int option" "int option" "string option" "rat option" "ms option"

record restore_params =
  rp_id :: string
  rp_taskResultId :: string
  rp_destinationId :: string
  rp_status :: js_arg
  rp_retryCount :: "int option"
  rp_nextRetryAt :: "ms option"
  rp_lastAttemptAt :: "ms option"
  rp_lastError :: "restore_error option"
  rp_completedAt :: "ms option"
  rp_createdAt :: ms
  rp_updatedAt :: "ms option"
  rp_attempts :: "restore_attempt list option"
  rp_deletedAt :: "ms option"

definition restore_status :: "js_arg \<Rightarrow> domain_error + DeliveryStatus" where
  "restore_status status = DeliveryStatusVO_new (case status of
       JObj k v \<Rightarrow> (if str_or k [] \<noteq> [] then JStr (str_or k [])
                    else if str_or v [] \<noteq> [] then JStr (str_or v []) else status)
     | _ \<Rightarrow> status)"

definition restore_lastError :: "restore_error \<Rightarrow> domain_error + DeliveryError" where
  "restore_lastError e = (case e of ErrInstance de \<Rightarrow> Inr de
     | ErrPlain category message text statusCode \<Rightarrow>
         DeliveryError_new (str_or category ''UNKNOWN'') (str_or message text)
           (case statusCode of None \<Rightarrow> Absent | Some n \<Rightarrow> Code n) None)"

definition restore_one_attempt :: "ms \<Rightarrow> restore_attempt \<Rightarrow> domain_error + RetryAttempt" where
  "restore_one_attempt now a = (case a of AttInstance att \<Rightarrow> Inr att
     | AttPlain number attemptNumber statusCode error latencyMs timestamp \<Rightarrow>
         RetryAttempt_new now (num_or number (num_or attemptNumber 1)) statusCode error latencyMs timestamp)"

definition Delivery_restore :: "ms \<Rightarrow> restore_params \<Rightarrow> domain_error + Delivery" where
  "Delivery_restore now params =
     bindE (restore_status (rp_status params)) (\<lambda>statusObj.
     bindE (case rp_lastError params of None \<Rightarrow> Inr None
              | Some e \<Rightarrow> bindE (restore_lastError e) (\<lambda>x. Inr (Some x))) (\<lambda>errObj.
     bindE (mapE (restore_one_attempt now) (nullish_or (rp_attempts params) [])) (\<lambda>attemptsObj.
       Delivery_new now (rp_id params) (rp_taskResultId params) (rp_destinationId params) statusObj
         (nullish_or (rp_retryCount params) 0) (rp_nextRetryAt params) (rp_lastAttemptAt params) errObj
         (rp_completedAt params) (Some (rp_createdAt params)) (rp_updatedAt params) attemptsObj
         (rp_deletedAt params))))"

subsection \<open>Operations\<close>

definition markAsProcessing :: "ms \<Rightarrow> Delivery \<Rightarrow> (Delivery, domain_error) eff" where
  "markAsProcessing now d =
     (if dl_status d \<noteq> PENDING \<and> dl_status d \<noteq> SCHEDULED_RETRY
      then throw d (InvalidDeliveryStateError (status_str (dl_status d)) ''PROCESSING'')
      else ret (d\<lparr> dl_status := PROCESSING, dl_lastAttemptAt := Some now, dl_updatedAt := now \<rparr>))"

definition markAsCompleted :: "ms \<Rightarrow> ms option \<Rightarrow> Delivery \<Rightarrow> (Delivery, domain_error) eff" where
  "markAsCompleted now completedAt d =
     (if dl_status d \<noteq> PROCESSING
      then throw d (InvalidDeliveryStateError (status_str (dl_status d)) ''COMPLETED'')
      else let t = nullish_or completedAt now in
        ret (d\<lparr> dl_status := COMPLETED, dl_completedAt := Some t, dl_nextRetryAt := None,
               dl_updatedAt := t \<rparr>))"

text \<open>The argument of \<open>scheduleRetry\<close>: a delay in milliseconds or a date.\<close>

datatype retry_when = After int | At ms

definition scheduleRetry :: "ms \<Rightarrow> retry_when \<Rightarrow> Delivery \<Rightarrow> Delivery" where
  "scheduleRetry now delay d = d\<lparr> dl_status := SCHEDULED_RETRY,
     dl_nextRetryAt := Some (case delay of After n \<Rightarrow> now + max 0 n | At t \<Rightarrow> t), dl_updatedAt := now \<rparr>"

definition moveToRetry :: "ms \<Rightarrow> rat \<Rightarrow> RetryStrategyVO \<Rightarrow> Delivery \<Rightarrow> Delivery" where
  "moveToRetry now r strategy d =
     scheduleRetry now (After (RetryStrategyVO_calculateDelay strategy r (dl_retryCount d))) d"

definition moveToDeadLetterQueue :: "ms \<Rightarrow> string \<Rightarrow> Delivery \<Rightarrow> (Delivery, domain_error) eff" where
  "moveToDeadLetterQueue now reason d =
     (let d1 = d\<lparr> dl_status := FAILED_DLQ \<rparr>;
          finish = (\<lambda>d. ret (d\<lparr> dl_nextRetryAt := None, dl_updatedAt := now \<rparr>)) in
      case dl_lastError d1 of
        Some _ \<Rightarrow> finish d1
      | None \<Rightarrow> (case DeliveryError_new ''PERMANENT'' reason Absent None of
            Inl e \<Rightarrow> throw d1 e
          | Inr err \<Rightarrow> finish (d1\<lparr> dl_lastError := Some err \<rparr>)))"

text \<open>What a failed attempt hands over: an error instance, a string, or anything else with an
  optional message.\<close>

datatype fail_arg = FailError DeliveryError | FailText string | FailOther "string option"

definition errObj_of :: "fail_arg \<Rightarrow> domain_error + DeliveryError" where
  "errObj_of error = (case error of FailError e \<Rightarrow> Inr e
     | FailText s \<Rightarrow> DeliveryError_new ''UNKNOWN'' s Absent None
     | FailOther m \<Rightarrow> DeliveryError_new ''UNKNOWN'' (str_or m ''Delivery failed'') Absent None)"

datatype retry_arg = NoStrategy | RetryFlag bool | Strategy RetryStrategyVO

definition markAsFailed ::
  "ms \<Rightarrow> rat \<Rightarrow> fail_arg \<Rightarrow> retry_arg \<Rightarrow> int \<Rightarrow> Delivery \<Rightarrow> (Delivery, domain_error) eff" where
  "markAsFailed now r error retryStrategy maxR d =
     (if dl_status d \<noteq> PROCESSING
      then throw d (InvalidDeliveryStateError (status_str (dl_status d)) ''SCHEDULED_RETRY'')
      else case errObj_of error of
        Inl e \<Rightarrow> throw d e
      | Inr errObj \<Rightarrow>
          (let d1 = d\<lparr> dl_lastError := Some errObj, dl_retryCount := dl_retryCount d + 1 \<rparr> in
           if \<not> DeliveryError_isRetryable errObj \<or> dl_retryCount d1 \<ge> maxR
           then moveToDeadLetterQueue now (de_message errObj) d1
           else case retryStrategy of
             Strategy s \<Rightarrow> ret (moveToRetry now r s d1)
           | _ \<Rightarrow> ret (scheduleRetry now (After (1000 * 2 ^ nat (dl_retryCount d1))) d1)))"

definition incrementRetryCount :: "ms \<Rightarrow> Delivery \<Rightarrow> Delivery" where
  "incrementRetryCount now d = d\<lparr> dl_retryCount := dl_retryCount d + 1, dl_updatedAt := now \<rparr>"

definition markFailed ::
  "ms \<Rightarrow> fail_arg \<Rightarrow> retry_arg \<Rightarrow> int \<Rightarrow> Delivery \<Rightarrow> (Delivery, domain_error) eff" where
  "markFailed now error retryStrategy maxR d =
     (case errObj_of error of Inl e \<Rightarrow> throw d e
      | Inr errObj \<Rightarrow>
          (let d1 = d\<lparr> dl_lastError := Some errObj,
                       dl_retryCount := (if dl_retryCount d = 0 then 1 else dl_retryCount d) \<rparr>;
               isRetry = (case retryStrategy of RetryFlag b \<Rightarrow> b
                 | Strategy s \<Rightarrow> RetryStrategyVO_canRetry s (dl_retryCount d1) | NoStrategy \<Rightarrow> True) in
           if \<not> isRetry \<or> dl_retryCount d1 \<ge> maxR
           then moveToDeadLetterQueue now (de_message errObj) d1
           else ret (d1\<lparr> dl_status := SCHEDULED_RETRY, dl_updatedAt := now \<rparr>)))"

definition addAttempt :: "ms \<Rightarrow> RetryAttempt \<Rightarrow> Delivery \<Rightarrow> Delivery" where
  "addAttempt now attempt d = d\<lparr> dl_attempts := dl_attempts d @ [attempt],
     dl_lastAttemptAt := Some (ra_timestamp attempt), dl_updatedAt := now \<rparr>"

definition Delivery_canRetry :: "int option \<Rightarrow> Delivery \<Rightarrow> bool" where
  "Delivery_canRetry maxR d =
     (if DeliveryStatusVO_isFinal (dl_status d) then False else dl_retryCount d < nullish_or maxR 5)"

definition shouldMoveToDeadLetterQueue :: "int \<Rightarrow> bool" where
  "shouldMoveToDeadLetterQueue statusCode \<longleftrightarrow>
     statusCode \<ge> 400 \<and> statusCode < 500 \<and> statusCode \<noteq> 408 \<and> statusCode \<noteq> 429"

definition Delivery_equals :: "Delivery \<Rightarrow> Delivery \<Rightarrow> bool" where
  "Delivery_equals a b \<longleftrightarrow> dl_id a = dl_id b"

subsection \<open>The lifecycle contract\<close>

text \<open>What a delivery promises, abstracted to its status and its count of failures.\<close>

datatype delivery_event = Begin | Succeed | Fail bool

fun delivery_spec :: "int \<Rightarrow> DeliveryStatus \<times> int \<Rightarrow> delivery_event \<Rightarrow> (DeliveryStatus \<times> int) option" where
  "delivery_spec maxR (st, n) Begin =
     (if st = PENDING \<or> st = SCHEDULED_RETRY then Some (PROCESSING, n) else None)"
| "delivery_spec maxR (st, n) Succeed = (if st = PROCESSING then Some (COMPLETED, n) else None)"
| "delivery_spec maxR (st, n) (Fail retryable) =
     (if st \<noteq> PROCESSING then None
      else if retryable \<and> n + 1 < maxR then Some (SCHEDULED_RETRY, n + 1)
      else Some (FAILED_DLQ, n + 1))"

definition delivery_abs :: "Delivery \<Rightarrow> DeliveryStatus \<times> int" where
  "delivery_abs d = (dl_status d, dl_retryCount d)"

definition observed :: "(Delivery, domain_error) eff \<Rightarrow> (DeliveryStatus \<times> int) option" where
  "observed m = (case m of (d, None) \<Rightarrow> Some (delivery_abs d) | (_, Some _) \<Rightarrow> None)"

lemma observed_simps [simp]: "observed (ret d) = Some (delivery_abs d)" "observed (throw d e) = None"
  by (simp_all add: observed_def ret_def throw_def)

lemma moveToDeadLetterQueue_known:
  "dl_lastError d = Some e \<Longrightarrow> moveToDeadLetterQueue now reason d =
     ret (d\<lparr> dl_status := FAILED_DLQ, dl_nextRetryAt := None, dl_updatedAt := now \<rparr>)"
  by (simp add: moveToDeadLetterQueue_def)

lemma scheduleRetry_simps [simp]:
  "dl_status (scheduleRetry now w d) = SCHEDULED_RETRY"
  "dl_retryCount (scheduleRetry now w d) = dl_retryCount d"
  "dl_lastError (scheduleRetry now w d) = dl_lastError d"
  "dl_lastAttemptAt (scheduleRetry now w d) = dl_lastAttemptAt d"
  "dl_completedAt (scheduleRetry now w d) = dl_completedAt d"
  "dl_id (scheduleRetry now w d) = dl_id d"
  "dl_status (moveToRetry now r s d) = SCHEDULED_RETRY"
  "dl_retryCount (moveToRetry now r s d) = dl_retryCount d"
  "dl_lastError (moveToRetry now r s d) = dl_lastError d"
  "dl_lastAttemptAt (moveToRetry now r s d) = dl_lastAttemptAt d"
  "dl_id (moveToRetry now r s d) = dl_id d"
  by (simp_all add: scheduleRetry_def moveToRetry_def)

text \<open>The two outcomes of a failed attempt.\<close>

lemma markAsFailed_cases:
  assumes "dl_status d = PROCESSING" "errObj_of error = Inr e"
  obtains (retry) w where "DeliveryError_isRetryable e" "dl_retryCount d + 1 < maxR"
      "markAsFailed now r error strat maxR d = ret (scheduleRetry now w
         (d\<lparr> dl_lastError := Some e, dl_retryCount := dl_retryCount d + 1 \<rparr>))"
      "\<And>s. strat = Strategy s \<Longrightarrow> w = After (RetryStrategyVO_calculateDelay s r (dl_retryCount d + 1))"
  | (dlq) "\<not> DeliveryError_isRetryable e \<or> maxR \<le> dl_retryCount d + 1"
      "markAsFailed now r error strat maxR d = ret (d\<lparr> dl_lastError := Some e,
         dl_retryCount := dl_retryCount d + 1, dl_status := FAILED_DLQ, dl_nextRetryAt := None,
         dl_updatedAt := now \<rparr>)"
proof (cases "\<not> DeliveryError_isRetryable e \<or> maxR \<le> dl_retryCount d + 1")
  case True
  then show ?thesis using assms
    by (intro dlq) (auto simp: markAsFailed_def moveToDeadLetterQueue_known)
next
  case False
  then show ?thesis using assms
    by (cases strat) (auto intro!: retry simp: markAsFailed_def moveToRetry_def not_le)
qed

text \<open>C2: The entity implements its contract: with a usable error object, each guarded method
  throws exactly where the contract has no step and otherwise reaches the contract's next status
  and failure count; a method that throws leaves the delivery as it was.\<close>

theorem delivery_refines_contract:
  "observed (markAsProcessing now d) = delivery_spec maxR (delivery_abs d) Begin \<and>
   observed (markAsCompleted now cat d) = delivery_spec maxR (delivery_abs d) Succeed \<and>
   (errObj_of error = Inr e \<longrightarrow>
      observed (markAsFailed now r error strat maxR d) =
        delivery_spec maxR (delivery_abs d) (Fail (DeliveryError_isRetryable e))) \<and>
   (\<forall>m \<in> {markAsProcessing now d, markAsCompleted now cat d, markAsFailed now r error strat maxR d}.
      snd m \<noteq> None \<longrightarrow> fst m = d)"
proof -
  have fail: "observed (markAsFailed now r error strat maxR d) =
        delivery_spec maxR (delivery_abs d) (Fail (DeliveryError_isRetryable e))"
    if "errObj_of error = Inr e"
  proof (cases "dl_status d = PROCESSING")
    case True
    then show ?thesis using that
      by (rule markAsFailed_cases [where now = now and r = r and strat = strat and maxR = maxR])
        (auto simp: delivery_abs_def \<open>dl_status d = PROCESSING\<close>)
  qed (simp add: markAsFailed_def delivery_abs_def)
  have keep: "fst (markAsFailed now r error strat maxR d) = d"
    if "snd (markAsFailed now r error strat maxR d) \<noteq> None"
  proof (cases "\<exists>e. errObj_of error = Inr e \<and> dl_status d = PROCESSING")
    case True
    then obtain e where "dl_status d = PROCESSING" "errObj_of error = Inr e" by blast
    from this that show ?thesis
      by - (rule markAsFailed_cases [where now = now and r = r and strat = strat and maxR = maxR], auto)
  next
    case False
    then show ?thesis by (auto simp: markAsFailed_def split: sum.splits)
  qed
  have "observed (markAsProcessing now d) = delivery_spec maxR (delivery_abs d) Begin"
    "observed (markAsCompleted now cat d) = delivery_spec maxR (delivery_abs d) Succeed"
    "snd (markAsProcessing now d) \<noteq> None \<longrightarrow> fst (markAsProcessing now d) = d"
    "snd (markAsCompleted now cat d) \<noteq> None \<longrightarrow> fst (markAsCompleted now cat d) = d"
    by (simp_all add: markAsProcessing_def markAsCompleted_def delivery_abs_def Let_def)
  with fail keep show ?thesis by (intro conjI impI ballI) auto
qed

subsection \<open>Invariant and reachable deliveries\<close>

definition delivery_wf :: "int \<Rightarrow> Delivery \<Rightarrow> bool" where
  "delivery_wf maxR d \<longleftrightarrow> 0 \<le> dl_retryCount d \<and> dl_retryCount d \<le> maxR \<and>
     (dl_status d = PENDING \<longrightarrow> dl_retryCount d = 0) \<and>
     (dl_status d \<noteq> FAILED_DLQ \<longrightarrow> dl_retryCount d < maxR) \<and>
     (dl_status d = PROCESSING \<longrightarrow> dl_lastAttemptAt d \<noteq> None) \<and>
     (dl_status d = COMPLETED \<longrightarrow> dl_completedAt d \<noteq> None \<and> dl_nextRetryAt d = None) \<and>
     (dl_status d = SCHEDULED_RETRY \<longrightarrow> dl_nextRetryAt d \<noteq> None \<and> dl_lastError d \<noteq> None) \<and>
     (dl_status d = FAILED_DLQ \<longrightarrow> dl_lastError d \<noteq> None \<and> dl_nextRetryAt d = None)"

text \<open>One step of a delivery through its guarded methods, under a retry limit.\<close>

inductive lifecycle_step :: "int \<Rightarrow> Delivery \<Rightarrow> Delivery \<Rightarrow> bool" for maxR where
  begin_step: "markAsProcessing now d = ret d' \<Longrightarrow> lifecycle_step maxR d d'"
| complete_step: "markAsCompleted now cat d = ret d' \<Longrightarrow> lifecycle_step maxR d d'"
| fail_step: "markAsFailed now r error strat maxR d = ret d' \<Longrightarrow> lifecycle_step maxR d d'"
| attempt_step: "addAttempt now attempt d = d' \<Longrightarrow> lifecycle_step maxR d d'"

inductive_cases lifecycle_stepE: "lifecycle_step maxR d d'"

inductive reachable :: "int \<Rightarrow> Delivery \<Rightarrow> bool" for maxR where
  created: "Delivery_create now uuid t ds did = Inr d \<Longrightarrow> reachable maxR d"
| stepped: "\<lbrakk> reachable maxR d; lifecycle_step maxR d d' \<rbrakk> \<Longrightarrow> reachable maxR d'"

lemma markAsProcessing_ret:
  "markAsProcessing now d = ret d' \<longleftrightarrow> (dl_status d = PENDING \<or> dl_status d = SCHEDULED_RETRY) \<and>
     d' = d\<lparr> dl_status := PROCESSING, dl_lastAttemptAt := Some now, dl_updatedAt := now \<rparr>"
  by (auto simp: markAsProcessing_def)

lemma markAsCompleted_ret:
  "markAsCompleted now cat d = ret d' \<longleftrightarrow> dl_status d = PROCESSING \<and>
     d' = d\<lparr> dl_status := COMPLETED, dl_completedAt := Some (nullish_or cat now),
             dl_nextRetryAt := None, dl_updatedAt := nullish_or cat now \<rparr>"
  by (auto simp: markAsCompleted_def Let_def)

lemma markAsFailed_ret:
  assumes "markAsFailed now r error strat maxR d = ret d'"
  obtains e where "dl_status d = PROCESSING" "errObj_of error = Inr e"
    "dl_retryCount d' = dl_retryCount d + 1" "dl_lastError d' = Some e"
    "dl_status d' = SCHEDULED_RETRY \<and> dl_nextRetryAt d' \<noteq> None \<and> dl_retryCount d + 1 < maxR \<and>
       DeliveryError_isRetryable e \<or>
     dl_status d' = FAILED_DLQ \<and> dl_nextRetryAt d' = None \<and>
       (\<not> DeliveryError_isRetryable e \<or> maxR \<le> dl_retryCount d + 1)"
proof -
  have p: "dl_status d = PROCESSING" using assms by (auto simp: markAsFailed_def split: if_splits)
  moreover obtain e where e: "errObj_of error = Inr e"
    using assms p by (cases "errObj_of error") (auto simp: markAsFailed_def)
  show ?thesis
    using p e
  proof (rule markAsFailed_cases [where now = now and r = r and strat = strat and maxR = maxR], goal_cases)
    case (1 w)
    then show ?case using p e assms by (intro that) (auto simp: scheduleRetry_def)
  next
    case 2
    then show ?case using p e assms by (intro that) auto
  qed
qed

lemma lifecycle_step_wf:
  assumes "lifecycle_step maxR d d'" "delivery_wf maxR d"
  shows "delivery_wf maxR d'"
  using assms(1)
proof cases
  case (begin_step now)
  then have "d' = d\<lparr> dl_status := PROCESSING, dl_lastAttemptAt := Some now, dl_updatedAt := now \<rparr>"
    "dl_status d = PENDING \<or> dl_status d = SCHEDULED_RETRY" by (auto simp: markAsProcessing_ret)
  then show ?thesis using assms(2) by (cases "dl_status d"; simp add: delivery_wf_def)
next
  case (complete_step now cat)
  then show ?thesis using assms(2) unfolding markAsCompleted_ret delivery_wf_def by simp
next
  case (fail_step now r error strat)
  then show ?thesis using assms(2)
    by (elim markAsFailed_ret) (auto simp: delivery_wf_def)
next
  case (attempt_step now attempt)
  then have "d' = d\<lparr> dl_attempts := dl_attempts d @ [attempt],
      dl_lastAttemptAt := Some (ra_timestamp attempt), dl_updatedAt := now \<rparr>" by (simp add: addAttempt_def)
  then show ?thesis using assms(2) by (cases "dl_status d"; simp add: delivery_wf_def)
qed

lemma Delivery_create_wf: "\<lbrakk> Delivery_create now uuid t ds did = Inr d; 1 \<le> maxR \<rbrakk> \<Longrightarrow> delivery_wf maxR d"
  by (auto simp: Delivery_create_def Delivery_new_def delivery_wf_def split: if_splits)

lemma reachable_wf: "\<lbrakk> reachable maxR d; 1 \<le> maxR \<rbrakk> \<Longrightarrow> delivery_wf maxR d"
  by (induction rule: reachable.induct) (auto intro: Delivery_create_wf lifecycle_step_wf)

lemma lifecycle_step_final:
  "lifecycle_step maxR d d' \<Longrightarrow> DeliveryStatusVO_isFinal (dl_status d) \<Longrightarrow>
    dl_status d' = dl_status d \<and> dl_retryCount d' = dl_retryCount d \<and> dl_lastError d' = dl_lastError d"
  by (erule lifecycle_stepE)
    (auto simp: markAsProcessing_ret markAsCompleted_ret addAttempt_def DeliveryStatusVO_isFinal_def
      elim: markAsFailed_ret)


text \<open>Deliveries for evaluations: one in a given status with a given failure count.\<close>

definition example_delivery :: "DeliveryStatus \<Rightarrow> int \<Rightarrow> Delivery" where
  "example_delivery st n = \<lparr> dl_id = ''d1'', dl_taskResultId = ''t1'', dl_destinationId = ''w1'',
     dl_status = st, dl_retryCount = n, dl_nextRetryAt = None, dl_lastAttemptAt = Some 0,
     dl_lastError = None, dl_completedAt = None, dl_createdAt = 0, dl_updatedAt = 0, dl_attempts = [],
     dl_deletedAt = None \<rparr>"

definition example_error :: "DeliveryErrorCategory \<Rightarrow> DeliveryError" where
  "example_error c = \<lparr> de_category = c, de_message = ''boom'', de_statusCode = None, de_deliveryId = None \<rparr>"

theorem delivery_refines_contract_witness:
  "observed (markAsFailed 10 0 (FailError (example_error SERVER)) NoStrategy 5 (example_delivery PROCESSING 1)) =
     Some (SCHEDULED_RETRY, 2)"
proof -
  have "observed (markAsFailed 10 0 (FailError (example_error SERVER)) NoStrategy 5 (example_delivery PROCESSING 1)) =
      delivery_spec 5 (delivery_abs (example_delivery PROCESSING 1)) (Fail (DeliveryError_isRetryable (example_error SERVER)))"
    using delivery_refines_contract [of 10 "example_delivery PROCESSING 1" 5 None
        "FailError (example_error SERVER)" "example_error SERVER" 0 NoStrategy]
    by (simp add: errObj_of_def)
  then show ?thesis
    by (simp add: delivery_abs_def example_delivery_def example_error_def DeliveryError_isRetryable_def)
qed


subsection \<open>Exhausting the retries\<close>

text \<open>A round of work that fails: the delivery is taken, then marked failed; each round has its
  clock reading, draw, error and strategy.\<close>

fun failing_rounds ::
  "int \<Rightarrow> (ms \<times> rat \<times> DeliveryError \<times> retry_arg) list \<Rightarrow> Delivery \<Rightarrow> (Delivery, domain_error) eff" where
  "failing_rounds maxR [] d = ret d"
| "failing_rounds maxR ((now, r, e, s) # rounds) d =
     andThen (markAsProcessing now d) (\<lambda>d1.
     andThen (markAsFailed now r (FailError e) s maxR d1) (failing_rounds maxR rounds))"

lemma failing_round:
  assumes "dl_status d = PENDING \<or> dl_status d = SCHEDULED_RETRY" "DeliveryError_isRetryable e"
  obtains d' where
    "andThen (markAsProcessing now d) (\<lambda>d1. andThen (markAsFailed now r (FailError e) s maxR d1) f) = f d'"
    "dl_retryCount d' = dl_retryCount d + 1"
    "dl_status d' = (if dl_retryCount d' < maxR then SCHEDULED_RETRY else FAILED_DLQ)"
proof -
  define d1 where "d1 = d\<lparr> dl_status := PROCESSING, dl_lastAttemptAt := Some now, dl_updatedAt := now \<rparr>"
  have p: "markAsProcessing now d = ret d1" using assms(1) by (simp add: markAsProcessing_ret d1_def)
  have "dl_status d1 = PROCESSING" "errObj_of (FailError e) = Inr e"
    by (simp_all add: d1_def errObj_of_def)
  then show ?thesis
    by (rule markAsFailed_cases [where now = now and r = r and strat = s and maxR = maxR])
      (use that p assms(2) in \<open>auto simp: d1_def\<close>)
qed

text \<open>C3: A delivery whose attempts all fail retryably is scheduled again after each failure and
  reaches the dead letter queue exactly when its failures reach the limit; no round is lost or
  repeated, and a further round is refused.\<close>

theorem retries_are_exhausted:
  assumes "dl_status d = PENDING \<or> dl_status d = SCHEDULED_RETRY"
    and "\<forall>(now, r, e, s) \<in> set rounds. DeliveryError_isRetryable e"
    and "rounds \<noteq> []" "dl_retryCount d + int (length rounds) \<le> maxR"
  shows "\<exists>d'. failing_rounds maxR rounds d = ret d' \<and>
    dl_retryCount d' = dl_retryCount d + int (length rounds) \<and>
    dl_status d' = (if dl_retryCount d + int (length rounds) < maxR then SCHEDULED_RETRY else FAILED_DLQ) \<and>
    (dl_status d' = FAILED_DLQ \<longrightarrow>
       (\<forall>now. \<exists>e. markAsProcessing now d' = throw d' e))"
  using assms
proof (induction rounds arbitrary: d)
  case (Cons x rounds)
  obtain now r e s where x: "x = (now, r, e, s)" by (cases x) auto
  with Cons.prems have re: "DeliveryError_isRetryable e" by simp
  obtain d2 where d2: "failing_rounds maxR (x # rounds) d = failing_rounds maxR rounds d2"
    "dl_retryCount d2 = dl_retryCount d + 1"
    "dl_status d2 = (if dl_retryCount d2 < maxR then SCHEDULED_RETRY else FAILED_DLQ)"
    by (rule failing_round [OF Cons.prems(1) re, of now r s maxR "failing_rounds maxR rounds"]) (simp add: x)
  show ?case
  proof (cases "rounds = []")
    case True
    then show ?thesis using d2 by (simp add: markAsProcessing_def)
  next
    case False
    then have "1 \<le> int (length rounds)" by (cases rounds) auto
    moreover have more: "dl_retryCount d2 + int (length rounds) \<le> maxR" using Cons.prems(4) d2(2) by simp
    ultimately have "dl_retryCount d2 < maxR" by linarith
    with d2(3) have "dl_status d2 = SCHEDULED_RETRY" by simp
    with Cons.IH [of d2] Cons.prems False d2(2) more
    show ?thesis unfolding d2(1) by (simp add: add.assoc)
  qed
qed simp

theorem retries_are_exhausted_witness:
  "\<exists>d'. failing_rounds 2 [(1, 0, example_error TIMEOUT, NoStrategy), (9, 0, example_error SERVER, NoStrategy)]
      (example_delivery PENDING 0) = ret d' \<and> dl_retryCount d' = 2 \<and> dl_status d' = FAILED_DLQ"
  using retries_are_exhausted [of "example_delivery PENDING 0"
      "[(1, 0, example_error TIMEOUT, NoStrategy), (9, 0, example_error SERVER, NoStrategy)]" 2]
  by (auto simp: example_delivery_def example_error_def DeliveryError_isRetryable_def)

text \<open>A retryable failure below the limit, under a strategy its constructor accepts, schedules
  the next retry no sooner than the strategy's initial delay from now and no later than its maximal
  delay.\<close>

theorem next_retry_window:
  assumes "RetryStrategyVO_new t (Some c) = Inr vo" "0 \<le> r"
    and "dl_status d = PROCESSING" "0 \<le> dl_retryCount d" "dl_retryCount d + 1 < maxR"
    and "DeliveryError_isRetryable e"
  shows "\<exists>d' t. markAsFailed now r (FailError e) (Strategy vo) maxR d = ret d' \<and>
    dl_nextRetryAt d' = Some t \<and> now + initialDelayMs c \<le> t \<and> t \<le> now + maxDelayMs c"
proof -
  have v: "valid_strategy vo" "rs_config vo = c" using RetryStrategyVO_new_valid [OF assms(1)] by auto
  let ?n = "dl_retryCount d + 1"
  have b: "initialDelayMs c \<le> RetryStrategyVO_calculateDelay vo r ?n"
    "RetryStrategyVO_calculateDelay vo r ?n \<le> maxDelayMs c" "0 \<le> initialDelayMs c"
    using strategy_lower [OF v(1) assms(2), of ?n] strategy.upper [OF v(1), of r ?n] v assms(4)
    by (auto simp: valid_strategy_def Let_def)
  have "errObj_of (FailError e) = Inr e" by (simp add: errObj_of_def)
  with assms(3) show ?thesis
    by (rule markAsFailed_cases [where now = now and r = r and strat = "Strategy vo" and maxR = maxR])
      (use b assms(5,6) in \<open>auto simp: scheduleRetry_def\<close>)
qed

theorem next_retry_window_witness:
  "\<exists>vo d' t. RetryStrategyVO_linear None None None None = Inr vo \<and>
     markAsFailed 50 (1 / 2) (FailError (example_error SERVER)) (Strategy vo) 5 (example_delivery PROCESSING 1) = ret d' \<and>
     dl_nextRetryAt d' = Some t \<and> 1050 \<le> t \<and> t \<le> 3600050"
proof -
  obtain vo where vo: "RetryStrategyVO_new ''LINEAR'' (Some \<lparr> initialDelayMs = 1000, maxDelayMs = 3600000,
      jitterFactor = 0, maxRetries = Some 5 \<rparr>) = Inr vo"
    by (simp add: RetryStrategyVO_new_def)
  then have "RetryStrategyVO_linear None None None None = Inr vo" by (simp add: RetryStrategyVO_linear_def)
  moreover have "dl_status (example_delivery PROCESSING 1) = PROCESSING"
      "dl_retryCount (example_delivery PROCESSING 1) = 1" "DeliveryError_isRetryable (example_error SERVER)"
    by (simp_all add: example_delivery_def example_error_def DeliveryError_isRetryable_def)
  ultimately show ?thesis
    using next_retry_window [OF vo, of "1 / 2" "example_delivery PROCESSING 1" 5 "example_error SERVER" 50] by auto
qed

end
