(* ===== verification/QF_Destination.thy ===== *)
theory QF_Destination
  imports QF_Backoff
begin

text \<open>
  The entities \<open>Destination\<close> and \<open>AiTaskResult\<close> (\<open>domain/entities/destination.entity.ts\<close>,
  \<open>ai-task-result.entity.ts\<close>): construction, validation, restoring, event filters. Values of free
  form (\<open>Record<string, any>\<close>) are \<open>js_val\<close>s: primitives, or references to objects, which strict
  equality compares by identity.
\<close>

datatype js_val = VUndefined | VNull | VBool bool | VNum rat | VNaN | VStr string | VRef nat

definition strict_eq :: "js_val \<Rightarrow> js_val \<Rightarrow> bool" where
  "strict_eq a b \<longleftrightarrow> a = b \<and> a \<noteq> VNaN"

type_synonym js_record = "(string \<times> js_val) list"

definition js_get :: "js_record \<Rightarrow> string \<Rightarrow> js_val" where
  "js_get r k = nullish_or (map_of r k) VUndefined"

subsection \<open>Destination\<close>

record Destination =
  ds_id :: string
  ds_type :: DestinationType
  ds_endpoint :: string
  ds_eventFilters :: "js_record option"
  ds_retryStrategy :: RetryStrategyVO
  ds_circuitBreakerThreshold :: rat
  ds_timeout :: rat
  ds_enabled :: bool
  ds_metadata :: js_record
  ds_createdAt :: ms
  ds_updatedAt :: ms
  ds_deletedAt :: "ms option"

definition validateEndpoint :: "DestinationType \<Rightarrow> string \<Rightarrow> bool" where
  "validateEndpoint type endpoint \<longleftrightarrow>
     (type = WEBHOOK \<longrightarrow> starts_with ''http://'' endpoint \<or> starts_with ''https://'' endpoint)"

text \<open>The constructor; \<open>None\<close> stands for a missing type, strategy, threshold or timeout.\<close>

definition Destination_new ::
  "ms \<Rightarrow> string \<Rightarrow> DestinationType option \<Rightarrow> string \<Rightarrow> js_record option \<Rightarrow> RetryStrategyVO option \<Rightarrow>
   rat option \<Rightarrow> rat option \<Rightarrow> bool option \<Rightarrow> js_record option \<Rightarrow> ms option \<Rightarrow> ms option \<Rightarrow> ms option \<Rightarrow>
   domain_error + Destination" where
  "Destination_new now did type endpoint eventFilters retryStrategy threshold timeout enabled metadata
     createdAt updatedAt deletedAt =
     (if did = [] then Inl ValidationError
      else case type of None \<Rightarrow> Inl ValidationError | Some ty \<Rightarrow>
      if endpoint = [] then Inl ValidationError
      else case retryStrategy of None \<Rightarrow> Inl ValidationError | Some rs \<Rightarrow>
      case threshold of None \<Rightarrow> Inl ValidationError | Some th \<Rightarrow>
      if th < 1 then Inl ValidationError
      else case timeout of None \<Rightarrow> Inl ValidationError | Some tm \<Rightarrow>
      if tm < 1 then Inl ValidationError
      else if \<not> validateEndpoint ty endpoint then Inl ValidationError
      else Inr \<lparr> ds_id = did, ds_type = ty, ds_endpoint = endpoint, ds_eventFilters = eventFilters,
        ds_retryStrategy = rs, ds_circuitBreakerThreshold = th, ds_timeout = tm,
        ds_enabled = nullish_or enabled True, ds_metadata = nullish_or metadata [],
        ds_createdAt = nullish_or createdAt now,
        ds_updatedAt = nullish_or updatedAt (nullish_or createdAt now), ds_deletedAt = deletedAt \<rparr>)"

definition setEnabled :: "ms \<Rightarrow> bool \<Rightarrow> Destination \<Rightarrow> Destination" where
  "setEnabled now enabled d = d\<lparr> ds_enabled := enabled, ds_updatedAt := now \<rparr>"

definition disable :: "ms \<Rightarrow> Destination \<Rightarrow> Destination" where
  "disable now d = setEnabled now False d"

definition setMetadata :: "ms \<Rightarrow> js_record \<Rightarrow> Destination \<Rightarrow> Destination" where
  "setMetadata now metadata d = d\<lparr> ds_metadata := metadata, ds_updatedAt := now \<rparr>"

definition updateCircuitBreakerThreshold ::
  "ms \<Rightarrow> rat \<Rightarrow> Destination \<Rightarrow> (Destination, domain_error) eff" where
  "updateCircuitBreakerThreshold now threshold d =
     (if threshold < 1 then throw d ValidationError
      else ret (d\<lparr> ds_circuitBreakerThreshold := threshold, ds_updatedAt := now \<rparr>))"

text \<open>\<open>for (const [key, filterValue] of Object.entries(...)) if (event[key] !== filterValue) return false\<close>\<close>

fun filter_entries :: "js_record \<Rightarrow> js_record \<Rightarrow> bool" where
  "filter_entries [] event = True"
| "filter_entries ((key, filterValue) # rest) event =
     (if \<not> strict_eq (js_get event key) filterValue then False else filter_entries rest event)"

definition matchesEventFilter :: "Destination \<Rightarrow> js_record \<Rightarrow> bool" where
  "matchesEventFilter d event = (case ds_eventFilters d of None \<Rightarrow> True
     | Some fs \<Rightarrow> if fs = [] then True else filter_entries fs event)"

definition Destination_equals :: "Destination \<Rightarrow> Destination \<Rightarrow> bool" where
  "Destination_equals a b \<longleftrightarrow> ds_id a = ds_id b"

text \<open>A strategy given to \<open>restore\<close> or \<open>create\<close>: an instance, or an object with an optional \<open>type\<close>
  and its configuration (nested under \<open>config\<close> or the object itself).\<close>

datatype strategy_arg =
    StrategyInstance RetryStrategyVO
  | StrategyPlain "string option" RetryConfig

definition restore_strategy :: "strategy_arg option \<Rightarrow> domain_error + RetryStrategyVO" where
  "restore_strategy a = (case a of
       Some (StrategyInstance vo) \<Rightarrow> Inr vo
     | Some (StrategyPlain t c) \<Rightarrow>
         if str_or t [] \<noteq> [] then RetryStrategyVO_create (str_or t []) (Some c)
         else RetryStrategyVO_exponential None None None None
     | None \<Rightarrow> RetryStrategyVO_exponential None None None None)"

definition create_strategy :: "strategy_arg option \<Rightarrow> domain_error + RetryStrategyVO" where
  "create_strategy a = (case a of
       Some (StrategyInstance vo) \<Rightarrow> Inr vo
     | Some (StrategyPlain t c) \<Rightarrow> RetryStrategyVO_create (str_or t ''EXPONENTIAL'') (Some c)
     | None \<Rightarrow> RetryStrategyVO_exponential None None None None)"

record destination_params =
  dp_id :: "string option"
  dp_type :: js_arg
  dp_destinationType :: js_arg
  dp_endpoint :: "string option"
  dp_endpointUrl :: "string option"
  dp_eventFilters :: "js_record option"
  dp_retryStrategy :: "strategy_arg option"
  dp_circuitBreakerThreshold :: "rat option"
  dp_timeout :: "rat option"
  dp_enabled :: "bool option"
  dp_metadata :: "js_record option"
  dp_createdAt :: "ms option"
  dp_updatedAt :: "ms option"
  dp_deletedAt :: "ms option"

definition Destination_restore :: "ms \<Rightarrow> destination_params \<Rightarrow> domain_error + Destination" where
  "Destination_restore now p =
     (let rawType = (if js_truthy (dp_type p) then dp_type p else dp_destinationType p);
          endpointStr = str_or (dp_endpoint p) (str_or (dp_endpointUrl p) []) in
      bindE (DestinationTypeVO_new rawType) (\<lambda>ty.
      bindE (restore_strategy (dp_retryStrategy p)) (\<lambda>rs.
        Destination_new now (str_or (dp_id p) []) (Some ty) endpointStr (dp_eventFilters p) (Some rs)
          (Some (nullish_or (dp_circuitBreakerThreshold p) 5)) (Some (nullish_or (dp_timeout p) 30000))
          (Some (nullish_or (dp_enabled p) True)) (dp_metadata p) (dp_createdAt p) (dp_updatedAt p)
          (dp_deletedAt p))))"

text \<open>\<open>p.circuitBreakerThreshold || 5\<close>: zero falls through to the default here, and is refused by
  the constructor after \<open>restore\<close>.\<close>

definition Destination_create_params :: "ms \<Rightarrow> string \<Rightarrow> destination_params \<Rightarrow> domain_error + Destination" where
  "Destination_create_params now uuid p =
     bindE (DestinationTypeVO_new (dp_type p)) (\<lambda>ty.
     bindE (create_strategy (dp_retryStrategy p)) (\<lambda>rs.
       Destination_new now (str_or (dp_id p) uuid) (Some ty)
         (str_or (dp_endpoint p) (str_or (dp_endpointUrl p) [])) (dp_eventFilters p) (Some rs)
         (Some (rat_or (dp_circuitBreakerThreshold p) 5)) (Some (rat_or (dp_timeout p) 30000))
         (Some (nullish_or (dp_enabled p) True)) (dp_metadata p)
         (Some (nullish_or (dp_createdAt p) now)) (Some (nullish_or (dp_updatedAt p) now)) None))"

definition Destination_create ::
  "ms \<Rightarrow> string \<Rightarrow> DestinationType option \<Rightarrow> string \<Rightarrow> RetryStrategyVO option \<Rightarrow> rat option \<Rightarrow> rat option \<Rightarrow>
   js_record option \<Rightarrow> js_record option \<Rightarrow> string option \<Rightarrow> domain_error + Destination" where
  "Destination_create now uuid type endpoint retryStrategy threshold timeout eventFilters metadata did =
     Destination_new now (str_or did uuid) type endpoint eventFilters retryStrategy
       (Some (nullish_or threshold 5)) (Some (nullish_or timeout 30000)) (Some True) metadata
       (Some now) (Some now) None"

subsection \<open>AiTaskResult\<close>

record AiTaskResult =
  tr_id :: string
  tr_emailId :: string
  tr_agentId :: string
  tr_agentVersion :: string
  tr_confidenceScore :: rat
  tr_resultPayload :: js_val
  tr_metadata :: js_val
  tr_createdAt :: ms
  tr_updatedAt :: ms
  tr_deletedAt :: "ms option"
  tr_events :: nat

text \<open>An argument of the positional factory: a number, a string, an object with \<open>getValue\<close> or
  \<open>value\<close> (a score object of that value), any other object, or nothing.\<close>

datatype slot = SNum rat | SStr string | SScore rat | SObject nat | SNothing

definition slot_truthy :: "slot \<Rightarrow> bool" where
  "slot_truthy s = (case s of SNum x \<Rightarrow> x \<noteq> 0 | SStr t \<Rightarrow> t \<noteq> [] | SScore _ \<Rightarrow> True | SObject _ \<Rightarrow> True
     | SNothing \<Rightarrow> False)"

definition slot_val :: "slot \<Rightarrow> js_val" where
  "slot_val s = (case s of SNum x \<Rightarrow> VNum x | SStr t \<Rightarrow> VStr t | SScore _ \<Rightarrow> VRef 0
     | SObject n \<Rightarrow> VRef n | SNothing \<Rightarrow> VUndefined)"

text \<open>\<open>x || {}\<close>: an empty object is fresh, written as reference 0.\<close>

definition or_empty :: "slot \<Rightarrow> js_val" where
  "or_empty s = (if slot_truthy s then slot_val s else VRef 0)"

definition score_of :: "slot \<Rightarrow> domain_error + rat" where
  "score_of s = (case s of SScore x \<Rightarrow> Inr x | SNum x \<Rightarrow> ConfidenceScore_new (Some x)
     | _ \<Rightarrow> ConfidenceScore_new None)"

text \<open>The private constructor, over the values the factories hand it.\<close>

definition AiTaskResult_new ::
  "ms \<Rightarrow> string \<Rightarrow> string option \<Rightarrow> js_arg \<Rightarrow> js_arg \<Rightarrow> string option \<Rightarrow> slot \<Rightarrow> js_val \<Rightarrow> js_val \<Rightarrow>
   ms option \<Rightarrow> ms option \<Rightarrow> ms option \<Rightarrow> domain_error + AiTaskResult" where
  "AiTaskResult_new now uuid tid emailId agentId agentVersion score payload metadata createdAt updatedAt
     deletedAt =
     bindE (EmailId_new emailId) (\<lambda>em. bindE (AgentId_new agentId) (\<lambda>ag. bindE (score_of score) (\<lambda>sc.
       Inr \<lparr> tr_id = str_or tid uuid, tr_emailId = em, tr_agentId = ag,
         tr_agentVersion = str_or agentVersion ''1.0.0'', tr_confidenceScore = sc,
         tr_resultPayload = payload, tr_metadata = metadata, tr_createdAt = nullish_or createdAt now,
         tr_updatedAt = nullish_or updatedAt now, tr_deletedAt = deletedAt, tr_events = 0 \<rparr>)))"

definition AiTaskResult_isDeleted :: "AiTaskResult \<Rightarrow> bool" where
  "AiTaskResult_isDeleted t \<longleftrightarrow> tr_deletedAt t \<noteq> None"

text \<open>The positional factory: which slot is the score, the payload and the metadata depends on the
  run-time types of the third and fourth arguments.\<close>

definition create_slots :: "slot \<Rightarrow> slot \<Rightarrow> slot \<Rightarrow> slot \<Rightarrow> string \<times> slot \<times> js_val \<times> js_val" where
  "create_slots third fourth fifth sixth =
     (let versioned = (case third of SStr _ \<Rightarrow>
            (case fourth of SNum _ \<Rightarrow> True | SScore _ \<Rightarrow> True | SObject _ \<Rightarrow> True | _ \<Rightarrow> False) | _ \<Rightarrow> False) in
      if versioned then
        (case third of SStr v \<Rightarrow>
          (case fourth of
             SScore x \<Rightarrow> (v, SScore x, or_empty fifth, or_empty sixth)
           | _ \<Rightarrow> (v, (if slot_truthy fifth then fifth else SNum 1), or_empty fourth, or_empty sixth))
         | _ \<Rightarrow> (''1.0.0'', third, or_empty fourth, or_empty fifth))
      else (''1.0.0'', third, or_empty fourth, or_empty fifth))"

definition AiTaskResult_create ::
  "ms \<Rightarrow> string \<Rightarrow> js_arg \<Rightarrow> js_arg \<Rightarrow> slot \<Rightarrow> slot \<Rightarrow> slot \<Rightarrow> slot \<Rightarrow> domain_error + AiTaskResult" where
  "AiTaskResult_create now uuid emailId agentId third fourth fifth sixth =
     (case create_slots third fourth fifth sixth of (version, score, payload, metadata) \<Rightarrow>
        bindE (AiTaskResult_new now uuid None emailId agentId (Some version) score payload metadata
                 None None None) (\<lambda>t. Inr (t\<lparr> tr_events := tr_events t + 1 \<rparr>)))"

definition AiTaskResult_restore ::
  "ms \<Rightarrow> string \<Rightarrow> js_arg \<Rightarrow> js_arg \<Rightarrow> string option \<Rightarrow> slot \<Rightarrow> js_val \<Rightarrow> slot \<Rightarrow> ms \<Rightarrow> ms option \<Rightarrow>
   ms option \<Rightarrow> domain_error + AiTaskResult" where
  "AiTaskResult_restore now tid emailId agentId agentVersion score payload metadata createdAt updatedAt
     deletedAt =
     AiTaskResult_new now [] (Some tid) emailId agentId agentVersion score payload (or_empty metadata)
       (Some createdAt) (Some (nullish_or updatedAt createdAt)) deletedAt"

subsection \<open>Properties\<close>

definition wf_destination :: "Destination \<Rightarrow> bool" where
  "wf_destination d \<longleftrightarrow> ds_id d \<noteq> [] \<and> ds_endpoint d \<noteq> [] \<and> 1 \<le> ds_circuitBreakerThreshold d \<and>
     1 \<le> ds_timeout d \<and> validateEndpoint (ds_type d) (ds_endpoint d)"

lemma Destination_new_wf:
  "Destination_new now did type endpoint fs rs th tm en md ca ua da = Inr d \<Longrightarrow> wf_destination d"
  by (auto simp: Destination_new_def wf_destination_def split: option.splits if_splits)

lemma filter_entries_iff:
  "filter_entries fs event \<longleftrightarrow> (\<forall>(k, v) \<in> set fs. strict_eq (js_get event k) v)"
  by (induction fs) (auto split: if_splits)

text \<open>Every way of making a destination yields one with a usable endpoint, threshold and
  timeout; the mutators keep it so; and an event passes its filters exactly when each filter key
  is strictly equal in the event.\<close>

theorem destination_invariant:
  "(Destination_restore now p = Inr d \<or> Destination_create_params now uuid p = Inr d \<or>
    Destination_create now uuid ty ep rs th tm fs md did = Inr d \<longrightarrow> wf_destination d) \<and>
   (wf_destination d \<longrightarrow> wf_destination (setEnabled now en d) \<and> wf_destination (disable now d) \<and>
      wf_destination (setMetadata now m d) \<and>
      wf_destination (fst (updateCircuitBreakerThreshold now th' d))) \<and>
   (matchesEventFilter d event \<longleftrightarrow> (\<forall>fs'. ds_eventFilters d = Some fs' \<longrightarrow>
      (\<forall>(k, v) \<in> set fs'. strict_eq (js_get event k) v)))"
proof (intro conjI)
  show "Destination_restore now p = Inr d \<or> Destination_create_params now uuid p = Inr d \<or>
    Destination_create now uuid ty ep rs th tm fs md did = Inr d \<longrightarrow> wf_destination d"
    by (auto simp: Destination_restore_def Destination_create_params_def Destination_create_def Let_def
        dest: Destination_new_wf)
  show "wf_destination d \<longrightarrow> wf_destination (setEnabled now en d) \<and> wf_destination (disable now d) \<and>
      wf_destination (setMetadata now m d) \<and>
      wf_destination (fst (updateCircuitBreakerThreshold now th' d))"
    by (auto simp: wf_destination_def setEnabled_def disable_def setMetadata_def
        updateCircuitBreakerThreshold_def)
  show "matchesEventFilter d event \<longleftrightarrow> (\<forall>fs'. ds_eventFilters d = Some fs' \<longrightarrow>
      (\<forall>(k, v) \<in> set fs'. strict_eq (js_get event k) v))"
    by (auto simp: matchesEventFilter_def filter_entries_iff split: option.splits)
qed

theorem destination_invariant_witness:
  "\<exists>d. Destination_create 5 ''u'' (Some WEBHOOK) ''https://x'' (Some \<lparr> rs_type = ''FIXED'', rs_config =
      \<lparr> initialDelayMs = 1, maxDelayMs = 1, jitterFactor = 0, maxRetries = None \<rparr> \<rparr>) None None
      (Some [(''kind'', VStr ''a'')]) None None = Inr d \<and> wf_destination d \<and>
    wf_destination (disable 6 d) \<and> \<not> matchesEventFilter d [(''kind'', VStr ''b'')]"
proof -
  let ?rs = "\<lparr> rs_type = ''FIXED'', rs_config =
      \<lparr> initialDelayMs = 1, maxDelayMs = 1, jitterFactor = 0, maxRetries = None \<rparr> \<rparr>"
  let ?fs = "[(''kind'', VStr ''a'')]"
  obtain d where d: "Destination_create 5 ''u'' (Some WEBHOOK) ''https://x'' (Some ?rs) None None (Some ?fs)
      None None = Inr d" and "ds_eventFilters d = Some ?fs"
    by (simp add: Destination_create_def Destination_new_def validateEndpoint_def)
  then show ?thesis
    using destination_invariant [of 6 undefined d undefined "Some WEBHOOK" "''https://x''" "Some ?rs" None None
        "Some ?fs" None None undefined undefined undefined "[(''kind'', VStr ''b'')]"]
      destination_invariant [of 5 undefined d "''u''" "Some WEBHOOK" "''https://x''" "Some ?rs" None None
        "Some ?fs" None None]
    by (auto simp: strict_eq_def js_get_def)
qed

text \<open>The positional factory reads a version string followed by a bare number as a payload, not
  as the score its parameter is named after: the number becomes the payload and the object meant
  as the payload is taken for the score, so a valid result is refused; with the score as an object
  the same call succeeds.\<close>

theorem versioned_number_is_taken_for_payload:
  assumes "EmailId_new emailId = Inr em" "AgentId_new agentId = Inr ag" "0 \<le> x" "x \<le> 1"
  shows "AiTaskResult_create now uuid emailId agentId (SStr v) (SNum x) (SObject n) SNothing = Inl ValidationError \<and>
    (\<exists>t. AiTaskResult_create now uuid emailId agentId (SStr v) (SScore x) (SObject n) SNothing = Inr t \<and>
       tr_confidenceScore t = x \<and> tr_resultPayload t = VRef n \<and> tr_events t = 1)"
  using assms
  by (simp add: AiTaskResult_create_def create_slots_def AiTaskResult_new_def score_of_def slot_truthy_def
      or_empty_def slot_val_def ConfidenceScore_new_def)

theorem versioned_number_is_taken_for_payload_witness:
  "AiTaskResult_create 1 ''u'' (JStr ''a@b'') (JStr ''ag'') (SStr ''2'') (SNum (9 / 10)) (SObject 3) SNothing =
     Inl ValidationError"
proof -
  have "EmailId_new (JStr ''a@b'') = Inr ''a@b''" "AgentId_new (JStr ''ag'') = Inr ''ag''" by code_simp+
  from versioned_number_is_taken_for_payload [OF this, of "9 / 10"] show ?thesis by simp
qed

end
