(* ===== verification/QF_Breaker.thy ===== *)
theory QF_Breaker
  imports QF_Prelude
begin

text \<open>
  The circuit breakers of \<open>resilience/circuit-breaker\<close>: the state snapshot, the metrics and the
  class \<open>CircuitBreaker\<close> with its manager, and the rate-based \<open>CircuitBreakerStateMachine\<close>. A call
  protected by a breaker starts at one clock reading and ends at another, with an outcome that is a
  parameter. The locale \<open>failure_gate\<close> states what an open circuit promises; both machines are
  interpreted in it.
\<close>

datatype CircuitState = CLOSED | OPEN | HALF_OPEN

subsection \<open>CircuitBreakerState\<close>

record CircuitBreakerState =
  cs_state :: CircuitState
  cs_openedAt :: "ms option"
  cs_failureCount :: int
  cs_successCount :: int

definition CircuitBreakerState_new :: "CircuitState \<Rightarrow> ms option \<Rightarrow> int \<Rightarrow> int \<Rightarrow> CircuitBreakerState" where
  "CircuitBreakerState_new state openedAt failureCount successCount =
     \<lparr> cs_state = state, cs_openedAt = openedAt, cs_failureCount = max 0 failureCount,
       cs_successCount = max 0 successCount \<rparr>"

definition canAttemptReset :: "ms \<Rightarrow> int \<Rightarrow> CircuitBreakerState \<Rightarrow> bool" where
  "canAttemptReset now timeoutMs s =
     (if cs_state s = HALF_OPEN then True
      else if cs_state s \<noteq> OPEN then False
      else case cs_openedAt s of None \<Rightarrow> False | Some t \<Rightarrow> now - t \<ge> timeoutMs)"

subsection \<open>Configuration\<close>

record CircuitBreakerConfig =
  cb_threshold :: int
  cb_timeout :: int
  cb_monitoringPeriod :: int
  cb_rollingCountTimeout :: int
  cb_successThreshold :: int
  cb_halfOpenTimeout :: int

text \<open>A partial configuration: the fields that are present.\<close>

record PartialBreakerConfig =
  pc_threshold :: "int option"
  pc_timeout :: "int option"
  pc_monitoringPeriod :: "int option"
  pc_rollingCountTimeout :: "int option"
  pc_successThreshold :: "int option"
  pc_halfOpenTimeout :: "int option"

definition createDefaultConfig :: "PartialBreakerConfig \<Rightarrow> CircuitBreakerConfig" where
  "createDefaultConfig overrides = \<lparr> cb_threshold = nullish_or (pc_threshold overrides) 5,
     cb_timeout = nullish_or (pc_timeout overrides) 60000,
     cb_monitoringPeriod = nullish_or (pc_monitoringPeriod overrides) 120000,
     cb_rollingCountTimeout = nullish_or (pc_rollingCountTimeout overrides) 10000,
     cb_successThreshold = nullish_or (pc_successThreshold overrides) 2,
     cb_halfOpenTimeout = nullish_or (pc_halfOpenTimeout overrides) 30000 \<rparr>"

text \<open>\<open>{ ...a, ...b }\<close>: the fields of \<open>b\<close> win.\<close>

definition over :: "'a option \<Rightarrow> 'a option \<Rightarrow> 'a option" where
  "over a b = (case b of None \<Rightarrow> a | Some _ \<Rightarrow> b)"

definition mergePartial :: "PartialBreakerConfig \<Rightarrow> PartialBreakerConfig \<Rightarrow> PartialBreakerConfig" where
  "mergePartial a b = \<lparr> pc_threshold = over (pc_threshold a) (pc_threshold b),
     pc_timeout = over (pc_timeout a) (pc_timeout b),
     pc_monitoringPeriod = over (pc_monitoringPeriod a) (pc_monitoringPeriod b),
     pc_rollingCountTimeout = over (pc_rollingCountTimeout a) (pc_rollingCountTimeout b),
     pc_successThreshold = over (pc_successThreshold a) (pc_successThreshold b),
     pc_halfOpenTimeout = over (pc_halfOpenTimeout a) (pc_halfOpenTimeout b) \<rparr>"

definition emptyPartial :: PartialBreakerConfig where
  "emptyPartial = \<lparr> pc_threshold = None, pc_timeout = None, pc_monitoringPeriod = None,
     pc_rollingCountTimeout = None, pc_successThreshold = None, pc_halfOpenTimeout = None \<rparr>"

subsection \<open>Metrics\<close>

record CircuitBreakerMetrics =
  cm_totalCalls :: int
  cm_successfulCalls :: int
  cm_failedCalls :: int
  cm_rejectedCalls :: int
  cm_stateTransitions :: int
  cm_closedTransitions :: int
  cm_openTransitions :: int
  cm_halfOpenTransitions :: int
  cm_lastTransition :: "ms option"

definition CircuitBreakerMetrics_new :: CircuitBreakerMetrics where
  "CircuitBreakerMetrics_new = \<lparr> cm_totalCalls = 0, cm_successfulCalls = 0, cm_failedCalls = 0,
     cm_rejectedCalls = 0, cm_stateTransitions = 0, cm_closedTransitions = 0, cm_openTransitions = 0,
     cm_halfOpenTransitions = 0, cm_lastTransition = None \<rparr>"

definition cm_recordCall :: "CircuitBreakerMetrics \<Rightarrow> CircuitBreakerMetrics" where
  "cm_recordCall m = m\<lparr> cm_totalCalls := cm_totalCalls m + 1 \<rparr>"

definition cm_recordSuccess :: "CircuitBreakerMetrics \<Rightarrow> CircuitBreakerMetrics" where
  "cm_recordSuccess m = m\<lparr> cm_successfulCalls := cm_successfulCalls m + 1 \<rparr>"

definition cm_recordFailure :: "CircuitBreakerMetrics \<Rightarrow> CircuitBreakerMetrics" where
  "cm_recordFailure m = m\<lparr> cm_failedCalls := cm_failedCalls m + 1 \<rparr>"

definition cm_recordRejection :: "CircuitBreakerMetrics \<Rightarrow> CircuitBreakerMetrics" where
  "cm_recordRejection m = m\<lparr> cm_rejectedCalls := cm_rejectedCalls m + 1 \<rparr>"

definition cm_recordStateTransition ::
  "ms \<Rightarrow> CircuitState \<Rightarrow> CircuitState \<Rightarrow> CircuitBreakerMetrics \<Rightarrow> CircuitBreakerMetrics" where
  "cm_recordStateTransition now from to m =
     (let m1 = m\<lparr> cm_stateTransitions := cm_stateTransitions m + 1, cm_lastTransition := Some now \<rparr> in
      if to = CLOSED then m1\<lparr> cm_closedTransitions := cm_closedTransitions m1 + 1 \<rparr>
      else if to = OPEN then m1\<lparr> cm_openTransitions := cm_openTransitions m1 + 1 \<rparr>
      else m1\<lparr> cm_halfOpenTransitions := cm_halfOpenTransitions m1 + 1 \<rparr>)"

definition cm_reset :: "CircuitBreakerMetrics \<Rightarrow> CircuitBreakerMetrics" where
  "cm_reset m = CircuitBreakerMetrics_new"

subsection \<open>CircuitBreaker\<close>

record CircuitBreaker =
  br_destinationId :: string
  br_name :: string
  br_config :: CircuitBreakerConfig
  br_metrics :: CircuitBreakerMetrics
  br_state :: CircuitBreakerState

definition CircuitBreaker_new :: "string \<Rightarrow> PartialBreakerConfig \<Rightarrow> CircuitBreaker" where
  "CircuitBreaker_new destinationId config = \<lparr> br_destinationId = destinationId,
     br_name = ''breaker:'' @ destinationId, br_config = createDefaultConfig config,
     br_metrics = CircuitBreakerMetrics_new, br_state = CircuitBreakerState_new CLOSED None 0 0 \<rparr>"

definition br_transitionTo :: "ms \<Rightarrow> CircuitState \<Rightarrow> CircuitBreaker \<Rightarrow> CircuitBreaker" where
  "br_transitionTo now newState b =
     (let previousState = cs_state (br_state b) in
      if previousState = newState then b
      else b\<lparr> br_state := CircuitBreakerState_new newState (if newState = OPEN then Some now else None) 0 0,
              br_metrics := cm_recordStateTransition now previousState newState (br_metrics b) \<rparr>)"

definition checkStateTransition :: "ms \<Rightarrow> CircuitBreaker \<Rightarrow> CircuitBreaker" where
  "checkStateTransition now b =
     (if cs_state (br_state b) = OPEN
      then (if canAttemptReset now (cb_timeout (br_config b)) (br_state b)
            then br_transitionTo now HALF_OPEN b else b)
      else b)"

definition br_getState :: "ms \<Rightarrow> CircuitBreaker \<Rightarrow> CircuitState \<times> CircuitBreaker" where
  "br_getState now b = (let b1 = checkStateTransition now b in (cs_state (br_state b1), b1))"

definition br_canExecute :: "ms \<Rightarrow> CircuitBreaker \<Rightarrow> bool \<times> CircuitBreaker" where
  "br_canExecute now b = (case br_getState now b of (s, b1) \<Rightarrow> (s = CLOSED \<or> s = HALF_OPEN, b1))"

definition br_recordSuccess :: "ms \<Rightarrow> CircuitBreaker \<Rightarrow> CircuitBreaker" where
  "br_recordSuccess now b0 =
     (case br_getState now (b0\<lparr> br_metrics := cm_recordSuccess (br_metrics b0) \<rparr>) of (currentState, b) \<Rightarrow>
      if currentState = HALF_OPEN then
        (let newSuccessCount = cs_successCount (br_state b) + 1 in
         if newSuccessCount \<ge> cb_successThreshold (br_config b) then br_transitionTo now CLOSED b
         else b\<lparr> br_state := CircuitBreakerState_new HALF_OPEN (cs_openedAt (br_state b)) 0 newSuccessCount \<rparr>)
      else if currentState = CLOSED then
        (if cs_failureCount (br_state b) > 0
         then b\<lparr> br_state := CircuitBreakerState_new CLOSED None 0 0 \<rparr> else b)
      else b)"

definition br_recordFailure :: "ms \<Rightarrow> CircuitBreaker \<Rightarrow> CircuitBreaker" where
  "br_recordFailure now b0 =
     (case br_getState now (b0\<lparr> br_metrics := cm_recordFailure (br_metrics b0) \<rparr>) of (currentState, b) \<Rightarrow>
      if currentState = CLOSED then
        (let newFailureCount = cs_failureCount (br_state b) + 1 in
         if newFailureCount \<ge> cb_threshold (br_config b) then br_transitionTo now OPEN b
         else b\<lparr> br_state := CircuitBreakerState_new CLOSED None newFailureCount 0 \<rparr>)
      else if currentState = HALF_OPEN then br_transitionTo now OPEN b
      else b)"

text \<open>\<open>execute\<close> in its two halves, before and after the awaited call: \<open>br_begin\<close> decides whether the
  call is made, \<open>br_end\<close> records its outcome.\<close>

definition br_begin :: "ms \<Rightarrow> CircuitBreaker \<Rightarrow> bool \<times> CircuitBreaker" where
  "br_begin now b =
     (case br_canExecute now (b\<lparr> br_metrics := cm_recordCall (br_metrics b) \<rparr>) of (ok, b1) \<Rightarrow>
      if \<not> ok then (False, b1\<lparr> br_metrics := cm_recordRejection (br_metrics b1) \<rparr>) else (True, b1))"

definition br_end :: "ms \<Rightarrow> 'e + 'a \<Rightarrow> CircuitBreaker \<Rightarrow> CircuitBreaker" where
  "br_end now outcome b = (case outcome of Inr _ \<Rightarrow> br_recordSuccess now b | Inl _ \<Rightarrow> br_recordFailure now b)"

definition br_execute ::
  "ms \<Rightarrow> ms \<Rightarrow> 'e + 'a \<Rightarrow> CircuitBreaker \<Rightarrow> ('e resilience_error + 'a) \<times> CircuitBreaker" where
  "br_execute start finish outcome b =
     (case br_begin start b of (ok, b1) \<Rightarrow>
      if \<not> ok then (Inl (CircuitOpenError (br_destinationId b)), b1)
      else (case outcome of Inr v \<Rightarrow> Inr v | Inl e \<Rightarrow> Inl (Cause e), br_end finish outcome b1))"

definition br_emit :: "ms \<Rightarrow> string \<Rightarrow> CircuitBreaker \<Rightarrow> CircuitBreaker" where
  "br_emit now event b = (if event = ''success'' then br_recordSuccess now b
     else if event = ''failure'' then br_recordFailure now b else b)"

definition br_reset :: "ms \<Rightarrow> CircuitBreaker \<Rightarrow> CircuitBreaker" where
  "br_reset now b =
     (let previousState = cs_state (br_state b);
          m = cm_reset (br_metrics b) in
      b\<lparr> br_state := CircuitBreakerState_new CLOSED None 0 0,
         br_metrics := (if previousState \<noteq> CLOSED then cm_recordStateTransition now previousState CLOSED m else m) \<rparr>)"

subsection \<open>CircuitBreakerManager\<close>

text \<open>The default configuration: nested under \<open>circuitBreaker\<close>, given directly, or missing.\<close>

datatype default_config = NestedConfig PartialBreakerConfig | FlatConfig PartialBreakerConfig | NoConfig

record CircuitBreakerManager =
  mg_breakers :: "(string, CircuitBreaker) js_map"
  mg_defaultConfig :: default_config

definition CircuitBreakerManager_new :: "default_config \<Rightarrow> CircuitBreakerManager" where
  "CircuitBreakerManager_new c = \<lparr> mg_breakers = [], mg_defaultConfig = c \<rparr>"

definition mg_base :: "default_config \<Rightarrow> PartialBreakerConfig" where
  "mg_base c = (case c of NestedConfig p \<Rightarrow> p | FlatConfig p \<Rightarrow> p | NoConfig \<Rightarrow> emptyPartial)"

definition mg_store :: "string \<Rightarrow> CircuitBreaker \<Rightarrow> CircuitBreakerManager \<Rightarrow> CircuitBreakerManager" where
  "mg_store destinationId b m = m\<lparr> mg_breakers := mset_at destinationId b (mg_breakers m) \<rparr>"

definition mg_createBreaker ::
  "string \<Rightarrow> PartialBreakerConfig \<Rightarrow> CircuitBreakerManager \<Rightarrow> CircuitBreaker \<times> CircuitBreakerManager" where
  "mg_createBreaker destinationId destinationConfig m =
     (let cbConfig = mergePartial (mg_base (mg_defaultConfig m)) destinationConfig;
          breaker = CircuitBreaker_new destinationId cbConfig in
      (breaker, mg_store destinationId breaker m))"

definition mg_getBreaker :: "string \<Rightarrow> CircuitBreakerManager \<Rightarrow> CircuitBreaker \<times> CircuitBreakerManager" where
  "mg_getBreaker destinationId m = (case mget (mg_breakers m) destinationId of Some b \<Rightarrow> (b, m)
     | None \<Rightarrow> mg_createBreaker destinationId emptyPartial m)"

definition mg_getOrCreateBreaker ::
  "string \<Rightarrow> PartialBreakerConfig \<Rightarrow> CircuitBreakerManager \<Rightarrow> CircuitBreaker \<times> CircuitBreakerManager" where
  "mg_getOrCreateBreaker destinationId destinationConfig m =
     (case mget (mg_breakers m) destinationId of Some b \<Rightarrow> (b, m)
      | None \<Rightarrow> mg_createBreaker destinationId destinationConfig m)"

definition mg_getState :: "ms \<Rightarrow> string \<Rightarrow> CircuitBreakerManager \<Rightarrow> CircuitState \<times> CircuitBreakerManager" where
  "mg_getState now destinationId m =
     (case mg_getBreaker destinationId m of (b, m1) \<Rightarrow>
      case br_getState now b of (s, b1) \<Rightarrow> (s, mg_store destinationId b1 m1))"

definition mg_isOpen :: "ms \<Rightarrow> string \<Rightarrow> CircuitBreakerManager \<Rightarrow> bool \<times> CircuitBreakerManager" where
  "mg_isOpen now destinationId m =
     (case mg_getState now destinationId m of (s, m1) \<Rightarrow> (s = OPEN, m1))"

definition mg_isDestinationAvailable ::
  "ms \<Rightarrow> string \<Rightarrow> CircuitBreakerManager \<Rightarrow> bool \<times> CircuitBreakerManager" where
  "mg_isDestinationAvailable now destinationId m =
     (case mg_getBreaker destinationId m of (b, m1) \<Rightarrow>
      case br_canExecute now b of (ok, b1) \<Rightarrow> (ok, mg_store destinationId b1 m1))"

definition mg_resetBreaker :: "ms \<Rightarrow> string \<Rightarrow> CircuitBreakerManager \<Rightarrow> CircuitBreakerManager" where
  "mg_resetBreaker now destinationId m = (case mget (mg_breakers m) destinationId of None \<Rightarrow> m
     | Some b \<Rightarrow> mg_store destinationId (br_reset now b) m)"

definition mg_getAllBreakers :: "CircuitBreakerManager \<Rightarrow> CircuitBreaker list" where
  "mg_getAllBreakers m = map snd (mg_breakers m)"

definition mg_getHealthStatus ::
  "ms \<Rightarrow> CircuitBreakerManager \<Rightarrow> (string, CircuitState) js_map \<times> CircuitBreakerManager" where
  "mg_getHealthStatus now m =
     (map (\<lambda>(k, b). (k, fst (br_getState now b))) (mg_breakers m),
      m\<lparr> mg_breakers := map (\<lambda>(k, b). (k, snd (br_getState now b))) (mg_breakers m) \<rparr>)"

interpretation breakers: registry "\<lambda>k m. Inr (mg_getBreaker k m) :: unit + _" "\<lambda>m. mget (mg_breakers m)"
  by unfold_locales (auto simp: mg_getBreaker_def mg_createBreaker_def mg_store_def Let_def
      split: option.splits)

subsection \<open>CircuitBreakerStateMachine\<close>

record StateMachine =
  sm_threshold :: rat
  sm_timeoutMs :: int
  sm_volumeThreshold :: int
  sm_currentState :: CircuitState
  sm_lastStateChange :: ms
  sm_failureCount :: int
  sm_successCount :: int

definition StateMachine_new :: "ms \<Rightarrow> rat \<Rightarrow> int \<Rightarrow> int \<Rightarrow> StateMachine" where
  "StateMachine_new now threshold timeoutMs volumeThreshold =
     \<lparr> sm_threshold = threshold, sm_timeoutMs = timeoutMs, sm_volumeThreshold = volumeThreshold,
       sm_currentState = CLOSED, sm_lastStateChange = now, sm_failureCount = 0, sm_successCount = 0 \<rparr>"

definition sm_transitionTo :: "ms \<Rightarrow> CircuitState \<Rightarrow> StateMachine \<Rightarrow> StateMachine" where
  "sm_transitionTo now nextState m = m\<lparr> sm_currentState := nextState, sm_lastStateChange := now,
     sm_failureCount := 0, sm_successCount := 0 \<rparr>"

definition sm_getState :: "ms \<Rightarrow> StateMachine \<Rightarrow> CircuitState \<times> StateMachine" where
  "sm_getState now m =
     (let m1 = (if sm_currentState m = OPEN \<and> now - sm_lastStateChange m \<ge> sm_timeoutMs m
                then sm_transitionTo now HALF_OPEN m else m)
      in (sm_currentState m1, m1))"

definition sm_recordSuccess :: "ms \<Rightarrow> StateMachine \<Rightarrow> StateMachine" where
  "sm_recordSuccess now m0 = (case sm_getState now m0 of (state, m) \<Rightarrow>
     if state = HALF_OPEN then
       sm_transitionTo now CLOSED (m\<lparr> sm_successCount := sm_successCount m + 1 \<rparr>)
     else if state = CLOSED then m\<lparr> sm_successCount := sm_successCount m + 1 \<rparr>
     else m)"

definition sm_recordFailure :: "ms \<Rightarrow> StateMachine \<Rightarrow> StateMachine" where
  "sm_recordFailure now m0 = (case sm_getState now m0 of (state, m1) \<Rightarrow>
     let m = m1\<lparr> sm_failureCount := sm_failureCount m1 + 1 \<rparr> in
     if state = CLOSED then
       (let total = sm_successCount m + sm_failureCount m in
        if total \<ge> sm_volumeThreshold m then
          (let failureRate = (of_int (sm_failureCount m) / of_int total) * 100 :: rat in
           if failureRate \<ge> sm_threshold m then sm_transitionTo now OPEN m else m)
        else m)
     else if state = HALF_OPEN then sm_transitionTo now OPEN m
     else m)"

definition sm_canAttempt :: "ms \<Rightarrow> StateMachine \<Rightarrow> bool \<times> StateMachine" where
  "sm_canAttempt now m = (case sm_getState now m of (s, m1) \<Rightarrow> (s = CLOSED \<or> s = HALF_OPEN, m1))"

text \<open>The configuration of the rate-based breaker; the timeout is given in seconds.\<close>

record RateBreakerConfig =
  rb_threshold :: rat
  rb_timeoutMs :: int
  rb_volumeThreshold :: int

definition getCircuitBreakerConfig ::
  "rat \<Rightarrow> int \<Rightarrow> int \<Rightarrow> string + (string, RateBreakerConfig) js_map" where
  "getCircuitBreakerConfig threshold timeoutSeconds volumeThreshold =
     (let timeoutMs = timeoutSeconds * 1000 in
      if threshold \<le> 0 \<or> threshold > 100 then Inl ''circuitBreakerThreshold''
      else if timeoutMs \<le> 0 then Inl ''circuitBreakerTimeout''
      else if volumeThreshold \<le> 0 then Inl ''circuitBreakerVolumeThreshold''
      else Inr (mset_at ''default'' \<lparr> rb_threshold = threshold, rb_timeoutMs = timeoutMs,
                  rb_volumeThreshold = volumeThreshold \<rparr> []))"

subsection \<open>The contract of an open circuit\<close>

text \<open>A gate is closed until some time (\<open>open_until\<close>, after the state's name OPEN) or not at all;
  events at clock readings step it. While it is closed, no event reopens it early or extends it;
  an event that closes it does so for one period from that event.\<close>

locale failure_gate =
  fixes step :: "ms \<Rightarrow> 'e \<Rightarrow> 'b \<Rightarrow> 'b"
    and allowed :: "ms \<Rightarrow> 'b \<Rightarrow> bool"
    and open_until :: "'b \<Rightarrow> ms option"
    and period :: "'b \<Rightarrow> int"
    and inv :: "'b \<Rightarrow> bool"
  assumes inv_step: "inv b \<Longrightarrow> inv (step now e b)"
    and gate: "\<lbrakk> inv b; open_until b = Some t \<rbrakk> \<Longrightarrow> allowed now b \<longleftrightarrow> t \<le> now"
    and free: "\<lbrakk> inv b; open_until b = None \<rbrakk> \<Longrightarrow> allowed now b"
    and kept: "\<lbrakk> inv b; open_until b = Some t; now < t \<rbrakk> \<Longrightarrow> open_until (step now e b) = Some t"
    and tripped: "\<lbrakk> inv b; open_until (step now e b) = Some t \<rbrakk> \<Longrightarrow>
          open_until b = Some t \<or> t = now + period b"
    and period_step: "inv b \<Longrightarrow> period (step now e b) = period b"
begin

fun run :: "(ms \<times> 'e) list \<Rightarrow> 'b \<Rightarrow> 'b" where
  "run [] b = b"
| "run ((now, e) # es) b = run es (step now e b)"

lemma run_inv: "inv b \<Longrightarrow> inv (run es b)"
  by (induction es arbitrary: b) (auto simp: inv_step)

lemma run_kept:
  "\<lbrakk> inv b; open_until b = Some t; \<forall>(u, e) \<in> set es. u < t \<rbrakk> \<Longrightarrow> open_until (run es b) = Some t"
  by (induction es arbitrary: b) (auto simp: inv_step kept)

lemma rejects_while_open:
  assumes "inv b" "open_until b = Some t" "\<forall>(u, e) \<in> set es. u < t" "now < t"
  shows "\<not> allowed now (run es b)"
  using gate [OF run_inv [OF assms(1)] run_kept [OF assms(1-3)]] assms(4) by simp

lemma run_tripped:
  "\<lbrakk> inv b; open_until (run es b) = Some t \<rbrakk> \<Longrightarrow>
    open_until b = Some t \<or> (\<exists>(u, e) \<in> set es. t = u + period b)"
proof (induction es arbitrary: b)
  case (Cons x es)
  obtain u e where x: "x = (u, e)" by (cases x)
  with Cons have "open_until (step u e b) = Some t \<or> (\<exists>(v, f) \<in> set es. t = v + period (step u e b))"
    by (simp add: inv_step)
  then show ?case using tripped [OF Cons.prems(1), of u e t] Cons.prems(1)
    by (auto simp: x period_step)
qed simp

lemma recovers:
  assumes "inv b" "\<forall>t. open_until b = Some t \<longrightarrow> t \<le> now" "\<forall>(u, e) \<in> set es. u + period b \<le> now"
  shows "allowed now (run es b)"
proof (cases "open_until (run es b)")
  case None
  then show ?thesis by (rule free [OF run_inv [OF assms(1)]])
next
  case (Some t)
  with run_tripped [OF assms(1) Some] assms have "t \<le> now" by auto
  then show ?thesis using gate [OF run_inv [OF assms(1)] Some] by simp
qed

end

text \<open>What may happen to a breaker between two calls.\<close>

datatype breaker_event = Ask | Call | Success | Failure

definition br_step :: "ms \<Rightarrow> breaker_event \<Rightarrow> CircuitBreaker \<Rightarrow> CircuitBreaker" where
  "br_step now e b = (case e of Ask \<Rightarrow> snd (br_getState now b) | Call \<Rightarrow> snd (br_begin now b)
     | Success \<Rightarrow> br_recordSuccess now b | Failure \<Rightarrow> br_recordFailure now b)"

definition br_open_until :: "CircuitBreaker \<Rightarrow> ms option" where
  "br_open_until b = (if cs_state (br_state b) = OPEN
     then map_option (\<lambda>t. t + cb_timeout (br_config b)) (cs_openedAt (br_state b)) else None)"

definition br_inv :: "CircuitBreaker \<Rightarrow> bool" where
  "br_inv b \<longleftrightarrow> (cs_state (br_state b) = OPEN \<longleftrightarrow> cs_openedAt (br_state b) \<noteq> None)"

definition sm_step :: "ms \<Rightarrow> breaker_event \<Rightarrow> StateMachine \<Rightarrow> StateMachine" where
  "sm_step now e m = (case e of Ask \<Rightarrow> snd (sm_getState now m) | Call \<Rightarrow> snd (sm_canAttempt now m)
     | Success \<Rightarrow> sm_recordSuccess now m | Failure \<Rightarrow> sm_recordFailure now m)"

definition sm_open_until :: "StateMachine \<Rightarrow> ms option" where
  "sm_open_until m = (if sm_currentState m = OPEN then Some (sm_lastStateChange m + sm_timeoutMs m) else None)"

lemmas br_defs = br_transitionTo_def checkStateTransition_def br_getState_def br_canExecute_def
  br_begin_def br_recordSuccess_def br_recordFailure_def CircuitBreakerState_new_def canAttemptReset_def

lemmas sm_defs = sm_transitionTo_def sm_getState_def sm_recordSuccess_def sm_recordFailure_def
  sm_canAttempt_def

lemma br_step_inv: "br_inv b \<Longrightarrow> br_inv (br_step now e b)"
  by (cases "cs_state (br_state b)"; cases e)
    (auto simp: br_step_def br_inv_def br_defs Let_def split: option.splits)

lemma br_gate: "\<lbrakk> br_inv b; br_open_until b = Some t \<rbrakk> \<Longrightarrow> fst (br_canExecute now b) \<longleftrightarrow> t \<le> now"
  by (auto simp: br_open_until_def br_defs Let_def split: if_splits option.splits)

lemma br_free: "\<lbrakk> br_inv b; br_open_until b = None \<rbrakk> \<Longrightarrow> fst (br_canExecute now b)"
  by (cases "cs_state (br_state b)") (auto simp: br_inv_def br_open_until_def br_defs Let_def)

lemma br_kept:
  "\<lbrakk> br_inv b; br_open_until b = Some t; now < t \<rbrakk> \<Longrightarrow> br_open_until (br_step now e b) = Some t"
  by (cases e) (auto simp: br_step_def br_open_until_def br_defs Let_def split: if_splits option.splits)

lemma br_tripped:
  "\<lbrakk> br_inv b; br_open_until (br_step now e b) = Some t \<rbrakk> \<Longrightarrow>
    br_open_until b = Some t \<or> t = now + cb_timeout (br_config b)"
  by (cases "cs_state (br_state b)"; cases e)
    (auto simp: br_step_def br_inv_def br_open_until_def br_defs Let_def split: if_splits option.splits)

lemma br_step_config: "br_config (br_step now e b) = br_config b"
  by (cases "cs_state (br_state b)"; cases e) (auto simp: br_step_def br_defs Let_def split: option.splits)

interpretation br: failure_gate br_step "\<lambda>now b. fst (br_canExecute now b)" br_open_until
    "\<lambda>b. cb_timeout (br_config b)" br_inv
  by unfold_locales (auto simp: br_step_inv br_gate br_free br_kept br_step_config dest: br_tripped)

lemma sm_kept:
  "\<lbrakk> sm_open_until m = Some t; now < t \<rbrakk> \<Longrightarrow> sm_open_until (sm_step now e m) = Some t"
  by (cases e) (auto simp: sm_step_def sm_open_until_def sm_defs Let_def split: if_splits)

lemma sm_tripped:
  "sm_open_until (sm_step now e m) = Some t \<Longrightarrow> sm_open_until m = Some t \<or> t = now + sm_timeoutMs m"
  by (cases "sm_currentState m"; cases e)
    (auto simp: sm_step_def sm_open_until_def sm_defs Let_def split: if_splits)

interpretation sm: failure_gate sm_step "\<lambda>now m. fst (sm_canAttempt now m)" sm_open_until sm_timeoutMs "\<lambda>_. True"
proof unfold_locales
  show "fst (sm_canAttempt now b) \<longleftrightarrow> t \<le> now" if "sm_open_until b = Some t" for b t now
    using that by (auto simp: sm_open_until_def sm_defs Let_def split: if_splits)
  show "fst (sm_canAttempt now b)" if "sm_open_until b = None" for b now
    using that by (cases "sm_currentState b") (auto simp: sm_open_until_def sm_defs Let_def)
  show "sm_timeoutMs (sm_step now e b) = sm_timeoutMs b" for now e b
    by (cases "sm_currentState b"; cases e) (auto simp: sm_step_def sm_defs Let_def)
qed (auto intro: sm_kept dest: sm_tripped)

subsection \<open>Properties\<close>

lemma CircuitBreaker_new_inv [simp]: "br_inv (CircuitBreaker_new d c)"
  by (simp add: br_inv_def CircuitBreaker_new_def CircuitBreakerState_new_def)

lemma br_step_destination [simp]: "br_destinationId (br_step now e b) = br_destinationId b"
  by (cases "cs_state (br_state b)"; cases e) (auto simp: br_step_def br_defs Let_def split: option.splits)

lemma br_run_destination [simp]: "br_destinationId (br.run es b) = br_destinationId b"
  by (induction es arbitrary: b) auto

lemma br_run_config [simp]: "br_config (br.run es b) = br_config b"
  by (induction es arbitrary: b) (auto simp: br_step_config)

lemma br_begin_allowed: "fst (br_begin now b) = fst (br_canExecute now (b\<lparr> br_metrics := cm_recordCall (br_metrics b) \<rparr>))"
  by (simp add: br_begin_def split: prod.splits)

lemma br_canExecute_metrics [simp]:
  "fst (br_canExecute now (b\<lparr> br_metrics := m \<rparr>)) = fst (br_canExecute now b)"
  by (cases "cs_state (br_state b)") (auto simp: br_defs Let_def split: option.splits)

lemma br_begin_destination: "br_destinationId (snd (br_begin now b)) = br_destinationId b"
  using br_step_destination [of now Call b] by (simp add: br_step_def)

lemma br_execute_rejected:
  "\<not> fst (br_canExecute now b) \<Longrightarrow>
    fst (br_execute now finish outcome b) = Inl (CircuitOpenError (br_destinationId b))"
  using br_begin_destination [of now b] br_begin_allowed [of now b]
  by (cases "br_begin now b") (auto simp: br_execute_def)

text \<open>C6: Whatever happened to a breaker since it was made, once it is open every call is rejected
  until its timeout has passed, no matter which successes, failures, calls and queries come in
  between; and when no event of the last period closed it again, calls are admitted from then on.\<close>

theorem open_circuit_rejects_then_recovers:
  assumes "b = br.run es0 (CircuitBreaker_new d c)" "br_open_until b = Some t"
  shows "((\<forall>(u, e) \<in> set es. u < t) \<and> now < t \<longrightarrow>
            fst (br_execute now finish outcome (br.run es b)) = Inl (CircuitOpenError d)) \<and>
         (t \<le> now \<and> (\<forall>(u, e) \<in> set es. u + cb_timeout (createDefaultConfig c) \<le> now) \<longrightarrow>
            fst (br_begin now (br.run es b)))"
proof -
  have inv: "br_inv b" unfolding assms(1) by (rule br.run_inv) simp
  have "br_destinationId b = d" "br_config b = createDefaultConfig c"
    unfolding assms(1) by (simp_all add: CircuitBreaker_new_def)
  then show ?thesis
    using br.rejects_while_open [OF inv assms(2), of es now] br.recovers [OF inv, of now es] assms(2)
      br_execute_rejected [of now "br.run es b" finish outcome]
    by (auto simp: br_begin_allowed)
qed

theorem open_circuit_rejects_then_recovers_witness:
  "fst (br_execute 60001 60002 (Inr 7 :: string + nat)
     (br.run [(3, Failure), (4, Failure), (5, Failure), (6, Success), (59000, Ask)]
       (br.run [(1, Failure), (2, Failure)] (CircuitBreaker_new ''w'' (emptyPartial\<lparr> pc_threshold := Some 2 \<rparr>)))))
   = Inl (CircuitOpenError ''w'')"
proof -
  let ?b = "br.run [(1, Failure), (2, Failure)] (CircuitBreaker_new ''w'' (emptyPartial\<lparr> pc_threshold := Some 2 \<rparr>))"
  have "br_open_until ?b = Some 60002"
    by (simp add: br_step_def br_defs br_open_until_def CircuitBreaker_new_def createDefaultConfig_def
        emptyPartial_def)
  from open_circuit_rejects_then_recovers [OF refl this, of
      "[(3, Failure), (4, Failure), (5, Failure), (6, Success), (59000, Ask)]" 60001 60002 "Inr 7"]
  show ?thesis by simp
qed

text \<open>Recording a sequence of timed outcomes, and the failures since the last success.\<close>

fun record_all :: "(ms \<times> bool) list \<Rightarrow> CircuitBreaker \<Rightarrow> CircuitBreaker" where
  "record_all [] b = b"
| "record_all ((now, ok) # os) b = record_all os (if ok then br_recordSuccess now b else br_recordFailure now b)"

definition trailing_failures :: "(ms \<times> bool) list \<Rightarrow> int" where
  "trailing_failures os = int (length (takeWhile (\<lambda>x. \<not> snd x) (rev os)))"

lemma trailing_failures_snoc [simp]:
  "trailing_failures (os @ [(now, ok)]) = (if ok then 0 else trailing_failures os + 1)"
  by (simp add: trailing_failures_def)

lemma record_all_append: "record_all (xs @ ys) b = record_all ys (record_all xs b)"
  by (induction xs b rule: record_all.induct) auto

lemma closed_success:
  assumes "cs_state (br_state b) = CLOSED" "0 \<le> cs_failureCount (br_state b)"
  shows "cs_state (br_state (br_recordSuccess now b)) = CLOSED \<and>
    cs_failureCount (br_state (br_recordSuccess now b)) = 0 \<and> br_config (br_recordSuccess now b) = br_config b"
  using assms by (auto simp: br_defs Let_def)

lemma closed_failure:
  assumes "cs_state (br_state b) = CLOSED" "0 \<le> cs_failureCount (br_state b)"
  shows "br_config (br_recordFailure now b) = br_config b \<and>
    (if cs_failureCount (br_state b) + 1 < cb_threshold (br_config b)
     then cs_state (br_state (br_recordFailure now b)) = CLOSED \<and>
          cs_failureCount (br_state (br_recordFailure now b)) = cs_failureCount (br_state b) + 1
     else cs_state (br_state (br_recordFailure now b)) = OPEN \<and>
          cs_openedAt (br_state (br_recordFailure now b)) = Some now)"
  using assms by (auto simp: br_defs Let_def)

lemma stays_closed:
  assumes "0 < cb_threshold (createDefaultConfig c)"
    and "\<forall>n \<le> length os. trailing_failures (take n os) < cb_threshold (createDefaultConfig c)"
  shows "let b = record_all os (CircuitBreaker_new d c) in cs_state (br_state b) = CLOSED \<and>
    cs_failureCount (br_state b) = trailing_failures os \<and> br_config b = createDefaultConfig c"
  using assms(2)
proof (induction os rule: rev_induct)
  case Nil
  then show ?case by (simp add: CircuitBreaker_new_def CircuitBreakerState_new_def trailing_failures_def)
next
  case (snoc x os)
  obtain now ok where x: "x = (now, ok)" by (cases x)
  have "\<forall>n \<le> length os. trailing_failures (take n os) < cb_threshold (createDefaultConfig c)"
    using snoc.prems by (metis le_SucI length_append_singleton take_append diff_is_0_eq take0 append_Nil2)
  note IH = snoc.IH [OF this]
  have "trailing_failures (os @ [x]) < cb_threshold (createDefaultConfig c)"
    using snoc.prems by (metis le_refl take_all_iff)
  moreover have "0 \<le> trailing_failures os" by (simp add: trailing_failures_def)
  ultimately show ?case
    using IH closed_success [of "record_all os (CircuitBreaker_new d c)" now]
      closed_failure [of "record_all os (CircuitBreaker_new d c)" now]
    by (cases ok) (auto simp: record_all_append x Let_def)
qed

text \<open>C20: A new breaker stays closed as long as no run of consecutive failures reaches its threshold,
  counting exactly the failures since the last success; the failure that completes such a run opens
  it at that moment, until one timeout later.\<close>

theorem opens_on_consecutive_failures:
  assumes "0 < cb_threshold (createDefaultConfig c)"
    and "\<forall>n \<le> length os. trailing_failures (take n os) < cb_threshold (createDefaultConfig c)"
  shows "let b = record_all os (CircuitBreaker_new d c) in
    cs_state (br_state b) = CLOSED \<and> cs_failureCount (br_state b) = trailing_failures os \<and>
    (trailing_failures os + 1 = cb_threshold (createDefaultConfig c) \<longrightarrow>
       br_open_until (record_all (os @ [(now, False)]) (CircuitBreaker_new d c)) =
         Some (now + cb_timeout (createDefaultConfig c)))"
  using stays_closed [OF assms, of d] closed_failure [of "record_all os (CircuitBreaker_new d c)" now]
  by (auto simp: Let_def record_all_append br_open_until_def trailing_failures_def)

theorem opens_on_consecutive_failures_witness:
  "br_open_until (record_all ([(1, False), (2, True), (3, False)] @ [(9, False)])
     (CircuitBreaker_new ''w'' (emptyPartial\<lparr> pc_threshold := Some 2 \<rparr>))) = Some 60009"
proof -
  let ?c = "emptyPartial\<lparr> pc_threshold := Some 2 \<rparr>"
  have c: "cb_threshold (createDefaultConfig ?c) = 2" "cb_timeout (createDefaultConfig ?c) = 60000"
    by (simp_all add: createDefaultConfig_def emptyPartial_def)
  have "\<forall>n \<le> length [(1 :: ms, False), (2, True), (3, False)].
      trailing_failures (take n [(1, False), (2, True), (3, False)]) < cb_threshold (createDefaultConfig ?c)"
    by (auto simp: c trailing_failures_def le_Suc_eq)
  with opens_on_consecutive_failures [of ?c "[(1, False), (2, True), (3, False)]" "''w''" 9]
  show ?thesis by (simp add: c Let_def trailing_failures_def)
qed

subsection \<open>Half-open\<close>

lemma half_open_success:
  assumes "cs_state (br_state b) = HALF_OPEN" "0 \<le> cs_successCount (br_state b)"
  shows "br_config (br_recordSuccess now b) = br_config b \<and>
    (if cs_successCount (br_state b) + 1 < cb_successThreshold (br_config b)
     then cs_state (br_state (br_recordSuccess now b)) = HALF_OPEN \<and>
          cs_successCount (br_state (br_recordSuccess now b)) = cs_successCount (br_state b) + 1
     else br_state (br_recordSuccess now b) = CircuitBreakerState_new CLOSED None 0 0)"
  using assms by (auto simp: br_defs Let_def)

lemma half_open_failure:
  "cs_state (br_state b) = HALF_OPEN \<Longrightarrow>
    br_state (br_recordFailure now b) = CircuitBreakerState_new OPEN (Some now) 0 0"
  by (auto simp: br_defs Let_def)

text \<open>A half-open breaker needs exactly its success threshold of further successes to close, with
  clean counters; one failure on the way opens it again from that moment.\<close>

theorem half_open_trial:
  assumes "cs_state (br_state b) = HALF_OPEN" "cs_successCount (br_state b) = 0"
    and "int (length ts) < cb_successThreshold (br_config b)"
  shows "let b' = record_all (map (\<lambda>t. (t, True)) ts) b in
    cs_state (br_state b') = HALF_OPEN \<and> cs_successCount (br_state b') = int (length ts) \<and>
    br_state (record_all [(now, False)] b') = CircuitBreakerState_new OPEN (Some now) 0 0 \<and>
    (int (length ts) + 1 = cb_successThreshold (br_config b) \<longrightarrow>
       br_state (record_all [(now, True)] b') = CircuitBreakerState_new CLOSED None 0 0)"
proof -
  have run: "cs_state (br_state (record_all (map (\<lambda>t. (t, True)) ts) b)) = HALF_OPEN \<and>
      cs_successCount (br_state (record_all (map (\<lambda>t. (t, True)) ts) b)) = cs_successCount (br_state b) + int (length ts) \<and>
      br_config (record_all (map (\<lambda>t. (t, True)) ts) b) = br_config b"
    if "cs_state (br_state b) = HALF_OPEN" "0 \<le> cs_successCount (br_state b)"
      "cs_successCount (br_state b) + int (length ts) < cb_successThreshold (br_config b)" for b
    using that
  proof (induction ts arbitrary: b)
    case (Cons t ts)
    then show ?case using half_open_success [of b t] by (simp add: add.assoc)
  qed simp
  show ?thesis
    using run [of b] assms half_open_failure [of "record_all (map (\<lambda>t. (t, True)) ts) b" now]
      half_open_success [of "record_all (map (\<lambda>t. (t, True)) ts) b" now]
    by (simp add: Let_def)
qed

definition example_breaker :: "CircuitState \<Rightarrow> ms option \<Rightarrow> CircuitBreaker" where
  "example_breaker st at_time = (CircuitBreaker_new ''w'' emptyPartial)
     \<lparr> br_state := CircuitBreakerState_new st at_time 0 0 \<rparr>"

lemma example_breaker_simps [simp]:
  "br_state (example_breaker st t) = CircuitBreakerState_new st t 0 0"
  "br_config (example_breaker st t) = createDefaultConfig emptyPartial"
  by (simp_all add: example_breaker_def CircuitBreaker_new_def)

theorem half_open_trial_witness:
  "br_state (record_all [(6, True)] (record_all [(5, True)] (example_breaker HALF_OPEN None))) =
     CircuitBreakerState_new CLOSED None 0 0"
  using half_open_trial [of "example_breaker HALF_OPEN None" "[5]" 6]
  by (simp add: CircuitBreakerState_new_def createDefaultConfig_def emptyPartial_def Let_def)

text \<open>\<open>halfOpenTimeout\<close> is documented as the longest time in half-open before the circuit is
  forced open again, but nothing reads it: a half-open breaker is still half-open at every later
  time, whatever the setting, and admits any number of calls at once while none has reported.\<close>

theorem half_open_never_expires:
  assumes "cs_state (br_state b) = HALF_OPEN"
  shows "br_getState now (b\<lparr> br_config := (br_config b)\<lparr> cb_halfOpenTimeout := h \<rparr> \<rparr>) =
           (HALF_OPEN, b\<lparr> br_config := (br_config b)\<lparr> cb_halfOpenTimeout := h \<rparr> \<rparr>) \<and>
         fst (br_begin now (br.run (replicate n (now, Call)) b))"
proof -
  have "cs_state (br_state (br.run (replicate n (now, Call)) b)) = HALF_OPEN"
    using assms
  proof (induction n arbitrary: b)
    case (Suc n)
    have "cs_state (br_state (br_step now Call b)) = HALF_OPEN"
      using Suc.prems by (auto simp: br_step_def br_defs Let_def)
    with Suc.IH show ?case by simp
  qed simp
  then show ?thesis using assms by (simp add: br_defs Let_def)
qed

theorem half_open_never_expires_witness:
  "fst (br_begin 999999999 (br.run (replicate 100 (999999999, Call)) (example_breaker HALF_OPEN None)))"
  using half_open_never_expires [of "example_breaker HALF_OPEN None" 999999999 1 100]
  by (simp add: CircuitBreakerState_new_def)

subsection \<open>Metrics\<close>

lemmas cm_defs = cm_recordCall_def cm_recordSuccess_def cm_recordFailure_def cm_recordRejection_def
  cm_recordStateTransition_def cm_reset_def CircuitBreakerMetrics_new_def

lemma transition_metrics:
  "let m' = br_metrics (br_transitionTo now s b); m = br_metrics b in
    cm_totalCalls m' = cm_totalCalls m \<and> cm_successfulCalls m' = cm_successfulCalls m \<and>
    cm_failedCalls m' = cm_failedCalls m \<and> cm_rejectedCalls m' = cm_rejectedCalls m \<and>
    cm_stateTransitions m' - (cm_closedTransitions m' + cm_openTransitions m' + cm_halfOpenTransitions m') =
    cm_stateTransitions m - (cm_closedTransitions m + cm_openTransitions m + cm_halfOpenTransitions m)"
  by (auto simp: br_transitionTo_def cm_defs Let_def)

text \<open>The part of the metrics no transition touches: calls, successes, failures, rejections and the
  surplus of transitions over the three kinds.\<close>

definition call_counts :: "CircuitBreaker \<Rightarrow> int \<times> int \<times> int \<times> int \<times> int" where
  "call_counts b = (let m = br_metrics b in
     (cm_totalCalls m, cm_successfulCalls m, cm_failedCalls m, cm_rejectedCalls m,
      cm_stateTransitions m - (cm_closedTransitions m + cm_openTransitions m + cm_halfOpenTransitions m)))"

lemma call_counts_state [simp]: "call_counts (b\<lparr> br_state := s \<rparr>) = call_counts b"
  by (simp add: call_counts_def)

lemma call_counts_transition [simp]: "call_counts (br_transitionTo now s b) = call_counts b"
  using transition_metrics [where now = now and s = s and b = b] by (simp add: call_counts_def Let_def)

lemma call_counts_check [simp]: "call_counts (snd (br_getState now b)) = call_counts b"
  by (simp add: br_getState_def checkStateTransition_def Let_def)

lemma call_counts_getState: "br_getState now b = (s, b') \<Longrightarrow> call_counts b' = call_counts b"
  using call_counts_check [of now b] by simp

lemma call_counts_success:
  "call_counts b = (t, s, f, r, x) \<Longrightarrow> call_counts (br_recordSuccess now b) = (t, s + 1, f, r, x)"
  by (auto simp: br_recordSuccess_def Let_def split: prod.splits dest!: call_counts_getState)
    (auto simp: call_counts_def cm_defs Let_def)

lemma call_counts_failure:
  "call_counts b = (t, s, f, r, x) \<Longrightarrow> call_counts (br_recordFailure now b) = (t, s, f + 1, r, x)"
  by (auto simp: br_recordFailure_def Let_def split: prod.splits dest!: call_counts_getState)
    (auto simp: call_counts_def cm_defs Let_def)

lemma call_counts_begin:
  "call_counts b = (t, s, f, r, x) \<Longrightarrow> call_counts (snd (br_begin now b)) =
    (t + 1, s, f, if fst (br_begin now b) then r else r + 1, x)"
  by (auto simp: br_begin_def br_canExecute_def Let_def split: prod.splits dest!: call_counts_getState)
    (auto simp: call_counts_def cm_defs Let_def)

text \<open>Calls that overlap: a call in progress has begun and not yet ended. An interleaving is a list of
  beginnings, endings and queries.\<close>

datatype call_event = CallBegins ms | CallEnds ms bool | Queried ms

text \<open>The breaker and the number of calls in progress; an ending without a call in progress does not
  happen.\<close>

fun interleave :: "call_event list \<Rightarrow> CircuitBreaker \<times> int \<Rightarrow> CircuitBreaker \<times> int" where
  "interleave [] st = st"
| "interleave (CallBegins now # es) (b, n) =
     interleave es (snd (br_begin now b), if fst (br_begin now b) then n + 1 else n)"
| "interleave (CallEnds now ok # es) (b, n) =
     (if n > 0 then interleave es (br_end now (if ok then Inr () else Inl ()) b, n - 1)
      else interleave es (b, n))"
| "interleave (Queried now # es) (b, n) = interleave es (snd (br_getState now b), n)"

lemma interleave_counts:
  assumes "call_counts b = (s + f + r + n, s, f, r, 0)" "0 \<le> s" "0 \<le> f" "0 \<le> r" "0 \<le> n"
  shows "case interleave es (b, n) of (b', n') \<Rightarrow> 0 \<le> n' \<and>
    (\<exists>s f r. call_counts b' = (s + f + r + n', s, f, r, 0) \<and> 0 \<le> s \<and> 0 \<le> f \<and> 0 \<le> r)"
  using assms
proof (induction es "(b, n)" arbitrary: b n s f r rule: interleave.induct)
  case 1
  then show ?case by auto
next
  case (2 now es b n)
  show ?case
  proof (cases "fst (br_begin now b)")
    case True
    then show ?thesis
      using 2 call_counts_begin [OF 2(2), of now] by (simp add: algebra_simps)
  next
    case False
    then show ?thesis
      using 2(1)[of s f "r + 1"] 2(2-) call_counts_begin [OF 2(2), of now] by (simp add: algebra_simps)
  qed
next
  case (3 now ok es b n)
  show ?case
  proof (cases "n > 0")
    case True
    then show ?thesis
      using 3(1)[of "s + 1" f r] 3(1)[of s "f + 1" r] 3(3-) call_counts_success [OF 3(3), of now]
        call_counts_failure [OF 3(3), of now]
      by (cases ok) (auto simp: br_end_def algebra_simps)
  next
    case False
    then show ?thesis using 3(2)[of s f r] 3(3-) by simp
  qed
next
  case (4 now es b n)
  then show ?case using 4(1)[of s f r] by simp
qed

text \<open>However the calls through a breaker overlap, its metrics add up: every call begun is counted
  once, as rejected, succeeded, failed or still in progress, and every state transition is counted
  once under its target state.\<close>

theorem breaker_metrics_balance:
  "case interleave es (CircuitBreaker_new d c, 0) of (b, inProgress) \<Rightarrow>
     (let m = br_metrics b in
      cm_totalCalls m = cm_successfulCalls m + cm_failedCalls m + cm_rejectedCalls m + inProgress \<and>
      cm_stateTransitions m = cm_closedTransitions m + cm_openTransitions m + cm_halfOpenTransitions m)"
  using interleave_counts [of "CircuitBreaker_new d c" 0 0 0 0 es]
  by (auto simp: call_counts_def CircuitBreaker_new_def CircuitBreakerMetrics_new_def Let_def)

end
