(* ===== verification/QF_Bulkhead.thy ===== *)
theory QF_Bulkhead
  imports QF_Prelude
begin

text \<open>
  The bulkheads of \<open>resilience/bulkhead\<close>: the slot pool with its FIFO wait queue
  (\<open>resource-pool.ts\<close>), the set-based pool (\<open>pool-manager.ts\<close>), the bulkhead around a pool with its
  metrics, the manager of named bulkheads and the static queue isolation. A waiting request is
  identified by a number; \<open>execute\<close> is split at its awaits, and the steps of the executions in
  flight interleave freely. The locale \<open>slot_pool\<close> states what both pools promise.
\<close>

subsection \<open>ResourcePool\<close>

record WaitingAcquire =
  wa_id :: nat
  wa_timer :: bool

record ResourcePool =
  pl_maxSize :: int
  pl_inUse :: int
  pl_queue :: "WaitingAcquire list"

definition ResourcePool_new :: "int \<Rightarrow> string + ResourcePool" where
  "ResourcePool_new maxSize = (if maxSize \<le> 0 then Inl ''ResourcePool maxSize must be greater than 0''
     else Inr \<lparr> pl_maxSize = maxSize, pl_inUse = 0, pl_queue = [] \<rparr>)"

definition pl_isFull :: "ResourcePool \<Rightarrow> bool" where
  "pl_isFull p \<longleftrightarrow> pl_inUse p \<ge> pl_maxSize p"

record PoolStats =
  ps_available :: int
  ps_inUse :: int
  ps_total :: int
  ps_queued :: int

definition pl_getStats :: "ResourcePool \<Rightarrow> PoolStats" where
  "pl_getStats p = \<lparr> ps_available = max 0 (pl_maxSize p - pl_inUse p), ps_inUse = pl_inUse p,
     ps_total = pl_maxSize p, ps_queued = int (length (pl_queue p)) \<rparr>"

text \<open>\<open>tryAcquire\<close> either takes a slot at once or joins the queue, with a timer if the timeout is
  positive. The promise of a queued request is settled later by \<open>pl_release\<close> (true) or by
  \<open>pl_timerFires\<close> (false); a settled request has no timer left.\<close>

definition pl_tryAcquire :: "nat \<Rightarrow> int \<Rightarrow> ResourcePool \<Rightarrow> bool \<times> ResourcePool" where
  "pl_tryAcquire w timeoutMs p =
     (if pl_inUse p < pl_maxSize p then (True, p\<lparr> pl_inUse := pl_inUse p + 1 \<rparr>)
      else (False, p\<lparr> pl_queue := pl_queue p @ [\<lparr> wa_id = w, wa_timer = (timeoutMs > 0) \<rparr>] \<rparr>))"

fun remove_waiter :: "nat \<Rightarrow> WaitingAcquire list \<Rightarrow> WaitingAcquire list" where
  "remove_waiter w [] = []"
| "remove_waiter w (x # xs) = (if wa_id x = w \<and> wa_timer x then xs else x # remove_waiter w xs)"

definition pl_timerFires :: "nat \<Rightarrow> ResourcePool \<Rightarrow> ResourcePool" where
  "pl_timerFires w p = p\<lparr> pl_queue := remove_waiter w (pl_queue p) \<rparr>"

text \<open>\<open>release\<close> hands the slot to the head of the queue, whose \<open>resolve\<close> takes it again.\<close>

definition pl_release :: "ResourcePool \<Rightarrow> nat option \<times> ResourcePool" where
  "pl_release p =
     (if pl_inUse p \<le> 0 then (None, p)
      else let p1 = p\<lparr> pl_inUse := pl_inUse p - 1 \<rparr> in
        case pl_queue p1 of [] \<Rightarrow> (None, p1)
        | nextRequest # rest \<Rightarrow>
            (Some (wa_id nextRequest), p1\<lparr> pl_queue := rest, pl_inUse := pl_inUse p1 + 1 \<rparr>))"

subsection \<open>PoolManager\<close>

record PoolManager =
  pm_poolName :: string
  pm_maxSize :: int
  pm_activeWorkers :: "string list"

definition PoolManager_new :: "string \<Rightarrow> int \<Rightarrow> PoolManager" where
  "PoolManager_new poolName maxSize = \<lparr> pm_poolName = poolName, pm_maxSize = maxSize, pm_activeWorkers = [] \<rparr>"

definition pm_getAvailableSlots :: "PoolManager \<Rightarrow> int" where
  "pm_getAvailableSlots p = max 0 (pm_maxSize p - int (length (pm_activeWorkers p)))"

text \<open>A full pool throws \<open>PoolExhaustedError\<close>, written False.\<close>

definition pm_acquire :: "string \<Rightarrow> PoolManager \<Rightarrow> bool \<times> PoolManager" where
  "pm_acquire workerId p =
     (if workerId \<in> set (pm_activeWorkers p) then (True, p)
      else if int (length (pm_activeWorkers p)) \<ge> pm_maxSize p then (False, p)
      else (True, p\<lparr> pm_activeWorkers := pm_activeWorkers p @ [workerId] \<rparr>))"

definition pm_release :: "string \<Rightarrow> PoolManager \<Rightarrow> PoolManager" where
  "pm_release workerId p = p\<lparr> pm_activeWorkers := remove1 workerId (pm_activeWorkers p) \<rparr>"

definition pm_utilization :: "PoolManager \<Rightarrow> rat" where
  "pm_utilization p = (if pm_maxSize p > 0
     then of_int (int (length (pm_activeWorkers p))) / of_int (pm_maxSize p) * 100 else 0)"

subsection \<open>Metrics\<close>

record BulkheadMetrics =
  bm_maxCapacity :: int
  bm_active :: int
  bm_queued :: int
  bm_rejected :: int
  bm_totalAcquires :: int
  bm_totalReleases :: int

definition BulkheadMetrics_new :: "int \<Rightarrow> BulkheadMetrics" where
  "BulkheadMetrics_new maxCapacity = \<lparr> bm_maxCapacity = maxCapacity, bm_active = 0, bm_queued = 0,
     bm_rejected = 0, bm_totalAcquires = 0, bm_totalReleases = 0 \<rparr>"

definition bm_recordAcquire :: "BulkheadMetrics \<Rightarrow> BulkheadMetrics" where
  "bm_recordAcquire m = m\<lparr> bm_active := bm_active m + 1, bm_totalAcquires := bm_totalAcquires m + 1 \<rparr>"

definition bm_recordRelease :: "BulkheadMetrics \<Rightarrow> BulkheadMetrics" where
  "bm_recordRelease m = m\<lparr> bm_active := max 0 (bm_active m - 1), bm_totalReleases := bm_totalReleases m + 1 \<rparr>"

definition bm_recordQueued :: "BulkheadMetrics \<Rightarrow> BulkheadMetrics" where
  "bm_recordQueued m = m\<lparr> bm_queued := bm_queued m + 1 \<rparr>"

definition bm_recordDequeued :: "BulkheadMetrics \<Rightarrow> BulkheadMetrics" where
  "bm_recordDequeued m = m\<lparr> bm_queued := max 0 (bm_queued m - 1) \<rparr>"

definition bm_recordRejection :: "BulkheadMetrics \<Rightarrow> BulkheadMetrics" where
  "bm_recordRejection m = m\<lparr> bm_rejected := bm_rejected m + 1 \<rparr>"

definition bm_reset :: "BulkheadMetrics \<Rightarrow> BulkheadMetrics" where
  "bm_reset m = m\<lparr> bm_active := 0, bm_queued := 0, bm_rejected := 0, bm_totalAcquires := 0,
     bm_totalReleases := 0 \<rparr>"

subsection \<open>Bulkhead\<close>

record BulkheadConfig =
  bc_maxConcurrent :: int
  bc_maxQueueSize :: int
  bc_timeout :: int

record Bulkhead =
  bh_name :: string
  bh_config :: BulkheadConfig
  bh_pool :: ResourcePool
  bh_metrics :: BulkheadMetrics

definition Bulkhead_new ::
  "string \<Rightarrow> int option \<Rightarrow> int option \<Rightarrow> int option \<Rightarrow> string + Bulkhead" where
  "Bulkhead_new name maxConcurrent maxQueueSize timeout =
     (let c = \<lparr> bc_maxConcurrent = num_or maxConcurrent 10, bc_maxQueueSize = num_or maxQueueSize 50,
                bc_timeout = num_or timeout 30000 \<rparr> in
      bindE (ResourcePool_new (bc_maxConcurrent c)) (\<lambda>pool.
        Inr \<lparr> bh_name = name, bh_config = c, bh_pool = pool,
              bh_metrics = BulkheadMetrics_new (bc_maxConcurrent c) \<rparr>))"

definition bh_isFull :: "Bulkhead \<Rightarrow> bool" where
  "bh_isFull b \<longleftrightarrow> (let stats = pl_getStats (bh_pool b) in
     ps_inUse stats \<ge> bc_maxConcurrent (bh_config b) \<and> ps_queued stats \<ge> bc_maxQueueSize (bh_config b))"

definition bh_getStats :: "Bulkhead \<Rightarrow> BulkheadMetrics" where
  "bh_getStats b = (bh_metrics b)\<lparr> bm_active := ps_inUse (pl_getStats (bh_pool b)),
     bm_queued := ps_queued (pl_getStats (bh_pool b)), bm_maxCapacity := bc_maxConcurrent (bh_config b) \<rparr>"

text \<open>\<open>execute\<close> up to its first await: rejected (\<open>None\<close>), or queued in the metrics with \<open>tryAcquire\<close>
  called; then what follows the promise of \<open>tryAcquire\<close>, settled with the given answer; then what
  follows the task, whatever its outcome.\<close>

definition bh_start :: "nat \<Rightarrow> int option \<Rightarrow> Bulkhead \<Rightarrow> bool option \<times> Bulkhead" where
  "bh_start w overrideTimeoutMs b =
     (if ps_inUse (pl_getStats (bh_pool b)) \<ge> bc_maxConcurrent (bh_config b) \<and>
         ps_queued (pl_getStats (bh_pool b)) \<ge> bc_maxQueueSize (bh_config b)
      then (None, b\<lparr> bh_metrics := bm_recordRejection (bh_metrics b) \<rparr>)
      else let timeoutMs = nullish_or overrideTimeoutMs (bc_timeout (bh_config b)) in
        case pl_tryAcquire w timeoutMs (bh_pool b) of (granted, pool) \<Rightarrow>
          (Some granted, b\<lparr> bh_metrics := bm_recordQueued (bh_metrics b), bh_pool := pool \<rparr>))"

definition bh_resume :: "bool \<Rightarrow> Bulkhead \<Rightarrow> Bulkhead" where
  "bh_resume acquired b =
     (let b1 = b\<lparr> bh_metrics := bm_recordDequeued (bh_metrics b) \<rparr> in
      if \<not> acquired then b1\<lparr> bh_metrics := bm_recordRejection (bh_metrics b1) \<rparr>
      else b1\<lparr> bh_metrics := bm_recordAcquire (bh_metrics b1) \<rparr>)"

definition bh_finish :: "Bulkhead \<Rightarrow> nat option \<times> Bulkhead" where
  "bh_finish b = (case pl_release (bh_pool b) of (next_id, pool) \<Rightarrow>
     (next_id, b\<lparr> bh_pool := pool, bh_metrics := bm_recordRelease (bh_metrics b) \<rparr>))"

definition bh_reset :: "Bulkhead \<Rightarrow> Bulkhead" where
  "bh_reset b = b\<lparr> bh_metrics := bm_reset (bh_metrics b) \<rparr>"

text \<open>An uncontended call from start to finish, the outcome of the task being a parameter.\<close>

definition bh_execute :: "nat \<Rightarrow> 'e + 'a \<Rightarrow> Bulkhead \<Rightarrow> ('e resilience_error + 'a) option \<times> Bulkhead" where
  "bh_execute w outcome b = (case bh_start w None b of
       (None, b1) \<Rightarrow> (Some (Inl (BulkheadFullError (bh_name b))), b1)
     | (Some False, b1) \<Rightarrow> (None, b1)
     | (Some True, b1) \<Rightarrow>
         (Some (case outcome of Inr v \<Rightarrow> Inr v | Inl e \<Rightarrow> Inl (Cause e)), snd (bh_finish (bh_resume True b1))))"

subsection \<open>BulkheadManager and queue isolation\<close>

record BulkheadDefaults =
  bd_maxConcurrent :: "int option"
  bd_maxQueueSize :: "int option"
  bd_timeout :: "int option"

record BulkheadManager =
  bg_bulkheads :: "(string, Bulkhead) js_map"
  bg_config :: BulkheadDefaults

text \<open>The override's fields win over the computed ones; \<open>Bulkhead\<close> then replaces zeros.\<close>

definition bg_createBulkhead ::
  "string \<Rightarrow> int option \<Rightarrow> int option \<Rightarrow> BulkheadDefaults \<Rightarrow> BulkheadManager \<Rightarrow>
   string + (Bulkhead \<times> BulkheadManager)" where
  "bg_createBulkhead name maxConcurrent maxQueueSize overrideConfig m =
     (let c = bg_config m;
          mc = nullish_or (bd_maxConcurrent overrideConfig)
                 (nullish_or maxConcurrent (nullish_or (bd_maxConcurrent c) 20));
          mq = nullish_or (bd_maxQueueSize overrideConfig)
                 (nullish_or maxQueueSize (nullish_or (bd_maxQueueSize c) 100));
          tm = nullish_or (bd_timeout overrideConfig) (nullish_or (bd_timeout c) 30000) in
      bindE (Bulkhead_new name (Some mc) (Some mq) (Some tm)) (\<lambda>b.
        Inr (b, m\<lparr> bg_bulkheads := mset_at name b (bg_bulkheads m) \<rparr>)))"

definition no_override :: BulkheadDefaults where
  "no_override = \<lparr> bd_maxConcurrent = None, bd_maxQueueSize = None, bd_timeout = None \<rparr>"

definition BulkheadManager_new :: "BulkheadDefaults \<Rightarrow> string + BulkheadManager" where
  "BulkheadManager_new config =
     bindE (bg_createBulkhead ''WEBHOOK'' (Some 20) (Some 100) no_override
              \<lparr> bg_bulkheads = [], bg_config = config \<rparr>) (\<lambda>(_, m1).
     bindE (bg_createBulkhead ''DATABASE'' (Some 50) (Some 200) no_override m1) (\<lambda>(_, m2).
     bindE (bg_createBulkhead ''QUEUE'' (Some 30) (Some 150) no_override m2) (\<lambda>(_, m3).
     bindE (bg_createBulkhead ''AUDIT'' (Some 10) (Some 50) no_override m3) (\<lambda>(_, m4). Inr m4))))"

definition bg_getBulkhead :: "string \<Rightarrow> BulkheadManager \<Rightarrow> string + (Bulkhead \<times> BulkheadManager)" where
  "bg_getBulkhead name m = (case mget (bg_bulkheads m) name of Some b \<Rightarrow> Inr (b, m)
     | None \<Rightarrow> bg_createBulkhead name None None no_override m)"

definition bg_store :: "string \<Rightarrow> Bulkhead \<Rightarrow> BulkheadManager \<Rightarrow> BulkheadManager" where
  "bg_store name b m = m\<lparr> bg_bulkheads := mset_at name b (bg_bulkheads m) \<rparr>"

text \<open>The manager's own \<open>acquire\<close> goes to the pool directly, past the queue limit; its \<open>release\<close> frees
  a slot of the named pool whoever holds it.\<close>

definition bg_acquire :: "nat \<Rightarrow> string \<Rightarrow> int option \<Rightarrow> BulkheadManager \<Rightarrow> string + (bool \<times> BulkheadManager)" where
  "bg_acquire w name timeoutMs m =
     bindE (bg_getBulkhead name m) (\<lambda>(b, m1).
       case pl_tryAcquire w (num_or timeoutMs (bc_timeout (bh_config b))) (bh_pool b) of (granted, pool) \<Rightarrow>
         Inr (granted, bg_store name (b\<lparr> bh_pool := pool \<rparr>) m1))"

definition bg_release :: "string \<Rightarrow> BulkheadManager \<Rightarrow> string + (nat option \<times> BulkheadManager)" where
  "bg_release name m =
     bindE (bg_getBulkhead name m) (\<lambda>(b, m1).
       case pl_release (bh_pool b) of (w, pool) \<Rightarrow>
         Inr (w, bg_store name (b\<lparr> bh_pool := pool \<rparr>) m1))"

definition bg_getAll :: "BulkheadManager \<Rightarrow> Bulkhead list" where
  "bg_getAll m = map snd (bg_bulkheads m)"

definition bg_getStats :: "BulkheadManager \<Rightarrow> (string, BulkheadMetrics) js_map" where
  "bg_getStats m = map (\<lambda>(n, b). (n, bh_getStats b)) (bg_bulkheads m)"

definition configureQueueIsolation :: "int \<Rightarrow> int \<Rightarrow> int \<Rightarrow> string + (string, int \<times> int) js_map" where
  "configureQueueIsolation webhookSize dbSize queueSize =
     (if webhookSize \<le> 0 \<or> dbSize \<le> 0 \<or> queueSize \<le> 0 then Inl ''bulkheadPoolSize''
      else Inr (mset_at ''AUDIT'' (3, 3) (mset_at ''QUEUE'' (queueSize, queueSize)
        (mset_at ''DATABASE'' (dbSize, dbSize) (mset_at ''WEBHOOK'' (webhookSize, webhookSize) [])))))"

lemma bg_createBulkhead_Inr:
  "bg_createBulkhead name a q ov m = Inr (b, m') \<Longrightarrow>
    m' = m\<lparr> bg_bulkheads := mset_at name b (bg_bulkheads m) \<rparr>"
  by (auto simp: bg_createBulkhead_def Let_def)

interpretation bulkheads: registry bg_getBulkhead "\<lambda>m. mget (bg_bulkheads m)"
  by unfold_locales (auto simp: bg_getBulkhead_def split: option.splits dest!: bg_createBulkhead_Inr)

subsection \<open>The contract of a slot pool\<close>

text \<open>A pool of slots: taking one either succeeds or is refused because the pool is full; freeing one
  lowers the use by at most one, since the slot may pass to a waiting request.\<close>

locale slot_pool =
  fixes take_slot :: "'w \<Rightarrow> 'p \<Rightarrow> bool \<times> 'p"
    and free_slot :: "'w \<Rightarrow> 'p \<Rightarrow> 'p"
    and held :: "'p \<Rightarrow> int"
    and capacity :: "'p \<Rightarrow> int"
    and inv :: "'p \<Rightarrow> bool"
  assumes bounded: "inv p \<Longrightarrow> 0 \<le> held p \<and> held p \<le> capacity p"
    and take_inv: "inv p \<Longrightarrow> inv (snd (take_slot w p))"
    and free_inv: "inv p \<Longrightarrow> inv (free_slot w p)"
    and take_held: "inv p \<Longrightarrow> fst (take_slot w p) \<Longrightarrow> held (snd (take_slot w p)) \<le> held p + 1"
    and refused: "inv p \<Longrightarrow> \<not> fst (take_slot w p) \<Longrightarrow>
          held p = capacity p \<and> held (snd (take_slot w p)) = held p"
    and free_held: "inv p \<Longrightarrow> held p - 1 \<le> held (free_slot w p) \<and> held (free_slot w p) \<le> held p"
    and capacity_kept: "inv p \<Longrightarrow> capacity (snd (take_slot w p)) = capacity p \<and> capacity (free_slot w p) = capacity p"
begin

fun serve :: "(bool \<times> 'w) list \<Rightarrow> 'p \<Rightarrow> 'p" where
  "serve [] p = p"
| "serve ((takes, w) # rs) p = serve rs (if takes then snd (take_slot w p) else free_slot w p)"

lemma serve_inv: "inv p \<Longrightarrow> inv (serve rs p) \<and> capacity (serve rs p) = capacity p"
  by (induction rs arbitrary: p) (auto simp: take_inv free_inv capacity_kept)

lemma serve_bounded: "inv p \<Longrightarrow> 0 \<le> held (serve rs p) \<and> held (serve rs p) \<le> capacity p"
  using bounded serve_inv by metis

lemma refused_only_when_full:
  "\<lbrakk> inv p; \<not> fst (take_slot w (serve rs p)) \<rbrakk> \<Longrightarrow> held (serve rs p) = capacity p"
  using refused serve_inv by metis

end

definition pl_inv :: "ResourcePool \<Rightarrow> bool" where
  "pl_inv p \<longleftrightarrow> 0 < pl_maxSize p \<and> 0 \<le> pl_inUse p \<and> pl_inUse p \<le> pl_maxSize p \<and>
     (pl_queue p \<noteq> [] \<longrightarrow> pl_inUse p = pl_maxSize p)"

definition pm_inv :: "PoolManager \<Rightarrow> bool" where
  "pm_inv p \<longleftrightarrow> distinct (pm_activeWorkers p) \<and> int (length (pm_activeWorkers p)) \<le> pm_maxSize p"

lemmas pl_defs = pl_inv_def pl_tryAcquire_def pl_release_def pl_timerFires_def

lemma pl_tryAcquire_inv: "pl_inv p \<Longrightarrow> pl_inv (snd (pl_tryAcquire w t p))"
  by (auto simp: pl_defs)

lemma pl_release_inv: "pl_inv p \<Longrightarrow> pl_inv (snd (pl_release p))"
  by (auto simp: pl_defs Let_def split: list.splits)

lemma remove_waiter_Nil: "xs = [] \<Longrightarrow> remove_waiter w xs = []"
  by simp

lemma pl_timerFires_inv: "pl_inv p \<Longrightarrow> pl_inv (pl_timerFires w p)"
  by (auto simp: pl_defs)

interpretation pool: slot_pool "\<lambda>w. pl_tryAcquire w 30000" "\<lambda>w p. snd (pl_release p)" pl_inUse pl_maxSize pl_inv
proof unfold_locales
  show "pl_inv (snd (pl_tryAcquire w 30000 p))" if "pl_inv p" for w p
    using that by (rule pl_tryAcquire_inv)
  show "pl_inv (snd (pl_release p))" if "pl_inv p" for p
    using that by (rule pl_release_inv)
qed (auto simp: pl_defs Let_def split: list.splits if_splits)

interpretation workers: slot_pool pm_acquire pm_release "\<lambda>p. int (length (pm_activeWorkers p))" pm_maxSize pm_inv
  by unfold_locales (auto simp: pm_inv_def pm_acquire_def pm_release_def length_remove1 split: if_splits)

subsection \<open>Executions in flight\<close>

text \<open>The executions of one bulkhead that have started and not finished, besides those waiting in
  the pool's queue: settled but not resumed (granted or denied), and running.\<close>

record executions =
  ex_bulkhead :: Bulkhead
  ex_granted :: "nat list"
  ex_denied :: "nat list"
  ex_running :: "nat list"

inductive bulkhead_step :: "executions \<Rightarrow> executions \<Rightarrow> bool" where
  starts_rejected: "bh_start w t (ex_bulkhead s) = (None, b) \<Longrightarrow>
     bulkhead_step s (s\<lparr> ex_bulkhead := b \<rparr>)"
| starts_granted: "bh_start w t (ex_bulkhead s) = (Some True, b) \<Longrightarrow>
     bulkhead_step s (s\<lparr> ex_bulkhead := b, ex_granted := ex_granted s @ [w] \<rparr>)"
| starts_waiting: "bh_start w t (ex_bulkhead s) = (Some False, b) \<Longrightarrow>
     bulkhead_step s (s\<lparr> ex_bulkhead := b \<rparr>)"
| times_out: "\<lbrakk> ex_bulkhead s = b; \<lparr> wa_id = w, wa_timer = True \<rparr> \<in> set (pl_queue (bh_pool b)) \<rbrakk> \<Longrightarrow>
     bulkhead_step s (s\<lparr> ex_bulkhead := b\<lparr> bh_pool := pl_timerFires w (bh_pool b) \<rparr>,
       ex_denied := ex_denied s @ [w] \<rparr>)"
| resumes_granted: "w \<in> set (ex_granted s) \<Longrightarrow>
     bulkhead_step s (s\<lparr> ex_bulkhead := bh_resume True (ex_bulkhead s),
       ex_granted := remove1 w (ex_granted s), ex_running := ex_running s @ [w] \<rparr>)"
| resumes_denied: "w \<in> set (ex_denied s) \<Longrightarrow>
     bulkhead_step s (s\<lparr> ex_bulkhead := bh_resume False (ex_bulkhead s), ex_denied := remove1 w (ex_denied s) \<rparr>)"
| finishes: "\<lbrakk> w \<in> set (ex_running s); bh_finish (ex_bulkhead s) = (next_id, b) \<rbrakk> \<Longrightarrow>
     bulkhead_step s (s\<lparr> ex_bulkhead := b, ex_running := remove1 w (ex_running s),
       ex_granted := ex_granted s @ (case next_id of None \<Rightarrow> [] | Some v \<Rightarrow> [v]) \<rparr>)"

inductive in_flight :: "executions \<Rightarrow> bool" where
  idle: "Bulkhead_new name mc mq tm = Inr b \<Longrightarrow>
     in_flight \<lparr> ex_bulkhead = b, ex_granted = [], ex_denied = [], ex_running = [] \<rparr>"
| progress: "\<lbrakk> in_flight s; bulkhead_step s s' \<rbrakk> \<Longrightarrow> in_flight s'"

definition ex_inv :: "executions \<Rightarrow> bool" where
  "ex_inv s \<longleftrightarrow> (let b = ex_bulkhead s; p = bh_pool b; m = bh_metrics b; c = bh_config b in
     pl_inv p \<and> pl_maxSize p = bc_maxConcurrent c \<and>
     pl_inUse p = int (length (ex_granted s)) + int (length (ex_running s)) \<and>
     int (length (pl_queue p)) \<le> max 0 (bc_maxQueueSize c) \<and>
     bm_queued m = int (length (pl_queue p)) + int (length (ex_granted s)) + int (length (ex_denied s)) \<and>
     bm_active m = int (length (ex_running s)) \<and>
     bm_totalAcquires m = bm_totalReleases m + int (length (ex_running s)))"

lemma length_remove1_mem: "w \<in> set xs \<Longrightarrow> int (length (remove1 w xs)) = int (length xs) - 1"
  by (induction xs) auto

lemma length_remove_waiter:
  "\<lparr> wa_id = w, wa_timer = True \<rparr> \<in> set q \<Longrightarrow> int (length (remove_waiter w q)) = int (length q) - 1"
  by (induction q) auto

lemmas bm_defs = bm_recordAcquire_def bm_recordRelease_def bm_recordQueued_def bm_recordDequeued_def
  bm_recordRejection_def

lemma bh_start_cases:
  obtains (rejected) "bh_start w t b = (None, b\<lparr> bh_metrics := bm_recordRejection (bh_metrics b) \<rparr>)"
  | (granted) "pl_inUse (bh_pool b) < pl_maxSize (bh_pool b)"
      "bh_start w t b = (Some True, b\<lparr> bh_metrics := bm_recordQueued (bh_metrics b),
         bh_pool := (bh_pool b)\<lparr> pl_inUse := pl_inUse (bh_pool b) + 1 \<rparr> \<rparr>)"
  | (waiting) x where "pl_maxSize (bh_pool b) \<le> pl_inUse (bh_pool b)"
      "pl_maxSize (bh_pool b) = bc_maxConcurrent (bh_config b) \<Longrightarrow>
         int (length (pl_queue (bh_pool b))) < bc_maxQueueSize (bh_config b)"
      "bh_start w t b = (Some False, b\<lparr> bh_metrics := bm_recordQueued (bh_metrics b),
         bh_pool := (bh_pool b)\<lparr> pl_queue := pl_queue (bh_pool b) @ [x] \<rparr> \<rparr>)"
  by (cases "fst (bh_start w t b)")
    (auto simp: bh_start_def pl_tryAcquire_def pl_getStats_def Let_def split: if_splits)

lemma bh_finish_cases:
  assumes "0 < pl_inUse (bh_pool b)"
  obtains (handover) x rest where "pl_queue (bh_pool b) = x # rest"
      "bh_finish b = (Some (wa_id x), b\<lparr> bh_pool := (bh_pool b)\<lparr> pl_queue := rest \<rparr>,
         bh_metrics := bm_recordRelease (bh_metrics b) \<rparr>)"
  | (free) "pl_queue (bh_pool b) = []"
      "bh_finish b = (None, b\<lparr> bh_pool := (bh_pool b)\<lparr> pl_inUse := pl_inUse (bh_pool b) - 1 \<rparr>,
         bh_metrics := bm_recordRelease (bh_metrics b) \<rparr>)"
  using assms
  by (cases "pl_queue (bh_pool b)") (auto simp: bh_finish_def pl_release_def Let_def)

lemma bulkhead_step_inv:
  assumes "bulkhead_step s s'" "ex_inv s"
  shows "ex_inv s'"
  using assms(1)
proof cases
  case (starts_rejected w t b)
  then show ?thesis using assms(2)
    by (cases rule: bh_start_cases [of w t "ex_bulkhead s"]) (auto simp: ex_inv_def Let_def bm_defs)
next
  case (starts_granted w t b)
  then show ?thesis using assms(2)
    by (cases rule: bh_start_cases [of w t "ex_bulkhead s"]) (auto simp: ex_inv_def pl_inv_def Let_def bm_defs)
next
  case (starts_waiting w t b)
  then show ?thesis using assms(2)
    by (cases rule: bh_start_cases [of w t "ex_bulkhead s"]) (auto simp: ex_inv_def pl_inv_def Let_def bm_defs)
next
  case (times_out b w)
  then show ?thesis using assms(2) length_remove_waiter [OF times_out(3)] pl_timerFires_inv [of "bh_pool b" w]
    by (auto simp: ex_inv_def Let_def pl_timerFires_def)
next
  case (resumes_granted w)
  then show ?thesis using assms(2) length_remove1_mem [of w "ex_granted s"]
    by (auto simp: ex_inv_def Let_def bh_resume_def bm_defs)
next
  case (resumes_denied w)
  then show ?thesis using assms(2) length_remove1_mem [of w "ex_denied s"]
    by (auto simp: ex_inv_def Let_def bh_resume_def bm_defs)
next
  case (finishes w next_id b)
  have pos: "1 \<le> int (length (ex_running s))" using finishes(2) by (cases "ex_running s") auto
  moreover have "pl_inUse (bh_pool (ex_bulkhead s)) = int (length (ex_granted s)) + int (length (ex_running s))"
    using assms(2) by (simp add: ex_inv_def Let_def)
  ultimately have "0 < pl_inUse (bh_pool (ex_bulkhead s))" by linarith
  then show ?thesis
    by (cases rule: bh_finish_cases)
      (use finishes assms(2) pos length_remove1_mem [of w "ex_running s"] in
        \<open>auto simp: ex_inv_def pl_inv_def Let_def bm_defs\<close>)
qed

lemma in_flight_inv: "in_flight s \<Longrightarrow> ex_inv s"
proof (induction rule: in_flight.induct)
  case (idle name mc mq tm b)
  then show ?case
    by (auto simp: Bulkhead_new_def ResourcePool_new_def BulkheadMetrics_new_def ex_inv_def pl_inv_def Let_def
        split: if_splits)
qed (rule bulkhead_step_inv)

subsection \<open>Properties\<close>

text \<open>C7: However executions start, wait, time out, resume and finish around one another, a bulkhead
  never runs more tasks than its limit, its pool's use is exactly the tasks holding a slot, a request
  waits only while every slot is taken and never beyond the queue limit, and the metrics equal what
  they claim to count; so when nothing is in flight every slot is free again.\<close>

theorem bulkhead_loses_no_slot:
  assumes "in_flight s"
  shows "let b = ex_bulkhead s; p = bh_pool b; c = bh_config b; m = bh_metrics b in
    int (length (ex_running s)) \<le> bc_maxConcurrent c \<and>
    pl_inUse p = int (length (ex_granted s)) + int (length (ex_running s)) \<and>
    pl_inUse p \<le> bc_maxConcurrent c \<and>
    int (length (pl_queue p)) \<le> max 0 (bc_maxQueueSize c) \<and>
    (pl_queue p \<noteq> [] \<longrightarrow> pl_inUse p = bc_maxConcurrent c) \<and>
    bm_active m = int (length (ex_running s)) \<and>
    bm_totalAcquires m - bm_totalReleases m = int (length (ex_running s)) \<and>
    (ex_granted s = [] \<and> ex_denied s = [] \<and> ex_running s = [] \<longrightarrow>
       pl_inUse p = 0 \<and> pl_queue p = [] \<and> bm_queued m = 0)"
  using in_flight_inv [OF assms] by (auto simp: ex_inv_def pl_inv_def Let_def)

theorem bulkhead_loses_no_slot_witness:
  "\<exists>s b. in_flight s \<and> ex_running s = [1] \<and> pl_queue (bh_pool (ex_bulkhead s)) = [\<lparr> wa_id = 2, wa_timer = True \<rparr>] \<and>
     pl_inUse (bh_pool (ex_bulkhead s)) = 1"
proof -
  obtain b where b: "Bulkhead_new ''w'' (Some 1) None None = Inr b"
    by (simp add: Bulkhead_new_def ResourcePool_new_def)
  let ?s0 = "\<lparr> ex_bulkhead = b, ex_granted = [], ex_denied = [], ex_running = [] \<rparr>"
  have bdef: "b = \<lparr> bh_name = ''w'', bh_config = \<lparr> bc_maxConcurrent = 1, bc_maxQueueSize = 50, bc_timeout = 30000 \<rparr>,
      bh_pool = \<lparr> pl_maxSize = 1, pl_inUse = 0, pl_queue = [] \<rparr>, bh_metrics = BulkheadMetrics_new 1 \<rparr>"
    using b by (simp add: Bulkhead_new_def ResourcePool_new_def)
  obtain b1 where b1: "bh_start 1 None b = (Some True, b1)"
    by (simp add: bdef bh_start_def pl_tryAcquire_def pl_getStats_def)
  then have b1def: "b1 = b\<lparr> bh_metrics := bm_recordQueued (bh_metrics b), bh_pool := (bh_pool b)\<lparr> pl_inUse := 1 \<rparr> \<rparr>"
    by (simp add: bdef bh_start_def pl_tryAcquire_def pl_getStats_def)
  obtain b3 where b3: "bh_start 2 None (bh_resume True b1) = (Some False, b3)"
    and q: "pl_queue (bh_pool b3) = [\<lparr> wa_id = 2, wa_timer = True \<rparr>]"
    by (simp add: bdef b1def bh_resume_def bh_start_def pl_tryAcquire_def pl_getStats_def Let_def)
  let ?s1 = "?s0\<lparr> ex_bulkhead := b1, ex_granted := [1] \<rparr>"
  let ?s2 = "?s1\<lparr> ex_bulkhead := bh_resume True b1, ex_granted := [], ex_running := [1] \<rparr>"
  let ?s3 = "?s2\<lparr> ex_bulkhead := b3 \<rparr>"
  have "in_flight ?s0" using b by (rule in_flight.idle)
  then have "in_flight ?s1" by (rule progress) (use starts_granted [of 1 None ?s0 b1] b1 in simp)
  then have "in_flight ?s2" by (rule progress) (use resumes_granted [of 1 ?s1] in simp)
  then have s3: "in_flight ?s3" by (rule progress) (use starts_waiting [of 2 None ?s2 b3] b3 in simp)
  with bulkhead_loses_no_slot [OF s3] have "pl_inUse (bh_pool b3) = 1" by (simp add: Let_def)
  with s3 q show ?thesis by (intro exI [of _ ?s3]) simp
qed

text \<open>A run of a pool in which no timer fires: requests arrive (with their identifier) or a slot is
  released; the result lists the requests granted, in order.\<close>

fun churn :: "nat option list \<Rightarrow> ResourcePool \<Rightarrow> nat list \<times> ResourcePool" where
  "churn [] p = ([], p)"
| "churn (Some w # es) p =
     (case pl_tryAcquire w 30000 p of (granted, p1) \<Rightarrow>
      case churn es p1 of (gs, p2) \<Rightarrow> (if granted then w # gs else gs, p2))"
| "churn (None # es) p =
     (case pl_release p of (w, p1) \<Rightarrow>
      case churn es p1 of (gs, p2) \<Rightarrow> ((case w of None \<Rightarrow> gs | Some v \<Rightarrow> v # gs), p2))"

definition arrivals :: "nat option list \<Rightarrow> nat list" where
  "arrivals es = concat (map (\<lambda>e. case e of None \<Rightarrow> [] | Some w \<Rightarrow> [w]) es)"

text \<open>The pool is fair: the requests granted so far followed by those still waiting are exactly the
  requests in order of arrival, whatever the releases in between.\<close>

theorem pool_grants_in_arrival_order:
  assumes "pl_inv p" "churn es p = (granted, p')"
  shows "granted @ map wa_id (pl_queue p') = map wa_id (pl_queue p) @ arrivals es \<and> pl_inv p'"
  using assms
proof (induction es p arbitrary: granted p' rule: churn.induct)
  case (1 p)
  then show ?case by (simp add: arrivals_def)
next
  case (2 w es p)
  obtain g p1 where t: "pl_tryAcquire w 30000 p = (g, p1)" by (cases "pl_tryAcquire w 30000 p")
  obtain gs p2 where c: "churn es p1 = (gs, p2)" by (cases "churn es p1")
  have "pl_inv p1" using pl_tryAcquire_inv [OF 2(2), of w 30000] t by simp
  from 2(1) [OF t [symmetric] this c] have
    "gs @ map wa_id (pl_queue p2) = map wa_id (pl_queue p1) @ arrivals es" "pl_inv p2" by auto
  then show ?case using 2(2,3) t c
    by (auto simp: pl_tryAcquire_def pl_inv_def arrivals_def split: if_splits)
next
  case (3 es p)
  obtain w p1 where t: "pl_release p = (w, p1)" by (cases "pl_release p")
  obtain gs p2 where c: "churn es p1 = (gs, p2)" by (cases "churn es p1")
  have "pl_inv p1" using pl_release_inv [OF 3(2)] t by simp
  from 3(1) [OF t [symmetric] this c] have
    "gs @ map wa_id (pl_queue p2) = map wa_id (pl_queue p1) @ arrivals es" "pl_inv p2" by auto
  then show ?case using 3(2,3) t c
    by (auto simp: pl_release_def pl_inv_def arrivals_def Let_def split: if_splits list.splits)
qed

theorem pool_grants_in_arrival_order_witness:
  "fst (churn [Some 4, Some 5, Some 6, None, Some 7, None] \<lparr> pl_maxSize = 1, pl_inUse = 0, pl_queue = [] \<rparr>) = [4, 5, 6]"
proof -
  let ?p = "\<lparr> pl_maxSize = 1, pl_inUse = 0, pl_queue = [] \<rparr> :: ResourcePool"
  let ?es = "[Some 4, Some 5, Some 6, None, Some 7, None]"
  have i: "pl_inv ?p" by (simp add: pl_inv_def)
  obtain g p' where c: "churn ?es ?p = (g, p')" by (cases "churn ?es ?p")
  then have "map wa_id (pl_queue p') = [7]" by (auto simp: pl_tryAcquire_def pl_release_def)
  with pool_grants_in_arrival_order [OF i c] have "g = [4, 5, 6]" by (simp add: arrivals_def)
  with c show ?thesis by simp
qed

end
