(* ===== verification/QF_Config.thy ===== *)
theory QF_Config
  imports QF_Backoff QF_Breaker QF_Bulkhead
begin

text \<open>
  The resilience settings the program loads from its environment
  (\<open>config/resilience.config.ts\<close>) and how the resilience components read them. An environment
  variable is unset (or empty), a number, or text that is not a number.
\<close>

datatype env_num = Unset | EnvNum rat | EnvNaN

text \<open>\<open>Number(process.env.X || d)\<close>; \<open>None\<close> is \<open>NaN\<close>.\<close>

definition env_number :: "env_num \<Rightarrow> rat \<Rightarrow> rat option" where
  "env_number v d = (case v of Unset \<Rightarrow> Some d | EnvNum x \<Rightarrow> Some x | EnvNaN \<Rightarrow> None)"

record resilience_env =
  CIRCUIT_BREAKER_THRESHOLD :: env_num
  CIRCUIT_BREAKER_TIMEOUT_MS :: env_num
  WORKER_CONCURRENCY :: env_num
  DB_POOL_MAX :: env_num
  REDIS_POOL_MAX :: env_num
  NODE_ENV :: "string option"
  MAX_RETRIES :: env_num
  BACKOFF_BASE_MS :: env_num
  BACKPRESSURE_QUEUE_DEPTH_THRESHOLD :: env_num

definition empty_env :: resilience_env where
  "empty_env = \<lparr> CIRCUIT_BREAKER_THRESHOLD = Unset, CIRCUIT_BREAKER_TIMEOUT_MS = Unset,
     WORKER_CONCURRENCY = Unset, DB_POOL_MAX = Unset, REDIS_POOL_MAX = Unset, NODE_ENV = None,
     MAX_RETRIES = Unset, BACKOFF_BASE_MS = Unset, BACKPRESSURE_QUEUE_DEPTH_THRESHOLD = Unset \<rparr>"

text \<open>The loaded settings, those fields that come from the environment; the others are constants and
  written where they are read. \<open>z.number().int().positive()\<close> admits positive integers.\<close>

record ResilienceConfig =
  rc_threshold :: int
  rc_timeoutMs :: int
  rc_timeoutSec :: int
  rc_webhookPool :: int
  rc_dbPool :: int
  rc_queuePool :: int
  rc_maxRetries :: int
  rc_backoffBaseMs :: int
  rc_queueDepthThreshold :: int
  rc_alarmThreshold :: int

definition positive_int :: "rat option \<Rightarrow> string + int" where
  "positive_int v = (case v of None \<Rightarrow> Inl ''ValidationError''
     | Some x \<Rightarrow> if of_int \<lfloor>x\<rfloor> = x \<and> 0 < x then Inr \<lfloor>x\<rfloor> else Inl ''ValidationError'')"

definition loadResilienceConfig :: "resilience_env \<Rightarrow> string + ResilienceConfig" where
  "loadResilienceConfig env =
     (let cbThreshold = env_number (CIRCUIT_BREAKER_THRESHOLD env) 5;
          cbTimeoutMs = env_number (CIRCUIT_BREAKER_TIMEOUT_MS env) 60000;
          cbTimeoutSec = map_option (\<lambda>t. of_int (js_round (t / 1000))) cbTimeoutMs;
          workerConcurrency = env_number (WORKER_CONCURRENCY env) 10;
          dbPoolMax = env_number (DB_POOL_MAX env) 10;
          redisPoolMax = env_number (REDIS_POOL_MAX env) 15;
          isTestEnv = (lower (str_or (NODE_ENV env) ''development'') = ''test'');
          webhookPool = (if isTestEnv then Some 2 else workerConcurrency);
          dbPool = (if isTestEnv then Some 2 else dbPoolMax);
          queuePool = (if isTestEnv then Some 2 else redisPoolMax);
          depthThreshold = env_number (BACKPRESSURE_QUEUE_DEPTH_THRESHOLD env) 1000 in
      if (case cbThreshold of None \<Rightarrow> False | Some t \<Rightarrow> t < 1 \<or> t > 100) then Inl ''CIRCUIT_BREAKER_THRESHOLD''
      else
        bindE (positive_int cbThreshold) (\<lambda>threshold.
        bindE (positive_int cbTimeoutMs) (\<lambda>timeoutMs.
        bindE (positive_int cbTimeoutSec) (\<lambda>timeoutSec.
        bindE (positive_int webhookPool) (\<lambda>webhook.
        bindE (positive_int dbPool) (\<lambda>db.
        bindE (positive_int queuePool) (\<lambda>queue.
        bindE (positive_int (env_number (MAX_RETRIES env) 5)) (\<lambda>maxR.
        bindE (positive_int (env_number (BACKOFF_BASE_MS env) 1000)) (\<lambda>base.
        bindE (positive_int depthThreshold) (\<lambda>depth.
          Inr \<lparr> rc_threshold = threshold, rc_timeoutMs = timeoutMs, rc_timeoutSec = timeoutSec,
            rc_webhookPool = webhook, rc_dbPool = db, rc_queuePool = queue, rc_maxRetries = maxR,
            rc_backoffBaseMs = base, rc_queueDepthThreshold = depth, rc_alarmThreshold = depth \<rparr>))))))))))"

text \<open>What the components read: the retry engine (\<open>backoffMaxMs\<close> 3600000, jitter 0.1), the breaker
  manager (nested under \<open>circuitBreaker\<close>), the bulkhead manager (nested under \<open>bulkhead\<close>).\<close>

definition retry_view :: "ResilienceConfig \<Rightarrow> ResilienceRetry" where
  "retry_view c = \<lparr> cfg_maxRetries = Some (rc_maxRetries c), cfg_backoffBaseMs = Some (rc_backoffBaseMs c),
     cfg_backoffMaxMs = Some 3600000, cfg_backoffJitterFactor = Some (1 / 10) \<rparr>"

definition breaker_view :: "ResilienceConfig \<Rightarrow> default_config" where
  "breaker_view c = NestedConfig \<lparr> pc_threshold = Some (rc_threshold c), pc_timeout = Some (rc_timeoutMs c),
     pc_monitoringPeriod = Some 120000, pc_rollingCountTimeout = Some 10000, pc_successThreshold = None,
     pc_halfOpenTimeout = None \<rparr>"

definition bulkhead_view :: "ResilienceConfig \<Rightarrow> BulkheadDefaults" where
  "bulkhead_view c = \<lparr> bd_maxConcurrent = Some 100, bd_maxQueueSize = Some 1000, bd_timeout = Some 30000 \<rparr>"

lemma positive_int_Inr: "positive_int v = Inr n \<Longrightarrow> v = Some (of_int n) \<and> 0 < n"
  by (auto simp: positive_int_def split: option.splits if_splits)

lemma loadResilienceConfig_Inr:
  assumes "loadResilienceConfig env = Inr c"
  shows "0 < rc_threshold c" "rc_threshold c \<le> 100" "0 < rc_timeoutMs c" "0 < rc_timeoutSec c"
    "0 < rc_webhookPool c" "0 < rc_dbPool c" "0 < rc_queuePool c" "0 < rc_maxRetries c"
    "0 < rc_backoffBaseMs c" "0 < rc_queueDepthThreshold c" "rc_alarmThreshold c = rc_queueDepthThreshold c"
  using assms by (auto simp: loadResilienceConfig_def Let_def split: if_splits option.splits dest!: positive_int_Inr)

lemma empty_env_loads:
  "loadResilienceConfig empty_env = Inr \<lparr> rc_threshold = 5, rc_timeoutMs = 60000, rc_timeoutSec = 60,
     rc_webhookPool = 10, rc_dbPool = 10, rc_queuePool = 15, rc_maxRetries = 5, rc_backoffBaseMs = 1000,
     rc_queueDepthThreshold = 1000, rc_alarmThreshold = 1000 \<rparr>"
  by (simp add: loadResilienceConfig_def empty_env_def env_number_def positive_int_def js_round_def
      lower_char_def floor_eq_iff Let_def)

text \<open>Settings that load are usable by every resilience component: a new breaker of the manager has
  a positive threshold of at most 100 and a positive timeout, the manager of bulkheads starts, the
  isolation pools and the rate-based breaker are accepted, and the retry engine computes a wait for
  every retry between the base and the cap, provided the base itself is within the hour the cap is
  fixed to.\<close>

theorem loaded_settings_are_usable:
  assumes "loadResilienceConfig env = Inr c" "0 \<le> n" "0 \<le> r"
  shows "(let b = fst (mg_getBreaker d (CircuitBreakerManager_new (breaker_view c))) in
      0 < cb_threshold (br_config b) \<and> cb_threshold (br_config b) \<le> 100 \<and> 0 < cb_timeout (br_config b)) \<and>
    okE (BulkheadManager_new (bulkhead_view c)) \<and>
    okE (configureQueueIsolation (rc_webhookPool c) (rc_dbPool c) (rc_queuePool c)) \<and>
    okE (getCircuitBreakerConfig (of_int (rc_threshold c)) (rc_timeoutSec c) 3) \<and>
    (rc_backoffBaseMs c \<le> 3600000 \<longrightarrow>
       (\<exists>w. RetryEngine_calculateBackoff (retry_view c) r n = Inr w \<and> rc_backoffBaseMs c \<le> w \<and> w \<le> 3600000))"
proof (intro conjI impI)
  note c = loadResilienceConfig_Inr [OF assms(1)]
  show "let b = fst (mg_getBreaker d (CircuitBreakerManager_new (breaker_view c))) in
      0 < cb_threshold (br_config b) \<and> cb_threshold (br_config b) \<le> 100 \<and> 0 < cb_timeout (br_config b)"
    using c by (simp add: mg_getBreaker_def CircuitBreakerManager_new_def mg_createBreaker_def breaker_view_def
        mg_base_def mergePartial_def over_def emptyPartial_def CircuitBreaker_new_def createDefaultConfig_def Let_def)
  show "okE (BulkheadManager_new (bulkhead_view c))"
    by (simp add: BulkheadManager_new_def bg_createBulkhead_def no_override_def bulkhead_view_def
        Bulkhead_new_def ResourcePool_new_def)
  show "okE (configureQueueIsolation (rc_webhookPool c) (rc_dbPool c) (rc_queuePool c))"
    using c by (simp add: configureQueueIsolation_def)
  show "okE (getCircuitBreakerConfig (of_int (rc_threshold c)) (rc_timeoutSec c) 3)"
    using c by (simp add: getCircuitBreakerConfig_def)
  assume base: "rc_backoffBaseMs c \<le> 3600000"
  let ?p = "\<lparr> p_maxRetries = rc_maxRetries c, p_baseMs = rc_backoffBaseMs c, p_maxMs = 3600000, p_jitterFactor = 1 / 10 \<rparr>"
  have get: "getRetryConfig (retry_view c) = Inr ?p"
    using c base by (simp add: getRetryConfig_def retry_view_def)
  have v: "valid_params ?p" using getRetryConfig_valid [OF get] by simp
  have "RetryEngine_calculateBackoff (retry_view c) r n = Inr (engine_delay ?p r (n + 1))"
    using calculateExponentialBackoff_ok [OF v, of "n + 1" r] assms(2)
    by (simp add: RetryEngine_calculateBackoff_def get)
  moreover have "rc_backoffBaseMs c \<le> engine_delay ?p r (n + 1)" "engine_delay ?p r (n + 1) \<le> 3600000"
    using engine.lower [OF v assms(3), of "n + 1"] engine.upper [OF v, of r "n + 1"] base assms(2) by auto
  ultimately show "\<exists>w. RetryEngine_calculateBackoff (retry_view c) r n = Inr w \<and> rc_backoffBaseMs c \<le> w \<and> w \<le> 3600000"
    by blast
qed

theorem loaded_settings_are_usable_witness:
  "\<exists>c w. loadResilienceConfig empty_env = Inr c \<and> RetryEngine_calculateBackoff (retry_view c) (1 / 2) 3 = Inr w \<and>
     1000 \<le> w \<and> w \<le> 3600000"
  using loaded_settings_are_usable [OF empty_env_loads, of 3 "1 / 2"] empty_env_loads by auto

end
