(* ===== verification/QF_Backpressure.thy ===== *)
theory QF_Backpressure
  imports QF_Config "HOL-Library.Multiset" "HOL-Library.Log_Nat"
begin

text \<open>
  Backpressure (\<open>resilience/backpressure\<close>): the queue monitor, the shedding strategies, the
  adaptive limiter, the alarm history, the monitor that sheds and the handler that polls. A read of
  the job counts is an argument: \<open>None\<close> when the queue has no counts or the call fails. The random
  draws of the shuffle are an argument list. The limiter's products are those of binary64, since
  their rounding decides its steps.
\<close>

subsection \<open>Binary64 products\<close>

text \<open>Rounding a positive rational to the nearest number with 53 significant bits, ties to even, for
  magnitudes from 1 up (overflow is out of reach of the limits it is used on); below 1 only the
  integer part of the result is used, and that is 0.\<close>

definition round_even :: "rat \<Rightarrow> int" where
  "round_even x = (let f = \<lfloor>x\<rfloor>; d = x - of_int f in
     if d < 1 / 2 then f else if d > 1 / 2 then f + 1 else if even f then f else f + 1)"

definition ulp :: "rat \<Rightarrow> rat" where
  "ulp x = 2 ^ (floorlog 2 (nat \<lfloor>x\<rfloor>)) / 2 ^ 53"

definition fl :: "rat \<Rightarrow> rat" where
  "fl x = (if x < 1 then x else of_int (round_even (x / ulp x)) * ulp x)"

text \<open>The literals 1.1 and 0.8 as binary64 stores them.\<close>

definition lit_1_1 :: rat where
  "lit_1_1 = 2476979795053773 / 2251799813685248"

definition lit_0_8 :: rat where
  "lit_0_8 = 3602879701896397 / 4503599627370496"

subsection \<open>QueueMonitor\<close>

record QueueStats =
  qs_main :: int
  qs_delayed :: int
  qs_dlq :: int
  qs_active :: int
  qs_waiting :: int
  qs_failed :: int

record job_counts =
  jc_waiting :: "int option"
  jc_active :: "int option"
  jc_delayed :: "int option"
  jc_failed :: "int option"

record QueueMonitor =
  qm_lastDepth :: int
  qm_depthThreshold :: "int option"
  qm_queueDepthThreshold :: "int option"
  qm_alarmThreshold :: "rat option"

definition getQueueStats :: "job_counts option \<Rightarrow> QueueMonitor \<Rightarrow> QueueStats" where
  "getQueueStats reading m = (case reading of
       None \<Rightarrow> \<lparr> qs_main = qm_lastDepth m, qs_delayed = 0, qs_dlq = 0, qs_active = 0, qs_waiting = 0, qs_failed = 0 \<rparr>
     | Some c \<Rightarrow> \<lparr> qs_main = num_or (jc_waiting c) 0 + num_or (jc_active c) 0 + num_or (jc_delayed c) 0,
         qs_delayed = num_or (jc_delayed c) 0, qs_dlq = num_or (jc_failed c) 0,
         qs_active = num_or (jc_active c) 0, qs_waiting = num_or (jc_waiting c) 0,
         qs_failed = num_or (jc_failed c) 0 \<rparr>)"

definition getQueueDepth :: "job_counts option \<Rightarrow> QueueMonitor \<Rightarrow> int \<times> QueueMonitor" where
  "getQueueDepth reading m = (let d = qs_main (getQueueStats reading m) in (d, m\<lparr> qm_lastDepth := d \<rparr>))"

definition monitor_threshold :: "QueueMonitor \<Rightarrow> int" where
  "monitor_threshold m = num_or (qm_depthThreshold m) (num_or (qm_queueDepthThreshold m) 1000)"

definition getPercentageOfMax :: "job_counts option \<Rightarrow> QueueMonitor \<Rightarrow> rat \<times> QueueMonitor" where
  "getPercentageOfMax reading m = (case getQueueDepth reading m of (depth, m1) \<Rightarrow>
     (if monitor_threshold m \<le> 0 then 0 else of_int depth / of_int (monitor_threshold m) * 100, m1))"

definition isUnderPressure :: "job_counts option \<Rightarrow> QueueMonitor \<Rightarrow> bool \<times> QueueMonitor" where
  "isUnderPressure reading m = (case getPercentageOfMax reading m of (pct, m1) \<Rightarrow>
     (pct \<ge> rat_or (qm_alarmThreshold m) 75, m1))"

datatype PressureLevel = Low | Medium | High | Critical

definition level_of :: "rat \<Rightarrow> PressureLevel" where
  "level_of pct = (if pct < 25 then Low else if pct < 50 then Medium else if pct < 75 then High else Critical)"

definition getPressureLevel :: "job_counts option \<Rightarrow> QueueMonitor \<Rightarrow> PressureLevel \<times> QueueMonitor" where
  "getPressureLevel reading m = (case getPercentageOfMax reading m of (pct, m1) \<Rightarrow> (level_of pct, m1))"

subsection \<open>Shedding\<close>

datatype SheddingStrategy = FIFO | RANDOM | PRIORITY | NONE

text \<open>The shuffle walks \<open>i\<close> down to 1 and swaps it with a drawn index not above it.\<close>

definition swap_at :: "nat \<Rightarrow> nat \<Rightarrow> 'a list \<Rightarrow> 'a list" where
  "swap_at i j xs = xs[i := xs ! j, j := xs ! i]"

fun shuffle_down :: "nat \<Rightarrow> rat list \<Rightarrow> 'a list \<Rightarrow> 'a list" where
  "shuffle_down 0 rs xs = xs"
| "shuffle_down (Suc i) [] xs = xs"
| "shuffle_down (Suc i) (r # rs) xs =
     shuffle_down i rs (swap_at (Suc i) (nat \<lfloor>r * of_nat (Suc (Suc i))\<rfloor>) xs)"

definition shed_count :: "nat \<Rightarrow> rat \<Rightarrow> nat" where
  "shed_count n percentageToShed = nat (min (int n) \<lceil>of_nat n * percentageToShed / 100\<rceil>)"

definition selectJobsToShed :: "('a \<Rightarrow> rat) \<Rightarrow> rat list \<Rightarrow> 'a list \<Rightarrow> rat \<Rightarrow> SheddingStrategy \<Rightarrow> 'a list" where
  "selectJobsToShed priority rs jobs percentageToShed strategy =
     (if jobs = [] \<or> percentageToShed \<le> 0 \<or> strategy = NONE then []
      else let countToShed = shed_count (length jobs) percentageToShed in
        case strategy of
          FIFO \<Rightarrow> take countToShed jobs
        | RANDOM \<Rightarrow> take countToShed (shuffle_down (length jobs - 1) rs jobs)
        | PRIORITY \<Rightarrow> take countToShed (sort_key priority jobs)
        | NONE \<Rightarrow> [])"

datatype ShedStrategyType = REJECT | DELAY | SHED

record SheddingPolicy =
  sp_strategy :: ShedStrategyType
  sp_rejectStatusCode :: int
  sp_delayMs :: int
  sp_shedPercentage :: int

definition getSheddingPolicy :: "string option \<Rightarrow> rat option \<Rightarrow> string + SheddingPolicy" where
  "getSheddingPolicy sheddingStrategy alarmThreshold =
     (let strategy = (if sheddingStrategy = Some ''BLOCK'' then REJECT
           else if sheddingStrategy = Some ''DROP_OLDEST'' then SHED
           else if sheddingStrategy = Some ''DROP_LATEST'' then DELAY else REJECT) in
      if (case alarmThreshold of None \<Rightarrow> False | Some t \<Rightarrow> t \<le> 0 \<or> t > 100) then Inl ''backpressureAlarmThreshold''
      else Inr \<lparr> sp_strategy = strategy, sp_rejectStatusCode = 429, sp_delayMs = 5000, sp_shedPercentage = 10 \<rparr>)"

subsection \<open>AdaptiveLimiter\<close>

record AdaptiveLimiter =
  al_minConcurrency :: int
  al_maxConcurrency :: int
  al_currentConcurrency :: int

definition AdaptiveLimiter_new :: "int option \<Rightarrow> int option \<Rightarrow> int option \<Rightarrow> AdaptiveLimiter" where
  "AdaptiveLimiter_new minC maxC initial = \<lparr> al_minConcurrency = num_or minC 1,
     al_maxConcurrency = num_or maxC 100, al_currentConcurrency = num_or initial 20 \<rparr>"

definition isSheddingEnabled :: "PressureLevel \<Rightarrow> bool" where
  "isSheddingEnabled level \<longleftrightarrow> level = High \<or> level = Critical"

definition adjustConcurrency :: "PressureLevel \<Rightarrow> int \<Rightarrow> AdaptiveLimiter \<Rightarrow> int \<times> AdaptiveLimiter" where
  "adjustConcurrency level current l =
     (let target = (case level of
            Critical \<Rightarrow> max (al_minConcurrency l) \<lfloor>fl (of_int current / 2)\<rfloor>
          | High \<Rightarrow> max (al_minConcurrency l) \<lfloor>fl (of_int current * lit_0_8)\<rfloor>
          | Low \<Rightarrow> min (al_maxConcurrency l) \<lceil>fl (of_int current * lit_1_1)\<rceil>
          | Medium \<Rightarrow> current) in
      (target, if target \<noteq> current then l\<lparr> al_currentConcurrency := target \<rparr> else l))"

subsection \<open>AlarmSystem\<close>

datatype AlarmLevel = GREEN | YELLOW | RED | CRITICAL

record AlarmEvent =
  ae_level :: AlarmLevel
  ae_depth :: int
  ae_timestamp :: ms

definition checkThreshold :: "int \<Rightarrow> int \<Rightarrow> AlarmLevel" where
  "checkThreshold queueDepth maxCapacity =
     (if maxCapacity \<le> 0 then GREEN
      else let percentage = of_int queueDepth / of_int maxCapacity * 100 :: rat in
        if percentage \<ge> 99 then CRITICAL else if percentage \<ge> 90 then RED
        else if percentage \<ge> 70 then YELLOW else GREEN)"

definition recordAlarm :: "ms \<Rightarrow> AlarmLevel \<Rightarrow> int \<Rightarrow> AlarmEvent list \<Rightarrow> AlarmEvent list" where
  "recordAlarm now level depth history =
     (let h = \<lparr> ae_level = level, ae_depth = depth, ae_timestamp = now \<rparr> # history in
      if length h > 100 then butlast h else h)"

definition getAlarmHistory :: "nat option \<Rightarrow> AlarmEvent list \<Rightarrow> AlarmEvent list" where
  "getAlarmHistory limit history = take (nullish_or limit 10) history"

subsection \<open>BackpressureMonitor\<close>

text \<open>\<open>getStatus\<close> reads the queue three times: for the depth, the pressure and the level.\<close>

record BackpressureStatus =
  st_isUnderPressure :: bool
  st_depth :: int
  st_threshold :: int
  st_strategy :: SheddingStrategy
  st_level :: PressureLevel

definition getStatus ::
  "job_counts option \<times> job_counts option \<times> job_counts option \<Rightarrow> SheddingStrategy \<Rightarrow> QueueMonitor \<Rightarrow>
   BackpressureStatus \<times> QueueMonitor" where
  "getStatus readings strategy m = (case readings of (c1, c2, c3) \<Rightarrow>
     case getQueueDepth c1 m of (depth, m1) \<Rightarrow>
     case isUnderPressure c2 m1 of (pressed, m2) \<Rightarrow>
     case getPressureLevel c3 m2 of (level, m3) \<Rightarrow>
       (\<lparr> st_isUnderPressure = pressed, st_depth = depth, st_threshold = monitor_threshold m,
          st_strategy = strategy, st_level = level \<rparr>, m3))"

definition shed_percentage :: "PressureLevel \<Rightarrow> int" where
  "shed_percentage level = (case level of Critical \<Rightarrow> 25 | High \<Rightarrow> 10 | _ \<Rightarrow> 5)"

definition checkAndShed ::
  "('a \<Rightarrow> rat) \<Rightarrow> rat list \<Rightarrow> job_counts option \<times> job_counts option \<times> job_counts option \<Rightarrow>
   SheddingStrategy \<Rightarrow> 'a list option \<Rightarrow> QueueMonitor \<Rightarrow> (nat \<times> int) \<times> QueueMonitor" where
  "checkAndShed priority rs readings strategy jobs m = (case getStatus readings strategy m of (status, m1) \<Rightarrow>
     if \<not> st_isUnderPressure status \<and> st_level status \<noteq> Critical \<and> st_level status \<noteq> High then ((0, 0), m1)
     else let shedPercentage = shed_percentage (st_level status) in
       case jobs of None \<Rightarrow> ((0, shedPercentage), m1)
       | Some js \<Rightarrow> if js = [] then ((0, shedPercentage), m1)
           else ((length (selectJobsToShed priority rs js (of_int shedPercentage) strategy), shedPercentage), m1))"

subsection \<open>BackpressureHandler\<close>

record BackpressureHandler =
  hd_monitor :: QueueMonitor
  hd_alarms :: "AlarmEvent list"
  hd_depthThreshold :: int
  hd_interval :: bool

definition checkBackpressure ::
  "ms \<Rightarrow> job_counts option \<times> job_counts option \<times> job_counts option \<Rightarrow> BackpressureHandler \<Rightarrow>
   bool \<times> BackpressureHandler" where
  "checkBackpressure now readings h = (case readings of (c1, c2, c3) \<Rightarrow>
     case getPercentageOfMax c1 (hd_monitor h) of (pct, m1) \<Rightarrow>
     case getQueueDepth c2 m1 of (depth, m2) \<Rightarrow>
       (let level = checkThreshold depth (hd_depthThreshold h);
            alarms = recordAlarm now level depth (hd_alarms h) in
        case isUnderPressure c3 m2 of (pressed, m3) \<Rightarrow>
          (pressed, h\<lparr> hd_monitor := m3, hd_alarms := alarms \<rparr>)))"

definition startMonitoring :: "BackpressureHandler \<Rightarrow> BackpressureHandler" where
  "startMonitoring h = (if hd_interval h then h else h\<lparr> hd_interval := True \<rparr>)"

definition stopMonitoring :: "BackpressureHandler \<Rightarrow> BackpressureHandler" where
  "stopMonitoring h = (if hd_interval h then h\<lparr> hd_interval := False \<rparr> else h)"

subsection \<open>Which jobs are shed\<close>

lemma length_swap_at [simp]: "length (swap_at i j xs) = length xs"
  by (simp add: swap_at_def)

lemma mset_swap_at: "\<lbrakk> i < length xs; j < length xs \<rbrakk> \<Longrightarrow> mset (swap_at i j xs) = mset xs"
  by (simp add: swap_at_def mset_swap)

lemma drawn_index:
  assumes "0 \<le> (r :: rat)" "r < 1"
  shows "nat \<lfloor>r * of_nat (Suc (Suc i))\<rfloor> \<le> Suc i"
proof -
  have "r * of_nat (Suc (Suc i)) < 1 * of_nat (Suc (Suc i))" using assms by (intro mult_strict_right_mono) auto
  then have "\<lfloor>r * of_nat (Suc (Suc i))\<rfloor> < int (Suc (Suc i))" by (simp add: floor_less_iff)
  then show ?thesis by linarith
qed

lemma mset_shuffle_down:
  "\<lbrakk> draws rs; i < length xs \<rbrakk> \<Longrightarrow> mset (shuffle_down i rs xs) = mset xs"
proof (induction i rs xs rule: shuffle_down.induct)
  case (3 i r rs xs)
  then have "nat \<lfloor>r * of_nat (Suc (Suc i))\<rfloor> < length xs" using drawn_index [of r i] by simp
  with 3 show ?case by (simp add: mset_swap_at)
qed simp_all

lemma length_shuffle_down [simp]: "length (shuffle_down i rs xs) = length xs"
  by (induction i rs xs rule: shuffle_down.induct) auto

lemma shed_count_le: "shed_count n q \<le> n"
  by (simp add: shed_count_def nat_le_iff)

lemma shed_count_pos: "\<lbrakk> 0 < n; 0 < q \<rbrakk> \<Longrightarrow> 0 < shed_count n q"
  by (simp add: shed_count_def)

text \<open>The arrangement of the jobs whose prefix is shed.\<close>

definition shed_order :: "('a \<Rightarrow> rat) \<Rightarrow> rat list \<Rightarrow> 'a list \<Rightarrow> SheddingStrategy \<Rightarrow> 'a list" where
  "shed_order priority rs jobs strategy = (case strategy of PRIORITY \<Rightarrow> sort_key priority jobs
     | RANDOM \<Rightarrow> shuffle_down (length jobs - 1) rs jobs | _ \<Rightarrow> jobs)"

lemma selectJobsToShed_prefix:
  "\<lbrakk> jobs \<noteq> []; 0 < q; strategy \<noteq> NONE \<rbrakk> \<Longrightarrow>
    selectJobsToShed priority rs jobs q strategy = take (shed_count (length jobs) q) (shed_order priority rs jobs strategy)"
  by (cases strategy) (simp_all add: selectJobsToShed_def shed_order_def Let_def)

lemma mset_shed_order: "draws rs \<Longrightarrow> mset (shed_order priority rs jobs strategy) = mset jobs"
  by (cases strategy; cases "jobs = []") (simp_all add: shed_order_def mset_shuffle_down)

lemma sorted_take_drop:
  assumes "sorted (map f xs)" "x \<in> set (take n xs)" "y \<in> set (drop n xs)"
  shows "f x \<le> f y"
proof -
  have "sorted (map f (take n xs) @ map f (drop n xs))"
    using assms(1) by (simp flip: map_append)
  then show ?thesis using assms(2,3) by (simp add: sorted_append)
qed

text \<open>Shedding takes jobs of the queue, no job twice and no invention: what is shed and what is kept
  are together the jobs. It takes the stated percentage rounded up, at least one and never more than
  there are; oldest first under FIFO, and under PRIORITY no shed job has a higher priority than a kept
  one; nothing under NONE, for no jobs or a percentage not above 0.\<close>

theorem shedding_selects_from_jobs:
  assumes "draws rs"
  shows "\<exists>kept. let shed = selectJobsToShed priority rs jobs q strategy in
    mset jobs = mset shed + mset kept \<and>
    (if jobs = [] \<or> q \<le> 0 \<or> strategy = NONE then shed = []
     else int (length shed) = min (int (length jobs)) \<lceil>of_nat (length jobs) * q / 100\<rceil> \<and> shed \<noteq> []) \<and>
    (strategy = FIFO \<longrightarrow> jobs = shed @ kept) \<and>
    (strategy = PRIORITY \<longrightarrow> (\<forall>x \<in> set shed. \<forall>y \<in> set kept. priority x \<le> priority y))"
proof (cases "jobs = [] \<or> q \<le> 0 \<or> strategy = NONE")
  case True
  then show ?thesis by (intro exI [of _ jobs]) (auto simp: selectJobsToShed_def)
next
  case False
  let ?n = "shed_count (length jobs) q" and ?o = "shed_order priority rs jobs strategy"
  have len: "length ?o = length jobs" using arg_cong [OF mset_shed_order [OF assms], of size priority jobs strategy] by simp
  have n: "?n \<le> length jobs" "0 < ?n" using False by (simp_all add: shed_count_le shed_count_pos)
  define m where "m = \<lceil>of_nat (length jobs) * q / 100\<rceil>"
  have "0 < m" using False unfolding m_def by simp
  then have cnt: "int ?n = min (int (length jobs)) \<lceil>of_nat (length jobs) * q / 100\<rceil>"
    unfolding shed_count_def m_def [symmetric] by simp
  have sel: "selectJobsToShed priority rs jobs q strategy = take ?n ?o"
    using False by (simp add: selectJobsToShed_prefix)
  have "mset jobs = mset (take ?n ?o) + mset (drop ?n ?o)"
    using mset_shed_order [OF assms, of priority jobs strategy] by (metis append_take_drop_id mset_append)
  moreover have "strategy = PRIORITY \<Longrightarrow> \<forall>x \<in> set (take ?n ?o). \<forall>y \<in> set (drop ?n ?o). priority x \<le> priority y"
    using sorted_take_drop [of priority ?o] by (auto simp: shed_order_def)
  moreover have "strategy = FIFO \<Longrightarrow> jobs = take ?n ?o @ drop ?n ?o" by (simp add: shed_order_def)
  ultimately show ?thesis unfolding sel Let_def
    using False len n cnt by (intro exI [of _ "drop ?n ?o"]) (auto simp: min_absorb2)
qed

theorem shedding_selects_from_jobs_witness:
  "selectJobsToShed of_nat [1 / 2, 0, 9 / 10] [7, 3, 9, 1 :: nat] 30 PRIORITY = [1, 3] \<and>
   mset [7, 3, 9, 1 :: nat] = mset [1, 3] + mset [7, 9]"
proof -
  have "draws [1 / 2, 0, 9 / 10]" by simp
  note t = shedding_selects_from_jobs [OF this, where jobs = "[7, 3, 9, 1 :: nat]" and priority = of_nat and q = 30 and strategy = PRIORITY]
  have sel: "selectJobsToShed of_nat [1 / 2, 0, 9 / 10] [7, 3, 9, 1 :: nat] 30 PRIORITY = [1, 3]"
    by (simp add: selectJobsToShed_def shed_count_def sort_key_def insort_key_def)
  from t obtain kept where "mset [7, 3, 9, 1 :: nat] = mset [1, 3] + mset kept" unfolding sel Let_def by blast
  with sel show ?thesis by simp
qed

subsection \<open>The adaptive limiter\<close>

lemma floorlog_floor:
  assumes "1 \<le> (x :: rat)"
  shows "2 ^ (floorlog 2 (nat \<lfloor>x\<rfloor>)) \<le> 2 * x" "x < 2 ^ (floorlog 2 (nat \<lfloor>x\<rfloor>))"
proof -
  let ?n = "nat \<lfloor>x\<rfloor>"
  have n: "0 < ?n" "of_nat ?n \<le> x" "x < of_nat ?n + 1" using assms by (auto simp: of_nat_nat) linarith+
  from floorlog_bounds [OF n(1), of 2]
  have b: "2 ^ (floorlog 2 ?n - 1) \<le> ?n" "?n < 2 ^ floorlog 2 ?n" by simp_all
  have "floorlog 2 ?n \<noteq> 0" using n(1) by (simp add: floorlog_eq_zero_iff)
  then have "2 ^ floorlog 2 ?n = 2 * (2 :: nat) ^ (floorlog 2 ?n - 1)" by (cases "floorlog 2 ?n") auto
  with b(1) have "2 ^ floorlog 2 ?n \<le> 2 * ?n" by linarith
  then have "(of_nat (2 ^ floorlog 2 ?n) :: rat) \<le> of_nat (2 * ?n)" by (simp only: of_nat_le_iff)
  also have "\<dots> \<le> 2 * x" using n(2) by simp
  finally show "2 ^ (floorlog 2 ?n) \<le> 2 * x" by simp
  have "Suc ?n \<le> 2 ^ floorlog 2 ?n" using b(2) by (rule Suc_leI)
  then have "(of_nat (Suc ?n) :: rat) \<le> of_nat (2 ^ floorlog 2 ?n)" by (simp only: of_nat_le_iff)
  with n(3) show "x < 2 ^ (floorlog 2 ?n)" by simp
qed

lemma round_even_error: "\<bar>of_int (round_even x) - x\<bar> \<le> 1 / 2"
proof -
  have "of_int \<lfloor>x\<rfloor> \<le> x" "x < of_int \<lfloor>x\<rfloor> + 1" by linarith+
  then show ?thesis by (simp add: round_even_def Let_def abs_le_iff field_simps)
qed

lemma fl_error:
  assumes "1 \<le> x"
  shows "\<bar>fl x - x\<bar> \<le> x / 2 ^ 53"
proof -
  have u: "0 < ulp x" "ulp x \<le> 2 * x / 2 ^ 53"
    using floorlog_floor(1) [OF assms] by (simp_all add: ulp_def divide_right_mono)
  have "fl x - x = (of_int (round_even (x / ulp x)) - x / ulp x) * ulp x"
    using assms u(1) by (simp add: fl_def algebra_simps)
  then have "\<bar>fl x - x\<bar> = \<bar>of_int (round_even (x / ulp x)) - x / ulp x\<bar> * ulp x"
    using u(1) by (simp add: abs_mult)
  also have "\<dots> \<le> 1 / 2 * ulp x" using u(1) by (intro mult_right_mono round_even_error) simp
  also have "\<dots> \<le> x / 2 ^ 53" using u(2) by simp
  finally show ?thesis .
qed

lemma fl_bounds:
  "1 \<le> x \<Longrightarrow> x - x / 2 ^ 53 \<le> fl x" "1 \<le> x \<Longrightarrow> fl x \<le> x + x / 2 ^ 53"
  using abs_le_D1 [OF fl_error [of x]] abs_le_D2 [OF fl_error [of x]] by linarith+

lemma step_up:
  assumes "1 \<le> c"
  shows "c < \<lceil>fl (of_int c * lit_1_1)\<rceil>"
proof -
  have c: "1 \<le> (of_int c :: rat)" using assms by simp
  then have "1 \<le> of_int c * lit_1_1" by (simp add: lit_1_1_def)
  from fl_bounds(1) [OF this] have "of_int c < fl (of_int c * lit_1_1)" using c by (simp add: lit_1_1_def)
  then show ?thesis by (simp add: less_ceiling_iff)
qed

lemma step_down:
  assumes "1 \<le> c" "0 < f" "f * (1 + 1 / 2 ^ 53) < 1"
  shows "\<lfloor>fl (of_int c * f)\<rfloor> < c"
proof -
  have c: "1 \<le> (of_int c :: rat)" using assms(1) by simp
  have "fl (of_int c * f) < of_int c"
  proof (cases "of_int c * f < 1")
    case True
    then have "fl (of_int c * f) < 1" by (simp add: fl_def)
    then show ?thesis using c by linarith
  next
    case False
    then have "fl (of_int c * f) \<le> of_int c * (f * (1 + 1 / 2 ^ 53))"
      using fl_bounds(2) [of "of_int c * f"] by (simp add: algebra_simps)
    also have "\<dots> < of_int c * 1" using c assms(3) by (intro mult_strict_left_mono) auto
    finally show ?thesis by simp
  qed
  then show ?thesis by (simp add: floor_less_iff)
qed

lemma steps_down:
  assumes "1 \<le> c"
  shows "\<lfloor>fl (of_int c / 2)\<rfloor> < c" "\<lfloor>fl (of_int c * lit_0_8)\<rfloor> < c"
  using step_down [OF assms, of "1 / 2"] step_down [OF assms, of lit_0_8] by (simp_all add: lit_0_8_def)

text \<open>Adjusting over and over, each time from the previous target.\<close>

fun adjust_all :: "PressureLevel list \<Rightarrow> int \<Rightarrow> AdaptiveLimiter \<Rightarrow> int" where
  "adjust_all [] c l = c"
| "adjust_all (lv # lvs) c l = (case adjustConcurrency lv c l of (c', l') \<Rightarrow> adjust_all lvs c' l')"

definition wf_limiter :: "AdaptiveLimiter \<Rightarrow> bool" where
  "wf_limiter l \<longleftrightarrow> 1 \<le> al_minConcurrency l \<and> al_minConcurrency l \<le> al_maxConcurrency l"

lemma adjust_wf: "adjustConcurrency lv c l = (c', l') \<Longrightarrow>
    al_minConcurrency l' = al_minConcurrency l \<and> al_maxConcurrency l' = al_maxConcurrency l"
  by (auto simp: adjustConcurrency_def Let_def split: if_splits)

lemma adjust_step:
  assumes "wf_limiter l" "al_minConcurrency l \<le> c" "c \<le> al_maxConcurrency l"
  shows "let c' = fst (adjustConcurrency lv c l) in
    al_minConcurrency l \<le> c' \<and> c' \<le> al_maxConcurrency l \<and>
    (lv = Low \<longrightarrow> min (al_maxConcurrency l) (c + 1) \<le> c') \<and>
    (lv = High \<or> lv = Critical \<longrightarrow> c' \<le> max (al_minConcurrency l) (c - 1)) \<and>
    (lv = Medium \<longrightarrow> c' = c)"
proof -
  have "1 \<le> c" using assms by (simp add: wf_limiter_def)
  then show ?thesis
    using assms step_up [of c] steps_down [of c]
    by (cases lv) (auto simp: adjustConcurrency_def wf_limiter_def Let_def)
qed

lemma adjust_all_range:
  assumes "wf_limiter l" "al_minConcurrency l \<le> c" "c \<le> al_maxConcurrency l"
  shows "al_minConcurrency l \<le> adjust_all lvs c l \<and> adjust_all lvs c l \<le> al_maxConcurrency l"
  using assms
proof (induction lvs arbitrary: c l)
  case (Cons lv lvs)
  obtain c' l' where a: "adjustConcurrency lv c l = (c', l')" by (cases "adjustConcurrency lv c l")
  have "wf_limiter l'" "al_minConcurrency l' = al_minConcurrency l" "al_maxConcurrency l' = al_maxConcurrency l"
    using adjust_wf [OF a] Cons.prems(1) by (simp_all add: wf_limiter_def)
  then show ?case using Cons.IH [of l' c'] adjust_step [OF Cons.prems, of lv] a by (simp add: Let_def)
qed simp

lemma adjust_all_climbs:
  assumes "wf_limiter l" "al_minConcurrency l \<le> c" "c \<le> al_maxConcurrency l" "al_maxConcurrency l \<le> c + int n"
  shows "adjust_all (replicate n Low) c l = al_maxConcurrency l"
  using assms
proof (induction n arbitrary: c l)
  case (Suc n)
  obtain c' l' where a: "adjustConcurrency Low c l = (c', l')" by (cases "adjustConcurrency Low c l")
  have "wf_limiter l'" "al_minConcurrency l' = al_minConcurrency l" "al_maxConcurrency l' = al_maxConcurrency l"
    using adjust_wf [OF a] Suc.prems(1) by (simp_all add: wf_limiter_def)
  moreover have "al_minConcurrency l \<le> c'" "c' \<le> al_maxConcurrency l" "min (al_maxConcurrency l) (c + 1) \<le> c'"
    using adjust_step [OF Suc.prems(1-3), of Low] a by (simp_all add: Let_def)
  ultimately show ?case using Suc.IH [of l' c'] Suc.prems(4) a by auto
qed simp

lemma adjust_all_falls:
  assumes "wf_limiter l" "al_minConcurrency l \<le> c" "c \<le> al_maxConcurrency l" "c \<le> al_minConcurrency l + int n"
    and "lv = High \<or> lv = Critical"
  shows "adjust_all (replicate n lv) c l = al_minConcurrency l"
  using assms
proof (induction n arbitrary: c l)
  case (Suc n)
  obtain c' l' where a: "adjustConcurrency lv c l = (c', l')" by (cases "adjustConcurrency lv c l")
  have "wf_limiter l'" "al_minConcurrency l' = al_minConcurrency l" "al_maxConcurrency l' = al_maxConcurrency l"
    using adjust_wf [OF a] Suc.prems(1) by (simp_all add: wf_limiter_def)
  moreover have "al_minConcurrency l \<le> c'" "c' \<le> al_maxConcurrency l" "c' \<le> max (al_minConcurrency l) (c - 1)"
    using adjust_step [OF Suc.prems(1-3), of lv] a Suc.prems(5) by (auto simp: Let_def)
  ultimately show ?case using Suc.IH [of l' c'] Suc.prems(4,5) a by auto
qed simp

text \<open>The adaptive limit stays within its configured bounds under any sequence of pressure levels,
  and reacts: under lasting low pressure it climbs to the maximum, under lasting high or critical
  pressure it falls to the minimum, each adjustment moving it by at least one.\<close>

theorem adaptive_limit_bounded_and_live:
  assumes "wf_limiter l" "al_minConcurrency l \<le> c" "c \<le> al_maxConcurrency l"
  shows "al_minConcurrency l \<le> adjust_all lvs c l \<and> adjust_all lvs c l \<le> al_maxConcurrency l \<and>
    (al_maxConcurrency l \<le> c + int n \<longrightarrow> adjust_all (replicate n Low) c l = al_maxConcurrency l) \<and>
    (c \<le> al_minConcurrency l + int n \<longrightarrow>
       adjust_all (replicate n High) c l = al_minConcurrency l \<and>
       adjust_all (replicate n Critical) c l = al_minConcurrency l)"
  using adjust_all_range [OF assms] adjust_all_climbs [OF assms] adjust_all_falls [OF assms] by blast

theorem adaptive_limit_bounded_and_live_witness:
  "adjust_all (replicate 19 Critical) 20 (AdaptiveLimiter_new None None None) = 1"
  using adaptive_limit_bounded_and_live [of "AdaptiveLimiter_new None None None" 20 "[]" 19]
  by (simp add: wf_limiter_def AdaptiveLimiter_new_def)

subsection \<open>Alarms\<close>

fun alarm_all :: "(ms \<times> AlarmLevel \<times> int) list \<Rightarrow> AlarmEvent list \<Rightarrow> AlarmEvent list" where
  "alarm_all [] h = h"
| "alarm_all ((now, lv, d) # es) h = alarm_all es (recordAlarm now lv d h)"

definition alarm_event :: "ms \<times> AlarmLevel \<times> int \<Rightarrow> AlarmEvent" where
  "alarm_event e = (case e of (now, lv, d) \<Rightarrow> \<lparr> ae_level = lv, ae_depth = d, ae_timestamp = now \<rparr>)"

lemma recordAlarm_take:
  "length h \<le> 100 \<Longrightarrow> recordAlarm now lv d h = take 100 (alarm_event (now, lv, d) # h)"
  by (cases "length h = 100")
    (auto simp: recordAlarm_def alarm_event_def Let_def butlast_conv_take take_Cons')

lemma take_take_append: "take n (ys @ take n xs) = take n (ys @ xs)"
  by (simp add: min_def)

text \<open>The alarm history is the last 100 alarms, newest first.\<close>

theorem alarm_history_is_recent:
  "alarm_all es [] = take 100 (rev (map alarm_event es))"
proof -
  have "alarm_all es h = take 100 (rev (map alarm_event es) @ h)" if "length h \<le> 100" for h
    using that
  proof (induction es arbitrary: h)
    case (Cons e es)
    obtain now lv d where e: "e = (now, lv, d)" by (cases e)
    have r: "recordAlarm now lv d h = take 100 (alarm_event e # h)"
      using recordAlarm_take [OF Cons.prems] e by simp
    have "alarm_all (e # es) h = take 100 (rev (map alarm_event es) @ take 100 (alarm_event e # h))"
      using Cons.IH [of "take 100 (alarm_event e # h)"] by (simp add: e r [unfolded e])
    also have "\<dots> = take 100 (rev (map alarm_event es) @ alarm_event e # h)"
      by (rule take_take_append)
    finally show ?case by simp
  qed simp
  from this [of "[]"] show ?thesis by simp
qed

subsection \<open>Pressure under the loaded settings\<close>

text \<open>The monitor built on loaded settings: both the threshold of the depth and the alarm percentage
  come from \<open>BACKPRESSURE_QUEUE_DEPTH_THRESHOLD\<close>.\<close>

definition monitor_view :: "ResilienceConfig \<Rightarrow> QueueMonitor" where
  "monitor_view c = \<lparr> qm_lastDepth = 0, qm_depthThreshold = Some (rc_queueDepthThreshold c),
     qm_queueDepthThreshold = None, qm_alarmThreshold = Some (of_int (rc_alarmThreshold c)) \<rparr>"

text \<open>The settings loader puts the queue depth threshold, a number of jobs, where a percentage is
  expected. With the default of 1000, pressure is reported only from ten times the threshold on,
  although the level is critical from three quarters of it; and for every threshold above 100 the
  shedding policy cannot be built from the loaded settings.\<close>

theorem loaded_alarm_threshold_is_a_depth:
  assumes "loadResilienceConfig env = Inr c" "100 < rc_queueDepthThreshold c"
  shows "getSheddingPolicy (Some ''percentage'') (Some (of_int (rc_alarmThreshold c))) = Inl ''backpressureAlarmThreshold'' \<and>
    (fst (isUnderPressure reading (monitor_view c)) \<longleftrightarrow>
       rc_queueDepthThreshold c * rc_queueDepthThreshold c \<le> 100 * fst (getQueueDepth reading (monitor_view c))) \<and>
    (fst (getPressureLevel reading (monitor_view c)) = Critical \<longleftrightarrow>
       3 * rc_queueDepthThreshold c \<le> 4 * fst (getQueueDepth reading (monitor_view c)))"
proof -
  define T where "T = rc_queueDepthThreshold c"
  define d where "d = fst (getQueueDepth reading (monitor_view c))"
  have alarm: "rc_alarmThreshold c = T" using loadResilienceConfig_Inr(11) [OF assms(1)] by (simp add: T_def)
  have T: "0 < T" using assms(2) by (simp add: T_def)
  have pct: "fst (getPercentageOfMax reading (monitor_view c)) = of_int d / of_int T * 100"
    using T by (simp add: getPercentageOfMax_def getQueueDepth_def monitor_threshold_def monitor_view_def
        d_def T_def Let_def)
  have "(of_int T \<le> of_int d / of_int T * (100 :: rat)) \<longleftrightarrow> (of_int (T * T) \<le> (of_int (100 * d) :: rat))"
    using T by (simp add: field_simps)
  then have under: "fst (isUnderPressure reading (monitor_view c)) \<longleftrightarrow> T * T \<le> 100 * d"
    using T pct unfolding of_int_le_iff
    by (cases "getPercentageOfMax reading (monitor_view c)")
      (simp add: isUnderPressure_def rat_or_def alarm, simp add: monitor_view_def rat_or_def alarm)
  have "(75 \<le> of_int d / of_int T * (100 :: rat)) \<longleftrightarrow> (of_int (3 * T) \<le> (of_int (4 * d) :: rat))"
    using T by (simp add: field_simps)
  then have "fst (getPressureLevel reading (monitor_view c)) = Critical \<longleftrightarrow> 3 * T \<le> 4 * d"
    using pct unfolding of_int_le_iff
    by (cases "getPercentageOfMax reading (monitor_view c)") (auto simp: getPressureLevel_def level_of_def)
  with under show ?thesis using assms(2) alarm by (simp add: getSheddingPolicy_def T_def d_def)
qed

theorem loaded_alarm_threshold_is_a_depth_witness:
  "\<exists>c. loadResilienceConfig empty_env = Inr c \<and>
    (let reading = Some \<lparr> jc_waiting = Some 9000, jc_active = Some 999, jc_delayed = None, jc_failed = None \<rparr> in
     \<not> fst (isUnderPressure reading (monitor_view c)) \<and> fst (getPressureLevel reading (monitor_view c)) = Critical)"
  using loaded_alarm_threshold_is_a_depth [OF empty_env_loads,
      of "Some \<lparr> jc_waiting = Some 9000, jc_active = Some 999, jc_delayed = None, jc_failed = None \<rparr>"]
  by (simp add: empty_env_loads getQueueDepth_def getQueueStats_def Let_def)

end
