(* ===== verification/QF_Store.thy ===== *)
theory QF_Store
  imports QF_Values
begin

text \<open>
  Deliveries and attempts as the database keeps them
  (\<open>infrastructure/repositories/delivery-repository.ts\<close>, \<open>attempt-repository.ts\<close>,
  \<open>base-repository.ts\<close>) and the errors the worker sees. The Prisma client is a parameter: a record
  of the four calls the repositories make, over a state of any type. What the repositories rely on
  is the predicate \<open>prisma_laws\<close>; \<open>tables\<close> is a state that has them.
\<close>

subsection \<open>Errors\<close>

text \<open>An \<open>Error\<close> with the fields the classifiers read, and its text \<open>String(error)\<close>.\<close>

record worker_error =
  we_name :: string
  we_message :: string
  we_code :: "string option"
  we_statusCode :: "int option"
  we_status :: "int option"
  we_responseStatus :: "int option"

definition js_Error :: "string \<Rightarrow> string \<Rightarrow> worker_error" where
  "js_Error name message = \<lparr> we_name = name, we_message = message, we_code = None,
     we_statusCode = None, we_status = None, we_responseStatus = None \<rparr>"

definition we_text :: "worker_error \<Rightarrow> string" where
  "we_text e = (if we_message e = [] then we_name e else we_name e @ '': '' @ we_message e)"

definition BaseError :: "string \<Rightarrow> string \<Rightarrow> int \<Rightarrow> string \<Rightarrow> worker_error" where
  "BaseError name code statusCode message =
     (js_Error name message)\<lparr> we_code := Some code, we_statusCode := Some statusCode \<rparr>"

text \<open>The error classes of \<open>shared/errors\<close>, \<open>domain/errors\<close> and \<open>resilience/errors\<close> the worker can meet.
  Subclasses of \<open>BaseError\<close> keep the name \<open>Error\<close>, those of \<open>DomainError\<close> take their class name.\<close>

definition internal_error :: "string \<Rightarrow> worker_error" where
  "internal_error message = BaseError ''Error'' ''UNKNOWN_ERROR'' 500 message"

definition not_found_error :: "string \<Rightarrow> worker_error" where
  "not_found_error message = BaseError ''Error'' ''NOT_FOUND'' 404 message"

definition conflict_error :: "string \<Rightarrow> worker_error" where
  "conflict_error message = BaseError ''Error'' ''CONFLICT_DETECTED'' 409 message"

definition validation_error :: "string \<Rightarrow> worker_error" where
  "validation_error message = BaseError ''ValidationError'' ''VALIDATION_FAILED'' 422 message"

definition validation_error_on :: "string \<Rightarrow> string \<Rightarrow> worker_error" where
  "validation_error_on field detail = validation_error (''Validation error on '' @ field @ '': '' @ detail)"

definition invalid_state_error :: "DeliveryStatus \<Rightarrow> DeliveryStatus \<Rightarrow> worker_error" where
  "invalid_state_error cur att = BaseError ''InvalidDeliveryStateError'' ''DELIVERY_FAILED'' 400
     (''Delivery in status '' @ [CHR 0x22] @ status_str cur @ [CHR 0x22] @ '' cannot transition to '' @
      [CHR 0x22] @ status_str att @ [CHR 0x22] @ ''.'')"

definition bulkhead_full_error :: "string \<Rightarrow> worker_error" where
  "bulkhead_full_error name =
     BaseError ''BulkheadFullError'' ''RATE_LIMITED'' 503 (''Bulkhead '' @ name @ '' at capacity'')"

lemmas error_defs = js_Error_def BaseError_def internal_error_def not_found_error_def
  conflict_error_def validation_error_def validation_error_on_def invalid_state_error_def
  bulkhead_full_error_def

subsection \<open>Rows and the client\<close>

record delivery_row =
  dr_id :: string
  dr_taskResultId :: string
  dr_destinationId :: string
  dr_status :: DeliveryStatus
  dr_retryCount :: int
  dr_nextRetryAt :: "ms option"
  dr_lastAttemptAt :: "ms option"
  dr_lastError :: "string option"
  dr_errorCategory :: "string option"

record attempt_row =
  ar_deliveryId :: string
  ar_attemptNumber :: int
  ar_responseStatus :: "int option"
  ar_responseTimeMs :: int
  ar_errorMessage :: "string option"

text \<open>\<open>px_update\<close> is None when no row has the id (code P2025), \<open>px_createAttempt\<close> when the foreign
  key has no row (code P2003).\<close>

record 'd prisma =
  px_findUnique :: "string \<Rightarrow> 'd \<Rightarrow> delivery_row option"
  px_update :: "string \<Rightarrow> (delivery_row \<Rightarrow> delivery_row) \<Rightarrow> 'd \<Rightarrow> 'd option"
  px_attemptsOf :: "string \<Rightarrow> 'd \<Rightarrow> attempt_row list"
  px_createAttempt :: "attempt_row \<Rightarrow> 'd \<Rightarrow> 'd option"

definition prisma_laws :: "'d prisma \<Rightarrow> bool" where
  "prisma_laws px \<longleftrightarrow>
     (\<forall>i f d. px_update px i f d = None \<longleftrightarrow> px_findUnique px i d = None) \<and>
     (\<forall>i f d d'. px_update px i f d = Some d' \<longrightarrow>
        px_findUnique px i d' = map_option f (px_findUnique px i d) \<and>
        (\<forall>j. j \<noteq> i \<longrightarrow> px_findUnique px j d' = px_findUnique px j d) \<and>
        (\<forall>j. px_attemptsOf px j d' = px_attemptsOf px j d)) \<and>
     (\<forall>a d. px_createAttempt px a d = None \<longleftrightarrow> px_findUnique px (ar_deliveryId a) d = None) \<and>
     (\<forall>a d d'. px_createAttempt px a d = Some d' \<longrightarrow>
        (\<forall>j. px_findUnique px j d' = px_findUnique px j d) \<and>
        (\<forall>j. px_attemptsOf px j d' = px_attemptsOf px j d @ (if j = ar_deliveryId a then [a] else [])))"

lemma prisma_update_None: "prisma_laws px \<Longrightarrow> px_update px i f d = None \<longleftrightarrow> px_findUnique px i d = None"
  by (simp add: prisma_laws_def)

lemma prisma_update_keeps:
  assumes "prisma_laws px" "px_update px i f d = Some d'"
  shows "px_findUnique px i d' = map_option f (px_findUnique px i d)"
    "\<And>j. j \<noteq> i \<Longrightarrow> px_findUnique px j d' = px_findUnique px j d"
    "\<And>j. px_attemptsOf px j d' = px_attemptsOf px j d"
  using assms unfolding prisma_laws_def by blast+

lemma prisma_update_Some:
  assumes "prisma_laws px" "px_findUnique px i d = Some row"
  obtains d' where "px_update px i f d = Some d'" "px_findUnique px i d' = Some (f row)"
    "\<And>j. j \<noteq> i \<Longrightarrow> px_findUnique px j d' = px_findUnique px j d"
    "\<And>j. px_attemptsOf px j d' = px_attemptsOf px j d"
proof -
  from assms obtain d' where d': "px_update px i f d = Some d'"
    using prisma_update_None [of px i f d] by fastforce
  with assms have "px_findUnique px i d' = Some (f row)"
    "\<And>j. j \<noteq> i \<Longrightarrow> px_findUnique px j d' = px_findUnique px j d"
    "\<And>j. px_attemptsOf px j d' = px_attemptsOf px j d"
    unfolding prisma_laws_def by auto
  with d' show thesis by (rule that)
qed

lemma prisma_create_None:
  "prisma_laws px \<Longrightarrow> px_createAttempt px a d = None \<longleftrightarrow> px_findUnique px (ar_deliveryId a) d = None"
  by (simp add: prisma_laws_def)

lemma prisma_create_Some:
  assumes "prisma_laws px" "px_findUnique px (ar_deliveryId a) d = Some row"
  obtains d' where "px_createAttempt px a d = Some d'"
    "\<And>j. px_findUnique px j d' = px_findUnique px j d"
    "\<And>j. px_attemptsOf px j d' = px_attemptsOf px j d @ (if j = ar_deliveryId a then [a] else [])"
proof -
  from assms obtain d' where d': "px_createAttempt px a d = Some d'"
    using prisma_create_None [of px a d] by fastforce
  with assms have "\<And>j. px_findUnique px j d' = px_findUnique px j d"
    "\<And>j. px_attemptsOf px j d' = px_attemptsOf px j d @ (if j = ar_deliveryId a then [a] else [])"
    unfolding prisma_laws_def by auto
  with d' show thesis by (rule that)
qed

subsection \<open>Repositories\<close>

datatype db_failure = Mapped worker_error | PrismaCode string | OtherFailure string

definition mapDatabaseError :: "db_failure \<Rightarrow> worker_error" where
  "mapDatabaseError err = (case err of
       Mapped e \<Rightarrow> e
     | PrismaCode c \<Rightarrow>
         if c = ''P2002'' then conflict_error ''Database constraint conflict: Duplicate key value violates unique constraint''
         else if c = ''P2003'' then validation_error ''Reference integrity check failed: Foreign key violates constraint''
         else if c = ''P2025'' then not_found_error ''Record not found''
         else internal_error ''Database operation failed''
     | OtherFailure msg \<Rightarrow> internal_error (''Database operation failed: '' @ msg))"

text \<open>The optional argument after the data: nothing, some object that is not a client, or a
  transaction client (which runs the same operations).\<close>

datatype tx_arg = NoArg | ContextArg | TxClient

definition parseTx :: "tx_arg \<Rightarrow> tx_arg" where
  "parseTx a = (case a of TxClient \<Rightarrow> TxClient | _ \<Rightarrow> NoArg)"

text \<open>\<open>const client = tx || this.prisma\<close> and the update: an object that is no client has no
  \<open>taskResultDelivery\<close>.\<close>

definition undefined_update :: worker_error where
  "undefined_update = mapDatabaseError (OtherFailure ''Cannot read properties of undefined (reading 'update')'')"

lemma undefined_update_fields:
  "we_name undefined_update = ''Error''" "we_code undefined_update = Some ''UNKNOWN_ERROR''"
  "we_statusCode undefined_update = Some 500"
  by (simp_all add: undefined_update_def mapDatabaseError_def error_defs)

definition update_delivery ::
  "'d prisma \<Rightarrow> tx_arg \<Rightarrow> string \<Rightarrow> (delivery_row \<Rightarrow> delivery_row) \<Rightarrow> 'd \<Rightarrow> ('d, worker_error) eff" where
  "update_delivery px tx i f d =
     (if tx = ContextArg
      then throw d undefined_update
      else case px_update px i f d of
        None \<Rightarrow> throw d (mapDatabaseError (PrismaCode ''P2025''))
      | Some d' \<Rightarrow> ret d')"

definition dl_updateStatus ::
  "'d prisma \<Rightarrow> string \<Rightarrow> DeliveryStatus \<Rightarrow> tx_arg \<Rightarrow> 'd \<Rightarrow> ('d, worker_error) eff" where
  "dl_updateStatus px i newStatus tx d = update_delivery px tx i (\<lambda>r. r\<lparr> dr_status := newStatus \<rparr>) d"

definition dl_updateDeliveryStatus ::
  "'d prisma \<Rightarrow> string \<Rightarrow> DeliveryStatus \<Rightarrow> tx_arg \<Rightarrow> 'd \<Rightarrow> ('d, worker_error) eff" where
  "dl_updateDeliveryStatus px i status txOrContext d = dl_updateStatus px i status (parseTx txOrContext) d"

definition dl_moveToFailed ::
  "'d prisma \<Rightarrow> string \<Rightarrow> string \<Rightarrow> tx_arg \<Rightarrow> 'd \<Rightarrow> ('d, worker_error) eff" where
  "dl_moveToFailed px i errorMessage txOrContext d = update_delivery px (parseTx txOrContext) i
     (\<lambda>r. r\<lparr> dr_status := FAILED_DLQ, dr_lastError := Some errorMessage,
            dr_errorCategory := Some ''FAILED'', dr_nextRetryAt := None \<rparr>) d"

definition dl_moveToDLQ ::
  "'d prisma \<Rightarrow> string \<Rightarrow> string \<Rightarrow> tx_arg \<Rightarrow> 'd \<Rightarrow> ('d, worker_error) eff" where
  "dl_moveToDLQ px i errorMessage txOrContext d = update_delivery px (parseTx txOrContext) i
     (\<lambda>r. r\<lparr> dr_status := FAILED_DLQ, dr_lastError := Some errorMessage,
            dr_errorCategory := Some ''DLQ'', dr_nextRetryAt := None \<rparr>) d"

text \<open>Prisma leaves a field alone whose new value is undefined.\<close>

definition dl_scheduleRetry ::
  "'d prisma \<Rightarrow> string \<Rightarrow> ms option \<Rightarrow> tx_arg \<Rightarrow> 'd \<Rightarrow> ('d, worker_error) eff" where
  "dl_scheduleRetry px i retryAt txOrContext d = update_delivery px (parseTx txOrContext) i
     (\<lambda>r. r\<lparr> dr_status := SCHEDULED_RETRY,
            dr_nextRetryAt := (case retryAt of None \<Rightarrow> dr_nextRetryAt r | Some t \<Rightarrow> Some t) \<rparr>) d"

record attempt_data =
  ad_responseStatus :: "int option"
  ad_responseTimeMs :: "int option"
  ad_errorMessage :: "string option"

definition bad_response_status :: "attempt_data \<Rightarrow> bool" where
  "bad_response_status a = (case ad_responseStatus a of None \<Rightarrow> False | Some s \<Rightarrow> s < 100 \<or> s > 599)"

definition attempt_row_of :: "string \<Rightarrow> int \<Rightarrow> attempt_data \<Rightarrow> attempt_row" where
  "attempt_row_of i n a = \<lparr> ar_deliveryId = i, ar_attemptNumber = n,
     ar_responseStatus = ad_responseStatus a, ar_responseTimeMs = nullish_or (ad_responseTimeMs a) 0,
     ar_errorMessage = ad_errorMessage a \<rparr>"

text \<open>\<open>DeliveryRepository.recordAttempt\<close> numbers the attempt itself; its status check comes after the
  row has been found.\<close>

definition dl_recordAttempt :: "'d prisma \<Rightarrow> string \<Rightarrow> attempt_data \<Rightarrow> 'd \<Rightarrow> ('d, worker_error) eff" where
  "dl_recordAttempt px i a d =
     (case px_findUnique px i d of None \<Rightarrow> throw d (mapDatabaseError (PrismaCode ''P2025''))
      | Some row \<Rightarrow>
          let n = dr_retryCount row + 1 in
          if bad_response_status a
          then throw d (mapDatabaseError (Mapped (validation_error ''Invalid HTTP response status range'')))
          else case px_createAttempt px (attempt_row_of i n a) d of
            None \<Rightarrow> throw d (mapDatabaseError (PrismaCode ''P2003''))
          | Some d1 \<Rightarrow> update_delivery px NoArg i (\<lambda>r. r\<lparr> dr_retryCount := n \<rparr>) d1)"

text \<open>\<open>AttemptRepository.recordAttempt\<close> takes the number; a missing parent (P2025) is ignored.\<close>

definition at_recordAttempt ::
  "'d prisma \<Rightarrow> ms \<Rightarrow> string \<Rightarrow> int \<Rightarrow> attempt_data \<Rightarrow> 'd \<Rightarrow> ('d, worker_error) eff" where
  "at_recordAttempt px now i n a d =
     (if bad_response_status a then throw d (validation_error ''Invalid HTTP response status range'')
      else case px_createAttempt px (attempt_row_of i n a) d of
        None \<Rightarrow> throw d (mapDatabaseError (PrismaCode ''P2003''))
      | Some d1 \<Rightarrow>
          (case px_update px i (\<lambda>r. r\<lparr> dr_retryCount := n, dr_lastError := ad_errorMessage a,
                                       dr_lastAttemptAt := Some now \<rparr>) d1 of
             None \<Rightarrow> ret d1 | Some d2 \<Rightarrow> ret d2))"

subsection \<open>What the repositories do to the rows\<close>

lemma update_delivery_cases:
  assumes "prisma_laws px" "tx \<noteq> ContextArg" "px_findUnique px i d = Some row"
  obtains d' where "update_delivery px tx i f d = ret d'" "px_findUnique px i d' = Some (f row)"
    "\<And>j. j \<noteq> i \<Longrightarrow> px_findUnique px j d' = px_findUnique px j d"
    "\<And>j. px_attemptsOf px j d' = px_attemptsOf px j d"
proof -
  obtain d' where d': "px_update px i f d = Some d'" "px_findUnique px i d' = Some (f row)"
    "\<And>j. j \<noteq> i \<Longrightarrow> px_findUnique px j d' = px_findUnique px j d"
    "\<And>j. px_attemptsOf px j d' = px_attemptsOf px j d"
    using prisma_update_Some [OF assms(1,3)] by metis
  have "update_delivery px tx i f d = ret d'" using assms(2) d'(1) by (simp add: update_delivery_def)
  then show thesis using d'(2-4) by (rule that)
qed

lemma update_delivery_frame:
  assumes "prisma_laws px" "j \<noteq> i"
  shows "px_findUnique px j (fst (update_delivery px tx i f d)) = px_findUnique px j d"
  by (cases "px_update px i f d") (simp_all add: update_delivery_def prisma_update_keeps(2) [OF assms(1) _ assms(2)])

lemma update_delivery_attempts:
  assumes "prisma_laws px"
  shows "px_attemptsOf px j (fst (update_delivery px tx i f d)) = px_attemptsOf px j d"
  by (cases "px_update px i f d") (simp_all add: update_delivery_def prisma_update_keeps(3) [OF assms])

lemma update_delivery_missing:
  assumes "prisma_laws px" "px_findUnique px i d = None"
  shows "fst (update_delivery px tx i f d) = d"
  using assms prisma_update_None [OF assms(1), of i f d] by (simp add: update_delivery_def)

lemma at_recordAttempt_cases:
  assumes laws: "prisma_laws px" and row: "px_findUnique px i d = Some row" and ok: "\<not> bad_response_status a"
  obtains d' where "at_recordAttempt px now i n a d = ret d'"
    "px_findUnique px i d' = Some (row\<lparr> dr_retryCount := n, dr_lastError := ad_errorMessage a,
                                        dr_lastAttemptAt := Some now \<rparr>)"
    "\<And>j. j \<noteq> i \<Longrightarrow> px_findUnique px j d' = px_findUnique px j d"
    "\<And>j. px_attemptsOf px j d' = px_attemptsOf px j d @ (if j = i then [attempt_row_of i n a] else [])"
proof -
  let ?a = "attempt_row_of i n a"
  let ?f = "\<lambda>r. r\<lparr> dr_retryCount := n, dr_lastError := ad_errorMessage a, dr_lastAttemptAt := Some now \<rparr>"
  have key: "ar_deliveryId ?a = i" by (simp add: attempt_row_of_def)
  obtain d1 where d1: "px_createAttempt px ?a d = Some d1"
    "\<And>j. px_findUnique px j d1 = px_findUnique px j d"
    "\<And>j. px_attemptsOf px j d1 = px_attemptsOf px j d @ (if j = i then [?a] else [])"
    using prisma_create_Some [OF laws, of ?a d row] row key by metis
  obtain d2 where d2: "px_update px i ?f d1 = Some d2" "px_findUnique px i d2 = Some (?f row)"
    "\<And>j. j \<noteq> i \<Longrightarrow> px_findUnique px j d2 = px_findUnique px j d1"
    "\<And>j. px_attemptsOf px j d2 = px_attemptsOf px j d1"
    using prisma_update_Some [OF laws, of i d1 row ?f] d1(2) row by metis
  have "at_recordAttempt px now i n a d = ret d2"
    using ok d1(1) d2(1) by (simp add: at_recordAttempt_def)
  then show thesis by (rule that) (simp_all add: d1 d2)
qed

lemma at_recordAttempt_status:
  assumes "prisma_laws px"
  shows "map_option dr_status (px_findUnique px j (fst (at_recordAttempt px now i n a d))) =
         map_option dr_status (px_findUnique px j d)"
proof (cases "bad_response_status a")
  case True
  then show ?thesis by (simp add: at_recordAttempt_def)
next
  case False
  show ?thesis
  proof (cases "px_findUnique px i d")
    case None
    then have "px_createAttempt px (attempt_row_of i n a) d = None"
      using prisma_create_None [OF assms] by (simp add: attempt_row_of_def)
    then show ?thesis using False by (simp add: at_recordAttempt_def)
  next
    case (Some row)
    show ?thesis
      using at_recordAttempt_cases [OF assms Some False, of now n]
      by (metis (no_types, lifting) Some delivery_row.select_convs(4) delivery_row.surjective
          delivery_row.update_convs(5,7,8) eff_simps(1) option.map(2))
  qed
qed

subsection \<open>A state with these laws\<close>

record tables =
  tb_deliveries :: "(string, delivery_row) js_map"
  tb_attempts :: "attempt_row list"

definition tables_prisma :: "tables prisma" where
  "tables_prisma = \<lparr>
     px_findUnique = (\<lambda>i d. mget (tb_deliveries d) i),
     px_update = (\<lambda>i f d. case mget (tb_deliveries d) i of None \<Rightarrow> None
       | Some r \<Rightarrow> Some (d\<lparr> tb_deliveries := mset_at i (f r) (tb_deliveries d) \<rparr>)),
     px_attemptsOf = (\<lambda>i d. filter (\<lambda>a. ar_deliveryId a = i) (tb_attempts d)),
     px_createAttempt = (\<lambda>a d. if mget (tb_deliveries d) (ar_deliveryId a) = None then None
       else Some (d\<lparr> tb_attempts := tb_attempts d @ [a] \<rparr>)) \<rparr>"

lemma tables_prisma_laws: "prisma_laws tables_prisma"
  by (auto simp: prisma_laws_def tables_prisma_def split: option.splits if_splits)

definition example_row :: "DeliveryStatus \<Rightarrow> delivery_row" where
  "example_row s = \<lparr> dr_id = ''d1'', dr_taskResultId = ''t1'', dr_destinationId = ''w1'', dr_status = s,
     dr_retryCount = 0, dr_nextRetryAt = None, dr_lastAttemptAt = None, dr_lastError = None,
     dr_errorCategory = None \<rparr>"

definition example_tables :: "DeliveryStatus \<Rightarrow> tables" where
  "example_tables s = \<lparr> tb_deliveries = [(''d1'', example_row s)], tb_attempts = [] \<rparr>"

end
