(* ===== verification/QF_Retry.thy ===== *)
theory QF_Retry
  imports QF_Backoff QF_Delivery
begin

text \<open>
  Retrying (\<open>resilience/retry\<close>) and timeouts (\<open>resilience/timeout\<close>): the policy and its transient
  error predicate, the executor's loop with its metrics, the scheduler over the delivery
  repository, the timeout registry and the race with a timer. The loop is a recursion that ends
  because the attempt number grows to the policy's maximum; what each attempt meets (clock
  readings, the outcome of the function, the random draw) is given by a function of the attempt
  number.
\<close>

subsection \<open>RetryPolicy\<close>

text \<open>An error as the predicate reads it: a string, or an object with optional fields and its text.\<close>

record error_obj =
  eo_message :: "string option"
  eo_stack :: "string option"
  eo_text :: string
  eo_statusCode :: "int option"
  eo_status :: "int option"
  eo_responseStatus :: "int option"
  eo_code :: "string option"

datatype js_error = StringError string | ObjectError error_obj

definition error_msg :: "js_error \<Rightarrow> string" where
  "error_msg e = lower (case e of StringError s \<Rightarrow> s
     | ObjectError x \<Rightarrow> str_or (eo_message x) (str_or (eo_stack x) (eo_text x)))"

definition error_status :: "js_error \<Rightarrow> int" where
  "error_status e = (case e of StringError _ \<Rightarrow> 0
     | ObjectError x \<Rightarrow> num_or (eo_statusCode x) (num_or (eo_status x) (num_or (eo_responseStatus x) 0)))"

definition error_code :: "js_error \<Rightarrow> string" where
  "error_code e = upper (case e of StringError _ \<Rightarrow> [] | ObjectError x \<Rightarrow> str_or (eo_code x) [])"

definition isTransientError :: "js_error option \<Rightarrow> bool" where
  "isTransientError error = (case error of None \<Rightarrow> False | Some e \<Rightarrow>
     if e = StringError [] then False else
     let msg = error_msg e; status = error_status e in
     if (status \<ge> 500 \<and> status \<le> 599) \<or> status = 429 \<or> status = 408 then True
     else if error_code e \<in> set [''ETIMEDOUT'', ''ECONNRESET'', ''ECONNREFUSED'', ''ENOTFOUND'', ''EPIPE'',
               ''EHOSTUNREACH'', ''EAI_AGAIN''] then True
     else list_ex (includes_str msg) [''etimedout'', ''timeout'', ''econnreset'', ''econnrefused'',
            ''connection refused'', ''reset'', ''socket hang up'', ''network error'', ''transient''])"

type_synonym retry_predicate = "js_error \<Rightarrow> bool"

record RetryPolicy =
  rpol_maxAttempts :: int
  rpol_strategy :: string
  rpol_timeout :: int
  rpol_predicates :: "retry_predicate list"

definition RetryPolicy_new :: "int \<Rightarrow> string \<Rightarrow> int \<Rightarrow> retry_predicate list \<Rightarrow> RetryPolicy" where
  "RetryPolicy_new maxAttempts strategy timeout predicates =
     \<lparr> rpol_maxAttempts = max 1 maxAttempts, rpol_strategy = upper strategy, rpol_timeout = max 0 timeout,
       rpol_predicates = (if predicates \<noteq> [] then predicates else [\<lambda>e. isTransientError (Some e)]) \<rparr>"

definition defaultPolicy :: "int option \<Rightarrow> string option \<Rightarrow> int option \<Rightarrow> RetryPolicy" where
  "defaultPolicy maxAttempts strategy timeout = RetryPolicy_new (nullish_or maxAttempts 3)
     (nullish_or strategy ''EXPONENTIAL'') (nullish_or timeout 30000) [\<lambda>e. isTransientError (Some e)]"

definition getRemainingAttempts :: "int \<Rightarrow> RetryPolicy \<Rightarrow> int" where
  "getRemainingAttempts attemptNumber p = max 0 (rpol_maxAttempts p - attemptNumber)"

definition shouldRetry :: "js_error \<Rightarrow> int \<Rightarrow> RetryPolicy \<Rightarrow> bool" where
  "shouldRetry error attemptNumber p =
     (if attemptNumber \<ge> rpol_maxAttempts p then False else list_ex (\<lambda>q. q error) (rpol_predicates p))"

definition getNextDelay :: "bool \<Rightarrow> rat \<Rightarrow> int \<Rightarrow> RetryPolicy \<Rightarrow> int" where
  "getNextDelay isTestEnv r attemptNumber p =
     (if isTestEnv then 1
      else if rpol_strategy p = ''LINEAR'' then linearBackoff attemptNumber 1000 (rpol_timeout p)
      else if rpol_strategy p = ''FIXED'' then fixedBackoff 1000
      else exponentialBackoff r attemptNumber 1000 (rpol_timeout p) (1 / 5))"

subsection \<open>RetryMetrics\<close>

record RetryMetrics =
  rm_totalAttempts :: int
  rm_successfulAttempts :: int
  rm_failedAttempts :: int
  rm_firstAttemptSuccesses :: int
  rm_retriedSuccesses :: int
  rm_maxRetriesExceeded :: int
  rm_totalDelayMs :: int

definition RetryMetrics_new :: RetryMetrics where
  "RetryMetrics_new = \<lparr> rm_totalAttempts = 0, rm_successfulAttempts = 0, rm_failedAttempts = 0,
     rm_firstAttemptSuccesses = 0, rm_retriedSuccesses = 0, rm_maxRetriesExceeded = 0, rm_totalDelayMs = 0 \<rparr>"

definition rm_recordAttempt :: "RetryMetrics \<Rightarrow> RetryMetrics" where
  "rm_recordAttempt m = m\<lparr> rm_totalAttempts := rm_totalAttempts m + 1 \<rparr>"

definition rm_recordSuccess :: "int \<Rightarrow> RetryMetrics \<Rightarrow> RetryMetrics" where
  "rm_recordSuccess attemptNumber m =
     (let m1 = m\<lparr> rm_successfulAttempts := rm_successfulAttempts m + 1 \<rparr> in
      if attemptNumber = 1 then m1\<lparr> rm_firstAttemptSuccesses := rm_firstAttemptSuccesses m1 + 1 \<rparr>
      else m1\<lparr> rm_retriedSuccesses := rm_retriedSuccesses m1 + 1 \<rparr>)"

definition rm_recordFailure :: "RetryMetrics \<Rightarrow> RetryMetrics" where
  "rm_recordFailure m = m\<lparr> rm_failedAttempts := rm_failedAttempts m + 1 \<rparr>"

definition rm_recordMaxRetriesExceeded :: "RetryMetrics \<Rightarrow> RetryMetrics" where
  "rm_recordMaxRetriesExceeded m = m\<lparr> rm_maxRetriesExceeded := rm_maxRetriesExceeded m + 1 \<rparr>"

definition rm_recordDelay :: "int \<Rightarrow> RetryMetrics \<Rightarrow> RetryMetrics" where
  "rm_recordDelay delayMs m = m\<lparr> rm_totalDelayMs := rm_totalDelayMs m + delayMs \<rparr>"

definition rm_reset :: "RetryMetrics \<Rightarrow> RetryMetrics" where
  "rm_reset m = RetryMetrics_new"

subsection \<open>RetryExecutor\<close>

text \<open>What one attempt meets: the clock when the timeout is checked, the outcome of the function if it
  is called, the clock when a failure has been recorded, and the draw of the delay.\<close>

record 'a iteration =
  it_check :: ms
  it_outcome :: "js_error + 'a"
  it_failed :: ms
  it_draw :: rat

datatype exec_error = Failed js_error | LoopEnded

text \<open>The \<open>TimeoutError\<close> of the executor: status 408.\<close>

definition retry_timeout_error :: "int \<Rightarrow> js_error" where
  "retry_timeout_error t = ObjectError \<lparr> eo_message = Some (''Operation RetryExecution timed out after '' @ show_int t @ ''ms''),
     eo_stack = None, eo_text = [], eo_statusCode = Some 408, eo_status = None, eo_responseStatus = None, eo_code = None \<rparr>"

text \<open>The result, the metrics and the number of times the function was called.\<close>

function execute_loop ::
  "RetryPolicy \<Rightarrow> bool \<Rightarrow> (int \<Rightarrow> 'a iteration) \<Rightarrow> ms \<Rightarrow> int \<Rightarrow> RetryMetrics \<Rightarrow> nat \<Rightarrow>
   (exec_error + 'a) \<times> RetryMetrics \<times> nat" where
  "execute_loop policy isTestEnv its startTime currentAttempt m calls =
     (if currentAttempt > rpol_maxAttempts policy then (Inl LoopEnded, m, calls)
      else let it = its currentAttempt;
               m1 = rm_recordAttempt m;
               late = rpol_timeout policy > 0 \<and> it_check it - startTime > rpol_timeout policy;
               outcome = (if late then Inl (retry_timeout_error (rpol_timeout policy)) else it_outcome it);
               calls1 = (if late then calls else calls + 1) in
        case outcome of
          Inr v \<Rightarrow> (Inr v, rm_recordSuccess currentAttempt m1, calls1)
        | Inl err \<Rightarrow>
            (let m2 = rm_recordFailure m1;
                 isTimeRemaining = rpol_timeout policy = 0 \<or> it_failed it - startTime < rpol_timeout policy in
             if shouldRetry err currentAttempt policy \<and> isTimeRemaining
             then execute_loop policy isTestEnv its startTime (currentAttempt + 1)
                    (rm_recordDelay (getNextDelay isTestEnv (it_draw it) currentAttempt policy) m2) calls1
             else (Inl (Failed err), rm_recordMaxRetriesExceeded m2, calls1)))"
  by pat_completeness auto
termination
  by (relation "measure (\<lambda>(policy, _, _, _, n, _, _). nat (rpol_maxAttempts policy + 1 - n))") auto

declare execute_loop.simps [simp del]

definition retry_execute ::
  "RetryPolicy \<Rightarrow> bool \<Rightarrow> (int \<Rightarrow> 'a iteration) \<Rightarrow> ms \<Rightarrow> int option \<Rightarrow> RetryMetrics \<Rightarrow>
   (exec_error + 'a) \<times> RetryMetrics \<times> nat" where
  "retry_execute policy isTestEnv its startTime attempt m =
     execute_loop policy isTestEnv its startTime (num_or attempt 1) m 0"

text \<open>\<open>executeWithMetrics\<close>: the result with the number of calls and the duration; an error propagates.\<close>

definition executeWithMetrics ::
  "RetryPolicy \<Rightarrow> bool \<Rightarrow> (int \<Rightarrow> 'a iteration) \<Rightarrow> ms \<Rightarrow> ms \<Rightarrow> RetryMetrics \<Rightarrow>
   (exec_error + ('a \<times> nat \<times> int)) \<times> RetryMetrics" where
  "executeWithMetrics policy isTestEnv its startTime endTime m =
     (case retry_execute policy isTestEnv its startTime None m of (res, m1, calls) \<Rightarrow>
      (case res of Inl e \<Rightarrow> Inl e | Inr v \<Rightarrow> Inr (v, calls, endTime - startTime), m1))"

subsection \<open>Timeouts\<close>

type_synonym TimeoutManager = "(string, int) js_map"

definition TimeoutManager_new :: "int option \<Rightarrow> int option \<Rightarrow> int option \<Rightarrow> int option \<Rightarrow> TimeoutManager" where
  "TimeoutManager_new http database redis queue =
     mset_at ''queue'' (nullish_or queue 30000) (mset_at ''redis'' (nullish_or redis 10000)
       (mset_at ''database'' (nullish_or database 60000) (mset_at ''http'' (nullish_or http 30000) [])))"

definition getTimeout :: "string \<Rightarrow> TimeoutManager \<Rightarrow> int" where
  "getTimeout operation m = nullish_or (mget m (lower operation)) 30000"

definition setCustomTimeout :: "string \<Rightarrow> int \<Rightarrow> TimeoutManager \<Rightarrow> string + TimeoutManager" where
  "setCustomTimeout operation timeoutMs m =
     (if timeoutMs \<le> 0 then Inl ''Timeout value must be greater than 0''
      else Inr (mset_at (lower operation) timeoutMs m))"

text \<open>A promise settles after a time, or never. The timer is set before the function is called, so it
  wins a tie. The result is \<open>None\<close> if the call never returns.\<close>

datatype 'o promise = Settles int 'o | Never

definition executeWithTimeout ::
  "('e + 'a) promise \<Rightarrow> int \<Rightarrow> string \<Rightarrow> (int \<times> ('e resilience_error + 'a)) option" where
  "executeWithTimeout fn timeoutMs operationName =
     (let settled = (\<lambda>oc. case oc of Inr v \<Rightarrow> Inr v | Inl e \<Rightarrow> Inl (Cause e)) in
      if timeoutMs \<le> 0 then (case fn of Settles d oc \<Rightarrow> Some (d, settled oc) | Never \<Rightarrow> None)
      else case fn of
        Settles d oc \<Rightarrow> if d < timeoutMs then Some (d, settled oc)
                       else Some (timeoutMs, Inl (TimeoutError operationName timeoutMs))
      | Never \<Rightarrow> Some (timeoutMs, Inl (TimeoutError operationName timeoutMs)))"

definition executeWithTimeoutAndFallback ::
  "('e + 'a) promise \<Rightarrow> int \<Rightarrow> 'a \<Rightarrow> string \<Rightarrow> (int \<times> 'a) option" where
  "executeWithTimeoutAndFallback fn timeoutMs fallback operationName =
     (case executeWithTimeout fn timeoutMs operationName of None \<Rightarrow> None
      | Some (d, Inr v) \<Rightarrow> Some (d, v) | Some (d, Inl _) \<Rightarrow> Some (d, fallback))"

subsection \<open>RetryScheduler\<close>

text \<open>The repository lookup \<open>findByTaskResultId\<close> is an argument. A successful call saves a delivery and
  enqueues a job: its task result, destination, retry count and delay.\<close>

datatype scheduler_error = MaximumReached int | DeliveryNotFound string | DomainFailure domain_error

record scheduled =
  sch_saved :: Delivery
  sch_job :: "string \<times> string \<times> int \<times> int"

definition pick_delivery :: "(string \<Rightarrow> Delivery list) \<Rightarrow> string \<Rightarrow> Delivery option" where
  "pick_delivery findByTaskResultId deliveryId =
     (let deliveries = findByTaskResultId deliveryId in
      case find (\<lambda>d. dl_id d = deliveryId) deliveries of Some d \<Rightarrow> Some d
      | None \<Rightarrow> (case deliveries of [] \<Rightarrow> None | d # _ \<Rightarrow> Some d))"

definition RetryScheduler_scheduleRetry ::
  "ms \<Rightarrow> (string \<Rightarrow> Delivery list) \<Rightarrow> int option \<Rightarrow> string \<Rightarrow> int \<Rightarrow> int option \<Rightarrow> scheduler_error + scheduled" where
  "RetryScheduler_scheduleRetry now findByTaskResultId configMax deliveryId retryCount delayArg =
     (let maxR = num_or configMax 5; delayMs = nullish_or delayArg 5000 in
      if retryCount \<ge> maxR then Inl (MaximumReached maxR)
      else case pick_delivery findByTaskResultId deliveryId of
        None \<Rightarrow> Inl (DeliveryNotFound deliveryId)
      | Some d \<Rightarrow>
          (case (if dl_status d \<noteq> PROCESSING then markAsProcessing now d else ret d) of
             (_, Some e) \<Rightarrow> Inl (DomainFailure e)
           | (d1, None) \<Rightarrow>
               let d2 = scheduleRetry now (At (now + delayMs)) d1 in
               Inr \<lparr> sch_saved = d2,
                     sch_job = (dl_taskResultId d2, dl_destinationId d2, retryCount + 1, delayMs) \<rparr>))"

definition cancelRetry :: "ms \<Rightarrow> (string \<Rightarrow> Delivery list) \<Rightarrow> string \<Rightarrow> scheduler_error + Delivery option" where
  "cancelRetry now findByTaskResultId deliveryId = (case pick_delivery findByTaskResultId deliveryId of
       None \<Rightarrow> Inr None
     | Some d \<Rightarrow>
         (case andThen (if dl_status d \<noteq> PROCESSING \<and> dl_status d \<noteq> SCHEDULED_RETRY
                        then markAsProcessing now d else ret d)
                 (moveToDeadLetterQueue now ''Retry cancelled by supervisor action'') of
            (_, Some e) \<Rightarrow> Inl (DomainFailure e)
          | (d1, None) \<Rightarrow> Inr (Some d1)))"

subsection \<open>Properties\<close>

text \<open>What attempt \<open>k\<close> yields, and whether the loop goes on after it.\<close>

definition attempt_result :: "RetryPolicy \<Rightarrow> (int \<Rightarrow> 'a iteration) \<Rightarrow> ms \<Rightarrow> int \<Rightarrow> js_error + 'a" where
  "attempt_result p its s k =
     (if rpol_timeout p > 0 \<and> it_check (its k) - s > rpol_timeout p
      then Inl (retry_timeout_error (rpol_timeout p)) else it_outcome (its k))"

definition goes_on :: "RetryPolicy \<Rightarrow> (int \<Rightarrow> 'a iteration) \<Rightarrow> ms \<Rightarrow> int \<Rightarrow> bool" where
  "goes_on p its s k \<longleftrightarrow> (case attempt_result p its s k of Inr _ \<Rightarrow> False
     | Inl e \<Rightarrow> shouldRetry e k p \<and> (rpol_timeout p = 0 \<or> it_failed (its k) - s < rpol_timeout p))"

lemma goes_on_limit: "goes_on p its s k \<Longrightarrow> k < rpol_maxAttempts p"
  by (auto simp: goes_on_def shouldRetry_def split: sum.splits if_splits)

lemmas rm_defs = rm_recordAttempt_def rm_recordSuccess_def rm_recordFailure_def
  rm_recordMaxRetriesExceeded_def rm_recordDelay_def

definition too_late :: "RetryPolicy \<Rightarrow> (int \<Rightarrow> 'a iteration) \<Rightarrow> ms \<Rightarrow> int \<Rightarrow> bool" where
  "too_late p its s k \<longleftrightarrow> rpol_timeout p > 0 \<and> it_check (its k) - s > rpol_timeout p"

lemma execute_loop_goes_on:
  assumes "goes_on p its s a"
  shows "execute_loop p t its s a m calls = execute_loop p t its s (a + 1)
    (rm_recordDelay (getNextDelay t (it_draw (its a)) a p) (rm_recordFailure (rm_recordAttempt m)))
    (if too_late p its s a then calls else calls + 1)"
proof -
  obtain e where "attempt_result p its s a = Inl e" using assms by (auto simp: goes_on_def split: sum.splits)
  with assms goes_on_limit [OF assms] show ?thesis
    unfolding execute_loop.simps [of p t its s a] goes_on_def attempt_result_def too_late_def
    by (simp add: Let_def)
qed

lemma execute_loop_stops:
  assumes "\<not> goes_on p its s a" "a \<le> rpol_maxAttempts p"
  shows "execute_loop p t its s a m calls =
    (case attempt_result p its s a of Inr v \<Rightarrow> Inr v | Inl e \<Rightarrow> Inl (Failed e),
     case attempt_result p its s a of Inr v \<Rightarrow> rm_recordSuccess a (rm_recordAttempt m)
     | Inl e \<Rightarrow> rm_recordMaxRetriesExceeded (rm_recordFailure (rm_recordAttempt m)),
     if too_late p its s a then calls else calls + 1)"
  using assms unfolding execute_loop.simps [of p t its s a] goes_on_def attempt_result_def too_late_def
  by (auto simp: Let_def split: sum.splits)

lemma execute_loop_result:
  assumes "a \<le> rpol_maxAttempts p" "execute_loop p t its s a m calls = (res, m', calls')"
  shows "\<exists>n. a \<le> n \<and> n \<le> rpol_maxAttempts p \<and> (\<forall>k. a \<le> k \<and> k < n \<longrightarrow> goes_on p its s k) \<and>
    \<not> goes_on p its s n \<and>
    res = (case attempt_result p its s n of Inr v \<Rightarrow> Inr v | Inl e \<Rightarrow> Inl (Failed e)) \<and>
    int calls' \<le> int calls + (n - a + 1) \<and>
    rm_totalAttempts m' = rm_totalAttempts m + (n - a + 1) \<and>
    rm_successfulAttempts m' = rm_successfulAttempts m + (if okE res then 1 else 0) \<and>
    rm_failedAttempts m' = rm_failedAttempts m + (if okE res then n - a else n - a + 1) \<and>
    rm_maxRetriesExceeded m' = rm_maxRetriesExceeded m + (if okE res then 0 else 1)"
  using assms
proof (induction "nat (rpol_maxAttempts p - a)" arbitrary: a m calls rule: less_induct)
  case less
  show ?case
  proof (cases "goes_on p its s a")
    case True
    define m1 where "m1 = rm_recordDelay (getNextDelay t (it_draw (its a)) a p) (rm_recordFailure (rm_recordAttempt m))"
    define c1 where "c1 = (if too_late p its s a then calls else calls + 1)"
    have m1: "rm_totalAttempts m1 = rm_totalAttempts m + 1" "rm_failedAttempts m1 = rm_failedAttempts m + 1"
      "rm_successfulAttempts m1 = rm_successfulAttempts m" "rm_maxRetriesExceeded m1 = rm_maxRetriesExceeded m"
      by (simp_all add: m1_def rm_defs)
    have c1: "int c1 \<le> int calls + 1" by (simp add: c1_def)
    from goes_on_limit [OF True] have lt: "nat (rpol_maxAttempts p - (a + 1)) < nat (rpol_maxAttempts p - a)"
      "a + 1 \<le> rpol_maxAttempts p" by auto
    from less.hyps [OF lt less.prems(2) [unfolded execute_loop_goes_on [OF True] m1_def [symmetric] c1_def [symmetric]]]
    obtain n where n:
      "a + 1 \<le> n" "n \<le> rpol_maxAttempts p" "\<forall>k. a + 1 \<le> k \<and> k < n \<longrightarrow> goes_on p its s k"
      "\<not> goes_on p its s n" "res = (case attempt_result p its s n of Inr v \<Rightarrow> Inr v | Inl e \<Rightarrow> Inl (Failed e))"
      "int calls' \<le> int c1 + (n - (a + 1) + 1)"
      "rm_totalAttempts m' = rm_totalAttempts m1 + (n - (a + 1) + 1)"
      "rm_successfulAttempts m' = rm_successfulAttempts m1 + (if okE res then 1 else 0)"
      "rm_failedAttempts m' = rm_failedAttempts m1 + (if okE res then n - (a + 1) else n - (a + 1) + 1)"
      "rm_maxRetriesExceeded m' = rm_maxRetriesExceeded m1 + (if okE res then 0 else 1)" by blast
    have "\<forall>k. a \<le> k \<and> k < n \<longrightarrow> goes_on p its s k" using n(3) True by (metis add1_zle_eq order_le_less)
    with n m1 c1 show ?thesis by (intro exI [of _ n]) auto
  next
    case False
    have "okE (case attempt_result p its s a of Inr v \<Rightarrow> Inr v | Inl e \<Rightarrow> Inl (Failed e)) \<longleftrightarrow>
        okE (attempt_result p its s a)" by (simp split: sum.splits)
    then show ?thesis using less.prems(2) unfolding execute_loop_stops [OF False less.prems(1)]
      using False less.prems(1)
      by (intro exI [of _ a]) (cases "attempt_result p its s a"; auto simp: rm_defs Let_def)
  qed
qed

text \<open>C9: The executor returns for every input, after at most as many calls as its policy allows: it
  stops at the first attempt that succeeds, fails with an error that is not to be retried, comes too
  late, or is the last one allowed, and its answer is that attempt's; the metrics count every attempt
  once, as a success or a failure, and every final failure.\<close>

theorem retry_stops_at_first_final_attempt:
  assumes "1 \<le> a" "a \<le> rpol_maxAttempts p"
  shows "\<exists>n res m' calls. retry_execute p t its s (Some a) m = (res, m', calls) \<and>
    a \<le> n \<and> n \<le> rpol_maxAttempts p \<and> (\<forall>k. a \<le> k \<and> k < n \<longrightarrow> goes_on p its s k) \<and> \<not> goes_on p its s n \<and>
    res = (case attempt_result p its s n of Inr v \<Rightarrow> Inr v | Inl e \<Rightarrow> Inl (Failed e)) \<and>
    int calls \<le> n - a + 1 \<and>
    rm_totalAttempts m' - rm_totalAttempts m = n - a + 1 \<and>
    rm_totalAttempts m' - rm_totalAttempts m =
      (rm_successfulAttempts m' - rm_successfulAttempts m) + (rm_failedAttempts m' - rm_failedAttempts m) \<and>
    rm_maxRetriesExceeded m' - rm_maxRetriesExceeded m = (if okE res then 0 else 1)"
proof -
  obtain res m' calls where e: "execute_loop p t its s a m 0 = (res, m', calls)"
    by (cases "execute_loop p t its s a m 0")
  from execute_loop_result [OF assms(2) e] obtain n where
    "a \<le> n" "n \<le> rpol_maxAttempts p" "\<forall>k. a \<le> k \<and> k < n \<longrightarrow> goes_on p its s k" "\<not> goes_on p its s n"
    "res = (case attempt_result p its s n of Inr v \<Rightarrow> Inr v | Inl e \<Rightarrow> Inl (Failed e))"
    "int calls \<le> n - a + 1" "rm_totalAttempts m' = rm_totalAttempts m + (n - a + 1)"
    "rm_successfulAttempts m' = rm_successfulAttempts m + (if okE res then 1 else 0)"
    "rm_failedAttempts m' = rm_failedAttempts m + (if okE res then n - a else n - a + 1)"
    "rm_maxRetriesExceeded m' = rm_maxRetriesExceeded m + (if okE res then 0 else 1)" by auto
  then show ?thesis
    using e assms(1)
    by (intro exI [of _ n] exI [of _ res] exI [of _ m'] exI [of _ calls]) (auto simp: retry_execute_def)
qed

definition example_iterations :: "int \<Rightarrow> string iteration" where
  "example_iterations k = \<lparr> it_check = 10 * k,
     it_outcome = (if k = 1 then Inl (StringError ''socket hang up'') else Inr ''done''),
     it_failed = 10 * k + 5, it_draw = 0 \<rparr>"

theorem retry_stops_at_first_final_attempt_witness:
  "\<exists>m' calls. retry_execute (defaultPolicy None None None) False example_iterations 0 (Some 1) RetryMetrics_new =
     (Inr ''done'', m', calls) \<and> rm_totalAttempts m' = 2"
proof -
  let ?p = "defaultPolicy None None None"
  have p: "rpol_maxAttempts ?p = 3" "rpol_timeout ?p = 30000" "rpol_predicates ?p = [\<lambda>e. isTransientError (Some e)]"
    by (simp_all add: defaultPolicy_def RetryPolicy_new_def)
  have "isTransientError (Some (StringError ''socket hang up''))" by code_simp
  then have g1: "goes_on ?p example_iterations 0 1"
    by (simp add: goes_on_def attempt_result_def example_iterations_def shouldRetry_def p)
  have r2: "attempt_result ?p example_iterations 0 k = Inr ''done''" if "k = 2 \<or> k = 3" for k
    using that by (auto simp: attempt_result_def example_iterations_def p)
  from retry_stops_at_first_final_attempt [of 1 ?p False example_iterations 0 RetryMetrics_new]
  obtain n res m' calls where e: "retry_execute ?p False example_iterations 0 (Some 1) RetryMetrics_new = (res, m', calls)"
    and n: "1 \<le> n" "n \<le> 3" "\<forall>k. 1 \<le> k \<and> k < n \<longrightarrow> goes_on ?p example_iterations 0 k" "\<not> goes_on ?p example_iterations 0 n"
    and res: "res = (case attempt_result ?p example_iterations 0 n of Inr v \<Rightarrow> Inr v | Inl e \<Rightarrow> Inl (Failed e))"
    and m: "rm_totalAttempts m' - rm_totalAttempts RetryMetrics_new = n - 1 + 1"
    by (auto simp: p)
  have "\<not> goes_on ?p example_iterations 0 2" using r2 [of 2] by (simp add: goes_on_def)
  with n g1 have "n = 2" by (metis (no_types, opaque_lifting) antisym_conv2 int_one_le_iff_zero_less linorder_not_le
      not_less_iff_gr_or_eq one_add_one zle_add1_eq_le one_le_numeral)
  then show ?thesis using e res r2 [of 2] m by (simp add: RetryMetrics_new_def)
qed

text \<open>A policy without a time limit (timeout 0) uses that 0 as the cap of its backoff too: outside
  tests its exponential and linear delays are all 0, so retries follow each other at once, while the
  same policy with any limit of at least a second waits a second or more.\<close>

theorem no_time_limit_means_no_backoff:
  assumes "0 \<le> r" "1 \<le> k" "upper strategy \<noteq> ''FIXED''"
  shows "getNextDelay False r k (RetryPolicy_new n strategy 0 ps) = 0 \<and>
    (1000 \<le> t \<longrightarrow> 1000 \<le> getNextDelay False r k (RetryPolicy_new n strategy t ps))"
proof -
  have "1000 \<le> getNextDelay False r k (RetryPolicy_new n strategy t ps)" if "1000 \<le> t"
  proof (cases "upper strategy = ''LINEAR''")
    case True
    then show ?thesis using assms that by (simp add: getNextDelay_def RetryPolicy_new_def linearBackoff_def)
  next
    case False
    have v: "valid_params \<lparr> p_maxRetries = 0, p_baseMs = 1000, p_maxMs = t, p_jitterFactor = 1 / 5 \<rparr>"
      using that by (simp add: valid_params_def)
    from calculator.lower [OF v assms(1,2)] False assms that show ?thesis
      by (simp add: getNextDelay_def RetryPolicy_new_def calculator_delay_def)
  qed
  moreover have "getNextDelay False r k (RetryPolicy_new n strategy 0 ps) = 0"
  proof -
    have "0 \<le> (1 + 1 / 5 * r)" using assms(1) by simp
    then have "0 \<le> \<lfloor>1000 * 2 ^ nat (k - 1) * (1 + 1 / 5 * r)\<rfloor>" by simp
    then show ?thesis using assms exponentialBackoff_eq [OF assms(2), of r 1000 0 "1 / 5"]
      by (simp add: getNextDelay_def RetryPolicy_new_def linearBackoff_def min_absorb2)
  qed
  ultimately show ?thesis by blast
qed

theorem no_time_limit_means_no_backoff_witness:
  "getNextDelay False (1 / 2) 7 (RetryPolicy_new 9 ''EXPONENTIAL'' 0 []) = 0 \<and>
   1000 \<le> getNextDelay False (1 / 2) 7 (RetryPolicy_new 9 ''EXPONENTIAL'' 60000 [])"
  using no_time_limit_means_no_backoff [of "1 / 2" 7 "''EXPONENTIAL''" 9 "[]" 60000] by (simp add: upper_char_def)

text \<open>The retry scheduler looks a delivery up by passing its own identifier where the repository
  expects that of a task result: a stored delivery whose identifier is no task result's is never
  found, and one identifier that is both selects a delivery of that task result, possibly another.\<close>

theorem scheduler_misses_its_delivery:
  assumes "find_by = (\<lambda>k. filter (\<lambda>d. dl_taskResultId d = k) store)"
    and "retryCount < num_or configMax 5"
  shows "((\<forall>d \<in> set store. dl_taskResultId d \<noteq> x) \<longrightarrow>
            RetryScheduler_scheduleRetry now find_by configMax x retryCount delay = Inl (DeliveryNotFound x) \<and>
            cancelRetry now find_by x = Inr None) \<and>
         (\<forall>r. RetryScheduler_scheduleRetry now find_by configMax x retryCount delay = Inr r \<longrightarrow>
            dl_taskResultId (sch_saved r) = x \<and> dl_status (sch_saved r) = SCHEDULED_RETRY)"
proof (intro conjI allI impI)
  assume "\<forall>d \<in> set store. dl_taskResultId d \<noteq> x"
  then have "pick_delivery find_by x = None"
    by (auto simp: pick_delivery_def assms(1) find_None_iff Let_def split: option.splits list.splits)
  then show "RetryScheduler_scheduleRetry now find_by configMax x retryCount delay = Inl (DeliveryNotFound x)"
    "cancelRetry now find_by x = Inr None"
    using assms(2) by (simp_all add: RetryScheduler_scheduleRetry_def cancelRetry_def)
next
  fix r
  assume r: "RetryScheduler_scheduleRetry now find_by configMax x retryCount delay = Inr r"
  then obtain d where d: "pick_delivery find_by x = Some d"
    by (auto simp: RetryScheduler_scheduleRetry_def Let_def split: if_splits option.splits)
  then have "d \<in> set (find_by x)"
    by (auto simp: pick_delivery_def Let_def find_Some_iff split: option.splits list.splits)
  then have "dl_taskResultId d = x" by (simp add: assms(1))
  then show "dl_taskResultId (sch_saved r) = x" "dl_status (sch_saved r) = SCHEDULED_RETRY"
    using r d by (auto simp: RetryScheduler_scheduleRetry_def markAsProcessing_def scheduleRetry_def ret_def
        throw_def Let_def split: if_splits prod.splits option.splits)
qed

theorem scheduler_misses_its_delivery_witness:
  "RetryScheduler_scheduleRetry 5 (\<lambda>k. filter (\<lambda>d. dl_taskResultId d = k) [example_delivery SCHEDULED_RETRY 1])
     None ''d1'' 1 None = Inl (DeliveryNotFound ''d1'') \<and> dl_id (example_delivery SCHEDULED_RETRY 1) = ''d1''"
  using scheduler_misses_its_delivery [OF refl, of 1 None "[example_delivery SCHEDULED_RETRY 1]" "''d1''" 5 None]
  by (simp add: example_delivery_def)

end
