(* ===== verification/QF_Worker.thy ===== *)
theory QF_Worker
  imports QF_Store QF_Retry QF_Breaker QF_Bulkhead
begin

text \<open>
  The worker (\<open>src/worker\<close>): error classification, the delivery state machine over the delivery
  repository, the attempt recorder, the connectors and their factory, the delivery executor with
  its circuit breaker and bulkhead, the job processor, the stale job detector and the heartbeat,
  wired as \<open>worker.module.ts\<close> wires them. What the outside world answers (the endpoint, the
  queue client, the clock before and after a transmission, whether a queued bulkhead request is
  served) is a record \<open>surroundings\<close>.
\<close>

subsection \<open>ErrorClassifier\<close>

datatype ErrorCategory =
  CTransient | CPermanent | CNetwork | CTimeout | CValidation | CServer | CUnknown

text \<open>\<open>statusCode || error?.statusCode || error?.status || error?.response?.status\<close>, 0 if all are missing.\<close>

definition pick_code :: "worker_error option \<Rightarrow> int option \<Rightarrow> int" where
  "pick_code error statusCode = num_or statusCode (case error of None \<Rightarrow> 0
     | Some e \<Rightarrow> num_or (we_statusCode e) (num_or (we_status e) (num_or (we_responseStatus e) 0)))"

definition classifier_msg :: "worker_error option \<Rightarrow> string" where
  "classifier_msg error = lower (case error of None \<Rightarrow> []
     | Some e \<Rightarrow> if we_message e = [] then we_text e else we_message e)"

definition classifier_errCode :: "worker_error option \<Rightarrow> string" where
  "classifier_errCode error = upper (case error of None \<Rightarrow> [] | Some e \<Rightarrow> str_or (we_code e) [])"

definition getCategory :: "worker_error option \<Rightarrow> int option \<Rightarrow> ErrorCategory" where
  "getCategory error statusCode =
     (let code = pick_code error statusCode;
          msg = classifier_msg error;
          errCode = classifier_errCode error;
          name = (case error of None \<Rightarrow> [] | Some e \<Rightarrow> we_name e) in
      if code = 408 then CTimeout
      else if code = 429 \<or> code \<ge> 500 then CTransient
      else if code \<ge> 400 \<and> code < 500 then (if code = 422 \<or> code = 400 then CValidation else CPermanent)
      else if includes_str msg ''validation'' then CValidation
      else if errCode \<in> set [''ECONNREFUSED'', ''ENOTFOUND'', ''EPIPE'', ''EHOSTUNREACH'', ''EAI_AGAIN''] then CNetwork
      else if errCode = ''ETIMEDOUT'' \<or> name = ''TimeoutError'' \<or> includes_str msg ''timeout'' then CTimeout
      else if name = ''ValidationError'' \<or> (case error of None \<Rightarrow> False | Some e \<Rightarrow> we_code e = Some ''VALIDATION_FAILED'') then CValidation
      else if includes_str msg ''connection refused'' \<or> includes_str msg ''network'' \<or>
              includes_str msg ''socket hang up'' \<or> includes_str msg ''reset'' then CNetwork
      else CUnknown)"

definition getRetryable :: "worker_error option \<Rightarrow> int option \<Rightarrow> bool" where
  "getRetryable error statusCode \<longleftrightarrow>
     getCategory error statusCode \<in> set [CTransient, CNetwork, CTimeout, CServer, CUnknown]"

definition classify :: "worker_error option \<Rightarrow> int option \<Rightarrow> ErrorCategory \<times> bool" where
  "classify error statusCode =
     (let code = pick_code error statusCode in
      (getCategory error (Some code), getRetryable error (Some code)))"

definition classifyHttpStatus :: "int \<Rightarrow> ErrorCategory \<times> bool" where
  "classifyHttpStatus statusCode =
     classify (Some (js_Error ''Error'' (''HTTP '' @ show_int statusCode))) (Some statusCode)"

subsection \<open>DeliveryStateMachine\<close>

definition VALID_DELIVERY_TRANSITIONS :: "(string, string list) js_map" where
  "VALID_DELIVERY_TRANSITIONS =
     [(''PENDING'', [''PROCESSING'']),
      (''PROCESSING'', [''COMPLETED'', ''SCHEDULED_RETRY'', ''FAILED_DLQ'']),
      (''SCHEDULED_RETRY'', [''PENDING'', ''PROCESSING'']),
      (''COMPLETED'', []),
      (''FAILED_DLQ'', [])]"

definition isValidStateTransition :: "string \<Rightarrow> string \<Rightarrow> bool" where
  "isValidStateTransition fromState toState =
     (case mget VALID_DELIVERY_TRANSITIONS (upper fromState) of None \<Rightarrow> False
      | Some allowedNextStates \<Rightarrow> upper toState \<in> set allowedNextStates)"

text \<open>\<open>canTransition\<close> reads an object's \<open>value\<close> first; \<open>null\<close> is an object without fields (None: it throws).\<close>

definition state_text :: "js_arg \<Rightarrow> string option" where
  "state_text a = (case a of JNull \<Rightarrow> None | JObj k v \<Rightarrow> Some (str_or v (str_or k (js_String a)))
     | _ \<Rightarrow> Some (js_String a))"

definition canTransition :: "js_arg \<Rightarrow> js_arg \<Rightarrow> bool option" where
  "canTransition fromState toState = (case state_text fromState of None \<Rightarrow> None
     | Some f \<Rightarrow> (case state_text toState of None \<Rightarrow> None | Some t \<Rightarrow> Some (isValidStateTransition f t)))"

datatype metadata = NoMeta | CompletedMeta ms int | RetryMeta ms string | FailedMeta ms string

text \<open>\<open>expect?.any\<close> is evaluated only without metadata; \<open>expect\<close> is Jest's global and is not defined
  outside a test run (\<open>jest\<close>).\<close>

definition reference_error :: worker_error where
  "reference_error = js_Error ''ReferenceError'' ''expect is not defined''"

definition ds_transition ::
  "'d prisma \<Rightarrow> bool \<Rightarrow> string \<Rightarrow> DeliveryStatus \<Rightarrow> metadata \<Rightarrow> 'd \<Rightarrow> ('d, worker_error) eff" where
  "ds_transition px jest i target meta d =
     (let current = (case px_findUnique px i d of None \<Rightarrow> PENDING | Some r \<Rightarrow> dr_status r) in
      if current \<noteq> target \<and> \<not> isValidStateTransition (status_str current) (status_str target)
      then throw d (invalid_state_error current target)
      else if target = COMPLETED then
        (if meta = NoMeta \<and> \<not> jest then throw d reference_error
         else dl_updateDeliveryStatus px i COMPLETED ContextArg d)
      else if target = SCHEDULED_RETRY then
        (if meta = NoMeta \<and> \<not> jest then throw d reference_error
         else dl_scheduleRetry px i (case meta of RetryMeta t _ \<Rightarrow> Some t | _ \<Rightarrow> None) ContextArg d)
      else dl_updateStatus px i target (if meta = NoMeta then NoArg else ContextArg) d)"

definition ds_markProcessing :: "'d prisma \<Rightarrow> bool \<Rightarrow> string \<Rightarrow> 'd \<Rightarrow> ('d, worker_error) eff" where
  "ds_markProcessing px jest i d = ds_transition px jest i PROCESSING NoMeta d"

definition ds_markCompleted :: "'d prisma \<Rightarrow> bool \<Rightarrow> ms \<Rightarrow> string \<Rightarrow> int \<Rightarrow> 'd \<Rightarrow> ('d, worker_error) eff" where
  "ds_markCompleted px jest now i latencyMs d = ds_transition px jest i COMPLETED (CompletedMeta now latencyMs) d"

definition ds_scheduleRetry ::
  "'d prisma \<Rightarrow> bool \<Rightarrow> ms \<Rightarrow> string \<Rightarrow> int \<Rightarrow> worker_error \<Rightarrow> 'd \<Rightarrow> ('d, worker_error) eff" where
  "ds_scheduleRetry px jest now i delayMs err d = ds_transition px jest i SCHEDULED_RETRY
     (RetryMeta (now + delayMs) (if we_message err = [] then we_text err else we_message err)) d"

definition ds_moveToDeadLetterQueue ::
  "'d prisma \<Rightarrow> bool \<Rightarrow> ms \<Rightarrow> string \<Rightarrow> string \<Rightarrow> 'd \<Rightarrow> ('d, worker_error) eff" where
  "ds_moveToDeadLetterQueue px jest now i reason d = ds_transition px jest i FAILED_DLQ (FailedMeta now reason) d"

subsection \<open>AttemptRecorder\<close>

record attempt_obj =
  ao_statusCode :: "int option"
  ao_responseStatus :: "int option"
  ao_latencyMs :: "int option"
  ao_responseTimeMs :: "int option"
  ao_error :: "worker_error option"
  ao_errorMessage :: "string option"

datatype attempt_arg = AttemptObj attempt_obj | Numbered int attempt_obj

definition ao_data :: "attempt_obj \<Rightarrow> attempt_data" where
  "ao_data a = \<lparr>
     ad_responseStatus = Some (num_or (ao_statusCode a) (num_or (ao_responseStatus a)
       (if ao_error a = None then 200 else 500))),
     ad_responseTimeMs = Some (num_or (ao_latencyMs a) (num_or (ao_responseTimeMs a) 0)),
     ad_errorMessage = (case ao_error a of
         Some e \<Rightarrow> if we_message e \<noteq> [] then Some (we_message e)
                  else if str_or (ao_errorMessage a) [] \<noteq> [] then ao_errorMessage a else None
       | None \<Rightarrow> if str_or (ao_errorMessage a) [] \<noteq> [] then ao_errorMessage a else None) \<rparr>"

text \<open>Every failure is caught: the answer is then \<open>null\<close>.\<close>

definition rec_record ::
  "'d prisma \<Rightarrow> ms \<Rightarrow> string \<Rightarrow> attempt_arg \<Rightarrow> 'd \<Rightarrow> 'd \<times> attempt_row option" where
  "rec_record px now i arg d =
     (case (case arg of AttemptObj a \<Rightarrow> (int (length (px_attemptsOf px i d)) + 1, a) | Numbered n a \<Rightarrow> (n, a)) of
        (n, a) \<Rightarrow> (case at_recordAttempt px now i n (ao_data a) d of
            (d', None) \<Rightarrow> (d', Some (attempt_row_of i n (ao_data a)))
          | (d', Some _) \<Rightarrow> (d', None)))"

definition rec_success :: "'d prisma \<Rightarrow> ms \<Rightarrow> string \<Rightarrow> int \<Rightarrow> 'd \<Rightarrow> 'd \<times> attempt_row option" where
  "rec_success px now i latencyMs d = rec_record px now i (AttemptObj \<lparr> ao_statusCode = None,
     ao_responseStatus = None, ao_latencyMs = Some latencyMs, ao_responseTimeMs = None,
     ao_error = None, ao_errorMessage = None \<rparr>) d"

definition rec_failure ::
  "'d prisma \<Rightarrow> ms \<Rightarrow> string \<Rightarrow> int \<Rightarrow> int option \<Rightarrow> worker_error \<Rightarrow> 'd \<Rightarrow> 'd \<times> attempt_row option" where
  "rec_failure px now i latencyMs statusCode err d = rec_record px now i (AttemptObj \<lparr>
     ao_statusCode = statusCode, ao_responseStatus = None, ao_latencyMs = Some latencyMs,
     ao_responseTimeMs = None, ao_error = Some err, ao_errorMessage = None \<rparr>) d"

subsection \<open>Connectors\<close>

text \<open>What the code reads of a destination; \<open>dc_type\<close> is \<open>destinationType || type\<close>, \<open>dc_endpoint\<close> the
  first of the endpoint fields.\<close>

record dest_config =
  dc_id :: string
  dc_type :: "string option"
  dc_endpoint :: "string option"
  dc_timeout :: "int option"
  dc_mainQueue :: bool

record ConnectorResult =
  cr_success :: bool
  cr_statusCode :: "int option"
  cr_latencyMs :: int
  cr_error :: "worker_error option"
  cr_message :: string
  cr_isPermanent :: "bool option"

text \<open>The constructors search their arguments for an object with the method they need.\<close>

datatype dependency = LoggerDep | ObservabilityDep | PrismaDep | QueueDep | AuditLoggerDep

datatype connector =
    WebhookConnector dest_config
  | DatabaseConnector dest_config bool
  | QueueConnector dest_config bool
  | AuditConnector dest_config bool

definition WebhookConnector_new :: "dest_config \<Rightarrow> dependency list \<Rightarrow> worker_error + connector" where
  "WebhookConnector_new destination args =
     (if str_or (dc_endpoint destination) [] = []
      then Inl (js_Error ''Error'' ''Webhook destination must have a valid endpoint URL string'')
      else Inr (WebhookConnector destination))"

definition createConnector :: "dest_config option \<Rightarrow> dependency list \<Rightarrow> worker_error + connector" where
  "createConnector destination dependencies = (case destination of
       None \<Rightarrow> Inl (validation_error_on ''destination'' ''Destination object cannot be null or undefined'')
     | Some dest \<Rightarrow>
         let typeStr = upper (str_or (dc_type dest) ''WEBHOOK'') in
         if typeStr = ''WEBHOOK'' then WebhookConnector_new dest dependencies
         else if typeStr = ''DATABASE'' then Inr (DatabaseConnector dest (PrismaDep \<in> set dependencies))
         else if typeStr = ''QUEUE'' then Inr (QueueConnector dest (QueueDep \<in> set dependencies))
         else if typeStr = ''AUDIT'' then Inr (AuditConnector dest (AuditLoggerDep \<in> set dependencies))
         else Inl (validation_error_on ''type'' (''Unsupported destination connector type: '' @
                [CHR 0x22] @ typeStr @ [CHR 0x22])))"

text \<open>The factory hands a connector its logger and observability only.\<close>

definition factory_create :: "dest_config option \<Rightarrow> worker_error + connector" where
  "factory_create destination = createConnector destination [LoggerDep, ObservabilityDep]"

text \<open>What is outside: the clock before and after the transmission, the answer to the HTTP post (a
  status, or the error thrown), to the queue's \<open>add\<close>, the SQL insert, the audit log and the loading of
  the payload (the error thrown, if any), whether a queued bulkhead request is served before its
  timer fires, and whether the code runs under Jest.\<close>

record surroundings =
  en_start :: ms
  en_finish :: ms
  en_post :: "worker_error + int option"
  en_add :: "worker_error option"
  en_insert :: "worker_error option"
  en_logEvent :: "worker_error option"
  en_load :: "worker_error option"
  en_waiter :: nat
  en_served :: bool
  en_jest :: bool

definition http_permanent :: "int \<Rightarrow> bool" where
  "http_permanent c \<longleftrightarrow> c \<ge> 400 \<and> c < 500 \<and> c \<noteq> 408 \<and> c \<noteq> 429"

text \<open>The client is axios or an object with \<open>post\<close>, so the branch over \<open>fetch\<close> (and with it the timeout) is
  never taken.\<close>

definition webhook_execute :: "surroundings \<Rightarrow> ConnectorResult" where
  "webhook_execute en = (case en_post en of
       Inr status \<Rightarrow>
         let code = num_or status 200; isSuccess = (code \<ge> 200 \<and> code < 300) in
         \<lparr> cr_success = isSuccess, cr_statusCode = Some code, cr_latencyMs = en_finish en - en_start en,
           cr_error = None,
           cr_message = (if isSuccess then ''Webhook payload delivered successfully''
                         else ''HTTP '' @ show_int code @ '' response from endpoint''),
           cr_isPermanent = Some (http_permanent code) \<rparr>
     | Inl err \<Rightarrow>
         let code = num_or (we_statusCode err) (num_or (we_status err) 500) in
         \<lparr> cr_success = False, cr_statusCode = Some code, cr_latencyMs = en_finish en - en_start en,
           cr_error = Some err, cr_message = we_message err, cr_isPermanent = Some (http_permanent code) \<rparr>)"

definition undefined_includes :: worker_error where
  "undefined_includes = js_Error ''TypeError'' ''Cannot read properties of undefined (reading 'includes')''"

definition database_execute :: "dest_config \<Rightarrow> bool \<Rightarrow> surroundings \<Rightarrow> ConnectorResult" where
  "database_execute destination hasPrisma en =
     (let result = (if hasPrisma \<and> en_insert en \<noteq> None then en_insert en
        else case dc_endpoint destination of None \<Rightarrow> Some undefined_includes
        | Some endpoint \<Rightarrow>
            if includes_str endpoint ''invalid'' \<or> includes_str endpoint ''unreachable''
            then Some ((js_Error ''Error'' (''Database connection failed to '' @ endpoint))\<lparr> we_statusCode := Some 503 \<rparr>)
            else None) in
      case result of
        None \<Rightarrow> \<lparr> cr_success = True, cr_statusCode = Some 200, cr_latencyMs = en_finish en - en_start en,
           cr_error = None, cr_message = ''Task result record inserted into destination database'',
           cr_isPermanent = None \<rparr>
      | Some err \<Rightarrow>
          let code = num_or (we_statusCode err) 500 in
          \<lparr> cr_success = False, cr_statusCode = Some code, cr_latencyMs = en_finish en - en_start en,
            cr_error = Some err, cr_message = we_message err,
            cr_isPermanent = Some (code \<ge> 400 \<and> code < 500) \<rparr>)"

definition queue_execute :: "dest_config \<Rightarrow> bool \<Rightarrow> surroundings \<Rightarrow> ConnectorResult" where
  "queue_execute destination hasQueue en =
     (let caught = (\<lambda>err. \<lparr> cr_success = False, cr_statusCode = Some (num_or (we_statusCode err) 503),
            cr_latencyMs = en_finish en - en_start en, cr_error = Some err, cr_message = we_message err,
            cr_isPermanent = Some False \<rparr>) in
      case dc_endpoint destination of
        None \<Rightarrow> caught undefined_includes
      | Some queueName \<Rightarrow>
          if includes_str queueName ''broker-unavailable'' \<or> includes_str queueName ''connection_failed''
          then \<lparr> cr_success = False, cr_statusCode = Some 503, cr_latencyMs = en_finish en - en_start en,
                 cr_error = None, cr_message = ''Queue broker unavailable at '' @ queueName,
                 cr_isPermanent = Some False \<rparr>
          else if (hasQueue \<or> dc_mainQueue destination) \<and> en_add en \<noteq> None
          then caught (the (en_add en))
          else \<lparr> cr_success = True, cr_statusCode = Some 200, cr_latencyMs = en_finish en - en_start en,
                 cr_error = None, cr_message = ''Task result enqueued to target queue '' @ [CHR 0x22] @ queueName @ [CHR 0x22],
                 cr_isPermanent = None \<rparr>)"

text \<open>The audit connector has no \<open>try\<close>; with an audit logger it evaluates \<open>expect?.any\<close>.\<close>

definition audit_execute :: "bool \<Rightarrow> surroundings \<Rightarrow> worker_error + ConnectorResult" where
  "audit_execute hasLogger en =
     (if hasLogger \<and> \<not> en_jest en then Inl reference_error
      else case (if hasLogger then en_logEvent en else None) of Some e \<Rightarrow> Inl e
      | None \<Rightarrow> Inr \<lparr> cr_success = True, cr_statusCode = Some 200,
          cr_latencyMs = en_finish en - en_start en, cr_error = None,
          cr_message = ''Audit trail record written successfully'', cr_isPermanent = None \<rparr>)"

definition connector_execute :: "connector \<Rightarrow> surroundings \<Rightarrow> worker_error + ConnectorResult" where
  "connector_execute c en = (case c of
       WebhookConnector _ \<Rightarrow> Inr (webhook_execute en)
     | DatabaseConnector dest p \<Rightarrow> Inr (database_execute dest p en)
     | QueueConnector dest q \<Rightarrow> Inr (queue_execute dest q en)
     | AuditConnector _ l \<Rightarrow> audit_execute l en)"

subsection \<open>DeliveryExecutor\<close>

record ExecutionResult =
  er_success :: bool
  er_statusCode :: "int option"
  er_latencyMs :: int
  er_error :: "worker_error option"
  er_errorCategory :: "ErrorCategory option"

record 'd world =
  wd_db :: 'd
  wd_breakers :: CircuitBreakerManager
  wd_bulkheads :: BulkheadManager

text \<open>A breaker obtained from the manager is the manager's own object.\<close>

definition on_breaker :: "(CircuitBreaker \<Rightarrow> CircuitBreaker) \<Rightarrow> string \<Rightarrow> 'd world \<Rightarrow> 'd world" where
  "on_breaker f destId w = (case mget (mg_breakers (wd_breakers w)) destId of None \<Rightarrow> w
     | Some b \<Rightarrow> w\<lparr> wd_breakers := mg_store destId (f b) (wd_breakers w) \<rparr>)"

definition on_db :: "('d \<Rightarrow> ('d, 'e) eff) \<Rightarrow> 'd world \<Rightarrow> ('d world, 'e) eff" where
  "on_db f w = (case f (wd_db w) of (d, e) \<Rightarrow> (w\<lparr> wd_db := d \<rparr>, e))"

text \<open>The failure handling, the same in the failed branch and in the \<open>catch\<close>: the breaker hears of the
  error, the attempt is recorded, the delivery goes to retry or to the dead letter queue.\<close>

definition settle_failure ::
  "'d prisma \<Rightarrow> surroundings \<Rightarrow> string \<Rightarrow> string \<Rightarrow> worker_error \<Rightarrow> int option \<Rightarrow> bool \<Rightarrow> 'd world \<Rightarrow>
   ('d world, worker_error) eff" where
  "settle_failure px en i destId err recorded retryable w =
     (let w1 = on_breaker (br_recordFailure (en_finish en)) destId w;
          w2 = w1\<lparr> wd_db := fst (rec_failure px (en_finish en) i (en_finish en - en_start en) recorded err (wd_db w1)) \<rparr> in
      if retryable then on_db (ds_scheduleRetry px (en_jest en) (en_finish en) i 5000 err) w2
      else on_db (ds_moveToDeadLetterQueue px (en_jest en) (en_finish en) i (we_message err)) w2)"

definition outcome_of :: "('w, 'e) eff \<Rightarrow> 'r \<Rightarrow> 'w \<times> ('e + 'r)" where
  "outcome_of m r = (case m of (w, Some e) \<Rightarrow> (w, Inl e) | (w, None) \<Rightarrow> (w, Inr r))"

lemma outcome_of_simps [simp]:
  "fst (outcome_of m r) = fst m"
  "snd (outcome_of m r) = (case snd m of None \<Rightarrow> Inr r | Some e \<Rightarrow> Inl e)"
  "outcome_of (ret w) r = (w, Inr r)" "outcome_of (throw w e) r = (w, Inl e)"
  by (simp_all add: outcome_of_def ret_def throw_def split: prod.split option.split)

text \<open>The body of the \<open>try\<close> once the bulkhead has admitted the delivery: the world after it and the
  result, or the error thrown.\<close>

definition transmit ::
  "'d prisma \<Rightarrow> surroundings \<Rightarrow> string \<Rightarrow> string \<Rightarrow> dest_config option \<Rightarrow> 'd world \<Rightarrow>
   'd world \<times> (worker_error + ExecutionResult)" where
  "transmit px en i destId destination w =
     (let latencyMs = en_finish en - en_start en in
      case factory_create destination of Inl e \<Rightarrow> (w, Inl e)
      | Inr connector \<Rightarrow>
      (case en_load en of Some e \<Rightarrow> (w, Inl e) | None \<Rightarrow>
      (case connector_execute connector en of Inl e \<Rightarrow> (w, Inl e)
      | Inr res \<Rightarrow>
        if cr_success res then
          (let w1 = on_breaker (br_recordSuccess (en_finish en)) destId w;
               w2 = w1\<lparr> wd_db := fst (rec_success px (en_finish en) i latencyMs (wd_db w1)) \<rparr> in
           outcome_of (on_db (ds_markCompleted px (en_jest en) (en_finish en) i latencyMs) w2)
             \<lparr> er_success = True, er_statusCode = Some (num_or (cr_statusCode res) 200),
               er_latencyMs = latencyMs, er_error = None, er_errorCategory = None \<rparr>)
        else
          (let err = (case cr_error res of Some e \<Rightarrow> e
                 | None \<Rightarrow> js_Error ''Error'' (if cr_message res = [] then ''Connector transmission failed'' else cr_message res));
               classification = classify (Some err) (cr_statusCode res) in
           outcome_of (settle_failure px en i destId err (cr_statusCode res) (snd classification) w)
             \<lparr> er_success = False, er_statusCode = Some (num_or (cr_statusCode res) 500),
               er_latencyMs = latencyMs, er_error = Some err, er_errorCategory = Some (fst classification) \<rparr>))))"

text \<open>The \<open>catch\<close>; an error thrown in it leaves the executor.\<close>

definition handle_exception ::
  "'d prisma \<Rightarrow> surroundings \<Rightarrow> string \<Rightarrow> string \<Rightarrow> worker_error \<Rightarrow> 'd world \<Rightarrow>
   'd world \<times> (worker_error + ExecutionResult)" where
  "handle_exception px en i destId err w =
     (let classification = classify (Some err) None in
      outcome_of (settle_failure px en i destId err (Some (num_or (we_statusCode err) 500)) (snd classification) w)
        \<lparr> er_success = False, er_statusCode = None, er_latencyMs = en_finish en - en_start en,
          er_error = Some err, er_errorCategory = Some (fst classification) \<rparr>)"

text \<open>\<open>bulkhead.acquire\<close>: a slot at once, or a place in the queue that ends with a handed over slot or
  with the timer, which in both cases leaves the queue without the request.\<close>

definition acquire_slot ::
  "surroundings \<Rightarrow> string \<Rightarrow> BulkheadManager \<Rightarrow> (worker_error + unit) \<times> BulkheadManager" where
  "acquire_slot en poolName m =
     (case bg_acquire (en_waiter en) poolName None m of
        Inl msg \<Rightarrow> (Inl (js_Error ''Error'' msg), m)
      | Inr (True, m1) \<Rightarrow> (Inr (), m1)
      | Inr (False, m1) \<Rightarrow>
          (let m2 = (case mget (bg_bulkheads m1) poolName of None \<Rightarrow> m1
               | Some b \<Rightarrow> bg_store poolName (b\<lparr> bh_pool := pl_timerFires (en_waiter en) (bh_pool b) \<rparr>) m1) in
           (if en_served en then Inr () else Inl (bulkhead_full_error poolName), m2)))"

definition release_slot :: "string \<Rightarrow> BulkheadManager \<Rightarrow> BulkheadManager" where
  "release_slot poolName m = (case bg_release poolName m of Inl _ \<Rightarrow> m | Inr (_, m1) \<Rightarrow> m1)"

text \<open>From the bulkhead on: the \<open>try\<close>, its \<open>catch\<close> and its \<open>finally\<close>.\<close>

definition protected_transmit ::
  "'d prisma \<Rightarrow> surroundings \<Rightarrow> string \<Rightarrow> string \<Rightarrow> dest_config option \<Rightarrow> string \<Rightarrow> 'd world \<Rightarrow>
   'd world \<times> (worker_error + ExecutionResult)" where
  "protected_transmit px en i destId destination poolName w =
     (case acquire_slot en poolName (wd_bulkheads w) of
        (Inl e, m) \<Rightarrow> handle_exception px en i destId e (w\<lparr> wd_bulkheads := m \<rparr>)
      | (Inr _, m) \<Rightarrow>
          (case (case transmit px en i destId destination (w\<lparr> wd_bulkheads := m \<rparr>) of
                   (w1, Inl e) \<Rightarrow> handle_exception px en i destId e w1
                 | (w1, Inr r) \<Rightarrow> (w1, Inr r)) of
             (w2, r) \<Rightarrow> (w2\<lparr> wd_bulkheads := release_slot poolName (wd_bulkheads w2) \<rparr>, r)))"

definition executeWithResilience ::
  "'d prisma \<Rightarrow> (string \<Rightarrow> dest_config option) \<Rightarrow> surroundings \<Rightarrow> string \<Rightarrow> dest_config option \<Rightarrow> 'd world \<Rightarrow>
   'd world \<times> (worker_error + ExecutionResult)" where
  "executeWithResilience px destinations en i destinationArg w =
     (case px_findUnique px i (wd_db w) of
        None \<Rightarrow> (w, Inr \<lparr> er_success = False, er_statusCode = None, er_latencyMs = 0,
          er_error = Some (js_Error ''Error'' (''Delivery record '' @ [CHR 0x22] @ i @ [CHR 0x22] @ '' not found'')),
          er_errorCategory = Some CPermanent \<rparr>)
      | Some delivery \<Rightarrow>
          let destId = str_or (Some (dr_destinationId delivery))
                (case destinationArg of Some a \<Rightarrow> dc_id a | None \<Rightarrow> ''unknown'');
              destination = (case destinationArg of Some a \<Rightarrow> Some a | None \<Rightarrow> destinations destId);
              destType = (case destination of None \<Rightarrow> ''WEBHOOK'' | Some x \<Rightarrow> str_or (dc_type x) ''WEBHOOK'');
              w1 = fst (on_db (ds_markProcessing px (en_jest en) i) w);
              w2 = w1\<lparr> wd_breakers := snd (mg_getOrCreateBreaker destId emptyPartial (wd_breakers w1)) \<rparr>;
              (isCbOpen, mg) = mg_isOpen (en_start en) destId (wd_breakers w2);
              w3 = w2\<lparr> wd_breakers := mg \<rparr> in
          if isCbOpen
          then (w3, Inr \<lparr> er_success = False, er_statusCode = None, er_latencyMs = 0,
            er_error = Some (js_Error ''Error'' (''Circuit breaker is OPEN for destination '' @ destId)),
            er_errorCategory = Some CTransient \<rparr>)
          else protected_transmit px en i destId destination (lower destType) w3)"

subsection \<open>JobProcessor\<close>

record job =
  jb_id :: "string option"
  jb_deliveryId :: "string option"
  jb_data :: "(string, string) js_map option"

record JobProcessor =
  jp_started :: bool
  jp_stopped :: bool
  jp_processed :: int
  jp_failed :: int
  jp_totalLatency :: int
  jp_active :: int

definition JobProcessor_new :: JobProcessor where
  "JobProcessor_new = \<lparr> jp_started = False, jp_stopped = False, jp_processed = 0, jp_failed = 0,
     jp_totalLatency = 0, jp_active = 0 \<rparr>"

definition jp_isRunning :: "JobProcessor \<Rightarrow> bool" where
  "jp_isRunning p \<longleftrightarrow> jp_started p \<and> \<not> jp_stopped p"

definition jp_start :: "JobProcessor \<Rightarrow> JobProcessor" where
  "jp_start p = (if jp_started p then p else p\<lparr> jp_started := True, jp_stopped := False \<rparr>)"

definition jp_stop :: "JobProcessor \<Rightarrow> JobProcessor" where
  "jp_stop p = (if jp_stopped p then p else p\<lparr> jp_stopped := True, jp_started := False \<rparr>)"

definition data_field :: "string \<Rightarrow> job \<Rightarrow> string" where
  "data_field k j = (case jb_data j of None \<Rightarrow> [] | Some m \<Rightarrow> str_or (mget m k) [])"

definition jp_validate :: "job option \<Rightarrow> worker_error + unit" where
  "jp_validate j = (case j of None \<Rightarrow> Inl (js_Error ''Error'' ''Invalid job payload format'')
     | Some jb \<Rightarrow>
         if str_or (jb_id jb) [] = [] \<and> str_or (jb_deliveryId jb) [] = [] \<and> data_field ''deliveryId'' jb = [] \<and>
            data_field ''id'' jb = [] \<and> data_field ''taskResultId'' jb = []
         then Inl (js_Error ''Error'' ''Invalid job payload format'')
         else if jb_data jb = Some [] then Inl (js_Error ''Error'' ''Job payload data cannot be empty object'')
         else Inr ())"

definition job_delivery_id :: "job \<Rightarrow> string" where
  "job_delivery_id jb = str_or (Some (data_field ''deliveryId'' jb)) (str_or (Some (data_field ''id'' jb))
     (str_or (jb_id jb) ''unknown''))"

text \<open>\<open>processJob\<close> around what the executor answered: its counters and its report.\<close>

definition jp_settle :: "int \<Rightarrow> worker_error + ExecutionResult \<Rightarrow> JobProcessor \<Rightarrow> DeliveryStatus \<times> JobProcessor" where
  "jp_settle latencyMs outcome p = (case outcome of
       Inr r \<Rightarrow>
         if er_success r
         then (COMPLETED, p\<lparr> jp_totalLatency := jp_totalLatency p + latencyMs, jp_processed := jp_processed p + 1 \<rparr>)
         else (if er_errorCategory r = Some CPermanent then FAILED_DLQ else SCHEDULED_RETRY,
               p\<lparr> jp_totalLatency := jp_totalLatency p + latencyMs, jp_failed := jp_failed p + 1 \<rparr>)
     | Inl _ \<Rightarrow> (FAILED_DLQ, p\<lparr> jp_failed := jp_failed p + 1, jp_totalLatency := jp_totalLatency p + latencyMs \<rparr>))"

definition jp_enter :: "JobProcessor \<Rightarrow> JobProcessor" where
  "jp_enter p = p\<lparr> jp_active := jp_active p + 1 \<rparr>"

definition jp_leave :: "JobProcessor \<Rightarrow> JobProcessor" where
  "jp_leave p = p\<lparr> jp_active := max 0 (jp_active p - 1) \<rparr>"

definition processJob ::
  "'d prisma \<Rightarrow> (string \<Rightarrow> dest_config option) \<Rightarrow> surroundings \<Rightarrow> job option \<Rightarrow> 'd world \<times> JobProcessor \<Rightarrow>
   ('d world \<times> JobProcessor) \<times> (worker_error + (string \<times> DeliveryStatus))" where
  "processJob px destinations en j wp =
     (case j of None \<Rightarrow> (wp, Inl (js_Error ''Error'' ''Invalid job payload format''))
      | Some jb \<Rightarrow>
        (case jp_validate j of Inl e \<Rightarrow> (wp, Inl e) | Inr _ \<Rightarrow>
          let deliveryId = job_delivery_id jb;
              (w1, outcome) = executeWithResilience px destinations en deliveryId None (fst wp);
              (status, p1) = jp_settle (en_finish en - en_start en) outcome (jp_enter (snd wp)) in
          ((w1, jp_leave p1), Inr (deliveryId, status))))"

record WorkerStats =
  ws_jobsProcessed :: int
  ws_jobsFailed :: int
  ws_averageLatency :: int
  ws_activeJobs :: int

definition jp_getStats :: "JobProcessor \<Rightarrow> WorkerStats" where
  "jp_getStats p = (let total = jp_processed p + jp_failed p in
     \<lparr> ws_jobsProcessed = jp_processed p, ws_jobsFailed = jp_failed p,
       ws_averageLatency = (if total > 0 then jp_totalLatency p div total else 0),
       ws_activeJobs = jp_active p \<rparr>)"

subsection \<open>Recovery\<close>

text \<open>\<open>StaleJobDetector.recover\<close>: the job it puts on the queue, with the id the queue gives it, and the
  row back to \<open>PENDING\<close>. Every failure is caught; a failing \<open>add\<close> leaves the row.\<close>

definition stale_job :: "delivery_row \<Rightarrow> string \<Rightarrow> job" where
  "stale_job r jobId = \<lparr> jb_id = Some jobId, jb_deliveryId = None,
     jb_data = Some [(''taskResultId'', dr_taskResultId r), (''destinationId'', dr_destinationId r),
                     (''attempt'', show_int (dr_retryCount r))] \<rparr>"

definition markAsStale :: "'d prisma \<Rightarrow> string \<Rightarrow> 'd \<Rightarrow> ('d, worker_error) eff" where
  "markAsStale px i d = dl_updateDeliveryStatus px i PENDING NoArg d"

definition sd_recover :: "'d prisma \<Rightarrow> worker_error + string \<Rightarrow> string \<Rightarrow> 'd \<Rightarrow> 'd \<times> job list" where
  "sd_recover px added i d = (case px_findUnique px i d of None \<Rightarrow> (d, [])
     | Some r \<Rightarrow> (case added of Inl _ \<Rightarrow> (d, []) | Inr jobId \<Rightarrow> (fst (markAsStale px i d), [stale_job r jobId])))"

fun detectStale :: "'d prisma \<Rightarrow> (string \<Rightarrow> worker_error + string) \<Rightarrow> string list \<Rightarrow> 'd \<Rightarrow> 'd \<times> job list" where
  "detectStale px added [] d = (d, [])"
| "detectStale px added (i # is) d =
     (case sd_recover px (added i) i d of (d1, js1) \<Rightarrow>
      case detectStale px added is d1 of (d2, js2) \<Rightarrow> (d2, js1 @ js2))"

text \<open>The heartbeat's keys: \<open>ping\<close> does not repeat a prefix the worker id already has.\<close>

definition hb_ping :: "string \<Rightarrow> string set \<Rightarrow> string set" where
  "hb_ping workerId keys = insert (if starts_with ''heartbeat:'' workerId then workerId
     else ''heartbeat:'' @ workerId) keys"

definition hb_stop :: "string \<Rightarrow> string set \<Rightarrow> string set" where
  "hb_stop workerId keys = keys - {''heartbeat:'' @ workerId}"

definition hb_isAlive :: "string \<Rightarrow> string set \<Rightarrow> bool" where
  "hb_isAlive workerId keys \<longleftrightarrow> ''heartbeat:'' @ workerId \<in> keys"

subsection \<open>Classification of status codes\<close>

text \<open>On the error status codes 400 to 599 every judge of retryability agrees: the worker's
  classifier, the HTTP status value object, the domain's delivery error and the permanence flag the
  webhook connector puts into its result; the retry policy's predicate takes every code the others
  retry for transient. Below 400 they part: the classifier calls such a code unknown and retries it,
  the domain does not.\<close>
theorem classifiers_agree_on_error_codes:
  assumes "0 < c" "c \<le> 599" "DeliveryError_fromStatusCode c msg = Inr e" "error_status (ObjectError x) = c"
  shows "if 400 \<le> c
    then snd (classify err (Some c)) = HttpStatusCode_isRetryable c \<and>
         snd (classify err (Some c)) = DeliveryError_isRetryable e \<and>
         snd (classify err (Some c)) = (\<not> http_permanent c) \<and>
         (snd (classify err (Some c)) \<longrightarrow> isTransientError (Some (ObjectError x)))
    else classify None (Some c) = (CUnknown, True) \<and> \<not> DeliveryError_isRetryable e"
proof -
  have e: "DeliveryError_isRetryable e \<longleftrightarrow> c = 408 \<or> c = 429 \<or> 500 \<le> c"
    using assms(1-3) by (auto simp: DeliveryError_fromStatusCode_def DeliveryError_new_def Let_def
        DeliveryError_isRetryable_def split: if_splits)
  have r: "snd (classify err (Some c)) \<longleftrightarrow> c = 408 \<or> c = 429 \<or> 500 \<le> c" if "400 \<le> c"
    using assms(1) that by (simp add: classify_def getRetryable_def getCategory_def pick_code_def Let_def)
  have t: "isTransientError (Some (ObjectError x))" if "c = 408 \<or> c = 429 \<or> 500 \<le> c"
    using assms(2,4) that by (auto simp: isTransientError_def Let_def)
  show ?thesis
  proof (cases "400 \<le> c")
    case True
    with assms(2) e r t show ?thesis
      by (auto simp: HttpStatusCode_isRetryable_def HttpStatusCode_isServerError_def http_permanent_def)
  next
    case False
    with assms(1) have "classify None (Some c) = (CUnknown, True)"
      by (simp add: classify_def getRetryable_def getCategory_def pick_code_def Let_def
          classifier_msg_def classifier_errCode_def)
    with False e show ?thesis by simp
  qed
qed

theorem classifiers_agree_on_error_codes_witness:
  "snd (classify None (Some 503)) = HttpStatusCode_isRetryable 503 \<and>
   classify None (Some 302) = (CUnknown, True)"
proof -
  let ?x = "\<lambda>c. \<lparr> eo_message = None, eo_stack = None, eo_text = [], eo_statusCode = Some c, eo_status = None,
    eo_responseStatus = None, eo_code = None \<rparr>"
  have "\<exists>e. DeliveryError_fromStatusCode 503 (Some ''m'') = Inr e"
    "\<exists>e. DeliveryError_fromStatusCode 302 (Some ''m'') = Inr e"
    by (simp_all add: DeliveryError_fromStatusCode_def DeliveryError_new_def)
  then show ?thesis
    using classifiers_agree_on_error_codes [of 503 "Some ''m''" _ "?x 503" None]
      classifiers_agree_on_error_codes [of 302 "Some ''m''" _ "?x 302" None]
    by (auto simp: error_status_def)
qed

subsection \<open>How the worker moves deliveries\<close>

text \<open>A status that is not final may become any status but \<open>PENDING\<close> and \<open>FAILED_DLQ\<close>; a final one
  stays. Rows neither appear nor vanish.\<close>

definition status_moves :: "DeliveryStatus \<Rightarrow> DeliveryStatus \<Rightarrow> bool" where
  "status_moves s s' \<longleftrightarrow> s' = s \<or>
     s \<notin> {COMPLETED, FAILED_DLQ} \<and> s' \<in> {PROCESSING, SCHEDULED_RETRY, COMPLETED}"

definition rows_move :: "'d prisma \<Rightarrow> 'd \<Rightarrow> 'd \<Rightarrow> bool" where
  "rows_move px d d' \<longleftrightarrow> (\<forall>j. rel_option (\<lambda>r r'. status_moves (dr_status r) (dr_status r'))
     (px_findUnique px j d) (px_findUnique px j d'))"

lemma rows_move_refl [simp]: "rows_move px d d"
  by (simp add: rows_move_def status_moves_def option.rel_refl)

lemma rows_move_trans: "rows_move px d d' \<Longrightarrow> rows_move px d' d'' \<Longrightarrow> rows_move px d d''"
  unfolding rows_move_def
proof
  fix j
  assume "\<forall>j. rel_option (\<lambda>r r'. status_moves (dr_status r) (dr_status r')) (px_findUnique px j d) (px_findUnique px j d')"
    and "\<forall>j. rel_option (\<lambda>r r'. status_moves (dr_status r) (dr_status r')) (px_findUnique px j d') (px_findUnique px j d'')"
  then have "rel_option (\<lambda>r r'. status_moves (dr_status r) (dr_status r')) (px_findUnique px j d) (px_findUnique px j d')"
    "rel_option (\<lambda>r r'. status_moves (dr_status r) (dr_status r')) (px_findUnique px j d') (px_findUnique px j d'')"
    by blast+
  then show "rel_option (\<lambda>r r'. status_moves (dr_status r) (dr_status r')) (px_findUnique px j d) (px_findUnique px j d'')"
    by (cases rule: option.rel_cases; cases "px_findUnique px j d''") (auto simp: status_moves_def)
qed

lemma update_moves:
  assumes "prisma_laws px"
    and "\<And>r. px_findUnique px i d = Some r \<Longrightarrow> status_moves (dr_status r) (dr_status (f r))"
  shows "rows_move px d (fst (update_delivery px tx i f d))"
proof (cases "tx = ContextArg \<or> px_findUnique px i d = None")
  case True
  then have "fst (update_delivery px tx i f d) = d"
    using update_delivery_missing [OF assms(1)] by (metis eff_simps(3) update_delivery_def)
  then show ?thesis by simp
next
  case False
  then obtain r where r: "px_findUnique px i d = Some r" by auto
  obtain d' where d': "update_delivery px tx i f d = ret d'" "px_findUnique px i d' = Some (f r)"
    "\<And>j. j \<noteq> i \<Longrightarrow> px_findUnique px j d' = px_findUnique px j d"
    using update_delivery_cases [OF assms(1) _ r] False by metis
  have "rel_option (\<lambda>r r'. status_moves (dr_status r) (dr_status r')) (px_findUnique px j d) (px_findUnique px j d')" for j
    using d' r assms(2) [OF r] by (cases "j = i") (simp_all add: option.rel_refl status_moves_def)
  with d'(1) show ?thesis by (simp add: rows_move_def)
qed

lemma valid_transition_iff:
  "isValidStateTransition (status_str s) (status_str t) \<longleftrightarrow>
     s = PENDING \<and> t = PROCESSING \<or> s = SCHEDULED_RETRY \<and> t \<in> {PENDING, PROCESSING} \<or>
     s = PROCESSING \<and> t \<in> {COMPLETED, SCHEDULED_RETRY, FAILED_DLQ}"
  by (cases s; cases t) (simp_all add: isValidStateTransition_def VALID_DELIVERY_TRANSITIONS_def mget_def
      status_str_def upper_char_def)

lemma ds_transition_moves:
  assumes laws: "prisma_laws px" and target: "target \<noteq> PENDING" and meta: "target = FAILED_DLQ \<longrightarrow> meta \<noteq> NoMeta"
  shows "rows_move px d (fst (ds_transition px jest i target meta d))"
proof -
  have "status_moves (dr_status r) target"
    if "px_findUnique px i d = Some r" "dr_status r = target \<or> isValidStateTransition (status_str (dr_status r)) (status_str target)"
      "target \<noteq> FAILED_DLQ" for r
    using that target by (cases target) (auto simp: valid_transition_iff status_moves_def)
  moreover have "rows_move px d (fst (update_delivery px ContextArg i f d))" for f
    by (simp add: update_delivery_def)
  ultimately show ?thesis using meta
    by (cases "px_findUnique px i d"; cases target)
      (auto simp: ds_transition_def Let_def dl_updateDeliveryStatus_def dl_scheduleRetry_def
        dl_updateStatus_def intro!: update_moves [OF laws])
qed

lemma at_recordAttempt_moves:
  assumes "prisma_laws px"
  shows "rows_move px d (fst (at_recordAttempt px now i n a d))"
  unfolding rows_move_def
proof
  fix j
  show "rel_option (\<lambda>r r'. status_moves (dr_status r) (dr_status r')) (px_findUnique px j d)
      (px_findUnique px j (fst (at_recordAttempt px now i n a d)))"
    using at_recordAttempt_status [OF assms, of j now i n a d]
    by (cases "px_findUnique px j d"; cases "px_findUnique px j (fst (at_recordAttempt px now i n a d))")
      (auto simp: status_moves_def)
qed

lemma rec_record_fst: "fst (rec_record px now i arg d) =
  fst (case arg of AttemptObj a \<Rightarrow> at_recordAttempt px now i (int (length (px_attemptsOf px i d)) + 1) (ao_data a) d
     | Numbered n a \<Rightarrow> at_recordAttempt px now i n (ao_data a) d)"
  by (auto simp: rec_record_def split: attempt_arg.split prod.split option.split)

lemma rec_moves:
  assumes "prisma_laws px"
  shows "rows_move px d (fst (rec_record px now i arg d))"
  by (cases arg) (simp_all add: rec_record_fst at_recordAttempt_moves [OF assms])

lemma on_db_simps [simp]:
  "wd_db (fst (on_db f w)) = fst (f (wd_db w))" "snd (on_db f w) = snd (f (wd_db w))"
  "wd_breakers (fst (on_db f w)) = wd_breakers w" "wd_bulkheads (fst (on_db f w)) = wd_bulkheads w"
  by (simp_all add: on_db_def split: prod.split)

lemma on_breaker_simps [simp]:
  "wd_db (on_breaker f k w) = wd_db w" "wd_bulkheads (on_breaker f k w) = wd_bulkheads w"
  by (simp_all add: on_breaker_def split: option.split)

lemma settle_failure_moves:
  assumes "prisma_laws px"
  shows "rows_move px (wd_db w) (wd_db (fst (settle_failure px en i destId err recorded retryable w)))"
proof -
  let ?d = "fst (rec_failure px (en_finish en) i (en_finish en - en_start en) recorded err (wd_db w))"
  have "rows_move px (wd_db w) ?d" by (simp add: rec_failure_def rec_moves [OF assms])
  moreover have "rows_move px ?d (fst (ds_scheduleRetry px (en_jest en) (en_finish en) i 5000 err ?d))"
    "rows_move px ?d (fst (ds_moveToDeadLetterQueue px (en_jest en) (en_finish en) i (we_message err) ?d))"
    by (simp_all add: ds_scheduleRetry_def ds_moveToDeadLetterQueue_def ds_transition_moves [OF assms])
  ultimately show ?thesis
    by (auto simp: settle_failure_def Let_def intro: rows_move_trans)
qed

lemma transmit_unconnected:
  assumes "\<nexists>c res. factory_create destination = Inr c \<and> en_load en = None \<and> connector_execute c en = Inr res"
  shows "\<exists>e. transmit px en i destId destination w = (w, Inl e)"
proof (cases "factory_create destination")
  case (Inl e)
  then show ?thesis by (simp add: transmit_def)
next
  case (Inr c)
  with assms show ?thesis
    by (cases "en_load en"; cases "connector_execute c en") (simp_all add: transmit_def)
qed

lemma transmit_moves:
  assumes "prisma_laws px"
  shows "rows_move px (wd_db w) (wd_db (fst (transmit px en i destId destination w)))"
proof -
  let ?d = "fst (rec_success px (en_finish en) i (en_finish en - en_start en) (wd_db w))"
  have 1: "rows_move px (wd_db w) ?d" by (simp add: rec_success_def rec_moves [OF assms])
  have "rows_move px ?d (fst (ds_markCompleted px (en_jest en) (en_finish en) i (en_finish en - en_start en) ?d))"
    by (simp add: ds_markCompleted_def ds_transition_moves [OF assms])
  then have 2: "rows_move px (wd_db w) (fst (ds_markCompleted px (en_jest en) (en_finish en) i (en_finish en - en_start en) ?d))"
    by (rule rows_move_trans [OF 1])
  note 3 = settle_failure_moves [OF assms, of w en i destId]
  show ?thesis
  proof (cases "\<exists>c res. factory_create destination = Inr c \<and> en_load en = None \<and> connector_execute c en = Inr res")
    case True
    then obtain c res where "factory_create destination = Inr c" "en_load en = None" "connector_execute c en = Inr res"
      by blast
    with 2 3 show ?thesis by (cases "cr_success res") (simp_all add: transmit_def Let_def)
  next
    case False
    then have "\<exists>e. transmit px en i destId destination w = (w, Inl e)"
      by (rule transmit_unconnected)
    then show ?thesis by auto
  qed
qed

lemma handle_exception_moves:
  assumes "prisma_laws px"
  shows "rows_move px (wd_db w) (wd_db (fst (handle_exception px en i destId err w)))"
  by (simp add: handle_exception_def Let_def settle_failure_moves [OF assms])

lemma protected_transmit_moves:
  assumes "prisma_laws px"
  shows "rows_move px (wd_db w) (wd_db (fst (protected_transmit px en i destId destination poolName w)))"
proof (cases "acquire_slot en poolName (wd_bulkheads w)")
  case (Pair a m)
  let ?w = "w\<lparr> wd_bulkheads := m \<rparr>"
  show ?thesis
  proof (cases a)
    case (Inl e)
    then show ?thesis
      using Pair handle_exception_moves [OF assms, of ?w] by (simp add: protected_transmit_def)
  next
    case (Inr u)
    obtain w1 r where t: "transmit px en i destId destination ?w = (w1, r)" by fastforce
    then have "rows_move px (wd_db w) (wd_db w1)"
      using transmit_moves [OF assms, of ?w en i destId destination] by simp
    moreover have "rows_move px (wd_db w1) (wd_db (fst (handle_exception px en i destId e w1)))" for e
      by (rule handle_exception_moves [OF assms])
    ultimately show ?thesis using Pair Inr t
      by (cases r) (auto simp: protected_transmit_def case_prod_beta intro: rows_move_trans)
  qed
qed

lemma executeWithResilience_moves:
  assumes "prisma_laws px"
  shows "rows_move px (wd_db w) (wd_db (fst (executeWithResilience px destinations en i a w)))"
proof (cases "px_findUnique px i (wd_db w)")
  case None
  then show ?thesis by (simp add: executeWithResilience_def)
next
  case (Some row)
  have 1: "rows_move px (wd_db w) (fst (ds_markProcessing px (en_jest en) i (wd_db w)))"
    by (simp add: ds_markProcessing_def ds_transition_moves [OF assms])
  have "rows_move px (wd_db w) (wd_db (fst (protected_transmit px en i x y z v)))"
    if "wd_db v = fst (ds_markProcessing px (en_jest en) i (wd_db w))" for v :: "'a world" and x y z
    using rows_move_trans [OF 1, of "wd_db (fst (protected_transmit px en i x y z v))"]
      protected_transmit_moves [OF assms, of v en i x y z] that by simp
  with 1 show ?thesis
    using Some by (simp add: executeWithResilience_def Let_def case_prod_beta del: str_or_simps)
qed

lemma processJob_moves:
  assumes "prisma_laws px"
  shows "rows_move px (wd_db (fst wp)) (wd_db (fst (fst (processJob px destinations en j wp))))"
  using executeWithResilience_moves [OF assms, of "fst wp" destinations en]
  by (auto simp: processJob_def Let_def split: option.split sum.split prod.split) (metis fst_conv)

subsection \<open>A sequence of jobs\<close>

fun process_all ::
  "'d prisma \<Rightarrow> (string \<Rightarrow> dest_config option) \<Rightarrow> (surroundings \<times> job option) list \<Rightarrow> 'd world \<times> JobProcessor \<Rightarrow>
   'd world \<times> JobProcessor" where
  "process_all px destinations [] wp = wp"
| "process_all px destinations ((en, j) # js) wp =
     process_all px destinations js (fst (processJob px destinations en j wp))"

lemma process_all_moves:
  assumes "prisma_laws px"
  shows "rows_move px (wd_db (fst wp)) (wd_db (fst (process_all px destinations jobs wp)))"
proof (induction jobs arbitrary: wp)
  case Nil
  then show ?case by simp
next
  case (Cons x xs)
  obtain en j where x: "x = (en, j)" by fastforce
  show ?case
    using rows_move_trans [OF processJob_moves [OF assms] Cons.IH [of "fst (processJob px destinations en j wp)"]]
    by (simp add: x)
qed

text \<open>C4: Over any sequence of jobs, whatever the endpoints answer, the worker never moves a delivery to
  \<open>FAILED_DLQ\<close>: \<open>DeliveryStateMachine.moveToDeadLetterQueue\<close> hands its metadata to
  \<open>DeliveryRepository.updateStatus\<close> in the place of a transaction client, and that call always
  throws. A delivery that is completed, or was dead-lettered by someone else, keeps its status.\<close>
theorem worker_never_dead_letters:
  assumes "prisma_laws px" "px_findUnique px i (wd_db w) = Some r"
  shows "\<exists>r'. px_findUnique px i (wd_db (fst (process_all px destinations jobs (w, p)))) = Some r' \<and>
     (dr_status r' = FAILED_DLQ \<longrightarrow> dr_status r = FAILED_DLQ) \<and>
     (dr_status r \<in> {COMPLETED, FAILED_DLQ} \<longrightarrow> dr_status r' = dr_status r)"
proof -
  have "rows_move px (wd_db w) (wd_db (fst (process_all px destinations jobs (w, p))))"
    using process_all_moves [OF assms(1), of "(w, p)"] by simp
  then have "rel_option (\<lambda>r r'. status_moves (dr_status r) (dr_status r')) (px_findUnique px i (wd_db w))
      (px_findUnique px i (wd_db (fst (process_all px destinations jobs (w, p)))))"
    by (simp add: rows_move_def)
  then obtain r' where "px_findUnique px i (wd_db (fst (process_all px destinations jobs (w, p)))) = Some r'"
    "status_moves (dr_status r) (dr_status r')"
    using assms(2) by (auto simp: option_rel_Some1)
  then show ?thesis by (auto simp: status_moves_def)
qed

subsection \<open>One failed transmission\<close>

lemma rec_record_cases:
  assumes laws: "prisma_laws px" and row: "px_findUnique px i d = Some r"
    and ok: "\<not> bad_response_status (ao_data a)"
  obtains d' where "fst (rec_record px now i (AttemptObj a) d) = d'"
    "px_findUnique px i d' = Some (r\<lparr> dr_retryCount := int (length (px_attemptsOf px i d)) + 1,
       dr_lastError := ad_errorMessage (ao_data a), dr_lastAttemptAt := Some now \<rparr>)"
    "px_attemptsOf px i d' = px_attemptsOf px i d @
       [attempt_row_of i (int (length (px_attemptsOf px i d)) + 1) (ao_data a)]"
proof (rule at_recordAttempt_cases [OF laws row ok, of now "int (length (px_attemptsOf px i d)) + 1"])
  fix d'
  let ?n = "int (length (px_attemptsOf px i d)) + 1"
  assume d': "at_recordAttempt px now i ?n (ao_data a) d = ret d'"
    "px_findUnique px i d' = Some (r\<lparr> dr_retryCount := ?n, dr_lastError := ad_errorMessage (ao_data a),
       dr_lastAttemptAt := Some now \<rparr>)"
    "\<And>j. px_attemptsOf px j d' = px_attemptsOf px j d @ (if j = i then [attempt_row_of i ?n (ao_data a)] else [])"
  show thesis by (rule that [OF _ d'(2)]) (simp_all add: rec_record_fst d'(1,3))
qed

definition failed_obj :: "surroundings \<Rightarrow> int option \<Rightarrow> worker_error \<Rightarrow> attempt_obj" where
  "failed_obj en recorded err = \<lparr> ao_statusCode = recorded, ao_responseStatus = None,
     ao_latencyMs = Some (en_finish en - en_start en), ao_responseTimeMs = None,
     ao_error = Some err, ao_errorMessage = None \<rparr>"

lemma failed_obj_data [simp]:
  "ad_responseStatus (ao_data (failed_obj en (Some c) err)) = Some (if c = 0 then 500 else c)"
  "bad_response_status (ao_data (failed_obj en (Some c) err)) \<longleftrightarrow> c \<noteq> 0 \<and> (c < 100 \<or> c > 599)"
  by (simp_all add: ao_data_def failed_obj_def bad_response_status_def)

lemma settle_failure_cases:
  assumes laws: "prisma_laws px" and row: "px_findUnique px i (wd_db w) = Some r"
    and status: "dr_status r = PROCESSING" and c: "100 \<le> c" "c \<le> 599"
  obtains w' r' where
    "settle_failure px en i k err (Some c) retryable w =
       (if retryable then ret w'
        else throw w' undefined_update)"
    "px_findUnique px i (wd_db w') = Some r'"
    "dr_status r' = (if retryable then SCHEDULED_RETRY else PROCESSING)"
    "retryable \<Longrightarrow> dr_nextRetryAt r' = Some (en_finish en + 5000)"
    "dr_retryCount r' = int (length (px_attemptsOf px i (wd_db w))) + 1"
    "px_attemptsOf px i (wd_db w') = px_attemptsOf px i (wd_db w) @
       [attempt_row_of i (int (length (px_attemptsOf px i (wd_db w))) + 1) (ao_data (failed_obj en (Some c) err))]"
    "wd_breakers w' = wd_breakers (on_breaker (br_recordFailure (en_finish en)) k w)"
    "wd_bulkheads w' = wd_bulkheads w"
proof -
  let ?a = "ao_data (failed_obj en (Some c) err)"
  let ?n = "int (length (px_attemptsOf px i (wd_db w))) + 1"
  let ?r = "r\<lparr> dr_retryCount := ?n, dr_lastError := ad_errorMessage ?a, dr_lastAttemptAt := Some (en_finish en) \<rparr>"
  let ?w1 = "on_breaker (br_recordFailure (en_finish en)) k w"
  obtain d1 where d1: "fst (rec_failure px (en_finish en) i (en_finish en - en_start en) (Some c) err (wd_db w)) = d1"
    "px_findUnique px i d1 = Some ?r"
    "px_attemptsOf px i d1 = px_attemptsOf px i (wd_db w) @ [attempt_row_of i ?n ?a]"
    using rec_record_cases [OF laws row, of "failed_obj en (Some c) err" "en_finish en"] c
    unfolding rec_failure_def failed_obj_def [symmetric] by auto
  have st: "dr_status ?r = PROCESSING" using status by simp
  show thesis
  proof (cases retryable)
    case True
    let ?f = "\<lambda>r. r\<lparr> dr_status := SCHEDULED_RETRY, dr_nextRetryAt := Some (en_finish en + 5000) \<rparr>"
    obtain d2 where d2: "update_delivery px NoArg i ?f d1 = ret d2" "px_findUnique px i d2 = Some (?f ?r)"
      "px_attemptsOf px i d2 = px_attemptsOf px i d1"
      by (rule update_delivery_cases [OF laws _ d1(2), of NoArg ?f]) simp_all
    then have "ds_scheduleRetry px (en_jest en) (en_finish en) i 5000 err d1 = ret d2"
      using d1(2) st by (simp add: ds_scheduleRetry_def ds_transition_def valid_transition_iff
          dl_scheduleRetry_def parseTx_def)
    then have "settle_failure px en i k err (Some c) retryable w = ret (?w1\<lparr> wd_db := d2 \<rparr>)"
      using True d1(1) by (simp add: settle_failure_def Let_def on_db_def ret_def)
    then show thesis using True d1 d2 by (intro that [of "?w1\<lparr> wd_db := d2 \<rparr>" "?f ?r"]) simp_all
  next
    case False
    have "ds_moveToDeadLetterQueue px (en_jest en) (en_finish en) i (we_message err) d1 =
      throw d1 undefined_update"
      using d1(2) st by (simp add: ds_moveToDeadLetterQueue_def ds_transition_def valid_transition_iff
          dl_updateStatus_def update_delivery_def)
    then have "settle_failure px en i k err (Some c) retryable w = throw (?w1\<lparr> wd_db := d1 \<rparr>) undefined_update"
      using False d1(1) by (simp add: settle_failure_def Let_def on_db_def throw_def)
    then show thesis using False d1 st by (intro that [of "?w1\<lparr> wd_db := d1 \<rparr>" ?r]) simp_all
  qed
qed

subsection \<open>One delivery through the executor\<close>

text \<open>The circuit breaker lets the delivery pass and the bulkhead gives it a slot.\<close>

definition admitted :: "surroundings \<Rightarrow> string \<Rightarrow> dest_config \<Rightarrow> 'd world \<Rightarrow> bool" where
  "admitted en k dest w \<longleftrightarrow>
     \<not> fst (mg_isOpen (en_start en) k (snd (mg_getOrCreateBreaker k emptyPartial (wd_breakers w)))) \<and>
     fst (acquire_slot en (lower (str_or (dc_type dest) ''WEBHOOK'')) (wd_bulkheads w)) = Inr ()"

definition started :: "delivery_row \<Rightarrow> delivery_row" where
  "started r = (if dr_status r \<in> {COMPLETED, FAILED_DLQ} then r else r\<lparr> dr_status := PROCESSING \<rparr>)"

lemma started_status [simp]:
  "dr_status (started r) = (if dr_status r \<in> {COMPLETED, FAILED_DLQ} then dr_status r else PROCESSING)"
  by (simp add: started_def)

lemma markProcessing_cases:
  assumes "prisma_laws px" "px_findUnique px i d = Some r"
  obtains d' where "fst (ds_markProcessing px jest i d) = d'"
    "px_findUnique px i d' = Some (started r)" "px_attemptsOf px i d' = px_attemptsOf px i d"
proof (cases "dr_status r \<in> {COMPLETED, FAILED_DLQ}")
  case True
  then have "fst (ds_markProcessing px jest i d) = d"
    using assms(2) by (auto simp: ds_markProcessing_def ds_transition_def valid_transition_iff)
  then show thesis using that True assms(2) by (simp add: started_def)
next
  case False
  show thesis
  proof (rule update_delivery_cases [OF assms(1) _ assms(2), of NoArg "\<lambda>r. r\<lparr> dr_status := PROCESSING \<rparr>"])
    fix d'
    assume d': "update_delivery px NoArg i (\<lambda>r. r\<lparr> dr_status := PROCESSING \<rparr>) d = ret d'"
      "px_findUnique px i d' = Some (r\<lparr> dr_status := PROCESSING \<rparr>)"
      "\<And>j. px_attemptsOf px j d' = px_attemptsOf px j d"
    have "ds_markProcessing px jest i d = ret d'"
      using False assms(2) d'(1) by (cases "dr_status r")
        (simp_all add: ds_markProcessing_def ds_transition_def valid_transition_iff dl_updateStatus_def)
    with False d' show thesis by (intro that [of d']) (simp_all add: started_def)
  qed simp
qed

text \<open>The executor's run of an admitted delivery, from the world its transmission starts in.\<close>

lemma execute_admitted:
  assumes laws: "prisma_laws px" and row: "px_findUnique px i (wd_db w) = Some r"
    and k: "dr_destinationId r = k" "k \<noteq> []" and dest: "destinations k = Some dest"
    and adm: "admitted en k dest w"
  obtains v where
    "px_findUnique px i (wd_db v) = Some (started r)"
    "px_attemptsOf px i (wd_db v) = px_attemptsOf px i (wd_db w)"
    "executeWithResilience px destinations en i None w =
       (case (case transmit px en i k (Some dest) v of
                (w1, Inl e) \<Rightarrow> handle_exception px en i k e w1
              | (w1, Inr x) \<Rightarrow> (w1, Inr x)) of
          (w2, x) \<Rightarrow> (w2\<lparr> wd_bulkheads :=
             release_slot (lower (str_or (dc_type dest) ''WEBHOOK'')) (wd_bulkheads w2) \<rparr>, x))"
proof -
  let ?pool = "lower (str_or (dc_type dest) ''WEBHOOK'')"
  let ?mg = "snd (mg_isOpen (en_start en) k (snd (mg_getOrCreateBreaker k emptyPartial (wd_breakers w))))"
  obtain d1 where d1: "fst (ds_markProcessing px (en_jest en) i (wd_db w)) = d1"
    "px_findUnique px i d1 = Some (started r)"
    "px_attemptsOf px i d1 = px_attemptsOf px i (wd_db w)"
    using markProcessing_cases [OF laws row] by metis
  obtain m where slot: "acquire_slot en ?pool (wd_bulkheads w) = (Inr (), m)"
    using adm by (cases "acquire_slot en ?pool (wd_bulkheads w)") (simp add: admitted_def)
  have mg: "\<not> fst (mg_isOpen (en_start en) k (snd (mg_getOrCreateBreaker k emptyPartial (wd_breakers w))))"
    using adm by (simp add: admitted_def)
  let ?v = "w\<lparr> wd_db := d1, wd_breakers := ?mg, wd_bulkheads := m \<rparr>"
  have "executeWithResilience px destinations en i None w =
      protected_transmit px en i k (Some dest) ?pool (w\<lparr> wd_db := d1, wd_breakers := ?mg \<rparr>)"
    using row k dest mg d1(1)
    by (simp add: executeWithResilience_def Let_def on_db_def case_prod_beta)
  with slot show thesis
    by (intro that [of ?v]) (simp_all add: d1 protected_transmit_def)
qed

subsection \<open>An example\<close>

definition example_dest :: "string \<Rightarrow> dest_config" where
  "example_dest ty = \<lparr> dc_id = ''w1'', dc_type = Some ty, dc_endpoint = Some ''https://h'', dc_timeout = None,
     dc_mainQueue = False \<rparr>"

definition example_surroundings :: "worker_error + int option \<Rightarrow> surroundings" where
  "example_surroundings post = \<lparr> en_start = 1000, en_finish = 1500, en_post = post, en_add = None,
     en_insert = None, en_logEvent = None, en_load = None, en_waiter = 0, en_served = False, en_jest = False \<rparr>"

definition example_world :: "DeliveryStatus \<Rightarrow> CircuitBreaker option \<Rightarrow> tables world" where
  "example_world s b = \<lparr> wd_db = example_tables s,
     wd_breakers = \<lparr> mg_breakers = (case b of None \<Rightarrow> [] | Some x \<Rightarrow> [(''w1'', x)]), mg_defaultConfig = NoConfig \<rparr>,
     wd_bulkheads = \<lparr> bg_bulkheads = [], bg_config = no_override \<rparr> \<rparr>"

lemma example_row_found [simp]:
  "px_findUnique tables_prisma ''d1'' (wd_db (example_world s b)) = Some (example_row s)"
  "px_attemptsOf tables_prisma ''d1'' (wd_db (example_world s b)) = []"
  by (simp_all add: tables_prisma_def example_world_def example_tables_def mget_def)

lemma example_fields [simp]:
  "dr_status (example_row s) = s" "dr_destinationId (example_row s) = ''w1''"
  "en_load (example_surroundings post) = None" "en_post (example_surroundings post) = post"
  "en_start (example_surroundings post) = 1000" "en_finish (example_surroundings post) = 1500"
  by (simp_all add: example_row_def example_surroundings_def)

lemma example_admitted: "admitted (example_surroundings post) ''w1'' (example_dest ''WEBHOOK'') (example_world s None)"
  by (simp add: admitted_def) code_simp

lemma example_connector:
  "factory_create (Some (example_dest ''WEBHOOK'')) = Inr (WebhookConnector (example_dest ''WEBHOOK''))"
  by code_simp

text \<open>A webhook delivery that the endpoint refuses for good (a 4xx other than 408 and 429, as the
  error axios throws) is not dead-lettered but scheduled for a retry in five seconds: moving it to the
  dead letter queue throws an internal error, and the executor's \<open>catch\<close> takes that one for
  transient. The one transmission counts as two attempts, the second with status 500, and reports
  \<open>TRANSIENT\<close>.\<close>
theorem permanent_failures_are_retried:
  assumes "prisma_laws px" "px_findUnique px i (wd_db w) = Some r"
    and "dr_status r \<notin> {COMPLETED, FAILED_DLQ}" "dr_destinationId r = k" "k \<noteq> []"
    and "destinations k = Some dest" "factory_create (Some dest) = Inr (WebhookConnector dest)"
    and "admitted en k dest w" "en_load en = None"
    and "en_post en = Inl err" "we_statusCode err = None" "we_status err = Some c" "http_permanent c"
  shows "\<exists>w' x r' a1 a2. executeWithResilience px destinations en i None w = (w', Inr x) \<and>
     \<not> er_success x \<and> er_errorCategory x = Some CTransient \<and>
     px_findUnique px i (wd_db w') = Some r' \<and> dr_status r' = SCHEDULED_RETRY \<and>
     dr_nextRetryAt r' = Some (en_finish en + 5000) \<and>
     px_attemptsOf px i (wd_db w') = px_attemptsOf px i (wd_db w) @ [a1, a2] \<and>
     ar_responseStatus a1 = Some c \<and> ar_responseStatus a2 = Some 500 \<and>
     dr_retryCount r' = int (length (px_attemptsOf px i (wd_db w))) + 2"
proof -
  let ?ie = undefined_update
  have c: "100 \<le> c" "c \<le> 599" "c \<noteq> 0" using assms(13) by (auto simp: http_permanent_def)
  obtain v where v: "px_findUnique px i (wd_db v) = Some (started r)"
    "px_attemptsOf px i (wd_db v) = px_attemptsOf px i (wd_db w)"
    "executeWithResilience px destinations en i None w =
       (case (case transmit px en i k (Some dest) v of
                (w1, Inl e) \<Rightarrow> handle_exception px en i k e w1
              | (w1, Inr x) \<Rightarrow> (w1, Inr x)) of
          (w2, x) \<Rightarrow> (w2\<lparr> wd_bulkheads :=
             release_slot (lower (str_or (dc_type dest) ''WEBHOOK'')) (wd_bulkheads w2) \<rparr>, x))"
    by (rule execute_admitted [where destinations = destinations, OF assms(1,2,4,5) assms(6,8)])
  have cl: "snd (classify (Some err) (Some c)) = False"
    using assms(13) by (auto simp: classify_def getRetryable_def getCategory_def pick_code_def
        http_permanent_def Let_def)
  obtain w1 r1 where w1: "settle_failure px en i k err (Some c) False v = throw w1 ?ie"
    "px_findUnique px i (wd_db w1) = Some r1" "dr_status r1 = PROCESSING"
    "px_attemptsOf px i (wd_db w1) = px_attemptsOf px i (wd_db v) @
       [attempt_row_of i (int (length (px_attemptsOf px i (wd_db v))) + 1) (ao_data (failed_obj en (Some c) err))]"
    by (rule settle_failure_cases [OF assms(1) v(1) _ c(1,2), of en k err False]) (use assms(3) in auto)
  have t: "transmit px en i k (Some dest) v = (w1, Inl ?ie)"
    using assms(7,9-12) c(3) cl w1(1)
    by (simp add: transmit_def Let_def connector_execute_def webhook_execute_def)
  have cl2: "classify (Some ?ie) None = (CTransient, True)" "num_or (we_statusCode ?ie) 500 = 500"
    by (simp_all add: classify_def getRetryable_def getCategory_def pick_code_def Let_def undefined_update_fields)
  obtain w2 r2 where w2: "settle_failure px en i k ?ie (Some 500) True w1 = ret w2"
    "px_findUnique px i (wd_db w2) = Some r2" "dr_status r2 = SCHEDULED_RETRY"
    "dr_nextRetryAt r2 = Some (en_finish en + 5000)"
    "dr_retryCount r2 = int (length (px_attemptsOf px i (wd_db w1))) + 1"
    "px_attemptsOf px i (wd_db w2) = px_attemptsOf px i (wd_db w1) @
       [attempt_row_of i (int (length (px_attemptsOf px i (wd_db w1))) + 1) (ao_data (failed_obj en (Some 500) ?ie))]"
    by (rule settle_failure_cases [OF assms(1) w1(2,3), of 500 en k ?ie True]) auto
  have "handle_exception px en i k ?ie w1 = (w2, Inr \<lparr> er_success = False, er_statusCode = None,
      er_latencyMs = en_finish en - en_start en, er_error = Some ?ie, er_errorCategory = Some CTransient \<rparr>)"
    by (simp add: handle_exception_def cl2 w2(1))
  then show ?thesis
    using c(3) by (simp add: v(2,3) t w1(4) w2 attempt_row_of_def)
qed

theorem permanent_failures_are_retried_witness:
  "\<exists>w' x r'. executeWithResilience tables_prisma (\<lambda>_. Some (example_dest ''WEBHOOK''))
       (example_surroundings (Inl ((js_Error ''AxiosError'' ''Request failed with status code 404'')\<lparr> we_status := Some 404 \<rparr>)))
       ''d1'' None (example_world PENDING None) = (w', Inr x) \<and>
     px_findUnique tables_prisma ''d1'' (wd_db w') = Some r' \<and> dr_status r' = SCHEDULED_RETRY \<and> dr_retryCount r' = 2"
proof -
  let ?e = "(js_Error ''AxiosError'' ''Request failed with status code 404'')\<lparr> we_status := Some 404 \<rparr>"
  show ?thesis
    using permanent_failures_are_retried [where px = tables_prisma and i = "''d1''" and k = "''w1''"
        and w = "example_world PENDING None" and r = "example_row PENDING" and c = 404 and err = ?e
        and destinations = "\<lambda>_. Some (example_dest ''WEBHOOK'')" and dest = "example_dest ''WEBHOOK''"
        and en = "example_surroundings (Inl ?e)",
        OF tables_prisma_laws]
    by (auto simp: example_connector example_admitted js_Error_def http_permanent_def)
qed



theorem worker_never_dead_letters_witness:
  "\<exists>r'. px_findUnique tables_prisma ''d1'' (wd_db (fst (process_all tables_prisma (\<lambda>_. None)
       [(example_surroundings (Inr (Some 404)), Some \<lparr> jb_id = None, jb_deliveryId = None, jb_data = Some [(''deliveryId'', ''d1'')] \<rparr>)]
       (example_world PENDING None, JobProcessor_new)))) = Some r' \<and> dr_status r' \<noteq> FAILED_DLQ"
  using worker_never_dead_letters [OF tables_prisma_laws, of "''d1''" "example_world PENDING None" "example_row PENDING"
      "\<lambda>_. None" _ JobProcessor_new] by (auto simp del: process_all.simps)

subsection \<open>Deliveries that are lost\<close>

text \<open>C23: While a destination's circuit is open, a job for it moves its delivery to \<open>PROCESSING\<close> and
  stops there: no attempt, no retry time, the bulkheads untouched. The job processor nevertheless
  reports \<open>SCHEDULED_RETRY\<close>.\<close>
theorem open_circuit_strands_delivery:
  assumes "prisma_laws px" "px_findUnique px i (wd_db w) = Some r"
    and "dr_status r \<notin> {COMPLETED, FAILED_DLQ}" "dr_destinationId r = k" "k \<noteq> []"
    and "fst (mg_isOpen (en_start en) k (snd (mg_getOrCreateBreaker k emptyPartial (wd_breakers w))))"
    and "jp_validate (Some jb) = Inr ()" "job_delivery_id jb = i"
  shows "\<exists>w' p'. processJob px destinations en (Some jb) (w, p) = ((w', p'), Inr (i, SCHEDULED_RETRY)) \<and>
     px_findUnique px i (wd_db w') = Some (r\<lparr> dr_status := PROCESSING \<rparr>) \<and>
     px_attemptsOf px i (wd_db w') = px_attemptsOf px i (wd_db w) \<and>
     wd_bulkheads w' = wd_bulkheads w \<and> jp_failed p' = jp_failed p + 1"
proof -
  obtain d1 where d1: "fst (ds_markProcessing px (en_jest en) i (wd_db w)) = d1"
    "px_findUnique px i d1 = Some (started r)" "px_attemptsOf px i d1 = px_attemptsOf px i (wd_db w)"
    by (rule markProcessing_cases [OF assms(1,2), of "en_jest en"])
  obtain x where x: "executeWithResilience px destinations en i None w =
      (w\<lparr> wd_db := d1, wd_breakers := snd (mg_isOpen (en_start en) k
         (snd (mg_getOrCreateBreaker k emptyPartial (wd_breakers w)))) \<rparr>, Inr x)"
    "\<not> er_success x" "er_errorCategory x = Some CTransient"
    using assms(2,4-6) d1(1)
    by (simp add: executeWithResilience_def Let_def on_db_def case_prod_beta)
  show ?thesis
    using x(2,3) assms(3) by (simp add: processJob_def assms(7,8) x(1) jp_settle_def jp_enter_def jp_leave_def
        d1(2,3) started_def)
qed

text \<open>A delivery that a worker left in \<open>PROCESSING\<close> is not recovered by the stale job detector: the
  row goes back to \<open>PENDING\<close>, but the job put on the queue carries no delivery id, so the job
  processor takes the queue's own job id for it, finds no such delivery, changes nothing and
  reports \<open>FAILED_DLQ\<close> for a delivery that does not exist.\<close>
theorem stale_delivery_is_lost:
  assumes "prisma_laws px" "px_findUnique px i d = Some r" "dr_taskResultId r \<noteq> []"
    and "q \<noteq> []" "px_findUnique px q d = None" "sd_recover px (Inr q) i d = (d', js)"
  shows "map_option dr_status (px_findUnique px i d') = Some PENDING \<and>
     (\<exists>j. js = [j] \<and> (\<forall>destinations en p w. wd_db w = d' \<longrightarrow>
        fst (fst (processJob px destinations en (Some j) (w, p))) = w \<and>
        snd (processJob px destinations en (Some j) (w, p)) = Inr (q, FAILED_DLQ)))"
proof -
  have js: "js = [stale_job r q]" and d': "d' = fst (markAsStale px i d)"
    using assms(2,6) by (simp_all add: sd_recover_def)
  obtain d1 where d1: "update_delivery px NoArg i (\<lambda>r. r\<lparr> dr_status := PENDING \<rparr>) d = ret d1"
    "px_findUnique px i d1 = Some (r\<lparr> dr_status := PENDING \<rparr>)"
    by (rule update_delivery_cases [OF assms(1) _ assms(2), of NoArg "\<lambda>r. r\<lparr> dr_status := PENDING \<rparr>"]) simp_all
  have eq: "markAsStale px i d = update_delivery px NoArg i (\<lambda>r. r\<lparr> dr_status := PENDING \<rparr>) d"
    by (simp add: markAsStale_def dl_updateDeliveryStatus_def dl_updateStatus_def parseTx_def)
  have "i \<noteq> q" using assms(2,5) by auto
  then have "px_findUnique px q d' = None"
    using update_delivery_frame [OF assms(1), of q i NoArg "\<lambda>r. r\<lparr> dr_status := PENDING \<rparr>" d] assms(5)
    by (simp add: d' eq)
  moreover have "job_delivery_id (stale_job r q) = q" "jp_validate (Some (stale_job r q)) = Inr ()"
    using assms(3,4) by (simp_all add: job_delivery_id_def jp_validate_def stale_job_def data_field_def mget_def)
  ultimately show ?thesis
    by (simp add: js d' eq d1 processJob_def executeWithResilience_def jp_settle_def)
qed

theorem open_circuit_strands_delivery_witness:
  "\<exists>w' p'. processJob tables_prisma (\<lambda>_. None) (example_surroundings (Inr None))
       (Some \<lparr> jb_id = None, jb_deliveryId = None, jb_data = Some [(''deliveryId'', ''d1'')] \<rparr>)
       (example_world PENDING (Some (example_breaker OPEN (Some 900))), JobProcessor_new) =
       ((w', p'), Inr (''d1'', SCHEDULED_RETRY)) \<and>
     px_findUnique tables_prisma ''d1'' (wd_db w') = Some (example_row PROCESSING)"
proof -
  let ?j = "\<lparr> jb_id = None, jb_deliveryId = None, jb_data = Some [(''deliveryId'', ''d1'')] \<rparr>"
  have "job_delivery_id ?j = ''d1''" "jp_validate (Some ?j) = Inr ()"
    by (simp_all add: job_delivery_id_def jp_validate_def data_field_def mget_def)
  moreover have "fst (mg_isOpen 1000 ''w1'' (snd (mg_getOrCreateBreaker ''w1'' emptyPartial
      (wd_breakers (example_world PENDING (Some (example_breaker OPEN (Some 900))))))))"
    by code_simp
  moreover have "(example_row PENDING)\<lparr> dr_status := PROCESSING \<rparr> = example_row PROCESSING"
    by (simp add: example_row_def)
  ultimately show ?thesis
    using open_circuit_strands_delivery [OF tables_prisma_laws, of "''d1''"
        "example_world PENDING (Some (example_breaker OPEN (Some 900)))" "example_row PENDING" "''w1''"
        "example_surroundings (Inr None)" ?j "\<lambda>_. None" JobProcessor_new]
    by auto
qed

theorem stale_delivery_is_lost_witness:
  "\<exists>d' js. sd_recover tables_prisma (Inr ''42'') ''d1'' (example_tables PROCESSING) = (d', js) \<and>
     map_option dr_status (px_findUnique tables_prisma ''d1'' d') = Some PENDING \<and> length js = 1"
proof -
  have "px_findUnique tables_prisma ''d1'' (example_tables PROCESSING) = Some (example_row PROCESSING)"
    "px_findUnique tables_prisma ''42'' (example_tables PROCESSING) = None"
    "dr_taskResultId (example_row PROCESSING) \<noteq> []"
    by (simp_all add: tables_prisma_def example_tables_def mget_def example_row_def)
  then show ?thesis
    using stale_delivery_is_lost [OF tables_prisma_laws, of "''d1''" "example_tables PROCESSING" "example_row PROCESSING" "''42''"
        "fst (sd_recover tables_prisma (Inr ''42'') ''d1'' (example_tables PROCESSING))"
        "snd (sd_recover tables_prisma (Inr ''42'') ''d1'' (example_tables PROCESSING))"]
    by (intro exI [of _ "fst (sd_recover tables_prisma (Inr ''42'') ''d1'' (example_tables PROCESSING))"]
        exI [of _ "snd (sd_recover tables_prisma (Inr ''42'') ''d1'' (example_tables PROCESSING))"]) auto
qed

subsection \<open>Slots and isolation\<close>

lemma settle_failure_bulkheads [simp]:
  "wd_bulkheads (fst (settle_failure px en i k err recorded retryable w)) = wd_bulkheads w"
  by (simp add: settle_failure_def Let_def)

lemma handle_exception_bulkheads [simp]:
  "wd_bulkheads (fst (handle_exception px en i k err w)) = wd_bulkheads w"
  by (simp add: handle_exception_def Let_def)

lemma transmit_bulkheads [simp]:
  "wd_bulkheads (fst (transmit px en i k destination w)) = wd_bulkheads w"
proof (cases "\<exists>c res. factory_create destination = Inr c \<and> en_load en = None \<and> connector_execute c en = Inr res")
  case True
  then obtain c res where "factory_create destination = Inr c" "en_load en = None" "connector_execute c en = Inr res"
    by blast
  then show ?thesis by (cases "cr_success res") (simp_all add: transmit_def Let_def)
next
  case False
  then have "\<exists>e. transmit px en i k destination w = (w, Inl e)" by (rule transmit_unconnected)
  then show ?thesis by auto
qed

text \<open>What the \<open>try\<close> with its \<open>finally\<close> does to the bulkheads: take a slot and, if it was granted, give
  one back.\<close>

lemma protected_transmit_bulkheads:
  "wd_bulkheads (fst (protected_transmit px en i k destination poolName w)) =
     (case acquire_slot en poolName (wd_bulkheads w) of
        (Inl _, m) \<Rightarrow> m | (Inr _, m) \<Rightarrow> release_slot poolName m)"
proof (cases "acquire_slot en poolName (wd_bulkheads w)")
  case (Pair a m)
  obtain w1 r where t: "transmit px en i k destination (w\<lparr> wd_bulkheads := m \<rparr>) = (w1, r)" by fastforce
  then have "wd_bulkheads w1 = m"
    using transmit_bulkheads [of px en i k destination "w\<lparr> wd_bulkheads := m \<rparr>"] by simp
  with Pair t show ?thesis
    by (cases a; cases r) (simp_all add: protected_transmit_def case_prod_beta)
qed

lemma bg_store_get [simp]:
  "mget (bg_bulkheads (bg_store n b m)) k = (if k = n then Some b else mget (bg_bulkheads m) k)"
  "bg_config (bg_store n b m) = bg_config m"
  by (simp_all add: bg_store_def)

lemma getBulkhead_other:
  "bg_getBulkhead n m = Inr (b, m1) \<Longrightarrow> k \<noteq> n \<Longrightarrow> mget (bg_bulkheads m1) k = mget (bg_bulkheads m) k"
  by (auto simp: bg_getBulkhead_def bg_createBulkhead_def Let_def split: option.splits)

lemma acquire_slot_error:
  "bg_getBulkhead n m = Inl e \<Longrightarrow> acquire_slot en n m = (Inl (js_Error ''Error'' e), m)"
  by (simp add: acquire_slot_def bg_acquire_def)

lemma acquire_slot_found:
  assumes "bg_getBulkhead n m = Inr (b, m1)" "pl_tryAcquire (en_waiter en) (bc_timeout (bh_config b)) (bh_pool b) = (granted, p)"
  shows "acquire_slot en n m =
     (if granted then (Inr (), bg_store n (b\<lparr> bh_pool := p \<rparr>) m1)
      else (if en_served en then Inr () else Inl (bulkhead_full_error n),
            bg_store n (b\<lparr> bh_pool := pl_timerFires (en_waiter en) p \<rparr>) (bg_store n (b\<lparr> bh_pool := p \<rparr>) m1)))"
  using assms by (simp add: acquire_slot_def bg_acquire_def)

lemma release_slot_found:
  assumes "bg_getBulkhead n m = Inr (b, m1)"
  shows "release_slot n m = bg_store n (b\<lparr> bh_pool := snd (pl_release (bh_pool b)) \<rparr>) m1"
  using assms by (simp add: release_slot_def bg_release_def case_prod_beta)

lemma acquire_slot_other:
  assumes "k \<noteq> n"
  shows "mget (bg_bulkheads (snd (acquire_slot en n m))) k = mget (bg_bulkheads m) k"
proof (cases "bg_getBulkhead n m")
  case (Inl e)
  then show ?thesis by (simp add: acquire_slot_error)
next
  case (Inr bm)
  obtain b m1 where bm: "bm = (b, m1)" by fastforce
  obtain g p where "pl_tryAcquire (en_waiter en) (bc_timeout (bh_config b)) (bh_pool b) = (g, p)" by fastforce
  from acquire_slot_found [OF Inr [unfolded bm] this] getBulkhead_other [OF Inr [unfolded bm] assms] assms
  show ?thesis by simp
qed

lemma release_slot_other:
  assumes "k \<noteq> n"
  shows "mget (bg_bulkheads (release_slot n m)) k = mget (bg_bulkheads m) k"
proof (cases "bg_getBulkhead n m")
  case (Inl e)
  then show ?thesis by (simp add: release_slot_def bg_release_def)
next
  case (Inr bm)
  obtain b m1 where bm: "bm = (b, m1)" by fastforce
  from release_slot_found [OF Inr [unfolded bm]] getBulkhead_other [OF Inr [unfolded bm] assms] assms
  show ?thesis by simp
qed

lemma remove_own_request:
  "w \<notin> wa_id ` set q \<Longrightarrow> remove_waiter w (q @ [\<lparr> wa_id = w, wa_timer = True \<rparr>]) = q"
  by (induction q) auto

text \<open>Taking and giving back, or waiting in vain, leaves the bulkhead as it was.\<close>

lemma slot_returned:
  assumes get: "bg_getBulkhead n m = Inr (b, m1)" and served: "\<not> en_served en"
    and inv: "pl_inv (bh_pool b)" and timer: "bc_timeout (bh_config b) > 0"
    and fresh: "en_waiter en \<notin> wa_id ` set (pl_queue (bh_pool b))"
  shows "mget (bg_bulkheads (case acquire_slot en n m of (Inl _, m2) \<Rightarrow> m2 | (Inr _, m2) \<Rightarrow> release_slot n m2)) n = Some b"
proof (cases "pl_inUse (bh_pool b) < pl_maxSize (bh_pool b)")
  case True
  let ?p = "(bh_pool b)\<lparr> pl_inUse := pl_inUse (bh_pool b) + 1 \<rparr>"
  let ?b = "b\<lparr> bh_pool := ?p \<rparr>"
  have "pl_queue (bh_pool b) = []" "0 \<le> pl_inUse (bh_pool b)" using inv True by (auto simp: pl_inv_def)
  then have returned: "snd (pl_release ?p) = bh_pool b" by (simp add: pl_release_def Let_def)
  have acq: "acquire_slot en n m = (Inr (), bg_store n ?b m1)"
    using acquire_slot_found [OF get] True by (simp add: pl_tryAcquire_def)
  have "bg_getBulkhead n (bg_store n ?b m1) = Inr (?b, bg_store n ?b m1)"
    by (simp add: bg_getBulkhead_def)
  from release_slot_found [OF this] acq returned show ?thesis by simp
next
  case False
  then have "acquire_slot en n m = (Inl (bulkhead_full_error n), bg_store n b
      (bg_store n (b\<lparr> bh_pool := (bh_pool b)\<lparr> pl_queue := pl_queue (bh_pool b) @ [\<lparr> wa_id = en_waiter en, wa_timer = True \<rparr>] \<rparr> \<rparr>) m1))"
    using acquire_slot_found [OF get] timer served remove_own_request [OF fresh]
    by (simp add: pl_tryAcquire_def pl_timerFires_def)
  then show ?thesis by simp
qed

text \<open>The bulkheads after a run of the executor: untouched, or one slot of the pool named by the
  destination's type in lower case taken and given back.\<close>

lemma execute_bulkheads:
  obtains "wd_bulkheads (fst (executeWithResilience px destinations en i a w)) = wd_bulkheads w"
  | ty where "wd_bulkheads (fst (executeWithResilience px destinations en i a w)) =
     (case acquire_slot en (lower ty) (wd_bulkheads w) of
        (Inl _, m) \<Rightarrow> m | (Inr _, m) \<Rightarrow> release_slot (lower ty) m)"
proof (cases "px_findUnique px i (wd_db w)")
  case None
  then show thesis by (intro that(1)) (simp add: executeWithResilience_def)
next
  case (Some r)
  let ?k = "str_or (Some (dr_destinationId r)) (case a of Some x \<Rightarrow> dc_id x | None \<Rightarrow> ''unknown'')"
  let ?open = "fst (mg_isOpen (en_start en) ?k (snd (mg_getOrCreateBreaker ?k emptyPartial (wd_breakers w))))"
  let ?dest = "case a of Some x \<Rightarrow> Some x | None \<Rightarrow> destinations ?k"
  show thesis
  proof (cases ?open)
    case True
    with Some show thesis
      by (intro that(1)) (simp add: executeWithResilience_def Let_def case_prod_beta del: str_or_simps)
  next
    case False
    with Some show thesis
      by (intro that(2) [of "case ?dest of None \<Rightarrow> ''WEBHOOK'' | Some x \<Rightarrow> str_or (dc_type x) ''WEBHOOK''"])
        (simp add: executeWithResilience_def Let_def case_prod_beta protected_transmit_bulkheads del: str_or_simps)
  qed
qed

text \<open>Whatever happens to a delivery, a run of the executor that is not handed another holder's slot
  leaves every bulkhead with the slots in use and the queue it had: the slot taken is given back on
  success, failure and exception, and a request that timed out leaves the queue.\<close>
theorem executor_returns_its_slot:
  assumes "\<not> en_served en" "mget (bg_bulkheads (wd_bulkheads w)) n = Some b"
    and "pl_inv (bh_pool b)" "bc_timeout (bh_config b) > 0"
    and "en_waiter en \<notin> wa_id ` set (pl_queue (bh_pool b))"
  shows "mget (bg_bulkheads (wd_bulkheads (fst (executeWithResilience px destinations en i a w)))) n = Some b"
proof (rule execute_bulkheads [of px destinations en i a w])
  assume "wd_bulkheads (fst (executeWithResilience px destinations en i a w)) = wd_bulkheads w"
  with assms(2) show ?thesis by simp
next
  fix ty
  assume eq: "wd_bulkheads (fst (executeWithResilience px destinations en i a w)) =
     (case acquire_slot en (lower ty) (wd_bulkheads w) of (Inl _, m) \<Rightarrow> m | (Inr _, m) \<Rightarrow> release_slot (lower ty) m)"
  show ?thesis
  proof (cases "n = lower ty")
    case True
    have "bg_getBulkhead n (wd_bulkheads w) = Inr (b, wd_bulkheads w)"
      using assms(2) by (simp add: bg_getBulkhead_def)
    from slot_returned [OF this assms(1,3-5)] show ?thesis unfolding eq True [symmetric] .
  next
    case False
    obtain x m where acq: "acquire_slot en (lower ty) (wd_bulkheads w) = (x, m)" by fastforce
    with acquire_slot_other [OF False, of en "wd_bulkheads w"] assms(2)
    have "mget (bg_bulkheads m) n = Some b" by simp
    with release_slot_other [OF False, of m] show ?thesis
      by (cases x) (simp_all add: eq acq)
  qed
qed

lemma fresh_manager:
  "BulkheadManager_new no_override = Inr m \<Longrightarrow>
     map_option (\<lambda>b. pl_maxSize (bh_pool b)) (mget (bg_bulkheads m) ''DATABASE'') = Some 50 \<and>
     (\<exists>b. bg_getBulkhead ''database'' m = Inr (b, bg_store ''database'' b m) \<and> pl_maxSize (bh_pool b) = 20 \<and>
       pl_inv (bh_pool b) \<and> bc_timeout (bh_config b) > 0 \<and> pl_queue (bh_pool b) = [] \<and> pl_inUse (bh_pool b) = 0)"
  by (auto simp: BulkheadManager_new_def bg_createBulkhead_def bg_getBulkhead_def bg_store_def no_override_def
      Bulkhead_new_def ResourcePool_new_def Let_def guardE_def pl_inv_def mget_def mset_at_def)

text \<open>The bulkhead registered for a destination type is never used: the executor lower-cases the type
  for the pool's name, so a database delivery leaves the 50 slots of \<open>DATABASE\<close> alone and runs in a
  pool \<open>database\<close> made on the spot with the default of 20.\<close>
theorem registered_bulkhead_is_bypassed:
  assumes "BulkheadManager_new no_override = Inr (wd_bulkheads w)" "\<not> en_served en"
    and "px_findUnique px i (wd_db w) = Some r" "dr_destinationId r = k" "k \<noteq> []"
    and "destinations k = Some dest" "dc_type dest = Some ''DATABASE''" "admitted en k dest w"
  shows "\<exists>b b' m'. wd_bulkheads (fst (executeWithResilience px destinations en i None w)) = m' \<and>
     mget (bg_bulkheads (wd_bulkheads w)) ''DATABASE'' = Some b \<and> pl_maxSize (bh_pool b) = 50 \<and>
     mget (bg_bulkheads m') ''DATABASE'' = Some b \<and>
     mget (bg_bulkheads m') ''database'' = Some b' \<and> pl_maxSize (bh_pool b') = 20"
proof -
  have low: "lower ''DATABASE'' = ''database''" by code_simp
  obtain b where b: "mget (bg_bulkheads (wd_bulkheads w)) ''DATABASE'' = Some b" "pl_maxSize (bh_pool b) = 50"
    using fresh_manager [OF assms(1)] by auto
  obtain b' where b': "bg_getBulkhead ''database'' (wd_bulkheads w) = Inr (b', bg_store ''database'' b' (wd_bulkheads w))"
    "pl_maxSize (bh_pool b') = 20" "pl_inv (bh_pool b')" "bc_timeout (bh_config b') > 0" "pl_queue (bh_pool b') = []"
    using fresh_manager [OF assms(1)] by auto
  let ?m = "wd_bulkheads (fst (executeWithResilience px destinations en i None w))"
  have "\<not> fst (mg_isOpen (en_start en) k (snd (mg_getOrCreateBreaker k emptyPartial (wd_breakers w))))"
    using assms(8) by (simp add: admitted_def)
  then have eq: "?m = (case acquire_slot en ''database'' (wd_bulkheads w) of
      (Inl _, m) \<Rightarrow> m | (Inr _, m) \<Rightarrow> release_slot ''database'' m)"
    using assms(3-7)
    by (simp add: executeWithResilience_def Let_def case_prod_beta protected_transmit_bulkheads low del: lower_simps)
  have "mget (bg_bulkheads ?m) ''database'' = Some b'"
    using slot_returned [OF b'(1) assms(2) b'(3,4)] b'(5) by (simp add: eq)
  moreover have "mget (bg_bulkheads ?m) ''DATABASE'' = Some b"
  proof -
    obtain x m where acq: "acquire_slot en ''database'' (wd_bulkheads w) = (x, m)" by fastforce
    with acquire_slot_other [of "''DATABASE''" "''database''" en "wd_bulkheads w"] b(1)
    have "mget (bg_bulkheads m) ''DATABASE'' = Some b" by simp
    with release_slot_other [of "''DATABASE''" "''database''" m] show ?thesis
      by (cases x) (simp_all add: eq acq)
  qed
  ultimately show ?thesis using b b'(2) by blast
qed

theorem executor_returns_its_slot_witness:
  "\<exists>m b. BulkheadManager_new no_override = Inr m \<and> mget (bg_bulkheads m) ''WEBHOOK'' = Some b \<and>
     mget (bg_bulkheads (wd_bulkheads (fst (executeWithResilience tables_prisma (\<lambda>_. Some (example_dest ''WEBHOOK''))
       (example_surroundings (Inr (Some 500))) ''d1'' None
       ((example_world PENDING None)\<lparr> wd_bulkheads := m \<rparr>))))) ''WEBHOOK'' = Some b"
proof -
  have "\<exists>m b. BulkheadManager_new no_override = Inr m \<and> mget (bg_bulkheads m) ''WEBHOOK'' = Some b \<and>
      pl_inv (bh_pool b) \<and> bc_timeout (bh_config b) > 0 \<and> pl_queue (bh_pool b) = []"
    by (simp add: BulkheadManager_new_def bg_createBulkhead_def no_override_def
        Bulkhead_new_def ResourcePool_new_def Let_def guardE_def pl_inv_def mget_def mset_at_def)
  then obtain m b where m: "BulkheadManager_new no_override = Inr m" "mget (bg_bulkheads m) ''WEBHOOK'' = Some b"
    "pl_inv (bh_pool b)" "bc_timeout (bh_config b) > 0" "pl_queue (bh_pool b) = []"
    by blast
  have "mget (bg_bulkheads (wd_bulkheads (fst (executeWithResilience tables_prisma (\<lambda>_. Some (example_dest ''WEBHOOK''))
       (example_surroundings (Inr (Some 500))) ''d1'' None
       ((example_world PENDING None)\<lparr> wd_bulkheads := m \<rparr>))))) ''WEBHOOK'' = Some b"
    by (rule executor_returns_its_slot) (simp_all add: example_surroundings_def m)
  with m show ?thesis by blast
qed

theorem registered_bulkhead_is_bypassed_witness:
  "\<exists>m m' b'. BulkheadManager_new no_override = Inr m \<and>
     wd_bulkheads (fst (executeWithResilience tables_prisma (\<lambda>_. Some (example_dest ''DATABASE''))
       (example_surroundings (Inr None)) ''d1'' None ((example_world PENDING None)\<lparr> wd_bulkheads := m \<rparr>))) = m' \<and>
     mget (bg_bulkheads m') ''database'' = Some b' \<and> pl_maxSize (bh_pool b') = 20"
proof -
  obtain m where m: "BulkheadManager_new no_override = Inr m"
    by (simp add: BulkheadManager_new_def bg_createBulkhead_def no_override_def
        Bulkhead_new_def ResourcePool_new_def Let_def guardE_def)
  let ?w = "(example_world PENDING None)\<lparr> wd_bulkheads := m \<rparr>"
  let ?en = "example_surroundings (Inr None)"
  obtain b where b: "bg_getBulkhead ''database'' m = Inr (b, bg_store ''database'' b m)" "pl_maxSize (bh_pool b) = 20"
    "pl_inUse (bh_pool b) = 0"
    using fresh_manager [OF m] by auto
  have low: "lower ''DATABASE'' = ''database''" by code_simp
  have "\<not> fst (mg_isOpen 1000 ''w1'' (snd (mg_getOrCreateBreaker ''w1'' emptyPartial (wd_breakers (example_world PENDING None)))))"
    by code_simp
  then have adm: "admitted ?en ''w1'' (example_dest ''DATABASE'') ?w"
    using acquire_slot_found [OF b(1)] b(2,3) low
    by (simp add: admitted_def example_dest_def pl_tryAcquire_def del: lower_simps)
  have "\<exists>b0 b' m'. wd_bulkheads (fst (executeWithResilience tables_prisma (\<lambda>_. Some (example_dest ''DATABASE'')) ?en ''d1'' None ?w)) = m' \<and>
     mget (bg_bulkheads (wd_bulkheads ?w)) ''DATABASE'' = Some b0 \<and> pl_maxSize (bh_pool b0) = 50 \<and>
     mget (bg_bulkheads m') ''DATABASE'' = Some b0 \<and>
     mget (bg_bulkheads m') ''database'' = Some b' \<and> pl_maxSize (bh_pool b') = 20"
    by (rule registered_bulkhead_is_bypassed [where k = "''w1''" and r = "example_row PENDING" and dest = "example_dest ''DATABASE''"])
      (use m adm in \<open>simp_all add: example_dest_def example_surroundings_def tables_prisma_def example_world_def example_tables_def mget_def\<close>)
  with m show ?thesis by blast
qed

end
