(* ===== verification/QF_Redis.thy ===== *)
theory QF_Redis
  imports QF_Prelude
begin

text \<open>
  Redis as the code sees it. The store itself is a parameter: the commands the code relies on are
  the fields of \<open>redis\<close> and \<open>sorted_sets\<close>, what they promise are the predicates \<open>redis_laws\<close> and
  \<open>sorted_set_laws\<close>, and \<open>list_redis\<close> and \<open>list_sorted_sets\<close> are stores that have them. Values are kept
  as values: writing and reading their JSON text is not modelled. The rate limiters ask an object for
  the methods it has (\<open>typeof x.setex === 'function'\<close>): such an object is a record of optional
  methods, \<open>RedisOperations\<close> (\<open>infrastructure/redis/redis-operations.ts\<close>) and the client of the
  library being two of them. \<open>IdempotencyCache\<close> is \<open>infrastructure/cache/idempotency-cache.ts\<close>.
\<close>

subsection \<open>Keys with a time to live\<close>

text \<open>\<open>GET\<close>, and \<open>SET\<close> with a time to live in milliseconds (\<open>PX\<close>) or without.\<close>

record ('v, 's) redis =
  rd_get :: "ms \<Rightarrow> string \<Rightarrow> 's \<Rightarrow> 'v option"
  rd_set :: "ms \<Rightarrow> string \<Rightarrow> 'v \<Rightarrow> int option \<Rightarrow> 's \<Rightarrow> 's"

definition redis_laws :: "('v, 's) redis \<Rightarrow> bool" where
  "redis_laws rd \<longleftrightarrow>
     (\<forall>now k v s now'. now \<le> now' \<longrightarrow> rd_get rd now' k (rd_set rd now k v None s) = Some v) \<and>
     (\<forall>now k v px s now'. now \<le> now' \<longrightarrow> px > 0 \<longrightarrow>
        rd_get rd now' k (rd_set rd now k v (Some px) s) = (if now' < now + px then Some v else None)) \<and>
     (\<forall>now k v px s now' k'. k' \<noteq> k \<longrightarrow> rd_get rd now' k' (rd_set rd now k v px s) = rd_get rd now' k' s)"

lemma redis_get_set:
  assumes "redis_laws rd" "now \<le> now'" "px > 0"
  shows "rd_get rd now' k (rd_set rd now k v (Some px) s) = (if now' < now + px then Some v else None)"
  using assms by (simp add: redis_laws_def)

lemma redis_get_other:
  "redis_laws rd \<Longrightarrow> k' \<noteq> k \<Longrightarrow> rd_get rd now' k' (rd_set rd now k v px s) = rd_get rd now' k' s"
  by (simp add: redis_laws_def)

text \<open>A store that has the laws: values with the time they expire at.\<close>

definition list_redis :: "('v, (string, 'v \<times> ms option) js_map) redis" where
  "list_redis = \<lparr>
     rd_get = (\<lambda>now k s. case mget s k of None \<Rightarrow> None
        | Some (v, None) \<Rightarrow> Some v
        | Some (v, Some expiry) \<Rightarrow> if now < expiry then Some v else None),
     rd_set = (\<lambda>now k v px s. mset_at k (v, map_option (\<lambda>d. now + d) px) s) \<rparr>"

lemma list_redis_laws: "redis_laws list_redis"
  by (simp add: redis_laws_def list_redis_def)

text \<open>\<open>DEL\<close>: the key is gone, no other is touched.\<close>

definition delete_laws :: "('v, 's) redis \<Rightarrow> (string \<Rightarrow> 's \<Rightarrow> 's) \<Rightarrow> bool" where
  "delete_laws rd del \<longleftrightarrow> (\<forall>t k k' s. k' \<noteq> k \<longrightarrow> rd_get rd t k' (del k s) = rd_get rd t k' s) \<and>
     (\<forall>t k s. rd_get rd t k (del k s) = None)"

lemma list_redis_delete: "delete_laws list_redis mdel"
  by (simp add: delete_laws_def list_redis_def)

text \<open>\<open>SETEX\<close> takes seconds.\<close>

definition rd_setex :: "('v, 's) redis \<Rightarrow> ms \<Rightarrow> string \<Rightarrow> int \<Rightarrow> 'v \<Rightarrow> 's \<Rightarrow> 's" where
  "rd_setex rd now k seconds v s = rd_set rd now k v (Some (seconds * 1000)) s"

text \<open>\<open>RedisOperations.set\<close>: a missing or non-positive time to live keeps the key for ever.\<close>

definition RedisOperations_set :: "('v, 's) redis \<Rightarrow> ms \<Rightarrow> string \<Rightarrow> 'v \<Rightarrow> int option \<Rightarrow> 's \<Rightarrow> 's" where
  "RedisOperations_set rd now k v ttlMs s = (case ttlMs of
       Some t \<Rightarrow> if t > 0 then rd_set rd now k v (Some t) s else rd_set rd now k v None s
     | None \<Rightarrow> rd_set rd now k v None s)"

subsection \<open>Objects asked for their methods\<close>

text \<open>Each method may be missing, and may throw (\<open>Inl\<close>).\<close>

record ('v, 's) key_client =
  kc_get :: "(ms \<Rightarrow> string \<Rightarrow> 's \<Rightarrow> unit + 'v option) option"
  kc_setex :: "(ms \<Rightarrow> string \<Rightarrow> int \<Rightarrow> 'v \<Rightarrow> 's \<Rightarrow> unit + 's) option"
  kc_set :: "(ms \<Rightarrow> string \<Rightarrow> 'v \<Rightarrow> int \<Rightarrow> 's \<Rightarrow> unit + 's) option"

definition operations_client :: "('v, 's) redis \<Rightarrow> ('v, 's) key_client" where
  "operations_client rd = \<lparr> kc_get = Some (\<lambda>now k s. Inr (rd_get rd now k s)), kc_setex = None,
     kc_set = Some (\<lambda>now k v ttlMs s. Inr (RedisOperations_set rd now k v (Some ttlMs) s)) \<rparr>"

definition library_client :: "('v, 's) redis \<Rightarrow> ('v, 's) key_client" where
  "library_client rd = \<lparr> kc_get = Some (\<lambda>now k s. Inr (rd_get rd now k s)),
     kc_setex = Some (\<lambda>now k seconds v s. Inr (rd_setex rd now k seconds v s)), kc_set = None \<rparr>"

subsection \<open>Sorted sets\<close>

text \<open>What a sorted set holds is observed by its members with their scores.\<close>

record 's sorted_sets =
  ss_members :: "string \<Rightarrow> 's \<Rightarrow> (string, int) js_map"
  ss_zadd :: "string \<Rightarrow> int \<Rightarrow> string \<Rightarrow> 's \<Rightarrow> 's"
  ss_zremrangebyscore :: "string \<Rightarrow> int \<Rightarrow> int \<Rightarrow> 's \<Rightarrow> 's"
  ss_zcard :: "string \<Rightarrow> 's \<Rightarrow> int"
  ss_zcount :: "string \<Rightarrow> int \<Rightarrow> 's \<Rightarrow> int"
  ss_del :: "string \<Rightarrow> 's \<Rightarrow> 's"

definition sorted_set_laws :: "'s sorted_sets \<Rightarrow> bool" where
  "sorted_set_laws ss \<longleftrightarrow>
     (\<forall>k s. ss_zcard ss k s = int (length (ss_members ss k s))) \<and>
     (\<forall>k a s. ss_zcount ss k a s = int (length (filter (\<lambda>(x, score). a \<le> score) (ss_members ss k s)))) \<and>
     (\<forall>k s. ss_members ss k (ss_del ss k s) = []) \<and>
     (\<forall>k k' s. k' \<noteq> k \<longrightarrow> ss_members ss k' (ss_del ss k s) = ss_members ss k' s) \<and>
     (\<forall>k score x s. ss_members ss k (ss_zadd ss k score x s) = mset_at x score (ss_members ss k s)) \<and>
     (\<forall>k a b s. ss_members ss k (ss_zremrangebyscore ss k a b s) =
        filter (\<lambda>(x, score). \<not> (a \<le> score \<and> score \<le> b)) (ss_members ss k s)) \<and>
     (\<forall>k k' score x s. k' \<noteq> k \<longrightarrow> ss_members ss k' (ss_zadd ss k score x s) = ss_members ss k' s) \<and>
     (\<forall>k k' a b s. k' \<noteq> k \<longrightarrow> ss_members ss k' (ss_zremrangebyscore ss k a b s) = ss_members ss k' s)"

definition list_sorted_sets :: "(string, (string, int) js_map) js_map sorted_sets" where
  "list_sorted_sets = (let members = (\<lambda>k s. nullish_or (mget s k) []) in \<lparr>
     ss_members = members,
     ss_zadd = (\<lambda>k score x s. mset_at k (mset_at x score (members k s)) s),
     ss_zremrangebyscore = (\<lambda>k a b s.
       mset_at k (filter (\<lambda>(x, score). \<not> (a \<le> score \<and> score \<le> b)) (members k s)) s),
     ss_zcard = (\<lambda>k s. int (length (members k s))),
     ss_zcount = (\<lambda>k a s. int (length (filter (\<lambda>(x, score). a \<le> score) (members k s)))),
     ss_del = (\<lambda>k s. mdel k s) \<rparr>)"

lemma list_sorted_sets_laws: "sorted_set_laws list_sorted_sets"
  by (simp add: sorted_set_laws_def list_sorted_sets_def Let_def)

record 's set_client =
  sc_zadd :: "(string \<Rightarrow> int \<Rightarrow> string \<Rightarrow> 's \<Rightarrow> unit + 's) option"
  sc_zremrangebyscore :: "(string \<Rightarrow> int \<Rightarrow> int \<Rightarrow> 's \<Rightarrow> unit + 's) option"
  sc_zcard :: "(string \<Rightarrow> 's \<Rightarrow> unit + int) option"
  sc_zcount :: "(string \<Rightarrow> int \<Rightarrow> 's \<Rightarrow> unit + int) option"
  sc_delete :: "(string \<Rightarrow> 's \<Rightarrow> unit + 's) option"

text \<open>\<open>RedisOperations\<close> has neither \<open>zremrangebyscore\<close> nor \<open>zcount\<close>; the client of the library has no
  \<open>delete\<close> (its command is \<open>del\<close>).\<close>

definition operations_sets :: "'s sorted_sets \<Rightarrow> 's set_client" where
  "operations_sets ss = \<lparr> sc_zadd = Some (\<lambda>k score x s. Inr (ss_zadd ss k score x s)),
     sc_zremrangebyscore = None, sc_zcard = Some (\<lambda>k s. Inr (ss_zcard ss k s)), sc_zcount = None,
     sc_delete = Some (\<lambda>k s. Inr (ss_del ss k s)) \<rparr>"

definition library_sets :: "'s sorted_sets \<Rightarrow> 's set_client" where
  "library_sets ss = \<lparr> sc_zadd = Some (\<lambda>k score x s. Inr (ss_zadd ss k score x s)),
     sc_zremrangebyscore = Some (\<lambda>k a b s. Inr (ss_zremrangebyscore ss k a b s)),
     sc_zcard = Some (\<lambda>k s. Inr (ss_zcard ss k s)), sc_zcount = Some (\<lambda>k a s. Inr (ss_zcount ss k a s)),
     sc_delete = None \<rparr>"

subsection \<open>IdempotencyCache\<close>

text \<open>A value is wrapped with the time it expires at; \<open>get\<close> answers with the wrapper.\<close>

record 'v wrapped =
  wr_value :: 'v
  wr_expiresAt :: ms

definition idem_set :: "('v wrapped, 's) redis \<Rightarrow> ms \<Rightarrow> string \<Rightarrow> 'v \<Rightarrow> int \<Rightarrow> 's \<Rightarrow> 's" where
  "idem_set rd now k v ttlHours s =
     rd_setex rd now k (ttlHours * 3600) \<lparr> wr_value = v, wr_expiresAt = now + ttlHours * 3600000 \<rparr> s"

definition idem_get :: "('v wrapped, 's) redis \<Rightarrow> ms \<Rightarrow> string \<Rightarrow> 's \<Rightarrow> 'v wrapped option" where
  "idem_get rd now k s = rd_get rd now k s"

lemma idem_get_set:
  assumes "redis_laws rd" "now \<le> now'" "hours > 0"
  shows "map_option wr_value (idem_get rd now' k (idem_set rd now k v hours s)) =
    (if now' < now + hours * 3600000 then Some v else None)"
  using redis_get_set [OF assms(1,2), of "hours * 3600 * 1000"] assms(3)
  by (simp add: idem_get_def idem_set_def rd_setex_def)

lemma idem_get_other:
  "redis_laws rd \<Longrightarrow> k' \<noteq> k \<Longrightarrow> idem_get rd now' k' (idem_set rd now k v hours s) = idem_get rd now' k' s"
  by (simp add: idem_get_def idem_set_def rd_setex_def redis_get_other)

end
