(* ===== verification/QF_Services.thy ===== *)
theory QF_Services
  imports QF_Store QF_Retry QF_Destination QF_Redis
begin

text \<open>
  The application services that move deliveries (\<open>application/services\<close>): processing a delivery,
  handling a failure, scheduling a retry, recovering stale deliveries, validating and ingesting
  results. Deliveries are the domain entities; the delivery repository is the list of what it is
  asked to save and the answers of its finders. The attempt repository is what its \<open>recordAttempt\<close>
  answers in the two ways the services call it; \<open>attempt_repository\<close> is the one of
  \<open>infrastructure/repositories\<close>.
\<close>

datatype service_error =
    DeliveryMissing string
  | DomainError domain_error
  | WorkerError worker_error
  | RequestError string

subsection \<open>Loading a delivery\<close>

definition loadDelivery ::
  "(string \<Rightarrow> Delivery option) \<Rightarrow> (string \<Rightarrow> Delivery list) \<Rightarrow> string \<Rightarrow> service_error + Delivery" where
  "loadDelivery findById findByTaskResultId deliveryId = (case findById deliveryId of
       Some d \<Rightarrow> Inr d
     | None \<Rightarrow> (case pick_delivery findByTaskResultId deliveryId of
           Some d \<Rightarrow> Inr d | None \<Rightarrow> Inl (DeliveryMissing deliveryId)))"

subsection \<open>ProcessDeliveryService\<close>

text \<open>The attempt repository: \<open>recordAttempt(id, number, data)\<close> and \<open>recordAttempt(id, data)\<close>, with the
  error each throws.\<close>

record attempt_recorder =
  ar_numbered :: "int \<Rightarrow> attempt_data \<Rightarrow> worker_error option"
  ar_plain :: "attempt_data \<Rightarrow> worker_error option"

text \<open>\<open>AttemptRepository\<close> reads its third argument, which the two-argument call leaves undefined.\<close>

definition attempt_repository :: "'d prisma \<Rightarrow> ms \<Rightarrow> string \<Rightarrow> 'd \<Rightarrow> attempt_recorder" where
  "attempt_repository px now i d = \<lparr>
     ar_numbered = (\<lambda>n a. snd (at_recordAttempt px now i n a d)),
     ar_plain = (\<lambda>a. Some (js_Error ''TypeError'' ''Cannot read properties of undefined (reading 'responseStatus')'')) \<rparr>"

text \<open>What the HTTP client does: it answers with an optional status and duration, or throws.\<close>

datatype http_outcome = Answered "int option" "int option" | Threw worker_error

text \<open>Status, duration, error message and success of the post.\<close>

definition post_result :: "ms \<Rightarrow> ms \<Rightarrow> http_outcome \<Rightarrow> int \<times> int \<times> string option \<times> bool" where
  "post_result start finish outcome = (case outcome of
       Answered status duration \<Rightarrow>
         let responseStatus = num_or status 200;
             success = (responseStatus \<ge> 200 \<and> responseStatus < 300) in
         (responseStatus, num_or duration (finish - start),
          (if success then None else Some (''Received non-2xx response status: '' @ show_int responseStatus)), success)
     | Threw err \<Rightarrow>
         (num_or (we_status err) (num_or (we_statusCode err) 0), finish - start,
          Some (if we_message err = [] then ''Network connection failed'' else we_message err), False))"

definition record_both :: "attempt_recorder option \<Rightarrow> int \<Rightarrow> attempt_data \<Rightarrow> worker_error option" where
  "record_both rec n a = (case rec of None \<Rightarrow> None
     | Some r \<Rightarrow> (case ar_numbered r n a of None \<Rightarrow> None | Some _ \<Rightarrow> ar_plain r a))"

text \<open>The attempt kept on the entity. \<open>RetryAttempt.create\<close> is called with the duration in the place of
  the error and the error in the place of the latency: with an error message it throws, and a plain
  object is pushed instead; without one the duration lands in the error field (as its decimal text
  here). The plain objects are kept apart from the entity's attempts.\<close>

record plain_attempt =
  pa_number :: int
  pa_statusCode :: int
  pa_latencyMs :: int
  pa_error :: "string option"

definition note_attempt ::
  "ms \<Rightarrow> int \<Rightarrow> int \<Rightarrow> string option \<Rightarrow> Delivery \<Rightarrow> Delivery \<times> plain_attempt list" where
  "note_attempt now responseStatus durationMs errorMessage d =
     (let n = dl_retryCount d + 1;
          plain = \<lparr> pa_number = n, pa_statusCode = responseStatus, pa_latencyMs = durationMs, pa_error = errorMessage \<rparr> in
      case errorMessage of
        Some _ \<Rightarrow> (d, [plain])
      | None \<Rightarrow> (case RetryAttempt_new now n (Some responseStatus) (Some (show_int durationMs)) None None of
            Inl _ \<Rightarrow> (d, [plain])
          | Inr attempt \<Rightarrow> (addAttempt now attempt d, [])))"

record ProcessResult =
  pr_status :: DeliveryStatus
  pr_success :: bool
  pr_statusCode :: int
  pr_nextRetryAt :: "ms option"
  pr_error :: "string option"

text \<open>A run: what was saved, in order, the plain attempts, and the result or the error thrown.\<close>

record processing =
  pg_saved :: "Delivery list"
  pg_plain :: "plain_attempt list"
  pg_outcome :: "service_error + ProcessResult"

definition http_retryable :: "int \<Rightarrow> bool" where
  "http_retryable s \<longleftrightarrow> s \<ge> 500 \<or> s = 0 \<or> s = 429 \<or> s = 408"

definition conclude :: "ms \<Rightarrow> int \<Rightarrow> bool \<Rightarrow> string option \<Rightarrow> Delivery \<Rightarrow> (Delivery, domain_error) eff" where
  "conclude now responseStatus success errorMessage d =
     (if success then markAsCompleted now None d
      else if http_retryable responseStatus \<and> Delivery_canRetry None d
      then ret (scheduleRetry now (After (1000 * 2 ^ nat (dl_retryCount d))) d)
      else moveToDeadLetterQueue now (str_or errorMessage ''Delivery failed permanently'') d)"

definition processDelivery ::
  "ms \<Rightarrow> ms \<Rightarrow> attempt_recorder option \<Rightarrow> http_outcome \<Rightarrow> Delivery \<Rightarrow> processing" where
  "processDelivery start finish rec outcome d =
     (case (if dl_status d \<noteq> PROCESSING then markAsProcessing start d else ret d) of
        (_, Some e) \<Rightarrow> \<lparr> pg_saved = [], pg_plain = [], pg_outcome = Inl (DomainError e) \<rparr>
      | (d1, None) \<Rightarrow>
        (case post_result start finish outcome of (responseStatus, durationMs, errorMessage, success) \<Rightarrow>
          (case record_both rec (dl_retryCount d1 + 1) \<lparr> ad_responseStatus = Some responseStatus,
                  ad_responseTimeMs = Some durationMs, ad_errorMessage = errorMessage \<rparr> of
             Some e \<Rightarrow> \<lparr> pg_saved = [d1], pg_plain = [], pg_outcome = Inl (WorkerError e) \<rparr>
           | None \<Rightarrow>
             (case note_attempt finish responseStatus durationMs errorMessage d1 of (d2, plain) \<Rightarrow>
               (case conclude finish responseStatus success errorMessage d2 of
                  (_, Some e) \<Rightarrow> \<lparr> pg_saved = [d1], pg_plain = plain, pg_outcome = Inl (DomainError e) \<rparr>
                | (d3, None) \<Rightarrow> \<lparr> pg_saved = [d1, d3], pg_plain = plain,
                    pg_outcome = Inr \<lparr> pr_status = dl_status d3, pr_success = success,
                      pr_statusCode = responseStatus, pr_nextRetryAt = dl_nextRetryAt d3, pr_error = errorMessage \<rparr> \<rparr>)))))"

subsection \<open>HandleFailureService\<close>

text \<open>The failure handed over: a string, a \<open>DeliveryError\<close>, or another error with its message and
  status; and the third argument.\<close>

datatype failure = FString string | FDelivery DeliveryError | FOther "string option" "int option"

datatype verdict = NoVerdict | StatusVerdict int | RetryVerdict bool

definition failure_message :: "failure \<Rightarrow> string" where
  "failure_message e = (case e of FString s \<Rightarrow> s
     | FDelivery x \<Rightarrow> str_or (Some (de_message x)) ''Unknown delivery failure''
     | FOther m _ \<Rightarrow> str_or m ''Unknown delivery failure'')"

definition failure_status :: "failure \<Rightarrow> verdict \<Rightarrow> int" where
  "failure_status e v = (case v of StatusVerdict n \<Rightarrow> n
     | _ \<Rightarrow> (case e of FString _ \<Rightarrow> 500 | FDelivery x \<Rightarrow> num_or (de_statusCode x) 500 | FOther _ s \<Rightarrow> num_or s 500))"

definition failure_retryable :: "failure \<Rightarrow> verdict \<Rightarrow> bool" where
  "failure_retryable e v = (case v of RetryVerdict b \<Rightarrow> b
     | _ \<Rightarrow> (case e of FDelivery x \<Rightarrow> DeliveryError_isRetryable x
        | _ \<Rightarrow> let s = failure_status e v in s \<ge> 500 \<or> s = 0 \<or> s = 429))"

definition to_fail_arg :: "failure \<Rightarrow> fail_arg" where
  "to_fail_arg e = (case e of FString s \<Rightarrow> FailText s | FDelivery x \<Rightarrow> FailError x | FOther m _ \<Rightarrow> FailOther m)"

definition handleFailure ::
  "ms \<Rightarrow> attempt_recorder option \<Rightarrow> failure \<Rightarrow> verdict \<Rightarrow> Delivery \<Rightarrow> service_error + Delivery" where
  "handleFailure now rec err v d =
     (let isRetryable = failure_retryable err v in
      case (case rec of None \<Rightarrow> None | Some r \<Rightarrow> ar_plain r \<lparr> ad_responseStatus = Some (failure_status err v),
              ad_responseTimeMs = None, ad_errorMessage = Some (failure_message err) \<rparr>) of
        Some e \<Rightarrow> Inl (WorkerError e)
      | None \<Rightarrow>
        (case andThen (if dl_status d = PENDING \<or> dl_status d = SCHEDULED_RETRY then markAsProcessing now d else ret d)
            (\<lambda>d1. andThen (markFailed now (to_fail_arg err) (RetryFlag isRetryable) 5 d1)
            (\<lambda>d2. if isRetryable \<and> Delivery_canRetry None d2
                  then ret (scheduleRetry now (After (2 ^ nat (dl_retryCount d2) * 1000)) d2)
                  else moveToDeadLetterQueue now (failure_message err) d2)) of
           (_, Some e) \<Rightarrow> Inl (DomainError e)
         | (d3, None) \<Rightarrow> Inr d3))"

subsection \<open>RecoverStaleJobsService\<close>

definition crash_message :: string where
  "crash_message = ''Worker crash / processing timeout detected''"

text \<open>One stale delivery: the delivery as saved, the job put on the queue (None: dead-lettered), or the
  error caught. The queue's \<open>enqueueDelivery\<close> answers with the error it throws, if any.\<close>

definition recover_one ::
  "ms \<Rightarrow> domain_error option \<Rightarrow> Delivery \<Rightarrow> domain_error + (Delivery \<times> (string \<times> string \<times> int \<times> int) option)" where
  "recover_one now enqueue d =
     (case markFailed now (FailOther (Some crash_message)) (RetryFlag True) 5 d of
        (_, Some e) \<Rightarrow> Inl e
      | (d1, None) \<Rightarrow>
          let retryCount = dl_retryCount d1 in
          if retryCount \<le> 5 then
            (let delayMs = 2 ^ nat (max 0 (retryCount - 1)) * 1000;
                 d2 = scheduleRetry now (After delayMs) d1 in
             case enqueue of Some e \<Rightarrow> Inl e
             | None \<Rightarrow> Inr (d2, Some (dl_taskResultId d2, dl_destinationId d2, retryCount, delayMs)))
          else
            (case moveToDeadLetterQueue now crash_message d1 of
               (_, Some e) \<Rightarrow> Inl e | (d2, None) \<Rightarrow> Inr (d2, None)))"

text \<open>The scan's selection, when the repository has no \<open>findStale\<close>.\<close>

definition stale_of :: "ms \<Rightarrow> int \<Rightarrow> Delivery list \<Rightarrow> Delivery list" where
  "stale_of now timeoutMs ds = filter (\<lambda>d. dl_status d = PROCESSING \<and> dl_updatedAt d < now - timeoutMs) ds"

fun recoverStale ::
  "ms \<Rightarrow> (string \<Rightarrow> domain_error option) \<Rightarrow> Delivery list \<Rightarrow>
   Delivery list \<times> (string \<times> string \<times> int \<times> int) list \<times> int \<times> int" where
  "recoverStale now enqueue [] = ([], [], 0, 0)"
| "recoverStale now enqueue (d # ds) =
     (case recoverStale now enqueue ds of (saved, jobs, recovered, failed) \<Rightarrow>
      (case recover_one now (enqueue (dl_id d)) d of
         Inl _ \<Rightarrow> (saved, jobs, recovered, failed + 1)
       | Inr (d', Some job) \<Rightarrow> (d' # saved, job # jobs, recovered + 1, failed)
       | Inr (d', None) \<Rightarrow> (d' # saved, jobs, recovered, failed + 1)))"

subsection \<open>ScheduleRetryService\<close>

text \<open>The two optional arguments are numbers or strategies.\<close>

datatype retry_param = RNone | RNum int | RStrategy RetryStrategyVO

definition max_allowed :: "retry_param \<Rightarrow> int" where
  "max_allowed p = (case p of RNum n \<Rightarrow> n | RStrategy s \<Rightarrow> nullish_or (maxRetries (rs_config s)) 5 | RNone \<Rightarrow> 5)"

record retry_job =
  rj_taskResultId :: string
  rj_destinationId :: string
  rj_attempt :: int
  rj_delay :: int

text \<open>The delivery saved, and the job enqueued or the error thrown; an exhausted delivery is saved and
  the error thrown after it (its constructor takes the maximum before the attempted count).\<close>

definition scheduleRetryService ::
  "ms \<Rightarrow> rat \<Rightarrow> retry_param \<Rightarrow> retry_param \<Rightarrow> Delivery \<Rightarrow> Delivery option \<times> (domain_error + retry_job)" where
  "scheduleRetryService now r retryCountOrStrategy maxRetriesOrStrategy d =
     (let currentRetryCount = dl_retryCount d;
          maxAllowed = max_allowed maxRetriesOrStrategy in
      if currentRetryCount \<ge> maxAllowed then
        (case moveToDeadLetterQueue now (''Max retries exceeded ('' @ show_int currentRetryCount @ ''/'' @ show_int maxAllowed @ '')'') d of
           (_, Some e) \<Rightarrow> (None, Inl e)
         | (d1, None) \<Rightarrow> (Some d1, Inl (MaxRetriesExceededError (dl_id d) currentRetryCount maxAllowed)))
      else
        (let attemptNum = (case retryCountOrStrategy of RNum n \<Rightarrow> if n < 100 then n else currentRetryCount | _ \<Rightarrow> currentRetryCount);
             strategy = (case maxRetriesOrStrategy of RStrategy s \<Rightarrow> Some s
               | _ \<Rightarrow> (case retryCountOrStrategy of RStrategy s \<Rightarrow> Some s | _ \<Rightarrow> None));
             delay = (case strategy of Some s \<Rightarrow> RetryStrategyVO_calculateDelay s r (attemptNum + 1)
               | None \<Rightarrow> (case retryCountOrStrategy of
                     RNum n \<Rightarrow> if n \<ge> 100 then n else 1000 * 2 ^ nat attemptNum
                   | _ \<Rightarrow> 1000 * 2 ^ nat attemptNum)) in
         case (if dl_status d = PENDING \<or> dl_status d = SCHEDULED_RETRY then markAsProcessing now d else ret d) of
           (_, Some e) \<Rightarrow> (None, Inl e)
         | (d1, None) \<Rightarrow>
             let d2 = scheduleRetry now (After delay) d1 in
             (Some d2, Inr \<lparr> rj_taskResultId = dl_taskResultId d2, rj_destinationId = dl_destinationId d2,
                rj_attempt = attemptNum + 1, rj_delay = delay \<rparr>)))"

subsection \<open>ValidateResultService\<close>

text \<open>The payload of a request: missing, a record with the byte length of its JSON text, or something
  else (an array, a primitive).\<close>

datatype payload = PMissing | PRecord js_record int | POther

record llm_metadata =
  lm_model :: js_val
  lm_promptHash :: js_val
  lm_tokenInput :: js_val
  lm_tokenOutput :: js_val
  lm_latency :: js_val

record ingest_request =
  iq_emailId :: string
  iq_agentId :: string
  iq_agentVersion :: string
  iq_confidenceScore :: "rat option"
  iq_resultPayload :: payload
  iq_llmMetadata :: "llm_metadata option"

text \<open>The version expression: three dotted numbers and an optional suffix after a hyphen.\<close>

definition after_number :: "string \<Rightarrow> string option" where
  "after_number s = (if takeWhile digit_char s = [] then None else Some (dropWhile digit_char s))"

definition after_dot :: "string \<Rightarrow> string option" where
  "after_dot s = (case s of c # t \<Rightarrow> if c = CHR ''.'' then Some t else None | [] \<Rightarrow> None)"

definition version_suffix :: "string \<Rightarrow> bool" where
  "version_suffix s = (case s of [] \<Rightarrow> True
     | c # t \<Rightarrow> c = CHR ''-'' \<and> t \<noteq> [] \<and> list_all (\<lambda>x. alnum_char x \<or> x = CHR ''.'') t)"

definition semver :: "string \<Rightarrow> bool" where
  "semver s = (case Option.bind (Option.bind (Option.bind (Option.bind (after_number s) after_dot) after_number) after_dot) after_number of
     None \<Rightarrow> False | Some rest \<Rightarrow> version_suffix rest)"

definition bad_count :: "js_val \<Rightarrow> bool" where
  "bad_count v = (case v of VUndefined \<Rightarrow> False | VNaN \<Rightarrow> False | VNum x \<Rightarrow> x < 0 | _ \<Rightarrow> True)"

definition validateLLMMetadata :: "llm_metadata \<Rightarrow> string + unit" where
  "validateLLMMetadata m =
     bindE (guardE (case lm_model m of VUndefined \<Rightarrow> True | VStr s \<Rightarrow> trim s \<noteq> [] | _ \<Rightarrow> False) ''llmMetadata.model'') (\<lambda>_.
     bindE (guardE (case lm_promptHash m of VUndefined \<Rightarrow> True
              | VStr s \<Rightarrow> length s = 64 \<and> list_all hex_char s | _ \<Rightarrow> False) ''llmMetadata.promptHash'') (\<lambda>_.
     bindE (guardE (\<not> bad_count (lm_tokenInput m)) ''llmMetadata.tokenInput'') (\<lambda>_.
     bindE (guardE (\<not> bad_count (lm_tokenOutput m)) ''llmMetadata.tokenOutput'') (\<lambda>_.
     guardE (\<not> bad_count (lm_latency m)) ''llmMetadata.latency''))))"

definition validatePayload :: "payload \<Rightarrow> string + unit" where
  "validatePayload p = (case p of
       PRecord _ byteSize \<Rightarrow> guardE (byteSize \<le> 10 * 1024 * 1024) ''resultPayload''
     | _ \<Rightarrow> Inl ''resultPayload'')"

text \<open>The field a \<open>ValidationError\<close> names, in the order of the checks.\<close>

definition validateRequest :: "ingest_request option \<Rightarrow> string + unit" where
  "validateRequest request = (case request of None \<Rightarrow> Inl ''Request body is required.'' | Some q \<Rightarrow>
     bindE (guardE (iq_emailId q \<noteq> []) ''emailId'') (\<lambda>_.
     bindE (guardE (iq_agentId q \<noteq> []) ''agentId'') (\<lambda>_.
     bindE (guardE (iq_confidenceScore q \<noteq> None) ''confidenceScore'') (\<lambda>_.
     bindE (guardE (iq_resultPayload q \<noteq> PMissing) ''resultPayload'') (\<lambda>_.
     bindE (guardE (okE (EmailId_new (JStr (iq_emailId q)))) ''emailId'') (\<lambda>_.
     bindE (guardE (okE (AgentId_new (JStr (iq_agentId q)))) ''agentId'') (\<lambda>_.
     bindE (guardE (iq_agentVersion q \<noteq> [] \<and> semver (iq_agentVersion q)) ''agentVersion'') (\<lambda>_.
     bindE (guardE (okE (ConfidenceScore_new (iq_confidenceScore q))) ''confidenceScore'') (\<lambda>_.
     bindE (validatePayload (iq_resultPayload q)) (\<lambda>_.
     case iq_llmMetadata q of None \<Rightarrow> Inr () | Some m \<Rightarrow> validateLLMMetadata m))))))))))"

subsection \<open>IngestResultService\<close>

record ingest_response =
  ir_resultId :: string
  ir_deliveryCount :: int
  ir_timestamp :: ms

record 'c ingest_state =
  ig_results :: "AiTaskResult list"
  ig_deliveries :: "Delivery list"
  ig_jobs :: "(string \<times> string \<times> int) list"
  ig_cache :: 'c

definition idempotencyKey :: "ingest_request \<Rightarrow> string" where
  "idempotencyKey q = ''idem:result:'' @ iq_emailId q @ '':'' @ iq_agentId q @ '':'' @ iq_agentVersion q"

text \<open>\<open>AiTaskResult.create\<close> with an object of properties; the payload is a reference to the request's.\<close>

definition toDomain :: "ms \<Rightarrow> string \<Rightarrow> ingest_request \<Rightarrow> domain_error + AiTaskResult" where
  "toDomain now uuid q =
     bindE (AiTaskResult_new now uuid None (JStr (iq_emailId q)) (JStr (iq_agentId q)) (Some (iq_agentVersion q))
       (case iq_confidenceScore q of None \<Rightarrow> SNothing | Some x \<Rightarrow> SNum x) (VRef 1)
       (case iq_llmMetadata q of None \<Rightarrow> VRef 0 | Some _ \<Rightarrow> VRef 2) None None None)
       (\<lambda>t. Inr (t\<lparr> tr_events := tr_events t + 1 \<rparr>))"

text \<open>The object the filters see: the payload's fields win over the three of the result.\<close>

definition match_event :: "AiTaskResult \<Rightarrow> js_record \<Rightarrow> js_record" where
  "match_event t p = p @ [(''emailId'', VStr (tr_emailId t)), (''agentId'', VStr (tr_agentId t)),
     (''confidenceScore'', VNum (tr_confidenceScore t))]"

definition payload_record :: "payload \<Rightarrow> js_record" where
  "payload_record p = (case p of PRecord r _ \<Rightarrow> r | _ \<Rightarrow> [])"

fun make_deliveries :: "ms \<Rightarrow> (nat \<Rightarrow> string) \<Rightarrow> nat \<Rightarrow> string \<Rightarrow> Destination list \<Rightarrow> domain_error + Delivery list" where
  "make_deliveries now uuids n resultId [] = Inr []"
| "make_deliveries now uuids n resultId (x # xs) =
     bindE (Delivery_create now (uuids n) resultId (ds_id x) None) (\<lambda>d.
     bindE (make_deliveries now uuids (n + 1) resultId xs) (\<lambda>ds. Inr (d # ds)))"

definition ingest ::
  "(ingest_response wrapped, 'c) redis \<Rightarrow> ms \<Rightarrow> (nat \<Rightarrow> string) \<Rightarrow> Destination list \<Rightarrow> ingest_request \<Rightarrow> 'c ingest_state \<Rightarrow>
   'c ingest_state \<times> (service_error + ingest_response)" where
  "ingest rd now uuids activeDestinations q s =
     (case validateRequest (Some q) of Inl f \<Rightarrow> (s, Inl (RequestError f))
      | Inr _ \<Rightarrow>
        (case idem_get rd now (idempotencyKey q) (ig_cache s) of Some cached \<Rightarrow> (s, Inr (wr_value cached))
         | None \<Rightarrow>
           (case toDomain now (uuids 0) q of Inl e \<Rightarrow> (s, Inl (DomainError e))
            | Inr t \<Rightarrow>
              let matched = filter (\<lambda>x. matchesEventFilter x (match_event t (payload_record (iq_resultPayload q)))) activeDestinations in
              (case make_deliveries now uuids 1 (tr_id t) matched of Inl e \<Rightarrow> (s, Inl (DomainError e))
               | Inr ds \<Rightarrow>
                 let response = \<lparr> ir_resultId = tr_id t, ir_deliveryCount = int (length matched), ir_timestamp = now \<rparr> in
                 (s\<lparr> ig_results := ig_results s @ [t], ig_deliveries := ig_deliveries s @ ds,
                     ig_jobs := ig_jobs s @ map (\<lambda>d. (tr_id t, dl_destinationId d, 1)) ds,
                     ig_cache := idem_set rd now (idempotencyKey q) response 24 (ig_cache s) \<rparr>, Inr response)))))"

subsection \<open>Properties of delivery processing\<close>

definition accepting :: "attempt_recorder option \<Rightarrow> bool" where
  "accepting rec \<longleftrightarrow> (case rec of None \<Rightarrow> True | Some r \<Rightarrow> (\<forall>n a. ar_numbered r n a = None))"

lemma accepting_records: "accepting rec \<Longrightarrow> record_both rec n a = None"
  by (auto simp: accepting_def record_both_def split: option.splits)

lemma markAsProcessing_ok:
  "dl_status d \<notin> {COMPLETED, FAILED_DLQ} \<Longrightarrow>
     (if dl_status d \<noteq> PROCESSING then markAsProcessing now d else ret d) =
     ret (if dl_status d \<noteq> PROCESSING then d\<lparr> dl_status := PROCESSING, dl_lastAttemptAt := Some now, dl_updatedAt := now \<rparr> else d)"
  by (cases "dl_status d") (simp_all add: markAsProcessing_def)

text \<open>One run against an endpoint that fails in a retryable way.\<close>

lemma processDelivery_retryable:
  assumes "dl_status d \<notin> {COMPLETED, FAILED_DLQ}" "dl_retryCount d < 5" "accepting rec"
    and "post_result start finish outcome = (s, dur, msg, False)" "http_retryable s" "msg \<noteq> None"
  obtains d1 d3 where "pg_saved (processDelivery start finish rec outcome d) = [d1, d3]"
    "dl_status d1 = PROCESSING" "dl_status d3 = SCHEDULED_RETRY" "dl_retryCount d3 = dl_retryCount d"
    "dl_nextRetryAt d3 = Some (finish + 1000 * 2 ^ nat (dl_retryCount d))"
proof -
  define d1 where "d1 = (if dl_status d \<noteq> PROCESSING
    then d\<lparr> dl_status := PROCESSING, dl_lastAttemptAt := Some start, dl_updatedAt := start \<rparr> else d)"
  have d1: "(if dl_status d \<noteq> PROCESSING then markAsProcessing start d else ret d) = ret d1"
    "dl_status d1 = PROCESSING" "dl_retryCount d1 = dl_retryCount d"
    using markAsProcessing_ok [OF assms(1), of start] by (auto simp: d1_def)
  let ?d3 = "scheduleRetry finish (After (1000 * 2 ^ nat (dl_retryCount d1))) d1"
  have "conclude finish s False msg d1 = ret ?d3"
    using assms(2,5) d1(2,3) by (simp add: conclude_def Delivery_canRetry_def DeliveryStatusVO_isFinal_def)
  moreover obtain m where "msg = Some m" using assms(6) by blast
  ultimately have saved: "pg_saved (processDelivery start finish rec outcome d) = [d1, ?d3]"
    using d1(1) by (simp add: processDelivery_def ret_def assms(4) accepting_records [OF assms(3)] note_attempt_def)
  show thesis by (rule that [OF saved d1(2)]) (simp_all add: scheduleRetry_def d1(3))
qed

text \<open>Rounds of processing: each run works on the delivery the run before saved last.\<close>

fun process_rounds ::
  "attempt_recorder option \<Rightarrow> (ms \<times> ms \<times> http_outcome) list \<Rightarrow> Delivery \<Rightarrow> Delivery" where
  "process_rounds rec [] d = d"
| "process_rounds rec ((start, finish, outcome) # rs) d =
     process_rounds rec rs (last (d # pg_saved (processDelivery start finish rec outcome d)))"

definition failing_post :: "ms \<times> ms \<times> http_outcome \<Rightarrow> bool" where
  "failing_post x = (case x of (start, finish, outcome) \<Rightarrow>
     (case post_result start finish outcome of (s, _, msg, success) \<Rightarrow> \<not> success \<and> http_retryable s \<and> msg \<noteq> None))"



text \<open>With the attempt repository of the infrastructure layer, a post that gets no response at all
  strands its delivery: status 0 is refused by \<open>recordAttempt\<close>, the second call (without the attempt
  number) throws a \<open>TypeError\<close>, and the run ends in that error with the delivery saved as
  \<open>PROCESSING\<close> and no retry.\<close>
theorem unreachable_endpoint_strands_delivery:
  assumes "dl_status d \<notin> {COMPLETED, FAILED_DLQ}" "we_status err = None" "we_statusCode err = None"
  shows "\<exists>d1 e. processDelivery start finish (Some (attempt_repository px now i db)) (Threw err) d =
       \<lparr> pg_saved = [d1], pg_plain = [], pg_outcome = Inl (WorkerError e) \<rparr> \<and>
     dl_status d1 = PROCESSING \<and> dl_nextRetryAt d1 = dl_nextRetryAt d \<and> dl_retryCount d1 = dl_retryCount d"
proof -
  define d1 where "d1 = (if dl_status d \<noteq> PROCESSING
    then d\<lparr> dl_status := PROCESSING, dl_lastAttemptAt := Some start, dl_updatedAt := start \<rparr> else d)"
  have d1: "(if dl_status d \<noteq> PROCESSING then markAsProcessing start d else ret d) = ret d1"
    using markAsProcessing_ok [OF assms(1), of start] by (auto simp: d1_def)
  have "post_result start finish (Threw err) = (0, finish - start,
      Some (if we_message err = [] then ''Network connection failed'' else we_message err), False)"
    using assms(2,3) by (simp add: post_result_def)
  moreover have "record_both (Some (attempt_repository px now i db)) n \<lparr> ad_responseStatus = Some 0,
      ad_responseTimeMs = t, ad_errorMessage = m \<rparr> =
      Some (js_Error ''TypeError'' ''Cannot read properties of undefined (reading 'responseStatus')'')" for n t m
    by (simp add: record_both_def attempt_repository_def at_recordAttempt_def bad_response_status_def)
  ultimately have "processDelivery start finish (Some (attempt_repository px now i db)) (Threw err) d =
      \<lparr> pg_saved = [d1], pg_plain = [], pg_outcome = Inl (WorkerError
         (js_Error ''TypeError'' ''Cannot read properties of undefined (reading 'responseStatus')'')) \<rparr>"
    using d1 by (simp add: processDelivery_def ret_def)
  then show ?thesis by (auto simp: d1_def)
qed

theorem unreachable_endpoint_strands_delivery_witness:
  "\<exists>d1. pg_saved (processDelivery 0 10 (Some (attempt_repository tables_prisma 10 ''d1'' (example_tables PENDING)))
     (Threw (js_Error ''Error'' ''connect ECONNREFUSED'')) (example_delivery PENDING 0)) = [d1] \<and> dl_status d1 = PROCESSING"
  using unreachable_endpoint_strands_delivery [of "example_delivery PENDING 0" "js_Error ''Error'' ''connect ECONNREFUSED''"
      0 10 tables_prisma 10 "''d1''" "example_tables PENDING"]
  by (auto simp: example_delivery_def js_Error_def)

text \<open>The failures of a delivery one after the other, each handled on what the one before saved.\<close>

fun handle_all :: "(ms \<times> failure \<times> verdict) list \<Rightarrow> Delivery \<Rightarrow> service_error + Delivery" where
  "handle_all [] d = Inr d"
| "handle_all ((now, err, v) # fs) d = bindE (handleFailure now None err v d) (handle_all fs)"

definition retryable_failure :: "ms \<times> failure \<times> verdict \<Rightarrow> bool" where
  "retryable_failure x = (case x of (_, err, v) \<Rightarrow> failure_retryable err v \<and> okE (errObj_of (to_fail_arg err)))"

lemma handleFailure_retryable:
  assumes "dl_retryCount d < 5" "0 \<le> dl_retryCount d" "failure_retryable err v" "okE (errObj_of (to_fail_arg err))"
  obtains d' where "handleFailure now None err v d = Inr d'" "dl_status d' = SCHEDULED_RETRY"
    "dl_retryCount d' = max 1 (dl_retryCount d)"
    "dl_nextRetryAt d' = Some (now + 1000 * 2 ^ nat (max 1 (dl_retryCount d)))"
proof -
  obtain e where e: "errObj_of (to_fail_arg err) = Inr e" using assms(4) by (auto simp: okE_iff)
  define d1 where "d1 = (if dl_status d = PENDING \<or> dl_status d = SCHEDULED_RETRY
    then d\<lparr> dl_status := PROCESSING, dl_lastAttemptAt := Some now, dl_updatedAt := now \<rparr> else d)"
  have d1: "(if dl_status d = PENDING \<or> dl_status d = SCHEDULED_RETRY then markAsProcessing now d else ret d) = ret d1"
    "dl_retryCount d1 = dl_retryCount d"
    by (auto simp: d1_def markAsProcessing_def)
  define d2 where "d2 = d1\<lparr> dl_lastError := Some e, dl_retryCount := max 1 (dl_retryCount d),
    dl_status := SCHEDULED_RETRY, dl_updatedAt := now \<rparr>"
  have d2: "markFailed now (to_fail_arg err) (RetryFlag True) 5 d1 = ret d2"
    using assms(1,2) e by (auto simp: markFailed_def Let_def d1(2) d2_def max_def)
  let ?d3 = "scheduleRetry now (After (2 ^ nat (dl_retryCount d2) * 1000)) d2"
  have "handleFailure now None err v d = Inr ?d3"
    using assms(1,3) d1(1) d2 by (simp add: handleFailure_def Let_def Delivery_canRetry_def d2_def
        DeliveryStatusVO_isFinal_def ret_def andThen_def)
  then show thesis by (rule that) (simp_all add: scheduleRetry_def d2_def)
qed

text \<open>However many retryable failures \<open>HandleFailureService\<close> is told of, the delivery is scheduled for
  a retry once more with a retry count that stops at 1 (\<open>markFailed\<close> counts only from 0 to 1): it
  never reaches the dead letter queue. This holds whatever its status was: a completed or
  dead-lettered delivery is brought back too.\<close>
theorem handled_failures_are_not_counted:
  assumes "0 \<le> dl_retryCount d" "dl_retryCount d < 5" "fs \<noteq> []" "list_all retryable_failure fs"
  shows "\<exists>d'. handle_all fs d = Inr d' \<and> dl_status d' = SCHEDULED_RETRY \<and>
     dl_retryCount d' = max 1 (dl_retryCount d)"
  using assms
proof (induction fs arbitrary: d)
  case Nil
  then show ?case by simp
next
  case (Cons x fs)
  obtain now err v where x: "x = (now, err, v)" by (cases x) auto
  obtain d1 where d1: "handleFailure now None err v d = Inr d1" "dl_status d1 = SCHEDULED_RETRY"
    "dl_retryCount d1 = max 1 (dl_retryCount d)"
    using handleFailure_retryable [of d err v now] Cons.prems by (auto simp: x retryable_failure_def)
  show ?case
  proof (cases "fs = []")
    case True
    with d1 show ?thesis by (simp add: x)
  next
    case False
    with Cons.IH [of d1] Cons.prems d1 show ?thesis by (auto simp: x max_def split: if_splits)
  qed
qed

theorem handled_failures_are_not_counted_witness:
  "\<exists>d'. handle_all (replicate 9 (10, FOther (Some ''boom'') (Some 503), NoVerdict)) (example_delivery COMPLETED 0) = Inr d' \<and>
     dl_status d' = SCHEDULED_RETRY \<and> dl_retryCount d' = 1"
proof -
  have "list_all retryable_failure (replicate 9 (10, FOther (Some ''boom'') (Some 503), NoVerdict))"
    by (simp add: retryable_failure_def failure_retryable_def failure_status_def to_fail_arg_def errObj_of_def
        DeliveryError_new_def numeral_eq_Suc Let_def)
  then show ?thesis
    using handled_failures_are_not_counted [of "example_delivery COMPLETED 0"
        "replicate 9 (10, FOther (Some ''boom'') (Some 503), NoVerdict)"]
    by (simp add: example_delivery_def)
qed

text \<open>A stale delivery that has used up its five retries is sent once more: marking it failed moves
  it to the dead letter queue, and the recovery, which allows a retry count of five itself, schedules
  it again. Only a count above five stays dead-lettered.\<close>
theorem stale_recovery_allows_one_more:
  assumes "0 \<le> dl_retryCount d"
  shows "\<exists>d' job. recover_one now None d = Inr (d', job) \<and>
     (dl_retryCount d \<le> 5 \<longrightarrow> dl_status d' = SCHEDULED_RETRY \<and>
        job = Some (dl_taskResultId d, dl_destinationId d, max 1 (dl_retryCount d), 2 ^ nat (max 1 (dl_retryCount d) - 1) * 1000)) \<and>
     (5 < dl_retryCount d \<longrightarrow> dl_status d' = FAILED_DLQ \<and> job = None) \<and>
     (dl_retryCount d = 5 \<longrightarrow> dl_status (fst (markFailed now (FailOther (Some crash_message)) (RetryFlag True) 5 d)) = FAILED_DLQ)"
proof -
  have e: "errObj_of (FailOther (Some crash_message)) = Inr \<lparr> de_category = UNKNOWN, de_message = crash_message,
      de_statusCode = None, de_deliveryId = None \<rparr>"
    by (simp add: errObj_of_def crash_message_def DeliveryError_new_def parse_category_def upper_char_def)
  consider "dl_retryCount d = 0" | "0 < dl_retryCount d \<and> dl_retryCount d < 5" | "5 \<le> dl_retryCount d"
    using assms by linarith
  then show ?thesis
    by cases (auto simp: recover_one_def markFailed_def e moveToDeadLetterQueue_def scheduleRetry_def Let_def ret_def max_def)
qed

theorem stale_recovery_allows_one_more_witness:
  "\<exists>d' job. recover_one 10 None (example_delivery PROCESSING 5) = Inr (d', job) \<and> dl_status d' = SCHEDULED_RETRY"
  using stale_recovery_allows_one_more [of "example_delivery PROCESSING 5" 10]
  by (auto simp: example_delivery_def)

subsection \<open>Properties of ingestion\<close>

lemma make_deliveries_spec:
  assumes "make_deliveries now uuids n rid xs = Inr ds"
  shows "map dl_destinationId ds = map ds_id xs \<and>
    list_all (\<lambda>d. dl_status d = PENDING \<and> dl_taskResultId d = rid \<and> dl_retryCount d = 0) ds"
  using assms
  by (induction xs arbitrary: n ds)
    (auto simp: Delivery_create_def Delivery_new_def split: if_splits)

lemma ingest_miss:
  assumes "idem_get rd now (idempotencyKey q) (ig_cache s) = None" "ingest rd now uuids dests q s = (s1, Inr resp)"
  obtains t ds where
    "validateRequest (Some q) = Inr ()" "toDomain now (uuids 0) q = Inr t"
    "make_deliveries now uuids 1 (tr_id t)
       (filter (\<lambda>x. matchesEventFilter x (match_event t (payload_record (iq_resultPayload q)))) dests) = Inr ds"
    "ig_results s1 = ig_results s @ [t]" "ig_deliveries s1 = ig_deliveries s @ ds"
    "ig_jobs s1 = ig_jobs s @ map (\<lambda>d. (tr_id t, dl_destinationId d, 1)) ds"
    "resp = \<lparr> ir_resultId = tr_id t, ir_deliveryCount = int (length ds), ir_timestamp = now \<rparr>"
    "ig_cache s1 = idem_set rd now (idempotencyKey q) resp 24 (ig_cache s)"
proof -
  from assms obtain t ds where *: "validateRequest (Some q) = Inr ()" "toDomain now (uuids 0) q = Inr t"
    "make_deliveries now uuids 1 (tr_id t)
       (filter (\<lambda>x. matchesEventFilter x (match_event t (payload_record (iq_resultPayload q)))) dests) = Inr ds"
    unfolding ingest_def Let_def
    by (auto split: sum.splits option.splits)
  then have "length ds = length (filter (\<lambda>x. matchesEventFilter x (match_event t (payload_record (iq_resultPayload q)))) dests)"
    using make_deliveries_spec by (metis length_map)
  with * show thesis
    using assms by (intro that [of t ds]) (auto simp: ingest_def Let_def)
qed

text \<open>C8: A request ingested for the first time makes one result and, for every active destination whose
  filter its payload matches, in order, one pending delivery with one job. A later request with the
  same e-mail, agent and version, within the 24 hours the cache keeps the key, answers with the first
  one's result and count and changes nothing, whatever its payload.\<close>
theorem ingest_fans_out_once:
  assumes "redis_laws rd" "idem_get rd now (idempotencyKey q) (ig_cache s) = None"
    and "ingest rd now uuids dests q s = (s1, Inr resp)"
    and "idempotencyKey q' = idempotencyKey q" "validateRequest (Some q') = Inr ()"
    and "now \<le> now'" "now' < now + 24 * 3600000"
  shows "(\<exists>t ds. ig_results s1 = ig_results s @ [t] \<and> ir_resultId resp = tr_id t \<and>
       ig_deliveries s1 = ig_deliveries s @ ds \<and>
       ig_jobs s1 = ig_jobs s @ map (\<lambda>d. (tr_id t, dl_destinationId d, 1)) ds \<and>
       map dl_destinationId ds = map ds_id (filter (\<lambda>x. matchesEventFilter x
         (match_event t (payload_record (iq_resultPayload q)))) dests) \<and>
       list_all (\<lambda>d. dl_status d = PENDING \<and> dl_taskResultId d = tr_id t \<and> dl_retryCount d = 0) ds \<and>
       ir_deliveryCount resp = int (length ds)) \<and>
     ingest rd now' uuids' dests' q' s1 = (s1, Inr resp)"
proof -
  obtain t ds where i: "make_deliveries now uuids 1 (tr_id t)
       (filter (\<lambda>x. matchesEventFilter x (match_event t (payload_record (iq_resultPayload q)))) dests) = Inr ds"
    "ig_results s1 = ig_results s @ [t]" "ig_deliveries s1 = ig_deliveries s @ ds"
    "ig_jobs s1 = ig_jobs s @ map (\<lambda>d. (tr_id t, dl_destinationId d, 1)) ds"
    "resp = \<lparr> ir_resultId = tr_id t, ir_deliveryCount = int (length ds), ir_timestamp = now \<rparr>"
    "ig_cache s1 = idem_set rd now (idempotencyKey q) resp 24 (ig_cache s)"
    by (rule ingest_miss [OF assms(2,3)])
  have "map_option wr_value (idem_get rd now' (idempotencyKey q') (ig_cache s1)) = Some resp"
    using assms(4,7) i(6) by (simp add: idem_get_set [OF assms(1,6)])
  then have "ingest rd now' uuids' dests' q' s1 = (s1, Inr resp)"
    using assms(5) by (auto simp: ingest_def)
  moreover have "\<exists>t ds. ig_results s1 = ig_results s @ [t] \<and> ir_resultId resp = tr_id t \<and>
       ig_deliveries s1 = ig_deliveries s @ ds \<and>
       ig_jobs s1 = ig_jobs s @ map (\<lambda>d. (tr_id t, dl_destinationId d, 1)) ds \<and>
       map dl_destinationId ds = map ds_id (filter (\<lambda>x. matchesEventFilter x
         (match_event t (payload_record (iq_resultPayload q)))) dests) \<and>
       list_all (\<lambda>d. dl_status d = PENDING \<and> dl_taskResultId d = tr_id t \<and> dl_retryCount d = 0) ds \<and>
       ir_deliveryCount resp = int (length ds)"
    using make_deliveries_spec [OF i(1)] i(2-5) by (intro exI [of _ t] exI [of _ ds]) simp
  ultimately show ?thesis by blast
qed

lemma toDomain_fields:
  assumes "toDomain now uuid q = Inr t"
  shows "EmailId_new (JStr (iq_emailId q)) = Inr (tr_emailId t)" "AgentId_new (JStr (iq_agentId q)) = Inr (tr_agentId t)"
    "iq_agentVersion q \<noteq> [] \<Longrightarrow> tr_agentVersion t = iq_agentVersion q"
  using assms by (auto simp: toDomain_def AiTaskResult_new_def)

text \<open>The idempotency key is made from the request's raw e-mail, while \<open>EmailId\<close> trims it and compares
  without regard to case: two requests for the same e-mail, agent and version, written in different
  case or with outer blanks, are both ingested, and the store holds two results that the domain
  takes for results of the same e-mail.\<close>
theorem ingest_misses_normalised_duplicates:
  assumes "redis_laws rd"
    and "idem_get rd now (idempotencyKey q) (ig_cache s) = None" "idem_get rd now' (idempotencyKey q') (ig_cache s) = None"
    and "idempotencyKey q' \<noteq> idempotencyKey q"
    and "EmailId_new (JStr (iq_emailId q)) = Inr a" "EmailId_new (JStr (iq_emailId q')) = Inr b" "EmailId_equals a b"
    and "iq_agentId q' = iq_agentId q" "iq_agentVersion q' = iq_agentVersion q"
    and "ingest rd now uuids dests q s = (s1, Inr resp)" "ingest rd now' uuids' dests' q' s1 = (s2, Inr resp')"
  shows "\<exists>t t'. ig_results s2 = ig_results s @ [t, t'] \<and> EmailId_equals (tr_emailId t) (tr_emailId t') \<and>
     tr_agentId t' = tr_agentId t \<and> tr_agentVersion t' = tr_agentVersion t"
proof -
  obtain t where t: "validateRequest (Some q) = Inr ()" "toDomain now (uuids 0) q = Inr t"
    "ig_results s1 = ig_results s @ [t]" "ig_cache s1 = idem_set rd now (idempotencyKey q) resp 24 (ig_cache s)"
    by (rule ingest_miss [OF assms(2,10)])
  have "idem_get rd now' (idempotencyKey q') (ig_cache s1) = None"
    using assms(3) t(4) by (simp add: idem_get_other [OF assms(1,4)])
  then obtain t' where t': "toDomain now' (uuids' 0) q' = Inr t'" "ig_results s2 = ig_results s1 @ [t']"
    by (rule ingest_miss [OF _ assms(11)])
  have "iq_agentVersion q \<noteq> []" using t(1) by (auto simp: validateRequest_def)
  then show ?thesis
    using toDomain_fields [OF t(2)] toDomain_fields [OF t'(1)] t(3) t'(2) assms(5-9) by auto
qed

subsection \<open>An example\<close>

definition example_request :: "string \<Rightarrow> ingest_request" where
  "example_request email = \<lparr> iq_emailId = email, iq_agentId = ''a1'', iq_agentVersion = ''1.0.0'',
     iq_confidenceScore = Some 1, iq_resultPayload = PRecord [(''kind'', VStr ''x'')] 12, iq_llmMetadata = None \<rparr>"

definition empty_ingest :: "(string, ingest_response wrapped \<times> ms option) js_map ingest_state" where
  "empty_ingest = \<lparr> ig_results = [], ig_deliveries = [], ig_jobs = [], ig_cache = [] \<rparr>"

definition example_destination :: Destination where
  "example_destination = \<lparr> ds_id = ''w1'', ds_type = WEBHOOK, ds_endpoint = ''https://h'', ds_eventFilters = None,
     ds_retryStrategy = \<lparr> rs_type = ''FIXED'', rs_config = \<lparr> initialDelayMs = 1000, maxDelayMs = 1000, jitterFactor = 0,
       maxRetries = Some 5 \<rparr> \<rparr>, ds_circuitBreakerThreshold = 5, ds_timeout = 30000, ds_enabled = True,
     ds_metadata = [], ds_createdAt = 0, ds_updatedAt = 0, ds_deletedAt = None \<rparr>"

lemma example_ids:
  "EmailId_new (JStr ''a@b.co'') = Inr ''a@b.co''" "EmailId_new (JStr ''A@b.co'') = Inr ''A@b.co''"
  "EmailId_equals ''a@b.co'' ''A@b.co''" "AgentId_new (JStr ''a1'') = Inr ''a1''" "semver ''1.0.0''"
  by code_simp+

lemma example_valid:
  assumes "e = ''a@b.co'' \<or> e = ''A@b.co''"
  shows "validateRequest (Some (example_request e)) = Inr ()"
    "\<exists>t. toDomain now uuid (example_request e) = Inr t \<and> tr_id t = uuid"
  using assms
  by (auto simp: validateRequest_def example_request_def example_ids validatePayload_def ConfidenceScore_new_def
      toDomain_def AiTaskResult_new_def score_of_def)

lemma example_ingest:
  assumes "e = ''a@b.co'' \<or> e = ''A@b.co''" "idem_get list_redis now (idempotencyKey (example_request e)) (ig_cache s) = None"
  shows "\<exists>s1 resp. ingest list_redis now (\<lambda>_. ''u'') [example_destination] (example_request e) s = (s1, Inr resp)"
proof -
  obtain t where t: "toDomain now ''u'' (example_request e) = Inr t" "tr_id t = ''u''"
    using example_valid(2) [OF assms(1)] by blast
  have "\<exists>d. Delivery_create now ''u'' ''u'' (ds_id example_destination) None = Inr d"
    by (simp add: Delivery_create_def Delivery_new_def example_destination_def)
  then obtain d where "Delivery_create now ''u'' ''u'' (ds_id example_destination) None = Inr d" by blast
  moreover have "matchesEventFilter example_destination x" for x
    by (simp add: matchesEventFilter_def example_destination_def)
  ultimately show ?thesis
    using assms(2) t example_valid(1) [OF assms(1)] by (simp add: ingest_def Let_def)
qed

theorem ingest_fans_out_once_witness:
  "\<exists>s1 resp. ingest list_redis 5 (\<lambda>_. ''u'') [example_destination] (example_request ''a@b.co'') empty_ingest = (s1, Inr resp) \<and>
     ingest list_redis 9 (\<lambda>_. ''v'') [] (example_request ''a@b.co'') s1 = (s1, Inr resp)"
proof -
  have miss: "idem_get list_redis 5 (idempotencyKey (example_request ''a@b.co'')) (ig_cache empty_ingest) = None"
    by (simp add: idem_get_def list_redis_def empty_ingest_def)
  obtain s1 resp where s1: "ingest list_redis 5 (\<lambda>_. ''u'') [example_destination] (example_request ''a@b.co'') empty_ingest = (s1, Inr resp)"
    using example_ingest [of "''a@b.co''" 5 empty_ingest] miss by auto
  have "validateRequest (Some (example_request ''a@b.co'')) = Inr ()" by (rule example_valid) simp
  from ingest_fans_out_once [OF list_redis_laws miss s1 refl this, of 9 "\<lambda>_. ''v''" "[]"]
  have "ingest list_redis 9 (\<lambda>_. ''v'') [] (example_request ''a@b.co'') s1 = (s1, Inr resp)" by simp
  with s1 show ?thesis by (intro exI conjI)
qed

theorem ingest_misses_normalised_duplicates_witness:
  "\<exists>s1 s2 r1 r2. ingest list_redis 5 (\<lambda>_. ''u'') [example_destination] (example_request ''a@b.co'') empty_ingest = (s1, Inr r1) \<and>
     ingest list_redis 9 (\<lambda>_. ''u'') [example_destination] (example_request ''A@b.co'') s1 = (s2, Inr r2) \<and>
     length (ig_results s2) = 2"
proof -
  let ?q = "example_request ''a@b.co''" and ?q' = "example_request ''A@b.co''"
  have miss: "idem_get list_redis 5 (idempotencyKey ?q) (ig_cache empty_ingest) = None"
    "idem_get list_redis 9 (idempotencyKey ?q') (ig_cache empty_ingest) = None"
    by (simp_all add: idem_get_def list_redis_def empty_ingest_def)
  have ne: "idempotencyKey ?q' \<noteq> idempotencyKey ?q" by (simp add: idempotencyKey_def example_request_def)
  obtain s1 r1 where s1: "ingest list_redis 5 (\<lambda>_. ''u'') [example_destination] ?q empty_ingest = (s1, Inr r1)"
    using example_ingest [of "''a@b.co''" 5 empty_ingest] miss by auto
  have "ig_cache s1 = idem_set list_redis 5 (idempotencyKey ?q) r1 24 (ig_cache empty_ingest)"
    by (rule ingest_miss [OF miss(1) s1])
  then have "idem_get list_redis 9 (idempotencyKey ?q') (ig_cache s1) = None"
    using miss(2) by (simp add: idem_get_other [OF list_redis_laws ne])
  then obtain s2 r2 where s2: "ingest list_redis 9 (\<lambda>_. ''u'') [example_destination] ?q' s1 = (s2, Inr r2)"
    using example_ingest [of "''A@b.co''" 9 s1] by auto
  have em: "EmailId_new (JStr (iq_emailId ?q)) = Inr ''a@b.co''" "EmailId_new (JStr (iq_emailId ?q')) = Inr ''A@b.co''"
    by (simp_all add: example_request_def example_ids)
  have "\<exists>t t'. ig_results s2 = ig_results empty_ingest @ [t, t'] \<and> EmailId_equals (tr_emailId t) (tr_emailId t') \<and>
      tr_agentId t' = tr_agentId t \<and> tr_agentVersion t' = tr_agentVersion t"
    by (rule ingest_misses_normalised_duplicates [OF list_redis_laws miss ne em example_ids(3) _ _ s1 s2])
      (simp_all add: example_request_def)
  then show ?thesis using s1 s2 by (auto simp: empty_ingest_def)
qed

end
