(* ===== verification/QF_RateLimit.thy ===== *)
theory QF_RateLimit
  imports QF_Redis
begin

text \<open>
  Rate limiting (\<open>security/rate-limiting\<close> and \<open>security/rate-limit\<close>): the token bucket, the sliding
  window counter with the limiter built on it, the distributed token bucket, quotas, and the small
  limiters and tables beside them. Redis clients are the records of \<open>QF_Redis\<close>; each limiter keeps
  its in-memory fallback in its state.
\<close>

subsection \<open>TokenBucket\<close>

record bucket =
  bk_tokens :: rat
  bk_lastRefill :: ms

record TokenBucket =
  tb_memory :: "(string, bucket) js_map"
  tb_capacity :: rat
  tb_refillRate :: rat

text \<open>The second argument of the constructor is a capacity or a logger.\<close>

datatype capacity_arg = CapacityArg rat | LoggerArg

definition TokenBucket_new :: "capacity_arg \<Rightarrow> rat \<Rightarrow> rat \<Rightarrow> TokenBucket" where
  "TokenBucket_new arg refillRateParam refillIntervalMs = (case arg of
       CapacityArg c \<Rightarrow> \<lparr> tb_memory = [], tb_capacity = c, tb_refillRate = refillRateParam \<rparr>
     | LoggerArg \<Rightarrow> \<lparr> tb_memory = [], tb_capacity = (if refillRateParam > 0 then refillRateParam else 100),
         tb_refillRate = rat_or (Some refillIntervalMs) 10 \<rparr>)"

definition tb_key :: "string \<Rightarrow> string" where
  "tb_key k = ''queueforge:ratelimit:tb:'' @ k"

text \<open>The bucket of a key, found or new, refilled: a bucket that was found gains at least
  \<open>refillRate\<close> tokens, however little time has passed.\<close>

definition refill_bucket :: "TokenBucket \<Rightarrow> ms \<Rightarrow> bucket option \<Rightarrow> bucket" where
  "refill_bucket b now found =
     (let state = nullish_or found \<lparr> bk_tokens = tb_capacity b, bk_lastRefill = now \<rparr>;
          elapsedSec = max 0 (of_int (now - bk_lastRefill state) / 1000);
          refilled = (if found = None then 0 else max (tb_refillRate b) (of_int (floor (elapsedSec * tb_refillRate b)))) in
      \<lparr> bk_tokens = min (tb_capacity b) (bk_tokens state + refilled), bk_lastRefill = now \<rparr>)"

definition take_tokens :: "rat \<Rightarrow> bucket \<Rightarrow> bool \<times> bucket" where
  "take_tokens n st = (if bk_tokens st \<ge> n then (True, st\<lparr> bk_tokens := bk_tokens st - n \<rparr>) else (False, st))"

definition store_bucket :: "(bucket, 's) key_client \<Rightarrow> ms \<Rightarrow> string \<Rightarrow> bucket \<Rightarrow> 's \<Rightarrow> unit + 's" where
  "store_bucket kc now k st s = (case kc_setex kc of
       Some setex \<Rightarrow> setex now k 3600 st s
     | None \<Rightarrow> (case kc_set kc of Some f \<Rightarrow> f now k st 3600 s | None \<Rightarrow> Inr s))"

text \<open>The fallback in memory.\<close>

definition tb_consume_memory :: "ms \<Rightarrow> string \<Rightarrow> rat \<Rightarrow> TokenBucket \<Rightarrow> bool \<times> TokenBucket" where
  "tb_consume_memory now k n b =
     (case take_tokens n (refill_bucket b now (mget (tb_memory b) k)) of (granted, st) \<Rightarrow>
        (granted, b\<lparr> tb_memory := mset_at k st (tb_memory b) \<rparr>))"

definition tryConsume ::
  "(bucket, 's) key_client option \<Rightarrow> ms \<Rightarrow> string \<Rightarrow> rat \<Rightarrow> TokenBucket \<times> 's \<Rightarrow> bool \<times> TokenBucket \<times> 's" where
  "tryConsume client now k n bs = (case bs of (b, s) \<Rightarrow>
     let memory = (case tb_consume_memory now k n b of (granted, b') \<Rightarrow> (granted, b', s)) in
     case client of None \<Rightarrow> memory
     | Some kc \<Rightarrow>
         (case kc_get kc of None \<Rightarrow> memory
          | Some get \<Rightarrow>
            (case get now (tb_key k) s of Inl _ \<Rightarrow> memory
             | Inr raw \<Rightarrow>
               (case take_tokens n (refill_bucket b now raw) of (granted, st) \<Rightarrow>
                 (case store_bucket kc now (tb_key k) st s of Inl _ \<Rightarrow> memory
                  | Inr s' \<Rightarrow> (granted, b, s'))))))"

text \<open>\<open>getAvailable\<close> refills by the elapsed time alone.\<close>

definition available_in :: "TokenBucket \<Rightarrow> ms \<Rightarrow> bucket \<Rightarrow> rat" where
  "available_in b now st = min (tb_capacity b)
     (bk_tokens st + of_int (floor (of_int (now - bk_lastRefill st) / 1000 * tb_refillRate b)))"

definition getAvailable :: "(bucket, 's) key_client option \<Rightarrow> ms \<Rightarrow> string \<Rightarrow> TokenBucket \<times> 's \<Rightarrow> rat" where
  "getAvailable client now k bs = (case bs of (b, s) \<Rightarrow>
     let memory = (case mget (tb_memory b) k of None \<Rightarrow> tb_capacity b | Some st \<Rightarrow> available_in b now st) in
     case client of None \<Rightarrow> memory
     | Some kc \<Rightarrow> (case kc_get kc of None \<Rightarrow> memory
         | Some get \<Rightarrow> (case get now (tb_key k) s of Inr (Some st) \<Rightarrow> available_in b now st | _ \<Rightarrow> memory)))"

definition tb_refill :: "(bucket, 's) key_client option \<Rightarrow> ms \<Rightarrow> string \<Rightarrow> TokenBucket \<times> 's \<Rightarrow> rat \<times> TokenBucket \<times> 's" where
  "tb_refill client now k bs = (case bs of (b, s) \<Rightarrow>
     let st = \<lparr> bk_tokens = tb_capacity b, bk_lastRefill = now \<rparr>;
         b' = b\<lparr> tb_memory := mset_at k st (tb_memory b) \<rparr> in
     case client of None \<Rightarrow> (tb_capacity b, b', s)
     | Some kc \<Rightarrow> (case kc_set kc of None \<Rightarrow> (tb_capacity b, b', s)
         | Some f \<Rightarrow> (case f now (tb_key k) st 3600 s of Inl _ \<Rightarrow> (tb_capacity b, b', s) | Inr s' \<Rightarrow> (tb_capacity b, b', s'))))"

subsection \<open>SlidingWindowCounter\<close>

record SlidingWindowCounter =
  sw_fallback :: "(string, ms list) js_map"

definition sw_key :: "string \<Rightarrow> string" where
  "sw_key k = ''queueforge:ratelimit:sw:'' @ k"

definition request_id :: "ms \<Rightarrow> string \<Rightarrow> string" where
  "request_id now hex = show_int now @ ''-'' @ hex"

definition sw_count_memory :: "ms \<Rightarrow> int \<Rightarrow> string \<Rightarrow> SlidingWindowCounter \<Rightarrow> int \<times> SlidingWindowCounter" where
  "sw_count_memory now windowMs k c =
     (let valid = filter (\<lambda>ts. ts > now - windowMs) (nullish_or (mget (sw_fallback c) k) []) @ [now] in
      (int (length valid), c\<lparr> sw_fallback := mset_at k valid (sw_fallback c) \<rparr>))"

text \<open>The random half of the request id is an argument. \<open>pexpire\<close> is left out: it drops a key whose hits
  are all out of the window.\<close>

definition sw_increment ::
  "'s set_client option \<Rightarrow> ms \<Rightarrow> string \<Rightarrow> int \<Rightarrow> string \<Rightarrow> SlidingWindowCounter \<times> 's \<Rightarrow> int \<times> SlidingWindowCounter \<times> 's" where
  "sw_increment client now hex windowMs k cs = (case cs of (c, s) \<Rightarrow>
     let memory = (\<lambda>t. case sw_count_memory now windowMs k c of (n, c') \<Rightarrow> (n, c', t)) in
     case client of None \<Rightarrow> memory s
     | Some sc \<Rightarrow>
         (case sc_zadd sc of None \<Rightarrow> memory s
          | Some zadd \<Rightarrow>
            (case (case sc_zremrangebyscore sc of None \<Rightarrow> Inr s | Some z \<Rightarrow> z (sw_key k) 0 (now - windowMs) s) of
               Inl _ \<Rightarrow> memory s
             | Inr s1 \<Rightarrow>
               (case zadd (sw_key k) now (request_id now hex) s1 of Inl _ \<Rightarrow> memory s1
                | Inr s2 \<Rightarrow>
                  (case sc_zcard sc of None \<Rightarrow> memory s2
                   | Some zcard \<Rightarrow> (case zcard (sw_key k) s2 of Inl _ \<Rightarrow> memory s2 | Inr n \<Rightarrow> (n, c, s2)))))))"

definition sw_getCount :: "'s set_client option \<Rightarrow> ms \<Rightarrow> int \<Rightarrow> string \<Rightarrow> SlidingWindowCounter \<times> 's \<Rightarrow> int" where
  "sw_getCount client now windowMs k cs = (case cs of (c, s) \<Rightarrow>
     let memory = int (length (filter (\<lambda>ts. ts > now - windowMs) (nullish_or (mget (sw_fallback c) k) []))) in
     case client of None \<Rightarrow> memory
     | Some sc \<Rightarrow> (case sc_zcount sc of None \<Rightarrow> memory
         | Some zcount \<Rightarrow> (case zcount (sw_key k) (now - windowMs) s of Inl _ \<Rightarrow> memory | Inr n \<Rightarrow> n)))"

definition sw_reset :: "'s set_client option \<Rightarrow> string \<Rightarrow> SlidingWindowCounter \<times> 's \<Rightarrow> SlidingWindowCounter \<times> 's" where
  "sw_reset client k cs = (case cs of (c, s) \<Rightarrow>
     let c' = c\<lparr> sw_fallback := mdel k (sw_fallback c) \<rparr> in
     case client of None \<Rightarrow> (c', s)
     | Some sc \<Rightarrow> (case sc_delete sc of None \<Rightarrow> (c', s)
         | Some del \<Rightarrow> (case del (sw_key k) s of Inl _ \<Rightarrow> (c', s) | Inr s' \<Rightarrow> (c', s'))))"

subsection \<open>RateLimiter on the sliding window\<close>

record RateLimiter =
  rl_counter :: SlidingWindowCounter
  rl_defaultLimit :: int
  rl_defaultWindowMs :: int

text \<open>The settings may be at the top of the configuration or under \<open>rateLimiting\<close>.\<close>

definition RateLimiter_new :: "int option \<Rightarrow> int option \<Rightarrow> int option \<Rightarrow> int option \<Rightarrow> RateLimiter" where
  "RateLimiter_new maxRequests windowMs nestedMaxRequests nestedWindowMs =
     \<lparr> rl_counter = \<lparr> sw_fallback = [] \<rparr>, rl_defaultLimit = num_or maxRequests (num_or nestedMaxRequests 100),
       rl_defaultWindowMs = num_or windowMs (num_or nestedWindowMs 60000) \<rparr>"

record RateLimitCheckResult =
  rc_allowed :: bool
  rc_limit :: int
  rc_remaining :: int
  rc_resetTime :: ms
  rc_retryAfterSeconds :: int

definition with_counter ::
  "RateLimiter \<times> 's \<Rightarrow> (SlidingWindowCounter \<times> 's \<Rightarrow> 'a \<times> SlidingWindowCounter \<times> 's) \<Rightarrow> 'a \<times> RateLimiter \<times> 's" where
  "with_counter ls f = (case ls of (l, s) \<Rightarrow>
     (case f (rl_counter l, s) of (x, c, s') \<Rightarrow> (x, l\<lparr> rl_counter := c \<rparr>, s')))"

definition checkLimit ::
  "'s set_client option \<Rightarrow> ms \<Rightarrow> string \<Rightarrow> string \<Rightarrow> int option \<Rightarrow> int option \<Rightarrow> RateLimiter \<times> 's \<Rightarrow>
   RateLimitCheckResult \<times> RateLimiter \<times> 's" where
  "checkLimit client now hex k limitArg windowArg ls =
     (let limit = nullish_or limitArg (rl_defaultLimit (fst ls));
          windowMs = nullish_or windowArg (rl_defaultWindowMs (fst ls)) in
      case with_counter ls (sw_increment client now hex windowMs k) of (currentCount, ls') \<Rightarrow>
        (\<lparr> rc_allowed = (currentCount \<le> limit), rc_limit = limit, rc_remaining = max 0 (limit - currentCount),
           rc_resetTime = now + windowMs, rc_retryAfterSeconds = ceiling (of_int windowMs / 1000 :: rat) \<rparr>, ls'))"

text \<open>\<open>consumeOrThrow\<close>: the error carries the result's fields.\<close>

definition consumeOrThrow ::
  "'s set_client option \<Rightarrow> ms \<Rightarrow> string \<Rightarrow> string \<Rightarrow> int option \<Rightarrow> int option \<Rightarrow> RateLimiter \<times> 's \<Rightarrow>
   (RateLimitCheckResult + RateLimitCheckResult) \<times> RateLimiter \<times> 's" where
  "consumeOrThrow client now hex k limitArg windowArg ls =
     (case checkLimit client now hex k limitArg windowArg ls of (r, ls') \<Rightarrow>
        (if rc_allowed r then Inr r else Inl r, ls'))"

definition rl_isAllowed ::
  "'s set_client option \<Rightarrow> ms \<Rightarrow> string \<Rightarrow> string \<Rightarrow> int option \<Rightarrow> RateLimiter \<times> 's \<Rightarrow> bool \<times> RateLimiter \<times> 's" where
  "rl_isAllowed client now hex k limitArg ls =
     (case checkLimit client now hex k limitArg None ls of (r, ls') \<Rightarrow> (rc_allowed r, ls'))"

text \<open>\<open>increment\<close> with a count; the clock readings and random parts of the rounds are a list.\<close>

fun rl_increment ::
  "'s set_client option \<Rightarrow> (ms \<times> string) list \<Rightarrow> string \<Rightarrow> int \<Rightarrow> RateLimiter \<times> 's \<Rightarrow> int \<times> RateLimiter \<times> 's" where
  "rl_increment client [] k n ls = (n, ls)"
| "rl_increment client ((now, hex) # rounds) k n ls =
     (case with_counter ls (sw_increment client now hex (rl_defaultWindowMs (fst ls)) k) of (n', ls') \<Rightarrow>
        rl_increment client rounds k n' ls')"

definition rl_reset :: "'s set_client option \<Rightarrow> string \<Rightarrow> RateLimiter \<times> 's \<Rightarrow> RateLimiter \<times> 's" where
  "rl_reset client k ls = snd (with_counter ls (\<lambda>cs. ((), sw_reset client k cs)))"

definition getRemaining :: "'s set_client option \<Rightarrow> ms \<Rightarrow> string \<Rightarrow> int option \<Rightarrow> RateLimiter \<times> 's \<Rightarrow> int" where
  "getRemaining client now k limitArg ls =
     max 0 (nullish_or limitArg (rl_defaultLimit (fst ls)) -
       sw_getCount client now (rl_defaultWindowMs (fst ls)) k (rl_counter (fst ls), snd ls))"

definition getHeaders :: "RateLimitCheckResult \<Rightarrow> (string \<times> string) list" where
  "getHeaders r =
     [(''X-RateLimit-Limit'', show_int (rc_limit r)), (''X-RateLimit-Remaining'', show_int (rc_remaining r)),
      (''X-RateLimit-Reset'', show_int (ceiling (of_int (rc_resetTime r) / 1000 :: rat)))] @
     (if rc_allowed r then [] else [(''Retry-After'', show_int (rc_retryAfterSeconds r))])"

subsection \<open>The distributed token bucket\<close>

text \<open>\<open>security/rate-limit/rate-limiter.ts\<close>: the bucket is in Redis, and is written only when a request is
  allowed.\<close>

definition rate_key :: "string \<Rightarrow> string" where
  "rate_key k = ''rate_limiter:'' @ k"

definition getRefilledBucket :: "(bucket, 's) redis \<Rightarrow> ms \<Rightarrow> string \<Rightarrow> int \<Rightarrow> int \<Rightarrow> 's \<Rightarrow> bucket" where
  "getRefilledBucket rd now k limit windowSeconds s =
     (let refillRate = of_int limit / of_int windowSeconds in
      case rd_get rd now (rate_key k) s of
        None \<Rightarrow> \<lparr> bk_tokens = of_int limit, bk_lastRefill = now \<rparr>
      | Some st \<Rightarrow> \<lparr> bk_tokens = min (of_int limit) (bk_tokens st + of_int (now - bk_lastRefill st) / 1000 * refillRate),
          bk_lastRefill = now \<rparr>)"

definition isAllowed :: "(bucket, 's) redis \<Rightarrow> ms \<Rightarrow> string \<Rightarrow> int \<Rightarrow> int \<Rightarrow> 's \<Rightarrow> bool \<times> 's" where
  "isAllowed rd now k limit windowSeconds s =
     (let st = getRefilledBucket rd now k limit windowSeconds s in
      if bk_tokens st \<ge> 1
      then (True, rd_setex rd now (rate_key k) windowSeconds (st\<lparr> bk_tokens := bk_tokens st - 1 \<rparr>) s)
      else (False, s))"

definition getRemainingRequests :: "(bucket, 's) redis \<Rightarrow> ms \<Rightarrow> string \<Rightarrow> int \<Rightarrow> int \<Rightarrow> 's \<Rightarrow> int" where
  "getRemainingRequests rd now k limit windowSeconds s =
     max 0 (floor (bk_tokens (getRefilledBucket rd now k limit windowSeconds s)))"

record rate_stats =
  st_requests :: int
  st_resetAt :: rat
  st_remainingMs :: int

definition getStats :: "(bucket, 's) redis \<Rightarrow> ms \<Rightarrow> string \<Rightarrow> int \<Rightarrow> int \<Rightarrow> 's \<Rightarrow> rate_stats" where
  "getStats rd now k limit windowSeconds s =
     (let st = getRefilledBucket rd now k limit windowSeconds s;
          refillRate = of_int limit / of_int windowSeconds :: rat;
          remainingMs = (if refillRate > 0 then (of_int limit - bk_tokens st) / refillRate * 1000 else 0) in
      \<lparr> st_requests = max 0 (js_round (of_int limit - bk_tokens st)), st_resetAt = of_int now + remainingMs,
        st_remainingMs = js_round remainingMs \<rparr>)"

text \<open>\<open>checkLimit\<close> of this class: the answer, what remains, and the events emitted.\<close>

definition checkLimit_bucket ::
  "(bucket, 's) redis \<Rightarrow> ms \<Rightarrow> string \<Rightarrow> int \<Rightarrow> int \<Rightarrow> 's \<Rightarrow> (bool \<times> int \<times> rat \<times> bool) \<times> 's" where
  "checkLimit_bucket rd now k maxRequests windowSeconds s =
     (case isAllowed rd now k maxRequests windowSeconds s of (allowed, s') \<Rightarrow>
        ((allowed, getRemainingRequests rd now k maxRequests windowSeconds s',
          st_resetAt (getStats rd now k maxRequests windowSeconds s'), \<not> allowed), s'))"

subsection \<open>Quotas\<close>

text \<open>\<open>None\<close> is an infinite limit.\<close>

record quota_tier =
  qt_hourlyLimit :: "int option"
  qt_dailyLimit :: "int option"

definition QUOTA_TIERS :: "string \<Rightarrow> quota_tier" where
  "QUOTA_TIERS tier =
     (if upper tier = ''PRO'' then \<lparr> qt_hourlyLimit = Some 10000, qt_dailyLimit = Some 100000 \<rparr>
      else if upper tier = ''ENTERPRISE'' then \<lparr> qt_hourlyLimit = None, qt_dailyLimit = None \<rparr>
      else \<lparr> qt_hourlyLimit = Some 100, qt_dailyLimit = Some 1000 \<rparr>)"

record QuotaTracker =
  qk_memoryUsage :: "(string, int) js_map"
  qk_definitions :: "(string, int) js_map"

definition QuotaTracker_new :: "(string \<times> int) list \<Rightarrow> QuotaTracker" where
  "QuotaTracker_new defs = \<lparr> qk_memoryUsage = [],
     qk_definitions = fold (\<lambda>(name, limit). if name = [] then id else mset_at name limit) defs [] \<rparr>"

datatype period = Hour | Day | Month

definition period_name :: "period \<Rightarrow> string" where
  "period_name p = (case p of Hour \<Rightarrow> ''hour'' | Day \<Rightarrow> ''day'' | Month \<Rightarrow> ''month'')"

text \<open>\<open>stamp\<close> is the ISO text of the clock; its prefix tells the period apart.\<close>

definition getQuotaKey :: "string \<Rightarrow> string \<Rightarrow> period \<Rightarrow> string" where
  "getQuotaKey stamp apiKeyId p = ''queueforge:quota:'' @ apiKeyId @ '':'' @ period_name p @ '':'' @
     take (case p of Hour \<Rightarrow> 13 | Day \<Rightarrow> 10 | Month \<Rightarrow> 7) stamp"

definition usage_of :: "QuotaTracker \<Rightarrow> string \<Rightarrow> int" where
  "usage_of q k = nullish_or (mget (qk_memoryUsage q) k) 0"

text \<open>The client's \<open>incrby\<close> is \<open>incr\<close>; one that is missing or fails changes nothing.\<close>

definition trackUsage ::
  "(string \<Rightarrow> int \<Rightarrow> 's \<Rightarrow> 's) \<Rightarrow> string \<Rightarrow> string \<Rightarrow> int \<Rightarrow> QuotaTracker \<times> 's \<Rightarrow> QuotaTracker \<times> 's" where
  "trackUsage incr stamp apiKeyId count qs =
     (if apiKeyId = [] then qs
      else fold (\<lambda>p (q, s). let k = getQuotaKey stamp apiKeyId p in
             (q\<lparr> qk_memoryUsage := mset_at k (usage_of q k + count) (qk_memoryUsage q) \<rparr>, incr k count s))
        [Hour, Day, Month] qs)"

text \<open>The stored count, when the client answers with one, or the count in memory.\<close>

definition getCurrentCount :: "(string \<Rightarrow> 's \<Rightarrow> int option) \<Rightarrow> string \<Rightarrow> string \<Rightarrow> period \<Rightarrow> QuotaTracker \<times> 's \<Rightarrow> int" where
  "getCurrentCount get stamp apiKeyId p qs = (case qs of (q, s) \<Rightarrow>
     let k = getQuotaKey stamp apiKeyId p in nullish_or (get k s) (usage_of q k))"

definition quota_limit :: "QuotaTracker \<Rightarrow> string \<Rightarrow> string \<Rightarrow> int option" where
  "quota_limit q tierOrOperation operationParam =
     (case mget (qk_definitions q) tierOrOperation of Some l \<Rightarrow> Some l
      | None \<Rightarrow> (case mget (qk_definitions q) operationParam of Some l \<Rightarrow> Some l
          | None \<Rightarrow> qt_hourlyLimit (QUOTA_TIERS tierOrOperation)))"

text \<open>Whether another request is allowed, and what remains (\<open>None\<close>: infinite). The requested count is
  not read.\<close>

definition checkQuota ::
  "(string \<Rightarrow> 's \<Rightarrow> int option) \<Rightarrow> string \<Rightarrow> string \<Rightarrow> string \<Rightarrow> string \<Rightarrow> int \<Rightarrow> QuotaTracker \<times> 's \<Rightarrow> bool \<times> int option" where
  "checkQuota get stamp apiKeyId tierOrOperation operationParam count qs =
     (case quota_limit (fst qs) tierOrOperation operationParam of
        None \<Rightarrow> (True, None)
      | Some limit \<Rightarrow>
          let currentUsage = getCurrentCount get stamp apiKeyId Hour qs in
          (currentUsage < limit, Some (max 0 (limit - currentUsage))))"

definition resetQuota ::
  "(string \<Rightarrow> 's \<Rightarrow> 's) \<Rightarrow> string \<Rightarrow> string \<Rightarrow> QuotaTracker \<times> 's \<Rightarrow> QuotaTracker \<times> 's" where
  "resetQuota delete stamp apiKeyId qs =
     fold (\<lambda>p (q, s). let k = getQuotaKey stamp apiKeyId p in
             (q\<lparr> qk_memoryUsage := mdel k (qk_memoryUsage q) \<rparr>, delete k s)) [Hour, Day, Month] qs"

datatype quota_alert = Healthy | Warning | Breached

definition evaluateUserThresholds ::
  "(string \<Rightarrow> 's \<Rightarrow> int option) \<Rightarrow> string \<Rightarrow> string \<Rightarrow> string \<Rightarrow> QuotaTracker \<times> 's \<Rightarrow> quota_alert" where
  "evaluateUserThresholds get stamp apiKeyId action qs =
     (if \<not> fst (checkQuota get stamp apiKeyId ''FREE'' action 1 qs) then Breached
      else if (of_int (getCurrentCount get stamp apiKeyId Hour qs) / 100 * 100 :: rat) > 80 then Warning else Healthy)"

subsection \<open>Tables and small limiters\<close>

record RateLimitThresholds =
  rt_requestsPerMinute :: int
  rt_requestsPerHour :: int
  rt_requestsPerDay :: int

datatype tier = Free | Premium | Enterprise

definition getThresholds :: "int option \<Rightarrow> tier \<Rightarrow> RateLimitThresholds" where
  "getThresholds perMinute tier = (let env = num_or perMinute 60 in
     case tier of
       Enterprise \<Rightarrow> \<lparr> rt_requestsPerMinute = 1000000, rt_requestsPerHour = 10000000, rt_requestsPerDay = 100000000 \<rparr>
     | Premium \<Rightarrow> \<lparr> rt_requestsPerMinute = max 300 env, rt_requestsPerHour = 10000, rt_requestsPerDay = 100000 \<rparr>
     | Free \<Rightarrow> \<lparr> rt_requestsPerMinute = min 60 env, rt_requestsPerHour = 1000, rt_requestsPerDay = 10000 \<rparr>)"

record RateLimitConfig =
  lc_defaultLimit :: int
  lc_defaultWindowSeconds :: int
  lc_perEndpoint :: "string \<Rightarrow> int option"
  lc_perApiKey :: "string \<Rightarrow> int option"
  lc_perUser :: "string \<Rightarrow> int option"

definition override :: "string option \<Rightarrow> (string \<Rightarrow> int option) \<Rightarrow> int option" where
  "override k limits = (case k of None \<Rightarrow> None | Some x \<Rightarrow> if x = [] then None else limits x)"

definition getRateLimitThreshold ::
  "RateLimitConfig \<Rightarrow> string option \<Rightarrow> string option \<Rightarrow> string option \<Rightarrow> int \<times> int" where
  "getRateLimitThreshold cfg endpoint apiKey userId =
     (case override endpoint (lc_perEndpoint cfg) of Some l \<Rightarrow> (l, lc_defaultWindowSeconds cfg)
      | None \<Rightarrow> (case override userId (lc_perUser cfg) of Some l \<Rightarrow> (l, lc_defaultWindowSeconds cfg)
        | None \<Rightarrow> (case override apiKey (lc_perApiKey cfg) of Some l \<Rightarrow> (l, lc_defaultWindowSeconds cfg)
          | None \<Rightarrow> (lc_defaultLimit cfg, lc_defaultWindowSeconds cfg))))"

definition getAdaptiveLimit :: "int \<Rightarrow> rat \<Rightarrow> int" where
  "getAdaptiveLimit baseLimit currentCpuLoadPercent =
     (if currentCpuLoadPercent > 85 then floor (of_int baseLimit * (1 / 2) :: rat)
      else if currentCpuLoadPercent > 70 then floor (of_int baseLimit * (8 / 10) :: rat) else baseLimit)"

definition calculateCost :: "string \<Rightarrow> int \<Rightarrow> int" where
  "calculateCost action payloadSize =
     (if action = ''results_ingestion'' then (if payloadSize > 10240 then 5 else 1) else 1)"

definition canAffordRequest ::
  "(int, 's) redis \<Rightarrow> ms \<Rightarrow> string \<Rightarrow> string \<Rightarrow> int \<Rightarrow> int \<Rightarrow> 's \<Rightarrow> bool \<times> 's" where
  "canAffordRequest rd now userId action payloadSize hourlyBudget s =
     (let k = ''cost:'' @ userId;
          cost = calculateCost action payloadSize;
          balance = nullish_or (rd_get rd now k s) 0 in
      if balance + cost > hourlyBudget then (False, s) else (True, rd_setex rd now k 3600 (balance + cost) s))"

definition consumeBurstTokens :: "(int, 's) redis \<Rightarrow> ms \<Rightarrow> string \<Rightarrow> int \<Rightarrow> 's \<Rightarrow> bool \<times> 's" where
  "consumeBurstTokens rd now userId tokensCount s =
     (let k = ''burst:'' @ userId;
          balance = nullish_or (rd_get rd now k s) 50 in
      if balance \<ge> tokensCount then (True, rd_setex rd now k 60 (balance - tokensCount) s) else (False, s))"

definition getJobPriority :: "string \<Rightarrow> int" where
  "getJobPriority tier = (if tier = ''enterprise'' then 1 else if tier = ''pro'' then 5 else 10)"

definition grantGracePeriod :: "(string, 's) redis \<Rightarrow> ms \<Rightarrow> string \<Rightarrow> int \<Rightarrow> 's \<Rightarrow> 's" where
  "grantGracePeriod rd now userId durationSeconds s = rd_setex rd now (''grace:'' @ userId) durationSeconds ''active'' s"

definition isInGracePeriod :: "(string, 's) redis \<Rightarrow> ms \<Rightarrow> string \<Rightarrow> 's \<Rightarrow> bool" where
  "isInGracePeriod rd now userId s \<longleftrightarrow> rd_get rd now (''grace:'' @ userId) s = Some ''active''"

definition grantOverride :: "(string, 's) redis \<Rightarrow> ms \<Rightarrow> string \<Rightarrow> int \<Rightarrow> 's \<Rightarrow> 's" where
  "grantOverride rd now userId durationSeconds s = rd_setex rd now (''override:'' @ userId) durationSeconds ''granted'' s"

definition hasOverride :: "(string, 's) redis \<Rightarrow> ms \<Rightarrow> string \<Rightarrow> 's \<Rightarrow> bool" where
  "hasOverride rd now userId s \<longleftrightarrow> rd_get rd now (''override:'' @ userId) s = Some ''granted''"

text \<open>The sliding window of \<open>sliding-window.ts\<close> on a client with sorted sets: the member is the time
  itself, so hits of the same millisecond are one member.\<close>

definition sliding_increment :: "'s sorted_sets \<Rightarrow> ms \<Rightarrow> int \<Rightarrow> string \<Rightarrow> 's \<Rightarrow> int \<times> 's" where
  "sliding_increment ss now windowMs k s =
     (let s1 = ss_zadd ss k now (show_int now) s;
          s2 = ss_zremrangebyscore ss k 0 (now - windowMs) s1 in (ss_zcard ss k s2, s2))"

record RateLimitResult =
  rr_allowed :: bool
  rr_limit :: int
  rr_remaining :: int
  rr_resetSeconds :: int

definition checkRateLimit :: "'s sorted_sets \<Rightarrow> ms \<Rightarrow> string \<Rightarrow> string \<Rightarrow> 's \<Rightarrow> RateLimitResult \<times> 's" where
  "checkRateLimit ss now identifier endpoint s =
     (case sliding_increment ss now 60000 (''ratelimit:'' @ identifier @ '':'' @ endpoint) s of (currentUsage, s') \<Rightarrow>
        (\<lparr> rr_allowed = (currentUsage \<le> 1000), rr_limit = 1000, rr_remaining = max 0 (1000 - currentUsage),
           rr_resetSeconds = 60 \<rparr>, s'))"

definition buildRateLimitKey :: "(string \<Rightarrow> string) \<Rightarrow> string option \<Rightarrow> string option \<Rightarrow> string option \<Rightarrow> string" where
  "buildRateLimitKey sha256 apiKey endpoint methodOrUserId =
     (let clean = (case endpoint of None \<Rightarrow> ''global''
            | Some e \<Rightarrow> if e = [] then ''global'' else lower (map (\<lambda>c. if c = CHR ''/'' then CHR ''_'' else c) (trim e)));
          third = nullish_or methodOrUserId [] in
      if third \<noteq> [] \<and> upper third \<in> set [''GET'', ''POST'', ''PUT'', ''DELETE'', ''PATCH'', ''OPTIONS'']
      then ''rate_limit:'' @ nullish_or apiKey ''undefined'' @ '':'' @ clean @ '':'' @ lower third
      else
        (case (if third \<noteq> [] then (''user'', third)
               else case apiKey of None \<Rightarrow> (''global'', ''system'')
                 | Some a \<Rightarrow> if a = [] then (''global'', ''system'') else (''apikey'', a)) of
           (type, identifier) \<Rightarrow>
             ''rate_limit:'' @ type @ '':'' @
             (if length identifier > 32 then take 16 (sha256 identifier) else identifier) @ '':'' @ clean))"

subsection \<open>A contract for sliding windows\<close>

text \<open>A counter of hits in a window of \<open>w\<close> milliseconds: a hit is counted with the kept hits of its
  window, and exactly those are kept.\<close>

locale hit_window =
  fixes hit :: "int \<Rightarrow> 'k \<Rightarrow> ms \<Rightarrow> 's \<Rightarrow> int \<times> 's"
    and kept :: "'k \<Rightarrow> 's \<Rightarrow> ms list"
  assumes hit_count: "fst (hit w k now s) = int (length (filter (\<lambda>t. now - w < t) (kept k s))) + 1"
    and hit_kept: "kept k (snd (hit w k now s)) = filter (\<lambda>t. now - w < t) (kept k s) @ [now]"
    and hit_frame: "k' \<noteq> k \<Longrightarrow> kept k' (snd (hit w k now s)) = kept k' s"
begin

definition times :: "'k \<Rightarrow> (ms \<times> 'k) list \<Rightarrow> ms list" where
  "times k rs = map fst (filter (\<lambda>r. snd r = k) rs)"

fun run :: "int \<Rightarrow> (ms \<times> 'k) list \<Rightarrow> 's \<Rightarrow> 's" where
  "run w [] s = s"
| "run w (r # rs) s = run w rs (snd (hit w (snd r) (fst r) s))"

fun admitted :: "int \<Rightarrow> int \<Rightarrow> 'k \<Rightarrow> (ms \<times> 'k) list \<Rightarrow> 's \<Rightarrow> ms list" where
  "admitted w cap k [] s = []"
| "admitted w cap k (r # rs) s =
     (if snd r = k \<and> fst (hit w k (fst r) s) \<le> cap then [fst r] else []) @
     admitted w cap k rs (snd (hit w (snd r) (fst r) s))"

lemma times_simps [simp]:
  "times k [] = []" "times k (rs @ rs') = times k rs @ times k rs'"
  "times k (r # rs) = (if snd r = k then [fst r] else []) @ times k rs"
  by (simp_all add: times_def)

lemma run_append [simp]: "run w (rs @ rs') s = run w rs' (run w rs s)"
  by (induction rs arbitrary: s) auto

lemma admitted_append [simp]:
  "admitted w cap k (rs @ rs') s = admitted w cap k rs s @ admitted w cap k rs' (run w rs s)"
  by (induction rs arbitrary: s) auto

lemma narrowing_filter:
  assumes "a \<le> (b :: int)"
  shows "filter (\<lambda>t. b - w < t) (filter (\<lambda>t. a - w < t) ts) = filter (\<lambda>t. b - w < t) ts"
  using assms by (auto simp: filter_filter intro: filter_cong)

text \<open>What is kept of a key are the hits of its window, whatever other keys are hit.\<close>

lemma run_kept:
  assumes "kept k s = []" "sorted (times k rs)" "0 < w"
  shows "kept k (run w rs s) = filter (\<lambda>t. last (times k rs) - w < t) (times k rs)"
  using assms(2)
proof (induction rs rule: rev_induct)
  case Nil
  then show ?case using assms(1) by simp
next
  case (snoc r rs)
  show ?case
  proof (cases "snd r = k")
    case False
    with snoc show ?thesis by (simp add: hit_frame)
  next
    case True
    show ?thesis
    proof (cases "times k rs = []")
      case True
      with snoc \<open>snd r = k\<close> assms show ?thesis by (simp add: hit_kept)
    next
      case False
      then have "last (times k rs) \<le> fst r" using snoc.prems True by (simp add: sorted_append)
      with snoc True assms(3) show ?thesis
        by (simp add: hit_kept narrowing_filter sorted_append del: filter_filter)
    qed
  qed
qed

lemma count_after:
  assumes "kept k s = []" "sorted (times k rs @ [t])" "0 < w"
  shows "fst (hit w k t (run w rs s)) = int (length (filter (\<lambda>u. t - w < u) (times k rs @ [t])))"
proof -
  have kept: "kept k (run w rs s) = filter (\<lambda>u. last (times k rs) - w < u) (times k rs)"
    using assms by (intro run_kept) (auto simp: sorted_append)
  have "filter (\<lambda>u. t - w < u) (kept k (run w rs s)) = filter (\<lambda>u. t - w < u) (times k rs)"
  proof (cases "times k rs = []")
    case True
    with kept show ?thesis by simp
  next
    case False
    then have "last (times k rs) \<le> t" using assms(2) by (simp add: sorted_append)
    with kept show ?thesis by (simp add: narrowing_filter del: filter_filter)
  qed
  then show ?thesis using assms(3) by (simp add: hit_count)
qed

lemma admitted_subset: "length (filter P (admitted w cap k rs s)) \<le> length (filter P (times k rs))"
  by (induction rs arbitrary: s) (auto simp: le_SucI)

text \<open>No window holds more admitted hits than the limit.\<close>

lemma admitted_bound:
  assumes "kept k s = []" "sorted (times k rs)" "0 < w" "0 \<le> cap"
  shows "int (length (filter (\<lambda>u. a < u \<and> u \<le> a + w) (admitted w cap k rs s))) \<le> cap"
  using assms(2)
proof (induction rs rule: rev_induct)
  case Nil
  then show ?case using assms(4) by simp
next
  case (snoc r rs)
  let ?P = "\<lambda>u. a < u \<and> u \<le> a + w" and ?t = "fst r"
  have IH: "int (length (filter ?P (admitted w cap k rs s))) \<le> cap"
    using snoc by (auto simp: sorted_append split: if_splits)
  show ?case
  proof (cases "snd r = k \<and> fst (hit w k ?t (run w rs s)) \<le> cap \<and> ?P ?t")
    case False
    with IH show ?thesis by auto
  next
    case True
    then have "int (length (filter (\<lambda>u. ?t - w < u) (times k rs @ [?t]))) \<le> cap"
      using count_after [OF assms(1) _ assms(3), of rs ?t] snoc.prems by simp
    moreover have "length (filter ?P (times k rs)) \<le> length (filter (\<lambda>u. ?t - w < u) (times k rs))"
      using True by (intro length_filter_mono) auto
    moreover have "length (filter ?P (admitted w cap k rs s)) \<le> length (filter ?P (times k rs))"
      by (rule admitted_subset)
    ultimately show ?thesis using True assms(3) by simp
  qed
qed

end

definition kept_hits :: "string \<Rightarrow> SlidingWindowCounter \<Rightarrow> ms list" where
  "kept_hits k c = nullish_or (mget (sw_fallback c) k) []"

interpretation window: hit_window "\<lambda>w k now c. sw_count_memory now w k c" kept_hits
  by unfold_locales (simp_all add: kept_hits_def sw_count_memory_def Let_def)

text \<open>A run of the limiter without Redis: requests of several keys, each with the limit and the
  window, and the times at which those of one key were allowed.\<close>

fun allowed_times :: "int \<Rightarrow> int \<Rightarrow> string \<Rightarrow> (ms \<times> string) list \<Rightarrow> RateLimiter \<times> unit \<Rightarrow> ms list" where
  "allowed_times cap w k [] ls = []"
| "allowed_times cap w k (r # rs) ls =
     (case checkLimit None (fst r) [] (snd r) (Some cap) (Some w) ls of (res, ls') \<Rightarrow>
        (if snd r = k \<and> rc_allowed res then [fst r] else []) @ allowed_times cap w k rs ls')"

fun limiter_after :: "int \<Rightarrow> int \<Rightarrow> (ms \<times> string) list \<Rightarrow> RateLimiter \<times> unit \<Rightarrow> RateLimiter \<times> unit" where
  "limiter_after cap w [] ls = ls"
| "limiter_after cap w (r # rs) ls =
     limiter_after cap w rs (snd (checkLimit None (fst r) [] (snd r) (Some cap) (Some w) ls))"

lemma checkLimit_memory:
  "checkLimit None now hex k (Some cap) (Some w) (l, u) =
     (case sw_count_memory now w k (rl_counter l) of (n, c) \<Rightarrow>
        (\<lparr> rc_allowed = (n \<le> cap), rc_limit = cap, rc_remaining = max 0 (cap - n), rc_resetTime = now + w,
           rc_retryAfterSeconds = ceiling (of_int w / 1000 :: rat) \<rparr>, (l\<lparr> rl_counter := c \<rparr>, u)))"
  by (simp add: checkLimit_def with_counter_def sw_increment_def case_prod_beta)

lemma allowed_times_window: "allowed_times cap w k rs (l, u) = window.admitted w cap k rs (rl_counter l)"
  by (induction rs arbitrary: l) (auto simp: checkLimit_memory case_prod_beta)

lemma limiter_after_window: "rl_counter (fst (limiter_after cap w rs (l, u))) = window.run w rs (rl_counter l)"
  by (induction rs arbitrary: l) (simp_all add: checkLimit_memory case_prod_beta)

lemma times_of: "window.times k rs = map fst (filter (\<lambda>r. snd r = k) rs)"
  by (simp add: window.times_def)

text \<open>C19: Over requests of any keys, at times that never go back for the key asked about, the in-memory
  limiter allows a request exactly when, with it, the key has had at most the limit's number of
  requests in the window that ends now, and no window of that length ever holds more allowed requests
  than the limit.\<close>
theorem limiter_enforces_windows:
  assumes "mget (sw_fallback (rl_counter l)) k = None" "0 < w" "0 \<le> cap"
    and "sorted (map fst (filter (\<lambda>r. snd r = k) rs) @ [now])"
  shows "rc_allowed (fst (checkLimit None now hex k (Some cap) (Some w) (limiter_after cap w rs (l, ())))) =
       (int (length (filter (\<lambda>u. now - w < u) (map fst (filter (\<lambda>r. snd r = k) rs) @ [now]))) \<le> cap) \<and>
     int (length (filter (\<lambda>u. a < u \<and> u \<le> a + w) (allowed_times cap w k rs (l, ())))) \<le> cap"
proof -
  have kept: "kept_hits k (rl_counter l) = []" using assms(1) by (simp add: kept_hits_def)
  have sorted: "sorted (window.times k rs @ [now])" "sorted (window.times k rs)"
    using assms(4) by (simp_all add: times_of sorted_append)
  obtain l' where l': "limiter_after cap w rs (l, ()) = (l', ())"
    "rl_counter l' = window.run w rs (rl_counter l)"
    using limiter_after_window [of cap w rs l "()"] by (cases "limiter_after cap w rs (l, ())") auto
  have "fst (sw_count_memory now w k (rl_counter l')) =
      int (length (filter (\<lambda>u. now - w < u) (window.times k rs @ [now])))"
    using window.count_after [OF kept sorted(1) assms(2)] l'(2) by simp
  then have "rc_allowed (fst (checkLimit None now hex k (Some cap) (Some w) (limiter_after cap w rs (l, ())))) =
      (int (length (filter (\<lambda>u. now - w < u) (window.times k rs @ [now]))) \<le> cap)"
    by (simp add: l'(1) checkLimit_memory case_prod_beta)
  moreover have "int (length (filter (\<lambda>u. a < u \<and> u \<le> a + w) (allowed_times cap w k rs (l, ())))) \<le> cap"
    using window.admitted_bound [OF kept sorted(2) assms(2,3)] by (simp only: allowed_times_window)
  ultimately show ?thesis by (simp add: times_of)
qed

theorem limiter_enforces_windows_witness:
  "allowed_times 2 1000 ''k'' [(0, ''k''), (5, ''x''), (10, ''k''), (20, ''k'')] (RateLimiter_new None None None None, ()) = [0, 10] \<and>
   rc_allowed (fst (checkLimit None 1015 [] ''k'' (Some 2) (Some 1000)
     (limiter_after 2 1000 [(0, ''k''), (5, ''x''), (10, ''k''), (20, ''k'')] (RateLimiter_new None None None None, ()))))"
  using limiter_enforces_windows [of "RateLimiter_new None None None None" "''k''" 1000 2
      "[(0, ''k''), (5, ''x''), (10, ''k''), (20, ''k'')]" 1015 "[]" 0]
  by (simp add: RateLimiter_new_def checkLimit_memory sw_count_memory_def Let_def)

subsection \<open>The limiter behind \<open>RedisOperations\<close>\<close>

fun answers :: "'s set_client \<Rightarrow> int \<Rightarrow> int \<Rightarrow> string \<Rightarrow> (ms \<times> string) list \<Rightarrow> RateLimiter \<times> 's \<Rightarrow> bool list" where
  "answers sc cap w k [] ls = []"
| "answers sc cap w k ((now, hex) # rs) ls =
     (case checkLimit (Some sc) now hex k (Some cap) (Some w) ls of (res, ls') \<Rightarrow>
        rc_allowed res # answers sc cap w k rs ls')"

lemma length_mset_at: "length (mset_at k v m) = (if k \<in> set (map fst m) then length m else Suc (length m))"
  by (induction m) (auto simp: mset_at_def)

lemma sorted_set_counts:
  assumes "sorted_set_laws ss"
  shows "ss_zcard ss k s = int (length (ss_members ss k s))"
    "ss_members ss k (ss_zadd ss k score x s) = mset_at x score (ss_members ss k s)"
  using assms by (simp_all add: sorted_set_laws_def)

lemma operations_increment:
  assumes "sorted_set_laws ss" "request_id now hex \<notin> set (map fst (ss_members ss (sw_key k) s))"
  shows "sw_increment (Some (operations_sets ss)) now hex w k (c, s) =
     (int (length (ss_members ss (sw_key k) s)) + 1, c, ss_zadd ss (sw_key k) now (request_id now hex) s)"
  using assms(2)
  by (simp add: sw_increment_def operations_sets_def Let_def sorted_set_counts [OF assms(1)] length_mset_at)

lemma operations_answers:
  assumes "sorted_set_laws ss" "distinct (map (\<lambda>(t, h). request_id t h) rs)"
    and "\<forall>x \<in> set (map (\<lambda>(t, h). request_id t h) rs). x \<notin> set (map fst (ss_members ss (sw_key k) s))"
    and "int (length (ss_members ss (sw_key k) s)) = n"
  shows "answers (operations_sets ss) cap w k rs (l, s) = map (\<lambda>i. n + int i + 1 \<le> cap) [0..<length rs]"
  using assms(2-)
proof (induction rs arbitrary: l s n)
  case Nil
  then show ?case by simp
next
  case (Cons r rs)
  obtain now hex where r: "r = (now, hex)" by (cases r)
  let ?s = "ss_zadd ss (sw_key k) now (request_id now hex) s"
  have fresh: "request_id now hex \<notin> set (map fst (ss_members ss (sw_key k) s))"
    using Cons.prems(2) r by auto
  have members: "ss_members ss (sw_key k) ?s = mset_at (request_id now hex) now (ss_members ss (sw_key k) s)"
    by (rule sorted_set_counts [OF assms(1)])
  have more: "length (ss_members ss (sw_key k) ?s) = Suc (length (ss_members ss (sw_key k) s))"
    "set (map fst (ss_members ss (sw_key k) ?s)) = insert (request_id now hex) (set (map fst (ss_members ss (sw_key k) s)))"
    using fresh by (simp_all add: members length_mset_at del: set_map)
  have "answers (operations_sets ss) cap w k rs (l', ?s) = map (\<lambda>i. (n + 1) + int i + 1 \<le> cap) [0..<length rs]" for l'
    using Cons.prems fresh
    by (intro Cons.IH) (auto simp: more r simp del: set_map)
  moreover obtain res l' where "checkLimit (Some (operations_sets ss)) now hex k (Some cap) (Some w) (l, s) = (res, l', ?s)"
    "rc_allowed res = (n + 1 \<le> cap)"
    using Cons.prems(3) by (simp add: checkLimit_def with_counter_def operations_increment [OF assms(1) fresh])
  ultimately show ?case
    by (simp add: r map_upt_Suc add.assoc del: upt_Suc)
qed

text \<open>Behind \<open>RedisOperations\<close>, which cannot remove old members from a sorted set, the limiter counts
  the hits of all times: of the requests of a key exactly the first ones up to the limit are allowed,
  and from then on every request is denied, however long ago the others were. \<open>getRemaining\<close>, which
  asks the same object for \<open>zcount\<close> in vain, reports the full limit all along.\<close>
theorem limiter_locks_out:
  assumes "sorted_set_laws ss" "ss_members ss (sw_key k) s = []"
    and "distinct (map (\<lambda>(t, h). request_id t h) rs)"
    and "mget (sw_fallback (rl_counter l)) k = None" "0 \<le> cap"
  shows "answers (operations_sets ss) cap w k rs (l, s) = map (\<lambda>i. int i < cap) [0..<length rs] \<and>
     getRemaining (Some (operations_sets ss)) now k (Some cap) (l, t) = cap"
proof -
  have "(0 + int i + 1 \<le> cap) = (int i < cap)" for i by linarith
  then show ?thesis
    using operations_answers [OF assms(1,3), of k s 0 cap w l] assms(2,4,5)
    by (simp add: getRemaining_def sw_getCount_def) (simp add: operations_sets_def)
qed

theorem limiter_locks_out_witness:
  "answers (operations_sets list_sorted_sets) 2 1000 ''k'' [(0, ''a''), (5, ''b''), (9000000, ''c'')]
     (RateLimiter_new None None None None, []) = [True, True, False]"
proof -
  have "distinct (map (\<lambda>(t, h). request_id t h) [(0, ''a''), (5, ''b''), (9000000, ''c'')])"
    by (simp add: request_id_def show_int_def show_nat.simps)
  moreover have "ss_members list_sorted_sets (sw_key ''k'') [] = []" by (simp add: list_sorted_sets_def)
  moreover have "mget (sw_fallback (rl_counter (RateLimiter_new None None None None))) ''k'' = None"
    by (simp add: RateLimiter_new_def)
  ultimately have "answers (operations_sets list_sorted_sets) 2 1000 ''k'' [(0, ''a''), (5, ''b''), (9000000, ''c'')]
     (RateLimiter_new None None None None, []) = map (\<lambda>i. int i < 2) [0..<length [(0 :: ms, ''a''), (5, ''b''), (9000000, ''c'')]]"
    by (intro limiter_locks_out [OF list_sorted_sets_laws, THEN conjunct1]) simp_all
  then show ?thesis by (simp add: upt_rec del: answers.simps)
qed

subsection \<open>The distributed token bucket keeps its rate\<close>

definition level :: "(bucket, 's) redis \<Rightarrow> string \<Rightarrow> int \<Rightarrow> int \<Rightarrow> 's \<Rightarrow> ms \<Rightarrow> rat" where
  "level rd k limit w s now = bk_tokens (getRefilledBucket rd now k limit w s)"

text \<open>From time \<open>T\<close> on the bucket fills from \<open>x\<close> tokens at the nominal rate.\<close>

definition filling :: "(bucket, 's) redis \<Rightarrow> string \<Rightarrow> int \<Rightarrow> int \<Rightarrow> 's \<Rightarrow> ms \<Rightarrow> rat \<Rightarrow> bool" where
  "filling rd k limit w s T x \<longleftrightarrow> 0 \<le> x \<and> x \<le> of_int limit \<and>
     (\<forall>now \<ge> T. level rd k limit w s now = min (of_int limit) (x + of_int (now - T) * of_int limit / (1000 * of_int w)))"

fun grants :: "(bucket, 's) redis \<Rightarrow> string \<Rightarrow> int \<Rightarrow> int \<Rightarrow> ms list \<Rightarrow> 's \<Rightarrow> bool list \<times> 's" where
  "grants rd k limit w [] s = ([], s)"
| "grants rd k limit w (t # ts) s =
     (case isAllowed rd t k limit w s of (b, s') \<Rightarrow> (case grants rd k limit w ts s' of (bs, s'') \<Rightarrow> (b # bs, s'')))"

lemma min_refill:
  fixes m :: rat
  assumes "0 \<le> d"
  shows "min m (min m y + d) = min m (y + d)"
  using assms by (auto simp: min_def)

text \<open>Time to live and refill agree: a bucket that has expired would be full.\<close>

lemma isAllowed_step:
  assumes "redis_laws rd" "0 < w" "0 \<le> limit" "filling rd k limit w s T x" "T \<le> now"
    and "y = min (of_int limit) (x + of_int (now - T) * of_int limit / (1000 * of_int w))"
  obtains s' where "isAllowed rd now k limit w s = (1 \<le> y, s')"
    "filling rd k limit w s' now (if 1 \<le> y then y - 1 else y)"
proof -
  let ?r = "of_int limit / (1000 * of_int w) :: rat"
  have y: "level rd k limit w s now = y" "0 \<le> y" "y \<le> of_int limit"
    using assms by (auto simp: filling_def zero_le_mult_iff zero_le_divide_iff intro!: add_nonneg_nonneg)
  show thesis
  proof (cases "1 \<le> y")
    case False
    have "level rd k limit w s now' = min (of_int limit) (y + of_int (now' - now) * of_int limit / (1000 * of_int w))"
      if "now \<le> now'" for now'
    proof -
      have "of_int (now' - T) * of_int limit / (1000 * of_int w) =
          of_int (now - T) * of_int limit / (1000 * of_int w) + (of_int (now' - now) * of_int limit / (1000 * of_int w) :: rat)"
        by (simp add: add_divide_distrib [symmetric] algebra_simps)
      moreover have "0 \<le> (of_int (now' - now) * of_int limit / (1000 * of_int w) :: rat)"
        using that assms(2,3) by (simp add: zero_le_mult_iff zero_le_divide_iff)
      ultimately show ?thesis
        using that assms(4,5,6) by (simp add: filling_def min_refill add.assoc)
    qed
    with False y have "filling rd k limit w s now y" by (simp add: filling_def)
    moreover have "isAllowed rd now k limit w s = (False, s)"
      using False y(1) by (simp add: isAllowed_def level_def Let_def)
    ultimately show thesis using False by (intro that [of s]) simp_all
  next
    case True
    define st where "st = (getRefilledBucket rd now k limit w s)\<lparr> bk_tokens := y - 1 \<rparr>"
    define s' where "s' = rd_setex rd now (rate_key k) w st s"
    have st: "bk_tokens st = y - 1" "bk_lastRefill st = now"
      by (simp_all add: st_def getRefilledBucket_def Let_def split: option.splits)
    have "level rd k limit w s' now' = min (of_int limit) (y - 1 + of_int (now' - now) * of_int limit / (1000 * of_int w))"
      if "now \<le> now'" for now'
    proof (cases "now' < now + w * 1000")
      case True
      with that show ?thesis
        using redis_get_set [OF assms(1) that, of "w * 1000" "rate_key k" st s] assms(2)
        by (simp add: level_def getRefilledBucket_def s'_def rd_setex_def st)
    next
      case expired: False
      then have "of_int (1000 * w) \<le> (of_int (now' - now) :: rat)" by (simp only: of_int_le_iff)
      then have "of_int (1000 * w) * of_int limit \<le> (of_int (now' - now) * of_int limit :: rat)"
        using assms(3) by (intro mult_right_mono) simp_all
      then have "of_int limit \<le> (of_int (now' - now) * of_int limit / (1000 * of_int w) :: rat)"
        using assms(2) by (simp add: pos_le_divide_eq mult.commute)
      then have full: "of_int limit \<le> y - 1 + (of_int (now' - now) * of_int limit / (1000 * of_int w) :: rat)"
        using True by simp
      have "level rd k limit w s' now' = of_int limit"
        using redis_get_set [OF assms(1) that, of "w * 1000" "rate_key k" st s] assms(2) expired
        by (simp add: level_def getRefilledBucket_def s'_def rd_setex_def)
      with full show ?thesis by (simp add: min_def)
    qed
    with True y have "filling rd k limit w s' now (y - 1)" by (simp add: filling_def)
    moreover have "isAllowed rd now k limit w s = (True, s')"
      using True y(1) by (simp add: isAllowed_def level_def Let_def s'_def st_def)
    ultimately show thesis using True by (intro that [of s']) simp_all
  qed
qed

lemma grants_spend:
  assumes "redis_laws rd" "0 < w" "0 \<le> limit"
    and "filling rd k limit w s T x" "sorted (T # ts)"
  shows "\<exists>x'. filling rd k limit w (snd (grants rd k limit w ts s)) (last (T # ts)) x' \<and>
     of_nat (length (filter (\<lambda>b. b) (fst (grants rd k limit w ts s)))) + x' \<le>
       x + of_int (last (T # ts) - T) * of_int limit / (1000 * of_int w)"
  using assms(4,5)
proof (induction ts arbitrary: s T x)
  case Nil
  then show ?case by (intro exI [of _ x]) simp
next
  case (Cons t ts)
  define y where "y = min (of_int limit) (x + of_int (t - T) * of_int limit / (1000 * of_int w) :: rat)"
  define x1 where "x1 = (if 1 \<le> y then y - 1 else y)"
  obtain s1 where s1: "isAllowed rd t k limit w s = (1 \<le> y, s1)" "filling rd k limit w s1 t x1"
    using isAllowed_step [OF assms(1-3) Cons.prems(1) _ y_def] Cons.prems(2) x1_def by auto
  obtain x' where x': "filling rd k limit w (snd (grants rd k limit w ts s1)) (last (t # ts)) x'"
    "of_nat (length (filter (\<lambda>b. b) (fst (grants rd k limit w ts s1)))) + x' \<le>
       x1 + of_int (last (t # ts) - t) * of_int limit / (1000 * of_int w)"
    using Cons.IH [OF s1(2)] Cons.prems(2) by auto
  let ?d = "\<lambda>a b. of_int (b - a) * of_int limit / (1000 * of_int w) :: rat"
  have split: "?d T (last (t # ts)) = ?d T t + ?d t (last (t # ts))"
    by (simp add: add_divide_distrib [symmetric] algebra_simps)
  have "of_nat (if 1 \<le> y then 1 else 0) + x1 \<le> x + ?d T t"
    by (simp add: x1_def y_def)
  moreover have step: "of_nat (length (filter (\<lambda>b. b) (fst (grants rd k limit w (t # ts) s)))) =
      of_nat (if 1 \<le> y then 1 else 0) + (of_nat (length (filter (\<lambda>b. b) (fst (grants rd k limit w ts s1)))) :: rat)"
    "snd (grants rd k limit w (t # ts) s) = snd (grants rd k limit w ts s1)" "last (T # t # ts) = last (t # ts)"
    by (simp_all add: s1(1) case_prod_beta)
  ultimately have "of_nat (length (filter (\<lambda>b. b) (fst (grants rd k limit w (t # ts) s)))) + x' \<le>
      x + ?d T (last (t # ts))"
    using x'(2) split by linarith
  with x'(1) show ?case unfolding step(2,3) by blast
qed

text \<open>The distributed limiter keeps its nominal rate: over requests for a key at times that never go
  back, at most the limit plus the elapsed share of the rate \<open>limit / windowSeconds\<close> are allowed, and a
  request that comes one refill interval after the last one is always allowed. That Redis drops the
  bucket after \<open>windowSeconds\<close> grants nothing extra: by then it would be full.\<close>
theorem distributed_bucket_keeps_rate:
  assumes "redis_laws rd" "0 < w" "0 \<le> limit" "sorted (t # ts)"
    and "\<forall>now. rd_get rd now (rate_key k) s = None"
  shows "of_nat (length (filter (\<lambda>b. b) (fst (grants rd k limit w (t # ts) s)))) \<le>
       (of_int limit + of_int (last (t # ts) - t) * of_int limit / (1000 * of_int w) :: rat) \<and>
     (last (t # ts) \<le> now \<and> 1000 * w \<le> (now - last (t # ts)) * limit \<longrightarrow>
       fst (isAllowed rd now k limit w (snd (grants rd k limit w (t # ts) s))))"
proof -
  have "filling rd k limit w s t (of_int limit)"
    using assms(2,3,5)
    by (simp add: filling_def level_def getRefilledBucket_def Let_def zero_le_mult_iff zero_le_divide_iff min_def)
  then obtain x' where x': "filling rd k limit w (snd (grants rd k limit w (t # ts) s)) (last (t # t # ts)) x'"
    "of_nat (length (filter (\<lambda>b. b) (fst (grants rd k limit w (t # ts) s)))) + x' \<le>
       of_int limit + of_int (last (t # t # ts) - t) * of_int limit / (1000 * of_int w)"
    using grants_spend [OF assms(1-3), of k s t "of_int limit" "t # ts"] assms(4) by auto
  moreover have "0 \<le> x'" using x'(1) by (simp add: filling_def)
  moreover have "fst (isAllowed rd now k limit w (snd (grants rd k limit w (t # ts) s)))"
    if "last (t # ts) \<le> now" "1000 * w \<le> (now - last (t # ts)) * limit"
  proof -
    have "of_int (1000 * w) \<le> (of_int ((now - last (t # ts)) * limit) :: rat)"
      using that(2) by (simp only: of_int_le_iff)
    then have share: "1 \<le> (of_int (now - last (t # ts)) * of_int limit / (1000 * of_int w) :: rat)"
      using assms(2) by (simp add: pos_le_divide_eq)
    have "0 < limit"
    proof (rule ccontr)
      assume "\<not> 0 < limit"
      with that(2) assms(2,3) show False by simp
    qed
    then have "1 \<le> min (of_int limit) (x' + of_int (now - last (t # ts)) * of_int limit / (1000 * of_int w) :: rat)"
      using share \<open>0 \<le> x'\<close> by simp
    moreover have "last (t # t # ts) = last (t # ts)" by simp
    ultimately show ?thesis
      using isAllowed_step [OF assms(1-3) x'(1) _ refl, of now] that(1) by (metis fst_conv)
  qed
  ultimately show ?thesis by (simp only: last.simps) (fastforce)
qed

theorem distributed_bucket_keeps_rate_witness:
  "(of_nat (length (filter (\<lambda>b. b) (fst (grants list_redis ''k'' 2 60 [0, 10, 20] [])))) :: rat) \<le> 2 + 20 * 2 / 60000 \<and>
   fst (isAllowed list_redis 30020 ''k'' 2 60 (snd (grants list_redis ''k'' 2 60 [0, 10, 20] [])))"
  using distributed_bucket_keeps_rate [OF list_redis_laws, of 60 2 0 "[10, 20]" "''k''" "[]" 30020]
  by (simp add: list_redis_def del: grants.simps)

subsection \<open>The token bucket never runs dry\<close>

definition stocked :: "(bucket, 's) redis \<Rightarrow> ms \<Rightarrow> TokenBucket \<times> 's \<Rightarrow> bool" where
  "stocked rd T bs \<longleftrightarrow>
     (\<forall>k st. mget (tb_memory (fst bs)) k = Some st \<longrightarrow> 0 \<le> bk_tokens st) \<and>
     (\<forall>now k st. T \<le> now \<longrightarrow> rd_get rd now k (snd bs) = Some st \<longrightarrow> 0 \<le> bk_tokens st)"

fun consume_all ::
  "(bucket, 's) key_client option \<Rightarrow> (ms \<times> string \<times> rat) list \<Rightarrow> TokenBucket \<times> 's \<Rightarrow> bool list" where
  "consume_all client [] bs = []"
| "consume_all client ((now, k, n) # cs) bs =
     (case tryConsume client now k n bs of (granted, bs') \<Rightarrow> granted # consume_all client cs bs')"

lemma take_refilled:
  assumes "n \<le> tb_capacity b" "n \<le> tb_refillRate b" "0 \<le> n"
    and "\<And>st. found = Some st \<Longrightarrow> 0 \<le> bk_tokens st"
  shows "fst (take_tokens n (refill_bucket b now found))"
    "0 \<le> bk_tokens (snd (take_tokens n (refill_bucket b now found)))"
  using assms by (auto simp: take_tokens_def refill_bucket_def Let_def le_max_iff_disj split: option.splits intro: add_increasing)

lemma store_bucket_client:
  assumes "client \<in> {operations_client rd, library_client rd}"
  obtains px s' where "store_bucket client now k st s = Inr s'" "s' = rd_set rd now k st (Some px) s" "0 < px"
  using assms by (auto simp: store_bucket_def operations_client_def library_client_def RedisOperations_set_def rd_setex_def)

lemma stocked_set:
  assumes "redis_laws rd" "stocked rd T (b, s)" "T \<le> now" "0 < px" "0 \<le> bk_tokens st"
  shows "stocked rd now (b, rd_set rd now k st (Some px) s)"
proof -
  have "0 \<le> bk_tokens st'" if "now \<le> now'" "rd_get rd now' k' (rd_set rd now k st (Some px) s) = Some st'" for now' k' st'
  proof (cases "k' = k")
    case True
    with that redis_get_set [OF assms(1) that(1) assms(4)] assms(5) show ?thesis by (auto split: if_splits)
  next
    case False
    have "T \<le> now'" using assms(3) that(1) by simp
    with False that(2) assms(2) show ?thesis by (simp add: redis_get_other [OF assms(1)] stocked_def)
  qed
  with assms(2) show ?thesis by (simp add: stocked_def)
qed

lemma stocked_memory:
  assumes "stocked rd T (b, s)" "T \<le> now" "0 \<le> bk_tokens st"
  shows "stocked rd now (b\<lparr> tb_memory := mset_at k st (tb_memory b) \<rparr>, s)"
proof -
  have "\<forall>now'. now \<le> now' \<longrightarrow> T \<le> now'" using assms(2) by auto
  moreover have "\<forall>now' k st. T \<le> now' \<longrightarrow> rd_get rd now' k s = Some st \<longrightarrow> 0 \<le> bk_tokens st"
    using assms(1) by (simp add: stocked_def)
  ultimately have "\<forall>now' k st. now \<le> now' \<longrightarrow> rd_get rd now' k s = Some st \<longrightarrow> 0 \<le> bk_tokens st" by blast
  then show ?thesis using assms(1,3) by (simp add: stocked_def)
qed

lemma tryConsume_grants:
  assumes "redis_laws rd" "client \<in> {None, Some (operations_client rd), Some (library_client rd)}"
    and "0 \<le> n" "n \<le> tb_capacity b" "n \<le> tb_refillRate b" "stocked rd T (b, s)" "T \<le> now"
  obtains b' s' where "tryConsume client now k n (b, s) = (True, b', s')" "stocked rd now (b', s')"
    "tb_capacity b' = tb_capacity b" "tb_refillRate b' = tb_refillRate b"
proof (cases client)
  case None
  let ?found = "mget (tb_memory b) k"
  let ?st = "snd (take_tokens n (refill_bucket b now ?found))"
  have "0 \<le> bk_tokens st" if "?found = Some st" for st using that assms(6) by (auto simp: stocked_def)
  from take_refilled [where now = now, OF assms(4,5,3) this]
  have st: "take_tokens n (refill_bucket b now ?found) = (True, ?st)" "0 \<le> bk_tokens ?st"
    by (simp_all add: prod_eq_iff)
  show thesis
  proof (rule that)
    show "tryConsume client now k n (b, s) = (True, b\<lparr> tb_memory := mset_at k ?st (tb_memory b) \<rparr>, s)"
      using arg_cong [OF st(1), of fst] by (simp add: None tryConsume_def tb_consume_memory_def case_prod_beta)
  qed (use stocked_memory [OF assms(6,7) st(2)] in simp_all)
next
  case (Some kc)
  then have kc: "kc \<in> {operations_client rd, library_client rd}" using assms(2) by auto
  let ?found = "rd_get rd now (tb_key k) s"
  let ?st = "snd (take_tokens n (refill_bucket b now ?found))"
  have "0 \<le> bk_tokens st" if "?found = Some st" for st using that assms(6,7) by (auto simp: stocked_def)
  from take_refilled [where now = now, OF assms(4,5,3) this]
  have st: "fst (take_tokens n (refill_bucket b now ?found))" "0 \<le> bk_tokens ?st"
    by simp_all
  obtain px s' where s': "store_bucket kc now (tb_key k) ?st s = Inr s'" "s' = rd_set rd now (tb_key k) ?st (Some px) s" "0 < px"
    by (rule store_bucket_client [OF kc])
  have "kc_get kc = Some (\<lambda>now k s. Inr (rd_get rd now k s))"
    using kc by (auto simp: operations_client_def library_client_def)
  then have "tryConsume client now k n (b, s) = (True, b, s')"
    using st(1) s'(1) by (simp add: Some tryConsume_def case_prod_beta Let_def)
  moreover have "stocked rd now (b, s')"
    unfolding s'(2) by (rule stocked_set [OF assms(1,6,7) s'(3) st(2)])
  ultimately show thesis by (rule that) simp_all
qed

text \<open>A call refills a known bucket by at least \<open>refillRate\<close> tokens however little time has passed:
  calls that each ask for no more than the rate and the capacity are all granted, at any pace, in
  memory and on Redis. The security module hands \<open>TokenBucket\<close> a logger as second argument, which
  makes the default interval of 1000 ms the rate: its bucket of 10 tokens never denies a request.\<close>
theorem token_bucket_never_denies:
  assumes "redis_laws rd" "client \<in> {None, Some (operations_client rd), Some (library_client rd)}"
    and "stocked rd T (b, s)" "sorted (T # map fst cs)"
    and "list_all (\<lambda>(now, k, n). 0 \<le> n \<and> n \<le> tb_capacity b \<and> n \<le> tb_refillRate b) cs"
  shows "consume_all client cs (b, s) = replicate (length cs) True"
  using assms(3-)
proof (induction cs arbitrary: T b s)
  case Nil
  then show ?case by simp
next
  case (Cons c cs)
  obtain now k n where c: "c = (now, k, n)" by (cases c) auto
  obtain b' s' where s': "tryConsume client now k n (b, s) = (True, b', s')" "stocked rd now (b', s')"
    "tb_capacity b' = tb_capacity b" "tb_refillRate b' = tb_refillRate b"
    by (rule tryConsume_grants [OF assms(1,2) _ _ _ Cons.prems(1)]) (use Cons.prems(2,3) c in auto)
  have "consume_all client cs (b', s') = replicate (length cs) True"
    using Cons.prems by (intro Cons.IH [OF s'(2)]) (simp_all add: c s'(3,4))
  with c s'(1) show ?case by simp
qed

theorem token_bucket_never_denies_witness:
  "consume_all (Some (operations_client list_redis)) (replicate 5 (0, ''k'', 10)) (TokenBucket_new LoggerArg 10 1000, []) =
     replicate 5 True"
proof -
  have "stocked list_redis 0 (TokenBucket_new LoggerArg 10 1000, [])"
    by (simp add: stocked_def TokenBucket_new_def list_redis_def)
  then show ?thesis
    using token_bucket_never_denies [OF list_redis_laws, of "Some (operations_client list_redis)" 0
        "TokenBucket_new LoggerArg 10 1000" "[]" "replicate 5 (0, ''k'', 10)"]
    by (simp add: TokenBucket_new_def rat_or_def numeral_eq_Suc del: consume_all.simps)
qed

end
