(* ===== verification/QF_Auth.thy ===== *)
theory QF_Auth
  imports QF_Redis
begin

text \<open>
  Authentication and authorization (\<open>security/auth\<close>, \<open>security/authorization\<close>, \<open>security/context\<close>):
  the JWT strategy, access and refresh tokens with their revocation, API keys, the guard that reads
  the request headers, the security context and the role table. The token library and the hash are
  parameters (\<open>jwt\<close>, \<open>sha256\<close>, \<open>hmac\<close>); what the library promises is \<open>jwt_laws\<close>. Error messages are
  left out: an error is its class with its reason.
\<close>

datatype auth_reason = MissingToken | InvalidToken | ExpiredToken | InvalidCredentials | InvalidKey | RevokedToken

datatype auth_error = AuthenticationError auth_reason | AuthorizationError string | OtherError

subsection \<open>JSON Web Tokens\<close>

text \<open>The claims the code reads or writes; a missing claim is \<open>None\<close>.\<close>

record claims =
  cl_sub :: "string option"
  cl_userId :: "string option"
  cl_iss :: "string option"
  cl_aud :: "string option"
  cl_iat :: "int option"
  cl_exp :: "int option"
  cl_roles :: "string list option"
  cl_permissions :: "string list option"
  cl_scope :: "string list option"
  cl_scopes :: "string list option"
  cl_type :: "string option"

definition no_claims :: claims where
  "no_claims = \<lparr> cl_sub = None, cl_userId = None, cl_iss = None, cl_aud = None, cl_iat = None, cl_exp = None,
     cl_roles = None, cl_permissions = None, cl_scope = None, cl_scopes = None, cl_type = None \<rparr>"

datatype jwt_failure = TokenExpiredError | JsonWebTokenError

text \<open>The library: signing, verifying under a secret for an issuer and an audience at a time, and
  decoding without a check.\<close>

record jwt =
  jw_sign :: "claims \<Rightarrow> string \<Rightarrow> string"
  jw_verify :: "ms \<Rightarrow> string \<Rightarrow> string \<Rightarrow> string \<Rightarrow> string \<Rightarrow> jwt_failure + claims"
  jw_decode :: "string \<Rightarrow> claims option"

text \<open>A signed token is not empty, decodes to its claims and verifies under its secret exactly when issuer and
  audience match and it has not expired.\<close>

definition jwt_laws :: "jwt \<Rightarrow> bool" where
  "jwt_laws jw \<longleftrightarrow>
     (\<forall>c s. jw_sign jw c s \<noteq> []) \<and>
     (\<forall>c s. jw_decode jw (jw_sign jw c s) = Some c) \<and>
     (\<forall>now c s iss aud. cl_iss c = Some iss \<longrightarrow> cl_aud c = Some aud \<longrightarrow>
        jw_verify jw now (jw_sign jw c s) s iss aud =
          (if \<exists>e. cl_exp c = Some e \<and> now div 1000 \<ge> e then Inl TokenExpiredError else Inr c))"

record JWTStrategy =
  js_secret :: string
  js_issuer :: string
  js_audience :: string
  js_defaultExpiryMs :: int

text \<open>Each setting is looked for at the top of the configuration and under \<open>jwt\<close>; the secret also in the
  environment.\<close>

definition JWTStrategy_new ::
  "string option \<Rightarrow> string option \<Rightarrow> string option \<Rightarrow> string option \<Rightarrow> string option \<Rightarrow> string option \<Rightarrow> string option \<Rightarrow>
   int option \<Rightarrow> int option \<Rightarrow> JWTStrategy" where
  "JWTStrategy_new secret nestedSecret envSecret issuer nestedIssuer audience nestedAudience expiry nestedExpiry =
     \<lparr> js_secret = str_or secret (str_or nestedSecret (str_or envSecret ''queueforge-secret-key-min-32-chars-long!'')),
       js_issuer = str_or issuer (str_or nestedIssuer ''queueforge''),
       js_audience = str_or audience (str_or nestedAudience ''queueforge-api''),
       js_defaultExpiryMs = num_or expiry (num_or nestedExpiry 3600000) \<rparr>"

definition or_else :: "'a option \<Rightarrow> 'a option \<Rightarrow> 'a option" where
  "or_else a b = (case a of None \<Rightarrow> b | Some x \<Rightarrow> Some x)"

text \<open>The payload's own claims are spread over the defaults and win.\<close>

definition full_payload :: "JWTStrategy \<Rightarrow> ms \<Rightarrow> int option \<Rightarrow> claims \<Rightarrow> claims" where
  "full_payload st now expiryMs p =
     (let ttlMs = num_or expiryMs (js_defaultExpiryMs st); nowSec = now div 1000 in
      p\<lparr> cl_iss := or_else (cl_iss p) (Some (js_issuer st)),
         cl_aud := or_else (cl_aud p) (Some (js_audience st)),
         cl_iat := or_else (cl_iat p) (Some nowSec),
         cl_exp := or_else (cl_exp p) (Some (nowSec + ttlMs div 1000)),
         cl_sub := or_else (cl_sub p) (Some (str_or (cl_userId p) ''anonymous'')),
         cl_roles := or_else (cl_roles p) (Some []),
         cl_permissions := or_else (cl_permissions p) (Some []) \<rparr>)"

definition generateToken :: "jwt \<Rightarrow> JWTStrategy \<Rightarrow> ms \<Rightarrow> int option \<Rightarrow> claims \<Rightarrow> string" where
  "generateToken jw st now expiryMs p = jw_sign jw (full_payload st now expiryMs p) (js_secret st)"

definition verifyToken :: "jwt \<Rightarrow> JWTStrategy \<Rightarrow> ms \<Rightarrow> string \<Rightarrow> auth_error + claims" where
  "verifyToken jw st now token =
     (if token = [] then Inl (AuthenticationError MissingToken)
      else case jw_verify jw now token (js_secret st) (js_issuer st) (js_audience st) of
        Inr c \<Rightarrow> Inr c
      | Inl TokenExpiredError \<Rightarrow> Inl (AuthenticationError ExpiredToken)
      | Inl JsonWebTokenError \<Rightarrow> Inl (AuthenticationError InvalidToken))"

text \<open>\<open>jwt_extractToken\<close> is the strategy's \<open>extractToken\<close>: exactly two words, the first one bearer.\<close>

definition jwt_extractToken :: "string option \<Rightarrow> auth_error + string" where
  "jwt_extractToken authHeader = (case authHeader of None \<Rightarrow> Inl (AuthenticationError MissingToken)
     | Some h \<Rightarrow> if h = [] then Inl (AuthenticationError MissingToken)
         else (case split_on (CHR '' '') (trim h) of
             [a, b] \<Rightarrow> if lower a = ''bearer'' then Inr b else Inl (AuthenticationError InvalidToken)
           | _ \<Rightarrow> Inl (AuthenticationError InvalidToken)))"

definition decodeToken :: "jwt \<Rightarrow> string \<Rightarrow> auth_error + claims" where
  "decodeToken jw token = (case jw_decode jw token of None \<Rightarrow> Inl (AuthenticationError InvalidToken) | Some c \<Rightarrow> Inr c)"

definition isTokenExpired :: "jwt \<Rightarrow> ms \<Rightarrow> string \<Rightarrow> bool" where
  "isTokenExpired jw now token = (case decodeToken jw token of Inl _ \<Rightarrow> True
     | Inr c \<Rightarrow> (case cl_exp c of None \<Rightarrow> False | Some e \<Rightarrow> if e = 0 then False else now \<ge> e * 1000))"

text \<open>The strategy's \<open>refreshToken\<close>: decoded, not verified, and signed again.\<close>

definition jwt_refreshToken :: "jwt \<Rightarrow> JWTStrategy \<Rightarrow> ms \<Rightarrow> string \<Rightarrow> auth_error + string" where
  "jwt_refreshToken jw st now token =
     bindE (decodeToken jw token) (\<lambda>c. Inr (generateToken jw st now None (c\<lparr> cl_iat := None, cl_exp := None \<rparr>)))"

subsection \<open>TokenManager\<close>

text \<open>The store of revocations: a key client that may also have \<open>exists\<close>.\<close>

record 's revocations =
  rv_client :: "(string, 's) key_client"
  rv_exists :: "(ms \<Rightarrow> string \<Rightarrow> 's \<Rightarrow> unit + bool) option"

record TokenManager =
  tm_blacklist :: "string list"

definition blacklist_key :: "string \<Rightarrow> string" where
  "blacklist_key tokenHash = ''queueforge:token-blacklist:'' @ tokenHash"

definition generateAccessToken :: "jwt \<Rightarrow> JWTStrategy \<Rightarrow> ms \<Rightarrow> string \<Rightarrow> string list \<Rightarrow> int option \<Rightarrow> string" where
  "generateAccessToken jw st now userId roles expiryMs =
     generateToken jw st now expiryMs (no_claims\<lparr> cl_sub := Some userId, cl_roles := Some roles, cl_type := Some ''access'' \<rparr>)"

definition generateRefreshToken :: "jwt \<Rightarrow> JWTStrategy \<Rightarrow> ms \<Rightarrow> string \<Rightarrow> int \<Rightarrow> string" where
  "generateRefreshToken jw st now userId expiryMs =
     generateToken jw st now (Some expiryMs) (no_claims\<lparr> cl_sub := Some userId, cl_type := Some ''refresh'' \<rparr>)"

record IssuedTokens =
  it_accessToken :: string
  it_refreshToken :: string
  it_expiresIn :: int
  it_expiresAt :: "ms option"

definition expiry_of :: "jwt \<Rightarrow> ms \<Rightarrow> string \<Rightarrow> ms" where
  "expiry_of jw now token = (case decodeToken jw token of Inl _ \<Rightarrow> now + 3600 * 1000
     | Inr c \<Rightarrow> (case cl_exp c of None \<Rightarrow> now + 3600 * 1000 | Some e \<Rightarrow> if e = 0 then now + 3600 * 1000 else e * 1000))"

definition issueToken :: "jwt \<Rightarrow> JWTStrategy \<Rightarrow> ms \<Rightarrow> string \<Rightarrow> string list \<Rightarrow> IssuedTokens" where
  "issueToken jw st now userId roles =
     (let access = generateAccessToken jw st now userId roles None in
      \<lparr> it_accessToken = access, it_refreshToken = generateRefreshToken jw st now userId 604800000,
        it_expiresIn = 3600, it_expiresAt = Some (expiry_of jw now access) \<rparr>)"

text \<open>An error while asking the store counts as not revoked.\<close>

definition isTokenRevoked ::
  "(string \<Rightarrow> string) \<Rightarrow> 's revocations option \<Rightarrow> ms \<Rightarrow> string \<Rightarrow> TokenManager \<times> 's \<Rightarrow> bool" where
  "isTokenRevoked sha256 store now token ms = (case ms of (m, s) \<Rightarrow>
     if sha256 token \<in> set (tm_blacklist m) then True
     else case store of None \<Rightarrow> False
       | Some rv \<Rightarrow>
         (case (case rv_exists rv of None \<Rightarrow> Inr False | Some f \<Rightarrow> f now (''revoked_token:'' @ token) s) of
            Inl _ \<Rightarrow> False
          | Inr True \<Rightarrow> True
          | Inr False \<Rightarrow> (case kc_get (rv_client rv) of None \<Rightarrow> False
              | Some get \<Rightarrow> (case get now (blacklist_key (sha256 token)) s of
                    Inr (Some v) \<Rightarrow> v = ''revoked'' \<or> v = ''1'' | _ \<Rightarrow> False))))"

definition verifyAccessToken ::
  "jwt \<Rightarrow> JWTStrategy \<Rightarrow> (string \<Rightarrow> string) \<Rightarrow> 's revocations option \<Rightarrow> ms \<Rightarrow> string \<Rightarrow> TokenManager \<times> 's \<Rightarrow> auth_error + claims" where
  "verifyAccessToken jw st sha256 store now token ms =
     (if isTokenRevoked sha256 store now token ms then Inl (AuthenticationError RevokedToken)
      else bindE (verifyToken jw st now token) (\<lambda>c.
        if str_or (cl_type c) ''access'' \<noteq> ''access'' then Inl (AuthenticationError InvalidToken) else Inr c))"

definition verifyRefreshToken ::
  "jwt \<Rightarrow> JWTStrategy \<Rightarrow> (string \<Rightarrow> string) \<Rightarrow> 's revocations option \<Rightarrow> ms \<Rightarrow> string \<Rightarrow> TokenManager \<times> 's \<Rightarrow> auth_error + claims" where
  "verifyRefreshToken jw st sha256 store now token ms =
     (if isTokenRevoked sha256 store now token ms then Inl (AuthenticationError RevokedToken)
      else bindE (verifyToken jw st now token) (\<lambda>c.
        if cl_type c \<noteq> Some ''refresh'' \<and> cl_type c \<noteq> None then Inl (AuthenticationError InvalidToken) else Inr c))"

text \<open>\<open>revokeToken\<close>: the state after the call, and the error it throws. The hash is in memory before
  the store is written.\<close>

definition revokeToken ::
  "jwt \<Rightarrow> (string \<Rightarrow> string) \<Rightarrow> 's revocations option \<Rightarrow> ms \<Rightarrow> string \<Rightarrow> TokenManager \<times> 's \<Rightarrow> (TokenManager \<times> 's, auth_error) eff" where
  "revokeToken jw sha256 store now token ms = (case ms of (m, s) \<Rightarrow>
     case decodeToken jw token of Inl e \<Rightarrow> throw (m, s) e
     | Inr c \<Rightarrow>
         let nowSec = now div 1000;
             ttlSec = max 1 (num_or (cl_exp c) (nowSec + 3600) - nowSec);
             m' = m\<lparr> tm_blacklist := List.insert (sha256 token) (tm_blacklist m) \<rparr> in
         case store of None \<Rightarrow> ret (m', s)
         | Some rv \<Rightarrow>
             (case kc_setex (rv_client rv) of
                Some setex \<Rightarrow> (case setex now (''revoked_token:'' @ token) ttlSec ''revoked'' s of
                    Inl _ \<Rightarrow> throw (m', s) OtherError | Inr s' \<Rightarrow> ret (m', s'))
              | None \<Rightarrow> (case kc_set (rv_client rv) of None \<Rightarrow> ret (m', s)
                  | Some f \<Rightarrow> (case f now (blacklist_key (sha256 token)) ''revoked'' ttlSec s of
                      Inl _ \<Rightarrow> throw (m', s) OtherError | Inr s' \<Rightarrow> ret (m', s')))))"

text \<open>\<open>refreshToken\<close> of the manager.\<close>

definition refreshToken ::
  "jwt \<Rightarrow> JWTStrategy \<Rightarrow> (string \<Rightarrow> string) \<Rightarrow> 's revocations option \<Rightarrow> ms \<Rightarrow> string \<Rightarrow> TokenManager \<times> 's \<Rightarrow>
   (TokenManager \<times> 's) \<times> (auth_error + IssuedTokens)" where
  "refreshToken jw st sha256 store now token ms =
     (case verifyRefreshToken jw st sha256 store now token ms of
        Inl e \<Rightarrow> (ms, Inl e)
      | Inr c \<Rightarrow>
          let nowSec = now div 1000;
              remainingSec = num_or (cl_exp c) (nowSec + 3600) - nowSec in
          if remainingSec > 300
          then (ms, Inr \<lparr> it_accessToken = token, it_refreshToken = token, it_expiresIn = remainingSec, it_expiresAt = None \<rparr>)
          else (case revokeToken jw sha256 store now token ms of
              (ms', Some e) \<Rightarrow> (ms', Inl e)
            | (ms', None) \<Rightarrow>
                let sub = nullish_or (cl_sub c) ''undefined'';
                    access = generateAccessToken jw st now sub
                      (nullish_or (or_else (cl_roles c) (cl_scope c)) [''USER'']) None in
                (ms', Inr \<lparr> it_accessToken = access,
                  it_refreshToken = generateRefreshToken jw st now sub 604800000,
                  it_expiresIn = 3600, it_expiresAt = Some (expiry_of jw now access) \<rparr>)))"

subsection \<open>API keys\<close>

definition key_pattern :: "string \<Rightarrow> bool" where
  "key_pattern s \<longleftrightarrow> (case split_on (CHR ''_'') s of
       [p, a, b] \<Rightarrow> p = ''qf'' \<and> length a = 16 \<and> list_all hex_char a \<and> length b = 16 \<and> list_all hex_char b
     | _ \<Rightarrow> False)"

record ApiKeyRecord =
  ak_id :: "string option"
  ak_key :: "string option"
  ak_name :: "string option"
  ak_roles :: "string list option"
  ak_permissions :: "string list option"
  ak_scopes :: "string list option"
  ak_enabled :: "bool option"
  ak_createdAt :: "ms option"
  ak_revokedAt :: "ms option"
  ak_secret :: "string option"

record ApiKeyContext =
  kx_id :: string
  kx_key :: string
  kx_name :: string
  kx_roles :: "string list"
  kx_permissions :: "string list"
  kx_scopes :: "string list"
  kx_enabled :: bool
  kx_createdAt :: ms
  kx_revokedAt :: "ms option"

text \<open>What the strategy is built with: the configured keys, the cache of key metadata (when the second
  argument has \<open>get\<close>; \<open>Some None\<close> is a miss), the secrets manager's \<open>getSecret\<close>, the repository by
  key hash, and \<open>HMAC_SECRET\<close>.\<close>

record key_surroundings =
  ke_apiKeys :: "string list"
  ke_cache :: "(string \<Rightarrow> ApiKeyRecord option) option"
  ke_getSecret :: "string \<Rightarrow> string option"
  ke_findByKeyHash :: "string \<Rightarrow> ApiKeyRecord option"
  ke_hmacSecret :: "string option"

definition verifyApiKeySignature :: "(string \<Rightarrow> string \<Rightarrow> string) \<Rightarrow> string \<Rightarrow> string \<Rightarrow> string \<Rightarrow> string option \<Rightarrow> bool" where
  "verifyApiKeySignature hmac k secret data provided =
     (case provided of None \<Rightarrow> False | Some p \<Rightarrow> p \<noteq> [] \<and> hmac secret (k @ '':'' @ data) = p)"

definition cached_context :: "ms \<Rightarrow> string \<Rightarrow> string \<Rightarrow> ApiKeyRecord \<Rightarrow> ApiKeyContext" where
  "cached_context now hashed k r =
     \<lparr> kx_id = str_or (ak_id r) (''key-'' @ take 8 hashed), kx_key = k, kx_name = str_or (ak_name r) ''Test Client'',
       kx_roles = nullish_or (ak_roles r) [''SERVICE''], kx_permissions = nullish_or (ak_permissions r) [''READ'', ''WRITE''],
       kx_scopes = nullish_or (ak_scopes r) [''ingest''], kx_enabled = (ak_enabled r \<noteq> Some False),
       kx_createdAt = nullish_or (ak_createdAt r) now, kx_revokedAt = None \<rparr>"

text \<open>The record made up when the repository has none.\<close>

definition default_record :: "string option \<Rightarrow> string \<Rightarrow> ApiKeyRecord" where
  "default_record envSecret hashed =
     \<lparr> ak_id = Some (''key-'' @ take 8 hashed), ak_key = None, ak_name = Some ''Default Service Key'', ak_roles = Some [''SERVICE''],
       ak_permissions = Some [''READ'', ''WRITE''], ak_scopes = Some [''ingest'', ''read'', ''write''],
       ak_enabled = Some True, ak_createdAt = None, ak_revokedAt = None,
       ak_secret = Some (str_or envSecret ''default-api-key-secret-32-chars-long!'') \<rparr>"

definition record_context :: "ms \<Rightarrow> string \<Rightarrow> ApiKeyRecord \<Rightarrow> ApiKeyContext" where
  "record_context now k r =
     \<lparr> kx_id = str_or (ak_id r) k, kx_key = str_or (ak_key r) k, kx_name = str_or (ak_name r) ''API Key User'',
       kx_roles = nullish_or (ak_roles r) [''SERVICE''], kx_permissions = nullish_or (ak_permissions r) [''READ'', ''WRITE''],
       kx_scopes = nullish_or (or_else (ak_scopes r) (ak_permissions r)) [''ingest'', ''read'', ''write''],
       kx_enabled = (ak_enabled r \<noteq> Some False), kx_createdAt = nullish_or (ak_createdAt r) now,
       kx_revokedAt = ak_revokedAt r \<rparr>"

text \<open>\<open>revoked\<close> are the hashes this instance has revoked.\<close>

definition validateApiKey ::
  "(string \<Rightarrow> string) \<Rightarrow> (string \<Rightarrow> string \<Rightarrow> string) \<Rightarrow> key_surroundings \<Rightarrow> string list \<Rightarrow> ms \<Rightarrow> string \<Rightarrow>
   string option \<Rightarrow> string option \<Rightarrow> auth_error + ApiKeyContext" where
  "validateApiKey sha256 hmac ke revoked now k signature timestamp =
     (let bad = Inl (AuthenticationError InvalidKey); hashed = sha256 k in
      if k = [] \<or> \<not> key_pattern (trim k) then bad
      else if hashed \<in> set revoked then bad
      else case Option.bind (ke_cache ke) (\<lambda>get. get (''api_key:'' @ hashed)) of
        Some meta \<Rightarrow> if ak_revokedAt meta \<noteq> None then bad else Inr (cached_context now hashed k meta)
      | None \<Rightarrow>
        (case (case ke_findByKeyHash ke hashed of Some r \<Rightarrow> Some r
               | None \<Rightarrow> if k \<in> set (ke_apiKeys ke) \<or> starts_with ''qf_'' k
                   then Some (default_record (ke_hmacSecret ke) hashed) else None) of
           None \<Rightarrow> bad
         | Some r \<Rightarrow>
             if ak_enabled r = Some False \<or> ak_revokedAt r \<noteq> None then bad
             else if str_or signature [] \<noteq> [] \<and> str_or timestamp [] \<noteq> [] \<and>
               \<not> verifyApiKeySignature hmac k
                  (str_or (ak_secret r) (str_or (ke_getSecret ke (''api-key:'' @ nullish_or (ak_id r) ''undefined'')) ''default-secret''))
                  (str_or timestamp []) signature
             then Inl (AuthenticationError InvalidCredentials)
             else Inr (record_context now k r)))"

definition validate_key ::
  "(string \<Rightarrow> string) \<Rightarrow> (string \<Rightarrow> string \<Rightarrow> string) \<Rightarrow> key_surroundings \<Rightarrow> string list \<Rightarrow> ms \<Rightarrow> string \<Rightarrow> auth_error + ApiKeyContext" where
  "validate_key sha256 hmac ke revoked now k = validateApiKey sha256 hmac ke revoked now k None None"

text \<open>Revoking, on this instance; the metadata for the cache.\<close>

definition revokeApiKey :: "ms \<Rightarrow> string \<Rightarrow> string list \<Rightarrow> string list \<times> (string \<times> ApiKeyRecord)" where
  "revokeApiKey now keyHash revoked = (List.insert keyHash revoked,
     (''api_key:'' @ keyHash, \<lparr> ak_id = Some (''key-'' @ take 8 keyHash), ak_key = None, ak_name = None, ak_roles = None,
        ak_permissions = None, ak_scopes = None, ak_enabled = None, ak_createdAt = None, ak_revokedAt = Some now, ak_secret = None \<rparr>))"

subsection \<open>The security context\<close>

datatype principal = PText string | PObject string "string list" string

datatype context_type = TJwt | TApiKey | TAnonymous

record AuthContextData =
  ad_userId :: "string option"
  ad_apiKeyId :: "string option"
  ad_principal :: "principal option"
  ad_roles :: "string list option"
  ad_permissions :: "string list option"
  ad_scopes :: "string list option"
  ad_type :: "context_type option"
  ad_authenticated :: "bool option"

record AuthContext =
  ac_userId :: "string option"
  ac_apiKeyId :: "string option"
  ac_principal :: principal
  ac_roles :: "string list"
  ac_permissions :: "string list"
  ac_scopes :: "string list"
  ac_type :: context_type
  ac_authenticated :: bool

definition AuthContextImpl :: "AuthContextData \<Rightarrow> AuthContext" where
  "AuthContextImpl d =
     (let perms = map upper (nullish_or (ad_permissions d) []) in
      \<lparr> ac_userId = ad_userId d, ac_apiKeyId = ad_apiKeyId d,
        ac_principal = (case ad_principal d of Some p \<Rightarrow> if p = PText [] then PText (str_or (ad_userId d) (str_or (ad_apiKeyId d) ''anonymous'')) else p
          | None \<Rightarrow> PText (str_or (ad_userId d) (str_or (ad_apiKeyId d) ''anonymous''))),
        ac_roles = map upper (nullish_or (ad_roles d) []), ac_permissions = perms,
        ac_scopes = nullish_or (ad_scopes d) perms,
        ac_type = nullish_or (ad_type d) (if str_or (ad_userId d) [] \<noteq> [] then TJwt
          else if str_or (ad_apiKeyId d) [] \<noteq> [] then TApiKey else TAnonymous),
        ac_authenticated = nullish_or (ad_authenticated d) False \<rparr>)"

definition hasRole :: "AuthContext \<Rightarrow> string \<Rightarrow> bool" where
  "hasRole c role \<longleftrightarrow> ac_authenticated c \<and> role \<noteq> [] \<and> (upper role \<in> set (ac_roles c) \<or> ''ADMIN'' \<in> set (ac_roles c))"

definition hasPermission :: "AuthContext \<Rightarrow> string \<Rightarrow> bool" where
  "hasPermission c perm \<longleftrightarrow> ac_authenticated c \<and> perm \<noteq> [] \<and>
     (upper perm \<in> set (ac_permissions c) \<or> ''*'' \<in> set (ac_permissions c) \<or> ''ADMIN'' \<in> set (ac_roles c))"

definition hasAnyRole :: "AuthContext \<Rightarrow> string list \<Rightarrow> bool" where
  "hasAnyRole c rs \<longleftrightarrow> ac_authenticated c \<and> list_ex (hasRole c) rs"

definition hasAllRoles :: "AuthContext \<Rightarrow> string list \<Rightarrow> bool" where
  "hasAllRoles c rs \<longleftrightarrow> ac_authenticated c \<and> list_all (hasRole c) rs"

definition getPrincipalId :: "AuthContext \<Rightarrow> string" where
  "getPrincipalId c = (case ac_principal c of PObject i _ _ \<Rightarrow> i
     | PText t \<Rightarrow> str_or (Some t) (str_or (ac_userId c) (str_or (ac_apiKeyId c) ''anonymous'')))"

definition unauthenticated :: AuthContext where
  "unauthenticated = AuthContextImpl \<lparr> ad_userId = None, ad_apiKeyId = None, ad_principal = None, ad_roles = Some [],
     ad_permissions = Some [], ad_scopes = Some [], ad_type = Some TAnonymous, ad_authenticated = Some False \<rparr>"

text \<open>The factory: a principal that is a text is a user, an object brings its roles and permissions.\<close>

definition createAuthContext :: "context_type \<Rightarrow> principal \<Rightarrow> string list option \<Rightarrow> string list option \<Rightarrow> AuthContext" where
  "createAuthContext ty p roles permissions = AuthContextImpl
     \<lparr> ad_userId = Some (case p of PText t \<Rightarrow> t | PObject i _ _ \<Rightarrow> i), ad_apiKeyId = None, ad_principal = Some p,
       ad_roles = Some (case p of PText _ \<Rightarrow> [''USER''] | PObject _ _ _ \<Rightarrow> nullish_or roles [''SERVICE'']),
       ad_permissions = Some (case p of PText _ \<Rightarrow> [''READ''] | PObject _ _ _ \<Rightarrow> nullish_or permissions [''READ'', ''WRITE'']),
       ad_scopes = None, ad_type = Some ty, ad_authenticated = Some True \<rparr>"

subsection \<open>The guard\<close>

datatype header_token = Bearer string | ApiKey string

text \<open>\<open>extractToken\<close> of the guard.\<close>

definition guard_extractToken :: "string option \<Rightarrow> header_token option" where
  "guard_extractToken header = (case header of None \<Rightarrow> None | Some h \<Rightarrow>
     let t = trim h in
     if starts_with ''bearer '' (lower t) then Some (Bearer (trim (drop 7 t)))
     else if starts_with ''apikey '' (lower t) then Some (ApiKey (trim (drop 7 t))) else None)"

definition jwt_context :: "claims \<Rightarrow> AuthContext" where
  "jwt_context c =
     (let sub = str_or (cl_sub c) (str_or (cl_userId c) ''user-1'');
          scopes = nullish_or (or_else (cl_scope c) (or_else (cl_scopes c) (cl_permissions c))) [''read''] in
      AuthContextImpl \<lparr> ad_userId = Some sub, ad_apiKeyId = None, ad_principal = Some (PObject sub scopes ''User''),
        ad_roles = Some (nullish_or (cl_roles c) [''USER'']), ad_permissions = Some scopes, ad_scopes = Some scopes,
        ad_type = Some TJwt, ad_authenticated = Some True \<rparr>)"

definition api_key_context :: "ApiKeyContext \<Rightarrow> AuthContext" where
  "api_key_context k = AuthContextImpl
     \<lparr> ad_userId = None, ad_apiKeyId = Some (kx_id k), ad_principal = Some (PObject (kx_id k) (kx_scopes k) (str_or (Some (kx_name k)) ''Key Name'')),
       ad_roles = Some (kx_roles k), ad_permissions = Some (kx_scopes k), ad_scopes = Some (kx_scopes k),
       ad_type = Some TApiKey, ad_authenticated = Some True \<rparr>"

text \<open>\<open>authenticate\<close> over the two strategies. The API key strategy always has \<open>validate\<close>, so the
  signature and timestamp headers are not read.\<close>

definition authenticate ::
  "jwt \<Rightarrow> JWTStrategy \<Rightarrow> (string \<Rightarrow> auth_error + ApiKeyContext) \<Rightarrow> ms \<Rightarrow> string option \<Rightarrow> string option \<Rightarrow>
   string option \<Rightarrow> string option \<Rightarrow> auth_error + AuthContext" where
  "authenticate jw st validate now authHeader apiKeyHeader signatureHeader timestampHeader =
     (let auth = nullish_or authHeader [] in
      if starts_with ''bearer '' (lower (trim auth))
      then bindE (jwt_extractToken (Some auth)) (\<lambda>t. bindE (verifyToken jw st now t) (\<lambda>c. Inr (jwt_context c)))
      else
        (let candidate = str_or apiKeyHeader (if starts_with ''apikey '' (lower auth) then trim (drop 7 auth) else []) in
         if trim candidate \<noteq> [] then bindE (validate (trim candidate)) (\<lambda>k. Inr (api_key_context k))
         else Inl (AuthenticationError MissingToken)))"

definition requireAuth :: "AuthContext \<Rightarrow> auth_error + unit" where
  "requireAuth c = guardE (ac_authenticated c) (AuthenticationError MissingToken)"

definition requireRole :: "AuthContext \<Rightarrow> string \<Rightarrow> auth_error + unit" where
  "requireRole c role = bindE (requireAuth c) (\<lambda>_. guardE (hasRole c role) (AuthorizationError role))"

definition requirePermission :: "AuthContext \<Rightarrow> string \<Rightarrow> auth_error + unit" where
  "requirePermission c perm = bindE (requireAuth c) (\<lambda>_. guardE (hasPermission c perm) (AuthorizationError perm))"

subsection \<open>Roles and permissions\<close>

datatype Role = ADMIN | DEVELOPER | SERVICE | VIEWER

datatype Permission = P_READ | P_WRITE | P_DELETE | P_ADMIN | P_VIEW_LOGS | P_MANAGE_USERS

definition role_str :: "Role \<Rightarrow> string" where
  "role_str r = (case r of ADMIN \<Rightarrow> ''ADMIN'' | DEVELOPER \<Rightarrow> ''DEVELOPER'' | SERVICE \<Rightarrow> ''SERVICE'' | VIEWER \<Rightarrow> ''VIEWER'')"

definition perm_str :: "Permission \<Rightarrow> string" where
  "perm_str p = (case p of P_READ \<Rightarrow> ''READ'' | P_WRITE \<Rightarrow> ''WRITE'' | P_DELETE \<Rightarrow> ''DELETE'' | P_ADMIN \<Rightarrow> ''ADMIN''
     | P_VIEW_LOGS \<Rightarrow> ''VIEW_LOGS'' | P_MANAGE_USERS \<Rightarrow> ''MANAGE_USERS'')"

definition all_roles :: "Role list" where "all_roles = [ADMIN, DEVELOPER, SERVICE, VIEWER]"

definition all_permissions :: "Permission list" where
  "all_permissions = [P_READ, P_WRITE, P_DELETE, P_ADMIN, P_VIEW_LOGS, P_MANAGE_USERS]"

definition ROLE_PERMISSIONS_MAP :: "Role \<Rightarrow> Permission list" where
  "ROLE_PERMISSIONS_MAP r = (case r of
       ADMIN \<Rightarrow> [P_READ, P_WRITE, P_DELETE, P_ADMIN, P_VIEW_LOGS, P_MANAGE_USERS]
     | DEVELOPER \<Rightarrow> [P_READ, P_WRITE, P_DELETE, P_VIEW_LOGS]
     | SERVICE \<Rightarrow> [P_READ, P_WRITE]
     | VIEWER \<Rightarrow> [P_READ])"

text \<open>A role that is not in the table gets \<open>READ\<close>.\<close>

definition getRolePermissions :: "string \<Rightarrow> Permission list" where
  "getRolePermissions role = (case find (\<lambda>r. role_str r = upper role) all_roles of
       Some r \<Rightarrow> ROLE_PERMISSIONS_MAP r | None \<Rightarrow> [P_READ])"

definition AccessControl_hasPermission :: "string \<Rightarrow> string \<Rightarrow> bool" where
  "AccessControl_hasPermission role perm \<longleftrightarrow> upper perm \<in> set (map perm_str (getRolePermissions role))"

definition PermissionChecker_hasPermission :: "AuthContext \<Rightarrow> string \<Rightarrow> bool" where
  "PermissionChecker_hasPermission c perm \<longleftrightarrow> ac_authenticated c \<and>
     (hasPermission c (upper perm) \<or>
      list_ex (\<lambda>role. list_ex (\<lambda>p. upper (perm_str p) = upper perm) (getRolePermissions role)) (ac_roles c))"

definition PermissionChecker_requirePermission :: "AuthContext \<Rightarrow> string \<Rightarrow> auth_error + unit" where
  "PermissionChecker_requirePermission c perm = guardE (PermissionChecker_hasPermission c perm) (AuthorizationError perm)"

definition canViewDelivery :: "AuthContext \<Rightarrow> bool" where
  "canViewDelivery c \<longleftrightarrow> ac_authenticated c \<and> (hasRole c ''ADMIN'' \<or> hasRole c ''DEVELOPER'' \<or> hasPermission c ''READ'')"

definition canModifyDestination :: "AuthContext \<Rightarrow> bool" where
  "canModifyDestination c \<longleftrightarrow> ac_authenticated c \<and> (hasRole c ''ADMIN'' \<or> hasRole c ''DEVELOPER'' \<or> hasPermission c ''WRITE'')"

definition canViewAuditLog :: "AuthContext \<Rightarrow> bool" where
  "canViewAuditLog c \<longleftrightarrow> ac_authenticated c \<and>
     (hasRole c ''ADMIN'' \<or> hasPermission c ''VIEW_LOGS'' \<or> hasPermission c ''ADMIN'')"

definition validateRole :: "string \<Rightarrow> bool" where
  "validateRole role \<longleftrightarrow> role \<noteq> [] \<and> upper role \<in> set (map role_str all_roles)"

definition validatePermission :: "string \<Rightarrow> bool" where
  "validatePermission perm \<longleftrightarrow> perm \<noteq> [] \<and> upper perm \<in> set (map perm_str all_permissions)"

definition validateRolePermissionMapping :: "string \<Rightarrow> string \<Rightarrow> bool" where
  "validateRolePermissionMapping role perm \<longleftrightarrow> validateRole role \<and> validatePermission perm \<and>
     upper perm \<in> set (map perm_str (getRolePermissions role))"

subsection \<open>A token library for the examples\<close>

text \<open>Tokens that carry the secret and the claims in a prefix code: each character is announced, each
  text is closed.\<close>

fun enc_str :: "string \<Rightarrow> string" where
  "enc_str [] = '';''"
| "enc_str (c # s) = CHR ''.'' # c # enc_str s"

fun dec_str :: "string \<Rightarrow> (string \<times> string) option" where
  "dec_str (a # c # r) = (if a = CHR '';'' then Some ([], c # r)
     else case dec_str r of None \<Rightarrow> None | Some (s, t) \<Rightarrow> Some (c # s, t))"
| "dec_str [a] = (if a = CHR '';'' then Some ([], []) else None)"
| "dec_str [] = None"

lemma dec_str_end [simp]: "dec_str (CHR '';'' # r) = Some ([], r)"
  by (cases r) simp_all

lemma dec_enc_str [simp]: "dec_str (enc_str s @ r) = Some (s, r)"
  by (induction s) simp_all

definition enc_opt :: "('a \<Rightarrow> string) \<Rightarrow> 'a option \<Rightarrow> string" where
  "enc_opt f v = (case v of None \<Rightarrow> ''n'' | Some x \<Rightarrow> CHR ''s'' # f x)"

definition dec_opt :: "(string \<Rightarrow> ('a \<times> string) option) \<Rightarrow> string \<Rightarrow> ('a option \<times> string) option" where
  "dec_opt f s = (case s of [] \<Rightarrow> None
     | c # r \<Rightarrow> if c = CHR ''n'' then Some (None, r) else map_option (\<lambda>(x, t). (Some x, t)) (f r))"

lemma dec_enc_opt [simp]:
  assumes "\<And>x r. d (e x @ r) = Some (x, r)"
  shows "dec_opt d (enc_opt e v @ r) = Some (v, r)"
  by (cases v) (simp_all add: enc_opt_def dec_opt_def assms)

fun enc_strs :: "string list \<Rightarrow> string" where
  "enc_strs [] = ''e''"
| "enc_strs (x # xs) = CHR ''c'' # enc_str x @ enc_strs xs"

fun dec_strs :: "nat \<Rightarrow> string \<Rightarrow> (string list \<times> string) option" where
  "dec_strs n [] = None"
| "dec_strs 0 (c # r) = (if c = CHR ''e'' then Some ([], r) else None)"
| "dec_strs (Suc n) (c # r) = (if c = CHR ''e'' then Some ([], r)
     else case dec_str r of None \<Rightarrow> None
       | Some (x, t) \<Rightarrow> (case dec_strs n t of None \<Rightarrow> None | Some (xs, u) \<Rightarrow> Some (x # xs, u)))"

definition dec_list :: "string \<Rightarrow> (string list \<times> string) option" where
  "dec_list s = dec_strs (length s) s"

lemma dec_enc_strs: "length xs \<le> n \<Longrightarrow> dec_strs n (enc_strs xs @ r) = Some (xs, r)"
proof (induction xs arbitrary: n)
  case Nil
  then show ?case by (cases n) simp_all
next
  case (Cons x xs)
  then show ?case by (cases n) simp_all
qed

lemma length_enc_strs: "length xs \<le> length (enc_strs xs)"
  by (induction xs) auto

lemma dec_enc_list [simp]: "dec_list (enc_strs xs @ r) = Some (xs, r)"
  using length_enc_strs [of xs] by (simp add: dec_list_def dec_enc_strs)

definition enc_int :: "int \<Rightarrow> string" where
  "enc_int i = enc_str (if i < 0 then CHR ''-'' # replicate (nat (- i)) CHR ''x'' else replicate (nat i) CHR ''x'')"

definition dec_int :: "string \<Rightarrow> (int \<times> string) option" where
  "dec_int s = map_option (\<lambda>(x, t). (case x of [] \<Rightarrow> 0
     | c # y \<Rightarrow> if c = CHR ''-'' then - int (length y) else int (length x), t)) (dec_str s)"

lemma dec_enc_int [simp]: "dec_int (enc_int i @ r) = Some (i, r)"
proof (cases "nat i")
  case 0
  then show ?thesis by (cases "i < 0") (auto simp: enc_int_def dec_int_def)
next
  case (Suc n)
  then show ?thesis by (auto simp: enc_int_def dec_int_def)
qed

definition enc_claims :: "claims \<Rightarrow> string" where
  "enc_claims c = enc_opt enc_str (cl_sub c) @ enc_opt enc_str (cl_userId c) @ enc_opt enc_str (cl_iss c) @
     enc_opt enc_str (cl_aud c) @ enc_opt enc_int (cl_iat c) @ enc_opt enc_int (cl_exp c) @
     enc_opt enc_strs (cl_roles c) @ enc_opt enc_strs (cl_permissions c) @ enc_opt enc_strs (cl_scope c) @
     enc_opt enc_strs (cl_scopes c) @ enc_opt enc_str (cl_type c)"

definition dec_claims :: "string \<Rightarrow> claims option" where
  "dec_claims s0 =
     Option.bind (dec_opt dec_str s0) (\<lambda>(sub, s1). Option.bind (dec_opt dec_str s1) (\<lambda>(userId, s2).
     Option.bind (dec_opt dec_str s2) (\<lambda>(iss, s3). Option.bind (dec_opt dec_str s3) (\<lambda>(aud, s4).
     Option.bind (dec_opt dec_int s4) (\<lambda>(iat, s5). Option.bind (dec_opt dec_int s5) (\<lambda>(exp, s6).
     Option.bind (dec_opt dec_list s6) (\<lambda>(roles, s7). Option.bind (dec_opt dec_list s7) (\<lambda>(perms, s8).
     Option.bind (dec_opt dec_list s8) (\<lambda>(scope, s9). Option.bind (dec_opt dec_list s9) (\<lambda>(scopes, s10).
     Option.bind (dec_opt dec_str s10) (\<lambda>(ty, s11).
       Some \<lparr> cl_sub = sub, cl_userId = userId, cl_iss = iss, cl_aud = aud, cl_iat = iat, cl_exp = exp,
         cl_roles = roles, cl_permissions = perms, cl_scope = scope, cl_scopes = scopes, cl_type = ty \<rparr>)))))))))))"

lemma dec_enc_claims [simp]: "dec_claims (enc_claims c) = Some c"
proof -
  have "dec_opt dec_str (enc_opt enc_str (cl_type c)) = Some (cl_type c, [])"
    using dec_enc_opt [of dec_str enc_str "cl_type c" "[]"] by simp
  then show ?thesis by (simp add: dec_claims_def enc_claims_def)
qed

definition example_jwt :: jwt where
  "example_jwt = \<lparr> jw_sign = (\<lambda>c s. enc_str s @ enc_claims c),
     jw_verify = (\<lambda>now t s iss aud. case dec_str t of None \<Rightarrow> Inl JsonWebTokenError
        | Some (s', r) \<Rightarrow> (case dec_claims r of None \<Rightarrow> Inl JsonWebTokenError
            | Some c \<Rightarrow> if s' \<noteq> s \<or> cl_iss c \<noteq> Some iss \<or> cl_aud c \<noteq> Some aud then Inl JsonWebTokenError
                else if (case cl_exp c of None \<Rightarrow> False | Some e \<Rightarrow> now div 1000 \<ge> e) then Inl TokenExpiredError else Inr c)),
     jw_decode = (\<lambda>t. case dec_str t of None \<Rightarrow> None | Some (_, r) \<Rightarrow> dec_claims r) \<rparr>"

lemma enc_str_ne [simp]: "enc_str s \<noteq> []"
  by (cases s) simp_all

lemma example_jwt_laws: "jwt_laws example_jwt"
  by (auto simp: jwt_laws_def example_jwt_def split: option.splits)

subsection \<open>Tokens\<close>

lemma jwt_law_simps:
  assumes "jwt_laws jw"
  shows "jw_sign jw c s \<noteq> []" "jw_decode jw (jw_sign jw c s) = Some c"
    "cl_iss c = Some iss \<Longrightarrow> cl_aud c = Some aud \<Longrightarrow> jw_verify jw now (jw_sign jw c s) s iss aud =
       (if \<exists>e. cl_exp c = Some e \<and> now div 1000 \<ge> e then Inl TokenExpiredError else Inr c)"
  using assms by (simp_all add: jwt_laws_def)

lemma verify_generated:
  assumes "jwt_laws jw" "cl_iss p = None" "cl_aud p = None"
  shows "verifyToken jw st now' (generateToken jw st now expiry p) =
    (let c = full_payload st now expiry p in
     if now' div 1000 \<ge> the (cl_exp c) then Inl (AuthenticationError ExpiredToken) else Inr c)"
proof -
  have "cl_iss (full_payload st now expiry p) = Some (js_issuer st)" "cl_aud (full_payload st now expiry p) = Some (js_audience st)"
    "\<exists>e. cl_exp (full_payload st now expiry p) = Some e"
    using assms(2,3) by (auto simp: full_payload_def or_else_def Let_def split: option.splits)
  then show ?thesis
    by (auto simp: verifyToken_def generateToken_def jwt_law_simps [OF assms(1)] Let_def)
qed

lemma full_payload_fields:
  "cl_exp p = None \<Longrightarrow> cl_exp (full_payload st now expiry p) = Some (now div 1000 + num_or expiry (js_defaultExpiryMs st) div 1000)"
  "cl_sub p = Some u \<Longrightarrow> cl_sub (full_payload st now expiry p) = Some u"
  "cl_roles p = Some rs \<Longrightarrow> cl_roles (full_payload st now expiry p) = Some rs"
  "cl_type (full_payload st now expiry p) = cl_type p"
  by (simp_all add: full_payload_def or_else_def Let_def)

lemma no_claims_fields [simp]:
  "cl_iss no_claims = None" "cl_aud no_claims = None" "cl_exp no_claims = None" "cl_roles no_claims = None"
  by (simp_all add: no_claims_def)

definition access_claims :: "JWTStrategy \<Rightarrow> ms \<Rightarrow> string \<Rightarrow> string list \<Rightarrow> claims" where
  "access_claims st now u roles =
     full_payload st now None (no_claims\<lparr> cl_sub := Some u, cl_roles := Some roles, cl_type := Some ''access'' \<rparr>)"

definition refresh_claims :: "JWTStrategy \<Rightarrow> ms \<Rightarrow> string \<Rightarrow> claims" where
  "refresh_claims st now u = full_payload st now (Some 604800000) (no_claims\<lparr> cl_sub := Some u, cl_type := Some ''refresh'' \<rparr>)"

lemma issued_claims:
  "cl_sub (access_claims st now u roles) = Some u" "cl_roles (access_claims st now u roles) = Some roles"
  "cl_type (access_claims st now u roles) = Some ''access''"
  "cl_exp (access_claims st now u roles) = Some (now div 1000 + js_defaultExpiryMs st div 1000)"
  "cl_sub (refresh_claims st now u) = Some u" "cl_type (refresh_claims st now u) = Some ''refresh''"
  "cl_exp (refresh_claims st now u) = Some (now div 1000 + 604800)"
  by (simp_all add: access_claims_def refresh_claims_def full_payload_fields)

text \<open>What an issued token verifies to, and when it expires.\<close>

lemma issued_tokens_verify:
  assumes "jwt_laws jw"
  shows "verifyToken jw st now' (generateAccessToken jw st now u roles None) =
      (if now' div 1000 \<ge> now div 1000 + js_defaultExpiryMs st div 1000 then Inl (AuthenticationError ExpiredToken)
       else Inr (access_claims st now u roles))"
    "verifyToken jw st now' (generateRefreshToken jw st now u 604800000) =
      (if now' div 1000 \<ge> now div 1000 + 604800 then Inl (AuthenticationError ExpiredToken)
       else Inr (refresh_claims st now u))"
  by (simp_all add: generateAccessToken_def generateRefreshToken_def verify_generated [OF assms] full_payload_fields
      access_claims_def refresh_claims_def Let_def)

lemma issued_tokens_decode:
  assumes "jwt_laws jw"
  shows "jw_decode jw (generateAccessToken jw st now u roles None) = Some (access_claims st now u roles)"
    "jw_decode jw (generateRefreshToken jw st now u 604800000) = Some (refresh_claims st now u)"
  by (simp_all add: generateAccessToken_def generateRefreshToken_def generateToken_def jwt_law_simps [OF assms]
      access_claims_def refresh_claims_def)

lemma verify_unrevoked:
  assumes "\<not> isTokenRevoked sha256 store now token ms"
  shows "verifyToken jw st now token = Inl e \<Longrightarrow> verifyAccessToken jw st sha256 store now token ms = Inl e"
    "verifyToken jw st now token = Inl e \<Longrightarrow> verifyRefreshToken jw st sha256 store now token ms = Inl e"
    "verifyToken jw st now token = Inr c \<Longrightarrow> verifyAccessToken jw st sha256 store now token ms =
       (if str_or (cl_type c) ''access'' \<noteq> ''access'' then Inl (AuthenticationError InvalidToken) else Inr c)"
    "verifyToken jw st now token = Inr c \<Longrightarrow> verifyRefreshToken jw st sha256 store now token ms =
       (if cl_type c \<noteq> Some ''refresh'' \<and> cl_type c \<noteq> None then Inl (AuthenticationError InvalidToken) else Inr c)"
  using assms by (simp_all add: verifyAccessToken_def verifyRefreshToken_def)

text \<open>The two tokens issued to a user are kept apart: until it expires, and unless it was revoked, the
  access token is accepted as an access token, for the user and the roles it was issued for, and
  refused as a refresh token, and the refresh token the other way round; after its expiry each is
  refused as expired.\<close>
theorem token_types_are_separate:
  assumes "jwt_laws jw" "issueToken jw st now u roles = t"
    and "\<not> isTokenRevoked sha256 store now' (it_accessToken t) ms" "\<not> isTokenRevoked sha256 store now' (it_refreshToken t) ms"
  shows "(if now' div 1000 < now div 1000 + js_defaultExpiryMs st div 1000
      then (\<exists>c. verifyAccessToken jw st sha256 store now' (it_accessToken t) ms = Inr c \<and>
              cl_sub c = Some u \<and> cl_roles c = Some roles) \<and>
           verifyRefreshToken jw st sha256 store now' (it_accessToken t) ms = Inl (AuthenticationError InvalidToken)
      else verifyAccessToken jw st sha256 store now' (it_accessToken t) ms = Inl (AuthenticationError ExpiredToken)) \<and>
    (if now' div 1000 < now div 1000 + 604800
      then (\<exists>c. verifyRefreshToken jw st sha256 store now' (it_refreshToken t) ms = Inr c \<and> cl_sub c = Some u) \<and>
           verifyAccessToken jw st sha256 store now' (it_refreshToken t) ms = Inl (AuthenticationError InvalidToken)
      else verifyRefreshToken jw st sha256 store now' (it_refreshToken t) ms = Inl (AuthenticationError ExpiredToken))"
proof -
  have t: "it_accessToken t = generateAccessToken jw st now u roles None"
    "it_refreshToken t = generateRefreshToken jw st now u 604800000"
    using assms(2) by (auto simp: issueToken_def Let_def)
  show ?thesis
    using assms(3,4) unfolding t
    by (simp add: verify_unrevoked issued_tokens_verify [OF assms(1)] issued_claims)
qed

definition example_strategy :: JWTStrategy where
  "example_strategy = JWTStrategy_new (Some ''s'') None None None None None None None None"

theorem token_types_are_separate_witness:
  "verifyAccessToken example_jwt example_strategy id (None :: unit revocations option) 2000
     (it_refreshToken (issueToken example_jwt example_strategy 1000 ''u'' [''USER''])) (\<lparr> tm_blacklist = [] \<rparr>, ()) =
   Inl (AuthenticationError InvalidToken)"
proof -
  let ?ms = "(\<lparr> tm_blacklist = [] \<rparr>, ())"
  have nr: "\<not> isTokenRevoked id (None :: unit revocations option) 2000 t ?ms" for t
    by (simp add: isTokenRevoked_def)
  show ?thesis
    using token_types_are_separate [where st = example_strategy and now = 1000 and u = "''u''" and roles = "[''USER'']",
      OF example_jwt_laws refl nr nr] by simp
qed

text \<open>A refresh token with more than five minutes left is handed back as the access token by
  \<open>refreshToken\<close>; \<open>verifyAccessToken\<close> refuses it.\<close>
theorem refreshed_access_token_is_refused:
  assumes "jwt_laws jw" "token = generateRefreshToken jw st now u 604800000"
    and "now' div 1000 + 300 < now div 1000 + 604800" "0 \<le> now"
    and "\<not> isTokenRevoked sha256 store now' token ms"
  shows "\<exists>t. refreshToken jw st sha256 store now' token ms = (ms, Inr t) \<and> it_accessToken t = token \<and>
     verifyAccessToken jw st sha256 store now' (it_accessToken t) ms = Inl (AuthenticationError InvalidToken)"
proof -
  have v: "verifyToken jw st now' token = Inr (refresh_claims st now u)"
    using assms(3) by (simp add: assms(2) issued_tokens_verify [OF assms(1)])
  have "num_or (cl_exp (refresh_claims st now u)) (now' div 1000 + 3600) - now' div 1000 > 300"
    using assms(3,4) by (simp add: issued_claims)
  then show ?thesis
    by (simp add: refreshToken_def Let_def verify_unrevoked(3,4) [OF assms(5) v] issued_claims)
qed

theorem refreshed_access_token_is_refused_witness:
  "\<exists>t. refreshToken example_jwt example_strategy id (None :: unit revocations option) 2000
       (generateRefreshToken example_jwt example_strategy 1000 ''u'' 604800000) (\<lparr> tm_blacklist = [] \<rparr>, ()) =
     ((\<lparr> tm_blacklist = [] \<rparr>, ()), Inr t) \<and>
     verifyAccessToken example_jwt example_strategy id (None :: unit revocations option) 2000 (it_accessToken t) (\<lparr> tm_blacklist = [] \<rparr>, ()) =
       Inl (AuthenticationError InvalidToken)"
  by (rule refreshed_access_token_is_refused [where now' = 2000 and now = 1000, OF example_jwt_laws refl, THEN exE])
    (auto simp: isTokenRevoked_def)

subsection \<open>Revocation\<close>

datatype token_op = Revoke ms string | Refresh ms string

fun run_token_op ::
  "jwt \<Rightarrow> JWTStrategy \<Rightarrow> (string \<Rightarrow> string) \<Rightarrow> 's revocations option \<Rightarrow> token_op \<Rightarrow> TokenManager \<times> 's \<Rightarrow> TokenManager \<times> 's" where
  "run_token_op jw st sha256 store (Revoke now t) ms = fst (revokeToken jw sha256 store now t ms)"
| "run_token_op jw st sha256 store (Refresh now t) ms = fst (refreshToken jw st sha256 store now t ms)"

lemma revokeToken_blacklist:
  "tm_blacklist (fst (fst (revokeToken jw sha256 store now t ms))) =
     (case jw_decode jw t of None \<Rightarrow> tm_blacklist (fst ms) | Some _ \<Rightarrow> List.insert (sha256 t) (tm_blacklist (fst ms)))"
  by (cases ms) (simp add: revokeToken_def decodeToken_def Let_def split: option.splits sum.splits)

lemma refreshToken_state:
  "fst (refreshToken jw st sha256 store now t ms) = ms \<or>
   fst (refreshToken jw st sha256 store now t ms) = fst (revokeToken jw sha256 store now t ms)"
  by (auto simp: refreshToken_def Let_def split: sum.splits prod.splits option.splits)

lemma run_token_op_keeps:
  assumes "h \<in> set (tm_blacklist (fst ms))"
  shows "h \<in> set (tm_blacklist (fst (run_token_op jw st sha256 store op ms)))"
proof (cases op)
  case (Revoke now t)
  with assms show ?thesis by (simp add: revokeToken_blacklist split: option.splits)
next
  case (Refresh now t)
  with assms refreshToken_state [of jw st sha256 store now t ms] show ?thesis
    by (auto simp: revokeToken_blacklist split: option.splits)
qed

lemma run_token_ops_keep:
  "h \<in> set (tm_blacklist (fst ms)) \<Longrightarrow> h \<in> set (tm_blacklist (fst (fold (run_token_op jw st sha256 store) ops ms)))"
  by (induction ops arbitrary: ms) (simp_all add: run_token_op_keeps)

text \<open>C18: Once \<open>revokeToken\<close> was called with a token that decodes, the manager refuses it as an access token
  and as a refresh token for ever, whatever it revokes or refreshes afterwards and even if writing to
  the store failed.\<close>
theorem revoked_token_stays_revoked:
  assumes "jw_decode jw t = Some c"
  shows "verifyAccessToken jw st sha256 store now' t
       (fold (run_token_op jw st sha256 store) ops (fst (revokeToken jw sha256 store now t ms))) = Inl (AuthenticationError RevokedToken) \<and>
     verifyRefreshToken jw st sha256 store now' t
       (fold (run_token_op jw st sha256 store) ops (fst (revokeToken jw sha256 store now t ms))) = Inl (AuthenticationError RevokedToken)"
proof -
  let ?last = "fold (run_token_op jw st sha256 store) ops (fst (revokeToken jw sha256 store now t ms))"
  have "sha256 t \<in> set (tm_blacklist (fst ?last))"
    by (rule run_token_ops_keep) (simp add: revokeToken_blacklist assms)
  then have "isTokenRevoked sha256 store now' t ?last"
    by (simp add: isTokenRevoked_def case_prod_beta)
  then show ?thesis by (simp add: verifyAccessToken_def verifyRefreshToken_def)
qed

theorem revoked_token_stays_revoked_witness:
  "verifyAccessToken example_jwt example_strategy id (None :: unit revocations option) 9000
     (generateRefreshToken example_jwt example_strategy 1000 ''u'' 604800000)
     (fold (run_token_op example_jwt example_strategy id None) [Refresh 8000 []]
       (fst (revokeToken example_jwt id None 2000 (generateRefreshToken example_jwt example_strategy 1000 ''u'' 604800000)
         (\<lparr> tm_blacklist = [] \<rparr>, ())))) = Inl (AuthenticationError RevokedToken)"
  by (rule revoked_token_stays_revoked [OF issued_tokens_decode(2) [OF example_jwt_laws], THEN conjunct1])

text \<open>\<open>RedisOperations\<close> as the store of revocations.\<close>

definition operations_revocations :: "(string, 's) redis \<Rightarrow> 's revocations" where
  "operations_revocations rd = \<lparr> rv_client = operations_client rd,
     rv_exists = Some (\<lambda>now k s. Inr (rd_get rd now k s \<noteq> None)) \<rparr>"

text \<open>Behind \<open>RedisOperations\<close>, whose \<open>set\<close> takes milliseconds, a revocation meant to last the remaining
  seconds of the token lasts as many milliseconds: from then on another instance, or the same one
  after a restart, accepts the revoked token again.\<close>
theorem revocation_is_forgotten_elsewhere:
  assumes "jwt_laws jw" "redis_laws rd" "store = Some (operations_revocations rd)"
    and "t = generateAccessToken jw st issued u roles None"
    and "\<forall>n. rd_get rd n (''revoked_token:'' @ t) s = None"
    and "revokeToken jw sha256 store now t (m1, s) = ((m1', s'), None)"
    and "sha256 t \<notin> set (tm_blacklist m2)"
    and "e = issued div 1000 + js_defaultExpiryMs st div 1000" "0 < e" "now div 1000 < e"
    and "now + (e - now div 1000) \<le> now'" "now' div 1000 < e"
  shows "\<exists>c. verifyAccessToken jw st sha256 store now' t (m2, s') = Inr c \<and> cl_sub c = Some u \<and> cl_roles c = Some roles"
proof -
  let ?k = "blacklist_key (sha256 t)" and ?ttl = "e - now div 1000"
  have dec: "decodeToken jw t = Inr (access_claims st issued u roles)"
    by (simp add: decodeToken_def assms(4) issued_tokens_decode [OF assms(1)])
  have ttl: "max 1 (num_or (cl_exp (access_claims st issued u roles)) (now div 1000 + 3600) - now div 1000) = ?ttl"
    using assms(8,9,10) by (simp add: issued_claims)
  have s': "s' = rd_set rd now ?k ''revoked'' (Some ?ttl) s"
    using assms(6,10) by (simp add: revokeToken_def dec Let_def assms(3) operations_revocations_def operations_client_def
        RedisOperations_set_def ttl del: num_or_simps)
  have later: "now \<le> now'" "0 < ?ttl" using assms(10,11) by simp_all
  have "rd_get rd now' ?k s' = None"
    using redis_get_set [OF assms(2) later, of ?k "''revoked''" s] assms(11) by (simp add: s')
  moreover have "rd_get rd now' (''revoked_token:'' @ t) s' = None"
    using assms(5) by (simp add: s' redis_get_other [OF assms(2)] blacklist_key_def)
  ultimately have nr: "\<not> isTokenRevoked sha256 store now' t (m2, s')"
    using assms(7) by (simp add: isTokenRevoked_def assms(3) operations_revocations_def operations_client_def)
  have "verifyToken jw st now' t = Inr (access_claims st issued u roles)"
    using assms(8,12) by (simp add: assms(4) issued_tokens_verify [OF assms(1)])
  then show ?thesis by (simp add: verify_unrevoked(3) [OF nr] issued_claims)
qed

theorem revocation_is_forgotten_elsewhere_witness:
  "\<exists>s' c. snd (fst (revokeToken example_jwt id (Some (operations_revocations list_redis)) 2000
       (generateAccessToken example_jwt example_strategy 1000 ''u'' [''USER''] None) (\<lparr> tm_blacklist = [] \<rparr>, []))) = s' \<and>
     verifyAccessToken example_jwt example_strategy id (Some (operations_revocations list_redis)) 6000
       (generateAccessToken example_jwt example_strategy 1000 ''u'' [''USER''] None) (\<lparr> tm_blacklist = [] \<rparr>, s') = Inr c"
proof -
  let ?t = "generateAccessToken example_jwt example_strategy 1000 ''u'' [''USER''] None"
  let ?r = "revokeToken example_jwt id (Some (operations_revocations list_redis)) 2000 ?t (\<lparr> tm_blacklist = [] \<rparr>, [])"
  have "snd ?r = None"
    by (simp add: revokeToken_def decodeToken_def issued_tokens_decode [OF example_jwt_laws] Let_def
        operations_revocations_def operations_client_def)
  then have r: "?r = ((fst (fst ?r), snd (fst ?r)), None)" by (simp add: prod_eq_iff)
  have empty: "\<forall>n. rd_get list_redis n (''revoked_token:'' @ ?t) [] = None"
    by (simp add: list_redis_def)
  have fresh: "id ?t \<notin> set (tm_blacklist \<lparr> tm_blacklist = [] \<rparr>)" by simp
  have "\<exists>c. verifyAccessToken example_jwt example_strategy id (Some (operations_revocations list_redis)) 6000 ?t
      (\<lparr> tm_blacklist = [] \<rparr>, snd (fst ?r)) = Inr c \<and> cl_sub c = Some ''u'' \<and> cl_roles c = Some [''USER'']"
    by (rule revocation_is_forgotten_elsewhere [OF example_jwt_laws list_redis_laws refl refl empty r fresh refl])
      (simp_all add: example_strategy_def JWTStrategy_new_def)
  then show ?thesis by blast
qed

text \<open>\<open>JWTStrategy.refreshToken\<close> decodes its argument without verifying it and signs the claims anew:
  whatever text decodes to claims without issuer and audience, forged or expired, is turned into a
  token that verifies, with the same subject and roles.\<close>
theorem refresh_launders_any_token:
  assumes "jwt_laws jw" "jw_decode jw forged = Some c" "cl_iss c = None" "cl_aud c = None"
    and "cl_sub c = Some u" "cl_roles c = Some roles" "now' div 1000 < now div 1000 + js_defaultExpiryMs st div 1000"
  shows "\<exists>t c'. jwt_refreshToken jw st now forged = Inr t \<and> verifyToken jw st now' t = Inr c' \<and>
     cl_sub c' = Some u \<and> cl_roles c' = Some roles"
  using assms
  by (simp add: jwt_refreshToken_def decodeToken_def verify_generated [OF assms(1)] full_payload_fields Let_def)

theorem refresh_launders_any_token_witness:
  "\<exists>t c. jwt_refreshToken example_jwt example_strategy 1000
       (jw_sign example_jwt (no_claims\<lparr> cl_sub := Some ''eve'', cl_roles := Some [''ADMIN''] \<rparr>) ''wrong'') = Inr t \<and>
     verifyToken example_jwt example_strategy 2000 t = Inr c \<and> cl_sub c = Some ''eve'' \<and> cl_roles c = Some [''ADMIN'']"
  by (rule refresh_launders_any_token [OF example_jwt_laws jwt_law_simps(2) [OF example_jwt_laws]])
    (simp_all add: no_claims_def example_strategy_def JWTStrategy_new_def)

subsection \<open>API keys\<close>

lemma hex_no_underscore: "list_all hex_char a \<Longrightarrow> CHR ''_'' \<notin> set a"
  by (auto simp: list_all_iff hex_char_def digit_char_def)

lemma hex_no_space: "hex_char c \<Longrightarrow> \<not> is_space c"
  by (auto simp: hex_char_def is_space_def digit_char_def)

lemma key_pattern_of_parts:
  assumes "length a = 16" "list_all hex_char a" "length b = 16" "list_all hex_char b"
  shows "key_pattern (''qf_'' @ a @ ''_'' @ b)" "trim (''qf_'' @ a @ ''_'' @ b) = ''qf_'' @ a @ ''_'' @ b"
proof -
  have "split_on (CHR ''_'') (''qf'' @ CHR ''_'' # a @ CHR ''_'' # b) = [''qf'', a, b]"
    using assms(2,4) by (subst split_on_append, simp)
      (simp add: split_on_append hex_no_underscore split_on_fresh)
  then show "key_pattern (''qf_'' @ a @ ''_'' @ b)"
    using assms by (simp add: key_pattern_def del: split_on.simps)
  have "b \<noteq> []" using assms(3) by auto
  then have "\<not> is_space (last b)" using assms(4) last_in_set [of b] by (simp add: list_all_iff hex_no_space)
  moreover have "\<not> is_space CHR ''q''" by (simp add: is_space_def)
  ultimately show "trim (''qf_'' @ a @ ''_'' @ b) = ''qf_'' @ a @ ''_'' @ b"
    using \<open>b \<noteq> []\<close> by (intro trim_unchanged) simp_all
qed

lemma upper_words:
  "upper ''read'' = ''READ''" "upper ''write'' = ''WRITE''" "upper ''READ'' = ''READ''" "upper ''WRITE'' = ''WRITE''"
  "upper ''SERVICE'' = ''SERVICE''"
  by code_simp+

text \<open>C31: Any text of the form of an API key authenticates: when the repository does not know the key, a
  default record is made up for it. Unless its hash was revoked on this instance or is cached, the
  caller becomes an authenticated service that may read deliveries and modify destinations, and the
  signature headers are not looked at.\<close>
theorem made_up_key_authenticates:
  assumes "length a = 16" "list_all hex_char a" "length b = 16" "list_all hex_char b"
    and "key = ''qf_'' @ a @ ''_'' @ b"
    and "ke_cache ke = None" "ke_findByKeyHash ke (sha256 key) = None" "sha256 key \<notin> set revoked"
  shows "\<exists>c. authenticate jw st (validate_key sha256 hmac ke revoked now) now None (Some key) sig ts = Inr c \<and>
     ac_authenticated c \<and> ac_roles c = [''SERVICE''] \<and> canViewDelivery c \<and> canModifyDestination c"
proof -
  have key: "key_pattern key" "trim key = key" "key \<noteq> []" "starts_with ''qf_'' key"
    using key_pattern_of_parts [OF assms(1-4)] by (simp_all add: assms(5))
  have "validate_key sha256 hmac ke revoked now key = Inr (record_context now key (default_record (ke_hmacSecret ke) (sha256 key)))"
    using assms(6-8) key by (simp add: validate_key_def validateApiKey_def Let_def default_record_def)
  then have "authenticate jw st (validate_key sha256 hmac ke revoked now) now None (Some key) sig ts =
      Inr (api_key_context (record_context now key (default_record (ke_hmacSecret ke) (sha256 key))))"
    using key(2,3) by (simp add: authenticate_def Let_def)
  then show ?thesis
    by (simp add: api_key_context_def record_context_def default_record_def or_else_def AuthContextImpl_def Let_def
        canViewDelivery_def canModifyDestination_def hasRole_def hasPermission_def upper_words del: upper_simps)
qed

theorem made_up_key_authenticates_witness:
  "\<exists>c. authenticate example_jwt example_strategy (validate_key id (\<lambda>_ _. [])
       \<lparr> ke_apiKeys = [], ke_cache = None, ke_getSecret = (\<lambda>_. None), ke_findByKeyHash = (\<lambda>_. None), ke_hmacSecret = None \<rparr> [] 0)
     0 None (Some ''qf_0000000000000000_aaaaaaaaaaaaaaaa'') None None = Inr c \<and> canModifyDestination c"
proof -
  let ?ke = "\<lparr> ke_apiKeys = [], ke_cache = None, ke_getSecret = (\<lambda>_. None), ke_findByKeyHash = (\<lambda>_. None), ke_hmacSecret = None \<rparr>"
  have key: "''qf_0000000000000000_aaaaaaaaaaaaaaaa'' = ''qf_'' @ replicate 16 CHR ''0'' @ ''_'' @ replicate 16 CHR ''a''"
    by (simp add: numeral_eq_Suc)
  have "\<exists>c. authenticate example_jwt example_strategy (validate_key id (\<lambda>_ _. []) ?ke [] 0)
       0 None (Some ''qf_0000000000000000_aaaaaaaaaaaaaaaa'') None None = Inr c \<and>
     ac_authenticated c \<and> ac_roles c = [''SERVICE''] \<and> canViewDelivery c \<and> canModifyDestination c"
    by (rule made_up_key_authenticates [OF _ _ _ _ key]) (simp_all add: list_all_iff hex_char_def digit_char_def)
  then show ?thesis by blast
qed

subsection \<open>Permissions\<close>

lemma upper_table [simp]: "upper (role_str r) = role_str r" "upper (perm_str p) = perm_str p"
  by (cases r; simp add: role_str_def upper_def upper_char_def) (cases p; simp add: perm_str_def upper_def upper_char_def)

lemma perm_str_inj [simp]: "perm_str p = perm_str q \<longleftrightarrow> p = q"
  by (cases p; cases q) (simp_all add: perm_str_def)

lemma getRolePermissions_role [simp]: "getRolePermissions (role_str r) = ROLE_PERMISSIONS_MAP r"
  by (cases r) (simp_all add: getRolePermissions_def all_roles_def role_str_def upper_def upper_char_def)

lemma getRolePermissions_unknown:
  assumes "upper role \<notin> set (map role_str all_roles)"
  shows "getRolePermissions role = [P_READ]"
proof -
  have "find (\<lambda>r. role_str r = upper role) all_roles = None"
    using assms by (force simp: find_None_iff simp del: upper_table)
  then show ?thesis by (simp add: getRolePermissions_def)
qed

text \<open>The table is a chain.\<close>

fun rank :: "Role \<Rightarrow> nat" where
  "rank VIEWER = 0" | "rank SERVICE = 1" | "rank DEVELOPER = 2" | "rank ADMIN = 3"

lemma roles_chain: "rank r \<le> rank r' \<Longrightarrow> set (ROLE_PERMISSIONS_MAP r) \<subseteq> set (ROLE_PERMISSIONS_MAP r')"
  by (cases r; cases r') (auto simp: ROLE_PERMISSIONS_MAP_def)

text \<open>The permission checker grants a permission of the system to a security context exactly when the
  context is authenticated and the permission is among its own, or it has the wildcard or the role
  ADMIN, or one of its roles has the permission in the table, where every role that is not in the table
  counts as VIEWER; a role of a higher rank has every permission of a lower one, and an
  unauthenticated context has none.\<close>
theorem permissions_characterised:
  "(PermissionChecker_hasPermission (AuthContextImpl d) (perm_str p) \<longleftrightarrow>
      nullish_or (ad_authenticated d) False \<and>
      (perm_str p \<in> set (map upper (nullish_or (ad_permissions d) [])) \<or>
       ''*'' \<in> set (map upper (nullish_or (ad_permissions d) [])) \<or>
       ''ADMIN'' \<in> set (map upper (nullish_or (ad_roles d) [])) \<or>
       (\<exists>role. role \<in> set (map upper (nullish_or (ad_roles d) [])) \<and>
          (\<exists>r. p \<in> set (ROLE_PERMISSIONS_MAP r) \<and>
             (role = role_str r \<or> r = VIEWER \<and> role \<notin> set (map role_str all_roles)))))) \<and>
   (rank r1 \<le> rank r2 \<longrightarrow> AccessControl_hasPermission (role_str r1) x \<longrightarrow> AccessControl_hasPermission (role_str r2) x) \<and>
   \<not> PermissionChecker_hasPermission unauthenticated x"
proof -
  have ne: "perm_str p \<noteq> []" by (cases p) (simp_all add: perm_str_def)
  have table: "p \<in> set (getRolePermissions role) \<longleftrightarrow>
      (\<exists>r. p \<in> set (ROLE_PERMISSIONS_MAP r) \<and> (role = role_str r \<or> r = VIEWER \<and> role \<notin> set (map role_str all_roles)))"
    if "upper role = role" for role
  proof (cases "role \<in> set (map role_str all_roles)")
    case True
    then obtain r where "role = role_str r" by auto
    moreover have "role_str r = role_str r' \<longleftrightarrow> r = r'" for r' by (cases r; cases r') (simp_all add: role_str_def)
    ultimately show ?thesis using True by auto
  next
    case False
    then have "\<And>r. role \<noteq> role_str r" by (auto simp: all_roles_def) (metis Role.exhaust)
    moreover have "ROLE_PERMISSIONS_MAP VIEWER = [P_READ]" by (simp add: ROLE_PERMISSIONS_MAP_def)
    ultimately show ?thesis using False that by (auto simp: getRolePermissions_unknown)
  qed
  have "upper role = role" if "role \<in> set (ac_roles (AuthContextImpl d))" for role
    using that by (auto simp: AuthContextImpl_def Let_def)
  then have "PermissionChecker_hasPermission (AuthContextImpl d) (perm_str p) \<longleftrightarrow>
      ac_authenticated (AuthContextImpl d) \<and> (hasPermission (AuthContextImpl d) (perm_str p) \<or>
      (\<exists>role \<in> set (ac_roles (AuthContextImpl d)). \<exists>r. p \<in> set (ROLE_PERMISSIONS_MAP r) \<and>
         (role = role_str r \<or> r = VIEWER \<and> role \<notin> set (map role_str all_roles))))"
    using table by (simp add: PermissionChecker_hasPermission_def list_ex_iff Bex_def)
  then have "PermissionChecker_hasPermission (AuthContextImpl d) (perm_str p) \<longleftrightarrow>
      nullish_or (ad_authenticated d) False \<and>
      (perm_str p \<in> set (map upper (nullish_or (ad_permissions d) [])) \<or>
       ''*'' \<in> set (map upper (nullish_or (ad_permissions d) [])) \<or>
       ''ADMIN'' \<in> set (map upper (nullish_or (ad_roles d) [])) \<or>
       (\<exists>role. role \<in> set (map upper (nullish_or (ad_roles d) [])) \<and>
          (\<exists>r. p \<in> set (ROLE_PERMISSIONS_MAP r) \<and>
             (role = role_str r \<or> r = VIEWER \<and> role \<notin> set (map role_str all_roles)))))"
    using ne by (simp add: hasPermission_def AuthContextImpl_def Let_def Bex_def del: set_map) blast
  moreover have "rank r1 \<le> rank r2 \<Longrightarrow> AccessControl_hasPermission (role_str r1) x \<Longrightarrow> AccessControl_hasPermission (role_str r2) x"
    using roles_chain [of r1 r2] by (auto simp: AccessControl_hasPermission_def)
  moreover have "\<not> PermissionChecker_hasPermission unauthenticated x"
    by (simp add: PermissionChecker_hasPermission_def unauthenticated_def AuthContextImpl_def Let_def)
  ultimately show ?thesis by blast
qed

theorem permissions_characterised_witness:
  "PermissionChecker_hasPermission (AuthContextImpl \<lparr> ad_userId = Some ''u'', ad_apiKeyId = None, ad_principal = None,
      ad_roles = Some [''developer''], ad_permissions = None, ad_scopes = None, ad_type = None, ad_authenticated = Some True \<rparr>)
     (perm_str P_VIEW_LOGS) \<and>
   AccessControl_hasPermission (role_str ADMIN) ''delete''"
proof -
  have up: "upper ''developer'' = role_str DEVELOPER" by code_simp
  have dev: "P_VIEW_LOGS \<in> set (ROLE_PERMISSIONS_MAP DEVELOPER)" by (simp add: ROLE_PERMISSIONS_MAP_def)
  have "AccessControl_hasPermission (role_str DEVELOPER) ''delete''" by code_simp
  then have "AccessControl_hasPermission (role_str ADMIN) ''delete''"
    using permissions_characterised [of undefined undefined DEVELOPER ADMIN "''delete''"] by simp
  moreover have "PermissionChecker_hasPermission (AuthContextImpl \<lparr> ad_userId = Some ''u'', ad_apiKeyId = None, ad_principal = None,
      ad_roles = Some [''developer''], ad_permissions = None, ad_scopes = None, ad_type = None, ad_authenticated = Some True \<rparr>)
     (perm_str P_VIEW_LOGS)"
    by (rule permissions_characterised [THEN conjunct1, THEN iffD2]) (use up dev in auto)
  ultimately show ?thesis by blast
qed

end
