(* ===== verification/QF_Json.thy ===== *)
theory QF_Json
  imports QF_Prelude "HOL-Library.List_Lexorder" "HOL-Library.Char_ord" "HOL-Library.Multiset" "HOL-Library.Word"
begin

text \<open>
  JSON values and their texts. \<open>json\<close> are the values of parsed bodies (numbers are integers; an object
  keeps its properties in order); \<open>stringify\<close> is \<open>JSON.stringify\<close>, and \<open>deterministicStringify\<close>
  (\<open>security/hmac/signer.ts\<close>) is the text that is signed. Shown here: the texts are unambiguous, and the
  deterministic text of two values is the same exactly when they agree up to the order of properties.
  Also \<open>parseInt\<close> on decimal text, and the hexadecimal text of a buffer and its reading by
  \<open>Buffer.from(s, 'hex')\<close>. \<open>json_object\<close> are the operations of \<open>shared/utils/object.ts\<close> and
  \<open>object-utils.ts\<close>.
\<close>

subsection \<open>Decimal text\<close>

definition digit_val :: "char \<Rightarrow> nat" where
  "digit_val c = of_char c - 48"

definition read_digits :: "string \<Rightarrow> nat" where
  "read_digits s = foldl (\<lambda>n c. n * 10 + digit_val c) 0 s"

text \<open>\<open>parseInt(s, 10)\<close>: blanks, a sign, the digits that follow; \<open>None\<close> is \<open>NaN\<close>.\<close>

definition parse_int :: "string \<Rightarrow> int option" where
  "parse_int s =
     (let t = dropWhile is_space s;
          (neg, u) = (case t of [] \<Rightarrow> (False, []) | c # r \<Rightarrow> if c = CHR ''-'' then (True, r) else if c = CHR ''+'' then (False, r) else (False, t));
          d = takeWhile digit_char u
      in if d = [] then None else Some (if neg then - int (read_digits d) else int (read_digits d)))"

lemma of_char_digit: "n < 10 \<Longrightarrow> (of_char (char_of (48 + n) :: char) :: nat) = 48 + n"
  by simp

lemma digit_char_of [simp]: "n < 10 \<Longrightarrow> digit_char (char_of (48 + n))" "n < 10 \<Longrightarrow> digit_val (char_of (48 + n)) = n"
  by (simp_all add: digit_char_def digit_val_def)

lemma show_nat_digits: "list_all digit_char (show_nat n)"
proof (induction n rule: show_nat.induct)
  case (1 n)
  then show ?case by (subst show_nat.simps) (simp add: list_all_iff)
qed

lemma show_nat_nonempty [simp]: "show_nat n \<noteq> []"
  by (subst show_nat.simps) simp

lemma read_digits_show_nat [simp]: "read_digits (show_nat n) = n"
proof (induction n rule: show_nat.induct)
  case (1 n)
  show ?case
  proof (cases "n < 10")
    case True
    then show ?thesis by (subst show_nat.simps) (simp add: read_digits_def)
  next
    case False
    then have "read_digits (show_nat (n div 10)) = n div 10" using 1 by simp
    then show ?thesis using False by (subst show_nat.simps) (simp add: read_digits_def)
  qed
qed

definition no_digit :: "string \<Rightarrow> bool" where
  "no_digit r \<longleftrightarrow> (case r of [] \<Rightarrow> True | c # _ \<Rightarrow> \<not> digit_char c)"

lemma takeWhile_show_nat: "no_digit r \<Longrightarrow> takeWhile digit_char (show_nat n @ r) = show_nat n"
  using show_nat_digits [of n] by (cases r) (simp_all add: takeWhile_append2 list_all_iff no_digit_def takeWhile_tail)

lemma hd_show_nat: "digit_char (hd (show_nat n))"
  using show_nat_digits [of n] by (cases "show_nat n") simp_all

lemma digit_char_not [simp]: "digit_char c \<Longrightarrow> \<not> is_space c" "digit_char c \<Longrightarrow> c \<noteq> CHR ''-''" "digit_char c \<Longrightarrow> c \<noteq> CHR ''+''"
  "digit_char c \<Longrightarrow> c \<noteq> CHR '',''"
  by (auto simp: digit_char_def is_space_def)

text \<open>Reading back what \<open>String(n)\<close> printed.\<close>

lemma parse_int_show_int_append: "no_digit r \<Longrightarrow> parse_int (show_int i @ r) = Some i"
proof (cases "i < 0")
  case True
  assume "no_digit r"
  then show ?thesis using True
    by (simp add: show_int_def parse_int_def Let_def takeWhile_show_nat is_space_def)
next
  case False
  assume "no_digit r"
  obtain c s where s: "show_nat (nat i) = c # s" by (cases "show_nat (nat i)") auto
  then have "digit_char c" using hd_show_nat [of "nat i"] by simp
  then have "takeWhile digit_char (c # s @ r) = show_nat (nat i)" using takeWhile_show_nat [OF \<open>no_digit r\<close>, of "nat i"] s by simp
  then show ?thesis using False s \<open>digit_char c\<close> read_digits_show_nat [of "nat i"]
    by (simp add: show_int_def parse_int_def Let_def)
qed

lemma parse_int_show_int [simp]: "parse_int (show_int i) = Some i"
  using parse_int_show_int_append [of "[]" i] by (simp add: no_digit_def)

lemma show_int_inj [simp]: "show_int i = show_int j \<longleftrightarrow> i = j"
  by (metis option.inject parse_int_show_int)

lemma show_int_chars: "list_all (\<lambda>c. digit_char c \<or> c = CHR ''-'') (show_int i)"
  using show_nat_digits by (auto simp: show_int_def list_all_iff)

subsection \<open>Hexadecimal text of a buffer\<close>

type_synonym byte = "8 word"

definition hex_digit :: "nat \<Rightarrow> char" where
  "hex_digit n = (if n < 10 then char_of (48 + n) else char_of (87 + n))"

definition hex_val :: "char \<Rightarrow> nat option" where
  "hex_val c = (let n = of_char c :: nat in
     if 48 \<le> n \<and> n \<le> 57 then Some (n - 48) else if 97 \<le> n \<and> n \<le> 102 then Some (n - 87)
     else if 65 \<le> n \<and> n \<le> 70 then Some (n - 55) else None)"

definition to_hex :: "byte list \<Rightarrow> string" where
  "to_hex bs = concat (map (\<lambda>b. [hex_digit (unat b div 16), hex_digit (unat b mod 16)]) bs)"

text \<open>\<open>Buffer.from(s, 'hex')\<close> reads pairs of digits up to the first that is not one.\<close>

fun from_hex :: "string \<Rightarrow> byte list" where
  "from_hex (a # b # r) = (case (hex_val a, hex_val b) of
      (Some x, Some y) \<Rightarrow> of_nat (16 * x + y) # from_hex r | _ \<Rightarrow> [])"
| "from_hex _ = []"

lemma hex_val_digit [simp]: "n < 16 \<Longrightarrow> hex_val (hex_digit n) = Some n"
  by (auto simp: hex_val_def hex_digit_def)

lemma unat_byte: "unat (b :: byte) div 16 < 16"
proof -
  have "unat b < 2 ^ LENGTH(8)" by (rule unsigned_less)
  then show ?thesis by simp
qed

lemma from_hex_to_hex_append [simp]: "from_hex (to_hex bs @ r) = bs @ from_hex r"
proof (induction bs)
  case Nil
  then show ?case by (simp add: to_hex_def)
next
  case (Cons b bs)
  have "(of_nat (16 * (unat b div 16) + unat b mod 16) :: byte) = b" by simp
  then show ?case using Cons unat_byte [of b] by (simp add: to_hex_def)
qed

lemma from_hex_to_hex [simp]: "from_hex (to_hex bs) = bs"
  using from_hex_to_hex_append [of bs "[]"] by simp

lemma to_hex_inj [simp]: "to_hex a = to_hex b \<longleftrightarrow> a = b"
  by (metis from_hex_to_hex)

lemma length_to_hex [simp]: "length (to_hex bs) = 2 * length bs"
  by (induction bs) (simp_all add: to_hex_def)

lemma hex_val_upper: "hex_val (upper_char c) = hex_val c"
  by (auto simp: hex_val_def upper_char_def Let_def)

lemma from_hex_upper [simp]: "from_hex (upper s) = from_hex s"
  by (induction s rule: from_hex.induct) (simp_all add: hex_val_upper split: option.splits)

lemma hex_digit_chars: "n < 16 \<Longrightarrow> hex_digit n \<in> set ''0123456789abcdef''"
proof -
  assume "n < 16"
  then have "n \<in> set [0..<16]" by simp
  moreover have "list_all (\<lambda>n. hex_digit n \<in> set ''0123456789abcdef'') [0..<16]" by code_simp
  ultimately show ?thesis by (simp only: list_all_iff)
qed

lemma to_hex_chars: "set (to_hex bs) \<subseteq> set ''0123456789abcdef''"
proof -
  have "hex_digit (unat b div 16) \<in> set ''0123456789abcdef''" "hex_digit (unat b mod 16) \<in> set ''0123456789abcdef''" for b :: byte
    using unat_byte [of b] by (intro hex_digit_chars; simp)+
  then show ?thesis by (auto simp only: to_hex_def set_concat set_map) auto
qed

subsection \<open>JSON values\<close>

datatype json = JNull | JBool bool | JNum int | JStr string | JArr "json list" | JObj "(string \<times> json) list"

text \<open>The text of a string: quotation marks, backslashes and control characters are escaped.\<close>

definition quote_char :: "char \<Rightarrow> string" where
  "quote_char c = (let n = of_char c :: nat in
     if n = 34 \<or> n = 92 then [CHR 0x5C, c]
     else if n = 8 then [CHR 0x5C, CHR ''b''] else if n = 9 then [CHR 0x5C, CHR ''t'']
     else if n = 10 then [CHR 0x5C, CHR ''n''] else if n = 12 then [CHR 0x5C, CHR ''f'']
     else if n = 13 then [CHR 0x5C, CHR ''r'']
     else if n < 32 then [CHR 0x5C, CHR ''u'', CHR ''0'', CHR ''0'', hex_digit (n div 16), hex_digit (n mod 16)]
     else [c])"

definition quote :: "string \<Rightarrow> string" where
  "quote s = CHR 0x22 # concat (map quote_char s) @ [CHR 0x22]"

fun commas :: "string list \<Rightarrow> string" where
  "commas [] = []"
| "commas [x] = x"
| "commas (x # y # r) = x @ CHR '','' # commas (y # r)"

definition bool_text :: "bool \<Rightarrow> string" where
  "bool_text b = (if b then ''true'' else ''false'')"

definition property_text :: "string \<times> string \<Rightarrow> string" where
  "property_text p = quote (fst p) @ CHR '':'' # snd p"

text \<open>\<open>JSON.stringify\<close>.\<close>

primrec stringify :: "json \<Rightarrow> string" where
  "stringify JNull = ''null''"
| "stringify (JBool b) = bool_text b"
| "stringify (JNum n) = show_int n"
| "stringify (JStr s) = quote s"
| "stringify (JArr xs) = CHR ''['' # commas (map stringify xs) @ '']''"
| "stringify (JObj ps) = CHR ''{'' # commas (map property_text (map (map_prod id stringify) ps)) @ ''}''"

text \<open>\<open>deterministicStringify\<close>: the properties in the order of their sorted names.\<close>

primrec deterministicStringify :: "json \<Rightarrow> string" where
  "deterministicStringify JNull = ''null''"
| "deterministicStringify (JBool b) = stringify (JBool b)"
| "deterministicStringify (JNum n) = stringify (JNum n)"
| "deterministicStringify (JStr s) = stringify (JStr s)"
| "deterministicStringify (JArr xs) = CHR ''['' # commas (map deterministicStringify xs) @ '']''"
| "deterministicStringify (JObj ps) =
     CHR ''{'' # commas (map property_text (sort_key fst (map (map_prod id deterministicStringify) ps))) @ ''}''"

text \<open>The specification: the value with the properties of every object sorted.\<close>

primrec canon :: "json \<Rightarrow> json" where
  "canon JNull = JNull"
| "canon (JBool b) = JBool b"
| "canon (JNum n) = JNum n"
| "canon (JStr s) = JStr s"
| "canon (JArr xs) = JArr (map canon xs)"
| "canon (JObj ps) = JObj (sort_key fst (map (map_prod id canon) ps))"

lemma sort_key_map_fst:
  assumes "\<And>p. fst (g p) = fst p"
  shows "sort_key fst (map g ps) = map g (sort_key fst ps)"
proof -
  have ins: "insort_key fst (g p) (map g qs) = map g (insort_key fst p qs)" for p qs
    by (induction qs) (auto simp: assms)
  show ?thesis by (induction ps) (simp_all add: sort_key_def ins)
qed

lemma sort_key_map_prod: "sort_key fst (map (map_prod id f) ps) = map (map_prod id f) (sort_key fst ps)"
  by (rule sort_key_map_fst) simp

lemma deterministicStringify_canon: "deterministicStringify v = stringify (canon v)"
proof (induction v)
  case (JArr xs)
  then show ?case by (simp cong: map_cong)
next
  case (JObj ps)
  have "map (map_prod id deterministicStringify) (sort_key fst ps) =
      map (map_prod id stringify) (map (map_prod id canon) (sort_key fst ps))"
    using JObj by (auto simp: prod.map_comp)
  then show ?case by (simp add: sort_key_map_prod del: map_map)
qed simp_all

subsection \<open>The text of a value is unambiguous\<close>

definition unescape :: "char \<Rightarrow> char" where
  "unescape x = (if x = CHR ''b'' then char_of (8::nat) else if x = CHR ''t'' then char_of (9::nat)
     else if x = CHR ''n'' then char_of (10::nat) else if x = CHR ''f'' then char_of (12::nat)
     else if x = CHR ''r'' then char_of (13::nat) else x)"

fun unquote_char :: "string \<Rightarrow> (char \<times> string) option" where
  "unquote_char [] = None"
| "unquote_char (c # r) = (if c \<noteq> CHR 0x5C then Some (c, r) else
     (case r of x # r' \<Rightarrow> if x \<noteq> CHR ''u'' then Some (unescape x, r')
        else Some (char_of (16 * the (hex_val (r' ! 2)) + the (hex_val (r' ! 3))), drop 4 r')
      | [] \<Rightarrow> None))"

lemma unquote_quote_char: "unquote_char (quote_char c @ r) = Some (c, r)"
proof -
  obtain n :: nat where n: "c = char_of n" "n < 256"
    by (rule that [of "of_char c"]) (simp_all add: nat_of_char_less_256)
  have n': "(of_char c :: nat) = n" using n by simp
  consider "n = 34" | "n = 92" | "n = 8" | "n = 9" | "n = 10" | "n = 12" | "n = 13"
    | "n < 32" "n \<notin> {8, 9, 10, 12, 13}" | "32 \<le> n" "n \<noteq> 34" "n \<noteq> 92" by fastforce
  moreover have "(char_of (34::nat) :: char) = CHR 0x22" "(char_of (92::nat) :: char) = CHR 0x5C" by code_simp+
  ultimately show ?thesis
  proof cases
    case 8
    then have "quote_char c = [CHR 0x5C, CHR ''u'', CHR ''0'', CHR ''0'', hex_digit (n div 16), hex_digit (n mod 16)]"
      using n' by (simp add: quote_char_def Let_def)
    then show ?thesis using 8 n by simp
  next
    case 9
    then have "c \<noteq> CHR 0x5C" using n' by auto
    then show ?thesis using 9 n' by (simp add: quote_char_def Let_def)
  qed (use n n' in \<open>simp_all add: quote_char_def unescape_def Let_def\<close>)
qed

lemma quote_char_cut:
  assumes "quote_char c @ r = quote_char d @ s"
  shows "c = d \<and> r = s"
  using unquote_quote_char assms by (metis option.inject prod.inject)

lemma quote_char_head: "\<exists>x y. quote_char c = x # y \<and> x \<noteq> CHR 0x22"
proof -
  have u: "unquote_char (quote_char c) = Some (c, [])" using unquote_quote_char [of c "[]"] by simp
  then obtain x y where q: "quote_char c = x # y" by (cases "quote_char c") simp_all
  moreover have "x \<noteq> CHR 0x22"
  proof
    assume "x = CHR 0x22"
    then have "c = CHR 0x22" using u q by simp
    then have "quote_char c = [CHR 0x5C, CHR 0x22]" by (simp add: quote_char_def)
    then show False using q \<open>x = CHR 0x22\<close> by simp
  qed
  ultimately show ?thesis by blast
qed

lemma quote_cut:
  assumes "quote a @ r = quote b @ s"
  shows "a = b \<and> r = s"
proof -
  have cut: "a = b \<and> r = s" if "concat (map quote_char a) @ CHR 0x22 # r = concat (map quote_char b) @ CHR 0x22 # s" for a b
    using that
  proof (induction a arbitrary: b)
    case Nil
    show ?case
    proof (cases b)
      case b: (Cons y ys)
      obtain c t where "quote_char y = c # t" "c \<noteq> CHR 0x22" using quote_char_head by blast
      then show ?thesis using Nil b by simp
    qed (use Nil in simp)
  next
    case IH: (Cons x xs)
    show ?case
    proof (cases b)
      case b: Nil
      obtain c t where "quote_char x = c # t" "c \<noteq> CHR 0x22" using quote_char_head by blast
      then show ?thesis using IH.prems b by simp
    next
      case b: (Cons y ys)
      then have "quote_char x @ (concat (map quote_char xs) @ CHR 0x22 # r) = quote_char y @ (concat (map quote_char ys) @ CHR 0x22 # s)"
        using IH.prems by simp
      from quote_char_cut [OF this] have "x = y" "xs = ys \<and> r = s" using IH.IH [of ys] by blast+
      then show ?thesis by (simp add: b)
    qed
  qed
  show ?thesis by (rule cut) (use assms in \<open>simp add: quote_def\<close>)
qed

text \<open>What may follow the text of a value inside another text.\<close>

definition ends_value :: "string \<Rightarrow> bool" where
  "ends_value r \<longleftrightarrow> (case r of [] \<Rightarrow> True | c # _ \<Rightarrow> c \<in> set '',]}'')"

definition unambiguous :: "('a \<Rightarrow> string) \<Rightarrow> 'a \<Rightarrow> bool" where
  "unambiguous f x \<longleftrightarrow> (\<forall>y r s. f x @ r = f y @ s \<longrightarrow> ends_value r \<longrightarrow> ends_value s \<longrightarrow> x = y \<and> r = s)"

lemma ends_value_simps [simp]: "ends_value []" "ends_value (c # r) \<longleftrightarrow> c \<in> set '',]}''"
  by (simp_all add: ends_value_def)

lemma unambiguousD: "unambiguous f x \<Longrightarrow> f x @ r = f y @ s \<Longrightarrow> ends_value r \<Longrightarrow> ends_value s \<Longrightarrow> x = y \<and> r = s"
  by (simp add: unambiguous_def)

lemma commas_cut:
  assumes "commas (map f xs) @ e # r = commas (map f ys) @ e # s" "e \<in> set '']}''"
    and "\<And>x. x \<in> set xs \<Longrightarrow> unambiguous f x"
    and "\<And>y. \<exists>c t. f y = c # t \<and> c \<notin> set '',]}''"
  shows "xs = ys \<and> r = s"
  using assms(1,3)
proof (induction "map f xs" arbitrary: xs ys rule: commas.induct)
  case 1
  then show ?case
  proof (cases ys)
    case (Cons y ys')
    obtain c t where "f y = c # t" "c \<notin> set '',]}''" using assms(4) by blast
    then show ?thesis using 1 Cons assms(2) by (cases ys') auto
  qed simp
next
  case (2 z)
  then obtain x where x: "xs = [x]" by auto
  obtain c t where c: "f x = c # t" "c \<notin> set '',]}''" using assms(4) by blast
  show ?case
  proof (cases ys)
    case Nil
    then show ?thesis using 2 c assms(2) x by auto
  next
    case (Cons y ys')
    then obtain e' r' where e': "commas (map f ys) @ e # s = f y @ e' # r'" "e' = e \<and> ys' = [] \<and> r' = s \<or> e' = CHR '',''"
      by (cases ys') auto
    have "ends_value (e # r)" "ends_value (e' # r')" using assms(2) e'(2) by auto
    moreover have "f x @ e # r = f y @ e' # r'" using 2 x e'(1) by simp
    moreover have "unambiguous f x" using 2(3) x by simp
    ultimately have "x = y \<and> e # r = e' # r'" by (metis unambiguousD)
    then show ?thesis using x Cons e'(2) assms(2) by auto
  qed
next
  case (3 z1 z2 zs)
  then obtain x x2 xs' where x: "xs = x # x2 # xs'" "z2 # zs = map f (x2 # xs')" by (auto simp: Cons_eq_map_conv)
  obtain c t where c: "f x = c # t" "c \<notin> set '',]}''" using assms(4) by blast
  let ?rest = "commas (map f (x2 # xs')) @ e # r"
  show ?case
  proof (cases ys)
    case Nil
    then show ?thesis using 3 c assms(2) x by auto
  next
    case (Cons y ys')
    then obtain e' r' where e': "commas (map f ys) @ e # s = f y @ e' # r'"
        "e' = e \<and> ys' = [] \<or> e' = CHR '','' \<and> r' = commas (map f ys') @ e # s"
      by (cases ys') auto
    have "ends_value (CHR '','' # ?rest)" "ends_value (e' # r')" using assms(2) e'(2) by auto
    moreover have "f x @ CHR '','' # ?rest = f y @ e' # r'" using 3(3) x e'(1) by simp
    moreover have "unambiguous f x" using 3(4) x by simp
    ultimately have "x = y \<and> CHR '','' # ?rest = e' # r'" by (metis unambiguousD)
    then show ?thesis using x Cons e'(2) assms(2) 3(1) [of "x2 # xs'" ys'] 3(4) by auto
  qed
qed

lemma stringify_head: "\<exists>c t. stringify v = c # t \<and> c \<notin> set '',]}''"
proof (cases v)
  case (JNum n)
  obtain c s where s: "show_nat (nat n) = c # s" by (cases "show_nat (nat n)") auto
  then have "digit_char c" using hd_show_nat [of "nat n"] by simp
  then have "c \<notin> set '',]}''" by (auto simp: digit_char_def)
  then show ?thesis using JNum s by (auto simp: show_int_def)
qed (auto simp: quote_def bool_text_def)

lemma property_text_head: "\<exists>c t. property_text p = c # t \<and> c \<notin> set '',]}''"
  by (auto simp: property_text_def quote_def)

lemma show_int_cut:
  assumes "show_int i @ r = show_int j @ s" "ends_value r" "ends_value s"
  shows "i = j \<and> r = s"
proof -
  have "no_digit r" "no_digit s" using assms(2,3) by (auto simp: no_digit_def ends_value_def digit_char_def split: list.splits)
  then have "i = j" using parse_int_show_int_append assms(1) by (metis option.inject)
  then show ?thesis using assms(1) by simp
qed

lemma object_property_unambiguous:
  assumes "unambiguous f (snd p)"
  shows "unambiguous (property_text \<circ> map_prod id f) p"
  unfolding unambiguous_def
proof (intro allI impI)
  fix q r s
  assume eq: "(property_text \<circ> map_prod id f) p @ r = (property_text \<circ> map_prod id f) q @ s" "ends_value r" "ends_value s"
  then have "quote (fst p) @ (CHR '':'' # f (snd p) @ r) = quote (fst q) @ (CHR '':'' # f (snd q) @ s)"
    by (simp add: property_text_def)
  from quote_cut [OF this] have "fst p = fst q" "f (snd p) @ r = f (snd q) @ s" by simp_all
  then show "p = q \<and> r = s" using unambiguousD [OF assms _ eq(2,3)] by (simp add: prod_eq_iff)
qed

lemma value_texts_differ:
  assumes "stringify v @ r = stringify w @ s"
  shows "(v = JNull) = (w = JNull)" "(\<exists>b. v = JBool b) = (\<exists>b. w = JBool b)" "(\<exists>n. v = JNum n) = (\<exists>n. w = JNum n)"
    "(\<exists>t. v = JStr t) = (\<exists>t. w = JStr t)" "(\<exists>x. v = JArr x) = (\<exists>x. w = JArr x)" "(\<exists>x. v = JObj x) = (\<exists>x. w = JObj x)"
proof -
  define h where "h v = (case v of JNull \<Rightarrow> {CHR ''n''} | JBool b \<Rightarrow> {CHR ''t'', CHR ''f''} | JNum n \<Rightarrow> {c. digit_char c \<or> c = CHR ''-''}
    | JStr t \<Rightarrow> {CHR 0x22} | JArr x \<Rightarrow> {CHR ''[''} | JObj x \<Rightarrow> {CHR ''{''})" for v
  have h: "\<exists>c t. stringify v = c # t \<and> c \<in> h v" for v
  proof (cases v)
    case (JNum n)
    have "show_int n \<noteq> []" by (simp add: show_int_def)
    then obtain c t where "show_int n = c # t" by (cases "show_int n") auto
    then show ?thesis using JNum show_int_chars [of n] by (simp add: h_def)
  qed (auto simp: h_def quote_def bool_text_def)
  obtain c where c: "c \<in> h v" "c \<in> h w" using h [of v] h [of w] assms by auto
  show "(v = JNull) = (w = JNull)" "(\<exists>b. v = JBool b) = (\<exists>b. w = JBool b)" "(\<exists>n. v = JNum n) = (\<exists>n. w = JNum n)"
    "(\<exists>t. v = JStr t) = (\<exists>t. w = JStr t)" "(\<exists>x. v = JArr x) = (\<exists>x. w = JArr x)" "(\<exists>x. v = JObj x) = (\<exists>x. w = JObj x)"
    using c by (cases v; cases w; auto simp: h_def digit_char_def)+
qed

text \<open>Whatever follows, the text of a value is the text of no other.\<close>

lemma stringify_unambiguous: "unambiguous stringify v"
proof (induction v)
  case JNull
  show ?case unfolding unambiguous_def
    by (intro allI impI) (frule value_texts_differ(1), simp)
next
  case (JBool b)
  show ?case unfolding unambiguous_def
  proof (intro allI impI)
    fix w r s assume eq: "stringify (JBool b) @ r = stringify w @ s" "ends_value r" "ends_value s"
    obtain b' where "w = JBool b'" using value_texts_differ(2) [OF eq(1)] by auto
    then show "JBool b = w \<and> r = s" using eq(1) by (cases b; cases b') (simp_all add: bool_text_def)
  qed
next
  case (JNum n)
  show ?case unfolding unambiguous_def
  proof (intro allI impI)
    fix w r s assume eq: "stringify (JNum n) @ r = stringify w @ s" "ends_value r" "ends_value s"
    obtain m where "w = JNum m" using value_texts_differ(3) [OF eq(1)] by auto
    then show "JNum n = w \<and> r = s" using show_int_cut [of n r m s] eq by simp
  qed
next
  case (JStr t)
  show ?case unfolding unambiguous_def
  proof (intro allI impI)
    fix w r s assume eq: "stringify (JStr t) @ r = stringify w @ s" "ends_value r" "ends_value s"
    obtain u where "w = JStr u" using value_texts_differ(4) [OF eq(1)] by auto
    then show "JStr t = w \<and> r = s" using quote_cut [of t r u s] eq by simp
  qed
next
  case (JArr xs)
  show ?case unfolding unambiguous_def
  proof (intro allI impI)
    fix w r s assume eq: "stringify (JArr xs) @ r = stringify w @ s" "ends_value r" "ends_value s"
    obtain ys where ys: "w = JArr ys" using value_texts_differ(5) [OF eq(1)] by auto
    have "xs = ys \<and> r = s"
      by (rule commas_cut [where f = stringify and e = "CHR '']''"])
        (use eq ys JArr stringify_head in auto)
    then show "JArr xs = w \<and> r = s" using ys by simp
  qed
next
  case (JObj ps)
  let ?f = "property_text \<circ> map_prod id stringify"
  show ?case unfolding unambiguous_def
  proof (intro allI impI)
    fix w r s assume eq: "stringify (JObj ps) @ r = stringify w @ s" "ends_value r" "ends_value s"
    obtain qs where qs: "w = JObj qs" using value_texts_differ(6) [OF eq(1)] by auto
    have "ps = qs \<and> r = s"
    proof (rule commas_cut [where f = ?f and e = "CHR ''}''"])
      show "commas (map ?f ps) @ CHR ''}'' # r = commas (map ?f qs) @ CHR ''}'' # s" using eq(1) qs by simp
      show "unambiguous ?f p" if "p \<in> set ps" for p
        by (rule object_property_unambiguous) (use JObj that in \<open>cases p; auto\<close>)
      show "\<exists>c t. ?f p = c # t \<and> c \<notin> set '',]}''" for p using property_text_head by simp
    qed simp
    then show "JObj ps = w \<and> r = s" using qs by simp
  qed
qed

lemma stringify_inj: "stringify v = stringify w \<longleftrightarrow> v = w"
  using unambiguousD [OF stringify_unambiguous, of v "[]" w "[]"] by auto

lemma deterministicStringify_eq: "deterministicStringify v = deterministicStringify w \<longleftrightarrow> canon v = canon w"
  by (simp add: deterministicStringify_canon stringify_inj)

text \<open>What the canonical form forgets: exactly the order of the properties of an object, at any depth.\<close>

primrec json_wf :: "json \<Rightarrow> bool" where
  "json_wf JNull = True"
| "json_wf (JBool b) = True"
| "json_wf (JNum n) = True"
| "json_wf (JStr s) = True"
| "json_wf (JArr xs) = list_all (\<lambda>b. b) (map json_wf xs)"
| "json_wf (JObj ps) = (distinct (map fst ps) \<and> list_all snd (map (map_prod id json_wf) ps))"

lemma filter_same_key: "\<lbrakk> distinct (map fst xs); k \<in> set xs \<rbrakk> \<Longrightarrow> filter (\<lambda>x. fst k = fst x) xs = [k]"
proof (induction xs)
  case (Cons x xs)
  show ?case
  proof (cases "k = x")
    case True
    have "fst x \<noteq> fst y" if "y \<in> set xs" for y using Cons.prems(1) that by auto
    then show ?thesis using True by (auto simp: filter_empty_conv)
  next
    case False
    then have "k \<in> set xs" using Cons.prems(2) by simp
    moreover have "fst k \<in> fst ` set xs" using \<open>k \<in> set xs\<close> by (rule imageI)
    then have "fst k \<noteq> fst x" using Cons.prems(1) by (metis distinct.simps(2) list.simps(9) list.set_map)
    ultimately show ?thesis using Cons by simp
  qed
qed simp

lemma sort_key_fst_eq:
  assumes "distinct (map fst ps)"
  shows "sort_key fst ps = sort_key fst qs \<longleftrightarrow> mset ps = mset qs"
proof
  assume "sort_key fst ps = sort_key fst qs"
  then have "mset (sort_key fst ps) = mset (sort_key fst qs)" by (rule arg_cong)
  then show "mset ps = mset qs" by (simp only: mset_sort)
next
  assume eq: "mset ps = mset qs"
  let ?ys = "sort_key fst qs"
  have m: "mset ?ys = mset ps" by (simp only: mset_sort eq)
  have "mset (map fst ?ys) = mset (map fst ps)" using m by (simp only: mset_map)
  then have "distinct (map fst ?ys)" using assms mset_eq_imp_distinct_iff by blast
  moreover have "set ?ys = set ps" using m by (rule mset_eq_setD)
  ultimately show "sort_key fst ps = ?ys"
    using m assms by (intro properties_for_sort_key) (simp_all only: filter_same_key sorted_sort_key)
qed

text \<open>Two objects with distinct names have the same text exactly when, property by property, the texts of
  their values agree; the order does not matter.\<close>

lemma deterministicStringify_obj:
  assumes "distinct (map fst ps)"
  shows "deterministicStringify (JObj ps) = deterministicStringify (JObj qs) \<longleftrightarrow>
    mset (map (map_prod id canon) ps) = mset (map (map_prod id canon) qs)"
proof -
  have "distinct (map fst (map (map_prod id canon) ps))" using assms by (simp add: comp_def)
  from sort_key_fst_eq [OF this] have
    "canon (JObj ps) = canon (JObj qs) \<longleftrightarrow> mset (map (map_prod id canon) ps) = mset (map (map_prod id canon) qs)" by simp
  then show ?thesis by (simp only: deterministicStringify_eq)
qed

subsection \<open>Operations on objects\<close>

definition json_pick :: "(string \<times> json) list \<Rightarrow> string list \<Rightarrow> (string \<times> json) list" where
  "json_pick obj ks = fold (\<lambda>k r. case mget obj k of Some v \<Rightarrow> mset_at k v r | None \<Rightarrow> r) ks []"

definition json_omit :: "(string \<times> json) list \<Rightarrow> string list \<Rightarrow> (string \<times> json) list" where
  "json_omit obj ks = fold mdel ks obj"

primrec deepCopy :: "json \<Rightarrow> json" where
  "deepCopy JNull = JNull"
| "deepCopy (JBool b) = JBool b"
| "deepCopy (JNum n) = JNum n"
| "deepCopy (JStr s) = JStr s"
| "deepCopy (JArr xs) = JArr (map deepCopy xs)"
| "deepCopy (JObj ps) = JObj (fold (\<lambda>(k, v). mset_at k v) (map (map_prod id deepCopy) ps) [])"

fun merge_obj :: "(string \<times> json) list \<Rightarrow> (string \<times> json) list \<Rightarrow> (string \<times> json) list" where
  "merge_obj r [] = r"
| "merge_obj r ((k, v) # qs) = merge_obj (mset_at k
     (case v of JObj q \<Rightarrow> (case mget r k of Some (JObj p) \<Rightarrow> JObj (merge_obj p q) | _ \<Rightarrow> deepCopy v) | _ \<Rightarrow> deepCopy v) r) qs"

definition json_isEmpty :: "json option \<Rightarrow> bool" where
  "json_isEmpty v = (case v of None \<Rightarrow> True | Some JNull \<Rightarrow> True | Some (JArr xs) \<Rightarrow> xs = [] | Some (JObj ps) \<Rightarrow> ps = [] | _ \<Rightarrow> False)"

lemma fold_mset_at_append:
  "distinct (map fst r @ map fst ps) \<Longrightarrow> fold (\<lambda>(k, v). mset_at k v) ps r = r @ ps"
proof (induction ps arbitrary: r)
  case (Cons p ps)
  then have "fst p \<notin> set (map fst r)" by auto
  then have "mset_at (fst p) (snd p) r = r @ [p]"
    by (induction r) (auto simp: mset_at_def)
  then show ?case using Cons by (cases p) (simp add: Cons.IH)
qed simp

lemma deepCopy_wf: "json_wf v \<Longrightarrow> deepCopy v = v"
proof (induction v)
  case (JArr xs)
  then show ?case by (auto simp: list_all_iff intro: map_idI)
next
  case (JObj ps)
  have "map (map_prod id deepCopy) ps = ps"
    by (rule map_idI) (use JObj in \<open>force simp: list_all_iff\<close>)
  moreover have "distinct (map fst ps)" using JObj.prems by simp
  ultimately show ?case by (simp add: fold_mset_at_append)
qed simp_all

lemma merge_obj_get:
  "distinct (map fst qs) \<Longrightarrow> mget (merge_obj ps qs) k = (case mget qs k of
      None \<Rightarrow> mget ps k
    | Some (JObj q) \<Rightarrow> (case mget ps k of Some (JObj p) \<Rightarrow> Some (JObj (merge_obj p q)) | _ \<Rightarrow> Some (deepCopy (JObj q)))
    | Some v \<Rightarrow> Some (deepCopy v))"
proof (induction ps qs rule: merge_obj.induct)
  case (1 r)
  then show ?case by simp
next
  case (2 r k' v qs)
  have "mget qs k = None" if "k = k'" using 2 that by (simp add: mget_def map_of_eq_None_iff)
  moreover have "mget ((k', v) # qs) k = (if k = k' then Some v else mget qs k)" by (simp add: mget_def)
  ultimately show ?case using 2 by (auto split: json.splits option.splits)
qed

lemma json_pick_get: "mget (json_pick obj ks) k = (if k \<in> set ks then mget obj k else None)"
proof -
  have "mget (fold (\<lambda>k r. case mget obj k of Some v \<Rightarrow> mset_at k v r | None \<Rightarrow> r) ks r) k =
      (if k \<in> set ks \<and> mget obj k \<noteq> None then mget obj k else mget r k)" for r
    by (induction ks arbitrary: r) (auto split: option.splits)
  from this [of "[]"] show ?thesis by (auto simp: json_pick_def)
qed

lemma json_omit_get: "mget (json_omit obj ks) k = (if k \<in> set ks then None else mget obj k)"
  unfolding json_omit_def by (induction ks arbitrary: obj) auto

end
