(* ===== verification/QF_Util.thy ===== *)
theory QF_Util
  imports QF_Json
begin

text \<open>
  The shared utilities (\<open>shared/utils\<close>, \<open>shared/guards\<close>): times and their ISO text, identifiers that
  sort by time (\<open>crypto.ts\<close>), encryption over the cipher as a parameter, arrays, the environment, the
  reading of a \<open>Retry-After\<close> header and the guard that judges whether an error may be retried.
\<close>

subsection \<open>Dates\<close>

text \<open>\<open>toISOString\<close>: the civil date of a day count since 1970-01-01, and the text.\<close>

definition civil :: "int \<Rightarrow> int \<times> int \<times> int" where
  "civil days =
     (let z = days + 719468; era = z div 146097; doe = z mod 146097;
          yoe = (doe - doe div 1460 + doe div 36524 - doe div 146096) div 365;
          doy = doe - (365 * yoe + yoe div 4 - yoe div 100); mp = (5 * doy + 2) div 153;
          m = if mp < 10 then mp + 3 else mp - 9
      in (yoe + era * 400 + (if m \<le> 2 then 1 else 0), m, doy - (153 * mp + 2) div 5 + 1))"

definition pad :: "nat \<Rightarrow> int \<Rightarrow> string" where
  "pad w n = (let s = show_nat (nat n) in replicate (w - length s) CHR ''0'' @ s)"

definition year_text :: "int \<Rightarrow> string" where
  "year_text y = (if y < 0 then CHR ''-'' # pad 6 (- y) else if y > 9999 then CHR ''+'' # pad 6 y else pad 4 y)"

definition toISOString :: "ms \<Rightarrow> string" where
  "toISOString t =
     (case civil (t div 86400000) of (y, m, d) \<Rightarrow>
        let r = t mod 86400000 in
        year_text y @ CHR ''-'' # pad 2 m @ CHR ''-'' # pad 2 d @ CHR ''T'' # pad 2 (r div 3600000) @ CHR '':'' #
        pad 2 (r div 60000 mod 60) @ CHR '':'' # pad 2 (r div 1000 mod 60) @ CHR ''.'' # pad 3 (r mod 1000) @ ''Z'')"

lemma toISOString_example: "toISOString 951826554321 = ''2000-02-29T12:15:54.321Z''"
  by code_simp

lemma pad_digits: "list_all digit_char (pad w n)"
  using show_nat_digits [of "nat n"] by (auto simp: pad_def Let_def list_all_iff digit_char_def)

lemma toISOString_chars: "\<forall>c \<in> set (toISOString t). digit_char c \<or> c \<in> set ''-+:.TZ''"
proof -
  define P where "P c \<longleftrightarrow> digit_char c \<or> c \<in> set ''-+:.TZ''" for c
  have P: "P CHR ''-''" "P CHR ''+''" "P CHR '':''" "P CHR ''.''" "P CHR ''T''" "P CHR ''Z''" by (simp_all add: P_def)
  have pads: "list_all P (pad w n)" for w n using pad_digits [of w n] by (simp add: P_def list_all_iff)
  obtain y m d where "civil (t div 86400000) = (y, m, d)" by (cases "civil (t div 86400000)")
  then have "list_all P (toISOString t)" by (simp add: toISOString_def Let_def year_text_def P pads)
  then show ?thesis unfolding P_def list_all_iff .
qed

lemma toISOString_no_comma: "CHR '','' \<notin> set (toISOString t)" "\<not> is_space (last (toISOString t))" "toISOString t \<noteq> []"
proof -
  show "CHR '','' \<notin> set (toISOString t)" using toISOString_chars [of t] by (auto simp: digit_char_def)
  show ne: "toISOString t \<noteq> []" by (simp add: toISOString_def Let_def split: prod.splits)
  then have "last (toISOString t) \<in> set (toISOString t)" by simp
  then have "digit_char (last (toISOString t)) \<or> last (toISOString t) \<in> set ''-+:.TZ''" using toISOString_chars [of t] by blast
  then show "\<not> is_space (last (toISOString t))"
  proof
    assume "last (toISOString t) \<in> set ''-+:.TZ''"
    then show ?thesis by (auto simp: is_space_def)
  qed simp
qed

definition addSeconds :: "ms \<Rightarrow> int \<Rightarrow> ms" where
  "addSeconds date seconds = date + seconds * 1000"

definition addMinutes :: "ms \<Rightarrow> int \<Rightarrow> ms" where
  "addMinutes date minutes = date + minutes * 60000"

definition isExpired :: "ms \<Rightarrow> ms \<Rightarrow> bool" where
  "isExpired now expiryDate \<longleftrightarrow> now > expiryDate"

definition getTimestamp :: "ms \<Rightarrow> int" where
  "getTimestamp now = now div 1000"

definition util_calculateBackoff :: "rat \<Rightarrow> nat \<Rightarrow> rat \<Rightarrow> rat \<Rightarrow> rat" where
  "util_calculateBackoff r retryCount baseMs maxMs = min (baseMs * 2 ^ retryCount + r * 1000) maxMs"

subsection \<open>Identifiers that sort by time\<close>

definition BASE32_ENCODING :: string where
  "BASE32_ENCODING = ''0123456789ABCDEFGHJKMNPQRSTVWXYZ''"

text \<open>\<open>encodeBase32\<close>: the loop puts the digit of each round in front.\<close>

fun encodeBase32 :: "nat \<Rightarrow> nat \<Rightarrow> string" where
  "encodeBase32 time 0 = []"
| "encodeBase32 time (Suc n) = encodeBase32 (time div 32) n @ [BASE32_ENCODING ! (time mod 32)]"

definition encodeRandom :: "rat list \<Rightarrow> string" where
  "encodeRandom draws = map (\<lambda>r. BASE32_ENCODING ! nat \<lfloor>r * 32\<rfloor>) draws"

text \<open>\<open>draws\<close> are the sixteen results of \<open>Math.random\<close>.\<close>

definition generateULID :: "nat \<Rightarrow> rat list \<Rightarrow> string" where
  "generateULID now draws = encodeBase32 now 10 @ encodeRandom (take 16 draws)"

definition isValidULID :: "string \<Rightarrow> bool" where
  "isValidULID s \<longleftrightarrow> length s = 26 \<and> list_all (\<lambda>c. upper_char c \<in> set BASE32_ENCODING) s"

lemma length_encodeBase32 [simp]: "length (encodeBase32 t n) = n"
  by (induction t n rule: encodeBase32.induct) simp_all

lemma base32_digit: "i < 32 \<Longrightarrow> BASE32_ENCODING ! i \<in> set BASE32_ENCODING"
  by (rule nth_mem) (simp add: BASE32_ENCODING_def)

lemma base32_sorted: "i < j \<Longrightarrow> j < 32 \<Longrightarrow> BASE32_ENCODING ! i < BASE32_ENCODING ! j"
proof -
  have "map of_char BASE32_ENCODING = ([48, 49, 50, 51, 52, 53, 54, 55, 56, 57, 65, 66, 67, 68, 69, 70, 71, 72, 74, 75, 77, 78,
      80, 81, 82, 83, 84, 86, 87, 88, 89, 90] :: nat list)" by (simp add: BASE32_ENCODING_def)
  then have "sorted_wrt (<) (map of_char BASE32_ENCODING :: nat list)" by (simp only: sorted_wrt.simps) simp
  then have "sorted_wrt (\<lambda>c d. (of_char c :: nat) < of_char d) BASE32_ENCODING" by (simp only: sorted_wrt_map)
  moreover assume "i < j" "j < 32"
  moreover have "length BASE32_ENCODING = 32" by (simp add: BASE32_ENCODING_def)
  ultimately have "(of_char (BASE32_ENCODING ! i) :: nat) < of_char (BASE32_ENCODING ! j)"
    by (simp add: sorted_wrt_iff_nth_less)
  then show ?thesis by (simp only: less_char_def)
qed

text \<open>The encoding of \<open>n\<close> digits keeps the order of the numbers below \<open>32 ^ n\<close>.\<close>

lemma encodeBase32_less:
  "a < b \<Longrightarrow> b < 32 ^ n \<Longrightarrow> encodeBase32 a n @ r < encodeBase32 b n @ s"
proof (induction n arbitrary: a b r s)
  case 0
  then show ?case by simp
next
  case (Suc n)
  have b: "b div 32 < 32 ^ n" using Suc.prems(2) by (simp add: less_mult_imp_div_less mult.commute)
  show ?case
  proof (cases "a div 32 = b div 32")
    case True
    then have "a mod 32 < b mod 32" using Suc.prems(1) by (metis div_mult_mod_eq nat_add_left_cancel_less)
    then have "BASE32_ENCODING ! (a mod 32) < BASE32_ENCODING ! (b mod 32)" by (intro base32_sorted) simp_all
    then show ?thesis using True by (simp add: list_less_def lexord_append_leftI)
  next
    case False
    then have "a div 32 < b div 32" using Suc.prems(1) div_le_mono [of a b 32] by simp
    then show ?thesis using Suc.IH [OF _ b] by simp
  qed
qed

lemma upper_base32:
  assumes "c \<in> set BASE32_ENCODING"
  shows "upper_char c = c"
proof -
  have "list_all (\<lambda>c. (of_char c :: nat) < 97) BASE32_ENCODING" by (simp add: BASE32_ENCODING_def)
  then have "(of_char c :: nat) < 97" using assms unfolding list_all_iff by blast
  then show ?thesis by (simp add: upper_char_def Let_def)
qed

lemma encodeBase32_chars: "list_all (\<lambda>c. upper_char c \<in> set BASE32_ENCODING) (encodeBase32 t n)"
proof (induction t n rule: encodeBase32.induct)
  case (2 t n)
  have "BASE32_ENCODING ! (t mod 32) \<in> set BASE32_ENCODING" by (rule base32_digit) simp
  then show ?case using 2 by (simp add: upper_base32)
qed simp

text \<open>Identifiers are well formed, and identifiers made at different times sort by the time they were made,
  whatever their random parts.\<close>
theorem ulids_sort_by_time:
  assumes "now1 < now2" "now2 < 2 ^ 50"
    and "length draws1 \<ge> 16" "length draws2 \<ge> 16" "\<forall>r \<in> set draws1. 0 \<le> r \<and> r < 1" "\<forall>r \<in> set draws2. 0 \<le> r \<and> r < 1"
  shows "generateULID now1 draws1 < generateULID now2 draws2 \<and>
    isValidULID (generateULID now1 draws1) \<and> isValidULID (generateULID now2 draws2)"
proof -
  have digit: "upper_char (BASE32_ENCODING ! nat \<lfloor>r * 32\<rfloor>) \<in> set BASE32_ENCODING" if "0 \<le> r \<and> r < 1" for r :: rat
  proof -
    have "\<lfloor>r * 32\<rfloor> < 32" "0 \<le> \<lfloor>r * 32\<rfloor>" using that by (simp_all add: floor_less_iff)
    then have "BASE32_ENCODING ! nat \<lfloor>r * 32\<rfloor> \<in> set BASE32_ENCODING" by (intro base32_digit) (simp add: nat_less_iff)
    then show ?thesis by (simp add: upper_base32)
  qed
  have valid: "isValidULID (generateULID t ds)" if "length ds \<ge> 16" "\<forall>r \<in> set ds. 0 \<le> r \<and> r < 1" for t ds
  proof -
    have "\<forall>r \<in> set (take 16 ds). 0 \<le> r \<and> r < 1" using that(2) by (blast dest: in_set_takeD)
    then have "list_all (\<lambda>c. upper_char c \<in> set BASE32_ENCODING) (encodeRandom (take 16 ds))"
      using digit by (simp add: encodeRandom_def list_all_iff)
    moreover have "length (encodeRandom (take 16 ds)) = 16" using that(1) by (simp add: encodeRandom_def)
    ultimately show ?thesis by (simp add: isValidULID_def generateULID_def encodeBase32_chars)
  qed
  have "generateULID now1 draws1 < generateULID now2 draws2"
    unfolding generateULID_def by (rule encodeBase32_less) (use assms(1,2) in simp_all)
  then show ?thesis using valid assms(3-6) by blast
qed

theorem ulids_sort_by_time_witness:
  "generateULID 1700000000000 (replicate 16 (9 / 10)) < generateULID 1700000000001 (replicate 16 0)"
  by (rule ulids_sort_by_time [THEN conjunct1]) simp_all

subsection \<open>Encryption\<close>

text \<open>The cipher of the platform: encryption and decryption of bytes under a key and an initialisation
  vector; \<open>None\<close> when the final block does not unpad. \<open>digest\<close> is SHA-256 and \<open>utf8\<close> the encoding of a text.\<close>

record cipher =
  cf_digest :: "string \<Rightarrow> byte list"
  cf_encrypt :: "byte list \<Rightarrow> byte list \<Rightarrow> string \<Rightarrow> byte list"
  cf_decrypt :: "byte list \<Rightarrow> byte list \<Rightarrow> byte list \<Rightarrow> string option"

definition cipher_laws :: "cipher \<Rightarrow> bool" where
  "cipher_laws cf \<longleftrightarrow> (\<forall>k iv d. length iv = 16 \<longrightarrow> cf_decrypt cf k iv (cf_encrypt cf k iv d) = Some d)"

definition encryptAES256 :: "cipher \<Rightarrow> byte list \<Rightarrow> string \<Rightarrow> string \<Rightarrow> string" where
  "encryptAES256 cf iv data k = to_hex iv @ CHR '':'' # to_hex (cf_encrypt cf (cf_digest cf k) iv data)"

datatype decrypt_error = InvalidFormat | BadIV | BadDecrypt

definition decryptAES256 :: "cipher \<Rightarrow> string \<Rightarrow> string \<Rightarrow> decrypt_error + string" where
  "decryptAES256 cf encrypted k = (case split_on (CHR '':'') encrypted of
      [a, b] \<Rightarrow> if length (from_hex a) \<noteq> 16 then Inl BadIV
        else (case cf_decrypt cf (cf_digest cf k) (from_hex a) (from_hex b) of Some d \<Rightarrow> Inr d | None \<Rightarrow> Inl BadDecrypt)
    | _ \<Rightarrow> Inl InvalidFormat)"

text \<open>What was encrypted under a passphrase decrypts to the same text under it, for every text and every
  initialisation vector of sixteen bytes; a text without exactly one colon is refused.\<close>
theorem aes_roundtrip:
  assumes "cipher_laws cf" "length iv = 16"
  shows "decryptAES256 cf (encryptAES256 cf iv data k) k = Inr data \<and>
    (count_list bad (CHR '':'') \<noteq> 1 \<longrightarrow> decryptAES256 cf bad k = Inl InvalidFormat)"
proof
  have fresh: "CHR '':'' \<notin> set (to_hex bs)" for bs using to_hex_chars [of bs] by auto
  show "decryptAES256 cf (encryptAES256 cf iv data k) k = Inr data"
    using assms by (simp add: decryptAES256_def encryptAES256_def split_on_append split_on_fresh fresh cipher_laws_def)
  have len: "length (split_on d s) = Suc (count_list s d)" for d and s :: string
    by (induction s) (auto split: list.splits)
  have "decryptAES256 cf bad k = Inl InvalidFormat" if "length (split_on (CHR '':'') bad) \<noteq> 2"
    using that by (auto simp: decryptAES256_def split: list.splits)
  then show "count_list bad (CHR '':'') \<noteq> 1 \<longrightarrow> decryptAES256 cf bad k = Inl InvalidFormat"
    by (simp add: len)
qed

definition example_cipher :: cipher where
  "example_cipher = \<lparr> cf_digest = (\<lambda>k. [of_nat (length k)]), cf_encrypt = (\<lambda>k iv d. map (\<lambda>c. of_nat (of_char c)) d),
     cf_decrypt = (\<lambda>k iv bs. Some (map (\<lambda>b. char_of (unat b)) bs)) \<rparr>"

lemma example_cipher_laws: "cipher_laws example_cipher"
proof -
  have "char_of (unat (of_nat (of_char c) :: byte)) = c" for c :: char
    using nat_of_char_less_256 [of c] by (simp add: unat_of_nat)
  then show ?thesis by (simp add: cipher_laws_def example_cipher_def comp_def)
qed

theorem aes_roundtrip_witness:
  "decryptAES256 example_cipher (encryptAES256 example_cipher (replicate 16 7) ''secret'' ''key'') ''key'' = Inr ''secret'' \<and>
   decryptAES256 example_cipher ''a:b:c'' ''key'' = Inl InvalidFormat"
  using aes_roundtrip [OF example_cipher_laws, of "replicate 16 7" "''secret''" "''key''" "''a:b:c''"] by simp

subsection \<open>Arrays\<close>

definition js_slice :: "'a list \<Rightarrow> int \<Rightarrow> int \<Rightarrow> 'a list" where
  "js_slice xs a b =
     (let n = int (length xs); place = (\<lambda>i. nat (if i < 0 then max 0 (n + i) else min i n))
      in take (place b - place a) (drop (place a) xs))"

text \<open>The loop both \<open>chunk\<close> functions share. It may run for ever: \<open>None\<close>.\<close>

partial_function (option) chunk_from :: "'a list \<Rightarrow> int \<Rightarrow> int \<Rightarrow> 'a list list \<Rightarrow> 'a list list option" where
  "chunk_from xs sz i result =
     (if i < int (length xs) then chunk_from xs sz (i + sz) (result @ [js_slice xs i (i + sz)]) else Some result)"

text \<open>\<open>array.ts\<close> guards the size, \<open>array-utils.ts\<close> does not.\<close>

definition array_chunk :: "'a list \<Rightarrow> int \<Rightarrow> 'a list list option" where
  "array_chunk xs sz = (if sz \<le> 0 then Some [xs] else chunk_from xs sz 0 [])"

definition utils_chunk :: "'a list \<Rightarrow> int \<Rightarrow> 'a list list option" where
  "utils_chunk xs sz = chunk_from xs sz 0 []"

text \<open>The reference: take pieces of \<open>n\<close> off the front.\<close>

fun pieces :: "nat \<Rightarrow> nat \<Rightarrow> 'a list \<Rightarrow> 'a list list" where
  "pieces n 0 xs = []"
| "pieces n (Suc k) xs = (if xs = [] then [] else take n xs # pieces n k (drop n xs))"

lemma js_slice_nat: "js_slice xs (int a) (int a + int n) = take n (drop a xs)"
proof (cases "a \<le> length xs")
  case True
  have "nat (min (int a + int n) (int (length xs))) = min (a + n) (length xs)" by (simp add: min_def; linarith)
  moreover have "nat (min (int a) (int (length xs))) = a" using True by (simp add: min_def)
  moreover have "take (min (a + n) (length xs) - a) (drop a xs) = take n (drop a xs)" by (simp add: min_def)
  ultimately show ?thesis by (simp add: js_slice_def Let_def)
next
  case False
  then show ?thesis by (simp add: js_slice_def Let_def)
qed

lemma chunk_from_pieces:
  assumes "n > 0" "length xs - a \<le> k"
  shows "chunk_from xs (int n) (int a) r = Some (r @ pieces n k (drop a xs))"
  using assms(2)
proof (induction k arbitrary: a r)
  case 0
  then show ?case by (simp add: chunk_from.simps)
next
  case (Suc k)
  show ?case
  proof (cases "a < length xs")
    case True
    have "chunk_from xs (int n) (int (a + n)) (r @ [take n (drop a xs)]) =
        Some ((r @ [take n (drop a xs)]) @ pieces n k (drop (a + n) xs))"
      by (rule Suc.IH) (use Suc.prems assms(1) True in linarith)
    then show ?thesis using True by (simp add: chunk_from.simps [of xs "int n" "int a"] js_slice_nat add.commute)
  next
    case False
    then show ?thesis by (simp add: chunk_from.simps)
  qed
qed

lemma chunk_from_stuck: "chunk_from xs sz i r = Some y \<Longrightarrow> sz \<le> 0 \<Longrightarrow> i < int (length xs) \<Longrightarrow> False"
proof (induction rule: chunk_from.raw_induct [rotated, consumes 1])
  case (1 f xs sz i r y)
  then show ?case by (fastforce split: if_splits)
qed

lemma pieces_correct:
  assumes "n > 0" "length xs \<le> k"
  shows "concat (pieces n k xs) = xs \<and> (\<forall>p \<in> set (pieces n k xs). p \<noteq> [] \<and> length p \<le> n) \<and>
    (\<forall>i. Suc i < length (pieces n k xs) \<longrightarrow> length (pieces n k xs ! i) = n)"
  using assms(2)
proof (induction k arbitrary: xs)
  case (Suc k)
  show ?case
  proof (cases "xs = []")
    case False
    have "length (drop n xs) \<le> k" using Suc.prems assms(1) False by (cases xs) auto
    then have IH: "concat (pieces n k (drop n xs)) = drop n xs" "\<forall>p \<in> set (pieces n k (drop n xs)). p \<noteq> [] \<and> length p \<le> n"
      "\<forall>i. Suc i < length (pieces n k (drop n xs)) \<longrightarrow> length (pieces n k (drop n xs) ! i) = n"
      using Suc.IH [of "drop n xs"] by blast+
    have "length (pieces n (Suc k) xs ! i) = n" if "Suc i < length (pieces n (Suc k) xs)" for i
    proof (cases i)
      case 0
      then have "pieces n k (drop n xs) \<noteq> []" using that False by auto
      then have "drop n xs \<noteq> []" by (cases k) auto
      then show ?thesis using 0 False by simp
    next
      case (Suc j)
      then show ?thesis using that False IH(3) by simp
    qed
    then show ?thesis using IH(1,2) False assms(1) by auto
  qed simp
qed simp

text \<open>Both chunk functions cut an array into pieces of the given positive size in order, the last
  possibly shorter; on a size that is not positive \<open>array.ts\<close> answers with the whole array and
  \<open>array-utils.ts\<close> never returns, unless the array is empty.\<close>
theorem chunking:
  "(n > 0 \<longrightarrow> (\<exists>ps. array_chunk xs (int n) = Some ps \<and> utils_chunk xs (int n) = Some ps \<and> concat ps = xs \<and>
      (\<forall>p \<in> set ps. p \<noteq> [] \<and> length p \<le> n) \<and> (\<forall>i. Suc i < length ps \<longrightarrow> length (ps ! i) = n))) \<and>
   (sz \<le> 0 \<longrightarrow> array_chunk xs sz = Some [xs] \<and> (xs \<noteq> [] \<longrightarrow> utils_chunk xs sz = None))"
proof (intro conjI impI)
  assume n: "n > 0"
  have "chunk_from xs (int n) 0 [] = Some (pieces n (length xs) xs)"
    using chunk_from_pieces [OF n, of xs 0 "length xs" "[]"] by simp
  then show "\<exists>ps. array_chunk xs (int n) = Some ps \<and> utils_chunk xs (int n) = Some ps \<and> concat ps = xs \<and>
      (\<forall>p \<in> set ps. p \<noteq> [] \<and> length p \<le> n) \<and> (\<forall>i. Suc i < length ps \<longrightarrow> length (ps ! i) = n)"
    using pieces_correct [OF n, of xs "length xs"] n by (simp add: array_chunk_def utils_chunk_def)
next
  assume "sz \<le> 0"
  then show "array_chunk xs sz = Some [xs]" by (simp add: array_chunk_def)
  show "utils_chunk xs sz = None" if "xs \<noteq> []"
  proof (cases "chunk_from xs sz 0 []")
    case (Some y)
    then show ?thesis using chunk_from_stuck [OF Some \<open>sz \<le> 0\<close>] that by simp
  qed (simp add: utils_chunk_def)
qed

theorem chunking_witness:
  "utils_chunk [1::int, 2, 3] 0 = None \<and> (\<exists>ps. array_chunk [1::int, 2, 3] (int 2) = Some ps \<and> concat ps = [1, 2, 3])"
  using chunking [of 2 "[1::int, 2, 3]" 0] by auto

text \<open>\<open>unique\<close> keeps the first of equal elements (a \<open>Set\<close> is in insertion order), or of elements with equal
  keys.\<close>

definition unique_by :: "('a \<Rightarrow> 'k) \<Rightarrow> 'a list \<Rightarrow> 'a list" where
  "unique_by f xs = fst (fold (\<lambda>x (r, seen). if f x \<in> set seen then (r, seen) else (r @ [x], f x # seen)) xs ([], []))"

definition unique_elements :: "'a list \<Rightarrow> 'a list" where
  "unique_elements = unique_by (\<lambda>x. x)"

text \<open>\<open>groupBy\<close> starts from \<open>{}\<close>, which inherits some names: with such a group name \<open>push\<close> is not a
  function and the call throws (\<open>None\<close>).\<close>

definition inherited_names :: "string list" where
  "inherited_names = [''constructor'', ''toString'', ''toLocaleString'', ''valueOf'', ''hasOwnProperty'', ''isPrototypeOf'',
     ''propertyIsEnumerable'', ''__proto__'', ''__defineGetter__'', ''__defineSetter__'', ''__lookupGetter__'', ''__lookupSetter__'']"

fun group_from :: "('a \<Rightarrow> string) \<Rightarrow> 'a list \<Rightarrow> (string, 'a list) js_map \<Rightarrow> (string, 'a list) js_map option" where
  "group_from f [] acc = Some acc"
| "group_from f (x # xs) acc = (if f x \<in> set inherited_names then None
     else group_from f xs (mset_at (f x) (nullish_or (mget acc (f x)) [] @ [x]) acc))"

definition groupBy :: "('a \<Rightarrow> string) \<Rightarrow> 'a list \<Rightarrow> (string, 'a list) js_map option" where
  "groupBy f xs = group_from f xs []"

lemma unique_by_correct:
  "fold (\<lambda>x (r, seen). if f x \<in> set seen then (r, seen) else (r @ [x], f x # seen)) xs (r0, rev (map f r0)) = (r, seen) \<Longrightarrow>
     distinct (map f r0) \<Longrightarrow>
     seen = rev (map f r) \<and> distinct (map f r) \<and> f ` set r = f ` set r0 \<union> f ` set xs \<and> set r \<subseteq> set r0 \<union> set xs"
proof (induction xs arbitrary: r0)
  case (Cons x xs)
  show ?case
  proof (cases "f x \<in> set (rev (map f r0))")
    case True
    then show ?thesis using Cons.IH [of r0] Cons.prems by auto
  next
    case False
    have "distinct (map f (r0 @ [x]))" using False Cons.prems(2) by auto
    then show ?thesis using Cons.IH [of "r0 @ [x]"] Cons.prems False by auto
  qed
qed auto

lemma group_from_get:
  "group_from f xs acc = Some m \<Longrightarrow> mget m k = (case (mget acc k, filter (\<lambda>x. f x = k) xs) of
      (None, []) \<Rightarrow> None | (v, ys) \<Rightarrow> Some (nullish_or v [] @ ys))"
proof (induction f xs acc rule: group_from.induct)
  case (1 f acc)
  then show ?case by (auto split: option.splits)
next
  case (2 f x xs acc)
  then show ?case by (auto split: option.splits list.splits if_splits)
qed

lemma group_from_keys:
  "group_from f xs acc = Some m \<Longrightarrow> distinct (map fst acc) \<Longrightarrow> distinct (map fst m)"
  by (induction f xs acc rule: group_from.induct) (auto split: if_splits)

lemma group_from_defined: "group_from f xs acc \<noteq> None \<longleftrightarrow> (\<forall>x \<in> set xs. f x \<notin> set inherited_names)"
  by (induction f xs acc rule: group_from.induct) auto

text \<open>\<open>unique\<close> keeps exactly one element for each key that occurs, and \<open>groupBy\<close> maps each name to the
  elements with that name in their order, unless some element has a name every object inherits: then it
  throws.\<close>
theorem uniqueness_and_grouping:
  "distinct (map g (unique_by g xs)) \<and> g ` set (unique_by g xs) = g ` set xs \<and> set (unique_by g xs) \<subseteq> set xs \<and>
   (groupBy f xs = None \<longleftrightarrow> (\<exists>x \<in> set xs. f x \<in> set inherited_names)) \<and>
   (\<forall>m k. groupBy f xs = Some m \<longrightarrow> mget m k = (if filter (\<lambda>x. f x = k) xs = [] then None else Some (filter (\<lambda>x. f x = k) xs)))"
proof -
  obtain r seen where r: "fold (\<lambda>x (r, seen). if g x \<in> set seen then (r, seen) else (r @ [x], g x # seen)) xs ([], []) = (r, seen)"
    by (cases "fold (\<lambda>x (r, seen). if g x \<in> set seen then (r, seen) else (r @ [x], g x # seen)) xs ([], [])")
  have "distinct (map g r) \<and> g ` set r = g ` set xs \<and> set r \<subseteq> set xs"
    using unique_by_correct [of g xs "[]" r seen] r by simp
  moreover have "unique_by g xs = r" using r by (simp add: unique_by_def)
  moreover have "groupBy f xs = None \<longleftrightarrow> (\<exists>x \<in> set xs. f x \<in> set inherited_names)"
    using group_from_defined [of f xs "[]"] by (auto simp: groupBy_def)
  moreover have "mget m k = (if filter (\<lambda>x. f x = k) xs = [] then None else Some (filter (\<lambda>x. f x = k) xs))"
    if "groupBy f xs = Some m" for m k
    using group_from_get [of f xs "[]" m k] that by (auto simp: groupBy_def split: list.splits)
  ultimately show ?thesis by blast
qed

subsection \<open>Names\<close>

definition is_upper :: "char \<Rightarrow> bool" where
  "is_upper c \<longleftrightarrow> (let n = of_char c :: nat in 65 \<le> n \<and> n \<le> 90)"

definition is_lower :: "char \<Rightarrow> bool" where
  "is_lower c \<longleftrightarrow> (let n = of_char c :: nat in 97 \<le> n \<and> n \<le> 122)"

definition truncate_str :: "string \<Rightarrow> nat \<Rightarrow> string" where
  "truncate_str s n = (if length s \<le> n then s else take n s @ ''...'')"

text \<open>The versions of \<open>string-utils.ts\<close>.\<close>

definition camelToSnake :: "string \<Rightarrow> string" where
  "camelToSnake s = concat (map (\<lambda>c. if is_upper c then [CHR ''_'', lower_char c] else [c]) s)"

fun snakeToCamel :: "string \<Rightarrow> string" where
  "snakeToCamel (c # d # s) = (if c = CHR ''_'' \<and> is_lower d then upper_char d # snakeToCamel s else c # snakeToCamel (d # s))"
| "snakeToCamel s = s"

lemma upper_lower_char: "is_upper c \<Longrightarrow> is_lower (lower_char c) \<and> upper_char (lower_char c) = c"
  by (auto simp: is_upper_def is_lower_def lower_char_def upper_char_def Let_def)

lemma snakeToCamel_other: "c \<noteq> CHR ''_'' \<Longrightarrow> snakeToCamel (c # s) = c # snakeToCamel s"
  by (cases s) auto

lemma snake_camel: "CHR ''_'' \<notin> set s \<Longrightarrow> snakeToCamel (camelToSnake s) = s"
proof (induction s)
  case (Cons c s)
  then show ?case using upper_lower_char [of c] by (auto simp: camelToSnake_def snakeToCamel_other)
qed (simp add: camelToSnake_def)

subsection \<open>Environment, headers and guards\<close>

definition getEnv :: "(string, string) js_map \<Rightarrow> string \<Rightarrow> string \<Rightarrow> string" where
  "getEnv env k fallback = nullish_or (mget env k) fallback"

definition getEnvOrThrow :: "(string, string) js_map \<Rightarrow> string \<Rightarrow> string + string" where
  "getEnvOrThrow env k = (case mget env k of Some v \<Rightarrow> Inr v | None \<Rightarrow> Inl k)"

definition parseEnvAsNumber :: "(string, string) js_map \<Rightarrow> string \<Rightarrow> int \<Rightarrow> int" where
  "parseEnvAsNumber env k fallback = (case mget env k of None \<Rightarrow> fallback | Some v \<Rightarrow> nullish_or (parse_int v) fallback)"

definition parseEnvAsBoolean :: "(string, string) js_map \<Rightarrow> string \<Rightarrow> bool \<Rightarrow> bool" where
  "parseEnvAsBoolean env k fallback = (case mget env k of None \<Rightarrow> fallback | Some v \<Rightarrow> lower v = ''true'' \<or> v = ''1'')"

lemma env_number_roundtrip: "parseEnvAsNumber (mset_at k (show_int i) env) k d = i"
  by (simp add: parseEnvAsNumber_def)

text \<open>\<open>parseRetryAfter\<close>; \<open>date_parse\<close> is \<open>Date.parse\<close>.\<close>

definition parseRetryAfter :: "(string \<Rightarrow> ms option) \<Rightarrow> ms \<Rightarrow> string option \<Rightarrow> int option" where
  "parseRetryAfter date_parse now header = (case header of None \<Rightarrow> None | Some h \<Rightarrow>
     if h = [] then None
     else if list_all digit_char h then map_option (\<lambda>s. s * 1000) (parse_int h)
     else map_option (\<lambda>t. max 0 (t - now)) (date_parse h))"

text \<open>The numbers and the message the guard reads of an error.\<close>

record guarded_error =
  ge_contextStatusCode :: "int option"
  ge_contextStatus :: "int option"
  ge_statusCode :: "int option"
  ge_message :: "string option"

definition TRANSIENT_STATUS_CODES :: "int list" where
  "TRANSIENT_STATUS_CODES = [408, 429, 500, 502, 503, 504]"

definition isRetryableError :: "guarded_error option \<Rightarrow> bool" where
  "isRetryableError err = (case err of None \<Rightarrow> False | Some e \<Rightarrow>
     (let status = (case ge_contextStatusCode e of Some s \<Rightarrow> Some s | None \<Rightarrow>
            (case ge_contextStatus e of Some s \<Rightarrow> Some s | None \<Rightarrow> ge_statusCode e))
      in if num_or status 0 \<noteq> 0 then num_or status 0 \<in> set TRANSIENT_STATUS_CODES
         else list_ex (\<lambda>p. includes_str (lower (str_or (ge_message e) [])) p)
           [''timeout'', ''network'', ''connrefused'', ''econnrefused'', ''etimedout'', ''socket'', ''503'', ''504'', ''429'']))"

datatype base_error = BaseValidation string | BaseNotFound string | BaseAuthentication string | BaseAuthorization string
  | BaseRateLimit string | BaseConflict string | BaseInternal string

text \<open>\<open>ErrorMapper.map\<close> of an error that is not of the program's classes, by its name.\<close>

definition map_error :: "string \<Rightarrow> string option \<Rightarrow> base_error" where
  "map_error name message =
     (if name = ''ValidationError'' \<or> name = ''ZodError'' then BaseValidation (str_or message ''Validation failed'')
      else if name = ''NotFoundError'' then BaseNotFound (str_or message ''Resource not found'')
      else if name = ''AuthenticationError'' \<or> name = ''JsonWebTokenError'' then BaseAuthentication (str_or message ''Unauthenticated request'')
      else if name = ''AuthorizationError'' then BaseAuthorization (str_or message ''Forbidden request'')
      else if name = ''RateLimitError'' then BaseRateLimit (str_or message ''Too many requests'')
      else if name = ''ConflictError'' then BaseConflict (str_or message ''State conflict detected'')
      else BaseInternal (str_or message ''An unexpected error occurred''))"

text \<open>\<open>/^[^\s@]+@[^\s@]+\.[^\s@]+$/\<close>, at most 254 characters.\<close>

definition isValidEmail :: "string \<Rightarrow> bool" where
  "isValidEmail v \<longleftrightarrow> (case split_on (CHR ''@'') v of
      [l, d] \<Rightarrow> l \<noteq> [] \<and> \<not> list_ex is_space l \<and> \<not> list_ex is_space d \<and>
        list_ex (\<lambda>i. d ! i = CHR ''.'') [1..<length d - 1]
    | _ \<Rightarrow> False) \<and> length v \<le> 254"

definition uuid_shape :: "string \<Rightarrow> bool" where
  "uuid_shape s \<longleftrightarrow> (case split_on (CHR ''-'') s of
      [a, b, c, d, e] \<Rightarrow> map length [a, b, c, d, e] = [8, 4, 4, 4, 12] \<and> list_all (list_all hex_char) [a, b, c, d, e]
    | _ \<Rightarrow> False)"

text \<open>The version digit is the fifteenth character, the variant the twentieth.\<close>

definition isValidUUID_v4 :: "string \<Rightarrow> bool" where
  "isValidUUID_v4 s \<longleftrightarrow> uuid_shape s \<and> s ! 14 = CHR ''4'' \<and> s ! 19 \<in> set ''89abAB''"

definition isValidUUID :: "string \<Rightarrow> bool" where
  "isValidUUID s \<longleftrightarrow> uuid_shape s \<and> s ! 14 \<in> set ''12345'' \<and> s ! 19 \<in> set ''89abAB''"

lemma isValidUUID_examples:
  "isValidUUID_v4 ''123e4567-e89b-42d3-A456-426614174000''" "\<not> isValidUUID_v4 ''123e4567-e89b-12d3-a456-426614174000''"
  "isValidUUID ''123e4567-e89b-12d3-a456-426614174000''" "\<not> isValidUUID ''123e4567e89b12d3a456426614174000''"
  by code_simp+

lemma isValidUUID_v4_is_valid: "isValidUUID_v4 s \<Longrightarrow> isValidUUID s"
  by (simp add: isValidUUID_v4_def isValidUUID_def)

definition isJobPending :: "string \<Rightarrow> bool" where
  "isJobPending status \<longleftrightarrow> status = ''waiting'' \<or> status = ''active''"

definition isJobFailed :: "string \<Rightarrow> bool" where "isJobFailed status \<longleftrightarrow> status = ''failed''"

definition isJobInDLQ :: "string \<Rightarrow> bool" where "isJobInDLQ status \<longleftrightarrow> status = ''failed''"

definition isJobCompleted :: "string \<Rightarrow> bool" where "isJobCompleted status \<longleftrightarrow> status = ''completed''"

definition isJobScheduledRetry :: "string \<Rightarrow> bool" where "isJobScheduledRetry status \<longleftrightarrow> status = ''delayed''"

end
