(* ===== verification/QF_Hmac.thy ===== *)
theory QF_Hmac
  imports QF_Util QF_Redis
begin

text \<open>
  Request signatures (\<open>security/hmac\<close>, \<open>security/middleware/hmac-validation.middleware.ts\<close>). The keyed
  hash is a parameter \<open>mac algorithm secret text\<close> with bytes as its value; nothing is assumed of it.
  Two verifiers live side by side: \<open>HmacVerifier\<close> (\<open>verifier.ts\<close>, with a cache of seen signatures) and
  \<open>HMACVerifier\<close> (\<open>hmac-verifier.ts\<close>, here \<open>hv_\<close>). \<open>date_parse\<close> is the reading of a text by \<open>new Date\<close>.
\<close>

type_synonym mac = "string \<Rightarrow> string \<Rightarrow> string \<Rightarrow> byte list"

datatype hmac_error = ValidationFailed | MissingTimestamp | TimestampExpired | MissingHash | HashMismatch | Replayed
  | JsTypeError | ShortSecret | BadToken | InvalidSignature string

subsection \<open>Signer\<close>

definition computeHmac :: "mac \<Rightarrow> string \<Rightarrow> string \<Rightarrow> string \<Rightarrow> string" where
  "computeHmac mac algorithm data secret = to_hex (mac algorithm secret data)"

definition payload_text :: "json \<Rightarrow> string" where
  "payload_text p = (case p of JStr s \<Rightarrow> s | _ \<Rightarrow> deterministicStringify p)"

datatype sign_arg = NoArg | ArgPayload json | ArgDate ms

definition algorithm_of :: "json \<Rightarrow> string option" where
  "algorithm_of p = (if p = JStr ''SHA256'' then Some ''sha256'' else if p = JStr ''SHA512'' then Some ''sha512'' else None)"

text \<open>A first argument that is the name of an algorithm makes the second the payload; without one the text
  to sign is missing, and a date has no properties to serialise.\<close>

definition sign :: "mac \<Rightarrow> string \<Rightarrow> json \<Rightarrow> sign_arg \<Rightarrow> hmac_error + string" where
  "sign mac secret p arg = (case algorithm_of p of
     Some alg \<Rightarrow> (case arg of NoArg \<Rightarrow> Inl JsTypeError
         | ArgPayload q \<Rightarrow> Inr (computeHmac mac alg (payload_text q) secret)
         | ArgDate t \<Rightarrow> Inr (computeHmac mac alg ''{}'' secret))
   | None \<Rightarrow> (case arg of ArgDate t \<Rightarrow> Inr (computeHmac mac ''sha256'' (toISOString t @ CHR ''.'' # payload_text p) secret)
         | _ \<Rightarrow> Inr (computeHmac mac ''sha256'' (payload_text p) secret)))"

definition signString :: "mac \<Rightarrow> string \<Rightarrow> string \<Rightarrow> string" where
  "signString mac secret data = computeHmac mac ''sha256'' data secret"

definition signer_verify :: "mac \<Rightarrow> string \<Rightarrow> json \<Rightarrow> string \<Rightarrow> ms \<Rightarrow> bool" where
  "signer_verify mac secret p signature t =
     (case sign mac secret p (ArgDate t) of Inl _ \<Rightarrow> False | Inr expected \<Rightarrow> from_hex signature = from_hex expected)"

subsection \<open>Verifier\<close>

definition header_part :: "string \<Rightarrow> string \<Rightarrow> string option" where
  "header_part prefix header = map_option (\<lambda>p. drop 2 (trim p)) (find (\<lambda>p. starts_with prefix (trim p)) (split_on (CHR '','') header))"

definition extractTimestamp :: "(string \<Rightarrow> ms option) \<Rightarrow> string \<Rightarrow> ms option" where
  "extractTimestamp date_parse signature =
     (if signature = [] then None else Option.bind (header_part ''t='' signature) date_parse)"

definition isReplayAttack :: "ms \<Rightarrow> ms \<Rightarrow> int \<Rightarrow> bool" where
  "isReplayAttack now t maxAgeSeconds \<longleftrightarrow> \<bar>now - t\<bar> > maxAgeSeconds * 1000"

definition secret_list :: "string \<Rightarrow> string list" where
  "secret_list cfg = filter (\<lambda>s. s \<noteq> []) (map trim (split_on (CHR '','') cfg))"

definition verifyPayloadWithAlgorithm :: "mac \<Rightarrow> string \<Rightarrow> string \<Rightarrow> json \<Rightarrow> string \<Rightarrow> bool" where
  "verifyPayloadWithAlgorithm mac cfg alg p signature =
     list_ex (\<lambda>secret. from_hex signature = from_hex (computeHmac mac alg (payload_text p) secret)) (secret_list cfg)"

definition seen_key :: "string \<Rightarrow> string" where
  "seen_key hash = ''seen_sig:'' @ hash"

lemma seen_key_eq [simp]: "seen_key a = seen_key b \<longleftrightarrow> a = b"
  by (simp add: seen_key_def)

text \<open>The legacy form, over the cache of seen signatures when there is one.\<close>

definition verifyLegacy ::
  "mac \<Rightarrow> (string \<Rightarrow> ms option) \<Rightarrow> (string, 's) redis option \<Rightarrow> string \<Rightarrow> ms \<Rightarrow> json \<Rightarrow> string \<Rightarrow> 's \<Rightarrow> 's \<times> (hmac_error + unit)" where
  "verifyLegacy mac date_parse store cfg now p signature s =
     (case extractTimestamp date_parse signature of
        None \<Rightarrow> (s, Inl MissingTimestamp)
      | Some t \<Rightarrow> if isReplayAttack now t 300 then (s, Inl TimestampExpired)
          else (case header_part ''s='' signature of
              None \<Rightarrow> (s, Inl MissingHash)
            | Some hash \<Rightarrow> if \<not> signer_verify mac cfg p hash t then (s, Inl HashMismatch)
                else (case store of None \<Rightarrow> (s, Inr ())
                  | Some rd \<Rightarrow> if rd_get rd now (seen_key hash) s \<noteq> None then (s, Inl Replayed)
                      else (rd_setex rd now (seen_key hash) 300 ''processed'' s, Inr ()))))"

text \<open>A signature that is neither a text nor missing stands for a type error.\<close>

definition verify ::
  "mac \<Rightarrow> (string \<Rightarrow> ms option) \<Rightarrow> (string, 's) redis option \<Rightarrow> string \<Rightarrow> ms \<Rightarrow> json \<Rightarrow> json \<Rightarrow> string option \<Rightarrow> 's \<Rightarrow> 's \<times> (hmac_error + unit)" where
  "verify mac date_parse store cfg now p second third s =
     (case algorithm_of p of
        Some alg \<Rightarrow> (s, guardE (verifyPayloadWithAlgorithm mac cfg alg second (nullish_or third [])) ValidationFailed)
      | None \<Rightarrow> (case second of
          JStr signature \<Rightarrow> if signature \<noteq> [] \<and> \<not> includes_str signature ''t=''
            then (s, guardE (verifyPayloadWithAlgorithm mac cfg ''sha256'' p signature) ValidationFailed)
            else verifyLegacy mac date_parse store cfg now p signature s
        | JNull \<Rightarrow> (s, Inl MissingTimestamp)
        | _ \<Rightarrow> (s, Inl JsTypeError)))"

subsection \<open>Middleware\<close>

text \<open>The header the middleware verifies: the signature, combined with the timestamp header when it has no
  timestamp of its own.\<close>

definition middleware_header :: "string option \<Rightarrow> string option \<Rightarrow> string option" where
  "middleware_header rawSig rawTimestamp = (if str_or rawSig [] = [] then None else
     let sig = trim (str_or rawSig []) in
     Some (if str_or rawTimestamp [] \<noteq> [] \<and> \<not> includes_str sig ''t=''
       then ''t='' @ trim (str_or rawTimestamp []) @ '',s='' @ sig else sig))"

definition hmacValidation ::
  "mac \<Rightarrow> (string \<Rightarrow> ms option) \<Rightarrow> (string, 's) redis option \<Rightarrow> string \<Rightarrow> ms \<Rightarrow> json \<Rightarrow> string option \<Rightarrow> string option \<Rightarrow> 's \<Rightarrow> 's \<times> bool" where
  "hmacValidation mac date_parse store cfg now body rawSig rawTimestamp s =
     (case middleware_header rawSig rawTimestamp of None \<Rightarrow> (s, False)
      | Some header \<Rightarrow> (case verify mac date_parse store cfg now body (JStr header) (Some ''correlation'') s of
          (s', r) \<Rightarrow> (s', okE r)))"

subsection \<open>Headers\<close>

text \<open>\<open>HmacHeaderBuilder\<close>: the signature and timestamp headers, and the combined header.\<close>

definition buildAuthHeaders :: "mac \<Rightarrow> string \<Rightarrow> ms \<Rightarrow> json \<Rightarrow> string \<times> string" where
  "buildAuthHeaders mac secret now p = (''sha256='' @ computeHmac mac ''sha256'' (payload_text p) secret, toISOString now)"

definition buildWebhookHeaders :: "mac \<Rightarrow> string \<Rightarrow> ms \<Rightarrow> json \<Rightarrow> (string \<times> string) list" where
  "buildWebhookHeaders mac secret now p =
     [(''X-Signature'', fst (buildAuthHeaders mac secret now p)), (''X-Timestamp'', snd (buildAuthHeaders mac secret now p)),
      (''Content-Type'', ''application/json'')]"

definition buildHmacHeader :: "mac \<Rightarrow> string \<Rightarrow> ms \<Rightarrow> json \<Rightarrow> hmac_error + (string \<times> string)" where
  "buildHmacHeader mac secret now p = (if length secret < 32 then Inl ShortSecret
     else bindE (sign mac secret p (ArgDate now)) (\<lambda>hash. Inr (''t='' @ toISOString now @ '',s='' @ hash, toISOString now)))"

definition buildBearerHeader :: "string \<Rightarrow> hmac_error + string" where
  "buildBearerHeader token = (if token = [] then Inl BadToken else Inr (''Bearer '' @ trim token))"

definition buildApiKeyHeader :: "string \<Rightarrow> hmac_error + string" where
  "buildApiKeyHeader k = (if length k < 32 then Inl BadToken else Inr (''ApiKey '' @ trim k))"

subsection \<open>The other verifier\<close>

record HMACSignature =
  hs_signature :: string
  hs_algorithm :: string
  hs_timestamp :: ms

definition HMACSignature_toString :: "HMACSignature \<Rightarrow> string" where
  "HMACSignature_toString h = hs_algorithm h @ CHR ''='' # hs_signature h"

definition hv_sign :: "mac \<Rightarrow> string \<Rightarrow> string \<Rightarrow> string \<Rightarrow> ms \<Rightarrow> hmac_error + HMACSignature" where
  "hv_sign mac alg data secret t = (if secret = [] then Inl (InvalidSignature ''missing'')
     else Inr \<lparr> hs_signature = computeHmac mac alg (show_int t @ CHR ''.'' # data) secret, hs_algorithm = lower alg, hs_timestamp = t \<rparr>)"

definition without_prefix :: "string \<Rightarrow> string" where
  "without_prefix s = (if starts_with ''sha256='' s then drop 7 s else s)"

definition hv_verify :: "mac \<Rightarrow> string \<Rightarrow> string \<Rightarrow> HMACSignature option \<Rightarrow> string \<Rightarrow> bool" where
  "hv_verify mac alg data sig secret = (case sig of None \<Rightarrow> False | Some h \<Rightarrow> secret \<noteq> [] \<and>
     (case hv_sign mac alg data secret (hs_timestamp h) of Inl _ \<Rightarrow> False
      | Inr e \<Rightarrow> hs_signature e = without_prefix (hs_signature h)))"

definition generateHeader :: "mac \<Rightarrow> string \<Rightarrow> ms \<Rightarrow> string \<Rightarrow> string \<Rightarrow> hmac_error + (string \<times> string)" where
  "generateHeader mac alg now data secret =
     bindE (hv_sign mac alg data secret now) (\<lambda>h. Inr (HMACSignature_toString h, show_int now))"

definition verifyHeader :: "mac \<Rightarrow> string \<Rightarrow> ms \<Rightarrow> string \<Rightarrow> string \<Rightarrow> string \<Rightarrow> string \<Rightarrow> int \<Rightarrow> hmac_error + unit" where
  "verifyHeader mac alg now data headerSignature headerTimestamp secret maxAgeMs =
     (if headerSignature = [] \<or> headerTimestamp = [] \<or> secret = [] then Inl (InvalidSignature ''missing_signature'')
      else case parse_int headerTimestamp of None \<Rightarrow> Inl (InvalidSignature ''malformed_header'')
      | Some t \<Rightarrow> if \<bar>now - t\<bar> > maxAgeMs then Inl (InvalidSignature ''expired_request'')
          else guardE (hv_verify mac alg data
              (Some \<lparr> hs_signature = without_prefix headerSignature, hs_algorithm = lower alg, hs_timestamp = t \<rparr>) secret)
            (InvalidSignature ''invalid_signature''))"

text \<open>\<open>WebhookValidator\<close>: the headers by name, the raw body or the body itself, which is parsed when it is not
  an object already; \<open>json_parse\<close> is \<open>JSON.parse\<close>.\<close>

definition validateWebhookRequest ::
  "mac \<Rightarrow> (string \<Rightarrow> json option) \<Rightarrow> string \<Rightarrow> ms \<Rightarrow> (string, string) js_map \<Rightarrow> string option \<Rightarrow> json option \<Rightarrow> string \<Rightarrow> hmac_error + json option" where
  "validateWebhookRequest mac json_parse alg now headers rawBody body secret =
     (let signature = str_or (mget headers ''x-signature'') (str_or (mget headers ''x-hub-signature-256'') (str_or (mget headers ''X-Signature'') []));
          timestamp = str_or (mget headers ''x-timestamp'') (str_or (mget headers ''X-Timestamp'') []);
          raw = (case rawBody of Some b \<Rightarrow> b | None \<Rightarrow> (case body of Some (JStr b) \<Rightarrow> b
             | Some b \<Rightarrow> if b \<in> {JNull, JBool False, JNum 0} then ''{}'' else stringify b | None \<Rightarrow> ''{}''))
      in if signature = [] \<or> timestamp = [] then Inl (InvalidSignature ''missing_signature'')
         else bindE (verifyHeader mac alg now raw signature timestamp secret 300000) (\<lambda>_.
           Inr (case body of Some (JObj ps) \<Rightarrow> Some (JObj ps) | Some (JArr xs) \<Rightarrow> Some (JArr xs) | Some JNull \<Rightarrow> Some JNull
             | _ \<Rightarrow> (case json_parse raw of Some v \<Rightarrow> Some v | None \<Rightarrow> Some (JStr raw)))))"

subsection \<open>Direct signatures\<close>

text \<open>What is relied on of the keyed hash: its value is not empty.\<close>

definition mac_laws :: "mac \<Rightarrow> bool" where
  "mac_laws mac \<longleftrightarrow> (\<forall>a s d. mac a s d \<noteq> [])"

definition example_mac :: mac where
  "example_mac a s d = map (\<lambda>c. of_nat (of_char c)) (CHR ''k'' # a @ s @ d)"

lemma example_mac_laws: "mac_laws example_mac"
  by (simp add: mac_laws_def example_mac_def)

lemma no_t_no_timestamp: "CHR ''t'' \<notin> set x \<Longrightarrow> \<not> includes_str x ''t=''"
  by (induction x) auto

lemma computeHmac_chars: "CHR ''t'' \<notin> set (computeHmac mac a d s)"
  using to_hex_chars [of "mac a s d"] by (auto simp: computeHmac_def)

lemma computeHmac_no_t: "\<not> includes_str (computeHmac mac a d s) ''t=''"
  by (rule no_t_no_timestamp) (rule computeHmac_chars)

lemma okE_guardE [simp]: "okE (guardE b e) = b"
  by (cases b) simp_all

lemma to_hex_nonempty: "bs \<noteq> [] \<Longrightarrow> to_hex bs \<noteq> []"
  by (cases bs) (simp_all add: to_hex_def)

lemma payload_text_canon: "canon p = canon q \<Longrightarrow> payload_text p = payload_text q"
  by (cases p; cases q) (simp_all add: payload_text_def deterministicStringify_canon del: canon.simps(5,6) deterministicStringify.simps(5,6), auto)

lemma secret_list_single: "\<lbrakk> CHR '','' \<notin> set cfg; trim cfg = cfg; cfg \<noteq> [] \<rbrakk> \<Longrightarrow> secret_list cfg = [cfg]"
  by (simp add: secret_list_def split_on_fresh)



subsection \<open>Combined headers and replays\<close>

definition combined :: "string \<Rightarrow> string \<Rightarrow> string" where
  "combined ts hash = ''t='' @ ts @ '',s='' @ hash"

definition plain_text :: "string \<Rightarrow> bool" where
  "plain_text s \<longleftrightarrow> s \<noteq> [] \<and> CHR '','' \<notin> set s \<and> \<not> is_space (last s)"

lemma header_parts:
  assumes "plain_text ts" "plain_text hash"
  shows "header_part ''t='' (combined ts hash) = Some ts" "header_part ''s='' (combined ts hash) = Some hash"
proof -
  have ws: "\<not> is_space CHR ''t''" "\<not> is_space CHR ''s''" by (simp_all add: is_space_def)
  have "split_on (CHR '','') ((''t='' @ ts) @ CHR '','' # (''s='' @ hash)) = [''t='' @ ts, ''s='' @ hash]"
    using assms by (subst split_on_append) (simp_all add: plain_text_def split_on_fresh)
  then have sp: "split_on (CHR '','') (combined ts hash) = [''t='' @ ts, ''s='' @ hash]" by (simp add: combined_def)
  have t: "trim (''t='' @ ts) = ''t='' @ ts" "trim (''s='' @ hash) = ''s='' @ hash"
    using assms ws by (auto simp: plain_text_def intro!: trim_unchanged)
  show "header_part ''t='' (combined ts hash) = Some ts" "header_part ''s='' (combined ts hash) = Some hash"
    using t by (simp_all add: header_part_def sp)
qed

lemma plain_iso: "plain_text (toISOString t)"
  using toISOString_no_comma [of t] by (simp add: plain_text_def)

lemma plain_hex:
  assumes "bs \<noteq> []"
  shows "plain_text (to_hex bs)" "plain_text (upper (to_hex bs))"
proof -
  have hex: "\<forall>c \<in> set (to_hex bs). c \<in> set ''0123456789abcdef''" using to_hex_chars [of bs] by blast
  have char: "c \<noteq> CHR '','' \<and> \<not> is_space c \<and> upper_char c \<noteq> CHR '','' \<and> \<not> is_space (upper_char c)"
    if "c \<in> set ''0123456789abcdef''" for c
  proof -
    have "list_all (\<lambda>c. c \<noteq> CHR '','' \<and> \<not> is_space c \<and> upper_char c \<noteq> CHR '','' \<and> \<not> is_space (upper_char c)) ''0123456789abcdef''"
      by code_simp
    then show ?thesis using that unfolding list_all_iff by blast
  qed
  have all: "\<forall>c \<in> set (to_hex bs). c \<noteq> CHR '','' \<and> \<not> is_space c \<and> upper_char c \<noteq> CHR '','' \<and> \<not> is_space (upper_char c)"
    using hex char by blast
  have ne: "to_hex bs \<noteq> []" using assms by (rule to_hex_nonempty)
  then have l: "last (to_hex bs) \<in> set (to_hex bs)" by (rule last_in_set)
  show "plain_text (to_hex bs)" using ne l all by (auto simp: plain_text_def)
  have "last (upper (to_hex bs)) = upper_char (last (to_hex bs))" using ne by (simp add: upper_def last_map)
  moreover have "CHR '','' \<notin> set (upper (to_hex bs))" using all by (metis upper_def image_iff list.set_map)
  moreover have "upper (to_hex bs) \<noteq> []" using ne by (simp add: upper_def)
  ultimately show "plain_text (upper (to_hex bs))" using l all by (simp add: plain_text_def)
qed

text \<open>What the legacy form does with a combined header.\<close>

lemma verifyLegacy_combined:
  assumes "plain_text ts" "plain_text hash" "date_parse ts = Some t"
  shows "verifyLegacy mac date_parse store cfg now p (combined ts hash) s =
     (if \<bar>now - t\<bar> > 300000 then (s, Inl TimestampExpired)
      else if \<not> signer_verify mac cfg p hash t then (s, Inl HashMismatch)
      else (case store of None \<Rightarrow> (s, Inr ())
        | Some rd \<Rightarrow> if rd_get rd now (seen_key hash) s \<noteq> None then (s, Inl Replayed)
            else (rd_setex rd now (seen_key hash) 300 ''processed'' s, Inr ())))"
proof -
  have "extractTimestamp date_parse (combined ts hash) = Some t"
    using header_parts [OF assms(1,2)] assms(3) by (simp add: extractTimestamp_def combined_def)
  then show ?thesis using header_parts [OF assms(1,2)] by (simp add: verifyLegacy_def isReplayAttack_def)
qed

lemma includes_str_prefix: "includes_str (p @ s) p"
proof -
  have "starts_with p x \<Longrightarrow> includes_str x p" for x by (cases x; cases p) simp_all
  then show ?thesis by simp
qed

lemma verify_combined:
  "algorithm_of p = None \<Longrightarrow> verify mac date_parse store cfg now p (JStr (combined ts hash)) third s =
     verifyLegacy mac date_parse store cfg now p (combined ts hash) s"
  using includes_str_prefix [of "''t=''" "ts @ '',s='' @ hash"] by (simp add: verify_def combined_def)

lemma buildHmacHeader_combined:
  "algorithm_of p = None \<Longrightarrow> length secret \<ge> 32 \<Longrightarrow> buildHmacHeader mac secret t p =
     Inr (combined (toISOString t) (computeHmac mac ''sha256'' (toISOString t @ CHR ''.'' # payload_text p) secret), toISOString t)"
  by (simp add: buildHmacHeader_def sign_def combined_def)

text \<open>Other requests the verifier handles.\<close>

fun handle_requests ::
  "mac \<Rightarrow> (string \<Rightarrow> ms option) \<Rightarrow> (string, 's) redis \<Rightarrow> string \<Rightarrow> (ms \<times> json \<times> string) list \<Rightarrow> 's \<Rightarrow> 's" where
  "handle_requests mac date_parse rd cfg [] s = s"
| "handle_requests mac date_parse rd cfg ((now, p, header) # reqs) s =
     handle_requests mac date_parse rd cfg reqs (fst (verifyLegacy mac date_parse (Some rd) cfg now p header s))"

lemma verifyLegacy_other_key:
  assumes "redis_laws rd" "header_part ''s='' header \<noteq> Some hash"
  shows "rd_get rd t (seen_key hash) (fst (verifyLegacy mac date_parse (Some rd) cfg now p header s)) =
    rd_get rd t (seen_key hash) s"
proof (cases "header_part ''s='' header")
  case None
  then show ?thesis by (simp add: verifyLegacy_def split: option.splits)
next
  case (Some h)
  then have "hash \<noteq> h" using assms(2) by simp
  then have "rd_get rd t (seen_key hash) (rd_setex rd now (seen_key h) 300 ''processed'' s) = rd_get rd t (seen_key hash) s"
    by (simp add: rd_setex_def redis_get_other [OF assms(1)])
  then show ?thesis using Some by (simp add: verifyLegacy_def split: option.splits)
qed

lemma handle_requests_other_key:
  assumes "redis_laws rd"
  shows "\<forall>(n, q, header) \<in> set reqs. header_part ''s='' header \<noteq> Some hash \<Longrightarrow>
    rd_get rd t (seen_key hash) (handle_requests mac date_parse rd cfg reqs s) = rd_get rd t (seen_key hash) s"
  by (induction reqs arbitrary: s) (auto simp: verifyLegacy_other_key [OF assms])

text \<open>C11: The header the builder makes for a payload is accepted once, by a verifier with the same secret, up to
  five minutes before or after its timestamp. From then on, whatever other signatures are handled, the
  same header is refused for five minutes; it is accepted again exactly when those are over while the
  timestamp is still within five minutes, which never happens to a header that was made before it was
  first received.\<close>
theorem replay_window:
  assumes "redis_laws rd" "mac_laws mac" "algorithm_of p = None" "length secret \<ge> 32" "date_parse (toISOString t) = Some t"
    and "buildHmacHeader mac secret t p = Inr (header, ts)" "header_part ''s='' header = Some hash"
    and "rd_get rd now (seen_key hash) s = None" "\<forall>(n, q, g) \<in> set others. header_part ''s='' g \<noteq> Some hash"
    and "s' = fst (verify mac date_parse (Some rd) secret now p (JStr header) third s)"
    and "s'' = handle_requests mac date_parse rd secret others s'" "now \<le> now'"
  shows "(okE (snd (verify mac date_parse (Some rd) secret now p (JStr header) third s)) \<longleftrightarrow> \<bar>now - t\<bar> \<le> 300000) \<and>
    (\<bar>now - t\<bar> \<le> 300000 \<longrightarrow>
      (okE (snd (verify mac date_parse (Some rd) secret now' p (JStr header) third s'')) \<longleftrightarrow>
         now + 300000 \<le> now' \<and> \<bar>now' - t\<bar> \<le> 300000) \<and>
      (t < now \<longrightarrow> \<not> okE (snd (verify mac date_parse (Some rd) secret now' p (JStr header) third s''))))"
proof -
  let ?m = "mac ''sha256'' secret (toISOString t @ CHR ''.'' # payload_text p)"
  have h: "header = combined (toISOString t) (to_hex ?m)"
    using assms(6) unfolding buildHmacHeader_combined [OF assms(3,4)] computeHmac_def by blast
  have "?m \<noteq> []" using assms(2) by (simp add: mac_laws_def)
  note plain = plain_iso [of t] plain_hex(1) [OF this]
  have hash: "hash = to_hex ?m" using assms(7) header_parts(2) [OF plain] by (simp add: h)
  have ok: "signer_verify mac secret p hash t"
    by (simp add: hash signer_verify_def sign_def assms(3) computeHmac_def)
  note run = verify_combined [OF assms(3), of mac date_parse "Some rd" secret _ "toISOString t" "to_hex ?m" third, folded h]
    verifyLegacy_combined [where date_parse = date_parse, OF plain assms(5), of mac "Some rd" secret _ p, folded h, folded hash]
  have first: "verify mac date_parse (Some rd) secret now p (JStr header) third s =
      (if \<bar>now - t\<bar> > 300000 then (s, Inl TimestampExpired) else (rd_setex rd now (seen_key hash) 300 ''processed'' s, Inr ()))"
    using assms(8) ok by (simp add: run)
  have "rd_get rd now' (seen_key hash) s'' \<noteq> None \<longleftrightarrow> now' < now + 300000" if "\<bar>now - t\<bar> \<le> 300000"
  proof -
    have "s' = rd_set rd now (seen_key hash) ''processed'' (Some 300000) s"
      using that first by (simp add: assms(10) rd_setex_def)
    then have "rd_get rd now' (seen_key hash) s' \<noteq> None \<longleftrightarrow> now' < now + 300000"
      using redis_get_set [OF assms(1,12), of 300000 "seen_key hash" "''processed''" s] by simp
    then show ?thesis using handle_requests_other_key [OF assms(1,9)] by (simp add: assms(11))
  qed
  then have "okE (snd (verify mac date_parse (Some rd) secret now' p (JStr header) third s'')) \<longleftrightarrow>
      now + 300000 \<le> now' \<and> \<bar>now' - t\<bar> \<le> 300000" if "\<bar>now - t\<bar> \<le> 300000"
    using that ok by (simp add: run)
  moreover have "\<not> (now + 300000 \<le> now' \<and> \<bar>now' - t\<bar> \<le> 300000)" if "t < now" using that by linarith
  ultimately show ?thesis by (simp add: first)
qed

theorem replay_window_witness:
  "\<exists>header s'. buildHmacHeader example_mac (replicate 32 CHR ''k'') 300000 JNull = Inr (header, toISOString 300000) \<and>
     s' = fst (verify example_mac (\<lambda>_. Some 300000) (Some list_redis) (replicate 32 CHR ''k'') 0 JNull (JStr header) None []) \<and>
     okE (snd (verify example_mac (\<lambda>_. Some 300000) (Some list_redis) (replicate 32 CHR ''k'') 300000 JNull (JStr header) None s'))"
proof -
  let ?k = "replicate 32 CHR ''k''" and ?ts = "toISOString 300000"
  let ?hash = "computeHmac example_mac ''sha256'' (?ts @ CHR ''.'' # payload_text JNull) ?k"
  have b: "buildHmacHeader example_mac ?k 300000 JNull = Inr (combined ?ts ?hash, ?ts)"
    by (rule buildHmacHeader_combined) (simp_all add: algorithm_of_def)
  have "plain_text ?hash"
    using example_mac_laws by (simp add: computeHmac_def mac_laws_def plain_hex)
  then have hp: "header_part ''s='' (combined ?ts ?hash) = Some ?hash" by (rule header_parts(2) [OF plain_iso])
  have fresh: "rd_get list_redis 0 (seen_key ?hash) [] = None" by (simp add: list_redis_def)
  have "okE (snd (verify example_mac (\<lambda>_. Some 300000) (Some list_redis) ?k 300000 JNull (JStr (combined ?ts ?hash)) None
      (handle_requests example_mac (\<lambda>_. Some 300000) list_redis ?k []
        (fst (verify example_mac (\<lambda>_. Some 300000) (Some list_redis) ?k 0 JNull (JStr (combined ?ts ?hash)) None [])))))"
    by (rule replay_window [OF list_redis_laws example_mac_laws _ _ _ b hp fresh _ refl refl,
          THEN conjunct2, THEN mp, THEN conjunct1, THEN iffD2]) (simp_all add: algorithm_of_def)
  then show ?thesis using b by auto
qed

text \<open>The cache of seen signatures keeps the text of the hash while the comparison decodes it: a header that
  is refused as a replay is accepted at once with the hash in capital letters.\<close>
theorem replay_by_spelling:
  assumes "redis_laws rd" "mac_laws mac" "algorithm_of p = None" "length secret \<ge> 32" "date_parse (toISOString t) = Some t"
    and "buildHmacHeader mac secret t p = Inr (header, ts)" "header_part ''s='' header = Some hash" "upper hash \<noteq> hash"
    and "\<forall>n h. rd_get rd n (seen_key h) s = None" "now \<le> now'" "now' < now + 300000" "\<bar>now - t\<bar> \<le> 300000" "\<bar>now' - t\<bar> \<le> 300000"
    and "s' = fst (verify mac date_parse (Some rd) secret now p (JStr header) third s)"
  shows "snd (verify mac date_parse (Some rd) secret now' p (JStr header) third s') = Inl Replayed \<and>
    snd (verify mac date_parse (Some rd) secret now' p (JStr (combined ts (upper hash))) third s') = Inr ()"
proof -
  let ?m = "mac ''sha256'' secret (toISOString t @ CHR ''.'' # payload_text p)"
  have h: "header = combined (toISOString t) (to_hex ?m)" "ts = toISOString t"
    using assms(6) unfolding buildHmacHeader_combined [OF assms(3,4)] computeHmac_def by blast+
  have ne: "?m \<noteq> []" using assms(2) by (simp add: mac_laws_def)
  have hash: "hash = to_hex ?m" using assms(7) header_parts(2) [OF plain_iso plain_hex(1) [OF ne]] by (simp add: h)
  have plain: "plain_text hash" "plain_text (upper hash)" using plain_hex [OF ne] by (simp_all add: hash)
  have ok: "signer_verify mac secret p x t" if "from_hex x = ?m" for x
    by (simp add: that signer_verify_def sign_def assms(3) computeHmac_def)
  have oks: "signer_verify mac secret p hash t" "signer_verify mac secret p (upper hash) t"
    by (rule ok, simp add: hash)+
  have run: "verify mac date_parse (Some rd) secret n p (JStr (combined ts x)) third st =
      (if \<bar>n - t\<bar> > 300000 then (st, Inl TimestampExpired)
       else if \<not> signer_verify mac secret p x t then (st, Inl HashMismatch)
       else if rd_get rd n (seen_key x) st \<noteq> None then (st, Inl Replayed)
       else (rd_setex rd n (seen_key x) 300 ''processed'' st, Inr ()))" if "plain_text x" for n x st
    by (simp add: verify_combined [OF assms(3)] verifyLegacy_combined [where date_parse = date_parse, OF _ that assms(5)]
        plain_iso h(2))
  have header: "header = combined ts hash" by (simp add: h hash)
  have s': "s' = rd_set rd now (seen_key hash) ''processed'' (Some 300000) s"
    using assms(9,12) by (simp add: assms(14) header run [OF plain(1)] oks rd_setex_def)
  have "rd_get rd now' (seen_key hash) s' = Some ''processed''"
    using redis_get_set [OF assms(1,10), of 300000 "seen_key hash" "''processed''" s] assms(11) by (simp add: s')
  moreover have "rd_get rd now' (seen_key (upper hash)) s' = None"
    using assms(8,9) by (simp add: s' redis_get_other [OF assms(1)])
  ultimately show ?thesis
    using assms(13) by (simp add: header run [OF plain(1)] run [OF plain(2)] oks)
qed

theorem replay_by_spelling_witness:
  "\<exists>header ts hash s'. buildHmacHeader example_mac (replicate 32 CHR ''k'') 300000 JNull = Inr (header, ts) \<and>
     snd (verify example_mac (\<lambda>_. Some 300000) (Some list_redis) (replicate 32 CHR ''k'') 300000 JNull (JStr (combined ts (upper hash))) None s') = Inr () \<and>
     snd (verify example_mac (\<lambda>_. Some 300000) (Some list_redis) (replicate 32 CHR ''k'') 300000 JNull (JStr header) None s') = Inl Replayed"
proof -
  let ?k = "replicate 32 CHR ''k''" and ?ts = "toISOString 300000"
  let ?d = "?ts @ CHR ''.'' # payload_text JNull"
  let ?hash = "computeHmac example_mac ''sha256'' ?d ?k"
  have b: "buildHmacHeader example_mac ?k 300000 JNull = Inr (combined ?ts ?hash, ?ts)"
    by (rule buildHmacHeader_combined) (simp_all add: algorithm_of_def)
  have "plain_text ?hash"
    using example_mac_laws by (simp add: computeHmac_def mac_laws_def plain_hex)
  then have hp: "header_part ''s='' (combined ?ts ?hash) = Some ?hash" by (rule header_parts(2) [OF plain_iso])
  have m: "example_mac ''sha256'' ?k ?d = of_nat (of_char CHR ''k'') # map (\<lambda>c. of_nat (of_char c)) (''sha256'' @ ?k @ ?d)"
    by (simp add: example_mac_def)
  have "?hash = hex_digit 6 # hex_digit 11 # to_hex (map (\<lambda>c. of_nat (of_char c)) (''sha256'' @ ?k @ ?d))"
    by (simp add: computeHmac_def m to_hex_def)
  then obtain r where r: "?hash = hex_digit 6 # hex_digit 11 # r" by blast
  have "upper_char (hex_digit 11) \<noteq> hex_digit 11" by code_simp
  then have up: "upper ?hash \<noteq> ?hash" by (simp only: r upper_simps list.inject) blast
  have fresh: "\<forall>n h. rd_get list_redis n (seen_key h) [] = None" by (simp add: list_redis_def)
  show ?thesis
    using replay_by_spelling [OF list_redis_laws example_mac_laws _ _ _ b hp up fresh, of "\<lambda>_. Some 300000" 299000 300000 _ None] b
    by (auto simp: algorithm_of_def)
qed

subsection \<open>The headers of the builder meet the verifiers\<close>

lemma from_hex_sha: "from_hex (''sha256='' @ s) = []"
proof -
  have "hex_val CHR ''s'' = None" by code_simp
  then show ?thesis by simp
qed

lemma first_run_of_digits:
  assumes "list_all digit_char a" "a \<noteq> []" "no_digit r"
  shows "parse_int (a @ r) = Some (int (read_digits a))" "parse_int (CHR ''+'' # a @ r) = Some (int (read_digits a))"
    "parse_int (CHR ''-'' # a @ r) = Some (- int (read_digits a))"
proof -
  have t: "takeWhile digit_char (a @ r) = a"
    using assms by (cases r) (simp_all add: takeWhile_append2 list_all_iff no_digit_def takeWhile_tail)
  obtain c b where c: "a = c # b" "digit_char c" using assms by (cases a) auto
  show "parse_int (a @ r) = Some (int (read_digits a))"
    using t c by (simp add: parse_int_def Let_def)
  show "parse_int (CHR ''+'' # a @ r) = Some (int (read_digits a))"
    "parse_int (CHR ''-'' # a @ r) = Some (- int (read_digits a))"
    using t assms(2) by (simp_all add: parse_int_def Let_def is_space_def)
qed

lemma read_digits_pad [simp]: "read_digits (pad w n) = nat n"
proof -
  have "foldl (\<lambda>n c. n * 10 + digit_val c) 0 (replicate k CHR ''0'') = 0" for k
    by (induction k) (simp_all add: digit_val_def)
  then show ?thesis using read_digits_show_nat [of "nat n"] by (simp add: pad_def Let_def read_digits_def)
qed

lemma parse_int_iso: "parse_int (toISOString t) = Some (fst (civil (t div 86400000)))"
proof -
  obtain y m d where c: "civil (t div 86400000) = (y, m, d)" by (cases "civil (t div 86400000)")
  obtain r where r: "toISOString t = year_text y @ CHR ''-'' # r" using c by (auto simp: toISOString_def Let_def)
  have "no_digit (CHR ''-'' # r)" by (simp add: no_digit_def digit_char_def)
  note run = first_run_of_digits [OF pad_digits _ this]
  have "pad w n \<noteq> []" for w n by (simp add: pad_def Let_def)
  then show ?thesis using run by (auto simp: r c year_text_def)
qed

text \<open>The year is small compared with the milliseconds.\<close>

lemma year_small:
  assumes "0 \<le> days"
  shows "0 \<le> fst (civil days)" "fst (civil days) \<le> days + 719469"
proof -
  define z where "z = days + 719468"
  define era doe where "era = z div 146097" and "doe = z mod 146097"
  define yoe where "yoe = (doe - doe div 1460 + doe div 36524 - doe div 146096) div 365"
  have z: "z = 146097 * era + doe" "0 \<le> doe" "doe < 146097" "0 \<le> era"
    using assms by (simp_all add: era_def doe_def z_def)
  have q: "k * (n div k) \<le> n" if "k > 0" for k n :: int
    using that by (simp add: minus_mod_eq_mult_div [symmetric])
  define N where "N = doe - doe div 1460 + doe div 36524 - doe div 146096"
  have "0 \<le> doe div 1460" "0 \<le> doe div 36524" "0 \<le> doe div 146096" using z(2) by (simp_all add: pos_imp_zdiv_nonneg_iff)
  then have N: "0 \<le> N" "N \<le> 2 * doe"
    using q [of 1460 doe] q [of 36524 doe] q [of 146096 doe] z(2) unfolding N_def by linarith+
  have y: "yoe = N div 365" by (simp add: yoe_def N_def)
  have yoe: "0 \<le> yoe" unfolding y using N(1) by (simp add: pos_imp_zdiv_nonneg_iff)
  have "365 * yoe \<le> N" unfolding y by (rule q) simp
  then have yoe2: "yoe \<le> doe" using N(2) z(2) by linarith
  have "\<exists>m. fst (civil days) = yoe + era * 400 + (if m \<le> (2::int) then 1 else 0)"
    unfolding civil_def Let_def fst_conv z_def era_def doe_def yoe_def by (rule exI, rule refl)
  then have "fst (civil days) \<in> {yoe + era * 400, yoe + era * 400 + 1}" by auto
  moreover have "yoe + era * 400 \<le> z" "0 \<le> yoe + era * 400" using yoe yoe2 z by linarith+
  ultimately show "0 \<le> fst (civil days)" "fst (civil days) \<le> days + 719469" by (auto simp: z_def)
qed

text \<open>The signature and timestamp headers that \<open>HmacHeaderBuilder\<close> makes are refused by both verifiers, with
  whatever secret and at whatever time: the timestamp is an ISO text, of which the one reads the year as
  milliseconds, and the signature does not contain it and carries a prefix which the other does not
  decode.\<close>
theorem built_headers_are_refused:
  assumes "mac_laws mac" "buildAuthHeaders mac secret t p = (signature, timestamp)" "0 \<le> t" "t \<le> now" "86400000 \<le> now"
  shows "\<not> okE (verifyHeader mac alg now data signature timestamp secret' 300000) \<and>
    \<not> snd (hmacValidation mac date_parse store cfg now p (Some signature) (Some timestamp) s)"
proof
  have sig: "signature = ''sha256='' @ computeHmac mac ''sha256'' (payload_text p) secret" "timestamp = toISOString t"
    using assms(2) by (simp_all add: buildAuthHeaders_def)
  let ?y = "fst (civil (t div 86400000))"
  have d: "0 \<le> t div 86400000" "86400000 * (t div 86400000) \<le> t" using assms(3)
    by (simp_all add: pos_imp_zdiv_nonneg_iff minus_mod_eq_mult_div [symmetric])
  have "\<bar>now - ?y\<bar> > 300000"
    using year_small [OF d(1)] d assms(4,5) by linarith
  then show "\<not> okE (verifyHeader mac alg now data signature timestamp secret' 300000)"
    by (simp add: verifyHeader_def sig parse_int_iso)
  have cut: "from_hex ''correlation'' = []" by code_simp
  have nonempty: "from_hex (computeHmac mac a x k) \<noteq> []" for a x k
    using assms(1) by (simp add: computeHmac_def mac_laws_def)
  have "plain_text signature"
    using assms(1) plain_hex(1) [of "mac ''sha256'' secret (payload_text p)"]
    by (auto simp: sig computeHmac_def mac_laws_def plain_text_def)
  note plain = plain_iso [of t] this
  have "hd timestamp \<in> set timestamp" using plain(1) by (simp add: plain_text_def sig)
  then have "digit_char (hd timestamp) \<or> hd timestamp \<in> set ''-+:.TZ''" using toISOString_chars [of t] by (auto simp: sig)
  then have "\<not> is_space (hd timestamp)" by (auto simp: is_space_def digit_char_def)
  then have trims: "trim timestamp = timestamp" "timestamp \<noteq> []"
    using plain(1) by (simp_all add: plain_text_def sig trim_unchanged)
  have "hd signature = CHR ''s''" by (simp add: sig)
  then have "trim signature = signature"
    using plain(2) by (simp add: plain_text_def trim_unchanged is_space_def)
  moreover have "\<not> includes_str signature ''t=''"
    by (rule no_t_no_timestamp) (use computeHmac_chars in \<open>simp add: sig\<close>)
  ultimately have header: "middleware_header (Some signature) (Some timestamp) = Some (combined timestamp signature)"
    using trims plain(2) by (simp add: middleware_header_def combined_def plain_text_def Let_def)
  have "\<not> okE (snd (verify mac date_parse store cfg now p (JStr (combined timestamp signature)) (Some ''correlation'') s))"
  proof (cases "algorithm_of p")
    case None
    have bad: "\<not> signer_verify mac cfg p signature t'" for t'
    proof -
      have "from_hex signature = []" by (simp only: sig from_hex_sha)
      then show ?thesis by (simp add: signer_verify_def sign_def None nonempty [THEN not_sym])
    qed
    show ?thesis
    proof (cases "date_parse timestamp")
      case None': None
      have "header_part ''t='' (combined timestamp signature) = Some timestamp"
        using header_parts(1) [OF plain(1) [folded sig(2)] plain(2)] .
      then have "verifyLegacy mac date_parse store cfg now p (combined timestamp signature) s = (s, Inl MissingTimestamp)"
        using None' by (simp add: verifyLegacy_def extractTimestamp_def combined_def)
      then show ?thesis by (simp add: verify_combined [OF None])
    next
      case (Some t')
      then show ?thesis
        by (simp add: verify_combined [OF None] bad
            verifyLegacy_combined [where date_parse = date_parse, OF plain(1) [folded sig(2)] plain(2) Some])
    qed
  next
    case (Some alg)
    have "\<not> verifyPayloadWithAlgorithm mac cfg alg (JStr x) ''correlation''" for x
      unfolding verifyPayloadWithAlgorithm_def list_ex_iff cut by (simp add: nonempty [THEN not_sym])
    then show ?thesis using Some by (simp add: verify_def)
  qed
  then show "\<not> snd (hmacValidation mac date_parse store cfg now p (Some signature) (Some timestamp) s)"
    by (simp add: hmacValidation_def header case_prod_beta)
qed

theorem built_headers_are_refused_witness:
  "\<not> okE (verifyHeader example_mac ''sha256'' 86400500 ''null''
      (fst (buildAuthHeaders example_mac ''k'' 86400000 JNull)) (snd (buildAuthHeaders example_mac ''k'' 86400000 JNull)) ''k'' 300000)"
  by (rule built_headers_are_refused [OF example_mac_laws prod.collapse [symmetric], THEN conjunct1]) simp_all

text \<open>The headers of \<open>HMACVerifier.generateHeader\<close> are accepted by \<open>verifyHeader\<close> for another text exactly
  within five minutes of their time, with the algorithm SHA-256, and if the keyed hashes agree; made with
  another algorithm, a header is never accepted, since only the prefix of SHA-256 is removed.\<close>
theorem generated_headers_verify:
  assumes "generateHeader mac alg t data secret = Inr (signature, timestamp)" "CHR ''='' \<notin> set alg"
  shows "okE (verifyHeader mac alg now data' signature timestamp secret 300000) \<longleftrightarrow>
    \<bar>now - t\<bar> \<le> 300000 \<and> lower alg = ''sha256'' \<and>
    mac alg secret (show_int t @ CHR ''.'' # data') = mac alg secret (show_int t @ CHR ''.'' # data)"
proof -
  let ?hex = "\<lambda>d. computeHmac mac alg (show_int t @ CHR ''.'' # d) secret"
  have sec: "secret \<noteq> []" and sg: "signature = lower alg @ CHR ''='' # ?hex data" "timestamp = show_int t"
    using assms(1) by (auto simp: generateHeader_def hv_sign_def HMACSignature_toString_def split: if_splits)
  have no_eq: "CHR ''='' \<notin> set (?hex d)" "CHR ''s'' \<notin> set (?hex d)" for d
    using to_hex_chars [of "mac alg secret (show_int t @ CHR ''.'' # d)"] by (auto simp: computeHmac_def)
  have hex: "without_prefix (?hex d) = ?hex d" for d
    using no_eq(2) [of d] by (cases "?hex d") (auto simp: without_prefix_def)
  have "show_int t \<noteq> []" by (simp add: show_int_def)
  then have "okE (verifyHeader mac alg now data' signature timestamp secret 300000) \<longleftrightarrow>
      \<bar>now - t\<bar> \<le> 300000 \<and> ?hex data' = without_prefix (without_prefix signature)"
    using sec by (auto simp: verifyHeader_def sg hv_verify_def hv_sign_def)
  moreover have "without_prefix (without_prefix signature) = ?hex data" if "lower alg = ''sha256''"
    using hex [of data] that by (simp add: without_prefix_def sg)
  moreover have "?hex data' \<noteq> without_prefix (without_prefix signature)" if "lower alg \<noteq> ''sha256''"
  proof -
    have "\<not> starts_with ''sha256='' signature"
    proof
      assume "starts_with ''sha256='' signature"
      then obtain r where r: "lower alg @ CHR ''='' # ?hex data = ''sha256'' @ CHR ''='' # r"
        by (auto simp: starts_with_iff sg)
      have "lower_char c \<noteq> CHR ''=''" if "c \<noteq> CHR ''=''" for c
      proof
        assume eq: "lower_char c = CHR ''=''"
        then have "65 \<le> (of_char c :: nat) \<and> (of_char c :: nat) \<le> 90" using that by (simp add: lower_char_def Let_def split: if_splits)
        then show False using arg_cong [OF eq, where f = "of_char :: char \<Rightarrow> nat"] by (simp add: lower_char_def Let_def)
      qed
      then have "CHR ''='' \<notin> set (lower alg)" using assms(2) unfolding lower_def by (metis image_iff list.set_map)
      then have "takeWhile (\<lambda>c. c \<noteq> CHR ''='') (lower alg @ CHR ''='' # ?hex data) = lower alg"
        by (subst takeWhile_append2) auto
      moreover have "takeWhile (\<lambda>c. c \<noteq> CHR ''='') (''sha256'' @ CHR ''='' # r) = ''sha256''" by simp
      ultimately show False using that by (simp only: r)
    qed
    then have "without_prefix (without_prefix signature) = signature" by (simp add: without_prefix_def)
    then show ?thesis using no_eq(1) [of data'] by (auto simp: sg)
  qed
  ultimately show ?thesis by (cases "lower alg = ''sha256''") (auto simp: computeHmac_def)
qed

theorem generated_headers_verify_witness:
  "\<exists>g ts. generateHeader example_mac ''sha256'' 1000 ''data'' ''k'' = Inr (g, ts) \<and>
     okE (verifyHeader example_mac ''sha256'' 2000 ''data'' g ts ''k'' 300000)"
proof -
  have low: "lower ''sha256'' = ''sha256''" by code_simp
  obtain g ts where h: "generateHeader example_mac ''sha256'' 1000 ''data'' ''k'' = Inr (g, ts)"
    by (simp add: generateHeader_def hv_sign_def)
  have "okE (verifyHeader example_mac ''sha256'' 2000 ''data'' g ts ''k'' 300000)"
    by (rule generated_headers_verify [OF h, THEN iffD2]) (simp_all add: low del: lower_simps)
  then show ?thesis using h by blast
qed

end
