(* ===== verification/QF_Secrets.thy ===== *)
theory QF_Secrets
  imports QF_Redis
begin

text \<open>
  The secrets manager (\<open>security/secrets\<close>): a memory cache of one minute, a Redis store, and the
  environment of the process. The state of an instance is its cache and its environment; the store is
  shared. \<open>RedisOperations\<close> is the store the program passes, so \<open>set\<close> takes milliseconds.
\<close>

record cached_secret =
  cs_value :: string
  cs_expiresAt :: ms

record SecretsManager =
  sm_memoryStore :: "(string, cached_secret) js_map"
  sm_env :: "(string, string) js_map"

definition cacheSecret :: "ms \<Rightarrow> string \<Rightarrow> string \<Rightarrow> SecretsManager \<Rightarrow> SecretsManager" where
  "cacheSecret now k v m = m\<lparr> sm_memoryStore := mset_at k \<lparr> cs_value = v, cs_expiresAt = now + 60000 \<rparr> (sm_memoryStore m) \<rparr>"

definition redis_key :: "string \<Rightarrow> string" where
  "redis_key k = ''queueforge:secret:'' @ k"

lemma redis_key_eq [simp]: "redis_key a = redis_key b \<longleftrightarrow> a = b"
  by (simp add: redis_key_def)

text \<open>\<open>a || b || c\<close> over the three spellings of the name; the last one may be the empty text.\<close>

definition env_value :: "(string, string) js_map \<Rightarrow> string \<Rightarrow> string option" where
  "env_value env k =
     (let first = (\<lambda>v r. case v of Some x \<Rightarrow> if x \<noteq> [] then Some x else r | None \<Rightarrow> r) in
      first (mget env k) (first (mget env (upper k))
        (mget env (upper (map (\<lambda>c. if c = CHR ''-'' \<or> c = CHR ''.'' then CHR ''_'' else c) k)))))"

definition getSecret :: "(string, 's) redis option \<Rightarrow> ms \<Rightarrow> string \<Rightarrow> SecretsManager \<times> 's \<Rightarrow> (SecretsManager \<times> 's) \<times> string" where
  "getSecret store now k st = (case st of (m, s) \<Rightarrow>
     if k = [] then (st, [])
     else (case mget (sm_memoryStore m) k of
        Some c \<Rightarrow> if now < cs_expiresAt c then (st, cs_value c)
          else (case (case store of None \<Rightarrow> None | Some rd \<Rightarrow> rd_get rd now (redis_key k) s) of
              Some v \<Rightarrow> if v \<noteq> [] then ((cacheSecret now k v m, s), v)
                else (case env_value (sm_env m) k of Some e \<Rightarrow> ((cacheSecret now k e m, s), e) | None \<Rightarrow> (st, []))
            | None \<Rightarrow> (case env_value (sm_env m) k of Some e \<Rightarrow> ((cacheSecret now k e m, s), e) | None \<Rightarrow> (st, [])))
      | None \<Rightarrow> (case (case store of None \<Rightarrow> None | Some rd \<Rightarrow> rd_get rd now (redis_key k) s) of
              Some v \<Rightarrow> if v \<noteq> [] then ((cacheSecret now k v m, s), v)
                else (case env_value (sm_env m) k of Some e \<Rightarrow> ((cacheSecret now k e m, s), e) | None \<Rightarrow> (st, []))
            | None \<Rightarrow> (case env_value (sm_env m) k of Some e \<Rightarrow> ((cacheSecret now k e m, s), e) | None \<Rightarrow> (st, [])))))"

definition requireSecret :: "(string, 's) redis option \<Rightarrow> ms \<Rightarrow> string \<Rightarrow> SecretsManager \<times> 's \<Rightarrow> (SecretsManager \<times> 's) \<times> (string + string)" where
  "requireSecret store now k st = (case getSecret store now k st of (st', v) \<Rightarrow> (st', if v = [] then Inl k else Inr v))"

definition setSecret :: "(string, 's) redis option \<Rightarrow> ms \<Rightarrow> string \<Rightarrow> string \<Rightarrow> SecretsManager \<times> 's \<Rightarrow> (SecretsManager \<times> 's, string) eff" where
  "setSecret store now k v st = (case st of (m, s) \<Rightarrow>
     if k = [] then throw st ''Secret key is required.''
     else ret ((cacheSecret now k v m)\<lparr> sm_env := mset_at k v (sm_env m) \<rparr>,
       (case store of None \<Rightarrow> s | Some rd \<Rightarrow> RedisOperations_set rd now (redis_key k) v (Some 60) s)))"

text \<open>\<open>del\<close> is the deletion of a key in the store.\<close>

definition deleteSecret :: "(string \<Rightarrow> 's \<Rightarrow> 's) option \<Rightarrow> string \<Rightarrow> SecretsManager \<times> 's \<Rightarrow> SecretsManager \<times> 's" where
  "deleteSecret del k st = (case st of (m, s) \<Rightarrow>
     (m\<lparr> sm_memoryStore := mdel k (sm_memoryStore m), sm_env := mdel k (sm_env m) \<rparr>,
      (case del of None \<Rightarrow> s | Some d \<Rightarrow> d (redis_key k) s)))"

definition hasSecret :: "(string, 's) redis option \<Rightarrow> ms \<Rightarrow> string \<Rightarrow> SecretsManager \<times> 's \<Rightarrow> (SecretsManager \<times> 's) \<times> bool" where
  "hasSecret store now k st = (case getSecret store now k st of (st', v) \<Rightarrow> (st', v \<noteq> []))"

definition getAllSecretNames :: "SecretsManager \<Rightarrow> string list" where
  "getAllSecretNames m = fold (\<lambda>k ks. if mget (sm_env m) k \<noteq> None \<and> mget (sm_env m) k \<noteq> Some [] then
        (if k \<in> set ks then ks else ks @ [k]) else ks)
     [''JWT_SECRET'', ''HMAC_SECRET'', ''DATABASE_PASSWORD'', ''REDIS_PASSWORD'', ''API_KEY_SALT''] (map fst (sm_memoryStore m))"

definition rotateSecret :: "(string, 's) redis option \<Rightarrow> ms \<Rightarrow> string \<Rightarrow> string \<Rightarrow> SecretsManager \<times> 's \<Rightarrow> (SecretsManager \<times> 's, string) eff" where
  "rotateSecret store now k v st = setSecret store now k v st"

text \<open>\<open>SecretsLoader\<close>: the four required secrets.\<close>

definition required_keys :: "string list" where
  "required_keys = [''JWT_SECRET'', ''HMAC_SECRET'', ''DATABASE_PASSWORD'', ''REDIS_PASSWORD'']"

definition validate_secrets :: "(string \<Rightarrow> string option) \<Rightarrow> string + unit" where
  "validate_secrets secrets = (case find (\<lambda>k. trim (str_or (secrets k) []) = [] \<or> length (str_or (secrets k) []) < 8) required_keys of
     Some k \<Rightarrow> Inl k | None \<Rightarrow> Inr ())"

definition loadFromEnvironment :: "(string \<Rightarrow> string option) \<Rightarrow> string + (string \<Rightarrow> string option)" where
  "loadFromEnvironment env =
     (let secrets = Map.empty(''JWT_SECRET'' \<mapsto> str_or (env ''JWT_SECRET'') ''queueforge-default-jwt-secret-min-32-chars!'',
            ''HMAC_SECRET'' \<mapsto> str_or (env ''HMAC_SECRET'') ''queueforge-default-hmac-secret-min-32-chars!'',
            ''DATABASE_PASSWORD'' \<mapsto> str_or (env ''DATABASE_PASSWORD'') ''queueforge-db-pass-12345!'',
            ''REDIS_PASSWORD'' \<mapsto> str_or (env ''REDIS_PASSWORD'') ''queueforge-redis-pass-12345!'')
      in bindE (validate_secrets secrets) (\<lambda>_. Inr secrets))"

text \<open>\<open>VaultSecretsLoader\<close>: without a secret it makes one up.\<close>

definition vault_getSecret :: "string option \<Rightarrow> (string, 's) redis option \<Rightarrow> ms \<Rightarrow> string \<Rightarrow> SecretsManager \<times> 's \<Rightarrow> (SecretsManager \<times> 's) \<times> (string + string)" where
  "vault_getSecret token store now k st =
     (if str_or token [] = [] \<or> includes_str (str_or token []) ''expired'' then (st, Inl ''Vault token is missing or expired'')
      else case getSecret store now k st of (st', v) \<Rightarrow> (st', Inr (if v \<noteq> [] then v else ''vault_value_for_'' @ k)))"

subsection \<open>What is written is read\<close>

datatype secret_op = Get ms string | Set ms string string | Delete string

fun secret_op_key :: "secret_op \<Rightarrow> string" where
  "secret_op_key (Get t k) = k" | "secret_op_key (Set t k v) = k" | "secret_op_key (Delete k) = k"

fun run_secret_op :: "(string, 's) redis option \<Rightarrow> (string \<Rightarrow> 's \<Rightarrow> 's) option \<Rightarrow> secret_op \<Rightarrow> SecretsManager \<times> 's \<Rightarrow> SecretsManager \<times> 's" where
  "run_secret_op store del (Get t k) st = fst (getSecret store t k st)"
| "run_secret_op store del (Set t k v) st = fst (setSecret store t k v st)"
| "run_secret_op store del (Delete k) st = deleteSecret del k st"

text \<open>From a time on, what the parts know of a key agrees with its value \<open>v\<close>.\<close>

definition knows :: "(string, 's) redis option \<Rightarrow> ms \<Rightarrow> string \<Rightarrow> string \<Rightarrow> SecretsManager \<times> 's \<Rightarrow> bool" where
  "knows store since k v st = (case st of (m, s) \<Rightarrow> mget (sm_env m) k = Some v \<and>
     (\<forall>c. mget (sm_memoryStore m) k = Some c \<longrightarrow> cs_value c = v) \<and>
     (\<forall>rd t w. store = Some rd \<longrightarrow> since \<le> t \<longrightarrow> rd_get rd t (redis_key k) s = Some w \<longrightarrow> w = v))"

lemma knows_reads:
  assumes "knows store since k v st" "v \<noteq> []" "k \<noteq> []" "since \<le> t"
  shows "snd (getSecret store t k st) = v"
  using assms by (cases st) (auto simp: knows_def getSecret_def env_value_def Let_def split: option.splits)

lemma cacheSecret_fields [simp]:
  "sm_env (cacheSecret t k v m) = sm_env m"
  "mget (sm_memoryStore (cacheSecret t k v m)) k' = (if k' = k then Some \<lparr> cs_value = v, cs_expiresAt = t + 60000 \<rparr> else mget (sm_memoryStore m) k')"
  by (simp_all add: cacheSecret_def)

lemma getSecret_state: "fst (getSecret store t k (m, s)) = (m, s) \<or> (\<exists>v. fst (getSecret store t k (m, s)) = (cacheSecret t k v m, s))"
  by (auto simp: getSecret_def split: option.splits)

lemma knows_other:
  assumes "knows store since k v st" "secret_op_key op \<noteq> k" "\<forall>rd. store = Some rd \<longrightarrow> redis_laws rd"
    and "\<forall>rd d. store = Some rd \<longrightarrow> del = Some d \<longrightarrow> delete_laws rd d" "store = None \<longrightarrow> del = None"
  shows "knows store since k v (run_secret_op store del op st)"
proof (cases op)
  case (Get t k')
  then show ?thesis using assms(1,2) getSecret_state [of store t k' "fst st" "snd st"] by (cases st) (auto simp: knows_def)
next
  case (Set t k' w)
  then have "k \<noteq> k'" using assms(2) by simp
  have "rd_get rd n (redis_key k) (RedisOperations_set rd t (redis_key k') w px s) = rd_get rd n (redis_key k) s" if "store = Some rd" for rd n s px
    using redis_get_other [of rd "redis_key k" "redis_key k'"] assms(3) that \<open>k \<noteq> k'\<close>
    by (auto simp: RedisOperations_set_def split: option.splits)
  then show ?thesis using Set assms(1) \<open>k \<noteq> k'\<close> by (cases st; cases store) (auto simp: knows_def setSecret_def)
next
  case (Delete k')
  then show ?thesis using assms by (cases st; cases store; cases del) (auto simp: knows_def deleteSecret_def delete_laws_def)
qed

lemma knows_others:
  assumes "\<forall>rd. store = Some rd \<longrightarrow> redis_laws rd"
    and "\<forall>rd d. store = Some rd \<longrightarrow> del = Some d \<longrightarrow> delete_laws rd d" "store = None \<longrightarrow> del = None"
  shows "knows store since k v st \<Longrightarrow> \<forall>op \<in> set ops. secret_op_key op \<noteq> k \<Longrightarrow> knows store since k v (fold (run_secret_op store del) ops st)"
  by (induction ops arbitrary: st) (simp_all add: knows_other [OF _ _ assms])

text \<open>A secret that was set is read back by the same instance at any later time, whatever other secrets it
  reads, sets and deletes in between, also after the cached copies are gone: the environment keeps it.\<close>
theorem secrets_are_read_back:
  assumes "\<forall>rd. store = Some rd \<longrightarrow> redis_laws rd" "\<forall>rd d. store = Some rd \<longrightarrow> del = Some d \<longrightarrow> delete_laws rd d"
    and "store = None \<longrightarrow> del = None" "k \<noteq> []" "v \<noteq> []" "\<forall>op \<in> set ops. secret_op_key op \<noteq> k" "now \<le> later"
  shows "snd (getSecret store later k (fold (run_secret_op store del) ops (fst (setSecret store now k v st)))) = v"
proof (rule knows_reads [OF knows_others [OF assms(1-3)] assms(5,4,7)])
  obtain m s where st: "st = (m, s)" by (cases st)
  have "rd_get rd t (redis_key k) (rd_set rd now (redis_key k) v (Some 60) s) = (if t < now + 60 then Some v else None)"
    if "store = Some rd" "now \<le> t" for rd t
    using assms(1) that by (simp add: redis_get_set)
  then show "knows store now k v (fst (setSecret store now k v st))"
    using assms(4) by (auto simp: st knows_def setSecret_def RedisOperations_set_def split: if_splits)
  show "\<forall>op \<in> set ops. secret_op_key op \<noteq> k" by (rule assms(6))
qed

theorem secrets_are_read_back_witness:
  "snd (getSecret (Some list_redis) 90000 ''a'' (fold (run_secret_op (Some list_redis) None) [Set 10 ''b'' ''w'', Delete ''c'', Get 20 ''b'']
     (fst (setSecret (Some list_redis) 0 ''a'' ''v'' (\<lparr> sm_memoryStore = [], sm_env = [] \<rparr>, []))))) = ''v''"
  by (rule secrets_are_read_back) (simp_all add: list_redis_laws)

text \<open>A rotation is not seen by other instances: sixty milliseconds after it they answer with the secret of
  their own environment, and one that did see the new value in that time returns to the old one when its
  cached copy expires.\<close>
theorem rotation_is_not_seen:
  assumes "redis_laws rd" "k \<noteq> []" "new \<noteq> []" "old \<noteq> []"
    and "rotateSecret (Some rd) t k new (a, s) = ((a', s'), None)"
    and "mget (sm_memoryStore b) k = None" "mget (sm_env b) k = Some old"
  shows "(t + 60 \<le> t' \<longrightarrow> snd (getSecret (Some rd) t' k (b, s')) = old) \<and>
    (t \<le> t1 \<longrightarrow> t1 < t + 60 \<longrightarrow> t1 + 60000 \<le> t2 \<longrightarrow>
       snd (getSecret (Some rd) t1 k (b, s')) = new \<and>
       snd (getSecret (Some rd) t2 k (fst (getSecret (Some rd) t1 k (b, s')))) = old)"
proof -
  have s': "s' = rd_set rd t (redis_key k) new (Some 60) s"
    using assms(2,5) by (auto simp: rotateSecret_def setSecret_def ret_def RedisOperations_set_def)
  have get: "rd_get rd n (redis_key k) s' = (if n < t + 60 then Some new else None)" if "t \<le> n" for n
    using redis_get_set [OF assms(1) that, of 60] by (simp add: s')
  have env: "env_value (sm_env b) k = Some old"
    using assms(4,7) by (simp add: env_value_def)
  have "snd (getSecret (Some rd) t' k (b, s')) = old" if "t + 60 \<le> t'"
    using that assms(2,6) get [of t'] env by (simp add: getSecret_def)
  moreover have "getSecret (Some rd) t1 k (b, s') = ((cacheSecret t1 k new b, s'), new)" if "t \<le> t1" "t1 < t + 60"
    using that assms(2,3,6) get [of t1] by (simp add: getSecret_def)
  moreover have "snd (getSecret (Some rd) t2 k (cacheSecret t1 k new b, s')) = old" if "t \<le> t1" "t1 + 60000 \<le> t2"
    using that assms(2) get [of t2] env by (simp add: getSecret_def)
  ultimately show ?thesis by simp
qed

theorem rotation_is_not_seen_witness:
  "\<exists>s'. snd (fst (rotateSecret (Some list_redis) 0 ''K'' ''new'' (\<lparr> sm_memoryStore = [], sm_env = [] \<rparr>, []))) = s' \<and>
     snd (getSecret (Some list_redis) 60 ''K'' (\<lparr> sm_memoryStore = [], sm_env = [(''K'', ''old'')] \<rparr>, s')) = ''old''"
proof -
  let ?r = "rotateSecret (Some list_redis) 0 ''K'' ''new'' (\<lparr> sm_memoryStore = [], sm_env = [] \<rparr>, [])"
  have r: "?r = ((fst (fst ?r), snd (fst ?r)), None)" by (simp add: rotateSecret_def setSecret_def ret_def)
  have "snd (getSecret (Some list_redis) 60 ''K'' (\<lparr> sm_memoryStore = [], sm_env = [(''K'', ''old'')] \<rparr>, snd (fst ?r))) = ''old''"
    by (rule rotation_is_not_seen [OF list_redis_laws _ _ _ r, THEN conjunct1, THEN mp]) (simp_all add: mget_def)
  then show ?thesis by blast
qed

end
