(* ===== verification/QF_Daemon.thy ===== *)
theory QF_Daemon
  imports QF_Redis
begin

text \<open>
  Leader election and coordination of the daemons (\<open>daemon/coordinator\<close>) and the loop they share
  (\<open>daemon/base-daemon.ts\<close>). A node is its election object; the lease is a key of Redis. The client is
  asked for its methods: the client of the library sets the key only if it is free (\<open>SET\<close> with \<open>PX\<close> and
  \<open>NX\<close>), \<open>RedisOperations.set\<close> takes a third argument that is not a number for no time to live.
\<close>

subsection \<open>The loop\<close>

record BaseDaemon =
  bd_name :: string
  bd_interval :: int
  bd_running :: bool
  bd_lastRun :: "ms option"
  bd_lastDurationMs :: int
  bd_timer :: bool

definition BaseDaemon_new :: "string \<Rightarrow> int \<Rightarrow> BaseDaemon" where
  "BaseDaemon_new name interval = \<lparr> bd_name = name, bd_interval = max 100 interval, bd_running = False, bd_lastRun = None,
     bd_lastDurationMs = 0, bd_timer = False \<rparr>"

text \<open>A cycle that starts at \<open>now\<close> and ends at \<open>done\<close>; whether it threw makes no difference to the state.\<close>

definition runCycle :: "ms \<Rightarrow> ms \<Rightarrow> BaseDaemon \<Rightarrow> BaseDaemon" where
  "runCycle now done d = d\<lparr> bd_lastRun := Some now, bd_lastDurationMs := done - now \<rparr>"

definition daemon_start :: "ms \<Rightarrow> ms \<Rightarrow> BaseDaemon \<Rightarrow> BaseDaemon" where
  "daemon_start now done d = (if bd_running d then d else (runCycle now done (d\<lparr> bd_running := True \<rparr>))\<lparr> bd_timer := True \<rparr>)"

definition daemon_stop :: "BaseDaemon \<Rightarrow> BaseDaemon" where
  "daemon_stop d = (if bd_running d then d\<lparr> bd_timer := False, bd_running := False \<rparr> else d)"

definition daemon_tick :: "ms \<Rightarrow> ms \<Rightarrow> BaseDaemon \<Rightarrow> BaseDaemon" where
  "daemon_tick now done d = (if bd_timer d then runCycle now done d else d)"

definition daemon_nextRun :: "BaseDaemon \<Rightarrow> ms option" where
  "daemon_nextRun d = (if bd_running d then map_option (\<lambda>t. t + bd_interval d) (bd_lastRun d) else None)"

subsection \<open>The client of the lease\<close>

text \<open>The methods an election asks for; each may be missing and may throw.\<close>

record 's lease_client =
  lc_setWithTtl :: "(ms \<Rightarrow> string \<Rightarrow> string \<Rightarrow> int \<Rightarrow> 's \<Rightarrow> unit + ('s \<times> bool)) option"
  lc_setNX :: "(ms \<Rightarrow> string \<Rightarrow> string \<Rightarrow> int \<Rightarrow> 's \<Rightarrow> unit + ('s \<times> bool)) option"
  lc_get :: "ms \<Rightarrow> string \<Rightarrow> 's \<Rightarrow> unit + string option"
  lc_pexpire :: "(ms \<Rightarrow> string \<Rightarrow> int \<Rightarrow> 's \<Rightarrow> unit + 's) option"
  lc_remove :: "(string \<Rightarrow> 's \<Rightarrow> unit + 's) option"

text \<open>The library's client: \<open>SET k v PX ttl NX\<close> answers OK if the key was free, \<open>PEXPIRE\<close> renews the time of a
  key that exists. \<open>del\<close> deletes a key.\<close>

definition library_lease :: "(string, 's) redis \<Rightarrow> (string \<Rightarrow> 's \<Rightarrow> 's) \<Rightarrow> 's lease_client" where
  "library_lease rd del = \<lparr> lc_setWithTtl = None,
     lc_setNX = Some (\<lambda>now k v px s. Inr (if rd_get rd now k s = None then (rd_set rd now k v (Some px) s, True) else (s, False))),
     lc_get = (\<lambda>now k s. Inr (rd_get rd now k s)),
     lc_pexpire = Some (\<lambda>now k px s. Inr (case rd_get rd now k s of Some v \<Rightarrow> rd_set rd now k v (Some px) s | None \<Rightarrow> s)),
     lc_remove = Some (\<lambda>k s. Inr (del k s)) \<rparr>"

text \<open>\<open>RedisOperations\<close>: \<open>set(key, value, 'PX', ...)\<close> compares \<open>'PX'\<close> with zero, so the key is set without a time to
  live whoever holds it, and the answer is \<open>undefined\<close>; there is no \<open>pexpire\<close>.\<close>

definition operations_lease :: "(string, 's) redis \<Rightarrow> (string \<Rightarrow> 's \<Rightarrow> 's) \<Rightarrow> 's lease_client" where
  "operations_lease rd del = \<lparr> lc_setWithTtl = None,
     lc_setNX = Some (\<lambda>now k v px s. Inr (RedisOperations_set rd now k v None s, False)),
     lc_get = (\<lambda>now k s. Inr (rd_get rd now k s)), lc_pexpire = None, lc_remove = Some (\<lambda>k s. Inr (del k s)) \<rparr>"

subsection \<open>Leader election\<close>

record LeaderElection =
  el_daemonId :: string
  el_isLeader :: bool
  el_refreshTimer :: bool

definition LeaderElection_new :: "string \<Rightarrow> LeaderElection" where
  "LeaderElection_new i = \<lparr> el_daemonId = i, el_isLeader = False, el_refreshTimer = False \<rparr>"

definition leader_key :: string where
  "leader_key = ''daemon:leader:recovery''"

definition lease_ttl :: int where
  "lease_ttl = 30000"

text \<open>Taking or refreshing the lease.\<close>

definition try_lease :: "'s lease_client \<Rightarrow> ms \<Rightarrow> string \<Rightarrow> 's \<Rightarrow> 's \<times> (unit + bool)" where
  "try_lease lc now i s = (case lc_setWithTtl lc of
      Some f \<Rightarrow> (case f now leader_key i (lease_ttl div 1000) s of Inl e \<Rightarrow> (s, Inl e) | Inr (s1, ok) \<Rightarrow> (s1, Inr ok))
    | None \<Rightarrow> (case lc_setNX lc of None \<Rightarrow> (s, Inr False)
      | Some f \<Rightarrow> (case f now leader_key i lease_ttl s of Inl e \<Rightarrow> (s, Inl e)
        | Inr (s1, ok) \<Rightarrow> if ok then (s1, Inr True) else
            (case lc_get lc now leader_key s1 of Inl e \<Rightarrow> (s1, Inl e)
             | Inr holder \<Rightarrow> if holder \<noteq> Some i then (s1, Inr False) else
                 (case lc_pexpire lc of None \<Rightarrow> (s1, Inr True)
                  | Some g \<Rightarrow> (case g now leader_key lease_ttl s1 of Inl e \<Rightarrow> (s1, Inl e) | Inr s2 \<Rightarrow> (s2, Inr True)))))))"

text \<open>Without a client every node leads; a failing client loses the lead.\<close>

definition participate :: "'s lease_client option \<Rightarrow> ms \<Rightarrow> LeaderElection \<times> 's \<Rightarrow> LeaderElection \<times> 's" where
  "participate client now st = (case st of (e, s) \<Rightarrow> (case client of
      None \<Rightarrow> (e\<lparr> el_isLeader := True \<rparr>, s)
    | Some lc \<Rightarrow> (case try_lease lc now (el_daemonId e) s of
        (s', Inl _) \<Rightarrow> (e\<lparr> el_isLeader := False, el_refreshTimer := False \<rparr>, s')
      | (s', Inr acquired) \<Rightarrow> (e\<lparr> el_isLeader := acquired, el_refreshTimer := acquired \<rparr>, s'))))"

definition resign :: "'s lease_client option \<Rightarrow> ms \<Rightarrow> LeaderElection \<times> 's \<Rightarrow> LeaderElection \<times> 's" where
  "resign client now st = (case st of (e, s) \<Rightarrow>
     if \<not> el_isLeader e then (e\<lparr> el_refreshTimer := False \<rparr>, s)
     else (e\<lparr> el_refreshTimer := False, el_isLeader := False \<rparr>,
       (case client of None \<Rightarrow> s
        | Some lc \<Rightarrow> (case lc_get lc now leader_key s of Inr (Some i) \<Rightarrow>
            if i = el_daemonId e then (case lc_remove lc of Some f \<Rightarrow> (case f leader_key s of Inr s' \<Rightarrow> s' | Inl _ \<Rightarrow> s) | None \<Rightarrow> s) else s
          | _ \<Rightarrow> s))))"

text \<open>The timer of a leader, every ten seconds.\<close>

definition refresh_tick :: "'s lease_client option \<Rightarrow> ms \<Rightarrow> LeaderElection \<times> 's \<Rightarrow> LeaderElection \<times> 's" where
  "refresh_tick client now st = (if el_refreshTimer (fst st) then participate client now st else st)"

subsection \<open>Coordinator\<close>

datatype DaemonRole = PRIMARY | SECONDARY | OBSERVER

definition isDaemonSingleton :: "string \<Rightarrow> bool" where
  "isDaemonSingleton ty \<longleftrightarrow> upper ty = ''RECOVERY'' \<or> upper ty = ''ADMIN_SYNC''"

record DaemonCoordinator =
  dc_daemonId :: string
  dc_daemons :: "(string, BaseDaemon) js_map"
  dc_elections :: "(string, LeaderElection) js_map"
  dc_running :: bool

definition DaemonCoordinator_new :: "string \<Rightarrow> DaemonCoordinator" where
  "DaemonCoordinator_new i = \<lparr> dc_daemonId = i, dc_daemons = [], dc_elections = [], dc_running = False \<rparr>"

definition registerDaemon :: "'s lease_client option \<Rightarrow> ms \<Rightarrow> string \<Rightarrow> BaseDaemon \<Rightarrow> DaemonCoordinator \<times> 's \<Rightarrow> DaemonCoordinator \<times> 's" where
  "registerDaemon client now ty d st = (case st of (c, s) \<Rightarrow>
     let k = upper ty; c' = c\<lparr> dc_daemons := mset_at k d (dc_daemons c) \<rparr> in
     if isDaemonSingleton k then (case participate client now (LeaderElection_new (dc_daemonId c), s) of
         (e, s') \<Rightarrow> (c'\<lparr> dc_elections := mset_at k e (dc_elections c) \<rparr>, s'))
     else (c', s))"

definition deregisterDaemon :: "'s lease_client option \<Rightarrow> ms \<Rightarrow> string \<Rightarrow> DaemonCoordinator \<times> 's \<Rightarrow> DaemonCoordinator \<times> 's" where
  "deregisterDaemon client now ty st = (case st of (c, s) \<Rightarrow>
     let k = upper ty; c' = c\<lparr> dc_daemons := mdel k (dc_daemons c) \<rparr> in
     (case mget (dc_elections c) k of None \<Rightarrow> (c', s)
      | Some e \<Rightarrow> (c'\<lparr> dc_elections := mdel k (dc_elections c) \<rparr>, snd (resign client now (e, s)))))"

definition getRole :: "DaemonCoordinator \<Rightarrow> string \<Rightarrow> DaemonRole" where
  "getRole c ty = (if \<not> isDaemonSingleton ty then PRIMARY
     else case mget (dc_elections c) (upper ty) of Some e \<Rightarrow> if el_isLeader e then PRIMARY else SECONDARY | None \<Rightarrow> SECONDARY)"

definition ensureLeadership :: "'s lease_client option \<Rightarrow> ms \<Rightarrow> string \<Rightarrow> DaemonCoordinator \<times> 's \<Rightarrow> (DaemonCoordinator \<times> 's) \<times> bool" where
  "ensureLeadership client now ty st = (case st of (c, s) \<Rightarrow>
     if \<not> isDaemonSingleton ty then (st, True)
     else (case participate client now (nullish_or (mget (dc_elections c) (upper ty)) (LeaderElection_new (dc_daemonId c)), s) of
         (e, s') \<Rightarrow> ((c\<lparr> dc_elections := mset_at (upper ty) e (dc_elections c) \<rparr>, s'), el_isLeader e)))"

definition coordinator_shutdown :: "'s lease_client option \<Rightarrow> ms \<Rightarrow> DaemonCoordinator \<times> 's \<Rightarrow> DaemonCoordinator \<times> 's" where
  "coordinator_shutdown client now st = fold (\<lambda>k. deregisterDaemon client now k) (map fst (dc_daemons (fst st))) st"

definition coordinator_start :: "ms \<Rightarrow> ms \<Rightarrow> DaemonCoordinator \<Rightarrow> DaemonCoordinator" where
  "coordinator_start now done c = (if dc_running c then c else
     c\<lparr> dc_running := True, dc_daemons := map (\<lambda>(k, d). (k, daemon_start now done d)) (dc_daemons c) \<rparr>)"

definition coordinator_stop :: "'s lease_client option \<Rightarrow> ms \<Rightarrow> DaemonCoordinator \<times> 's \<Rightarrow> DaemonCoordinator \<times> 's" where
  "coordinator_stop client now st = (if dc_running (fst st)
     then (case coordinator_shutdown client now st of (c, s) \<Rightarrow> (c\<lparr> dc_running := False \<rparr>, s)) else st)"

text \<open>\<open>initializeDaemonModule\<close>: the health and metrics daemons start, the recovery daemon starts if the node leads
  when it registers.\<close>

definition initializeDaemonModule ::
  "'s lease_client option \<Rightarrow> ms \<Rightarrow> string \<Rightarrow> BaseDaemon \<Rightarrow> BaseDaemon \<Rightarrow> BaseDaemon \<Rightarrow> 's \<Rightarrow> DaemonCoordinator \<times> 's" where
  "initializeDaemonModule client now i health metrics recovery s =
     (case registerDaemon client now ''RECOVERY'' recovery
         (registerDaemon client now ''METRICS'' metrics (registerDaemon client now ''HEALTH'' health (DaemonCoordinator_new i, s))) of
       (c, s') \<Rightarrow>
         let d1 = mset_at ''METRICS'' (daemon_start now now metrics) (mset_at ''HEALTH'' (daemon_start now now health) (dc_daemons c)) in
         (c\<lparr> dc_daemons := if getRole c ''RECOVERY'' = PRIMARY then mset_at ''RECOVERY'' (daemon_start now now recovery) d1 else d1 \<rparr>, s'))"

subsection \<open>At most one leader\<close>

text \<open>Several nodes with one store. \<open>cl_since\<close> remembers when a node last took part.\<close>

record 's cluster =
  cl_node :: "string \<Rightarrow> LeaderElection"
  cl_since :: "string \<Rightarrow> ms"
  cl_store :: 's

datatype election_event = Participate ms string | Refresh ms string | Resign ms string

fun event_time :: "election_event \<Rightarrow> ms" where
  "event_time (Participate t i) = t" | "event_time (Refresh t i) = t" | "event_time (Resign t i) = t"

definition cluster_set :: "ms \<Rightarrow> string \<Rightarrow> LeaderElection \<times> 's \<Rightarrow> 's cluster \<Rightarrow> 's cluster" where
  "cluster_set t i st c = \<lparr> cl_node = (cl_node c)(i := fst st), cl_since = (cl_since c)(i := t), cl_store = snd st \<rparr>"

fun election_step :: "'s lease_client option \<Rightarrow> election_event \<Rightarrow> 's cluster \<Rightarrow> 's cluster" where
  "election_step client (Participate t i) c = cluster_set t i (participate client t (cl_node c i, cl_store c)) c"
| "election_step client (Refresh t i) c = (if el_refreshTimer (cl_node c i)
     then cluster_set t i (refresh_tick client t (cl_node c i, cl_store c)) c else c)"
| "election_step client (Resign t i) c = cluster_set t i (resign client t (cl_node c i, cl_store c)) c"

definition fresh_cluster :: "'s \<Rightarrow> 's cluster" where
  "fresh_cluster s = \<lparr> cl_node = LeaderElection_new, cl_since = (\<lambda>_. 0), cl_store = s \<rparr>"

text \<open>A node leads at a time: it believes so, and its lease has not run out.\<close>

definition leads :: "'s cluster \<Rightarrow> ms \<Rightarrow> string \<Rightarrow> bool" where
  "leads c t i \<longleftrightarrow> el_isLeader (cl_node c i) \<and> t < cl_since c i + lease_ttl"

definition lease_inv :: "(string, 's) redis \<Rightarrow> ms \<Rightarrow> 's cluster \<Rightarrow> bool" where
  "lease_inv rd now c \<longleftrightarrow> (\<forall>i. el_daemonId (cl_node c i) = i) \<and>
     (\<forall>i t. now \<le> t \<longrightarrow> leads c t i \<longrightarrow> rd_get rd t leader_key (cl_store c) = Some i)"

lemma participate_library:
  "participate (Some (library_lease rd del)) t (e, s) =
     (case rd_get rd t leader_key s of
        None \<Rightarrow> (e\<lparr> el_isLeader := True, el_refreshTimer := True \<rparr>, rd_set rd t leader_key (el_daemonId e) (Some lease_ttl) s)
      | Some h \<Rightarrow> if h = el_daemonId e
          then (e\<lparr> el_isLeader := True, el_refreshTimer := True \<rparr>, rd_set rd t leader_key (el_daemonId e) (Some lease_ttl) s)
          else (e\<lparr> el_isLeader := False, el_refreshTimer := False \<rparr>, s))"
  by (auto simp: participate_def try_lease_def library_lease_def split: option.splits)

lemma resign_library:
  "resign (Some (library_lease rd del)) t (e, s) =
     (if \<not> el_isLeader e then (e\<lparr> el_refreshTimer := False \<rparr>, s)
      else (e\<lparr> el_refreshTimer := False, el_isLeader := False \<rparr>,
        if rd_get rd t leader_key s = Some (el_daemonId e) then del leader_key s else s))"
  by (auto simp: resign_def library_lease_def split: option.splits)

lemma lease_inv_holder: "lease_inv rd now c \<Longrightarrow> now \<le> t \<Longrightarrow> leads c t i \<Longrightarrow> rd_get rd t leader_key (cl_store c) = Some i"
  by (simp add: lease_inv_def)

lemma lease_inv_participate:
  assumes "redis_laws rd" "lease_inv rd now c" "now \<le> t"
  shows "lease_inv rd t (cluster_set t i (participate (Some (library_lease rd del)) t (cl_node c i, cl_store c)) c)"
    (is "lease_inv rd t ?c")
proof -
  have ids: "\<forall>j. el_daemonId (cl_node c j) = j" using assms(2) by (simp add: lease_inv_def)
  let ?held = "rd_get rd t leader_key (cl_store c)"
  have get: "rd_get rd n leader_key (rd_set rd t leader_key i (Some lease_ttl) (cl_store c)) = (if n < t + lease_ttl then Some i else None)"
    if "t \<le> n" for n
    using redis_get_set [OF assms(1) that, of lease_ttl] by (simp add: lease_ttl_def)
  have other: "?held = Some j" if "t \<le> n" "leads c n j" for n j
  proof (rule lease_inv_holder [OF assms(2,3)])
    show "leads c t j" using that by (auto simp: leads_def)
  qed
  show ?thesis
  proof (cases "?held = None \<or> ?held = Some i")
    case True
    then have c: "?c = cluster_set t i ((cl_node c i)\<lparr> el_isLeader := True, el_refreshTimer := True \<rparr>,
        rd_set rd t leader_key i (Some lease_ttl) (cl_store c)) c"
      using ids by (auto simp: participate_library)
    have "rd_get rd n leader_key (cl_store ?c) = Some j" if "t \<le> n" "leads ?c n j" for n j
    proof (cases "j = i")
      case True
      then show ?thesis using that get [of n] unfolding c by (simp add: cluster_set_def leads_def)
    next
      case False
      then have "leads c n j" using that unfolding c by (simp add: cluster_set_def leads_def)
      from other [OF that(1) this] show ?thesis using True False by auto
    qed
    moreover have "el_daemonId (cl_node ?c j) = j" for j using ids unfolding c by (simp add: cluster_set_def)
    ultimately show ?thesis unfolding lease_inv_def by blast
  next
    case False
    then have c: "?c = cluster_set t i ((cl_node c i)\<lparr> el_isLeader := False, el_refreshTimer := False \<rparr>, cl_store c) c"
      using ids by (auto simp: participate_library)
    have "leads c n j" if "leads ?c n j" for n j
      using that unfolding c by (auto simp: cluster_set_def leads_def split: if_splits)
    moreover have "el_daemonId (cl_node ?c j) = j" for j using ids unfolding c by (simp add: cluster_set_def)
    moreover have "cl_store ?c = cl_store c" unfolding c by (simp add: cluster_set_def)
    ultimately show ?thesis using assms(2,3) unfolding lease_inv_def by (metis order_trans)
  qed
qed

lemma lease_inv_resign:
  assumes "delete_laws rd del" "lease_inv rd now c" "now \<le> t"
  shows "lease_inv rd t (cluster_set t i (resign (Some (library_lease rd del)) t (cl_node c i, cl_store c)) c)"
    (is "lease_inv rd t ?c")
proof -
  have ids: "\<forall>j. el_daemonId (cl_node c j) = j" using assms(2) by (simp add: lease_inv_def)
  have same: "el_daemonId (cl_node ?c j) = j" for j using ids by (simp add: cluster_set_def resign_library)
  have before: "leads c n j \<and> j \<noteq> i" if "leads ?c n j" for n j
    using that by (auto simp: cluster_set_def resign_library leads_def split: if_splits)
  have "rd_get rd n leader_key (cl_store ?c) = Some j" if "t \<le> n" "leads ?c n j" for n j
  proof -
    have "leads c t j" "j \<noteq> i" using before [OF that(2)] that(1) by (auto simp: leads_def)
    then have "rd_get rd t leader_key (cl_store c) = Some j" using lease_inv_holder [OF assms(2,3)] by blast
    then have "cl_store ?c = cl_store c" using ids \<open>j \<noteq> i\<close> by (simp add: cluster_set_def resign_library)
    then show ?thesis using lease_inv_holder [OF assms(2)] before [OF that(2)] that(1) assms(3) by (metis order_trans)
  qed
  then show ?thesis using same unfolding lease_inv_def by blast
qed

lemma lease_inv_mono: "lease_inv rd now c \<Longrightarrow> now \<le> t \<Longrightarrow> lease_inv rd t c"
  unfolding lease_inv_def by (metis order_trans)

lemma lease_inv_step:
  assumes "redis_laws rd" "delete_laws rd del" "lease_inv rd now c" "now \<le> event_time ev"
  shows "lease_inv rd (event_time ev) (election_step (Some (library_lease rd del)) ev c)"
proof (cases ev)
  case (Participate t i)
  then show ?thesis using lease_inv_participate [OF assms(1,3)] assms(4) by simp
next
  case (Refresh t i)
  then show ?thesis using lease_inv_participate [OF assms(1,3)] lease_inv_mono [OF assms(3)] assms(4)
    by (simp add: refresh_tick_def)
next
  case (Resign t i)
  then show ?thesis using lease_inv_resign [OF assms(2,3)] assms(4) by simp
qed

lemma lease_inv_run:
  assumes "redis_laws rd" "delete_laws rd del"
  shows "lease_inv rd now c \<Longrightarrow> sorted (now # map event_time evs @ [t]) \<Longrightarrow>
    lease_inv rd t (fold (election_step (Some (library_lease rd del))) evs c)"
proof (induction evs arbitrary: now c)
  case Nil
  then show ?case by (simp add: lease_inv_mono)
next
  case (Cons ev evs)
  then have "now \<le> event_time ev" by simp
  from lease_inv_step [OF assms Cons.prems(1) this] show ?case using Cons by simp
qed



text \<open>Through \<open>RedisOperations\<close>, which the program passes, every node that takes part leads, whoever holds
  the lease, and goes on leading whatever the others do until it resigns.\<close>
theorem everyone_leads:
  assumes "redis_laws rd" "\<forall>ev \<in> set evs. ev \<noteq> Resign (event_time ev) i"
    and "client = Some (operations_lease rd del)"
    and "c' = fold (election_step client) evs (election_step client (Participate t i) c)"
  shows "el_isLeader (cl_node c' i) \<and>
    (el_daemonId (cl_node c j) = j \<longrightarrow> rd_get rd t leader_key (cl_store (election_step client (Participate t j) c)) = Some j)"
proof
  have lead: "el_isLeader (fst (participate client n (e, s)))" for n e s
    using assms(1) by (simp add: assms(3) participate_def try_lease_def operations_lease_def RedisOperations_set_def redis_laws_def)
  have keep: "el_isLeader (cl_node x i) \<Longrightarrow> \<forall>ev \<in> set evs. ev \<noteq> Resign (event_time ev) i \<Longrightarrow>
      el_isLeader (cl_node (fold (election_step client) evs x) i)" for x evs
  proof (induction evs arbitrary: x)
    case (Cons ev evs)
    have "el_isLeader (cl_node (election_step client ev x) i)"
      using Cons.prems lead by (cases ev) (auto simp: cluster_set_def refresh_tick_def)
    then show ?case using Cons by simp
  qed simp
  have "el_isLeader (cl_node (election_step client (Participate t i) c) i)" using lead by (simp add: cluster_set_def)
  then show "el_isLeader (cl_node c' i)" using keep assms(2) by (simp add: assms(4))
  show "el_daemonId (cl_node c j) = j \<longrightarrow> rd_get rd t leader_key (cl_store (election_step client (Participate t j) c)) = Some j"
    using assms(1) by (simp add: assms(3) cluster_set_def participate_def try_lease_def operations_lease_def RedisOperations_set_def redis_laws_def)
qed

theorem everyone_leads_witness:
  "\<exists>c. c = fold (election_step (Some (operations_lease list_redis mdel))) [Participate 1 ''b''] 
       (election_step (Some (operations_lease list_redis mdel)) (Participate 0 ''a'') (fresh_cluster [])) \<and> el_isLeader (cl_node c ''a'')"
proof -
  have "el_isLeader (cl_node (fold (election_step (Some (operations_lease list_redis mdel))) [Participate 1 ''b'']
       (election_step (Some (operations_lease list_redis mdel)) (Participate 0 ''a'') (fresh_cluster []))) ''a'')"
    by (rule everyone_leads [OF list_redis_laws _ refl refl, THEN conjunct1]) simp
  then show ?thesis by blast
qed

text \<open>A node that did not get the lease when it registered has no timer, and nothing else makes it take part
  again.\<close>

fun coordinator_ticks :: "'s lease_client option \<Rightarrow> (ms \<times> ('s \<Rightarrow> 's)) list \<Rightarrow> LeaderElection \<times> 's \<Rightarrow> LeaderElection \<times> 's" where
  "coordinator_ticks client [] st = st"
| "coordinator_ticks client ((t, others) # ts) st =
     coordinator_ticks client ts (refresh_tick client t (fst st, others (snd st)))"

text \<open>The lead is never taken over: a node whose module finds the lease held by another starts without the
  recovery daemon, as secondary, and stays so at every tick of its timers whatever happens to the store,
  also long after the lease has expired.\<close>
theorem lead_is_never_taken_over:
  assumes "rd_get rd now leader_key s = Some h" "h \<noteq> i" "client = Some (library_lease rd del)"
    and "initializeDaemonModule client now i health metrics recovery s = (c, s')" "\<not> bd_running recovery"
    and "mget (dc_elections c) ''RECOVERY'' = Some e"
  shows "map_option bd_running (mget (dc_daemons c) ''RECOVERY'') = Some False \<and> getRole c ''RECOVERY'' = SECONDARY \<and> s' = s \<and>
    \<not> el_isLeader (fst (coordinator_ticks client ts (e, s')))"
proof -
  have up: "upper ''RECOVERY'' = ''RECOVERY''" "upper ''HEALTH'' = ''HEALTH''" "upper ''METRICS'' = ''METRICS''" by code_simp+
  have single: "isDaemonSingleton ''RECOVERY''" "\<not> isDaemonSingleton ''HEALTH''" "\<not> isDaemonSingleton ''METRICS''"
    by (simp_all add: isDaemonSingleton_def up del: upper_simps)
  let ?e = "LeaderElection_new i"
  have "participate client now (?e, s) = (?e, s)"
    using assms(1,2) by (simp add: assms(3) participate_library LeaderElection_new_def)
  then have c: "s' = s" "dc_elections c = [(''RECOVERY'', ?e)]" "getRole c ''RECOVERY'' = SECONDARY"
    "mget (dc_daemons c) ''RECOVERY'' = Some recovery"
    using assms(4) by (auto simp: initializeDaemonModule_def registerDaemon_def DaemonCoordinator_new_def single up Let_def getRole_def
        mset_at_def mget_def LeaderElection_new_def simp del: upper_simps split: if_splits)
  then have e: "e = ?e" using assms(6) by (simp add: mget_def)
  have "fst (coordinator_ticks client ts (?e, x)) = ?e" for x
    by (induction ts arbitrary: x) (auto simp: refresh_tick_def LeaderElection_new_def)
  then show ?thesis using c assms(5) by (simp add: e LeaderElection_new_def)
qed

theorem lead_is_never_taken_over_witness:
  "\<exists>c s'. initializeDaemonModule (Some (library_lease list_redis mdel)) 5 ''b'' (BaseDaemon_new ''h'' 1000) (BaseDaemon_new ''m'' 1000)
       (BaseDaemon_new ''r'' 1000) [(leader_key, (''a'', Some 30000))] = (c, s') \<and> getRole c ''RECOVERY'' = SECONDARY"
proof -
  let ?r = "initializeDaemonModule (Some (library_lease list_redis mdel)) 5 ''b'' (BaseDaemon_new ''h'' 1000) (BaseDaemon_new ''m'' 1000)
       (BaseDaemon_new ''r'' 1000) [(leader_key, (''a'', Some 30000))]"
  obtain c s' where r: "?r = (c, s')" by (cases ?r)
  have up: "upper ''RECOVERY'' = ''RECOVERY''" "upper ''HEALTH'' = ''HEALTH''" "upper ''METRICS'' = ''METRICS''" by code_simp+
  have held: "rd_get list_redis 5 leader_key [(leader_key, (''a'', Some 30000))] = Some ''a''"
    by (simp add: list_redis_def mget_def)
  have "mget (dc_elections (fst ?r)) ''RECOVERY'' = Some (LeaderElection_new ''b'')"
    by (simp add: initializeDaemonModule_def registerDaemon_def DaemonCoordinator_new_def isDaemonSingleton_def up Let_def
        participate_library LeaderElection_new_def list_redis_def mget_def mset_at_def del: upper_simps)
  then have e: "mget (dc_elections c) ''RECOVERY'' = Some (LeaderElection_new ''b'')" by (simp only: r fst_conv)
  have "getRole c ''RECOVERY'' = SECONDARY"
    by (rule lead_is_never_taken_over [OF held _ refl r _ e, THEN conjunct2, THEN conjunct1]) (simp_all add: BaseDaemon_new_def)
  then show ?thesis using r by blast
qed

subsection \<open>Taking part is not atomic\<close>

text \<open>The commands of \<open>participate\<close> one by one, each at its time: the lease, the question for the holder, the
  renewal. \<open>mi_pc\<close> is what a node waits to do next.\<close>

datatype next_command = NothingNext | AskHolder | Renew

record 's micro =
  mi_pc :: "string \<Rightarrow> next_command"
  mi_leader :: "string \<Rightarrow> bool"
  mi_store :: 's

datatype command = SetNX ms string | AskGet ms string | PExpire ms string

fun command_step :: "(string, 's) redis \<Rightarrow> command \<Rightarrow> 's micro \<Rightarrow> 's micro" where
  "command_step rd (SetNX t i) m = (if rd_get rd t leader_key (mi_store m) = None
     then m\<lparr> mi_store := rd_set rd t leader_key i (Some lease_ttl) (mi_store m), mi_leader := (mi_leader m)(i := True),
       mi_pc := (mi_pc m)(i := NothingNext) \<rparr>
     else m\<lparr> mi_pc := (mi_pc m)(i := AskHolder) \<rparr>)"
| "command_step rd (AskGet t i) m = (if mi_pc m i \<noteq> AskHolder then m
     else if rd_get rd t leader_key (mi_store m) = Some i then m\<lparr> mi_pc := (mi_pc m)(i := Renew) \<rparr>
     else m\<lparr> mi_leader := (mi_leader m)(i := False), mi_pc := (mi_pc m)(i := NothingNext) \<rparr>)"
| "command_step rd (PExpire t i) m = (if mi_pc m i \<noteq> Renew then m
     else m\<lparr> mi_store := (case rd_get rd t leader_key (mi_store m) of Some v \<Rightarrow> rd_set rd t leader_key v (Some lease_ttl) (mi_store m)
         | None \<Rightarrow> mi_store m),
       mi_leader := (mi_leader m)(i := True), mi_pc := (mi_pc m)(i := NothingNext) \<rparr>)"

text \<open>Without interruption the three commands do what \<open>participate\<close> does.\<close>

lemma commands_refine_participate:
  assumes "el_daemonId e = i" "mi_pc m i = NothingNext"
  shows "(let m' = fold (command_step rd) [SetNX t i, AskGet t i, PExpire t i] m;
      r = participate (Some (library_lease rd del)) t (e, mi_store m) in
    mi_leader m' i = el_isLeader (fst r) \<and> mi_store m' = snd r \<and> mi_pc m' i = NothingNext \<and> (\<forall>j. j \<noteq> i \<longrightarrow> mi_leader m' j = mi_leader m j))"
  using assms by (auto simp: participate_library Let_def split: option.splits)

text \<open>Two nodes lead at once when the lease runs out while its holder renews it: the holder asks in time, the
  other node takes the lease, and the renewal then extends the lease of the other while the first counts
  itself as the leader.\<close>
theorem interrupted_renewal_splits_the_lead:
  assumes "redis_laws rd" "a \<noteq> b" "rd_get rd t0 leader_key s = None"
    and "t0 \<le> t1" "t1 \<le> t2" "t2 < t0 + lease_ttl" "t0 + lease_ttl \<le> t3" "t3 \<le> t4" "t4 < t3 + lease_ttl"
    and "m = fold (command_step rd) [SetNX t0 a, SetNX t1 a, AskGet t2 a, SetNX t3 b, PExpire t4 a]
        \<lparr> mi_pc = (\<lambda>_. NothingNext), mi_leader = (\<lambda>_. False), mi_store = s \<rparr>"
  shows "mi_leader m a \<and> mi_leader m b \<and>
    (\<forall>t. t4 \<le> t \<longrightarrow> t < t4 + lease_ttl \<longrightarrow> rd_get rd t leader_key (mi_store m) = Some b)"
proof -
  have get: "rd_get rd t leader_key (rd_set rd n leader_key x (Some lease_ttl) st) = (if t < n + lease_ttl then Some x else None)"
    if "n \<le> t" for t n x st
    using redis_get_set [OF assms(1) that, of lease_ttl] by (simp add: lease_ttl_def)
  have ttl: "lease_ttl > 0" by (simp add: lease_ttl_def)
  have g: "rd_get rd t1 leader_key (rd_set rd t0 leader_key a (Some lease_ttl) s) = Some a"
    "rd_get rd t2 leader_key (rd_set rd t0 leader_key a (Some lease_ttl) s) = Some a"
    "rd_get rd t3 leader_key (rd_set rd t0 leader_key a (Some lease_ttl) s) = None"
    "rd_get rd t4 leader_key (rd_set rd t3 leader_key b (Some lease_ttl) st) = Some b" for st
    using assms(4-9) ttl by (simp_all add: get)
  have "m = \<lparr> mi_pc = (\<lambda>_. NothingNext)(a := NothingNext, a := AskHolder, a := Renew, b := NothingNext, a := NothingNext),
      mi_leader = (\<lambda>_. False)(a := True, b := True, a := True),
      mi_store = rd_set rd t4 leader_key b (Some lease_ttl) (rd_set rd t3 leader_key b (Some lease_ttl) (rd_set rd t0 leader_key a (Some lease_ttl) s)) \<rparr>"
    using assms(2,3) g by (simp add: assms(10))
  then show ?thesis by (simp add: get)
qed

theorem interrupted_renewal_splits_the_lead_witness:
  "\<exists>m. m = fold (command_step list_redis) [SetNX 0 ''a'', SetNX 29990 ''a'', AskGet 29999 ''a'', SetNX 30000 ''b'', PExpire 30001 ''a'']
        \<lparr> mi_pc = (\<lambda>_. NothingNext), mi_leader = (\<lambda>_. False), mi_store = [] \<rparr> \<and> mi_leader m ''a'' \<and> mi_leader m ''b''"
proof (intro exI conjI)
  let ?m = "fold (command_step list_redis) [SetNX 0 ''a'', SetNX 29990 ''a'', AskGet 29999 ''a'', SetNX 30000 ''b'', PExpire 30001 ''a'']
        \<lparr> mi_pc = (\<lambda>_. NothingNext), mi_leader = (\<lambda>_. False), mi_store = [] \<rparr>"
  show "?m = ?m" ..
  have "mi_leader ?m ''a'' \<and> mi_leader ?m ''b'' \<and>
      (\<forall>t. 30001 \<le> t \<longrightarrow> t < 30001 + lease_ttl \<longrightarrow> rd_get list_redis t leader_key (mi_store ?m) = Some ''b'')"
    by (rule interrupted_renewal_splits_the_lead [OF list_redis_laws _ _ _ _ _ _ _ _ refl]) (simp_all add: lease_ttl_def list_redis_def)
  then show "mi_leader ?m ''a''" "mi_leader ?m ''b''" by blast+
qed

end
