(* ===== verification/QF_Queue.thy ===== *)
theory QF_Queue
  imports QF_Util
begin

text \<open>
  The queue wrappers (\<open>infrastructure/queue\<close>): the job serializer and the queue manager over its three
  queues. A queue of the library (BullMQ) is a parameter: the operations the code calls are the fields of
  \<open>bull\<close>, what they promise is \<open>bull_laws\<close>, and \<open>list_bull\<close> is a queue that has them. \<open>date_parse\<close> is
  the reading of a text by \<open>new Date\<close>.
\<close>

subsection \<open>Job data\<close>

datatype jval = VNull | VBool bool | VNum int | VStr string | VDate ms | VBadDate | VArr "jval list" | VObj "(string \<times> jval) list"

datatype queue_error = EmptyRecord | NotAnObject | NoDeliveryId | NoPayload | InvalidDate | JobNotFound string | QueueFailure

primrec convert_dates :: "jval \<Rightarrow> jval" where
  "convert_dates VNull = VNull"
| "convert_dates (VBool b) = VBool b"
| "convert_dates (VNum n) = VNum n"
| "convert_dates (VStr s) = VStr s"
| "convert_dates (VDate t) = VStr (toISOString t)"
| "convert_dates VBadDate = VBadDate"
| "convert_dates (VArr xs) = VArr (map convert_dates xs)"
| "convert_dates (VObj ps) = VObj (map (map_prod id convert_dates) ps)"

primrec dates_valid :: "jval \<Rightarrow> bool" where
  "dates_valid VNull = True"
| "dates_valid (VBool b) = True"
| "dates_valid (VNum n) = True"
| "dates_valid (VStr s) = True"
| "dates_valid (VDate t) = True"
| "dates_valid VBadDate = False"
| "dates_valid (VArr xs) = list_all (\<lambda>b. b) (map dates_valid xs)"
| "dates_valid (VObj ps) = list_all snd (map (map_prod id dates_valid) ps)"

text \<open>\<open>toISOString\<close> of an invalid date throws.\<close>

definition job_serialize :: "jval \<Rightarrow> queue_error + jval" where
  "job_serialize v = (if dates_valid v then Inr (convert_dates v) else Inl InvalidDate)"

text \<open>\<open>/^\d{4}-\d{2}-\d{2}T\d{2}:\d{2}:\d{2}\.\d{3}Z$/\<close>\<close>

definition isoDateRegex :: "string \<Rightarrow> bool" where
  "isoDateRegex s \<longleftrightarrow> length s = 24 \<and> list_all (\<lambda>i. digit_char (s ! i)) [0, 1, 2, 3, 5, 6, 8, 9, 11, 12, 14, 15, 17, 18, 20, 21, 22] \<and>
     map ((!) s) [4, 7, 10, 13, 16, 19, 23] = ''--T::.Z''"

primrec parse_dates :: "(string \<Rightarrow> ms option) \<Rightarrow> jval \<Rightarrow> jval" where
  "parse_dates p VNull = VNull"
| "parse_dates p (VBool b) = VBool b"
| "parse_dates p (VNum n) = VNum n"
| "parse_dates p (VStr s) = (if isoDateRegex s then (case p s of Some t \<Rightarrow> VDate t | None \<Rightarrow> VBadDate) else VStr s)"
| "parse_dates p (VDate t) = VObj []"
| "parse_dates p VBadDate = VObj []"
| "parse_dates p (VArr xs) = VArr (map (parse_dates p) xs)"
| "parse_dates p (VObj ps) = VObj (map (map_prod id (parse_dates p)) ps)"

definition job_deserialize :: "(string \<Rightarrow> ms option) \<Rightarrow> jval option \<Rightarrow> queue_error + jval" where
  "job_deserialize p v = (case v of None \<Rightarrow> Inl EmptyRecord
     | Some x \<Rightarrow> if x \<in> {VNull, VBool False, VNum 0, VStr []} then Inl EmptyRecord else Inr (parse_dates p x))"

definition object_get :: "jval \<Rightarrow> string \<Rightarrow> jval option" where
  "object_get v k = (case v of VObj ps \<Rightarrow> mget ps k | _ \<Rightarrow> None)"

definition is_object :: "jval \<Rightarrow> bool" where
  "is_object v \<longleftrightarrow> (case v of VObj _ \<Rightarrow> True | VArr _ \<Rightarrow> True | VDate _ \<Rightarrow> True | VBadDate \<Rightarrow> True | _ \<Rightarrow> False)"

definition validateJobData :: "jval \<Rightarrow> queue_error + unit" where
  "validateJobData v =
     bindE (guardE (is_object v) NotAnObject) (\<lambda>_.
     bindE (case object_get v ''deliveryId'' of Some (VStr s) \<Rightarrow> guardE (trim s \<noteq> []) NoDeliveryId | _ \<Rightarrow> Inl NoDeliveryId) (\<lambda>_.
     guardE (object_get v ''payload'' \<noteq> None) NoPayload))"

text \<open>A value survives the queue if no text of it looks like a date and its dates have the common ISO text,
  which \<open>new Date\<close> reads back.\<close>

primrec queue_safe :: "(string \<Rightarrow> ms option) \<Rightarrow> jval \<Rightarrow> bool" where
  "queue_safe p VNull = True"
| "queue_safe p (VBool b) = True"
| "queue_safe p (VNum n) = True"
| "queue_safe p (VStr s) = (\<not> isoDateRegex s)"
| "queue_safe p (VDate t) = (isoDateRegex (toISOString t) \<and> p (toISOString t) = Some t)"
| "queue_safe p VBadDate = False"
| "queue_safe p (VArr xs) = list_all (\<lambda>b. b) (map (queue_safe p) xs)"
| "queue_safe p (VObj ps) = list_all snd (map (map_prod id (queue_safe p)) ps)"

lemma queue_safe_roundtrip: "queue_safe p v \<Longrightarrow> dates_valid v \<and> parse_dates p (convert_dates v) = v"
proof (induction v)
  case (VArr xs)
  then show ?case by (auto simp: list_all_iff intro: map_idI)
next
  case (VObj ps)
  have "dates_valid (snd q) \<and> parse_dates p (convert_dates (snd q)) = snd q" if "q \<in> set ps" for q
    using VObj that by (cases q) (force simp: list_all_iff)
  then show ?case by (auto simp: list_all_iff prod_eq_iff intro!: map_idI)
qed auto

lemma convert_dates_object: "is_object v \<Longrightarrow> v \<noteq> VBadDate \<Longrightarrow> (\<And>t. v \<noteq> VDate t) \<Longrightarrow> is_object (convert_dates v)"
  by (cases v) (auto simp: is_object_def)

text \<open>C24: Job data that is serialized and read back is the same, at any depth, if no text in it looks like a date
  and its dates are in the common form; a text that does look like a date comes back as a date.\<close>
theorem job_roundtrip:
  "(queue_safe p (VObj ps) \<longrightarrow> (\<exists>v. job_serialize (VObj ps) = Inr v \<and> job_deserialize p (Some v) = Inr (VObj ps))) \<and>
   (isoDateRegex s \<longrightarrow> p s = Some t \<longrightarrow>
     (\<exists>v. job_serialize (VObj [(k, VStr s)]) = Inr v \<and> job_deserialize p (Some v) = Inr (VObj [(k, VDate t)])))"
proof (intro conjI impI)
  assume "queue_safe p (VObj ps)"
  from queue_safe_roundtrip [OF this]
  have "job_serialize (VObj ps) = Inr (convert_dates (VObj ps))" "job_deserialize p (Some (convert_dates (VObj ps))) = Inr (VObj ps)"
    by (simp_all only: job_serialize_def if_True) (simp add: job_deserialize_def)
  then show "\<exists>v. job_serialize (VObj ps) = Inr v \<and> job_deserialize p (Some v) = Inr (VObj ps)" by blast
next
  assume "isoDateRegex s" "p s = Some t"
  then show "\<exists>v. job_serialize (VObj [(k, VStr s)]) = Inr v \<and> job_deserialize p (Some v) = Inr (VObj [(k, VDate t)])"
    by (simp add: job_serialize_def job_deserialize_def)
qed

theorem job_roundtrip_witness:
  "\<exists>v. job_serialize (VObj [(''deliveryId'', VStr ''d''), (''payload'', VArr [VNum 1, VNull])]) = Inr v \<and>
     job_deserialize (\<lambda>_. None) (Some v) = Inr (VObj [(''deliveryId'', VStr ''d''), (''payload'', VArr [VNum 1, VNull])])"
  by (rule job_roundtrip [THEN conjunct1, THEN mp]) (simp add: isoDateRegex_def)

subsection \<open>Queues of the library\<close>

record queued_job =
  qj_id :: string
  qj_name :: string
  qj_data :: jval
  qj_delay :: int

text \<open>\<open>add\<close> with a name, data, the job id asked for, and a delay; \<open>remove\<close> is None when the job is locked.\<close>

record 'q bull =
  bq_jobs :: "'q \<Rightarrow> queued_job list"
  bq_add :: "string \<Rightarrow> jval \<Rightarrow> string option \<Rightarrow> int \<Rightarrow> 'q \<Rightarrow> 'q"
  bq_remove :: "string \<Rightarrow> 'q \<Rightarrow> 'q option"

text \<open>A job whose id exists already is ignored; without an id it gets a new one, which is a number.\<close>

definition bull_laws :: "'q bull \<Rightarrow> bool" where
  "bull_laws bq \<longleftrightarrow>
     (\<forall>name data i delay q. if \<exists>j \<in> set (bq_jobs bq q). qj_id j = i then bq_jobs bq (bq_add bq name data (Some i) delay q) = bq_jobs bq q
        else bq_jobs bq (bq_add bq name data (Some i) delay q) =
          bq_jobs bq q @ [\<lparr> qj_id = i, qj_name = name, qj_data = data, qj_delay = delay \<rparr>]) \<and>
     (\<forall>name data delay q. \<exists>i. i \<noteq> [] \<and> list_all digit_char i \<and> (\<forall>j \<in> set (bq_jobs bq q). qj_id j \<noteq> i) \<and>
        bq_jobs bq (bq_add bq name data None delay q) =
          bq_jobs bq q @ [\<lparr> qj_id = i, qj_name = name, qj_data = data, qj_delay = delay \<rparr>]) \<and>
     (\<forall>i q q'. bq_remove bq i q = Some q' \<longrightarrow> bq_jobs bq q' = filter (\<lambda>j. qj_id j \<noteq> i) (bq_jobs bq q))"

lemma bull_add_new:
  assumes "bull_laws bq" "\<forall>j \<in> set (bq_jobs bq q). qj_id j \<noteq> i"
  shows "bq_jobs bq (bq_add bq name data (Some i) delay q) =
    bq_jobs bq q @ [\<lparr> qj_id = i, qj_name = name, qj_data = data, qj_delay = delay \<rparr>]"
  using assms unfolding bull_laws_def by metis

lemma bull_add_auto:
  assumes "bull_laws bq"
  obtains i where "i \<noteq> []" "list_all digit_char i" "\<forall>j \<in> set (bq_jobs bq q). qj_id j \<noteq> i"
    "bq_jobs bq (bq_add bq name data None delay q) = bq_jobs bq q @ [\<lparr> qj_id = i, qj_name = name, qj_data = data, qj_delay = delay \<rparr>]"
  using assms unfolding bull_laws_def by blast

lemma bull_remove:
  "bull_laws bq \<Longrightarrow> bq_remove bq i q = Some q' \<Longrightarrow> bq_jobs bq q' = filter (\<lambda>j. qj_id j \<noteq> i) (bq_jobs bq q)"
  by (simp add: bull_laws_def)

text \<open>A list of jobs with the next number.\<close>

definition next_free :: "nat \<Rightarrow> queued_job list \<Rightarrow> nat" where
  "next_free n js = Suc (Max (insert n (read_digits ` qj_id ` set js)))"

definition list_bull :: "queued_job list bull" where
  "list_bull = \<lparr> bq_jobs = (\<lambda>js. js),
     bq_add = (\<lambda>name data i delay js. let new = (\<lambda>i. js @ [\<lparr> qj_id = i, qj_name = name, qj_data = data, qj_delay = delay \<rparr>]) in
       (case i of Some i \<Rightarrow> if \<exists>j \<in> set js. qj_id j = i then js else new i
        | None \<Rightarrow> new (show_nat (next_free 0 js)))),
     bq_remove = (\<lambda>i js. Some (filter (\<lambda>j. qj_id j \<noteq> i) js)) \<rparr>"

lemma list_bull_laws: "bull_laws list_bull"
proof -
  have "qj_id j \<noteq> show_nat (next_free 0 js)" if "j \<in> set js" for j js
  proof
    assume eq: "qj_id j = show_nat (next_free 0 js)"
    have "read_digits (qj_id j) \<le> Max (insert 0 (read_digits ` qj_id ` set js))" using that by (intro Max_ge) auto
    then show False by (simp add: eq next_free_def)
  qed
  then show ?thesis using show_nat_digits by (auto simp: bull_laws_def list_bull_def Let_def)
qed

subsection \<open>Queue manager\<close>

record 'q QueueManager =
  qm_mainQueue :: 'q
  qm_delayedQueue :: 'q
  qm_dlqQueue :: 'q

datatype queue_name = MainQ | DelayedQ | DlqQ

definition queue_of :: "queue_name \<Rightarrow> 'q QueueManager \<Rightarrow> 'q" where
  "queue_of n m = (case n of MainQ \<Rightarrow> qm_mainQueue m | DelayedQ \<Rightarrow> qm_delayedQueue m | DlqQ \<Rightarrow> qm_dlqQueue m)"

definition set_queue :: "queue_name \<Rightarrow> 'q \<Rightarrow> 'q QueueManager \<Rightarrow> 'q QueueManager" where
  "set_queue n q m = (case n of MainQ \<Rightarrow> m\<lparr> qm_mainQueue := q \<rparr> | DelayedQ \<Rightarrow> m\<lparr> qm_delayedQueue := q \<rparr> | DlqQ \<Rightarrow> m\<lparr> qm_dlqQueue := q \<rparr>)"

text \<open>The first queue that has the job, of the three in order.\<close>

definition findJob :: "'q bull \<Rightarrow> string \<Rightarrow> 'q QueueManager \<Rightarrow> (queued_job \<times> queue_name) option" where
  "findJob bq i m = (case find (\<lambda>n. \<exists>j \<in> set (bq_jobs bq (queue_of n m)). qj_id j = i) [MainQ, DelayedQ, DlqQ] of None \<Rightarrow> None
     | Some n \<Rightarrow> map_option (\<lambda>j. (j, n)) (find (\<lambda>j. qj_id j = i) (bq_jobs bq (queue_of n m))))"

definition job_name :: "jval \<Rightarrow> string" where
  "job_name v = (case object_get v ''deliveryId'' of Some (VStr s) \<Rightarrow> s | _ \<Rightarrow> ''undefined'')"

definition enqueueJob :: "'q bull \<Rightarrow> jval \<Rightarrow> string option \<Rightarrow> int \<Rightarrow> 'q QueueManager \<Rightarrow> ('q QueueManager, queue_error) eff" where
  "enqueueJob bq data i delay m = (case bindE (validateJobData data) (\<lambda>_. job_serialize data) of
      Inl e \<Rightarrow> throw m e
    | Inr v \<Rightarrow> ret (m\<lparr> qm_mainQueue := bq_add bq (job_name data) v i delay (qm_mainQueue m) \<rparr>))"

definition enqueueDelayedJob :: "'q bull \<Rightarrow> jval \<Rightarrow> int \<Rightarrow> 'q QueueManager \<Rightarrow> ('q QueueManager, queue_error) eff" where
  "enqueueDelayedJob bq data delay m = (case bindE (validateJobData data) (\<lambda>_. job_serialize data) of
      Inl e \<Rightarrow> throw m e
    | Inr v \<Rightarrow> ret (m\<lparr> qm_delayedQueue := bq_add bq (job_name data) v None delay (qm_delayedQueue m) \<rparr>))"

definition getJob :: "'q bull \<Rightarrow> string \<Rightarrow> 'q QueueManager \<Rightarrow> queued_job option" where
  "getJob bq i m = map_option fst (findJob bq i m)"

definition cancelJob :: "'q bull \<Rightarrow> string \<Rightarrow> 'q QueueManager \<Rightarrow> ('q QueueManager, queue_error) eff" where
  "cancelJob bq i m = (case findJob bq i m of None \<Rightarrow> throw m (JobNotFound i)
     | Some (j, n) \<Rightarrow> (case bq_remove bq i (queue_of n m) of None \<Rightarrow> throw m QueueFailure | Some q \<Rightarrow> ret (set_queue n q m)))"

text \<open>Both moves remove the job before they add it again.\<close>

definition moveToDelayed :: "'q bull \<Rightarrow> (string \<Rightarrow> ms option) \<Rightarrow> string \<Rightarrow> int \<Rightarrow> 'q QueueManager \<Rightarrow> ('q QueueManager, queue_error) eff" where
  "moveToDelayed bq p i delay m = (case findJob bq i m of None \<Rightarrow> throw m (JobNotFound i)
     | Some (j, n) \<Rightarrow> (case job_deserialize p (Some (qj_data j)) of Inl e \<Rightarrow> throw m e
       | Inr data \<Rightarrow> (case bq_remove bq i (queue_of n m) of None \<Rightarrow> throw m QueueFailure
         | Some q \<Rightarrow> enqueueDelayedJob bq data delay (set_queue n q m))))"

definition queue_moveToDLQ :: "'q bull \<Rightarrow> (string \<Rightarrow> ms option) \<Rightarrow> ms \<Rightarrow> string \<Rightarrow> string \<Rightarrow> 'q QueueManager \<Rightarrow> ('q QueueManager, queue_error) eff" where
  "queue_moveToDLQ bq p now i reason m = (case findJob bq i m of None \<Rightarrow> throw m (JobNotFound i)
     | Some (j, n) \<Rightarrow> (case job_deserialize p (Some (qj_data j)) of Inl e \<Rightarrow> throw m e
       | Inr data \<Rightarrow> (case bq_remove bq i (queue_of n m) of None \<Rightarrow> throw m QueueFailure
         | Some q \<Rightarrow> (let m1 = set_queue n q m in
             case job_serialize data of Inl e \<Rightarrow> throw m1 e
             | Inr v \<Rightarrow> ret (m1\<lparr> qm_dlqQueue := bq_add bq (job_name data)
                 (VObj (mset_at ''dlqAt'' (VStr (toISOString now)) (mset_at ''dlqReason'' (VStr reason)
                    (case v of VObj ps \<Rightarrow> ps | _ \<Rightarrow> [])))) None 0 (qm_dlqQueue m1) \<rparr>)))))"

record manager_counts =
  jc_active :: int
  jc_waiting :: int
  jc_delayed :: int
  jc_failed :: int
  jc_completed :: int

definition manager_getQueueDepth :: "manager_counts \<Rightarrow> manager_counts \<Rightarrow> manager_counts \<Rightarrow> int \<times> int \<times> int" where
  "manager_getQueueDepth main delayed dlq = (jc_active main + jc_waiting main, jc_delayed delayed, jc_failed dlq + jc_waiting dlq)"

definition client_getQueueStats :: "manager_counts \<Rightarrow> int" where
  "client_getQueueStats c = jc_active c + jc_waiting c + jc_delayed c + jc_failed c + jc_completed c"

lemma findJob_Some:
  assumes "findJob bq i m = Some (j, n)"
  shows "j \<in> set (bq_jobs bq (queue_of n m)) \<and> qj_id j = i"
  using assms by (auto simp: findJob_def find_Some_iff split: option.splits)

lemma queue_of_set [simp]: "queue_of n (set_queue n' q m) = (if n = n' then q else queue_of n m)"
  by (cases n; cases n') (simp_all add: queue_of_def set_queue_def)

text \<open>What a manager holds: the jobs of its three queues.\<close>

definition all_jobs :: "'q bull \<Rightarrow> 'q QueueManager \<Rightarrow> queued_job list" where
  "all_jobs bq m = bq_jobs bq (qm_mainQueue m) @ bq_jobs bq (qm_delayedQueue m) @ bq_jobs bq (qm_dlqQueue m)"

text \<open>A job whose data is valid and survives the queue is moved to the delayed queue with the same data and
  the delay asked for, and is gone from where it was; a job with other data, such as those the recovery
  services put on the queue, is removed and then refused: it is lost. A job that is not found or locked
  stays where it is.\<close>
theorem moving_a_job:
  assumes "bull_laws bq" "findJob bq i m = Some (j, n)" "bq_remove bq i (queue_of n m) = Some q"
    and "qj_data j = convert_dates (VObj ps)" "queue_safe p (VObj ps)"
  shows "(okE (validateJobData (VObj ps)) \<longrightarrow> (\<exists>m' k. moveToDelayed bq p i delay m = ret m' \<and>
       bq_jobs bq (qm_delayedQueue m') = (if n = DelayedQ then filter (\<lambda>j. qj_id j \<noteq> i) (bq_jobs bq (qm_delayedQueue m))
           else bq_jobs bq (qm_delayedQueue m)) @ [\<lparr> qj_id = k, qj_name = job_name (VObj ps), qj_data = qj_data j, qj_delay = delay \<rparr>] \<and>
       (n \<noteq> DelayedQ \<longrightarrow> bq_jobs bq (queue_of n m') = filter (\<lambda>j. qj_id j \<noteq> i) (bq_jobs bq (queue_of n m))))) \<and>
    (\<not> okE (validateJobData (VObj ps)) \<longrightarrow> (\<exists>e. moveToDelayed bq p i delay m = throw (set_queue n q m) e \<and>
       bq_jobs bq (queue_of n (set_queue n q m)) = filter (\<lambda>j. qj_id j \<noteq> i) (bq_jobs bq (queue_of n m))))"
proof -
  have safe: "dates_valid (VObj ps)" "parse_dates p (convert_dates (VObj ps)) = VObj ps"
    using queue_safe_roundtrip [OF assms(5)] by auto
  have gone: "bq_jobs bq q = filter (\<lambda>j. qj_id j \<noteq> i) (bq_jobs bq (queue_of n m))" by (rule bull_remove [OF assms(1,3)])
  have read: "job_deserialize p (Some (qj_data j)) = Inr (VObj ps)"
    using safe(2) by (simp add: job_deserialize_def assms(4))
  have move: "moveToDelayed bq p i delay m = enqueueDelayedJob bq (VObj ps) delay (set_queue n q m)"
    by (simp add: moveToDelayed_def assms(2,3) read)
  have ser: "job_serialize (VObj ps) = Inr (qj_data j)" using safe(1) by (simp only: job_serialize_def assms(4) if_True)
  show ?thesis
  proof (intro conjI impI)
    assume "okE (validateJobData (VObj ps))"
    then obtain u where "validateJobData (VObj ps) = Inr u" by (auto simp: okE_iff)
    then have "moveToDelayed bq p i delay m = ret ((set_queue n q m)\<lparr> qm_delayedQueue :=
        bq_add bq (job_name (VObj ps)) (qj_data j) None delay (qm_delayedQueue (set_queue n q m)) \<rparr>)" (is "_ = ret ?m'")
      by (simp add: move enqueueDelayedJob_def ser)
    moreover obtain k where "bq_jobs bq (bq_add bq (job_name (VObj ps)) (qj_data j) None delay (qm_delayedQueue (set_queue n q m))) =
        bq_jobs bq (qm_delayedQueue (set_queue n q m)) @ [\<lparr> qj_id = k, qj_name = job_name (VObj ps), qj_data = qj_data j, qj_delay = delay \<rparr>]"
      by (rule bull_add_auto [OF assms(1)])
    ultimately show "\<exists>m' k. moveToDelayed bq p i delay m = ret m' \<and>
       bq_jobs bq (qm_delayedQueue m') = (if n = DelayedQ then filter (\<lambda>j. qj_id j \<noteq> i) (bq_jobs bq (qm_delayedQueue m))
           else bq_jobs bq (qm_delayedQueue m)) @ [\<lparr> qj_id = k, qj_name = job_name (VObj ps), qj_data = qj_data j, qj_delay = delay \<rparr>] \<and>
       (n \<noteq> DelayedQ \<longrightarrow> bq_jobs bq (queue_of n m') = filter (\<lambda>j. qj_id j \<noteq> i) (bq_jobs bq (queue_of n m)))"
      using gone by (intro exI [of _ ?m'] exI [of _ k]) (cases n; simp add: queue_of_def set_queue_def)
  next
    assume "\<not> okE (validateJobData (VObj ps))"
    then obtain e where "validateJobData (VObj ps) = Inl e" by (cases "validateJobData (VObj ps)") auto
    then show "\<exists>e. moveToDelayed bq p i delay m = throw (set_queue n q m) e \<and>
       bq_jobs bq (queue_of n (set_queue n q m)) = filter (\<lambda>j. qj_id j \<noteq> i) (bq_jobs bq (queue_of n m))"
      using gone by (simp add: move enqueueDelayedJob_def)
  qed
qed

definition example_job :: queued_job where
  "example_job = \<lparr> qj_id = ''7'', qj_name = ''r:d'', qj_data = VObj [(''taskResultId'', VStr ''r'')], qj_delay = 0 \<rparr>"

theorem moving_a_job_witness:
  "\<exists>m' e. moveToDelayed list_bull (\<lambda>_. None) ''7'' 1000
     \<lparr> qm_mainQueue = [example_job], qm_delayedQueue = [], qm_dlqQueue = [] \<rparr> = throw m' e \<and> bq_jobs list_bull (queue_of MainQ m') = []"
proof -
  let ?m = "\<lparr> qm_mainQueue = [example_job], qm_delayedQueue = [], qm_dlqQueue = [] \<rparr>"
  have "findJob list_bull ''7'' ?m = Some (example_job, MainQ)"
    by (simp add: findJob_def queue_of_def list_bull_def example_job_def)
  moreover have "bq_remove list_bull ''7'' (queue_of MainQ ?m) = Some []"
    by (simp add: queue_of_def list_bull_def example_job_def)
  moreover have "qj_data example_job = convert_dates (VObj [(''taskResultId'', VStr ''r'')])" by (simp add: example_job_def)
  moreover have "queue_safe (\<lambda>_. None) (VObj [(''taskResultId'', VStr ''r'')])" by (simp add: isoDateRegex_def)
  moreover have "\<not> okE (validateJobData (VObj [(''taskResultId'', VStr ''r'')]))"
    by (simp add: validateJobData_def is_object_def object_get_def mget_def)
  ultimately have "\<exists>e. moveToDelayed list_bull (\<lambda>_. None) ''7'' 1000 ?m = throw (set_queue MainQ [] ?m) e \<and>
       bq_jobs list_bull (queue_of MainQ (set_queue MainQ [] ?m)) = filter (\<lambda>j. qj_id j \<noteq> ''7'') (bq_jobs list_bull (queue_of MainQ ?m))"
    using moving_a_job [OF list_bull_laws, THEN conjunct2, THEN mp] by blast
  then show ?thesis by (auto simp: queue_of_def list_bull_def example_job_def)
qed

end
