(* ===== verification/QF_Recovery.thy ===== *)
theory QF_Recovery
  imports QF_Queue QF_Store
begin

text \<open>
  Recovery after a crash (\<open>daemon/recovery\<close>): the detector of stale deliveries, the queue
  reconstructor, the recovery daemon's cycle, the state synchronizer, the processor of due retries
  and the monitor of the dead letters. The classes take their repository and queues as \<open>any\<close> and ask
  which methods they have: a repository is the record \<open>recovery_repo\<close> of optional methods over the
  table, and a queue manager is known by what it offers. The queues are those of QF_Queue's library.
\<close>

subsection \<open>Rows, repositories and queues\<close>

record recovery_row = delivery_row +
  rr_maxRetries :: "int option"
  rr_createdAt :: "ms option"
  rr_updatedAt :: "ms option"
  rr_deletedAt :: "ms option"
  rr_failureReason :: "string option"
  rr_agentId :: "string option"

text \<open>The \<open>where\<close> arguments the classes use; no model has a column \<open>updatedBefore\<close>.\<close>

datatype row_filter = ByStatus DeliveryStatus | DueBy DeliveryStatus ms | UpdatedBefore DeliveryStatus ms

text \<open>A method is None when the repository lacks it; a call is None when it throws. A found list carries
  the \<open>total\<close> of the answer if it has one.\<close>

type_synonym found_rows = "recovery_row list \<times> int option"

record recovery_repo =
  rp_findPendingDeliveries :: "(recovery_row list \<Rightarrow> found_rows option) option"
  rp_findScheduledRetryDeliveries :: "(recovery_row list \<Rightarrow> found_rows option) option"
  rp_findDLQDeliveries :: "(recovery_row list \<Rightarrow> found_rows option) option"
  rp_findStaleDeliveries :: "(ms \<Rightarrow> recovery_row list \<Rightarrow> found_rows option) option"
  rp_findByStatus :: "(DeliveryStatus \<Rightarrow> recovery_row list \<Rightarrow> found_rows option) option"
  rp_findMany :: "(row_filter \<Rightarrow> recovery_row list \<Rightarrow> found_rows option) option"
  rp_findById :: "(string \<Rightarrow> recovery_row list \<Rightarrow> recovery_row option option) option"

text \<open>\<open>repositories.deliveries\<close> when there are no repositories, and the program's \<open>DeliveryRepository\<close>:
  the database refuses a filter on a column it does not have.\<close>

definition no_repository :: recovery_repo where
  "no_repository = \<lparr> rp_findPendingDeliveries = None, rp_findScheduledRetryDeliveries = None, rp_findDLQDeliveries = None,
     rp_findStaleDeliveries = None, rp_findByStatus = None, rp_findMany = None, rp_findById = None \<rparr>"

definition row_matches :: "row_filter \<Rightarrow> recovery_row \<Rightarrow> bool" where
  "row_matches f r = (case f of ByStatus s \<Rightarrow> dr_status r = s
     | DueBy s t \<Rightarrow> dr_status r = s \<and> (case dr_nextRetryAt r of None \<Rightarrow> False | Some u \<Rightarrow> u \<le> t)
     | UpdatedBefore s t \<Rightarrow> False)"

definition repo_findMany :: "row_filter \<Rightarrow> recovery_row list \<Rightarrow> found_rows option" where
  "repo_findMany f rows = (case f of UpdatedBefore _ _ \<Rightarrow> None
     | _ \<Rightarrow> (let rs = filter (row_matches f) rows in Some (rs, Some (int (length rs)))))"

definition repo_findById :: "string \<Rightarrow> recovery_row list \<Rightarrow> recovery_row option" where
  "repo_findById i rows = find (\<lambda>r. dr_id r = i) rows"

definition delivery_repository :: recovery_repo where
  "delivery_repository = no_repository\<lparr> rp_findByStatus := Some (\<lambda>s. repo_findMany (ByStatus s)),
     rp_findMany := Some repo_findMany, rp_findById := Some (\<lambda>i rows. Some (repo_findById i rows)) \<rparr>"

text \<open>A manager with \<open>getMainQueue\<close> and \<open>getDelayedQueue\<close>, a bare queue, or neither.\<close>

datatype manager_kind = HasAccessors | IsQueue | NoQueue

record 'q recovery_state =
  rv_rows :: "recovery_row list"
  rv_main :: 'q
  rv_delayed :: 'q
  rv_alerts :: "int list"

subsection \<open>Stale deliveries\<close>

text \<open>\<open>config?.staleTimeoutMs || 30000\<close>\<close>

definition stale_timeout :: "int option \<Rightarrow> ms" where
  "stale_timeout c = num_or c 30000"

definition detector_detectStale :: "recovery_repo \<Rightarrow> ms \<Rightarrow> ms \<Rightarrow> recovery_row list \<Rightarrow> recovery_row list" where
  "detector_detectStale rp timeout now rows = (let cutoff = now - timeout in
     case rp_findStaleDeliveries rp of Some f \<Rightarrow> (case f cutoff rows of Some (rs, _) \<Rightarrow> rs | None \<Rightarrow> [])
     | None \<Rightarrow> (case rp_findMany rp of Some f \<Rightarrow> (case f (UpdatedBefore PROCESSING cutoff) rows of Some (rs, _) \<Rightarrow> rs | None \<Rightarrow> [])
       | None \<Rightarrow> []))"

text \<open>\<open>job.data.deliveryId || job.data.id || job.id\<close>; a job with none of them is passed over.\<close>

definition text_field :: "string \<Rightarrow> jval \<Rightarrow> string" where
  "text_field k v = (case object_get v k of Some (VStr s) \<Rightarrow> s | _ \<Rightarrow> [])"

definition first_text :: "string list \<Rightarrow> string" where
  "first_text ts = (case filter (\<lambda>t. t \<noteq> []) ts of [] \<Rightarrow> [] | t # _ \<Rightarrow> t)"

fun detectOrphaned :: "recovery_repo \<Rightarrow> queued_job list \<Rightarrow> recovery_row list \<Rightarrow> queued_job list option" where
  "detectOrphaned rp [] rows = Some []"
| "detectOrphaned rp (j # js) rows = (let i = first_text [text_field ''deliveryId'' (qj_data j), text_field ''id'' (qj_data j), qj_id j] in
     if i = [] then detectOrphaned rp js rows
     else (case (case rp_findById rp of None \<Rightarrow> Some None | Some f \<Rightarrow> f i rows) of None \<Rightarrow> None
       | Some (Some r) \<Rightarrow> detectOrphaned rp js rows
       | Some None \<Rightarrow> map_option ((#) j) (detectOrphaned rp js rows)))"

text \<open>The worker ids of the heartbeat registry whose heartbeat is gone; a registry that fails has none.\<close>

definition detectDeadWorkers :: "(string list option \<times> (string \<Rightarrow> bool option)) option \<Rightarrow> string list" where
  "detectDeadWorkers hb = (case hb of Some (Some ids, isAlive) \<Rightarrow>
       if \<exists>i \<in> set ids. isAlive i = None then [] else filter (\<lambda>i. isAlive i = Some False) ids
     | _ \<Rightarrow> [])"

subsection \<open>Queue reconstruction\<close>

definition found_by :: "(recovery_row list \<Rightarrow> found_rows option) option \<Rightarrow> recovery_repo \<Rightarrow> DeliveryStatus \<Rightarrow> recovery_row list \<Rightarrow> found_rows option" where
  "found_by special rp s rows = (case special of Some f \<Rightarrow> f rows
     | None \<Rightarrow> (case rp_findByStatus rp of Some f \<Rightarrow> f s rows
       | None \<Rightarrow> (case rp_findMany rp of Some f \<Rightarrow> f (ByStatus s) rows | None \<Rightarrow> Some ([], None))))"

definition deliver_data :: "recovery_row \<Rightarrow> jval" where
  "deliver_data r = VObj [(''deliveryId'', VStr (dr_id r)), (''destinationId'', VStr (dr_destinationId r))]"

definition enqueuePending :: "'q bull \<Rightarrow> manager_kind \<Rightarrow> recovery_repo \<Rightarrow> 'q recovery_state \<Rightarrow> 'q recovery_state \<times> int" where
  "enqueuePending bq kind rp st = (case found_by (rp_findPendingDeliveries rp) rp PENDING (rv_rows st) of None \<Rightarrow> (st, 0)
     | Some (rs, _) \<Rightarrow> if kind = NoQueue then (st, 0)
       else (st\<lparr> rv_main := fold (\<lambda>r. bq_add bq ''deliver'' (deliver_data r) None 0) rs (rv_main st) \<rparr>, int (length rs)))"

definition retry_delay :: "ms \<Rightarrow> recovery_row \<Rightarrow> int" where
  "retry_delay now r = (case dr_nextRetryAt r of None \<Rightarrow> 5000 | Some t \<Rightarrow> max 0 (t - now))"

definition retry_data :: "recovery_row \<Rightarrow> jval" where
  "retry_data r = VObj [(''deliveryId'', VStr (dr_id r))]"

text \<open>Without \<open>getDelayedQueue\<close> the retries go to the manager itself, the queue the pending jobs are on.\<close>

definition enqueueScheduledRetries :: "'q bull \<Rightarrow> manager_kind \<Rightarrow> recovery_repo \<Rightarrow> ms \<Rightarrow> 'q recovery_state \<Rightarrow> 'q recovery_state \<times> int" where
  "enqueueScheduledRetries bq kind rp now st = (case found_by (rp_findScheduledRetryDeliveries rp) rp SCHEDULED_RETRY (rv_rows st) of
       None \<Rightarrow> (st, 0)
     | Some (rs, _) \<Rightarrow> (let adds = fold (\<lambda>r. bq_add bq ''deliver_retry'' (retry_data r) None (retry_delay now r)) rs in
         case kind of NoQueue \<Rightarrow> (st, 0)
         | IsQueue \<Rightarrow> (st\<lparr> rv_main := adds (rv_main st) \<rparr>, int (length rs))
         | HasAccessors \<Rightarrow> (st\<lparr> rv_delayed := adds (rv_delayed st) \<rparr>, int (length rs))))"

text \<open>The scan over the jobs read at its start. A lookup that throws or a job that is locked ends it, with the
  count of 0.\<close>

fun remove_orphans :: "'q bull \<Rightarrow> recovery_repo \<Rightarrow> recovery_row list \<Rightarrow> queued_job list \<Rightarrow> int \<Rightarrow> 'q \<Rightarrow> 'q \<times> int" where
  "remove_orphans bq rp rows [] n q = (q, n)"
| "remove_orphans bq rp rows (j # js) n q = (let i = first_text [text_field ''deliveryId'' (qj_data j), qj_id j] in
     if i = [] then remove_orphans bq rp rows js n q
     else (case (case rp_findById rp of None \<Rightarrow> Some None | Some f \<Rightarrow> f i rows) of None \<Rightarrow> (q, 0)
       | Some (Some r) \<Rightarrow> remove_orphans bq rp rows js n q
       | Some None \<Rightarrow> (case bq_remove bq (qj_id j) q of None \<Rightarrow> (q, 0)
           | Some q' \<Rightarrow> remove_orphans bq rp rows js (n + 1) q')))"

definition removeOrphaned :: "'q bull \<Rightarrow> manager_kind \<Rightarrow> recovery_repo \<Rightarrow> 'q recovery_state \<Rightarrow> 'q recovery_state \<times> int" where
  "removeOrphaned bq kind rp st = (if kind = NoQueue then (st, 0)
     else (let (q, n) = remove_orphans bq rp (rv_rows st) (bq_jobs bq (rv_main st)) 0 (rv_main st) in (st\<lparr> rv_main := q \<rparr>, n)))"

record ReconstructionResult =
  rs_enqueued :: int
  rs_main :: int
  rs_delayed :: int
  rs_deleted :: int

definition reconstruct :: "'q bull \<Rightarrow> manager_kind \<Rightarrow> recovery_repo \<Rightarrow> ms \<Rightarrow> 'q recovery_state \<Rightarrow> 'q recovery_state \<times> ReconstructionResult" where
  "reconstruct bq kind rp now st = (let (s1, pending) = enqueuePending bq kind rp st;
       (s2, retries) = enqueueScheduledRetries bq kind rp now s1; (s3, removed) = removeOrphaned bq kind rp s2 in
     (s3, \<lparr> rs_enqueued = pending + retries, rs_main = pending, rs_delayed = retries, rs_deleted = removed \<rparr>))"

subsection \<open>Dead letters\<close>

record DLQStats =
  dq_count :: int
  dq_oldest :: "ms option"
  dq_newest :: "ms option"

definition dlq_threshold :: "int option \<Rightarrow> int option \<Rightarrow> int" where
  "dlq_threshold dlqThreshold maxDlqThreshold = num_or dlqThreshold (num_or maxDlqThreshold 50)"

definition publishAlerts :: "int \<Rightarrow> int \<Rightarrow> 'q recovery_state \<Rightarrow> 'q recovery_state" where
  "publishAlerts threshold c st = (if c < threshold then st else st\<lparr> rv_alerts := rv_alerts st @ [c] \<rparr>)"

definition row_date :: "ms \<Rightarrow> recovery_row \<Rightarrow> ms" where
  "row_date now r = (case rr_updatedAt r of Some t \<Rightarrow> t | None \<Rightarrow> (case rr_createdAt r of Some t \<Rightarrow> t | None \<Rightarrow> now))"

definition monitorDLQ :: "recovery_repo \<Rightarrow> int \<Rightarrow> ms \<Rightarrow> 'q recovery_state \<Rightarrow> 'q recovery_state \<times> DLQStats" where
  "monitorDLQ rp threshold now st = (case found_by (rp_findDLQDeliveries rp) rp FAILED_DLQ (rv_rows st) of
       None \<Rightarrow> (st, \<lparr> dq_count = 0, dq_oldest = None, dq_newest = None \<rparr>)
     | Some (rs, tot) \<Rightarrow> (let c = num_or tot (int (length rs)); dates = map (row_date now) rs in
         (if c \<ge> threshold then publishAlerts threshold c st else st,
          \<lparr> dq_count = c, dq_oldest = (if rs = [] then None else Some (Min (set dates))),
            dq_newest = (if rs = [] then None else Some (Max (set dates))) \<rparr>)))"

text \<open>The counts of one key over the rows (\<open>m[k] = (m[k] || 0) + 1\<close>), and the five largest, in the order
  \<open>Object.entries\<close> gives: keys that are array indices first, ascending, then in insertion order.\<close>

definition count_keys :: "string list \<Rightarrow> (string, int) js_map" where
  "count_keys ks = fold (\<lambda>k m. mset_at k (case mget m k of None \<Rightarrow> 1 | Some n \<Rightarrow> n + 1) m) ks []"

definition index_key :: "string \<Rightarrow> bool" where
  "index_key k \<longleftrightarrow> k \<noteq> [] \<and> list_all digit_char k \<and> show_nat (read_digits k) = k \<and> read_digits k < 4294967295"

definition object_entries :: "(string, 'v) js_map \<Rightarrow> (string \<times> 'v) list" where
  "object_entries m = sort_key (\<lambda>p. read_digits (fst p)) (filter (\<lambda>p. index_key (fst p)) m) @ filter (\<lambda>p. \<not> index_key (fst p)) m"

definition sortTop :: "(string, int) js_map \<Rightarrow> (string \<times> int) list" where
  "sortTop m = take 5 (sort_key (\<lambda>p. - snd p) (object_entries m))"

definition text_or :: "string option \<Rightarrow> string \<Rightarrow> string" where
  "text_or v d = (case v of None \<Rightarrow> d | Some s \<Rightarrow> if s = [] then d else s)"

definition failure_text :: "recovery_row \<Rightarrow> string" where
  "failure_text r = text_or (rr_failureReason r) (text_or (dr_lastError r) ''Unknown Error'')"

definition analyzeFailures :: "recovery_repo \<Rightarrow> recovery_row list \<Rightarrow> (string \<times> int) list \<times> (string \<times> int) list \<times> (string \<times> int) list" where
  "analyzeFailures rp rows = (case found_by None rp FAILED_DLQ rows of None \<Rightarrow> ([], [], [])
     | Some (rs, _) \<Rightarrow> (sortTop (count_keys (map failure_text rs)),
         sortTop (count_keys (map (\<lambda>r. text_or (Some (dr_destinationId r)) ''unknown'') rs)),
         sortTop (count_keys (map (\<lambda>r. text_or (rr_agentId r) ''unknown'') rs))))"

subsection \<open>The recovery daemon's cycle\<close>

text \<open>What the daemon may hold as its reconstructor: a reconstructor, or an object without its methods (the
  legacy constructor takes its fourth argument, which the program's setup fills with the logger).\<close>

datatype reconstructor = Reconstructor manager_kind recovery_repo | OtherObject

record RecoveryDaemon =
  rd_detector :: "(recovery_repo \<times> ms) option"
  rd_reconstructor :: "reconstructor option"
  rd_dlqMonitor :: "(recovery_repo \<times> int) option"

definition recover_delivery :: "'q bull \<Rightarrow> reconstructor option \<Rightarrow> recovery_row \<Rightarrow> 'q recovery_state \<times> int \<Rightarrow> 'q recovery_state \<times> int" where
  "recover_delivery bq rc r acc = (case acc of (st, n) \<Rightarrow>
     if dr_retryCount r < num_or (rr_maxRetries r) 3
     then (case rc of None \<Rightarrow> (st, n + 1) | Some OtherObject \<Rightarrow> (st, n)
       | Some (Reconstructor kind rp) \<Rightarrow> (fst (enqueuePending bq kind rp st), n + 1))
     else (st, n + 1))"

text \<open>The state after the cycle and the counts (recovered, enqueued); None when the cycle throws.\<close>

definition execute_cycle :: "'q bull \<Rightarrow> RecoveryDaemon \<Rightarrow> ms \<Rightarrow> 'q recovery_state \<Rightarrow> 'q recovery_state \<times> (int \<times> int) option" where
  "execute_cycle bq d now st = (let
     (s1, recovered) = (case rd_detector d of None \<Rightarrow> (st, 0)
       | Some (rp, timeout) \<Rightarrow> fold (recover_delivery bq (rd_reconstructor d)) (detector_detectStale rp timeout now (rv_rows st)) (st, 0)) in
     case rd_reconstructor d of Some OtherObject \<Rightarrow> (s1, None)
     | rc \<Rightarrow> (let (s2, enq) = (case rc of Some (Reconstructor kind rp) \<Rightarrow> map_prod id rs_enqueued (reconstruct bq kind rp now s1) | _ \<Rightarrow> (s1, 0));
           s3 = (case rd_dlqMonitor d of None \<Rightarrow> s2 | Some (rp, threshold) \<Rightarrow> fst (monitorDLQ rp threshold now s2)) in
         (s3, Some (recovered, enq))))"

text \<open>The daemon of \<open>initializeDaemonModule\<close>, on the repository it is given.\<close>

definition module_recovery :: "recovery_repo \<Rightarrow> manager_kind \<Rightarrow> int option \<Rightarrow> int option \<Rightarrow> RecoveryDaemon" where
  "module_recovery rp kind staleTimeout dlqThreshold = \<lparr> rd_detector = Some (rp, stale_timeout staleTimeout),
     rd_reconstructor = Some (Reconstructor kind rp), rd_dlqMonitor = Some (rp, dlq_threshold dlqThreshold None) \<rparr>"

subsection \<open>Processor of due retries\<close>

record retry_processor =
  rq_running :: bool
  rq_processing :: bool

definition retry_job_data :: "recovery_row \<Rightarrow> jval" where
  "retry_job_data r = VObj [(''taskResultId'', VStr (dr_taskResultId r)), (''destinationId'', VStr (dr_destinationId r)),
     (''attempt'', VNum (dr_retryCount r))]"

definition job_key :: "recovery_row \<Rightarrow> string" where
  "job_key r = dr_taskResultId r @ CHR '':'' # dr_destinationId r"

text \<open>\<open>updateDeliveryStatus(id, PENDING)\<close> sets the column, whatever the row holds now.\<close>

definition set_row_status :: "string \<Rightarrow> DeliveryStatus \<Rightarrow> recovery_row list \<Rightarrow> recovery_row list" where
  "set_row_status i s rows = map (\<lambda>r. if dr_id r = i then r\<lparr> dr_status := s \<rparr> else r) rows"

definition dispatch_retry :: "'q bull \<Rightarrow> recovery_row \<Rightarrow> 'q recovery_state \<Rightarrow> 'q recovery_state" where
  "dispatch_retry bq r st = st\<lparr> rv_rows := set_row_status (dr_id r) PENDING (rv_rows st),
     rv_main := bq_add bq (job_key r) (retry_job_data r) None 0 (rv_main st) \<rparr>"

text \<open>The run over the due rows and its count; None when it throws. The span is ended before the guard is reset,
  so a tracer without spans makes it throw with the guard set.\<close>

definition processScheduledRetries :: "'q bull \<Rightarrow> bool \<Rightarrow> ms \<Rightarrow> retry_processor \<times> 'q recovery_state \<Rightarrow> (retry_processor \<times> 'q recovery_state) \<times> int option" where
  "processScheduledRetries bq hasSpan now ps = (case ps of (p, st) \<Rightarrow>
     if rq_processing p then (ps, Some 0)
     else (let due = filter (row_matches (DueBy SCHEDULED_RETRY now)) (rv_rows st); st' = fold (dispatch_retry bq) due st in
       if hasSpan then ((p\<lparr> rq_processing := False \<rparr>, st'), Some (int (length due)))
       else ((p\<lparr> rq_processing := True \<rparr>, st'), None)))"

definition retry_processor_start :: "retry_processor \<Rightarrow> retry_processor" where
  "retry_processor_start p = p\<lparr> rq_running := True \<rparr>"

definition retry_processor_stop :: "retry_processor \<Rightarrow> retry_processor" where
  "retry_processor_stop p = p\<lparr> rq_running := False \<rparr>"

subsection \<open>State synchronizer\<close>

text \<open>\<open>queue.add\<close> with \<open>jobId\<close> for each PENDING row whose id no job had when the jobs were read.\<close>

definition add_missing :: "'q bull \<Rightarrow> string set \<Rightarrow> recovery_row list \<Rightarrow> 'q \<times> int \<Rightarrow> 'q \<times> int" where
  "add_missing bq ids rs = fold (\<lambda>r (q, n). if job_key r \<in> ids then (q, n)
     else (bq_add bq (job_key r) (retry_job_data r) (Some (job_key r)) 0 q, n + 1)) rs"

text \<open>\<open>job.id.split(':')\<close>, when it has two parts that are not empty.\<close>

definition key_parts :: "string \<Rightarrow> (string \<times> string) option" where
  "key_parts i = (case split_on (CHR '':'') i of r # d # _ \<Rightarrow> if r = [] \<or> d = [] then None else Some (r, d) | _ \<Rightarrow> None)"

definition find_pair :: "string \<Rightarrow> string \<Rightarrow> recovery_row list \<Rightarrow> recovery_row option" where
  "find_pair t d rows = find (\<lambda>r. dr_taskResultId r = t \<and> dr_destinationId r = d) rows"

definition orphan_job :: "recovery_row list \<Rightarrow> queued_job \<Rightarrow> bool" where
  "orphan_job rows j = (case key_parts (qj_id j) of None \<Rightarrow> False
     | Some (t, d) \<Rightarrow> (case find_pair t d rows of None \<Rightarrow> True | Some r \<Rightarrow> rr_deletedAt r \<noteq> None))"

definition prune_jobs :: "'q bull \<Rightarrow> recovery_row list \<Rightarrow> queued_job list \<Rightarrow> 'q \<times> int \<times> int \<Rightarrow> 'q \<times> int \<times> int" where
  "prune_jobs bq rows js = fold (\<lambda>j (q, n, e). if orphan_job rows j
     then (case bq_remove bq (qj_id j) q of None \<Rightarrow> (q, n, e + 1) | Some q' \<Rightarrow> (q', n + 1, e)) else (q, n, e)) js"

definition sync :: "'q bull \<Rightarrow> bool \<Rightarrow> 'q recovery_state \<Rightarrow> 'q recovery_state \<times> int \<times> int" where
  "sync bq syncing st = (if syncing then (st, 0, 0)
     else (let js = bq_jobs bq (rv_main st);
         (q, n) = add_missing bq (set (filter (\<lambda>i. i \<noteq> []) (map qj_id js))) (filter (row_matches (ByStatus PENDING)) (rv_rows st)) (rv_main st, 0);
         (q', n', e) = prune_jobs bq (rv_rows st) js (q, n, 0) in
       (st\<lparr> rv_main := q' \<rparr>, n', e)))"

subsection \<open>Lemmas on the queues\<close>

text \<open>What a series of additions without ids leaves on a queue.\<close>

lemma fold_add_auto:
  assumes "bull_laws bq"
  obtains new where "bq_jobs bq (fold (\<lambda>r. bq_add bq (nm r) (dt r) None (dl r)) rs q) = bq_jobs bq q @ new"
    "map qj_data new = map dt rs" "\<forall>j \<in> set new. qj_id j \<noteq> [] \<and> list_all digit_char (qj_id j)"
proof -
  have "\<exists>new. bq_jobs bq (fold (\<lambda>r. bq_add bq (nm r) (dt r) None (dl r)) rs q) = bq_jobs bq q @ new \<and>
      map qj_data new = map dt rs \<and> (\<forall>j \<in> set new. qj_id j \<noteq> [] \<and> list_all digit_char (qj_id j))"
  proof (induction rs arbitrary: q)
    case (Cons r rs)
    obtain i where i: "i \<noteq> []" "list_all digit_char i" "bq_jobs bq (bq_add bq (nm r) (dt r) None (dl r) q) =
        bq_jobs bq q @ [\<lparr> qj_id = i, qj_name = nm r, qj_data = dt r, qj_delay = dl r \<rparr>]"
      by (rule bull_add_auto [OF assms])
    obtain new where new: "bq_jobs bq (fold (\<lambda>r. bq_add bq (nm r) (dt r) None (dl r)) rs (bq_add bq (nm r) (dt r) None (dl r) q)) =
        bq_jobs bq (bq_add bq (nm r) (dt r) None (dl r) q) @ new" "map qj_data new = map dt rs"
        "\<forall>j \<in> set new. qj_id j \<noteq> [] \<and> list_all digit_char (qj_id j)"
      using Cons.IH by blast
    show ?case
      by (rule exI [of _ "\<lparr> qj_id = i, qj_name = nm r, qj_data = dt r, qj_delay = dl r \<rparr> # new"]) (use i new in simp)
  qed simp
  then show ?thesis using that by blast
qed

definition orphaned_by :: "(string \<Rightarrow> recovery_row option) \<Rightarrow> queued_job \<Rightarrow> bool" where
  "orphaned_by g j \<longleftrightarrow> (let i = first_text [text_field ''deliveryId'' (qj_data j), qj_id j] in i \<noteq> [] \<and> g i = None)"

definition unlocked :: "'q bull \<Rightarrow> bool" where
  "unlocked bq \<longleftrightarrow> (\<forall>i q. bq_remove bq i q \<noteq> None)"

definition finds :: "recovery_repo \<Rightarrow> recovery_row list \<Rightarrow> (string \<Rightarrow> recovery_row option) \<Rightarrow> bool" where
  "finds rp rows g \<longleftrightarrow> (\<forall>i. (case rp_findById rp of None \<Rightarrow> Some None | Some f \<Rightarrow> f i rows) = Some (g i))"

lemma finds_program [simp]:
  "finds delivery_repository rows (\<lambda>i. repo_findById i rows)" "finds no_repository rows (\<lambda>_. None)"
  by (simp_all add: finds_def delivery_repository_def no_repository_def)

lemma remove_orphans_jobs:
  assumes "bull_laws bq" "unlocked bq" "finds rp rows g"
  shows "bq_jobs bq (fst (remove_orphans bq rp rows js n q)) =
    filter (\<lambda>j. qj_id j \<notin> qj_id ` {j \<in> set js. orphaned_by g j}) (bq_jobs bq q)"
proof (induction js arbitrary: n q)
  case (Cons j js)
  have g: "(case rp_findById rp of None \<Rightarrow> Some None | Some f \<Rightarrow> f i rows) = Some (g i)" for i
    using assms(3) by (simp add: finds_def)
  obtain q' where q': "bq_remove bq (qj_id j) q = Some q'" using assms(2) by (auto simp: unlocked_def)
  have gone: "bq_jobs bq q' = filter (\<lambda>k. qj_id k \<noteq> qj_id j) (bq_jobs bq q)" by (rule bull_remove [OF assms(1) q'])
  show ?case
  proof (cases "orphaned_by g j")
    case True
    then have "remove_orphans bq rp rows (j # js) n q = remove_orphans bq rp rows js (n + 1) q'"
      by (simp add: orphaned_by_def Let_def g q')
    then show ?thesis using True by (simp only: Cons.IH gone) (auto simp: filter_filter intro!: filter_cong)
  next
    case False
    then have "remove_orphans bq rp rows (j # js) n q = remove_orphans bq rp rows js n q"
      by (auto simp: orphaned_by_def Let_def g split: option.splits)
    then show ?thesis using False by (simp only: Cons.IH) (auto intro!: filter_cong)
  qed
qed simp

lemma remove_orphans_none:
  assumes "finds rp rows g" "\<forall>j \<in> set js. \<not> orphaned_by g j"
  shows "remove_orphans bq rp rows js n q = (q, n)"
  using assms(2)
proof (induction js)
  case (Cons j js)
  have g: "(case rp_findById rp of None \<Rightarrow> Some None | Some f \<Rightarrow> f i rows) = Some (g i)" for i
    using assms(1) by (simp add: finds_def)
  have "\<not> orphaned_by g j" using Cons.prems by simp
  then have "remove_orphans bq rp rows (j # js) n q = remove_orphans bq rp rows js n q"
    by (auto simp: orphaned_by_def Let_def g split: option.splits)
  then show ?case using Cons.IH Cons.prems by simp
qed simp

lemma row_matches_ByStatus [simp]: "row_matches (ByStatus s) = (\<lambda>r. dr_status r = s)"
  by (simp add: row_matches_def fun_eq_iff)

lemma program_finds:
  "found_by None delivery_repository s rows = Some (let rs = filter (\<lambda>r. dr_status r = s) rows in (rs, Some (int (length rs))))"
  by (simp add: found_by_def delivery_repository_def no_repository_def repo_findMany_def Let_def)

lemma program_special [simp]:
  "rp_findPendingDeliveries delivery_repository = None" "rp_findScheduledRetryDeliveries delivery_repository = None"
  "rp_findDLQDeliveries delivery_repository = None"
  by (simp_all add: delivery_repository_def no_repository_def)

lemma program_never_stale: "detector_detectStale delivery_repository timeout now rows = []"
  by (simp add: detector_detectStale_def delivery_repository_def no_repository_def repo_findMany_def)

lemma monitor_frame [simp]:
  "rv_rows (fst (monitorDLQ rp t now st)) = rv_rows st" "rv_main (fst (monitorDLQ rp t now st)) = rv_main st"
  "rv_delayed (fst (monitorDLQ rp t now st)) = rv_delayed st"
  by (auto simp: monitorDLQ_def publishAlerts_def Let_def split: option.splits)

subsection \<open>Properties of the cycle\<close>

definition rows_in :: "DeliveryStatus \<Rightarrow> recovery_row list \<Rightarrow> recovery_row list" where
  "rows_in s rows = filter (\<lambda>r. dr_status r = s) rows"

text \<open>The jobs whose data names a row of the table.\<close>

definition job_has_row :: "recovery_row list \<Rightarrow> jval \<Rightarrow> bool" where
  "job_has_row rows v \<longleftrightarrow> (\<exists>r \<in> set rows. text_field ''deliveryId'' v = dr_id r \<and> dr_id r \<noteq> [])"

lemma job_has_row_deliver: "r \<in> set rows \<Longrightarrow> dr_id r \<noteq> [] \<Longrightarrow> job_has_row rows (deliver_data r)"
  by (auto simp: job_has_row_def deliver_data_def text_field_def object_get_def mget_def)

lemma job_has_row_kept:
  assumes "job_has_row rows (qj_data j)" shows "\<not> orphaned_by (\<lambda>i. repo_findById i rows) j"
proof -
  obtain r where r: "r \<in> set rows" "text_field ''deliveryId'' (qj_data j) = dr_id r" "dr_id r \<noteq> []"
    using assms by (auto simp: job_has_row_def)
  then have "first_text [text_field ''deliveryId'' (qj_data j), qj_id j] = dr_id r" by (simp add: first_text_def)
  moreover have "repo_findById (dr_id r) rows \<noteq> None" using r(1) by (auto simp: repo_findById_def find_None_iff)
  ultimately show ?thesis by (auto simp: orphaned_by_def Let_def)
qed

lemma cycle_step:
  assumes bq: "bull_laws bq" and ids: "\<forall>r \<in> set (rv_rows st). dr_id r \<noteq> []"
    and jobs: "\<forall>j \<in> set (bq_jobs bq (rv_main st)). job_has_row (rv_rows st) (qj_data j)"
    and st'_def: "st' = fst (execute_cycle bq (module_recovery delivery_repository HasAccessors a b) now st)"
  shows "rv_rows st' = rv_rows st"
    and "map qj_data (bq_jobs bq (rv_main st')) = map qj_data (bq_jobs bq (rv_main st)) @ map deliver_data (rows_in PENDING (rv_rows st))"
    and "map qj_data (bq_jobs bq (rv_delayed st')) = map qj_data (bq_jobs bq (rv_delayed st)) @ map retry_data (rows_in SCHEDULED_RETRY (rv_rows st))"
    and "\<forall>j \<in> set (bq_jobs bq (rv_main st')). job_has_row (rv_rows st) (qj_data j)"
proof -
  let ?p = "rows_in PENDING (rv_rows st)" and ?s = "rows_in SCHEDULED_RETRY (rv_rows st)"
  define m where "m = fold (\<lambda>r. bq_add bq ''deliver'' (deliver_data r) None 0) ?p (rv_main st)"
  define d where "d = fold (\<lambda>r. bq_add bq ''deliver_retry'' (retry_data r) None (retry_delay now r)) ?s (rv_delayed st)"
  obtain new where new: "bq_jobs bq m = bq_jobs bq (rv_main st) @ new" "map qj_data new = map deliver_data ?p"
    unfolding m_def by (rule fold_add_auto [OF bq])
  obtain new2 where new2: "bq_jobs bq d = bq_jobs bq (rv_delayed st) @ new2" "map qj_data new2 = map retry_data ?s"
    unfolding d_def by (rule fold_add_auto [OF bq])
  have has: "\<forall>j \<in> set (bq_jobs bq m). job_has_row (rv_rows st) (qj_data j)"
  proof
    fix j assume "j \<in> set (bq_jobs bq m)"
    then consider "j \<in> set (bq_jobs bq (rv_main st))" | "qj_data j \<in> set (map qj_data new)" by (auto simp: new(1))
    then show "job_has_row (rv_rows st) (qj_data j)"
    proof cases
      case 2
      then obtain r where "r \<in> set ?p" "qj_data j = deliver_data r" by (auto simp: new(2))
      then show ?thesis using ids by (auto simp: rows_in_def intro: job_has_row_deliver)
    qed (use jobs in blast)
  qed
  then have keep: "remove_orphans bq delivery_repository (rv_rows st) (bq_jobs bq m) 0 m = (m, 0)"
    by (intro remove_orphans_none [OF finds_program(1)] ballI job_has_row_kept) blast
  have e1: "enqueuePending bq HasAccessors delivery_repository st = (st\<lparr> rv_main := m \<rparr>, int (length ?p))"
    by (simp add: enqueuePending_def program_finds Let_def rows_in_def m_def)
  have e2: "enqueueScheduledRetries bq HasAccessors delivery_repository now (st\<lparr> rv_main := m \<rparr>) =
      (st\<lparr> rv_main := m, rv_delayed := d \<rparr>, int (length ?s))"
    by (simp add: enqueueScheduledRetries_def program_finds Let_def rows_in_def d_def)
  have e3: "removeOrphaned bq HasAccessors delivery_repository (st\<lparr> rv_main := m, rv_delayed := d \<rparr>) =
      (st\<lparr> rv_main := m, rv_delayed := d \<rparr>, 0)"
    by (simp add: removeOrphaned_def keep)
  have st': "rv_rows st' = rv_rows st" "rv_main st' = m" "rv_delayed st' = d"
    by (simp_all add: st'_def execute_cycle_def module_recovery_def program_never_stale reconstruct_def e1 e2 e3 Let_def)
  show "rv_rows st' = rv_rows st" by (rule st'(1))
  show "map qj_data (bq_jobs bq (rv_main st')) = map qj_data (bq_jobs bq (rv_main st)) @ map deliver_data ?p"
    by (simp add: st' new)
  show "map qj_data (bq_jobs bq (rv_delayed st')) = map qj_data (bq_jobs bq (rv_delayed st)) @ map retry_data ?s"
    by (simp add: st' new2)
  show "\<forall>j \<in> set (bq_jobs bq (rv_main st')). job_has_row (rv_rows st) (qj_data j)" using has by (simp only: st')
qed

definition cycles :: "'q bull \<Rightarrow> RecoveryDaemon \<Rightarrow> ms list \<Rightarrow> 'q recovery_state \<Rightarrow> 'q recovery_state" where
  "cycles bq d nows st = fold (\<lambda>now s. fst (execute_cycle bq d now s)) nows st"

text \<open>The recovery daemon over the program's delivery repository and a manager with accessors is not idempotent:
  every cycle puts another job for each PENDING delivery on the main queue and another for each
  SCHEDULED_RETRY delivery on the delayed one, whatever is there already, and changes no delivery; a
  delivery left in PROCESSING by a crashed worker is never found, whatever its age.\<close>
theorem reconstruction_repeats:
  assumes "bull_laws bq" "\<forall>r \<in> set (rv_rows st). dr_id r \<noteq> []"
    and "\<forall>j \<in> set (bq_jobs bq (rv_main st)). job_has_row (rv_rows st) (qj_data j)"
    and st'_def: "st' = cycles bq (module_recovery delivery_repository HasAccessors a b) nows st"
  shows "rv_rows st' = rv_rows st \<and>
    map qj_data (bq_jobs bq (rv_main st')) = map qj_data (bq_jobs bq (rv_main st)) @
      concat (replicate (length nows) (map deliver_data (rows_in PENDING (rv_rows st)))) \<and>
    map qj_data (bq_jobs bq (rv_delayed st')) = map qj_data (bq_jobs bq (rv_delayed st)) @
      concat (replicate (length nows) (map retry_data (rows_in SCHEDULED_RETRY (rv_rows st)))) \<and>
    detector_detectStale delivery_repository t now (rv_rows st) = []"
proof -
  have "rv_rows st' = rv_rows st \<and>
    map qj_data (bq_jobs bq (rv_main st')) = map qj_data (bq_jobs bq (rv_main st)) @
      concat (replicate (length nows) (map deliver_data (rows_in PENDING (rv_rows st)))) \<and>
    map qj_data (bq_jobs bq (rv_delayed st')) = map qj_data (bq_jobs bq (rv_delayed st)) @
      concat (replicate (length nows) (map retry_data (rows_in SCHEDULED_RETRY (rv_rows st))))"
    using assms(2,3) unfolding st'_def
  proof (induction nows arbitrary: st)
    case (Cons now nows)
    note step = cycle_step [OF assms(1) Cons.prems refl, where a=a and b=b and now=now]
    have "\<forall>r \<in> set (rv_rows (fst (execute_cycle bq (module_recovery delivery_repository HasAccessors a b) now st))). dr_id r \<noteq> []"
      using Cons.prems(1) by (simp only: step(1))
    note IH = Cons.IH [OF this]
    show ?case using IH step by (simp add: cycles_def)
  qed (simp add: cycles_def)
  then show ?thesis by (simp add: program_never_stale)
qed

definition sample_row :: "string \<Rightarrow> DeliveryStatus \<Rightarrow> recovery_row" where
  "sample_row i s = \<lparr> dr_id = i, dr_taskResultId = ''t1'', dr_destinationId = ''w1'', dr_status = s, dr_retryCount = 1,
     dr_nextRetryAt = Some 500, dr_lastAttemptAt = None, dr_lastError = Some ''timeout'', dr_errorCategory = None,
     rr_maxRetries = None, rr_createdAt = Some 0, rr_updatedAt = Some 0, rr_deletedAt = None, rr_failureReason = None, rr_agentId = None \<rparr>"

definition sample_state :: "recovery_row list \<Rightarrow> queued_job list recovery_state" where
  "sample_state rows = \<lparr> rv_rows = rows, rv_main = [], rv_delayed = [], rv_alerts = [] \<rparr>"

theorem reconstruction_repeats_witness:
  "map qj_data (rv_main (cycles list_bull (module_recovery delivery_repository HasAccessors None None) [0, 60000, 120000]
     (sample_state [sample_row ''d1'' PENDING, sample_row ''d2'' PROCESSING]))) = replicate 3 (deliver_data (sample_row ''d1'' PENDING))"
  using reconstruction_repeats [OF list_bull_laws, of "sample_state [sample_row ''d1'' PENDING, sample_row ''d2'' PROCESSING]" _ None None "[0, 60000, 120000]"]
  by (simp add: sample_state_def sample_row_def list_bull_def rows_in_def numeral_3_eq_3)

lemma cycle_main:
  assumes bq: "bull_laws bq" and un: "unlocked bq"
    and st'_def: "st' = fst (execute_cycle bq (module_recovery delivery_repository HasAccessors a b) now st)"
  obtains new where "rv_rows st' = rv_rows st" "map qj_data new = map deliver_data (rows_in PENDING (rv_rows st))"
    "bq_jobs bq (rv_main st') = filter (\<lambda>j. qj_id j \<notin> qj_id ` {j \<in> set (bq_jobs bq (rv_main st) @ new).
        orphaned_by (\<lambda>i. repo_findById i (rv_rows st)) j}) (bq_jobs bq (rv_main st) @ new)"
proof -
  let ?p = "rows_in PENDING (rv_rows st)" and ?s = "rows_in SCHEDULED_RETRY (rv_rows st)"
  define m where "m = fold (\<lambda>r. bq_add bq ''deliver'' (deliver_data r) None 0) ?p (rv_main st)"
  define d where "d = fold (\<lambda>r. bq_add bq ''deliver_retry'' (retry_data r) None (retry_delay now r)) ?s (rv_delayed st)"
  obtain new where new: "bq_jobs bq m = bq_jobs bq (rv_main st) @ new" "map qj_data new = map deliver_data ?p"
    unfolding m_def by (rule fold_add_auto [OF bq])
  have e1: "enqueuePending bq HasAccessors delivery_repository st = (st\<lparr> rv_main := m \<rparr>, int (length ?p))"
    by (simp add: enqueuePending_def program_finds Let_def rows_in_def m_def)
  have e2: "enqueueScheduledRetries bq HasAccessors delivery_repository now (st\<lparr> rv_main := m \<rparr>) =
      (st\<lparr> rv_main := m, rv_delayed := d \<rparr>, int (length ?s))"
    by (simp add: enqueueScheduledRetries_def program_finds Let_def rows_in_def d_def)
  have st': "rv_rows st' = rv_rows st" "rv_main st' = fst (remove_orphans bq delivery_repository (rv_rows st) (bq_jobs bq m) 0 m)"
    by (simp_all add: st'_def execute_cycle_def module_recovery_def program_never_stale reconstruct_def e1 e2 removeOrphaned_def
        Let_def split: prod.split)
  show thesis
    using that [OF st'(1) new(2)] by (simp only: st'(2) remove_orphans_jobs [OF bq un finds_program(1)] new(1))
qed

text \<open>The reconstructor takes the program's own jobs for orphans: it looks a job up by its \<open>deliveryId\<close>, which
  the jobs of the other services do not carry, or else by the job's id. So the job the state synchronizer
  has put on the queue for a PENDING delivery is removed by the next cycle, and the delivery still waits.\<close>
theorem recovery_removes_sync_jobs:
  assumes "bull_laws bq" "unlocked bq" "r \<in> set (rv_rows st)" "dr_status r = PENDING"
    and "\<forall>r' \<in> set (rv_rows st). dr_id r' \<noteq> job_key r"
    and "j \<in> set (bq_jobs bq (rv_main st))" "qj_id j = job_key r" "qj_data j = retry_job_data r"
    and "st' = fst (execute_cycle bq (module_recovery delivery_repository HasAccessors a b) now st)"
  shows "(\<forall>k \<in> set (bq_jobs bq (rv_main st')). qj_id k \<noteq> job_key r) \<and> r \<in> set (rv_rows st')"
proof -
  obtain new where new: "rv_rows st' = rv_rows st"
    "bq_jobs bq (rv_main st') = filter (\<lambda>j. qj_id j \<notin> qj_id ` {j \<in> set (bq_jobs bq (rv_main st) @ new).
        orphaned_by (\<lambda>i. repo_findById i (rv_rows st)) j}) (bq_jobs bq (rv_main st) @ new)"
    by (rule cycle_main [OF assms(1,2,9)])
  have "first_text [text_field ''deliveryId'' (qj_data j), qj_id j] = job_key r" "job_key r \<noteq> []"
    by (simp_all add: assms(7,8) retry_job_data_def text_field_def object_get_def mget_def first_text_def job_key_def)
  moreover have "repo_findById (job_key r) (rv_rows st) = None" using assms(5) by (auto simp: repo_findById_def find_None_iff)
  ultimately have "orphaned_by (\<lambda>i. repo_findById i (rv_rows st)) j" by (simp add: orphaned_by_def)
  then have "job_key r \<in> qj_id ` {j \<in> set (bq_jobs bq (rv_main st) @ new). orphaned_by (\<lambda>i. repo_findById i (rv_rows st)) j}"
    using assms(6,7) by (intro image_eqI [of _ _ j]) auto
  then show ?thesis using assms(3) by (auto simp: new)
qed

lemma list_bull_unlocked: "unlocked list_bull"
  by (simp add: unlocked_def list_bull_def)

theorem recovery_removes_sync_jobs_witness:
  "let r = sample_row ''d1'' PENDING; st = (sample_state [r])\<lparr> rv_main := [\<lparr> qj_id = job_key r, qj_name = job_key r, qj_data = retry_job_data r, qj_delay = 0 \<rparr>] \<rparr> in
     \<exists>st'. st' = fst (execute_cycle list_bull (module_recovery delivery_repository HasAccessors None None) 0 st) \<and>
       (\<forall>k \<in> set (rv_main st'). qj_id k \<noteq> job_key r) \<and> r \<in> set (rv_rows st')"
proof -
  let ?r = "sample_row ''d1'' PENDING"
  let ?st = "(sample_state [?r])\<lparr> rv_main := [\<lparr> qj_id = job_key ?r, qj_name = job_key ?r, qj_data = retry_job_data ?r, qj_delay = 0 \<rparr>] \<rparr>"
  have "(\<forall>k \<in> set (bq_jobs list_bull (rv_main (fst (execute_cycle list_bull (module_recovery delivery_repository HasAccessors None None) 0 ?st)))). qj_id k \<noteq> job_key ?r) \<and>
      ?r \<in> set (rv_rows (fst (execute_cycle list_bull (module_recovery delivery_repository HasAccessors None None) 0 ?st)))"
    by (rule recovery_removes_sync_jobs [OF list_bull_laws list_bull_unlocked _ _ _ _ _ _ refl,
          where j="\<lparr> qj_id = job_key ?r, qj_name = job_key ?r, qj_data = retry_job_data ?r, qj_delay = 0 \<rparr>"])
      (simp_all add: sample_state_def sample_row_def job_key_def list_bull_def)
  then show ?thesis by (simp add: Let_def list_bull_def)
qed

text \<open>The daemon of \<open>setupDaemon\<close>: no detector, and the logger where the reconstructor should be.\<close>

definition setup_recovery :: "int option \<Rightarrow> RecoveryDaemon" where
  "setup_recovery dlqThreshold = \<lparr> rd_detector = None, rd_reconstructor = Some OtherObject,
     rd_dlqMonitor = Some (delivery_repository, dlq_threshold dlqThreshold None) \<rparr>"

text \<open>Neither of the program's two wirings of the recovery daemon recovers anything. The initializer passes no
  repositories and a manager without accessors, and the cycle then does nothing and reports success; the
  daemon setup leaves the logger in the reconstructor's place, and every cycle throws before it looks at the
  dead letters.\<close>
theorem wired_recovery_is_idle:
  "(0 < dlq_threshold b None \<longrightarrow> execute_cycle bq (module_recovery no_repository NoQueue a b) now st = (st, Some (0, 0))) \<and>
   execute_cycle bq (setup_recovery b) now st = (st, None)"
proof
  show "0 < dlq_threshold b None \<longrightarrow> execute_cycle bq (module_recovery no_repository NoQueue a b) now st = (st, Some (0, 0))"
    by (simp add: execute_cycle_def module_recovery_def detector_detectStale_def no_repository_def reconstruct_def enqueuePending_def found_by_def
        enqueueScheduledRetries_def removeOrphaned_def monitorDLQ_def num_or_def publishAlerts_def)
  show "execute_cycle bq (setup_recovery b) now st = (st, None)" by (simp add: execute_cycle_def setup_recovery_def)
qed

theorem wired_recovery_is_idle_witness:
  "execute_cycle list_bull (module_recovery no_repository NoQueue None None) 0 (sample_state [sample_row ''d1'' PROCESSING]) =
     (sample_state [sample_row ''d1'' PROCESSING], Some (0, 0))"
  by (rule wired_recovery_is_idle [THEN conjunct1, THEN mp]) (simp add: dlq_threshold_def num_or_def)

subsection \<open>Properties of the retry processor and the synchronizer\<close>

lemma dispatch_fold:
  "rv_rows (fold (dispatch_retry bq) due st) =
     map (\<lambda>r. if dr_id r \<in> dr_id ` set due then r\<lparr> dr_status := PENDING \<rparr> else r) (rv_rows st) \<and>
   rv_main (fold (dispatch_retry bq) due st) = fold (\<lambda>r. bq_add bq (job_key r) (retry_job_data r) None 0) due (rv_main st)"
proof (induction due arbitrary: st)
  case (Cons r due)
  show ?case by (simp add: Cons.IH) (simp add: dispatch_retry_def set_row_status_def)
qed simp

definition due_rows :: "ms \<Rightarrow> recovery_row list \<Rightarrow> recovery_row list" where
  "due_rows now rows = filter (row_matches (DueBy SCHEDULED_RETRY now)) rows"

definition dispatched :: "ms \<Rightarrow> recovery_row list \<Rightarrow> recovery_row list" where
  "dispatched now rows = map (\<lambda>r. if row_matches (DueBy SCHEDULED_RETRY now) r then r\<lparr> dr_status := PENDING \<rparr> else r) rows"

lemma dispatched_none_due: "due_rows now (dispatched now rows) = []"
  by (auto simp: due_rows_def dispatched_def filter_empty_conv row_matches_def)

lemma dispatch_due:
  assumes "distinct (map dr_id rows)"
  shows "map (\<lambda>r. if dr_id r \<in> dr_id ` set (due_rows now rows) then r\<lparr> dr_status := PENDING \<rparr> else r) rows = dispatched now rows"
proof -
  have "dr_id r \<in> dr_id ` set (due_rows now rows) \<longleftrightarrow> row_matches (DueBy SCHEDULED_RETRY now) r" if "r \<in> set rows" for r
  proof
    assume "dr_id r \<in> dr_id ` set (due_rows now rows)"
    then obtain r' where "r' \<in> set rows" "row_matches (DueBy SCHEDULED_RETRY now) r'" "dr_id r = dr_id r'"
      by (auto simp: due_rows_def)
    then show "row_matches (DueBy SCHEDULED_RETRY now) r" using that assms by (metis distinct_map inj_onD)
  qed (use that in \<open>auto simp: due_rows_def\<close>)
  then show ?thesis by (auto simp: dispatched_def)
qed

lemma process_retries:
  assumes "\<not> rq_processing p" "distinct (map dr_id (rv_rows st))"
  shows "\<exists>st'. processScheduledRetries bq spans now (p, st) = ((p\<lparr> rq_processing := \<not> spans \<rparr>, st'),
      if spans then Some (int (length (due_rows now (rv_rows st)))) else None) \<and>
    rv_rows st' = dispatched now (rv_rows st) \<and>
    rv_main st' = fold (\<lambda>r. bq_add bq (job_key r) (retry_job_data r) None 0) (due_rows now (rv_rows st)) (rv_main st)"
proof -
  let ?st' = "fold (dispatch_retry bq) (due_rows now (rv_rows st)) st"
  have "processScheduledRetries bq spans now (p, st) = ((p\<lparr> rq_processing := \<not> spans \<rparr>, ?st'),
      if spans then Some (int (length (due_rows now (rv_rows st)))) else None)"
    using assms(1) by (simp add: processScheduledRetries_def Let_def due_rows_def)
  then show ?thesis using dispatch_fold [of bq "due_rows now (rv_rows st)" st] dispatch_due [OF assms(2), of now] by auto
qed



lemma add_missing_jobs:
  assumes "bull_laws bq"
  shows "\<exists>new. bq_jobs bq (fst (add_missing bq ids rs (q, n))) = bq_jobs bq q @ new \<and>
      (\<forall>j \<in> set new. \<exists>r \<in> set rs. job_key r \<notin> ids \<and> qj_id j = job_key r \<and> qj_data j = retry_job_data r) \<and>
      (\<forall>r \<in> set rs. job_key r \<notin> ids \<longrightarrow> (\<exists>j \<in> set (bq_jobs bq q @ new). qj_id j = job_key r))"
proof (induction rs arbitrary: q n)
  case (Cons r rs)
  show ?case
  proof (cases "job_key r \<in> ids")
    case True
    then have "add_missing bq ids (r # rs) (q, n) = add_missing bq ids rs (q, n)" by (simp add: add_missing_def)
    then show ?thesis using Cons.IH [of q n] True by (auto 4 4)
  next
    case False
    let ?q = "bq_add bq (job_key r) (retry_job_data r) (Some (job_key r)) 0 q"
    have step: "add_missing bq ids (r # rs) (q, n) = add_missing bq ids rs (?q, n + 1)" using False by (simp add: add_missing_def)
    obtain new where new: "bq_jobs bq (fst (add_missing bq ids rs (?q, n + 1))) = bq_jobs bq ?q @ new"
      "\<forall>j \<in> set new. \<exists>r \<in> set rs. job_key r \<notin> ids \<and> qj_id j = job_key r \<and> qj_data j = retry_job_data r"
      "\<forall>r \<in> set rs. job_key r \<notin> ids \<longrightarrow> (\<exists>j \<in> set (bq_jobs bq ?q @ new). qj_id j = job_key r)"
      using Cons.IH by blast
    show ?thesis
    proof (cases "\<exists>j \<in> set (bq_jobs bq q). qj_id j = job_key r")
      case True
      then have "bq_jobs bq ?q = bq_jobs bq q" using assms unfolding bull_laws_def by metis
      then show ?thesis using new True by (intro exI [of _ new]) (auto simp: step)
    next
      case False2: False
      have "bq_jobs bq ?q = bq_jobs bq q @ [\<lparr> qj_id = job_key r, qj_name = job_key r, qj_data = retry_job_data r, qj_delay = 0 \<rparr>]"
        using False2 by (intro bull_add_new [OF assms]) blast
      then show ?thesis using new False
        by (intro exI [of _ "\<lparr> qj_id = job_key r, qj_name = job_key r, qj_data = retry_job_data r, qj_delay = 0 \<rparr> # new"]) (auto simp: step)
    qed
  qed
qed (simp add: add_missing_def)

lemma prune_jobs_result:
  assumes "bull_laws bq" "unlocked bq"
  shows "bq_jobs bq (fst (prune_jobs bq rows js (q, n, e))) = filter (\<lambda>j. qj_id j \<notin> qj_id ` {j \<in> set js. orphan_job rows j}) (bq_jobs bq q)"
    and "snd (prune_jobs bq rows js (q, n, e)) = (n + int (length (filter (orphan_job rows) js)), e)"
proof -
  have "bq_jobs bq (fst (prune_jobs bq rows js (q, n, e))) = filter (\<lambda>j. qj_id j \<notin> qj_id ` {j \<in> set js. orphan_job rows j}) (bq_jobs bq q) \<and>
    snd (prune_jobs bq rows js (q, n, e)) = (n + int (length (filter (orphan_job rows) js)), e)"
  proof (induction js arbitrary: q n)
    case (Cons j js)
    obtain q' where q': "bq_remove bq (qj_id j) q = Some q'" using assms(2) by (auto simp: unlocked_def)
    have gone: "bq_jobs bq q' = filter (\<lambda>k. qj_id k \<noteq> qj_id j) (bq_jobs bq q)" by (rule bull_remove [OF assms(1) q'])
    show ?case
    proof (cases "orphan_job rows j")
      case True
      then have "prune_jobs bq rows (j # js) (q, n, e) = prune_jobs bq rows js (q', n + 1, e)" by (simp add: prune_jobs_def q')
      then show ?thesis using True Cons.IH [of q' "n + 1"] by (auto simp: gone filter_filter intro!: filter_cong)
    next
      case False
      then have "prune_jobs bq rows (j # js) (q, n, e) = prune_jobs bq rows js (q, n, e)" by (simp add: prune_jobs_def)
      then show ?thesis using False Cons.IH [of q n] by (auto intro!: filter_cong)
    qed
  qed (simp add: prune_jobs_def)
  then show "bq_jobs bq (fst (prune_jobs bq rows js (q, n, e))) = filter (\<lambda>j. qj_id j \<notin> qj_id ` {j \<in> set js. orphan_job rows j}) (bq_jobs bq q)"
    "snd (prune_jobs bq rows js (q, n, e)) = (n + int (length (filter (orphan_job rows) js)), e)" by auto
qed

lemma add_missing_none: "\<forall>r \<in> set rs. job_key r \<in> ids \<Longrightarrow> add_missing bq ids rs acc = acc"
  by (induction rs) (simp_all add: add_missing_def split: prod.splits)

lemma prune_jobs_none: "\<forall>j \<in> set js. \<not> orphan_job rows j \<Longrightarrow> prune_jobs bq rows js acc = acc"
  by (induction js) (simp_all add: prune_jobs_def split: prod.splits)

text \<open>The ids of the database have no colon; a delivery that is soft-deleted is not in the table.\<close>

definition plain_row :: "recovery_row \<Rightarrow> bool" where
  "plain_row r \<longleftrightarrow> dr_taskResultId r \<noteq> [] \<and> CHR '':'' \<notin> set (dr_taskResultId r) \<and> dr_destinationId r \<noteq> [] \<and>
     CHR '':'' \<notin> set (dr_destinationId r) \<and> rr_deletedAt r = None"

lemma key_parts_job_key: "plain_row r \<Longrightarrow> key_parts (job_key r) = Some (dr_taskResultId r, dr_destinationId r)"
  by (simp add: plain_row_def key_parts_def job_key_def split_on_append split_on_fresh)

lemma job_of_row_kept:
  assumes "r \<in> set rows" "\<forall>r \<in> set rows. plain_row r" "qj_id j = job_key r"
  shows "\<not> orphan_job rows j"
proof -
  have "find_pair (dr_taskResultId r) (dr_destinationId r) rows \<noteq> None" using assms(1) by (auto simp: find_pair_def find_None_iff)
  then obtain r' where r': "find_pair (dr_taskResultId r) (dr_destinationId r) rows = Some r'" by blast
  then have "r' \<in> set rows" by (auto simp: find_pair_def find_Some_iff)
  then show ?thesis using assms r' by (auto simp: orphan_job_def key_parts_job_key plain_row_def)
qed

lemma digits_no_parts: "list_all digit_char i \<Longrightarrow> key_parts i = None"
  by (subgoal_tac "CHR '':'' \<notin> set i") (auto simp: key_parts_def split_on_fresh list_all_iff digit_char_def)

lemma sync_jobs:
  assumes "bull_laws bq" "unlocked bq"
  obtains new where "rv_rows (fst (sync bq False st)) = rv_rows st"
    "bq_jobs bq (rv_main (fst (sync bq False st))) = filter (\<lambda>j. qj_id j \<notin> qj_id ` {j \<in> set (bq_jobs bq (rv_main st)). orphan_job (rv_rows st) j})
       (bq_jobs bq (rv_main st) @ new)"
    "\<forall>j \<in> set new. \<exists>r \<in> set (rows_in PENDING (rv_rows st)). job_key r \<notin> qj_id ` set (bq_jobs bq (rv_main st)) \<and> qj_id j = job_key r \<and> qj_data j = retry_job_data r"
    "\<forall>r \<in> set (rows_in PENDING (rv_rows st)). \<exists>j \<in> set (bq_jobs bq (rv_main st) @ new). qj_id j = job_key r"
proof -
  let ?js = "bq_jobs bq (rv_main st)" and ?p = "rows_in PENDING (rv_rows st)"
  let ?ids = "set (filter (\<lambda>i. i \<noteq> []) (map qj_id ?js))"
  have ids: "job_key r \<in> ?ids \<longleftrightarrow> job_key r \<in> qj_id ` set ?js" for r by (simp add: job_key_def)
  obtain new where new: "bq_jobs bq (fst (add_missing bq ?ids ?p (rv_main st, 0))) = ?js @ new"
    "\<forall>j \<in> set new. \<exists>r \<in> set ?p. job_key r \<notin> ?ids \<and> qj_id j = job_key r \<and> qj_data j = retry_job_data r"
    "\<forall>r \<in> set ?p. job_key r \<notin> ?ids \<longrightarrow> (\<exists>j \<in> set (?js @ new). qj_id j = job_key r)"
    using add_missing_jobs [OF assms(1)] by blast
  obtain q n where qn: "add_missing bq ?ids ?p (rv_main st, 0) = (q, n)" by (cases "add_missing bq ?ids ?p (rv_main st, 0)")
  have st': "fst (sync bq False st) = st\<lparr> rv_main := fst (prune_jobs bq (rv_rows st) ?js (q, n, 0)) \<rparr>"
    using qn by (simp add: sync_def Let_def rows_in_def split: prod.split)
  have q: "bq_jobs bq q = ?js @ new" using new(1) by (simp only: qn fst_conv)
  show thesis
  proof (rule that [of new])
    show "rv_rows (fst (sync bq False st)) = rv_rows st" by (simp add: st')
    show "bq_jobs bq (rv_main (fst (sync bq False st))) = filter (\<lambda>j. qj_id j \<notin> qj_id ` {j \<in> set ?js. orphan_job (rv_rows st) j}) (?js @ new)"
      by (simp add: st' prune_jobs_result [OF assms] q)
    show "\<forall>j \<in> set new. \<exists>r \<in> set ?p. job_key r \<notin> qj_id ` set ?js \<and> qj_id j = job_key r \<and> qj_data j = retry_job_data r"
      using new(2) by (simp only: ids)
    show "\<forall>r \<in> set ?p. \<exists>j \<in> set (?js @ new). qj_id j = job_key r"
      using new(3) by (simp only: ids) fastforce
  qed
qed



text \<open>The retry processor and the synchronizer together enqueue a retry twice: the processor's job has an id of
  the queue's own, so the synchronizer does not see it and adds a second job for the delivery, which two
  workers may then run at once.\<close>
theorem due_retry_is_enqueued_twice:
  assumes "bull_laws bq" "unlocked bq" "\<not> rq_processing p" "distinct (map dr_id (rv_rows st))" "distinct (map job_key (rv_rows st))"
    and "\<forall>r \<in> set (rv_rows st). plain_row r" "r \<in> set (due_rows now (rv_rows st))"
    and "\<forall>j \<in> set (bq_jobs bq (rv_main st)). qj_id j \<noteq> job_key r"
    and "processScheduledRetries bq True now (p, st) = ((p', st1), n)" "st2 = fst (sync bq False st1)"
  shows "\<exists>i j. i \<in> set (bq_jobs bq (rv_main st2)) \<and> j \<in> set (bq_jobs bq (rv_main st2)) \<and> qj_id i \<noteq> qj_id j \<and>
    qj_data i = retry_job_data r \<and> qj_data j = retry_job_data r"
proof -
  let ?due = "due_rows now (rv_rows st)" and ?r = "r\<lparr> dr_status := PENDING \<rparr>"
  have st1: "rv_rows st1 = dispatched now (rv_rows st)"
    "rv_main st1 = fold (\<lambda>r. bq_add bq (job_key r) (retry_job_data r) None 0) ?due (rv_main st)"
    using process_retries [OF assms(3,4), where bq=bq and spans=True and now=now] by (auto simp: assms(9))
  obtain new where new: "bq_jobs bq (rv_main st1) = bq_jobs bq (rv_main st) @ new" "map qj_data new = map retry_job_data ?due"
    "\<forall>j \<in> set new. qj_id j \<noteq> [] \<and> list_all digit_char (qj_id j)"
    unfolding st1(2) by (rule fold_add_auto [OF assms(1)])
  have "retry_job_data r \<in> qj_data ` set new" using arg_cong [OF new(2), of set] assms(7) by auto
  then obtain i where i: "i \<in> set new" "qj_data i = retry_job_data r" by auto
  have colon: "\<not> list_all digit_char (job_key r')" for r' by (auto simp: job_key_def digit_char_def)
  obtain more where more: "bq_jobs bq (rv_main st2) = filter (\<lambda>j. qj_id j \<notin> qj_id ` {j \<in> set (bq_jobs bq (rv_main st1)). orphan_job (rv_rows st1) j})
       (bq_jobs bq (rv_main st1) @ more)"
    "\<forall>j \<in> set more. \<exists>r \<in> set (rows_in PENDING (rv_rows st1)). job_key r \<notin> qj_id ` set (bq_jobs bq (rv_main st1)) \<and> qj_id j = job_key r \<and> qj_data j = retry_job_data r"
    "\<forall>r \<in> set (rows_in PENDING (rv_rows st1)). \<exists>j \<in> set (bq_jobs bq (rv_main st1) @ more). qj_id j = job_key r"
    unfolding assms(10) by (rule sync_jobs [OF assms(1,2)])
  have r1: "?r \<in> set (rows_in PENDING (rv_rows st1))"
    using assms(7) by (force simp: rows_in_def st1(1) dispatched_def due_rows_def)
  have same [simp]: "job_key ?r = job_key r" "retry_job_data ?r = retry_job_data r" by (simp_all add: job_key_def retry_job_data_def)
  obtain j where j: "j \<in> set (bq_jobs bq (rv_main st1) @ more)" "qj_id j = job_key r" using more(3) r1 by fastforce
  have "j \<notin> set (bq_jobs bq (rv_main st1))" using j(2) assms(8) new(3) colon by (auto simp: new(1))
  then have jm: "j \<in> set more" using j(1) by auto
  then obtain r' where r': "r' \<in> set (rows_in PENDING (rv_rows st1))" "job_key r' = job_key r" "qj_data j = retry_job_data r'"
    using more(2) j(2) by fastforce
  have keys: "map job_key (rv_rows st1) = map job_key (rv_rows st)" by (simp add: st1(1) dispatched_def job_key_def)
  have "r' = ?r"
    using r1 r' assms(5) keys by (metis (no_types, lifting) distinct_map filter_is_subset inj_onD rows_in_def same(1) subsetD)
  then have jd: "qj_data j = retry_job_data r" using r'(3) by simp
  have live: "i' \<in> set (bq_jobs bq (rv_main st2))"
    if "i' \<in> set (bq_jobs bq (rv_main st1) @ more)" "\<forall>k \<in> set (bq_jobs bq (rv_main st1)). orphan_job (rv_rows st1) k \<longrightarrow> qj_id k \<noteq> qj_id i'" for i'
    using that by (auto simp: more(1))
  have "i \<in> set (bq_jobs bq (rv_main st2))"
  proof (rule live)
    show "i \<in> set (bq_jobs bq (rv_main st1) @ more)" using i(1) by (simp add: new(1))
    show "\<forall>k \<in> set (bq_jobs bq (rv_main st1)). orphan_job (rv_rows st1) k \<longrightarrow> qj_id k \<noteq> qj_id i"
      using new(3) i(1) digits_no_parts by (auto simp: orphan_job_def)
  qed
  moreover have "j \<in> set (bq_jobs bq (rv_main st2))"
  proof (rule live)
    show "\<forall>k \<in> set (bq_jobs bq (rv_main st1)). orphan_job (rv_rows st1) k \<longrightarrow> qj_id k \<noteq> qj_id j"
      using j(2) assms(8) new(3) colon by (auto simp: new(1))
  qed (rule j(1))
  moreover have "qj_id i \<noteq> qj_id j" using new(3) i(1) j(2) colon by fastforce
  ultimately show ?thesis using i(2) jd by blast
qed

theorem due_retry_is_enqueued_twice_witness:
  "\<exists>st2 i j. i \<in> set (rv_main st2) \<and> j \<in> set (rv_main st2) \<and> qj_id i \<noteq> qj_id j \<and>
     qj_data i = retry_job_data (sample_row ''d1'' SCHEDULED_RETRY) \<and> qj_data j = retry_job_data (sample_row ''d1'' SCHEDULED_RETRY) \<and>
     st2 = fst (sync list_bull False (snd (fst (processScheduledRetries list_bull True 1000
       (\<lparr> rq_running = True, rq_processing = False \<rparr>, sample_state [sample_row ''d1'' SCHEDULED_RETRY])))))"
proof -
  let ?p = "\<lparr> rq_running = True, rq_processing = False \<rparr>" and ?r = "sample_row ''d1'' SCHEDULED_RETRY"
  obtain p' st1 n where run: "processScheduledRetries list_bull True 1000 (?p, sample_state [?r]) = ((p', st1), n)" by (metis surj_pair)
  have jobs: "bq_jobs list_bull q = q" for q by (simp add: list_bull_def)
  have "\<exists>i j. i \<in> set (bq_jobs list_bull (rv_main (fst (sync list_bull False st1)))) \<and>
      j \<in> set (bq_jobs list_bull (rv_main (fst (sync list_bull False st1)))) \<and>
      qj_id i \<noteq> qj_id j \<and> qj_data i = retry_job_data ?r \<and> qj_data j = retry_job_data ?r"
    by (rule due_retry_is_enqueued_twice [OF list_bull_laws list_bull_unlocked _ _ _ _ _ _ run refl])
      (simp_all add: jobs sample_state_def sample_row_def plain_row_def due_rows_def row_matches_def)
  then show ?thesis unfolding run fst_conv snd_conv jobs by blast
qed

subsection \<open>Failure analysis\<close>

lemma mget_count_keys: "mget (count_keys ks) k = (if k \<in> set ks then Some (int (count_list ks k)) else None)"
proof -
  have "mget (fold (\<lambda>k m. mset_at k (case mget m k of None \<Rightarrow> 1 | Some n \<Rightarrow> n + 1) m) ks m) k =
      (if k \<in> set ks then Some ((case mget m k of None \<Rightarrow> 0 | Some n \<Rightarrow> n) + int (count_list ks k)) else mget m k)" for m
    by (induction ks arbitrary: m) (auto split: option.splits)
  then show ?thesis by (simp add: count_keys_def)
qed

lemma distinct_count_keys: "distinct (map fst (count_keys ks))"
proof -
  have "distinct (map fst m) \<Longrightarrow> distinct (map fst (fold (\<lambda>k m. mset_at k (case mget m k of None \<Rightarrow> 1 | Some n \<Rightarrow> n + 1) m) ks m))"
    for m :: "(string, int) js_map" by (induction ks arbitrary: m) auto
  then show ?thesis by (simp add: count_keys_def)
qed

lemma count_keys_mem: "(k, n) \<in> set (count_keys ks) \<longleftrightarrow> k \<in> set ks \<and> n = int (count_list ks k)"
proof -
  have "(k, n) \<in> set (count_keys ks) \<longleftrightarrow> mget (count_keys ks) k = Some n"
    unfolding mget_def by (rule map_of_eq_Some_iff [OF distinct_count_keys, symmetric])
  then show ?thesis by (auto simp: mget_count_keys split: if_splits)
qed

lemma sort_take_top:
  assumes "x \<in> set (take n (sort_key f xs))" "y \<in> set xs" "y \<notin> set (take n (sort_key f xs))"
  shows "f x \<le> f y"
proof -
  have "y \<in> set (drop n (sort_key f xs))" using assms(2,3) by (metis UnE append_take_drop_id set_append set_sort)
  moreover have "sorted (map f (take n (sort_key f xs)) @ map f (drop n (sort_key f xs)))"
    by (metis append_take_drop_id map_append sorted_sort_key)
  ultimately show ?thesis using assms(1) by (auto simp: sorted_append)
qed

text \<open>What the table of the five commonest keys says of a list of keys.\<close>

definition top_five :: "string list \<Rightarrow> (string \<times> int) list \<Rightarrow> bool" where
  "top_five ks ts \<longleftrightarrow> length ts \<le> 5 \<and> sorted (map (\<lambda>p. - snd p) ts) \<and> distinct (map fst ts) \<and>
     (\<forall>(k, n) \<in> set ts. k \<in> set ks \<and> n = int (count_list ks k)) \<and>
     (\<forall>k \<in> set ks. k \<notin> fst ` set ts \<longrightarrow> length ts = 5 \<and> (\<forall>(k', n) \<in> set ts. int (count_list ks k) \<le> n))"

lemma object_entries_same: "mset (object_entries m) = mset m"
  by (induction m) (auto simp: object_entries_def)

lemma sortTop_count_keys: "top_five ks (sortTop (count_keys ks))"
proof -
  let ?m = "count_keys ks" and ?all = "sort_key (\<lambda>p. - snd p) (object_entries (count_keys ks))"
  have same: "mset ?all = mset ?m" by (simp add: object_entries_same)
  then have entries: "set ?all = set ?m" by (rule mset_eq_setD)
  have "mset (map fst ?all) = mset (map fst ?m)" using same by (metis mset_map)
  then have dist: "distinct (map fst ?all)" using distinct_count_keys by (metis mset_eq_imp_distinct_iff)
  have sub: "set (take 5 ?all) \<subseteq> set ?m" using entries by (metis set_take_subset)
  have out: "length (take 5 ?all) = 5 \<and> (\<forall>(k', n) \<in> set (take 5 ?all). int (count_list ks k) \<le> n)"
    if k: "k \<in> set ks" "k \<notin> fst ` set (take 5 ?all)" for k
  proof -
    have y: "(k, int (count_list ks k)) \<in> set ?m" using k(1) by (simp add: count_keys_mem)
    have no: "(k, int (count_list ks k)) \<notin> set (take 5 ?all)" using k(2) by force
    have "(k, int (count_list ks k)) \<in> set (object_entries ?m)" using y entries by simp
    then have "int (count_list ks k) \<le> n" if "(k', n) \<in> set (take 5 ?all)" for k' n
      using sort_take_top [OF that _ no] by simp
    moreover have "length (take 5 ?all) = 5"
    proof (rule ccontr)
      assume "length (take 5 ?all) \<noteq> 5"
      then have "take 5 ?all = ?all" by simp
      then show False using no y entries by metis
    qed
    ultimately show ?thesis by blast
  qed
  have "sorted (map (\<lambda>p. - snd p) (take 5 ?all))" by (metis sorted_sort_key sorted_wrt_take take_map)
  moreover have "distinct (map fst (take 5 ?all))" using dist by (metis distinct_take take_map)
  moreover have "\<forall>(k, n) \<in> set (take 5 ?all). k \<in> set ks \<and> n = int (count_list ks k)"
    using sub by (auto simp: count_keys_mem)
  ultimately show ?thesis using out by (simp only: top_five_def sortTop_def) auto
qed

text \<open>The failure analysis of the dead letters is exact: each of its three tables has at most five keys, each
  with the number of dead letters that have it, in descending order, and a key is left out only if five
  keys at least as common are there.\<close>
theorem failure_analysis_is_exact:
  "case analyzeFailures delivery_repository rows of (errors, destinations, agents) \<Rightarrow>
     top_five (map failure_text (rows_in FAILED_DLQ rows)) errors \<and>
     top_five (map (\<lambda>r. text_or (Some (dr_destinationId r)) ''unknown'') (rows_in FAILED_DLQ rows)) destinations \<and>
     top_five (map (\<lambda>r. text_or (rr_agentId r) ''unknown'') (rows_in FAILED_DLQ rows)) agents"
  by (simp add: analyzeFailures_def program_finds Let_def rows_in_def sortTop_count_keys)

end
