(* ===== verification/QF_Health.thy ===== *)
theory QF_Health
  imports QF_Recovery
begin

text \<open>
  Health and its measures: the dependency checker, the analyzer and the health daemon
  (\<open>daemon/health\<close>), the worker monitor over the heartbeats, the metrics collectors
  (\<open>daemon/metrics\<close>), the weighted health score and the tracker of the service level objectives
  (\<open>observability/health\<close>). A dependency is known by the answer of its ping.
\<close>

subsection \<open>Dependencies\<close>

text \<open>A check is absent, a text, or an object with \<open>healthy\<close> and \<open>latencyMs\<close>.\<close>

datatype health_value = HAbsent | HText string | HDetail bool "int option"

record DependencyStatus =
  ck_database :: health_value
  ck_redis :: health_value
  ck_queue :: health_value

datatype ping = Answers ms | Throws ms

text \<open>The first method the client has is called; a client without any is not called and is healthy.\<close>

definition run_ping :: "ping option list \<Rightarrow> health_value" where
  "run_ping methods = (case filter (\<lambda>m. m \<noteq> None) methods of [] \<Rightarrow> HDetail True (Some 0)
     | m # _ \<Rightarrow> (case the m of Answers t \<Rightarrow> HDetail True (Some t) | Throws t \<Rightarrow> HDetail False (Some t)))"

record DependencyChecker =
  dc_queryRaw :: "ping option"
  dc_queryRawUnsafe :: "ping option"
  dc_query :: "ping option"
  dc_ping :: "ping option"
  dc_redis :: "ping option"
  dc_getJobCounts :: "ping option"
  dc_getStats :: "ping option"
  dc_mainQueue :: "ping option"

definition checkDatabase :: "DependencyChecker \<Rightarrow> health_value" where
  "checkDatabase d = run_ping [dc_queryRaw d, dc_queryRawUnsafe d, dc_query d, dc_ping d]"

definition checkRedis :: "DependencyChecker \<Rightarrow> health_value" where
  "checkRedis d = run_ping [dc_redis d]"

definition checkQueue :: "DependencyChecker \<Rightarrow> health_value" where
  "checkQueue d = run_ping [dc_getJobCounts d, dc_getStats d, dc_mainQueue d]"

definition result_healthy :: "health_value \<Rightarrow> bool" where
  "result_healthy v = (case v of HDetail h _ \<Rightarrow> h | HText s \<Rightarrow> s = ''HEALTHY'' \<or> s = ''healthy'' | HAbsent \<Rightarrow> False)"

definition health_text :: "bool \<Rightarrow> health_value" where
  "health_text h = HText (if h then ''HEALTHY'' else ''UNHEALTHY'')"

definition checkAll :: "DependencyChecker \<Rightarrow> DependencyStatus \<times> bool" where
  "checkAll d = (let db = result_healthy (checkDatabase d); redis = result_healthy (checkRedis d); queue = result_healthy (checkQueue d) in
     (\<lparr> ck_database = health_text db, ck_redis = health_text redis, ck_queue = health_text queue \<rparr>, db \<and> redis \<and> queue))"

subsection \<open>Analyzer\<close>

datatype severity = Healthy | Degraded | Unhealthy

definition isHealthy :: "health_value \<Rightarrow> bool" where
  "isHealthy c = (case c of HAbsent \<Rightarrow> False | HText s \<Rightarrow> upper s = ''HEALTHY'' | HDetail h _ \<Rightarrow> h)"

definition getLatency :: "health_value \<Rightarrow> int" where
  "getLatency c = (case c of HDetail _ (Some t) \<Rightarrow> t | _ \<Rightarrow> 0)"

definition points :: "health_value \<Rightarrow> int \<Rightarrow> int \<Rightarrow> int" where
  "points c worth bound = (if isHealthy c then worth - (if getLatency c > bound then 10 else 0) else 0)"

definition calculateScore :: "DependencyStatus \<Rightarrow> int" where
  "calculateScore c = max 0 (min 100 (points (ck_database c) 35 500 + points (ck_redis c) 35 200 + points (ck_queue c) 30 300))"

definition failed_checks :: "DependencyStatus \<Rightarrow> nat" where
  "failed_checks c = length (filter (\<lambda>v. \<not> isHealthy v) [ck_database c, ck_redis c, ck_queue c])"

definition determineSeverity :: "int \<Rightarrow> DependencyStatus option \<Rightarrow> severity" where
  "determineSeverity score checks = (let by_score = (if score \<ge> 90 then Healthy else if score \<ge> 50 then Degraded else Unhealthy) in
     case checks of None \<Rightarrow> by_score
     | Some c \<Rightarrow> if failed_checks c \<ge> 2 then Unhealthy else if failed_checks c = 1 then Degraded else by_score)"

definition analyze :: "DependencyStatus \<Rightarrow> int \<times> severity" where
  "analyze c = (let score = calculateScore c in (score, determineSeverity score (Some c)))"

subsection \<open>Health daemon\<close>

datatype health_alert = CriticalAlert | WarningAlert | RecoveryNotice

definition alert_for :: "severity \<Rightarrow> health_alert" where
  "alert_for s = (case s of Unhealthy \<Rightarrow> CriticalAlert | Degraded \<Rightarrow> WarningAlert | Healthy \<Rightarrow> RecoveryNotice)"

record HealthDaemon =
  hd_checker :: bool
  hd_alerter :: bool
  hd_previousSeverity :: severity
  hd_score :: int
  hd_alerts :: "health_alert list"

definition HealthDaemon_new :: "bool \<Rightarrow> bool \<Rightarrow> HealthDaemon" where
  "HealthDaemon_new checker alerter = \<lparr> hd_checker = checker, hd_alerter = alerter, hd_previousSeverity = Healthy, hd_score = 0, hd_alerts = [] \<rparr>"

text \<open>A cycle, with what the checker would answer. Without a checker everything counts as healthy.\<close>

definition assumed_checks :: DependencyStatus where
  "assumed_checks = \<lparr> ck_database = HDetail True (Some 5), ck_redis = HDetail True (Some 2), ck_queue = HDetail True (Some 3) \<rparr>"

definition health_execute :: "DependencyChecker \<Rightarrow> HealthDaemon \<Rightarrow> HealthDaemon" where
  "health_execute d h = (let checks = (if hd_checker h then fst (checkAll d) else assumed_checks); (score, sev) = analyze checks;
       h = h\<lparr> hd_score := score \<rparr> in
     if sev \<noteq> hd_previousSeverity h
     then h\<lparr> hd_alerts := hd_alerts h @ (if hd_alerter h then [alert_for sev] else []), hd_previousSeverity := sev \<rparr> else h)"

text \<open>What the daemon sees of a dependency: whether its ping throws.\<close>

definition failing :: "DependencyChecker \<Rightarrow> nat" where
  "failing d = length (filter (\<lambda>v. \<not> result_healthy v) [checkDatabase d, checkRedis d, checkQueue d])"

definition severity_of_failures :: "nat \<Rightarrow> severity" where
  "severity_of_failures n = (if n \<ge> 2 then Unhealthy else if n = 1 then Degraded else Healthy)"

lemma isHealthy_text [simp]: "isHealthy (health_text b) = b" "getLatency (health_text b) = 0"
proof -
  have "upper ''HEALTHY'' = ''HEALTHY''" "upper ''UNHEALTHY'' \<noteq> ''HEALTHY''" by code_simp+
  then show "isHealthy (health_text b) = b" by (simp add: isHealthy_def health_text_def del: upper_simps)
  show "getLatency (health_text b) = 0" by (simp add: getLatency_def health_text_def)
qed

lemma analyze_checked:
  "analyze (fst (checkAll d)) =
     ((if result_healthy (checkDatabase d) then 35 else 0) + (if result_healthy (checkRedis d) then 35 else 0) +
        (if result_healthy (checkQueue d) then 30 else 0), severity_of_failures (failing d))"
  by (simp add: analyze_def checkAll_def calculateScore_def points_def determineSeverity_def failed_checks_def failing_def
      severity_of_failures_def Let_def)

text \<open>Behind the checker the latencies never count: whatever the pings take, the score is the sum of the points of
  the dependencies that answer, and the severity is healthy, degraded or unhealthy as none, one or more of
  them fail. A dependency with nothing to ping counts as answering.\<close>
theorem health_is_count_of_failures:
  "analyze (fst (checkAll d)) = ((if result_healthy (checkDatabase d) then 35 else 0) + (if result_healthy (checkRedis d) then 35 else 0) +
      (if result_healthy (checkQueue d) then 30 else 0), severity_of_failures (failing d)) \<and>
   result_healthy (run_ping [Some (Answers t)]) \<and> \<not> result_healthy (run_ping [Some (Throws t)]) \<and> result_healthy (run_ping [None])"
  by (simp add: analyze_checked run_ping_def result_healthy_def)

fun severity_changes :: "severity \<Rightarrow> severity list \<Rightarrow> severity list" where
  "severity_changes s [] = []"
| "severity_changes s (t # ts) = (if t = s then severity_changes s ts else t # severity_changes t ts)"

lemma health_run:
  assumes "hd_checker h"
  shows "hd_alerts (fold health_execute ds h) = hd_alerts h @
      (if hd_alerter h then map alert_for (severity_changes (hd_previousSeverity h) (map (severity_of_failures \<circ> failing) ds)) else []) \<and>
    hd_previousSeverity (fold health_execute ds h) = last (hd_previousSeverity h # map (severity_of_failures \<circ> failing) ds)"
  using assms
proof (induction ds arbitrary: h)
  case (Cons d ds)
  let ?h = "health_execute d h"
  have step: "hd_checker ?h" "hd_alerter ?h = hd_alerter h" "hd_previousSeverity ?h = severity_of_failures (failing d)"
    "hd_alerts ?h = hd_alerts h @ (if hd_alerter h \<and> severity_of_failures (failing d) \<noteq> hd_previousSeverity h
        then [alert_for (severity_of_failures (failing d))] else [])"
    using Cons.prems by (auto simp: health_execute_def analyze_checked Let_def)
  show ?case using Cons.IH [OF step(1)] by (simp add: step)
qed simp

text \<open>A health daemon with a checker and an alerter publishes exactly one event for each change of severity, in order:
  a critical alert, a warning or a recovery; cycles that find the same severity as the last publish nothing.\<close>
theorem health_alerts_follow_changes:
  "hd_alerts (fold health_execute ds (HealthDaemon_new True True)) =
     map alert_for (severity_changes Healthy (map (severity_of_failures \<circ> failing) ds)) \<and>
   hd_previousSeverity (fold health_execute ds (HealthDaemon_new True True)) = last (Healthy # map (severity_of_failures \<circ> failing) ds)"
  using health_run [of "HealthDaemon_new True True" ds] by (simp add: HealthDaemon_new_def)

subsection \<open>Worker monitor\<close>

text \<open>The ids registered in \<open>workers:all\<close> and the answers of \<open>exists heartbeat:id\<close>; None when Redis fails.\<close>

definition checkWorkerHealth :: "string list option \<Rightarrow> (string \<Rightarrow> bool) \<Rightarrow> nat \<times> nat \<times> nat" where
  "checkWorkerHealth registered beats = (case registered of None \<Rightarrow> (0, 0, 0)
     | Some ids \<Rightarrow> (length (filter beats ids), length (filter (\<lambda>i. \<not> beats i) ids), length ids))"

definition monitor_isHealthy :: "int option \<Rightarrow> string list option \<Rightarrow> (string \<Rightarrow> bool) \<Rightarrow> bool" where
  "monitor_isHealthy minActive registered beats \<longleftrightarrow> (case minActive of None \<Rightarrow> 1 | Some n \<Rightarrow> n) \<le> int (fst (checkWorkerHealth registered beats))"

text \<open>The statistics of a worker: its stored texts read by \<open>parseInt\<close>, its last heartbeat from the rest of its 30 seconds.\<close>

record monitor_stats =
  ws_workerId :: string
  ws_activeJobs :: "int option"
  ws_processedJobs :: "int option"
  ws_failedJobs :: "int option"
  ws_lastHeartbeat :: "ms option"
  ws_uptime :: "int option"

definition worker_stats :: "ms \<Rightarrow> string \<Rightarrow> int \<Rightarrow> (string \<Rightarrow> string option) \<Rightarrow> monitor_stats" where
  "worker_stats now i ttl raw = (let num = (\<lambda>k. parse_int (text_or (raw k) ''0'')) in
     \<lparr> ws_workerId = i, ws_activeJobs = num ''active'', ws_processedJobs = num ''processed'', ws_failedJobs = num ''failed'',
       ws_lastHeartbeat = (if ttl > 0 then Some (now - (30 - ttl) * 1000) else None), ws_uptime = num ''uptime'' \<rparr>)"

lemma worker_counts: "case checkWorkerHealth r beats of (active, stale, all) \<Rightarrow> active + stale = all"
  using sum_length_filter_compl [of beats] by (auto simp: checkWorkerHealth_def split: option.splits)

subsection \<open>Weighted health score\<close>

record health_check =
  hc_name :: string
  hc_weight :: rat
  hc_passed :: bool

definition addCheck :: "string \<Rightarrow> rat \<Rightarrow> health_check list \<Rightarrow> health_check list" where
  "addCheck name weight cs = cs @ [\<lparr> hc_name = name, hc_weight = weight, hc_passed = True \<rparr>]"

text \<open>\<open>run\<close> with the outcome of each checker; a checker that throws has not passed.\<close>

definition run_checks :: "(health_check \<Rightarrow> bool option) \<Rightarrow> health_check list \<Rightarrow> health_check list" where
  "run_checks checker cs = map (\<lambda>c. c\<lparr> hc_passed := (checker c = Some True) \<rparr>) cs"

definition health_calculate :: "health_check list \<Rightarrow> int" where
  "health_calculate cs = (let total_w = sum_list (map hc_weight cs) in if cs = [] \<or> total_w \<le> 0 then 100
     else js_round (sum_list (map (\<lambda>c. if hc_passed c then hc_weight c else 0) cs) / total_w * 100))"

definition health_report :: "health_check list \<Rightarrow> int \<times> (string \<times> bool \<times> rat) list" where
  "health_report cs = (health_calculate cs, map (\<lambda>c. (hc_name c, hc_passed c, hc_weight c)) cs)"

text \<open>With weights that are not negative the weighted score lies between 0 and 100 and is 100 when every check
  passes; making one more check pass never lowers it.\<close>
theorem health_score_bounds:
  assumes "\<forall>c \<in> set cs. 0 \<le> hc_weight c" "\<forall>c. checker c = Some True \<longrightarrow> checker' c = Some True"
  shows "0 \<le> health_calculate (run_checks checker cs) \<and> health_calculate (run_checks checker cs) \<le> 100 \<and>
    ((\<forall>c \<in> set cs. checker c = Some True) \<longrightarrow> health_calculate (run_checks checker cs) = 100) \<and>
    health_calculate (run_checks checker cs) \<le> health_calculate (run_checks checker' cs)"
proof -
  define pass where "pass = (\<lambda>(k :: health_check \<Rightarrow> bool option) cs. sum_list (map (\<lambda>c. if k c = Some True then hc_weight c else 0) cs))"
  let ?w = "sum_list (map hc_weight cs)"
  have eval: "health_calculate (run_checks k cs) = (if cs = [] \<or> ?w \<le> 0 then 100 else js_round (pass k cs / ?w * 100))" for k
    by (simp add: health_calculate_def run_checks_def pass_def Let_def comp_def cong: if_cong)
  have range: "0 \<le> pass k cs \<and> pass k cs \<le> ?w" for k
    using assms(1) unfolding pass_def by (auto intro!: sum_list_nonneg sum_list_mono)
  have mono: "pass checker cs \<le> pass checker' cs"
    using assms unfolding pass_def by (intro sum_list_mono) auto
  have all: "pass checker cs = ?w" if "\<forall>c \<in> set cs. checker c = Some True"
    using that unfolding pass_def by (intro arg_cong [where f=sum_list] map_cong) auto
  have round: "js_round x \<le> js_round y" if "x \<le> y" for x y using that by (simp add: js_round_def floor_mono)
  have ends: "js_round 0 = 0" "js_round 100 = 100" by (simp_all add: js_round_def floor_eq_iff)
  show ?thesis
  proof (cases "cs = [] \<or> ?w \<le> 0")
    case False
    then have w: "0 < ?w" by auto
    have q: "0 \<le> pass k cs / ?w * 100 \<and> pass k cs / ?w * 100 \<le> 100" for k using range [of k] w by (simp add: field_simps)
    have "pass checker cs / ?w * 100 \<le> pass checker' cs / ?w * 100" using mono w by (simp add: divide_right_mono)
    then show ?thesis using False q round ends all w by (auto simp: eval) (metis round ends)+
  qed (auto simp: eval)
qed

theorem health_score_bounds_witness:
  "0 \<le> health_calculate (run_checks (\<lambda>c. if hc_name c = ''db'' then None else Some True)
     (addCheck ''redis'' 1 (addCheck ''db'' 3 [])))"
  using health_score_bounds [of "addCheck ''redis'' 1 (addCheck ''db'' 3 [])" "\<lambda>c. if hc_name c = ''db'' then None else Some True" "\<lambda>_. Some True"]
  by (simp add: addCheck_def)

subsection \<open>Service level objectives\<close>

record SLOTracker =
  slo_total :: nat
  slo_successful :: nat
  slo_failed :: nat
  slo_latencies :: "int list"
  slo_availabilityTarget :: rat

definition SLOTracker_new :: "rat option \<Rightarrow> SLOTracker" where
  "SLOTracker_new target = \<lparr> slo_total = 0, slo_successful = 0, slo_failed = 0, slo_latencies = [],
     slo_availabilityTarget = nullish_or target (999 / 10) \<rparr>"

definition trackAvailability :: "bool \<Rightarrow> SLOTracker \<Rightarrow> SLOTracker" where
  "trackAvailability success t = (let t = t\<lparr> slo_total := slo_total t + 1 \<rparr> in
     if success then t\<lparr> slo_successful := slo_successful t + 1 \<rparr> else t\<lparr> slo_failed := slo_failed t + 1 \<rparr>)"

text \<open>The last thousand latencies.\<close>

definition trackLatency :: "int \<Rightarrow> SLOTracker \<Rightarrow> SLOTracker" where
  "trackLatency ms t = (let ls = slo_latencies t @ [ms] in t\<lparr> slo_latencies := (if length ls > 1000 then tl ls else ls) \<rparr>)"

record SLOStatus =
  st_met :: bool
  st_budget :: rat
  st_burndown :: rat

definition percent_of :: "nat \<Rightarrow> SLOTracker \<Rightarrow> rat" where
  "percent_of n t = of_nat n / of_nat (if slo_total t = 0 then 1 else slo_total t) * 100"

definition slo_getStatus :: "SLOTracker \<Rightarrow> SLOStatus" where
  "slo_getStatus t = (let allowed = 100 - slo_availabilityTarget t; actual = percent_of (slo_failed t) t in
     \<lparr> st_met = slo_availabilityTarget t \<le> percent_of (slo_successful t) t, st_budget = max 0 (allowed - actual),
       st_burndown = (if allowed > 0 then actual / allowed * 100 else 0) \<rparr>)"

definition latency_p95 :: "int list \<Rightarrow> int" where
  "latency_p95 ls = (if ls = [] then 0 else sort ls ! min (length ls * 95 div 100) (length ls - 1))"

definition getSLOReport :: "SLOTracker \<Rightarrow> rat \<times> int \<times> rat \<times> SLOStatus" where
  "getSLOReport t = (percent_of (slo_successful t) t, latency_p95 (slo_latencies t), percent_of (slo_failed t) t, slo_getStatus t)"

lemma tracked:
  "slo_total (fold trackAvailability os t) = slo_total t + length os \<and>
   slo_successful (fold trackAvailability os t) = slo_successful t + length (filter (\<lambda>b. b) os) \<and>
   slo_failed (fold trackAvailability os t) = slo_failed t + length (filter Not os) \<and>
   slo_availabilityTarget (fold trackAvailability os t) = slo_availabilityTarget t"
proof (induction os arbitrary: t)
  case (Cons b os)
  show ?case using Cons.IH [of "trackAvailability b t"] by (simp add: trackAvailability_def Let_def)
qed simp

text \<open>After any outcomes, not none, the objective is met exactly when the failures are within the allowed share,
  which is when there is budget left or none was overspent and, for a target under 100, when the burndown is
  at most 100; before the first request it is reported as missed with its whole budget left. At a target of
  100 the burndown is 0 however many requests fail.\<close>
theorem slo_status_is_consistent:
  assumes "target \<le> 100" "t = fold trackAvailability os (SLOTracker_new (Some target))" "s = slo_getStatus t"
  shows "(os \<noteq> [] \<longrightarrow> (st_met s \<longleftrightarrow> of_nat (length (filter Not os)) * 100 \<le> (100 - target) * of_nat (length os)) \<and>
      (target < 100 \<longrightarrow> (st_met s \<longleftrightarrow> st_burndown s \<le> 100) \<and> (0 < st_budget s \<longleftrightarrow> st_burndown s < 100))) \<and>
    (os = [] \<longrightarrow> 0 < target \<longrightarrow> \<not> st_met s \<and> st_budget s = 100 - target \<and> st_burndown s = 0) \<and>
    (target = 100 \<longrightarrow> st_burndown s = 0)"
proof -
  have t: "slo_total t = length os" "slo_successful t = length (filter (\<lambda>b. b) os)" "slo_failed t = length (filter Not os)"
    "slo_availabilityTarget t = target"
    using tracked [of os "SLOTracker_new (Some target)"] by (simp_all add: assms(2) SLOTracker_new_def nullish_or_def)
  have split: "(of_nat (length (filter (\<lambda>b. b) os)) :: rat) = of_nat (length os) - of_nat (length (filter Not os))"
    using sum_length_filter_compl [of "\<lambda>b. b" os] by (simp add: comp_def flip: of_nat_add)
  define n where "n = (of_nat (length os) :: rat)"
  define f where "f = (of_nat (length (filter Not os)) :: rat)"
  show ?thesis
  proof (cases "os = []")
    case True
    then show ?thesis using assms(1) by (simp add: assms(3) slo_getStatus_def percent_of_def t Let_def)
  next
    case False
    then have n: "0 < n" by (simp add: n_def)
    have s: "s = \<lparr> st_met = target \<le> (n - f) / n * 100, st_budget = max 0 (100 - target - f / n * 100),
        st_burndown = (if target < 100 then f / n * 100 / (100 - target) * 100 else 0) \<rparr>"
      using False by (simp add: assms(3) slo_getStatus_def percent_of_def t Let_def split n_def f_def)
    have met: "target \<le> (n - f) / n * 100 \<longleftrightarrow> f * 100 \<le> (100 - target) * n" using n by (simp add: field_simps)
    have e: "f / n * 100 / (100 - target) * 100 = f * 100 / ((100 - target) * n) * 100" by simp
    have burn: "f / n * 100 / (100 - target) * 100 \<le> 100 \<longleftrightarrow> f * 100 \<le> (100 - target) * n" if "target < 100"
      using that n unfolding e by (simp add: pos_divide_le_eq mult.commute)
    have under: "f / n * 100 / (100 - target) * 100 < 100 \<longleftrightarrow> f * 100 < (100 - target) * n" if "target < 100"
      using that n unfolding e by (simp add: pos_divide_less_eq mult.commute)
    have left: "0 < 100 - target - f / n * 100 \<longleftrightarrow> f * 100 < (100 - target) * n" using n by (simp add: field_simps)
    show ?thesis using False met burn under left by (simp add: s less_max_iff_disj flip: n_def f_def)
  qed
qed

theorem slo_status_is_consistent_witness:
  "\<not> st_met (slo_getStatus (fold trackAvailability [True, False, True] (SLOTracker_new (Some 99))))"
  using slo_status_is_consistent [OF _ refl refl, of 99 "[True, False, True]"] by simp

lemma sorted_upto_index:
  assumes "i < length ls"
  shows "length (filter (\<lambda>x. x \<le> sort ls ! i) ls) \<ge> i + 1"
proof -
  have "\<forall>x \<in> set (take (i + 1) (sort ls)). x \<le> sort ls ! i"
    using assms sorted_nth_mono [OF sorted_sort [of ls]] by (auto simp: in_set_conv_nth)
  then have "filter (\<lambda>x. x \<le> sort ls ! i) (take (i + 1) (sort ls)) = take (i + 1) (sort ls)" by (simp add: filter_id_conv)
  then have "length (filter (\<lambda>x. x \<le> sort ls ! i) (sort ls)) \<ge> i + 1"
    using assms by (subst append_take_drop_id [of "i + 1" "sort ls", symmetric], subst filter_append) simp
  moreover have "length (filter (\<lambda>x. x \<le> sort ls ! i) (sort ls)) = length (filter (\<lambda>x. x \<le> sort ls ! i) ls)"
    by (metis mset_filter mset_sort size_mset)
  ultimately show ?thesis by simp
qed

text \<open>The 95th percentile of the latencies is one of them and at least 95 in 100 of them are at most it.\<close>
theorem p95_covers:
  assumes "ls \<noteq> []"
  shows "latency_p95 ls \<in> set ls \<and> 95 * length ls \<le> 100 * length (filter (\<lambda>x. x \<le> latency_p95 ls) ls)"
proof -
  define i where "i = min (length ls * 95 div 100) (length ls - 1)"
  have i: "i < length ls" using assms unfolding i_def by (cases ls) (simp_all add: min_def)
  have p: "latency_p95 ls = sort ls ! i" using assms by (simp add: latency_p95_def i_def)
  have "95 * length ls \<le> 100 * (i + 1)" using assms by (cases ls) (auto simp: i_def min_def)
  then show ?thesis using sorted_upto_index [OF i] i by (simp add: p) (metis le_trans mult_le_mono2 length_sort nth_mem set_sort Suc_leI mult.commute)
qed

theorem p95_covers_witness: "latency_p95 [30, 10, 20] \<in> set [30, 10, 20]"
  using p95_covers [of "[30, 10, 20]"] by simp

subsection \<open>Metrics collectors\<close>

text \<open>The counts of one queue as \<open>getJobCounts\<close> answers, and what \<open>queueManager\<close> can be: a queue with the
  single counters, an object with \<open>getStats\<close>, a manager with \<open>getMainQueue\<close> (and perhaps the two others), or an
  object with \<open>getJobCounts\<close>.\<close>

record queue_stats =
  qs_mainDepth :: "int option"
  qs_waiting :: "int option"
  qs_delayedDepth :: "int option"
  qs_delayed :: "int option"
  qs_dlqDepth :: "int option"
  qs_failed :: "int option"

datatype metrics_source = Counters manager_counts | Stats queue_stats
  | Managers "manager_counts option" "manager_counts option" "manager_counts option" | Counts manager_counts | NoSource | FailingSource

record queue_metrics =
  qx_main :: int
  qx_delayed :: int
  qx_dlq :: int
  qx_successRate :: rat

definition of_counts :: "(manager_counts \<Rightarrow> int) \<Rightarrow> manager_counts option \<Rightarrow> int" where
  "of_counts f c = (case c of None \<Rightarrow> 0 | Some k \<Rightarrow> f k)"

definition queue_collect :: "metrics_source \<Rightarrow> queue_metrics" where
  "queue_collect q = (let m = (\<lambda>a b c r. \<lparr> qx_main = a, qx_delayed = b, qx_dlq = c, qx_successRate = r \<rparr>) in
     case q of
       Counters k \<Rightarrow> (let tot = jc_completed k + jc_failed k in
         m (jc_waiting k + jc_active k) (jc_delayed k) (jc_failed k) (if tot > 0 then of_int (jc_completed k) / of_int tot * 100 else 100))
     | Stats s \<Rightarrow> m (num_or (qs_mainDepth s) (num_or (qs_waiting s) 0)) (num_or (qs_delayedDepth s) (num_or (qs_delayed s) 0))
         (num_or (qs_dlqDepth s) (num_or (qs_failed s) 0)) 100
     | Managers main delayed dlq \<Rightarrow> m (of_counts jc_waiting main + of_counts jc_active main)
         (of_counts jc_delayed delayed + of_counts jc_delayed main) (of_counts jc_failed dlq + of_counts jc_failed main) 100
     | Counts k \<Rightarrow> m (jc_waiting k + jc_active k) (jc_delayed k) (jc_failed k) 100
     | NoSource \<Rightarrow> m 0 0 0 100 | FailingSource \<Rightarrow> m 0 0 0 100)"

text \<open>The bridge of \<open>bullmq-client.ts\<close> as a source: its dead letter queue is reached by \<open>getDLQ\<close>, a name the collector does not
  ask for.\<close>

definition bridge_source :: "manager_counts \<Rightarrow> manager_counts \<Rightarrow> manager_counts \<Rightarrow> metrics_source" where
  "bridge_source main delayed dlq = Managers (Some main) (Some delayed) None"

text \<open>The database's own answers, when it can be reached: completed, dead letters, average retries, the destination types and
  the average latency.\<close>

record database_view =
  dv_completed :: int
  dv_failed :: int
  dv_avgRetries :: "rat option"
  dv_types :: "string option list"
  dv_avgLatency :: "rat option"

record delivery_metrics =
  dm_counts :: "DeliveryStatus \<Rightarrow> int"
  dm_successRate :: rat
  dm_failureRate :: rat
  dm_avgRetries :: rat
  dm_avgLatency :: rat
  dm_byType :: "(string, int) js_map"

definition type_counts :: "string option list \<Rightarrow> (string, int) js_map" where
  "type_counts ts = fold (\<lambda>t m. let k = text_or t ''WEBHOOK'' in mset_at k (case mget m k of None \<Rightarrow> 1 | Some n \<Rightarrow> n + 1) m) ts [(''WEBHOOK'', 0)]"

definition delivery_collect :: "(DeliveryStatus \<Rightarrow> int) option \<Rightarrow> database_view option \<Rightarrow> delivery_metrics" where
  "delivery_collect counts db = (case counts of
       None \<Rightarrow> \<lparr> dm_counts = (\<lambda>_. 0), dm_successRate = 100, dm_failureRate = 0, dm_avgRetries = 0, dm_avgLatency = 0, dm_byType = [] \<rparr>
     | Some c \<Rightarrow> (let
         (done, dead) = (case db of Some v \<Rightarrow> if dv_completed v \<noteq> 0 \<or> dv_failed v \<noteq> 0 then (dv_completed v, dv_failed v) else (c COMPLETED, c FAILED_DLQ)
           | None \<Rightarrow> (c COMPLETED, c FAILED_DLQ));
         tot = done + dead;
         get = (\<lambda>f. case db of None \<Rightarrow> 0 | Some v \<Rightarrow> (case f v of None \<Rightarrow> 0 | Some x \<Rightarrow> x)) in
       \<lparr> dm_counts = c, dm_successRate = (if tot > 0 then of_int done / of_int tot * 100 else 100),
         dm_failureRate = (if tot > 0 then of_int dead / of_int tot * 100 else 0),
         dm_avgRetries = get dv_avgRetries, dm_avgLatency = get dv_avgLatency,
         dm_byType = (case db of None \<Rightarrow> [(''WEBHOOK'', 0)] | Some v \<Rightarrow> type_counts (dv_types v)) \<rparr>))"

text \<open>The aggregator: collectors by name, each with the outcome of its \<open>collect\<close> (None when it has no such method).\<close>

type_synonym collectors = "(string, bool option) js_map"

definition registerCollector :: "string option \<Rightarrow> bool option \<Rightarrow> collectors \<Rightarrow> collectors" where
  "registerCollector name outcome cs = mset_at (text_or name (''Collector-'' @ show_nat (length cs + 1))) outcome cs"

definition unregisterCollector :: "string \<Rightarrow> collectors \<Rightarrow> collectors" where
  "unregisterCollector name cs = mdel name cs"

definition aggregate :: "collectors \<Rightarrow> nat \<times> nat" where
  "aggregate cs = (length (filter (\<lambda>p. snd p = Some True) cs), length (filter (\<lambda>p. snd p = Some False) cs))"

text \<open>The success and failure rates of the delivery metrics are shares of the same whole: between 0 and 100, and together 100
  whenever a delivery has ended; the dead letter queue of the program's queue bridge is never counted, only
  the failures of its main queue.\<close>
theorem metrics_rates:
  assumes "\<forall>s. 0 \<le> c s" "\<forall>v. db = Some v \<longrightarrow> 0 \<le> dv_completed v \<and> 0 \<le> dv_failed v"
  shows "(let m = delivery_collect (Some c) db in 0 \<le> dm_successRate m \<and> dm_successRate m \<le> 100 \<and> 0 \<le> dm_failureRate m \<and>
      dm_failureRate m \<le> 100 \<and> dm_successRate m + dm_failureRate m = 100) \<and>
    qx_dlq (queue_collect (bridge_source main delayed dlq)) = jc_failed main"
proof
  define p where "p = (case db of Some v \<Rightarrow> if dv_completed v \<noteq> 0 \<or> dv_failed v \<noteq> 0 then (dv_completed v, dv_failed v) else (c COMPLETED, c FAILED_DLQ)
           | None \<Rightarrow> (c COMPLETED, c FAILED_DLQ))"
  obtain a b where ab: "p = (a, b)" by (cases p)
  have pos: "0 \<le> a" "0 \<le> b" using ab assms by (auto simp: p_def split: option.splits if_splits)
  have r: "dm_successRate (delivery_collect (Some c) db) = (if a + b > 0 then of_int a / of_int (a + b) * 100 else 100)"
    "dm_failureRate (delivery_collect (Some c) db) = (if a + b > 0 then of_int b / of_int (a + b) * 100 else 0)"
    unfolding delivery_collect_def option.case Let_def p_def [symmetric] ab prod.case by simp_all
  have "of_int a / of_int (a + b) * 100 \<le> (100 :: rat) \<and> of_int b / of_int (a + b) * 100 \<le> (100 :: rat) \<and>
      of_int a / of_int (a + b) * 100 + of_int b / of_int (a + b) * 100 = (100 :: rat) \<and>
      0 \<le> of_int a / (of_int (a + b) :: rat) * 100 \<and> 0 \<le> of_int b / (of_int (a + b) :: rat) * 100" if "a + b > 0"
  proof -
    have w: "(0 :: rat) < of_int (a + b)" using that by (simp only: of_int_0_less_iff)
    have "x / (x + y) * 100 + y / (x + y) * 100 = 100" if "0 < x + y" for x y :: rat
    proof -
      have "x / (x + y) * 100 + y / (x + y) * 100 = (x + y) / (x + y) * 100" by (simp only: add_divide_distrib distrib_right)
      then show ?thesis using that by simp
    qed
    from this [of "of_int a" "of_int b"] w have "of_int a / of_int (a + b) * 100 + of_int b / of_int (a + b) * 100 = (100 :: rat)"
      by (simp only: of_int_add)
    moreover have "0 \<le> of_int a / (of_int (a + b) :: rat) * 100" "0 \<le> of_int b / (of_int (a + b) :: rat) * 100"
      by (intro mult_nonneg_nonneg divide_nonneg_pos w; simp add: pos)+
    ultimately show ?thesis by linarith
  qed
  then show "let m = delivery_collect (Some c) db in 0 \<le> dm_successRate m \<and> dm_successRate m \<le> 100 \<and> 0 \<le> dm_failureRate m \<and>
      dm_failureRate m \<le> 100 \<and> dm_successRate m + dm_failureRate m = 100"
    by (simp add: r Let_def)
  show "qx_dlq (queue_collect (bridge_source main delayed dlq)) = jc_failed main"
    by (simp add: queue_collect_def bridge_source_def of_counts_def)
qed

theorem metrics_rates_witness:
  "dm_successRate (delivery_collect (Some (\<lambda>s. if s = COMPLETED then 3 else 1)) None) +
     dm_failureRate (delivery_collect (Some (\<lambda>s. if s = COMPLETED then 3 else 1)) None) = 100"
  using metrics_rates [of "\<lambda>s. if s = COMPLETED then 3 else 1" None] by (simp add: Let_def)

end
