(* ===== verification/QF_Repos.thy ===== *)
theory QF_Repos
  imports QF_Store QF_Destination QF_Util
begin

text \<open>
  The repositories beside those of deliveries: destinations, task results, the idempotency cache and the audit
  log (\<open>infrastructure/repositories\<close>), the query builder and the transaction manager
  (\<open>infrastructure/database\<close>). A Prisma model delegate is a parameter: the calls the repositories make are the
  fields of \<open>table_client\<close>, what they promise is \<open>table_laws\<close>, and \<open>list_client\<close> has them.
\<close>

subsection \<open>A table of the database\<close>

text \<open>\<open>tc_create\<close> is None when the id is taken (P2002), \<open>tc_update\<close> and \<open>tc_delete\<close> when no row has it (P2025);
  \<open>tc_audit\<close> writes an audit row, None when that fails.\<close>

record audit_event =
  ae_eventType :: string
  ae_entityId :: string
  ae_action :: string
  ae_actorId :: string

record ('r, 'd) table_client =
  tc_find :: "string \<Rightarrow> 'd \<Rightarrow> 'r option"
  tc_list :: "'d \<Rightarrow> 'r list"
  tc_create :: "string \<Rightarrow> 'r \<Rightarrow> 'd \<Rightarrow> 'd option"
  tc_update :: "string \<Rightarrow> ('r \<Rightarrow> 'r) \<Rightarrow> 'd \<Rightarrow> 'd option"
  tc_delete :: "string \<Rightarrow> 'd \<Rightarrow> 'd option"
  tc_deleteMany :: "('r \<Rightarrow> bool) \<Rightarrow> 'd \<Rightarrow> 'd \<times> nat"
  tc_audit :: "audit_event \<Rightarrow> 'd \<Rightarrow> 'd option"

definition table_laws :: "('r, 'd) table_client \<Rightarrow> bool" where
  "table_laws tc \<longleftrightarrow>
     (\<forall>d r. r \<in> set (tc_list tc d) \<longleftrightarrow> (\<exists>i. tc_find tc i d = Some r)) \<and>
     (\<forall>i r d. tc_create tc i r d = None \<longleftrightarrow> tc_find tc i d \<noteq> None) \<and>
     (\<forall>i r d d' j. tc_create tc i r d = Some d' \<longrightarrow> tc_find tc j d' = (if j = i then Some r else tc_find tc j d)) \<and>
     (\<forall>i f d. tc_update tc i f d = None \<longleftrightarrow> tc_find tc i d = None) \<and>
     (\<forall>i f d d' j. tc_update tc i f d = Some d' \<longrightarrow> tc_find tc j d' = (if j = i then map_option f (tc_find tc i d) else tc_find tc j d)) \<and>
     (\<forall>i d. tc_delete tc i d = None \<longleftrightarrow> tc_find tc i d = None) \<and>
     (\<forall>i d d' j. tc_delete tc i d = Some d' \<longrightarrow> tc_find tc j d' = (if j = i then None else tc_find tc j d)) \<and>
     (\<forall>p d j. tc_find tc j (fst (tc_deleteMany tc p d)) = (case tc_find tc j d of None \<Rightarrow> None | Some r \<Rightarrow> if p r then None else Some r)) \<and>
     (\<forall>a d d' j. tc_audit tc a d = Some d' \<longrightarrow> tc_find tc j d' = tc_find tc j d)"

text \<open>A list of rows by their ids, with the audit rows beside it.\<close>

definition list_client :: "('r, (string, 'r) js_map \<times> audit_event list) table_client" where
  "list_client = \<lparr> tc_find = (\<lambda>i d. mget (fst d) i), tc_list = (\<lambda>d. map (\<lambda>i. the (mget (fst d) i)) (remdups (map fst (fst d)))),
     tc_create = (\<lambda>i r d. if mget (fst d) i = None then Some (mset_at i r (fst d), snd d) else None),
     tc_update = (\<lambda>i f d. case mget (fst d) i of None \<Rightarrow> None | Some r \<Rightarrow> Some (mset_at i (f r) (fst d), snd d)),
     tc_delete = (\<lambda>i d. if mget (fst d) i = None then None else Some (mdel i (fst d), snd d)),
     tc_deleteMany = (\<lambda>p d. let gone = filter (\<lambda>i. case mget (fst d) i of Some r \<Rightarrow> p r | None \<Rightarrow> False) (remdups (map fst (fst d))) in
        ((fold mdel gone (fst d), snd d), length gone)),
     tc_audit = (\<lambda>a d. Some (fst d, snd d @ [a])) \<rparr>"

lemma mget_fold_mdel: "mget (fold mdel ks m) k = (if k \<in> set ks then None else mget m k)"
  by (induction ks arbitrary: m) auto

lemma mget_key: "i \<in> fst ` set m \<longleftrightarrow> (\<exists>v. mget m i = Some v)"
  unfolding mget_def by (metis map_of_eq_None_iff not_None_eq)

lemma list_client_rows: "r \<in> set (tc_list list_client d) \<longleftrightarrow> (\<exists>i. tc_find list_client i d = Some r)"
proof -
  have rows: "set (tc_list list_client d) = (\<lambda>i. the (mget (fst d) i)) ` (fst ` set (fst d))" by (simp add: list_client_def)
  have find: "tc_find list_client i d = mget (fst d) i" for i by (simp add: list_client_def)
  show ?thesis unfolding rows find
  proof
    assume "r \<in> (\<lambda>i. the (mget (fst d) i)) ` (fst ` set (fst d))"
    then obtain i where i: "i \<in> fst ` set (fst d)" "r = the (mget (fst d) i)" by blast
    then have "mget (fst d) i = Some r" using mget_key [of i "fst d"] by auto
    then show "\<exists>i. mget (fst d) i = Some r" ..
  next
    assume "\<exists>i. mget (fst d) i = Some r"
    then obtain i where i: "mget (fst d) i = Some r" ..
    then have "i \<in> fst ` set (fst d)" unfolding mget_key by blast
    then show "r \<in> (\<lambda>i. the (mget (fst d) i)) ` (fst ` set (fst d))" by (rule rev_image_eqI) (simp add: i)
  qed
qed

lemma list_client_many:
  "tc_find list_client j (fst (tc_deleteMany list_client p d)) =
     (case tc_find list_client j d of None \<Rightarrow> None | Some r \<Rightarrow> if p r then None else Some r)"
proof -
  have "j \<in> fst ` set (fst d)" if "mget (fst d) j = Some r" for r using that mget_key [of j "fst d"] by blast
  then show ?thesis by (cases "mget (fst d) j") (simp_all add: list_client_def mget_fold_mdel Let_def)
qed

lemma list_client_laws: "table_laws list_client"
  unfolding table_laws_def
proof (intro conjI allI impI list_client_rows list_client_many)
  fix i :: string and r :: 'a and d d' :: "(string, 'a) js_map \<times> audit_event list" and j :: string and f and a
  show "tc_create list_client i r d = None \<longleftrightarrow> tc_find list_client i d \<noteq> None" by (simp add: list_client_def)
  show "tc_update list_client i f d = None \<longleftrightarrow> tc_find list_client i d = None" by (simp add: list_client_def split: option.split)
  show "tc_delete list_client i d = None \<longleftrightarrow> tc_find list_client i d = None" by (simp add: list_client_def)
  show "tc_find list_client j d' = (if j = i then Some r else tc_find list_client j d)" if "tc_create list_client i r d = Some d'"
    using that by (auto simp: list_client_def split: if_splits)
  show "tc_find list_client j d' = (if j = i then map_option f (tc_find list_client i d) else tc_find list_client j d)"
    if "tc_update list_client i f d = Some d'" using that by (auto simp: list_client_def split: option.splits)
  show "tc_find list_client j d' = (if j = i then None else tc_find list_client j d)" if "tc_delete list_client i d = Some d'"
    using that by (auto simp: list_client_def split: if_splits)
  show "tc_find list_client j d' = tc_find list_client j d" if "tc_audit list_client a d = Some d'"
    using that by (auto simp: list_client_def)
qed

lemma table_rows: "table_laws tc \<Longrightarrow> r \<in> set (tc_list tc d) \<longleftrightarrow> (\<exists>i. tc_find tc i d = Some r)"
  by (simp add: table_laws_def)

lemma table_create:
  "table_laws tc \<Longrightarrow> tc_create tc i r d = None \<longleftrightarrow> tc_find tc i d \<noteq> None"
  "table_laws tc \<Longrightarrow> tc_create tc i r d = Some d' \<Longrightarrow> tc_find tc j d' = (if j = i then Some r else tc_find tc j d)"
  by (simp_all add: table_laws_def)

lemma table_update:
  "table_laws tc \<Longrightarrow> tc_update tc i f d = None \<longleftrightarrow> tc_find tc i d = None"
  "table_laws tc \<Longrightarrow> tc_update tc i f d = Some d' \<Longrightarrow>
     tc_find tc j d' = (if j = i then map_option f (tc_find tc i d) else tc_find tc j d)"
  by (simp_all add: table_laws_def)

lemma table_delete:
  "table_laws tc \<Longrightarrow> tc_delete tc i d = None \<longleftrightarrow> tc_find tc i d = None"
  "table_laws tc \<Longrightarrow> tc_delete tc i d = Some d' \<Longrightarrow> tc_find tc j d' = (if j = i then None else tc_find tc j d)"
  by (simp_all add: table_laws_def)

lemma table_deleteMany:
  "table_laws tc \<Longrightarrow> tc_find tc j (fst (tc_deleteMany tc p d)) =
     (case tc_find tc j d of None \<Rightarrow> None | Some r \<Rightarrow> if p r then None else Some r)"
  by (simp add: table_laws_def)

lemma table_audit: "table_laws tc \<Longrightarrow> tc_audit tc a d = Some d' \<Longrightarrow> tc_find tc j d' = tc_find tc j d"
  by (simp add: table_laws_def)

subsection \<open>Base repository\<close>

definition logAudit :: "('r, 'd) table_client \<Rightarrow> audit_event \<Rightarrow> 'd \<Rightarrow> 'd" where
  "logAudit tc a d = (case tc_audit tc a d of None \<Rightarrow> d | Some d' \<Rightarrow> d')"

lemma logAudit_find [simp]: "table_laws tc \<Longrightarrow> tc_find tc j (logAudit tc a d) = tc_find tc j d"
  by (auto simp: logAudit_def table_audit split: option.split)

definition repo_getById :: "('r, 'd) table_client \<Rightarrow> string \<Rightarrow> string \<Rightarrow> 'd \<Rightarrow> worker_error + 'r" where
  "repo_getById tc name i d = (case tc_find tc i d of None \<Rightarrow> Inl (not_found_error (name @ '' not found with id: '' @ i)) | Some r \<Rightarrow> Inr r)"

definition repo_exists :: "('r, 'd) table_client \<Rightarrow> string \<Rightarrow> 'd \<Rightarrow> bool" where
  "repo_exists tc i d \<longleftrightarrow> tc_find tc i d \<noteq> None"

definition audited :: "('r, 'd) table_client \<Rightarrow> string \<Rightarrow> string \<Rightarrow> string \<Rightarrow> 'd \<Rightarrow> ('d, worker_error) eff" where
  "audited tc event i action d = ret (logAudit tc \<lparr> ae_eventType = event, ae_entityId = i, ae_action = action, ae_actorId = ''system'' \<rparr> d)"

definition repo_create :: "('r, 'd) table_client \<Rightarrow> string \<Rightarrow> string \<Rightarrow> 'r \<Rightarrow> 'd \<Rightarrow> ('d, worker_error) eff" where
  "repo_create tc event i r d = (case tc_create tc i r d of None \<Rightarrow> throw d (mapDatabaseError (PrismaCode ''P2002''))
     | Some d' \<Rightarrow> audited tc event i ''CREATE'' d')"

definition repo_update :: "('r, 'd) table_client \<Rightarrow> string \<Rightarrow> string \<Rightarrow> ('r \<Rightarrow> 'r) \<Rightarrow> 'd \<Rightarrow> ('d, worker_error) eff" where
  "repo_update tc event i f d = (case tc_update tc i f d of None \<Rightarrow> throw d (mapDatabaseError (PrismaCode ''P2025''))
     | Some d' \<Rightarrow> audited tc event i ''UPDATE'' d')"

definition repo_delete :: "('r, 'd) table_client \<Rightarrow> string \<Rightarrow> string \<Rightarrow> 'd \<Rightarrow> ('d, worker_error) eff" where
  "repo_delete tc event i d = (case tc_delete tc i d of None \<Rightarrow> throw d (mapDatabaseError (PrismaCode ''P2025''))
     | Some d' \<Rightarrow> audited tc event i ''DELETE'' d')"

lemma repo_finds:
  assumes "table_laws tc"
  shows "tc_find tc j (fst (repo_create tc e i r d)) = (if j = i \<and> tc_find tc i d = None then Some r else tc_find tc j d)"
    and "tc_find tc j (fst (repo_update tc e i f d)) = (if j = i then map_option f (tc_find tc i d) else tc_find tc j d)"
    and "tc_find tc j (fst (repo_delete tc e i d)) = (if j = i then None else tc_find tc j d)"
proof -
  show "tc_find tc j (fst (repo_create tc e i r d)) = (if j = i \<and> tc_find tc i d = None then Some r else tc_find tc j d)"
  proof (cases "tc_create tc i r d")
    case None
    then show ?thesis using table_create(1) [OF assms, of i r d] by (auto simp: repo_create_def throw_def)
  next
    case (Some d')
    then have "tc_find tc i d = None" using table_create(1) [OF assms, of i r d] by simp
    then show ?thesis using table_create(2) [OF assms Some] Some assms by (simp add: repo_create_def audited_def ret_def)
  qed
  show "tc_find tc j (fst (repo_update tc e i f d)) = (if j = i then map_option f (tc_find tc i d) else tc_find tc j d)"
  proof (cases "tc_update tc i f d")
    case None
    then show ?thesis using table_update(1) [OF assms, of i f d] by (simp add: repo_update_def throw_def)
  next
    case (Some d')
    then show ?thesis using table_update(2) [OF assms Some] assms by (simp add: repo_update_def audited_def ret_def)
  qed
  show "tc_find tc j (fst (repo_delete tc e i d)) = (if j = i then None else tc_find tc j d)"
  proof (cases "tc_delete tc i d")
    case None
    then show ?thesis using table_delete(1) [OF assms, of i d] by (simp add: repo_delete_def throw_def)
  next
    case (Some d')
    then show ?thesis using table_delete(2) [OF assms Some] assms by (simp add: repo_delete_def audited_def ret_def)
  qed
qed

subsection \<open>Destinations\<close>

record destination_row =
  de_type :: DestinationType
  de_endpointUrl :: string
  de_enabled :: bool
  de_eventFilters :: "js_record option"
  de_threshold :: int

definition repo_validateEndpoint :: "DestinationType \<Rightarrow> string \<Rightarrow> worker_error + unit" where
  "repo_validateEndpoint type endpoint =
     bindE (guardE (trim endpoint \<noteq> []) (validation_error ''Endpoint identifier must be a non-empty string'')) (\<lambda>_.
       case type of
         DATABASE \<Rightarrow> guardE (list_ex (\<lambda>p. starts_with p endpoint) [''postgresql://'', ''postgres://'', ''mysql://'', ''mongodb://'', ''sqlite://''])
            (validation_error ''Database endpoint connection string must use a supported connection scheme'')
       | QUEUE \<Rightarrow> guardE (\<not> (CHR '' '' \<in> set endpoint \<or> length endpoint < 3))
            (validation_error ''Queue identifier name must not contain spaces and be at least 3 characters'')
       | _ \<Rightarrow> guardE (starts_with ''http://'' endpoint \<or> starts_with ''https://'' endpoint)
            (validation_error ''Endpoint URL must use HTTP or HTTPS scheme''))"

text \<open>A stored destination as the repository means it to be.\<close>

definition valid_destination :: "destination_row \<Rightarrow> bool" where
  "valid_destination r \<longleftrightarrow> okE (repo_validateEndpoint (de_type r) (de_endpointUrl r))"

definition dest_create :: "(destination_row, 'd) table_client \<Rightarrow> string \<Rightarrow> destination_row \<Rightarrow> 'd \<Rightarrow> ('d, worker_error) eff" where
  "dest_create tc i r d = (case repo_validateEndpoint (de_type r) (de_endpointUrl r) of Inl e \<Rightarrow> throw d e
     | Inr _ \<Rightarrow> repo_create tc ''DESTINATION_CREATED'' i r d)"

definition createDestination :: "(destination_row, 'd) table_client \<Rightarrow> string \<Rightarrow> destination_row \<Rightarrow> 'd \<Rightarrow> ('d, worker_error) eff" where
  "createDestination tc i r d =
     (if de_type r \<in> {WEBHOOK, AUDIT} \<and> de_endpointUrl r \<noteq> [] \<and> \<not> starts_with ''http://'' (de_endpointUrl r) \<and> \<not> starts_with ''https://'' (de_endpointUrl r)
      then throw d (validation_error ''Endpoint URL must use HTTP or HTTPS scheme'') else dest_create tc i r d)"

text \<open>The fields an update may give; the endpoint is validated only when both it and the type are given.\<close>

record destination_patch =
  pt_type :: "DestinationType option"
  pt_endpointUrl :: "string option"
  pt_enabled :: "bool option"
  pt_eventFilters :: "js_record option option"
  pt_threshold :: "int option"

definition apply_patch :: "destination_patch \<Rightarrow> destination_row \<Rightarrow> destination_row" where
  "apply_patch p r = \<lparr> de_type = nullish_or (pt_type p) (de_type r), de_endpointUrl = nullish_or (pt_endpointUrl p) (de_endpointUrl r),
     de_enabled = nullish_or (pt_enabled p) (de_enabled r), de_eventFilters = nullish_or (pt_eventFilters p) (de_eventFilters r),
     de_threshold = nullish_or (pt_threshold p) (de_threshold r) \<rparr>"

definition empty_patch :: destination_patch where
  "empty_patch = \<lparr> pt_type = None, pt_endpointUrl = None, pt_enabled = None, pt_eventFilters = None, pt_threshold = None \<rparr>"

definition dest_update :: "(destination_row, 'd) table_client \<Rightarrow> string \<Rightarrow> destination_patch \<Rightarrow> 'd \<Rightarrow> ('d, worker_error) eff" where
  "dest_update tc i p d = (case (case (pt_type p, pt_endpointUrl p) of
        (Some t, Some u) \<Rightarrow> if u \<noteq> [] then repo_validateEndpoint t u else Inr () | _ \<Rightarrow> Inr ()) of
      Inl e \<Rightarrow> throw d e | Inr _ \<Rightarrow> repo_update tc ''DESTINATION_UPDATED'' i (apply_patch p) d)"

definition dest_delete :: "(destination_row, 'd) table_client \<Rightarrow> string \<Rightarrow> 'd \<Rightarrow> ('d, worker_error) eff" where
  "dest_delete tc i d = repo_delete tc ''DESTINATION_DELETED'' i d"

definition toggleEnabled :: "(destination_row, 'd) table_client \<Rightarrow> string \<Rightarrow> bool \<Rightarrow> 'd \<Rightarrow> ('d, worker_error) eff" where
  "toggleEnabled tc i enabled d = dest_update tc i (empty_patch\<lparr> pt_enabled := Some enabled \<rparr>) d"

definition repo_updateThreshold :: "(destination_row, 'd) table_client \<Rightarrow> string \<Rightarrow> int \<Rightarrow> 'd \<Rightarrow> ('d, worker_error) eff" where
  "repo_updateThreshold tc i threshold d =
     (if threshold < 1 \<or> threshold > 100 then throw d (validation_error ''Circuit breaker threshold must be between 1 and 100'')
      else dest_update tc i (empty_patch\<lparr> pt_threshold := Some threshold \<rparr>) d)"

definition repo_findEnabled :: "(destination_row, 'd) table_client \<Rightarrow> 'd \<Rightarrow> destination_row list" where
  "repo_findEnabled tc d = filter de_enabled (tc_list tc d)"

definition repo_findByType :: "(destination_row, 'd) table_client \<Rightarrow> DestinationType \<Rightarrow> 'd \<Rightarrow> destination_row list" where
  "repo_findByType tc t d = filter (\<lambda>r. de_type r = t) (tc_list tc d)"

definition row_accepts :: "destination_row \<Rightarrow> js_record \<Rightarrow> bool" where
  "row_accepts r filters = (case de_eventFilters r of None \<Rightarrow> True
     | Some fs \<Rightarrow> list_all (\<lambda>k. strict_eq (js_get fs k) (js_get filters k)) (map fst filters))"

definition repo_findMatching :: "(destination_row, 'd) table_client \<Rightarrow> js_record \<Rightarrow> 'd \<Rightarrow> destination_row list" where
  "repo_findMatching tc filters d = filter (\<lambda>r. row_accepts r filters) (repo_findEnabled tc d)"

text \<open>The statistics of a destination's deliveries, each with its status and the response times of its attempts.\<close>

record DestinationStats =
  sx_total :: nat
  sx_completed :: nat
  sx_failed :: nat
  sx_successRate :: rat
  sx_averageLatencyMs :: rat

definition getDestinationStats :: "(DeliveryStatus \<times> int list) list \<Rightarrow> DestinationStats" where
  "getDestinationStats ds = (let n = length ds; done = length (filter (\<lambda>p. fst p = COMPLETED) ds); times = concat (map snd ds) in
     \<lparr> sx_total = n, sx_completed = done, sx_failed = length (filter (\<lambda>p. fst p = FAILED_DLQ) ds),
       sx_successRate = (if n > 0 then of_nat done / of_nat n * 100 else 0),
       sx_averageLatencyMs = (if times \<noteq> [] then of_int (sum_list times) / of_nat (length times) else 0) \<rparr>)"

definition repo_countByType :: "(destination_row, 'd) table_client \<Rightarrow> 'd \<Rightarrow> DestinationType \<Rightarrow> nat" where
  "repo_countByType tc d t = length (repo_findByType tc t d)"

text \<open>The writes of the repository, and the patches it checks: both endpoint and type, or neither.\<close>

datatype destination_op = CreateOp string destination_row | CheckedCreateOp string destination_row | UpdateOp string destination_patch
  | DeleteOp string | ToggleOp string bool | ThresholdOp string int

definition checked_patch :: "destination_patch \<Rightarrow> bool" where
  "checked_patch p \<longleftrightarrow> (case (pt_type p, pt_endpointUrl p) of (None, None) \<Rightarrow> True | (Some _, Some u) \<Rightarrow> u \<noteq> [] | _ \<Rightarrow> False)"

definition destination_run :: "(destination_row, 'd) table_client \<Rightarrow> destination_op \<Rightarrow> 'd \<Rightarrow> 'd" where
  "destination_run tc x d = fst (case x of CreateOp i r \<Rightarrow> dest_create tc i r d | CheckedCreateOp i r \<Rightarrow> createDestination tc i r d
     | UpdateOp i p \<Rightarrow> dest_update tc i p d | DeleteOp i \<Rightarrow> dest_delete tc i d | ToggleOp i b \<Rightarrow> toggleEnabled tc i b d
     | ThresholdOp i n \<Rightarrow> repo_updateThreshold tc i n d)"

definition all_valid :: "(destination_row, 'd) table_client \<Rightarrow> 'd \<Rightarrow> bool" where
  "all_valid tc d \<longleftrightarrow> (\<forall>r \<in> set (tc_list tc d). valid_destination r)"

lemma all_valid_find: "table_laws tc \<Longrightarrow> all_valid tc d \<longleftrightarrow> (\<forall>i r. tc_find tc i d = Some r \<longrightarrow> valid_destination r)"
  by (auto simp: all_valid_def table_rows)

lemma create_keeps_valid:
  assumes "table_laws tc" "all_valid tc d" shows "all_valid tc (fst (dest_create tc i r d))"
  using assms(2) by (auto simp: all_valid_find [OF assms(1)] dest_create_def repo_finds [OF assms(1)] valid_destination_def throw_def
      okE_iff split: sum.splits if_splits)

lemma update_keeps_valid:
  assumes "table_laws tc" "all_valid tc d" "checked_patch p" shows "all_valid tc (fst (dest_update tc i p d))"
proof -
  have ok: "valid_destination (apply_patch p r)"
    if "valid_destination r" "\<not> (\<exists>t u e. pt_type p = Some t \<and> pt_endpointUrl p = Some u \<and> repo_validateEndpoint t u = Inl e)" for r
    using that assms(3) by (cases "pt_type p"; cases "pt_endpointUrl p")
      (auto simp: valid_destination_def apply_patch_def nullish_or_def checked_patch_def okE_iff, metis Inr_not_Inl sum.exhaust old.unit.exhaust)
  show ?thesis
  proof (cases "\<exists>t u e. pt_type p = Some t \<and> pt_endpointUrl p = Some u \<and> repo_validateEndpoint t u = Inl e")
    case True
    then have "fst (dest_update tc i p d) = d" using assms(3) by (auto simp: dest_update_def checked_patch_def throw_def)
    then show ?thesis using assms(2) by simp
  next
    case False
    then have "dest_update tc i p d = repo_update tc ''DESTINATION_UPDATED'' i (apply_patch p) d"
      by (auto simp: dest_update_def split: option.split sum.split)
    then show ?thesis using assms(2) ok [OF _ False]
      by (auto simp: all_valid_find [OF assms(1)] repo_finds [OF assms(1)] split: if_splits)
  qed
qed


definition sample_destination :: destination_row where
  "sample_destination = \<lparr> de_type = WEBHOOK, de_endpointUrl = ''https://a.io'', de_enabled = True, de_eventFilters = None, de_threshold = 5 \<rparr>"


text \<open>A record as the database and the request bring it: keys once, no \<open>undefined\<close> and no \<open>NaN\<close>.\<close>

definition plain_record :: "js_record \<Rightarrow> bool" where
  "plain_record r \<longleftrightarrow> distinct (map fst r) \<and> VUndefined \<notin> snd ` set r \<and> VNaN \<notin> snd ` set r"

lemma plain_get: "plain_record r \<Longrightarrow> (k, v) \<in> set r \<Longrightarrow> js_get r k = v"
  by (simp add: plain_record_def js_get_def nullish_or_def)

lemma plain_strict:
  assumes "plain_record a" "(k, v) \<in> set a" shows "strict_eq (js_get b k) v \<longleftrightarrow> js_get b k = v"
  using assms by (force simp: strict_eq_def plain_record_def)

lemma plain_member: "plain_record b \<Longrightarrow> v \<noteq> VUndefined \<Longrightarrow> js_get b k = v \<longleftrightarrow> (k, v) \<in> set b"
  by (auto simp: js_get_def nullish_or_def plain_record_def map_of_eq_Some_iff split: option.splits dest: map_of_SomeD eq_key_imp_eq_value)

lemma plain_filter_entries_iff:
  assumes "plain_record fs" "plain_record e" shows "filter_entries fs e \<longleftrightarrow> set fs \<subseteq> set e"
proof -
  have "filter_entries gs e \<longleftrightarrow> set gs \<subseteq> set e" if "set gs \<subseteq> set fs" for gs
    using that
  proof (induction gs)
    case (Cons p gs)
    obtain k v where p: "p = (k, v)" by (cases p)
    have kv: "(k, v) \<in> set fs" using Cons.prems p by simp
    have "v \<noteq> VUndefined" using kv assms(1) by (force simp: plain_record_def)
    then have "strict_eq (js_get e k) v \<longleftrightarrow> (k, v) \<in> set e"
      using plain_strict [OF assms(1) kv] plain_member [OF assms(2)] by blast
    then show ?case using Cons p by auto
  qed simp
  then show ?thesis by blast
qed

lemma row_accepts_iff:
  assumes "plain_record fs" "plain_record e" "de_eventFilters r = Some fs"
  shows "row_accepts r e \<longleftrightarrow> set e \<subseteq> set fs"
proof -
  have "strict_eq (js_get fs k) (js_get e k) \<longleftrightarrow> (k, v) \<in> set fs" if "(k, v) \<in> set e" for k v
  proof -
    have "v \<noteq> VUndefined" using that assms(2) by (force simp: plain_record_def)
    then show ?thesis
      using plain_get [OF assms(2) that] plain_strict [OF assms(2) that, of fs] plain_member [OF assms(1)] by simp
  qed
  then show ?thesis by (auto simp: row_accepts_def assms(3) list_all_iff)
qed

text \<open>The repository's event matching asks the converse of the entity's: it selects an enabled destination with
  filters when the event's entries are among its filters, the entity when its filters are among the event's
  entries. They agree on such a destination only for an event that is the filters themselves.\<close>
theorem matching_is_converse:
  assumes "plain_record fs" "plain_record e" "fs \<noteq> []" "de_eventFilters r = Some fs" "ds_eventFilters d = Some fs"
  shows "(row_accepts r e \<longleftrightarrow> set e \<subseteq> set fs) \<and> (matchesEventFilter d e \<longleftrightarrow> set fs \<subseteq> set e) \<and>
    (row_accepts r e \<and> matchesEventFilter d e \<longleftrightarrow> set e = set fs)"
  using row_accepts_iff [OF assms(1,2,4)] plain_filter_entries_iff [OF assms(1,2)] assms(3)
  by (auto simp: matchesEventFilter_def assms(5))

definition filtered_entity :: "js_record \<Rightarrow> Destination" where
  "filtered_entity fs = \<lparr> ds_id = ''w'', ds_type = WEBHOOK, ds_endpoint = ''https://a.io'', ds_eventFilters = Some fs,
     ds_retryStrategy = \<lparr> rs_type = ''EXPONENTIAL'', rs_config = \<lparr> initialDelayMs = 1, maxDelayMs = 2, jitterFactor = 0, maxRetries = None \<rparr> \<rparr>,
     ds_circuitBreakerThreshold = 5, ds_timeout = 1000, ds_enabled = True, ds_metadata = [], ds_createdAt = 0, ds_updatedAt = 0, ds_deletedAt = None \<rparr>"

theorem matching_is_converse_witness:
  "row_accepts (sample_destination\<lparr> de_eventFilters := Some [(''agent'', VStr ''a''), (''kind'', VStr ''b'')] \<rparr>) [(''agent'', VStr ''a'')] \<and>
   \<not> matchesEventFilter (filtered_entity [(''agent'', VStr ''a''), (''kind'', VStr ''b'')]) [(''agent'', VStr ''a'')]"
proof -
  let ?fs = "[(''agent'', VStr ''a''), (''kind'', VStr ''b'')]" and ?e = "[(''agent'', VStr ''a'')]"
  have "plain_record ?fs" "plain_record ?e" by (simp_all add: plain_record_def)
  from matching_is_converse [OF this, of "sample_destination\<lparr> de_eventFilters := Some ?fs \<rparr>" "filtered_entity ?fs"]
  show ?thesis by (simp add: filtered_entity_def)
qed

subsection \<open>Task results\<close>

record result_row =
  re_emailId :: string
  re_agentId :: string
  re_confidenceScore :: rat
  re_createdAt :: ms

text \<open>\<open>/^[^\s@]+@[^\s@]+\.[^\s@]+$/\<close>\<close>

definition email_shape :: "string \<Rightarrow> bool" where
  "email_shape v \<longleftrightarrow> (case split_on (CHR ''@'') v of
      [l, d] \<Rightarrow> l \<noteq> [] \<and> \<not> list_ex is_space l \<and> \<not> list_ex is_space d \<and> list_ex (\<lambda>i. d ! i = CHR ''.'') [1..<length d - 1]
    | _ \<Rightarrow> False)"

definition result_create :: "(result_row, 'd) table_client \<Rightarrow> string \<Rightarrow> result_row \<Rightarrow> 'd \<Rightarrow> ('d, worker_error) eff" where
  "result_create tc i r d = repo_create tc ''TASK_RESULT_CREATED'' i r d"

definition createResult :: "(result_row, 'd) table_client \<Rightarrow> string \<Rightarrow> result_row \<Rightarrow> 'd \<Rightarrow> ('d, worker_error) eff" where
  "createResult tc i r d = (if \<not> email_shape (re_emailId r) then throw d (validation_error ''Invalid email format'') else result_create tc i r d)"

definition result_delete :: "(result_row, 'd) table_client \<Rightarrow> string \<Rightarrow> 'd \<Rightarrow> ('d, worker_error) eff" where
  "result_delete tc i d = repo_delete tc ''TASK_RESULT_DELETED'' i d"

definition result_deleteOlderThan :: "(result_row, 'd) table_client \<Rightarrow> ms \<Rightarrow> 'd \<Rightarrow> 'd \<times> nat" where
  "result_deleteOlderThan tc date d = tc_deleteMany tc (\<lambda>r. re_createdAt r < date) d"

definition result_findByDateRange :: "(result_row, 'd) table_client \<Rightarrow> ms \<Rightarrow> ms \<Rightarrow> 'd \<Rightarrow> result_row list" where
  "result_findByDateRange tc startDate endDate d = filter (\<lambda>r. startDate \<le> re_createdAt r \<and> re_createdAt r \<le> endDate) (tc_list tc d)"

definition countByEmailId :: "(result_row, 'd) table_client \<Rightarrow> string \<Rightarrow> 'd \<Rightarrow> nat" where
  "countByEmailId tc e d = length (filter (\<lambda>r. re_emailId r = e) (tc_list tc d))"

definition getResultStats :: "result_row list \<Rightarrow> nat \<times> rat \<times> (string, int) js_map" where
  "getResultStats rs = (if rs = [] then (0, 0, [])
     else (length rs, sum_list (map re_confidenceScore rs) / of_nat (length rs),
       fold (\<lambda>r m. mset_at (re_agentId r) (case mget m (re_agentId r) of None \<Rightarrow> 1 | Some n \<Rightarrow> n + 1) m) rs []))"

subsection \<open>Idempotency cache\<close>

record cache_entry =
  ce_deliveryId :: string
  ce_expiresAt :: ms

definition getCompositeKey :: "string \<Rightarrow> string \<Rightarrow> string" where
  "getCompositeKey r d = r @ CHR '':'' # d"

definition cache_deleteById :: "(cache_entry, 'd) table_client \<Rightarrow> string \<Rightarrow> 'd \<Rightarrow> ('d, worker_error) eff" where
  "cache_deleteById tc k d = (case tc_delete tc k d of None \<Rightarrow> throw d (mapDatabaseError (PrismaCode ''P2025'')) | Some d' \<Rightarrow> ret d')"

text \<open>A read deletes the entry it finds expired.\<close>

definition findByCompositeKey :: "(cache_entry, 'd) table_client \<Rightarrow> ms \<Rightarrow> string \<Rightarrow> string \<Rightarrow> 'd \<Rightarrow> 'd \<times> (worker_error + cache_entry option)" where
  "findByCompositeKey tc now r i d = (let k = getCompositeKey r i in case tc_find tc k d of
       None \<Rightarrow> (d, Inr None)
     | Some e \<Rightarrow> if ce_expiresAt e \<le> now then (case cache_deleteById tc k d of (d', None) \<Rightarrow> (d', Inr None) | (d', Some err) \<Rightarrow> (d', Inl err))
         else (d, Inr (Some e)))"

text \<open>\<open>upsert\<close>\<close>

definition cache_set :: "(cache_entry, 'd) table_client \<Rightarrow> ms \<Rightarrow> string \<Rightarrow> string \<Rightarrow> string \<Rightarrow> int \<Rightarrow> 'd \<Rightarrow> 'd" where
  "cache_set tc now r i delivery ttlSeconds d = (let k = getCompositeKey r i; e = \<lparr> ce_deliveryId = delivery, ce_expiresAt = now + ttlSeconds * 1000 \<rparr> in
     case tc_update tc k (\<lambda>_. e) d of Some d' \<Rightarrow> d' | None \<Rightarrow> (case tc_create tc k e d of Some d' \<Rightarrow> d' | None \<Rightarrow> d))"

definition cache_exists :: "(cache_entry, 'd) table_client \<Rightarrow> ms \<Rightarrow> string \<Rightarrow> string \<Rightarrow> 'd \<Rightarrow> 'd \<times> bool" where
  "cache_exists tc now r i d = (case findByCompositeKey tc now r i d of (d', Inr (Some _)) \<Rightarrow> (d', True) | (d', _) \<Rightarrow> (d', False))"

definition cache_delete :: "(cache_entry, 'd) table_client \<Rightarrow> string \<Rightarrow> string \<Rightarrow> 'd \<Rightarrow> ('d, worker_error) eff" where
  "cache_delete tc r i d = cache_deleteById tc (getCompositeKey r i) d"

definition deleteExpired :: "(cache_entry, 'd) table_client \<Rightarrow> ms \<Rightarrow> 'd \<Rightarrow> 'd \<times> nat" where
  "deleteExpired tc now d = tc_deleteMany tc (\<lambda>e. ce_expiresAt e \<le> now) d"

text \<open>What a read answers.\<close>

definition cached :: "(cache_entry, 'd) table_client \<Rightarrow> ms \<Rightarrow> string \<Rightarrow> string \<Rightarrow> 'd \<Rightarrow> (worker_error + cache_entry option)" where
  "cached tc now r i d = snd (findByCompositeKey tc now r i d)"

lemma cached_iff:
  assumes "table_laws tc"
  shows "cached tc now r i d = Inr (case tc_find tc (getCompositeKey r i) d of None \<Rightarrow> None
     | Some e \<Rightarrow> if ce_expiresAt e \<le> now then None else Some e)"
proof (cases "tc_find tc (getCompositeKey r i) d")
  case None
  then show ?thesis by (simp add: cached_def findByCompositeKey_def)
next
  case (Some e)
  then obtain d' where "tc_delete tc (getCompositeKey r i) d = Some d'"
    using table_delete(1) [OF assms, of "getCompositeKey r i" d] by fastforce
  then show ?thesis using Some by (simp add: cached_def findByCompositeKey_def Let_def cache_deleteById_def ret_def)
qed

lemma find_after_set:
  assumes "table_laws tc"
  shows "tc_find tc k (cache_set tc now r i x ttl d) =
    (if k = getCompositeKey r i then Some \<lparr> ce_deliveryId = x, ce_expiresAt = now + ttl * 1000 \<rparr> else tc_find tc k d)"
proof -
  let ?k = "getCompositeKey r i" and ?e = "\<lparr> ce_deliveryId = x, ce_expiresAt = now + ttl * 1000 \<rparr>"
  show ?thesis
  proof (cases "tc_update tc ?k (\<lambda>_. ?e) d")
    case None
    then have none: "tc_find tc ?k d = None" using table_update(1) [OF assms] by blast
    then obtain d' where d': "tc_create tc ?k ?e d = Some d'" using table_create(1) [OF assms, of ?k ?e d] by fastforce
    then have "cache_set tc now r i x ttl d = d'" using None by (simp add: cache_set_def Let_def)
    then show ?thesis using table_create(2) [OF assms d'] by simp
  next
    case (Some d')
    then have "tc_find tc ?k d \<noteq> None" using table_update(1) [OF assms, of ?k "\<lambda>_. ?e" d] by simp
    moreover have "cache_set tc now r i x ttl d = d'" using Some by (simp add: cache_set_def Let_def)
    ultimately show ?thesis using table_update(2) [OF assms Some] by auto
  qed
qed

text \<open>An entry that was set is read back until its seconds have passed and not after; the sweep of expired entries, and a
  read's own deletion, change no later answer for any key; two pairs of ids share an entry exactly when their
  composite texts are the same.\<close>
theorem idempotency_cache_reads:
  assumes "table_laws tc" "now \<le> t"
  shows "cached tc t r i (cache_set tc now r i x ttl d) =
      Inr (if t < now + ttl * 1000 then Some \<lparr> ce_deliveryId = x, ce_expiresAt = now + ttl * 1000 \<rparr> else None) \<and>
    cached tc t r' i' (fst (deleteExpired tc now d)) = cached tc t r' i' d \<and>
    cached tc t r' i' (fst (findByCompositeKey tc now r i d)) = cached tc t r' i' d \<and>
    (getCompositeKey r' i' \<noteq> getCompositeKey r i \<longrightarrow> cached tc t r' i' (cache_set tc now r i x ttl d) = cached tc t r' i' d)"
proof (intro conjI impI)
  show "cached tc t r i (cache_set tc now r i x ttl d) =
      Inr (if t < now + ttl * 1000 then Some \<lparr> ce_deliveryId = x, ce_expiresAt = now + ttl * 1000 \<rparr> else None)"
    by (auto simp: cached_iff [OF assms(1)] find_after_set [OF assms(1)])
  show "cached tc t r' i' (fst (deleteExpired tc now d)) = cached tc t r' i' d"
    using assms(2) by (auto simp: cached_iff [OF assms(1)] deleteExpired_def table_deleteMany [OF assms(1)] split: option.split)
  show "cached tc t r' i' (fst (findByCompositeKey tc now r i d)) = cached tc t r' i' d"
  proof (cases "\<exists>e. tc_find tc (getCompositeKey r i) d = Some e \<and> ce_expiresAt e \<le> now")
    case True
    then obtain e where e: "tc_find tc (getCompositeKey r i) d = Some e" "ce_expiresAt e \<le> now" by blast
    then obtain d' where d': "tc_delete tc (getCompositeKey r i) d = Some d'"
      using table_delete(1) [OF assms(1), of "getCompositeKey r i" d] by fastforce
    then have "fst (findByCompositeKey tc now r i d) = d'" using e by (simp add: findByCompositeKey_def Let_def cache_deleteById_def ret_def)
    then show ?thesis using table_delete(2) [OF assms(1) d'] e assms(2) by (auto simp: cached_iff [OF assms(1)])
  next
    case False
    then have "fst (findByCompositeKey tc now r i d) = d" by (auto simp: findByCompositeKey_def Let_def split: option.split)
    then show ?thesis by simp
  qed
  show "cached tc t r' i' (cache_set tc now r i x ttl d) = cached tc t r' i' d" if "getCompositeKey r' i' \<noteq> getCompositeKey r i"
    using that by (simp add: cached_iff [OF assms(1)] find_after_set [OF assms(1)])
qed

theorem idempotency_cache_reads_witness:
  "cached list_client 5000 ''r'' ''d'' (cache_set list_client 0 ''r'' ''d'' ''x'' 10 ([], [])) = Inr (Some \<lparr> ce_deliveryId = ''x'', ce_expiresAt = 10000 \<rparr>)"
  using idempotency_cache_reads [OF list_client_laws, of 0 5000 "''r''" "''d''" "''x''" 10 "([], [])" "''r''" "''d''"] by simp

subsection \<open>Audit log\<close>

record audit_row =
  al_eventType :: string
  al_entityType :: string
  al_entityId :: string
  al_actorId :: "string option"
  al_action :: string
  al_createdAt :: ms

definition audit_create :: "(audit_row, 'd) table_client \<Rightarrow> string \<Rightarrow> audit_row \<Rightarrow> 'd \<Rightarrow> ('d, worker_error) eff" where
  "audit_create tc i a d = (case tc_create tc i a d of None \<Rightarrow> throw d (mapDatabaseError (PrismaCode ''P2002'')) | Some d' \<Rightarrow> ret d')"

text \<open>\<open>update\<close>, \<open>delete\<close>, \<open>updateMany\<close> and \<open>deleteMany\<close> all refuse; only the retention purge removes rows.\<close>

definition audit_update :: "'d \<Rightarrow> ('d, worker_error) eff" where
  "audit_update d = throw d (validation_error ''Audit logs are immutable and cannot be updated'')"

definition audit_delete :: "'d \<Rightarrow> ('d, worker_error) eff" where
  "audit_delete d = throw d (validation_error ''Audit logs are immutable and cannot be deleted'')"

definition purgeOlderThan :: "(audit_row, 'd) table_client \<Rightarrow> ms \<Rightarrow> int \<Rightarrow> 'd \<Rightarrow> 'd \<times> nat" where
  "purgeOlderThan tc now days d = (let cutoff = now - days * 86400000 in tc_deleteMany tc (\<lambda>a. al_createdAt a < cutoff) d)"

definition queryLogs :: "(audit_row, 'd) table_client \<Rightarrow> string option \<Rightarrow> string option \<Rightarrow> (ms \<times> ms) option \<Rightarrow> 'd \<Rightarrow> audit_row list" where
  "queryLogs tc eventType entityId dateRange d = filter (\<lambda>a.
       (str_or eventType [] \<noteq> [] \<longrightarrow> eventType = Some (al_eventType a)) \<and>
       (str_or entityId [] \<noteq> [] \<longrightarrow> entityId = Some (al_entityId a)) \<and>
       (case dateRange of None \<Rightarrow> True | Some (startDate, endDate) \<Rightarrow> startDate \<le> al_createdAt a \<and> al_createdAt a \<le> endDate)) (tc_list tc d)"

datatype audit_op = LogOp string audit_row | UpdateLogOp | DeleteLogOp | PurgeOp ms int

definition audit_run :: "(audit_row, 'd) table_client \<Rightarrow> audit_op \<Rightarrow> 'd \<Rightarrow> 'd" where
  "audit_run tc x d = (case x of LogOp i a \<Rightarrow> fst (audit_create tc i a d) | UpdateLogOp \<Rightarrow> fst (audit_update d)
     | DeleteLogOp \<Rightarrow> fst (audit_delete d) | PurgeOp now days \<Rightarrow> fst (purgeOlderThan tc now days d))"

text \<open>C30: The audit log is append only: whatever is logged, updated, deleted or purged, in any order, a row stays as it is until
  a purge whose retention it has outlived, and no operation changes a row.\<close>
theorem audit_log_is_append_only:
  assumes "table_laws tc" "tc_find tc i d = Some a"
  shows "tc_find tc i (fold (audit_run tc) ops d) = Some a \<or>
    (\<exists>now days. PurgeOp now days \<in> set ops \<and> al_createdAt a < now - days * 86400000)"
  using assms(2)
proof (induction ops arbitrary: d)
  case (Cons x ops)
  have step: "tc_find tc i (audit_run tc x d) = Some a \<or> (\<exists>now days. x = PurgeOp now days \<and> al_createdAt a < now - days * 86400000)"
  proof (cases x)
    case (LogOp j b)
    then show ?thesis using Cons.prems table_create(1) [OF assms(1), of j b d] table_create(2) [OF assms(1), of j b d]
      by (cases "tc_create tc j b d") (auto simp: audit_run_def audit_create_def ret_def throw_def)
  next
    case (PurgeOp now days)
    then show ?thesis using Cons.prems by (simp add: audit_run_def purgeOlderThan_def table_deleteMany [OF assms(1)])
  qed (use Cons.prems in \<open>simp_all add: audit_run_def audit_update_def audit_delete_def throw_def\<close>)
  then show ?case using Cons.IH by auto
qed simp

theorem audit_log_is_append_only_witness:
  "let a = \<lparr> al_eventType = ''E'', al_entityType = ''T'', al_entityId = ''1'', al_actorId = None, al_action = ''CREATE'', al_createdAt = 86400000 \<rparr> in
     tc_find list_client ''a1'' (fold (audit_run list_client) [UpdateLogOp, DeleteLogOp, PurgeOp 86400001 1] ([(''a1'', a)], [])) = Some a"
proof -
  let ?a = "\<lparr> al_eventType = ''E'', al_entityType = ''T'', al_entityId = ''1'', al_actorId = None, al_action = ''CREATE'', al_createdAt = 86400000 \<rparr>"
  have "tc_find list_client ''a1'' ([(''a1'', ?a)], []) = Some ?a" by (simp add: list_client_def mget_def)
  from audit_log_is_append_only [OF list_client_laws this, of "[UpdateLogOp, DeleteLogOp, PurgeOp 86400001 1]"]
  show ?thesis by (simp add: Let_def)
qed

subsection \<open>Query builder\<close>

record built_query =
  bu_where :: "(string, string) js_map option"
  bu_orderBy :: "(string \<times> bool) option"
  bu_include :: "string list option"
  bu_select :: "string list option"
  bu_take :: "int option"
  bu_skip :: "int option"

definition empty_query :: built_query where
  "empty_query = \<lparr> bu_where = None, bu_orderBy = None, bu_include = None, bu_select = None, bu_take = None, bu_skip = None \<rparr>"

definition query_where :: "(string, string) js_map \<Rightarrow> built_query \<Rightarrow> built_query" where
  "query_where cond q = q\<lparr> bu_where := Some (fold (\<lambda>(k, v). mset_at k v) cond (nullish_or (bu_where q) [])) \<rparr>"

definition query_orderBy :: "string \<Rightarrow> bool \<Rightarrow> built_query \<Rightarrow> built_query" where
  "query_orderBy field asc q = q\<lparr> bu_orderBy := Some (field, asc) \<rparr>"

definition query_paginate :: "int \<Rightarrow> int \<Rightarrow> built_query \<Rightarrow> built_query" where
  "query_paginate page limit q = (let t = max 1 limit in q\<lparr> bu_take := Some t, bu_skip := Some (max 0 ((page - 1) * t)) \<rparr>)"

definition query_include :: "string list \<Rightarrow> built_query \<Rightarrow> (built_query, string) eff" where
  "query_include rels q = (if bu_select q \<noteq> None then throw q ''Cannot use both include and select properties in a single Prisma query''
     else ret (q\<lparr> bu_include := Some rels \<rparr>))"

definition query_select :: "string list \<Rightarrow> built_query \<Rightarrow> (built_query, string) eff" where
  "query_select cols q = (if bu_include q \<noteq> None then throw q ''Cannot use both select and include properties in a single Prisma query''
     else ret (q\<lparr> bu_select := Some cols \<rparr>))"

datatype query_op = WhereOp "(string, string) js_map" | OrderOp string bool | PageOp int int | IncludeOp "string list" | SelectOp "string list"

definition query_run :: "query_op \<Rightarrow> built_query \<Rightarrow> built_query" where
  "query_run x q = (case x of WhereOp c \<Rightarrow> query_where c q | OrderOp f a \<Rightarrow> query_orderBy f a q | PageOp p l \<Rightarrow> query_paginate p l q
     | IncludeOp r \<Rightarrow> fst (query_include r q) | SelectOp f \<Rightarrow> fst (query_select f q))"

text \<open>However a query is built it never has both an inclusion and a selection, takes at least one row and skips no negative
  number, and what it takes and skips come together.\<close>
theorem built_queries_are_valid:
  "let q = fold query_run ops empty_query in
     \<not> (bu_include q \<noteq> None \<and> bu_select q \<noteq> None) \<and> (bu_take q = None \<longleftrightarrow> bu_skip q = None) \<and>
     pred_option (\<lambda>n. 1 \<le> n) (bu_take q) \<and> pred_option (\<lambda>n. 0 \<le> n) (bu_skip q)"
proof -
  define ok where "ok = (\<lambda>q :: built_query. \<not> (bu_include q \<noteq> None \<and> bu_select q \<noteq> None) \<and> (bu_take q = None \<longleftrightarrow> bu_skip q = None) \<and>
     pred_option (\<lambda>n. 1 \<le> n) (bu_take q) \<and> pred_option (\<lambda>n. 0 \<le> n) (bu_skip q))"
  have "ok (query_run x q)" if "ok q" for x q
    using that by (cases x) (auto simp: ok_def query_run_def query_where_def query_orderBy_def query_paginate_def query_include_def
        query_select_def ret_def throw_def Let_def)
  then have "ok q \<Longrightarrow> ok (fold query_run ops q)" for q by (induction ops arbitrary: q) auto
  moreover have "ok empty_query" by (simp add: ok_def empty_query_def)
  ultimately show ?thesis by (simp add: ok_def Let_def)
qed

subsection \<open>Transactions\<close>

datatype tx_error = PrismaError string string | MappedError worker_error

definition txe_message :: "tx_error \<Rightarrow> string" where
  "txe_message e = (case e of PrismaError _ m \<Rightarrow> m | MappedError w \<Rightarrow> we_message w)"

definition txe_code :: "tx_error \<Rightarrow> string" where
  "txe_code e = (case e of PrismaError c _ \<Rightarrow> c | MappedError w \<Rightarrow> str_or (we_code w) [])"

definition isDeadlock :: "tx_error \<Rightarrow> bool" where
  "isDeadlock e \<longleftrightarrow> txe_code e = ''P2034'' \<or> includes_str (lower (txe_message e)) ''deadlock'' \<or> includes_str (lower (txe_message e)) ''serialization''"

definition infrastructure_error :: "string \<Rightarrow> worker_error" where
  "infrastructure_error message = BaseError ''Error'' ''UNKNOWN_ERROR'' 500 message"

definition tx_handleError :: "tx_error \<Rightarrow> worker_error" where
  "tx_handleError e = (case e of MappedError w \<Rightarrow> w
     | PrismaError c m \<Rightarrow> if c = ''P2002'' then conflict_error ''Database record already exists due to unique constraint violation.''
         else if c = ''P2003'' then validation_error ''Database reference integrity constraint violation.''
         else infrastructure_error (''Transaction query execution failed: '' @ m))"

text \<open>\<open>$transaction(callback)\<close> of the client: what the callback wrote is kept if it returns and undone if it throws. The
  callback may behave differently in each attempt (a deadlock depends on the others).\<close>

definition client_transaction :: "('d \<Rightarrow> 'd \<times> (tx_error + 'a)) \<Rightarrow> 'd \<Rightarrow> 'd \<times> (tx_error + 'a)" where
  "client_transaction cb d = (case cb d of (d', Inr x) \<Rightarrow> (d', Inr x) | (_, Inl e) \<Rightarrow> (d, Inl e))"

text \<open>The loop: the state after it, the waits made and the outcome. \<open>attempt\<close> counts up to 3, so that the recursion ends.\<close>

function run_with_retry :: "(nat \<Rightarrow> 'd \<Rightarrow> 'd \<times> (tx_error + 'a)) \<Rightarrow> nat \<Rightarrow> int \<Rightarrow> 'd \<Rightarrow> 'd \<times> int list \<times> (worker_error + 'a)" where
  "run_with_retry cb attempt delay d = (if attempt \<ge> 3 then (d, [], Inl (internal_error ''Transaction failed after maximum retries''))
     else (case client_transaction (cb attempt) d of
         (d', Inr x) \<Rightarrow> (d', [], Inr x)
       | (d', Inl e) \<Rightarrow> if isDeadlock e \<and> attempt + 1 < 3
           then (case run_with_retry cb (attempt + 1) (delay * 2) d' of (d2, ws, r) \<Rightarrow> (d2, delay # ws, r))
           else (d', [], Inl (tx_handleError e))))"
  by pat_completeness auto
termination by (relation "measure (\<lambda>(cb, attempt, delay, d). 3 - attempt)") auto

declare run_with_retry.simps [simp del]

definition transaction_run :: "(nat \<Rightarrow> 'd \<Rightarrow> 'd \<times> (tx_error + 'a)) \<Rightarrow> 'd \<Rightarrow> 'd \<times> int list \<times> (worker_error + 'a)" where
  "transaction_run cb d = run_with_retry cb 0 100 d"

lemma run_with_retry_result:
  assumes "attempt < 3"
  shows "\<exists>k < 3. attempt \<le> k \<and> (\<forall>j. attempt \<le> j \<longrightarrow> j < k \<longrightarrow> (\<exists>e. snd (cb j d) = Inl e \<and> isDeadlock e)) \<and>
    (case snd (cb k d) of
       Inr x \<Rightarrow> run_with_retry cb attempt delay d = (fst (cb k d), map (\<lambda>n. delay * 2 ^ n) [0..<k - attempt], Inr x)
     | Inl e \<Rightarrow> (\<not> isDeadlock e \<or> k = 2) \<and>
         run_with_retry cb attempt delay d = (d, map (\<lambda>n. delay * 2 ^ n) [0..<k - attempt], Inl (tx_handleError e)))"
  using assms
proof (induction cb attempt delay d rule: run_with_retry.induct)
  case (1 cb attempt delay d)
  note unfold = run_with_retry.simps [of cb attempt delay d]
  obtain d' r where cb: "cb attempt d = (d', r)" by (cases "cb attempt d")
  show ?case
  proof (cases r)
    case (Inr x)
    then have "run_with_retry cb attempt delay d = (d', [], Inr x)" using 1(2) cb by (simp add: unfold client_transaction_def)
    then show ?thesis using 1(2) cb Inr by (intro exI [of _ attempt]) simp
  next
    case (Inl e)
    show ?thesis
    proof (cases "isDeadlock e \<and> attempt + 1 < 3")
      case False
      then have "run_with_retry cb attempt delay d = (d, [], Inl (tx_handleError e))"
        using 1(2) cb Inl by (auto simp: unfold client_transaction_def)
      then show ?thesis using 1(2) cb Inl False by (intro exI [of _ attempt]) auto
    next
      case True
      have ct: "client_transaction (cb attempt) d = (d, Inl e)" using cb Inl by (simp add: client_transaction_def)
      obtain d2 ws res where rec: "run_with_retry cb (attempt + 1) (delay * 2) d = (d2, ws, res)" by (metis prod_cases3)
      have run: "run_with_retry cb attempt delay d = (d2, delay # ws, res)" using 1(2) True rec by (simp add: unfold ct)
      have "attempt + 1 < 3" using True by simp
      from "1.IH" [OF _ ct [symmetric] refl True this] 1(2)
      obtain k where k: "k < 3" "attempt + 1 \<le> k" "\<forall>j. attempt + 1 \<le> j \<longrightarrow> j < k \<longrightarrow> (\<exists>e. snd (cb j d) = Inl e \<and> isDeadlock e)"
        "case snd (cb k d) of
           Inr x \<Rightarrow> run_with_retry cb (attempt + 1) (delay * 2) d = (fst (cb k d), map (\<lambda>n. delay * 2 * 2 ^ n) [0..<k - (attempt + 1)], Inr x)
         | Inl e \<Rightarrow> (\<not> isDeadlock e \<or> k = 2) \<and>
             run_with_retry cb (attempt + 1) (delay * 2) d = (d, map (\<lambda>n. delay * 2 * 2 ^ n) [0..<k - (attempt + 1)], Inl (tx_handleError e))"
        by auto
      have waits: "delay # map (\<lambda>n. delay * 2 * 2 ^ n) [0..<k - (attempt + 1)] = map (\<lambda>n. delay * 2 ^ n) [0..<k - attempt]"
      proof -
        have "[0..<k - attempt] = 0 # map Suc [0..<k - (attempt + 1)]"
          using k(2) by (simp add: map_Suc_upt upt_conv_Cons Suc_diff_Suc)
        then show ?thesis by simp
      qed
      have dead: "\<forall>j. attempt \<le> j \<longrightarrow> j < k \<longrightarrow> (\<exists>e. snd (cb j d) = Inl e \<and> isDeadlock e)"
        using k(3) cb Inl True by (metis Suc_eq_plus1 le_antisym not_less_eq_eq snd_conv)
      show ?thesis
        using k dead waits run rec by (intro exI [of _ k]) (auto split: sum.splits)
    qed
  qed
qed

text \<open>C33: A transaction takes effect at most once: the callback is run up to three times, every run before the last having met a
  deadlock, after waits of 100 and 200 milliseconds, and the database is left as the last run wrote it if that returned
  and untouched if it threw. It throws only for an error that is no deadlock or a deadlock in the third run.\<close>
theorem transactions_take_effect_once:
  "\<exists>k < 3. (\<forall>j < k. \<exists>e. snd (cb j d) = Inl e \<and> isDeadlock e) \<and>
    (case snd (cb k d) of
       Inr x \<Rightarrow> transaction_run cb d = (fst (cb k d), take k [100, 200], Inr x)
     | Inl e \<Rightarrow> (\<not> isDeadlock e \<or> k = 2) \<and> transaction_run cb d = (d, take k [100, 200], Inl (tx_handleError e)))"
proof -
  obtain k where k: "k < 3" "\<forall>j. j < k \<longrightarrow> (\<exists>e. snd (cb j d) = Inl e \<and> isDeadlock e)"
    "case snd (cb k d) of
       Inr x \<Rightarrow> run_with_retry cb 0 100 d = (fst (cb k d), map (\<lambda>n. 100 * 2 ^ n) [0..<k - 0], Inr x)
     | Inl e \<Rightarrow> (\<not> isDeadlock e \<or> k = 2) \<and> run_with_retry cb 0 100 d = (d, map (\<lambda>n. 100 * 2 ^ n) [0..<k - 0], Inl (tx_handleError e))"
    using run_with_retry_result [of 0 cb d 100] by auto
  have "k = 0 \<or> k = 1 \<or> k = 2" using k(1) by auto
  then have "map (\<lambda>n. (100 :: int) * 2 ^ n) [0..<k - 0] = take k [100, 200]" by (auto simp: numeral_2_eq_2)
  then show ?thesis using k by (intro exI [of _ k]) (simp add: transaction_run_def split: sum.split_asm)
qed

theorem transactions_take_effect_once_witness:
  "transaction_run (\<lambda>j d. if j = 0 then (d + 1, Inl (PrismaError ''P2034'' [])) else (d + 10, Inr j)) (5 :: int) = (15, [100], Inr 1)"
proof -
  define cb where "cb = (\<lambda>j (d :: int). if j = (0 :: nat) then (d + 1, Inl (PrismaError ''P2034'' [])) else (d + 10, Inr j))"
  have dl: "isDeadlock (PrismaError ''P2034'' [])" by (simp add: isDeadlock_def txe_code_def)
  obtain k where k: "k < 3" "\<forall>j < k. \<exists>e. snd (cb j 5) = Inl e \<and> isDeadlock e"
    "case snd (cb k 5) of Inr x \<Rightarrow> transaction_run cb 5 = (fst (cb k 5), take k [100, 200], Inr x)
      | Inl e \<Rightarrow> (\<not> isDeadlock e \<or> k = 2) \<and> transaction_run cb 5 = (5, take k [100, 200], Inl (tx_handleError e))"
    using transactions_take_effect_once [of cb 5] by blast
  have "k \<noteq> 0"
  proof
    assume "k = 0"
    then show False using k(3) dl by (simp add: cb_def)
  qed
  moreover have "k \<noteq> 2" using k(2) by (auto simp: cb_def dest!: spec [of _ 1])
  ultimately have "k = 1" using k(1) by linarith
  then show ?thesis using k(3) unfolding cb_def by simp
qed

end
