(* ===== verification/QF_Settings.thy ===== *)
theory QF_Settings
  imports QF_Config QF_Json
begin

text \<open>
  The program's settings (\<open>config\<close>): reading the environment (\<open>EnvLoader\<close>, \<open>parseEnv\<close>), the loaders of
  each part's settings, and the one configuration object that \<open>loadConfigSync\<close> builds, checks and keeps.

  The environment is a function from names to texts. The parameters are the \<open>dotenv\<close> package (what its
  \<open>config\<close> makes of the environment), the files that exist, and \<open>new URL\<close> with \<open>decodeURIComponent\<close>. A loader
  returns the settings or the error of the first check that fails; the texts of the errors are left out, and
  so is the freezing of the objects.
\<close>

subsection \<open>Numbers from text\<close>

text \<open>\<open>Number(s)\<close> on a text.\<close>

datatype js_num = Fin rat | Infinite bool | NotNum

definition radix_digit :: "nat \<Rightarrow> char \<Rightarrow> bool" where
  "radix_digit b c \<longleftrightarrow> (case hex_val c of None \<Rightarrow> False | Some d \<Rightarrow> d < b)"

definition radix_text :: "nat \<Rightarrow> string \<Rightarrow> js_num" where
  "radix_text b s = (if s \<noteq> [] \<and> list_all (radix_digit b) s
     then Fin (of_nat (foldl (\<lambda>n c. n * b + the (hex_val c)) 0 s)) else NotNum)"

definition take_sign :: "string \<Rightarrow> bool \<times> string" where
  "take_sign s = (case s of [] \<Rightarrow> (False, []) | c # r \<Rightarrow>
     if c = CHR ''-'' then (True, r) else if c = CHR ''+'' then (False, r) else (False, s))"

definition power_of_ten :: "string \<Rightarrow> rat option" where
  "power_of_ten s = (case s of [] \<Rightarrow> Some 1 | c # r \<Rightarrow>
     if c \<noteq> CHR ''e'' \<and> c \<noteq> CHR ''E'' then None
     else (let (neg, d) = take_sign r in
       if d = [] \<or> \<not> list_all digit_char d then None
       else Some (if neg then 1 / 10 ^ read_digits d else 10 ^ read_digits d)))"

definition decimal_text :: "string \<Rightarrow> js_num" where
  "decimal_text s =
     (let i = takeWhile digit_char s; r = dropWhile digit_char s;
          (f, r') = (case r of [] \<Rightarrow> ([], []) | c # t \<Rightarrow> if c = CHR ''.'' then (takeWhile digit_char t, dropWhile digit_char t) else ([], r))
      in if i = [] \<and> f = [] then NotNum
         else (case power_of_ten r' of None \<Rightarrow> NotNum
           | Some e \<Rightarrow> Fin (of_nat (read_digits (i @ f)) / 10 ^ length f * e)))"

definition negated :: "js_num \<Rightarrow> js_num" where
  "negated v = (case v of Fin x \<Rightarrow> Fin (- x) | Infinite b \<Rightarrow> Infinite (\<not> b) | NotNum \<Rightarrow> NotNum)"

definition js_Number :: "string \<Rightarrow> js_num" where
  "js_Number s =
     (let t = trim s; (neg, u) = take_sign t;
          v = (if u = ''Infinity'' then Infinite False else decimal_text u)
      in if t = [] then Fin 0
         else if lower (take 2 t) = ''0x'' then radix_text 16 (drop 2 t)
         else if lower (take 2 t) = ''0o'' then radix_text 8 (drop 2 t)
         else if lower (take 2 t) = ''0b'' then radix_text 2 (drop 2 t)
         else if neg then negated v else v)"

text \<open>The comparisons: with \<open>NaN\<close> all are false.\<close>

definition below :: "js_num \<Rightarrow> rat \<Rightarrow> bool" where
  "below v b \<longleftrightarrow> (case v of Fin x \<Rightarrow> x < b | Infinite neg \<Rightarrow> neg | NotNum \<Rightarrow> False)"

definition above :: "js_num \<Rightarrow> rat \<Rightarrow> bool" where
  "above v b \<longleftrightarrow> (case v of Fin x \<Rightarrow> b < x | Infinite neg \<Rightarrow> \<not> neg | NotNum \<Rightarrow> False)"

definition more_than :: "js_num \<Rightarrow> js_num \<Rightarrow> bool" where
  "more_than v w \<longleftrightarrow> (case w of Fin x \<Rightarrow> above v x
     | Infinite neg \<Rightarrow> neg \<and> v \<noteq> NotNum \<and> v \<noteq> Infinite True | NotNum \<Rightarrow> False)"

definition max_num :: "js_num \<Rightarrow> js_num \<Rightarrow> js_num" where
  "max_num v w = (if v = NotNum \<or> w = NotNum then NotNum else if more_than v w then v else w)"

definition plus_num :: "js_num \<Rightarrow> rat \<Rightarrow> js_num" where
  "plus_num v b = (case v of Fin x \<Rightarrow> Fin (x + b) | _ \<Rightarrow> v)"

text \<open>A decimal text of an integer is read as that integer.\<close>

lemma js_Number_show_nat [simp]: "js_Number (show_nat n) = Fin (of_nat n)"
proof -
  obtain c s where cs: "show_nat n = c # s" by (cases "show_nat n") auto
  have all: "list_all digit_char (c # s)" using show_nat_digits [of n] cs by simp
  have trim: "trim (show_nat n) = show_nat n"
    using all cs by (intro trim_unchanged) (auto simp: list_all_iff split: if_splits)
  have two: "lower (take 2 (c # s)) \<noteq> [CHR ''0'', x]" if "x \<in> set ''xob''" for x
  proof (cases s)
    case (Cons d t)
    then have "digit_char d" using all by simp
    then have "lower_char d = d" by (auto simp: lower_char_def digit_char_def Let_def)
    then show ?thesis using Cons that \<open>digit_char d\<close> by (auto simp: digit_char_def)
  qed simp
  have u: "take_sign (c # s) = (False, c # s)" using all by (auto simp: take_sign_def digit_char_def)
  have inf: "c # s \<noteq> ''Infinity''" using all by (auto simp: digit_char_def)
  have "takeWhile digit_char (c # s) = c # s" "dropWhile digit_char (c # s) = []"
    using all by (simp_all add: list_all_iff takeWhile_eq_all_conv dropWhile_eq_Nil_conv)
  moreover have "read_digits (c # s) = n" using read_digits_show_nat [of n] cs by simp
  ultimately have "decimal_text (c # s) = Fin (of_nat n)"
    by (simp add: decimal_text_def power_of_ten_def)
  then show ?thesis using trim cs two [of "CHR ''x''"] two [of "CHR ''o''"] two [of "CHR ''b''"] u inf
    by (auto simp: js_Number_def Let_def)
qed

subsection \<open>The environment\<close>

type_synonym env = "string \<Rightarrow> string option"

datatype config_error =
    MissingVariable string
  | NotANumber string
  | InvalidEnvironment string
  | InvalidSetting string
  | InvalidStructure string

text \<open>The process: its environment and whether the files were read. \<open>dotenv f e\<close> is the environment \<open>e\<close> after
  the package has loaded the file \<open>f\<close>; \<open>exists\<close> tells which files there are. The package documents that it
  does not modify a variable that is set.\<close>

record process =
  pr_env :: env
  pr_isLoaded :: bool

definition dotenv_laws :: "(string \<Rightarrow> env \<Rightarrow> env) \<Rightarrow> bool" where
  "dotenv_laws dotenv \<longleftrightarrow> (\<forall>f e k v. e k = Some v \<longrightarrow> dotenv f e k = Some v)"

definition env_file :: "string \<Rightarrow> string" where
  "env_file nodeEnv = (if nodeEnv = ''development'' \<or> nodeEnv = ''dev'' then ''.env.dev''
     else if nodeEnv = ''test'' then ''.env.test''
     else if nodeEnv = ''production'' \<or> nodeEnv = ''prod'' then ''.env.prod'' else ''.env'')"

definition EnvLoader_load :: "(string \<Rightarrow> env \<Rightarrow> env) \<Rightarrow> (string \<Rightarrow> bool) \<Rightarrow> process \<Rightarrow> process" where
  "EnvLoader_load dotenv exists p =
     (if pr_isLoaded p then p
      else let f = env_file (str_or (pr_env p ''NODE_ENV'') ''development'');
               e = (if exists f then dotenv f (pr_env p)
                    else if exists ''.env'' then dotenv ''.env'' (pr_env p) else pr_env p)
           in p \<lparr> pr_env := e, pr_isLoaded := True \<rparr>)"

definition given :: "env \<Rightarrow> string \<Rightarrow> bool" where
  "given e k \<longleftrightarrow> (case e k of None \<Rightarrow> False | Some v \<Rightarrow> trim v \<noteq> [])"

definition EnvLoader_get :: "env \<Rightarrow> string \<Rightarrow> config_error + string" where
  "EnvLoader_get e k = (if given e k then Inr (the (e k)) else Inl (MissingVariable k))"

definition EnvLoader_getOrDefault :: "env \<Rightarrow> string \<Rightarrow> string \<Rightarrow> string" where
  "EnvLoader_getOrDefault e k d = (if given e k then the (e k) else d)"

definition EnvLoader_getNumber :: "env \<Rightarrow> string \<Rightarrow> config_error + js_num" where
  "EnvLoader_getNumber e k = bindE (EnvLoader_get e k) (\<lambda>v.
     if js_Number v = NotNum then Inl (NotANumber k) else Inr (js_Number v))"

definition truth_text :: "string \<Rightarrow> bool" where
  "truth_text v \<longleftrightarrow> lower v \<in> {''true'', ''1'', ''yes''}"

definition EnvLoader_getBoolean :: "env \<Rightarrow> string \<Rightarrow> bool" where
  "EnvLoader_getBoolean e k = (case e k of None \<Rightarrow> False | Some v \<Rightarrow> truth_text v)"

definition EnvLoader_getAsArray :: "env \<Rightarrow> string \<Rightarrow> string list" where
  "EnvLoader_getAsArray e k = (let v = EnvLoader_getOrDefault e k [] in
     if v = [] then [] else filter (\<lambda>s. s \<noteq> []) (map trim (split_on CHR '','' v)))"

text \<open>\<open>Object.keys(envOverride).forEach(...)\<close>: the overrides are written into the environment before a loader reads it, so that
  a loader with overrides is the loader on \<open>with_override ov e\<close>.\<close>

definition with_override :: "(string \<times> string) list \<Rightarrow> env \<Rightarrow> env" where
  "with_override ov e = fold (\<lambda>(k, v) e. e(k \<mapsto> v)) ov e"

text \<open>\<open>config/environment.ts\<close>.\<close>

datatype Environment = DEVELOPMENT | TEST | STAGING | PRODUCTION

definition environment_text :: "Environment \<Rightarrow> string" where
  "environment_text v = (case v of DEVELOPMENT \<Rightarrow> ''development'' | TEST \<Rightarrow> ''test'' | STAGING \<Rightarrow> ''staging'' | PRODUCTION \<Rightarrow> ''production'')"

definition node_env :: "env \<Rightarrow> string" where
  "node_env e = str_or (e ''NODE_ENV'') ''development''"

definition getCurrentEnvironment :: "env \<Rightarrow> config_error + Environment" where
  "getCurrentEnvironment e =
     (case find (\<lambda>v. environment_text v = node_env e) [DEVELOPMENT, TEST, STAGING, PRODUCTION] of
        None \<Rightarrow> Inl (InvalidEnvironment (node_env e)) | Some v \<Rightarrow> Inr v)"

definition isEnvironment :: "Environment \<Rightarrow> env \<Rightarrow> config_error + bool" where
  "isEnvironment v e = bindE (getCurrentEnvironment e) (\<lambda>w. Inr (w = v))"

lemma getCurrentEnvironment_iff: "getCurrentEnvironment e = Inr v \<longleftrightarrow> node_env e = environment_text v"
  by (cases v) (auto simp: getCurrentEnvironment_def environment_text_def dest: sym)

lemma getOrDefault_given [simp]: "given e k \<Longrightarrow> EnvLoader_getOrDefault e k d = the (e k)"
  by (simp add: EnvLoader_getOrDefault_def)

lemma EnvLoader_get_Inr: "EnvLoader_get e k = Inr v \<longleftrightarrow> e k = Some v \<and> trim v \<noteq> []"
  by (auto simp: EnvLoader_get_def given_def split: option.splits)

lemma load_keeps_set_variables:
  assumes "dotenv_laws dotenv" "pr_env p k = Some v"
  shows "pr_env (EnvLoader_load dotenv exists p) k = Some v"
  using assms by (auto simp: EnvLoader_load_def dotenv_laws_def Let_def)

subsection \<open>The schema of the environment\<close>

text \<open>What zod's number checks admit: \<open>z.number()\<close> refuses \<open>NaN\<close>, \<open>int\<close> what is not an integer (infinities are not),
  \<open>min\<close> and \<open>max\<close> what is outside. No upper bound is \<open>None\<close>. \<open>z.coerce.number()\<close> applies \<open>Number\<close>; \<open>default\<close> stands for a
  variable that is not set, and only for that.\<close>

definition z_int :: "string \<Rightarrow> int \<Rightarrow> int option \<Rightarrow> js_num \<Rightarrow> config_error + int" where
  "z_int k lo hi v = (case v of Fin x \<Rightarrow>
       if of_int \<lfloor>x\<rfloor> = x \<and> lo \<le> \<lfloor>x\<rfloor> \<and> (case hi of None \<Rightarrow> True | Some h \<Rightarrow> \<lfloor>x\<rfloor> \<le> h) then Inr \<lfloor>x\<rfloor> else Inl (InvalidSetting k)
     | _ \<Rightarrow> Inl (InvalidSetting k))"

definition z_rat :: "string \<Rightarrow> rat \<Rightarrow> rat \<Rightarrow> js_num \<Rightarrow> config_error + rat" where
  "z_rat k lo hi v = (case v of Fin x \<Rightarrow> if lo \<le> x \<and> x \<le> hi then Inr x else Inl (InvalidSetting k) | _ \<Rightarrow> Inl (InvalidSetting k))"

definition env_int :: "env \<Rightarrow> string \<Rightarrow> int \<Rightarrow> int \<Rightarrow> int \<Rightarrow> config_error + int" where
  "env_int e k lo hi d = (case e k of None \<Rightarrow> Inr d | Some s \<Rightarrow> z_int k lo (Some hi) (js_Number s))"

definition env_rat :: "env \<Rightarrow> string \<Rightarrow> rat \<Rightarrow> rat \<Rightarrow> rat \<Rightarrow> config_error + rat" where
  "env_rat e k lo hi d = (case e k of None \<Rightarrow> Inr d | Some s \<Rightarrow> z_rat k lo hi (js_Number s))"

definition env_enum :: "env \<Rightarrow> string \<Rightarrow> string list \<Rightarrow> string \<Rightarrow> config_error + string" where
  "env_enum e k vs d = (let s = nullish_or (e k) d in if s \<in> set vs then Inr s else Inl (InvalidSetting k))"

definition env_secret :: "env \<Rightarrow> string \<Rightarrow> config_error + string" where
  "env_secret e k = (case e k of None \<Rightarrow> Inl (InvalidSetting k)
     | Some s \<Rightarrow> if 32 \<le> length s then Inr s else Inl (InvalidSetting k))"

text \<open>\<open>z.string().url()\<close> admits what \<open>new URL\<close> does.\<close>

definition env_url :: "(string \<Rightarrow> 'u option) \<Rightarrow> env \<Rightarrow> string \<Rightarrow> string option \<Rightarrow> config_error + string" where
  "env_url url e k d = (case (case e k of None \<Rightarrow> d | Some s \<Rightarrow> Some s) of None \<Rightarrow> Inl (InvalidSetting k)
     | Some s \<Rightarrow> if url s = None then Inl (InvalidSetting k) else Inr s)"

lemma z_int_Inr: "z_int k lo hi v = Inr n \<Longrightarrow> v = Fin (of_int n) \<and> lo \<le> n \<and> (\<forall>h. hi = Some h \<longrightarrow> n \<le> h)"
  by (auto simp: z_int_def split: js_num.splits if_splits option.splits)

lemma env_int_bounds: "\<lbrakk> env_int e k lo hi d = Inr n; lo \<le> d; d \<le> hi \<rbrakk> \<Longrightarrow> lo \<le> n \<and> n \<le> hi"
  by (auto simp: env_int_def split: option.splits dest: z_int_Inr)

lemma env_secret_Inr: "env_secret e k = Inr s \<longleftrightarrow> e k = Some s \<and> 32 \<le> length s"
  by (auto simp: env_secret_def split: option.splits)

lemma env_enum_Inr: "env_enum e k vs d = Inr s \<Longrightarrow> s = nullish_or (e k) d \<and> s \<in> set vs"
  by (auto simp: env_enum_def Let_def split: if_splits)

text \<open>The object part of the schema: the error is the first setting that is refused.\<close>

record EnvConfig =
  ev_NODE_ENV :: string
  ev_PORT :: int
  ev_LOG_LEVEL :: string
  ev_DATABASE_URL :: string
  ev_REDIS_URL :: string
  ev_API_KEY_SECRET :: string
  ev_JWT_SECRET :: string
  ev_HMAC_SECRET :: string
  ev_OTEL_EXPORTER_OTLP_ENDPOINT :: string
  ev_PROMETHEUS_PORT :: int
  ev_JAEGER_ENDPOINT :: string
  ev_APP_NAME :: string
  ev_APP_VERSION :: string
  ev_ENVIRONMENT :: string
  ev_MAX_RETRIES :: int
  ev_BACKOFF_BASE_MS :: int
  ev_CIRCUIT_BREAKER_THRESHOLD :: rat
  ev_CIRCUIT_BREAKER_TIMEOUT_MS :: int
  ev_RATE_LIMIT_REQUESTS_PER_MINUTE :: int
  ev_DB_POOL_MIN :: int
  ev_DB_POOL_MAX :: int
  ev_REDIS_POOL_MIN :: int
  ev_REDIS_POOL_MAX :: int
  ev_WORKER_CONCURRENCY :: int
  ev_WORKER_POLL_INTERVAL_MS :: int
  ev_STALE_JOB_TIMEOUT_MS :: int
  ev_HEARTBEAT_INTERVAL_MS :: int
  ev_GRACEFUL_SHUTDOWN_TIMEOUT_MS :: int
  ev_ENABLE_AUDIT_LOGGING :: bool
  ev_AUDIT_LOG_RETENTION_DAYS :: int
  ev_OTEL_TRACE_SAMPLE_RATE :: rat

definition parse_object :: "(string \<Rightarrow> 'u option) \<Rightarrow> env \<Rightarrow> config_error + EnvConfig" where
  "parse_object url e =
     bindE (env_enum e ''NODE_ENV'' [''development'', ''production'', ''test''] ''development'') (\<lambda>node_env_v.
     bindE (env_int e ''PORT'' 1 65535 3000) (\<lambda>port_v.
     bindE (env_enum e ''LOG_LEVEL'' [''debug'', ''info'', ''warn'', ''error''] ''info'') (\<lambda>log_level_v.
     bindE (env_url url e ''DATABASE_URL'' None) (\<lambda>database_url_v.
     bindE (env_url url e ''REDIS_URL'' (Some ''redis://localhost:6379'')) (\<lambda>redis_url_v.
     bindE (env_secret e ''API_KEY_SECRET'') (\<lambda>api_key_secret_v.
     bindE (env_secret e ''JWT_SECRET'') (\<lambda>jwt_secret_v.
     bindE (env_secret e ''HMAC_SECRET'') (\<lambda>hmac_secret_v.
     bindE (env_url url e ''OTEL_EXPORTER_OTLP_ENDPOINT'' (Some ''http://localhost:4317'')) (\<lambda>otel_exporter_otlp_endpoint_v.
     bindE (env_int e ''PROMETHEUS_PORT'' 1 65535 9090) (\<lambda>prometheus_port_v.
     bindE (env_url url e ''JAEGER_ENDPOINT'' (Some ''http://localhost:14268/api/traces'')) (\<lambda>jaeger_endpoint_v.
     bindE (env_int e ''MAX_RETRIES'' 1 10 5) (\<lambda>max_retries_v.
     bindE (env_int e ''BACKOFF_BASE_MS'' 100 10000 1000) (\<lambda>backoff_base_ms_v.
     bindE (env_rat e ''CIRCUIT_BREAKER_THRESHOLD'' 1 100 50) (\<lambda>circuit_breaker_threshold_v.
     bindE (env_int e ''CIRCUIT_BREAKER_TIMEOUT_MS'' 1000 300000 60000) (\<lambda>circuit_breaker_timeout_ms_v.
     bindE (env_int e ''RATE_LIMIT_REQUESTS_PER_MINUTE'' 1 10000 1000) (\<lambda>rate_limit_requests_per_minute_v.
     bindE (env_int e ''DB_POOL_MIN'' 1 50 2) (\<lambda>db_pool_min_v.
     bindE (env_int e ''DB_POOL_MAX'' 1 100 10) (\<lambda>db_pool_max_v.
     bindE (env_int e ''REDIS_POOL_MIN'' 1 50 2) (\<lambda>redis_pool_min_v.
     bindE (env_int e ''REDIS_POOL_MAX'' 1 100 10) (\<lambda>redis_pool_max_v.
     bindE (env_int e ''WORKER_CONCURRENCY'' 1 100 5) (\<lambda>worker_concurrency_v.
     bindE (env_int e ''WORKER_POLL_INTERVAL_MS'' 10 10000 100) (\<lambda>worker_poll_interval_ms_v.
     bindE (env_int e ''STALE_JOB_TIMEOUT_MS'' 5000 300000 30000) (\<lambda>stale_job_timeout_ms_v.
     bindE (env_int e ''HEARTBEAT_INTERVAL_MS'' 1000 60000 10000) (\<lambda>heartbeat_interval_ms_v.
     bindE (env_int e ''GRACEFUL_SHUTDOWN_TIMEOUT_MS'' 10000 600000 60000) (\<lambda>graceful_shutdown_timeout_ms_v.
     bindE (env_int e ''AUDIT_LOG_RETENTION_DAYS'' 1 3650 730) (\<lambda>audit_log_retention_days_v.
     bindE (env_rat e ''OTEL_TRACE_SAMPLE_RATE'' 0 1 1) (\<lambda>otel_trace_sample_rate_v.
       Inr \<lparr> ev_NODE_ENV = node_env_v,
         ev_PORT = port_v,
         ev_LOG_LEVEL = log_level_v,
         ev_DATABASE_URL = database_url_v,
         ev_REDIS_URL = redis_url_v,
         ev_API_KEY_SECRET = api_key_secret_v,
         ev_JWT_SECRET = jwt_secret_v,
         ev_HMAC_SECRET = hmac_secret_v,
         ev_OTEL_EXPORTER_OTLP_ENDPOINT = otel_exporter_otlp_endpoint_v,
         ev_PROMETHEUS_PORT = prometheus_port_v,
         ev_JAEGER_ENDPOINT = jaeger_endpoint_v,
         ev_APP_NAME = nullish_or (e ''APP_NAME'') ''QueueForge'',
         ev_APP_VERSION = nullish_or (e ''APP_VERSION'') ''1.0.0'',
         ev_ENVIRONMENT = nullish_or (e ''ENVIRONMENT'') ''development'',
         ev_MAX_RETRIES = max_retries_v,
         ev_BACKOFF_BASE_MS = backoff_base_ms_v,
         ev_CIRCUIT_BREAKER_THRESHOLD = circuit_breaker_threshold_v,
         ev_CIRCUIT_BREAKER_TIMEOUT_MS = circuit_breaker_timeout_ms_v,
         ev_RATE_LIMIT_REQUESTS_PER_MINUTE = rate_limit_requests_per_minute_v,
         ev_DB_POOL_MIN = db_pool_min_v,
         ev_DB_POOL_MAX = db_pool_max_v,
         ev_REDIS_POOL_MIN = redis_pool_min_v,
         ev_REDIS_POOL_MAX = redis_pool_max_v,
         ev_WORKER_CONCURRENCY = worker_concurrency_v,
         ev_WORKER_POLL_INTERVAL_MS = worker_poll_interval_ms_v,
         ev_STALE_JOB_TIMEOUT_MS = stale_job_timeout_ms_v,
         ev_HEARTBEAT_INTERVAL_MS = heartbeat_interval_ms_v,
         ev_GRACEFUL_SHUTDOWN_TIMEOUT_MS = graceful_shutdown_timeout_ms_v,
         ev_ENABLE_AUDIT_LOGGING = (case e ''ENABLE_AUDIT_LOGGING'' of None \<Rightarrow> True | Some s \<Rightarrow> truth_text s),
         ev_AUDIT_LOG_RETENTION_DAYS = audit_log_retention_days_v,
         ev_OTEL_TRACE_SAMPLE_RATE = otel_trace_sample_rate_v \<rparr>)))))))))))))))))))))))))))"

text \<open>The refinements and \<open>parseEnv\<close>.\<close>

definition dummy_secret :: "string \<Rightarrow> bool" where
  "dummy_secret s \<longleftrightarrow> includes_str s ''test'' \<or> includes_str s ''dummy'' \<or> includes_str s ''your-'' \<or> includes_str s ''super-secret''"

definition refine_env :: "EnvConfig \<Rightarrow> config_error + EnvConfig" where
  "refine_env c =
     (if ev_NODE_ENV c = ''production'' \<and> list_ex dummy_secret [ev_JWT_SECRET c, ev_API_KEY_SECRET c, ev_HMAC_SECRET c]
      then Inl (InvalidSetting ''JWT_SECRET'')
      else if \<not> ev_DB_POOL_MIN c \<le> ev_DB_POOL_MAX c then Inl (InvalidSetting ''DB_POOL_MAX'')
      else if \<not> ev_REDIS_POOL_MIN c \<le> ev_REDIS_POOL_MAX c then Inl (InvalidSetting ''REDIS_POOL_MAX'')
      else Inr c)"

definition parseEnv :: "(string \<Rightarrow> 'u option) \<Rightarrow> env \<Rightarrow> config_error + EnvConfig" where
  "parseEnv url e = bindE (parse_object url e) refine_env"

text \<open>What an accepted environment has.\<close>

lemma parse_object_conj: "parse_object url e = Inr c \<Longrightarrow>
    env_enum e ''NODE_ENV'' [''development'', ''production'', ''test''] ''development'' = Inr (ev_NODE_ENV c) \<and>
    env_int e ''PORT'' 1 65535 3000 = Inr (ev_PORT c) \<and>
    env_url url e ''DATABASE_URL'' None = Inr (ev_DATABASE_URL c) \<and>
    env_url url e ''REDIS_URL'' (Some ''redis://localhost:6379'') = Inr (ev_REDIS_URL c) \<and>
    env_secret e ''API_KEY_SECRET'' = Inr (ev_API_KEY_SECRET c) \<and>
    env_secret e ''JWT_SECRET'' = Inr (ev_JWT_SECRET c) \<and>
    env_secret e ''HMAC_SECRET'' = Inr (ev_HMAC_SECRET c) \<and>
    env_int e ''PROMETHEUS_PORT'' 1 65535 9090 = Inr (ev_PROMETHEUS_PORT c) \<and>
    env_int e ''MAX_RETRIES'' 1 10 5 = Inr (ev_MAX_RETRIES c) \<and>
    env_int e ''BACKOFF_BASE_MS'' 100 10000 1000 = Inr (ev_BACKOFF_BASE_MS c) \<and>
    env_rat e ''CIRCUIT_BREAKER_THRESHOLD'' 1 100 50 = Inr (ev_CIRCUIT_BREAKER_THRESHOLD c) \<and>
    env_int e ''CIRCUIT_BREAKER_TIMEOUT_MS'' 1000 300000 60000 = Inr (ev_CIRCUIT_BREAKER_TIMEOUT_MS c) \<and>
    env_int e ''RATE_LIMIT_REQUESTS_PER_MINUTE'' 1 10000 1000 = Inr (ev_RATE_LIMIT_REQUESTS_PER_MINUTE c) \<and>
    env_int e ''DB_POOL_MIN'' 1 50 2 = Inr (ev_DB_POOL_MIN c) \<and>
    env_int e ''DB_POOL_MAX'' 1 100 10 = Inr (ev_DB_POOL_MAX c) \<and>
    env_int e ''REDIS_POOL_MIN'' 1 50 2 = Inr (ev_REDIS_POOL_MIN c) \<and>
    env_int e ''REDIS_POOL_MAX'' 1 100 10 = Inr (ev_REDIS_POOL_MAX c) \<and>
    env_int e ''WORKER_CONCURRENCY'' 1 100 5 = Inr (ev_WORKER_CONCURRENCY c) \<and>
    env_int e ''WORKER_POLL_INTERVAL_MS'' 10 10000 100 = Inr (ev_WORKER_POLL_INTERVAL_MS c) \<and>
    env_int e ''STALE_JOB_TIMEOUT_MS'' 5000 300000 30000 = Inr (ev_STALE_JOB_TIMEOUT_MS c) \<and>
    env_int e ''HEARTBEAT_INTERVAL_MS'' 1000 60000 10000 = Inr (ev_HEARTBEAT_INTERVAL_MS c) \<and>
    env_int e ''GRACEFUL_SHUTDOWN_TIMEOUT_MS'' 10000 600000 60000 = Inr (ev_GRACEFUL_SHUTDOWN_TIMEOUT_MS c) \<and>
    env_int e ''AUDIT_LOG_RETENTION_DAYS'' 1 3650 730 = Inr (ev_AUDIT_LOG_RETENTION_DAYS c)"
  unfolding parse_object_def bindE_eq_Inr_iff sum.inject by (elim exE conjE, hypsubst) (intro conjI; simp only: EnvConfig.select_convs)

subsection \<open>The loaders\<close>

text \<open>What the loaders read of a URL that \<open>new URL\<close> accepts.\<close>

record url =
  u_hostname :: string
  u_port :: string
  u_pathname :: string
  u_username :: string
  u_password :: string

definition number_setting :: "env \<Rightarrow> string \<Rightarrow> string \<Rightarrow> js_num" where
  "number_setting e k d = js_Number (EnvLoader_getOrDefault e k d)"

definition z_url :: "(string \<Rightarrow> url option) \<Rightarrow> string \<Rightarrow> string \<Rightarrow> config_error + string" where
  "z_url new_URL k s = (if new_URL s = None then Inl (InvalidSetting k) else Inr s)"

definition in_production :: "env \<Rightarrow> bool" where
  "in_production e \<longleftrightarrow> lower (node_env e) = ''production''"

datatype LogLevel = DEBUG_LEVEL | INFO_LEVEL | WARN_LEVEL | ERROR_LEVEL

definition log_level :: "string \<Rightarrow> LogLevel" where
  "log_level s = (if s = ''debug'' then DEBUG_LEVEL else if s = ''warn'' then WARN_LEVEL
     else if s = ''error'' then ERROR_LEVEL else INFO_LEVEL)"

record AppConfig =
  ap_environment :: string
  ap_name :: string
  ap_version :: string
  ap_logLevel :: LogLevel
  ap_requestIdHeader :: string
  ap_correlationIdHeader :: string
  ap_nodeEnv :: string
  ap_port :: int
  ap_hostname :: string
  ap_isDevelopment :: bool
  ap_isProduction :: bool
  ap_isTest :: bool
  ap_appUrl :: string
  ap_debugMode :: bool

definition loadAppConfig :: "(string \<Rightarrow> url option) \<Rightarrow> env \<Rightarrow> config_error + AppConfig" where
  "loadAppConfig new_URL e =
     bindE (if str_or (e ''ENVIRONMENT'') [] \<noteq> [] then Inr (the (e ''ENVIRONMENT''))
            else bindE (getCurrentEnvironment e) (\<lambda>v. Inr (environment_text v))) (\<lambda>environment.
     bindE (z_int ''port'' 1 (Some 65535) (number_setting e ''PORT'' ''3000'')) (\<lambda>port.
       let hostname = EnvLoader_getOrDefault e ''HOSTNAME'' ''localhost'';
           protocol = (if in_production e then ''https'' else ''http'');
           level = log_level (lower (EnvLoader_getOrDefault e ''LOG_LEVEL'' ''info''));
           nodeEnv = lower (node_env e)
       in bindE (z_url new_URL ''appUrl'' (protocol @ ''://'' @ hostname @ '':'' @ show_int port)) (\<lambda>appUrl.
       Inr \<lparr> ap_environment = environment, ap_name = EnvLoader_getOrDefault e ''APP_NAME'' ''QueueForge'',
         ap_version = EnvLoader_getOrDefault e ''APP_VERSION'' ''1.0.0'', ap_logLevel = level,
         ap_requestIdHeader = EnvLoader_getOrDefault e ''REQUEST_ID_HEADER'' ''X-Request-ID'',
         ap_correlationIdHeader = EnvLoader_getOrDefault e ''CORRELATION_ID_HEADER'' ''X-Correlation-ID'',
         ap_nodeEnv = nodeEnv, ap_port = port, ap_hostname = hostname,
         ap_isDevelopment = (nodeEnv = ''development''), ap_isProduction = (nodeEnv = ''production''),
         ap_isTest = (nodeEnv = ''test''), ap_appUrl = appUrl, ap_debugMode = (level = DEBUG_LEVEL) \<rparr>)))"

record DatabaseConfig =
  db_url :: string
  db_maxConnections :: int
  db_minConnections :: int
  db_connectionTimeoutMs :: int
  db_idleTimeoutMs :: int
  db_statementTimeoutMs :: int
  db_enableLogging :: bool
  db_enableSSL :: bool
  db_rejectUnauthorized :: bool
  db_poolMin :: int
  db_poolMax :: int
  db_enableMetrics :: bool
  db_connectionTimeout :: int
  db_idleTimeout :: int
  db_maxLifetime :: int
  db_retryAttempts :: int
  db_retryDelay :: int
  db_host :: string
  db_port :: int
  db_database :: string
  db_user :: string

definition or_text :: "string \<Rightarrow> string \<Rightarrow> string" where
  "or_text s d = (if s = [] then d else s)"

text \<open>\<open>parsedUrl.port ? parseInt(parsedUrl.port, 10) : port\<close>.\<close>

definition url_port :: "url \<Rightarrow> int \<Rightarrow> js_num" where
  "url_port u d = (if u_port u = [] then Fin (of_int d)
     else (case parse_int (u_port u) of None \<Rightarrow> NotNum | Some n \<Rightarrow> Fin (of_int n)))"

text \<open>\<open>replace(/^\//, '')\<close>.\<close>

definition drop_slash :: "string \<Rightarrow> string" where
  "drop_slash s = (case s of [] \<Rightarrow> [] | c # r \<Rightarrow> if c = CHR ''/'' then r else s)"

definition pool_maximum :: "env \<Rightarrow> js_num" where
  "pool_maximum e =
     max_num (number_setting e ''DB_POOL_MAX'' (EnvLoader_getOrDefault e ''DATABASE_MAX_CONNECTIONS'' ''20''))
       (plus_num (js_Number (str_or (e ''WORKER_CONCURRENCY'') ''10'')) 2)"

definition loadDatabaseConfig :: "(string \<Rightarrow> url option) \<Rightarrow> env \<Rightarrow> config_error + DatabaseConfig" where
  "loadDatabaseConfig new_URL e =
     bindE (EnvLoader_get e ''DATABASE_URL'') (\<lambda>u.
     bindE (guardE (starts_with ''postgresql://'' u \<or> starts_with ''postgres://'' u) (InvalidSetting ''DATABASE_URL'')) (\<lambda>_.
     bindE (case new_URL u of None \<Rightarrow> Inl (InvalidSetting ''DATABASE_URL'') | Some p \<Rightarrow> Inr p) (\<lambda>p.
     bindE (z_int ''maxConnections'' 1 (Some 100) (pool_maximum e)) (\<lambda>maxConns.
     bindE (z_int ''minConnections'' 1 None
       (number_setting e ''DB_POOL_MIN'' (EnvLoader_getOrDefault e ''DATABASE_MIN_CONNECTIONS'' ''5''))) (\<lambda>minConns.
     bindE (z_int ''port'' 1 None (url_port p 5432)) (\<lambda>port.
     bindE (guardE (minConns \<le> maxConns) (InvalidSetting ''maxConnections'')) (\<lambda>_.
       Inr \<lparr> db_url = u, db_maxConnections = maxConns, db_minConnections = minConns, db_connectionTimeoutMs = 30000,
         db_idleTimeoutMs = 900000, db_statementTimeoutMs = 60000, db_enableLogging = (\<not> in_production e),
         db_enableSSL = in_production e, db_rejectUnauthorized = True, db_poolMin = minConns, db_poolMax = maxConns,
         db_enableMetrics = True, db_connectionTimeout = 30000, db_idleTimeout = 900000, db_maxLifetime = 1800000,
         db_retryAttempts = 5, db_retryDelay = 2000, db_host = or_text (u_hostname p) ''localhost'', db_port = port,
         db_database = (if u_pathname p = [] then ''queueforge'' else drop_slash (u_pathname p)),
         db_user = or_text (u_username p) ''postgres'' \<rparr>)))))))"

datatype persistenceMode = AOF | RDB

record RedisConfig =
  rd_url :: string
  rd_host :: string
  rd_port :: int
  rd_password :: "string option"
  rd_db :: int
  rd_maxRetries :: int
  rd_retryStrategyMs :: int
  rd_connectionTimeoutMs :: int
  rd_enableOfflineQueue :: bool
  rd_enableReadyCheck :: bool
  rd_family :: int
  rd_keyPrefix :: string
  rd_enableTls :: bool
  rd_tlsRejectUnauthorized :: bool
  rd_poolMin :: int
  rd_poolMax :: int
  rd_enableTLS :: bool
  rd_connectionTimeout :: int
  rd_idleTimeout :: int
  rd_maxRetriesOnConnectionFailure :: int
  rd_retryDelayMs :: int
  rd_enablePersistence :: bool
  rd_persistenceMode :: persistenceMode
  rd_flushDbOnStart :: bool

definition loadRedisConfig :: "(string \<Rightarrow> url option) \<Rightarrow> (string \<Rightarrow> string option) \<Rightarrow> env \<Rightarrow> config_error + RedisConfig" where
  "loadRedisConfig new_URL decodeURIComponent e =
     bindE (EnvLoader_get e ''REDIS_URL'') (\<lambda>u.
     bindE (guardE (starts_with ''redis://'' u \<or> starts_with ''rediss://'' u) (InvalidSetting ''REDIS_URL'')) (\<lambda>_.
     bindE (case new_URL u of None \<Rightarrow> Inl (InvalidSetting ''REDIS_URL'') | Some p \<Rightarrow> Inr p) (\<lambda>p.
     bindE (if u_password p = [] then Inr None
            else (case decodeURIComponent (u_password p) of None \<Rightarrow> Inl (InvalidSetting ''REDIS_URL'') | Some w \<Rightarrow> Inr (Some w))) (\<lambda>password.
       let rawMin = number_setting e ''REDIS_POOL_MIN'' ''2''; rawMax = number_setting e ''REDIS_POOL_MAX'' ''10'';
           tls = (in_production e \<or> starts_with ''rediss://'' u) in
     bindE (guardE (\<not> more_than rawMin rawMax) (InvalidSetting ''REDIS_POOL_MIN'')) (\<lambda>_.
     bindE (z_int ''port'' 1 (Some 65535) (url_port p 6379)) (\<lambda>port.
     bindE (z_int ''poolMin'' 1 None rawMin) (\<lambda>poolMin.
     bindE (z_int ''poolMax'' 1 None rawMax) (\<lambda>poolMax.
       Inr \<lparr> rd_url = u, rd_host = or_text (u_hostname p) ''localhost'', rd_port = port, rd_password = password, rd_db = 0,
         rd_maxRetries = 10, rd_retryStrategyMs = 1000, rd_connectionTimeoutMs = 30000, rd_enableOfflineQueue = False,
         rd_enableReadyCheck = True, rd_family = 4, rd_keyPrefix = ''queueforge:'', rd_enableTls = tls,
         rd_tlsRejectUnauthorized = True, rd_poolMin = poolMin, rd_poolMax = poolMax, rd_enableTLS = tls,
         rd_connectionTimeout = 30000, rd_idleTimeout = 30000, rd_maxRetriesOnConnectionFailure = 10, rd_retryDelayMs = 1000,
         rd_enablePersistence = True, rd_persistenceMode = AOF,
         rd_flushDbOnStart = (lower (node_env e) = ''test'') \<rparr>))))))))"

text \<open>The queue's settings: those read from the environment (the name stands in \<open>mainQueueName\<close> and \<open>name\<close>, the time-out in
  \<open>defaultJobTimeout\<close> and \<open>settings.stalledInterval\<close>, the attempts and the delay in \<open>settings\<close> and \<open>retryBackoff\<close>), and the constants
  the code of the queue reads.\<close>

record QueueConfig =
  qc_mainQueueName :: string
  qc_delayedQueueName :: string
  qc_dlqQueueName :: string
  qc_concurrency :: int
  qc_defaultJobTimeout :: int
  qc_lockDuration :: int
  qc_lockRenewTime :: int
  qc_retryDelay :: int
  qc_maxBackoff :: int
  qc_attempts :: js_num
  qc_prefix :: string

definition loadQueueConfig :: "env \<Rightarrow> config_error + QueueConfig" where
  "loadQueueConfig e =
     (let attempts = number_setting e ''MAX_RETRIES'' ''5'';
          baseMs = number_setting e ''BACKOFF_BASE_MS'' ''1000'';
          staleTimeout = number_setting e ''STALE_JOB_TIMEOUT_MS'' ''30000''
      in bindE (guardE (\<not> (below attempts 1 \<or> above attempts 10)) (InvalidSetting ''MAX_RETRIES'')) (\<lambda>_.
         bindE (guardE (\<not> (below baseMs 100 \<or> above baseMs 100000)) (InvalidSetting ''BACKOFF_BASE_MS'')) (\<lambda>_.
         bindE (guardE (\<not> (below staleTimeout 0 \<or> staleTimeout = Fin 0)) (InvalidSetting ''STALE_JOB_TIMEOUT_MS'')) (\<lambda>_.
         bindE (z_int ''concurrency'' 1 (Some 100) (number_setting e ''QUEUE_CONCURRENCY'' ''10'')) (\<lambda>concurrency.
         bindE (z_int ''defaultJobTimeout'' 1 None staleTimeout) (\<lambda>stale.
         bindE (z_int ''retryBackoff'' 1 None baseMs) (\<lambda>base.
         Inr \<lparr> qc_mainQueueName = EnvLoader_getOrDefault e ''MAIN_QUEUE_NAME'' ''delivery-queue'',
           qc_delayedQueueName = EnvLoader_getOrDefault e ''DELAYED_QUEUE_NAME'' ''delivery-queue:delayed'',
           qc_dlqQueueName = EnvLoader_getOrDefault e ''DLQ_QUEUE_NAME'' ''delivery-queue:dlq'',
           qc_concurrency = concurrency, qc_defaultJobTimeout = stale, qc_lockDuration = 30000, qc_lockRenewTime = 15000,
           qc_retryDelay = base, qc_maxBackoff = 3600000, qc_attempts = attempts, qc_prefix = ''bull'' \<rparr>)))))))"

text \<open>Observability: the fields that depend on the environment.\<close>

record ObservabilityConfig =
  ob_sampleRate :: rat
  ob_otlpEndpoint :: string
  ob_environment :: string
  ob_prometheusPort :: int
  ob_logLevel :: LogLevel
  ob_jsonFormat :: bool
  ob_enableFileOutput :: bool
  ob_serviceName :: string
  ob_jaegerEndpoint :: string
  ob_retentionDays :: int

definition loadObservabilityConfig :: "(string \<Rightarrow> url option) \<Rightarrow> env \<Rightarrow> config_error + ObservabilityConfig" where
  "loadObservabilityConfig new_URL e =
     (let isProd = in_production e;
          sampleRate = (if str_or (e ''OTEL_TRACE_SAMPLE_RATE'') [] = [] then Fin (if isProd then 1 / 10 else 1)
                        else js_Number (the (e ''OTEL_TRACE_SAMPLE_RATE'')));
          tracePort = number_setting e ''PROMETHEUS_PORT'' ''9090''
      in bindE (guardE (\<not> (below sampleRate 0 \<or> above sampleRate 1)) (InvalidSetting ''OTEL_TRACE_SAMPLE_RATE'')) (\<lambda>_.
         bindE (guardE (\<not> (below tracePort 1 \<or> above tracePort 65535)) (InvalidSetting ''PROMETHEUS_PORT'')) (\<lambda>_.
         bindE (z_rat ''sampleRate'' 0 1 sampleRate) (\<lambda>rate.
         bindE (z_url new_URL ''otlpEndpoint'' (EnvLoader_getOrDefault e ''OTEL_EXPORTER_OTLP_ENDPOINT'' ''http://localhost:4317'')) (\<lambda>otlp.
         bindE (z_int ''prometheusPort'' 1 (Some 65535) tracePort) (\<lambda>port.
         bindE (z_url new_URL ''jaegerEndpoint'' (EnvLoader_getOrDefault e ''JAEGER_ENDPOINT'' ''http://localhost:14268/api/traces'')) (\<lambda>jaeger.
         Inr \<lparr> ob_sampleRate = rate, ob_otlpEndpoint = otlp, ob_environment = lower (node_env e), ob_prometheusPort = port,
           ob_logLevel = log_level (lower (EnvLoader_getOrDefault e ''LOG_LEVEL'' ''info'')), ob_jsonFormat = isProd,
           ob_enableFileOutput = isProd, ob_serviceName = EnvLoader_getOrDefault e ''APP_NAME'' ''queueforge'',
           ob_jaegerEndpoint = jaeger, ob_retentionDays = 90 \<rparr>)))))))"

text \<open>Security: the fields that depend on the environment.\<close>

record SecurityConfig =
  sc_jwtSecret :: string
  sc_hmacSecret :: string
  sc_apiKeySecret :: string
  sc_corsOrigins :: "string list"
  sc_corsOrigin :: string
  sc_enableCsrfProtection :: bool
  sc_jwtExpiryMs :: int
  sc_passwordMinLength :: int

definition placeholder_secret :: "string \<Rightarrow> bool" where
  "placeholder_secret s \<longleftrightarrow> list_ex (includes_str (lower s)) [''dummy'', ''test_placeholder'', ''changeme'', ''your_secret_here'']"

definition cors_origin_ok :: "string \<Rightarrow> bool" where
  "cors_origin_ok s \<longleftrightarrow> s = ''*'' \<or> starts_with ''http://'' s \<or> starts_with ''https://'' s"

definition loadSecurityConfig :: "env \<Rightarrow> config_error + SecurityConfig" where
  "loadSecurityConfig e =
     bindE (EnvLoader_get e ''JWT_SECRET'') (\<lambda>jwtSecret.
     bindE (EnvLoader_get e ''HMAC_SECRET'') (\<lambda>hmacSecret.
       let apiKeySecret = EnvLoader_getOrDefault e ''API_KEY_SECRET'' (EnvLoader_getOrDefault e ''API_KEY'' jwtSecret);
           listed = EnvLoader_getAsArray e ''CORS_ORIGINS'';
           corsOrigins = (if listed = [] then [''http://localhost:3000''] else listed)
       in bindE (guardE (32 \<le> length jwtSecret) (InvalidSetting ''JWT_SECRET'')) (\<lambda>_.
          bindE (guardE (32 \<le> length hmacSecret) (InvalidSetting ''HMAC_SECRET'')) (\<lambda>_.
          bindE (guardE (32 \<le> length apiKeySecret) (InvalidSetting ''API_KEY_SECRET'')) (\<lambda>_.
          bindE (guardE (\<not> (in_production e \<and> list_ex placeholder_secret [jwtSecret, hmacSecret, apiKeySecret])) (InvalidSetting ''secrets'')) (\<lambda>_.
          bindE (guardE (list_all cors_origin_ok corsOrigins) (InvalidSetting ''CORS_ORIGINS'')) (\<lambda>_.
          Inr \<lparr> sc_jwtSecret = jwtSecret, sc_hmacSecret = hmacSecret, sc_apiKeySecret = apiKeySecret,
            sc_corsOrigins = corsOrigins, sc_corsOrigin = hd corsOrigins, sc_enableCsrfProtection = in_production e,
            sc_jwtExpiryMs = 86400000, sc_passwordMinLength = 12 \<rparr>)))))))"

record ServerConfig =
  sv_host :: string
  sv_port :: int
  sv_httpsEnabled :: bool
  sv_certPath :: string
  sv_keyPath :: string
  sv_shutdownTimeoutMs :: int
  sv_keepAliveTimeout :: int
  sv_headersTimeout :: int

definition loadServerConfig :: "(string \<Rightarrow> bool) \<Rightarrow> env \<Rightarrow> config_error + ServerConfig" where
  "loadServerConfig exists e =
     bindE (isEnvironment DEVELOPMENT e) (\<lambda>isDev.
       let certPath = EnvLoader_getOrDefault e ''HTTPS_CERT_PATH'' ''./secrets/cert.pem'';
           keyPath = EnvLoader_getOrDefault e ''HTTPS_KEY_PATH'' ''./secrets/key.pem'';
           httpsEnabled = (EnvLoader_getBoolean e ''HTTPS_ENABLED'' \<or> exists certPath \<and> exists keyPath)
       in bindE (guardE (httpsEnabled \<longrightarrow> exists certPath) (InvalidSetting ''HTTPS_CERT_PATH'')) (\<lambda>_.
          bindE (guardE (httpsEnabled \<longrightarrow> exists keyPath) (InvalidSetting ''HTTPS_KEY_PATH'')) (\<lambda>_.
          bindE (z_int ''port'' 1 (Some 65535) (number_setting e ''PORT'' ''3000'')) (\<lambda>port.
          Inr \<lparr> sv_host = (if isDev then ''127.0.0.1'' else ''0.0.0.0''), sv_port = port, sv_httpsEnabled = httpsEnabled,
            sv_certPath = certPath, sv_keyPath = keyPath, sv_shutdownTimeoutMs = 60000, sv_keepAliveTimeout = 65000,
            sv_headersTimeout = 66000 \<rparr>))))"

text \<open>The settings that are constants still pass through their schemas.\<close>

definition checked :: "string \<Rightarrow> ('c \<Rightarrow> bool) \<Rightarrow> 'c \<Rightarrow> config_error + 'c" where
  "checked name schema c = (if schema c then Inr c else Inl (InvalidStructure name))"

record WorkerConfig =
  wc_enabled :: bool
  wc_concurrency :: int
  wc_pollIntervalMs :: int
  wc_maxInFlightJobs :: int
  wc_heartbeatIntervalMs :: int
  wc_heartbeatTTLMs :: int
  wc_gracefulShutdownTimeoutMs :: int
  wc_timeout :: int
  wc_maxRetries :: int
  wc_enableDeadletterQueue :: bool
  wc_enableMetrics :: bool
  wc_enableTracing :: bool

definition workerConfigSchema :: "WorkerConfig \<Rightarrow> bool" where
  "workerConfigSchema c \<longleftrightarrow> list_all (\<lambda>n. 0 < n) [wc_concurrency c, wc_pollIntervalMs c, wc_maxInFlightJobs c,
     wc_heartbeatIntervalMs c, wc_heartbeatTTLMs c, wc_gracefulShutdownTimeoutMs c, wc_timeout c, wc_maxRetries c]"

definition loadWorkerConfig :: "config_error + WorkerConfig" where
  "loadWorkerConfig = checked ''WorkerConfig'' workerConfigSchema
     \<lparr> wc_enabled = True, wc_concurrency = 10, wc_pollIntervalMs = 1000, wc_maxInFlightJobs = 1000,
       wc_heartbeatIntervalMs = 10000, wc_heartbeatTTLMs = 30000, wc_gracefulShutdownTimeoutMs = 60000, wc_timeout = 30000,
       wc_maxRetries = 5, wc_enableDeadletterQueue = True, wc_enableMetrics = True, wc_enableTracing = True \<rparr>"

record DaemonConfig =
  dm_enabled :: bool
  dm_recoveryEnabled :: bool
  dm_recoveryIntervalMs :: int
  dm_dlqCheckIntervalMs :: int
  dm_healthEnabled :: bool
  dm_healthIntervalMs :: int
  dm_metricsEnabled :: bool
  dm_collectionIntervalMs :: int
  dm_gracefulShutdownTimeoutMs :: int

definition daemonConfigSchema :: "DaemonConfig \<Rightarrow> bool" where
  "daemonConfigSchema c \<longleftrightarrow> list_all (\<lambda>n. 0 < n) [dm_recoveryIntervalMs c, dm_dlqCheckIntervalMs c, dm_healthIntervalMs c,
     dm_collectionIntervalMs c, dm_gracefulShutdownTimeoutMs c]"

definition loadDaemonConfig :: "config_error + DaemonConfig" where
  "loadDaemonConfig = checked ''DaemonConfig'' daemonConfigSchema
     \<lparr> dm_enabled = True, dm_recoveryEnabled = True, dm_recoveryIntervalMs = 60000, dm_dlqCheckIntervalMs = 30000,
       dm_healthEnabled = True, dm_healthIntervalMs = 30000, dm_metricsEnabled = True, dm_collectionIntervalMs = 10000,
       dm_gracefulShutdownTimeoutMs = 30000 \<rparr>"

record limit_config =
  lc_enabled :: bool
  lc_windowMs :: int
  lc_maxRequests :: int

definition limit_schema :: "limit_config \<Rightarrow> bool" where
  "limit_schema c \<longleftrightarrow> 0 < lc_windowMs c \<and> 0 < lc_maxRequests c"

record ApiConfig =
  ac_basePath :: string
  ac_version :: string
  ac_timeout :: int
  ac_maxPayloadSize :: string
  ac_enableCompression :: bool
  ac_enableSwagger :: bool
  ac_enableGraphQL :: bool
  ac_rateLimit :: limit_config
  ac_responseHeaders :: "(string \<times> string) list"
  ac_enableResponseCaching :: bool
  ac_cacheTTL :: int

definition apiConfigSchema :: "ApiConfig \<Rightarrow> bool" where
  "apiConfigSchema c \<longleftrightarrow> starts_with ''/'' (ac_basePath c) \<and> ac_version c \<noteq> [] \<and> 0 < ac_timeout c \<and> ac_maxPayloadSize c \<noteq> [] \<and>
     limit_schema (ac_rateLimit c) \<and> 0 < ac_cacheTTL c"

definition loadApiConfig :: "env \<Rightarrow> config_error + ApiConfig" where
  "loadApiConfig e = bindE (isEnvironment DEVELOPMENT e) (\<lambda>isDev. checked ''ApiConfig'' apiConfigSchema
     \<lparr> ac_basePath = ''/api'', ac_version = ''v1'', ac_timeout = 30000, ac_maxPayloadSize = ''10mb'', ac_enableCompression = True,
       ac_enableSwagger = isDev, ac_enableGraphQL = False,
       ac_rateLimit = \<lparr> lc_enabled = True, lc_windowMs = 60000, lc_maxRequests = 100 \<rparr>,
       ac_responseHeaders = [(''X-Powered-By'', ''QueueForge'')], ac_enableResponseCaching = True, ac_cacheTTL = 300000 \<rparr>)"

record AdminConfig =
  ad_enabled :: bool
  ad_basePath :: string
  ad_authRequired :: bool
  ad_roleRequired :: string
  ad_auditEnabled :: bool
  ad_logSensitiveOperations :: bool
  ad_rateLimit :: limit_config

definition adminConfigSchema :: "AdminConfig \<Rightarrow> bool" where
  "adminConfigSchema c \<longleftrightarrow> starts_with ''/'' (ad_basePath c) \<and> ad_roleRequired c \<noteq> [] \<and> limit_schema (ad_rateLimit c)"

definition loadAdminConfig :: "config_error + AdminConfig" where
  "loadAdminConfig = checked ''AdminConfig'' adminConfigSchema
     \<lparr> ad_enabled = True, ad_basePath = ''/admin'', ad_authRequired = True, ad_roleRequired = ''admin'', ad_auditEnabled = True,
       ad_logSensitiveOperations = True, ad_rateLimit = \<lparr> lc_enabled = True, lc_windowMs = 60000, lc_maxRequests = 100 \<rparr> \<rparr>"

record RateLimitingConfig =
  rl_enabled :: bool
  rl_quotaTiers :: "(string \<times> (string \<times> int) list) list"
  rl_requestsPerMinute :: int
  rl_connectionsLimit :: int
  rl_requestsPerHour :: int
  rl_perEndpoint :: "(string \<times> int) list"
  rl_whitelist :: "string list"
  rl_blacklist :: "string list"
  rl_gracePeriodMs :: int

definition rateLimitingConfigSchema :: "RateLimitingConfig \<Rightarrow> bool" where
  "rateLimitingConfigSchema c \<longleftrightarrow> list_all (\<lambda>(tier, limits). tier \<noteq> [] \<and> list_all (\<lambda>(_, n). 0 \<le> n) limits) (rl_quotaTiers c) \<and>
     0 < rl_requestsPerMinute c \<and> 0 < rl_connectionsLimit c \<and> 0 < rl_requestsPerHour c \<and>
     list_all (\<lambda>(_, n). 0 < n) (rl_perEndpoint c) \<and> 0 \<le> rl_gracePeriodMs c"

definition loadRateLimitingConfig :: "config_error + RateLimitingConfig" where
  "loadRateLimitingConfig = checked ''RateLimitingConfig'' rateLimitingConfigSchema
     \<lparr> rl_enabled = True,
       rl_quotaTiers = [(''Free'', [(''resultsPerHour'', 100)]), (''Pro'', [(''resultsPerHour'', 10000)]), (''Enterprise'', [(''resultsPerHour'', 999999999)])],
       rl_requestsPerMinute = 10000, rl_connectionsLimit = 1000, rl_requestsPerHour = 3600, rl_perEndpoint = [(''/api/v1/ingest'', 5000)],
       rl_whitelist = [''127.0.0.1''], rl_blacklist = [], rl_gracePeriodMs = 0 \<rparr>"

lemma constant_settings_load:
  "okE loadWorkerConfig" "okE loadDaemonConfig" "okE loadAdminConfig" "okE loadRateLimitingConfig"
  "okE (loadApiConfig e) \<longleftrightarrow> okE (getCurrentEnvironment e)"
  by (simp_all add: loadWorkerConfig_def checked_def workerConfigSchema_def loadDaemonConfig_def daemonConfigSchema_def
      loadAdminConfig_def adminConfigSchema_def limit_schema_def loadRateLimitingConfig_def rateLimitingConfigSchema_def
      loadApiConfig_def apiConfigSchema_def isEnvironment_def okE_iff)

subsection \<open>The configuration\<close>

text \<open>How the resilience settings read the environment: \<open>Number(process.env.X || d)\<close>. An infinite number is refused
  like one that is none.\<close>

definition env_num_of :: "string option \<Rightarrow> env_num" where
  "env_num_of v = (if str_or v [] = [] then Unset
     else (case js_Number (the v) of Fin x \<Rightarrow> EnvNum x | _ \<Rightarrow> EnvNaN))"

definition resilience_settings :: "env \<Rightarrow> resilience_env" where
  "resilience_settings e =
     \<lparr> CIRCUIT_BREAKER_THRESHOLD = env_num_of (e ''CIRCUIT_BREAKER_THRESHOLD''),
       CIRCUIT_BREAKER_TIMEOUT_MS = env_num_of (e ''CIRCUIT_BREAKER_TIMEOUT_MS''),
       WORKER_CONCURRENCY = env_num_of (e ''WORKER_CONCURRENCY''), DB_POOL_MAX = env_num_of (e ''DB_POOL_MAX''),
       REDIS_POOL_MAX = env_num_of (e ''REDIS_POOL_MAX''), NODE_ENV = e ''NODE_ENV'', MAX_RETRIES = env_num_of (e ''MAX_RETRIES''),
       BACKOFF_BASE_MS = env_num_of (e ''BACKOFF_BASE_MS''),
       BACKPRESSURE_QUEUE_DEPTH_THRESHOLD = env_num_of (e ''BACKPRESSURE_QUEUE_DEPTH_THRESHOLD'') \<rparr>"

definition load_resilience :: "env \<Rightarrow> config_error + ResilienceConfig" where
  "load_resilience e = (case loadResilienceConfig (resilience_settings e) of Inl k \<Rightarrow> Inl (InvalidSetting k) | Inr c \<Rightarrow> Inr c)"

record Config =
  cf_app :: AppConfig
  cf_database :: DatabaseConfig
  cf_redis :: RedisConfig
  cf_queue :: QueueConfig
  cf_observability :: ObservabilityConfig
  cf_security :: SecurityConfig
  cf_resilience :: ResilienceConfig
  cf_api :: ApiConfig
  cf_server :: ServerConfig
  cf_admin :: AdminConfig
  cf_rateLimiting :: RateLimitingConfig
  cf_worker :: WorkerConfig
  cf_daemon :: DaemonConfig

definition validateConfigConsistency :: "env \<Rightarrow> Config \<Rightarrow> config_error + unit" where
  "validateConfigConsistency e c =
     bindE (guardE (\<not> db_maxConnections (cf_database c) < db_minConnections (cf_database c)) (InvalidSetting ''minConnections'')) (\<lambda>_.
     bindE (guardE (\<not> rd_poolMax (cf_redis c) < rd_poolMin (cf_redis c)) (InvalidSetting ''poolMin'')) (\<lambda>_.
     bindE (guardE (\<not> db_maxConnections (cf_database c) < rc_dbPool (cf_resilience c)) (InvalidSetting ''bulkheadPoolSizeDatabase'')) (\<lambda>_.
     bindE (isEnvironment PRODUCTION e) (\<lambda>prod.
       if \<not> prod then Inr ()
       else bindE (guardE (db_enableSSL (cf_database c)) (InvalidSetting ''enableSSL'')) (\<lambda>_.
            bindE (guardE (rd_enableTls (cf_redis c)) (InvalidSetting ''enableTls'')) (\<lambda>_.
            bindE (guardE (sv_httpsEnabled (cf_server c)) (InvalidSetting ''https'')) (\<lambda>_.
              guardE (\<not> list_ex dummy_secret [sc_jwtSecret (cf_security c), sc_apiKeySecret (cf_security c), sc_hmacSecret (cf_security c)])
                (InvalidSetting ''secrets''))))))))"

text \<open>The host: URLs, the decoding of their passwords, the files.\<close>

record host =
  h_new_URL :: "string \<Rightarrow> url option"
  h_decodeURIComponent :: "string \<Rightarrow> string option"
  h_existsSync :: "string \<Rightarrow> bool"

definition build_config :: "host \<Rightarrow> env \<Rightarrow> config_error + Config" where
  "build_config h e =
     bindE (parseEnv (h_new_URL h) e) (\<lambda>_.
     bindE (loadAppConfig (h_new_URL h) e) (\<lambda>app.
     bindE (loadDatabaseConfig (h_new_URL h) e) (\<lambda>database.
     bindE (loadRedisConfig (h_new_URL h) (h_decodeURIComponent h) e) (\<lambda>redis.
     bindE (loadQueueConfig e) (\<lambda>queue.
     bindE (loadObservabilityConfig (h_new_URL h) e) (\<lambda>observability.
     bindE (loadSecurityConfig e) (\<lambda>security.
     bindE (load_resilience e) (\<lambda>resilience.
     bindE (loadApiConfig e) (\<lambda>api.
     bindE (loadServerConfig (h_existsSync h) e) (\<lambda>server.
     bindE loadAdminConfig (\<lambda>admin.
     bindE loadRateLimitingConfig (\<lambda>rateLimiting.
     bindE loadWorkerConfig (\<lambda>worker.
     bindE loadDaemonConfig (\<lambda>daemon.
       let c = \<lparr> cf_app = app, cf_database = database, cf_redis = redis, cf_queue = queue, cf_observability = observability,
             cf_security = security, cf_resilience = resilience, cf_api = api, cf_server = server, cf_admin = admin,
             cf_rateLimiting = rateLimiting, cf_worker = worker, cf_daemon = daemon \<rparr>
       in bindE (validateConfigConsistency e c) (\<lambda>_. Inr c)))))))))))))))"

text \<open>\<open>loadConfigSync\<close> keeps the object it built; \<open>getConfig\<close> loads on first use.\<close>

definition loadConfigSync :: "host \<Rightarrow> env \<Rightarrow> Config option \<Rightarrow> (config_error + Config) \<times> Config option" where
  "loadConfigSync h e cached = (case cached of Some c \<Rightarrow> (Inr c, cached)
     | None \<Rightarrow> (case build_config h e of Inl err \<Rightarrow> (Inl err, None) | Inr c \<Rightarrow> (Inr c, Some c)))"

definition getConfig :: "host \<Rightarrow> env \<Rightarrow> Config option \<Rightarrow> (config_error + Config) \<times> Config option" where
  "getConfig h e cached = (case cached of None \<Rightarrow> loadConfigSync h e cached | Some c \<Rightarrow> (Inr c, cached))"

definition resetConfig :: "Config option \<Rightarrow> Config option" where
  "resetConfig cached = None"

text \<open>\<open>redactSensitiveData\<close>: what is printed of the environment at start-up.\<close>

definition json_truthy :: "json \<Rightarrow> bool" where
  "json_truthy v \<longleftrightarrow> v \<notin> {JNull, JBool False, JNum 0, JStr []}"

definition sensitive_name :: "string \<Rightarrow> bool" where
  "sensitive_name k \<longleftrightarrow> list_ex (includes_str (lower k)) [''secret'', ''key'', ''password'', ''url'', ''token'']"

definition redactSensitiveData :: "(string \<times> json) list \<Rightarrow> (string \<times> json) list" where
  "redactSensitiveData obj = map (\<lambda>(k, v). (k, if sensitive_name k \<and> json_truthy v then JStr ''[REDACTED]'' else v)) obj"

subsection \<open>What loaded settings have\<close>

lemma in_production_iff: "node_env e \<in> set [''development'', ''production'', ''test''] \<Longrightarrow> in_production e \<longleftrightarrow> node_env e = ''production''"
  by (auto simp: in_production_def lower_char_def)

lemma loadDatabaseConfig_Inr:
  assumes "loadDatabaseConfig url e = Inr c"
  shows "1 \<le> db_minConnections c \<and> db_minConnections c \<le> db_maxConnections c \<and> db_maxConnections c \<le> 100 \<and>
    db_enableSSL c = in_production e \<and> pool_maximum e = Fin (of_int (db_maxConnections c))"
  using assms by (auto simp: loadDatabaseConfig_def dest!: z_int_Inr)

lemma loadRedisConfig_Inr:
  assumes "loadRedisConfig url dec e = Inr c"
  shows "1 \<le> rd_poolMin c \<and> rd_poolMin c \<le> rd_poolMax c \<and> 1 \<le> rd_port c \<and> rd_port c \<le> 65535 \<and>
    (in_production e \<longrightarrow> rd_enableTls c)"
  using assms by (auto simp: loadRedisConfig_def Let_def more_than_def above_def dest!: z_int_Inr)

lemma loadSecurityConfig_Inr:
  assumes "loadSecurityConfig e = Inr c"
  shows "e ''JWT_SECRET'' = Some (sc_jwtSecret c) \<and> 32 \<le> length (sc_jwtSecret c) \<and> 32 \<le> length (sc_hmacSecret c) \<and>
    32 \<le> length (sc_apiKeySecret c) \<and> sc_corsOrigins c \<noteq> [] \<and> sc_corsOrigin c \<in> set (sc_corsOrigins c)"
proof -
  have hd: "hd xs \<in> set xs" if "xs \<noteq> []" for xs :: "string list" using that by simp
  show ?thesis
    using assms unfolding loadSecurityConfig_def Let_def bindE_eq_Inr_iff sum.inject guardE_simps EnvLoader_get_Inr
    by (elim exE conjE, hypsubst) (simp only: SecurityConfig.select_convs, simp add: hd split: if_split)
qed

lemma loadServerConfig_port: "loadServerConfig exists e = Inr c \<Longrightarrow> 1 \<le> sv_port c \<and> sv_port c \<le> 65535 \<and> number_setting e ''PORT'' ''3000'' = Fin (of_int (sv_port c))"
  by (auto simp: loadServerConfig_def Let_def dest!: z_int_Inr)

lemma loadAppConfig_port: "loadAppConfig url e = Inr c \<Longrightarrow> number_setting e ''PORT'' ''3000'' = Fin (of_int (ap_port c))"
  by (auto simp: loadAppConfig_def Let_def dest!: z_int_Inr)

lemma build_config_Inr:
  assumes "build_config h e = Inr c"
  shows "(\<exists>v. parseEnv (h_new_URL h) e = Inr v) \<and> loadAppConfig (h_new_URL h) e = Inr (cf_app c) \<and>
    loadDatabaseConfig (h_new_URL h) e = Inr (cf_database c) \<and>
    loadRedisConfig (h_new_URL h) (h_decodeURIComponent h) e = Inr (cf_redis c) \<and> loadQueueConfig e = Inr (cf_queue c) \<and>
    loadSecurityConfig e = Inr (cf_security c) \<and> load_resilience e = Inr (cf_resilience c) \<and>
    loadServerConfig (h_existsSync h) e = Inr (cf_server c) \<and> validateConfigConsistency e c = Inr ()"
  using assms unfolding build_config_def Let_def bindE_eq_Inr_iff sum.inject
  by (elim exE conjE, hypsubst) (intro conjI exI; (assumption | simp))

lemma parseEnv_Inr:
  assumes "parseEnv url e = Inr v"
  shows "node_env e = ev_NODE_ENV v \<and> node_env e \<in> set [''development'', ''production'', ''test''] \<and>
    ev_DB_POOL_MIN v \<le> ev_DB_POOL_MAX v \<and> ev_REDIS_POOL_MIN v \<le> ev_REDIS_POOL_MAX v \<and> parse_object url e = Inr v"
proof -
  have v: "parse_object url e = Inr v" "refine_env v = Inr v"
    using assms by (auto simp: parseEnv_def refine_env_def split: if_splits)
  from v(1) have "env_enum e ''NODE_ENV'' [''development'', ''production'', ''test''] ''development'' = Inr (ev_NODE_ENV v)"
    by (rule parse_object_conj [THEN conjunct1])
  then have n: "ev_NODE_ENV v = nullish_or (e ''NODE_ENV'') ''development''"
      "ev_NODE_ENV v \<in> set [''development'', ''production'', ''test'']"
    by (rule env_enum_Inr [THEN conjunct1], rule env_enum_Inr [THEN conjunct2])
  then have "node_env e = ev_NODE_ENV v"
    by (auto simp: node_env_def str_or_def nullish_or_def split: option.splits)
  then show ?thesis using n v by (simp add: refine_env_def split: if_splits)
qed

text \<open>C29: What a configuration that loads guarantees: the pools are ordered and large enough for the database's bulkhead, ports and
  secrets are usable, and in production the connections are encrypted and no secret is one of the known dummies.\<close>
theorem loaded_configuration_is_consistent:
  assumes "loadConfigSync h e None = (Inr c, cached)"
  shows "1 \<le> db_minConnections (cf_database c) \<and> db_minConnections (cf_database c) \<le> db_maxConnections (cf_database c) \<and>
    rc_dbPool (cf_resilience c) \<le> db_maxConnections (cf_database c) \<and> db_maxConnections (cf_database c) \<le> 100 \<and>
    1 \<le> rd_poolMin (cf_redis c) \<and> rd_poolMin (cf_redis c) \<le> rd_poolMax (cf_redis c) \<and>
    ap_port (cf_app c) = sv_port (cf_server c) \<and> 1 \<le> sv_port (cf_server c) \<and> sv_port (cf_server c) \<le> 65535 \<and>
    32 \<le> length (sc_jwtSecret (cf_security c)) \<and> 32 \<le> length (sc_hmacSecret (cf_security c)) \<and>
    (node_env e = ''production'' \<longrightarrow> db_enableSSL (cf_database c) \<and> rd_enableTls (cf_redis c) \<and> sv_httpsEnabled (cf_server c) \<and>
       \<not> list_ex dummy_secret [sc_jwtSecret (cf_security c), sc_apiKeySecret (cf_security c), sc_hmacSecret (cf_security c)])"
proof -
  have b: "build_config h e = Inr c" using assms by (auto simp: loadConfigSync_def split: sum.splits)
  note l = build_config_Inr [OF b]
  note db = loadDatabaseConfig_Inr [OF l [THEN conjunct2, THEN conjunct2, THEN conjunct1]]
  have rd: "1 \<le> rd_poolMin (cf_redis c) \<and> rd_poolMin (cf_redis c) \<le> rd_poolMax (cf_redis c)"
    and sc: "32 \<le> length (sc_jwtSecret (cf_security c)) \<and> 32 \<le> length (sc_hmacSecret (cf_security c))"
    and port: "ap_port (cf_app c) = sv_port (cf_server c) \<and> 1 \<le> sv_port (cf_server c) \<and> sv_port (cf_server c) \<le> 65535"
    and checks: "validateConfigConsistency e c = Inr ()"
    using l loadRedisConfig_Inr loadSecurityConfig_Inr loadServerConfig_port [of "h_existsSync h" e] loadAppConfig_port by fastforce+
  have "rc_dbPool (cf_resilience c) \<le> db_maxConnections (cf_database c)"
    using checks by (simp add: validateConfigConsistency_def not_less)
  moreover have "db_enableSSL (cf_database c) \<and> rd_enableTls (cf_redis c) \<and> sv_httpsEnabled (cf_server c) \<and>
       \<not> list_ex dummy_secret [sc_jwtSecret (cf_security c), sc_apiKeySecret (cf_security c), sc_hmacSecret (cf_security c)]"
    if p: "node_env e = ''production''"
  proof -
    have "isEnvironment PRODUCTION e = Inr True"
      using p by (simp add: isEnvironment_def getCurrentEnvironment_iff environment_text_def)
    then show ?thesis using checks by (simp add: validateConfigConsistency_def)
  qed
  ultimately show ?thesis using db rd sc port by blast
qed

text \<open>The configuration is one object: once loaded it is returned whatever the environment has become, until it is reset; a
  failed load leaves nothing behind.\<close>
theorem configuration_is_loaded_once:
  "case loadConfigSync h e None of
     (Inl err, cached) \<Rightarrow> cached = None
   | (Inr c, cached) \<Rightarrow> loadConfigSync h' e' cached = (Inr c, cached) \<and> getConfig h' e' cached = (Inr c, cached) \<and>
       getConfig h' e' (resetConfig cached) = loadConfigSync h' e' None"
  by (auto simp: loadConfigSync_def getConfig_def resetConfig_def split: sum.splits)

text \<open>\<open>staging\<close> is one of the environments, and the program cannot start in it: the schema of the environment refuses it.\<close>
theorem staging_is_refused:
  assumes "e ''NODE_ENV'' = Some ''staging''"
  shows "getCurrentEnvironment e = Inr STAGING \<and> (\<exists>err. loadConfigSync h e None = (Inl err, None))"
proof -
  have n: "node_env e = ''staging''" using assms by (simp add: node_env_def)
  have "\<not> okE (parseEnv (h_new_URL h) e)" using parseEnv_Inr [of "h_new_URL h" e] n by (auto simp: okE_iff)
  then have "\<exists>err. build_config h e = Inl err" using build_config_Inr [of h e] by (cases "build_config h e") (auto simp: okE_iff)
  then show ?thesis using n by (auto simp: getCurrentEnvironment_iff environment_text_def loadConfigSync_def)
qed

text \<open>A host for examples: a URL is a scheme, \<open>://\<close> and a host with an optional path; every file exists.\<close>

fun after_scheme :: "string \<Rightarrow> string option" where
  "after_scheme [] = None"
| "after_scheme (c # s) = (if starts_with ''://'' (c # s) then Some (drop 3 (c # s)) else after_scheme s)"

definition simple_url :: "string \<Rightarrow> url option" where
  "simple_url s = (case after_scheme s of None \<Rightarrow> None
     | Some r \<Rightarrow> Some \<lparr> u_hostname = takeWhile (\<lambda>c. c \<noteq> CHR ''/'') r, u_port = [], u_pathname = dropWhile (\<lambda>c. c \<noteq> CHR ''/'') r,
         u_username = [], u_password = [] \<rparr>)"

definition example_host :: host where
  "example_host = \<lparr> h_new_URL = simple_url, h_decodeURIComponent = Some, h_existsSync = (\<lambda>_. True) \<rparr>"

lemma default_numbers [simp]:
  "js_Number ''3000'' = Fin 3000" "js_Number ''20'' = Fin 20" "js_Number ''10'' = Fin 10" "js_Number ''5'' = Fin 5"
  "js_Number ''2'' = Fin 2" "js_Number ''9090'' = Fin 9090" "js_Number ''1000'' = Fin 1000" "js_Number ''30000'' = Fin 30000"
proof -
  have "show_nat 3000 = ''3000''" "show_nat 20 = ''20''" "show_nat 10 = ''10''" 
      "show_nat 5 = ''5''" "show_nat 2 = ''2''" "show_nat 9090 = ''9090''" "show_nat 1000 = ''1000''" "show_nat 30000 = ''30000''"
    by (simp_all add: show_nat.simps char_of_def bit_0)
  then show "js_Number ''3000'' = Fin 3000" "js_Number ''20'' = Fin 20" "js_Number ''10'' = Fin 10" 
      "js_Number ''5'' = Fin 5" "js_Number ''2'' = Fin 2" "js_Number ''9090'' = Fin 9090" "js_Number ''1000'' = Fin 1000" "js_Number ''30000'' = Fin 30000"
    using js_Number_show_nat [of 3000] js_Number_show_nat [of 20] js_Number_show_nat [of 10] 
      js_Number_show_nat [of 5] js_Number_show_nat [of 2] js_Number_show_nat [of 9090] js_Number_show_nat [of 1000] js_Number_show_nat [of 30000] by simp_all
qed

definition example_secret :: "char \<Rightarrow> string" where
  "example_secret c = replicate 32 c"

lemma example_secret_facts [simp]:
  "length (example_secret c) = 32" "\<not> is_space c \<Longrightarrow> trim (example_secret c) \<noteq> []"
  "c \<in> set ''jha'' \<Longrightarrow> \<not> dummy_secret (example_secret c)"
  "c \<in> set ''jha'' \<Longrightarrow> \<not> placeholder_secret (example_secret c)"
proof -
  show "trim (example_secret c) \<noteq> []" if "\<not> is_space c"
    using that by (simp add: example_secret_def trim_unchanged)
  have "list_all (\<lambda>c. \<not> dummy_secret (example_secret c) \<and> \<not> placeholder_secret (example_secret c)) ''jha''"
    by code_simp
  then show "\<not> dummy_secret (example_secret c)" "\<not> placeholder_secret (example_secret c)" if "c \<in> set ''jha''"
    using that unfolding list_all_iff by blast+
qed (simp add: example_secret_def)

definition production_env :: env where
  "production_env = map_of [(''NODE_ENV'', ''production''), (''DATABASE_URL'', ''postgres://db/q''), (''REDIS_URL'', ''redis://cache''),
     (''JWT_SECRET'', example_secret CHR ''j''), (''HMAC_SECRET'', example_secret CHR ''h''), (''API_KEY_SECRET'', example_secret CHR ''a'')]"

lemma production_env_set [simp]:
  "production_env ''NODE_ENV'' = Some ''production''" "production_env ''DATABASE_URL'' = Some ''postgres://db/q''"
  "production_env ''REDIS_URL'' = Some ''redis://cache''" "production_env ''JWT_SECRET'' = Some (example_secret CHR ''j'')"
  "production_env ''HMAC_SECRET'' = Some (example_secret CHR ''h'')" "production_env ''API_KEY_SECRET'' = Some (example_secret CHR ''a'')"
  "node_env production_env = ''production''" "in_production production_env"
  by (simp_all add: production_env_def node_env_def in_production_def lower_char_def)

lemma production_env_unset:
  assumes "k \<notin> set [''NODE_ENV'', ''DATABASE_URL'', ''REDIS_URL'', ''JWT_SECRET'', ''HMAC_SECRET'', ''API_KEY_SECRET'']"
  shows "production_env k = None" "EnvLoader_getOrDefault production_env k d = d" "env_int production_env k lo hi n = Inr n"
    "env_rat production_env k l h r = Inr r" "env_num_of (production_env k) = Unset" "\<not> given production_env k"
    "env_enum production_env k vs d = (if d \<in> set vs then Inr d else Inl (InvalidSetting k))"
proof -
  show u: "production_env k = None" using assms by (simp add: production_env_def)
  show "EnvLoader_getOrDefault production_env k d = d" "env_int production_env k lo hi n = Inr n"
    "env_rat production_env k l h r = Inr r" "env_num_of (production_env k) = Unset" "\<not> given production_env k"
    "env_enum production_env k vs d = (if d \<in> set vs then Inr d else Inl (InvalidSetting k))"
    by (simp_all add: EnvLoader_getOrDefault_def given_def env_int_def env_rat_def env_enum_def env_num_of_def u)
qed

lemma production_environment [simp]: "getCurrentEnvironment production_env = Inr PRODUCTION"
  by (simp add: getCurrentEnvironment_def environment_text_def)

lemma production_parses: "okE (parseEnv simple_url production_env)"
  by (simp add: parseEnv_def parse_object_def production_env_unset refine_env_def env_secret_def env_url_def env_enum_def simple_url_def)

lemma production_app: "okE (loadAppConfig simple_url production_env)"
  by (simp add: loadAppConfig_def production_env_unset simple_url_def z_url_def number_setting_def z_int_def Let_def)

lemma production_database: "loadDatabaseConfig simple_url production_env = Inr c \<Longrightarrow> db_maxConnections c = 20 \<and> db_enableSSL c"
    "okE (loadDatabaseConfig simple_url production_env)"
  by (auto simp: loadDatabaseConfig_def production_env_unset simple_url_def number_setting_def z_int_def EnvLoader_get_def given_def
   trim_def is_space_def pool_maximum_def max_num_def plus_num_def more_than_def above_def url_port_def)

lemma production_redis: "okE (loadRedisConfig simple_url Some production_env)"
  by (simp add: loadRedisConfig_def production_env_unset simple_url_def number_setting_def z_int_def EnvLoader_get_def given_def
   trim_def is_space_def more_than_def above_def url_port_def Let_def)

lemma production_queue: "okE (loadQueueConfig production_env)"
  by (simp add: loadQueueConfig_def production_env_unset number_setting_def z_int_def below_def above_def Let_def)

lemma production_observability: "okE (loadObservabilityConfig simple_url production_env)"
  by (simp add: loadObservabilityConfig_def production_env_unset number_setting_def z_int_def z_rat_def z_url_def simple_url_def below_def above_def Let_def)

lemma production_security: "\<exists>c. loadSecurityConfig production_env = Inr c \<and>
    sc_jwtSecret c = example_secret CHR ''j'' \<and> sc_hmacSecret c = example_secret CHR ''h'' \<and> sc_apiKeySecret c = example_secret CHR ''a''"
  by (simp add: loadSecurityConfig_def production_env_unset EnvLoader_getAsArray_def EnvLoader_getOrDefault_def EnvLoader_get_def given_def
      cors_origin_ok_def is_space_def Let_def)

lemma production_resilience: "\<exists>c. load_resilience production_env = Inr c \<and> rc_dbPool c = 10"
proof -
  have "resilience_settings production_env = empty_env \<lparr> NODE_ENV := Some ''production'' \<rparr>"
    by (simp add: resilience_settings_def empty_env_def production_env_unset env_num_of_def)
  then show ?thesis
    by (simp add: load_resilience_def loadResilienceConfig_def empty_env_def env_number_def positive_int_def js_round_def
        lower_char_def floor_eq_iff Let_def)
qed

lemma production_server: "\<exists>c. loadServerConfig (\<lambda>_. True) production_env = Inr c \<and> sv_httpsEnabled c"
  by (simp add: loadServerConfig_def production_env_unset isEnvironment_def getCurrentEnvironment_def environment_text_def number_setting_def z_int_def Let_def)

lemma production_loads: "\<exists>c. loadConfigSync example_host production_env None = (Inr c, Some c)"
proof -
  obtain v app db redis queue obs where l: "parseEnv simple_url production_env = Inr v" "loadAppConfig simple_url production_env = Inr app"
      "loadDatabaseConfig simple_url production_env = Inr db" "loadRedisConfig simple_url Some production_env = Inr redis"
      "loadQueueConfig production_env = Inr queue" "loadObservabilityConfig simple_url production_env = Inr obs"
    using production_parses production_app production_database(2) production_redis production_queue production_observability by (auto simp: okE_iff)
  obtain sec srv res where s: "loadSecurityConfig production_env = Inr sec" "sc_jwtSecret sec = example_secret CHR ''j''"
      "sc_hmacSecret sec = example_secret CHR ''h''" "sc_apiKeySecret sec = example_secret CHR ''a''"
      "loadServerConfig (\<lambda>_. True) production_env = Inr srv" "sv_httpsEnabled srv"
      "load_resilience production_env = Inr res" "rc_dbPool res = 10"
    using production_security production_server production_resilience by blast
  obtain adm rl wk dm where k: "loadAdminConfig = Inr adm" "loadRateLimitingConfig = Inr rl" "loadWorkerConfig = Inr wk" "loadDaemonConfig = Inr dm"
    using constant_settings_load(1-4) by (auto simp: okE_iff)
  obtain api where a: "loadApiConfig production_env = Inr api"
    using constant_settings_load(5) [of production_env] by (auto simp: okE_iff getCurrentEnvironment_def environment_text_def)
  have "isEnvironment PRODUCTION production_env = Inr True" by (simp add: isEnvironment_def)
  then have "okE (build_config example_host production_env)"
    using l s a production_database(1) [OF l(3)] loadDatabaseConfig_Inr [OF l(3)] loadRedisConfig_Inr [OF l(4)]
    by (simp add: build_config_def example_host_def validateConfigConsistency_def Let_def k)
  then show ?thesis by (auto simp: okE_iff loadConfigSync_def)
qed

theorem loaded_configuration_is_consistent_witness:
  "\<exists>c. loadConfigSync example_host production_env None = (Inr c, Some c) \<and> sv_httpsEnabled (cf_server c) \<and>
     rc_dbPool (cf_resilience c) \<le> db_maxConnections (cf_database c)"
proof -
  obtain c where c: "loadConfigSync example_host production_env None = (Inr c, Some c)" using production_loads by blast
  then show ?thesis using loaded_configuration_is_consistent [OF c] by auto
qed

theorem staging_is_refused_witness:
  "\<exists>err. loadConfigSync example_host (production_env(''NODE_ENV'' \<mapsto> ''staging'')) None = (Inl err, None)"
  using staging_is_refused [of "production_env(''NODE_ENV'' \<mapsto> ''staging'')" example_host] by simp

subsection \<open>The environment and the settings\<close>

text \<open>A number that the schema accepts is the number the loaders read, when both have the same default and blank is not a
  number in range.\<close>

lemma validated_number:
  assumes "env_int e k lo hi d = Inr n" "0 < lo" "0 \<le> d"
  shows "number_setting e k (show_int d) = Fin (of_int n)"
proof (cases "e k")
  case None
  then have "n = d" using assms(1) by (simp add: env_int_def)
  then show ?thesis using None assms(3) by (simp add: number_setting_def EnvLoader_getOrDefault_def given_def show_int_def)
next
  case (Some s)
  then have z: "js_Number s = Fin (of_int n)" "lo \<le> n" using assms(1) z_int_Inr by (fastforce simp: env_int_def)+
  have "trim s \<noteq> []"
  proof
    assume "trim s = []"
    then have "js_Number s = Fin 0" by (simp add: js_Number_def take_sign_def Let_def)
    then show False using z assms(2) by simp
  qed
  then show ?thesis using Some z by (simp add: number_setting_def EnvLoader_getOrDefault_def given_def)
qed

lemma show_int_defaults: "show_int 5 = ''5''" "show_int 1000 = ''1000''" "show_int 30000 = ''30000''"
  by (simp_all add: show_int_def show_nat.simps char_of_def bit_0)

text \<open>The queue's settings are those of the validated environment: in an environment that parses, the queue settings can only fail
  on the concurrency, and the attempts, the first delay and the time-out are the parsed ones.\<close>
theorem queue_settings_follow_environment:
  assumes "parseEnv url e = Inr v"
  shows "loadQueueConfig e = (case z_int ''concurrency'' 1 (Some 100) (number_setting e ''QUEUE_CONCURRENCY'' ''10'') of
      Inl err \<Rightarrow> Inl err
    | Inr n \<Rightarrow> Inr \<lparr> qc_mainQueueName = EnvLoader_getOrDefault e ''MAIN_QUEUE_NAME'' ''delivery-queue'',
         qc_delayedQueueName = EnvLoader_getOrDefault e ''DELAYED_QUEUE_NAME'' ''delivery-queue:delayed'',
         qc_dlqQueueName = EnvLoader_getOrDefault e ''DLQ_QUEUE_NAME'' ''delivery-queue:dlq'', qc_concurrency = n,
         qc_defaultJobTimeout = ev_STALE_JOB_TIMEOUT_MS v, qc_lockDuration = 30000, qc_lockRenewTime = 15000,
         qc_retryDelay = ev_BACKOFF_BASE_MS v, qc_maxBackoff = 3600000, qc_attempts = Fin (of_int (ev_MAX_RETRIES v)),
         qc_prefix = ''bull'' \<rparr>)"
proof -
  note p = parse_object_conj [OF parseEnv_Inr [OF assms, THEN conjunct2, THEN conjunct2, THEN conjunct2, THEN conjunct2]]
  have e: "env_int e ''MAX_RETRIES'' 1 10 5 = Inr (ev_MAX_RETRIES v)" "env_int e ''BACKOFF_BASE_MS'' 100 10000 1000 = Inr (ev_BACKOFF_BASE_MS v)"
      "env_int e ''STALE_JOB_TIMEOUT_MS'' 5000 300000 30000 = Inr (ev_STALE_JOB_TIMEOUT_MS v)"
    using p by simp_all
  have n: "number_setting e ''MAX_RETRIES'' ''5'' = Fin (of_int (ev_MAX_RETRIES v))"
      "number_setting e ''BACKOFF_BASE_MS'' ''1000'' = Fin (of_int (ev_BACKOFF_BASE_MS v))"
      "number_setting e ''STALE_JOB_TIMEOUT_MS'' ''30000'' = Fin (of_int (ev_STALE_JOB_TIMEOUT_MS v))"
    using e [THEN validated_number] by (simp_all only: show_int_defaults)
  have b: "1 \<le> ev_MAX_RETRIES v" "ev_MAX_RETRIES v \<le> 10" "100 \<le> ev_BACKOFF_BASE_MS v" "ev_BACKOFF_BASE_MS v \<le> 10000"
      "5000 \<le> ev_STALE_JOB_TIMEOUT_MS v" "ev_STALE_JOB_TIMEOUT_MS v \<le> 300000"
    using e [THEN env_int_bounds] by simp_all
  have r: "\<not> (of_int m :: rat) < b \<longleftrightarrow> b \<le> of_int m" for m b by (simp add: not_less)
  show ?thesis
    using b by (auto simp: loadQueueConfig_def n below_def above_def z_int_def Let_def split: sum.split)
qed

theorem queue_settings_follow_environment_witness:
  "\<exists>c. loadQueueConfig production_env = Inr c \<and> qc_attempts c = Fin 5"
proof -
  obtain v where v: "parseEnv simple_url production_env = Inr v" using production_parses by (auto simp: okE_iff)
  note p = parse_object_conj [OF parseEnv_Inr [OF v, THEN conjunct2, THEN conjunct2, THEN conjunct2, THEN conjunct2]]
  then have "env_int production_env ''MAX_RETRIES'' 1 10 5 = Inr (ev_MAX_RETRIES v)" by blast
  then have "ev_MAX_RETRIES v = 5" by (simp add: production_env_unset)
  then show ?thesis
    using queue_settings_follow_environment [OF v] by (simp add: number_setting_def production_env_unset z_int_def)
qed

text \<open>Where the two have different defaults: with nothing set the environment reads a database pool of at most 10, the database
  settings one of at least 20.\<close>
theorem pool_defaults_differ:
  assumes "parseEnv url e = Inr v" "loadDatabaseConfig new_URL e = Inr c" "e ''DB_POOL_MAX'' = None" "e ''DATABASE_MAX_CONNECTIONS'' = None"
  shows "ev_DB_POOL_MAX v = 10 \<and> 20 \<le> db_maxConnections c"
proof
  note p = parse_object_conj [OF parseEnv_Inr [OF assms(1), THEN conjunct2, THEN conjunct2, THEN conjunct2, THEN conjunct2]]
  then have "env_int e ''DB_POOL_MAX'' 1 100 10 = Inr (ev_DB_POOL_MAX v)" by blast
  then show "ev_DB_POOL_MAX v = 10" using assms(3) by (simp add: env_int_def)
  have "pool_maximum e = Fin (of_int (db_maxConnections c))" using loadDatabaseConfig_Inr [OF assms(2)] by blast
  then show "20 \<le> db_maxConnections c"
    using assms(3,4) by (auto simp: pool_maximum_def number_setting_def EnvLoader_getOrDefault_def given_def max_num_def more_than_def
        above_def plus_num_def split: if_splits js_num.splits)
qed

theorem pool_defaults_differ_witness:
  "\<exists>v c. parseEnv simple_url production_env = Inr v \<and> loadDatabaseConfig simple_url production_env = Inr c \<and>
     ev_DB_POOL_MAX v < db_maxConnections c"
proof -
  obtain v c where p: "parseEnv simple_url production_env = Inr v" "loadDatabaseConfig simple_url production_env = Inr c"
    using production_parses production_database(2) by (auto simp: okE_iff)
  then show ?thesis using pool_defaults_differ [OF p] by (auto simp: production_env_unset)
qed

text \<open>What is printed at start-up hides every sensitive value that is there, keeps the names and their order and all other values,
  and redacting again changes nothing.\<close>
theorem redaction_hides_secrets:
  "map fst (redactSensitiveData obj) = map fst obj \<and>
   filter (\<lambda>(k, v). sensitive_name k \<and> json_truthy v \<and> v \<noteq> JStr ''[REDACTED]'') (redactSensitiveData obj) = [] \<and>
   filter (\<lambda>(k, v). \<not> sensitive_name k) (redactSensitiveData obj) = filter (\<lambda>(k, v). \<not> sensitive_name k) obj \<and>
   redactSensitiveData (redactSensitiveData obj) = redactSensitiveData obj"
  by (induction obj) (auto simp: redactSensitiveData_def split: if_splits)

end
