(* ===== verification/QF_Parse.thy ===== *)
theory QF_Parse
  imports QF_Json
begin

text \<open>
  \<open>JSON.parse\<close>. What it returns has numbers with fractions, so the values here are \<open>jdoc\<close>, and \<open>embed\<close> reads
  a \<open>json\<close> of QF_Json as one. The parser is recursive descent on the text; a text that is not JSON is \<open>None\<close> (the
  code catches the \<open>SyntaxError\<close>). Strings are UTF-8. Shown: what \<open>JSON.stringify\<close> writes is read back.
\<close>

datatype jdoc = DNull | DBool bool | DNum rat | DStr string | DArr "jdoc list" | DObj "(string \<times> jdoc) list"

primrec embed :: "json \<Rightarrow> jdoc" where
  "embed JNull = DNull"
| "embed (JBool b) = DBool b"
| "embed (JNum n) = DNum (of_int n)"
| "embed (JStr s) = DStr s"
| "embed (JArr xs) = DArr (map embed xs)"
| "embed (JObj ps) = DObj (map (map_prod id embed) ps)"

subsection \<open>Strings\<close>

text \<open>The bytes of a code point.\<close>

definition utf8_bytes :: "nat \<Rightarrow> string" where
  "utf8_bytes n = (if n < 128 then [char_of n]
     else if n < 2048 then [char_of (192 + n div 64), char_of (128 + n mod 64)]
     else if n < 65536 then [char_of (224 + n div 4096), char_of (128 + n div 64 mod 64), char_of (128 + n mod 64)]
     else [char_of (240 + n div 262144), char_of (128 + n div 4096 mod 64), char_of (128 + n div 64 mod 64), char_of (128 + n mod 64)])"

definition hex4 :: "string \<Rightarrow> (nat \<times> string) option" where
  "hex4 s = (case s of a # b # c # d # r \<Rightarrow>
       (case (hex_val a, hex_val b, hex_val c, hex_val d) of
          (Some w, Some x, Some y, Some z) \<Rightarrow> Some (4096 * w + 256 * x + 16 * y + z, r) | _ \<Rightarrow> None)
     | _ \<Rightarrow> None)"

text \<open>What follows \<open>\u\<close>: a pair of surrogates is one code point.\<close>

definition unicode_escape :: "string \<Rightarrow> (string \<times> string) option" where
  "unicode_escape s = (case hex4 s of None \<Rightarrow> None
     | Some (n, r) \<Rightarrow>
         (case (if 55296 \<le> n \<and> n < 56320 \<and> take 2 r = [CHR 0x5C, CHR ''u''] then hex4 (drop 2 r) else None) of
            Some (m, r') \<Rightarrow> if 56320 \<le> m \<and> m < 57344 then Some (utf8_bytes (65536 + 1024 * (n - 55296) + (m - 56320)), r')
              else Some (utf8_bytes n, r)
          | None \<Rightarrow> Some (utf8_bytes n, r)))"

lemma hex4_shorter: "hex4 s = Some (n, r) \<Longrightarrow> length r < length s"
  by (auto simp: hex4_def split: list.splits option.splits)

lemma unicode_escape_shorter: "unicode_escape s = Some (c, r) \<Longrightarrow> length r < length s"
  by (auto simp: unicode_escape_def split: option.splits if_splits dest!: hex4_shorter)

definition simple_escape :: "char \<Rightarrow> char option" where
  "simple_escape e = (if e \<in> set [CHR 0x22, CHR 0x5C, CHR ''/''] then Some e
     else if e \<in> set ''bfnrt'' then Some (unescape e) else None)"

function parse_chars :: "string \<Rightarrow> (string \<times> string) option" where
  "parse_chars [] = None"
| "parse_chars (c # s) =
     (if c = CHR 0x22 then Some ([], s)
      else if (of_char c :: nat) < 32 then None
      else if c \<noteq> CHR 0x5C then map_option (map_prod ((#) c) id) (parse_chars s)
      else (case s of [] \<Rightarrow> None
        | e # r \<Rightarrow> if e = CHR ''u'' then
              (case unicode_escape r of None \<Rightarrow> None | Some (bs, r') \<Rightarrow> map_option (map_prod ((@) bs) id) (parse_chars r'))
            else (case simple_escape e of None \<Rightarrow> None | Some d \<Rightarrow> map_option (map_prod ((#) d) id) (parse_chars r))))"
  by pat_completeness auto
termination by (relation "measure length") (auto dest!: unicode_escape_shorter)

lemma parse_chars_shorter: "parse_chars s = Some (t, r) \<Longrightarrow> length r < length s"
proof (induction s arbitrary: t r rule: parse_chars.induct)
  case (2 c s)
  then show ?case
    by (fastforce split: if_splits list.splits option.splits dest: unicode_escape_shorter)
qed simp

lemma hex4_control: "n < 32 \<Longrightarrow> hex4 (CHR ''0'' # CHR ''0'' # hex_digit (n div 16) # hex_digit (n mod 16) # r) = Some (n, r)"
proof -
  assume "n < 32"
  moreover have "hex_val CHR ''0'' = Some 0" by (simp add: hex_val_def)
  ultimately show ?thesis by (simp add: hex4_def)
qed

lemma parse_quote_char: "parse_chars (quote_char c @ r) = map_option (map_prod ((#) c) id) (parse_chars r)"
proof -
  let ?n = "of_char c :: nat"
  have c: "c = char_of ?n" by simp
  show ?thesis
  proof (cases "?n \<in> {8, 9, 10, 12, 13, 34, 92}")
    case True
    then have "c \<in> {char_of (8::nat), char_of (9::nat), char_of (10::nat), char_of (12::nat), char_of (13::nat), CHR 0x22, CHR 0x5C}"
      using c by (auto simp: char_of_def bit_0)
    then show ?thesis by (auto simp: quote_char_def simple_escape_def unescape_def char_of_def bit_0)
  next
    case ns: False
    show ?thesis
    proof (cases "?n < 32")
      case True
      have "utf8_bytes ?n = [c]" using True c by (simp add: utf8_bytes_def)
      then have "unicode_escape (CHR ''0'' # CHR ''0'' # hex_digit (?n div 16) # hex_digit (?n mod 16) # r) = Some ([c], r)"
        using True by (simp add: unicode_escape_def hex4_control)
      moreover have "quote_char c = [CHR 0x5C, CHR ''u'', CHR ''0'', CHR ''0'', hex_digit (?n div 16), hex_digit (?n mod 16)]"
        using ns True by (simp add: quote_char_def Let_def)
      moreover have "(@) [c] = (#) c" by (rule ext) simp
      ultimately show ?thesis by simp
    next
      case False
      then have "quote_char c = [c]" "c \<noteq> CHR 0x22" "c \<noteq> CHR 0x5C" using ns by (auto simp: quote_char_def Let_def)
      then show ?thesis using False by simp
    qed
  qed
qed

lemma parse_chars_quoted: "parse_chars (concat (map quote_char s) @ CHR 0x22 # r) = Some (s, r)"
  by (induction s) (simp_all add: parse_quote_char)

subsection \<open>Numbers\<close>

definition digits_of :: "string \<Rightarrow> string \<times> string" where
  "digits_of s = (takeWhile digit_char s, dropWhile digit_char s)"

text \<open>An integer part without superfluous zeros, an optional fraction, an optional exponent.\<close>

definition parse_fraction :: "string \<Rightarrow> (string \<times> string) option" where
  "parse_fraction s = (case s of [] \<Rightarrow> Some ([], []) | c # t \<Rightarrow>
     if c \<noteq> CHR ''.'' then Some ([], s)
     else (case digits_of t of (d, r) \<Rightarrow> if d = [] then None else Some (d, r)))"

definition parse_exponent :: "string \<Rightarrow> (rat \<times> string) option" where
  "parse_exponent s = (case s of [] \<Rightarrow> Some (1, []) | c # t \<Rightarrow>
     if c \<noteq> CHR ''e'' \<and> c \<noteq> CHR ''E'' then Some (1, s)
     else (let (neg, u) = (case t of [] \<Rightarrow> (False, []) | x # w \<Rightarrow>
                 if x = CHR ''-'' then (True, w) else if x = CHR ''+'' then (False, w) else (False, t));
               (d, r) = digits_of u
           in if d = [] then None else Some (if neg then 1 / 10 ^ read_digits d else 10 ^ read_digits d, r)))"

definition parse_unsigned :: "string \<Rightarrow> (rat \<times> string) option" where
  "parse_unsigned s = (case digits_of s of (i, r) \<Rightarrow>
     if i = [] \<or> (hd i = CHR ''0'' \<and> tl i \<noteq> []) then None
     else (case parse_fraction r of None \<Rightarrow> None
       | Some (f, r') \<Rightarrow> (case parse_exponent r' of None \<Rightarrow> None
         | Some (e, r'') \<Rightarrow> Some (of_nat (read_digits (i @ f)) / 10 ^ length f * e, r''))))"

definition parse_number :: "string \<Rightarrow> (rat \<times> string) option" where
  "parse_number s = (case s of [] \<Rightarrow> None
     | c # t \<Rightarrow> if c = CHR ''-'' then map_option (map_prod uminus id) (parse_unsigned t) else parse_unsigned s)"

lemma hd_show_nat_zero: "hd (show_nat n) = CHR ''0'' \<Longrightarrow> n = 0"
proof (induction n rule: show_nat.induct)
  case (1 n)
  show ?case
  proof (cases "n < 10")
    case True
    then have "char_of (48 + n) = CHR ''0''" using 1(2) by (subst (asm) show_nat.simps) simp
    then have "(of_char (char_of (48 + n) :: char) :: nat) = of_char CHR ''0''" by simp
    then show ?thesis using True by simp
  next
    case False
    then have "hd (show_nat (n div 10)) = CHR ''0''" using 1(2) by (subst (asm) show_nat.simps) simp
    then have "n div 10 = 0" using 1 False by blast
    then show ?thesis using False by simp
  qed
qed

lemma parse_unsigned_show_nat:
  assumes "ends_value r"
  shows "parse_unsigned (show_nat n @ r) = Some (of_nat n, r)"
proof -
  have nd: "no_digit r" using assms by (cases r) (auto simp: no_digit_def digit_char_def)
  have d: "takeWhile digit_char (show_nat n @ r) = show_nat n" using takeWhile_show_nat [OF nd] .
  moreover have "dropWhile digit_char (show_nat n @ r) = r"
    using d takeWhile_dropWhile_id [of digit_char "show_nat n @ r"] by simp
  moreover have "\<not> (hd (show_nat n) = CHR ''0'' \<and> tl (show_nat n) \<noteq> [])"
    using hd_show_nat_zero [of n] by (auto simp: show_nat.simps [of 0])
  moreover have "parse_fraction r = Some ([], r)" "parse_exponent r = Some (1, r)"
    using assms by (cases r; auto simp: parse_fraction_def parse_exponent_def)+
  ultimately show ?thesis by (simp add: parse_unsigned_def digits_of_def)
qed

lemma parse_number_show_int:
  assumes "ends_value r"
  shows "parse_number (show_int i @ r) = Some (of_int i, r)"
proof (cases "i < 0")
  case True
  then show ?thesis by (simp add: parse_number_def show_int_def parse_unsigned_show_nat [OF assms])
next
  case False
  obtain c s where s: "show_nat (nat i) = c # s" by (cases "show_nat (nat i)") auto
  then have "c \<noteq> CHR ''-''" using hd_show_nat [of "nat i"] by auto
  then show ?thesis using False s parse_unsigned_show_nat [OF assms, of "nat i"] by (simp add: parse_number_def show_int_def)
qed

subsection \<open>Values\<close>

definition json_space :: "char \<Rightarrow> bool" where
  "json_space c \<longleftrightarrow> c \<in> set [CHR '' '', CHR 0x09, CHR 0x0A, CHR 0x0D]"

definition skip_spaces :: "string \<Rightarrow> string" where
  "skip_spaces s = dropWhile json_space s"

definition word_value :: "string \<Rightarrow> (jdoc \<times> string) option" where
  "word_value s = (if starts_with ''null'' s then Some (DNull, drop 4 s)
     else if starts_with ''true'' s then Some (DBool True, drop 4 s)
     else if starts_with ''false'' s then Some (DBool False, drop 5 s) else None)"

definition leading :: "char \<Rightarrow> string \<Rightarrow> bool" where
  "leading c s \<longleftrightarrow> (case skip_spaces s of [] \<Rightarrow> False | x # _ \<Rightarrow> x = c)"

definition after_leading :: "string \<Rightarrow> string" where
  "after_leading s = tl (skip_spaces s)"

text \<open>A property's name and its colon.\<close>

definition parse_name :: "string \<Rightarrow> (string \<times> string) option" where
  "parse_name s = (if leading CHR 0x22 s then
       (case parse_chars (after_leading s) of None \<Rightarrow> None
        | Some (k, r) \<Rightarrow> if leading CHR '':'' r then Some (k, after_leading r) else None)
     else None)"

lemma skip_spaces_length: "length (skip_spaces s) \<le> length s"
  by (simp add: skip_spaces_def length_dropWhile_le)

lemma after_leading_shorter: "leading c s \<Longrightarrow> length (after_leading s) < length s"
  using skip_spaces_length [of s] by (cases "skip_spaces s") (auto simp: leading_def after_leading_def)

lemma parse_name_shorter: "parse_name s = Some (k, r) \<Longrightarrow> length r < length s"
  by (auto simp: parse_name_def split: if_splits option.splits dest!: after_leading_shorter parse_chars_shorter)

text \<open>A value, the elements of an array up to its bracket, the properties of an object up to its brace. Where a result feeds the next
  call its rest is shorter (\<open>parsers_shorten\<close>); the tests of the lengths only show it to the definition.\<close>

function (sequential) parse_value :: "string \<Rightarrow> (jdoc \<times> string) option"
  and parse_elements :: "string \<Rightarrow> (jdoc list \<times> string) option"
  and parse_members :: "string \<Rightarrow> ((string \<times> jdoc) list \<times> string) option" where
  "parse_value s =
     (if leading CHR 0x22 s then map_option (map_prod DStr id) (parse_chars (after_leading s))
      else if leading CHR ''['' s then
        (if leading CHR '']'' (after_leading s) then Some (DArr [], after_leading (after_leading s))
         else map_option (map_prod DArr id) (parse_elements (after_leading s)))
      else if leading CHR ''{'' s then
        (if leading CHR ''}'' (after_leading s) then Some (DObj [], after_leading (after_leading s))
         else map_option (map_prod (\<lambda>ps. DObj (fold (\<lambda>(k, v) m. mset_at k v m) ps [])) id) (parse_members (after_leading s)))
      else (case word_value (skip_spaces s) of Some r \<Rightarrow> Some r
            | None \<Rightarrow> map_option (map_prod DNum id) (parse_number (skip_spaces s))))"
| "parse_elements s =
     (case parse_value s of None \<Rightarrow> None
      | Some (v, r) \<Rightarrow> if leading CHR '']'' r then Some ([v], after_leading r)
          else if leading CHR '','' r \<and> length (after_leading r) < length s
          then map_option (map_prod ((#) v) id) (parse_elements (after_leading r)) else None)"
| "parse_members s =
     (case parse_name s of None \<Rightarrow> None
      | Some (k, t) \<Rightarrow>
         (case parse_value t of None \<Rightarrow> None
          | Some (v, r) \<Rightarrow> if leading CHR ''}'' r then Some ([(k, v)], after_leading r)
              else if leading CHR '','' r \<and> length (after_leading r) < length s
              then map_option (map_prod ((#) (k, v)) id) (parse_members (after_leading r)) else None))"
  by pat_completeness auto
termination
  by (relation "measure (\<lambda>x. case x of Inl s \<Rightarrow> 2 * length s | Inr (Inl s) \<Rightarrow> 2 * length s + 1 | Inr (Inr s) \<Rightarrow> 2 * length s + 1)")
     (auto dest: after_leading_shorter parse_name_shorter)

declare parse_value.simps [simp del] parse_elements.simps [simp del] parse_members.simps [simp del]

text \<open>\<open>JSON.parse\<close>: one value, and nothing after it but spaces.\<close>

definition json_parse :: "string \<Rightarrow> jdoc option" where
  "json_parse s = (case parse_value s of Some (v, r) \<Rightarrow> if skip_spaces r = [] then Some v else None | None \<Rightarrow> None)"

lemma parse_exponent_shorter: "parse_exponent s = Some (e, r) \<Longrightarrow> length r \<le> length s"
  by (auto simp: parse_exponent_def digits_of_def Let_def split: list.splits if_splits
      intro: le_trans [OF length_dropWhile_le] dest: arg_cong [where f = length])

lemma parse_fraction_shorter: "parse_fraction s = Some (f, r) \<Longrightarrow> length r \<le> length s"
  by (auto simp: parse_fraction_def digits_of_def split: list.splits if_splits intro: le_trans [OF length_dropWhile_le])

lemma parse_unsigned_shorter: "parse_unsigned s = Some (x, r) \<Longrightarrow> length r < length s"
proof -
  assume "parse_unsigned s = Some (x, r)"
  then obtain f e r' where p: "takeWhile digit_char s \<noteq> []" "parse_fraction (dropWhile digit_char s) = Some (f, r')"
      "parse_exponent r' = Some (e, r)"
    by (auto simp: parse_unsigned_def digits_of_def split: if_splits option.splits)
  have "length r \<le> length (dropWhile digit_char s)"
    using parse_exponent_shorter [OF p(3)] parse_fraction_shorter [OF p(2)] by simp
  also have "\<dots> < length s"
    using p(1) takeWhile_dropWhile_id [of digit_char s] by (metis length_append length_greater_0_conv less_add_same_cancel2)
  finally show ?thesis .
qed

lemma word_or_number_shorter:
  "word_value s = Some (v, r) \<Longrightarrow> length r < length s" "parse_number s = Some (x, r) \<Longrightarrow> length r < length s"
  by (auto simp: word_value_def parse_number_def starts_with_iff split: if_splits list.splits dest!: parse_unsigned_shorter)

lemma parsers_shorten:
  "parse_value s = Some (v, r) \<Longrightarrow> length r < length s"
  "parse_elements s = Some (vs, r) \<Longrightarrow> length r < length s"
  "parse_members s = Some (ps, r) \<Longrightarrow> length r < length s"
proof (induction s and s and s arbitrary: v r and vs r and ps r rule: parse_value_parse_elements_parse_members.induct)
  case (1 s)
  note e = 1(3) [unfolded parse_value.simps [of s]]
  show ?case
    using e 1(1,2) skip_spaces_length [of s]
    by (fastforce split: if_splits option.splits dest: after_leading_shorter parse_chars_shorter word_or_number_shorter)
next
  case (2 s)
  note e = 2(3) [unfolded parse_elements.simps [of s]]
  show ?case
    using e 2(1,2) by (fastforce split: if_splits option.splits dest: after_leading_shorter)
next
  case (3 s)
  note e = 3(3) [unfolded parse_members.simps [of s]]
  show ?case
    using e 3(1,2) by (fastforce split: if_splits option.splits dest: after_leading_shorter parse_name_shorter)
qed

subsection \<open>What was written is read back\<close>

lemma leading_simps:
  "leading c (x # s) = (if json_space x then leading c s else x = c)" "\<not> leading c []"
  "after_leading (x # s) = (if json_space x then after_leading s else s)"
  by (simp_all add: leading_def after_leading_def skip_spaces_def)

lemma parse_name_text: "parse_name (property_text (k, v) @ r) = Some (k, v @ r)"
  by (simp add: parse_name_def property_text_def quote_def leading_simps json_space_def parse_chars_quoted)

lemma parse_elements_text:
  assumes "xs \<noteq> []" "\<And>x r. x \<in> set xs \<Longrightarrow> ends_value r \<Longrightarrow> parse_value (f x @ r) = Some (g x, r)"
  shows "parse_elements (commas (map f xs) @ CHR '']'' # r) = Some (map g xs, r)"
  using assms
proof (induction xs rule: list_nonempty_induct)
  case (single x)
  then show ?case by (simp add: parse_elements.simps [of "f x @ _"] leading_simps json_space_def)
next
  case (cons x xs)
  then obtain y ys where xs: "xs = y # ys" by (cases xs) auto
  let ?rest = "commas (map f xs) @ CHR '']'' # r"
  have v: "parse_value (f x @ CHR '','' # ?rest) = Some (g x, CHR '','' # ?rest)" using cons.prems by simp
  have "parse_elements ?rest = Some (map g xs, r)" using cons by simp
  then have "parse_elements (f x @ CHR '','' # ?rest) = Some (g x # map g xs, r)"
    by (simp add: parse_elements.simps [of "f x @ CHR '','' # _"] v leading_simps json_space_def del: append_assoc)
  then show ?case by (simp add: xs)
qed

lemma parse_members_text:
  assumes "ps \<noteq> []" "\<And>p r. p \<in> set ps \<Longrightarrow> ends_value r \<Longrightarrow> parse_value (f (snd p) @ r) = Some (g (snd p), r)"
  shows "parse_members (commas (map property_text (map (map_prod id f) ps)) @ CHR ''}'' # r) = Some (map (map_prod id g) ps, r)"
  using assms
proof (induction ps rule: list_nonempty_induct)
  case (single p)
  obtain k x where p: "p = (k, x)" by (cases p)
  then show ?case using single
    by (simp add: parse_members.simps [of "property_text _ @ _"] parse_name_text leading_simps json_space_def)
next
  case (cons p ps)
  then obtain q qs where ps: "ps = q # qs" by (cases ps) auto
  obtain k x where p: "p = (k, x)" by (cases p)
  let ?rest = "commas (map property_text (map (map_prod id f) ps)) @ CHR ''}'' # r"
  have v: "parse_value (f x @ CHR '','' # ?rest) = Some (g x, CHR '','' # ?rest)"
    using cons.prems [of p "CHR '','' # ?rest"] p by simp
  have "parse_members ?rest = Some (map (map_prod id g) ps, r)" by (rule cons.IH) (use cons.prems in simp)
  then have "parse_members (property_text (k, f x) @ CHR '','' # ?rest) = Some ((k, g x) # map (map_prod id g) ps, r)"
    by (simp add: parse_members.simps [of "property_text _ @ CHR '','' # _"] parse_name_text v leading_simps json_space_def del: map_map)
  then show ?case by (simp add: ps p id_def)
qed

lemma fold_members: "distinct (map fst ps) \<Longrightarrow> fold (\<lambda>(k, v) m. mset_at k v m) ps [] = ps"
  using fold_mset_at_append [of "[]" ps] by simp

lemma word_value_other: "digit_char c \<or> c = CHR ''-'' \<Longrightarrow> word_value (c # s) = None"
  by (auto simp: word_value_def digit_char_def)

lemma stringify_array_head:
  assumes "xs \<noteq> []" shows "\<not> leading CHR '']'' (commas (map stringify xs) @ r)"
proof -
  have h: "\<exists>c t. stringify v = c # t \<and> \<not> json_space c \<and> c \<noteq> CHR '']''" for v
  proof (cases v)
    case (JNum n)
    obtain c s where s: "show_int n = c # s" by (cases "show_int n") (auto simp: show_int_def split: if_splits)
    then have "digit_char c \<or> c = CHR ''-''" using show_int_chars [of n] by simp
    then show ?thesis using JNum s by (auto simp: json_space_def digit_char_def)
  qed (auto simp: quote_def bool_text_def json_space_def)
  obtain x xs' where x: "xs = x # xs'" using assms by (cases xs) auto
  obtain c t where "stringify x = c # t" "\<not> json_space c" "c \<noteq> CHR '']''" using h by blast
  then show ?thesis by (cases xs') (simp_all add: x leading_simps)
qed

lemma parse_value_stringify:
  assumes "json_wf v" "ends_value r"
  shows "parse_value (stringify v @ r) = Some (embed v, r)"
  using assms
proof (induction v arbitrary: r)
  case JNull
  then show ?case by (simp add: parse_value.simps [of "CHR ''n'' # _"] leading_simps json_space_def word_value_def skip_spaces_def)
next
  case (JBool b)
  then show ?case
    by (simp add: bool_text_def parse_value.simps [of "CHR ''t'' # _"] parse_value.simps [of "CHR ''f'' # _"] leading_simps json_space_def word_value_def skip_spaces_def)
next
  case (JNum n)
  obtain c s where s: "show_int n = c # s" by (cases "show_int n") (auto simp: show_int_def split: if_splits)
  have c: "digit_char c \<or> c = CHR ''-''" using show_int_chars [of n] s by simp
  then have "\<not> json_space c" "c \<notin> set [CHR 0x22, CHR ''['', CHR ''{'']" by (auto simp: json_space_def digit_char_def)
  then show ?case using parse_number_show_int [OF JNum(2), of n] s word_value_other [OF c]
    by (simp add: parse_value.simps [of "c # _"] leading_simps skip_spaces_def)
next
  case (JStr s)
  then show ?case
    by (simp add: quote_def parse_value.simps [of "CHR 0x22 # _"] leading_simps json_space_def parse_chars_quoted)
next
  case (JArr xs)
  show ?case
  proof (cases "xs = []")
    case True
    then show ?thesis by (simp add: parse_value.simps [of "CHR ''['' # _"] leading_simps json_space_def)
  next
    case False
    have "parse_elements (commas (map stringify xs) @ CHR '']'' # r) = Some (map embed xs, r)"
      using parse_elements_text [OF False, of stringify embed r] JArr by (simp add: list_all_iff)
    then show ?thesis using stringify_array_head [OF False]
      by (simp add: parse_value.simps [of "CHR ''['' # _"] leading_simps json_space_def)
  qed
next
  case (JObj ps)
  show ?case
  proof (cases "ps = []")
    case True
    then show ?thesis by (simp add: parse_value.simps [of "CHR ''{'' # _"] leading_simps json_space_def)
  next
    case False
    have w: "json_wf (snd p)" if "p \<in> set ps" for p using that JObj.prems by (force simp: list_all_iff)
    have "parse_members (commas (map property_text (map (map_prod id stringify) ps)) @ CHR ''}'' # r) = Some (map (map_prod id embed) ps, r)"
      by (rule parse_members_text [OF False]) (metis JObj.IH snds.intros surjective_pairing w)
    moreover have "\<not> leading CHR ''}'' (commas (map property_text (map (map_prod id stringify) ps)) @ CHR ''}'' # r)"
      using False by (cases ps; cases "tl ps") (auto simp: property_text_def quote_def leading_simps json_space_def)
    moreover have "distinct (map fst (map (map_prod id embed) ps))" using JObj.prems by simp
    ultimately show ?thesis
      by (simp add: parse_value.simps [of "CHR ''{'' # _"] leading_simps json_space_def fold_members del: map_map)
  qed
qed

theorem json_parse_stringify: "json_wf v \<Longrightarrow> json_parse (stringify v) = Some (embed v)"
  using parse_value_stringify [of v "[]"] by (simp add: json_parse_def skip_spaces_def)

end
