(* ===== verification/QF_Cache.thy ===== *)
theory QF_Cache
  imports QF_Parse
begin

text \<open>
  The cache over Redis: \<open>RedisOperations\<close> (\<open>infrastructure/redis/redis-operations.ts\<close>), the keys of \<open>KeyBuilder\<close>, \<open>CacheStore\<close> and
  \<open>TTLManager\<close> (\<open>infrastructure/cache\<close>). The server is a parameter: the commands are the fields of \<open>server\<close>, and what they document
  is \<open>server_laws\<close>, stated over what the server holds at a time (\<open>sees\<close>). \<open>list_server\<close> is a server that has the laws. A command on a
  key of another type answers with an error, which \<open>RedisOperations\<close> throws on.

  Shown: what is cached is read back as it was (for texts: unless they are JSON themselves), for its time; null is never a hit; an eviction
  takes exactly the keys that are due; a tracked key cannot be unscheduled.
\<close>

subsection \<open>The server\<close>

datatype rvalue = RText string | RScores "(string, int) js_map" | RMembers "string list"

type_synonym 'a reply = "string + 'a"

record 's server =
  cmd_get :: "ms \<Rightarrow> string \<Rightarrow> 's \<Rightarrow> string option reply"
  cmd_set :: "ms \<Rightarrow> string \<Rightarrow> string \<Rightarrow> int option \<Rightarrow> 's \<Rightarrow> 's"
  cmd_del :: "ms \<Rightarrow> string \<Rightarrow> 's \<Rightarrow> int \<times> 's"
  cmd_exists :: "ms \<Rightarrow> string \<Rightarrow> 's \<Rightarrow> int"
  cmd_ttl :: "ms \<Rightarrow> string \<Rightarrow> 's \<Rightarrow> int"
  cmd_pexpire :: "ms \<Rightarrow> string \<Rightarrow> int \<Rightarrow> 's \<Rightarrow> 's"
  cmd_incrby :: "ms \<Rightarrow> string \<Rightarrow> int \<Rightarrow> 's \<Rightarrow> (int \<times> 's) reply"
  cmd_keys :: "ms \<Rightarrow> string \<Rightarrow> 's \<Rightarrow> string list"
  cmd_srem :: "ms \<Rightarrow> string \<Rightarrow> string list \<Rightarrow> 's \<Rightarrow> (int \<times> 's) reply"
  cmd_zadd :: "ms \<Rightarrow> string \<Rightarrow> int \<Rightarrow> string \<Rightarrow> 's \<Rightarrow> 's reply"
  cmd_zscore :: "ms \<Rightarrow> string \<Rightarrow> string \<Rightarrow> 's \<Rightarrow> string option reply"
  cmd_zrangebyscore :: "ms \<Rightarrow> string \<Rightarrow> int \<Rightarrow> int \<Rightarrow> 's \<Rightarrow> string list reply"
  cmd_zrem :: "ms \<Rightarrow> string \<Rightarrow> string \<Rightarrow> 's \<Rightarrow> 's reply"

text \<open>What is held under a key: the value, and when it expires. A key is gone from the time it expires.\<close>

type_synonym entry = "(rvalue \<times> ms option) option"

definition alive :: "ms \<Rightarrow> entry \<Rightarrow> entry" where
  "alive t x = (case x of Some (v, Some e) \<Rightarrow> if t < e then x else None | _ \<Rightarrow> x)"

definition scores_of :: "entry \<Rightarrow> (string, int) js_map" where
  "scores_of x = (case x of Some (RScores m, _) \<Rightarrow> m | _ \<Rightarrow> [])"

definition wrong_type :: string where
  "wrong_type = ''WRONGTYPE''"

definition ttl_answer :: "ms \<Rightarrow> entry \<Rightarrow> int \<Rightarrow> bool" where
  "ttl_answer now x n \<longleftrightarrow> (case x of None \<Rightarrow> n = - 2 | Some (_, None) \<Rightarrow> n = - 1
     | Some (_, Some e) \<Rightarrow> 0 \<le> n \<and> \<bar>1000 * n - (e - now)\<bar> < 1000)"

definition is_scores :: "entry \<Rightarrow> bool" where
  "is_scores x \<longleftrightarrow> (case x of None \<Rightarrow> True | Some (RScores _, _) \<Rightarrow> True | _ \<Rightarrow> False)"

text \<open>Laws of reading, of writing texts and times, of sorted sets, and of sets (whose commands fail on another type).\<close>

definition read_laws :: "'s server \<Rightarrow> (ms \<Rightarrow> 's \<Rightarrow> string \<Rightarrow> entry) \<Rightarrow> bool" where
  "read_laws sv sees \<longleftrightarrow>
     (\<forall>now now' s k. now \<le> now' \<longrightarrow> sees now' s k = alive now' (sees now s k)) \<and>
     (\<forall>now s k. cmd_get sv now k s = (case sees now s k of None \<Rightarrow> Inr None | Some (RText v, _) \<Rightarrow> Inr (Some v) | _ \<Rightarrow> Inl wrong_type)) \<and>
     (\<forall>now s k. cmd_exists sv now k s = (if sees now s k = None then 0 else 1)) \<and>
     (\<forall>now s k. ttl_answer now (sees now s k) (cmd_ttl sv now k s))"

definition write_laws :: "'s server \<Rightarrow> (ms \<Rightarrow> 's \<Rightarrow> string \<Rightarrow> entry) \<Rightarrow> bool" where
  "write_laws sv sees \<longleftrightarrow>
     (\<forall>now k v s. sees now (cmd_set sv now k v None s) = (sees now s)(k := Some (RText v, None))) \<and>
     (\<forall>now k v px s. px > 0 \<longrightarrow> sees now (cmd_set sv now k v (Some px) s) = (sees now s)(k := Some (RText v, Some (now + px)))) \<and>
     (\<forall>now k s. fst (cmd_del sv now k s) = (if sees now s k = None then 0 else 1)) \<and>
     (\<forall>now k s. sees now (snd (cmd_del sv now k s)) = (sees now s)(k := None)) \<and>
     (\<forall>now k px s. sees now (cmd_pexpire sv now k px s) =
        (sees now s)(k := alive now (map_option (\<lambda>(v, _). (v, Some (now + px))) (sees now s k))))"

definition score_laws :: "'s server \<Rightarrow> (ms \<Rightarrow> 's \<Rightarrow> string \<Rightarrow> entry) \<Rightarrow> bool" where
  "score_laws sv sees \<longleftrightarrow>
     (\<forall>now k score m s. is_scores (sees now s k) \<longrightarrow> (\<exists>t. cmd_zadd sv now k score m s = Inr t \<and>
        sees now t = (sees now s)(k := Some (RScores (mset_at m score (scores_of (sees now s k))), Option.bind (sees now s k) snd)))) \<and>
     (\<forall>now k m s. is_scores (sees now s k) \<longrightarrow> cmd_zscore sv now k m s = Inr (map_option show_int (mget (scores_of (sees now s k)) m))) \<and>
     (\<forall>now k a b s. is_scores (sees now s k) \<longrightarrow> (\<exists>ks. cmd_zrangebyscore sv now k a b s = Inr ks \<and> distinct ks \<and>
        set ks = {m. \<exists>x. mget (scores_of (sees now s k)) m = Some x \<and> a \<le> x \<and> x \<le> b})) \<and>
     (\<forall>now k m s. is_scores (sees now s k) \<longrightarrow> (\<exists>t. cmd_zrem sv now k m s = Inr t \<and> is_scores (sees now t k) \<and>
        (\<forall>n. mget (scores_of (sees now t k)) n = (if n = m then None else mget (scores_of (sees now s k)) n)) \<and>
        (\<forall>k'. k' \<noteq> k \<longrightarrow> sees now t k' = sees now s k')))"

definition set_laws :: "'s server \<Rightarrow> (ms \<Rightarrow> 's \<Rightarrow> string \<Rightarrow> entry) \<Rightarrow> bool" where
  "set_laws sv sees \<longleftrightarrow>
     (\<forall>now k ms s v e. sees now s k = Some (v, e) \<longrightarrow> (\<forall>xs. v \<noteq> RMembers xs) \<longrightarrow> cmd_srem sv now k ms s = Inl wrong_type) \<and>
     (\<forall>now k ms s. sees now s k = None \<longrightarrow> cmd_srem sv now k ms s = Inr (0, s))"

definition server_laws :: "'s server \<Rightarrow> (ms \<Rightarrow> 's \<Rightarrow> string \<Rightarrow> entry) \<Rightarrow> bool" where
  "server_laws sv sees \<longleftrightarrow> read_laws sv sees \<and> write_laws sv sees \<and> score_laws sv sees \<and> set_laws sv sees"

text \<open>A server that has them: the entries themselves.\<close>

type_synonym keyspace = "(string, rvalue \<times> ms option) js_map"

definition keyspace_sees :: "ms \<Rightarrow> keyspace \<Rightarrow> string \<Rightarrow> entry" where
  "keyspace_sees now s k = alive now (mget s k)"

definition put_entry :: "string \<Rightarrow> entry \<Rightarrow> keyspace \<Rightarrow> keyspace" where
  "put_entry k x s = (case x of None \<Rightarrow> mdel k s | Some e \<Rightarrow> mset_at k e s)"

definition on_scores :: "ms \<Rightarrow> string \<Rightarrow> keyspace \<Rightarrow> ((string, int) js_map \<Rightarrow> 'a) \<Rightarrow> 'a reply" where
  "on_scores now k s f = (if is_scores (keyspace_sees now s k) then Inr (f (scores_of (keyspace_sees now s k))) else Inl wrong_type)"

definition list_server :: "keyspace server" where
  "list_server = \<lparr>
     cmd_get = (\<lambda>now k s. case keyspace_sees now s k of None \<Rightarrow> Inr None | Some (RText v, _) \<Rightarrow> Inr (Some v) | _ \<Rightarrow> Inl wrong_type),
     cmd_set = (\<lambda>now k v px s. mset_at k (RText v, map_option (\<lambda>d. now + d) px) s),
     cmd_del = (\<lambda>now k s. (if keyspace_sees now s k = None then 0 else 1, mdel k s)),
     cmd_exists = (\<lambda>now k s. if keyspace_sees now s k = None then 0 else 1),
     cmd_ttl = (\<lambda>now k s. case keyspace_sees now s k of None \<Rightarrow> - 2 | Some (_, None) \<Rightarrow> - 1 | Some (_, Some e) \<Rightarrow> (e - now + 500) div 1000),
     cmd_pexpire = (\<lambda>now k px s. put_entry k (map_option (\<lambda>(v, _). (v, Some (now + px))) (keyspace_sees now s k)) s),
     cmd_incrby = (\<lambda>now k d s. case keyspace_sees now s k of None \<Rightarrow> Inr (d, mset_at k (RText (show_int d), None) s)
        | Some (RText v, e) \<Rightarrow> (case parse_int v of None \<Rightarrow> Inl ''ERR'' | Some n \<Rightarrow> Inr (n + d, mset_at k (RText (show_int (n + d)), e) s))
        | _ \<Rightarrow> Inl wrong_type),
     cmd_keys = (\<lambda>now p s. filter (\<lambda>k. keyspace_sees now s k \<noteq> None \<and> (p = ''*'' \<or> k = p)) (map fst s)),
     cmd_srem = (\<lambda>now k ms s. case keyspace_sees now s k of None \<Rightarrow> Inr (0, s)
        | Some (RMembers xs, e) \<Rightarrow> Inr (int (length (filter (\<lambda>x. x \<in> set ms) xs)), mset_at k (RMembers (filter (\<lambda>x. x \<notin> set ms) xs), e) s)
        | _ \<Rightarrow> Inl wrong_type),
     cmd_zadd = (\<lambda>now k score m s. on_scores now k s (\<lambda>z. mset_at k (RScores (mset_at m score z), Option.bind (keyspace_sees now s k) snd) s)),
     cmd_zscore = (\<lambda>now k m s. on_scores now k s (\<lambda>z. map_option show_int (mget z m))),
     cmd_zrangebyscore = (\<lambda>now k a b s. on_scores now k s (\<lambda>z. filter (\<lambda>m. \<exists>x. mget z m = Some x \<and> a \<le> x \<and> x \<le> b) (remdups (map fst z)))),
     cmd_zrem = (\<lambda>now k m s. on_scores now k s (\<lambda>z. put_entry k (map_option (\<lambda>(_, e). (RScores (mdel m z), e)) (keyspace_sees now s k)) s)) \<rparr>"

lemma alive_simps [simp]:
  "alive t None = None" "alive t (Some (v, None)) = Some (v, None)" "alive t (Some (v, Some e)) = (if t < e then Some (v, Some e) else None)"
  by (simp_all add: alive_def)

lemma alive_alive: "t \<le> t' \<Longrightarrow> alive t' (alive t x) = alive t' x"
  by (auto simp: alive_def split: option.splits)

lemma alive_idem [simp]: "alive t (alive t x) = alive t x"
  by (simp add: alive_alive)

lemma keyspace_put [simp]:
  "keyspace_sees now (put_entry k x s) = (keyspace_sees now s)(k := alive now x)"
  "keyspace_sees now (mset_at k e s) = (keyspace_sees now s)(k := alive now (Some e))"
  "keyspace_sees now (mdel k s) = (keyspace_sees now s)(k := None)"
  by (auto simp: keyspace_sees_def put_entry_def fun_eq_iff split: option.splits)

lemma keyspace_alive [simp]: "alive now (keyspace_sees now s k) = keyspace_sees now s k"
  by (simp add: keyspace_sees_def)

lemma list_server_reads: "read_laws list_server keyspace_sees"
proof -
  have "ttl_answer now x (case x of None \<Rightarrow> - 2 | Some (_, None) \<Rightarrow> - 1 | Some (_, Some e) \<Rightarrow> (e - now + 500) div 1000)"
    if "alive now x = x" for now and x :: entry
  proof (cases "\<exists>v e. x = Some (v, Some e)")
    case True
    then obtain v e where x: "x = Some (v, Some e)" by blast
    then have "now < e" using that by (simp split: if_splits)
    then show ?thesis using x by (simp add: ttl_answer_def) linarith
  qed (auto simp: ttl_answer_def split: option.splits)
  then show ?thesis
    by (simp add: read_laws_def list_server_def keyspace_sees_def alive_alive)
qed

lemma list_server_writes: "write_laws list_server keyspace_sees"
  by (simp add: write_laws_def list_server_def)

lemma mget_in_keys: "mget z m = Some x \<Longrightarrow> m \<in> fst ` set z"
  unfolding mget_def by (metis map_of_eq_None_iff option.distinct(1))

lemma list_server_scores: "score_laws list_server keyspace_sees"
proof -
  have al: "alive now (Some (RScores z, Option.bind (keyspace_sees now s k) snd)) = Some (RScores z, Option.bind (keyspace_sees now s k) snd)"
    for now z s k
    by (cases "mget s k") (auto simp: keyspace_sees_def alive_def split: option.splits if_splits)
  have rem: "is_scores x \<Longrightarrow> is_scores (alive now (map_option (\<lambda>(_, e). (RScores (mdel m (scores_of x)), e)) x))"
    "is_scores x \<Longrightarrow> alive now x = x \<Longrightarrow> scores_of (alive now (map_option (\<lambda>(_, e). (RScores (mdel m (scores_of x)), e)) x)) = mdel m (scores_of x)"
    for now m and x :: entry
    by (auto simp: is_scores_def scores_of_def alive_def mdel_def split: option.splits rvalue.splits if_splits)
  show ?thesis
    by (auto simp: score_laws_def list_server_def on_scores_def al rem intro: mget_in_keys)
qed

lemma list_server_sets: "set_laws list_server keyspace_sees"
  by (auto simp: set_laws_def list_server_def split: option.splits rvalue.splits)

lemma list_server_laws: "server_laws list_server keyspace_sees"
  by (simp add: server_laws_def list_server_reads list_server_writes list_server_scores list_server_sets)

subsection \<open>RedisOperations\<close>

text \<open>\<open>execute\<close> turns the error of a command into an \<open>InfrastructureError\<close>; the state is as the command left it.\<close>

datatype redis_failure = InfrastructureError string | RawError string

definition ops_execute :: "'a reply \<Rightarrow> redis_failure + 'a" where
  "ops_execute x = (case x of Inl m \<Rightarrow> Inl (InfrastructureError m) | Inr v \<Rightarrow> Inr v)"

definition ops_get :: "'s server \<Rightarrow> ms \<Rightarrow> string \<Rightarrow> 's \<Rightarrow> redis_failure + string option" where
  "ops_get sv now k s = ops_execute (cmd_get sv now k s)"

definition ops_set :: "'s server \<Rightarrow> ms \<Rightarrow> string \<Rightarrow> string \<Rightarrow> int option \<Rightarrow> 's \<Rightarrow> 's" where
  "ops_set sv now k v ttlMs s = (case ttlMs of
     Some t \<Rightarrow> if t > 0 then cmd_set sv now k v (Some t) s else cmd_set sv now k v None s
   | None \<Rightarrow> cmd_set sv now k v None s)"

definition ops_setWithExpiry :: "'s server \<Rightarrow> ms \<Rightarrow> string \<Rightarrow> string \<Rightarrow> int \<Rightarrow> 's \<Rightarrow> 's" where
  "ops_setWithExpiry sv now k v ttlMs s = ops_set sv now k v (Some ttlMs) s"

definition ops_delete :: "'s server \<Rightarrow> ms \<Rightarrow> string \<Rightarrow> 's \<Rightarrow> bool \<times> 's" where
  "ops_delete sv now k s = (case cmd_del sv now k s of (n, t) \<Rightarrow> (n > 0, t))"

definition ops_exists :: "'s server \<Rightarrow> ms \<Rightarrow> string \<Rightarrow> 's \<Rightarrow> bool" where
  "ops_exists sv now k s \<longleftrightarrow> cmd_exists sv now k s > 0"

definition ops_ttl :: "'s server \<Rightarrow> ms \<Rightarrow> string \<Rightarrow> 's \<Rightarrow> int option" where
  "ops_ttl sv now k s = (let seconds = cmd_ttl sv now k s in if seconds < 0 then None else Some (seconds * 1000))"

definition ops_expire :: "'s server \<Rightarrow> ms \<Rightarrow> string \<Rightarrow> int \<Rightarrow> 's \<Rightarrow> 's" where
  "ops_expire sv now k ttlMs s = cmd_pexpire sv now k ttlMs s"

definition ops_increment :: "'s server \<Rightarrow> ms \<Rightarrow> string \<Rightarrow> int \<Rightarrow> 's \<Rightarrow> redis_failure + (int \<times> 's)" where
  "ops_increment sv now k d s = ops_execute (cmd_incrby sv now k d s)"

definition ops_decrement :: "'s server \<Rightarrow> ms \<Rightarrow> string \<Rightarrow> int \<Rightarrow> 's \<Rightarrow> redis_failure + (int \<times> 's)" where
  "ops_decrement sv now k d s = ops_execute (cmd_incrby sv now k (- d) s)"

definition ops_srem :: "'s server \<Rightarrow> ms \<Rightarrow> string \<Rightarrow> string list \<Rightarrow> 's \<Rightarrow> redis_failure + (int \<times> 's)" where
  "ops_srem sv now k values s = (if values = [] then Inr (0, s) else ops_execute (cmd_srem sv now k values s))"

definition ops_zadd :: "'s server \<Rightarrow> ms \<Rightarrow> string \<Rightarrow> int \<Rightarrow> string \<Rightarrow> 's \<Rightarrow> redis_failure + 's" where
  "ops_zadd sv now k score m s = ops_execute (cmd_zadd sv now k score m s)"

definition ops_zrangebyscore :: "'s server \<Rightarrow> ms \<Rightarrow> string \<Rightarrow> int \<Rightarrow> int \<Rightarrow> 's \<Rightarrow> redis_failure + string list" where
  "ops_zrangebyscore sv now k a b s = ops_execute (cmd_zrangebyscore sv now k a b s)"

definition ops_deleteByPattern :: "'s server \<Rightarrow> ms \<Rightarrow> string \<Rightarrow> 's \<Rightarrow> int \<times> 's" where
  "ops_deleteByPattern sv now p s = fold (\<lambda>k (n, t). case cmd_del sv now k t of (m, t') \<Rightarrow> (n + m, t')) (cmd_keys sv now p s) (0, s)"

lemma ops_execute_simps [simp]: "ops_execute (Inr v) = Inr v" "ops_execute (Inl m) = Inl (InfrastructureError m)"
  by (simp_all add: ops_execute_def)

text \<open>The keys of \<open>KeyBuilder\<close>.\<close>

definition idempotencyCache_key :: "string \<Rightarrow> string \<Rightarrow> string" where
  "idempotencyCache_key taskResultId destinationId = ''queueforge:idempotency:'' @ taskResultId @ '':'' @ destinationId"

definition rateLimitCounter_key :: "string \<Rightarrow> string \<Rightarrow> string" where
  "rateLimitCounter_key apiKey endpoint = ''queueforge:ratelimit:'' @ apiKey @ '':'' @ endpoint"

definition simple_key :: "string \<Rightarrow> string \<Rightarrow> string" where
  "simple_key kind ident = ''queueforge:'' @ kind @ '':'' @ ident"

definition cacheKey :: "string \<Rightarrow> string \<Rightarrow> string" where
  "cacheKey namespace ident = ''queueforge:cache:'' @ namespace @ '':'' @ ident"

lemma split_at_colon:
  assumes "CHR '':'' \<notin> set a" "CHR '':'' \<notin> set b" "a @ CHR '':'' # x = b @ CHR '':'' # y"
  shows "a = b \<and> x = y"
  using assms
proof (induction a arbitrary: b)
  case Nil
  then show ?case by (cases b) auto
next
  case (Cons c a)
  then show ?case by (cases b) auto
qed

lemma cacheKey_eq_iff:
  assumes "CHR '':'' \<notin> set n" "CHR '':'' \<notin> set n'"
  shows "cacheKey n i = cacheKey n' i' \<longleftrightarrow> n = n' \<and> i = i'"
  using split_at_colon [OF assms, of i i'] by (auto simp: cacheKey_def)

subsection \<open>CacheStore\<close>

text \<open>A value is stored as its JSON text, a text as itself. \<open>get\<close> answers \<open>DNull\<close> for the \<open>null\<close> of a missing entry.\<close>

definition cache_text :: "json \<Rightarrow> string" where
  "cache_text v = (case v of JStr t \<Rightarrow> t | _ \<Rightarrow> stringify v)"

definition cs_get :: "'s server \<Rightarrow> ms \<Rightarrow> string \<Rightarrow> string \<Rightarrow> 's \<Rightarrow> redis_failure + jdoc" where
  "cs_get sv now n i s = bindE (ops_get sv now (cacheKey n i) s) (\<lambda>value. case value of None \<Rightarrow> Inr DNull
     | Some t \<Rightarrow> Inr (nullish_or (json_parse t) (DStr t)))"

definition cs_set :: "'s server \<Rightarrow> ms \<Rightarrow> string \<Rightarrow> string \<Rightarrow> json \<Rightarrow> int \<Rightarrow> 's \<Rightarrow> 's" where
  "cs_set sv now n i v ttlMs s = ops_set sv now (cacheKey n i) (cache_text v) (Some ttlMs) s"

definition cs_delete :: "'s server \<Rightarrow> ms \<Rightarrow> string \<Rightarrow> string \<Rightarrow> 's \<Rightarrow> 's" where
  "cs_delete sv now n i s = snd (ops_delete sv now (cacheKey n i) s)"

definition cs_exists :: "'s server \<Rightarrow> ms \<Rightarrow> string \<Rightarrow> string \<Rightarrow> 's \<Rightarrow> bool" where
  "cs_exists sv now n i s = ops_exists sv now (cacheKey n i) s"

definition cs_getTTL :: "'s server \<Rightarrow> ms \<Rightarrow> string \<Rightarrow> string \<Rightarrow> 's \<Rightarrow> int option" where
  "cs_getTTL sv now n i s = ops_ttl sv now (cacheKey n i) s"

definition cs_setTTL :: "'s server \<Rightarrow> ms \<Rightarrow> string \<Rightarrow> string \<Rightarrow> int \<Rightarrow> 's \<Rightarrow> 's" where
  "cs_setTTL sv now n i ttlMs s = ops_expire sv now (cacheKey n i) ttlMs s"

definition cs_increment :: "'s server \<Rightarrow> ms \<Rightarrow> string \<Rightarrow> string \<Rightarrow> int \<Rightarrow> 's \<Rightarrow> redis_failure + (int \<times> 's)" where
  "cs_increment sv now n i d s = ops_increment sv now (cacheKey n i) d s"

definition cs_decrement :: "'s server \<Rightarrow> ms \<Rightarrow> string \<Rightarrow> string \<Rightarrow> int \<Rightarrow> 's \<Rightarrow> redis_failure + (int \<times> 's)" where
  "cs_decrement sv now n i d s = ops_decrement sv now (cacheKey n i) d s"

text \<open>The value, whether the fetcher was called, and the state; \<open>fetched\<close> is what the fetcher would answer.\<close>

definition getOrFetch :: "'s server \<Rightarrow> ms \<Rightarrow> string \<Rightarrow> string \<Rightarrow> json \<Rightarrow> int \<Rightarrow> 's \<Rightarrow> redis_failure + (jdoc \<times> bool \<times> 's)" where
  "getOrFetch sv now n i fetched ttlMs s = bindE (cs_get sv now n i s) (\<lambda>hit.
     if hit \<noteq> DNull then Inr (hit, False, s) else Inr (embed fetched, True, cs_set sv now n i fetched ttlMs s))"

definition invalidatePattern :: "'s server \<Rightarrow> ms \<Rightarrow> string \<Rightarrow> 's \<Rightarrow> int \<times> 's" where
  "invalidatePattern sv now p s = ops_deleteByPattern sv now p s"

lemma ops_get_reads:
  "server_laws sv sees \<Longrightarrow> ops_get sv now k s = ops_execute (case sees now s k of None \<Rightarrow> Inr None | Some (RText v, _) \<Rightarrow> Inr (Some v) | _ \<Rightarrow> Inl wrong_type)"
  by (simp add: server_laws_def read_laws_def ops_get_def)

lemma sees_later: "server_laws sv sees \<Longrightarrow> now \<le> now' \<Longrightarrow> sees now' s k = alive now' (sees now s k)"
  unfolding server_laws_def read_laws_def by blast

lemma sees_set:
  assumes "server_laws sv sees"
  shows "sees now (ops_set sv now k v px s) = (sees now s)(k := Some (RText v, case px of Some t \<Rightarrow> if t > 0 then Some (now + t) else None | None \<Rightarrow> None))"
  using assms by (auto simp: server_laws_def write_laws_def ops_set_def split: option.splits)

lemma sees_delete:
  assumes "server_laws sv sees"
  shows "sees now (snd (ops_delete sv now k s)) = (sees now s)(k := None)" "fst (ops_delete sv now k s) \<longleftrightarrow> sees now s k \<noteq> None"
  using assms by (simp_all add: server_laws_def write_laws_def ops_delete_def case_prod_beta)

lemma sees_expire:
  "server_laws sv sees \<Longrightarrow> sees now (ops_expire sv now k px s) = (sees now s)(k := alive now (map_option (\<lambda>(v, _). (v, Some (now + px))) (sees now s k)))"
  by (simp add: server_laws_def write_laws_def ops_expire_def)

lemma cs_get_set:
  assumes "server_laws sv sees" "now \<le> now'"
  shows "cs_get sv now' n i (cs_set sv now n i v ttl s) =
     Inr (if ttl \<le> 0 \<or> now' < now + ttl then nullish_or (json_parse (cache_text v)) (DStr (cache_text v)) else DNull)"
  using assms(2)
  by (simp add: cs_get_def cs_set_def ops_get_reads [OF assms(1)] sees_later [OF assms] sees_set [OF assms(1)])

lemma cs_get_other:
  assumes "server_laws sv sees" "now \<le> now'" "cacheKey n' i' \<noteq> cacheKey n i"
  shows "cs_get sv now' n' i' (cs_set sv now n i v ttl s) = cs_get sv now' n' i' s"
  using assms(2,3)
  by (simp add: cs_get_def cs_set_def ops_get_reads [OF assms(1)] sees_later [OF assms(1,2)] sees_set [OF assms(1)])

text \<open>What is cached is read back: a value that is not a text as it was, a text as it was unless it is JSON itself, while the time to live
  runs (for ever when it is not positive); no entry of another name is touched.\<close>
theorem cache_returns_what_was_set:
  assumes "server_laws sv sees" "now \<le> now'" "json_wf v" "now' < now + ttl \<or> ttl \<le> 0"
    "CHR '':'' \<notin> set n" "CHR '':'' \<notin> set n'" "(n', i') \<noteq> (n, i)"
  shows "cs_get sv now' n i (cs_set sv now n i v ttl s) =
      Inr (case v of JStr t \<Rightarrow> nullish_or (json_parse t) (DStr t) | _ \<Rightarrow> embed v) \<and>
    cs_get sv now' n' i' (cs_set sv now n i v ttl s) = cs_get sv now' n' i' s"
proof
  have "json_parse (cache_text v) = Some (embed v)" if "\<forall>t. v \<noteq> JStr t"
    using that json_parse_stringify [OF assms(3)] by (cases v) (simp_all add: cache_text_def)
  then show "cs_get sv now' n i (cs_set sv now n i v ttl s) =
      Inr (case v of JStr t \<Rightarrow> nullish_or (json_parse t) (DStr t) | _ \<Rightarrow> embed v)"
    using assms(4) by (cases v) (auto simp: cs_get_set [OF assms(1,2)] cache_text_def)
  show "cs_get sv now' n' i' (cs_set sv now n i v ttl s) = cs_get sv now' n' i' s"
    using assms(5-7) cacheKey_eq_iff [of n' n i' i] by (intro cs_get_other [OF assms(1,2)]) auto
qed

theorem cache_returns_what_was_set_witness:
  "cs_get list_server 5 ''a'' ''x'' (cs_set list_server 0 ''a'' ''x'' (JArr [JNum 1, JNull]) 10 []) = Inr (DArr [DNum 1, DNull])"
  using cache_returns_what_was_set [OF list_server_laws, of 0 5 "JArr [JNum 1, JNull]" 10 "''a''" "''b''" "''y''" "''x''" "[]"] by simp

text \<open>While an entry lives, a second \<open>getOrFetch\<close> answers what the first did without fetching, unless that was null: null is never a hit.\<close>
theorem fetched_once_unless_null:
  assumes "server_laws sv sees" "now \<le> now'" "json_wf v" "\<forall>t. v \<noteq> JStr t" "now' < now + ttl"
    and miss: "cs_get sv now n i s = Inr DNull"
    and first: "getOrFetch sv now n i v ttl s = Inr (x, fetched, s')"
  shows "x = embed v \<and> fetched \<and>
    getOrFetch sv now' n i w ttl s' = (if v = JNull then Inr (embed w, True, cs_set sv now' n i w ttl s') else Inr (x, False, s'))"
proof -
  have s': "x = embed v" "fetched" "s' = cs_set sv now n i v ttl s" using first miss by (auto simp: getOrFetch_def)
  have "json_parse (cache_text v) = Some (embed v)"
    using assms(4) json_parse_stringify [OF assms(3)] by (cases v) (simp_all add: cache_text_def)
  then have "cs_get sv now' n i s' = Inr (embed v)"
    using assms(2,5) by (simp add: s'(3) cs_get_set [OF assms(1,2)])
  moreover have "embed v = DNull \<longleftrightarrow> v = JNull" by (cases v) simp_all
  ultimately show ?thesis using s'(1,2) by (simp add: getOrFetch_def)
qed

theorem fetched_once_unless_null_witness:
  "\<exists>t. getOrFetch list_server 0 ''a'' ''x'' (JNum 7) 10 [] = Inr (DNum 7, True, t) \<and>
     getOrFetch list_server 5 ''a'' ''x'' (JNum 8) 10 t = Inr (DNum 7, False, t)"
proof -
  have m: "cs_get list_server 0 ''a'' ''x'' [] = Inr DNull"
    by (simp add: cs_get_def ops_get_reads [OF list_server_laws] keyspace_sees_def)
  then obtain t where t: "getOrFetch list_server 0 ''a'' ''x'' (JNum 7) 10 [] = Inr (DNum 7, True, t)"
    by (simp add: getOrFetch_def)
  show ?thesis using fetched_once_unless_null [OF list_server_laws, of 0 5 "JNum 7" 10 "''a''" "''x''" "[]" "DNum 7" True t "JNum 8"] m t by simp
qed

subsection \<open>TTLManager\<close>

text \<open>The tracker is a sorted set of keys with the times they are to expire at.\<close>

definition tracker :: string where
  "tracker = ''queueforge:ttl_tracker''"

definition ttl_schedule :: "'s server \<Rightarrow> ms \<Rightarrow> string \<Rightarrow> int \<Rightarrow> 's \<Rightarrow> ('s, redis_failure) eff" where
  "ttl_schedule sv now k ttlMs s = (case ops_zadd sv now tracker (now + ttlMs) k s of
     Inl e \<Rightarrow> throw s e | Inr t \<Rightarrow> ret (ops_expire sv now k ttlMs t))"

definition ttl_unschedule :: "'s server \<Rightarrow> ms \<Rightarrow> string \<Rightarrow> 's \<Rightarrow> ('s, redis_failure) eff" where
  "ttl_unschedule sv now k s = (case ops_srem sv now tracker [k] s of
     Inl e \<Rightarrow> throw s e | Inr (_, t) \<Rightarrow> ret (snd (ops_delete sv now k t)))"

definition ttl_extend :: "'s server \<Rightarrow> ms \<Rightarrow> string \<Rightarrow> int \<Rightarrow> 's \<Rightarrow> ('s, redis_failure) eff" where
  "ttl_extend sv now k additional s =
     (let newTtl = num_or (ops_ttl sv now k s) 0 + additional in
      case ops_zadd sv now tracker (now + newTtl) k s of
        Inl e \<Rightarrow> throw s e | Inr t \<Rightarrow> ret (ops_expire sv now k newTtl t))"

text \<open>\<open>getExpiry\<close> asks the client itself, whose errors are not wrapped; the date is the one \<open>parseInt\<close> reads.\<close>

definition raw_execute :: "'a reply \<Rightarrow> redis_failure + 'a" where
  "raw_execute x = (case x of Inl m \<Rightarrow> Inl (RawError m) | Inr v \<Rightarrow> Inr v)"

definition ttl_getExpiry :: "'s server \<Rightarrow> ms \<Rightarrow> string \<Rightarrow> 's \<Rightarrow> redis_failure + int option" where
  "ttl_getExpiry sv now k s = bindE (raw_execute (cmd_zscore sv now tracker k s)) (\<lambda>score.
     if str_or score [] = [] then Inr None else Inr (parse_int (the score)))"

definition ttl_isExpired :: "'s server \<Rightarrow> ms \<Rightarrow> string \<Rightarrow> 's \<Rightarrow> redis_failure + bool" where
  "ttl_isExpired sv now k s = bindE (ttl_getExpiry sv now k s) (\<lambda>expiry. Inr (case expiry of None \<Rightarrow> True | Some e \<Rightarrow> now > e))"

fun evict_all :: "'s server \<Rightarrow> ms \<Rightarrow> string list \<Rightarrow> int \<Rightarrow> 's \<Rightarrow> (redis_failure + int) \<times> 's" where
  "evict_all sv now [] n s = (Inr n, s)"
| "evict_all sv now (k # ks) n s =
     (case ops_delete sv now k s of (deleted, t) \<Rightarrow>
        (case raw_execute (cmd_zrem sv now tracker k t) of
           Inl e \<Rightarrow> (Inl e, t)
         | Inr u \<Rightarrow> evict_all sv now ks (if deleted then n + 1 else n) u))"

definition cleanupExpired :: "'s server \<Rightarrow> ms \<Rightarrow> 's \<Rightarrow> (redis_failure + int) \<times> 's" where
  "cleanupExpired sv now s = (case ops_zrangebyscore sv now tracker 0 now s of
     Inl e \<Rightarrow> (Inl e, s)
   | Inr ks \<Rightarrow> if ks = [] then (Inr 0, s) else evict_all sv now ks 0 s)"

abbreviation (input) tracked :: "(ms \<Rightarrow> 's \<Rightarrow> string \<Rightarrow> entry) \<Rightarrow> ms \<Rightarrow> 's \<Rightarrow> (string, int) js_map" where
  "tracked sees now s \<equiv> scores_of (sees now s tracker)"

lemma zadd_law:
  "server_laws sv sees \<Longrightarrow> is_scores (sees now s T) \<Longrightarrow> \<exists>t. cmd_zadd sv now T score m s = Inr t \<and>
     sees now t = (sees now s)(T := Some (RScores (mset_at m score (scores_of (sees now s T))), Option.bind (sees now s T) snd))"
  by (simp add: server_laws_def score_laws_def)

lemma zadd_ok:
  assumes "server_laws sv sees" "is_scores (sees now s T)"
  obtains t where "ops_zadd sv now T score m s = Inr t"
    "sees now t = (sees now s)(T := Some (RScores (mset_at m score (scores_of (sees now s T))), Option.bind (sees now s T) snd))"
  using zadd_law [OF assms, of score m] by (auto simp: ops_zadd_def)

lemma zrange_law:
  "server_laws sv sees \<Longrightarrow> is_scores (sees now s T) \<Longrightarrow> \<exists>ks. cmd_zrangebyscore sv now T a b s = Inr ks \<and> distinct ks \<and>
     set ks = {m. \<exists>x. mget (scores_of (sees now s T)) m = Some x \<and> a \<le> x \<and> x \<le> b}"
  by (simp add: server_laws_def score_laws_def)

lemma zrem_law:
  "server_laws sv sees \<Longrightarrow> is_scores (sees now s T) \<Longrightarrow> \<exists>t. cmd_zrem sv now T m s = Inr t \<and> is_scores (sees now t T) \<and>
     (\<forall>n. mget (scores_of (sees now t T)) n = (if n = m then None else mget (scores_of (sees now s T)) n)) \<and>
     (\<forall>k'. k' \<noteq> T \<longrightarrow> sees now t k' = sees now s k')"
  by (simp add: server_laws_def score_laws_def)

lemma evict_all_exact:
  assumes "server_laws sv sees" "is_scores (sees now s tracker)" "distinct ks" "tracker \<notin> set ks"
  shows "\<exists>t. evict_all sv now ks n s = (Inr (n + int (length (filter (\<lambda>k. sees now s k \<noteq> None) ks))), t) \<and> is_scores (sees now t tracker) \<and>
    (\<forall>k. mget (tracked sees now t) k = (if k \<in> set ks then None else mget (tracked sees now s) k)) \<and>
    (\<forall>k. k \<noteq> tracker \<longrightarrow> sees now t k = (if k \<in> set ks then None else sees now s k))"
  using assms(2-4)
proof (induction ks arbitrary: n s)
  case Nil
  then show ?case by simp
next
  case (Cons k ks)
  let ?d = "snd (ops_delete sv now k s)"
  have d: "sees now ?d = (sees now s)(k := None)" "fst (ops_delete sv now k s) \<longleftrightarrow> sees now s k \<noteq> None"
    using sees_delete [OF assms(1)] by blast+
  have T: "sees now ?d tracker = sees now s tracker" using d(1) Cons.prems(3) by auto
  then have sc: "is_scores (sees now ?d tracker)" using Cons.prems(1) by simp
  obtain u where u: "cmd_zrem sv now tracker k ?d = Inr u" "is_scores (sees now u tracker)"
      "\<And>m. mget (tracked sees now u) m = (if m = k then None else mget (tracked sees now s) m)"
      "\<And>k'. k' \<noteq> tracker \<Longrightarrow> sees now u k' = (if k' = k then None else sees now s k')"
  proof -
    obtain u where "cmd_zrem sv now tracker k ?d = Inr u" "is_scores (sees now u tracker)"
        "\<forall>m. mget (tracked sees now u) m = (if m = k then None else mget (tracked sees now ?d) m)"
        "\<forall>k'. k' \<noteq> tracker \<longrightarrow> sees now u k' = sees now ?d k'"
      using zrem_law [OF assms(1) sc, of k] by blast
    then show thesis using that T d(1) by simp
  qed
  have kt: "k \<noteq> tracker" using Cons.prems(3) by auto
  have "length (filter (\<lambda>x. sees now u x \<noteq> None) ks) = length (filter (\<lambda>x. sees now s x \<noteq> None) ks)"
  proof (rule arg_cong [where f = length], rule filter_cong)
    show "sees now u x \<noteq> None \<longleftrightarrow> sees now s x \<noteq> None" if "x \<in> set ks" for x
    proof -
      have "x \<noteq> tracker" "x \<noteq> k" using that Cons.prems by auto
      then show ?thesis by (simp add: u(4))
    qed
  qed simp
  moreover have "evict_all sv now (k # ks) n s = evict_all sv now ks (if sees now s k \<noteq> None then n + 1 else n) u"
    using u(1) d(2) by (simp add: case_prod_beta raw_execute_def)
  ultimately show ?case
    using Cons.IH [OF u(2), of "if sees now s k \<noteq> None then n + 1 else n"] Cons.prems u(3,4) by fastforce
qed

text \<open>An eviction removes exactly the tracked keys that are due, from the store and from the tracker, touches nothing else, and counts
  those that were still there.\<close>
theorem eviction_is_exact:
  assumes "server_laws sv sees" "is_scores (sees now s tracker)" "mget (tracked sees now s) tracker = None"
    and due_def: "due = {k. \<exists>x. mget (tracked sees now s) k = Some x \<and> 0 \<le> x \<and> x \<le> now}"
  shows "\<exists>t. cleanupExpired sv now s = (Inr (int (card {k \<in> due. sees now s k \<noteq> None})), t) \<and>
    (\<forall>k. mget (tracked sees now t) k = (if k \<in> due then None else mget (tracked sees now s) k)) \<and>
    (\<forall>k. k \<noteq> tracker \<longrightarrow> sees now t k = (if k \<in> due then None else sees now s k))"
proof -
  obtain ks where ks: "ops_zrangebyscore sv now tracker 0 now s = Inr ks" "distinct ks" "set ks = due"
    using zrange_law [OF assms(1,2), of 0 now] by (auto simp: ops_zrangebyscore_def due_def)
  have nil: "ks = [] \<Longrightarrow> due = {}" using ks(3) by simp
  have "tracker \<notin> set ks" using assms(3) by (simp add: ks(3) due_def)
  from evict_all_exact [OF assms(1,2) ks(2) this, of 0] obtain t where
    t: "evict_all sv now ks 0 s = (Inr (int (length (filter (\<lambda>k. sees now s k \<noteq> None) ks))), t)"
      "\<And>k. mget (tracked sees now t) k = (if k \<in> due then None else mget (tracked sees now s) k)"
      "\<And>k. k \<noteq> tracker \<Longrightarrow> sees now t k = (if k \<in> due then None else sees now s k)"
    unfolding ks(3) by auto
  have "length (filter (\<lambda>k. sees now s k \<noteq> None) ks) = card {k \<in> due. sees now s k \<noteq> None}"
    using distinct_card [OF distinct_filter [OF ks(2)], of "\<lambda>k. sees now s k \<noteq> None"] by (simp add: ks(3))
  then have "cleanupExpired sv now s = (Inr (int (card {k \<in> due. sees now s k \<noteq> None})), if ks = [] then s else t)"
    using t(1) nil by (auto simp: cleanupExpired_def ks(1))
  moreover have "\<forall>k. mget (tracked sees now (if ks = [] then s else t)) k = (if k \<in> due then None else mget (tracked sees now s) k)"
    "\<forall>k. k \<noteq> tracker \<longrightarrow> sees now (if ks = [] then s else t) k = (if k \<in> due then None else sees now s k)"
    using t(2,3) ks(3) by auto
  ultimately show ?thesis by blast
qed

text \<open>A key that is tracked cannot be unscheduled: the tracker is a sorted set and the command is that of sets, so the call throws and
  the key stays.\<close>
theorem tracked_key_cannot_be_unscheduled:
  assumes "server_laws sv sees" "is_scores (sees now s tracker)" "map_option snd (sees now s tracker) \<in> {None, Some None}"
    "now \<le> now'" "k \<noteq> tracker"
  shows "\<exists>t. ttl_schedule sv now k ttl s = ret t \<and> mget (tracked sees now' t) k = Some (now + ttl) \<and>
    ttl_unschedule sv now' k' t = throw t (InfrastructureError wrong_type)"
proof -
  obtain t where t: "ops_zadd sv now tracker (now + ttl) k s = Inr t"
      "sees now t = (sees now s)(tracker := Some (RScores (mset_at k (now + ttl) (tracked sees now s)), Option.bind (sees now s tracker) snd))"
    by (rule zadd_ok [OF assms(1,2)])
  let ?t = "ops_expire sv now k ttl t"
  have "Option.bind (sees now s tracker) snd = None" using assms(3) by (cases "sees now s tracker") auto
  then have "sees now ?t tracker = Some (RScores (mset_at k (now + ttl) (tracked sees now s)), None)"
    using t(2) assms(5) by (simp add: sees_expire [OF assms(1)])
  then have e: "sees now' ?t tracker = Some (RScores (mset_at k (now + ttl) (tracked sees now s)), None)"
    by (simp add: sees_later [OF assms(1,4)])
  then have "cmd_srem sv now' tracker [k'] ?t = Inl wrong_type"
    using assms(1) by (simp add: server_laws_def set_laws_def)
  then show ?thesis using t(1) e by (simp add: ttl_schedule_def ttl_unschedule_def ops_srem_def scores_of_def)
qed

text \<open>An extension is exact only to a second, because the time left is asked for in seconds; a key without a time to live gets one.\<close>
theorem extension_within_a_second:
  assumes "server_laws sv sees" "is_scores (sees now s tracker)" "k \<noteq> tracker" "sees now s k = Some (v, expiry)" "0 < additional"
  shows "\<exists>t e. ttl_extend sv now k additional s = ret t \<and> sees now t k = Some (v, Some e) \<and> mget (tracked sees now t) k = Some e \<and>
    (case expiry of None \<Rightarrow> e = now + additional | Some old \<Rightarrow> \<bar>e - (old + additional)\<bar> < 1000)"
proof -
  let ?left = "num_or (ops_ttl sv now k s) 0"
  have "ttl_answer now (sees now s k) (cmd_ttl sv now k s)" using assms(1) by (simp add: server_laws_def read_laws_def)
  then have left: "0 \<le> ?left" "case expiry of None \<Rightarrow> ?left = 0 | Some old \<Rightarrow> \<bar>?left - (old - now)\<bar> < 1000"
    by (auto simp: ttl_answer_def ops_ttl_def assms(4) Let_def num_or_def split: option.splits)
  obtain t where t: "ops_zadd sv now tracker (now + (?left + additional)) k s = Inr t"
      "sees now t = (sees now s)(tracker := Some (RScores (mset_at k (now + (?left + additional)) (tracked sees now s)), Option.bind (sees now s tracker) snd))"
    by (rule zadd_ok [OF assms(1,2)])
  have "sees now (ops_expire sv now k (?left + additional) t) k = Some (v, Some (now + (?left + additional)))"
    "mget (tracked sees now (ops_expire sv now k (?left + additional) t)) k = Some (now + (?left + additional))"
    using t(2) assms(3-5) left(1) by (auto simp: sees_expire [OF assms(1)] scores_of_def)
  moreover have "case expiry of None \<Rightarrow> now + (?left + additional) = now + additional
      | Some old \<Rightarrow> \<bar>now + (?left + additional) - (old + additional)\<bar> < 1000"
    using left(2) by (auto split: option.splits)
  ultimately show ?thesis using t(1) by (auto simp: ttl_extend_def Let_def)
qed

text \<open>A tracker with one key that is due and one that is not.\<close>

definition tracking :: keyspace where
  "tracking = [(tracker, (RScores [(''a'', 5), (''b'', 50)], None)), (''a'', (RText ''x'', None)), (''b'', (RText ''y'', Some 50))]"

lemma tracking_sees:
  "keyspace_sees 10 tracking tracker = Some (RScores [(''a'', 5), (''b'', 50)], None)"
  "keyspace_sees 10 tracking ''a'' = Some (RText ''x'', None)" "keyspace_sees 10 tracking ''b'' = Some (RText ''y'', Some 50)"
  by (simp_all add: tracking_def keyspace_sees_def mget_def tracker_def)

theorem eviction_is_exact_witness:
  "\<exists>t. cleanupExpired list_server 10 tracking = (Inr 1, t) \<and> keyspace_sees 10 t ''a'' = None \<and>
     keyspace_sees 10 t ''b'' = Some (RText ''y'', Some 50)"
proof -
  let ?due = "{k. \<exists>x. mget (tracked keyspace_sees 10 tracking) k = Some x \<and> 0 \<le> x \<and> x \<le> 10}"
  have due: "?due = {''a''}" by (auto simp: tracking_sees scores_of_def mget_def split: if_splits)
  have "{k \<in> ?due. keyspace_sees 10 tracking k \<noteq> None} = {''a''}" unfolding due by (auto simp: tracking_sees)
  moreover have ne: "''a'' \<noteq> tracker" "''b'' \<noteq> tracker" by (simp_all add: tracker_def)
  moreover have "is_scores (keyspace_sees 10 tracking tracker)" by (simp add: tracking_sees is_scores_def)
  moreover have "mget (tracked keyspace_sees 10 tracking) tracker = None"
    using ne by (auto simp: tracking_sees scores_of_def mget_def)
  ultimately obtain t where "cleanupExpired list_server 10 tracking = (Inr 1, t)"
      "\<forall>k. k \<noteq> tracker \<longrightarrow> keyspace_sees 10 t k = (if k \<in> ?due then None else keyspace_sees 10 tracking k)"
    using eviction_is_exact [OF list_server_laws, of 10 tracking ?due] by auto
  then show ?thesis using ne by (auto simp: tracking_sees scores_of_def mget_def split: if_splits)
qed

theorem tracked_key_cannot_be_unscheduled_witness:
  "\<exists>t. ttl_schedule list_server 0 ''a'' 10 [(''a'', (RText ''x'', None))] = ret t \<and>
     ttl_unschedule list_server 5 ''a'' t = throw t (InfrastructureError wrong_type)"
  using tracked_key_cannot_be_unscheduled [OF list_server_laws, of 0 "[(''a'', (RText ''x'', None))]" 5 "''a''" 10 "''a''"]
  by (auto simp: keyspace_sees_def is_scores_def mget_def tracker_def)

theorem extension_within_a_second_witness:
  "\<exists>t e. ttl_extend list_server 10 ''b'' 1000 tracking = ret t \<and> keyspace_sees 10 t ''b'' = Some (RText ''y'', Some e) \<and> \<bar>e - 1050\<bar> < 1000"
proof -
  have "is_scores (keyspace_sees 10 tracking tracker)" by (simp add: tracking_sees is_scores_def)
  moreover have "''b'' \<noteq> tracker" by (simp add: tracker_def)
  ultimately show ?thesis
    using extension_within_a_second [OF list_server_laws, of 10 tracking "''b''" "RText ''y''" "Some 50" 1000] by (auto simp: tracking_sees)
qed

end
