(* ===== verification/QF_Reports.thy ===== *)
theory QF_Reports
  imports QF_Repos QF_Json
begin

text \<open>
  What is read back of deliveries and attempts: the queries, timelines and statistics of \<open>DeliveryRepository\<close> and
  \<open>AttemptRepository\<close>, the paging of \<open>BaseRepository.findMany\<close> and of the application's lists, and the statistics of the
  dashboards (\<open>infrastructure/repositories\<close>, \<open>application/dto/pagination.dto.ts\<close>, \<open>application/services/find-destinations.service.ts\<close>,
  \<open>api/admin/services/dashboard.service.ts\<close>, \<open>api/controllers/dashboard.controller.ts\<close>).

  A query is read over the list of the table's rows in the order the database has them; where a query asks for an order, the rows are
  given in that order. Shown: pages partition the rows, timelines are complete and in order, the statistics count every row once,
  and the latest attempt is whichever row the database has first.
\<close>

subsection \<open>Counting by a key\<close>

definition tally :: "('r \<Rightarrow> 'k) \<Rightarrow> 'r list \<Rightarrow> ('k, int) js_map" where
  "tally key rs = fold (\<lambda>r m. mset_at (key r) (num_or (mget m (key r)) 0 + 1) m) rs []"

lemma tally_snoc: "tally key (rs @ [r]) = mset_at (key r) (num_or (mget (tally key rs) (key r)) 0 + 1) (tally key rs)"
  by (simp add: tally_def)

lemma mget_tally:
  "mget (tally key rs) k = (let n = length (filter (\<lambda>r. key r = k) rs) in if n = 0 then None else Some (int n))"
proof (induction rs arbitrary: k rule: rev_induct)
  case Nil
  then show ?case by (simp add: tally_def)
next
  case (snoc r rs)
  show ?case by (auto simp: tally_snoc snoc.IH Let_def)
qed

lemma tally_distinct: "distinct (map fst (tally key rs))"
  by (induction rs rule: rev_induct) (simp_all add: tally_snoc, simp add: tally_def)

lemma mset_at_sum:
  fixes m :: "('k, int) js_map"
  assumes "distinct (map fst m)"
  shows "sum_list (map snd (mset_at k v m)) = sum_list (map snd m) - num_or (mget m k) 0 + v"
  using assms
proof (induction m)
  case (Cons p m)
  obtain k' w where p: "p = (k', w)" by (cases p)
  show ?case
  proof (cases "k' = k")
    case True
    then show ?thesis by (simp add: p mset_at_def mget_def)
  next
    case False
    have "sum_list (map snd (mset_at k v m)) = sum_list (map snd m) - num_or (mget m k) 0 + v"
      using Cons by simp
    then show ?thesis using False by (simp add: p mset_at_def mget_def)
  qed
qed (simp add: mset_at_def)

lemma tally_total: "sum_list (map snd (tally key rs)) = int (length rs)"
proof (induction rs rule: rev_induct)
  case (snoc r rs)
  then show ?case by (simp add: tally_snoc mset_at_sum [OF tally_distinct])
qed (simp add: tally_def)

subsection \<open>Pages\<close>

text \<open>\<open>FindOptions\<close>; \<open>findMany\<close> takes a page only when page and limit are both given and not zero. The rows are those that match,
  in the order asked for.\<close>

record FindOptions =
  fo_page :: "int option"
  fo_limit :: "int option"

record 'r found_page =
  fp_data :: "'r list"
  fp_total :: int
  fp_hasMore :: bool

definition page_of :: "FindOptions \<Rightarrow> (int \<times> int) option" where
  "page_of fo = (if num_or (fo_page fo) 0 \<noteq> 0 \<and> num_or (fo_limit fo) 0 \<noteq> 0
     then (let take_n = max 1 (num_or (fo_limit fo) 0) in Some (max 0 ((num_or (fo_page fo) 0 - 1) * take_n), take_n)) else None)"

definition findMany :: "FindOptions option \<Rightarrow> 'r list \<Rightarrow> 'r found_page" where
  "findMany options rows =
     (let (skip, records) = (case Option.bind options page_of of None \<Rightarrow> (0, rows)
            | Some (skip, n) \<Rightarrow> (skip, take (nat n) (drop (nat skip) rows)));
          n_total = int (length rows)
      in \<lparr> fp_data = records, fp_total = n_total, fp_hasMore = skip + int (length records) < n_total \<rparr>)"

text \<open>\<open>findFirst\<close> does not pass an order on: it answers the first matching row as the database has them.\<close>

definition findFirst :: "('r \<Rightarrow> bool) \<Rightarrow> 'r list \<Rightarrow> 'r option" where
  "findFirst p rows = find p rows"

text \<open>The paging of the application's lists. Missing numbers have their defaults; zero is read as missing by the services.\<close>

definition calculateOffset :: "int option \<Rightarrow> int option \<Rightarrow> int" where
  "calculateOffset page limit = (max 1 (nullish_or page 1) - 1) * max 1 (nullish_or limit 50)"

record 'r PaginatedResponse =
  pr_data :: "'r list"
  pr_page :: int
  pr_limit :: int
  pr_total :: int
  pr_hasMore :: bool

definition createPaginatedResponse :: "'r list \<Rightarrow> int \<Rightarrow> int \<Rightarrow> int \<Rightarrow> 'r PaginatedResponse" where
  "createPaginatedResponse data n_total page limit =
     \<lparr> pr_data = data, pr_page = max 1 page, pr_limit = max 1 limit, pr_total = n_total,
       pr_hasMore = max 1 page * max 1 limit < n_total \<rparr>"

text \<open>\<open>all.slice(start, start + limit)\<close>: a negative index counts from the end.\<close>

definition slice_index :: "int \<Rightarrow> 'r list \<Rightarrow> nat" where
  "slice_index i rows = (if i < 0 then nat (max 0 (int (length rows) + i)) else nat (min i (int (length rows))))"

definition page_slice :: "int \<Rightarrow> int \<Rightarrow> 'r list \<Rightarrow> 'r list" where
  "page_slice a b rows = take (slice_index b rows - slice_index a rows) (drop (slice_index a rows) rows)"

definition list_page :: "int option \<Rightarrow> int option \<Rightarrow> 'r list \<Rightarrow> 'r PaginatedResponse" where
  "list_page page limit rows =
     (let p = num_or page 1; l = num_or limit 50; start = (p - 1) * l
      in createPaginatedResponse (page_slice start (start + l) rows) (int (length rows)) p l)"

lemma page_slice_page:
  assumes "0 \<le> a" "0 \<le> n"
  shows "page_slice a (a + n) rows = take (nat n) (drop (nat a) rows)"
proof (cases "nat a \<le> length rows")
  case True
  then have "a \<le> int (length rows)" using assms by simp
  then have "slice_index a rows = nat a" using assms by (simp add: slice_index_def min_def)
  moreover have "slice_index (a + n) rows = min (nat (a + n)) (length rows)" using assms by (auto simp: slice_index_def min_def)
  moreover have "nat (a + n) = nat a + nat n" using assms by (simp only: nat_add_distrib)
  moreover have "take (min (k + m) (length rows) - k) (drop k rows) = take m (drop k rows)" for k m
    by (cases "k + m \<le> length rows") (simp_all add: min_absorb1 min_absorb2)
  ultimately show ?thesis by (simp add: page_slice_def)
next
  case False
  then show ?thesis using assms by (simp add: page_slice_def slice_index_def min_def)
qed

lemma concat_chunks: "concat (map (\<lambda>i. take n (drop (i * n) rows)) [0..<k]) = take (k * n) rows"
proof (induction k)
  case (Suc k)
  have "take (k * n) rows @ take n (drop (k * n) rows) = take (k * n + n) rows" by (simp add: take_add)
  then show ?case using Suc by (simp add: add.commute)
qed simp

lemma findMany_page:
  assumes "0 < limit"
  shows "findMany (Some \<lparr> fo_page = Some (int i + 1), fo_limit = Some limit \<rparr>) rows =
    \<lparr> fp_data = take (nat limit) (drop (i * nat limit) rows), fp_total = int (length rows),
      fp_hasMore = int (i * nat limit) + int (length (take (nat limit) (drop (i * nat limit) rows))) < int (length rows) \<rparr>"
proof -
  have "int (nat limit) = limit" using assms by linarith
  then have "int (i * nat limit) = int i * limit" by (simp only: of_nat_mult)
  moreover have "0 \<le> int i * limit" "max 1 limit = limit" "int i + 1 \<noteq> 0" "limit \<noteq> 0" using assms by simp_all
  ultimately have "page_of \<lparr> fo_page = Some (int i + 1), fo_limit = Some limit \<rparr> = Some (int (i * nat limit), limit)"
    unfolding page_of_def FindOptions.select_convs Let_def num_or_def option.case by (simp only: add_diff_cancel_right' max_absorb2 if_True simp_thms) simp
  then have "Option.bind (Some \<lparr> fo_page = Some (int i + 1), fo_limit = Some limit \<rparr>) page_of = Some (int (i * nat limit), limit)"
    by simp
  then show ?thesis by (simp only: findMany_def Let_def option.case prod.case nat_int)
qed

lemma list_page_page:
  assumes "0 < limit"
  shows "list_page (Some (int i + 1)) (Some limit) rows =
    \<lparr> pr_data = take (nat limit) (drop (i * nat limit) rows), pr_page = int i + 1, pr_limit = limit,
      pr_total = int (length rows), pr_hasMore = int ((i + 1) * nat limit) < int (length rows) \<rparr>"
proof -
  have p: "num_or (Some (int i + 1)) 1 = int i + 1" "num_or (Some limit) 50 = limit" "max 1 (int i + 1) = int i + 1" "max 1 limit = limit"
    using assms by simp_all
  have "page_slice (int i * limit) (int i * limit + limit) rows = take (nat limit) (drop (i * nat limit) rows)"
    using page_slice_page [of "int i * limit" limit rows] assms by (simp add: nat_mult_distrib)
  moreover have "(int i + 1) * limit = int ((i + 1) * nat limit)" using assms by (simp add: algebra_simps)
  ultimately show ?thesis using assms by (simp add: list_page_def p createPaginatedResponse_def Let_def del: of_nat_mult)
qed

text \<open>The pages of a limit, one after the other, are the rows, and the application's lists have the same pages as the repositories.
  \<open>hasMore\<close> says of both whether rows follow.\<close>
theorem pages_partition_the_rows:
  assumes "0 < limit" "length rows \<le> k * nat limit"
    and page_def: "page = (\<lambda>i. findMany (Some \<lparr> fo_page = Some (int i + 1), fo_limit = Some limit \<rparr>) rows)"
    and listed_def: "listed = (\<lambda>i. list_page (Some (int i + 1)) (Some limit) rows)"
  shows "concat (map (\<lambda>i. fp_data (page i)) [0..<k]) = rows \<and> pr_data (listed i) = fp_data (page i) \<and>
    (fp_hasMore (page i) \<longleftrightarrow> i * nat limit + length (fp_data (page i)) < length rows) \<and>
    (pr_hasMore (listed i) \<longleftrightarrow> fp_data (page (i + 1)) \<noteq> [])"
proof -
  have "int (i * nat limit) + int (length xs) < int (length rows) \<longleftrightarrow> i * nat limit + length xs < length rows" for xs :: "'a list"
    by linarith
  moreover have "int ((i + 1) * nat limit) < int (length rows) \<longleftrightarrow> take (nat limit) (drop ((i + 1) * nat limit) rows) \<noteq> []"
    using assms(1) by (auto simp del: of_nat_mult mult_Suc)
  ultimately show ?thesis
    using assms(2) by (simp only: page_def listed_def findMany_page [OF assms(1)] list_page_page [OF assms(1)] concat_chunks
        found_page.select_convs PaginatedResponse.select_convs take_all_iff simp_thms)
qed

theorem pages_partition_the_rows_witness:
  "concat (map (\<lambda>i. fp_data (findMany (Some \<lparr> fo_page = Some (int i + 1), fo_limit = Some 2 \<rparr>) ''abc'')) [0..<2]) = ''abc''"
  using pages_partition_the_rows [OF _ _ refl refl, of 2 "''abc''" 2 0] by simp

subsection \<open>Deliveries\<close>

text \<open>Rows with the columns the queries read.\<close>

record stored_attempt = attempt_row +
  ar_id :: string
  ar_timestamp :: ms

record stored_delivery = delivery_row +
  dr_createdOn :: ms
  dr_attempts :: "stored_attempt list"

definition findByStatus :: "DeliveryStatus \<Rightarrow> stored_delivery list \<Rightarrow> stored_delivery list" where
  "findByStatus status rows = fp_data (findMany None (filter (\<lambda>r. dr_status r = status) rows))"

definition findByStatusAndDestination :: "DeliveryStatus \<Rightarrow> string \<Rightarrow> stored_delivery list \<Rightarrow> stored_delivery list" where
  "findByStatusAndDestination status dest rows =
     fp_data (findMany None (filter (\<lambda>r. dr_status r = status \<and> dr_destinationId r = dest) rows))"

definition findScheduledRetries :: "ms \<Rightarrow> stored_delivery list \<Rightarrow> stored_delivery list" where
  "findScheduledRetries now rows =
     filter (\<lambda>r. dr_status r = SCHEDULED_RETRY \<and> (case dr_nextRetryAt r of None \<Rightarrow> False | Some t \<Rightarrow> t \<le> now)) rows"

definition findInDLQ :: "stored_delivery list \<Rightarrow> stored_delivery list" where
  "findInDLQ rows = findByStatus FAILED_DLQ rows"

definition findByResultId :: "string \<Rightarrow> stored_delivery list \<Rightarrow> stored_delivery list" where
  "findByResultId result rows = fp_data (findMany None (filter (\<lambda>r. dr_taskResultId r = result) rows))"

definition findByDestinationId :: "string \<Rightarrow> stored_delivery list \<Rightarrow> stored_delivery list" where
  "findByDestinationId dest rows = fp_data (findMany None (filter (\<lambda>r. dr_destinationId r = dest) rows))"

definition findDeliveryById :: "string \<Rightarrow> stored_delivery list \<Rightarrow> stored_delivery option" where
  "findDeliveryById i rows = findFirst (\<lambda>r. dr_id r = i) rows"

definition delivery_getById :: "string \<Rightarrow> stored_delivery list \<Rightarrow> worker_error + stored_delivery" where
  "delivery_getById i rows = (case findDeliveryById i rows of
     None \<Rightarrow> Inl (not_found_error (''TaskResultDelivery not found with id: '' @ i)) | Some r \<Rightarrow> Inr r)"

text \<open>The timeline of a result: each delivery's creation and its attempts in the order of their numbers, then all sorted by time
  (\<open>sort\<close> keeps the order of equal times).\<close>

datatype timeline_kind = Creation DeliveryStatus string | Attempt int "int option" int "string option"

record TimelineEvent =
  te_id :: string
  te_kind :: timeline_kind
  te_timestamp :: ms

definition attempt_event :: "stored_attempt \<Rightarrow> TimelineEvent" where
  "attempt_event a = \<lparr> te_id = ar_id a,
     te_kind = Attempt (ar_attemptNumber a) (ar_responseStatus a) (ar_responseTimeMs a) (ar_errorMessage a), te_timestamp = ar_timestamp a \<rparr>"

definition creation_event :: "stored_delivery \<Rightarrow> TimelineEvent" where
  "creation_event r = \<lparr> te_id = dr_id r, te_kind = Creation (dr_status r) (dr_destinationId r), te_timestamp = dr_createdOn r \<rparr>"

definition delivery_events :: "stored_delivery \<Rightarrow> TimelineEvent list" where
  "delivery_events r = creation_event r # map attempt_event (sort_key ar_attemptNumber (dr_attempts r))"

definition getDeliveryTimeline :: "string \<Rightarrow> stored_delivery list \<Rightarrow> TimelineEvent list" where
  "getDeliveryTimeline result rows = sort_key te_timestamp (concat (map delivery_events (findByResultId result rows)))"

text \<open>\<open>countByStatus\<close>: the groups of the database, over a record that has every status at zero.\<close>

definition all_statuses :: "DeliveryStatus list" where
  "all_statuses = [PENDING, PROCESSING, COMPLETED, SCHEDULED_RETRY, FAILED_DLQ]"

definition countByStatus :: "stored_delivery list \<Rightarrow> (DeliveryStatus, int) js_map" where
  "countByStatus rows = fold (\<lambda>(s, n) m. mset_at s n m) (tally dr_status rows) (map (\<lambda>s. (s, 0)) all_statuses)"

record StatsFilters =
  sf_startDate :: "ms option"
  sf_endDate :: "ms option"
  sf_destinationId :: "string option"

record DeliveryStats =
  dv_total :: int
  dv_successRate :: rat
  dv_avgLatencyMs :: rat
  dv_failureRate :: rat
  dv_byStatus :: "(DeliveryStatus, int) js_map"

definition stats_where :: "StatsFilters \<Rightarrow> stored_delivery \<Rightarrow> bool" where
  "stats_where f r \<longleftrightarrow> (str_or (sf_destinationId f) [] \<noteq> [] \<longrightarrow> dr_destinationId r = the (sf_destinationId f)) \<and>
     (case sf_startDate f of None \<Rightarrow> True | Some t \<Rightarrow> t \<le> dr_createdOn r) \<and>
     (case sf_endDate f of None \<Rightarrow> True | Some t \<Rightarrow> dr_createdOn r \<le> t)"

definition percent :: "nat \<Rightarrow> nat \<Rightarrow> rat" where
  "percent part whole = (if whole > 0 then of_nat part / of_nat whole * 100 else 0)"

definition getDeliveryStats :: "StatsFilters option \<Rightarrow> stored_delivery list \<Rightarrow> DeliveryStats" where
  "getDeliveryStats filters rows =
     (let records = filter (\<lambda>r. case filters of None \<Rightarrow> True | Some f \<Rightarrow> stats_where f r) rows;
          attempts = concat (map dr_attempts records)
      in \<lparr> dv_total = int (length records),
           dv_successRate = percent (length (filter (\<lambda>r. dr_status r = COMPLETED) records)) (length records),
           dv_avgLatencyMs = (if attempts = [] then 0 else of_int (sum_list (map ar_responseTimeMs attempts)) / of_nat (length attempts)),
           dv_failureRate = percent (length (filter (\<lambda>r. dr_status r = FAILED_DLQ) records)) (length records),
           dv_byStatus = tally dr_status records \<rparr>)"

lemma found [simp]: "fp_data (findMany None rows) = rows"
  by (simp add: findMany_def)

text \<open>A timeline holds the creation of every delivery of the result and each of its attempts, nothing else, in the order of time.\<close>
theorem timeline_is_complete_and_ordered:
  "sorted (map te_timestamp (getDeliveryTimeline result rows)) \<and>
   mset (getDeliveryTimeline result rows) =
     mset (map creation_event (findByResultId result rows)) +
     mset (map attempt_event (concat (map dr_attempts (findByResultId result rows))))"
proof
  show "sorted (map te_timestamp (getDeliveryTimeline result rows))" by (simp add: getDeliveryTimeline_def)
  have "mset (concat (map delivery_events ds)) = mset (map creation_event ds) + mset (map attempt_event (concat (map dr_attempts ds)))"
    for ds :: "stored_delivery list"
    by (induction ds) (simp_all add: delivery_events_def)
  then show "mset (getDeliveryTimeline result rows) =
     mset (map creation_event (findByResultId result rows)) +
     mset (map attempt_event (concat (map dr_attempts (findByResultId result rows))))"
    by (simp add: getDeliveryTimeline_def)
qed

lemma mget_Cons: "mget ((a, b) # m) k = (if k = a then Some b else mget m k)"
  by (simp add: mget_def)

lemma fold_mset_at_get:
  "distinct (map fst xs) \<Longrightarrow> mget (fold (\<lambda>(s, n) m. mset_at s n m) xs m) k = (case mget xs k of None \<Rightarrow> mget m k | Some n \<Rightarrow> Some n)"
proof (induction xs arbitrary: m)
  case (Cons p xs)
  obtain s n where p: "p = (s, n)" by (cases p)
  have "mget xs s = None" using Cons.prems p by (simp add: mget_def map_of_eq_None_iff)
  then show ?case using Cons p by (auto simp: mget_Cons split: option.splits)
qed simp

lemma percent_bounds: "part \<le> whole \<Longrightarrow> 0 \<le> percent part whole \<and> percent part whole \<le> 100"
  by (auto simp: percent_def divide_le_eq)

lemma percent_add: "percent a n + percent b n = percent (a + b) n"
  by (simp add: percent_def add_divide_distrib distrib_right)

text \<open>The statistics count every delivery once: each status has its number of rows, the numbers add up to the total, and success and
  failure are percentages that exceed 100 neither alone nor together.\<close>
theorem statistics_count_each_delivery_once:
  assumes stats_def: "stats = getDeliveryStats filters rows"
    and records_def: "records = filter (\<lambda>r. case filters of None \<Rightarrow> True | Some f \<Rightarrow> stats_where f r) rows"
  shows "mget (countByStatus rows) s = Some (int (length (filter (\<lambda>r. dr_status r = s) rows))) \<and>
    num_or (mget (dv_byStatus stats) s) 0 = int (length (filter (\<lambda>r. dr_status r = s) records)) \<and>
    sum_list (map snd (dv_byStatus stats)) = dv_total stats \<and>
    0 \<le> dv_successRate stats \<and> 0 \<le> dv_failureRate stats \<and> dv_successRate stats + dv_failureRate stats \<le> 100"
proof (intro conjI)
  have all: "mget (map (\<lambda>s. (s, 0)) all_statuses) s = Some (0 :: int)"
    by (cases s) (simp_all add: all_statuses_def mget_def)
  show "mget (countByStatus rows) s = Some (int (length (filter (\<lambda>r. dr_status r = s) rows)))"
    by (simp add: countByStatus_def fold_mset_at_get [OF tally_distinct] mget_tally all Let_def del: length_0_conv)
  show "num_or (mget (dv_byStatus stats) s) 0 = int (length (filter (\<lambda>r. dr_status r = s) records))"
    by (simp add: stats_def records_def getDeliveryStats_def mget_tally Let_def del: length_0_conv)
  show "sum_list (map snd (dv_byStatus stats)) = dv_total stats"
    by (simp add: stats_def getDeliveryStats_def tally_total Let_def)
  have "dv_successRate stats = percent (length (filter (\<lambda>r. dr_status r = COMPLETED) records)) (length records)"
    "dv_failureRate stats = percent (length (filter (\<lambda>r. dr_status r = FAILED_DLQ) records)) (length records)"
    by (simp_all add: stats_def records_def getDeliveryStats_def Let_def)
  moreover have "length (filter (\<lambda>r. dr_status r = COMPLETED) records) + length (filter (\<lambda>r. dr_status r = FAILED_DLQ) records) \<le> length records"
    by (induction records) auto
  ultimately show "0 \<le> dv_successRate stats" "0 \<le> dv_failureRate stats" "dv_successRate stats + dv_failureRate stats \<le> 100"
    using percent_bounds by (simp_all add: percent_add)
qed

definition stored_example :: "DeliveryStatus \<Rightarrow> stored_delivery" where
  "stored_example s = delivery_row.extend (example_row s) \<lparr> dr_createdOn = 7, dr_attempts = [] \<rparr>"

theorem statistics_count_each_delivery_once_witness:
  "sum_list (map snd (dv_byStatus (getDeliveryStats None [stored_example COMPLETED, stored_example FAILED_DLQ]))) =
     dv_total (getDeliveryStats None [stored_example COMPLETED, stored_example FAILED_DLQ])"
  using statistics_count_each_delivery_once [where filters = None and rows = "[stored_example COMPLETED, stored_example FAILED_DLQ]"
      and s = PENDING, OF refl refl] by simp

lemma sorted_map_last:
  assumes "sorted (map f xs)" "x \<in> set xs" shows "f x \<le> f (last xs)"
proof -
  have ne: "xs \<noteq> []" using assms(2) by auto
  have "sorted (map f (butlast xs @ [last xs]))" using assms(1) ne by simp
  moreover have "x \<in> set (butlast xs @ [last xs])" using assms(2) ne by simp
  ultimately show ?thesis unfolding map_append sorted_append by auto
qed

subsection \<open>Attempts\<close>

text \<open>\<open>findByDeliveryId\<close> asks for the order of the numbers; \<open>getLatestAttempt\<close> asks for one too, but \<open>findFirst\<close> passes none on.\<close>

definition attempts_findByDeliveryId :: "string \<Rightarrow> stored_attempt list \<Rightarrow> stored_attempt list" where
  "attempts_findByDeliveryId d rows = sort_key ar_attemptNumber (filter (\<lambda>a. ar_deliveryId a = d) rows)"

definition getLatestAttempt :: "string \<Rightarrow> stored_attempt list \<Rightarrow> stored_attempt option" where
  "getLatestAttempt d rows = findFirst (\<lambda>a. ar_deliveryId a = d) rows"

definition getAttemptHistory :: "string \<Rightarrow> int option \<Rightarrow> stored_attempt list \<Rightarrow> stored_attempt list" where
  "getAttemptHistory d limit rows =
     fp_data (findMany (Some \<lparr> fo_page = Some 1, fo_limit = Some (num_or limit 10) \<rparr>)
       (sort_key (\<lambda>a. - ar_timestamp a) (filter (\<lambda>a. ar_deliveryId a = d) rows)))"

record FailureStats =
  fs_totalAttempts :: nat
  fs_failedAttempts :: nat
  fs_lastErrorCode :: "int option"
  fs_lastErrorMessage :: "string option"

definition failed_attempt :: "stored_attempt \<Rightarrow> bool" where
  "failed_attempt a \<longleftrightarrow> num_or (ar_responseStatus a) 0 \<ge> 400 \<or> str_or (ar_errorMessage a) [] \<noteq> []"

text \<open>\<open>x || undefined\<close>.\<close>

definition num_or_undefined :: "int option \<Rightarrow> int option" where
  "num_or_undefined v = (if num_or v 0 = 0 then None else v)"

definition str_or_undefined :: "string option \<Rightarrow> string option" where
  "str_or_undefined v = (if str_or v [] = [] then None else v)"

definition getFailureStats :: "string \<Rightarrow> stored_attempt list \<Rightarrow> FailureStats" where
  "getFailureStats d rows =
     (let attempts = attempts_findByDeliveryId d rows;
          latest = (if attempts = [] then None else Some (last attempts))
      in \<lparr> fs_totalAttempts = length attempts, fs_failedAttempts = length (filter failed_attempt attempts),
           fs_lastErrorCode = num_or_undefined (Option.bind latest ar_responseStatus),
           fs_lastErrorMessage = str_or_undefined (Option.bind latest ar_errorMessage) \<rparr>)"

definition countByStatusCode :: "int \<Rightarrow> stored_attempt list \<Rightarrow> nat" where
  "countByStatusCode code rows = length (filter (\<lambda>a. ar_responseStatus a = Some code) rows)"

definition getErrorDistribution :: "ms \<Rightarrow> ms \<Rightarrow> stored_attempt list \<Rightarrow> (string, int) js_map" where
  "getErrorDistribution startDate endDate rows =
     tally (\<lambda>a. str_or (ar_errorMessage a) ''Unknown Error'')
       (filter (\<lambda>a. startDate \<le> ar_timestamp a \<and> ar_timestamp a \<le> endDate \<and> ar_errorMessage a \<noteq> None) rows)"

text \<open>The latest attempt is the one with the highest number; what \<open>getLatestAttempt\<close> answers is whichever row of the delivery the
  database has first: any of them, for some order of the same rows. \<open>getFailureStats\<close>, which sorts, reads the highest.\<close>
theorem latest_attempt_is_any_attempt:
  assumes "a \<in> set rows" "ar_deliveryId a = d"
  shows "\<exists>rows'. mset rows' = mset rows \<and> getLatestAttempt d rows' = Some a \<and>
    fs_totalAttempts (getFailureStats d rows') = length (filter (\<lambda>a. ar_deliveryId a = d) rows) \<and>
    (\<exists>l \<in> set rows. ar_deliveryId l = d \<and> ar_attemptNumber a \<le> ar_attemptNumber l \<and>
       fs_lastErrorCode (getFailureStats d rows') = num_or_undefined (ar_responseStatus l))"
proof -
  let ?rows = "a # remove1 a rows"
  let ?sorted = "attempts_findByDeliveryId d ?rows"
  have m: "mset ?rows = mset rows" using assms(1) by simp
  have first: "getLatestAttempt d ?rows = Some a" using assms(2) by (simp add: getLatestAttempt_def findFirst_def)
  have "length (filter (\<lambda>a. ar_deliveryId a = d) ?rows) = length (filter (\<lambda>a. ar_deliveryId a = d) rows)"
    using m by (metis mset_filter size_mset)
  then have total: "fs_totalAttempts (getFailureStats d ?rows) = length (filter (\<lambda>a. ar_deliveryId a = d) rows)"
    by (simp add: getFailureStats_def attempts_findByDeliveryId_def Let_def)
  have a: "a \<in> set ?sorted" using assms(2) by (simp add: attempts_findByDeliveryId_def set_insort_key)
  then have ne: "?sorted \<noteq> []" by auto
  have "sorted (map ar_attemptNumber ?sorted)" by (simp add: attempts_findByDeliveryId_def)
  then have "ar_attemptNumber a \<le> ar_attemptNumber (last ?sorted)"
    by (rule sorted_map_last [OF _ a])
  moreover have "last ?sorted \<in> set rows" "ar_deliveryId (last ?sorted) = d"
  proof -
    have "last ?sorted \<in> set ?sorted" using ne by (rule last_in_set)
    then have "last ?sorted \<in> set ?rows" "ar_deliveryId (last ?sorted) = d" by (auto simp: attempts_findByDeliveryId_def)
    then show "last ?sorted \<in> set rows" "ar_deliveryId (last ?sorted) = d" using set_mset_mset m by (metis, blast)
  qed
  moreover have "fs_lastErrorCode (getFailureStats d ?rows) = num_or_undefined (ar_responseStatus (last ?sorted))"
    using ne by (simp add: getFailureStats_def Let_def)
  ultimately show ?thesis using m first total by blast
qed

text \<open>The error distribution counts every attempt of the range that has an error once.\<close>
theorem errors_are_distributed_once:
  "sum_list (map snd (getErrorDistribution t u rows)) =
     int (length (filter (\<lambda>a. t \<le> ar_timestamp a \<and> ar_timestamp a \<le> u \<and> ar_errorMessage a \<noteq> None) rows)) \<and>
   fs_failedAttempts (getFailureStats d rows) = length (filter (\<lambda>a. ar_deliveryId a = d \<and> failed_attempt a) rows)"
proof
  show "sum_list (map snd (getErrorDistribution t u rows)) =
     int (length (filter (\<lambda>a. t \<le> ar_timestamp a \<and> ar_timestamp a \<le> u \<and> ar_errorMessage a \<noteq> None) rows))"
    by (simp only: getErrorDistribution_def tally_total)
  have "mset (filter failed_attempt (attempts_findByDeliveryId d rows)) = mset (filter (\<lambda>a. ar_deliveryId a = d \<and> failed_attempt a) rows)"
    by (simp add: attempts_findByDeliveryId_def filter_filter_mset conj_commute)
  then show "fs_failedAttempts (getFailureStats d rows) = length (filter (\<lambda>a. ar_deliveryId a = d \<and> failed_attempt a) rows)"
    by (metis (no_types, lifting) FailureStats.select_convs(2) getFailureStats_def size_mset)
qed

definition stored_attempt_example :: "int \<Rightarrow> stored_attempt" where
  "stored_attempt_example n = \<lparr> ar_deliveryId = ''d1'', ar_attemptNumber = n, ar_responseStatus = Some (500 + n), ar_responseTimeMs = 3,
     ar_errorMessage = None, ar_id = ''a'', ar_timestamp = n \<rparr>"

theorem latest_attempt_is_any_attempt_witness:
  "\<exists>rows'. mset rows' = mset [stored_attempt_example 2, stored_attempt_example 1] \<and>
     getLatestAttempt ''d1'' rows' = Some (stored_attempt_example 1)"
  using latest_attempt_is_any_attempt [of "stored_attempt_example 1" "[stored_attempt_example 2, stored_attempt_example 1]" "''d1''"]
  by (auto simp: stored_attempt_example_def)

subsection \<open>Creating, updating and deleting\<close>

text \<open>Deliveries and attempts through the base repository, with the audit events they write.\<close>

definition delivery_create :: "('r, 'd) table_client \<Rightarrow> string \<Rightarrow> 'r \<Rightarrow> 'd \<Rightarrow> ('d, worker_error) eff" where
  "delivery_create tc i r d = repo_create tc ''DELIVERY_CREATED'' i r d"

definition createDelivery :: "('r, 'd) table_client \<Rightarrow> string \<Rightarrow> 'r \<Rightarrow> 'd \<Rightarrow> ('d, worker_error) eff" where
  "createDelivery tc i r d = delivery_create tc i r d"

definition delivery_update :: "('r, 'd) table_client \<Rightarrow> string \<Rightarrow> ('r \<Rightarrow> 'r) \<Rightarrow> 'd \<Rightarrow> ('d, worker_error) eff" where
  "delivery_update tc i f d = repo_update tc ''DELIVERY_UPDATED'' i f d"

definition delivery_delete :: "('r, 'd) table_client \<Rightarrow> string \<Rightarrow> 'd \<Rightarrow> ('d, worker_error) eff" where
  "delivery_delete tc i d = repo_delete tc ''DELIVERY_DELETED'' i d"

definition attempt_create :: "('r, 'd) table_client \<Rightarrow> string \<Rightarrow> 'r \<Rightarrow> 'd \<Rightarrow> ('d, worker_error) eff" where
  "attempt_create tc i r d = repo_create tc ''DELIVERY_ATTEMPT_CREATED'' i r d"

definition attempt_update :: "('r, 'd) table_client \<Rightarrow> string \<Rightarrow> ('r \<Rightarrow> 'r) \<Rightarrow> 'd \<Rightarrow> ('d, worker_error) eff" where
  "attempt_update tc i f d = repo_update tc ''DELIVERY_ATTEMPT_UPDATED'' i f d"

definition attempt_delete :: "('r, 'd) table_client \<Rightarrow> string \<Rightarrow> 'd \<Rightarrow> ('d, worker_error) eff" where
  "attempt_delete tc i d = repo_delete tc ''DELIVERY_ATTEMPT_DELETED'' i d"

definition attempt_getById :: "(stored_attempt, 'd) table_client \<Rightarrow> string \<Rightarrow> 'd \<Rightarrow> worker_error + stored_attempt" where
  "attempt_getById tc i d = repo_getById tc ''TaskResultDeliveryAttempt'' i d"

definition result_update :: "(result_row, 'd) table_client \<Rightarrow> string \<Rightarrow> (result_row \<Rightarrow> result_row) \<Rightarrow> 'd \<Rightarrow> ('d, worker_error) eff" where
  "result_update tc i f d = repo_update tc ''TASK_RESULT_UPDATED'' i f d"

text \<open>Task results with their deliveries: the lineage of an email is its results and the deliveries of those.\<close>

record stored_result = result_row +
  re_id :: string

definition results_findByEmailId :: "string \<Rightarrow> stored_result list \<Rightarrow> stored_result list" where
  "results_findByEmailId email rows = fp_data (findMany None (filter (\<lambda>r. re_emailId r = email) rows))"

definition results_findByAgentId :: "string \<Rightarrow> stored_result list \<Rightarrow> stored_result list" where
  "results_findByAgentId agent rows = fp_data (findMany None (filter (\<lambda>r. re_agentId r = agent) rows))"

definition findPendingResults :: "nat \<Rightarrow> stored_result list \<Rightarrow> stored_result list" where
  "findPendingResults limit rows = take limit rows"

definition getLineage :: "string \<Rightarrow> stored_result list \<Rightarrow> stored_delivery list \<Rightarrow> stored_result list \<times> stored_delivery list" where
  "getLineage email results deliveries =
     (let rs = results_findByEmailId email results; ids = map re_id rs
      in (rs, map (\<lambda>r. r\<lparr> dr_attempts := sort_key ar_attemptNumber (dr_attempts r) \<rparr>)
                (filter (\<lambda>r. dr_taskResultId r \<in> set ids) deliveries)))"

definition findWithDeliveries :: "string \<Rightarrow> stored_result list \<Rightarrow> stored_delivery list \<Rightarrow> (stored_result \<times> stored_delivery list) option" where
  "findWithDeliveries i results deliveries = map_option (\<lambda>r. (r, map (\<lambda>x. x\<lparr> dr_attempts := sort_key ar_attemptNumber (dr_attempts x) \<rparr>)
     (filter (\<lambda>x. dr_taskResultId x = re_id r) deliveries))) (findFirst (\<lambda>r. re_id r = i) results)"

definition results_countByStatus :: "DeliveryStatus \<Rightarrow> stored_result list \<Rightarrow> stored_delivery list \<Rightarrow> nat" where
  "results_countByStatus status results deliveries =
     length (filter (\<lambda>r. list_ex (\<lambda>x. dr_taskResultId x = re_id r \<and> dr_status x = status) deliveries) results)"

subsection \<open>Dashboards\<close>

text \<open>\<open>DashboardService\<close> counts deliveries by the text of a status; Prisma refuses a text that is none.\<close>

definition db_count_status :: "string \<Rightarrow> stored_delivery list \<Rightarrow> nat option" where
  "db_count_status s rows = (if s \<in> set (map status_str all_statuses)
     then Some (length (filter (\<lambda>r. status_str (dr_status r) = s) rows)) else None)"

record delivery_statistics =
  dh_total :: nat
  dh_completed :: nat
  dh_failed :: nat
  dh_retrying :: nat

definition getDeliveryStatistics :: "stored_delivery list option \<Rightarrow> delivery_statistics" where
  "getDeliveryStatistics repository =
     (let (completed, failed, retrying) = (case repository of None \<Rightarrow> (0, 0, 0)
            | Some rows \<Rightarrow> (case db_count_status ''COMPLETED'' rows of None \<Rightarrow> (0, 0, 0)
                | Some c \<Rightarrow> (case db_count_status ''FAILED_DLQ'' rows of None \<Rightarrow> (c, 0, 0)
                    | Some f \<Rightarrow> (case db_count_status ''FAILED_RETRY'' rows of None \<Rightarrow> (c, f, 0) | Some r \<Rightarrow> (c, f, r)))))
      in \<lparr> dh_total = completed + failed + retrying, dh_completed = completed, dh_failed = failed, dh_retrying = retrying \<rparr>)"

record queue_counts =
  qn_main :: "int option"
  qn_processing :: "int option"
  qn_delayed :: "int option"
  qn_dlq :: "int option"

definition no_counts :: queue_counts where
  "no_counts = \<lparr> qn_main = None, qn_processing = None, qn_delayed = None, qn_dlq = None \<rparr>"

record queue_statistics =
  qh_totalJobs :: int
  qh_pending :: int
  qh_processing :: int
  qh_delayed :: int
  qh_dlq :: int

text \<open>A queue manager that is missing or fails counts as empty.\<close>

definition getQueueStatistics :: "queue_counts option \<Rightarrow> queue_statistics" where
  "getQueueStatistics answer =
     (let c = (case answer of None \<Rightarrow> no_counts | Some c \<Rightarrow> c)
      in \<lparr> qh_totalJobs = num_or (qn_main c) 0 + num_or (qn_delayed c) 0 + num_or (qn_dlq c) 0, qh_pending = num_or (qn_main c) 0,
           qh_processing = num_or (qn_processing c) 0, qh_delayed = num_or (qn_delayed c) 0, qh_dlq = num_or (qn_dlq c) 0 \<rparr>)"

text \<open>The controller's statistics, over the rows that are not deleted, with the type of each row's destination.\<close>

definition rate_or :: "rat \<Rightarrow> nat \<Rightarrow> nat \<Rightarrow> rat" where
  "rate_or empty_rate part whole = (if whole > 0 then of_nat part / of_nat whole * 100 else empty_rate)"

definition group_stats :: "(stored_delivery \<Rightarrow> string) \<Rightarrow> stored_delivery list \<Rightarrow> (string, nat \<times> nat \<times> nat) js_map" where
  "group_stats type_of rows =
     fold (\<lambda>r m. let (t, c, f) = nullish_or (mget m (type_of r)) (0, 0, 0) in
       mset_at (type_of r) (t + 1, if dr_status r = COMPLETED then c + 1 else c, if dr_status r = FAILED_DLQ then f + 1 else f) m) rows []"

record dashboard_stats =
  bs_successRate :: rat
  bs_failureRate :: rat
  bs_avgRetries :: rat
  bs_avgLatency :: rat
  bs_byDestinationType :: "(string, rat \<times> rat \<times> nat) js_map"

definition average_of :: "int list \<Rightarrow> rat" where
  "average_of ns = (if ns = [] then 0 else of_int (sum_list ns) / of_nat (length ns))"

definition dashboard_deliveryStats :: "(stored_delivery \<Rightarrow> string) \<Rightarrow> stored_attempt list \<Rightarrow> stored_delivery list \<Rightarrow> dashboard_stats" where
  "dashboard_deliveryStats type_of attempts rows =
     (let completed = length (filter (\<lambda>r. dr_status r = COMPLETED) rows); failed = length (filter (\<lambda>r. dr_status r = FAILED_DLQ) rows)
      in \<lparr> bs_successRate = rate_or 100 completed (length rows), bs_failureRate = rate_or 0 failed (length rows),
           bs_avgRetries = average_of (map dr_retryCount rows), bs_avgLatency = average_of (map ar_responseTimeMs attempts),
           bs_byDestinationType = map (\<lambda>(ty, (t, c, f)). (ty, (rate_or 100 c t, rate_or 0 f t, t))) (group_stats type_of rows) \<rparr>)"

definition dashboard_queueStats :: "(int \<times> int \<times> int \<times> int \<times> int) option \<Rightarrow> int \<Rightarrow> (int \<times> int \<times> int) \<times> int \<times> rat \<times> int" where
  "dashboard_queueStats counts workers = (case counts of None \<Rightarrow> ((0, 0, 0), 0, 100, 0)
     | Some (waiting, active, delayed, completed, failed) \<Rightarrow>
         ((waiting + active, delayed, failed), completed,
          if completed + failed > 0 then of_int completed / of_int (completed + failed) * 100 else 100, workers))"

lemma mget_group_stats:
  "mget (group_stats type_of rows) ty = (let rs = filter (\<lambda>r. type_of r = ty) rows in
     if rs = [] then None else Some (length rs, length (filter (\<lambda>r. dr_status r = COMPLETED) rs), length (filter (\<lambda>r. dr_status r = FAILED_DLQ) rs)))"
proof (induction rows arbitrary: ty rule: rev_induct)
  case Nil
  then show ?case by (simp add: group_stats_def)
next
  case (snoc r rows)
  have "group_stats type_of (rows @ [r]) = (let (t, c, f) = nullish_or (mget (group_stats type_of rows) (type_of r)) (0, 0, 0) in
       mset_at (type_of r) (t + 1, if dr_status r = COMPLETED then c + 1 else c, if dr_status r = FAILED_DLQ then f + 1 else f) (group_stats type_of rows))"
    by (simp add: group_stats_def)
  then show ?case using snoc.IH [of "type_of r"] snoc.IH [of ty] by (auto simp: Let_def filter_empty_conv)
qed

text \<open>The dashboard and the repository agree on the rates where there are deliveries; without any, the dashboard reports full success and
  the repository none. The rate of a type is that of its rows. The overview service never counts a retry: it asks for a
  status that does not exist.\<close>
theorem dashboards_agree_with_statistics:
  assumes rs_def: "rs = filter (\<lambda>r. type_of r = ty) rows"
  shows "(rows \<noteq> [] \<longrightarrow> bs_successRate (dashboard_deliveryStats type_of attempts rows) = dv_successRate (getDeliveryStats None rows) \<and>
      bs_failureRate (dashboard_deliveryStats type_of attempts rows) = dv_failureRate (getDeliveryStats None rows)) \<and>
    (rows = [] \<longrightarrow> bs_successRate (dashboard_deliveryStats type_of attempts rows) = 100 \<and> dv_successRate (getDeliveryStats None rows) = 0) \<and>
    (rs \<noteq> [] \<longrightarrow> mget (bs_byDestinationType (dashboard_deliveryStats type_of attempts rows)) ty =
       Some (dv_successRate (getDeliveryStats None rs), dv_failureRate (getDeliveryStats None rs), length rs)) \<and>
    dh_retrying (getDeliveryStatistics (Some rows)) = 0 \<and>
    dh_completed (getDeliveryStatistics (Some rows)) = length (filter (\<lambda>r. dr_status r = COMPLETED) rows)"
proof (intro conjI impI)
  show "rows \<noteq> [] \<Longrightarrow> bs_successRate (dashboard_deliveryStats type_of attempts rows) = dv_successRate (getDeliveryStats None rows)"
    "rows \<noteq> [] \<Longrightarrow> bs_failureRate (dashboard_deliveryStats type_of attempts rows) = dv_failureRate (getDeliveryStats None rows)"
    "rows = [] \<Longrightarrow> bs_successRate (dashboard_deliveryStats type_of attempts rows) = 100" "rows = [] \<Longrightarrow> dv_successRate (getDeliveryStats None rows) = 0"
    by (simp_all add: dashboard_deliveryStats_def getDeliveryStats_def rate_or_def percent_def Let_def)
  have map_get: "mget (map (\<lambda>(ty, (t, c, f)). (ty, (rate_or 100 c t, rate_or 0 f t, t))) m) ty =
      map_option (\<lambda>(t, c, f). (rate_or 100 c t, rate_or 0 f t, t)) (mget m ty)" for m :: "(string, nat \<times> nat \<times> nat) js_map"
    by (induction m) (auto simp: mget_def)
  show "mget (bs_byDestinationType (dashboard_deliveryStats type_of attempts rows)) ty =
       Some (dv_successRate (getDeliveryStats None rs), dv_failureRate (getDeliveryStats None rs), length rs)" if "rs \<noteq> []"
  proof -
    have "mget (bs_byDestinationType (dashboard_deliveryStats type_of attempts rows)) ty =
        map_option (\<lambda>(t, c, f). (rate_or 100 c t, rate_or 0 f t, t)) (mget (group_stats type_of rows) ty)"
      by (simp only: dashboard_deliveryStats_def Let_def dashboard_stats.select_convs map_get)
    then show ?thesis
      using that by (simp add: mget_group_stats Let_def rs_def [symmetric] getDeliveryStats_def rate_or_def percent_def)
  qed
  have "db_count_status ''COMPLETED'' rows = Some (length (filter (\<lambda>r. dr_status r = COMPLETED) rows))"
    "\<exists>n. db_count_status ''FAILED_DLQ'' rows = Some n" "db_count_status ''FAILED_RETRY'' rows = None"
  proof -
    have "status_str s = ''COMPLETED'' \<longleftrightarrow> s = COMPLETED" for s by (cases s) (simp_all add: status_str_def)
    then show "db_count_status ''COMPLETED'' rows = Some (length (filter (\<lambda>r. dr_status r = COMPLETED) rows))"
      by (simp add: db_count_status_def all_statuses_def status_str_def)
  qed (simp_all add: db_count_status_def all_statuses_def status_str_def)
  then show "dh_retrying (getDeliveryStatistics (Some rows)) = 0"
    "dh_completed (getDeliveryStatistics (Some rows)) = length (filter (\<lambda>r. dr_status r = COMPLETED) rows)"
    by (auto simp: getDeliveryStatistics_def)
qed

theorem dashboards_agree_with_statistics_witness:
  "mget (bs_byDestinationType (dashboard_deliveryStats (\<lambda>_. ''WEBHOOK'') [] [stored_example COMPLETED, stored_example FAILED_DLQ])) ''WEBHOOK'' =
     Some (dv_successRate (getDeliveryStats None [stored_example COMPLETED, stored_example FAILED_DLQ]),
           dv_failureRate (getDeliveryStats None [stored_example COMPLETED, stored_example FAILED_DLQ]), 2)"
  using dashboards_agree_with_statistics [where rows = "[stored_example COMPLETED, stored_example FAILED_DLQ]" and attempts = "[]"
      and ty = "''WEBHOOK''" and type_of = "\<lambda>_. ''WEBHOOK''", OF refl] by simp

end
