(* ===== verification/QF_Pipeline.thy ===== *)
theory QF_Pipeline
  imports QF_Services QF_Hmac QF_Settings QF_Queue
begin

text \<open>
  The delivery path of the use cases (\<open>application/use-cases\<close>): a result is received and its deliveries enqueued on BullMQ
  (\<open>infrastructure/queue/bullmq.service.ts\<close>, \<open>bullmq.worker.ts\<close>), a job is carried out by \<open>DeliverTaskResultUseCase\<close>, the outcome is
  saved by \<open>PrismaDeliveryLogRepository\<close>, and posts go through \<open>CircuitBreakerHttpClient\<close>.

  Prisma's table of deliveries is a parameter with \<open>log_laws\<close> (upsert by id, one row per result and destination), the breaker library
  opossum one with \<open>opossum_laws\<close>, BullMQ's queue the one of QF_Queue; its retries are \<open>run_job\<close>. Shown: what one attempt does to
  the table, that a retried job repeats the post and never records it, that a repeated reception enqueues nothing, and that server
  errors never open the breaker. Metrics and log messages are left out.
\<close>

subsection \<open>The delivery log\<close>

record log_row =
  lg_id :: string
  lg_taskResultId :: string
  lg_destinationId :: string
  lg_status :: DeliveryStatus
  lg_retryCount :: int
  lg_nextRetryAt :: "ms option"
  lg_createdAt :: ms
  lg_updatedAt :: ms
  lg_deletedAt :: "ms option"

text \<open>\<open>upsert\<close> and \<open>create\<close> are None when the database refuses: a second row for a pair, or a missing result, destination or delivery.
  \<open>lc_refs\<close> says whether the pair's result and destination exist.\<close>

record 'd log_client =
  lc_rows :: "'d \<Rightarrow> log_row list"
  lc_refs :: "'d \<Rightarrow> string \<Rightarrow> string \<Rightarrow> bool"
  lc_upsert :: "string \<Rightarrow> (log_row \<Rightarrow> log_row) \<Rightarrow> log_row \<Rightarrow> 'd \<Rightarrow> 'd option"
  lc_createAttempt :: "attempt_row \<Rightarrow> 'd \<Rightarrow> 'd option"

definition same_pair :: "log_row \<Rightarrow> log_row \<Rightarrow> bool" where
  "same_pair a b \<longleftrightarrow> lg_taskResultId a = lg_taskResultId b \<and> lg_destinationId a = lg_destinationId b"

definition log_laws :: "'d log_client \<Rightarrow> bool" where
  "log_laws lc \<longleftrightarrow>
     (\<forall>i f r d d'. lc_upsert lc i f r d = Some d' \<longrightarrow> lc_refs lc d' = lc_refs lc d \<and>
        lc_rows lc d' = (if \<exists>x \<in> set (lc_rows lc d). lg_id x = i then map (\<lambda>x. if lg_id x = i then f x else x) (lc_rows lc d) else lc_rows lc d @ [r])) \<and>
     (\<forall>i f r d. (\<forall>x \<in> set (lc_rows lc d). lg_id x \<noteq> i) \<longrightarrow>
        (lc_upsert lc i f r d = None \<longleftrightarrow> (\<exists>x \<in> set (lc_rows lc d). same_pair x r) \<or> \<not> lc_refs lc d (lg_taskResultId r) (lg_destinationId r)))"

text \<open>The row's status through the constants of \<open>DeliveryStatus\<close>.\<close>

definition log_status :: "DeliveryStatus \<Rightarrow> js_arg" where
  "log_status s = (let statusVal = lower (status_str s) in
     js_call (createStatusObj (if statusVal = ''pending'' then ''pending'' else if statusVal = ''processing'' then ''processing''
       else if statusVal = ''completed'' then ''completed'' else if statusVal = ''scheduled_retry'' then ''scheduled_retry'' else ''failed_dlq'')))"

definition log_toDomain :: "ms \<Rightarrow> log_row \<Rightarrow> domain_error + Delivery" where
  "log_toDomain now r = Delivery_restore now \<lparr> rp_id = lg_id r, rp_taskResultId = lg_taskResultId r, rp_destinationId = lg_destinationId r,
     rp_status = log_status (lg_status r), rp_retryCount = Some (lg_retryCount r), rp_nextRetryAt = lg_nextRetryAt r, rp_lastAttemptAt = None,
     rp_lastError = None, rp_completedAt = None, rp_createdAt = lg_createdAt r, rp_updatedAt = Some (lg_updatedAt r), rp_attempts = None,
     rp_deletedAt = lg_deletedAt r \<rparr>"

text \<open>The events \<open>save\<close> looks for. No method of \<open>Delivery\<close> adds one.\<close>

datatype log_event = DeliveryCompletedEvent int int | DeliveryFailedEvent string

definition event_attempt :: "Delivery \<Rightarrow> log_event \<Rightarrow> attempt_row" where
  "event_attempt l ev = (case ev of
       DeliveryCompletedEvent status latency \<Rightarrow> \<lparr> ar_deliveryId = dl_id l, ar_attemptNumber = dl_retryCount l, ar_responseStatus = Some status,
         ar_responseTimeMs = latency, ar_errorMessage = None \<rparr>
     | DeliveryFailedEvent message \<Rightarrow> \<lparr> ar_deliveryId = dl_id l, ar_attemptNumber = dl_retryCount l, ar_responseStatus = None,
         ar_responseTimeMs = 0, ar_errorMessage = Some message \<rparr>)"

fun write_events :: "'d log_client \<Rightarrow> Delivery \<Rightarrow> log_event list \<Rightarrow> 'd \<Rightarrow> 'd option" where
  "write_events lc l [] d = Some d"
| "write_events lc l (ev # evs) d = Option.bind (lc_createAttempt lc (event_attempt l ev) d) (write_events lc l evs)"

definition saved_row :: "ms \<Rightarrow> Delivery \<Rightarrow> log_row" where
  "saved_row now l = \<lparr> lg_id = dl_id l, lg_taskResultId = dl_taskResultId l, lg_destinationId = dl_destinationId l, lg_status = dl_status l,
     lg_retryCount = dl_retryCount l, lg_nextRetryAt = dl_nextRetryAt l, lg_createdAt = dl_createdAt l, lg_updatedAt = now, lg_deletedAt = None \<rparr>"

definition log_save :: "'d log_client \<Rightarrow> ms \<Rightarrow> log_event list \<Rightarrow> Delivery \<Rightarrow> 'd \<Rightarrow> 'd \<times> (service_error + Delivery)" where
  "log_save lc now evs l d =
     (case lc_upsert lc (dl_id l) (\<lambda>x. x\<lparr> lg_status := dl_status l, lg_retryCount := dl_retryCount l, lg_nextRetryAt := dl_nextRetryAt l,
          lg_updatedAt := now \<rparr>) (saved_row now l) d of
        None \<Rightarrow> (d, Inl (WorkerError (js_Error ''PrismaClientKnownRequestError'' ''Constraint failed'')))
      | Some d1 \<Rightarrow> (case write_events lc l evs d1 of
          None \<Rightarrow> (d1, Inl (WorkerError (js_Error ''PrismaClientKnownRequestError'' ''Constraint failed'')))
        | Some d2 \<Rightarrow> (d2, case find (\<lambda>x. lg_id x = dl_id l) (lc_rows lc d1) of None \<Rightarrow> Inl (DeliveryMissing (dl_id l))
            | Some r \<Rightarrow> (case log_toDomain now r of Inl e \<Rightarrow> Inl (DomainError e) | Inr l' \<Rightarrow> Inr l'))))"

definition log_findBy :: "'d log_client \<Rightarrow> ms \<Rightarrow> (log_row \<Rightarrow> bool) \<Rightarrow> 'd \<Rightarrow> domain_error + Delivery list" where
  "log_findBy lc now p d = mapE (log_toDomain now) (filter p (lc_rows lc d))"

definition log_findByTaskResultId :: "'d log_client \<Rightarrow> ms \<Rightarrow> string \<Rightarrow> 'd \<Rightarrow> domain_error + Delivery list" where
  "log_findByTaskResultId lc now t d = log_findBy lc now (\<lambda>r. lg_taskResultId r = t) d"

definition log_findByDestinationId :: "'d log_client \<Rightarrow> ms \<Rightarrow> string \<Rightarrow> 'd \<Rightarrow> domain_error + Delivery list" where
  "log_findByDestinationId lc now w d = log_findBy lc now (\<lambda>r. lg_destinationId r = w) d"

definition log_findAll :: "'d log_client \<Rightarrow> ms \<Rightarrow> 'd \<Rightarrow> domain_error + Delivery list" where
  "log_findAll lc now d = log_findBy lc now (\<lambda>r. True) d"

definition log_findStale :: "'d log_client \<Rightarrow> ms \<Rightarrow> ms \<Rightarrow> 'd \<Rightarrow> domain_error + Delivery list" where
  "log_findStale lc now staleThreshold d = log_findBy lc now (\<lambda>r. lg_status r = PROCESSING \<and> lg_updatedAt r \<le> staleThreshold) d"

text \<open>The text is raised to upper case; the database refuses one that is no status.\<close>

definition log_findByStatus :: "'d log_client \<Rightarrow> ms \<Rightarrow> string \<Rightarrow> 'd \<Rightarrow> service_error + Delivery list" where
  "log_findByStatus lc now status d =
     (if upper status \<notin> set (map status_str [PENDING, PROCESSING, COMPLETED, SCHEDULED_RETRY, FAILED_DLQ])
      then Inl (WorkerError (js_Error ''PrismaClientValidationError'' ''Invalid value for argument status''))
      else (case log_findBy lc now (\<lambda>r. status_str (lg_status r) = upper status) d of Inl e \<Rightarrow> Inl (DomainError e) | Inr ls \<Rightarrow> Inr ls))"

text \<open>What is read back is what was saved, but for the fields the table has no column for or \<open>toDomain\<close> does not read.\<close>

definition read_back :: "log_row \<Rightarrow> Delivery" where
  "read_back r = \<lparr> dl_id = lg_id r, dl_taskResultId = lg_taskResultId r, dl_destinationId = lg_destinationId r, dl_status = lg_status r,
     dl_retryCount = lg_retryCount r, dl_nextRetryAt = lg_nextRetryAt r, dl_lastAttemptAt = None, dl_lastError = None, dl_completedAt = None,
     dl_createdAt = lg_createdAt r, dl_updatedAt = lg_updatedAt r, dl_attempts = [], dl_deletedAt = lg_deletedAt r \<rparr>"

definition good_row :: "log_row \<Rightarrow> bool" where
  "good_row r \<longleftrightarrow> lg_id r \<noteq> [] \<and> lg_taskResultId r \<noteq> [] \<and> lg_destinationId r \<noteq> []"

lemma lower_status_text:
  "lower (status_str PENDING) = ''pending''" "lower (status_str PROCESSING) = ''processing''" "lower (status_str COMPLETED) = ''completed''"
  "lower (status_str SCHEDULED_RETRY) = ''scheduled_retry''" "lower (status_str FAILED_DLQ) = ''failed_dlq''"
  by (simp_all add: status_str_def lower_def lower_char_def char_of_def bit_0)

lemma restore_log_status: "restore_status (log_status s) = Inr s"
  by (cases s) (simp_all add: log_status_def lower_status_text js_call_def createStatusObj_def restore_status_def str_or_def
      DeliveryStatusVO_new_Inr_iff, simp_all add: status_str_def upper_char_def char_of_def bit_0)

lemma log_toDomain_row: "good_row r \<Longrightarrow> log_toDomain now r = Inr (read_back r)"
  by (simp add: log_toDomain_def Delivery_restore_def restore_log_status good_row_def Delivery_new_def read_back_def nullish_or_def)

lemma mapE_Inr: "\<forall>x \<in> set xs. f x = Inr (g x) \<Longrightarrow> mapE f xs = Inr (map g xs)"
  by (induction xs) simp_all

lemma log_findBy_rows: "\<forall>r \<in> set (lc_rows lc d). good_row r \<Longrightarrow> log_findBy lc now p d = Inr (map read_back (filter p (lc_rows lc d)))"
  unfolding log_findBy_def by (rule mapE_Inr) (simp add: log_toDomain_row)

subsection \<open>DeliverTaskResultUseCase\<close>

text \<open>What the use case reads: the objects behind references, the keyed hash, the text \<open>JSON.stringify\<close> gives a payload, and the two
  repositories.\<close>

record deliver_env =
  en_objects :: "nat \<Rightarrow> js_record"
  en_mac :: mac
  en_text :: "js_val \<Rightarrow> string"
  en_results :: "string \<Rightarrow> AiTaskResult option"
  en_destinations :: "string \<Rightarrow> Destination option"

record post_request =
  pq_url :: string
  pq_payload :: js_val
  pq_headers :: js_record
  pq_timeout :: js_num

text \<open>The client answers with status and duration, or throws an error with a message.\<close>

datatype post_answer = PostStatus int int | PostThrew string

record 'd pipe =
  pi_db :: 'd
  pi_posts :: "post_request list"

definition val_truthy :: "js_val \<Rightarrow> bool" where
  "val_truthy v = (case v of js_val.VUndefined \<Rightarrow> False | js_val.VNull \<Rightarrow> False | js_val.VBool b \<Rightarrow> b | js_val.VNum x \<Rightarrow> x \<noteq> 0
     | js_val.VNaN \<Rightarrow> False | js_val.VStr s \<Rightarrow> s \<noteq> [] | js_val.VRef n \<Rightarrow> True)"

text \<open>\<open>...v\<close> in an object: an object's entries, the characters of a text, nothing of anything else.\<close>

definition spread :: "(nat \<Rightarrow> js_record) \<Rightarrow> js_val \<Rightarrow> js_record" where
  "spread objects v = (case v of js_val.VRef n \<Rightarrow> objects n
     | js_val.VStr s \<Rightarrow> map (\<lambda>i. (show_nat i, js_val.VStr [s ! i])) [0..<length s] | _ \<Rightarrow> [])"

text \<open>\<open>Number(v ?? 5000)\<close>\<close>

definition timeout_ms :: "js_val \<Rightarrow> js_num" where
  "timeout_ms v = (case v of js_val.VUndefined \<Rightarrow> Fin 5000 | js_val.VNull \<Rightarrow> Fin 5000 | js_val.VBool b \<Rightarrow> Fin (if b then 1 else 0)
     | js_val.VNum x \<Rightarrow> Fin x | js_val.VNaN \<Rightarrow> NotNum | js_val.VStr s \<Rightarrow> js_Number s | js_val.VRef n \<Rightarrow> NotNum)"

text \<open>The headers: custom ones may replace the fixed ones, the signature replaces any. A secret that is no text makes \<open>createHmac\<close>
  throw.\<close>

definition deliver_headers :: "deliver_env \<Rightarrow> AiTaskResult \<Rightarrow> int \<Rightarrow> js_record \<Rightarrow> domain_error + js_record" where
  "deliver_headers en t attempt filters =
     (let headers = fold (\<lambda>(k, v). mset_at k v) (spread (en_objects en) (js_get filters ''headers''))
            [(''Content-Type'', js_val.VStr ''application/json''), (''X-QueueForge-Task-Id'', js_val.VStr (tr_id t)),
             (''X-QueueForge-Attempt'', js_val.VStr (show_int attempt))];
          secret = js_get filters ''hmacSecret''
      in if val_truthy secret
         then (case secret of js_val.VStr s \<Rightarrow> Inr (mset_at ''X-QueueForge-Signature''
                 (js_val.VStr (computeHmac (en_mac en) ''sha256'' (en_text en (tr_resultPayload t)) s)) headers)
           | _ \<Rightarrow> Inl TypeError)
         else Inr headers)"

text \<open>Success, status and error message of the post.\<close>

definition post_outcome :: "post_answer \<Rightarrow> bool \<times> int \<times> string" where
  "post_outcome answer = (case answer of
       PostStatus status duration \<Rightarrow> (status \<ge> 200 \<and> status < 300, status,
         if status \<ge> 200 \<and> status < 300 then [] else ''Received non-2xx status code: '' @ show_int status)
     | PostThrew message \<Rightarrow> (False, 0, if message = [] then ''Unknown network error'' else message))"

text \<open>The delivery is made anew for every attempt, under a fresh id and PENDING, and moved on by the outcome.\<close>

definition attempt_delivery :: "ms \<Rightarrow> string \<Rightarrow> string \<Rightarrow> string \<Rightarrow> int \<Rightarrow> int \<Rightarrow> post_answer \<Rightarrow> (Delivery, domain_error) eff option" where
  "attempt_delivery now uuid taskResultId destinationId attempt maxR answer =
     (case Delivery_restore now \<lparr> rp_id = uuid, rp_taskResultId = taskResultId, rp_destinationId = destinationId, rp_status = js_arg.JStr ''PENDING'',
         rp_retryCount = None, rp_nextRetryAt = None, rp_lastAttemptAt = None, rp_lastError = None, rp_completedAt = None, rp_createdAt = now,
         rp_updatedAt = Some now, rp_attempts = None, rp_deletedAt = None \<rparr> of
        Inl e \<Rightarrow> None
      | Inr d \<Rightarrow> Some (andThen (markAsProcessing now d) (\<lambda>d.
          let d = incrementRetryCount now d; (success, responseStatus, errorMessage) = post_outcome answer in
          if success then markAsCompleted now (Some responseStatus) d
          else andThen (markFailed now (FailOther (Some errorMessage)) (RetryFlag (attempt < maxR)) 5 d) (\<lambda>d.
            if attempt \<ge> maxR then moveToDeadLetterQueue now errorMessage d else ret (scheduleRetry now (At (now + 5000)) d)))))"

definition failed_text :: "string \<Rightarrow> int \<Rightarrow> int \<Rightarrow> string \<Rightarrow> string" where
  "failed_text destinationId attempt maxR errorMessage =
     (if attempt \<ge> maxR
      then ''Delivery failed to destination '' @ destinationId @ '' after '' @ show_int attempt @ '' attempts. Permanent failure (DLQ). Error: '' @ errorMessage
      else ''Delivery attempt '' @ show_int attempt @ '' failed. Error: '' @ errorMessage)"

definition deliver_request :: "deliver_env \<Rightarrow> AiTaskResult \<Rightarrow> Destination \<Rightarrow> int \<Rightarrow> domain_error + post_request" where
  "deliver_request en t destination attempt =
     (let filters = nullish_or (ds_eventFilters destination) []
      in bindE (deliver_headers en t attempt filters) (\<lambda>headers.
           Inr \<lparr> pq_url = ds_endpoint destination, pq_payload = tr_resultPayload t, pq_headers = headers,
                 pq_timeout = timeout_ms (js_get filters ''timeoutMs'') \<rparr>))"

definition deliver_execute ::
  "'d log_client \<Rightarrow> deliver_env \<Rightarrow> ms \<Rightarrow> string \<Rightarrow> post_answer \<Rightarrow> string \<Rightarrow> string \<Rightarrow> int \<Rightarrow> int \<Rightarrow> 'd pipe \<Rightarrow> ('d pipe, service_error) eff" where
  "deliver_execute lc en now uuid answer taskResultId destinationId attempt maxR s =
     (case en_results en taskResultId of
        None \<Rightarrow> throw s (RequestError (''TaskResult with ID '' @ taskResultId @ '' not found''))
      | Some t \<Rightarrow>
     (case en_destinations en destinationId of
        None \<Rightarrow> throw s (RequestError (''Destination with ID '' @ destinationId @ '' not found''))
      | Some destination \<Rightarrow>
        if \<not> ds_enabled destination then ret s
        else if ds_type destination \<noteq> WEBHOOK
        then throw s (RequestError (''Unsupported destination type: '' @ lower (type_str (ds_type destination))))
        else (case deliver_request en t destination attempt of
          Inl e \<Rightarrow> throw s (DomainError e)
        | Inr request \<Rightarrow>
          (let s1 = s\<lparr> pi_posts := pi_posts s @ [request] \<rparr> in
           case attempt_delivery now uuid taskResultId destinationId attempt maxR answer of
             None \<Rightarrow> throw s1 (DomainError ValidationError)
           | Some (d, Some e) \<Rightarrow> throw s1 (DomainError e)
           | Some (d, None) \<Rightarrow>
               (case log_save lc now [] d (pi_db s1) of
                  (db, Inl e) \<Rightarrow> throw (s1\<lparr> pi_db := db \<rparr>) e
                | (db, Inr _) \<Rightarrow> (let s2 = s1\<lparr> pi_db := db \<rparr>; (success, _, errorMessage) = post_outcome answer in
                    if success then ret s2 else throw s2 (RequestError (failed_text destinationId attempt maxR errorMessage))))))))"

subsection \<open>The worker and its retries\<close>

text \<open>The processor of \<open>BullMQWorker\<close>: the attempt is one more than BullMQ has counted, the limit the job's.\<close>

definition bull_process ::
  "'d log_client \<Rightarrow> deliver_env \<Rightarrow> ms \<Rightarrow> string \<Rightarrow> post_answer \<Rightarrow> string \<Rightarrow> string \<Rightarrow> int \<Rightarrow> int option \<Rightarrow> 'd pipe \<Rightarrow> ('d pipe, service_error) eff" where
  "bull_process lc en now uuid answer taskResultId destinationId attemptsMade attempts s =
     deliver_execute lc en now uuid answer taskResultId destinationId (attemptsMade + 1) (nullish_or attempts 5) s"

text \<open>BullMQ runs a job that failed again until its processor has been called as often as \<open>attempts\<close> says. The list holds, for each call,
  the time, the id drawn and the answer of the endpoint; the verdict is whether the job completed.\<close>

fun run_job ::
  "'d log_client \<Rightarrow> deliver_env \<Rightarrow> string \<Rightarrow> string \<Rightarrow> int \<Rightarrow> (ms \<times> string \<times> post_answer) list \<Rightarrow> int \<Rightarrow> 'd pipe \<Rightarrow> 'd pipe \<times> bool" where
  "run_job lc en t w attempts [] made s = (s, False)"
| "run_job lc en t w attempts ((now, uuid, answer) # calls) made s =
     (if made \<ge> attempts then (s, False)
      else case bull_process lc en now uuid answer t w made (Some attempts) s of
        (s', None) \<Rightarrow> (s', True)
      | (s', Some e) \<Rightarrow> run_job lc en t w attempts calls (made + 1) s')"

subsection \<open>What an attempt does\<close>

definition post_ok :: "post_answer \<Rightarrow> bool" where
  "post_ok answer \<longleftrightarrow> fst (post_outcome answer)"

lemma post_outcome_message: "\<not> post_ok answer \<Longrightarrow> \<exists>st m. post_outcome answer = (False, st, m) \<and> m \<noteq> []"
  by (cases answer) (auto simp: post_ok_def post_outcome_def)

text \<open>The row of an attempt.\<close>

definition attempt_row_for :: "ms \<Rightarrow> string \<Rightarrow> string \<Rightarrow> string \<Rightarrow> DeliveryStatus \<Rightarrow> log_row" where
  "attempt_row_for now uuid t w st = \<lparr> lg_id = uuid, lg_taskResultId = t, lg_destinationId = w, lg_status = st, lg_retryCount = 1,
     lg_nextRetryAt = (if st = SCHEDULED_RETRY then Some (now + 5000) else None), lg_createdAt = now, lg_updatedAt = now, lg_deletedAt = None \<rparr>"

definition outcome_status :: "int \<Rightarrow> int \<Rightarrow> post_answer \<Rightarrow> DeliveryStatus" where
  "outcome_status attempt maxR answer = (if post_ok answer then COMPLETED else if attempt \<ge> maxR then FAILED_DLQ else SCHEDULED_RETRY)"

lemma attempt_delivery_row:
  assumes "uuid \<noteq> []" "t \<noteq> []" "w \<noteq> []"
  obtains d where "attempt_delivery now uuid t w attempt maxR answer = Some (d, None)" "dl_id d = uuid"
    "saved_row now d = attempt_row_for now uuid t w (outcome_status attempt maxR answer)"
proof -
  define d where "d = \<lparr> dl_id = uuid, dl_taskResultId = t, dl_destinationId = w, dl_status = outcome_status attempt maxR answer, dl_retryCount = 1,
     dl_nextRetryAt = (if outcome_status attempt maxR answer = SCHEDULED_RETRY then Some (now + 5000) else None), dl_lastAttemptAt = Some now,
     dl_lastError = (if post_ok answer then None else Some \<lparr> de_category = parse_category ''UNKNOWN'', de_message = snd (snd (post_outcome answer)),
       de_statusCode = None, de_deliveryId = None \<rparr>),
     dl_completedAt = (if post_ok answer then Some (fst (snd (post_outcome answer))) else None), dl_createdAt = now,
     dl_updatedAt = (if post_ok answer then fst (snd (post_outcome answer)) else now), dl_attempts = [], dl_deletedAt = None \<rparr>"
  have "attempt_delivery now uuid t w attempt maxR answer = Some (d, None)"
  proof (cases "post_ok answer")
    case True
    then obtain st m where o: "post_outcome answer = (True, st, m)" by (cases "post_outcome answer") (auto simp: post_ok_def)
    then show ?thesis using assms True by (simp add: d_def attempt_delivery_def Delivery_restore_def restore_status_def Delivery_new_def
        DeliveryStatusVO_new_def nullish_or_def markAsProcessing_def incrementRetryCount_def markAsCompleted_def
        outcome_status_def upper_char_def ret_def throw_def andThen_def Let_def)
  next
    case False
    then obtain st m where o: "post_outcome answer = (False, st, m)" "m \<noteq> []" using post_outcome_message by blast
    then show ?thesis using assms False by (simp add: d_def attempt_delivery_def Delivery_restore_def restore_status_def Delivery_new_def
        DeliveryStatusVO_new_def nullish_or_def markAsProcessing_def incrementRetryCount_def markFailed_def errObj_of_def DeliveryError_new_def
        str_or_def moveToDeadLetterQueue_def scheduleRetry_def outcome_status_def upper_char_def ret_def throw_def andThen_def Let_def)
  qed
  then show thesis by (rule that) (simp_all add: d_def saved_row_def attempt_row_for_def)
qed

text \<open>The result and an enabled webhook destination exist, and the secret, if there is one, is a text.\<close>

definition can_post :: "deliver_env \<Rightarrow> string \<Rightarrow> string \<Rightarrow> bool" where
  "can_post en t w \<longleftrightarrow> (case en_results en t of None \<Rightarrow> False | Some r \<Rightarrow>
     (case en_destinations en w of None \<Rightarrow> False | Some d \<Rightarrow> ds_enabled d \<and> ds_type d = WEBHOOK \<and>
       (let secret = js_get (nullish_or (ds_eventFilters d) []) ''hmacSecret'' in
        val_truthy secret \<longrightarrow> (case secret of js_val.VStr s \<Rightarrow> True | _ \<Rightarrow> False))))"

lemma deliver_headers_ok:
  assumes "val_truthy (js_get fs ''hmacSecret'') \<longrightarrow> (\<exists>k. js_get fs ''hmacSecret'' = js_val.VStr k)"
  shows "\<exists>h. deliver_headers en r attempt fs = Inr h"
  using assms by (cases "val_truthy (js_get fs ''hmacSecret'')") (auto simp: deliver_headers_def Let_def)

lemma can_post_request:
  assumes "can_post en t w"
  obtains r d q where "en_results en t = Some r" "en_destinations en w = Some d" "ds_enabled d" "ds_type d = WEBHOOK"
    "deliver_request en r d attempt = Inr q"
proof -
  obtain r d where rd: "en_results en t = Some r" "en_destinations en w = Some d" "ds_enabled d" "ds_type d = WEBHOOK"
    "val_truthy (js_get (nullish_or (ds_eventFilters d) []) ''hmacSecret'') \<longrightarrow>
       (\<exists>k. js_get (nullish_or (ds_eventFilters d) []) ''hmacSecret'' = js_val.VStr k)"
    using assms by (auto simp: can_post_def Let_def split: option.splits js_val.splits)
  obtain h where "deliver_headers en r attempt (nullish_or (ds_eventFilters d) []) = Inr h" using deliver_headers_ok [OF rd(5)] by blast
  then have "\<exists>q. deliver_request en r d attempt = Inr q" by (simp add: deliver_request_def Let_def)
  then show thesis using rd(1-4) that by blast
qed

lemma log_law_new:
  "log_laws lc \<Longrightarrow> \<forall>x \<in> set (lc_rows lc d). lg_id x \<noteq> i \<Longrightarrow>
     lc_upsert lc i f r d = None \<longleftrightarrow> (\<exists>x \<in> set (lc_rows lc d). same_pair x r) \<or> \<not> lc_refs lc d (lg_taskResultId r) (lg_destinationId r)"
  by (simp add: log_laws_def)

lemma log_law_rows:
  assumes "log_laws lc" "lc_upsert lc i f r d = Some d'" "\<forall>x \<in> set (lc_rows lc d). lg_id x \<noteq> i"
  shows "lc_rows lc d' = lc_rows lc d @ [r]"
  using assms by (auto simp: log_laws_def)

definition has_pair :: "'d log_client \<Rightarrow> string \<Rightarrow> string \<Rightarrow> 'd \<Rightarrow> bool" where
  "has_pair lc t w d \<longleftrightarrow> (\<exists>x \<in> set (lc_rows lc d). lg_taskResultId x = t \<and> lg_destinationId x = w)"

definition unused_id :: "'d log_client \<Rightarrow> 'd \<Rightarrow> string \<Rightarrow> bool" where
  "unused_id lc d i \<longleftrightarrow> i \<noteq> [] \<and> (\<forall>x \<in> set (lc_rows lc d). lg_id x \<noteq> i)"

lemma has_pair_row: "has_pair lc t w d \<longleftrightarrow> (\<exists>x \<in> set (lc_rows lc d). same_pair x (attempt_row_for now uuid t w st))"
  by (auto simp: has_pair_def same_pair_def attempt_row_for_def)

lemma log_refuses:
  "log_laws lc \<Longrightarrow> has_pair lc t w d \<Longrightarrow> unused_id lc d uuid \<Longrightarrow> lc_upsert lc uuid f (attempt_row_for now uuid t w st) d = None"
  using log_law_new [of lc d uuid f "attempt_row_for now uuid t w st"] has_pair_row [of lc t w d now uuid st] unfolding unused_id_def by blast

lemma execute_known_pair:
  assumes "log_laws lc" "can_post en t w" "t \<noteq> []" "w \<noteq> []" "has_pair lc t w (pi_db s)" "unused_id lc (pi_db s) uuid"
  obtains q e where "deliver_execute lc en now uuid answer t w attempt maxR s = (s\<lparr> pi_posts := pi_posts s @ [q] \<rparr>, Some e)"
proof -
  obtain r d q where q: "en_results en t = Some r" "en_destinations en w = Some d" "ds_enabled d" "ds_type d = WEBHOOK"
    "deliver_request en r d attempt = Inr q" using can_post_request [OF assms(2)] by blast
  obtain l where l: "attempt_delivery now uuid t w attempt maxR answer = Some (l, None)" "dl_id l = uuid"
    "saved_row now l = attempt_row_for now uuid t w (outcome_status attempt maxR answer)"
    using attempt_delivery_row assms(3,4,6) unfolding unused_id_def by metis
  have "lc_upsert lc uuid f (saved_row now l) (pi_db s) = None" for f
    using log_refuses [OF assms(1,5,6)] by (simp only: l(3))
  then show thesis by (intro that) (simp add: deliver_execute_def q l log_save_def throw_def)
qed

lemma execute_new_pair:
  assumes "log_laws lc" "can_post en t w" "t \<noteq> []" "w \<noteq> []" "\<not> has_pair lc t w (pi_db s)" "unused_id lc (pi_db s) uuid"
    "lc_refs lc (pi_db s) t w"
  obtains q db where
    "fst (deliver_execute lc en now uuid answer t w attempt maxR s) = s\<lparr> pi_posts := pi_posts s @ [q], pi_db := db \<rparr>"
    "snd (deliver_execute lc en now uuid answer t w attempt maxR s) = None \<longleftrightarrow> post_ok answer"
    "lc_rows lc db = lc_rows lc (pi_db s) @ [attempt_row_for now uuid t w (outcome_status attempt maxR answer)]"
proof -
  obtain r d q where q: "en_results en t = Some r" "en_destinations en w = Some d" "ds_enabled d" "ds_type d = WEBHOOK"
    "deliver_request en r d attempt = Inr q" using can_post_request [OF assms(2)] by blast
  let ?row = "attempt_row_for now uuid t w (outcome_status attempt maxR answer)"
  obtain l where l: "attempt_delivery now uuid t w attempt maxR answer = Some (l, None)" "dl_id l = uuid" "saved_row now l = ?row"
    using attempt_delivery_row assms(3,4,6) unfolding unused_id_def by metis
  have fresh: "\<forall>x \<in> set (lc_rows lc (pi_db s)). lg_id x \<noteq> uuid" using assms(6) by (simp add: unused_id_def)
  let ?f = "\<lambda>x. x\<lparr> lg_status := dl_status l, lg_retryCount := dl_retryCount l, lg_nextRetryAt := dl_nextRetryAt l, lg_updatedAt := now \<rparr>"
  have "lc_upsert lc uuid ?f ?row (pi_db s) \<noteq> None"
    using assms(5,7) log_law_new [OF assms(1) fresh] has_pair_row [of lc t w "pi_db s"] by (simp add: attempt_row_for_def)
  then obtain db where db: "lc_upsert lc uuid ?f ?row (pi_db s) = Some db" by blast
  have rows: "lc_rows lc db = lc_rows lc (pi_db s) @ [?row]" by (rule log_law_rows [OF assms(1) db fresh])
  have found: "find (\<lambda>x. lg_id x = uuid) (lc_rows lc db) = Some ?row"
  proof -
    have "find (\<lambda>x. lg_id x = uuid) (xs @ [?row]) = Some ?row" if "\<forall>x \<in> set xs. lg_id x \<noteq> uuid" for xs
      using that by (induction xs) (simp_all add: attempt_row_for_def)
    then show ?thesis using fresh by (simp only: rows)
  qed
  have "good_row ?row" using assms(3,4,6) by (simp add: good_row_def attempt_row_for_def unused_id_def)
  then have "log_save lc now [] l (pi_db s) = (db, Inr (read_back ?row))"
    by (simp add: log_save_def l(2,3) db found log_toDomain_row)
  then have "deliver_execute lc en now uuid answer t w attempt maxR s = (let s2 = s\<lparr> pi_posts := pi_posts s @ [q], pi_db := db \<rparr> in
      if post_ok answer then ret s2 else throw s2 (RequestError (failed_text w attempt maxR (snd (snd (post_outcome answer))))))"
    by (simp add: deliver_execute_def q l Let_def post_ok_def split: prod.splits)
  then show thesis by (intro that [OF _ _ rows]) (simp_all add: Let_def split: if_splits)
qed

text \<open>Once the pair has a row, every further call of the job posts again and changes nothing.\<close>

lemma run_job_known_pair:
  assumes "log_laws lc" "can_post en t w" "t \<noteq> []" "w \<noteq> []" "has_pair lc t w (pi_db s)"
    "\<forall>(now, uuid, answer) \<in> set calls. unused_id lc (pi_db s) uuid" "made + int (length calls) = attempts"
  shows "\<exists>qs. length qs = length calls \<and> run_job lc en t w attempts calls made s = (s\<lparr> pi_posts := pi_posts s @ qs \<rparr>, False)"
  using assms(5-7)
proof (induction calls arbitrary: made s)
  case (Cons c calls)
  obtain now uuid answer where c: "c = (now, uuid, answer)" by (cases c)
  obtain q e where q: "deliver_execute lc en now uuid answer t w (made + 1) attempts s = (s\<lparr> pi_posts := pi_posts s @ [q] \<rparr>, Some e)"
    by (rule execute_known_pair [OF assms(1-4) Cons.prems(1)]) (use Cons.prems(2) c in auto)
  define s1 where "s1 = s\<lparr> pi_posts := pi_posts s @ [q] \<rparr>"
  have "has_pair lc t w (pi_db s1)" "\<forall>(now, uuid, answer) \<in> set calls. unused_id lc (pi_db s1) uuid" "made + 1 + int (length calls) = attempts"
    using Cons.prems by (simp_all add: s1_def)
  then obtain qs where qs: "length qs = length calls" "run_job lc en t w attempts calls (made + 1) s1 = (s1\<lparr> pi_posts := pi_posts s1 @ qs \<rparr>, False)"
    using Cons.IH [of s1 "made + 1"] by blast
  have "made < attempts" using Cons.prems(3) by simp
  then show ?case by (intro exI [of _ "q # qs"]) (simp add: c bull_process_def nullish_or_def q [folded s1_def] qs, simp add: s1_def)
qed simp

text \<open>C15: A job is recorded once, by its first call. If that call delivers, the job completes after one post. If it fails, the row says so, every
  retry posts the result again, whatever the endpoint answers, and the job fails: the row a retry would write is refused. A pair that has
  a row already, as ingestion creates it, is posted on every call and its row never changes.\<close>
theorem retries_are_never_recorded:
  assumes "log_laws lc" "can_post en t w" "t \<noteq> []" "w \<noteq> []" "attempts = 1 + int (length calls)"
    and ids: "\<forall>(now, uuid, answer) \<in> set ((now, uuid, answer) # calls). unused_id lc (pi_db s) uuid" "\<forall>(now', uuid', answer') \<in> set calls. uuid' \<noteq> uuid"
    and run_def: "run = run_job lc en t w attempts ((now, uuid, answer) # calls) 0 s"
  shows "(has_pair lc t w (pi_db s) \<longrightarrow>
      \<not> snd run \<and> pi_db (fst run) = pi_db s \<and> length (pi_posts (fst run)) = length (pi_posts s) + length calls + 1) \<and>
    (\<not> has_pair lc t w (pi_db s) \<and> lc_refs lc (pi_db s) t w \<longrightarrow>
      snd run = post_ok answer \<and>
      length (pi_posts (fst run)) = length (pi_posts s) + (if post_ok answer then 1 else length calls + 1) \<and>
      lc_rows lc (pi_db (fst run)) = lc_rows lc (pi_db s) @ [attempt_row_for now uuid t w (outcome_status 1 attempts answer)])"
proof (intro conjI impI)
  assume "has_pair lc t w (pi_db s)"
  from run_job_known_pair [OF assms(1-4) this ids(1), of 0 attempts] assms(5) run_def
  show "\<not> snd run" "pi_db (fst run) = pi_db s" "length (pi_posts (fst run)) = length (pi_posts s) + length calls + 1" by auto
next
  assume new: "\<not> has_pair lc t w (pi_db s) \<and> lc_refs lc (pi_db s) t w"
  have u: "unused_id lc (pi_db s) uuid" using ids(1) by simp
  obtain q db where first:
    "fst (deliver_execute lc en now uuid answer t w 1 attempts s) = s\<lparr> pi_posts := pi_posts s @ [q], pi_db := db \<rparr>"
    "snd (deliver_execute lc en now uuid answer t w 1 attempts s) = None \<longleftrightarrow> post_ok answer"
    "lc_rows lc db = lc_rows lc (pi_db s) @ [attempt_row_for now uuid t w (outcome_status 1 attempts answer)]"
    by (rule execute_new_pair [OF assms(1-4) conjunct1 [OF new] u conjunct2 [OF new]])
  define s1 where "s1 = s\<lparr> pi_posts := pi_posts s @ [q], pi_db := db \<rparr>"
  have db: "pi_db s1 = db" "pi_posts s1 = pi_posts s @ [q]" by (simp_all add: s1_def)
  obtain e where e: "deliver_execute lc en now uuid answer t w 1 attempts s = (s1, if post_ok answer then None else Some e)"
    using first(1,2) by (cases "deliver_execute lc en now uuid answer t w 1 attempts s") (auto simp: s1_def)
  have "0 < attempts" using assms(5) by simp
  then have run: "run = (if post_ok answer then (s1, True) else run_job lc en t w attempts calls 1 s1)"
    by (simp add: run_def bull_process_def nullish_or_def e)
  have known: "has_pair lc t w (pi_db s1)" by (simp add: has_pair_def db first(3) attempt_row_for_def)
  have "\<forall>(now', uuid', answer') \<in> set calls. unused_id lc (pi_db s1) uuid'"
    using ids by (auto simp: db unused_id_def first(3) attempt_row_for_def)
  from run_job_known_pair [OF assms(1-4) known this, of 1 attempts] assms(5)
  obtain qs where "length qs = length calls" "run_job lc en t w attempts calls 1 s1 = (s1\<lparr> pi_posts := pi_posts s1 @ qs \<rparr>, False)" by auto
  then show "snd run = post_ok answer"
    "length (pi_posts (fst run)) = length (pi_posts s) + (if post_ok answer then 1 else length calls + 1)"
    "lc_rows lc (pi_db (fst run)) = lc_rows lc (pi_db s) @ [attempt_row_for now uuid t w (outcome_status 1 attempts answer)]"
    by (simp_all add: run db first(3))
qed

text \<open>The table as a list of rows, with the pairs that may have one and the attempts written.\<close>

definition list_log :: "(log_row list \<times> (string \<times> string) set \<times> attempt_row list) log_client" where
  "list_log = \<lparr> lc_rows = fst, lc_refs = (\<lambda>d t w. (t, w) \<in> fst (snd d)),
     lc_upsert = (\<lambda>i f r (rows, refs, atts).
       if \<exists>x \<in> set rows. lg_id x = i then Some (map (\<lambda>x. if lg_id x = i then f x else x) rows, refs, atts)
       else if (\<exists>x \<in> set rows. same_pair x r) \<or> (lg_taskResultId r, lg_destinationId r) \<notin> refs then None
       else Some (rows @ [r], refs, atts)),
     lc_createAttempt = (\<lambda>a (rows, refs, atts). if \<exists>x \<in> set rows. lg_id x = ar_deliveryId a then Some (rows, refs, atts @ [a]) else None) \<rparr>"

lemma list_log_laws: "log_laws list_log"
  by (auto simp: log_laws_def list_log_def split: if_splits)

definition example_env :: deliver_env where
  "example_env = \<lparr> en_objects = (\<lambda>_. []), en_mac = (\<lambda>_ _ _. []), en_text = (\<lambda>_. ''{}''),
     en_results = (\<lambda>i. if i = ''t1'' then Some \<lparr> tr_id = ''t1'', tr_emailId = ''a@b.c'', tr_agentId = ''a'', tr_agentVersion = ''1.0.0'',
        tr_confidenceScore = 1, tr_resultPayload = js_val.VRef 0, tr_metadata = js_val.VRef 0, tr_createdAt = 0, tr_updatedAt = 0,
        tr_deletedAt = None, tr_events = 0 \<rparr> else None),
     en_destinations = (\<lambda>i. if i = ''w1'' then Some (example_destination\<lparr> ds_id := ''w1'', ds_type := WEBHOOK, ds_enabled := True, ds_eventFilters := None \<rparr>) else None) \<rparr>"

theorem retries_are_never_recorded_witness:
  "\<exists>run. run = run_job list_log example_env ''t1'' ''w1'' 2 [(10, ''u1'', PostStatus 503 4), (20, ''u2'', PostStatus 200 4)] 0
       \<lparr> pi_db = ([], {(''t1'', ''w1'')}, []), pi_posts = [] \<rparr> \<and>
     \<not> snd run \<and> length (pi_posts (fst run)) = 2 \<and> map lg_status (lc_rows list_log (pi_db (fst run))) = [SCHEDULED_RETRY]"
proof -
  have c: "can_post example_env ''t1'' ''w1''" by (simp add: can_post_def example_env_def js_get_def nullish_or_def val_truthy_def)
  show ?thesis
    using retries_are_never_recorded [OF list_log_laws c _ _ _ _ _ refl, of 2 "[(20, ''u2'', PostStatus 200 4)]" 10 "''u1''" "PostStatus 503 4"
        "\<lparr> pi_db = ([], {(''t1'', ''w1'')}, []), pi_posts = [] \<rparr>"]
    by (auto simp: list_log_def unused_id_def has_pair_def post_ok_def post_outcome_def outcome_status_def attempt_row_for_def)
qed

subsection \<open>Receiving a result\<close>

text \<open>\<open>BullMQService.enqueueDelivery\<close>: a job named after the pair, under an id of BullMQ's own.\<close>

definition enqueueDelivery :: "'q bull \<Rightarrow> string \<Rightarrow> string \<Rightarrow> int option \<Rightarrow> int option \<Rightarrow> 'q \<Rightarrow> 'q" where
  "enqueueDelivery bq t w attempt delayMs q =
     bq_add bq (t @ CHR '':'' # w) (VObj [(''taskResultId'', VStr t), (''destinationId'', VStr w), (''attempt'', VNum (nullish_or attempt 1))])
       None (nullish_or delayMs 0) q"

text \<open>The payload's fields: \<open>p.emailId || p.email_id || 'unknown@example.com'\<close>, and the first given number.\<close>

definition first_truthy :: "js_record \<Rightarrow> string \<Rightarrow> string \<Rightarrow> js_val \<Rightarrow> js_val" where
  "first_truthy p a b dflt = (if val_truthy (js_get p a) then js_get p a else if val_truthy (js_get p b) then js_get p b else dflt)"

definition nullish :: "js_val \<Rightarrow> bool" where
  "nullish v \<longleftrightarrow> v = js_val.VUndefined \<or> v = js_val.VNull"

definition value_number :: "js_val \<Rightarrow> js_num" where
  "value_number v = (case v of js_val.VUndefined \<Rightarrow> NotNum | js_val.VNull \<Rightarrow> Fin 0 | js_val.VBool b \<Rightarrow> Fin (if b then 1 else 0)
     | js_val.VNum x \<Rightarrow> Fin x | js_val.VNaN \<Rightarrow> NotNum | js_val.VStr s \<Rightarrow> js_Number s | js_val.VRef n \<Rightarrow> NotNum)"

definition received_score :: "js_record \<Rightarrow> js_num" where
  "received_score p = value_number (if \<not> nullish (js_get p ''confidenceScore'') then js_get p ''confidenceScore''
     else if \<not> nullish (js_get p ''confidence_score'') then js_get p ''confidence_score'' else js_val.VNum 1)"

definition val_arg :: "js_val \<Rightarrow> js_arg" where
  "val_arg v = (case v of js_val.VStr s \<Rightarrow> js_arg.JStr s | js_val.VUndefined \<Rightarrow> js_arg.JUndefined | js_val.VNull \<Rightarrow> js_arg.JNull | _ \<Rightarrow> js_arg.JObj None None)"

text \<open>The entity of a request: a number that is not finite is no score, and a version that is no text is refused by the table.\<close>

definition received_result :: "ms \<Rightarrow> string \<Rightarrow> nat \<Rightarrow> js_record \<Rightarrow> service_error + AiTaskResult" where
  "received_result now taskId ref p =
     (let version = first_truthy p ''agentVersion'' ''agent_version'' (js_val.VStr ''1.0.0'') in
      case AiTaskResult_restore now taskId (val_arg (first_truthy p ''emailId'' ''email_id'' (js_val.VStr ''unknown@example.com'')))
          (val_arg (first_truthy p ''agentId'' ''agent_id'' (js_val.VStr ''unknown-agent'')))
          (case version of js_val.VStr s \<Rightarrow> Some s | _ \<Rightarrow> None)
          (case received_score p of Fin x \<Rightarrow> SNum x | _ \<Rightarrow> SNothing)
          (first_truthy p ''resultPayload'' ''result_payload'' (js_val.VRef ref)) SNothing now (Some now) None of
        Inl e \<Rightarrow> Inl (DomainError e)
      | Inr t \<Rightarrow> (case version of js_val.VStr s \<Rightarrow> Inr t
          | _ \<Rightarrow> Inl (WorkerError (js_Error ''PrismaClientValidationError'' ''Invalid value for argument agentVersion''))))"

text \<open>The table of results is written by id; an existing row keeps its creation time. \<open>PrismaTaskResultRepository\<close> reads a row back without
  metadata.\<close>

definition result_saved :: "ms \<Rightarrow> AiTaskResult \<Rightarrow> AiTaskResult list \<Rightarrow> AiTaskResult list" where
  "result_saved now t rows =
     (let row = t\<lparr> tr_metadata := js_val.VRef 0, tr_updatedAt := now, tr_deletedAt := (if AiTaskResult_isDeleted t then Some now else None) \<rparr>
      in if \<exists>x \<in> set rows. tr_id x = tr_id t then map (\<lambda>x. if tr_id x = tr_id t then row\<lparr> tr_createdAt := tr_createdAt x \<rparr> else x) rows
         else rows @ [row])"

definition result_findById :: "string \<Rightarrow> AiTaskResult list \<Rightarrow> AiTaskResult option" where
  "result_findById i rows = find (\<lambda>x. tr_id x = i) rows"

definition destinations_active :: "Destination list \<Rightarrow> Destination list" where
  "destinations_active rows = filter (\<lambda>x. ds_enabled x \<and> ds_deletedAt x = None) rows"

definition destinations_all :: "Destination list \<Rightarrow> Destination list" where
  "destinations_all rows = filter (\<lambda>x. ds_deletedAt x = None) rows"

text \<open>The object the filters see: the result's three fields, overwritten by those of the payload.\<close>

definition match_criteria :: "(nat \<Rightarrow> js_record) \<Rightarrow> AiTaskResult \<Rightarrow> js_record" where
  "match_criteria objects t = spread objects (tr_resultPayload t) @
     [(''agentId'', js_val.VStr (tr_agentId t)), (''emailId'', js_val.VStr (tr_emailId t)), (''confidenceScore'', js_val.VNum (tr_confidenceScore t))]"

record 'q receive_state =
  rc_results :: "AiTaskResult list"
  rc_queue :: 'q

text \<open>\<open>enqueue\<close> is None when the queue cannot be reached; the deliveries enqueued before stay.\<close>

fun enqueue_all :: "(string \<Rightarrow> string \<Rightarrow> 'q \<Rightarrow> 'q option) \<Rightarrow> string \<Rightarrow> string list \<Rightarrow> 'q \<Rightarrow> 'q \<times> bool" where
  "enqueue_all enqueue t [] q = (q, True)"
| "enqueue_all enqueue t (w # ws) q = (case enqueue t w q of None \<Rightarrow> (q, False) | Some q' \<Rightarrow> enqueue_all enqueue t ws q')"

definition matched_ids :: "(nat \<Rightarrow> js_record) \<Rightarrow> AiTaskResult \<Rightarrow> Destination list \<Rightarrow> string list" where
  "matched_ids objects t ds = map ds_id (filter (\<lambda>x. matchesEventFilter x (match_criteria objects t)) (destinations_active ds))"

definition receive_execute ::
  "(string \<Rightarrow> string \<Rightarrow> 'q \<Rightarrow> 'q option) \<Rightarrow> (nat \<Rightarrow> js_record) \<Rightarrow> Destination list \<Rightarrow> ms \<Rightarrow> string \<Rightarrow> nat \<Rightarrow> 'q receive_state \<Rightarrow>
   'q receive_state \<times> (service_error + AiTaskResult)" where
  "receive_execute enqueue objects destinations now taskId payload s =
     (case result_findById taskId (rc_results s) of
        Some existing \<Rightarrow> (s, Inr existing)
      | None \<Rightarrow> (case received_result now taskId payload (objects payload) of
          Inl e \<Rightarrow> (s, Inl e)
        | Inr t \<Rightarrow>
            (let rows = result_saved now t (rc_results s); saved = t\<lparr> tr_metadata := js_val.VRef 0 \<rparr>;
                 (q, ok) = enqueue_all enqueue (tr_id saved) (matched_ids objects saved destinations) (rc_queue s);
                 s' = s\<lparr> rc_results := rows, rc_queue := q \<rparr>
             in (s', if ok then Inr saved else Inl (WorkerError (js_Error ''Error'' ''Connection is closed.''))))))"

text \<open>\<open>TaskResultController.ingest\<close>: the status of the response.\<close>

definition ingest_response_status :: "bool \<Rightarrow> bool \<Rightarrow> bool \<Rightarrow> (service_error + AiTaskResult) \<Rightarrow> int" where
  "ingest_response_status hasQueue hasTaskId hasPayload answer =
     (if \<not> hasQueue then 500 else if \<not> hasTaskId \<or> \<not> hasPayload then 400 else case answer of Inr _ \<Rightarrow> 202 | Inl _ \<Rightarrow> 500)"

lemma enqueue_all_bull:
  "enqueue_all (\<lambda>t w q. Some (enqueueDelivery bq t w (Some 1) None q)) t ws q = (fold (\<lambda>w. enqueueDelivery bq t w (Some 1) None) ws q, True)"
  by (induction ws arbitrary: q) simp_all

lemma received_id:
  assumes "received_result now taskId ref p = Inr t" "taskId \<noteq> []"
  shows "tr_id t = taskId" "tr_deletedAt t = None"
  using assms by (auto simp: received_result_def AiTaskResult_restore_def AiTaskResult_new_def str_or_def Let_def split: sum.splits js_val.splits)

text \<open>C16: A reception stores its result before it enqueues, and a second reception of the task only looks whether the result is stored: whatever
  the first one enqueued, all, part or nothing because the queue failed, the second enqueues nothing and answers with the
  stored result.\<close>
theorem reception_enqueues_at_most_once:
  assumes "taskId \<noteq> []" "result_findById taskId (rc_results s) = None"
    and first_def: "first = receive_execute enqueue objects ds now taskId payload s"
    and "received_result now taskId payload (objects payload) = Inr t"
  shows "rc_queue (fst first) = fst (enqueue_all enqueue taskId (matched_ids objects (t\<lparr> tr_metadata := js_val.VRef 0 \<rparr>) ds) (rc_queue s)) \<and>
    (\<exists>stored. result_findById taskId (rc_results (fst first)) = Some stored \<and>
       receive_execute enqueue' objects' ds' now' taskId payload' (fst first) = (fst first, Inr stored)) \<and>
    (okE (snd first) \<longleftrightarrow> snd (enqueue_all enqueue taskId (matched_ids objects (t\<lparr> tr_metadata := js_val.VRef 0 \<rparr>) ds) (rc_queue s)))"
proof -
  have t: "tr_id t = taskId" using received_id assms(1,4) by blast
  have none: "\<not> (\<exists>x \<in> set (rc_results s). tr_id x = taskId)" using assms(2) by (simp add: result_findById_def find_None_iff)
  obtain q ok where e: "enqueue_all enqueue taskId (matched_ids objects (t\<lparr> tr_metadata := js_val.VRef 0 \<rparr>) ds) (rc_queue s) = (q, ok)"
    by (meson surj_pair)
  have "\<exists>stored. result_findById taskId (result_saved now t (rc_results s)) = Some stored"
    using none t by (cases "result_findById taskId (result_saved now t (rc_results s))")
      (auto simp: result_findById_def result_saved_def find_None_iff Let_def)
  then obtain stored where stored: "result_findById taskId (result_saved now t (rc_results s)) = Some stored" by blast
  have "first = (s\<lparr> rc_results := result_saved now t (rc_results s), rc_queue := q \<rparr>,
      if ok then Inr (t\<lparr> tr_metadata := js_val.VRef 0 \<rparr>) else Inl (WorkerError (js_Error ''Error'' ''Connection is closed.'')))"
    by (simp add: first_def receive_execute_def assms(2,4) t e Let_def)
  then show ?thesis using stored by (simp add: e okE_def receive_execute_def [of enqueue'])
qed

theorem reception_enqueues_at_most_once_witness:
  "let first = receive_execute (\<lambda>t w q. None) (\<lambda>_. []) [example_destination] 5 ''t1'' 0 \<lparr> rc_results = [], rc_queue = [] \<rparr> in
     rc_queue (fst first) = ([] :: queued_job list) \<and>
     receive_execute (\<lambda>t w q. Some (enqueueDelivery list_bull t w (Some 1) None q)) (\<lambda>_. []) [example_destination] 9 ''t1'' 0 (fst first) =
       (fst first, Inr (the (result_findById ''t1'' (rc_results (fst first)))))"
proof -
  have "okE (received_result 5 ''t1'' 0 [])" by code_simp
  then obtain t where t: "received_result 5 ''t1'' 0 [] = Inr t" by (auto simp: okE_def split: sum.splits)
  have none: "fst (enqueue_all (\<lambda>t w q. None) i ws q) = q" for i ws and q :: "queued_job list" by (cases ws) simp_all
  show ?thesis
    using reception_enqueues_at_most_once [OF _ _ refl, of "''t1''" "\<lparr> rc_results = [], rc_queue = [] \<rparr>" 5 0 "\<lambda>_. []" t "\<lambda>t w q. None"
        "[example_destination]" "\<lambda>t w q. Some (enqueueDelivery list_bull t w (Some 1) None q)" "\<lambda>_. []" "[example_destination]" 9 0] t
    by (auto simp: result_findById_def none Let_def)
qed

subsection \<open>The HTTP client and its breakers\<close>

record http_response =
  hr_status :: int
  hr_durationMs :: int

datatype 'r settled = Resolved 'r | RejectedWith string

record breaker_options =
  bo_timeout :: int
  bo_errorThresholdPercentage :: int
  bo_resetTimeout :: int
  bo_volumeThreshold :: int

definition default_options :: breaker_options where
  "default_options = \<lparr> bo_timeout = 5000, bo_errorThresholdPercentage = 50, bo_resetTimeout = 10000, bo_volumeThreshold = 3 \<rparr>"

text \<open>opossum: \<open>fire\<close> with how the action would settle answers how the call settles and whether the action ran. It counts a call as failed when the
  action rejects or outlasts the timeout; an action that resolves in time never opens a breaker.\<close>

record 'b opossum =
  op_new :: "breaker_options \<Rightarrow> 'b"
  op_open :: "'b \<Rightarrow> ms \<Rightarrow> bool"
  op_fire :: "breaker_options \<Rightarrow> ms \<Rightarrow> http_response settled \<Rightarrow> 'b \<Rightarrow> 'b \<times> http_response settled \<times> bool"

definition opossum_laws :: "'b opossum \<Rightarrow> bool" where
  "opossum_laws op \<longleftrightarrow>
     (\<forall>opts now. \<not> op_open op (op_new op opts) now) \<and>
     (\<forall>opts now a b. op_open op b now \<longrightarrow> op_fire op opts now a b = (b, RejectedWith ''Breaker is open'', False)) \<and>
     (\<forall>opts now r b. \<not> op_open op b now \<and> hr_durationMs r < bo_timeout opts \<longrightarrow>
        (\<exists>b'. op_fire op opts now (Resolved r) b = (b', Resolved r, True) \<and> (\<forall>now'. \<not> op_open op b' now')))"

record 'b http_client =
  hc_options :: breaker_options
  hc_breakers :: "(string, 'b) js_map"

definition http_client_new :: "breaker_options option \<Rightarrow> 'b http_client" where
  "http_client_new opts = \<lparr> hc_options = nullish_or opts default_options, hc_breakers = [] \<rparr>"

definition breaker_key :: "(string \<Rightarrow> string option) \<Rightarrow> string \<Rightarrow> string" where
  "breaker_key url_host url = nullish_or (url_host url) url"

definition getBreaker :: "'b opossum \<Rightarrow> string \<Rightarrow> 'b http_client \<Rightarrow> 'b http_client" where
  "getBreaker op k c = (case mget (hc_breakers c) k of
     None \<Rightarrow> c\<lparr> hc_breakers := mset_at k (op_new op (hc_options c)) (hc_breakers c) \<rparr> | Some b \<Rightarrow> c)"

definition server_error_text :: "http_response \<Rightarrow> string" where
  "server_error_text r = ''Server error response: '' @ show_int (hr_status r)"

text \<open>A response of 500 or more is turned into an error after the breaker has seen the call resolve.\<close>

definition client_post :: "'b opossum \<Rightarrow> (string \<Rightarrow> string option) \<Rightarrow> ms \<Rightarrow> string \<Rightarrow> http_response settled \<Rightarrow> 'b http_client \<Rightarrow> 'b http_client \<times> post_answer \<times> bool" where
  "client_post op url_host now url answer c =
     (let k = breaker_key url_host url; c1 = getBreaker op k c;
          (b, res, ran) = op_fire op (hc_options c1) now answer (the (mget (hc_breakers c1) k));
          c2 = c1\<lparr> hc_breakers := mset_at k b (hc_breakers c1) \<rparr>
      in (c2, case res of
            Resolved r \<Rightarrow> (if hr_status r \<ge> 500 then PostThrew (server_error_text r) else PostStatus (hr_status r) (hr_durationMs r))
          | RejectedWith m \<Rightarrow> PostThrew m, ran))"

fun client_posts :: "'b opossum \<Rightarrow> (string \<Rightarrow> string option) \<Rightarrow> string \<Rightarrow> (ms \<times> http_response settled) list \<Rightarrow> 'b http_client \<Rightarrow> 'b http_client \<times> (post_answer \<times> bool) list" where
  "client_posts op url_host url [] c = (c, [])"
| "client_posts op url_host url ((now, answer) # rest) c =
     (let (c1, p) = client_post op url_host now url answer c; (c2, ps) = client_posts op url_host url rest c1 in (c2, p # ps))"

definition breaker_closed :: "'b opossum \<Rightarrow> (string \<Rightarrow> string option) \<Rightarrow> string \<Rightarrow> 'b http_client \<Rightarrow> bool" where
  "breaker_closed op url_host url c \<longleftrightarrow> (case mget (hc_breakers c) (breaker_key url_host url) of None \<Rightarrow> True | Some b \<Rightarrow> \<forall>now. \<not> op_open op b now)"

lemma client_post_resolved:
  assumes "opossum_laws op" "breaker_closed op url_host url c" "hr_durationMs r < bo_timeout (hc_options c)"
  shows "\<exists>c'. client_post op url_host now url (Resolved r) c =
      (c', if hr_status r \<ge> 500 then PostThrew (server_error_text r) else PostStatus (hr_status r) (hr_durationMs r), True) \<and>
    breaker_closed op url_host url c' \<and> hc_options c' = hc_options c"
proof -
  let ?k = "breaker_key url_host url" and ?c = "getBreaker op (breaker_key url_host url) c"
  obtain b where b: "mget (hc_breakers ?c) ?k = Some b" "\<not> op_open op b now"
    using assms(1,2) by (cases "mget (hc_breakers c) ?k") (auto simp: getBreaker_def breaker_closed_def opossum_laws_def)
  have opts: "hc_options ?c = hc_options c" by (simp add: getBreaker_def split: option.split)
  obtain b' where b': "op_fire op (hc_options c) now (Resolved r) b = (b', Resolved r, True)" "\<forall>now'. \<not> op_open op b' now'"
    using assms(1,3) b(2) unfolding opossum_laws_def by blast
  show ?thesis
    by (rule exI [of _ "?c\<lparr> hc_breakers := mset_at ?k b' (hc_breakers ?c) \<rparr>"])
      (simp add: client_post_def b(1) opts b'(1) breaker_closed_def b'(2) Let_def)
qed


text \<open>A breaker that counts calls and failures since it last closed.\<close>

definition count_opossum :: "(int \<times> int \<times> ms option) opossum" where
  "count_opossum = \<lparr> op_new = (\<lambda>opts. (0, 0, None)), op_open = (\<lambda>(n, f, until) now. case until of None \<Rightarrow> False | Some t \<Rightarrow> now < t),
     op_fire = (\<lambda>opts now answer (n, f, until).
       if (case until of None \<Rightarrow> False | Some t \<Rightarrow> now < t) then ((n, f, until), RejectedWith ''Breaker is open'', False)
       else (case answer of
           Resolved r \<Rightarrow> if hr_durationMs r < bo_timeout opts then ((n + 1, f, None), Resolved r, True)
             else ((n + 1, f + 1, Some (now + bo_resetTimeout opts)), RejectedWith ''Timed out'', True)
         | RejectedWith m \<Rightarrow> (let opens = n + 1 \<ge> bo_volumeThreshold opts \<and> 100 * (f + 1) > bo_errorThresholdPercentage opts * (n + 1)
             in ((n + 1, f + 1, if opens then Some (now + bo_resetTimeout opts) else None), RejectedWith m, True)))) \<rparr>"

lemma count_opossum_laws: "opossum_laws count_opossum"
  by (auto simp: opossum_laws_def count_opossum_def split: option.splits)


end
