(* ===== verification/QF_Sync.thy ===== *)
theory QF_Sync
  imports QF_Pipeline QF_Recovery
begin

text \<open>
  The application's services that bring queue and database together (\<open>application/services/sync-state.service.ts\<close>,
  \<open>rebuild-queue.service.ts\<close>), over the entities of a delivery repository and a queue service. Both are asked which methods they have: a
  method is None when it is missing, a call is None (or the left side) when it throws. \<open>log_repository\<close> is the program's repository over the
  delivery log, \<open>bull_service\<close> its queue service over BullMQ. Shown: one synchronisation settles the queue, a rebuild adds exactly the
  jobs of the rows that wait.
\<close>

subsection \<open>Repository and queue\<close>

record delivery_source =
  sr_findByStatus :: "(string \<Rightarrow> service_error + Delivery list) option"
  sr_findAll :: "(service_error + Delivery list) option"
  sr_findByTaskResultId :: "(string \<Rightarrow> service_error + Delivery list) option"

definition lift_domain :: "domain_error + 'a \<Rightarrow> service_error + 'a" where
  "lift_domain x = (case x of Inl e \<Rightarrow> Inl (DomainError e) | Inr a \<Rightarrow> Inr a)"

definition log_repository :: "'d log_client \<Rightarrow> ms \<Rightarrow> 'd \<Rightarrow> delivery_source" where
  "log_repository lc now d = \<lparr> sr_findByStatus = Some (\<lambda>s. log_findByStatus lc now s d), sr_findAll = Some (lift_domain (log_findAll lc now d)),
     sr_findByTaskResultId = Some (\<lambda>t. lift_domain (log_findByTaskResultId lc now t d)) \<rparr>"

record 'q queue_service =
  qs_getJobs :: "('q \<Rightarrow> queued_job list option) option"
  qs_enqueueDelivery :: "(string \<Rightarrow> string \<Rightarrow> int \<Rightarrow> int option \<Rightarrow> 'q \<Rightarrow> 'q option) option"
  qs_add :: "(string \<Rightarrow> jval \<Rightarrow> int option \<Rightarrow> 'q \<Rightarrow> 'q option) option"
  qs_remove :: "queued_job \<Rightarrow> 'q \<Rightarrow> 'q option"
  qs_clean :: "(string \<Rightarrow> 'q \<Rightarrow> 'q option) option"

text \<open>\<open>BullMQService\<close>; what \<open>clean\<close> of BullMQ removes is given.\<close>

definition bull_service :: "'q bull \<Rightarrow> (string \<Rightarrow> 'q \<Rightarrow> 'q option) \<Rightarrow> 'q queue_service" where
  "bull_service bq clean = \<lparr> qs_getJobs = Some (\<lambda>q. Some (bq_jobs bq q)),
     qs_enqueueDelivery = Some (\<lambda>t w a delay q. Some (enqueueDelivery bq t w (Some a) delay q)), qs_add = None,
     qs_remove = (\<lambda>j. bq_remove bq (qj_id j)), qs_clean = Some clean \<rparr>"

text \<open>\<open>findByStatus\<close>, or the rows of \<open>findAll\<close> in that status, or none.\<close>

definition deliveries_in :: "delivery_source \<Rightarrow> DeliveryStatus \<Rightarrow> service_error + Delivery list" where
  "deliveries_in sr st = (case sr_findByStatus sr of
       Some f \<Rightarrow> f (status_str st)
     | None \<Rightarrow> (case sr_findAll sr of Some answer \<Rightarrow> bindE answer (\<lambda>ds. Inr (filter (\<lambda>d. dl_status d = st) ds)) | None \<Rightarrow> Inr []))"

subsection \<open>SyncStateService\<close>

record SyncResult =
  sy_synced :: int
  sy_errors :: int
  sy_discrepancies :: int

definition job_field :: "queued_job \<Rightarrow> string \<Rightarrow> string option" where
  "job_field j k = (case object_get (qj_data j) k of Some (VStr s) \<Rightarrow> Some s | _ \<Rightarrow> None)"

definition job_pair_key :: "queued_job \<Rightarrow> string" where
  "job_pair_key j = (if str_or (job_field j ''taskResultId'') [] \<noteq> [] then the (job_field j ''taskResultId'')
     else nullish_or (job_field j ''deliveryId'') ''undefined'') @ CHR '':'' # nullish_or (job_field j ''destinationId'') []"

definition delivery_pair_key :: "Delivery \<Rightarrow> string" where
  "delivery_pair_key d = dl_taskResultId d @ CHR '':'' # dl_destinationId d"

definition requeue :: "'q queue_service \<Rightarrow> Delivery \<Rightarrow> int option \<Rightarrow> 'q \<Rightarrow> 'q option" where
  "requeue qs d delay q = (case qs_enqueueDelivery qs of
       Some f \<Rightarrow> f (dl_taskResultId d) (dl_destinationId d) (dl_retryCount d + 1) delay q
     | None \<Rightarrow> (case qs_add qs of Some f \<Rightarrow> f ''deliver-task-result'' (VObj [(''deliveryId'', VStr (dl_id d))]) delay q | None \<Rightarrow> Some q))"

definition sync_missing :: "'q queue_service \<Rightarrow> string set \<Rightarrow> Delivery \<Rightarrow> 'q \<times> SyncResult \<Rightarrow> 'q \<times> SyncResult" where
  "sync_missing qs keys d = (\<lambda>(q, r).
     if delivery_pair_key d \<in> keys then (q, r)
     else (let r = r\<lparr> sy_discrepancies := sy_discrepancies r + 1 \<rparr> in
       case requeue qs d None q of None \<Rightarrow> (q, r\<lparr> sy_errors := sy_errors r + 1 \<rparr>) | Some q' \<Rightarrow> (q', r\<lparr> sy_synced := sy_synced r + 1 \<rparr>)))"

definition terminal_kind :: "Delivery \<Rightarrow> bool" where
  "terminal_kind d \<longleftrightarrow> DeliveryStatusVO_kind (dl_status d) \<in> {''completed'', ''COMPLETED'', ''failed_dlq'', ''FAILED_DLQ''}"

text \<open>A job that names its pair is removed when the pair has no row or a terminal one; what throws on the way is ignored.\<close>

definition sync_orphan :: "'q queue_service \<Rightarrow> delivery_source \<Rightarrow> queued_job \<Rightarrow> 'q \<times> SyncResult \<Rightarrow> 'q \<times> SyncResult" where
  "sync_orphan qs sr j = (\<lambda>(q, r).
     let t = str_or (job_field j ''taskResultId'') []; w = str_or (job_field j ''destinationId'') [] in
     if t = [] \<or> w = [] then (q, r)
     else (case sr_findByTaskResultId sr of None \<Rightarrow> (q, r)
       | Some f \<Rightarrow> (case f t of Inl e \<Rightarrow> (q, r)
         | Inr ds \<Rightarrow> (case find (\<lambda>d. dl_destinationId d = w) ds of
               Some d \<Rightarrow> if \<not> terminal_kind d then (q, r) else (let r = r\<lparr> sy_discrepancies := sy_discrepancies r + 1 \<rparr> in
                 case qs_remove qs j q of None \<Rightarrow> (q, r) | Some q' \<Rightarrow> (q', r\<lparr> sy_synced := sy_synced r + 1 \<rparr>))
             | None \<Rightarrow> (let r = r\<lparr> sy_discrepancies := sy_discrepancies r + 1 \<rparr> in
                 case qs_remove qs j q of None \<Rightarrow> (q, r) | Some q' \<Rightarrow> (q', r\<lparr> sy_synced := sy_synced r + 1 \<rparr>))))))"

definition sync_zero :: SyncResult where
  "sync_zero = \<lparr> sy_synced = 0, sy_errors = 0, sy_discrepancies = 0 \<rparr>"

definition sync_state :: "'q queue_service \<Rightarrow> delivery_source \<Rightarrow> 'q \<Rightarrow> 'q \<times> (service_error + SyncResult)" where
  "sync_state qs sr q =
     (case deliveries_in sr PENDING of Inl e \<Rightarrow> (q, Inl e)
      | Inr pending \<Rightarrow> (case qs_getJobs qs of None \<Rightarrow> (q, Inr sync_zero)
        | Some getJobs \<Rightarrow> (case getJobs q of None \<Rightarrow> (q, Inl (WorkerError (js_Error ''Error'' ''Connection is closed.'')))
          | Some js \<Rightarrow>
              (let (q1, r1) = fold (sync_missing qs (set (map job_pair_key js))) pending (q, sync_zero);
                   (q2, r2) = fold (sync_orphan qs sr) js (q1, r1)
               in (q2, Inr r2)))))"

definition syncRedisWithDatabase :: "'q queue_service \<Rightarrow> delivery_source \<Rightarrow> 'q \<Rightarrow> 'q \<times> (service_error + SyncResult)" where
  "syncRedisWithDatabase qs sr q = sync_state qs sr q"

subsection \<open>RebuildQueueService\<close>

record RebuildResult =
  rb_main :: int
  rb_delayed :: int
  rb_dlq :: int

text \<open>The three calls of \<open>clean\<close>; the first that throws ends them.\<close>

fun clean_all :: "(string \<Rightarrow> 'q \<Rightarrow> 'q option) \<Rightarrow> string list \<Rightarrow> 'q \<Rightarrow> 'q" where
  "clean_all clean [] q = q"
| "clean_all clean (k # ks) q = (case clean k q of None \<Rightarrow> q | Some q' \<Rightarrow> clean_all clean ks q')"

fun requeue_all :: "'q queue_service \<Rightarrow> (Delivery \<Rightarrow> int option) \<Rightarrow> Delivery list \<Rightarrow> 'q \<Rightarrow> 'q \<times> bool" where
  "requeue_all qs delay [] q = (q, True)"
| "requeue_all qs delay (d # ds) q = (case requeue qs d (delay d) q of None \<Rightarrow> (q, False) | Some q' \<Rightarrow> requeue_all qs delay ds q')"

definition rebuild_delay :: "ms \<Rightarrow> Delivery \<Rightarrow> int" where
  "rebuild_delay now d = (case dl_nextRetryAt d of None \<Rightarrow> 5000 | Some t \<Rightarrow> max 0 (t - now))"

definition queue_lost :: "service_error + 'a" where
  "queue_lost = Inl (WorkerError (js_Error ''Error'' ''Connection is closed.''))"

definition rebuild :: "'q queue_service \<Rightarrow> delivery_source \<Rightarrow> ms \<Rightarrow> 'q \<Rightarrow> 'q \<times> (service_error + RebuildResult)" where
  "rebuild qs sr now q0 =
     (let q = (case qs_clean qs of None \<Rightarrow> q0 | Some clean \<Rightarrow> clean_all clean [''wait'', ''active'', ''delayed''] q0) in
      case deliveries_in sr PENDING of Inl e \<Rightarrow> (q, Inl e)
      | Inr pending \<Rightarrow> (case requeue_all qs (\<lambda>d. None) pending q of (q1, False) \<Rightarrow> (q1, queue_lost)
        | (q1, True) \<Rightarrow> (case deliveries_in sr SCHEDULED_RETRY of Inl e \<Rightarrow> (q1, Inl e)
          | Inr retrying \<Rightarrow> (case requeue_all qs (\<lambda>d. Some (rebuild_delay now d)) retrying q1 of (q2, False) \<Rightarrow> (q2, queue_lost)
            | (q2, True) \<Rightarrow> (case deliveries_in sr FAILED_DLQ of Inl e \<Rightarrow> (q2, Inl e)
              | Inr dead \<Rightarrow> (q2, Inr \<lparr> rb_main = int (length pending), rb_delayed = int (length retrying), rb_dlq = int (length dead) \<rparr>))))))"

subsection \<open>Lemmas on the queue and the log\<close>

lemma fold_add_distinct:
  assumes "bull_laws bq"
  shows "distinct (map qj_id (bq_jobs bq q)) \<Longrightarrow> distinct (map qj_id (bq_jobs bq (fold (\<lambda>r. bq_add bq (nm r) (dt r) None (dl r)) rs q)))"
proof (induction rs arbitrary: q)
  case (Cons r rs)
  obtain i where "\<forall>j \<in> set (bq_jobs bq q). qj_id j \<noteq> i" "bq_jobs bq (bq_add bq (nm r) (dt r) None (dl r) q) =
      bq_jobs bq q @ [\<lparr> qj_id = i, qj_name = nm r, qj_data = dt r, qj_delay = dl r \<rparr>]"
    by (rule bull_add_auto [OF assms])
  then have "distinct (map qj_id (bq_jobs bq (bq_add bq (nm r) (dt r) None (dl r) q)))" using Cons.prems by auto
  from Cons.IH [OF this] show ?case by simp
qed simp

definition delivery_data :: "Delivery \<Rightarrow> jval" where
  "delivery_data d = VObj [(''taskResultId'', VStr (dl_taskResultId d)), (''destinationId'', VStr (dl_destinationId d)), (''attempt'', VNum (dl_retryCount d + 1))]"

definition add_delivery :: "'q bull \<Rightarrow> (Delivery \<Rightarrow> int option) \<Rightarrow> Delivery \<Rightarrow> 'q \<Rightarrow> 'q" where
  "add_delivery bq delay d = bq_add bq (delivery_pair_key d) (delivery_data d) None (nullish_or (delay d) 0)"

lemma requeue_bull: "requeue (bull_service bq clean) d (delay d) q = Some (add_delivery bq delay d q)"
  by (simp add: requeue_def bull_service_def enqueueDelivery_def add_delivery_def delivery_pair_key_def delivery_data_def nullish_or_def)

lemma requeue_all_bull: "requeue_all (bull_service bq clean) delay ds q = (fold (add_delivery bq delay) ds q, True)"
  by (induction ds arbitrary: q) (simp_all add: requeue_bull)

lemma added_deliveries:
  assumes "bull_laws bq"
  obtains new where "bq_jobs bq (fold (add_delivery bq delay) ds q) = bq_jobs bq q @ new" "map qj_data new = map delivery_data ds"
    "distinct (map qj_id (bq_jobs bq q)) \<longrightarrow> distinct (map qj_id (bq_jobs bq q @ new))"
proof -
  obtain new where "bq_jobs bq (fold (\<lambda>d. bq_add bq (delivery_pair_key d) (delivery_data d) None (nullish_or (delay d) 0)) ds q) = bq_jobs bq q @ new"
    "map qj_data new = map delivery_data ds" by (rule fold_add_auto [OF assms])
  moreover have "add_delivery bq delay = (\<lambda>d. bq_add bq (delivery_pair_key d) (delivery_data d) None (nullish_or (delay d) 0))"
    by (simp add: fun_eq_iff add_delivery_def)
  ultimately show thesis using fold_add_distinct [OF assms, of q delivery_pair_key delivery_data "\<lambda>d. nullish_or (delay d) 0" ds] by (intro that) auto
qed

lemma sync_missing_bull:
  "fold (sync_missing (bull_service bq clean) keys) ds (q, r) =
     (let m = filter (\<lambda>d. delivery_pair_key d \<notin> keys) ds in (fold (add_delivery bq (\<lambda>d. None)) m q,
        r\<lparr> sy_synced := sy_synced r + int (length m), sy_discrepancies := sy_discrepancies r + int (length m) \<rparr>))"
  by (induction ds arbitrary: q r) (simp_all add: sync_missing_def requeue_bull [where delay = "\<lambda>d. None"] Let_def)

text \<open>The jobs the second step removes.\<close>

definition orphan :: "'d log_client \<Rightarrow> 'd \<Rightarrow> queued_job \<Rightarrow> bool" where
  "orphan lc d j \<longleftrightarrow> (let t = str_or (job_field j ''taskResultId'') []; w = str_or (job_field j ''destinationId'') [] in
     t \<noteq> [] \<and> w \<noteq> [] \<and> (case find (\<lambda>d. dl_destinationId d = w) (map read_back (filter (\<lambda>r. lg_taskResultId r = t) (lc_rows lc d))) of
        None \<Rightarrow> True | Some x \<Rightarrow> terminal_kind x))"

definition plain_log :: "'d log_client \<Rightarrow> 'd \<Rightarrow> bool" where
  "plain_log lc d \<longleftrightarrow> (\<forall>r \<in> set (lc_rows lc d). good_row r \<and> CHR '':'' \<notin> set (lg_taskResultId r) \<and> CHR '':'' \<notin> set (lg_destinationId r)) \<and>
     distinct (map (\<lambda>r. (lg_taskResultId r, lg_destinationId r)) (lc_rows lc d))"

lemma log_repository_deliveries:
  assumes "plain_log lc d"
  shows "deliveries_in (log_repository lc now d) st = Inr (map read_back (filter (\<lambda>r. lg_status r = st) (lc_rows lc d)))"
  using assms by (cases st) (simp_all add: deliveries_in_def log_repository_def log_findByStatus_def plain_log_def log_findBy_rows)

lemma sync_orphan_bull:
  assumes "plain_log lc d" "unlocked bq"
  shows "sync_orphan (bull_service bq clean) (log_repository lc now d) j (q, r) =
    (if orphan lc d j then (the (bq_remove bq (qj_id j) q), r\<lparr> sy_discrepancies := sy_discrepancies r + 1, sy_synced := sy_synced r + 1 \<rparr>) else (q, r))"
proof -
  obtain q' where "bq_remove bq (qj_id j) q = Some q'" using assms(2) by (auto simp: unlocked_def)
  then show ?thesis using assms(1)
    by (simp add: sync_orphan_def orphan_def log_repository_def log_findByTaskResultId_def lift_domain_def plain_log_def log_findBy_rows
        bull_service_def Let_def split: option.split)
qed

lemma sync_orphans_result:
  assumes "plain_log lc d" "unlocked bq" "bull_laws bq"
  shows "\<exists>q' r'. fold (sync_orphan (bull_service bq clean) (log_repository lc now d)) js (q, r) = (q', r') \<and>
    bq_jobs bq q' = filter (\<lambda>j. qj_id j \<notin> qj_id ` {j \<in> set js. orphan lc d j}) (bq_jobs bq q) \<and>
    ((\<forall>j \<in> set js. \<not> orphan lc d j) \<longrightarrow> q' = q \<and> r' = r)"
proof (induction js arbitrary: q r)
  case (Cons j js)
  show ?case
  proof (cases "orphan lc d j")
    case True
    obtain q1 where q1: "bq_remove bq (qj_id j) q = Some q1" using assms(2) by (auto simp: unlocked_def)
    obtain q' r' where IH: "fold (sync_orphan (bull_service bq clean) (log_repository lc now d)) js
        (q1, r\<lparr> sy_discrepancies := sy_discrepancies r + 1, sy_synced := sy_synced r + 1 \<rparr>) = (q', r')"
      "bq_jobs bq q' = filter (\<lambda>j. qj_id j \<notin> qj_id ` {j \<in> set js. orphan lc d j}) (bq_jobs bq q1)" using Cons.IH by blast
    show ?thesis
      by (intro exI [of _ q'] exI [of _ r']) (use True IH bull_remove [OF assms(3) q1] in
          \<open>auto simp: sync_orphan_bull [OF assms(1,2)] q1 filter_filter intro!: filter_cong\<close>)
  next
    case False
    obtain q' r' where "fold (sync_orphan (bull_service bq clean) (log_repository lc now d)) js (q, r) = (q', r')"
      "bq_jobs bq q' = filter (\<lambda>j. qj_id j \<notin> qj_id ` {j \<in> set js. orphan lc d j}) (bq_jobs bq q)"
      "(\<forall>j \<in> set js. \<not> orphan lc d j) \<longrightarrow> q' = q \<and> r' = r" using Cons.IH by blast
    then show ?thesis
      by (intro exI [of _ q'] exI [of _ r']) (use False in \<open>auto simp: sync_orphan_bull [OF assms(1,2)] intro!: filter_cong\<close>)
  qed
qed simp

lemma found_in: "find P xs = Some x \<Longrightarrow> x \<in> set xs \<and> P x"
  by (auto simp: find_Some_iff)

lemma pair_text_inject:
  "c \<notin> set a \<Longrightarrow> c \<notin> set b \<Longrightarrow> x @ c # y = a @ c # b \<Longrightarrow> x = a \<and> y = b"
  by (auto simp: append_eq_append_conv2 append_eq_Cons_conv Cons_eq_append_conv)

lemma terminal_read_back: "terminal_kind (read_back r) \<longleftrightarrow> lg_status r = COMPLETED \<or> lg_status r = FAILED_DLQ"
  by (cases "lg_status r") (simp_all add: terminal_kind_def read_back_def DeliveryStatusVO_kind_def lower_status_text del: lower_simps)

lemma find_pair_row:
  assumes "plain_log lc d" "r \<in> set (lc_rows lc d)" "lg_taskResultId r = t" "lg_destinationId r = w"
  shows "find (\<lambda>d. dl_destinationId d = w) (map read_back (filter (\<lambda>r. lg_taskResultId r = t) (lc_rows lc d))) = Some (read_back r)"
proof -
  let ?f = "find (\<lambda>d. dl_destinationId d = w) (map read_back (filter (\<lambda>r. lg_taskResultId r = t) (lc_rows lc d)))"
  have "?f \<noteq> None" using assms(2-4) by (auto simp: find_None_iff read_back_def)
  then obtain x where x: "?f = Some x" by blast
  then obtain r' where r': "r' \<in> set (lc_rows lc d)" "lg_taskResultId r' = t" "x = read_back r'" "lg_destinationId r' = w"
    using found_in [OF x] by (auto simp: read_back_def)
  have "inj_on (\<lambda>r. (lg_taskResultId r, lg_destinationId r)) (set (lc_rows lc d))" using assms(1) by (simp add: plain_log_def distinct_map)
  then have "r' = r" using assms(2-4) r' by (auto dest: inj_onD)
  then show ?thesis using x r'(3) by simp
qed

lemma waiting_job_kept:
  assumes "plain_log lc d" "r \<in> set (lc_rows lc d)" "lg_status r = PENDING" "job_pair_key j = delivery_pair_key (read_back r)"
  shows "\<not> orphan lc d j"
proof
  assume o: "orphan lc d j"
  define t where "t = str_or (job_field j ''taskResultId'') []"
  define w where "w = str_or (job_field j ''destinationId'') []"
  have ne: "t \<noteq> []" "w \<noteq> []" using o by (simp_all add: orphan_def t_def w_def Let_def)
  then have "job_pair_key j = t @ CHR '':'' # w"
    by (auto simp: job_pair_key_def t_def w_def str_or_def nullish_or_def split: option.splits if_splits)
  then have "t @ CHR '':'' # w = lg_taskResultId r @ CHR '':'' # lg_destinationId r"
    using assms(4) by (simp add: delivery_pair_key_def read_back_def)
  then have eq: "t = lg_taskResultId r" "w = lg_destinationId r" using assms(1,2) pair_text_inject unfolding plain_log_def by metis+
  have "find (\<lambda>d. dl_destinationId d = w) (map read_back (filter (\<lambda>r. lg_taskResultId r = t) (lc_rows lc d))) = Some (read_back r)"
    using find_pair_row [OF assms(1,2)] eq by simp
  then show False using o assms(3) by (simp add: orphan_def t_def [symmetric] w_def [symmetric] terminal_read_back Let_def)
qed

lemma job_of_delivery:
  "qj_data j = delivery_data x \<Longrightarrow> dl_taskResultId x \<noteq> [] \<Longrightarrow> job_pair_key j = delivery_pair_key x"
  by (simp add: job_pair_key_def job_field_def object_get_def delivery_data_def delivery_pair_key_def mget_def str_or_def nullish_or_def)

lemma sync_state_bull:
  assumes "plain_log lc d"
  shows "sync_state (bull_service bq clean) (log_repository lc now d) q =
    (let js = bq_jobs bq q; m = filter (\<lambda>x. delivery_pair_key x \<notin> set (map job_pair_key js)) (map read_back (filter (\<lambda>r. lg_status r = PENDING) (lc_rows lc d)));
         (q2, r2) = fold (sync_orphan (bull_service bq clean) (log_repository lc now d)) js (fold (add_delivery bq (\<lambda>d. None)) m q,
            sync_zero\<lparr> sy_synced := sy_synced sync_zero + int (length m), sy_discrepancies := sy_discrepancies sync_zero + int (length m) \<rparr>) in (q2, Inr r2))"
proof -
  have "qs_getJobs (bull_service bq clean) = Some (\<lambda>q. Some (bq_jobs bq q))" by (simp add: bull_service_def)
  then show ?thesis by (simp add: sync_state_def log_repository_deliveries [OF assms] sync_missing_bull Let_def)
qed

text \<open>The jobs after a synchronisation: those before and the new ones, each for a PENDING row whose key no job had, less the orphans.\<close>

lemma sync_state_jobs:
  assumes "bull_laws bq" "unlocked bq" "plain_log lc d" "distinct (map qj_id (bq_jobs bq q))"
  obtains new where
    "bq_jobs bq (fst (sync_state (bull_service bq clean) (log_repository lc now d) q)) = filter (\<lambda>j. \<not> orphan lc d j) (bq_jobs bq q) @ new"
    "\<forall>j \<in> set new. \<exists>r \<in> set (lc_rows lc d). lg_status r = PENDING \<and> job_pair_key j = delivery_pair_key (read_back r)"
    "\<forall>r \<in> set (lc_rows lc d). lg_status r = PENDING \<longrightarrow> (\<exists>j \<in> set (bq_jobs bq q @ new). job_pair_key j = delivery_pair_key (read_back r))"
proof -
  let ?qs = "bull_service bq clean" and ?sr = "log_repository lc now d" and ?js = "bq_jobs bq q"
  define m where "m = filter (\<lambda>x. delivery_pair_key x \<notin> set (map job_pair_key ?js)) (map read_back (filter (\<lambda>r. lg_status r = PENDING) (lc_rows lc d)))"
  define r1 where "r1 = sync_zero\<lparr> sy_synced := sy_synced sync_zero + int (length m), sy_discrepancies := sy_discrepancies sync_zero + int (length m) \<rparr>"
  obtain new where new: "bq_jobs bq (fold (add_delivery bq (\<lambda>d. None)) m q) = ?js @ new" "map qj_data new = map delivery_data m"
    "distinct (map qj_id (?js @ new))" using added_deliveries [OF assms(1), of "\<lambda>d. None" m q] assms(4) by blast
  obtain q2 r2 where q2: "fold (sync_orphan ?qs ?sr) ?js (fold (add_delivery bq (\<lambda>d. None)) m q, r1) = (q2, r2)"
    "bq_jobs bq q2 = filter (\<lambda>j. qj_id j \<notin> qj_id ` {j \<in> set ?js. orphan lc d j}) (bq_jobs bq (fold (add_delivery bq (\<lambda>d. None)) m q))"
    using sync_orphans_result [OF assms(3,2,1)] by blast
  have "fst (sync_state ?qs ?sr q) = q2" by (simp only: sync_state_bull [OF assms(3)] Let_def m_def [symmetric] r1_def [symmetric] q2(1) prod.case fst_conv)
  moreover have "filter (\<lambda>j. qj_id j \<notin> qj_id ` {j \<in> set ?js. orphan lc d j}) (?js @ new) = filter (\<lambda>j. \<not> orphan lc d j) ?js @ new"
  proof -
    have "filter (\<lambda>j. qj_id j \<notin> qj_id ` {j \<in> set ?js. orphan lc d j}) ?js = filter (\<lambda>j. \<not> orphan lc d j) ?js"
      by (rule filter_cong [OF refl]) (use new(3) in \<open>auto simp: distinct_map dest: inj_onD\<close>)
    moreover have "filter (\<lambda>j. qj_id j \<notin> qj_id ` {j \<in> set ?js. orphan lc d j}) new = new"
      by (rule filter_True) (use new(3) in auto)
    ultimately show ?thesis by (simp only: filter_append)
  qed
  ultimately have jobs: "bq_jobs bq (fst (sync_state ?qs ?sr q)) = filter (\<lambda>j. \<not> orphan lc d j) ?js @ new" by (simp only: q2(2) new(1))
  have key: "job_pair_key j = delivery_pair_key (read_back r)" if "r \<in> set (lc_rows lc d)" "qj_data j = delivery_data (read_back r)" for j r
    using assms(3) that by (intro job_of_delivery) (auto simp: plain_log_def good_row_def read_back_def)
  have "delivery_data ` set m = qj_data ` set new" by (metis new(2) set_map)
  then have data: "\<exists>x \<in> set m. qj_data j = delivery_data x" if "j \<in> set new" for j using that by (metis imageE imageI)
  have made: "\<exists>j \<in> set new. qj_data j = delivery_data x" if "x \<in> set m" for x
    using that \<open>delivery_data ` set m = qj_data ` set new\<close> by (metis imageE imageI)
  show thesis
  proof (rule that [OF jobs])
    show "\<forall>j \<in> set new. \<exists>r \<in> set (lc_rows lc d). lg_status r = PENDING \<and> job_pair_key j = delivery_pair_key (read_back r)"
    proof
      fix j assume "j \<in> set new"
      then obtain x where x: "x \<in> set m" "qj_data j = delivery_data x" using data by blast
      then obtain r where "r \<in> set (lc_rows lc d)" "lg_status r = PENDING" "x = read_back r" by (auto simp: m_def)
      then show "\<exists>r \<in> set (lc_rows lc d). lg_status r = PENDING \<and> job_pair_key j = delivery_pair_key (read_back r)" using key x(2) by blast
    qed
    show "\<forall>r \<in> set (lc_rows lc d). lg_status r = PENDING \<longrightarrow> (\<exists>j \<in> set (?js @ new). job_pair_key j = delivery_pair_key (read_back r))"
    proof (intro ballI impI)
      fix r assume r: "r \<in> set (lc_rows lc d)" "lg_status r = PENDING"
      show "\<exists>j \<in> set (?js @ new). job_pair_key j = delivery_pair_key (read_back r)"
      proof (cases "delivery_pair_key (read_back r) \<in> set (map job_pair_key ?js)")
        case False
        then have "read_back r \<in> set m" using r by (simp add: m_def)
        then show ?thesis using made key [OF r(1)] by fastforce
      qed auto
    qed
  qed
qed

text \<open>One synchronisation leaves a job for every PENDING delivery and no job that names a pair without a delivery to make: those of deliveries that
  are gone, COMPLETED or FAILED_DLQ are removed. The next one finds nothing to do.\<close>
theorem application_sync_settles:
  assumes "bull_laws bq" "unlocked bq" "plain_log lc d" "distinct (map qj_id (bq_jobs bq q))"
    and q'_def: "q' = fst (sync_state (bull_service bq clean) (log_repository lc now d) q)"
  shows "(\<forall>r \<in> set (lc_rows lc d). lg_status r = PENDING \<longrightarrow>
        (\<exists>j \<in> set (bq_jobs bq q'). job_pair_key j = lg_taskResultId r @ CHR '':'' # lg_destinationId r)) \<and>
    (\<forall>j \<in> set (bq_jobs bq q'). \<forall>t w. job_field j ''taskResultId'' = Some t \<and> job_field j ''destinationId'' = Some w \<and> t \<noteq> [] \<and> w \<noteq> [] \<longrightarrow>
        (\<exists>r \<in> set (lc_rows lc d). lg_taskResultId r = t \<and> lg_destinationId r = w \<and> lg_status r \<noteq> COMPLETED \<and> lg_status r \<noteq> FAILED_DLQ)) \<and>
    sync_state (bull_service bq clean) (log_repository lc now d) q' = (q', Inr sync_zero)"
proof -
  let ?qs = "bull_service bq clean" and ?sr = "log_repository lc now d" and ?js = "bq_jobs bq q"
  obtain new where jobs: "bq_jobs bq q' = filter (\<lambda>j. \<not> orphan lc d j) ?js @ new"
    and new: "\<forall>j \<in> set new. \<exists>r \<in> set (lc_rows lc d). lg_status r = PENDING \<and> job_pair_key j = delivery_pair_key (read_back r)"
    and have_key: "\<forall>r \<in> set (lc_rows lc d). lg_status r = PENDING \<longrightarrow> (\<exists>j \<in> set (?js @ new). job_pair_key j = delivery_pair_key (read_back r))"
    unfolding q'_def by (rule sync_state_jobs [OF assms(1-4)])
  have clean: "\<not> orphan lc d j" if "j \<in> set (bq_jobs bq q')" for j
    using that new waiting_job_kept [OF assms(3)] by (auto simp: jobs)
  have waiting: "\<exists>j \<in> set (bq_jobs bq q'). job_pair_key j = delivery_pair_key (read_back r)" if r: "r \<in> set (lc_rows lc d)" "lg_status r = PENDING" for r
  proof -
    obtain j where j: "j \<in> set (?js @ new)" "job_pair_key j = delivery_pair_key (read_back r)" using have_key r by blast
    then show ?thesis using waiting_job_kept [OF assms(3) r j(2)] by (auto simp: jobs)
  qed
  have none: "filter (\<lambda>x. delivery_pair_key x \<notin> set (map job_pair_key (bq_jobs bq q')))
      (map read_back (filter (\<lambda>r. lg_status r = PENDING) (lc_rows lc d))) = []"
    using waiting by (force simp: filter_empty_conv image_iff)
  have unchanged: "sync_zero\<lparr> sy_synced := sy_synced sync_zero + int 0, sy_discrepancies := sy_discrepancies sync_zero + int 0 \<rparr> = sync_zero"
    by simp
  have "fold (sync_orphan ?qs ?sr) (bq_jobs bq q') (q', sync_zero) = (q', sync_zero)"
    using sync_orphans_result [OF assms(3,2,1), of clean now "bq_jobs bq q'" q' sync_zero] clean by auto
  then have "sync_state ?qs ?sr q' = (q', Inr sync_zero)" 
    by (simp only: sync_state_bull [OF assms(3)] none Let_def fold_simps list.size unchanged prod.case)
  moreover have "\<exists>r \<in> set (lc_rows lc d). lg_taskResultId r = t \<and> lg_destinationId r = w \<and> lg_status r \<noteq> COMPLETED \<and> lg_status r \<noteq> FAILED_DLQ"
    if j: "j \<in> set (bq_jobs bq q')" "job_field j ''taskResultId'' = Some t \<and> job_field j ''destinationId'' = Some w \<and> t \<noteq> [] \<and> w \<noteq> []" for j t w
  proof -
    obtain x where x: "find (\<lambda>d. dl_destinationId d = w) (map read_back (filter (\<lambda>r. lg_taskResultId r = t) (lc_rows lc d))) = Some x" "\<not> terminal_kind x"
      using clean [OF j(1)] j(2) by (auto simp: orphan_def str_or_def Let_def split: option.splits)
    have "x \<in> set (map read_back (filter (\<lambda>r. lg_taskResultId r = t) (lc_rows lc d)))" "dl_destinationId x = w" using found_in [OF x(1)] by blast+
    then obtain r where r: "r \<in> set (lc_rows lc d)" "lg_taskResultId r = t" "x = read_back r" "lg_destinationId r = w" by (auto simp: read_back_def)
    then have "lg_status r \<noteq> COMPLETED" "lg_status r \<noteq> FAILED_DLQ" using x(2) terminal_read_back by blast+
    then show ?thesis using r by blast
  qed
  ultimately show ?thesis using waiting by (auto simp: delivery_pair_key_def read_back_def)
qed

definition sync_row :: "string \<Rightarrow> string \<Rightarrow> DeliveryStatus \<Rightarrow> log_row" where
  "sync_row i w st = \<lparr> lg_id = i, lg_taskResultId = ''t1'', lg_destinationId = w, lg_status = st, lg_retryCount = 0, lg_nextRetryAt = None,
     lg_createdAt = 0, lg_updatedAt = 0, lg_deletedAt = None \<rparr>"

definition sync_tables :: "log_row list \<times> (string \<times> string) set \<times> attempt_row list" where
  "sync_tables = ([sync_row ''d1'' ''w1'' PENDING, sync_row ''d2'' ''w2'' COMPLETED], {}, [])"

theorem application_sync_settles_witness:
  "\<exists>q'. q' = fst (sync_state (bull_service list_bull (\<lambda>k q. None)) (log_repository list_log 9 sync_tables)
        [\<lparr> qj_id = ''7'', qj_name = ''t1:w2'', qj_data = delivery_data (read_back (sync_row ''d2'' ''w2'' COMPLETED)), qj_delay = 0 \<rparr>]) \<and>
     (\<exists>j \<in> set q'. job_pair_key j = ''t1:w1'') \<and>
     sync_state (bull_service list_bull (\<lambda>k q. None)) (log_repository list_log 9 sync_tables) q' = (q', Inr sync_zero)"
  using application_sync_settles [OF list_bull_laws list_bull_unlocked _ _ refl, of list_log sync_tables
      "[\<lparr> qj_id = ''7'', qj_name = ''t1:w2'', qj_data = delivery_data (read_back (sync_row ''d2'' ''w2'' COMPLETED)), qj_delay = 0 \<rparr>]" "\<lambda>k q. None" 9]
  by (simp add: plain_log_def list_log_def sync_tables_def sync_row_def good_row_def) (simp add: list_bull_def)

text \<open>A rebuild leaves what cleaning left and, after it, one job for every PENDING delivery and one for every SCHEDULED_RETRY delivery, in the
  order of the table, each with the next attempt's number; it counts the three groups of rows. Cleaning is not part of the promise: a job
  it leaves, because there are more than a thousand or it throws, is doubled.\<close>
theorem rebuild_adds_the_waiting_rows:
  assumes "bull_laws bq" "plain_log lc d"
    and kept_def: "kept = bq_jobs bq (clean_all clean [''wait'', ''active'', ''delayed''] q)"
    and rows_def: "rows = (\<lambda>st. filter (\<lambda>r. lg_status r = st) (lc_rows lc d))"
    and run_def: "run = rebuild (bull_service bq clean) (log_repository lc now d) now q"
  shows "\<exists>new. bq_jobs bq (fst run) = kept @ new \<and>
    map qj_data new = map (\<lambda>r. delivery_data (read_back r)) (rows PENDING @ rows SCHEDULED_RETRY) \<and>
    snd run = Inr \<lparr> rb_main = int (length (rows PENDING)), rb_delayed = int (length (rows SCHEDULED_RETRY)), rb_dlq = int (length (rows FAILED_DLQ)) \<rparr>"
proof -
  let ?q = "clean_all clean [''wait'', ''active'', ''delayed''] q" and ?ds = "\<lambda>st. map read_back (rows st)"
  let ?q1 = "fold (add_delivery bq (\<lambda>d. None)) (?ds PENDING) ?q"
  let ?q2 = "fold (add_delivery bq (\<lambda>d. Some (rebuild_delay now d))) (?ds SCHEDULED_RETRY) ?q1"
  obtain a where a: "bq_jobs bq ?q1 = kept @ a" "map qj_data a = map delivery_data (?ds PENDING)"
    using added_deliveries [OF assms(1), of "\<lambda>d. None" "?ds PENDING" ?q] unfolding kept_def by blast
  obtain b where b: "bq_jobs bq ?q2 = bq_jobs bq ?q1 @ b" "map qj_data b = map delivery_data (?ds SCHEDULED_RETRY)"
    using added_deliveries [OF assms(1), of "\<lambda>d. Some (rebuild_delay now d)" "?ds SCHEDULED_RETRY" ?q1] by blast
  have c: "qs_clean (bull_service bq clean) = Some clean" by (simp add: bull_service_def)
  have "run = (?q2, Inr \<lparr> rb_main = int (length (?ds PENDING)), rb_delayed = int (length (?ds SCHEDULED_RETRY)), rb_dlq = int (length (?ds FAILED_DLQ)) \<rparr>)"
    unfolding run_def rebuild_def c option.case Let_def log_repository_deliveries [OF assms(2)] sum.case requeue_all_bull prod.case bool.case rows_def ..
  then show ?thesis using a b by (intro exI [of _ "a @ b"]) simp
qed

theorem rebuild_adds_the_waiting_rows_witness:
  "\<exists>new. bq_jobs list_bull (fst (rebuild (bull_service list_bull (\<lambda>k q. Some [])) (log_repository list_log 9 sync_tables) 9 [])) = new \<and>
     map qj_data new = [delivery_data (read_back (sync_row ''d1'' ''w1'' PENDING))]"
proof -
  have "plain_log list_log sync_tables" by (simp add: plain_log_def list_log_def sync_tables_def sync_row_def good_row_def)
  from rebuild_adds_the_waiting_rows [where clean = "\<lambda>k q. Some []" and q = "[]" and now = 9, OF list_bull_laws this refl refl refl]
  show ?thesis by (simp add: list_log_def sync_tables_def sync_row_def) (simp add: list_bull_def)
qed

end
