(* ===== verification/QF_Validation.thy ===== *)
theory QF_Validation
  imports QF_Services QF_Parse QF_Util QF_Reports QF_Settings
begin

text \<open>
  Validation of requests (\<open>security/validation\<close>) and the mapping of data transfer objects to entities and back
  (\<open>application/mappers\<close>, \<open>application/dto\<close>) with the services that use them (\<open>register-destination.service.ts\<close>,
  \<open>find-destinations.service.ts\<close>).

  An argument of type \<open>any\<close> is a parsed JSON value or None for undefined; an error is the field a \<open>ValidationError\<close> names.
  \<open>new URL\<close> is a parameter that gives the protocol. Shown: sanitized values carry no markup and lose nothing, what the
  validators accept compared with the value objects and entities behind them, which registrations are stored and as what.
\<close>

subsection \<open>InputValidator\<close>

text \<open>\<open>!v || typeof v !== 'string'\<close>, otherwise the text.\<close>

definition text_arg :: "jdoc option \<Rightarrow> string option" where
  "text_arg a = (case a of Some (DStr s) \<Rightarrow> if s = [] then None else Some s | _ \<Rightarrow> None)"

definition iv_validateEmail :: "jdoc option \<Rightarrow> string + unit" where
  "iv_validateEmail a = (case text_arg a of None \<Rightarrow> Inl ''email'' | Some s \<Rightarrow> guardE (email_shape (trim s)) ''email'')"

definition iv_validateUUID :: "jdoc option \<Rightarrow> string \<Rightarrow> string + unit" where
  "iv_validateUUID a fieldName = (case text_arg a of None \<Rightarrow> Inl fieldName | Some s \<Rightarrow> guardE (isValidUUID (trim s)) fieldName)"

definition iv_validateURL :: "(string \<Rightarrow> string option) \<Rightarrow> jdoc option \<Rightarrow> string \<Rightarrow> string + unit" where
  "iv_validateURL protocol_of a fieldName = (case text_arg a of None \<Rightarrow> Inl fieldName
     | Some s \<Rightarrow> (case protocol_of (trim s) of None \<Rightarrow> Inl fieldName
         | Some p \<Rightarrow> guardE (p \<in> set [''http:'', ''https:'', ''postgresql:'', ''redis:'', ''amqp:'']) fieldName))"

text \<open>\<open>/^\+?[1-9]\d{1,14}$/\<close>\<close>

definition phone_shape :: "string \<Rightarrow> bool" where
  "phone_shape s \<longleftrightarrow> (let d = (case s of [] \<Rightarrow> [] | c # r \<Rightarrow> if c = CHR ''+'' then r else s) in
     2 \<le> length d \<and> length d \<le> 15 \<and> hd d \<noteq> CHR ''0'' \<and> list_all digit_char d)"

definition iv_validatePhoneNumber :: "jdoc option \<Rightarrow> string + unit" where
  "iv_validatePhoneNumber a = (case text_arg a of None \<Rightarrow> Inl ''phone''
     | Some s \<Rightarrow> guardE (phone_shape (filter (\<lambda>c. \<not> is_space c \<and> c \<notin> set ''()-'') s)) ''phone'')"

datatype password_error = PasswordRequired | PasswordTooShort | NoUppercase | NoLowercase | NoNumber | NoSpecial

definition special_char :: "char \<Rightarrow> bool" where
  "special_char c \<longleftrightarrow> c \<in> set ''!@#$%^&*()_+-=[]{};:|,.<>/?'' \<or> c = CHR 0x27 \<or> c = CHR 0x22 \<or> c = CHR 0x5C"

text \<open>The password is valid when the list is empty.\<close>

definition iv_validatePassword :: "jdoc option \<Rightarrow> password_error list" where
  "iv_validatePassword a = (case text_arg a of None \<Rightarrow> [PasswordRequired]
     | Some s \<Rightarrow> (if length s < 8 then [PasswordTooShort] else []) @ (if list_ex is_upper s then [] else [NoUppercase]) @
         (if list_ex is_lower s then [] else [NoLowercase]) @ (if list_ex digit_char s then [] else [NoNumber]) @
         (if list_ex special_char s then [] else [NoSpecial]))"

text \<open>\<open>s.replace(/c/g, r)\<close>\<close>

definition replace_char :: "char \<Rightarrow> string \<Rightarrow> string \<Rightarrow> string" where
  "replace_char c r s = concat (map (\<lambda>x. if x = c then r else [x]) s)"

definition sanitize_text :: "string \<Rightarrow> string" where
  "sanitize_text s = replace_char CHR ''/'' ''&#x2F;'' (replace_char CHR 0x27 ''&#x27;'' (replace_char CHR 0x22 ''&quot;''
     (replace_char CHR ''>'' ''&gt;'' (replace_char CHR ''<'' ''&lt;'' (replace_char CHR ''&'' ''&amp;'' s)))))"

definition iv_sanitizeString :: "jdoc option \<Rightarrow> int option \<Rightarrow> string" where
  "iv_sanitizeString a maxLength = (case text_arg a of None \<Rightarrow> []
     | Some s \<Rightarrow> (let t = sanitize_text s in
         case maxLength of None \<Rightarrow> t | Some m \<Rightarrow> if m > 0 \<and> int (length t) > m then take (nat m) t else t))"

text \<open>Assigning to \<open>copy['__proto__']\<close> sets the prototype of the copy and makes no entry.\<close>

primrec sanitize_value :: "jdoc \<Rightarrow> jdoc" where
  "sanitize_value DNull = DNull"
| "sanitize_value (DBool b) = DBool b"
| "sanitize_value (DNum x) = DNum x"
| "sanitize_value (DStr s) = DStr (sanitize_text s)"
| "sanitize_value (DArr vs) = DArr (map sanitize_value vs)"
| "sanitize_value (DObj ps) = DObj (filter (\<lambda>p. fst p \<noteq> ''__proto__'') (map (map_prod id sanitize_value) ps))"

definition iv_sanitizeJSON :: "jdoc option \<Rightarrow> jdoc" where
  "iv_sanitizeJSON a = (case a of Some (DArr vs) \<Rightarrow> sanitize_value (DArr vs) | Some (DObj ps) \<Rightarrow> sanitize_value (DObj ps) | _ \<Rightarrow> DObj [])"

subsection \<open>What sanitizing does\<close>

text \<open>The one pass the six replacements amount to, and a reader of the entities.\<close>

definition html_entities :: "(string \<times> char) list" where
  "html_entities = [(''&amp;'', CHR ''&''), (''&lt;'', CHR ''<''), (''&gt;'', CHR ''>''), (''&quot;'', CHR 0x22), (''&#x27;'', CHR 0x27),
     (''&#x2F;'', CHR ''/'')]"

definition escape_char :: "char \<Rightarrow> string" where
  "escape_char c = (case find (\<lambda>e. snd e = c) html_entities of None \<Rightarrow> [c] | Some e \<Rightarrow> fst e)"

function unescape_html :: "string \<Rightarrow> string" where
  "unescape_html [] = []"
| "unescape_html (c # r) = (case find (\<lambda>e. starts_with (fst e) (c # r)) html_entities of
     None \<Rightarrow> c # unescape_html r | Some e \<Rightarrow> snd e # unescape_html (drop (length (fst e) - 1) r))"
  by pat_completeness auto
termination by (relation "measure length") auto

declare unescape_html.simps(2) [simp del]

definition markup_char :: "char \<Rightarrow> bool" where
  "markup_char c \<longleftrightarrow> c = CHR ''<'' \<or> c = CHR ''>'' \<or> c = CHR 0x22 \<or> c = CHR 0x27 \<or> c = CHR ''/''"

lemma replace_char_simps [simp]:
  "replace_char c r [] = []"
  "replace_char c r (x # s) = (if x = c then r else [x]) @ replace_char c r s"
  "replace_char c r (s @ t) = replace_char c r s @ replace_char c r t"
  by (simp_all add: replace_char_def)

lemma sanitize_text_append: "sanitize_text (s @ t) = sanitize_text s @ sanitize_text t"
  by (simp add: sanitize_text_def)

lemma escape_char_cases: "(escape_char c, c) \<in> set html_entities \<or> (\<forall>e \<in> set html_entities. snd e \<noteq> c) \<and> escape_char c = [c]"
proof (cases "find (\<lambda>e. snd e = c) html_entities")
  case None
  then have "\<forall>e \<in> set html_entities. snd e \<noteq> c" unfolding find_None_iff by blast
  then show ?thesis using None by (simp add: escape_char_def)
next
  case (Some e)
  then have "e \<in> set html_entities" "snd e = c" by (auto simp: find_Some_iff)
  moreover have "escape_char c = fst e" by (simp only: escape_char_def Some option.case)
  ultimately show ?thesis by (metis prod.collapse)
qed

lemma sanitize_text_entity: "e \<in> set html_entities \<Longrightarrow> sanitize_text [snd e] = fst e"
  unfolding html_entities_def set_simps by (elim insertE emptyE; hypsubst) (simp_all add: sanitize_text_def)

lemma html_entities_chars: "(\<forall>e \<in> set html_entities. snd e \<noteq> c) \<longleftrightarrow> c \<noteq> CHR ''&'' \<and> \<not> markup_char c"
  unfolding html_entities_def markup_char_def by (simp only: list.set ball_simps snd_conv) blast

lemma sanitize_text_char: "sanitize_text [c] = escape_char c"
  using escape_char_cases [of c]
proof
  assume "(escape_char c, c) \<in> set html_entities"
  then show ?thesis using sanitize_text_entity by fastforce
next
  assume "(\<forall>e \<in> set html_entities. snd e \<noteq> c) \<and> escape_char c = [c]"
  then show ?thesis unfolding html_entities_chars markup_char_def by (simp add: sanitize_text_def)
qed

lemma sanitize_text_escapes: "sanitize_text s = concat (map escape_char s)"
proof (induction s)
  case (Cons c s)
  then show ?case using sanitize_text_append [of "[c]" s] by (simp add: sanitize_text_char)
qed (simp add: sanitize_text_def)

lemma entity_head: "e \<in> set html_entities \<Longrightarrow> \<exists>r. fst e = CHR ''&'' # r"
  by (auto simp: html_entities_def)

lemma unescape_other:
  assumes "c \<noteq> CHR ''&''" shows "unescape_html (c # s) = c # unescape_html s"
proof -
  have "\<not> starts_with (fst e) (c # s)" if "e \<in> set html_entities" for e
    using entity_head [OF that] assms by auto
  then have "find (\<lambda>e. starts_with (fst e) (c # s)) html_entities = None" unfolding find_None_iff by blast
  then show ?thesis by (simp only: unescape_html.simps(2) option.case)
qed

text \<open>No entity begins with another.\<close>

lemma entity_found:
  assumes "e \<in> set html_entities"
  shows "find (\<lambda>e'. starts_with (fst e') (fst e @ s)) html_entities = Some e"
  using assms unfolding html_entities_def set_simps by (elim insertE emptyE; hypsubst) simp_all

lemma unescape_entity:
  assumes "e \<in> set html_entities" shows "unescape_html (fst e @ s) = snd e # unescape_html s"
proof -
  obtain r where r: "fst e = CHR ''&'' # r" using entity_head [OF assms] by blast
  have "unescape_html (CHR ''&'' # r @ s) = (case Some e of None \<Rightarrow> CHR ''&'' # unescape_html (r @ s)
      | Some e \<Rightarrow> snd e # unescape_html (drop (length (fst e) - 1) (r @ s)))"
    using entity_found [OF assms, of s] by (simp only: unescape_html.simps(2) r append_Cons)
  then show ?thesis by (simp add: r)
qed

lemma unescape_escape: "unescape_html (escape_char c @ s) = c # unescape_html s"
  using escape_char_cases [of c] unescape_entity [of "(escape_char c, c)" s] unescape_other [of c s] html_entities_chars [of c] by auto

lemma unescape_sanitized: "unescape_html (sanitize_text s) = s"
  by (induction s) (simp_all add: sanitize_text_escapes unescape_escape)

lemma escape_char_clean: "list_all (\<lambda>x. \<not> markup_char x) (escape_char c)"
proof -
  have "list_all (\<lambda>x. \<not> markup_char x) (fst e)" if "e \<in> set html_entities" for e
    using that unfolding html_entities_def set_simps by (elim insertE emptyE; hypsubst) (simp_all add: markup_char_def)
  then show ?thesis using escape_char_cases [of c] html_entities_chars [of c] by fastforce
qed

lemma sanitize_text_clean: "list_all (\<lambda>x. \<not> markup_char x) (sanitize_text s)"
  using escape_char_clean by (induction s) (simp_all add: sanitize_text_escapes)

text \<open>The texts and the names in a value, and a value with its texts read back.\<close>

primrec doc_texts :: "jdoc \<Rightarrow> string list" where
  "doc_texts DNull = []"
| "doc_texts (DBool b) = []"
| "doc_texts (DNum x) = []"
| "doc_texts (DStr s) = [s]"
| "doc_texts (DArr vs) = concat (map doc_texts vs)"
| "doc_texts (DObj ps) = concat (map snd (map (map_prod id doc_texts) ps))"

primrec doc_names :: "jdoc \<Rightarrow> string list" where
  "doc_names DNull = []"
| "doc_names (DBool b) = []"
| "doc_names (DNum x) = []"
| "doc_names (DStr s) = []"
| "doc_names (DArr vs) = concat (map doc_names vs)"
| "doc_names (DObj ps) = concat (map (\<lambda>p. fst p # snd p) (map (map_prod id doc_names) ps))"

primrec doc_map :: "(string \<Rightarrow> string) \<Rightarrow> jdoc \<Rightarrow> jdoc" where
  "doc_map f DNull = DNull"
| "doc_map f (DBool b) = DBool b"
| "doc_map f (DNum x) = DNum x"
| "doc_map f (DStr s) = DStr (f s)"
| "doc_map f (DArr vs) = DArr (map (doc_map f) vs)"
| "doc_map f (DObj ps) = DObj (map (map_prod id (doc_map f)) ps)"

lemma sanitized_texts_clean: "t \<in> set (doc_texts (sanitize_value v)) \<Longrightarrow> list_all (\<lambda>x. \<not> markup_char x) t"
proof (induction v)
  case (DObj ps)
  then show ?case by (fastforce simp: sanitize_text_clean)
qed (auto simp: sanitize_text_clean)

lemma sanitize_value_map: "''__proto__'' \<notin> set (doc_names v) \<Longrightarrow> sanitize_value v = doc_map sanitize_text v"
proof (induction v)
  case (DObj ps)
  have p: "fst p \<noteq> ''__proto__'' \<and> sanitize_value (snd p) = doc_map sanitize_text (snd p)" if "p \<in> set ps" for p
    using DObj.prems that by (cases p) (auto intro!: DObj.IH [of p])
  have "map (map_prod id sanitize_value) ps = map (map_prod id (doc_map sanitize_text)) ps"
    using p by (intro map_cong [OF refl]) (simp add: prod_eq_iff)
  moreover have "filter (\<lambda>p. fst p \<noteq> ''__proto__'') (map (map_prod id (doc_map sanitize_text)) ps) = map (map_prod id (doc_map sanitize_text)) ps"
    by (rule filter_True) (use p in auto)
  ultimately show ?case by (simp only: sanitize_value.simps doc_map.simps)
qed auto

lemma doc_map_compose: "doc_map f (doc_map g v) = doc_map (f \<circ> g) v"
  by (induction v) auto

lemma doc_map_id: "(\<And>s. f s = s) \<Longrightarrow> doc_map f v = v"
  by (induction v) (auto intro!: map_idI)

lemma doc_names_map: "doc_names (doc_map f v) = doc_names v"
proof (induction v)
  case (DArr vs)
  then show ?case by (simp add: comp_def cong: map_cong)
next
  case (DObj ps)
  have "fst p # doc_names (doc_map f (snd p)) = fst p # doc_names (snd p)" if "p \<in> set ps" for p
    using DObj.IH [of p] that by (cases p) auto
  then show ?case by (simp add: comp_def cong: map_cong)
qed simp_all

lemma sanitizeJSON_value: "\<exists>v. iv_sanitizeJSON b = sanitize_value v"
proof -
  have e: "\<exists>v. DObj [] = sanitize_value v" by (rule exI [of _ "DObj []"]) simp
  show ?thesis
  proof (cases b)
    case (Some d)
    then show ?thesis by (cases d) (simp_all only: iv_sanitizeJSON_def option.case jdoc.case e, blast+)
  qed (simp only: iv_sanitizeJSON_def option.case e)
qed

text \<open>C27: No text of a sanitized value has a character of markup, whatever it is cut to, and nothing is lost: with the entities
  read back the value is the one it was. Names are not sanitized, and an entry called \<open>__proto__\<close> is dropped.\<close>
theorem sanitized_values_are_harmless:
  assumes "''__proto__'' \<notin> set (doc_names (DObj ps))"
  shows "list_all (\<lambda>x. \<not> markup_char x) (iv_sanitizeString a maxLength) \<and>
    (t \<in> set (doc_texts (iv_sanitizeJSON b)) \<longrightarrow> list_all (\<lambda>x. \<not> markup_char x) t) \<and>
    doc_names (iv_sanitizeJSON (Some (DObj ps))) = doc_names (DObj ps) \<and>
    doc_map unescape_html (iv_sanitizeJSON (Some (DObj ps))) = DObj ps"
proof -
  have "list_all (\<lambda>x. \<not> markup_char x) (take n (sanitize_text s))" for n s
    using sanitize_text_clean [of s] by (auto simp: list_all_iff dest: in_set_takeD)
  then have 1: "list_all (\<lambda>x. \<not> markup_char x) (iv_sanitizeString a maxLength)"
    using sanitize_text_clean by (simp add: iv_sanitizeString_def Let_def split: option.split)
  have 2: "t \<in> set (doc_texts (iv_sanitizeJSON b)) \<longrightarrow> list_all (\<lambda>x. \<not> markup_char x) t"
    using sanitizeJSON_value [of b] sanitized_texts_clean by metis
  have 3: "iv_sanitizeJSON (Some (DObj ps)) = doc_map sanitize_text (DObj ps)"
    unfolding sanitize_value_map [OF assms, symmetric] by (simp add: iv_sanitizeJSON_def)
  have 4: "doc_map unescape_html (doc_map sanitize_text (DObj ps)) = DObj ps"
    unfolding doc_map_compose by (rule doc_map_id) (simp add: unescape_sanitized)
  show ?thesis using 1 2 4 unfolding 3 by (simp only: doc_names_map simp_thms)
qed

theorem sanitized_values_are_harmless_witness:
  "doc_map unescape_html (iv_sanitizeJSON (Some (DObj [(''<k>'', DStr ''<a href=/x>''), (''n'', DArr [DStr ''&amp;'', DNum 1])]))) =
     DObj [(''<k>'', DStr ''<a href=/x>''), (''n'', DArr [DStr ''&amp;'', DNum 1])] \<and>
   list_all (\<lambda>x. \<not> markup_char x) (iv_sanitizeString (Some (DStr ''<b>'')) (Some 5))"
proof -
  have "''__proto__'' \<notin> set (doc_names (DObj [(''<k>'', DStr ''<a href=/x>''), (''n'', DArr [DStr ''&amp;'', DNum 1])]))" by simp
  from sanitized_values_are_harmless [OF this, of "Some (DStr ''<b>'')" "Some 5" _ None] show ?thesis by blast
qed

subsection \<open>ResultValidator and DeliveryValidator\<close>

definition doc_get :: "jdoc \<Rightarrow> string \<Rightarrow> jdoc option" where
  "doc_get d k = (case d of DObj ps \<Rightarrow> map_of ps k | _ \<Rightarrow> None)"

definition doc_truthy :: "jdoc option \<Rightarrow> bool" where
  "doc_truthy a = (case a of None \<Rightarrow> False | Some d \<Rightarrow> (case d of DNull \<Rightarrow> False | DBool b \<Rightarrow> b | DNum x \<Rightarrow> x \<noteq> 0 | DStr s \<Rightarrow> s \<noteq> [] | _ \<Rightarrow> True))"

definition doc_object :: "jdoc option \<Rightarrow> bool" where
  "doc_object a = (case a of Some (DArr _) \<Rightarrow> True | Some (DObj _) \<Rightarrow> True | _ \<Rightarrow> False)"

definition rv_validateEmailId :: "jdoc option \<Rightarrow> string + unit" where
  "rv_validateEmailId a = iv_validateEmail a"

definition rv_agent_shape :: "string \<Rightarrow> bool" where
  "rv_agent_shape t \<longleftrightarrow> 2 \<le> length t \<and> length t \<le> 64 \<and> list_all (\<lambda>c. agent_char c \<or> c = CHR '':'') t"

definition rv_validateAgentId :: "jdoc option \<Rightarrow> string + unit" where
  "rv_validateAgentId a = (case text_arg a of None \<Rightarrow> Inl ''agentId'' | Some s \<Rightarrow> guardE (rv_agent_shape (trim s)) ''agentId'')"

definition rv_validateConfidenceScore :: "jdoc option \<Rightarrow> string + unit" where
  "rv_validateConfidenceScore a = (case a of Some (DNum x) \<Rightarrow> guardE (0 \<le> x \<and> x \<le> 1) ''confidenceScore'' | _ \<Rightarrow> Inl ''confidenceScore'')"

text \<open>\<open>byteSize\<close> gives the bytes of the text \<open>JSON.stringify\<close> makes.\<close>

definition rv_validatePayload :: "(jdoc \<Rightarrow> int) \<Rightarrow> jdoc option \<Rightarrow> int option \<Rightarrow> string + unit" where
  "rv_validatePayload byteSize a maxSizeBytes = (case a of
       Some (DObj ps) \<Rightarrow> guardE (byteSize (DObj ps) \<le> nullish_or maxSizeBytes (10 * 1024 * 1024)) ''resultPayload'' | _ \<Rightarrow> Inl ''resultPayload'')"

definition token_field :: "jdoc option \<Rightarrow> bool" where
  "token_field a = (case a of None \<Rightarrow> True | Some (DNum x) \<Rightarrow> 0 \<le> x | _ \<Rightarrow> False)"

definition rv_validateLLMMetadata :: "jdoc option \<Rightarrow> string + unit" where
  "rv_validateLLMMetadata a = (case a of None \<Rightarrow> Inl ''llmMetadata'' | Some m \<Rightarrow>
     bindE (guardE (doc_object a) ''llmMetadata'') (\<lambda>_.
     bindE (guardE (case doc_get m ''model'' of None \<Rightarrow> True | Some (DStr s) \<Rightarrow> trim s \<noteq> [] | _ \<Rightarrow> False) ''llmMetadata.model'') (\<lambda>_.
     bindE (guardE (case doc_get m ''promptHash'' of None \<Rightarrow> True | Some (DStr s) \<Rightarrow> length s = 64 \<and> list_all hex_char s | _ \<Rightarrow> False) ''llmMetadata.promptHash'') (\<lambda>_.
     bindE (guardE (token_field (doc_get m ''tokenInput'')) ''llmMetadata.tokenInput'') (\<lambda>_.
       guardE (token_field (doc_get m ''tokenOutput'')) ''llmMetadata.tokenOutput'')))))"

text \<open>\<open>String(v)\<close> where it is compared with words: of an array of one element it is that element's; the texts of numbers, objects and the
  rest are none of the words, and empty here.\<close>

fun doc_word :: "jdoc \<Rightarrow> string" where
  "doc_word (DStr s) = s"
| "doc_word (DArr [d]) = doc_word d"
| "doc_word d = []"

definition rv_validateIngestRequest :: "(jdoc \<Rightarrow> int) \<Rightarrow> jdoc option \<Rightarrow> string + jdoc" where
  "rv_validateIngestRequest byteSize request = (case request of None \<Rightarrow> Inl ''request'' | Some q \<Rightarrow>
     bindE (guardE (doc_object request) ''request'') (\<lambda>_.
     bindE (rv_validateEmailId (doc_get q ''emailId'')) (\<lambda>_.
     bindE (rv_validateAgentId (doc_get q ''agentId'')) (\<lambda>_.
     bindE (guardE (case doc_get q ''agentVersion'' of None \<Rightarrow> True | Some v \<Rightarrow> doc_truthy (Some v) \<longrightarrow> semver (doc_word v)) ''agentVersion'') (\<lambda>_.
     bindE (rv_validateConfidenceScore (doc_get q ''confidenceScore'')) (\<lambda>_.
     bindE (rv_validatePayload byteSize (doc_get q ''resultPayload'') None) (\<lambda>_.
     bindE (if doc_truthy (doc_get q ''llmMetadata'') then rv_validateLLMMetadata (doc_get q ''llmMetadata'') else Inr ()) (\<lambda>_. Inr q))))))))"

definition short_id :: "string \<Rightarrow> bool" where
  "short_id s \<longleftrightarrow> 8 \<le> length s \<and> length s \<le> 64 \<and> list_all (\<lambda>c. alnum_char c \<or> c \<in> set ''_-'') s"

definition lv_validateDeliveryId :: "jdoc option \<Rightarrow> string + unit" where
  "lv_validateDeliveryId a = (case text_arg a of None \<Rightarrow> Inl ''deliveryId''
     | Some s \<Rightarrow> (case iv_validateUUID a ''deliveryId'' of Inr u \<Rightarrow> Inr u | Inl _ \<Rightarrow> guardE (short_id (trim s)) ''deliveryId''))"

definition lv_validateRetryRequest :: "jdoc option \<Rightarrow> string + unit" where
  "lv_validateRetryRequest a = (case a of None \<Rightarrow> Inr () | Some q \<Rightarrow> if \<not> doc_object a then Inr () else
     (case doc_get q ''delayMs'' of None \<Rightarrow> Inr () | Some DNull \<Rightarrow> Inr () | Some (DNum x) \<Rightarrow> guardE (0 \<le> x \<and> x \<le> 86400000) ''delayMs'' | _ \<Rightarrow> Inl ''delayMs''))"

subsection \<open>Validators and value objects\<close>

lemma length_split: "length s + 1 = sum_list (map length (split_on x s)) + length (split_on x s)"
proof (induction s)
  case (Cons c s)
  then show ?case by (cases "split_on x s") auto
qed simp

lemma split_parts: "w \<in> set (split_on x s) \<Longrightarrow> x \<notin> set w"
proof (induction s arbitrary: w)
  case (Cons c s)
  then show ?case by (cases "split_on x s") (auto split: if_splits)
qed simp

lemma split_chars: "set s \<subseteq> insert x (\<Union>w \<in> set (split_on x s). set w)"
proof (induction s)
  case (Cons c s)
  then show ?case by (cases "split_on x s") auto
qed simp

lemma split_hd: "hd (split_on x s) \<noteq> [] \<Longrightarrow> s \<noteq> [] \<and> hd s \<noteq> x"
  by (cases s) (auto split: if_splits)

lemma split_single: "split_on x s = [w] \<Longrightarrow> x \<notin> set s"
proof (induction s arbitrary: w)
  case (Cons c s)
  then show ?case by (cases "split_on x s") (auto split: if_splits)
qed simp

lemma split_last: "last (split_on x s) \<noteq> [] \<Longrightarrow> s \<noteq> [] \<and> last s \<noteq> x"
proof (induction s)
  case (Cons c s)
  show ?case
  proof (cases "c = x \<or> length (split_on x s) > 1")
    case True
    then have "last (split_on x s) \<noteq> []" using Cons.prems by (cases "split_on x s") (auto split: if_splits)
    then show ?thesis using Cons.IH by simp
  next
    case False
    then obtain w where "split_on x s = [w]" by (cases "split_on x s") auto
    then have "x \<notin> set (c # s)" using split_single False by auto
    then show ?thesis using last_in_set [of "c # s"] by (metis list.distinct(1))
  qed
qed simp

lemma uuid_parts:
  assumes "uuid_shape s" shows "map length (split_on CHR ''-'' s) = [8, 4, 4, 4, 12]" "list_all (list_all hex_char) (split_on CHR ''-'' s)"
  using assms unfolding uuid_shape_def by (auto split: list.splits)

lemma hex_alnum: "hex_char c \<Longrightarrow> alnum_char c"
  by (auto simp: hex_char_def alnum_char_def alpha_char_def)

lemma uuid_is_short_id:
  assumes "isValidUUID s" shows "short_id s"
proof -
  have u: "uuid_shape s" using assms by (simp add: isValidUUID_def)
  have "length (split_on CHR ''-'' s) = 5" using arg_cong [OF uuid_parts(1) [OF u], of length] by simp
  then have "length s = 36" using length_split [of s "CHR ''-''"] uuid_parts(1) [OF u] by simp
  moreover have "hex_char c \<or> c = CHR ''-''" if "c \<in> set s" for c
    using that split_chars [of s "CHR ''-''"] uuid_parts(2) [OF u] by (auto simp: list_all_iff)
  ultimately show ?thesis using hex_alnum by (fastforce simp: short_id_def list_all_iff)
qed

text \<open>The check for UUIDs is subsumed by the one it falls back to.\<close>

lemma lv_validateDeliveryId_text:
  "lv_validateDeliveryId (Some (DStr s)) = (if s = [] then Inl ''deliveryId'' else guardE (short_id (trim s)) ''deliveryId'')"
  using uuid_is_short_id [of "trim s"] by (auto simp: lv_validateDeliveryId_def text_arg_def iv_validateUUID_def guardE_def)

lemma email_domain_dot:
  assumes "emailRegex s"
  shows "email_shape s \<longleftrightarrow> CHR ''.'' \<in> set (last (split_on CHR ''@'' s))"
proof -
  obtain l d where p: "split_on CHR ''@'' s = [l, d]" and l: "l \<noteq> []" "list_all email_local_char l"
    and d: "list_all email_label (split_on CHR ''.'' d)"
    using assms unfolding emailRegex_def by (auto split: list.splits)
  have "\<forall>w \<in> set (split_on CHR ''.'' d). w \<noteq> []" using d by (auto simp: list_all_iff email_label_def)
  then have ends: "d \<noteq> []" "hd d \<noteq> CHR ''.''" "last d \<noteq> CHR ''.''"
    using split_hd [of "CHR ''.''" d] split_last [of "CHR ''.''" d] hd_in_set [OF split_on_nonempty] last_in_set [OF split_on_nonempty] by blast+
  have noalnum: "\<not> is_space c" if "alnum_char c" for c
    using that by (auto simp: is_space_def alnum_char_def alpha_char_def digit_char_def)
  have lsp: "\<not> list_ex is_space l"
  proof -
    have "\<not> is_space c" if "email_local_char c" for c
      using that noalnum [of c] unfolding email_local_char_def by (auto simp: is_space_def)
    then show ?thesis using l(2) by (auto simp: list_ex_iff list_all_iff)
  qed
  have dsp: "\<not> list_ex is_space d"
  proof -
    have "alnum_char c \<or> c = CHR ''-'' \<or> c = CHR ''.''" if "c \<in> set d" for c
      using that d split_chars [of d "CHR ''.''"] by (auto simp: list_all_iff email_label_def)
    moreover have "\<not> is_space (CHR ''-'')" "\<not> is_space (CHR ''.'')" by (simp_all add: is_space_def)
    ultimately show ?thesis using noalnum by (auto simp: list_ex_iff)
  qed
  have dots: "list_ex (\<lambda>i. d ! i = CHR ''.'') [1..<length d - 1] \<longleftrightarrow> CHR ''.'' \<in> set d"
  proof
    assume "CHR ''.'' \<in> set d"
    then obtain i where i: "i < length d" "d ! i = CHR ''.''" by (auto simp: in_set_conv_nth)
    have "d ! 0 \<noteq> CHR ''.''" "d ! (length d - 1) \<noteq> CHR ''.''" using ends by (simp_all add: hd_conv_nth last_conv_nth)
    then have "i \<noteq> 0" "i \<noteq> length d - 1" using i(2) by metis+
    then have "1 \<le> i" "i < length d - 1" using i(1) by linarith+
    then show "list_ex (\<lambda>i. d ! i = CHR ''.'') [1..<length d - 1]" using i(2) by (auto simp: list_ex_iff)
  next
    assume "list_ex (\<lambda>i. d ! i = CHR ''.'') [1..<length d - 1]"
    then obtain i where i: "i \<in> set [1..<length d - 1]" "d ! i = CHR ''.''" unfolding list_ex_iff by blast
    then have "i < length d" unfolding set_upt atLeastLessThan_iff by linarith
    then show "CHR ''.'' \<in> set d" using i(2) by (metis nth_mem)
  qed
  show ?thesis unfolding email_shape_def p using l(1) lsp dsp dots by simp
qed

text \<open>What the security validators accept of what the value objects of the domain accept, and the other way round: an e-mail address
  needs a dot in its domain, an agent id 2 to 64 characters; an agent id with a colon passes the validator and is refused by \<open>AgentId\<close>;
  scores are judged alike.\<close>
theorem validators_and_value_objects:
  assumes "okE (EmailId_new (js_arg.JStr e))" "okE (AgentId_new (js_arg.JStr a))" "okE (rv_validateAgentId (Some (DStr b)))"
  shows "(okE (rv_validateEmailId (Some (DStr e))) \<longleftrightarrow> CHR ''.'' \<in> set (last (split_on CHR ''@'' (trim e)))) \<and>
    (okE (rv_validateAgentId (Some (DStr a))) \<longleftrightarrow> 2 \<le> length (trim a) \<and> length (trim a) \<le> 64) \<and>
    (okE (AgentId_new (js_arg.JStr b)) \<longleftrightarrow> CHR '':'' \<notin> set (trim b)) \<and>
    (okE (rv_validateConfidenceScore (Some (DNum x))) \<longleftrightarrow> okE (ConfidenceScore_new (Some x)))"
proof (intro conjI)
  have "e \<noteq> []" "emailRegex (trim e)" using assms(1) by (auto simp: EmailId_new_def Let_def split: if_splits)
  then show "okE (rv_validateEmailId (Some (DStr e))) \<longleftrightarrow> CHR ''.'' \<in> set (last (split_on CHR ''@'' (trim e)))"
    using email_domain_dot [of "trim e"] by (simp add: rv_validateEmailId_def iv_validateEmail_def text_arg_def guardE_def)
  have "a \<noteq> []" "list_all agent_char (trim a)" using assms(2) by (auto simp: AgentId_new_def Let_def split: if_splits)
  then show "okE (rv_validateAgentId (Some (DStr a))) \<longleftrightarrow> 2 \<le> length (trim a) \<and> length (trim a) \<le> 64"
    by (auto simp: rv_validateAgentId_def text_arg_def guardE_def rv_agent_shape_def list_all_iff)
  have b: "b \<noteq> []" "rv_agent_shape (trim b)" using assms(3)
    by (auto simp: rv_validateAgentId_def text_arg_def guardE_def split: if_splits)
  have "agent_char (CHR '':'') = False" by code_simp
  then have "list_all agent_char (trim b) \<longleftrightarrow> CHR '':'' \<notin> set (trim b)" using b(2) by (auto simp: rv_agent_shape_def list_all_iff)
  then show "okE (AgentId_new (js_arg.JStr b)) \<longleftrightarrow> CHR '':'' \<notin> set (trim b)"
    using b by (auto simp: AgentId_new_def Let_def rv_agent_shape_def)
  show "okE (rv_validateConfidenceScore (Some (DNum x))) \<longleftrightarrow> okE (ConfidenceScore_new (Some x))"
    by (auto simp: rv_validateConfidenceScore_def ConfidenceScore_new_def guardE_def)
qed

theorem validators_and_value_objects_witness:
  "\<not> okE (rv_validateEmailId (Some (DStr ''root@localhost''))) \<and> okE (rv_validateAgentId (Some (DStr '' agent ''))) \<and>
   \<not> okE (AgentId_new (js_arg.JStr ''llm:7''))"
proof -
  have "okE (EmailId_new (js_arg.JStr ''root@localhost''))" "okE (AgentId_new (js_arg.JStr '' agent ''))"
    "okE (rv_validateAgentId (Some (DStr ''llm:7'')))" by code_simp+
  from validators_and_value_objects [OF this, of 0]
  have "okE (rv_validateEmailId (Some (DStr ''root@localhost''))) \<longleftrightarrow> CHR ''.'' \<in> set (last (split_on CHR ''@'' (trim ''root@localhost'')))"
    "okE (rv_validateAgentId (Some (DStr '' agent ''))) \<longleftrightarrow> 2 \<le> length (trim '' agent '') \<and> length (trim '' agent '') \<le> 64"
    "okE (AgentId_new (js_arg.JStr ''llm:7'')) \<longleftrightarrow> CHR '':'' \<notin> set (trim ''llm:7'')" by blast+
  moreover have "CHR ''.'' \<notin> set (last (split_on CHR ''@'' (trim ''root@localhost'')))" by code_simp
  moreover have "2 \<le> length (trim '' agent '') \<and> length (trim '' agent '') \<le> 64" by code_simp
  moreover have "CHR '':'' \<in> set (trim ''llm:7'')" by code_simp
  ultimately show ?thesis by blast
qed

subsection \<open>DestinationValidator\<close>

text \<open>\<open>/^(p|...):\/\/.+/i\<close>: a scheme in any case and a character that ends no line.\<close>

definition scheme_url :: "string list \<Rightarrow> string \<Rightarrow> bool" where
  "scheme_url schemes s \<longleftrightarrow> list_ex (\<lambda>p. starts_with p (lower s) \<and>
     (case drop (length p) s of [] \<Rightarrow> False | c # _ \<Rightarrow> c \<noteq> CHR 0x0A \<and> c \<noteq> CHR 0x0D)) schemes"

definition web_schemes :: "string list" where "web_schemes = [''http://'', ''https://'']"

definition name_shape :: "string \<Rightarrow> string \<Rightarrow> bool" where
  "name_shape extra s \<longleftrightarrow> 2 \<le> length s \<and> length s \<le> 64 \<and> list_all (\<lambda>c. alnum_char c \<or> c \<in> set extra) s"

definition dv_validateEndpoint :: "(string \<Rightarrow> string option) \<Rightarrow> jdoc option \<Rightarrow> jdoc option \<Rightarrow> string + unit" where
  "dv_validateEndpoint protocol_of endpoint type = (case text_arg endpoint of None \<Rightarrow> Inl ''endpoint''
     | Some s \<Rightarrow> let ep = trim s; t = upper (case type of None \<Rightarrow> ''WEBHOOK'' | Some d \<Rightarrow> doc_word d) in
         if ep = [] then Inl ''endpoint''
         else if t = ''WEBHOOK'' then (if scheme_url web_schemes ep then iv_validateURL protocol_of (Some (DStr ep)) ''endpoint'' else Inl ''endpoint'')
         else if t = ''DATABASE'' then guardE (scheme_url [''postgresql://'', ''postgres://'', ''mysql://'', ''mongodb://'', ''redis://''] ep) ''endpoint''
         else if t = ''QUEUE'' then guardE (name_shape ''_-'' ep) ''endpoint''
         else if t = ''AUDIT'' then guardE (name_shape ''_.-'' ep) ''endpoint''
         else Inr ())"

definition dv_validateEventFilters :: "jdoc option \<Rightarrow> string + unit" where
  "dv_validateEventFilters a = guardE (doc_truthy a \<longrightarrow> doc_object a) ''eventFilters''"

definition dv_validateRetryStrategy :: "jdoc option \<Rightarrow> string + unit" where
  "dv_validateRetryStrategy a = (case a of None \<Rightarrow> Inl ''retryStrategy'' | Some d \<Rightarrow>
     bindE (guardE (doc_object a) ''retryStrategy'') (\<lambda>_.
       guardE (case doc_get d ''type'' of None \<Rightarrow> True
         | Some t \<Rightarrow> doc_truthy (Some t) \<longrightarrow> upper (doc_word t) \<in> set [''EXPONENTIAL'', ''FIXED'', ''LINEAR'', ''NONE'']) ''retryStrategy.type''))"

definition number_between :: "rat \<Rightarrow> rat \<Rightarrow> jdoc option \<Rightarrow> bool" where
  "number_between a b x = (case x of None \<Rightarrow> True | Some DNull \<Rightarrow> True | Some (DNum n) \<Rightarrow> a \<le> n \<and> n \<le> b | _ \<Rightarrow> False)"

definition dv_validateCircuitBreakerThreshold :: "jdoc option \<Rightarrow> string + unit" where
  "dv_validateCircuitBreakerThreshold a = guardE (number_between 1 100 a) ''circuitBreakerThreshold''"

definition dv_validateTimeout :: "jdoc option \<Rightarrow> string + unit" where
  "dv_validateTimeout a = guardE (number_between 100 300000 a) ''timeout''"

text \<open>\<open>a || b\<close>\<close>

definition doc_or :: "jdoc option \<Rightarrow> jdoc option \<Rightarrow> jdoc option" where
  "doc_or a b = (if doc_truthy a then a else b)"

definition dv_validateCreateRequest :: "(string \<Rightarrow> string option) \<Rightarrow> jdoc option \<Rightarrow> string + jdoc" where
  "dv_validateCreateRequest protocol_of request = (case request of None \<Rightarrow> Inl ''request'' | Some q \<Rightarrow>
     bindE (guardE (doc_object request) ''request'') (\<lambda>_.
     (let type = doc_or (doc_get q ''type'') (doc_or (doc_get q ''destinationType'') (Some (DStr ''WEBHOOK'')));
          endpoint = doc_or (doc_get q ''endpoint'') (doc_or (doc_get q ''endpointUrl'') (Some (DStr []))) in
     bindE (dv_validateEndpoint protocol_of endpoint type) (\<lambda>_.
     bindE (if doc_truthy (doc_get q ''eventFilters'') then dv_validateEventFilters (doc_get q ''eventFilters'') else Inr ()) (\<lambda>_.
     bindE (if doc_truthy (doc_get q ''retryStrategy'') then dv_validateRetryStrategy (doc_get q ''retryStrategy'') else Inr ()) (\<lambda>_.
     bindE (dv_validateCircuitBreakerThreshold (doc_get q ''circuitBreakerThreshold'')) (\<lambda>_.
     bindE (dv_validateTimeout (doc_get q ''timeout'')) (\<lambda>_. Inr q))))))))"

subsection \<open>DestinationMapper and RegisterDestinationService\<close>

text \<open>The request with the types \<open>CreateDestinationRequest\<close> declares; None is absent.\<close>

record CreateDestinationRequest =
  cr_type :: "string option"
  cr_destinationType :: "string option"
  cr_endpoint :: "string option"
  cr_endpointUrl :: "string option"
  cr_eventFilters :: "js_record option"
  cr_retryStrategy :: "(string \<times> RetryConfig option) option"
  cr_circuitBreakerThreshold :: "rat option"
  cr_timeout :: "rat option"
  cr_enabled :: "bool option"

text \<open>\<open>dto.type || dto.destinationType\<close> and \<open>dto.endpoint || dto.endpointUrl\<close>; empty when both are missing.\<close>

definition request_type :: "CreateDestinationRequest \<Rightarrow> string" where
  "request_type q = str_or (cr_type q) (str_or (cr_destinationType q) [])"

definition request_endpoint :: "CreateDestinationRequest \<Rightarrow> string" where
  "request_endpoint q = str_or (cr_endpoint q) (str_or (cr_endpointUrl q) [])"

definition request_strategy :: "CreateDestinationRequest \<Rightarrow> domain_error + RetryStrategyVO" where
  "request_strategy q = (case cr_retryStrategy q of None \<Rightarrow> RetryStrategyVO_exponential None None None None
     | Some (t, c) \<Rightarrow> RetryStrategyVO_create t c)"

definition destination_toDomain :: "ms \<Rightarrow> string \<Rightarrow> CreateDestinationRequest option \<Rightarrow> domain_error + Destination" where
  "destination_toDomain now uuid dto = (case dto of None \<Rightarrow> Inl ValidationError | Some q \<Rightarrow>
     if request_type q = [] \<or> request_endpoint q = [] then Inl ValidationError
     else bindE (DestinationTypeVO_new (js_arg.JStr (request_type q))) (\<lambda>type.
       bindE (request_strategy q) (\<lambda>retryStrategy.
       bindE (Destination_create now uuid (Some type) (request_endpoint q) (Some retryStrategy)
           (Some (nullish_or (cr_circuitBreakerThreshold q) 5)) (Some (nullish_or (cr_timeout q) 30000)) (cr_eventFilters q) None None) (\<lambda>entity.
         Inr (if cr_enabled q = Some False then disable now entity else entity)))))"

record DestinationResponse =
  rsp_id :: string
  rsp_type :: string
  rsp_endpoint :: string
  rsp_eventFilters :: "js_record option"
  rsp_enabled :: bool
  rsp_retryStrategy :: "string \<times> RetryConfig"
  rsp_circuitBreakerThreshold :: rat
  rsp_timeout :: rat
  rsp_createdAt :: ms
  rsp_updatedAt :: ms

definition destination_toResponse :: "Destination \<Rightarrow> DestinationResponse" where
  "destination_toResponse d = \<lparr> rsp_id = ds_id d, rsp_type = type_str (ds_type d), rsp_endpoint = ds_endpoint d, rsp_eventFilters = ds_eventFilters d,
     rsp_enabled = ds_enabled d, rsp_retryStrategy = (rs_type (ds_retryStrategy d), rs_config (ds_retryStrategy d)),
     rsp_circuitBreakerThreshold = ds_circuitBreakerThreshold d, rsp_timeout = ds_timeout d, rsp_createdAt = ds_createdAt d,
     rsp_updatedAt = ds_updatedAt d \<rparr>"

text \<open>Page, limit and total as given; by default one page of everything.\<close>

definition destination_toListResponse ::
  "Destination list \<Rightarrow> int option \<Rightarrow> int option \<Rightarrow> int option \<Rightarrow> DestinationResponse PaginatedResponse" where
  "destination_toListResponse entities n_total page limit =
     (let data = map destination_toResponse entities
      in createPaginatedResponse data (nullish_or n_total (int (length entities))) (nullish_or page 1) (nullish_or limit (max 1 (int (length data)))))"

definition service_validateEndpoint :: "string \<Rightarrow> string \<Rightarrow> domain_error + unit" where
  "service_validateEndpoint type endpoint =
     (if endpoint = [] \<or> trim endpoint = [] then Inl ValidationError
      else guardE (upper type = ''WEBHOOK'' \<longrightarrow> scheme_url web_schemes endpoint) ValidationError)"

text \<open>\<open>save\<close> answers the stored entity or throws.\<close>

definition register_destination ::
  "(Destination \<Rightarrow> 'd \<Rightarrow> 'd \<times> (domain_error + Destination)) \<Rightarrow> ms \<Rightarrow> string \<Rightarrow> CreateDestinationRequest \<Rightarrow> 'd \<Rightarrow> 'd \<times> (domain_error + DestinationResponse)" where
  "register_destination save now uuid q d =
     (case bindE (service_validateEndpoint (if request_type q = [] then ''WEBHOOK'' else request_type q) (request_endpoint q))
             (\<lambda>_. destination_toDomain now uuid (Some q)) of
        Inl e \<Rightarrow> (d, Inl e)
      | Inr destination \<Rightarrow> (case save destination d of
          (d', Inl e) \<Rightarrow> (d', Inl e) | (d', Inr saved) \<Rightarrow> (d', Inr (destination_toResponse saved))))"

text \<open>\<open>RegisterDestinationUseCase.execute\<close> passes \<open>Destination.create\<close> an object without an entry \<open>type\<close>, which is taken for the type
  itself; endpoint and strategy are then missing arguments.\<close>

definition register_usecase :: "(Destination \<Rightarrow> 'd \<Rightarrow> 'd \<times> (domain_error + Destination)) \<Rightarrow> ms \<Rightarrow> string \<Rightarrow> string \<Rightarrow> string \<Rightarrow> js_record option \<Rightarrow>
   'd \<Rightarrow> 'd \<times> (domain_error + Destination)" where
  "register_usecase save now uuid type url filters d =
     (case Destination_create now uuid (Some (if type = ''webhook'' then WEBHOOK else DATABASE)) [] None None None None None None of
        Inl e \<Rightarrow> (d, Inl e) | Inr destination \<Rightarrow> save destination d)"

subsection \<open>What is registered\<close>

lemma scheme_url_literal:
  assumes "scheme_url web_schemes s"
  shows "validateEndpoint WEBHOOK s \<longleftrightarrow> (\<exists>p \<in> set web_schemes. starts_with p s)"
  by (auto simp: validateEndpoint_def web_schemes_def)

lemma created_destination:
  assumes "uuid \<noteq> []" "e \<noteq> []"
  shows "Destination_create now uuid (Some ty) e (Some rs) (Some th) (Some tm) fs None None =
    (if 1 \<le> th \<and> 1 \<le> tm \<and> validateEndpoint ty e
     then Inr \<lparr> ds_id = uuid, ds_type = ty, ds_endpoint = e, ds_eventFilters = fs, ds_retryStrategy = rs, ds_circuitBreakerThreshold = th,
       ds_timeout = tm, ds_enabled = True, ds_metadata = [], ds_createdAt = now, ds_updatedAt = now, ds_deletedAt = None \<rparr>
     else Inl ValidationError)"
  using assms by (auto simp: Destination_create_def Destination_new_def nullish_or_def str_or_def)


text \<open>A request with the aliases of type and endpoint, switched off.\<close>

definition example_create :: "string \<Rightarrow> CreateDestinationRequest" where
  "example_create url = \<lparr> cr_type = None, cr_destinationType = Some ''webhook'', cr_endpoint = None, cr_endpointUrl = Some url, cr_eventFilters = None,
     cr_retryStrategy = Some (''NONE'', None), cr_circuitBreakerThreshold = None, cr_timeout = Some 1, cr_enabled = Some False \<rparr>"

definition example_none_strategy :: RetryStrategyVO where
  "example_none_strategy = \<lparr> rs_type = ''NONE'', rs_config = \<lparr> initialDelayMs = 1000, maxDelayMs = 3600000, jitterFactor = 1 / 10, maxRetries = None \<rparr> \<rparr>"


subsection \<open>FindDestinationsService\<close>

text \<open>The repository's queries, each None when it has no such method.\<close>

record destination_finder =
  fi_findAll :: "Destination list option"
  fi_findAllActive :: "Destination list option"
  fi_findById :: "(string \<Rightarrow> Destination option) option"

definition find_findAll :: "destination_finder \<Rightarrow> int option \<Rightarrow> int option \<Rightarrow> DestinationResponse PaginatedResponse" where
  "find_findAll r page limit =
     list_page page limit (map destination_toResponse (nullish_or (fi_findAll r) (nullish_or (fi_findAllActive r) [])))"

definition find_findByType :: "destination_finder \<Rightarrow> string \<Rightarrow> int option \<Rightarrow> int option \<Rightarrow> DestinationResponse PaginatedResponse" where
  "find_findByType r type page limit = (let rows = nullish_or (fi_findAll r) (nullish_or (fi_findAllActive r) []) in
     list_page page limit (map destination_toResponse (filter (\<lambda>d. type_str (ds_type d) = upper type) rows)))"

definition find_findEnabled :: "destination_finder \<Rightarrow> DestinationResponse list" where
  "find_findEnabled r = map destination_toResponse (case fi_findAllActive r of Some active \<Rightarrow> active
     | None \<Rightarrow> (case fi_findAll r of Some rows \<Rightarrow> filter ds_enabled rows | None \<Rightarrow> []))"

definition find_findById :: "destination_finder \<Rightarrow> string \<Rightarrow> string + DestinationResponse" where
  "find_findById r i = (case fi_findById r of None \<Rightarrow> Inl i | Some f \<Rightarrow> (case f i of None \<Rightarrow> Inl i | Some d \<Rightarrow> Inr (destination_toResponse d)))"

text \<open>An enabled flag is looked at by \<open>findAllActive\<close> only.\<close>

definition find_findMatching :: "destination_finder \<Rightarrow> js_record \<Rightarrow> DestinationResponse list" where
  "find_findMatching r payload = map destination_toResponse
     (filter (\<lambda>d. matchesEventFilter d payload) (case fi_findAllActive r of Some active \<Rightarrow> active | None \<Rightarrow> nullish_or (fi_findAll r) []))"

subsection \<open>DeliveryMapper\<close>

text \<open>An attempt of the domain, or a row of the attempts table.\<close>

datatype attempt_like = DomainAttempt RetryAttempt | AttemptRow int "int option" "rat option" "string option" ms

record AttemptResponse =
  at_number :: int
  at_statusCode :: "int option"
  at_latencyMs :: "rat option"
  at_error :: "string option"
  at_timestamp :: ms

definition attempt_toResponse :: "attempt_like \<Rightarrow> AttemptResponse" where
  "attempt_toResponse a = (case a of
       DomainAttempt r \<Rightarrow> \<lparr> at_number = ra_number r, at_statusCode = ra_statusCode r, at_latencyMs = ra_latencyMs r, at_error = ra_error r,
         at_timestamp = ra_timestamp r \<rparr>
     | AttemptRow n status latency message created \<Rightarrow> \<lparr> at_number = n, at_statusCode = status, at_latencyMs = latency, at_error = message,
         at_timestamp = created \<rparr>)"

record DeliveryResponse =
  vr_id :: string
  vr_taskResultId :: string
  vr_destinationId :: string
  vr_status :: string
  vr_retryCount :: int
  vr_nextRetryAt :: "ms option"
  vr_lastAttemptAt :: "ms option"
  vr_lastError :: "(string \<times> string \<times> int option) option"
  vr_completedAt :: "ms option"
  vr_attempts :: "AttemptResponse list"
  vr_createdAt :: ms
  vr_updatedAt :: ms

text \<open>\<open>lastErr.statusCode || undefined\<close>\<close>

definition delivery_toResponse :: "Delivery \<Rightarrow> attempt_like list option \<Rightarrow> DeliveryResponse" where
  "delivery_toResponse d attempts = \<lparr> vr_id = dl_id d, vr_taskResultId = dl_taskResultId d, vr_destinationId = dl_destinationId d,
     vr_status = DeliveryStatusVO_kind (dl_status d), vr_retryCount = dl_retryCount d, vr_nextRetryAt = dl_nextRetryAt d,
     vr_lastAttemptAt = dl_lastAttemptAt d,
     vr_lastError = map_option (\<lambda>e. (category_str (de_category e), de_message e, if de_statusCode e = Some 0 then None else de_statusCode e)) (dl_lastError d),
     vr_completedAt = dl_completedAt d,
     vr_attempts = map attempt_toResponse (nullish_or attempts (map DomainAttempt (dl_attempts d))),
     vr_createdAt = dl_createdAt d, vr_updatedAt = dl_updatedAt d \<rparr>"

definition delivery_toListResponse :: "Delivery list \<Rightarrow> int \<Rightarrow> int \<Rightarrow> int \<Rightarrow> DeliveryResponse PaginatedResponse" where
  "delivery_toListResponse ds n_total page limit = createPaginatedResponse (map (\<lambda>d. delivery_toResponse d None) ds) n_total page limit"

definition delivery_toDomain :: "ms \<Rightarrow> string \<Rightarrow> string option \<Rightarrow> string option \<Rightarrow> domain_error + Delivery" where
  "delivery_toDomain now uuid taskResultId destinationId =
     (if str_or taskResultId [] = [] \<or> str_or destinationId [] = [] then Inl ValidationError
      else Delivery_create now uuid (str_or taskResultId []) (str_or destinationId []) None)"

subsection \<open>Pagination\<close>

text \<open>\<open>validate\<close>: numbers may come as text; a sort column that is empty passes.\<close>

record page_params =
  pp_page :: js_num
  pp_limit :: rat
  pp_sort :: string
  pp_order :: string

definition sort_name :: "string \<Rightarrow> bool" where
  "sort_name s \<longleftrightarrow> s = [] \<or> list_all (\<lambda>c. alnum_char c \<or> c = CHR ''_'') s"

definition pagination_validate :: "js_num option \<Rightarrow> js_num option \<Rightarrow> string option \<Rightarrow> string option \<Rightarrow> string + page_params" where
  "pagination_validate page limit column order =
     (let p = nullish_or page (Fin 1); l = nullish_or limit (Fin 50); s = nullish_or column ''createdAt'';
          o' = (case order of None \<Rightarrow> ''desc'' | Some t \<Rightarrow> lower t) in
      if (case p of Fin x \<Rightarrow> x \<le> 0 | Infinite positive \<Rightarrow> \<not> positive | NotNum \<Rightarrow> True) then Inl ''page''
      else (case l of Fin x \<Rightarrow> if x \<le> 0 \<or> x > 1000 then Inl ''limit''
              else if \<not> sort_name s then Inl ''sort''
              else if o' \<noteq> ''asc'' \<and> o' \<noteq> ''desc'' then Inl ''order''
              else Inr \<lparr> pp_page = p, pp_limit = x, pp_sort = s, pp_order = o' \<rparr>
            | _ \<Rightarrow> Inl ''limit''))"

lemma pagination_bounds:
  assumes "pagination_validate page limit column order = Inr p"
  shows "0 < pp_limit p \<and> pp_limit p \<le> 1000 \<and> (pp_order p = ''asc'' \<or> pp_order p = ''desc'') \<and> sort_name (pp_sort p)"
  using assms by (auto simp: pagination_validate_def Let_def split: if_splits js_num.splits)

text \<open>The pages of one type hold every destination of that type once, in the order of the table, as a client sees it.\<close>
theorem lists_by_type_are_complete:
  assumes "0 < limit" "fi_findAll r = Some rows" "length rows \<le> k * nat limit"
  shows "concat (map (\<lambda>i. pr_data (find_findByType r type (Some (int i + 1)) (Some limit))) [0..<k]) =
    map destination_toResponse (filter (\<lambda>d. type_str (ds_type d) = upper type) rows)"
proof -
  let ?rows = "map destination_toResponse (filter (\<lambda>d. type_str (ds_type d) = upper type) rows)"
  have "length ?rows \<le> k * nat limit" using assms(3) length_filter_le [of _ rows] by (metis le_trans length_map)
  then show ?thesis
    by (simp add: find_findByType_def assms(2) nullish_or_def list_page_page [OF assms(1)] concat_chunks)
qed

theorem lists_by_type_are_complete_witness:
  "concat (map (\<lambda>i. pr_data (find_findByType \<lparr> fi_findAll = Some [example_destination, example_destination], fi_findAllActive = None, fi_findById = None \<rparr>
     ''audit'' (Some (int i + 1)) (Some 1))) [0..<2]) = []"
proof -
  have "upper ''audit'' = ''AUDIT''" by code_simp
  moreover have "type_str (ds_type example_destination) \<noteq> ''AUDIT''" by (simp add: example_destination_def type_str_def)
  ultimately show ?thesis
    using lists_by_type_are_complete [of 1 "\<lparr> fi_findAll = Some [example_destination, example_destination], fi_findAllActive = None, fi_findById = None \<rparr>"
      "[example_destination, example_destination]" 2 "''audit''"] by simp
qed

text \<open>The status a client reads is in lower case, where the declared type lists upper case; the value object reads either back.\<close>

lemma response_status_reads_back:
  "DeliveryStatusVO_new (js_arg.JStr (vr_status (delivery_toResponse d attempts))) = Inr (dl_status d) \<and>
   vr_status (delivery_toResponse d attempts) \<noteq> status_str (dl_status d)"
proof
  show "DeliveryStatusVO_new (js_arg.JStr (vr_status (delivery_toResponse d attempts))) = Inr (dl_status d)"
    by (simp add: delivery_toResponse_def DeliveryStatusVO_kind_def DeliveryStatusVO_new_Inr_iff)
  show "vr_status (delivery_toResponse d attempts) \<noteq> status_str (dl_status d)"
    by (cases "dl_status d") (simp_all add: delivery_toResponse_def DeliveryStatusVO_kind_def status_str_def lower_char_def char_of_def bit_0)
qed

end
