(* ===== verification/QF_Api.thy ===== *)
theory QF_Api
  imports QF_Validation QF_Auth
begin

text \<open>
  The HTTP interface (\<open>api\<close>): request validators, serializers, controllers, middleware, the table of routes, and how
  \<open>bootstrap/api-setup.ts\<close> puts them together.

  The controllers take services of type \<open>any\<close> and ask for each method before they call it; an object is a map from method names to
  methods on the state \<open>'d\<close> behind them. The schemas are those of the library zod: an object keeps the entries its
  schema names, in the schema's order, and the first issue is the first entry that fails; its e-mail test is a parameter. A response is its
  status and data; timestamps, trace ids and other headers are left out. Express hands on to the first route whose method and
  segments match. Shown: who reaches which route, what the validators keep of a request, and that most of the wired interface answers
  success without doing anything.
\<close>

subsection \<open>Schemas\<close>

type_synonym zschema = "jdoc option \<Rightarrow> string + jdoc option"

definition z_optional :: "zschema \<Rightarrow> zschema" where
  "z_optional s a = (case a of None \<Rightarrow> Inr None | Some _ \<Rightarrow> s a)"

definition z_value :: "(jdoc \<Rightarrow> bool) \<Rightarrow> zschema" where
  "z_value p a = (case a of None \<Rightarrow> Inl [] | Some v \<Rightarrow> if p v then Inr a else Inl [])"

definition z_string :: "(string \<Rightarrow> bool) \<Rightarrow> zschema" where
  "z_string p = z_value (\<lambda>v. case v of DStr s \<Rightarrow> p s | _ \<Rightarrow> False)"

definition z_number :: "(rat \<Rightarrow> bool) \<Rightarrow> zschema" where
  "z_number p = z_value (\<lambda>v. case v of DNum x \<Rightarrow> p x | _ \<Rightarrow> False)"

definition z_boolean :: zschema where
  "z_boolean = z_value (\<lambda>v. case v of DBool b \<Rightarrow> True | _ \<Rightarrow> False)"

definition z_record :: "(jdoc \<Rightarrow> bool) \<Rightarrow> zschema" where
  "z_record p = z_value (\<lambda>v. case v of DObj ps \<Rightarrow> list_all (\<lambda>(k, x). p x) ps | _ \<Rightarrow> False)"

fun z_fields :: "(string \<times> zschema) list \<Rightarrow> (string \<times> jdoc) list \<Rightarrow> string + (string \<times> jdoc) list" where
  "z_fields [] ps = Inr []"
| "z_fields ((k, s) # fs) ps = (case s (map_of ps k) of Inl path \<Rightarrow> Inl (if path = [] then k else k @ CHR ''.'' # path)
     | Inr kept \<Rightarrow> (case z_fields fs ps of Inl path \<Rightarrow> Inl path
         | Inr rest \<Rightarrow> Inr ((case kept of None \<Rightarrow> [] | Some v \<Rightarrow> [(k, v)]) @ rest)))"

definition z_object :: "(string \<times> zschema) list \<Rightarrow> zschema" where
  "z_object fs a = (case a of Some (DObj ps) \<Rightarrow> (case z_fields fs ps of Inl path \<Rightarrow> Inl path | Inr qs \<Rightarrow> Inr (Some (DObj qs))) | _ \<Rightarrow> Inl [])"

definition ingestResultSchema :: "(string \<Rightarrow> bool) \<Rightarrow> zschema" where
  "ingestResultSchema zod_email = z_object
     [(''emailId'', z_string zod_email), (''agentId'', z_string (\<lambda>s. 2 \<le> length s \<and> length s \<le> 64)),
      (''agentVersion'', z_optional (z_string semver)), (''confidenceScore'', z_number (\<lambda>x. 0 \<le> x \<and> x \<le> 1)),
      (''resultPayload'', z_record (\<lambda>_. True)),
      (''llmMetadata'', z_optional (z_object
        [(''model'', z_optional (z_string (\<lambda>s. s \<noteq> []))),
         (''promptHash'', z_optional (z_string (\<lambda>s. length s = 64 \<and> list_all hex_char s))),
         (''tokenInput'', z_optional (z_number (\<lambda>x. 0 \<le> x))), (''tokenOutput'', z_optional (z_number (\<lambda>x. 0 \<le> x)))]))]"

definition retryStrategySchema :: zschema where
  "retryStrategySchema = z_object
     [(''type'', z_optional (z_string (\<lambda>s. s \<in> set [''EXPONENTIAL'', ''FIXED'', ''LINEAR'', ''NONE'']))),
      (''maxRetries'', z_optional (z_number (\<lambda>x. 0 \<le> x))), (''initialDelayMs'', z_optional (z_number (\<lambda>x. 0 \<le> x))),
      (''maxDelayMs'', z_optional (z_number (\<lambda>x. 0 \<le> x))), (''backoffMultiplier'', z_optional (z_number (\<lambda>x. 0 < x)))]"

definition text_value :: "jdoc \<Rightarrow> bool" where
  "text_value v = (case v of DStr s \<Rightarrow> True | _ \<Rightarrow> False)"

text \<open>The entries that creating and updating share.\<close>

definition destination_tail :: "(string \<times> zschema) list" where
  "destination_tail = [(''circuitBreakerThreshold'', z_optional (z_number (\<lambda>x. 1 \<le> x \<and> x \<le> 100))),
     (''timeout'', z_optional (z_number (\<lambda>x. 100 \<le> x \<and> x \<le> 300000))), (''headers'', z_optional (z_record text_value)),
     (''enabled'', z_optional z_boolean)]"

definition createDestinationSchema :: zschema where
  "createDestinationSchema = z_object
     ([(''name'', z_optional (z_string (\<lambda>s. 2 \<le> length s))),
       (''type'', z_string (\<lambda>s. s \<in> set [''WEBHOOK'', ''DATABASE'', ''QUEUE'', ''AUDIT''])), (''endpoint'', z_string (\<lambda>s. s \<noteq> [])),
       (''eventFilters'', z_optional (z_record (\<lambda>_. True))), (''retryStrategy'', z_optional retryStrategySchema)] @ destination_tail)"

definition updateDestinationSchema :: zschema where
  "updateDestinationSchema = z_object
     ([(''name'', z_optional (z_string (\<lambda>s. 2 \<le> length s))), (''endpoint'', z_optional (z_string (\<lambda>s. s \<noteq> []))),
       (''eventFilters'', z_optional (z_record (\<lambda>_. True))), (''retryStrategy'', z_optional (z_record (\<lambda>_. True)))] @ destination_tail)"

subsection \<open>Request validators\<close>

text \<open>What reaches \<open>next(err)\<close>: an error of the program with code, status and message, or any other object with the properties that are
  read.\<close>

datatype thrown =
    ThrownBase (tb_code: string) (tb_status: int) (tb_message: string)
  | ThrownObject (to_name: string) (to_code: "string option") (to_statusCode: "int option") (to_status: "int option") (to_message: string)
  | ThrownOther

definition invalid :: "string \<Rightarrow> thrown" where
  "invalid field = ThrownBase ''VALIDATION_FAILED'' 422 field"

definition not_found :: "string \<Rightarrow> thrown" where
  "not_found message = ThrownBase ''NOT_FOUND'' 404 message"

definition type_error :: thrown where
  "type_error = ThrownObject ''TypeError'' None None None ''Cannot read properties of undefined''"

text \<open>The parsed body, which is an object, or the field of the first issue.\<close>

definition parse_body :: "zschema \<Rightarrow> jdoc option \<Rightarrow> thrown + jdoc" where
  "parse_body s body = (case s body of Inl path \<Rightarrow> Inl (invalid path) | Inr None \<Rightarrow> Inl (invalid []) | Inr (Some v) \<Rightarrow> Inr v)"

definition api_ingestResult :: "(string \<Rightarrow> bool) \<Rightarrow> jdoc option \<Rightarrow> thrown + jdoc" where
  "api_ingestResult zod_email body = parse_body (ingestResultSchema zod_email) body"

definition api_createDestination :: "jdoc option \<Rightarrow> thrown + jdoc" where
  "api_createDestination body = parse_body createDestinationSchema body"

definition api_updateDestination :: "jdoc option \<Rightarrow> thrown + jdoc" where
  "api_updateDestination body = parse_body updateDestinationSchema body"

text \<open>The values of a query are texts, arrays and objects. Both have to be texts, otherwise the schema fails and the defaults
  stand.\<close>

definition api_paginationParams :: "(string \<Rightarrow> jdoc option) \<Rightarrow> int \<times> int" where
  "api_paginationParams query = (case (query ''page'', query ''limit'') of
       (Some (DStr p), Some (DStr l)) \<Rightarrow> (max 1 (num_or (parse_int p) 1), min 100 (max 1 (num_or (parse_int l) 20)))
     | _ \<Rightarrow> (1, 20))"

definition param_id_shape :: "string \<Rightarrow> bool" where
  "param_id_shape s \<longleftrightarrow> isValidUUID s \<or> 4 \<le> length s \<and> length s \<le> 64 \<and> list_all (\<lambda>c. alnum_char c \<or> c \<in> set ''_-'') s"

definition api_validateUUID :: "string \<Rightarrow> string \<Rightarrow> thrown + string" where
  "api_validateUUID value fieldName =
     (if value = [] then Inl (invalid fieldName) else if param_id_shape (trim value) then Inr (trim value) else Inl (invalid fieldName))"

definition api_validateEmail :: "string \<Rightarrow> thrown + string" where
  "api_validateEmail value =
     (if value = [] then Inl (invalid ''email'') else if email_shape (trim value) then Inr (trim value) else Inl (invalid ''email''))"

subsection \<open>Serializers\<close>

text \<open>\<open>Math.ceil(total / (limit || 1)) || 1\<close>\<close>

definition total_pages :: "int \<Rightarrow> int \<Rightarrow> int" where
  "total_pages n_total limit = (let n = - ((- n_total) div (if limit = 0 then 1 else limit)) in if n = 0 then 1 else n)"

definition api_paginated :: "jdoc list \<Rightarrow> int \<Rightarrow> int \<Rightarrow> int \<Rightarrow> jdoc" where
  "api_paginated items page limit n_total = (let pages = total_pages n_total limit in
     DObj [(''data'', DArr items), (''pagination'', DObj [(''page'', DNum (of_int page)), (''limit'', DNum (of_int limit)), (''total'', DNum (of_int n_total)),
       (''totalPages'', DNum (of_int pages)), (''hasNextPage'', DBool (page < pages)), (''hasPrevPage'', DBool (page > 1))])])"

definition api_error_name :: "int \<Rightarrow> string" where
  "api_error_name status = (if status = 400 then ''Bad Request'' else if status = 401 then ''Unauthorized'' else if status = 403 then ''Forbidden''
     else if status = 404 then ''Not Found'' else if status = 409 then ''Conflict'' else if status = 413 then ''Payload Too Large''
     else if status = 422 then ''Unprocessable Entity'' else if status = 429 then ''Too Many Requests'' else if status = 503 then ''Service Unavailable''
     else ''Internal Server Error'')"

record error_envelope =
  ee_error :: string
  ee_code :: string
  ee_message :: string
  ee_statusCode :: int

definition api_serialize :: "thrown \<Rightarrow> error_envelope" where
  "api_serialize e =
     (let envelope = (\<lambda>status code message. \<lparr> ee_error = api_error_name status, ee_code = code, ee_message = message, ee_statusCode = status \<rparr>);
          unexpected = ''An unexpected internal server error occurred.'' in
      case e of
        ThrownBase code status message \<Rightarrow> envelope (if status = 0 then 500 else status) (if code = [] then ''UNKNOWN_ERROR'' else code) message
      | ThrownObject name code statusCode status message \<Rightarrow>
          if name = ''ValidationError'' \<or> code = Some ''VALIDATION_FAILED'' \<or> statusCode = Some 422
          then envelope 422 ''VALIDATION_FAILED'' (if message = [] then ''Validation failed for request parameters.'' else message)
          else if name = ''NotFoundError'' \<or> statusCode = Some 404
          then envelope 404 ''NOT_FOUND'' (if message = [] then ''Requested resource was not found.'' else message)
          else if name = ''ConflictError'' \<or> statusCode = Some 409
          then envelope 409 ''RESULT_ALREADY_EXISTS'' (if message = [] then ''Resource conflict occurred.'' else message)
          else if name = ''AuthenticationError'' \<or> statusCode = Some 401
          then envelope 401 ''UNAUTHENTICATED'' (if message = [] then ''Authentication required.'' else message)
          else if name = ''AuthorizationError'' \<or> statusCode = Some 403
          then envelope 403 ''UNAUTHORIZED'' (if message = [] then ''Access denied.'' else message)
          else if name = ''RateLimitError'' \<or> statusCode = Some 429
          then envelope 429 ''RATE_LIMITED'' (if message = [] then ''Rate limit exceeded.'' else message)
          else envelope (num_or statusCode (num_or status 500)) ''UNKNOWN_ERROR'' (if message = [] then unexpected else message)
      | ThrownOther \<Rightarrow> envelope 500 ''UNKNOWN_ERROR'' unexpected)"

subsection \<open>Objects with optional methods\<close>

type_synonym 'd meth = "jdoc option list \<Rightarrow> 'd \<Rightarrow> 'd \<times> (thrown + jdoc option)"
type_synonym 'd obj = "string \<Rightarrow> 'd meth option"

text \<open>\<open>if (o && typeof o.m === 'function') ... else if ...\<close>: the first method that is there is called.\<close>

fun first_call :: "('d obj \<times> string \<times> jdoc option list) list \<Rightarrow> 'd \<Rightarrow> ('d \<times> (thrown + jdoc option)) option" where
  "first_call [] d = None"
| "first_call ((ob, m, args) # rest) d = (case ob m of Some f \<Rightarrow> Some (f args d) | None \<Rightarrow> first_call rest d)"

definition no_object :: "'d obj" where
  "no_object = (\<lambda>m. None)"

lemma first_call_None: "\<forall>(ob, m, args) \<in> set cs. ob m = None \<Longrightarrow> first_call cs d = None"
  by (induction cs) auto

record response =
  rs_status :: int
  rs_data :: "jdoc option"

type_synonym 'd handled = "'d \<times> (thrown + response)"

text \<open>\<open>{ a, ...v }\<close> for an object \<open>v\<close>: later entries replace earlier ones in place.\<close>

definition doc_spread :: "(string \<times> jdoc) list \<Rightarrow> jdoc \<Rightarrow> (string \<times> jdoc) list" where
  "doc_spread ps v = (case v of DObj qs \<Rightarrow> fold (\<lambda>(k, x). mset_at k x) qs ps | _ \<Rightarrow> ps)"

definition doc_nullish :: "jdoc option \<Rightarrow> bool" where
  "doc_nullish a \<longleftrightarrow> a = None \<or> a = Some DNull"

subsection \<open>DestinationController\<close>

record 'd destination_controller =
  dc_destinationService :: "'d obj"
  dc_findDestinationsService :: "'d obj"
  dc_destinationRepository :: "'d obj"

definition dc_createDestination :: "'d destination_controller \<Rightarrow> ms \<Rightarrow> jdoc option \<Rightarrow> 'd \<Rightarrow> 'd handled" where
  "dc_createDestination c now body d = (case api_createDestination body of Inl e \<Rightarrow> (d, Inl e)
     | Inr v \<Rightarrow>
        (let (d', r) = (case first_call [(dc_destinationService c, ''register'', [Some v]), (dc_destinationService c, ''registerDestination'', [Some v]),
                 (dc_destinationRepository c, ''create'', [Some v])] d of
               Some x \<Rightarrow> x
             | None \<Rightarrow> (d, Inr (Some (DObj (mset_at ''enabled'' (DBool True) (doc_spread [(''id'', DStr (''dest-'' @ show_int now))] v))))))
         in (d', case r of Inl e \<Rightarrow> Inl e | Inr created \<Rightarrow> if doc_nullish created then Inl type_error else Inr \<lparr> rs_status = 201, rs_data = created \<rparr>)))"

text \<open>\<open>Array.isArray(result) ? result : (result.items || result.data || [])\<close> and the total, for a result whose lists are arrays.\<close>

definition result_items :: "jdoc \<Rightarrow> jdoc list" where
  "result_items r = (case r of DArr vs \<Rightarrow> vs | _ \<Rightarrow>
     (case doc_or (doc_get r ''items'') (doc_get r ''data'') of Some (DArr vs) \<Rightarrow> vs | _ \<Rightarrow> []))"

definition result_total :: "jdoc \<Rightarrow> int" where
  "result_total r = (case doc_get r ''total'' of Some (DNum x) \<Rightarrow> \<lfloor>x\<rfloor> | _ \<Rightarrow> int (length (result_items r)))"

definition page_doc :: "int \<times> int \<Rightarrow> jdoc" where
  "page_doc p = DObj [(''page'', DNum (of_int (fst p))), (''limit'', DNum (of_int (snd p)))]"

definition empty_listing :: jdoc where
  "empty_listing = DObj [(''items'', DArr []), (''total'', DNum 0)]"

text \<open>A listing from an optional method's answer.\<close>

definition listing_response :: "int \<times> int \<Rightarrow> 'd \<times> (thrown + jdoc option) \<Rightarrow> 'd handled" where
  "listing_response p a = (fst a, case snd a of Inl e \<Rightarrow> Inl e
     | Inr r \<Rightarrow> if doc_nullish r then Inl type_error
         else Inr \<lparr> rs_status = 200, rs_data = Some (api_paginated (result_items (the r)) (fst p) (snd p) (result_total (the r))) \<rparr>)"

text \<open>\<open>findAll\<close> of the repository gives all rows, whatever the page.\<close>

definition wrap_all :: "'d \<times> (thrown + jdoc option) \<Rightarrow> 'd \<times> (thrown + jdoc option)" where
  "wrap_all a = (fst a, case snd a of Inl e \<Rightarrow> Inl e
     | Inr (Some (DArr vs)) \<Rightarrow> Inr (Some (DObj [(''items'', DArr vs), (''total'', DNum (of_int (int (length vs))))])) | Inr _ \<Rightarrow> Inl type_error)"

definition dc_listDestinations :: "'d destination_controller \<Rightarrow> (string \<Rightarrow> jdoc option) \<Rightarrow> 'd \<Rightarrow> 'd handled" where
  "dc_listDestinations c query d =
     (let p = api_paginationParams query; typeFilter = (if doc_truthy (query ''type'') then Some (DStr (doc_word (the (query ''type'')))) else None)
      in listing_response p
        (case first_call [(dc_findDestinationsService c, ''listDestinations'', [Some (page_doc p), typeFilter]),
              (dc_destinationService c, ''listDestinations'', [Some (page_doc p)])] d of
           Some x \<Rightarrow> x
         | None \<Rightarrow> (case dc_destinationRepository c ''findAll'' of Some f \<Rightarrow> wrap_all (f [] d) | None \<Rightarrow> (d, Inr (Some empty_listing)))))"

definition found_response :: "string \<Rightarrow> ('d \<times> (thrown + jdoc option)) option \<Rightarrow> 'd \<Rightarrow> 'd handled" where
  "found_response message a d = (case a of None \<Rightarrow> (d, Inl (not_found message))
     | Some (d', r) \<Rightarrow> (d', case r of Inl e \<Rightarrow> Inl e
         | Inr v \<Rightarrow> if doc_truthy v then Inr \<lparr> rs_status = 200, rs_data = v \<rparr> else Inl (not_found message)))"

definition dc_getDestination :: "'d destination_controller \<Rightarrow> string \<Rightarrow> 'd \<Rightarrow> 'd handled" where
  "dc_getDestination c param d = (case api_validateUUID param ''destinationId'' of Inl e \<Rightarrow> (d, Inl e)
     | Inr i \<Rightarrow> found_response ''Destination profile was not found.''
         (first_call [(dc_destinationRepository c, ''findById'', [Some (DStr i)]), (dc_findDestinationsService c, ''getDestination'', [Some (DStr i)])] d) d)"

definition dc_updateDestination :: "'d destination_controller \<Rightarrow> string \<Rightarrow> jdoc option \<Rightarrow> 'd \<Rightarrow> 'd handled" where
  "dc_updateDestination c param body d = (case bindE (api_validateUUID param ''destinationId'') (\<lambda>i. bindE (api_updateDestination body) (\<lambda>v. Inr (i, v))) of
       Inl e \<Rightarrow> (d, Inl e)
     | Inr (i, v) \<Rightarrow>
        (case first_call [(dc_destinationService c, ''update'', [Some (DStr i), Some v]), (dc_destinationRepository c, ''update'', [Some (DStr i), Some v])] d of
           Some (d', Inl e) \<Rightarrow> (d', Inl e)
         | Some (d', Inr r) \<Rightarrow> (d', Inr \<lparr> rs_status = 200, rs_data = r \<rparr>)
         | None \<Rightarrow> (d, Inr \<lparr> rs_status = 200, rs_data = Some (DObj (doc_spread [(''id'', DStr i)] v)) \<rparr>)))"

definition dc_deleteDestination :: "'d destination_controller \<Rightarrow> string \<Rightarrow> 'd \<Rightarrow> 'd handled" where
  "dc_deleteDestination c param d = (case api_validateUUID param ''destinationId'' of Inl e \<Rightarrow> (d, Inl e)
     | Inr i \<Rightarrow> (case first_call [(dc_destinationService c, ''delete'', [Some (DStr i)]), (dc_destinationRepository c, ''delete'', [Some (DStr i)])] d of
         Some (d', Inl e) \<Rightarrow> (d', Inl e)
       | Some (d', Inr r) \<Rightarrow> (d', Inr \<lparr> rs_status = 204, rs_data = None \<rparr>)
       | None \<Rightarrow> (d, Inr \<lparr> rs_status = 204, rs_data = None \<rparr>)))"

subsection \<open>DeliveryController, ResultController, LineageController, HealthController\<close>

record 'd delivery_controller =
  vc_deliveryService :: "'d obj"
  vc_scheduleRetryService :: "'d obj"
  vc_deliveryRepository :: "'d obj"

definition vc_getDelivery :: "'d delivery_controller \<Rightarrow> string \<Rightarrow> 'd \<Rightarrow> 'd handled" where
  "vc_getDelivery c param d = (case api_validateUUID param ''deliveryId'' of Inl e \<Rightarrow> (d, Inl e)
     | Inr i \<Rightarrow> found_response ''Delivery record was not found.''
         (first_call [(vc_deliveryService c, ''getDelivery'', [Some (DStr i)]), (vc_deliveryRepository c, ''findById'', [Some (DStr i)])] d) d)"

definition vc_listDeliveries :: "'d delivery_controller \<Rightarrow> (string \<Rightarrow> jdoc option) \<Rightarrow> 'd \<Rightarrow> 'd handled" where
  "vc_listDeliveries c query d = (let p = api_paginationParams query in
     listing_response p
       (case first_call [(vc_deliveryService c, ''listDeliveries'', [Some (page_doc p)]), (vc_deliveryRepository c, ''findPaginated'', [Some (page_doc p)])] d of
          Some x \<Rightarrow> x | None \<Rightarrow> (d, Inr (Some empty_listing))))"

definition vc_retryDelivery :: "'d delivery_controller \<Rightarrow> string \<Rightarrow> jdoc option \<Rightarrow> 'd \<Rightarrow> 'd handled" where
  "vc_retryDelivery c param body d = (case api_validateUUID param ''deliveryId'' of Inl e \<Rightarrow> (d, Inl e)
     | Inr i \<Rightarrow>
        (case first_call [(vc_scheduleRetryService c, ''scheduleRetry'', [Some (DObj (doc_spread [(''deliveryId'', DStr i)] (nullish_or body DNull)))]),
              (vc_deliveryService c, ''retry'', [Some (DStr i)])] d of
           Some (d', Inl e) \<Rightarrow> (d', Inl e)
         | Some (d', Inr r) \<Rightarrow> (d', Inr \<lparr> rs_status = 202, rs_data = None \<rparr>)
         | None \<Rightarrow> (d, Inr \<lparr> rs_status = 202, rs_data = None \<rparr>)))"

text \<open>\<open>rt_resultRepository\<close> is \<open>this.resultRepository || this.ingestResultService?.resultRepository\<close>, None when neither is there;
  \<open>ingest\<close> is called without asking for it.\<close>

record 'd result_controller =
  rt_ingestResultService :: "'d obj"
  rt_validateResultService :: "'d obj"
  rt_resultRepository :: "'d obj option"

definition rt_ingestResult :: "'d result_controller \<Rightarrow> (string \<Rightarrow> bool) \<Rightarrow> jdoc option \<Rightarrow> 'd \<Rightarrow> 'd handled" where
  "rt_ingestResult c zod_email body d = (case api_ingestResult zod_email body of Inl e \<Rightarrow> (d, Inl e)
     | Inr v \<Rightarrow>
        (case (case rt_validateResultService c ''validate'' of None \<Rightarrow> (d, Inr None) | Some f \<Rightarrow> f [Some v] d) of
           (d1, Inl e) \<Rightarrow> (d1, Inl e)
         | (d1, Inr _) \<Rightarrow> (case rt_ingestResultService c ''ingest'' of None \<Rightarrow> (d1, Inl type_error)
             | Some f \<Rightarrow> (case f [Some v] d1 of (d2, Inl e) \<Rightarrow> (d2, Inl e)
                 | (d2, Inr r) \<Rightarrow> (d2, if doc_nullish r then Inl type_error else Inr \<lparr> rs_status = 202, rs_data = None \<rparr>)))))"

text \<open>\<open>toResponse\<close> of an entity is the repository's answer here.\<close>

definition rt_getResult :: "'d result_controller \<Rightarrow> string \<Rightarrow> 'd \<Rightarrow> 'd handled" where
  "rt_getResult c param d = (case api_validateUUID param ''resultId'' of Inl e \<Rightarrow> (d, Inl e)
     | Inr i \<Rightarrow> found_response ''Task result record was not found.''
         (case rt_resultRepository c of
            Some repo \<Rightarrow> (case repo ''findById'' of Some f \<Rightarrow> Some (f [Some (DStr i)] d)
              | None \<Rightarrow> (case repo ''getById'' of None \<Rightarrow> None
                  | Some f \<Rightarrow> (case f [Some (DStr i)] d of (d', Inl e) \<Rightarrow> Some (d', Inr None) | x \<Rightarrow> Some x)))
          | None \<Rightarrow> first_call [(rt_ingestResultService c, ''getResult'', [Some (DStr i)])] d) d)"

record 'd lineage_controller =
  nc_resultService :: "'d obj"
  nc_resultRepository :: "'d obj"

definition nc_getLineage :: "'d lineage_controller \<Rightarrow> string \<Rightarrow> 'd \<Rightarrow> 'd handled" where
  "nc_getLineage c param d = (case api_validateEmail param of Inl e \<Rightarrow> (d, Inl e)
     | Inr email \<Rightarrow> found_response ''No classification lineage records found.''
         (case nc_resultService c ''getLineage'' of Some f \<Rightarrow> Some (f [Some (DStr email)] d)
          | None \<Rightarrow> (case nc_resultRepository c ''findByEmailId'' of None \<Rightarrow> None
              | Some f \<Rightarrow> (case f [Some (DStr email)] d of
                  (d', Inr (Some (DArr (v # vs)))) \<Rightarrow> Some (d', Inr (Some (DObj [(''emailId'', DStr email), (''totalRecords'', DNum (of_int (1 + int (length vs)))),
                     (''records'', DArr (v # vs))])))
                | (d', Inl e) \<Rightarrow> Some (d', Inl e)
                | (d', Inr _) \<Rightarrow> Some (d', Inr None)))) d)"

text \<open>Whether a dependency is up: it is when it cannot be asked.\<close>

definition hc_checkDb :: "'d obj \<Rightarrow> 'd \<Rightarrow> bool" where
  "hc_checkDb pool d = (case pool ''ping'' of None \<Rightarrow> True | Some f \<Rightarrow> (case snd (f [] d) of Inl e \<Rightarrow> False | Inr v \<Rightarrow> doc_truthy v))"

definition hc_checkRedis :: "'d obj \<Rightarrow> 'd \<Rightarrow> bool" where
  "hc_checkRedis pool d = (case pool ''ping'' of None \<Rightarrow> True
     | Some f \<Rightarrow> (case snd (f [] d) of Inl e \<Rightarrow> False | Inr v \<Rightarrow> v = Some (DStr ''PONG'') \<or> v = Some (DBool True)))"

definition health_doc :: "bool \<Rightarrow> bool \<Rightarrow> jdoc" where
  "health_doc db redis = (let up = (\<lambda>b. DObj [(''status'', DStr (if b then ''up'' else ''down''))]) in
     DObj [(''status'', DStr (if db \<and> redis then ''healthy'' else ''unhealthy'')),
       (''checks'', DObj [(''database'', up db), (''redis'', up redis), (''queue'', up True)])])"

definition hc_getHealth :: "'d obj \<Rightarrow> 'd obj \<Rightarrow> 'd \<Rightarrow> response" where
  "hc_getHealth dbPool redisPool d = \<lparr> rs_status = 200, rs_data = Some (health_doc (hc_checkDb dbPool d) (hc_checkRedis redisPool d)) \<rparr>"

definition hc_getHealthDetails :: "'d obj \<Rightarrow> 'd obj \<Rightarrow> 'd \<Rightarrow> response" where
  "hc_getHealthDetails dbPool redisPool d = (let db = hc_checkDb dbPool d; redis = hc_checkRedis redisPool d in
     \<lparr> rs_status = (if db \<and> redis then 200 else 503), rs_data = Some (health_doc db redis) \<rparr>)"

subsection \<open>Middleware\<close>

text \<open>\<open>authMiddleware\<close> as the routes use it, without a token manager. \<open>authenticate\<close> is the guard's; whatever it throws becomes an
  \<open>AuthenticationError\<close>.\<close>

definition unauthenticated_error :: thrown where
  "unauthenticated_error = ThrownBase ''UNAUTHENTICATED'' 401 ''Authentication required''"

definition forbidden_error :: thrown where
  "forbidden_error = ThrownBase ''UNAUTHORIZED'' 403 ''Access denied''"

definition limited_error :: thrown where
  "limited_error = ThrownBase ''RATE_LIMITED'' 429 ''Rate limit exceeded''"

type_synonym headers = "string \<Rightarrow> string option"

definition authMiddleware :: "(string option \<Rightarrow> string option \<Rightarrow> auth_error + AuthContext) \<Rightarrow> headers \<Rightarrow> thrown + AuthContext" where
  "authMiddleware guard headers =
     (if str_or (headers ''authorization'') [] = [] \<and> str_or (headers ''x-api-key'') [] = [] then Inl unauthenticated_error
      else (case guard (headers ''authorization'') (headers ''x-api-key'') of Inl e \<Rightarrow> Inl unauthenticated_error | Inr c \<Rightarrow> Inr c))"

text \<open>\<open>requireRole\<close> and \<open>requirePermission\<close> of \<open>authorization.middleware.ts\<close>; \<open>hasRole\<close> is that of the context.\<close>

definition principal_anonymous :: "AuthContext \<Rightarrow> bool" where
  "principal_anonymous c \<longleftrightarrow> \<not> ac_authenticated c \<and> getPrincipalId c = ''anonymous''"

definition middleware_requireRole :: "string \<Rightarrow> AuthContext option \<Rightarrow> thrown + unit" where
  "middleware_requireRole role auth = (case auth of None \<Rightarrow> Inl forbidden_error
     | Some c \<Rightarrow> if principal_anonymous c then Inl forbidden_error else guardE (hasRole c role) forbidden_error)"

definition middleware_requirePermission :: "string \<Rightarrow> AuthContext option \<Rightarrow> thrown + unit" where
  "middleware_requirePermission perm auth = (case auth of None \<Rightarrow> Inl forbidden_error
     | Some c \<Rightarrow> if principal_anonymous c then Inl forbidden_error else guardE (hasPermission c perm) forbidden_error)"

text \<open>\<open>correlationIdMiddleware\<close>: the id a request goes by.\<close>

definition correlationId :: "headers \<Rightarrow> string \<Rightarrow> string" where
  "correlationId headers uuid = str_or (headers ''x-correlation-id'') (str_or (headers ''x-request-id'') (''req-'' @ uuid))"

text \<open>The error handler of the body parser: the status is the program's for invalid requests, not 413.\<close>

definition bodyParserError :: "bool \<Rightarrow> thrown \<Rightarrow> thrown" where
  "bodyParserError tooLarge e = (if tooLarge then ThrownBase ''VALIDATION_FAILED'' 422 ''Request payload size exceeds maximum allowed limit.'' else e)"

text \<open>The context of \<open>security/context\<close>, and the two classes a request may carry. Only this one has \<open>isAdmin\<close>.\<close>

record plain_context =
  px_type :: string
  px_id :: string
  px_name :: "string option"
  px_scopes :: "string list option"
  px_correlationId :: string

definition px_hasScope :: "plain_context \<Rightarrow> string \<Rightarrow> bool" where
  "px_hasScope c scope = (case px_scopes c of None \<Rightarrow> False | Some ss \<Rightarrow> scope \<in> set ss)"

definition px_isAdmin :: "plain_context \<Rightarrow> bool" where
  "px_isAdmin c = px_hasScope c ''admin''"

datatype actor = GuardActor AuthContext | PlainActor plain_context

text \<open>\<open>adminAuthMiddleware\<close>: the status it refuses with, or None when it passes on. Calling \<open>isAdmin\<close> on the guard's context throws, which
  Express answers with 500.\<close>

definition adminAuthMiddleware :: "actor option \<Rightarrow> int option" where
  "adminAuthMiddleware auth = (case auth of None \<Rightarrow> Some 401 | Some (GuardActor c) \<Rightarrow> Some (ee_statusCode (api_serialize type_error))
     | Some (PlainActor c) \<Rightarrow> if px_isAdmin c \<or> px_id c = ''admin'' \<or> px_id c = ''test'' \<or> px_hasScope c ''admin'' then None else Some 403)"

subsection \<open>Routes\<close>

datatype verb = GET | POST | PATCH | DELETE

datatype guard = Authenticated | WithRole string | Limited int int | AdminArea

datatype handler =
    H_listDestinations | H_createDestination | H_getDestination | H_updateDestination | H_deleteDestination
  | H_listDeliveries | H_getDelivery | H_retryDelivery | H_ingestResult | H_getResult | H_getLineage
  | H_getHealth | H_getHealthDetails | H_getMetrics | H_admin string

datatype segment = Named string | Param

record route =
  ro_verb :: verb
  ro_path :: "segment list"
  ro_guards :: "guard list"
  ro_handler :: handler

definition mk_route :: "verb \<Rightarrow> segment list \<Rightarrow> guard list \<Rightarrow> handler \<Rightarrow> route" where
  "mk_route v p gs h = \<lparr> ro_verb = v, ro_path = p, ro_guards = gs, ro_handler = h \<rparr>"

text \<open>The guards that are pushed only when there is an authentication guard, or a limiter.\<close>

definition auth_guards :: "bool \<Rightarrow> bool \<Rightarrow> guard list" where
  "auth_guards hasGuard admin = (if hasGuard then Authenticated # (if admin then [WithRole ''ADMIN''] else []) else [])"

definition limit_guards :: "bool \<Rightarrow> int \<Rightarrow> guard list" where
  "limit_guards hasLimiter limit = (if hasLimiter then [Limited limit 60000] else [])"

definition createDestinationsRouter :: "bool \<Rightarrow> bool \<Rightarrow> route list" where
  "createDestinationsRouter a l =
     [mk_route GET [] (auth_guards a False @ limit_guards l 300) H_listDestinations,
      mk_route POST [] (auth_guards a True @ limit_guards l 50) H_createDestination,
      mk_route GET [Param] (auth_guards a False @ limit_guards l 300) H_getDestination,
      mk_route PATCH [Param] (auth_guards a True @ limit_guards l 50) H_updateDestination,
      mk_route DELETE [Param] (auth_guards a True @ limit_guards l 30) H_deleteDestination]"

definition createDeliveriesRouter :: "bool \<Rightarrow> bool \<Rightarrow> route list" where
  "createDeliveriesRouter a l =
     [mk_route GET [] (limit_guards l 300) H_listDeliveries,
      mk_route GET [Param] (auth_guards a False @ limit_guards l 300) H_getDelivery,
      mk_route POST [Param, Named ''retry''] (auth_guards a True @ limit_guards l 30) H_retryDelivery]"

definition createResultsRouter :: "bool \<Rightarrow> bool \<Rightarrow> route list" where
  "createResultsRouter a l =
     [mk_route POST [] (auth_guards a False @ limit_guards l 100) H_ingestResult,
      mk_route GET [Param] (auth_guards a False @ limit_guards l 300) H_getResult]"

definition createLineageRouter :: "bool \<Rightarrow> bool \<Rightarrow> route list" where
  "createLineageRouter a l = [mk_route GET [Param] (limit_guards l 300) H_getLineage]"

definition createHealthRouter :: "bool \<Rightarrow> route list" where
  "createHealthRouter a = [mk_route GET [] [] H_getHealth, mk_route GET [Named ''details''] (auth_guards a True) H_getHealthDetails]"

definition createMetricsRouter :: "route list" where
  "createMetricsRouter = [mk_route GET [] [] H_getMetrics]"

definition createAdminRouter :: "route list" where
  "createAdminRouter = map (\<lambda>(v, p, h). mk_route v p [AdminArea] (H_admin h))
     [(GET, [Named ''dashboard''], ''getOverview''), (POST, [Named ''queue'', Named ''pause''], ''pauseQueue''),
      (POST, [Named ''queue'', Named ''resume''], ''resumeQueue''), (POST, [Named ''queue'', Named ''clear''], ''clearQueue''),
      (GET, [Named ''deliveries'', Named ''dlq''], ''getDLQDeliveries''), (POST, [Named ''deliveries'', Named ''retry''], ''retryDLQDelivery''),
      (GET, [Named ''destinations'', Param, Named ''stats''], ''getDestinationStats''), (POST, [Named ''destinations'', Param, Named ''test''], ''testDestination''),
      (GET, [Named ''configuration''], ''getConfiguration''), (PATCH, [Named ''configuration''], ''updateConfiguration''),
      (GET, [Named ''users''], ''listUsers''), (POST, [Named ''users''], ''createUser''), (GET, [Named ''roles''], ''listRoles''),
      (POST, [Named ''roles''], ''createRole''), (GET, [Named ''audit-logs''], ''getAuditLogs''), (GET, [Named ''incidents''], ''listIncidents''),
      (PATCH, [Named ''incidents'', Param, Named ''acknowledge''], ''acknowledgeIncident''), (GET, [Named ''alerts''], ''listAlerts''),
      (PATCH, [Named ''alerts'', Param, Named ''acknowledge''], ''acknowledgeAlert''), (GET, [Named ''backups''], ''listBackups''),
      (POST, [Named ''backups''], ''createBackup''), (GET, [Named ''metrics''], ''getMetricsSnapshot'')]"

definition mounted :: "string list \<Rightarrow> route list \<Rightarrow> route list" where
  "mounted prefix rs = map (\<lambda>r. r\<lparr> ro_path := map Named prefix @ ro_path r \<rparr>) rs"

definition v1_routes :: "bool \<Rightarrow> bool \<Rightarrow> route list" where
  "v1_routes a l = mounted [''results''] (createResultsRouter a l) @ mounted [''deliveries''] (createDeliveriesRouter a l) @
     mounted [''destinations''] (createDestinationsRouter a l) @ mounted [''lineage''] (createLineageRouter a l) @
     mounted [''health''] (createHealthRouter a) @ mounted [''metrics''] createMetricsRouter @ mounted [''admin''] createAdminRouter"

definition createApiRouter :: "bool \<Rightarrow> bool \<Rightarrow> route list" where
  "createApiRouter a l = mounted [''api'', ''v1''] (v1_routes a l) @ mounted [''v1''] (v1_routes a l) @
     mounted [''health''] (createHealthRouter a) @ mounted [''metrics''] createMetricsRouter @ mounted [''admin''] createAdminRouter"

fun path_matches :: "segment list \<Rightarrow> string list \<Rightarrow> bool" where
  "path_matches [] [] = True"
| "path_matches (Named n # ss) (x # xs) = (lower x = n \<and> path_matches ss xs)"
| "path_matches (Param # ss) (x # xs) = (x \<noteq> [] \<and> path_matches ss xs)"
| "path_matches ss xs = False"

definition route_for :: "route list \<Rightarrow> verb \<Rightarrow> string list \<Rightarrow> route option" where
  "route_for rs v path = find (\<lambda>r. ro_verb r = v \<and> path_matches (ro_path r) path) rs"

text \<open>The middleware of a route in order: the context so far and what the limiter answers to each check. The answer is the context the
  handler gets, or the status of the refusal.\<close>

record api_guards =
  ag_authenticate :: "string option \<Rightarrow> string option \<Rightarrow> auth_error + AuthContext"
  ag_allows :: "int \<Rightarrow> int \<Rightarrow> AuthContext option \<Rightarrow> bool"

definition thrown_status :: "thrown \<Rightarrow> int" where
  "thrown_status e = ee_statusCode (api_serialize e)"

fun run_guards :: "api_guards \<Rightarrow> headers \<Rightarrow> guard list \<Rightarrow> AuthContext option \<Rightarrow> int + AuthContext option" where
  "run_guards g hs [] auth = Inr auth"
| "run_guards g hs (Authenticated # gs) auth = (case authMiddleware (ag_authenticate g) hs of Inl e \<Rightarrow> Inl (thrown_status e) | Inr c \<Rightarrow> run_guards g hs gs (Some c))"
| "run_guards g hs (WithRole role # gs) auth = (case middleware_requireRole role auth of Inl e \<Rightarrow> Inl (thrown_status e) | Inr _ \<Rightarrow> run_guards g hs gs auth)"
| "run_guards g hs (Limited limit window # gs) auth = (if ag_allows g limit window auth then run_guards g hs gs auth else Inl (thrown_status limited_error))"
| "run_guards g hs (AdminArea # gs) auth = (case adminAuthMiddleware (map_option GuardActor auth) of Some status \<Rightarrow> Inl status | None \<Rightarrow> run_guards g hs gs auth)"

text \<open>\<open>router.use(auth)\<close> of the admin router answers for every path below it, also where no route follows.\<close>

definition admin_path :: "string list \<Rightarrow> bool" where
  "admin_path path \<longleftrightarrow> (case map lower path of a # rest \<Rightarrow> a = ''admin'' \<or> (case rest of b # rest' \<Rightarrow> a = ''v1'' \<and> b = ''admin'' \<or>
     (case rest' of c # _ \<Rightarrow> a = ''api'' \<and> b = ''v1'' \<and> c = ''admin'' | [] \<Rightarrow> False) | [] \<Rightarrow> False) | [] \<Rightarrow> False)"

definition dispatch :: "api_guards \<Rightarrow> route list \<Rightarrow> verb \<Rightarrow> string list \<Rightarrow> headers \<Rightarrow> int + handler \<times> AuthContext option" where
  "dispatch g rs v path hs = (case route_for rs v path of None \<Rightarrow> Inl (if admin_path path then 401 else 404)
     | Some r \<Rightarrow> (case run_guards g hs (ro_guards r) None of Inl status \<Rightarrow> Inl status | Inr auth \<Rightarrow> Inr (ro_handler r, auth)))"

subsection \<open>Who reaches what\<close>

lemmas router_defs = createDestinationsRouter_def createDeliveriesRouter_def createResultsRouter_def createLineageRouter_def
  createHealthRouter_def createMetricsRouter_def createAdminRouter_def

lemmas status_defs = thrown_status_def api_serialize_def Let_def unauthenticated_error_def forbidden_error_def limited_error_def type_error_def

definition public_handlers :: "handler set" where
  "public_handlers = {H_listDeliveries, H_getLineage, H_getHealth, H_getMetrics}"

definition admin_handlers :: "handler set" where
  "admin_handlers = {H_createDestination, H_updateDestination, H_deleteDestination, H_retryDelivery, H_getHealthDetails}"

text \<open>What a route's guards are, by its handler, when there is an authentication guard.\<close>

definition admin_area :: "handler \<Rightarrow> bool" where
  "admin_area h = (case h of H_admin name \<Rightarrow> True | _ \<Rightarrow> False)"

definition guards_ok :: "handler \<Rightarrow> guard list \<Rightarrow> bool" where
  "guards_ok h gs \<longleftrightarrow> (if admin_area h then gs = [AdminArea]
     else AdminArea \<notin> set gs \<and> (if h \<in> public_handlers then Authenticated \<notin> set gs
       else (case gs of Authenticated # gs' \<Rightarrow> Authenticated \<notin> set gs' \<and> (h \<in> admin_handlers \<longrightarrow> gs' \<noteq> [] \<and> hd gs' = WithRole ''ADMIN'') | _ \<Rightarrow> False)))"

definition route_ok :: "route \<Rightarrow> bool" where
  "route_ok r \<longleftrightarrow> guards_ok (ro_handler r) (ro_guards r)"

lemma guards_ok_private:
  assumes "guards_ok h gs" "\<not> admin_area h" "h \<notin> public_handlers"
  shows "\<exists>gs'. gs = Authenticated # gs' \<and> Authenticated \<notin> set gs' \<and> AdminArea \<notin> set gs' \<and> (h \<in> admin_handlers \<longrightarrow> (\<exists>gs''. gs' = WithRole ''ADMIN'' # gs''))"
proof (cases gs)
  case (Cons x gs')
  have ok: "AdminArea \<notin> set gs \<and> (case gs of Authenticated # gs' \<Rightarrow> Authenticated \<notin> set gs' \<and> (h \<in> admin_handlers \<longrightarrow> gs' \<noteq> [] \<and> hd gs' = WithRole ''ADMIN'') | _ \<Rightarrow> False)"
    using assms by (simp add: guards_ok_def)
  then show ?thesis unfolding Cons by (cases x; cases gs') simp_all
qed (use assms in \<open>simp add: guards_ok_def\<close>)

lemma route_ok_mounted: "list_all route_ok (mounted prefix rs) \<longleftrightarrow> list_all route_ok rs"
  by (induction rs) (simp_all add: mounted_def route_ok_def)

lemma api_routes_ok: "list_all route_ok (createApiRouter True l)"
  unfolding createApiRouter_def v1_routes_def list_all_append route_ok_mounted router_defs
  by (cases l) (simp_all add: mk_route_def route_ok_def guards_ok_def admin_area_def auth_guards_def limit_guards_def public_handlers_def admin_handlers_def)

lemma route_for_ok: "list_all route_ok rs \<Longrightarrow> route_for rs v path = Some r \<Longrightarrow> route_ok r"
  unfolding route_for_def by (metis (no_types, lifting) find_Some_iff list_all_length)

lemma dispatched_route:
  assumes "dispatch g (createApiRouter True l) v path hs = Inr (h, auth)"
  obtains r where "route_ok r" "ro_handler r = h" "run_guards g hs (ro_guards r) None = Inr auth"
proof -
  obtain r where r: "route_for (createApiRouter True l) v path = Some r" "run_guards g hs (ro_guards r) None = Inr auth" "ro_handler r = h"
    using assms by (auto simp: dispatch_def split: option.splits sum.splits)
  then show thesis using that route_for_ok [OF api_routes_ok r(1)] by blast
qed

lemma guards_keep: "run_guards g hs gs (Some c) = Inr a \<Longrightarrow> Authenticated \<notin> set gs \<Longrightarrow> a = Some c"
proof (induction gs)
  case (Cons x gs)
  then show ?case by (cases x) (auto split: if_splits option.splits sum.splits)
qed simp

lemma admin_upper: "upper ''ADMIN'' = ''ADMIN''"
  by code_simp


definition example_admin :: AuthContext where
  "example_admin = AuthContextImpl \<lparr> ad_userId = Some ''u'', ad_apiKeyId = None, ad_principal = None, ad_roles = Some [''admin''], ad_permissions = None,
     ad_scopes = None, ad_type = None, ad_authenticated = Some True \<rparr>"

definition example_guards :: api_guards where
  "example_guards = \<lparr> ag_authenticate = (\<lambda>a k. if a = Some ''t'' then Inr example_admin else Inl (AuthenticationError MissingToken)),
     ag_allows = (\<lambda>l w a. True) \<rparr>"


subsection \<open>The pages of a listing\<close>

lemma ceiling_division: "0 < (l::int) \<Longrightarrow> (- ((- n) div l) - 1) * l < n \<and> n \<le> - ((- n) div l) * l"
  by (smt (verit) mult.commute mult_minus_right pos_mod_bound pos_mod_sign mult_div_mod_eq left_diff_distrib mult_cancel_right1)

lemma below_ceiling:
  fixes limit :: int
  assumes "0 < limit" "(q - 1) * limit < n" "n \<le> q * limit"
  shows "page < q \<longleftrightarrow> page * limit < n"
proof
  assume "page < q"
  then have "page * limit \<le> (q - 1) * limit" using assms(1) by (intro mult_right_mono) auto
  then show "page * limit < n" using assms(2) by simp
next
  assume "page * limit < n"
  then have "page * limit < q * limit" using assms(3) by simp
  then show "page < q" using assms(1) by simp
qed

text \<open>Pages are counted from 1 and hold 1 to 100 entries whatever the query says, and 20 from the first page on unless it gives both numbers.
  The envelope is consistent with the total: there is a next page just when rows lie past this page, the last page is the one
  with the last row, and an empty listing has one page.\<close>
theorem pagination_is_consistent:
  assumes "api_paginationParams query = (page, limit)" "0 \<le> n"
  shows "1 \<le> page \<and> 1 \<le> limit \<and> limit \<le> 100 \<and>
    (query ''page'' = None \<or> query ''limit'' = None \<longrightarrow> page = 1 \<and> limit = 20) \<and>
    (page < total_pages n limit \<longleftrightarrow> page * limit < n) \<and>
    (0 < n \<longrightarrow> (total_pages n limit - 1) * limit < n \<and> n \<le> total_pages n limit * limit) \<and>
    (n = 0 \<longrightarrow> total_pages n limit = 1)"
proof -
  have b: "1 \<le> page" "1 \<le> limit" "limit \<le> 100" "query ''page'' = None \<or> query ''limit'' = None \<longrightarrow> page = 1 \<and> limit = 20"
    using assms(1) by (auto simp: api_paginationParams_def split: option.splits jdoc.splits)
  define q where "q = - ((- n) div limit)"
  have q: "(q - 1) * limit < n" "n \<le> q * limit" using b(2) ceiling_division [of limit n] by (simp_all add: q_def)
  have t: "total_pages n limit = (if q = 0 then 1 else q)" using b(2) by (simp add: total_pages_def q_def Let_def)
  show ?thesis
  proof (cases "n = 0")
    case True
    then have "total_pages n limit = 1" by (simp add: total_pages_def)
    moreover have "\<not> page * limit < 0" using b by (simp add: not_less)
    ultimately show ?thesis using b True by simp
  next
    case False
    then have "q \<noteq> 0" using q(2) assms(2) by auto
    then show ?thesis using b q False below_ceiling [OF _ q, of page] by (simp add: t)
  qed
qed

theorem pagination_is_consistent_witness:
  "api_paginationParams [''page'' \<mapsto> DStr ''3'', ''limit'' \<mapsto> DStr ''20''] = (3, 20) \<and> (3 < total_pages 61 20) \<and> api_paginationParams [''limit'' \<mapsto> DStr ''5''] = (1, 20)"
proof -
  have p: "api_paginationParams [''page'' \<mapsto> DStr ''3'', ''limit'' \<mapsto> DStr ''20''] = (3, 20)" by code_simp
  show ?thesis
    using pagination_is_consistent [OF p, of 61] pagination_is_consistent [of "[''limit'' \<mapsto> DStr ''5'']" "fst (api_paginationParams [''limit'' \<mapsto> DStr ''5''])"
        "snd (api_paginationParams [''limit'' \<mapsto> DStr ''5''])" 0] p
    by (simp add: prod_eq_iff)
qed

subsection \<open>The interface as it is wired\<close>

text \<open>The methods of the classes that \<open>setupApi\<close> hands to the controllers.\<close>

definition BaseRepository_methods :: "string list" where
  "BaseRepository_methods = [''parseTxAndContext'', ''logAudit'', ''getAll'', ''getById'', ''create'', ''update'', ''delete'', ''exists'', ''findById'', ''findOne'',
     ''count'', ''findMany'', ''findFirst'', ''findUnique'', ''createMany'', ''updateMany'', ''deleteMany'', ''executeQuery'', ''mapDatabaseError'']"

definition DestinationRepository_methods :: "string list" where
  "DestinationRepository_methods = BaseRepository_methods @ [''findDestinationById'', ''createDestination'', ''findDestinationsByEventFilter'', ''findByType'',
     ''findEnabled'', ''findByTypeAndEnabled'', ''findMatching'', ''toggleEnabled'', ''updateCircuitBreakerThreshold'', ''getDestinationStats'', ''countByType'',
     ''validateEndpoint'']"

definition DeliveryRepository_methods :: "string list" where
  "DeliveryRepository_methods = BaseRepository_methods @ [''createDelivery'', ''recordAttempt'', ''findByStatus'', ''findByStatusAndDestination'',
     ''findScheduledRetries'', ''findInDLQ'', ''findByResultId'', ''findByDestinationId'', ''updateStatus'', ''findDeliveryById'', ''findDeliveriesByResultId'',
     ''updateDeliveryStatus'', ''moveToFailed'', ''moveToDLQ'', ''scheduleRetry'', ''getDeliveryTimeline'', ''countByStatus'', ''getDeliveryStats'']"

definition AttemptRepository_methods :: "string list" where
  "AttemptRepository_methods = BaseRepository_methods @ [''recordAttempt'', ''findByDeliveryId'', ''getLatestAttempt'', ''getAttemptHistory'', ''getFailureStats'',
     ''countByStatusCode'', ''getErrorDistribution'']"

definition RegisterDestinationService_methods :: "string list" where
  "RegisterDestinationService_methods = [''register'', ''validateEndpoint'']"

definition DependencyChecker_methods :: "string list" where
  "DependencyChecker_methods = [''checkAll'', ''checkDatabase'', ''checkRedis'', ''checkQueue'']"

text \<open>The objects that \<open>setupApi\<close> takes from the container.\<close>

record 'd api_objects =
  ao_registerDestination :: "'d obj"
  ao_destinations :: "'d obj"
  ao_deliveries :: "'d obj"
  ao_attempts :: "'d obj"
  ao_queue :: "'d obj"
  ao_dependencyChecker :: "'d obj"
  ao_logger :: "'d obj"

text \<open>Each object has at most the methods of its class; a queue of BullMQ and the logger have none the controllers ask for.\<close>

definition api_objects_ok :: "'d api_objects \<Rightarrow> bool" where
  "api_objects_ok b \<longleftrightarrow> dom (ao_registerDestination b) \<subseteq> set RegisterDestinationService_methods \<and> dom (ao_destinations b) \<subseteq> set DestinationRepository_methods \<and>
     dom (ao_deliveries b) \<subseteq> set DeliveryRepository_methods \<and> dom (ao_attempts b) \<subseteq> set AttemptRepository_methods \<and>
     dom (ao_dependencyChecker b) \<subseteq> set DependencyChecker_methods \<and>
     ao_queue b ''findById'' = None \<and> ao_queue b ''findPaginated'' = None \<and> ao_logger b ''ping'' = None"

definition setup_destinationController :: "'d api_objects \<Rightarrow> 'd destination_controller" where
  "setup_destinationController b =
     \<lparr> dc_destinationService = ao_registerDestination b, dc_findDestinationsService = ao_destinations b, dc_destinationRepository = no_object \<rparr>"

definition setup_deliveryController :: "'d api_objects \<Rightarrow> 'd delivery_controller" where
  "setup_deliveryController b =
     \<lparr> vc_deliveryService = ao_deliveries b, vc_scheduleRetryService = ao_attempts b, vc_deliveryRepository = ao_queue b \<rparr>"

lemma absent_method: "dom ob \<subseteq> set names \<Longrightarrow> m \<notin> set names \<Longrightarrow> ob m = None"
  by (auto simp: domIff)

lemmas methods_defs = BaseRepository_methods_def DestinationRepository_methods_def DeliveryRepository_methods_def AttemptRepository_methods_def
  RegisterDestinationService_methods_def DependencyChecker_methods_def

lemma absent_methods:
  assumes "api_objects_ok b"
  shows "ao_registerDestination b ''listDestinations'' = None" "ao_registerDestination b ''update'' = None" "ao_registerDestination b ''delete'' = None"
    "ao_destinations b ''listDestinations'' = None" "ao_destinations b ''getDestination'' = None"
    "ao_deliveries b ''getDelivery'' = None" "ao_deliveries b ''listDeliveries'' = None" "ao_deliveries b ''retry'' = None"
    "ao_attempts b ''scheduleRetry'' = None" "ao_dependencyChecker b ''ping'' = None"
    "ao_queue b ''findById'' = None" "ao_queue b ''findPaginated'' = None" "ao_logger b ''ping'' = None"
proof -
  note ok = assms [unfolded api_objects_ok_def]
  show "ao_registerDestination b ''listDestinations'' = None" "ao_registerDestination b ''update'' = None" "ao_registerDestination b ''delete'' = None"
    by (rule absent_method [of _ RegisterDestinationService_methods]; use ok in \<open>simp add: methods_defs\<close>)+
  show "ao_destinations b ''listDestinations'' = None" "ao_destinations b ''getDestination'' = None"
    by (rule absent_method [of _ DestinationRepository_methods]; use ok in \<open>simp add: methods_defs\<close>)+
  show "ao_deliveries b ''getDelivery'' = None" "ao_deliveries b ''listDeliveries'' = None" "ao_deliveries b ''retry'' = None"
    by (rule absent_method [of _ DeliveryRepository_methods]; use ok in \<open>simp add: methods_defs\<close>)+
  show "ao_attempts b ''scheduleRetry'' = None"
    by (rule absent_method [of _ AttemptRepository_methods]; use ok in \<open>simp add: methods_defs\<close>)
  show "ao_dependencyChecker b ''ping'' = None"
    by (rule absent_method [of _ DependencyChecker_methods]; use ok in \<open>simp add: methods_defs\<close>)
  show "ao_queue b ''findById'' = None" "ao_queue b ''findPaginated'' = None" "ao_logger b ''ping'' = None" using ok by auto
qed


definition example_objects :: "nat api_objects" where
  "example_objects = \<lparr> ao_registerDestination = [''register'' \<mapsto> (\<lambda>args d. (Suc d, Inr (Some DNull)))],
     ao_destinations = [''delete'' \<mapsto> (\<lambda>args d. (0, Inr (Some DNull)))], ao_deliveries = [''scheduleRetry'' \<mapsto> (\<lambda>args d. (Suc d, Inr (Some DNull)))],
     ao_attempts = Map.empty, ao_queue = Map.empty, ao_dependencyChecker = [''checkAll'' \<mapsto> (\<lambda>args d. (d, Inr (Some DNull)))], ao_logger = Map.empty \<rparr>"


subsection \<open>What the schemas keep of a request\<close>

definition schema_idem :: "zschema \<Rightarrow> bool" where
  "schema_idem s \<longleftrightarrow> (\<forall>a b. s a = Inr b \<longrightarrow> s b = Inr b)"

lemma schema_idem_value: "schema_idem (z_value p)"
  by (simp add: schema_idem_def z_value_def split: option.splits if_splits)

lemma schema_idem_kinds: "schema_idem (z_string ps)" "schema_idem (z_number pn)" "schema_idem z_boolean" "schema_idem (z_record pr)"
  by (simp_all add: z_string_def z_number_def z_boolean_def z_record_def schema_idem_value)

lemma schema_idem_optional: "schema_idem s \<Longrightarrow> schema_idem (z_optional s)"
  by (auto simp: schema_idem_def z_optional_def split: option.splits)

lemma z_fields_names: "z_fields fs ps = Inr qs \<Longrightarrow> set (map fst qs) \<subseteq> set (map fst fs)"
proof (induction fs arbitrary: qs)
  case (Cons f fs)
  obtain k s where f: "f = (k, s)" by (cases f)
  obtain kept rest where r: "z_fields fs ps = Inr rest" "qs = (case kept of None \<Rightarrow> [] | Some v \<Rightarrow> [(k, v)]) @ rest"
    using Cons.prems by (auto simp: f split: sum.splits)
  have "set (map fst qs) \<subseteq> insert k (set (map fst rest))" by (auto simp: r(2) split: option.splits)
  then show ?case using Cons.IH [OF r(1)] by (auto simp: f)
qed simp

lemma z_object_parts: "z_object fs a = Inr b \<Longrightarrow> \<exists>ps qs. a = Some (DObj ps) \<and> z_fields fs ps = Inr qs \<and> b = Some (DObj qs)"
  by (auto simp: z_object_def split: option.splits jdoc.splits sum.splits)

lemma z_object_names: "z_object fs a = Inr (Some r) \<Longrightarrow> \<exists>rs. r = DObj rs \<and> set (map fst rs) \<subseteq> set (map fst fs)"
  using z_object_parts z_fields_names by blast

lemma z_fields_kept:
  assumes "z_fields fs ps = Inr qs" "distinct (map fst fs)" "(k, s) \<in> set fs"
  shows "s (map_of ps k) = Inr (map_of qs k)"
  using assms
proof (induction fs arbitrary: qs)
  case (Cons f fs)
  obtain k' s' where f: "f = (k', s')" by (cases f)
  obtain kept rest where r: "s' (map_of ps k') = Inr kept" "z_fields fs ps = Inr rest" "qs = (case kept of None \<Rightarrow> [] | Some v \<Rightarrow> [(k', v)]) @ rest"
    using Cons.prems(1) by (auto simp: f split: sum.splits)
  have "map_of rest k' = None" using z_fields_names [OF r(2)] Cons.prems(2) by (auto simp: f map_of_eq_None_iff)
  then have "map_of qs k' = kept" by (auto simp: r(3) map_add_def split: option.splits)
  moreover have "map_of qs k = map_of rest k" if "k \<noteq> k'" using that by (auto simp: r(3) map_add_def split: option.splits)
  ultimately show ?case using Cons r by (cases "k = k'") (auto simp: f image_iff)
qed simp

lemma z_fields_again:
  assumes "z_fields fs ps = Inr qs" "distinct (map fst fs)" "\<forall>(k, s) \<in> set fs. schema_idem s" "\<forall>k \<in> set (map fst fs). map_of ps' k = map_of qs k"
  shows "z_fields fs ps' = Inr qs"
  using assms
proof (induction fs arbitrary: qs)
  case (Cons f fs)
  obtain k s where f: "f = (k, s)" by (cases f)
  obtain kept rest where r: "s (map_of ps k) = Inr kept" "z_fields fs ps = Inr rest" "qs = (case kept of None \<Rightarrow> [] | Some v \<Rightarrow> [(k, v)]) @ rest"
    using Cons.prems(1) by (auto simp: f split: sum.splits)
  have "map_of rest k = None" using z_fields_names [OF r(2)] Cons.prems(2) by (auto simp: f map_of_eq_None_iff)
  then have "map_of ps' k = kept" using Cons.prems(4) by (auto simp: f r(3) map_add_def split: option.splits)
  then have "s (map_of ps' k) = Inr kept" using r(1) Cons.prems(3) by (auto simp: f schema_idem_def)
  moreover have "\<forall>k' \<in> set (map fst fs). map_of ps' k' = map_of rest k'"
    using Cons.prems(2,4) by (auto simp: f r(3) map_add_def split: option.splits)
  ultimately show ?case using Cons.IH [OF r(2)] Cons.prems(2,3) by (simp add: f r(3))
qed simp

lemma schema_idem_object:
  assumes "distinct (map fst fs)" "list_all (\<lambda>(k, s). schema_idem s) fs"
  shows "schema_idem (z_object fs)"
  unfolding schema_idem_def
proof (intro allI impI)
  fix a b assume "z_object fs a = Inr b"
  then obtain ps qs where a: "a = Some (DObj ps)" "z_fields fs ps = Inr qs" "b = Some (DObj qs)"
    using z_object_parts by blast
  then show "z_object fs b = Inr b"
    using z_fields_again [OF a(2) assms(1)] assms(2) by (simp add: z_object_def list_all_iff)
qed

lemmas schema_idems = schema_idem_kinds schema_idem_optional schema_idem_object
lemmas schema_defs = ingestResultSchema_def retryStrategySchema_def createDestinationSchema_def updateDestinationSchema_def destination_tail_def

lemma retry_idem: "schema_idem retryStrategySchema"
  unfolding retryStrategySchema_def by (rule schema_idem_object) (simp_all add: schema_idems)

lemma destination_schemas_idem: "schema_idem createDestinationSchema" "schema_idem updateDestinationSchema" "schema_idem (ingestResultSchema zod_email)"
  unfolding createDestinationSchema_def updateDestinationSchema_def ingestResultSchema_def destination_tail_def append.simps
  by (rule schema_idem_object; simp add: schema_idems retry_idem)+

lemma parse_body_again: "schema_idem s \<Longrightarrow> parse_body s body = Inr v \<Longrightarrow> parse_body s (Some v) = Inr v"
  by (auto simp: parse_body_def schema_idem_def split: sum.splits option.splits)

text \<open>A validated request is an object with entries the schema names only, with those that are texts, numbers or booleans as they were given, and validating it
  again gives the same. The retry strategy of a new destination loses every entry but the five the schema has, so that
  \<open>config\<close>, which is where registration reads the delays from, is never among what is passed on.\<close>
theorem validated_requests_are_canonical:
  assumes "api_createDestination body = Inr v"
  shows "api_createDestination (Some v) = Inr v \<and>
    (\<exists>ps qs. body = Some (DObj ps) \<and> v = DObj qs \<and> map_of qs ''endpoint'' = map_of ps ''endpoint'' \<and> map_of qs ''type'' = map_of ps ''type'' \<and>
       set (map fst qs) \<subseteq> {''name'', ''type'', ''endpoint'', ''eventFilters'', ''retryStrategy'', ''circuitBreakerThreshold'', ''timeout'', ''headers'', ''enabled''}) \<and>
    (\<forall>r. doc_get v ''retryStrategy'' = Some r \<longrightarrow> (\<exists>rs. r = DObj rs \<and> set (map fst rs) \<subseteq> {''type'', ''maxRetries'', ''initialDelayMs'', ''maxDelayMs'', ''backoffMultiplier''} \<and>
       doc_get r ''config'' = None))"
proof -
  obtain fs where fs: "createDestinationSchema = z_object fs" "distinct (map fst fs)"
      "set (map fst fs) = {''name'', ''type'', ''endpoint'', ''eventFilters'', ''retryStrategy'', ''circuitBreakerThreshold'', ''timeout'', ''headers'', ''enabled''}"
      "\<exists>p. (''endpoint'', z_string p) \<in> set fs" "\<exists>p. (''type'', z_string p) \<in> set fs" "(''retryStrategy'', z_optional retryStrategySchema) \<in> set fs"
  proof
    show "createDestinationSchema = z_object
       ([(''name'', z_optional (z_string (\<lambda>s. 2 \<le> length s))),
       (''type'', z_string (\<lambda>s. s \<in> set [''WEBHOOK'', ''DATABASE'', ''QUEUE'', ''AUDIT''])), (''endpoint'', z_string (\<lambda>s. s \<noteq> [])),
       (''eventFilters'', z_optional (z_record (\<lambda>_. True))), (''retryStrategy'', z_optional retryStrategySchema)] @ destination_tail)"
      by (fact createDestinationSchema_def)
  qed (auto simp: destination_tail_def)
  obtain ps qs where b: "body = Some (DObj ps)" "z_fields fs ps = Inr qs" "v = DObj qs"
    using assms by (auto simp: api_createDestination_def parse_body_def fs(1) z_object_def split: option.splits jdoc.splits sum.splits)
  have same: "map_of qs k = map_of ps k" if "(k, z_string p) \<in> set fs" for k p
    using z_fields_kept [OF b(2) fs(2) that] by (auto simp: z_string_def z_value_def split: option.splits if_splits)
  have "\<exists>rs. r = DObj rs \<and> set (map fst rs) \<subseteq> {''type'', ''maxRetries'', ''initialDelayMs'', ''maxDelayMs'', ''backoffMultiplier''} \<and> doc_get r ''config'' = None"
    if r: "doc_get v ''retryStrategy'' = Some r" for r
  proof -
    have "map_of qs ''retryStrategy'' = Some r" using r by (simp add: b(3) doc_get_def)
    then obtain a where a: "retryStrategySchema a = Inr (Some r)"
      using z_fields_kept [OF b(2) fs(2,6)] by (auto simp: z_optional_def split: option.splits)
    obtain rs where rs: "r = DObj rs" "set (map fst rs) \<subseteq> {''type'', ''maxRetries'', ''initialDelayMs'', ''maxDelayMs'', ''backoffMultiplier''}"
      using z_object_names [OF a [unfolded retryStrategySchema_def]] by (simp only: list.map fst_conv set_simps) blast
    then have "map_of rs ''config'' = None" unfolding map_of_eq_None_iff by auto
    then show ?thesis using rs by (simp add: doc_get_def)
  qed
  moreover have "api_createDestination (Some v) = Inr v"
    using assms parse_body_again [OF destination_schemas_idem(1)] unfolding api_createDestination_def by blast
  ultimately show ?thesis using b fs(4,5) same z_fields_names [OF b(2)] unfolding fs(3) by blast
qed

theorem validated_requests_are_canonical_witness:
  "\<exists>v. api_createDestination (Some (DObj [(''type'', DStr ''WEBHOOK''), (''endpoint'', DStr ''https://h''),
     (''retryStrategy'', DObj [(''type'', DStr ''LINEAR''), (''config'', DObj [(''initialDelayMs'', DNum 5)])])])) = Inr v \<and> api_createDestination (Some v) = Inr v"
proof -
  have v: "api_createDestination (Some (DObj [(''type'', DStr ''WEBHOOK''), (''endpoint'', DStr ''https://h''),
     (''retryStrategy'', DObj [(''type'', DStr ''LINEAR''), (''config'', DObj [(''initialDelayMs'', DNum 5)])])])) =
     Inr (DObj [(''type'', DStr ''WEBHOOK''), (''endpoint'', DStr ''https://h''), (''retryStrategy'', DObj [(''type'', DStr ''LINEAR'')])])"
    by code_simp
  then show ?thesis using validated_requests_are_canonical [OF v] by blast
qed

end
