(* ===== verification/QF_Boot.thy ===== *)
theory QF_Boot
  imports QF_Prelude
begin

text \<open>
  Starting and stopping the program (\<open>bootstrap\<close>): the container of dependencies, the initializers and their orchestrator, the graceful
  shutdown of \<open>bootstrap/main.ts\<close>, the older \<open>DependencyContainer\<close>, the checks before traffic is taken and the seeding of a
  database.

  The outside world is a type \<open>'w\<close> that factories, modules and connections act on, so that a statement about the world says what has
  been called and in which order. A value \<open>None\<close> is \<open>undefined\<close>. Shown: the container gives each singleton once and keeps the
  failure of an asynchronous factory for good; the order of the initializers satisfies what each asks for, and a failing one stops the
  start with the earlier ones in place; a start that fails leaves connections that shutting down does not close.
\<close>

subsection \<open>Container\<close>

record ('w, 'v) registration =
  sr_factory :: "'w \<Rightarrow> 'w \<times> (string + 'v option)"
  sr_isAsync :: bool
  sr_singleton :: bool
  sr_instance :: "'v option"
  sr_promise :: "(string + 'v option) option"

type_synonym ('w, 'v) container = "string \<rightharpoonup> ('w, 'v) registration"

definition new_registration :: "bool \<Rightarrow> ('w \<Rightarrow> 'w \<times> (string + 'v option)) \<Rightarrow> bool \<Rightarrow> ('w, 'v) registration" where
  "new_registration isAsync factory singleton =
     \<lparr> sr_factory = factory, sr_isAsync = isAsync, sr_singleton = singleton, sr_instance = None, sr_promise = None \<rparr>"

definition di_register :: "string \<Rightarrow> ('w \<Rightarrow> 'w \<times> (string + 'v option)) \<Rightarrow> bool \<Rightarrow> ('w, 'v) container \<Rightarrow> ('w, 'v) container" where
  "di_register key factory singleton c = c(key \<mapsto> new_registration False factory singleton)"

definition di_registerAsync :: "string \<Rightarrow> ('w \<Rightarrow> 'w \<times> (string + 'v option)) \<Rightarrow> bool \<Rightarrow> ('w, 'v) container \<Rightarrow> ('w, 'v) container" where
  "di_registerAsync key factory singleton c = c(key \<mapsto> new_registration True factory singleton)"

definition not_registered :: "string \<Rightarrow> string" where
  "not_registered key = ''Dependency '' @ [CHR 0x22] @ key @ [CHR 0x22] @ '' is not registered in the DI Container''"

definition is_asynchronous :: "string \<Rightarrow> string" where
  "is_asynchronous key = ''Dependency '' @ [CHR 0x22] @ key @ [CHR 0x22] @ '' is asynchronous. Use getAsync() instead.''"

text \<open>A factory that throws leaves no instance, and one that gives \<open>undefined\<close> is asked again.\<close>

definition di_get :: "string \<Rightarrow> ('w, 'v) container \<Rightarrow> 'w \<Rightarrow> ('w, 'v) container \<times> 'w \<times> (string + 'v option)" where
  "di_get key c w = (case c key of None \<Rightarrow> (c, w, Inl (not_registered key))
     | Some reg \<Rightarrow>
        if sr_isAsync reg then (c, w, Inl (is_asynchronous key))
        else if sr_singleton reg \<and> sr_instance reg \<noteq> None then (c, w, Inr (sr_instance reg))
        else (case sr_factory reg w of (w', Inl e) \<Rightarrow> (c, w', Inl e)
          | (w', Inr v) \<Rightarrow> (if sr_singleton reg then c(key \<mapsto> reg\<lparr> sr_instance := v \<rparr>) else c, w', Inr v)))"

text \<open>What the promise that is returned settles with. It is kept before it settles, so that calls in between share it; the instance is
  set when it settles (\<open>di_settle\<close>). An asynchronous factory does not throw: its failure is the promise's.\<close>

definition di_getAsync :: "string \<Rightarrow> ('w, 'v) container \<Rightarrow> 'w \<Rightarrow> ('w, 'v) container \<times> 'w \<times> (string + 'v option)" where
  "di_getAsync key c w = (case c key of None \<Rightarrow> (c, w, Inl (not_registered key))
     | Some reg \<Rightarrow>
        if sr_singleton reg then
          if sr_instance reg \<noteq> None then (c, w, Inr (sr_instance reg))
          else (case sr_promise reg of Some p \<Rightarrow> (c, w, p)
            | None \<Rightarrow> (case sr_factory reg w of (w', r) \<Rightarrow>
                (if isl r \<and> \<not> sr_isAsync reg then c else c(key \<mapsto> reg\<lparr> sr_promise := Some r \<rparr>), w', r)))
        else (case sr_factory reg w of (w', r) \<Rightarrow> (c, w', r)))"

definition di_settle :: "string \<Rightarrow> ('w, 'v) container \<Rightarrow> ('w, 'v) container" where
  "di_settle key c = (case c key of None \<Rightarrow> c
     | Some reg \<Rightarrow> (case sr_promise reg of Some (Inr v) \<Rightarrow> c(key \<mapsto> reg\<lparr> sr_instance := v \<rparr>) | _ \<Rightarrow> c))"

definition di_has :: "string \<Rightarrow> ('w, 'v) container \<Rightarrow> bool" where
  "di_has key c \<longleftrightarrow> c key \<noteq> None"

text \<open>The instances, or the factories of those not made yet.\<close>

definition di_getAll :: "('w, 'v) container \<Rightarrow> string \<Rightarrow> (('w \<Rightarrow> 'w \<times> (string + 'v option)) + 'v) option" where
  "di_getAll c key = map_option (\<lambda>reg. case sr_instance reg of Some v \<Rightarrow> Inr v | None \<Rightarrow> Inl (sr_factory reg)) (c key)"

definition di_clear :: "('w, 'v) container \<Rightarrow> ('w, 'v) container" where
  "di_clear c = Map.empty"

text \<open>What the rest of the program does to a container: one step, for the world it is in.\<close>

inductive container_step :: "string \<Rightarrow> ('w, 'v) container \<times> 'w \<Rightarrow> ('w, 'v) container \<times> 'w \<Rightarrow> bool" for key where
  cs_get: "di_get k c w = (c', w', r) \<Longrightarrow> container_step key (c, w) (c', w')"
| cs_getAsync: "di_getAsync k c w = (c', w', r) \<Longrightarrow> container_step key (c, w) (c', w')"
| cs_settle: "container_step key (c, w) (di_settle k c, w)"
| cs_register: "k \<noteq> key \<Longrightarrow> container_step key (c, w) (di_register k f s c, w)"
| cs_registerAsync: "k \<noteq> key \<Longrightarrow> container_step key (c, w) (di_registerAsync k f s c, w)"
| cs_world: "container_step key (c, w) (c, w')"

text \<open>A singleton that has its value, or whose promise is there.\<close>

definition sync_held :: "string \<Rightarrow> 'v \<Rightarrow> ('w, 'v) container \<Rightarrow> bool" where
  "sync_held key v c \<longleftrightarrow> (\<exists>reg. c key = Some reg \<and> sr_singleton reg \<and> \<not> sr_isAsync reg \<and> sr_instance reg = Some v \<and> sr_promise reg \<in> {None, Some (Inr (Some v))})"

definition async_held :: "string \<Rightarrow> string + 'v option \<Rightarrow> ('w, 'v) container \<Rightarrow> bool" where
  "async_held key r c \<longleftrightarrow> (\<exists>reg. c key = Some reg \<and> sr_singleton reg \<and> sr_isAsync reg \<and> sr_promise reg = Some r \<and>
     (sr_instance reg = None \<or> r = Inr (sr_instance reg)))"

lemma sync_held_step: "container_step key s s' \<Longrightarrow> sync_held key v (fst s) \<Longrightarrow> sync_held key v (fst s')"
proof (induction rule: container_step.induct)
  case (cs_get k c w c' w' r)
  then show ?case by (cases "k = key") (auto simp: sync_held_def di_get_def split: option.splits if_splits prod.splits sum.splits)
next
  case (cs_getAsync k c w c' w' r)
  then show ?case by (cases "k = key") (auto simp: sync_held_def di_getAsync_def split: option.splits if_splits prod.splits)
next
  case (cs_settle c w k)
  then show ?case by (cases "k = key") (auto simp: sync_held_def di_settle_def split: option.splits sum.splits)
qed (simp_all add: sync_held_def di_register_def di_registerAsync_def)

lemma async_held_step: "container_step key s s' \<Longrightarrow> async_held key r (fst s) \<Longrightarrow> async_held key r (fst s')"
proof (induction rule: container_step.induct)
  case (cs_get k c w c' w' r')
  then show ?case by (cases "k = key") (auto simp: async_held_def di_get_def split: option.splits if_splits prod.splits sum.splits)
next
  case (cs_getAsync k c w c' w' r')
  then show ?case by (cases "k = key") (auto simp: async_held_def di_getAsync_def split: option.splits if_splits prod.splits)
next
  case (cs_settle c w k)
  then show ?case by (cases "k = key") (auto simp: async_held_def di_settle_def split: option.splits sum.splits)
qed (simp_all add: async_held_def di_register_def di_registerAsync_def)

lemma held_steps:
  assumes "(container_step key)\<^sup>*\<^sup>* s s'"
  shows "sync_held key v (fst s) \<Longrightarrow> sync_held key v (fst s')" "async_held key r (fst s) \<Longrightarrow> async_held key r (fst s')"
  using assms by (induction rule: rtranclp_induct) (blast intro: sync_held_step async_held_step)+

text \<open>Each dependency is made once: the first \<open>get\<close> of a singleton runs its factory, and whatever else happens to the container afterwards,
  short of registering the key anew or clearing it, each later \<open>get\<close> gives the same value without touching the world. The same
  holds of \<open>getAsync\<close>, also while the promise is pending, and also of failures: an asynchronous factory that fails once is never tried
  again.\<close>
theorem container_keeps_singletons:
  assumes c0_def: "c0 = (if asynchronous then di_registerAsync key f True c else di_register key f True c)"
    and first: "(if asynchronous then di_getAsync key c0 w else di_get key c0 w) = (c1, w1, r)"
    and steps: "(container_step key)\<^sup>*\<^sup>* (c1, w1) (c2, w2)"
  shows "f w = (w1, r) \<and>
    (asynchronous \<longrightarrow> di_getAsync key c2 w2 = (c2, w2, r)) \<and>
    (\<not> asynchronous \<longrightarrow> (\<forall>v. r = Inr (Some v) \<longrightarrow> di_get key c2 w2 = (c2, w2, r)) \<and> (\<forall>e. r = Inl e \<longrightarrow> c1 = c0))"
proof (cases asynchronous)
  case True
  have f: "f w = (w1, r)" and held: "async_held key r c1"
    using first True by (auto simp: c0_def di_registerAsync_def new_registration_def di_getAsync_def async_held_def split: prod.splits)
  have "async_held key r c2" using held_steps(2) [OF steps] held by simp
  then show ?thesis using f True by (auto simp: async_held_def di_getAsync_def)
next
  case False
  have f: "f w = (w1, r)" "\<forall>e. r = Inl e \<longrightarrow> c1 = c0"
    using first False by (auto simp: c0_def di_register_def new_registration_def di_get_def split: prod.splits sum.splits)
  have "di_get key c2 w2 = (c2, w2, r)" if "r = Inr (Some v)" for v
  proof -
    have "sync_held key v c1"
      using first False that by (auto simp: c0_def di_register_def new_registration_def di_get_def sync_held_def split: prod.splits sum.splits)
    then have "sync_held key v c2" using held_steps(1) [OF steps] by simp
    then show ?thesis using that by (auto simp: sync_held_def di_get_def)
  qed
  then show ?thesis using f False by blast
qed

text \<open>Two calls of an asynchronous factory that fails: the world is a count of the factory's runs.\<close>

definition failing_factory :: "nat \<Rightarrow> nat \<times> (string + nat option)" where
  "failing_factory n = (Suc n, if n = 0 then Inl ''refused'' else Inr (Some n))"

theorem container_keeps_singletons_witness:
  "\<exists>c1 c2. di_getAsync ''db'' (di_registerAsync ''db'' failing_factory True Map.empty) 0 = (c1, 1, Inl ''refused'') \<and>
     c2 = di_register ''log'' (\<lambda>n. (n, Inr (Some 0))) True c1 \<and> di_getAsync ''db'' c2 1 = (c2, 1, Inl ''refused'')"
proof -
  let ?c0 = "di_registerAsync ''db'' failing_factory True Map.empty"
  define c1 where "c1 = fst (di_getAsync ''db'' ?c0 0)"
  have 1: "di_getAsync ''db'' ?c0 0 = (c1, 1, Inl ''refused'')"
    by (simp add: c1_def di_registerAsync_def di_getAsync_def new_registration_def failing_factory_def)
  have "(container_step ''db'')\<^sup>*\<^sup>* (c1, 1) (di_register ''log'' (\<lambda>n. (n, Inr (Some 0))) True c1, 1)"
    by (intro r_into_rtranclp cs_register) simp
  from container_keeps_singletons [where asynchronous = True and key = "''db''" and f = failing_factory and c = Map.empty and w = 0, OF refl _ this, of "Inl ''refused''"] 1
  show ?thesis by simp
qed

subsection \<open>Initializers and their orchestrator\<close>

text \<open>An initializer gets what it needs from the container in order, calls its module, which is a parameter, and registers what the module gives,
  as synchronous singletons whose factories give the value.\<close>

record init_step =
  is_name :: string
  is_needs :: "string list"
  is_provides :: "string list"

type_synonym ('w, 'v) modules = "string \<Rightarrow> 'w \<Rightarrow> 'w \<times> (string + (string \<Rightarrow> 'v option))"

fun get_keys :: "string list \<Rightarrow> ('w, 'v) container \<Rightarrow> 'w \<Rightarrow> ('w, 'v) container \<times> 'w \<times> (string + unit)" where
  "get_keys [] c w = (c, w, Inr ())"
| "get_keys (k # ks) c w = (case di_get k c w of (c', w', Inl e) \<Rightarrow> (c', w', Inl e) | (c', w', Inr _) \<Rightarrow> get_keys ks c' w')"

fun register_values :: "string list \<Rightarrow> (string \<Rightarrow> 'v option) \<Rightarrow> ('w, 'v) container \<Rightarrow> ('w, 'v) container" where
  "register_values [] vs c = c"
| "register_values (k # ks) vs c = register_values ks vs (di_register k (\<lambda>w. (w, Inr (vs k))) True c)"

definition run_initializer :: "('w, 'v) modules \<Rightarrow> init_step \<Rightarrow> ('w, 'v) container \<Rightarrow> 'w \<Rightarrow> ('w, 'v) container \<times> 'w \<times> (string + unit)" where
  "run_initializer ms s c w = (case get_keys (is_needs s) c w of (c1, w1, Inl e) \<Rightarrow> (c1, w1, Inl e)
     | (c1, w1, Inr _) \<Rightarrow> (case ms (is_name s) w1 of (w2, Inl e) \<Rightarrow> (c1, w2, Inl e)
         | (w2, Inr vs) \<Rightarrow> (register_values (is_provides s) vs c1, w2, Inr ())))"

definition ConfigInitializer :: init_step where
  "ConfigInitializer = \<lparr> is_name = ''1. Configuration'', is_needs = [],
     is_provides = [''config'', ''app.config'', ''database.config'', ''redis.config'', ''queue.config'', ''security.config'', ''resilience.config'', ''api.config'',
       ''observability.config'', ''daemon.config'', ''worker.config''] \<rparr>"

text \<open>It asks for \<open>config\<close> only when that is there, which it is after the first step.\<close>

definition ObservabilityInitializer :: init_step where
  "ObservabilityInitializer = \<lparr> is_name = ''2. Observability (Tracing, Metrics, Logging)'', is_needs = [''config''],
     is_provides = [''observability'', ''tracer'', ''logger'', ''metrics'', ''auditLogger''] \<rparr>"

definition InfrastructureInitializer :: init_step where
  "InfrastructureInitializer = \<lparr> is_name = ''3. Infrastructure (Database, Redis, BullMQ Queue)'', is_needs = [''config'', ''logger''],
     is_provides = [''infrastructure'', ''repositories'', ''redisClient'', ''redisOperations'', ''queueManager'', ''connectionPool''] \<rparr>"

definition DomainInitializer :: init_step where
  "DomainInitializer = \<lparr> is_name = ''4. Domain Models & Schemas'', is_needs = [], is_provides = [] \<rparr>"

definition ApplicationInitializer :: init_step where
  "ApplicationInitializer = \<lparr> is_name = ''5. Application Services'', is_needs = [''repositories'', ''queueManager'', ''logger'', ''observability''],
     is_provides = [''application'', ''ingestResultService'', ''validateResultService'', ''processDeliveryService'', ''handleFailureService'', ''scheduleRetryService'',
       ''registerDestinationService'', ''findDestinationsService'', ''recoverStaleJobsService'', ''syncStateService'', ''rebuildQueueService''] \<rparr>"

definition SecurityInitializer :: init_step where
  "SecurityInitializer = \<lparr> is_name = ''6. Security (JWT, API Keys, Rate Limiting)'', is_needs = [''config'', ''repositories'', ''redisOperations'', ''logger''],
     is_provides = [''security'', ''authGuard'', ''jwtStrategy'', ''apiKeyStrategy'', ''rateLimiter'', ''quotaTracker'', ''hmacVerifier'', ''validators''] \<rparr>"

definition ResilienceInitializer :: init_step where
  "ResilienceInitializer = \<lparr> is_name = ''7. Resilience (Circuit Breaker, Bulkhead, Retry)'', is_needs = [''config'', ''queueManager'', ''logger'', ''observability''],
     is_provides = [''resilience'', ''circuitBreakerManager'', ''bulkheadManager'', ''backpressureMonitor'', ''retryExecutor'', ''timeoutManager''] \<rparr>"

definition ApiInitializer :: init_step where
  "ApiInitializer = \<lparr> is_name = ''8. API (Controllers, Middlewares, Express App)'', is_needs = [''config'', ''application'', ''security'', ''resilience'', ''logger'', ''observability''],
     is_provides = [''api'', ''expressApp'', ''app''] \<rparr>"

definition WorkerInitializer :: init_step where
  "WorkerInitializer = \<lparr> is_name = ''9. Worker Layer (Job Processors, Connectors)'', is_needs = [''config'', ''application'', ''resilience'', ''logger'', ''observability''],
     is_provides = [''worker'', ''jobProcessor'', ''deliveryExecutor''] \<rparr>"

definition DaemonInitializer :: init_step where
  "DaemonInitializer = \<lparr> is_name = ''10. Daemon Layer (Recovery, Health, Metrics)'', is_needs = [''config'', ''application'', ''redisOperations'', ''queueManager'', ''logger'', ''observability''],
     is_provides = [''daemon'', ''daemonCoordinator'', ''recoveryDaemon'', ''healthDaemon'', ''metricsDaemon''] \<rparr>"

definition orchestrator_steps :: "init_step list" where
  "orchestrator_steps = [ConfigInitializer, ObservabilityInitializer, InfrastructureInitializer, DomainInitializer, ApplicationInitializer, SecurityInitializer,
     ResilienceInitializer, ApiInitializer, WorkerInitializer, DaemonInitializer]"

definition step_failed :: "string \<Rightarrow> string \<Rightarrow> string" where
  "step_failed name e = ''Initialization failed at step '' @ [CHR 0x22] @ name @ [CHR 0x22] @ '': '' @ e"

text \<open>\<open>this.container.has('logger') ? this.container.get('logger') : this.logger\<close>\<close>

definition active_logger :: "('w, 'v) container \<Rightarrow> 'w \<Rightarrow> ('w, 'v) container \<times> 'w \<times> (string + unit)" where
  "active_logger c w = get_keys (if di_has ''logger'' c then [''logger''] else []) c w"

text \<open>The loop over the steps; the last line after it gets the logger.\<close>

fun run_steps :: "('w, 'v) modules \<Rightarrow> init_step list \<Rightarrow> ('w, 'v) container \<Rightarrow> 'w \<Rightarrow> ('w, 'v) container \<times> 'w \<times> (string + unit)" where
  "run_steps ms [] c w = get_keys [''logger''] c w"
| "run_steps ms (s # ss) c w =
     (case (case active_logger c w of (c1, w1, Inl e) \<Rightarrow> (c1, w1, Inl e) | (c1, w1, Inr _) \<Rightarrow> run_initializer ms s c1 w1) of
        (c2, w2, Inr _) \<Rightarrow> run_steps ms ss c2 w2
      | (c2, w2, Inl e) \<Rightarrow> (case active_logger c2 w2 of (c3, w3, Inl e') \<Rightarrow> (c3, w3, Inl e') | (c3, w3, Inr _) \<Rightarrow> (c3, w3, Inl (step_failed (is_name s) e))))"

definition orchestrator_initialize :: "('w, 'v) modules \<Rightarrow> ('w, 'v) container \<Rightarrow> 'w \<Rightarrow> ('w, 'v) container \<times> 'w \<times> (string + unit)" where
  "orchestrator_initialize ms c w = run_steps ms orchestrator_steps c w"

text \<open>A container the initializers fill: synchronous singletons whose factories neither fail nor touch the world, with values of the kind the key
  stands for.\<close>

definition plain_registration :: "('v option \<Rightarrow> bool) \<Rightarrow> ('w, 'v) registration \<Rightarrow> bool" where
  "plain_registration p reg \<longleftrightarrow> \<not> sr_isAsync reg \<and> sr_singleton reg \<and> (\<exists>v. sr_factory reg = (\<lambda>w. (w, Inr v)) \<and> p v \<and> (sr_instance reg = None \<or> sr_instance reg = v))"

definition plain_container :: "(string \<Rightarrow> 'v option \<Rightarrow> bool) \<Rightarrow> ('w, 'v) container \<Rightarrow> bool" where
  "plain_container p c \<longleftrightarrow> (\<forall>k reg. c k = Some reg \<longrightarrow> plain_registration (p k) reg)"

definition plain_modules :: "(string \<Rightarrow> 'v option \<Rightarrow> bool) \<Rightarrow> ('w, 'v) modules \<Rightarrow> bool" where
  "plain_modules p ms \<longleftrightarrow> (\<forall>n w w' vs k. ms n w = (w', Inr vs) \<longrightarrow> p k (vs k))"

lemma plain_container_simps: "plain_container p Map.empty" "plain_container p c \<Longrightarrow> plain_registration (p k) reg \<Longrightarrow> plain_container p (c(k \<mapsto> reg))"
  by (simp_all add: plain_container_def)

lemma plain_di_get:
  assumes "plain_container p c" "k \<in> dom c"
  obtains c' v where "di_get k c w = (c', w, Inr v)" "plain_container p c'" "dom c' = dom c" "p k v"
proof -
  obtain reg where reg: "c k = Some reg" "plain_registration (p k) reg" using assms unfolding plain_container_def by blast
  then obtain v where v: "\<not> sr_isAsync reg" "sr_singleton reg" "sr_factory reg = (\<lambda>w. (w, Inr v))" "p k v" "sr_instance reg = None \<or> sr_instance reg = v"
    unfolding plain_registration_def by blast
  show thesis
  proof (cases "sr_instance reg")
    case None
    have "plain_registration (p k) (reg\<lparr> sr_instance := v \<rparr>)" using v unfolding plain_registration_def by auto
    then have "plain_container p (c(k \<mapsto> reg\<lparr> sr_instance := v \<rparr>))" by (rule plain_container_simps(2) [OF assms(1)])
    moreover have "dom (c(k \<mapsto> reg\<lparr> sr_instance := v \<rparr>)) = dom c" using assms(2) by auto
    ultimately show thesis using that [of "c(k \<mapsto> reg\<lparr> sr_instance := v \<rparr>)" v] reg v None by (simp add: di_get_def)
  next
    case (Some x)
    then show thesis using that [of c v] reg(1) v assms(1) by (simp add: di_get_def)
  qed
qed

lemma plain_get_keys:
  assumes "plain_container p c" "set ks \<subseteq> dom c"
  obtains c' where "get_keys ks c w = (c', w, Inr ())" "plain_container p c'" "dom c' = dom c"
  using assms
proof (induction ks arbitrary: c thesis)
  case (Cons k ks)
  obtain c1 v where c1: "di_get k c w = (c1, w, Inr v)" "plain_container p c1" "dom c1 = dom c"
    using plain_di_get [of p c k w] Cons.prems(2,3) by (metis insert_subset list.simps(15))
  obtain c2 where c2: "get_keys ks c1 w = (c2, w, Inr ())" "plain_container p c2" "dom c2 = dom c1"
    using Cons.IH [of c1] Cons.prems(3) c1 by auto
  show ?case using Cons.prems(1) [of c2] c1 c2 by simp
qed simp

lemma plain_register: "plain_container p c \<Longrightarrow> p k v \<Longrightarrow> plain_container p (di_register k (\<lambda>w. (w, Inr v)) True c)"
  unfolding di_register_def by (erule plain_container_simps(2)) (auto simp: plain_registration_def new_registration_def)

lemma register_values_plain: "plain_container p c \<Longrightarrow> \<forall>k. p k (vs k) \<Longrightarrow> plain_container p (register_values ks vs c)"
  by (induction ks arbitrary: c) (simp_all add: plain_register)

lemma register_values_dom: "dom (register_values ks vs c) = dom c \<union> set ks"
  by (induction ks arbitrary: c) (auto simp: di_register_def)

lemma active_logger_plain:
  assumes "plain_container p c"
  obtains c' where "active_logger c w = (c', w, Inr ())" "plain_container p c'" "dom c' = dom c"
proof -
  have "set (if di_has ''logger'' c then [''logger''] else []) \<subseteq> dom c" by (auto simp: di_has_def)
  then show thesis using plain_get_keys [OF assms] that unfolding active_logger_def by metis
qed

lemma run_initializer_plain:
  assumes "plain_container p c" "set (is_needs s) \<subseteq> dom c" "ms (is_name s) w = (w', r)" "plain_modules p ms"
  obtains c' where "run_initializer ms s c w = (c', w', case r of Inl e \<Rightarrow> Inl e | Inr vs \<Rightarrow> Inr ())" "plain_container p c'"
    "dom c' = (case r of Inl e \<Rightarrow> dom c | Inr vs \<Rightarrow> dom c \<union> set (is_provides s))"
proof -
  obtain c1 where c1: "get_keys (is_needs s) c w = (c1, w, Inr ())" "plain_container p c1" "dom c1 = dom c"
    using plain_get_keys [OF assms(1,2)] .
  show thesis
  proof (cases r)
    case (Inl e)
    then show thesis using that [of c1] c1 assms(3) by (simp add: run_initializer_def)
  next
    case (Inr vs)
    then have "\<forall>k. p k (vs k)" using assms(3,4) unfolding plain_modules_def by blast
    then have "plain_container p (register_values (is_provides s) vs c1)" by (rule register_values_plain [OF c1(2)])
    then show thesis
      using that [of "register_values (is_provides s) vs c1"] Inr c1 assms(3) by (simp add: run_initializer_def register_values_dom)
  qed
qed

text \<open>What a start does: the modules in order until one fails.\<close>

fun start_modules :: "('w, 'v) modules \<Rightarrow> string list \<Rightarrow> 'w \<Rightarrow> nat \<times> 'w \<times> string option" where
  "start_modules ms [] w = (0, w, None)"
| "start_modules ms (n # ns) w = (case ms n w of (w', Inl e) \<Rightarrow> (0, w', Some (step_failed n e))
     | (w', Inr _) \<Rightarrow> (case start_modules ms ns w' of (k, w'', r) \<Rightarrow> (Suc k, w'', r)))"

text \<open>Whether each step finds what it needs among what the steps before it provide.\<close>

fun needs_met :: "string list \<Rightarrow> init_step list \<Rightarrow> bool" where
  "needs_met ks [] = (''logger'' \<in> set ks)"
| "needs_met ks (s # ss) = (set (is_needs s) \<subseteq> set ks \<and> needs_met (ks @ is_provides s) ss)"

lemma run_steps_plain:
  assumes "plain_container p c" "dom c = set ks" "needs_met ks ss" "start_modules ms (map is_name ss) w = (n, w', r)" "plain_modules p ms"
  shows "\<exists>c'. run_steps ms ss c w = (c', w', case r of None \<Rightarrow> Inr () | Some e \<Rightarrow> Inl e) \<and> plain_container p c' \<and> dom c' = set (ks @ concat (map is_provides (take n ss)))"
  using assms
proof (induction ss arbitrary: c ks w n)
  case Nil
  have "set [''logger''] \<subseteq> dom c" using Nil.prems(2,3) by simp
  then obtain c' where "get_keys [''logger''] c w = (c', w, Inr ())" "plain_container p c'" "dom c' = dom c" using plain_get_keys [OF Nil.prems(1)] by metis
  then show ?case using Nil.prems(2,4) by simp
next
  case (Cons s ss)
  obtain c1 where c1: "active_logger c w = (c1, w, Inr ())" "plain_container p c1" "dom c1 = dom c" using active_logger_plain [OF Cons.prems(1)] .
  obtain w1 r1 where m: "ms (is_name s) w = (w1, r1)" by fastforce
  obtain c2 where c2: "run_initializer ms s c1 w = (c2, w1, case r1 of Inl e \<Rightarrow> Inl e | Inr vs \<Rightarrow> Inr ())" "plain_container p c2"
      "dom c2 = (case r1 of Inl e \<Rightarrow> dom c1 | Inr vs \<Rightarrow> dom c1 \<union> set (is_provides s))"
    using run_initializer_plain [of p c1 s ms w w1 r1] m c1(2,3) Cons.prems(2,3,5) by auto
  show ?case
  proof (cases r1)
    case (Inl e)
    obtain c3 where c3: "active_logger c2 w1 = (c3, w1, Inr ())" "plain_container p c3" "dom c3 = dom c2" using active_logger_plain [OF c2(2)] .
    show ?thesis using Inl m Cons.prems(2,4) c1 c2 c3 by auto
  next
    case (Inr vs)
    obtain k where k: "start_modules ms (map is_name ss) w1 = (k, w', r)" "n = Suc k"
      using Cons.prems(4) m Inr by (auto split: prod.splits)
    have "\<exists>c'. run_steps ms ss c2 w1 = (c', w', case r of None \<Rightarrow> Inr () | Some e \<Rightarrow> Inl e) \<and> plain_container p c' \<and> dom c' = set ((ks @ is_provides s) @ concat (map is_provides (take k ss)))"
      by (rule Cons.IH) (use Inr c1 c2 k Cons.prems(2,3,5) in auto)
    then show ?thesis using Inr c1(1) c2(1) k(2) by simp
  qed
qed

text \<open>C37: The order of the initializers is sound: started on an empty container, no initializer asks for a dependency that is not there, so a start
  succeeds just when every module does. When one fails, the error names its step, the later ones are not started, and the container
  holds just what the earlier ones registered; nothing is taken down.\<close>
theorem orchestrated_start:
  assumes "start_modules ms (map is_name orchestrator_steps) w = (n, w', r)"
  shows "\<exists>c. orchestrator_initialize ms Map.empty w = (c, w', case r of None \<Rightarrow> Inr () | Some e \<Rightarrow> Inl e) \<and>
    dom c = set (concat (map is_provides (take n orchestrator_steps))) \<and>
    (r = None \<longleftrightarrow> n = length orchestrator_steps) \<and>
    (\<forall>e. r = Some e \<longrightarrow> n < length orchestrator_steps \<and> (\<exists>e'. e = step_failed (is_name (orchestrator_steps ! n)) e'))"
proof -
  have "needs_met [] orchestrator_steps" by code_simp
  then have "\<exists>c. run_steps ms orchestrator_steps Map.empty w = (c, w', case r of None \<Rightarrow> Inr () | Some e \<Rightarrow> Inl e) \<and>
      dom c = set ([] @ concat (map is_provides (take n orchestrator_steps)))"
    using run_steps_plain [OF plain_container_simps(1) _ _ assms, where p = "\<lambda>_ _. True" and ks = "[]"] by (auto simp: plain_modules_def)
  moreover have "(r = None \<longleftrightarrow> n = length ns) \<and> (\<forall>e. r = Some e \<longrightarrow> n < length ns \<and> (\<exists>e'. e = step_failed (ns ! n) e'))"
    if "start_modules ms ns w = (n, w', r)" for ns
    using that
  proof (induction ns arbitrary: w n)
    case (Cons x ns)
    obtain w1 r1 where m: "ms x w = (w1, r1)" by fastforce
    then show ?case using Cons by (cases r1) (auto split: prod.splits)
  qed simp
  from this [OF assms] have "(r = None \<longleftrightarrow> n = length orchestrator_steps) \<and>
      (\<forall>e. r = Some e \<longrightarrow> n < length orchestrator_steps \<and> (\<exists>e'. e = step_failed (is_name (orchestrator_steps ! n)) e'))"
    by (metis length_map nth_map)
  ultimately show ?thesis unfolding orchestrator_initialize_def by auto
qed

definition example_modules :: "(nat, nat) modules" where
  "example_modules name w = (Suc w, if name = is_name InfrastructureInitializer then Inl ''refused'' else Inr (\<lambda>k. Some w))"

theorem orchestrated_start_witness:
  "\<exists>c. orchestrator_initialize example_modules Map.empty 0 = (c, 3, Inl (step_failed (is_name InfrastructureInitializer) ''refused'')) \<and> ''tracer'' \<in> dom c \<and> ''queueManager'' \<notin> dom c"
proof -
  have m: "start_modules example_modules (map is_name orchestrator_steps) 0 = (2, 3, Some (step_failed (is_name InfrastructureInitializer) ''refused''))" by code_simp
  have "''tracer'' \<in> set (concat (map is_provides (take 2 orchestrator_steps))) \<and> ''queueManager'' \<notin> set (concat (map is_provides (take 2 orchestrator_steps)))" by code_simp
  then show ?thesis using orchestrated_start [OF m] by auto
qed

subsection \<open>Graceful shutdown\<close>

text \<open>A call ends, fails or never returns. \<open>Hangs\<close> lets the timer of 30 seconds run out, which ends the process.\<close>

datatype call_end = Ends | Fails | Hangs

type_synonym 'w methods = "string \<rightharpoonup> ('w \<Rightarrow> 'w \<times> call_end)"

record 'w graceful_shutdown =
  gs_isShuttingDown :: bool
  gs_server :: "'w methods option"
  gs_worker :: "'w methods option"
  gs_daemons :: "'w methods option"
  gs_container :: "('w, 'w methods) container"

datatype shutdown_end = Completed | Aborted | ForcedExit | AlreadyRunning

text \<open>\<open>if (o && typeof o.m === 'function') await o.m().catch(() => {})\<close>; the close of the server calls back also with an error.\<close>

definition call_if_there :: "'w methods option \<Rightarrow> string \<Rightarrow> 'w \<Rightarrow> 'w \<times> bool" where
  "call_if_there ob m w = (case ob of None \<Rightarrow> (w, True) | Some ms \<Rightarrow> (case ms m of None \<Rightarrow> (w, True)
     | Some f \<Rightarrow> (case f w of (w', r) \<Rightarrow> (w', r \<noteq> Hangs))))"

text \<open>\<open>container.has(key) ? container.get(key) : null\<close>; a \<open>get\<close> that throws ends the sequence.\<close>

fun close_registered :: "(string \<times> string) list \<Rightarrow> ('w, 'w methods) container \<Rightarrow> 'w \<Rightarrow> ('w, 'w methods) container \<times> 'w \<times> shutdown_end" where
  "close_registered [] c w = (c, w, Completed)"
| "close_registered ((key, m) # rest) c w =
     (case (if di_has key c then di_get key c w else (c, w, Inr None)) of
        (c1, w1, Inl e) \<Rightarrow> (c1, w1, Aborted)
      | (c1, w1, Inr ob) \<Rightarrow> (case call_if_there ob m w1 of (w2, False) \<Rightarrow> (c1, w2, ForcedExit) | (w2, True) \<Rightarrow> close_registered rest c1 w2))"

definition gs_shutdown :: "'w graceful_shutdown \<Rightarrow> 'w \<Rightarrow> 'w graceful_shutdown \<times> 'w \<times> shutdown_end" where
  "gs_shutdown g w = (if gs_isShuttingDown g then (g, w, AlreadyRunning)
     else let g1 = g\<lparr> gs_isShuttingDown := True \<rparr> in
       (case call_if_there (gs_server g) ''close'' w of (w1, False) \<Rightarrow> (g1, w1, ForcedExit)
        | (w1, True) \<Rightarrow> (case call_if_there (gs_daemons g) ''stop'' w1 of (w2, False) \<Rightarrow> (g1, w2, ForcedExit)
        | (w2, True) \<Rightarrow> (case call_if_there (gs_worker g) ''stop'' w2 of (w3, False) \<Rightarrow> (g1, w3, ForcedExit)
        | (w3, True) \<Rightarrow> (case close_registered [(''queueManager'', ''close''), (''redisOperations'', ''close''), (''connectionPool'', ''$disconnect'')] (gs_container g) w3 of
             (c, w4, r) \<Rightarrow> (g1\<lparr> gs_container := c \<rparr>, w4, r))))))"

text \<open>\<open>main\<close> after the orchestrator: the values it takes from the container. \<open>listen\<close> is the server that the factory makes.\<close>

definition main_wire :: "('w \<Rightarrow> 'w \<times> 'w methods) \<Rightarrow> ('w, 'w methods) container \<Rightarrow> 'w \<Rightarrow> 'w \<times> (string + 'w graceful_shutdown)" where
  "main_wire listen c w =
     (case get_keys [''config'', ''expressApp'', ''logger''] c w of (c1, w1, Inl e) \<Rightarrow> (w1, Inl e)
      | (c1, w1, Inr _) \<Rightarrow> (case (if di_has ''worker'' c1 then di_get ''worker'' c1 w1 else (c1, w1, Inr None)) of (c2, w2, Inl e) \<Rightarrow> (w2, Inl e)
      | (c2, w2, Inr worker) \<Rightarrow> (case (if di_has ''daemon'' c2 then di_get ''daemon'' c2 w2 else (c2, w2, Inr None)) of (c3, w3, Inl e) \<Rightarrow> (w3, Inl e)
      | (c3, w3, Inr daemon) \<Rightarrow> (case listen w3 of (w4, server) \<Rightarrow>
           (w4, Inr \<lparr> gs_isShuttingDown = False, gs_server = Some server, gs_worker = worker, gs_daemons = daemon, gs_container = c3 \<rparr>)))))"

text \<open>\<open>main\<close>: what it starts, or the error it exits with.\<close>

definition boot_main :: "('w, 'w methods) modules \<Rightarrow> ('w \<Rightarrow> 'w \<times> 'w methods) \<Rightarrow> 'w \<Rightarrow> 'w \<times> (string + 'w graceful_shutdown)" where
  "boot_main ms listen w = (case orchestrator_initialize ms Map.empty w of (c, w1, Inl e) \<Rightarrow> (w1, Inl e) | (c, w1, Inr _) \<Rightarrow> main_wire listen c w1)"

text \<open>The members of what the modules give: the worker module and the daemon module are objects with parts, not the parts themselves.\<close>

definition module_members :: "string \<Rightarrow> string list option" where
  "module_members = map_of
     [(''worker'', [''processor'', ''stateMachine'', ''executor'', ''heartbeat'', ''shutdown'', ''monitor'', ''metrics'']),
      (''daemon'', [''coordinator'', ''daemons'']),
      (''queueManager'', [''findJob'', ''enqueueJob'', ''enqueueDelayedJob'', ''getJob'', ''getJobProgress'', ''cancelJob'', ''retryJob'', ''moveToDelayed'', ''moveToDLQ'',
         ''getQueueDepth'', ''getQueueStats'', ''pauseQueue'', ''resumeQueue'', ''clearQueue'']),
      (''redisOperations'', [''execute'', ''get'', ''set'', ''setWithExpiry'', ''delete'', ''exists'', ''ttl'', ''expire'', ''increment'', ''decrement'', ''append'', ''getRange'',
         ''setRange'', ''lpush'', ''rpush'', ''lpop'', ''rpop'', ''lrange'', ''llen'', ''sadd'', ''srem'', ''smembers'', ''scard'', ''zadd'', ''zrange'', ''zrangebyscore'', ''zcard'',
         ''hset'', ''hget'', ''hgetall'', ''hdel'', ''ping'', ''flushdb'', ''flushall'', ''deleteByPattern'']),
      (''connectionPool'', [''startMonitoring'', ''monitorPool'', ''getStats'', ''updateStatsSync'', ''stopMonitoring''])]"

definition member_ok :: "string \<Rightarrow> 'w methods option \<Rightarrow> bool" where
  "member_ok key v \<longleftrightarrow> (case v of None \<Rightarrow> True | Some ob \<Rightarrow> (case module_members key of None \<Rightarrow> True | Some names \<Rightarrow> dom ob \<subseteq> set names))"

definition shutdown_calls :: "(string \<times> string) list" where
  "shutdown_calls = [(''worker'', ''stop''), (''daemon'', ''stop''), (''queueManager'', ''close''), (''redisOperations'', ''close''), (''connectionPool'', ''$disconnect'')]"

lemma shutdown_calls_absent: "(k, m) \<in> set shutdown_calls \<Longrightarrow> \<exists>names. module_members k = Some names \<and> m \<notin> set names"
  unfolding shutdown_calls_def set_simps by (elim insertE emptyE; clarsimp simp: module_members_def)

lemma no_call: "member_ok k v \<Longrightarrow> (k, m) \<in> set shutdown_calls \<Longrightarrow> call_if_there v m w = (w, True)"
  using shutdown_calls_absent [of k m] by (cases v) (auto simp: member_ok_def call_if_there_def split: option.splits)

lemma close_registered_nothing:
  assumes "plain_container member_ok c" "set ks \<subseteq> set shutdown_calls" "fst ` set ks \<subseteq> dom c"
  shows "\<exists>c'. close_registered ks c w = (c', w, Completed)"
  using assms
proof (induction ks arbitrary: c)
  case (Cons km ks)
  obtain k m where km: "km = (k, m)" by (cases km)
  have "k \<in> dom c" using Cons.prems(3) by (auto simp: km)
  then obtain c' v where c': "di_get k c w = (c', w, Inr v)" "plain_container member_ok c'" "dom c' = dom c" "member_ok k v"
    using plain_di_get [OF Cons.prems(1)] by blast
  have "call_if_there v m w = (w, True)" using no_call [OF c'(4)] Cons.prems(2) by (simp add: km)
  moreover have "di_has k c" using \<open>k \<in> dom c\<close> by (auto simp: di_has_def)
  ultimately show ?case using Cons.IH [OF c'(2)] Cons.prems(2,3) c' by (simp add: km)
qed simp

lemma orchestrator_container:
  assumes "plain_modules p ms" "orchestrator_initialize ms Map.empty w = (c, w1, Inr u)"
  shows "plain_container p c \<and> dom c = set (concat (map is_provides orchestrator_steps))"
proof -
  obtain n w' r where s: "start_modules ms (map is_name orchestrator_steps) w = (n, w', r)" using prod_cases3 by blast
  have "needs_met [] orchestrator_steps" by code_simp
  then obtain c' where c': "run_steps ms orchestrator_steps Map.empty w = (c', w', case r of None \<Rightarrow> Inr () | Some e \<Rightarrow> Inl e)" "plain_container p c'"
      "dom c' = set ([] @ concat (map is_provides (take n orchestrator_steps)))"
    using run_steps_plain [OF plain_container_simps(1) _ _ s assms(1), where ks = "[]"] by auto
  have "r = None" "c' = c" using c'(1) assms(2) by (auto simp: orchestrator_initialize_def split: option.splits)
  moreover have "n = length ns" if "start_modules ms ns w = (n, w', None)" for ns
    using that
  proof (induction ns arbitrary: w n)
    case (Cons x ns)
    obtain w1 r1 where m: "ms x w = (w1, r1)" by fastforce
    then show ?case using Cons by (cases r1) (auto split: prod.splits)
  qed simp
  ultimately show ?thesis using c'(2,3) s by (metis append_Nil length_map take_all_iff order_refl)
qed

lemma provided_keys: "{''config'', ''expressApp'', ''logger'', ''worker'', ''daemon'', ''queueManager'', ''redisOperations'', ''connectionPool''} \<subseteq> set (concat (map is_provides orchestrator_steps))"
  by code_simp

lemma plain_get_if:
  assumes "plain_container p c" "k \<in> dom c" "(if di_has k c then di_get k c w else (c, w, Inr None)) = (c', w', r)"
  shows "\<exists>v. r = Inr v \<and> p k v \<and> w' = w \<and> plain_container p c' \<and> dom c' = dom c"
proof -
  obtain c1 v where "di_get k c w = (c1, w, Inr v)" "plain_container p c1" "dom c1 = dom c" "p k v" using plain_di_get [OF assms(1,2)] by blast
  moreover have "di_has k c" using assms(2) by (auto simp: di_has_def)
  ultimately show ?thesis using assms(3) by auto
qed

lemma main_wire_plain:
  assumes "plain_container member_ok c" "dom c = set (concat (map is_provides orchestrator_steps))" "main_wire listen c w = (w1, Inr g)"
  shows "\<exists>server. listen w = (w1, server) \<and> gs_server g = Some server \<and> \<not> gs_isShuttingDown g \<and> member_ok ''worker'' (gs_worker g) \<and> member_ok ''daemon'' (gs_daemons g) \<and>
    plain_container member_ok (gs_container g) \<and> {''queueManager'', ''redisOperations'', ''connectionPool''} \<subseteq> dom (gs_container g)"
proof -
  have "set [''config'', ''expressApp'', ''logger''] \<subseteq> dom c" using provided_keys unfolding assms(2) by simp
  then obtain c1 where c1: "get_keys [''config'', ''expressApp'', ''logger''] c w = (c1, w, Inr ())" "plain_container member_ok c1" "dom c1 = dom c"
    using plain_get_keys [OF assms(1)] by metis
  obtain c2 w2 r2 where g2: "(if di_has ''worker'' c1 then di_get ''worker'' c1 w else (c1, w, Inr None)) = (c2, w2, r2)" using prod_cases3 by blast
  have "''worker'' \<in> dom c1" using provided_keys c1(3) assms(2) by auto
  then obtain worker where w2: "r2 = Inr worker" "member_ok ''worker'' worker" "w2 = w" "plain_container member_ok c2" "dom c2 = dom c1"
    using plain_get_if [OF c1(2) _ g2] by auto
  obtain c3 w3 r3 where g3: "(if di_has ''daemon'' c2 then di_get ''daemon'' c2 w else (c2, w, Inr None)) = (c3, w3, r3)" using prod_cases3 by blast
  have "''daemon'' \<in> dom c2" using provided_keys c1(3) w2(5) assms(2) by auto
  then obtain daemon where w3: "r3 = Inr daemon" "member_ok ''daemon'' daemon" "w3 = w" "plain_container member_ok c3" "dom c3 = dom c2"
    using plain_get_if [OF w2(4) _ g3] by auto
  have "{''queueManager'', ''redisOperations'', ''connectionPool''} \<subseteq> dom c3" using provided_keys c1(3) w2(5) w3(5) assms(2) by auto
  moreover have "main_wire listen c w = (case listen w of (w4, server) \<Rightarrow>
      (w4, Inr \<lparr> gs_isShuttingDown = False, gs_server = Some server, gs_worker = worker, gs_daemons = daemon, gs_container = c3 \<rparr>))"
    unfolding main_wire_def c1(1) by (simp only: prod.case sum.case g2 w2(1,3) g3 w3(1,3))
  ultimately show ?thesis using assms(3) w2 w3 by (auto split: prod.splits)
qed

text \<open>C38: The graceful shutdown of a started program stops accepting connections and does nothing else: the objects that are registered as worker, daemon,
  queue manager, redis operations and connection pool have none of the methods it asks for, so that the worker's loop, the
  daemons and the connections to Redis and the database are left as they are, and it still reports that it completed. A second call does nothing.\<close>
theorem shutdown_closes_only_the_server:
  assumes "plain_modules member_ok ms" "boot_main ms listen w = (w1, Inr g)" "gs_server g = Some server" "server ''close'' = Some close" "close w2 = (w3, r)" "r \<noteq> Hangs"
  shows "\<exists>g'. gs_shutdown g w2 = (g', w3, Completed) \<and> (\<forall>w4. gs_shutdown g' w4 = (g', w4, AlreadyRunning))"
proof -
  obtain c w0 u where c: "orchestrator_initialize ms Map.empty w = (c, w0, Inr u)" "main_wire listen c w0 = (w1, Inr g)"
    using assms(2) by (auto simp: boot_main_def split: prod.splits sum.splits)
  have g: "\<not> gs_isShuttingDown g" "member_ok ''worker'' (gs_worker g)" "member_ok ''daemon'' (gs_daemons g)" "plain_container member_ok (gs_container g)"
      "{''queueManager'', ''redisOperations'', ''connectionPool''} \<subseteq> dom (gs_container g)"
    using main_wire_plain [OF _ _ c(2)] orchestrator_container [OF assms(1) c(1)] by auto
  have "\<exists>c'. close_registered [(''queueManager'', ''close''), (''redisOperations'', ''close''), (''connectionPool'', ''$disconnect'')] (gs_container g) w3 = (c', w3, Completed)"
    by (rule close_registered_nothing [OF g(4)]) (use g(5) in \<open>auto simp: shutdown_calls_def\<close>)
  then obtain c' where c': "close_registered [(''queueManager'', ''close''), (''redisOperations'', ''close''), (''connectionPool'', ''$disconnect'')] (gs_container g) w3 = (c', w3, Completed)" ..
  have "call_if_there (gs_daemons g) ''stop'' w3 = (w3, True)" "call_if_there (gs_worker g) ''stop'' w3 = (w3, True)"
    by (rule no_call [OF g(3)] no_call [OF g(2)], simp add: shutdown_calls_def)+
  moreover have "call_if_there (gs_server g) ''close'' w2 = (w3, True)" using assms(3-6) by (simp add: call_if_there_def)
  ultimately show ?thesis using g(1) c' by (simp add: gs_shutdown_def)
qed

definition example_services :: "(string list, string list methods) modules" where
  "example_services name w = (w @ [name], Inr (\<lambda>k. if k = ''worker'' then Some [''processor'' \<mapsto> (\<lambda>w. (w @ [''stopped''], Ends))] else Some Map.empty))"

definition example_listen :: "string list \<Rightarrow> string list \<times> string list methods" where
  "example_listen w = (w @ [''listening''], [''close'' \<mapsto> (\<lambda>w. (w @ [''closed''], Ends))])"

theorem shutdown_closes_only_the_server_witness:
  "\<exists>w1 g g'. boot_main example_services example_listen [] = (w1, Inr g) \<and> gs_shutdown g w1 = (g', w1 @ [''closed''], Completed)"
proof -
  have plain: "plain_modules member_ok example_services"
    by (auto simp: plain_modules_def example_services_def member_ok_def module_members_def split: option.splits)
  have "case boot_main example_services example_listen [] of (w1, Inl e) \<Rightarrow> False
      | (w1, Inr g) \<Rightarrow> (case gs_server g of None \<Rightarrow> False | Some server \<Rightarrow> (case server ''close'' of None \<Rightarrow> False | Some close \<Rightarrow> close w1 = (w1 @ [''closed''], Ends)))"
    by code_simp
  then obtain w1 g server close where g: "boot_main example_services example_listen [] = (w1, Inr g)" "gs_server g = Some server" "server ''close'' = Some close"
      "close w1 = (w1 @ [''closed''], Ends)"
    by (auto split: prod.splits sum.splits option.splits)
  then show ?thesis using shutdown_closes_only_the_server [OF plain g] by blast
qed

end
