(* ===== verification/QF_Startup.thy ===== *)
theory QF_Startup
  imports QF_Boot QF_Util
begin

text \<open>
  The older way to start and stop, which \<open>src/main.ts\<close> takes: \<open>DependencyContainer\<close>, the checks before traffic is taken, the connections to
  the database and to Redis, migrations and seeds.

  Setups and closers are parameters that act on the world \<open>'w\<close>; what a check finds out is a parameter too. A loop that waits takes the
  readings of the clock as a sequence. Shown: a start that fails part-way leaves what it opened, which shutting down then does not
  close; a complete one is taken down in order whatever fails; the waiting loops end, with success just when a check in time succeeds; seeding is
  idempotent.
\<close>

subsection \<open>DependencyContainer\<close>

datatype stage = S_database | S_redis | S_repositories | S_queue | S_observability | S_security | S_resilience | S_services | S_worker | S_daemon | S_api

text \<open>\<open>dp_slots\<close>: the properties that hold something. Worker and daemon may be set up as \<open>null\<close>.\<close>

record dependency_container =
  dp_initialized :: bool
  dp_slots :: "stage set"

definition new_container :: dependency_container where
  "new_container = \<lparr> dp_initialized = False, dp_slots = {} \<rparr>"

definition container_stages :: "stage list" where
  "container_stages = [S_database, S_redis, S_repositories, S_queue, S_observability, S_security, S_resilience, S_services, S_worker, S_daemon, S_api]"

type_synonym 'w setups = "stage \<Rightarrow> 'w \<Rightarrow> 'w \<times> (string + bool)"
type_synonym 'w closers = "stage \<Rightarrow> 'w \<Rightarrow> 'w \<times> bool"

fun run_setups :: "'w setups \<Rightarrow> stage list \<Rightarrow> stage set \<Rightarrow> 'w \<Rightarrow> stage set \<times> 'w \<times> (string + unit)" where
  "run_setups setup [] slots w = (slots, w, Inr ())"
| "run_setups setup (s # ss) slots w = (case setup s w of (w', Inl e) \<Rightarrow> (slots, w', Inl e)
     | (w', Inr there) \<Rightarrow> run_setups setup ss (if there then insert s slots else slots - {s}) w')"

definition dp_initialize :: "'w setups \<Rightarrow> dependency_container \<Rightarrow> 'w \<Rightarrow> dependency_container \<times> 'w \<times> (string + unit)" where
  "dp_initialize setup c w = (if dp_initialized c then (c, w, Inr ())
     else case run_setups setup container_stages (dp_slots c) w of
         (slots, w', Inl e) \<Rightarrow> (c\<lparr> dp_slots := slots \<rparr>, w', Inl e)
       | (slots, w', Inr _) \<Rightarrow> (\<lparr> dp_initialized = True, dp_slots = slots \<rparr>, w', Inr ()))"

text \<open>Each closer in its own \<open>try\<close>: what fails is logged. The database is disconnected without asking for its slot.\<close>

fun run_closers :: "'w closers \<Rightarrow> stage list \<Rightarrow> 'w \<Rightarrow> 'w" where
  "run_closers closer [] w = w"
| "run_closers closer (s # ss) w = run_closers closer ss (fst (closer s w))"

definition dp_shutdown :: "'w closers \<Rightarrow> dependency_container \<Rightarrow> 'w \<Rightarrow> dependency_container \<times> 'w" where
  "dp_shutdown closer c w = (if \<not> dp_initialized c then (c, w)
     else (c\<lparr> dp_initialized := False \<rparr>,
       run_closers closer (filter (\<lambda>s. s \<in> dp_slots c) [S_worker, S_daemon, S_observability, S_redis] @ [S_database]) w))"

text \<open>\<open>getDependencyContainer\<close>: the singleton, or the error without a configuration and a logger.\<close>

definition getDependencyContainer :: "bool \<Rightarrow> dependency_container option \<Rightarrow> dependency_container option \<times> (string + dependency_container)" where
  "getDependencyContainer given single = (case single of Some c \<Rightarrow> (single, Inr c)
     | None \<Rightarrow> if given then (Some new_container, Inr new_container) else (None, Inl ''Singleton container must be initialized first''))"

text \<open>\<open>gracefulShutdown\<close> of \<open>shutdown.ts\<close>: the exit code. When closing the server fails the container is not shut down.\<close>

definition gracefulShutdown :: "'w closers \<Rightarrow> ('w \<Rightarrow> 'w \<times> bool) \<Rightarrow> dependency_container \<Rightarrow> 'w \<Rightarrow> dependency_container \<times> 'w \<times> int" where
  "gracefulShutdown closer close_server c w = (case close_server w of (w', False) \<Rightarrow> (c, w', 1)
     | (w', True) \<Rightarrow> (case dp_shutdown closer c w' of (c', w'') \<Rightarrow> (c', w'', 0)))"

text \<open>The setups in order up to the first that fails.\<close>

fun setups_world :: "'w setups \<Rightarrow> stage list \<Rightarrow> 'w \<Rightarrow> 'w" where
  "setups_world setup [] w = w"
| "setups_world setup (s # ss) w = (case setup s w of (w', Inl e) \<Rightarrow> w' | (w', Inr _) \<Rightarrow> setups_world setup ss w')"

lemma run_setups_world: "run_setups setup ss slots w = (slots', w', r) \<Longrightarrow> w' = setups_world setup ss w"
  by (induction ss arbitrary: slots w) (auto split: prod.splits sum.splits)


definition example_setup :: "string list setups" where
  "example_setup s w = (if s = S_queue then (w, Inl ''refused'') else (w @ [''up''], Inr True))"


subsection \<open>Connecting to the database\<close>

text \<open>\<open>ok i\<close> is whether the query of attempt \<open>i\<close> succeeds, counted from 0, \<open>rnd i\<close> the random number of the wait after it. The answer is the number of
  queries when connected, and the waits.\<close>

function connect_loop :: "(nat \<Rightarrow> bool) \<Rightarrow> (nat \<Rightarrow> rat) \<Rightarrow> nat \<Rightarrow> rat \<Rightarrow> nat \<Rightarrow> (nat + nat) \<times> rat list" where
  "connect_loop ok rnd maxAttempts baseDelay attempt =
     (if attempt < maxAttempts then
        if ok attempt then (Inr (Suc attempt), [])
        else if Suc attempt \<ge> maxAttempts then (Inl (Suc attempt), [])
        else (case connect_loop ok rnd maxAttempts baseDelay (Suc attempt) of (r, waits) \<Rightarrow> (r, util_calculateBackoff (rnd attempt) attempt baseDelay 15000 # waits))
      else (Inl attempt, []))"
  by pat_completeness auto
termination by (relation "measure (\<lambda>(ok, rnd, m, b, a). m - a)") auto

declare connect_loop.simps [simp del]

definition initializeDatabase :: "nat option \<Rightarrow> rat option \<Rightarrow> (nat \<Rightarrow> bool) \<Rightarrow> (nat \<Rightarrow> rat) \<Rightarrow> (nat + nat) \<times> rat list" where
  "initializeDatabase retryAttempts retryDelay ok rnd = connect_loop ok rnd (nullish_or retryAttempts 3) (nullish_or retryDelay 1000) 0"

definition least_ok :: "(nat \<Rightarrow> bool) \<Rightarrow> nat \<Rightarrow> nat \<Rightarrow> nat option" where
  "least_ok ok from_attempt maxAttempts = find ok [from_attempt ..< maxAttempts]"

lemma least_ok_step: "a < m \<Longrightarrow> least_ok ok a m = (if ok a then Some a else least_ok ok (Suc a) m)"
  by (simp add: least_ok_def upt_conv_Cons)

lemma connect_loop_result:
  assumes "a \<le> m"
  shows "fst (connect_loop ok rnd m b a) = (case least_ok ok a m of Some i \<Rightarrow> Inr (Suc i) | None \<Rightarrow> Inl m) \<and>
    snd (connect_loop ok rnd m b a) = map (\<lambda>i. util_calculateBackoff (rnd i) i b 15000) [a ..< (case least_ok ok a m of Some i \<Rightarrow> i | None \<Rightarrow> m - 1)]"
  using assms
proof (induction ok rnd m b a rule: connect_loop.induct)
  case (1 ok rnd m b a)
  show ?case
  proof (cases "a < m \<and> \<not> ok a \<and> Suc a < m")
    case True
    then have ih: "fst (connect_loop ok rnd m b (Suc a)) = (case least_ok ok (Suc a) m of Some i \<Rightarrow> Inr (Suc i) | None \<Rightarrow> Inl m)"
        "snd (connect_loop ok rnd m b (Suc a)) = map (\<lambda>i. util_calculateBackoff (rnd i) i b 15000) [Suc a ..< (case least_ok ok (Suc a) m of Some i \<Rightarrow> i | None \<Rightarrow> m - 1)]"
      using 1 by auto
    have l: "least_ok ok a m = least_ok ok (Suc a) m" using True by (simp add: least_ok_step)
    have "a < (case least_ok ok (Suc a) m of Some i \<Rightarrow> i | None \<Rightarrow> m - 1)"
      using True by (auto simp: least_ok_def find_Some_iff split: option.splits)
    then have "[a ..< (case least_ok ok (Suc a) m of Some i \<Rightarrow> i | None \<Rightarrow> m - 1)] = a # [Suc a ..< (case least_ok ok (Suc a) m of Some i \<Rightarrow> i | None \<Rightarrow> m - 1)]"
      by (simp add: upt_conv_Cons)
    then show ?thesis using True ih l by (cases "connect_loop ok rnd m b (Suc a)") (simp add: connect_loop.simps [of ok rnd m b a])
  next
    case False
    then show ?thesis using "1.prems" by (auto simp: connect_loop.simps [of ok rnd m b a] least_ok_def upt_conv_Cons not_less le_Suc_eq)
  qed
qed

text \<open>Connecting stops at the first query that succeeds and fails only after \<open>retryAttempts\<close> (3 by default) queries that all failed. It waits
  once between two queries, at most 15 seconds each time and doubling, so that it always ends; without attempts it fails at once.\<close>
theorem database_connection_attempts:
  assumes "m = nullish_or retryAttempts 3" "initializeDatabase retryAttempts retryDelay ok rnd = (r, waits)"
  shows "(\<forall>n. r = Inr n \<longleftrightarrow> 0 < n \<and> n \<le> m \<and> ok (n - 1) \<and> (\<forall>i < n - 1. \<not> ok i)) \<and>
    (\<forall>n. r = Inl n \<longleftrightarrow> n = m \<and> (\<forall>i < m. \<not> ok i)) \<and>
    length waits = (case r of Inr n \<Rightarrow> n | Inl n \<Rightarrow> n) - 1 \<and>
    (\<forall>i < length waits. waits ! i \<le> 15000 \<and> (\<forall>b. retryDelay = Some b \<and> 0 \<le> rnd i \<longrightarrow> waits ! i \<ge> min (b * 2 ^ i) 15000))"
proof -
  let ?l = "least_ok ok 0 m"
  have r: "r = (case ?l of Some i \<Rightarrow> Inr (Suc i) | None \<Rightarrow> Inl m)"
    and waits: "waits = map (\<lambda>i. util_calculateBackoff (rnd i) i (nullish_or retryDelay 1000) 15000) [0 ..< (case ?l of Some i \<Rightarrow> i | None \<Rightarrow> m - 1)]"
    using connect_loop_result [of 0 m ok rnd "nullish_or retryDelay 1000"] assms by (auto simp: initializeDatabase_def)
  have l: "?l = Some i \<longleftrightarrow> i < m \<and> ok i \<and> (\<forall>j < i. \<not> ok j)" for i
    unfolding least_ok_def find_Some_iff by auto
  have n: "?l = None \<longleftrightarrow> (\<forall>i < m. \<not> ok i)" by (auto simp: least_ok_def find_None_iff)
  have "r = Inr k \<longleftrightarrow> 0 < k \<and> ?l = Some (k - 1)" for k by (auto simp: r split: option.splits)
  then have 1: "r = Inr k \<longleftrightarrow> 0 < k \<and> k \<le> m \<and> ok (k - 1) \<and> (\<forall>i < k - 1. \<not> ok i)" for k unfolding l by auto
  have 2: "r = Inl k \<longleftrightarrow> k = m \<and> (\<forall>i < m. \<not> ok i)" for k using n by (auto simp: r split: option.splits)
  have 3: "length waits = (case r of Inr n \<Rightarrow> n | Inl n \<Rightarrow> n) - 1" by (auto simp: r waits split: option.splits)
  have "waits ! i \<le> 15000 \<and> (\<forall>b. retryDelay = Some b \<and> 0 \<le> rnd i \<longrightarrow> waits ! i \<ge> min (b * 2 ^ i) 15000)" if "i < length waits" for i
    using that by (auto simp: waits util_calculateBackoff_def nullish_or_def)
  then show ?thesis using 1 2 3 by blast
qed

theorem database_connection_attempts_witness:
  "\<exists>waits. initializeDatabase (Some 5) None (\<lambda>i. i = 2) (\<lambda>i. 0) = (Inr 3, waits) \<and> length waits = 2"
proof -
  obtain r waits where i: "initializeDatabase (Some 5) None (\<lambda>i. i = 2) (\<lambda>i. 0) = (r, waits)" by fastforce
  note t = database_connection_attempts [OF refl i]
  have "r = Inr 3" using t by (auto simp: nullish_or_def)
  moreover have "length waits = (case r of Inr n \<Rightarrow> n | Inl n \<Rightarrow> n) - 1" using t by blast
  ultimately show ?thesis using i by simp
qed

subsection \<open>Waiting for health\<close>

text \<open>\<open>now i\<close> is the reading of the clock at the head of turn \<open>i\<close> and \<open>healthy i\<close> whether the check of that turn reports HEALTHY; a check that throws
  counts as not. None is running out of fuel.\<close>

fun wait_loop :: "nat \<Rightarrow> (nat \<Rightarrow> int) \<Rightarrow> (nat \<Rightarrow> bool) \<Rightarrow> int \<Rightarrow> int \<Rightarrow> nat \<Rightarrow> bool option" where
  "wait_loop 0 now healthy startTime timeoutMs i = None"
| "wait_loop (Suc fuel) now healthy startTime timeoutMs i =
     (if now i - startTime < timeoutMs then if healthy i then Some True else wait_loop fuel now healthy startTime timeoutMs (Suc i) else Some False)"

definition waitForHealthy :: "nat \<Rightarrow> (nat \<Rightarrow> int) \<Rightarrow> (nat \<Rightarrow> bool) \<Rightarrow> int \<Rightarrow> int \<Rightarrow> bool option" where
  "waitForHealthy fuel now healthy startTime timeoutMs = wait_loop fuel now healthy startTime timeoutMs 0"

lemma wait_loop_found: "(\<forall>j < k. now (i + j) - t0 < t \<and> \<not> healthy (i + j)) \<Longrightarrow> k < fuel \<Longrightarrow> now (i + k) - t0 < t \<Longrightarrow> healthy (i + k) \<Longrightarrow> wait_loop fuel now healthy t0 t i = Some True"
proof (induction k arbitrary: i fuel)
  case 0
  then show ?case by (cases fuel) auto
next
  case (Suc k)
  obtain f where f: "fuel = Suc f" using Suc.prems(2) by (cases fuel) auto
  have "now i - t0 < t \<and> \<not> healthy i" using Suc.prems(1) by force
  moreover have "wait_loop f now healthy t0 t (Suc i) = Some True"
    by (rule Suc.IH) (use Suc.prems f in \<open>force+\<close>)
  ultimately show ?case by (simp add: f)
qed

lemma wait_loop_timeout: "(\<forall>j < k. now (i + j) - t0 < t \<and> \<not> healthy (i + j)) \<Longrightarrow> k < fuel \<Longrightarrow> \<not> now (i + k) - t0 < t \<Longrightarrow> wait_loop fuel now healthy t0 t i = Some False"
proof (induction k arbitrary: i fuel)
  case 0
  then show ?case by (cases fuel) auto
next
  case (Suc k)
  obtain f where f: "fuel = Suc f" using Suc.prems(2) by (cases fuel) auto
  have "now i - t0 < t \<and> \<not> healthy i" using Suc.prems(1) by force
  moreover have "wait_loop f now healthy t0 t (Suc i) = Some False"
    by (rule Suc.IH) (use Suc.prems f in \<open>force+\<close>)
  ultimately show ?case by (simp add: f)
qed

text \<open>C40: Waiting for health ends: when each turn takes at least the poll interval, after at most as many turns as intervals fit into the
  timeout. It succeeds just when a check begun before the deadline reports healthy, however late that check ends.\<close>
theorem waiting_for_health_ends:
  assumes "0 < pollIntervalMs" "startTime \<le> now 0" "\<forall>i. now i + pollIntervalMs \<le> now (Suc i)" "timeoutMs \<le> pollIntervalMs * int n" "n < fuel"
  shows "\<exists>r. waitForHealthy fuel now healthy startTime timeoutMs = Some r \<and> (r \<longleftrightarrow> (\<exists>i \<le> n. healthy i \<and> now i - startTime < timeoutMs))"
proof -
  have step: "startTime + pollIntervalMs * int i \<le> now i" for i
  proof (induction i)
    case (Suc i)
    have "now i + pollIntervalMs \<le> now (Suc i)" using assms(3) by blast
    then show ?case using Suc by (simp add: algebra_simps)
  qed (use assms(2) in simp)
  have next_later: "now i \<le> now (Suc i)" for i using assms(1) assms(3) [THEN spec, of i] by linarith
  have mono: "now i \<le> now j" if "i \<le> j" for i j using lift_Suc_mono_le [of now, OF next_later that] .
  define k where "k = (LEAST i. \<not> (now i - startTime < timeoutMs \<and> \<not> healthy i))"
  have n: "\<not> (now n - startTime < timeoutMs \<and> \<not> healthy n)" using step [of n] assms(4) by linarith
  then have k: "\<not> (now k - startTime < timeoutMs \<and> \<not> healthy k)" unfolding k_def by (rule LeastI)
  have "k \<le> n" unfolding k_def using n by (rule Least_le)
  have before: "\<forall>j < k. now (0 + j) - startTime < timeoutMs \<and> \<not> healthy (0 + j)" unfolding k_def using not_less_Least by auto
  show ?thesis
  proof (cases "now k - startTime < timeoutMs")
    case True
    then have "wait_loop fuel now healthy startTime timeoutMs 0 = Some True" using wait_loop_found [OF before] k \<open>k \<le> n\<close> assms(5) by simp
    then show ?thesis using True k \<open>k \<le> n\<close> by (auto simp: waitForHealthy_def)
  next
    case False
    then have "wait_loop fuel now healthy startTime timeoutMs 0 = Some False" using wait_loop_timeout [OF before] k \<open>k \<le> n\<close> assms(5) by simp
    moreover have "\<not> (healthy i \<and> now i - startTime < timeoutMs)" for i
      using False before mono [of k i] by (cases "i < k") auto
    ultimately show ?thesis by (auto simp: waitForHealthy_def)
  qed
qed

theorem waiting_for_health_ends_witness:
  "waitForHealthy 31 (\<lambda>i. 1000 + 500 * int i) (\<lambda>i. i = 2) 1000 15000 = Some True"
  using waiting_for_health_ends [of 500 1000 "\<lambda>i. 1000 + 500 * int i" 15000 30 31 "\<lambda>i. i = 2"] by auto

subsection \<open>Checks before traffic is taken\<close>

text \<open>What the validator reads and finds out; the errors of the probes are their messages.\<close>

record startup_probes =
  sp_environment :: "string option"
  sp_jwtSecret :: "string option"
  sp_database :: "string option"
  sp_redis :: "string + string"
  sp_filesystem :: "string option"
  sp_port :: "int option"
  sp_portFree :: "int \<Rightarrow> bool"
  sp_startWorker :: bool
  sp_startDaemon :: bool

datatype startup_error = JwtSecret | DatabaseError string | RedisAnswer string | RedisError string | PortTaken int
datatype startup_warning = OddEnvironment string | FilesystemError string | ApiOnly

definition startup_errors :: "startup_probes \<Rightarrow> startup_error list" where
  "startup_errors p =
     (if length (str_or (sp_jwtSecret p) []) < 32 then [JwtSecret] else []) @
     (case sp_database p of Some e \<Rightarrow> [DatabaseError e] | None \<Rightarrow> []) @
     (case sp_redis p of Inl e \<Rightarrow> [RedisError e] | Inr pong \<Rightarrow> if pong \<noteq> ''PONG'' then [RedisAnswer pong] else []) @
     (let port = num_or (sp_port p) 3000 in if sp_portFree p port then [] else [PortTaken port])"

definition startup_warnings :: "startup_probes \<Rightarrow> startup_warning list" where
  "startup_warnings p =
     (let env = str_or (sp_environment p) ''development'' in if env \<in> set [''development'', ''test'', ''production''] then [] else [OddEnvironment env]) @
     (case sp_filesystem p of Some e \<Rightarrow> [FilesystemError e] | None \<Rightarrow> []) @
     (if \<not> sp_startWorker p \<and> \<not> sp_startDaemon p then [ApiOnly] else [])"

definition startup_validate :: "startup_probes \<Rightarrow> startup_error list + startup_warning list" where
  "startup_validate p = (if startup_errors p = [] then Inr (startup_warnings p) else Inl (startup_errors p))"

text \<open>\<open>initializeApplication\<close>: a check that fails after the container is initialized ends the start, and the container with all it opened is
  dropped.\<close>

definition initializeApplication :: "'w setups \<Rightarrow> ('w \<Rightarrow> startup_probes) \<Rightarrow> ('w \<Rightarrow> 'w \<times> bool option) \<Rightarrow> 'w \<Rightarrow> 'w \<times> (string + dependency_container)" where
  "initializeApplication setup probes wait_healthy w = (case dp_initialize setup new_container w of (c, w1, Inl e) \<Rightarrow> (w1, Inl e)
     | (c, w1, Inr _) \<Rightarrow> (case startup_validate (probes w1) of Inl es \<Rightarrow> (w1, Inl ''Startup validations failed'')
         | Inr warnings \<Rightarrow> if S_api \<notin> dp_slots c then (w1, Inl ''Express API App instance was not registered'')
             else (case wait_healthy w1 of (w2, Some True) \<Rightarrow> (w2, Inr c) | (w2, _) \<Rightarrow> (w2, Inl ''Readiness check timed out''))))"

text \<open>A start is accepted just when no error is found, and an application is up only with every check passed and the API in place.\<close>
theorem started_applications_passed_their_checks:
  assumes "initializeApplication setup probes wait_healthy w = (w2, Inr c)"
  shows "dp_initialized c \<and> S_api \<in> dp_slots c \<and>
    (\<exists>w1. w1 = setups_world setup container_stages w \<and> wait_healthy w1 = (w2, Some True) \<and>
       sp_database (probes w1) = None \<and> sp_redis (probes w1) = Inr ''PONG'' \<and> (\<exists>s. sp_jwtSecret (probes w1) = Some s \<and> 32 \<le> length s) \<and>
       sp_portFree (probes w1) (num_or (sp_port (probes w1)) 3000))"
proof -
  obtain c1 w1 where i: "dp_initialize setup new_container w = (c1, w1, Inr ())"
    using assms by (auto simp: initializeApplication_def split: prod.splits sum.splits)
  have rest: "startup_errors (probes w1) = []" "S_api \<in> dp_slots c1" "wait_healthy w1 = (w2, Some True)" "c = c1"
    using assms i by (auto simp: initializeApplication_def startup_validate_def split: prod.splits sum.splits if_splits option.splits bool.splits)
  have errs: "32 \<le> length (str_or (sp_jwtSecret (probes w1)) [])" "sp_database (probes w1) = None" "sp_redis (probes w1) = Inr ''PONG''"
      "sp_portFree (probes w1) (num_or (sp_port (probes w1)) 3000)"
    using rest(1) by (auto simp: startup_errors_def Let_def not_less split: if_splits option.splits sum.splits)
  have "\<exists>s. sp_jwtSecret (probes w1) = Some s \<and> 32 \<le> length s" using errs(1) by (cases "sp_jwtSecret (probes w1)") (auto simp: str_or_def split: if_splits)
  moreover have "dp_initialized c1 \<and> w1 = setups_world setup container_stages w"
    using i by (auto simp: dp_initialize_def new_container_def dest: run_setups_world split: prod.splits sum.splits)
  ultimately show ?thesis using errs rest by blast
qed

definition example_probes :: startup_probes where
  "example_probes = \<lparr> sp_environment = None, sp_jwtSecret = Some (replicate 32 CHR ''s''), sp_database = None, sp_redis = Inr ''PONG'', sp_filesystem = None, sp_port = None,
     sp_portFree = (\<lambda>p. True), sp_startWorker = True, sp_startDaemon = True \<rparr>"

theorem started_applications_passed_their_checks_witness:
  "\<exists>c. initializeApplication (\<lambda>s w. (Suc w, Inr True)) (\<lambda>w. example_probes) (\<lambda>w. (w, Some True)) 0 = (11, Inr c) \<and> dp_initialized c"
proof -
  have "startup_errors example_probes = []" by (simp add: startup_errors_def example_probes_def str_or_def Let_def)
  then obtain c where c: "initializeApplication (\<lambda>s w. (Suc w, Inr True)) (\<lambda>w. example_probes) (\<lambda>w. (w, Some True)) 0 = (11, Inr c)"
    by (simp add: initializeApplication_def dp_initialize_def new_container_def container_stages_def startup_validate_def)
  then show ?thesis using started_applications_passed_their_checks [OF c] by blast
qed

subsection \<open>Seeding\<close>

record seed_row =
  sd_type :: string
  sd_url :: string
  sd_filters :: "string list"
  sd_deleted :: bool

record seed_db =
  db_destinations :: "seed_row list"
  db_results :: "(string \<times> bool) list"

definition live_destinations :: "seed_db \<Rightarrow> seed_row list" where
  "live_destinations d = filter (\<lambda>r. \<not> sd_deleted r) (db_destinations d)"

definition add_destination :: "string \<Rightarrow> string \<Rightarrow> string list \<Rightarrow> seed_db \<Rightarrow> seed_db" where
  "add_destination type url filters d = d\<lparr> db_destinations := db_destinations d @ [\<lparr> sd_type = type, sd_url = url, sd_filters = filters, sd_deleted = False \<rparr>] \<rparr>"

text \<open>The first check counts destinations of every type. A result is its e-mail address and whether it is deleted.\<close>

definition seedDatabase :: "seed_db \<Rightarrow> seed_db" where
  "seedDatabase d =
     (let d1 = (if live_destinations d = [] then add_destination ''WEBHOOK'' ''https://httpbin.org/post'' [''classification.billing'', ''classification.support''] d else d);
          d2 = (if filter (\<lambda>r. sd_type r = ''DATABASE'') (live_destinations d1) = []
                then add_destination ''DATABASE'' ''postgresql://localhost:5432/archive'' [''classification.retention''] d1 else d1)
      in if filter (\<lambda>(m, deleted). \<not> deleted) (db_results d2) = [] then d2\<lparr> db_results := db_results d2 @ [(''billing@oneinbox.com'', False)] \<rparr> else d2)"

text \<open>\<open>setupDatabase\<close>: connect, migrate in development and test, check that the tables are there, seed in development.\<close>

definition setupDatabase :: "string option \<Rightarrow> (nat + nat) \<Rightarrow> (seed_db \<Rightarrow> seed_db option) \<Rightarrow> (seed_db \<Rightarrow> bool) \<Rightarrow> seed_db \<Rightarrow> seed_db \<times> (string + unit)" where
  "setupDatabase environment conn migrate tables_there d =
     (let env = str_or environment ''development'' in
      case conn of Inl n \<Rightarrow> (d, Inl ''Database initialization failed'')
      | Inr n \<Rightarrow> (case (if env = ''development'' \<or> env = ''test'' then migrate d else Some d) of None \<Rightarrow> (d, Inl ''migrations'')
         | Some d1 \<Rightarrow> if \<not> tables_there d1 then (d1, Inl ''Database schema verification failed'')
             else (if env = ''development'' then seedDatabase d1 else d1, Inr ())))"

text \<open>After seeding there is a destination of type DATABASE and a result, what was there is kept in front, and seeding again changes
  nothing. There need not be a webhook: a database destination alone keeps the first seed out. Only development is seeded.\<close>
theorem seeding_is_idempotent:
  "seedDatabase (seedDatabase d) = seedDatabase d \<and>
    (\<exists>r. r \<in> set (live_destinations (seedDatabase d)) \<and> sd_type r = ''DATABASE'') \<and> (\<exists>m. (m, False) \<in> set (db_results (seedDatabase d))) \<and>
    take (length (db_destinations d)) (db_destinations (seedDatabase d)) = db_destinations d \<and>
    setupDatabase (Some ''production'') (Inr 1) migrate (\<lambda>_. True) d = (d, Inr ()) \<and> setupDatabase None (Inr 1) Some (\<lambda>_. True) d = (seedDatabase d, Inr ())"
proof -
  define d1 where "d1 = (if live_destinations d = [] then add_destination ''WEBHOOK'' ''https://httpbin.org/post'' [''classification.billing'', ''classification.support''] d else d)"
  define d2 where "d2 = (if filter (\<lambda>r. sd_type r = ''DATABASE'') (live_destinations d1) = []
      then add_destination ''DATABASE'' ''postgresql://localhost:5432/archive'' [''classification.retention''] d1 else d1)"
  define d3 where "d3 = (if filter (\<lambda>(m, deleted). \<not> deleted) (db_results d2) = [] then d2\<lparr> db_results := db_results d2 @ [(''billing@oneinbox.com'', False)] \<rparr> else d2)"
  have s: "seedDatabase d = d3" by (simp add: seedDatabase_def d1_def d2_def d3_def Let_def)
  have live: "live_destinations d3 = live_destinations d2" by (simp add: d3_def live_destinations_def)
  have db: "filter (\<lambda>r. sd_type r = ''DATABASE'') (live_destinations d2) \<noteq> []"
    by (auto simp: d2_def add_destination_def live_destinations_def)
  then have ne: "live_destinations d3 \<noteq> []" unfolding live by auto
  have res: "filter (\<lambda>(m, deleted). \<not> deleted) (db_results d3) \<noteq> []" by (auto simp: d3_def)
  have "seedDatabase d3 = d3" using ne db res by (simp add: seedDatabase_def Let_def live)
  moreover have "\<exists>r. r \<in> set (live_destinations d3) \<and> sd_type r = ''DATABASE''" using db unfolding live filter_empty_conv by blast
  moreover have "\<exists>m. (m, False) \<in> set (db_results d3)" using res by (auto simp: filter_empty_conv)
  moreover have "take (length (db_destinations d)) (db_destinations d3) = db_destinations d"
    by (auto simp: d3_def d2_def d1_def add_destination_def)
  ultimately show ?thesis unfolding s by (simp add: s setupDatabase_def str_or_def Let_def)
qed

subsection \<open>Migrations\<close>

record migration_status =
  mg_applied :: "string list"
  mg_pending :: "string list"

text \<open>\<open>local_dirs\<close>: the directories with a migration in them, None without a migrations directory; \<open>records\<close>: the rows that are not rolled back,
  None when the table is not there.\<close>

definition getMigrationStatus :: "string list option \<Rightarrow> string list option \<Rightarrow> migration_status" where
  "getMigrationStatus local_dirs records =
     (let locals = sort (nullish_or local_dirs []); applied = sort (nullish_or records [])
      in \<lparr> mg_applied = applied, mg_pending = filter (\<lambda>m. m \<notin> set applied) locals \<rparr>)"

definition getPendingMigrations :: "string list option \<Rightarrow> string list option \<Rightarrow> string list" where
  "getPendingMigrations local_dirs records = mg_pending (getMigrationStatus local_dirs records)"

text \<open>\<open>deploy\<close> is \<open>npx prisma migrate deploy\<close>, on the rows of the table.\<close>

definition runner_runMigrations :: "string option \<Rightarrow> string list option \<Rightarrow> (string list option \<Rightarrow> string list option \<times> bool) \<Rightarrow> string list option \<Rightarrow> string list option \<times> bool" where
  "runner_runMigrations nodeEnv local_dirs deploy records =
     (if lower (str_or nodeEnv ''development'') = ''production'' then (records, True)
      else if getPendingMigrations local_dirs records = [] then (records, True) else deploy records)"

text \<open>A deployment that keeps the rows there are and adds those that are pending.\<close>

definition deploys :: "string list option \<Rightarrow> (string list option \<Rightarrow> string list option \<times> bool) \<Rightarrow> bool" where
  "deploys local_dirs deploy \<longleftrightarrow> (\<forall>records records'. deploy records = (records', True) \<longrightarrow>
     set (nullish_or records' []) = set (nullish_or records []) \<union> set (nullish_or local_dirs []))"

text \<open>The pending migrations are those on disk that are not recorded, in order and each once for each directory. Outside production a run
  that succeeds leaves none pending, and a second one changes nothing; in production nothing is ever deployed.\<close>
theorem migrations_leave_none_pending:
  assumes "deploys local_dirs deploy"
  shows "set (getPendingMigrations local_dirs records) = set (nullish_or local_dirs []) - set (nullish_or records []) \<and> sorted (getPendingMigrations local_dirs records) \<and>
    (if lower (str_or nodeEnv ''development'') = ''production'' then runner_runMigrations nodeEnv local_dirs deploy records = (records, True)
     else (\<forall>records'. runner_runMigrations nodeEnv local_dirs deploy records = (records', True) \<longrightarrow>
       getPendingMigrations local_dirs records' = [] \<and> runner_runMigrations nodeEnv local_dirs deploy records' = (records', True)))"
proof -
  have pending: "set (getPendingMigrations local_dirs rs) = set (nullish_or local_dirs []) - set (nullish_or rs [])" for rs
    by (auto simp: getPendingMigrations_def getMigrationStatus_def Let_def)
  have "sorted (getPendingMigrations local_dirs records)"
    by (simp add: getPendingMigrations_def getMigrationStatus_def Let_def sorted_filter [of id, simplified])
  moreover have "getPendingMigrations local_dirs records' = []"
    if run: "runner_runMigrations nodeEnv local_dirs deploy records = (records', True)" and env: "lower (str_or nodeEnv ''development'') \<noteq> ''production''" for records'
  proof (cases "getPendingMigrations local_dirs records = []")
    case True
    then show ?thesis using run env by (simp add: runner_runMigrations_def)
  next
    case False
    then have "deploy records = (records', True)" using run env by (simp add: runner_runMigrations_def)
    then have "set (nullish_or local_dirs []) \<subseteq> set (nullish_or records' [])" using assms unfolding deploys_def by blast
    then show ?thesis using pending [of records'] by (metis Diff_eq_empty_iff set_empty)
  qed
  moreover have "runner_runMigrations nodeEnv local_dirs deploy records' = (records', True)" if "getPendingMigrations local_dirs records' = []" for records'
    using that by (simp add: runner_runMigrations_def)
  moreover have "runner_runMigrations nodeEnv local_dirs deploy records = (records, True)" if "lower (str_or nodeEnv ''development'') = ''production''"
    unfolding runner_runMigrations_def if_P [OF that] ..
  ultimately show ?thesis using pending by presburger
qed

theorem migrations_leave_none_pending_witness:
  "set (getPendingMigrations (Some [''2_b'', ''1_a'']) (Some [''1_a''])) = {''2_b''} \<and>
   getPendingMigrations (Some [''2_b'', ''1_a'']) (fst (runner_runMigrations None (Some [''2_b'', ''1_a'']) (\<lambda>rs. (Some (nullish_or rs [] @ [''2_b'', ''1_a'']), True)) (Some [''1_a'']))) = []"
proof -
  have d: "deploys (Some [''2_b'', ''1_a'']) (\<lambda>rs. (Some (nullish_or rs [] @ [''2_b'', ''1_a'']), True))" by (auto simp: deploys_def nullish_or_def)
  have e: "lower (str_or None ''development'') \<noteq> ''production''" by code_simp
  note t = migrations_leave_none_pending [OF d, of "Some [''1_a'']" None]
  have p: "set (getPendingMigrations (Some [''2_b'', ''1_a'']) (Some [''1_a''])) = {''2_b''}" using t by (auto simp: nullish_or_def)
  then have ne: "getPendingMigrations (Some [''2_b'', ''1_a'']) (Some [''1_a'']) \<noteq> []" by (metis empty_set insert_not_empty)
  have "runner_runMigrations None (Some [''2_b'', ''1_a'']) (\<lambda>rs. (Some (nullish_or rs [] @ [''2_b'', ''1_a'']), True)) (Some [''1_a'']) =
      (Some ([''1_a''] @ [''2_b'', ''1_a'']), True)"
    unfolding runner_runMigrations_def if_not_P [OF e] if_not_P [OF ne] by (simp add: nullish_or_def)
  moreover from this have "getPendingMigrations (Some [''2_b'', ''1_a'']) (Some ([''1_a''] @ [''2_b'', ''1_a''])) = []" using t [unfolded if_not_P [OF e]] by blast
  ultimately show ?thesis using p by (metis fst_conv)
qed

end
