(* ===== verification/QF_Connect.thy ===== *)
theory QF_Connect
  imports QF_Json
begin

text \<open>
  The connections to the queues, to Redis and to the database: \<open>queue-client.ts\<close>, \<open>redis-client.ts\<close>, \<open>connection-pool.ts\<close> of Redis and of the
  database, \<open>prisma-client.ts\<close>.

  A queue of BullMQ is known by its name. The Redis client is its status; connecting and disconnecting take two steps, so that calls in between
  are seen. Shown: names that differ in colons share a queue, which closing by the name given misses; which state the flags of the
  Redis module can be in; the text of INFO is read back as it was printed.
\<close>

subsection \<open>QueueClient\<close>

definition queue_key :: "string \<Rightarrow> string" where
  "queue_key name = map (\<lambda>c. if c = CHR '':'' then CHR ''-'' else c) name"

definition queue_key_ok :: "string \<Rightarrow> bool" where
  "queue_key_ok name \<longleftrightarrow> name \<noteq> [] \<and> list_all (\<lambda>c. alnum_char c \<or> c = CHR ''-'') name"

record job_defaults =
  jd_attempts :: "int option"
  jd_removeOnComplete :: "bool option"
  jd_removeOnFail :: "bool option"
  jd_timeout :: "int option"

record bull_queue =
  bq_name :: string
  bq_attempts :: int
  bq_removeOnComplete :: bool
  bq_removeOnFail :: bool
  bq_timeout :: int

type_synonym queue_client = "(string \<times> bull_queue) list"

definition new_queue :: "job_defaults \<Rightarrow> string \<Rightarrow> bull_queue" where
  "new_queue j name = \<lparr> bq_name = name, bq_attempts = num_or (jd_attempts j) 3, bq_removeOnComplete = nullish_or (jd_removeOnComplete j) True,
     bq_removeOnFail = nullish_or (jd_removeOnFail j) False, bq_timeout = num_or (jd_timeout j) 10000 \<rparr>"

definition qc_createQueue :: "job_defaults \<Rightarrow> string \<Rightarrow> queue_client \<Rightarrow> queue_client \<times> (string + bull_queue)" where
  "qc_createQueue j name qs = (let n = queue_key name in
     if \<not> queue_key_ok n then (qs, Inl name)
     else case map_of qs n of Some q \<Rightarrow> (qs, Inr q) | None \<Rightarrow> (qs @ [(n, new_queue j n)], Inr (new_queue j n)))"

definition qc_getQueue :: "job_defaults \<Rightarrow> string \<Rightarrow> queue_client \<Rightarrow> queue_client \<times> (string + bull_queue)" where
  "qc_getQueue j name qs = (case map_of qs (queue_key name) of Some q \<Rightarrow> (qs, Inr q) | None \<Rightarrow> qc_createQueue j (queue_key name) qs)"

text \<open>The queue whose \<open>close\<close> is called, if any. The name is taken as it is.\<close>

definition qc_closeQueue :: "string \<Rightarrow> queue_client \<Rightarrow> queue_client \<times> bull_queue option" where
  "qc_closeQueue name qs = (case map_of qs name of None \<Rightarrow> (qs, None) | Some q \<Rightarrow> (filter (\<lambda>(n, _). n \<noteq> name) qs, Some q))"

definition qc_closeAllQueues :: "queue_client \<Rightarrow> queue_client \<times> bull_queue list" where
  "qc_closeAllQueues qs = ([], map snd qs)"

definition client_ok :: "queue_client \<Rightarrow> bool" where
  "client_ok qs \<longleftrightarrow> distinct (map fst qs) \<and> list_all (\<lambda>(n, q). queue_key_ok n \<and> bq_name q = n) qs"

lemma queue_key_idem [simp]: "queue_key (queue_key n) = queue_key n"
  by (simp add: queue_key_def)

lemma queue_key_no_colon: "CHR '':'' \<notin> set (queue_key n)"
  by (auto simp: queue_key_def)

lemma colon_not_ok: "CHR '':'' \<in> set n \<Longrightarrow> \<not> queue_key_ok n"
proof -
  have "\<not> (alnum_char CHR '':'' \<or> CHR '':'' = CHR ''-'')" by code_simp
  moreover assume "CHR '':'' \<in> set n"
  ultimately show ?thesis unfolding queue_key_ok_def list_all_iff by blast
qed

inductive client_reachable :: "job_defaults \<Rightarrow> queue_client \<Rightarrow> bool" for j where
  cr_new: "client_reachable j []"
| cr_get: "client_reachable j qs \<Longrightarrow> client_reachable j (fst (qc_getQueue j n qs))"
| cr_create: "client_reachable j qs \<Longrightarrow> client_reachable j (fst (qc_createQueue j n qs))"
| cr_close: "client_reachable j qs \<Longrightarrow> client_reachable j (fst (qc_closeQueue n qs))"
| cr_closeAll: "client_reachable j qs \<Longrightarrow> client_reachable j (fst (qc_closeAllQueues qs))"

lemma client_ok_nil: "client_ok []"
  by (simp add: client_ok_def)

lemma create_ok: "client_ok qs \<Longrightarrow> client_ok (fst (qc_createQueue j n qs))"
  by (auto simp: client_ok_def qc_createQueue_def Let_def new_queue_def map_of_eq_None_iff split: option.splits)

lemma get_ok: "client_ok qs \<Longrightarrow> client_ok (fst (qc_getQueue j n qs))"
  by (simp add: qc_getQueue_def create_ok split: option.splits)

lemma close_ok: "client_ok qs \<Longrightarrow> client_ok (fst (qc_closeQueue n qs))"
  by (auto simp: client_ok_def qc_closeQueue_def list_all_iff distinct_map inj_on_def split: option.splits)

lemma reachable_client_ok: "client_reachable j qs \<Longrightarrow> client_ok qs"
  by (induction rule: client_reachable.induct) (simp_all add: create_ok get_ok close_ok qc_closeAllQueues_def client_ok_nil)

text \<open>There is one queue for each name up to colons: asking again, by either spelling, gives the queue there is. Closing by a name with a colon
  never closes anything, although that is the name the queue was asked for by; closing all closes each queue once.\<close>
theorem one_queue_for_each_name:
  assumes "client_reachable j qs" "queue_key m = queue_key n" "qc_getQueue j n qs = (qs', Inr q)"
  shows "qc_getQueue j m qs' = (qs', Inr q) \<and> bq_name q = queue_key n \<and> distinct (map bq_name (snd (qc_closeAllQueues qs'))) \<and>
    (CHR '':'' \<in> set n \<longrightarrow> qc_closeQueue n qs' = (qs', None)) \<and>
    snd (qc_closeQueue (queue_key n) qs') = Some q"
proof -
  have ok: "client_ok qs'" using get_ok [OF reachable_client_ok [OF assms(1)], of j n] assms(3) by simp
  have q: "map_of qs' (queue_key n) = Some q"
    using assms(3) by (auto simp: qc_getQueue_def qc_createQueue_def Let_def map_of_append map_add_def split: option.splits if_splits)
  have "bq_name q = queue_key n" using ok q unfolding client_ok_def list_all_iff by (auto dest: map_of_SomeD)
  moreover have "map bq_name (map snd qs') = map fst qs'" using ok by (auto simp: client_ok_def list_all_iff)
  then have "distinct (map bq_name (map snd qs'))" using ok unfolding client_ok_def by metis
  moreover have "map_of qs' n = None" if "CHR '':'' \<in> set n"
    using ok colon_not_ok [OF that] unfolding client_ok_def list_all_iff by (auto simp: map_of_eq_None_iff)
  ultimately show ?thesis using q assms(2) by (simp add: qc_getQueue_def qc_closeQueue_def qc_closeAllQueues_def)
qed

definition no_defaults :: job_defaults where
  "no_defaults = \<lparr> jd_attempts = None, jd_removeOnComplete = None, jd_removeOnFail = None, jd_timeout = None \<rparr>"

theorem one_queue_for_each_name_witness:
  "\<exists>qs' q. qc_getQueue no_defaults ''queue:main'' [] = (qs', Inr q) \<and> qc_closeQueue ''queue:main'' qs' = (qs', None) \<and> qc_getQueue no_defaults ''queue-main'' qs' = (qs', Inr q)"
proof -
  have ok: "queue_key ''queue:main'' = ''queue-main''" "queue_key_ok ''queue-main''" by code_simp+
  have g: "qc_getQueue no_defaults ''queue:main'' [] = ([(''queue-main'', new_queue no_defaults ''queue-main'')], Inr (new_queue no_defaults ''queue-main''))"
    using ok queue_key_idem [of "''queue:main''"] by (simp add: qc_getQueue_def qc_createQueue_def Let_def)
  have m: "queue_key ''queue-main'' = queue_key ''queue:main''" by code_simp
  show ?thesis using one_queue_for_each_name [OF cr_new m g] g by auto
qed

subsection \<open>The client of Redis\<close>

text \<open>The statuses of an ioredis client that the program looks at, and the rest.\<close>

datatype redis_status = RS_ready | RS_reconnecting | RS_connect | RS_other

text \<open>The variables of the module. The client is its status.\<close>

record redis_module =
  rm_client :: "redis_status option"
  rm_isConnecting :: bool
  rm_isConnected :: bool

definition redis_start :: redis_module where
  "redis_start = \<lparr> rm_client = None, rm_isConnecting = False, rm_isConnected = False \<rparr>"

definition isRedisClientConnected :: "redis_module \<Rightarrow> bool" where
  "isRedisClientConnected m = rm_isConnected m"

definition getRedisClient :: "redis_module \<Rightarrow> redis_module \<times> redis_status" where
  "getRedisClient m = (case rm_client m of Some s \<Rightarrow> (m, s) | None \<Rightarrow> (m\<lparr> rm_client := Some RS_other \<rparr>, RS_other))"

text \<open>The options a client is made with, of those the configuration can leave out or change.\<close>

record redis_connect_config =
  rc_password :: "string option"
  rc_family :: "int option"
  rc_connectionTimeoutMs :: "int option"
  rc_maxRetries :: "int option"
  rc_retryStrategyMs :: "int option"
  rc_enableTls :: bool
  rc_tlsRejectUnauthorized :: bool

record redis_options =
  ro_password :: "string option"
  ro_family :: int
  ro_connectTimeout :: int
  ro_maxRetriesPerRequest :: int
  ro_tls :: "bool option"

definition redisOptions :: "redis_connect_config \<Rightarrow> redis_options" where
  "redisOptions c = \<lparr> ro_password = (if rc_password c = Some [] then None else rc_password c), ro_family = (if rc_family c = Some 6 then 6 else 4),
     ro_connectTimeout = num_or (rc_connectionTimeoutMs c) 5000, ro_maxRetriesPerRequest = num_or (rc_maxRetries c) 3,
     ro_tls = (if rc_enableTls c then Some (rc_tlsRejectUnauthorized c) else None) \<rparr>"

definition redis_retryStrategy :: "redis_connect_config \<Rightarrow> int \<Rightarrow> int" where
  "redis_retryStrategy c n = min (n * 100) (num_or (rc_retryStrategyMs c) 2000)"

text \<open>\<open>connectRedis\<close> up to where it waits: whether it goes on. A call that finds another one under way returns as if it were connected.\<close>

definition connectRedis_begin :: "redis_module \<Rightarrow> redis_module \<times> bool" where
  "connectRedis_begin m = (if rm_client m = Some RS_ready \<or> rm_isConnecting m then (m, False)
     else (m\<lparr> rm_isConnecting := True, rm_client := Some RS_connect \<rparr>, True))"

datatype connect_failure = Refused | AuthenticationFailed | ConnectTimeout | ConnectFailed

definition connect_failure_of :: "string \<Rightarrow> connect_failure" where
  "connect_failure_of message = (if includes_str message ''ECONNREFUSED'' then Refused
     else if includes_str message ''AUTH'' \<or> includes_str message ''WRONGPASS'' then AuthenticationFailed
     else if includes_str message ''timeout'' then ConnectTimeout else ConnectFailed)"

text \<open>The rest: connecting and the ping succeed, or give a message. When it succeeds, the client that is ready is the one this call made, which is
  the module's unless it has been disconnected in between.\<close>

definition connectRedis_end :: "bool \<Rightarrow> string option \<Rightarrow> redis_module \<Rightarrow> redis_module \<times> (connect_failure + unit)" where
  "connectRedis_end mock failed m = (case failed of
       None \<Rightarrow> (m\<lparr> rm_client := map_option (\<lambda>_. RS_ready) (rm_client m), rm_isConnected := True, rm_isConnecting := False \<rparr>, Inr ())
     | Some message \<Rightarrow> if mock then (m\<lparr> rm_client := Some RS_other, rm_isConnected := True, rm_isConnecting := False \<rparr>, Inr ())
         else (m\<lparr> rm_client := None, rm_isConnected := False, rm_isConnecting := False \<rparr>, Inl (connect_failure_of message)))"

text \<open>\<open>disconnectRedis\<close> around the wait for \<open>quit\<close>: whether there is a client to wait for.\<close>

definition disconnectRedis_begin :: "redis_module \<Rightarrow> redis_module \<times> bool" where
  "disconnectRedis_begin m = (m\<lparr> rm_isConnected := False \<rparr>, rm_client m \<noteq> None)"

definition disconnectRedis_end :: "redis_module \<Rightarrow> redis_module" where
  "disconnectRedis_end m = m\<lparr> rm_client := None \<rparr>"

text \<open>What the calls do, whole, and in steps that interleave.\<close>

definition connectRedis :: "bool \<Rightarrow> string option \<Rightarrow> redis_module \<Rightarrow> redis_module \<times> (connect_failure + unit)" where
  "connectRedis mock failed m = (case connectRedis_begin m of (m', True) \<Rightarrow> connectRedis_end mock failed m' | (m', False) \<Rightarrow> (m', Inr ()))"

definition disconnectRedis :: "redis_module \<Rightarrow> redis_module" where
  "disconnectRedis m = (case disconnectRedis_begin m of (m', True) \<Rightarrow> disconnectRedis_end m' | (m', False) \<Rightarrow> m')"

inductive redis_serial :: "bool \<Rightarrow> redis_module \<Rightarrow> bool" for mock where
  rser_start: "redis_serial mock redis_start"
| rser_get: "redis_serial mock m \<Longrightarrow> redis_serial mock (fst (getRedisClient m))"
| rser_connect: "redis_serial mock m \<Longrightarrow> redis_serial mock (fst (connectRedis mock failed m))"
| rser_disconnect: "redis_serial mock m \<Longrightarrow> redis_serial mock (disconnectRedis m)"

lemma serial_flags: "redis_serial mock m \<Longrightarrow> \<not> rm_isConnecting m \<and> (rm_isConnected m \<longrightarrow> rm_client m \<noteq> None) \<and> (\<not> mock \<longrightarrow> rm_isConnected m = (rm_client m = Some RS_ready))"
  by (induction rule: redis_serial.induct)
    (auto simp: redis_start_def getRedisClient_def connectRedis_def connectRedis_begin_def connectRedis_end_def disconnectRedis_def disconnectRedis_begin_def
      disconnectRedis_end_def split: option.splits bool.splits)

text \<open>With calls one after the other, the flag says that there is a client, and, without the mock, that it is ready; a failed connection leaves
  none behind, so that it can be tried again. When a disconnection overlaps a connection, the flag can end up set with no client
  there; the next caller then gets a new client with default options.\<close>
theorem redis_flags:
  assumes "redis_serial mock m"
  shows "(isRedisClientConnected m \<longrightarrow> rm_client m \<noteq> None) \<and> (\<not> mock \<longrightarrow> isRedisClientConnected m = (rm_client m = Some RS_ready)) \<and>
    (\<forall>message. rm_client m \<noteq> Some RS_ready \<longrightarrow> connectRedis False (Some message) m = (redis_start, Inl (connect_failure_of message))) \<and>
    (\<exists>overlapped. overlapped = disconnectRedis_end (fst (connectRedis_end False None (fst (disconnectRedis_begin (fst (connectRedis_begin redis_start)))))) \<and>
       isRedisClientConnected overlapped \<and> rm_client overlapped = None \<and> snd (getRedisClient overlapped) = RS_other)"
  using serial_flags [OF assms]
  by (auto simp: isRedisClientConnected_def redis_start_def connectRedis_def connectRedis_begin_def connectRedis_end_def disconnectRedis_begin_def disconnectRedis_end_def getRedisClient_def)

theorem redis_flags_witness:
  "isRedisClientConnected (fst (connectRedis False None redis_start)) = (rm_client (fst (connectRedis False None redis_start)) = Some RS_ready)"
  using redis_flags [of False, OF rser_connect [OF rser_start]] by blast

subsection \<open>RedisConnectionPool\<close>

datatype connection_status = CONNECTED | DISCONNECTED | RECONNECTING | CONNECTING

definition pool_isHealthy :: "redis_status \<Rightarrow> bool" where
  "pool_isHealthy s \<longleftrightarrow> s = RS_ready"

definition pool_getStats :: "redis_status \<Rightarrow> nat option \<Rightarrow> bool \<times> bool \<times> nat" where
  "pool_getStats s offlineQueue = (s = RS_ready, s = RS_reconnecting, nullish_or offlineQueue 0)"

definition pool_getConnectionStatus :: "redis_status \<Rightarrow> connection_status" where
  "pool_getConnectionStatus s = (if s = RS_ready then CONNECTED else if s = RS_reconnecting then RECONNECTING else if s = RS_connect then CONNECTING else DISCONNECTED)"

text \<open>What is called on the client: \<open>quit\<close>, and \<open>disconnect\<close> when that fails; \<open>connect\<close>, with what it throws dropped.\<close>

definition pool_drain :: "bool \<Rightarrow> string list" where
  "pool_drain quit_ok = ''quit'' # (if quit_ok then [] else [''disconnect''])"

definition pool_checkHealth :: "string + string \<Rightarrow> bool" where
  "pool_checkHealth ping = (case ping of Inl e \<Rightarrow> False | Inr s \<Rightarrow> s = ''PONG'')"

subsection \<open>RedisMonitor\<close>

definition info_char :: "char \<Rightarrow> bool" where
  "info_char c \<longleftrightarrow> c \<noteq> CHR 0x0D \<and> c \<noteq> CHR 0x0A"

text \<open>\<open>info.match(/label(p+)/)?.[1]\<close>: the first place where the label is followed by a character of the class.\<close>

fun info_match :: "(char \<Rightarrow> bool) \<Rightarrow> string \<Rightarrow> string \<Rightarrow> string option" where
  "info_match p label [] = None"
| "info_match p label (c # s) = (if starts_with label (c # s) \<and> takeWhile p (drop (length label) (c # s)) \<noteq> [] then Some (takeWhile p (drop (length label) (c # s)))
     else info_match p label s)"

definition getReplicationStatus :: "string \<Rightarrow> string \<times> int" where
  "getReplicationStatus info = (str_or (info_match info_char ''role:'' info) ''master'',
     case info_match digit_char ''connected_slaves:'' info of None \<Rightarrow> 0 | Some s \<Rightarrow> num_or (parse_int s) 0)"

text \<open>The ratio as the text that \<open>parseFloat\<close> reads.\<close>

definition getMemoryUsage :: "string \<Rightarrow> string \<times> string \<times> string" where
  "getMemoryUsage info = (str_or (info_match info_char ''used_memory_human:'' info) ''0B'', str_or (info_match info_char ''used_memory_peak_human:'' info) ''0B'',
     str_or (info_match info_char ''mem_fragmentation_ratio:'' info) ''0.0'')"

text \<open>\<open>info.split('\\r\\n')\<close>\<close>

fun split_lines :: "string \<Rightarrow> string list" where
  "split_lines [] = [[]]"
| "split_lines [c] = [[c]]"
| "split_lines (c # c' # s) = (if c = CHR 0x0D \<and> c' = CHR 0x0A then [] # split_lines s
     else (case split_lines (c' # s) of [] \<Rightarrow> [[c]] | l # ls \<Rightarrow> (c # l) # ls))"

text \<open>\<open>parseInt(fields.find(f => f.startsWith(label))?.split('=')[1] || '0', 10)\<close>; None is \<open>NaN\<close>. Times are whole microseconds.\<close>

definition stat_field :: "string \<Rightarrow> string list \<Rightarrow> int option" where
  "stat_field label fields_of_line = parse_int (case find (starts_with label) fields_of_line of None \<Rightarrow> ''0''
     | Some f \<Rightarrow> (case split_on CHR ''='' f of _ # v # _ \<Rightarrow> if v = [] then ''0'' else v | _ \<Rightarrow> ''0''))"

text \<open>A line of statistics: the command with its calls and microseconds. A line without a colon makes the call throw.\<close>

definition stat_line :: "string \<Rightarrow> (string \<times> int option \<times> int option) option" where
  "stat_line line = (case split_on CHR '':'' line of name # rest # _ \<Rightarrow>
       (let fs = split_on CHR '','' rest in Some (drop (length ''cmdstat_'') name, stat_field ''calls='' fs, stat_field ''usec='' fs))
     | _ \<Rightarrow> None)"

fun stat_lines :: "string list \<Rightarrow> (string \<times> int option \<times> int option) list option" where
  "stat_lines [] = Some []"
| "stat_lines (l # ls) = (if starts_with ''cmdstat_'' l then (case stat_line l of None \<Rightarrow> None | Some x \<Rightarrow> map_option (Cons x) (stat_lines ls)) else stat_lines ls)"

definition getCommandStats :: "string \<Rightarrow> (string \<Rightarrow> (int option \<times> int option) option) option" where
  "getCommandStats info = map_option (\<lambda>xs. map_of (rev xs)) (stat_lines (split_lines info))"

text \<open>How Redis prints the section.\<close>

definition print_stat :: "string \<times> int \<times> int \<times> string \<Rightarrow> string" where
  "print_stat x = (case x of (name, calls, usec, per) \<Rightarrow> ''cmdstat_'' @ name @ '':calls='' @ show_int calls @ '',usec='' @ show_int usec @ '',usec_per_call='' @ per)"

definition print_stats :: "(string \<times> int \<times> int \<times> string) list \<Rightarrow> string" where
  "print_stats xs = ''# Commandstats'' @ [CHR 0x0D, CHR 0x0A] @ concat (map (\<lambda>x. print_stat x @ [CHR 0x0D, CHR 0x0A]) xs)"

definition stat_ok :: "string \<times> int \<times> int \<times> string \<Rightarrow> bool" where
  "stat_ok x \<longleftrightarrow> (case x of (name, calls, usec, per) \<Rightarrow> CHR '':'' \<notin> set name \<and> CHR 0x0D \<notin> set name \<and> CHR 0x0D \<notin> set per \<and> CHR '','' \<notin> set per)"

lemma split_lines_append: "CHR 0x0D \<notin> set a \<Longrightarrow> split_lines (a @ CHR 0x0D # CHR 0x0A # s) = a # split_lines s"
proof (induction a)
  case (Cons c a)
  then show ?case by (cases a) (auto split: list.splits)
qed simp

lemma show_int_free:
  shows "CHR 0x0D \<notin> set (show_int i)" "CHR '':'' \<notin> set (show_int i)" "CHR '','' \<notin> set (show_int i)" "CHR ''='' \<notin> set (show_int i)"
proof -
  have "c \<notin> set (show_int i)" if "\<not> (digit_char c \<or> c = CHR ''-'')" for c using show_int_chars [of i] that unfolding list_all_iff by blast
  moreover have "\<not> (digit_char CHR 0x0D \<or> CHR 0x0D = CHR ''-'')" "\<not> (digit_char CHR '':'' \<or> CHR '':'' = CHR ''-'')" "\<not> (digit_char CHR '','' \<or> CHR '','' = CHR ''-'')"
    "\<not> (digit_char CHR ''='' \<or> CHR ''='' = CHR ''-'')" by code_simp+
  ultimately show "CHR 0x0D \<notin> set (show_int i)" "CHR '':'' \<notin> set (show_int i)" "CHR '','' \<notin> set (show_int i)" "CHR ''='' \<notin> set (show_int i)"
    by blast+
qed

lemma show_int_nonempty: "show_int i \<noteq> []"
proof
  assume "show_int i = []"
  then have "parse_int [] = Some i" using parse_int_show_int [of i] by simp
  then show False by (simp add: parse_int_def)
qed

lemma stat_line_print:
  assumes "stat_ok (name, calls, usec, per)" "CHR '':'' \<notin> set per"
  shows "stat_line (print_stat (name, calls, usec, per)) = Some (name, Some calls, Some usec)"
proof -
  have name: "split_on CHR '':'' (print_stat (name, calls, usec, per)) = (''cmdstat_'' @ name) # [''calls='' @ show_int calls @ '',usec='' @ show_int usec @ '',usec_per_call='' @ per]"
  proof -
    have a: "CHR '':'' \<notin> set (''cmdstat_'' @ name)" using assms by (simp add: stat_ok_def)
    have b: "CHR '':'' \<notin> set (''calls='' @ show_int calls @ '',usec='' @ show_int usec @ '',usec_per_call='' @ per)"
      using show_int_free(2) assms(2) by simp
    have c: "print_stat (name, calls, usec, per) = (''cmdstat_'' @ name) @ CHR '':'' # (''calls='' @ show_int calls @ '',usec='' @ show_int usec @ '',usec_per_call='' @ per)"
      by (simp add: print_stat_def)
    show ?thesis unfolding c split_on_append [OF a] split_on_fresh [OF b] ..
  qed
  have parts: "split_on CHR '','' (''calls='' @ show_int calls @ '',usec='' @ show_int usec @ '',usec_per_call='' @ per) =
      [''calls='' @ show_int calls, ''usec='' @ show_int usec, ''usec_per_call='' @ per]"
  proof -
    have 1: "CHR '','' \<notin> set (''calls='' @ show_int calls)" "CHR '','' \<notin> set (''usec='' @ show_int usec)" "CHR '','' \<notin> set (''usec_per_call='' @ per)"
      using show_int_free(3) assms(1) by (simp_all add: stat_ok_def)
    have e: "''calls='' @ show_int calls @ '',usec='' @ show_int usec @ '',usec_per_call='' @ per =
        (''calls='' @ show_int calls) @ CHR '','' # ((''usec='' @ show_int usec) @ CHR '','' # (''usec_per_call='' @ per))" by simp
    show ?thesis unfolding e split_on_append [OF 1(1)] split_on_append [OF 1(2)] split_on_fresh [OF 1(3)] ..
  qed
  have value_of: "split_on CHR ''='' (l @ CHR ''='' # show_int i) = [l, show_int i]" if "CHR ''='' \<notin> set l" for l i
    unfolding split_on_append [OF that] split_on_fresh [OF show_int_free(4)] ..
  have calls: "stat_field ''calls='' [''calls='' @ show_int calls, ''usec='' @ show_int usec, ''usec_per_call='' @ per] = Some calls"
    using value_of [of "''calls''" calls] show_int_nonempty by (simp add: stat_field_def)
  have usec: "stat_field ''usec='' [''calls='' @ show_int calls, ''usec='' @ show_int usec, ''usec_per_call='' @ per] = Some usec"
    using value_of [of "''usec''" usec] show_int_nonempty by (simp add: stat_field_def)
  show ?thesis unfolding stat_line_def name list.case Let_def parts calls usec by simp
qed

lemma print_stat_line: "stat_ok x \<Longrightarrow> CHR 0x0D \<notin> set (print_stat x)"
  using show_int_free(1) by (cases x) (auto simp: stat_ok_def print_stat_def)

lemma split_print_stats: "list_all stat_ok xs \<Longrightarrow> split_lines (print_stats xs) = ''# Commandstats'' # map print_stat xs @ [[]]"
proof -
  assume ok: "list_all stat_ok xs"
  have "split_lines (concat (map (\<lambda>x. print_stat x @ [CHR 0x0D, CHR 0x0A]) xs)) = map print_stat xs @ [[]]"
    using ok
  proof (induction xs)
    case (Cons x xs)
    then have "CHR 0x0D \<notin> set (print_stat x)" using print_stat_line by simp
    from split_lines_append [OF this] show ?case using Cons by simp
  qed simp
  moreover have "CHR 0x0D \<notin> set ''# Commandstats''" by simp
  ultimately show ?thesis unfolding print_stats_def using split_lines_append [of "''# Commandstats''"] by simp
qed

text \<open>The statistics that Redis prints are read back: for each command its calls and microseconds, and nothing else. So no command is lost when names are
  distinct; the field \<open>usec_per_call\<close> is not taken for \<open>usec\<close>.\<close>
theorem command_stats_roundtrip:
  assumes "list_all (\<lambda>x. stat_ok x \<and> CHR '':'' \<notin> set (snd (snd (snd x)))) xs" "distinct (map fst xs)"
  shows "getCommandStats (print_stats xs) = Some (map_of (map (\<lambda>(name, calls, usec, per). (name, Some calls, Some usec)) xs))"
proof -
  have ok: "list_all stat_ok xs" using assms(1) by (auto simp: list_all_iff)
  have "stat_lines (map print_stat xs @ [[]]) = Some (map (\<lambda>(name, calls, usec, per). (name, Some calls, Some usec)) xs)"
    using assms(1)
  proof (induction xs)
    case (Cons x xs)
    obtain name calls usec per where x: "x = (name, calls, usec, per)" by (cases x)
    have "stat_line (print_stat x) = Some (name, Some calls, Some usec)" using stat_line_print [of name calls usec per] Cons.prems by (simp add: x)
    moreover have "starts_with ''cmdstat_'' (print_stat x)" by (simp add: x print_stat_def)
    ultimately show ?case using Cons by (simp add: x)
  qed simp
  moreover have "\<not> starts_with ''cmdstat_'' ''# Commandstats''" by simp
  moreover have "distinct (map fst (map (\<lambda>(name, calls, usec, per). (name, Some calls, Some usec)) xs))"
    using assms(2) by (simp add: comp_def case_prod_beta)
  ultimately show ?thesis unfolding getCommandStats_def split_print_stats [OF ok] by (simp add: map_of_inject_set rev_map [symmetric])
qed

theorem command_stats_roundtrip_witness:
  "\<exists>f. getCommandStats (print_stats [(''get'', 7, 30, ''4.28''), (''set'', 2, 9, ''4.50'')]) = Some f \<and> f ''set'' = Some (Some 2, Some 9)"
proof -
  let ?xs = "[(''get'', 7, 30, ''4.28''), (''set'', 2, 9, ''4.50'')] :: (string \<times> int \<times> int \<times> string) list"
  have "list_all (\<lambda>x. stat_ok x \<and> CHR '':'' \<notin> set (snd (snd (snd x)))) ?xs" "distinct (map fst ?xs)" by (simp_all add: stat_ok_def)
  from command_stats_roundtrip [OF this] show ?thesis by simp
qed

subsection \<open>Pools and clients of the database\<close>

text \<open>\<open>ConnectionPoolManager\<close>: the numbers last read, and whether the timer runs. The metrics of Prisma arrive later than they are asked for, so that the numbers given
  are those of the time before.\<close>

record db_pool =
  cp_active :: int
  cp_idle :: int
  cp_waiting :: int
  cp_total :: int
  cp_monitoring :: bool

definition pool_start :: db_pool where
  "pool_start = \<lparr> cp_active = 0, cp_idle = 0, cp_waiting = 0, cp_total = 0, cp_monitoring = True \<rparr>"

text \<open>Gauges by key; the metrics are None when Prisma has none, which resets the numbers at once.\<close>

definition metrics_arrive :: "(string \<Rightarrow> int option) \<Rightarrow> db_pool \<Rightarrow> db_pool" where
  "metrics_arrive g p = p\<lparr> cp_active := num_or (g ''prisma_client_database_connections_active'') 0, cp_idle := num_or (g ''prisma_client_database_connections_idle'') 0,
     cp_waiting := num_or (g ''prisma_client_queries_waiting'') 0, cp_total := num_or (g ''prisma_client_database_connections_open'') 0 \<rparr>"

definition cp_updateStatsSync :: "bool \<Rightarrow> db_pool \<Rightarrow> db_pool" where
  "cp_updateStatsSync hasMetrics p = (if hasMetrics then p else p\<lparr> cp_active := 0, cp_idle := 0, cp_waiting := 0, cp_total := 0 \<rparr>)"

definition cp_getStats :: "bool \<Rightarrow> db_pool \<Rightarrow> db_pool \<times> int \<times> int \<times> int \<times> int" where
  "cp_getStats hasMetrics p = (let p' = cp_updateStatsSync hasMetrics p in (p', cp_active p', cp_idle p', cp_waiting p', cp_total p'))"

definition cp_stopMonitoring :: "db_pool \<Rightarrow> db_pool" where
  "cp_stopMonitoring p = p\<lparr> cp_monitoring := False \<rparr>"

text \<open>\<open>prisma-client.ts\<close>: the clients made so far, the current one if any. Connecting always makes a new one and forgets the last.\<close>

record prisma_module =
  pm_made :: nat
  pm_current :: "nat option"

definition pm_getPrismaClient :: "prisma_module \<Rightarrow> prisma_module \<times> nat" where
  "pm_getPrismaClient m = (case pm_current m of Some i \<Rightarrow> (m, i) | None \<Rightarrow> (\<lparr> pm_made = Suc (pm_made m), pm_current = Some (pm_made m) \<rparr>, pm_made m))"

definition pm_connectDatabase :: "bool \<Rightarrow> prisma_module \<Rightarrow> prisma_module \<times> bool" where
  "pm_connectDatabase query_ok m = (\<lparr> pm_made = Suc (pm_made m), pm_current = Some (pm_made m) \<rparr>, query_ok)"

text \<open>The client whose connection is closed.\<close>

definition pm_disconnectDatabase :: "prisma_module \<Rightarrow> prisma_module \<times> nat option" where
  "pm_disconnectDatabase m = (m\<lparr> pm_current := None \<rparr>, pm_current m)"

end
