(* ===== verification/QF_Observe.thy ===== *)
theory QF_Observe
  imports QF_Parse
begin

text \<open>
  Observability (\<open>observability\<close>): the audit trail and its reports, trace contexts and their header, the context of log lines and what is masked
  in them, and the metrics.

  Audit events are kept as a list in order of arrival; the changes they carry are documents. The registry of prom-client and the meter of
  OpenTelemetry are maps from names and labels to numbers. Shown: what a report of the trail counts and what it leaves out, that cleaning up the trail is
  a filter, that a trace context survives its header, which secrets are masked, and when a gauge shows what it was set to.
\<close>

subsection \<open>The audit trail\<close>

record AuditEvent =
  ev_id :: string
  ev_timestamp :: ms
  ev_eventType :: string
  ev_entityType :: string
  ev_entityId :: string
  ev_action :: string
  ev_userId :: "string option"
  ev_changes :: "jdoc option"
  ev_ipAddress :: "string option"
  ev_success :: bool
  ev_error :: "string option"

definition storage_store :: "AuditEvent \<Rightarrow> AuditEvent list \<Rightarrow> AuditEvent list" where
  "storage_store e es = es @ [e]"

record AuditQueryFilters =
  qf_entityId :: "string option"
  qf_entityType :: "string option"
  qf_eventType :: "string option"
  qf_userId :: "string option"
  qf_startDate :: "ms option"
  qf_endDate :: "ms option"
  qf_success :: "bool option"

definition no_filters :: AuditQueryFilters where
  "no_filters = \<lparr> qf_entityId = None, qf_entityType = None, qf_eventType = None, qf_userId = None, qf_startDate = None, qf_endDate = None, qf_success = None \<rparr>"

text \<open>\<open>if (filters.x && e.x !== filters.x) return false\<close>: an empty text does not filter.\<close>

definition text_passes :: "string option \<Rightarrow> string option \<Rightarrow> bool" where
  "text_passes f x \<longleftrightarrow> str_or f [] = [] \<or> x = f"

definition event_passes :: "AuditQueryFilters \<Rightarrow> AuditEvent \<Rightarrow> bool" where
  "event_passes f e \<longleftrightarrow> text_passes (qf_entityId f) (Some (ev_entityId e)) \<and> text_passes (qf_entityType f) (Some (ev_entityType e)) \<and>
     text_passes (qf_eventType f) (Some (ev_eventType e)) \<and> text_passes (qf_userId f) (ev_userId e) \<and>
     (case qf_startDate f of None \<Rightarrow> True | Some t \<Rightarrow> t \<le> ev_timestamp e) \<and> (case qf_endDate f of None \<Rightarrow> True | Some t \<Rightarrow> ev_timestamp e \<le> t) \<and>
     (case qf_success f of None \<Rightarrow> True | Some b \<Rightarrow> ev_success e = b)"

definition storage_query :: "AuditQueryFilters \<Rightarrow> AuditEvent list \<Rightarrow> AuditEvent list" where
  "storage_query f es = filter (event_passes f) es"

text \<open>\<open>while (idx--)\<close>: from the end, an event that is too old is spliced out.\<close>

fun cleanup_loop :: "ms \<Rightarrow> nat \<Rightarrow> AuditEvent list \<Rightarrow> AuditEvent list" where
  "cleanup_loop cutoff 0 es = es"
| "cleanup_loop cutoff (Suc i) es = cleanup_loop cutoff i (if ev_timestamp (es ! i) < cutoff then take i es @ drop (Suc i) es else es)"

definition storage_cleanup :: "ms \<Rightarrow> int \<Rightarrow> AuditEvent list \<Rightarrow> AuditEvent list \<times> nat" where
  "storage_cleanup now olderThanDays es = (let es' = cleanup_loop (now - olderThanDays * 86400000) (length es) es in (es', length es - length es'))"

lemma cleanup_loop_filter: "i \<le> length es \<Longrightarrow> cleanup_loop cutoff i es = filter (\<lambda>e. cutoff \<le> ev_timestamp e) (take i es) @ drop i es"
proof (induction i arbitrary: es)
  case (Suc i)
  then have i: "i < length es" by simp
  have t: "take (Suc i) es = take i es @ [es ! i]" using i by (rule take_Suc_conv_app_nth)
  have d: "drop i es = es ! i # drop (Suc i) es" using i by (simp add: Cons_nth_drop_Suc)
  show ?case
  proof (cases "ev_timestamp (es ! i) < cutoff")
    case True
    let ?es = "take i es @ drop (Suc i) es"
    have "take i ?es = take i es" "drop i ?es = drop (Suc i) es" using i by simp_all
    moreover have "i \<le> length ?es" using i by simp
    ultimately show ?thesis using Suc.IH [of ?es] True by (simp add: t)
  next
    case False
    then show ?thesis using Suc.IH [of es] i by (simp add: t d)
  qed
qed simp

text \<open>Cleaning up keeps just the events of the last days, in order, and says how many it removed; doing it again at the same time removes none. Events
  are found by a query just as long as they are kept.\<close>
theorem audit_cleanup_is_a_filter:
  assumes "storage_cleanup now days es = (es', n)"
  shows "es' = filter (\<lambda>e. now - days * 86400000 \<le> ev_timestamp e) es \<and> n = length (filter (\<lambda>e. ev_timestamp e < now - days * 86400000) es) \<and>
    storage_cleanup now days es' = (es', 0) \<and> storage_query f es' = filter (\<lambda>e. now - days * 86400000 \<le> ev_timestamp e) (storage_query f es)"
proof -
  have es': "es' = filter (\<lambda>e. now - days * 86400000 \<le> ev_timestamp e) es" and n: "n = length es - length es'"
    using assms cleanup_loop_filter [of "length es" es] by (auto simp: storage_cleanup_def Let_def)
  have "length es = length es' + length (filter (\<lambda>e. \<not> now - days * 86400000 \<le> ev_timestamp e) es)" unfolding es' by (simp add: sum_length_filter_compl)
  then have "n = length (filter (\<lambda>e. ev_timestamp e < now - days * 86400000) es)" using n by (simp add: not_le)
  moreover have "storage_cleanup now days es' = (es', 0)"
    using cleanup_loop_filter [of "length es'" es' "now - days * 86400000"] by (simp add: storage_cleanup_def Let_def es')
  moreover have "storage_query f es' = filter (\<lambda>e. now - days * 86400000 \<le> ev_timestamp e) (storage_query f es)"
    unfolding storage_query_def es' by (simp add: conj_commute)
  ultimately show ?thesis using es' by blast
qed

theorem audit_cleanup_is_a_filter_witness:
  "\<exists>n. storage_cleanup 200000000 1 [] = ([], n) \<and> n = 0"
  using audit_cleanup_is_a_filter [of 200000000 1 "[]"] by (simp add: storage_cleanup_def Let_def)

subsection \<open>AuditLogger\<close>

text \<open>\<open>log\<close>: an id is filled in, and a time, which every caller gives; a failing store is logged and dropped. \<open>store_ok\<close> is whether the storage
  takes the event.\<close>

definition audit_log :: "(AuditEvent \<Rightarrow> bool) \<Rightarrow> string \<Rightarrow> AuditEvent \<Rightarrow> AuditEvent list \<Rightarrow> AuditEvent list" where
  "audit_log store_ok uuid e es =
     (let e' = (if ev_id e = [] then e\<lparr> ev_id := uuid \<rparr> else e) in if store_ok e' then storage_store e' es else es)"

definition new_event :: "string \<Rightarrow> ms \<Rightarrow> string \<Rightarrow> string \<Rightarrow> string \<Rightarrow> string \<Rightarrow> AuditEvent" where
  "new_event uuid now eventType entityType entityId action = \<lparr> ev_id = uuid, ev_timestamp = now, ev_eventType = eventType, ev_entityType = entityType,
     ev_entityId = entityId, ev_action = action, ev_userId = None, ev_changes = None, ev_ipAddress = None, ev_success = True, ev_error = None \<rparr>"

definition changes_doc :: "jdoc \<Rightarrow> jdoc \<Rightarrow> jdoc" where
  "changes_doc before after = DObj [(''before'', before), (''after'', after)]"

definition logDeliveryCreated :: "string \<Rightarrow> ms \<Rightarrow> string \<Rightarrow> string \<Rightarrow> string \<Rightarrow> string option \<Rightarrow> AuditEvent" where
  "logDeliveryCreated uuid now deliveryId resultId destinationId userId = (new_event uuid now ''DELIVERY_CREATED'' ''Delivery'' deliveryId ''CREATE'')
     \<lparr> ev_userId := userId, ev_changes := Some (changes_doc DNull (DObj [(''resultId'', DStr resultId), (''destinationId'', DStr destinationId)])) \<rparr>"

definition logDeliveryStatusChanged :: "string \<Rightarrow> ms \<Rightarrow> string \<Rightarrow> jdoc \<Rightarrow> jdoc \<Rightarrow> string option \<Rightarrow> AuditEvent" where
  "logDeliveryStatusChanged uuid now deliveryId before after userId = (new_event uuid now ''DELIVERY_STATUS_CHANGED'' ''Delivery'' deliveryId ''UPDATE'')
     \<lparr> ev_userId := userId, ev_changes := Some (changes_doc (DObj [(''status'', before)]) (DObj [(''status'', after)])) \<rparr>"

definition logDestinationCreated :: "string \<Rightarrow> ms \<Rightarrow> string \<Rightarrow> jdoc \<Rightarrow> string \<Rightarrow> string \<Rightarrow> AuditEvent" where
  "logDestinationCreated uuid now destinationId type endpoint userId = (new_event uuid now ''DESTINATION_CREATED'' ''Destination'' destinationId ''CREATE'')
     \<lparr> ev_userId := Some userId, ev_changes := Some (changes_doc DNull (DObj [(''type'', type), (''endpoint'', DStr endpoint)])) \<rparr>"

definition logDestinationUpdated :: "string \<Rightarrow> ms \<Rightarrow> string \<Rightarrow> jdoc \<Rightarrow> string \<Rightarrow> AuditEvent" where
  "logDestinationUpdated uuid now destinationId changes userId = (new_event uuid now ''DESTINATION_UPDATED'' ''Destination'' destinationId ''UPDATE'')
     \<lparr> ev_userId := Some userId, ev_changes := Some changes \<rparr>"

definition logApiKeyCreated :: "string \<Rightarrow> ms \<Rightarrow> string \<Rightarrow> string \<Rightarrow> string \<Rightarrow> AuditEvent" where
  "logApiKeyCreated uuid now keyId tier userId = (new_event uuid now ''API_KEY_CREATED'' ''ApiKey'' keyId ''CREATE'')
     \<lparr> ev_userId := Some userId, ev_changes := Some (changes_doc DNull (DObj [(''tier'', DStr tier)])) \<rparr>"

definition logApiKeyRevoked :: "string \<Rightarrow> ms \<Rightarrow> string \<Rightarrow> string \<Rightarrow> AuditEvent" where
  "logApiKeyRevoked uuid now keyId userId = (new_event uuid now ''API_KEY_REVOKED'' ''ApiKey'' keyId ''UPDATE'')
     \<lparr> ev_userId := Some userId, ev_changes := Some (changes_doc (DObj [(''revoked'', DBool False)]) (DObj [(''revoked'', DBool True)])) \<rparr>"

definition logAuthenticationFailed :: "string \<Rightarrow> ms \<Rightarrow> string \<Rightarrow> string option \<Rightarrow> AuditEvent" where
  "logAuthenticationFailed uuid now reason ipAddress = (new_event uuid now ''AUTH_FAILED'' ''Authentication'' ''auth'' ''EXECUTE'')
     \<lparr> ev_ipAddress := ipAddress, ev_success := False, ev_error := Some reason \<rparr>"

definition logAuthorizationDenied :: "string \<Rightarrow> ms \<Rightarrow> string \<Rightarrow> string option \<Rightarrow> string option \<Rightarrow> AuditEvent" where
  "logAuthorizationDenied uuid now resource userId ipAddress = (new_event uuid now ''AUTHZ_DENIED'' ''Authorization'' resource ''EXECUTE'')
     \<lparr> ev_userId := userId, ev_ipAddress := ipAddress, ev_success := False, ev_error := Some ''Permission denied'' \<rparr>"

definition logAuthAttempt :: "string \<Rightarrow> ms \<Rightarrow> bool \<Rightarrow> string option \<Rightarrow> AuditEvent" where
  "logAuthAttempt uuid now success userId = (new_event uuid now (if success then ''AUTH_SUCCESS'' else ''AUTH_FAILURE'') ''Authentication'' (str_or userId ''auth'')
     (if success then ''login_success'' else ''login_failure''))\<lparr> ev_userId := userId, ev_success := success \<rparr>"

definition logSecurityEvent :: "string \<Rightarrow> ms \<Rightarrow> string \<Rightarrow> string \<Rightarrow> jdoc option \<Rightarrow> AuditEvent" where
  "logSecurityEvent uuid now eventType severity data = (new_event uuid now eventType ''Security'' severity ''EXECUTE'')\<lparr> ev_changes := data \<rparr>"

definition logEvent :: "string \<Rightarrow> ms \<Rightarrow> string \<Rightarrow> string \<Rightarrow> string option \<Rightarrow> string \<Rightarrow> jdoc option \<Rightarrow> string option \<Rightarrow> AuditEvent" where
  "logEvent uuid now eventType entityType entityId action changes actorId =
     (new_event uuid now eventType entityType (str_or entityId ''none'') (if action = [] then ''EXECUTE'' else action))\<lparr> ev_userId := actorId, ev_changes := changes \<rparr>"

subsection \<open>AuditReporter\<close>

definition between :: "ms \<Rightarrow> ms \<Rightarrow> AuditQueryFilters" where
  "between startDate endDate = no_filters\<lparr> qf_startDate := Some startDate, qf_endDate := Some endDate \<rparr>"

definition getAuditTrail :: "string \<Rightarrow> ms option \<Rightarrow> ms option \<Rightarrow> AuditEvent list \<Rightarrow> AuditEvent list" where
  "getAuditTrail entityId startDate endDate es = storage_query (no_filters\<lparr> qf_entityId := Some entityId, qf_startDate := startDate, qf_endDate := endDate \<rparr>) es"

record EventStats =
  es_totalEvents :: nat
  es_byEventType :: "(string, nat) js_map"
  es_byAction :: "(string, nat) js_map"
  es_successCount :: nat
  es_failureCount :: nat

text \<open>\<open>m[k] = (m[k] || 0) + 1\<close>\<close>

definition count_key :: "string \<Rightarrow> (string, nat) js_map \<Rightarrow> (string, nat) js_map" where
  "count_key k m = mset_at k (nullish_or (mget m k) 0 + 1) m"

fun stats_loop :: "AuditEvent list \<Rightarrow> EventStats \<Rightarrow> EventStats" where
  "stats_loop [] s = s"
| "stats_loop (e # es) s = stats_loop es (s\<lparr> es_byEventType := count_key (ev_eventType e) (es_byEventType s), es_byAction := count_key (ev_action e) (es_byAction s),
     es_successCount := es_successCount s + (if ev_success e then 1 else 0), es_failureCount := es_failureCount s + (if ev_success e then 0 else 1) \<rparr>)"

definition getEventStats :: "ms \<Rightarrow> ms \<Rightarrow> AuditEvent list \<Rightarrow> EventStats" where
  "getEventStats startDate endDate es = (let found = storage_query (between startDate endDate) es
     in stats_loop found \<lparr> es_totalEvents = length found, es_byEventType = [], es_byAction = [], es_successCount = 0, es_failureCount = 0 \<rparr>)"

definition getChangeHistory :: "string \<Rightarrow> AuditEvent list \<Rightarrow> AuditEvent list" where
  "getChangeHistory entityId es = filter (\<lambda>e. ev_action e \<in> set [''CREATE'', ''UPDATE'', ''DELETE'']) (storage_query (no_filters\<lparr> qf_entityId := Some entityId \<rparr>) es)"

definition getUserActivity :: "string \<Rightarrow> ms option \<Rightarrow> ms option \<Rightarrow> AuditEvent list \<Rightarrow> AuditEvent list" where
  "getUserActivity userId startDate endDate es = storage_query (no_filters\<lparr> qf_userId := Some userId, qf_startDate := startDate, qf_endDate := endDate \<rparr>) es"

definition getSecurityEvents :: "ms \<Rightarrow> ms \<Rightarrow> AuditEvent list \<Rightarrow> AuditEvent list" where
  "getSecurityEvents startDate endDate es = filter (\<lambda>e. includes_str (ev_eventType e) ''AUTH'' \<or> \<not> ev_success e) (storage_query (between startDate endDate) es)"

lemma mget_count_key: "mget (count_key k m) k' = (if k' = k then Some (nullish_or (mget m k) 0 + 1) else mget m k')"
  by (simp add: count_key_def mset_at_def mget_def update_conv)

lemma stats_loop_counts:
  "nullish_or (mget (es_byEventType (stats_loop es s)) k) 0 = nullish_or (mget (es_byEventType s) k) 0 + length (filter (\<lambda>e. ev_eventType e = k) es)"
  "nullish_or (mget (es_byAction (stats_loop es s)) k) 0 = nullish_or (mget (es_byAction s) k) 0 + length (filter (\<lambda>e. ev_action e = k) es)"
  "es_successCount (stats_loop es s) = es_successCount s + length (filter ev_success es)"
  "es_failureCount (stats_loop es s) = es_failureCount s + length (filter (\<lambda>e. \<not> ev_success e) es)"
  "es_totalEvents (stats_loop es s) = es_totalEvents s"
  by (induction es s rule: stats_loop.induct) (auto simp: mget_count_key nullish_or_def)

text \<open>The report on the trail counts each event of the period once, by type and by action, and successes and failures add up to the total. The report on security finds
  every refused authentication and authorization of the period, but no event that was logged as a security event, unless its type happens
  to contain AUTH: those are stored as successes.\<close>
theorem audit_reports:
  assumes "s = getEventStats startDate endDate es" "startDate \<le> now" "now \<le> endDate"
  shows "nullish_or (mget (es_byEventType s) k) 0 = length (filter (\<lambda>e. startDate \<le> ev_timestamp e \<and> ev_timestamp e \<le> endDate \<and> ev_eventType e = k) es) \<and>
    es_successCount s + es_failureCount s = es_totalEvents s \<and>
    logAuthenticationFailed uuid now reason ip \<in> set (getSecurityEvents startDate endDate (storage_store (logAuthenticationFailed uuid now reason ip) es)) \<and>
    logAuthorizationDenied uuid now resource user ip \<in> set (getSecurityEvents startDate endDate (storage_store (logAuthorizationDenied uuid now resource user ip) es)) \<and>
    (\<not> includes_str kind ''AUTH'' \<longrightarrow>
       getSecurityEvents startDate endDate (storage_store (logSecurityEvent uuid now kind severity data) es) = getSecurityEvents startDate endDate es)"
proof -
  have q: "storage_query (between startDate endDate) xs = filter (\<lambda>e. startDate \<le> ev_timestamp e \<and> ev_timestamp e \<le> endDate) xs" for xs
    unfolding storage_query_def by (rule filter_cong) (simp_all add: event_passes_def between_def no_filters_def text_passes_def str_or_def)
  have "nullish_or (mget (es_byEventType s) k) 0 = length (filter (\<lambda>e. startDate \<le> ev_timestamp e \<and> ev_timestamp e \<le> endDate \<and> ev_eventType e = k) es)"
    unfolding assms(1) getEventStats_def Let_def stats_loop_counts q by (simp add: mget_def nullish_or_def conj_commute conj_left_commute)
  moreover have "es_successCount s + es_failureCount s = es_totalEvents s"
    by (simp add: assms(1) getEventStats_def Let_def stats_loop_counts sum_length_filter_compl)
  ultimately show ?thesis
    using assms(2,3)
    by (simp add: getSecurityEvents_def q storage_store_def logAuthenticationFailed_def logAuthorizationDenied_def logSecurityEvent_def new_event_def)
qed

theorem audit_reports_witness:
  "getSecurityEvents 0 9 (storage_store (logSecurityEvent ''u'' 5 ''RATE_LIMIT_VIOLATED'' ''high'' None) []) = []"
proof -
  have "\<not> includes_str ''RATE_LIMIT_VIOLATED'' ''AUTH''" by code_simp
  then have "getSecurityEvents 0 9 (storage_store (logSecurityEvent ''u'' 5 ''RATE_LIMIT_VIOLATED'' ''high'' None) []) = getSecurityEvents 0 9 []"
    using audit_reports [OF refl, of 0 5 9 "[]" _ "''u''" _ _ _ _ "''RATE_LIMIT_VIOLATED''" "''high''" None] by simp
  then show ?thesis by (simp add: getSecurityEvents_def storage_query_def)
qed

subsection \<open>Trace contexts\<close>

record TraceContext =
  tc_traceId :: string
  tc_spanId :: string
  tc_parentSpanId :: "string option"
  tc_traceFlags :: "nat option"
  tc_baggage :: "(string, string) js_map"

fun show_hex :: "nat \<Rightarrow> string" where
  "show_hex n = (if n < 16 then [hex_digit n] else show_hex (n div 16) @ [hex_digit (n mod 16)])"

declare show_hex.simps [simp del]

text \<open>\<open>padStart(2, '0')\<close>\<close>

definition pad_two :: "string \<Rightarrow> string" where
  "pad_two s = replicate (2 - length s) CHR ''0'' @ s"

text \<open>\<open>parseInt(s, 16)\<close> of a text without a sign or a prefix: the hexadecimal digits it starts with; None is \<open>NaN\<close>.\<close>

definition parse_hex :: "string \<Rightarrow> nat option" where
  "parse_hex s = (let d = takeWhile (\<lambda>c. hex_val c \<noteq> None) s in if d = [] then None else Some (foldl (\<lambda>n c. n * 16 + the (hex_val c)) 0 d))"

definition trace_inject :: "TraceContext option \<Rightarrow> (string, string) js_map \<Rightarrow> (string, string) js_map" where
  "trace_inject ctx headers = (case ctx of None \<Rightarrow> headers | Some c \<Rightarrow>
     if tc_traceId c \<noteq> [] \<and> tc_spanId c \<noteq> []
     then mset_at ''traceparent'' (''00-'' @ tc_traceId c @ ''-'' @ tc_spanId c @ ''-'' @ pad_two (show_hex (nullish_or (tc_traceFlags c) 1))) headers
     else headers)"

definition trace_extract :: "(string, string) js_map \<Rightarrow> TraceContext option" where
  "trace_extract headers = (let h = str_or (mget headers ''traceparent'') (str_or (mget headers ''Traceparent'') []) in
     if h = [] then None else (case split_on CHR ''-'' h of _ # traceId # spanId # flags # _ \<Rightarrow>
         Some \<lparr> tc_traceId = traceId, tc_spanId = spanId, tc_parentSpanId = None, tc_traceFlags = parse_hex (if flags = [] then ''01'' else flags), tc_baggage = [] \<rparr>
       | _ \<Rightarrow> None))"

lemma show_hex_digits: "\<forall>c \<in> set (show_hex n). hex_val c \<noteq> None"
proof (induction n rule: show_hex.induct)
  case (1 n)
  then show ?case by (simp add: show_hex.simps [of n])
qed

lemma read_show_hex: "foldl (\<lambda>n c. n * 16 + the (hex_val c)) 0 (show_hex n) = n"
proof (induction n rule: show_hex.induct)
  case (1 n)
  then show ?case by (simp add: show_hex.simps [of n])
qed

lemma show_hex_nonempty: "show_hex n \<noteq> []"
  by (simp add: show_hex.simps [of n])

lemma zeros_read: "foldl (\<lambda>n c. n * 16 + the (hex_val c)) 0 (replicate k CHR ''0'' @ s) = foldl (\<lambda>n c. n * 16 + the (hex_val c)) 0 s"
proof -
  have "hex_val CHR ''0'' = Some 0" by code_simp
  then show ?thesis by (induction k) simp_all
qed

lemma parse_padded: "parse_hex (pad_two (show_hex n)) = Some n"
proof -
  have "hex_val CHR ''0'' \<noteq> None" by code_simp
  then have "\<forall>c \<in> set (pad_two (show_hex n)). hex_val c \<noteq> None" using show_hex_digits by (auto simp: pad_two_def)
  then have "takeWhile (\<lambda>c. hex_val c \<noteq> None) (pad_two (show_hex n)) = pad_two (show_hex n)" by (simp add: takeWhile_eq_all_conv)
  moreover have "pad_two (show_hex n) \<noteq> []" using show_hex_nonempty by (simp add: pad_two_def)
  moreover have "foldl (\<lambda>n c. n * 16 + the (hex_val c)) 0 (pad_two (show_hex n)) = n" unfolding pad_two_def zeros_read read_show_hex ..
  ultimately show ?thesis by (simp only: parse_hex_def Let_def if_False)
qed

lemma padded_no_dash: "CHR ''-'' \<notin> set (pad_two (show_hex n))"
proof -
  have "hex_val CHR ''-'' = None" by code_simp
  then have "CHR ''-'' \<notin> set (show_hex n)" using show_hex_digits [of n] by metis
  then show ?thesis by (simp add: pad_two_def)
qed

text \<open>A trace context survives its header: what is injected is extracted again, with the same ids and flags and whatever other headers there are, as
  long as the ids are not empty and have no dash. Flags left out come back as 1; the parent and the baggage are not
  carried. With an empty id nothing is written.\<close>
theorem trace_context_roundtrip:
  assumes "tc_traceId c \<noteq> []" "tc_spanId c \<noteq> []" "CHR ''-'' \<notin> set (tc_traceId c)" "CHR ''-'' \<notin> set (tc_spanId c)"
  shows "trace_extract (trace_inject (Some c) headers) =
      Some \<lparr> tc_traceId = tc_traceId c, tc_spanId = tc_spanId c, tc_parentSpanId = None, tc_traceFlags = Some (nullish_or (tc_traceFlags c) 1), tc_baggage = [] \<rparr> \<and>
    (\<forall>k. k \<noteq> ''traceparent'' \<longrightarrow> mget (trace_inject (Some c) headers) k = mget headers k) \<and>
    trace_inject (Some (c\<lparr> tc_spanId := [] \<rparr>)) headers = headers"
proof -
  let ?flags = "pad_two (show_hex (nullish_or (tc_traceFlags c) 1))"
  let ?h = "''00-'' @ tc_traceId c @ ''-'' @ tc_spanId c @ ''-'' @ ?flags"
  have h: "?h = ''00'' @ CHR ''-'' # (tc_traceId c @ CHR ''-'' # (tc_spanId c @ CHR ''-'' # ?flags))" by simp
  have z: "CHR ''-'' \<notin> set ''00''" by simp
  have split: "split_on CHR ''-'' ?h = [''00'', tc_traceId c, tc_spanId c, ?flags]"
    unfolding h split_on_append [OF z] split_on_append [OF assms(3)] split_on_append [OF assms(4)] split_on_fresh [OF padded_no_dash] ..
  have i: "trace_inject (Some c) headers = mset_at ''traceparent'' ?h headers" using assms(1,2) by (simp add: trace_inject_def)
  have "str_or (mget (mset_at ''traceparent'' ?h headers) ''traceparent'') (str_or (mget (mset_at ''traceparent'' ?h headers) ''Traceparent'') []) = ?h"
    by (simp add: mget_def mset_at_def update_conv str_or_def)
  moreover have "?flags \<noteq> []" using show_hex_nonempty by (simp add: pad_two_def)
  ultimately have "trace_extract (trace_inject (Some c) headers) =
      Some \<lparr> tc_traceId = tc_traceId c, tc_spanId = tc_spanId c, tc_parentSpanId = None, tc_traceFlags = parse_hex ?flags, tc_baggage = [] \<rparr>"
    unfolding trace_extract_def i Let_def by (simp only: split list.case if_False append_is_Nil_conv) simp
  then show ?thesis unfolding i parse_padded by (simp add: mget_def mset_at_def update_conv trace_inject_def)
qed

theorem trace_context_roundtrip_witness:
  "\<exists>c. trace_extract (trace_inject (Some \<lparr> tc_traceId = ''4bf9'', tc_spanId = ''00f0'', tc_parentSpanId = Some ''a'', tc_traceFlags = None, tc_baggage = [] \<rparr>) [(''host'', ''h'')]) = Some c \<and>
     tc_traceFlags c = Some 1 \<and> tc_spanId c = ''00f0''"
  using trace_context_roundtrip [of "\<lparr> tc_traceId = ''4bf9'', tc_spanId = ''00f0'', tc_parentSpanId = Some ''a'', tc_traceFlags = None, tc_baggage = [] \<rparr>" "[(''host'', ''h'')]"]
  by (simp add: nullish_or_def)

subsection \<open>The context of log lines\<close>

text \<open>The identifiers, empty when unknown, and the data that goes with them.\<close>

record LogContext =
  lc_traceId :: string
  lc_spanId :: string
  lc_userId :: string
  lc_apiKeyId :: string
  lc_deliveryId :: string
  lc_destinationId :: string
  lc_component :: string
  lc_tenantId :: string
  lc_requestId :: string
  lc_correlationId :: string
  lc_custom :: "(string, jdoc) js_map"
  lc_contextData :: "(string, jdoc) js_map"

text \<open>The constructor on an object of options: \<open>correlationId: opts.correlationId || opts.requestId || ''\<close>; options that are not given are empty.\<close>

definition LogContext_new :: "LogContext \<Rightarrow> LogContext" where
  "LogContext_new opts = opts\<lparr> lc_correlationId := (if lc_correlationId opts = [] then lc_requestId opts else lc_correlationId opts) \<rparr>"

definition empty_context :: LogContext where
  "empty_context = \<lparr> lc_traceId = [], lc_spanId = [], lc_userId = [], lc_apiKeyId = [], lc_deliveryId = [], lc_destinationId = [], lc_component = [], lc_tenantId = [],
     lc_requestId = [], lc_correlationId = [], lc_custom = [], lc_contextData = [] \<rparr>"

definition spread_map :: "(string, jdoc) js_map \<Rightarrow> (string, jdoc) js_map \<Rightarrow> (string, jdoc) js_map" where
  "spread_map m additional = fold (\<lambda>(k, v). mset_at k v) additional m"

text \<open>\<open>with\<close> passes every identifier on but \<open>correlationId\<close>.\<close>

definition lc_with :: "(string, jdoc) js_map \<Rightarrow> LogContext \<Rightarrow> LogContext" where
  "lc_with additional c = LogContext_new (c\<lparr> lc_correlationId := [], lc_custom := spread_map (lc_custom c) additional, lc_contextData := spread_map (lc_contextData c) additional \<rparr>)"

definition lc_ids :: "LogContext \<Rightarrow> (string \<times> string) list" where
  "lc_ids c = [(''traceId'', lc_traceId c), (''spanId'', lc_spanId c), (''userId'', lc_userId c), (''apiKeyId'', lc_apiKeyId c), (''deliveryId'', lc_deliveryId c),
     (''destinationId'', lc_destinationId c), (''component'', lc_component c), (''tenantId'', lc_tenantId c), (''requestId'', lc_requestId c), (''correlationId'', lc_correlationId c)]"

definition lc_toJSON :: "LogContext \<Rightarrow> (string, jdoc) js_map" where
  "lc_toJSON c = spread_map (spread_map (map (\<lambda>(k, v). (k, DStr v)) (filter (\<lambda>(k, v). v \<noteq> []) (lc_ids c))) (lc_contextData c)) (lc_custom c)"

text \<open>\<open>CorrelationContext\<close>: the store of the asynchronous context. \<open>set\<close> and \<open>merge\<close> put what they are given into the data of the current context;
  \<open>run\<close> is for a context that is made already.\<close>

definition correlation_get :: "LogContext option \<Rightarrow> LogContext" where
  "correlation_get store = (case store of None \<Rightarrow> empty_context | Some c \<Rightarrow> c)"

definition correlation_set :: "LogContext + (string, jdoc) js_map \<Rightarrow> LogContext option \<Rightarrow> LogContext option" where
  "correlation_set x store = Some (lc_with (case x of Inl c \<Rightarrow> lc_toJSON c | Inr m \<Rightarrow> m) (correlation_get store))"

definition correlation_merge :: "(string, jdoc) js_map \<Rightarrow> LogContext option \<Rightarrow> LogContext option" where
  "correlation_merge m store = Some (lc_with m (correlation_get store))"

definition correlation_clear :: "LogContext option \<Rightarrow> LogContext option" where
  "correlation_clear store = Some empty_context"

definition correlation_run :: "LogContext \<Rightarrow> (LogContext option \<Rightarrow> 'a) \<Rightarrow> LogContext option \<Rightarrow> 'a" where
  "correlation_run c f store = f (Some c)"

lemma mget_set: "mget (mset_at k' v m) k = (if k = k' then Some v else mget m k)"
  by (simp add: mget_def mset_at_def update_conv)

lemma mget_spread: "mget (spread_map m additional) k = (case mget (rev additional) k of Some v \<Rightarrow> Some v | None \<Rightarrow> mget m k)"
  unfolding spread_map_def mget_def [of "rev additional"]
  by (induction additional arbitrary: m) (auto simp: mget_set map_add_def split: option.splits)

lemma distinct_set: "distinct (map fst m) \<Longrightarrow> distinct (map fst (mset_at k v m))"
  by (simp add: mset_at_def distinct_update)

lemma distinct_spread: "distinct (map fst m) \<Longrightarrow> distinct (map fst (spread_map m additional))"
  unfolding spread_map_def by (induction additional arbitrary: m) (auto simp: distinct_set)

lemma mget_rev: "distinct (map fst m) \<Longrightarrow> mget (rev m) k = mget m k"
  unfolding mget_def by (metis distinct_rev map_of_inject_set rev_map set_rev)

text \<open>What a property of the context shows as.\<close>

definition context_ok :: "LogContext \<Rightarrow> bool" where
  "context_ok c \<longleftrightarrow> distinct (map fst (lc_custom c)) \<and> distinct (map fst (lc_contextData c))"

lemma mget_toJSON:
  assumes "context_ok c"
  shows "mget (lc_toJSON c) k = (case mget (lc_custom c) k of Some v \<Rightarrow> Some v | None \<Rightarrow> (case mget (lc_contextData c) k of Some v \<Rightarrow> Some v
    | None \<Rightarrow> mget (map (\<lambda>(k, v). (k, DStr v)) (filter (\<lambda>(k, v). v \<noteq> []) (lc_ids c))) k))"
  using assms by (simp add: lc_toJSON_def mget_spread mget_rev context_ok_def split: option.split)

text \<open>Adding to a context keeps the identifiers and shows what was added in each line, under the names it was added by. Two things are lost: a
  correlation id that differs from the request id, and, when a context is set for the asynchronous calls that follow, its identifiers as
  such: they appear in the lines, but the fields stay those of the context before.\<close>
theorem log_context_keeps_its_data:
  assumes "context_ok c" "mget additional k = Some v" "distinct (map fst additional)"
  shows "mget (lc_toJSON (lc_with additional c)) k = Some v \<and> lc_traceId (lc_with additional c) = lc_traceId c \<and> lc_requestId (lc_with additional c) = lc_requestId c \<and>
    lc_correlationId (lc_with additional c) = lc_requestId c \<and>
    lc_traceId (correlation_get (correlation_set (Inl c) None)) = [] \<and>
    (lc_traceId c \<noteq> [] \<and> lc_custom c = [] \<and> lc_contextData c = [] \<longrightarrow>
       mget (lc_toJSON (correlation_get (correlation_set (Inl c) None))) ''traceId'' = Some (DStr (lc_traceId c)))"
proof -
  have ok: "context_ok (lc_with m d)" if "context_ok d" for m d
    using that by (simp add: context_ok_def lc_with_def LogContext_new_def distinct_spread)
  have shown: "mget (lc_toJSON (lc_with m d)) k = Some v" if "context_ok d" "mget m k = Some v" "distinct (map fst m)" for m d k v
    using that ok [OF that(1), of m] by (simp add: mget_toJSON) (simp add: lc_with_def LogContext_new_def mget_spread mget_rev)
  have "mget (lc_toJSON (correlation_get (correlation_set (Inl c) None))) ''traceId'' = Some (DStr (lc_traceId c))"
    if "lc_traceId c \<noteq> []" "lc_custom c = []" "lc_contextData c = []"
  proof -
    have "distinct (map fst (lc_ids c))" by (simp add: lc_ids_def)
    then have "distinct (map fst (filter (\<lambda>(k, v). v \<noteq> []) (lc_ids c)))" by (rule distinct_map_filter)
    then have "distinct (map fst (lc_toJSON c))" unfolding lc_toJSON_def that spread_map_def by (simp add: comp_def case_prod_beta)
    moreover obtain ids where ids: "lc_ids c = (''traceId'', lc_traceId c) # ids" by (simp add: lc_ids_def)
    have "mget (lc_toJSON c) ''traceId'' = Some (DStr (lc_traceId c))" unfolding mget_toJSON [OF assms(1)] using that by (simp add: ids mget_def)
    moreover have "context_ok empty_context" by (simp add: context_ok_def empty_context_def)
    ultimately show ?thesis using shown by (simp add: correlation_get_def correlation_set_def)
  qed
  moreover have "lc_traceId (correlation_get (correlation_set (Inl c) None)) = []"
    by (simp add: correlation_get_def correlation_set_def lc_with_def LogContext_new_def empty_context_def)
  ultimately show ?thesis using shown [OF assms] by (simp add: lc_with_def LogContext_new_def)
qed

theorem log_context_keeps_its_data_witness:
  "lc_correlationId (lc_with [(''jobId'', DStr ''j'')] (empty_context\<lparr> lc_requestId := ''r'', lc_correlationId := ''x'' \<rparr>)) = ''r''"
  using log_context_keeps_its_data [of "empty_context\<lparr> lc_requestId := ''r'', lc_correlationId := ''x'' \<rparr>" "[(''jobId'', DStr ''j'')]" "''jobId''" "DStr ''j''"]
  by (simp add: context_ok_def empty_context_def mget_def)

subsection \<open>Masking secrets\<close>

definition sensitiveKeys :: "string list" where
  "sensitiveKeys = [''password'', ''secret'', ''token'', ''authorization'', ''apiKey'', ''api_key'', ''privateKey'']"

definition is_secret :: "string \<Rightarrow> bool" where
  "is_secret key \<longleftrightarrow> list_ex (\<lambda>s. includes_str (lower key) (lower s)) sensitiveKeys"

definition is_text :: "jdoc \<Rightarrow> bool" where
  "is_text v = (case v of DStr s \<Rightarrow> True | _ \<Rightarrow> False)"

text \<open>Arrays are taken over as they are, and so is what stands under a secret name but is not a text, unless it is an object.\<close>

primrec sanitizeData :: "jdoc \<Rightarrow> jdoc" where
  "sanitizeData DNull = DNull"
| "sanitizeData (DBool b) = DBool b"
| "sanitizeData (DNum x) = DNum x"
| "sanitizeData (DStr s) = DStr s"
| "sanitizeData (DArr vs) = DArr vs"
| "sanitizeData (DObj ps) = DObj (map (\<lambda>(k, v). (k, if is_secret k \<and> is_text v then DStr ''[REDACTED]'' else v)) (map (map_prod id sanitizeData) ps))"

definition formatLog :: "string \<Rightarrow> string \<Rightarrow> string \<Rightarrow> (string, jdoc) js_map \<Rightarrow> jdoc option \<Rightarrow> jdoc" where
  "formatLog timestamp level message ctx data = DObj [(''timestamp'', DStr timestamp), (''level'', DStr (lower level)), (''message'', DStr message), (''context'', DObj ctx),
     (''data'', sanitizeData (nullish_or data (DObj [])))]"

text \<open>The texts that stand under a secret name, with arrays entered or not.\<close>

primrec secret_texts :: "bool \<Rightarrow> jdoc \<Rightarrow> string list" where
  "secret_texts arrays DNull = []"
| "secret_texts arrays (DBool b) = []"
| "secret_texts arrays (DNum x) = []"
| "secret_texts arrays (DStr s) = []"
| "secret_texts arrays (DArr vs) = (if arrays then concat (map (secret_texts arrays) vs) else [])"
| "secret_texts arrays (DObj ps) = concat (map2 (\<lambda>(k, v) (k', r). (if is_secret k then (case v of DStr s \<Rightarrow> [s] | _ \<Rightarrow> []) else []) @ r)
     ps (map (map_prod id (secret_texts arrays)) ps))"

lemma secret_texts_obj:
  "secret_texts arrays (DObj ps) = concat (map (\<lambda>(k, v). (if is_secret k then (case v of DStr s \<Rightarrow> [s] | _ \<Rightarrow> []) else []) @ secret_texts arrays v) ps)"
  by (induction ps) auto

declare secret_texts.simps(6) [simp del] secret_texts_obj [simp]

lemma is_text_sanitized: "is_text (sanitizeData v) = is_text v"
  by (cases v) (simp_all add: is_text_def)

lemma secret_text_nil: "\<not> (is_secret k \<and> is_text w) \<Longrightarrow> (if is_secret k then (case w of DStr s \<Rightarrow> [s] | _ \<Rightarrow> []) else []) = []"
  by (cases w) (simp_all add: is_text_def)

lemma sanitized_secrets: "s \<in> set (secret_texts False (sanitizeData v)) \<Longrightarrow> s = ''[REDACTED]''"
proof (induction v)
  case (DObj ps)
  define f where "f = (\<lambda>k v. (if is_secret k then (case v of DStr s \<Rightarrow> [s] | _ \<Rightarrow> []) else []) @ secret_texts False v)"
  define m where "m = (\<lambda>k v. if is_secret k \<and> is_text (sanitizeData v) then DStr ''[REDACTED]'' else sanitizeData v)"
  have "secret_texts False (sanitizeData (DObj ps)) = concat (map (\<lambda>(k, v). f k (m k v)) ps)"
    unfolding f_def m_def by (induction ps) auto
  then obtain k v where kv: "(k, v) \<in> set ps" "s \<in> set (f k (m k v))" using DObj.prems by auto
  show ?case
  proof (cases "is_secret k \<and> is_text (sanitizeData v)")
    case True
    then show ?thesis using kv(2) by (simp add: f_def m_def)
  next
    case False
    then have "m k v = sanitizeData v" unfolding m_def by (rule if_not_P)
    then have "s \<in> set (secret_texts False (sanitizeData v))" using kv(2) unfolding f_def by (simp only: secret_text_nil [OF False] append_Nil)
    then show ?thesis using DObj.IH kv(1) by fastforce
  qed
qed simp_all

text \<open>Masking leaves no text under a secret name, at any depth of objects; it is idempotent, keeps the names, and changes nothing without such texts. Inside arrays
  nothing is masked: a password in an object in a list is logged as it is.\<close>
theorem secrets_are_masked_outside_arrays:
  "(\<forall>s. s \<in> set (secret_texts False (sanitizeData v)) \<longrightarrow> s = ''[REDACTED]'') \<and> sanitizeData (sanitizeData v) = sanitizeData v \<and>
   (secret_texts False v = [] \<longrightarrow> sanitizeData v = v) \<and>
   secret_texts True (sanitizeData (DObj [(''users'', DArr [DObj [(''password'', DStr p)]])])) = [p]"
proof -
  have idem: "sanitizeData (sanitizeData v) = sanitizeData v"
  proof (induction v)
    case (DObj ps)
    then show ?case by (auto simp: is_text_sanitized comp_def)
  qed simp_all
  have same: "secret_texts False v = [] \<Longrightarrow> sanitizeData v = v"
  proof (induction v)
    case (DObj ps)
    have "(k, if is_secret k \<and> is_text (sanitizeData v) then DStr ''[REDACTED]'' else sanitizeData v) = (k, v)" if kv: "(k, v) \<in> set ps" for k v
    proof -
      have none: "(if is_secret k then (case v of DStr s \<Rightarrow> [s] | _ \<Rightarrow> []) else []) @ secret_texts False v = []"
        using DObj.prems kv by (fastforce simp: comp_def)
      then have "sanitizeData v = v" using DObj.IH kv by fastforce
      moreover have "\<not> (is_secret k \<and> is_text v)" using none by (auto simp: is_text_def split: jdoc.splits)
      ultimately show ?thesis by auto
    qed
    then show ?case by (auto intro!: map_idI simp: comp_def)
  qed simp_all
  have "is_secret ''password''" "\<not> is_secret ''users''" by code_simp+
  then show ?thesis using sanitized_secrets idem same by (simp add: is_text_def)
qed

subsection \<open>Metrics\<close>

text \<open>The counters, gauges and histograms of prom-client: the name and the labels each is declared with.\<close>

definition counter_table :: "(string \<times> string list) list" where
  "counter_table = [(''results_ingested_total'', [''agent_id'']), (''results_completed_total'', [''agent_id'']), (''results_failed_dlq_total'', [''agent_id'']),
     (''delivery_attempts_total'', [''destination_type'']), (''delivery_completed_total'', [''destination_type'']),
     (''delivery_failed_total'', [''destination_type'', ''error_code'']), (''delivery_moved_to_dlq_total'', [''destination_type'']),
     (''retry_scheduled_total'', [''retry_count'']), (''retry_exhausted_total'', [''destination_type'']), (''worker_crashes_total'', [''queue_name'']),
     (''circuit_breaker_opened_total'', [''destination_id'']), (''circuit_breaker_closed_total'', [''destination_id'']), (''auth_success_total'', [''auth_type'']),
     (''auth_failure_total'', [''auth_type'', ''reason'']), (''validation_success_total'', []), (''validation_failure_total'', []), (''rate_limit_hits_total'', []),
     (''rate_limit_violations_total'', [])]"

type_synonym labels = "(string \<times> string) list"
type_synonym samples = "string \<times> labels \<Rightarrow> rat"

text \<open>\<open>inc(labels, count)\<close> of prom-client: a label that is not declared or a negative count throws.\<close>

definition counter_inc :: "string \<Rightarrow> rat \<Rightarrow> labels \<Rightarrow> samples \<Rightarrow> samples option" where
  "counter_inc name n ls m = (case map_of counter_table name of None \<Rightarrow> None
     | Some declared \<Rightarrow> if set (map fst ls) \<subseteq> set declared \<and> 0 \<le> n then Some (m((name, ls) := m (name, ls) + n)) else None)"

text \<open>The methods of \<open>CounterMetrics\<close>, each with the counter it increments.\<close>

definition counter_methods :: "(string \<times> string) list" where
  "counter_methods = [(''incrementResultsIngested'', ''results_ingested_total''), (''incrementResultsCompleted'', ''results_completed_total''),
     (''incrementResultsFailedDlq'', ''results_failed_dlq_total''), (''incrementDeliveryAttempts'', ''delivery_attempts_total''),
     (''incrementDeliveryCompleted'', ''delivery_completed_total''), (''incrementDeliveryFailed'', ''delivery_failed_total''),
     (''incrementDeliveryMovedToDlq'', ''delivery_moved_to_dlq_total''), (''incrementRetryScheduled'', ''retry_scheduled_total''),
     (''incrementRetryExhausted'', ''retry_exhausted_total''), (''incrementWorkerCrashes'', ''worker_crashes_total''),
     (''incrementCircuitBreakerOpened'', ''circuit_breaker_opened_total''), (''incrementCircuitBreakerClosed'', ''circuit_breaker_closed_total''),
     (''incrementAuthSuccess'', ''auth_success_total''), (''incrementAuthFailure'', ''auth_failure_total''), (''incrementValidationSuccess'', ''validation_success_total''),
     (''incrementValidationFailure'', ''validation_failure_total''), (''incrementRateLimitHits'', ''rate_limit_hits_total''),
     (''incrementRateLimitViolations'', ''rate_limit_violations_total'')]"

definition count_up :: "string \<Rightarrow> rat option \<Rightarrow> labels option \<Rightarrow> samples \<Rightarrow> samples option" where
  "count_up method_name n ls m = (case map_of counter_methods method_name of None \<Rightarrow> None | Some name \<Rightarrow> counter_inc name (nullish_or n 1) (nullish_or ls []) m)"

definition setQueueDepth :: "string \<Rightarrow> rat \<Rightarrow> samples \<Rightarrow> samples" where
  "setQueueDepth queueName depth m = (if queueName = ''main'' then m((''queue_depth_main'', []) := depth)
     else if queueName = ''delayed'' then m((''queue_depth_delayed'', []) := depth)
     else if queueName = ''dlq'' then m((''queue_depth_dlq'', []) := depth, (''dlq_size'', []) := depth) else m)"

definition setWorkerCount :: "rat \<Rightarrow> rat \<Rightarrow> samples \<Rightarrow> samples" where
  "setWorkerCount n active m = m((''worker_count'', []) := n, (''active_workers'', []) := active)"

definition breaker_states :: "string list" where
  "breaker_states = [''closed'', ''open'', ''half-open'']"

definition setCircuitBreakerState :: "string \<Rightarrow> string \<Rightarrow> samples \<Rightarrow> samples" where
  "setCircuitBreakerState destinationId state m =
     fold (\<lambda>s m. m((''circuit_breaker_state'', [(''destination_id'', destinationId), (''state'', s)]) := (if s = state then 1 else 0))) breaker_states m"

definition setPoolUtilization :: "string \<Rightarrow> rat \<Rightarrow> samples \<Rightarrow> samples" where
  "setPoolUtilization poolName utilization m = m((''bulkhead_pool_utilization'', [(''pool_name'', poolName)]) := utilization)"

definition setDatabaseConnections :: "rat \<Rightarrow> rat \<Rightarrow> samples \<Rightarrow> samples" where
  "setDatabaseConnections active idle m = m((''database_connections_active'', []) := active, (''database_connections_idle'', []) := idle)"

definition setRedisConnections :: "rat \<Rightarrow> rat \<Rightarrow> samples \<Rightarrow> samples" where
  "setRedisConnections active idle m = m((''redis_connections_active'', []) := active, (''redis_connections_idle'', []) := idle)"

definition breaker_sample :: "string \<Rightarrow> string \<Rightarrow> samples \<Rightarrow> rat" where
  "breaker_sample d s m = m (''circuit_breaker_state'', [(''destination_id'', d), (''state'', s)])"

text \<open>A method of the counters raises its own counter by what it is given, at the labels it is given, and touches no other; every method has a counter, and no two share one.
  The gauge of a circuit breaker is 1 for the state that was set last and 0 for the other two, for each destination apart; a state spelt otherwise
  leaves all three at 0.\<close>
theorem metrics_show_what_was_recorded:
  assumes "count_up method_name n ls m = Some m'"
  shows "(\<exists>name. map_of counter_methods method_name = Some name \<and> m' = m((name, nullish_or ls []) := m (name, nullish_or ls []) + nullish_or n 1) \<and>
       (\<forall>other. map_of counter_methods other = Some name \<longrightarrow> other = method_name)) \<and>
    (\<forall>x. m x \<le> m' x) \<and>
    breaker_sample d s (setCircuitBreakerState d state m) = (if s \<in> set breaker_states then if s = state then 1 else 0 else breaker_sample d s m) \<and>
    (d' \<noteq> d \<longrightarrow> breaker_sample d' s (setCircuitBreakerState d state m) = breaker_sample d' s m)"
proof -
  obtain name where name: "map_of counter_methods method_name = Some name" "counter_inc name (nullish_or n 1) (nullish_or ls []) m = Some m'"
    using assms by (auto simp: count_up_def split: option.splits)
  then have m': "m' = m((name, nullish_or ls []) := m (name, nullish_or ls []) + nullish_or n 1)" "0 \<le> nullish_or n 1"
    by (auto simp: counter_inc_def split: option.splits if_splits)
  have "distinct (map snd counter_methods)" by code_simp
  then have "other = method_name" if "map_of counter_methods other = Some name" for other
    using map_of_SomeD [OF that] map_of_SomeD [OF name(1)] unfolding distinct_map inj_on_def by fastforce
  moreover have "breaker_sample d s (setCircuitBreakerState d state m) = (if s \<in> set breaker_states then if s = state then 1 else 0 else breaker_sample d s m)"
    by (simp add: breaker_sample_def setCircuitBreakerState_def breaker_states_def)
  moreover have "d' \<noteq> d \<longrightarrow> breaker_sample d' s (setCircuitBreakerState d state m) = breaker_sample d' s m"
    by (simp add: breaker_sample_def setCircuitBreakerState_def breaker_states_def)
  moreover have "m x \<le> m' x" for x using m' by simp
  ultimately show ?thesis using name(1) m'(1) by blast
qed

theorem metrics_show_what_was_recorded_witness:
  "\<exists>m'. count_up ''incrementAuthFailure'' None (Some [(''reason'', ''expired'')]) (\<lambda>x. 0) = Some m' \<and> m' (''auth_failure_total'', [(''reason'', ''expired'')]) = 1"
proof -
  have c: "map_of counter_methods ''incrementAuthFailure'' = Some ''auth_failure_total''" "map_of counter_table ''auth_failure_total'' = Some [''auth_type'', ''reason'']"
    by code_simp+
  then obtain m' where m': "count_up ''incrementAuthFailure'' None (Some [(''reason'', ''expired'')]) (\<lambda>x. 0) = Some m'"
    by (simp add: count_up_def counter_inc_def nullish_or_def)
  have "nullish_or (Some [(''reason'', ''expired'')]) [] = [(''reason'', ''expired'')]" "nullish_or None (1::rat) = 1" by (simp_all add: nullish_or_def)
  moreover obtain name where "map_of counter_methods ''incrementAuthFailure'' = Some name"
      "m' = (\<lambda>x. 0)((name, nullish_or (Some [(''reason'', ''expired'')]) []) := 0 + nullish_or None 1)"
    using metrics_show_what_was_recorded [OF m'] by blast
  ultimately have "m' (''auth_failure_total'', [(''reason'', ''expired'')]) = 1" unfolding c(1) by simp
  then show ?thesis using m' by blast
qed

text \<open>\<open>HistogramMetrics\<close>: the value that is observed. Four of the six methods turn milliseconds into seconds.\<close>

definition histogram_methods :: "(string \<times> string \<times> rat) list" where
  "histogram_methods = [(''recordDeliveryLatency'', ''delivery_latency_seconds'', 1000), (''recordIngestionLatency'', ''ingestion_latency_seconds'', 1000),
     (''recordRetryDelay'', ''retry_delay_seconds'', 1000), (''recordRecoveryDuration'', ''recovery_duration_seconds'', 1000),
     (''recordAuthLatency'', ''auth_latency_ms'', 1), (''recordValidationLatency'', ''validation_latency_ms'', 1)]"

definition histogram_buckets :: "(string \<times> rat list) list" where
  "histogram_buckets = [(''delivery_latency_seconds'', [1 / 10, 1 / 2, 1, 5 / 2, 5, 10]), (''ingestion_latency_seconds'', [1 / 100, 1 / 20, 1 / 10, 1 / 2, 1, 5]),
     (''retry_delay_seconds'', [1, 5, 10, 30, 60, 300]), (''recovery_duration_seconds'', [1 / 10, 1 / 2, 1, 5, 10, 60]),
     (''auth_latency_ms'', [1, 5, 10, 25, 50, 100, 250, 500]), (''validation_latency_ms'', [1 / 2, 1, 5 / 2, 5, 10, 25, 50])]"

definition record_latency :: "string \<Rightarrow> rat \<Rightarrow> (string \<Rightarrow> rat list) \<Rightarrow> string \<Rightarrow> rat list" where
  "record_latency method_name ms h = (case map_of histogram_methods method_name of None \<Rightarrow> h | Some (name, unit) \<Rightarrow> h(name := h name @ [ms / unit]))"

text \<open>The cumulative count of a bucket.\<close>

definition bucket_count :: "rat \<Rightarrow> rat list \<Rightarrow> nat" where
  "bucket_count le vs = length (filter (\<lambda>v. v \<le> le) vs)"

text \<open>\<open>Gauge\<close> on top of an up-down counter of OpenTelemetry, which keeps a number for each set of attributes. The gauge itself keeps one.\<close>

record otel_gauge =
  og_current :: rat
  og_meter :: "labels \<Rightarrow> rat"

definition gauge_start :: otel_gauge where
  "gauge_start = \<lparr> og_current = 0, og_meter = (\<lambda>a. 0) \<rparr>"

definition gauge_set :: "rat \<Rightarrow> labels \<Rightarrow> otel_gauge \<Rightarrow> otel_gauge" where
  "gauge_set v a g = \<lparr> og_current = v, og_meter = (og_meter g)(a := og_meter g a + (v - og_current g)) \<rparr>"

definition gauge_up :: "labels \<Rightarrow> otel_gauge \<Rightarrow> otel_gauge" where
  "gauge_up a g = \<lparr> og_current = og_current g + 1, og_meter = (og_meter g)(a := og_meter g a + 1) \<rparr>"

definition gauge_down :: "labels \<Rightarrow> otel_gauge \<Rightarrow> otel_gauge" where
  "gauge_down a g = \<lparr> og_current = og_current g - 1, og_meter = (og_meter g)(a := og_meter g a - 1) \<rparr>"

definition gauge_getValue :: "otel_gauge \<Rightarrow> rat" where
  "gauge_getValue g = og_current g"

datatype gauge_op = GSet rat labels | GUp labels | GDown labels

fun gauge_run :: "gauge_op list \<Rightarrow> otel_gauge \<Rightarrow> otel_gauge" where
  "gauge_run [] g = g"
| "gauge_run (GSet v a # ops) g = gauge_run ops (gauge_set v a g)"
| "gauge_run (GUp a # ops) g = gauge_run ops (gauge_up a g)"
| "gauge_run (GDown a # ops) g = gauge_run ops (gauge_down a g)"

primrec op_labels :: "gauge_op \<Rightarrow> labels" where
  "op_labels (GSet v a) = a"
| "op_labels (GUp a) = a"
| "op_labels (GDown a) = a"

definition gauge_total :: "labels set \<Rightarrow> otel_gauge \<Rightarrow> rat" where
  "gauge_total as g = (\<Sum>a \<in> as. og_meter g a)"

lemma gauge_run_total:
  assumes "finite as" "\<forall>p \<in> set ops. op_labels p \<in> as" "gauge_total as g = og_current g"
  shows "gauge_total as (gauge_run ops g) = og_current (gauge_run ops g)"
  using assms
proof (induction ops g rule: gauge_run.induct)
  case (2 v a ops g)
  then have "gauge_total as (gauge_set v a g) = og_current (gauge_set v a g)"
    by (simp add: gauge_total_def gauge_set_def sum.remove [of as a])
  then show ?case using 2 by simp
next
  case (3 a ops g)
  then have "gauge_total as (gauge_up a g) = og_current (gauge_up a g)"
    by (simp add: gauge_total_def gauge_up_def sum.remove [of as a])
  then show ?case using 3 by simp
next
  case (4 a ops g)
  then have "gauge_total as (gauge_down a g) = og_current (gauge_down a g)"
    by (simp add: gauge_total_def gauge_down_def sum.remove [of as a])
  then show ?case using 4 by simp
qed simp

text \<open>Used with one set of attributes, a gauge exports what it was last set to. Used with several, only the sum over all of them agrees with the
  last value: each set shows the difference to what was set before for any other, so that two values set for two attributes are exported as
  the first and the second less the first.\<close>
theorem gauges_export_their_value:
  assumes "finite as" "\<forall>p \<in> set ops. op_labels p \<in> as" "g = gauge_run ops gauge_start"
  shows "gauge_total as g = gauge_getValue g \<and> (as = {a} \<longrightarrow> og_meter g a = gauge_getValue g) \<and>
    (b \<noteq> c \<longrightarrow> og_meter (gauge_run [GSet x b, GSet y c] gauge_start) c = y - x)"
proof -
  have "gauge_total as gauge_start = og_current gauge_start" by (simp add: gauge_total_def gauge_start_def)
  from gauge_run_total [OF assms(1,2) this] show ?thesis by (auto simp: assms(3) gauge_getValue_def gauge_total_def gauge_set_def gauge_start_def)
qed

theorem gauges_export_their_value_witness:
  "og_meter (gauge_run [GSet 5 [], GUp [], GSet 2 []] gauge_start) [] = 2"
  using gauges_export_their_value [of "{[]}" "[GSet 5 [], GUp [], GSet 2 []]" _ "[]" "[]" "[]"] by (simp add: gauge_getValue_def gauge_set_def gauge_up_def)

text \<open>\<open>MetricsRegistry\<close>: the metrics of each kind by name, and all of them by name, where a name used for two kinds shows the last.\<close>

datatype metric_kind = KCounter | KGauge | KHistogram

record metrics_registry =
  mr_kinds :: "metric_kind \<Rightarrow> string set"
  mr_all :: "(string, metric_kind) js_map"

definition registry_start :: metrics_registry where
  "registry_start = \<lparr> mr_kinds = (\<lambda>k. {}), mr_all = [] \<rparr>"

definition registry_register :: "metric_kind \<Rightarrow> string \<Rightarrow> metrics_registry \<Rightarrow> metrics_registry" where
  "registry_register kind name r = \<lparr> mr_kinds = (mr_kinds r)(kind := insert name (mr_kinds r kind)), mr_all = mset_at name kind (mr_all r) \<rparr>"

definition registry_get :: "metric_kind \<Rightarrow> string \<Rightarrow> metrics_registry \<Rightarrow> metrics_registry" where
  "registry_get kind name r = (if name \<in> mr_kinds r kind then r else registry_register kind name r)"

definition registry_shutdown :: "metrics_registry \<Rightarrow> metrics_registry" where
  "registry_shutdown r = registry_start"

subsection \<open>Attributes of spans\<close>

definition getIngestionSpanAttributes :: "string \<Rightarrow> string \<Rightarrow> string \<Rightarrow> rat \<Rightarrow> rat option \<Rightarrow> string option \<Rightarrow> rat option \<Rightarrow> rat option \<Rightarrow> rat option \<Rightarrow> (string, jdoc) js_map" where
  "getIngestionSpanAttributes emailId agentId agentVersion confidenceScore destinationCount llmModel tokensIn tokensOut latency =
     [(''operation'', DStr ''ingest_result''), (''email_id'', DStr emailId), (''agent_id'', DStr agentId), (''agent_version'', DStr agentVersion),
      (''confidence_score'', DNum confidenceScore), (''destination_count'', DNum (nullish_or destinationCount 0)), (''llm_model'', DStr (nullish_or llmModel ''N/A'')),
      (''llm_tokens_input'', DNum (nullish_or tokensIn 0)), (''llm_tokens_output'', DNum (nullish_or tokensOut 0)), (''llm_latency_ms'', DNum (nullish_or latency 0))]"

definition getProcessingSpanAttributes :: "string \<Rightarrow> string \<Rightarrow> string \<Rightarrow> rat \<Rightarrow> rat option \<Rightarrow> rat option \<Rightarrow> (string, jdoc) js_map" where
  "getProcessingSpanAttributes deliveryId destinationId destinationType attemptNumber responseStatus responseTimeMs =
     [(''operation'', DStr ''process_delivery''), (''delivery_id'', DStr deliveryId), (''destination_id'', DStr destinationId), (''destination_type'', DStr destinationType),
      (''attempt_number'', DNum attemptNumber), (''response_status'', DNum (nullish_or responseStatus 0)), (''response_time_ms'', DNum (nullish_or responseTimeMs 0))]"

definition getRetrySpanAttributes :: "string \<Rightarrow> rat \<Rightarrow> rat \<Rightarrow> string \<Rightarrow> (string, jdoc) js_map" where
  "getRetrySpanAttributes deliveryId retryCount backoffMs nextRetryAt = [(''operation'', DStr ''schedule_retry''), (''delivery_id'', DStr deliveryId),
     (''retry_count'', DNum retryCount), (''backoff_ms'', DNum backoffMs), (''next_retry_at'', DStr nextRetryAt)]"

definition getRecoverySpanAttributes :: "rat \<Rightarrow> rat \<Rightarrow> (string, jdoc) js_map" where
  "getRecoverySpanAttributes jobsRecovered durationMs = [(''operation'', DStr ''recover_stale_jobs''), (''jobs_recovered'', DNum jobsRecovered), (''duration_ms'', DNum durationMs)]"

definition getCircuitBreakerSpanAttributes :: "string \<Rightarrow> string \<Rightarrow> rat option \<Rightarrow> (string, jdoc) js_map" where
  "getCircuitBreakerSpanAttributes destinationId state failureRate = [(''operation'', DStr ''circuit_breaker_check''), (''destination_id'', DStr destinationId),
     (''state'', DStr state), (''failure_rate'', DNum (nullish_or failureRate 0))]"

text \<open>\<open>SpanFactory\<close>: the attributes a span starts with. The standard ones are added only when the factory has a tracer; those given win.\<close>

definition span_attributes :: "bool \<Rightarrow> string option \<Rightarrow> (string, jdoc) js_map \<Rightarrow> (string, jdoc) js_map" where
  "span_attributes hasTracer nodeEnv attributes = (if hasTracer
     then spread_map [(''service.name'', DStr ''queueforge''), (''service.version'', DStr ''1.0.0''), (''environment'', DStr (str_or nodeEnv ''development''))] attributes
     else attributes)"

datatype span_call = RecordException string | SetStatus string | EndSpan

text \<open>\<open>endSpan\<close>: what is called on a span that has the methods; the status ERROR with the message for an error, otherwise the status given.\<close>

definition span_end :: "string option \<Rightarrow> string option \<Rightarrow> span_call list" where
  "span_end status error_message = (case error_message of Some m \<Rightarrow> [RecordException m, SetStatus (''ERROR: '' @ m)]
     | None \<Rightarrow> (case status of Some s \<Rightarrow> [SetStatus s] | None \<Rightarrow> [])) @ [EndSpan]"

subsection \<open>Log levels and the audit repository\<close>

datatype log_threshold = L_DEBUG | L_INFO | L_WARN | L_ERROR

definition getLogLevel :: "string \<Rightarrow> log_threshold" where
  "getLogLevel env = (let e = lower (trim env) in if e = ''development'' \<or> e = ''dev'' \<or> e = ''local'' then L_DEBUG else if e = ''test'' then L_WARN else L_INFO)"

text \<open>\<open>getStats\<close> of the repository adapter without statistics of its own: the first page of at most 1000 rows, whose first and last it takes for the oldest and the newest.\<close>

definition adapter_getStats :: "(string \<times> ms) list \<Rightarrow> nat \<times> (string, nat) js_map \<times> ms \<times> ms" where
  "adapter_getStats page = (if page = [] then (0, [], 0, 0)
     else (length page, fold (\<lambda>(t, _). count_key t) page [], snd (hd page), snd (last page)))"

end
