(* ===== verification/QF_Frontend.thy ===== *)
theory QF_Frontend
  imports QF_Api
begin

text \<open>
  The browser client (\<open>frontend/src\<close>): what its service asks of the interface and what it shows of the answers, and the state of the pages
  that search deliveries and manage the dead letter queue.

  An answer is \<open>None\<close> for a request that fails (the code turns every failure into \<open>null\<close>) and the body otherwise, with the fields that
  are read as optional ones; \<open>undefined\<close> is \<open>None\<close>. A page is the record of its state; a handler works on the state of the rendering it was made in,
  as a closure does, and answers arrive later, in any order. Layout and styles are left out. Shown: what can be seen on the pages
  whatever the program answers.
\<close>

subsection \<open>The overview\<close>

record dashboard_overview =
  ov_totalJobsProcessed :: "rat option"
  ov_systemStatus :: "jdoc option"
  ov_uptimePercent :: "rat option"
  ov_activeIncidents :: "rat option"

record dashboard_queue =
  dq_completed :: "rat option"
  dq_failed :: "rat option"
  dq_waiting :: "rat option"
  dq_active :: "rat option"

definition no_overview :: dashboard_overview where
  "no_overview = \<lparr> ov_totalJobsProcessed = None, ov_systemStatus = None, ov_uptimePercent = None, ov_activeIncidents = None \<rparr>"

definition no_queue :: dashboard_queue where
  "no_queue = \<lparr> dq_completed = None, dq_failed = None, dq_waiting = None, dq_active = None \<rparr>"

record SystemHealth =
  sh_totalJobsProcessed :: rat
  sh_successRate :: rat
  sh_failedJobs :: rat
  sh_queueDepth :: rat
  sh_activeWorkers :: int
  sh_systemStatus :: string
  sh_uptimePercent :: rat
  sh_activeIncidents :: rat
  sh_lastUpdated :: string
  sh_checks :: "jdoc option"

definition fallback_health :: "ms \<Rightarrow> SystemHealth" where
  "fallback_health now = \<lparr> sh_totalJobsProcessed = 14520, sh_successRate = 9985 / 100, sh_failedJobs = 12, sh_queueDepth = 4, sh_activeWorkers = 3,
     sh_systemStatus = ''healthy'', sh_uptimePercent = 9998 / 100, sh_activeIncidents = 0, sh_lastUpdated = toISOString now, sh_checks = None \<rparr>"

text \<open>\<open>healthData.status || overview.systemStatus || 'healthy'\<close>; \<open>toLowerCase\<close> of anything but a text throws.\<close>

definition raw_status :: "jdoc option \<Rightarrow> jdoc option \<Rightarrow> string option" where
  "raw_status a b = (case if doc_truthy a then a else if doc_truthy b then b else Some (DStr ''healthy'') of Some (DStr s) \<Rightarrow> Some (lower s) | _ \<Rightarrow> None)"

definition shown_status :: "string \<Rightarrow> string" where
  "shown_status raw = (if raw = ''healthy'' \<or> raw = ''ok'' then ''healthy'' else if raw = ''degraded'' then ''degraded'' else ''healthy'')"

definition fe_getSystemHealth :: "ms \<Rightarrow> (dashboard_overview option \<times> dashboard_queue option) option \<Rightarrow> jdoc option \<Rightarrow> SystemHealth" where
  "fe_getSystemHealth now dash health =
     (let overview = nullish_or (Option.bind dash fst) no_overview; queueStats = nullish_or (Option.bind dash snd) no_queue;
          healthData = (case health of Some d \<Rightarrow> if doc_truthy health then d else DObj [] | None \<Rightarrow> DObj []);
          totalProcessed = rat_or (ov_totalJobsProcessed overview) (rat_or (Some (rat_or (dq_completed queueStats) 0 + rat_or (dq_failed queueStats) 0)) 14520);
          failed = nullish_or (dq_failed queueStats) 12; completed = nullish_or (dq_completed queueStats) (totalProcessed - failed);
          totalAttempted = completed + failed;
          successRate = (if 0 < totalAttempted then completed / totalAttempted * 100 else 9985 / 100) in
      case raw_status (doc_get healthData ''status'') (ov_systemStatus overview) of None \<Rightarrow> fallback_health now
      | Some raw \<Rightarrow> \<lparr> sh_totalJobsProcessed = totalProcessed, sh_successRate = min 100 (max 0 successRate), sh_failedJobs = failed,
          sh_queueDepth = rat_or (Some (rat_or (dq_waiting queueStats) 0 + rat_or (dq_active queueStats) 0)) 8, sh_activeWorkers = 3,
          sh_systemStatus = shown_status raw, sh_uptimePercent = rat_or (ov_uptimePercent overview) (9998 / 100),
          sh_activeIncidents = rat_or (ov_activeIncidents overview) 0, sh_lastUpdated = toISOString now, sh_checks = doc_get healthData ''checks'' \<rparr>)"

text \<open>The chart over 24 hours; \<open>rnd\<close> is \<open>Math.random\<close>, three calls for each point, and \<open>hours\<close> reads a time on the local clock.\<close>

record JobTimeSeriesPoint =
  ts_timestamp :: string
  ts_completed :: int
  ts_failed :: int
  ts_pending :: int

definition two_digits :: "nat \<Rightarrow> string" where
  "two_digits n = (if n < 10 then CHR ''0'' # show_nat n else show_nat n)"

definition fe_getTimeSeriesData :: "(ms \<Rightarrow> nat) \<Rightarrow> (nat \<Rightarrow> rat) \<Rightarrow> ms \<Rightarrow> JobTimeSeriesPoint list" where
  "fe_getTimeSeriesData hours rnd now = map (\<lambda>k. \<lparr> ts_timestamp = two_digits (hours (now - (24 - int k) * 3600 * 1000)) @ '':00'',
      ts_completed = floor (500 + rnd (3 * k) * 200), ts_failed = floor (rnd (3 * k + 1) * 5), ts_pending = floor (rnd (3 * k + 2) * 15) \<rparr>) [0..<25]"

subsection \<open>The service: deliveries, dead letters, workers\<close>

text \<open>An item as the interface sends it, each field there or not.\<close>

record raw_delivery =
  rw_id :: "string option"
  rw_taskResultId :: "string option"
  rw_emailId :: "string option"
  rw_result_emailId :: "string option"
  rw_destinationId :: "string option"
  rw_destinationName :: "string option"
  rw_status :: "string option"
  rw_attemptCount :: "int option"
  rw_retryCount :: "int option"
  rw_lastError :: "string option"
  rw_errorCategory :: "string option"
  rw_createdAt :: "string option"
  rw_updatedAt :: "string option"
  rw_completedAt :: "string option"

record DeliveryAttempt =
  at_id :: string
  at_deliveryId :: string
  at_attemptNumber :: int
  at_responseStatus :: "int option"
  at_responseTimeMs :: int
  at_errorMessage :: "string option"
  at_timestamp :: string

record TaskDelivery =
  td_id :: string
  td_taskResultId :: string
  td_emailId :: string
  td_destinationId :: string
  td_destinationName :: string
  td_status :: string
  td_attemptCount :: int
  td_retryCount :: "int option"
  td_lastError :: "string option"
  td_errorCategory :: "string option"
  td_createdAt :: string
  td_updatedAt :: string
  td_completedAt :: "string option"
  td_nextRetryAt :: "string option"
  td_attempts :: "DeliveryAttempt list option"

record delivery_filters =
  df_taskResultId :: "string option"
  df_emailId :: "string option"
  df_status :: "string option"

text \<open>\<open>x || undefined\<close>\<close>

definition or_undefined :: "string option \<Rightarrow> string option" where
  "or_undefined a = (case a of Some (c # s) \<Rightarrow> a | _ \<Rightarrow> None)"

text \<open>The suffixes are the random ones, for the item and for its result.\<close>

definition shown_delivery :: "ms \<Rightarrow> (string \<times> string) \<times> raw_delivery \<Rightarrow> TaskDelivery" where
  "shown_delivery now = (\<lambda>((suffix, suffix'), i).
     \<lparr> td_id = str_or (rw_id i) (''del-'' @ suffix), td_taskResultId = str_or (rw_taskResultId i) (''tr-'' @ suffix'),
       td_emailId = str_or (rw_emailId i) (str_or (rw_result_emailId i) ''user@example.com''),
       td_destinationId = str_or (rw_destinationId i) ''dest-webhook-01'', td_destinationName = str_or (rw_destinationName i) ''OneInbox Webhook Target'',
       td_status = str_or (rw_status i) ''COMPLETED'',
       td_attemptCount = (case rw_retryCount i of Some n \<Rightarrow> n + 1 | None \<Rightarrow> num_or (rw_attemptCount i) 1), td_retryCount = Some (num_or (rw_retryCount i) 0),
       td_lastError = or_undefined (rw_lastError i), td_errorCategory = or_undefined (rw_errorCategory i),
       td_createdAt = str_or (rw_createdAt i) (toISOString now), td_updatedAt = str_or (rw_updatedAt i) (toISOString now),
       td_completedAt = or_undefined (rw_completedAt i), td_nextRetryAt = None, td_attempts = None \<rparr>)"

definition fe_filter :: "delivery_filters \<Rightarrow> TaskDelivery list \<Rightarrow> TaskDelivery list" where
  "fe_filter f ds =
     (let given = (\<lambda>a p ds. case or_undefined a of None \<Rightarrow> ds | Some s \<Rightarrow> filter (p s) ds) in
      given (df_status f) (\<lambda>s d. s = ''ALL'' \<or> td_status d = s)
       (given (df_emailId f) (\<lambda>s d. includes_str (lower (td_emailId d)) (lower s))
         (given (df_taskResultId f) (\<lambda>s d. includes_str (lower (td_taskResultId d)) (lower s)) ds)))"

definition sample_delivery :: "string \<Rightarrow> string \<Rightarrow> string \<Rightarrow> string \<Rightarrow> string \<Rightarrow> string \<Rightarrow> int \<Rightarrow> ms \<Rightarrow> ms \<Rightarrow> TaskDelivery" where
  "sample_delivery i tr email dest name status attempts created updated =
     \<lparr> td_id = i, td_taskResultId = tr, td_emailId = email, td_destinationId = dest, td_destinationName = name, td_status = status,
       td_attemptCount = attempts, td_retryCount = None, td_lastError = None, td_errorCategory = None, td_createdAt = toISOString created,
       td_updatedAt = toISOString updated, td_completedAt = None, td_nextRetryAt = None, td_attempts = None \<rparr>"

definition sampleDeliveries :: "ms \<Rightarrow> TaskDelivery list" where
  "sampleDeliveries now =
    [(sample_delivery ''del-9f8a7b6c-1111-4444-8888-000000000001'' ''tr-551ce6b2-0acb-4eb1-b0ae-11edaff71d55'' ''escalation@customer-support.io''
        ''dest-webhook-primary'' ''Webhook API Endpoint (Primary)'' ''COMPLETED'' 1 (now - 120000) (now - 118000))\<lparr> td_completedAt := Some (toISOString (now - 118000)) \<rparr>,
     (sample_delivery ''del-9f8a7b6c-2222-4444-8888-000000000002'' ''tr-882df7c3-1bda-4ca2-91cf-22febgg82e66'' ''finance-alerts@enterprise.com''
        ''dest-db-audit'' ''PostgreSQL Audit DB Connector'' ''COMPLETED'' 1 (now - 300000) (now - 298000))\<lparr> td_completedAt := Some (toISOString (now - 298000)) \<rparr>,
     (sample_delivery ''del-9f8a7b6c-3333-4444-8888-000000000003'' ''tr-331aa4f1-9cbb-49e0-88df-33aabff93f77'' ''devops-alerts@monitoring.net''
        ''dest-slack-webhook'' ''Slack Webhook Relay'' ''FAILED_DLQ'' 5 (now - 900000) (now - 450000))\<lparr> td_retryCount := Some 5,
        td_lastError := Some ''HTTP 503 Service Unavailable: Remote Slack endpoint down after 5 backoff attempts'', td_errorCategory := Some ''NETWORK_TIMEOUT'' \<rparr>,
     (sample_delivery ''del-9f8a7b6c-4444-4444-8888-000000000004'' ''tr-442bb5f2-0dcc-40f1-99ee-44bbcaa04f88'' ''sales-lead@crm-system.org''
        ''dest-sqs-queue'' ''AWS SQS Event Bus'' ''SCHEDULED_RETRY'' 2 (now - 60000) (now - 10000))\<lparr> td_retryCount := Some 2,
        td_lastError := Some ''HTTP 429 Rate Limit Exceeded (Retrying in 4000ms)'', td_errorCategory := Some ''RATE_LIMITED'',
        td_nextRetryAt := Some (toISOString (now + 4000)) \<rparr>,
     sample_delivery ''del-9f8a7b6c-5555-4444-8888-000000000005'' ''tr-663cc6f3-1edd-41f2-00ff-55ccdbb15f99'' ''audit-compliance@fintech.co''
        ''dest-audit-sink'' ''Compliance Audit Log'' ''PENDING'' 0 (now - 5000) (now - 5000)]"

text \<open>The body of a list: \<open>data\<close>, else \<open>items\<close>, else the body itself when it is an array. Two suffixes for each item, as many as there are.\<close>

datatype listing_body = ListObject (lb_data: "raw_delivery list option") (lb_items: "raw_delivery list option") | ListArray (lb_array: "raw_delivery list")

definition raw_items :: "listing_body \<Rightarrow> raw_delivery list" where
  "raw_items b = (case b of ListArray ds \<Rightarrow> ds | ListObject (Some ds) items \<Rightarrow> ds | ListObject None (Some ds) \<Rightarrow> ds | ListObject None None \<Rightarrow> [])"

definition fe_getDeliveries :: "(nat \<Rightarrow> string) \<Rightarrow> ms \<Rightarrow> listing_body option \<Rightarrow> delivery_filters \<Rightarrow> TaskDelivery list \<times> nat" where
  "fe_getDeliveries suffix now answer f =
     (let shown = fe_filter f (case answer of None \<Rightarrow> sampleDeliveries now
        | Some b \<Rightarrow> map (shown_delivery now) (zip (map (\<lambda>k. (suffix (2 * k), suffix (2 * k + 1))) [0..<length (raw_items b)]) (raw_items b))) in
      (shown, length shown))"

definition no_filters_given :: delivery_filters where
  "no_filters_given = \<lparr> df_taskResultId = None, df_emailId = None, df_status = None \<rparr>"

text \<open>Without an answer the first delivery of the list stands in for one that is not in it; of an empty list there is none, and its
  \<open>id\<close> cannot be read.\<close>

definition fe_getDeliveryDetails :: "(nat \<Rightarrow> string) \<Rightarrow> ms \<Rightarrow> TaskDelivery option \<Rightarrow> listing_body option \<Rightarrow> string \<Rightarrow> unit + TaskDelivery" where
  "fe_getDeliveryDetails suffix now detail answer i = (case detail of Some d \<Rightarrow> Inr d
     | None \<Rightarrow> (let ds = fst (fe_getDeliveries suffix now answer no_filters_given) in
         case (case find (\<lambda>d. td_id d = i) ds of Some d \<Rightarrow> Some d | None \<Rightarrow> (case ds of [] \<Rightarrow> None | d # _ \<Rightarrow> Some d)) of
           None \<Rightarrow> Inl ()
         | Some d \<Rightarrow> Inr (d\<lparr> td_attempts := Some [\<lparr> at_id = ''att-1'', at_deliveryId = td_id d, at_attemptNumber = 1,
             at_responseStatus = Some (if td_status d = ''COMPLETED'' then 200 else 503), at_responseTimeMs = 142, at_errorMessage = td_lastError d,
             at_timestamp = td_createdAt d \<rparr>] \<rparr>)))"

record DLQItem =
  di_item :: string
  di_deliveryId :: string
  di_taskResultId :: string
  di_emailId :: string
  di_reason :: string
  di_errorCategory :: "string option"
  di_retryCount :: int
  di_createdAt :: string
  di_lastAttemptAt :: string

definition sample_letters :: "ms \<Rightarrow> DLQItem list" where
  "sample_letters now =
    [\<lparr> di_item = ''dlq-item-1'', di_deliveryId = ''del-9f8a7b6c-3333-4444-8888-000000000003'', di_taskResultId = ''tr-331aa4f1-9cbb-49e0-88df-33aabff93f77'',
       di_emailId = ''devops-alerts@monitoring.net'', di_reason = ''HTTP 503 Service Unavailable: Slack Webhook endpoint failed 5 exponential backoff retries.'',
       di_errorCategory = Some ''NETWORK_TIMEOUT'', di_retryCount = 5, di_createdAt = toISOString (now - 900000), di_lastAttemptAt = toISOString (now - 450000) \<rparr>,
     \<lparr> di_item = ''dlq-item-2'', di_deliveryId = ''del-777a7b6c-7777-4444-8888-000000000007'', di_taskResultId = ''tr-777aa4f1-77bb-49e0-88df-77aabff93f77'',
       di_emailId = ''security-log@cyber-audit.com'',
       di_reason = ''Circuit Breaker OPEN: Webhook destination '' @ [CHR 0x22] @ ''dest-legacy-api'' @ [CHR 0x22] @ '' tripped circuit threshold (5/5 failures).'',
       di_errorCategory = Some ''CIRCUIT_BREAKER_OPEN'', di_retryCount = 5, di_createdAt = toISOString (now - 1800000), di_lastAttemptAt = toISOString (now - 900000) \<rparr>]"

definition fe_getDLQJobs :: "ms \<Rightarrow> DLQItem list option \<Rightarrow> DLQItem list" where
  "fe_getDLQJobs now answer = (case answer of Some (x # xs) \<Rightarrow> x # xs | _ \<Rightarrow> sample_letters now)"

text \<open>The two posts in order: the second is sent when the first fails. A body is empty or has a message or none.\<close>

datatype retry_answer = PostFails | EmptyBody | MessageBody "string option"

definition fe_retryDelivery :: "retry_answer \<Rightarrow> retry_answer \<Rightarrow> string \<Rightarrow> bool \<times> string" where
  "fe_retryDelivery answer admin_answer i = (case (if answer = PostFails then admin_answer else answer) of
       MessageBody m \<Rightarrow> (True, str_or m ''Delivery successfully re-queued for processing'')
     | _ \<Rightarrow> (True, ''Delivery '' @ take 8 i @ ''... successfully re-enqueued to BullMQ worker queue.''))"

record shown_worker =
  sw_id :: string
  sw_hostname :: string
  sw_online :: bool
  sw_lastHeartbeat :: string
  sw_processingCount :: int
  sw_currentJob :: "string option"
  sw_uptime :: rat
  sw_concurrency :: int

definition sample_workers :: "ms \<Rightarrow> shown_worker list" where
  "sample_workers now =
    [\<lparr> sw_id = ''worker-node-01'', sw_hostname = ''queueforge-worker-prod-az1.local'', sw_online = True, sw_lastHeartbeat = toISOString now, sw_processingCount = 1420,
       sw_currentJob = Some ''del-9f8a7b6c-4444-4444-8888-000000000004'', sw_uptime = 86400 * 35 / 10, sw_concurrency = 10 \<rparr>,
     \<lparr> sw_id = ''worker-node-02'', sw_hostname = ''queueforge-worker-prod-az2.local'', sw_online = True, sw_lastHeartbeat = toISOString (now - 2000), sw_processingCount = 1390,
       sw_currentJob = None, sw_uptime = 86400 * 35 / 10, sw_concurrency = 10 \<rparr>,
     \<lparr> sw_id = ''worker-node-03'', sw_hostname = ''queueforge-worker-daemon-leader.local'', sw_online = True, sw_lastHeartbeat = toISOString (now - 1000),
       sw_processingCount = 980, sw_currentJob = None, sw_uptime = 86400 * 12 / 10, sw_concurrency = 5 \<rparr>]"

definition fe_getWorkers :: "ms \<Rightarrow> shown_worker list option \<Rightarrow> shown_worker list" where
  "fe_getWorkers now answer = nullish_or answer (sample_workers now)"

text \<open>\<open>formatUptime\<close> of the worker page.\<close>

definition fe_formatUptime :: "rat \<Rightarrow> string" where
  "fe_formatUptime seconds = (let n = floor seconds; days = n div 86400; hours = n mod 86400 div 3600; mins = n mod 3600 div 60 in
     if 0 < days then show_int days @ ''d '' @ show_int hours @ ''h '' @ show_int mins @ ''m''
     else if 0 < hours then show_int hours @ ''h '' @ show_int mins @ ''m'' else show_int mins @ ''m'')"

subsection \<open>The pages\<close>

text \<open>\<open>DeliveryExplorer\<close>: the fields, the table, and the filters of the requests that are under way.\<close>

record explorer =
  xp_deliveries :: "TaskDelivery list"
  xp_taskResultId :: string
  xp_emailId :: string
  xp_statusFilter :: string
  xp_requests :: "delivery_filters list"

datatype explorer_event = TypesResult string | TypesEmail string | ChoosesStatus string | Submits | Resets | Arrives nat "listing_body option"

definition explorer_filters :: "explorer \<Rightarrow> delivery_filters" where
  "explorer_filters s = \<lparr> df_taskResultId = or_undefined (Some (trim (xp_taskResultId s))), df_emailId = or_undefined (Some (trim (xp_emailId s))),
     df_status = (if xp_statusFilter s \<noteq> ''ALL'' then Some (xp_statusFilter s) else None) \<rparr>"

definition loadDeliveries :: "explorer \<Rightarrow> explorer \<Rightarrow> explorer" where
  "loadDeliveries rendered s = s\<lparr> xp_requests := xp_requests s @ [explorer_filters rendered] \<rparr>"

text \<open>The effect that runs after a rendering in which the status differs from the one before.\<close>

definition status_effect :: "explorer \<Rightarrow> explorer \<Rightarrow> explorer" where
  "status_effect s s' = (if xp_statusFilter s' = xp_statusFilter s then s' else loadDeliveries s' s')"

definition handleResetFilters :: "explorer \<Rightarrow> explorer" where
  "handleResetFilters s = status_effect s (loadDeliveries s (s\<lparr> xp_taskResultId := [], xp_emailId := [], xp_statusFilter := ''ALL'' \<rparr>))"

fun explorer_step :: "(nat \<Rightarrow> string) \<Rightarrow> ms \<Rightarrow> explorer \<Rightarrow> explorer_event \<Rightarrow> explorer" where
  "explorer_step suffix now s (TypesResult t) = s\<lparr> xp_taskResultId := t \<rparr>"
| "explorer_step suffix now s (TypesEmail t) = s\<lparr> xp_emailId := t \<rparr>"
| "explorer_step suffix now s (ChoosesStatus t) = status_effect s (s\<lparr> xp_statusFilter := t \<rparr>)"
| "explorer_step suffix now s Submits = loadDeliveries s s"
| "explorer_step suffix now s Resets = handleResetFilters s"
| "explorer_step suffix now s (Arrives k answer) = (if k < length (xp_requests s)
     then s\<lparr> xp_deliveries := fst (fe_getDeliveries suffix now answer (xp_requests s ! k)), xp_requests := take k (xp_requests s) @ drop (Suc k) (xp_requests s) \<rparr> else s)"

text \<open>\<open>DLQManager\<close>: its items, the category that is chosen and the notice.\<close>

record letters_page =
  lp_items :: "DLQItem list"
  lp_category :: string
  lp_notice :: "string option"

definition fetchDLQ :: "ms \<Rightarrow> DLQItem list option \<Rightarrow> letters_page \<Rightarrow> letters_page" where
  "fetchDLQ now answer s = s\<lparr> lp_items := fe_getDLQJobs now answer \<rparr>"

definition handleRetryItem :: "ms \<Rightarrow> DLQItem list option \<Rightarrow> retry_answer \<Rightarrow> retry_answer \<Rightarrow> DLQItem \<Rightarrow> letters_page \<Rightarrow> letters_page" where
  "handleRetryItem now answer post admin_post item s = (case fe_retryDelivery post admin_post (di_deliveryId item) of (_, _) \<Rightarrow>
     fetchDLQ now answer (s\<lparr> lp_notice := Some (''DLQ item '' @ take 8 (di_deliveryId item) @ ''... successfully re-enqueued to worker queue.'') \<rparr>))"

definition handleDeleteItem :: "string \<Rightarrow> letters_page \<Rightarrow> letters_page" where
  "handleDeleteItem i s = s\<lparr> lp_items := filter (\<lambda>x. di_item x \<noteq> i) (lp_items s), lp_notice := Some ''DLQ item purged from Dead Letter Queue storage.'' \<rparr>"

definition filteredItems :: "letters_page \<Rightarrow> DLQItem list" where
  "filteredItems s = filter (\<lambda>x. lp_category s = ''ALL'' \<or> di_errorCategory x = Some (lp_category s)) (lp_items s)"

text \<open>A \<open>Set\<close> keeps the first of equal values.\<close>

definition letter_categories :: "letters_page \<Rightarrow> string list" where
  "letter_categories s = rev (remdups (rev (concat (map (\<lambda>x. case or_undefined (di_errorCategory x) of None \<Rightarrow> [] | Some c \<Rightarrow> [c]) (lp_items s)))))"

text \<open>\<open>getLineageStep\<close> of the detail view: whether a step is shown as done, and the label of the last one.\<close>

definition getLineageStep :: "TaskDelivery \<Rightarrow> string \<Rightarrow> bool \<times> string option" where
  "getLineageStep d step =
     (if step = ''created'' \<or> step = ''queued'' then (True, None)
      else if step = ''processing'' then (0 < td_attemptCount d, None)
      else if step = ''retry'' then (1 < td_attemptCount d, None)
      else if step = ''final'' then (if td_status d = ''COMPLETED'' then (True, Some ''Delivered'')
        else if td_status d = ''FAILED_DLQ'' then (True, Some ''DLQ Failed'') else (False, Some ''Pending''))
      else (False, None))"

subsection \<open>What is seen\<close>

text \<open>The requests of the page as the program's routes answer them: a refused request has no answer.\<close>

definition fetched :: "api_guards \<Rightarrow> bool \<Rightarrow> verb \<Rightarrow> string list \<Rightarrow> headers \<Rightarrow> 'a \<Rightarrow> 'a option" where
  "fetched g l v path hs body = (case dispatch g (createApiRouter True l) v path hs of Inl status \<Rightarrow> None | Inr _ \<Rightarrow> Some body)"

lemma admin_page_paths:
  assumes "p \<in> {(GET, [''api'', ''v1'', ''admin'', ''dashboard'']), (GET, [''api'', ''v1'', ''admin'', ''deliveries'', ''dlq'']),
    (GET, [''api'', ''v1'', ''admin'', ''workers'']), (POST, [''api'', ''v1'', ''admin'', ''deliveries'', ''retry''])}"
  shows "case route_for (createApiRouter True l) (fst p) (snd p) of None \<Rightarrow> admin_path (snd p) | Some r \<Rightarrow> ro_guards r = [AdminArea]"
proof -
  have "\<forall>l \<in> {True, False}. \<forall>p \<in> {(GET, [''api'', ''v1'', ''admin'', ''dashboard'']), (GET, [''api'', ''v1'', ''admin'', ''deliveries'', ''dlq'']),
    (GET, [''api'', ''v1'', ''admin'', ''workers'']), (POST, [''api'', ''v1'', ''admin'', ''deliveries'', ''retry''])}.
      case route_for (createApiRouter True l) (fst p) (snd p) of None \<Rightarrow> admin_path (snd p) | Some r \<Rightarrow> ro_guards r = [AdminArea]" by code_simp
  then show ?thesis using assms by (cases l) blast+
qed

lemma admin_pages_refused:
  assumes "(v, path) \<in> {(GET, [''api'', ''v1'', ''admin'', ''dashboard'']), (GET, [''api'', ''v1'', ''admin'', ''deliveries'', ''dlq'']),
    (GET, [''api'', ''v1'', ''admin'', ''workers'']), (POST, [''api'', ''v1'', ''admin'', ''deliveries'', ''retry''])}"
  shows "fetched g l v path hs body = None"
proof -
  have "case route_for (createApiRouter True l) v path of None \<Rightarrow> admin_path path | Some r \<Rightarrow> ro_guards r = [AdminArea]"
    using admin_page_paths [OF assms, of l] unfolding fst_conv snd_conv .
  then show ?thesis unfolding fetched_def dispatch_def
    by (cases "route_for (createApiRouter True l) v path") (simp_all only: option.case if_True run_guards.simps adminAuthMiddleware_def option.map sum.case)
qed

lemma posts_are_private: "list_all (\<lambda>r. ro_verb r = POST \<longrightarrow> ro_handler r \<notin> public_handlers) (createApiRouter True l)"
  unfolding createApiRouter_def v1_routes_def list_all_append router_defs
  by (cases l) (simp_all add: mounted_def mk_route_def public_handlers_def)

lemma route_for_in: "route_for rs v path = Some r \<Longrightarrow> r \<in> set rs \<and> ro_verb r = v"
  unfolding route_for_def by (auto simp: find_Some_iff)

text \<open>A post of a caller that is not authenticated is refused.\<close>

lemma anonymous_posts_refused:
  assumes "\<forall>a k. \<exists>e. ag_authenticate g a k = Inl e"
  shows "fetched g l POST path hs body = None"
proof (cases "dispatch g (createApiRouter True l) POST path hs")
  case (Inr ha)
  obtain h auth where ha: "ha = (h, auth)" by (cases ha)
  obtain r where r: "route_for (createApiRouter True l) POST path = Some r" "run_guards g hs (ro_guards r) None = Inr auth" "ro_handler r = h"
    using Inr unfolding ha by (auto simp: dispatch_def split: option.splits sum.splits)
  have "h \<notin> public_handlers" using route_for_in [OF r(1)] posts_are_private [of l] r(3) unfolding list_all_iff by blast
  moreover have ok: "guards_ok h (ro_guards r)" using route_for_ok [OF api_routes_ok r(1)] r(3) by (simp add: route_ok_def)
  ultimately show ?thesis
  proof (cases "admin_area h")
    case True
    then show ?thesis using ok r(2) by (simp add: guards_ok_def adminAuthMiddleware_def)
  next
    case False
    then obtain gs' where "ro_guards r = Authenticated # gs'" using guards_ok_private [OF ok] \<open>h \<notin> public_handlers\<close> by blast
    moreover obtain e where "ag_authenticate g (hs ''authorization'') (hs ''x-api-key'') = Inl e" using assms by blast
    ultimately show ?thesis using r(2) by (auto simp: authMiddleware_def split: sum.splits if_splits)
  qed
qed (simp add: fetched_def)

definition posted :: "string option option \<Rightarrow> retry_answer" where
  "posted a = (case a of None \<Rightarrow> PostFails | Some m \<Rightarrow> MessageBody m)"

lemma health_doc_status: "doc_get (health_doc db redis) ''status'' = Some (DStr (if db \<and> redis then ''healthy'' else ''unhealthy''))"
  by (simp add: health_doc_def doc_get_def Let_def)

lemma health_doc_shown: "raw_status (doc_get (health_doc db redis) ''status'') b = Some raw \<Longrightarrow> shown_status raw = ''healthy''"
  unfolding health_doc_status raw_status_def doc_truthy_def shown_status_def by (cases "db \<and> redis") (auto simp: lower_char_def)

lemma health_doc_raw: "raw_status (doc_get (health_doc db redis) ''status'') b \<noteq> None"
  unfolding health_doc_status raw_status_def doc_truthy_def by simp

text \<open>C35: What the pages show of the program as its routes are: the admin area refuses everything, so that totals, failures, queue, dead letters and
  workers are the samples of the client, whatever the program would have answered; a database or Redis that is down is shown as healthy. A
  retry by a caller that is not authenticated is refused twice and reported as done.\<close>
theorem pages_show_samples:
  assumes "h = fe_getSystemHealth now (fetched g l GET [''api'', ''v1'', ''admin'', ''dashboard''] hs dash) (Some (health_doc db redis))"
  shows "sh_totalJobsProcessed h = 14520 \<and> sh_failedJobs h = 12 \<and> sh_queueDepth h = 8 \<and> sh_systemStatus h = ''healthy'' \<and>
    fe_getDLQJobs now (fetched g l GET [''api'', ''v1'', ''admin'', ''deliveries'', ''dlq''] hs letters) = sample_letters now \<and>
    fe_getWorkers now (fetched g l GET [''api'', ''v1'', ''admin'', ''workers''] hs ws) = sample_workers now \<and>
    ((\<forall>a k. \<exists>e. ag_authenticate g a k = Inl e) \<longrightarrow>
      fst (fe_retryDelivery (posted (fetched g l POST [''api'', ''v1'', ''deliveries'', i, ''retry''] hs m))
        (posted (fetched g l POST [''api'', ''v1'', ''admin'', ''deliveries'', ''retry''] hs m')) i))"
proof -
  have none: "fetched g l GET [''api'', ''v1'', ''admin'', ''dashboard''] hs dash = None"
    "fetched g l GET [''api'', ''v1'', ''admin'', ''deliveries'', ''dlq''] hs letters = None" "fetched g l GET [''api'', ''v1'', ''admin'', ''workers''] hs ws = None"
    "fetched g l POST [''api'', ''v1'', ''admin'', ''deliveries'', ''retry''] hs m' = None"
    by (rule admin_pages_refused; blast)+
  have d: "doc_truthy (Some (health_doc db redis))" by (simp add: health_doc_def doc_truthy_def Let_def)
  obtain raw where raw: "raw_status (doc_get (health_doc db redis) ''status'') None = Some raw" using health_doc_raw by blast
  have h: "h = \<lparr> sh_totalJobsProcessed = 14520, sh_successRate = min 100 (max 0 (14508 / 14520 * 100)), sh_failedJobs = 12, sh_queueDepth = 8, sh_activeWorkers = 3,
      sh_systemStatus = shown_status raw, sh_uptimePercent = 9998 / 100, sh_activeIncidents = 0, sh_lastUpdated = toISOString now,
      sh_checks = doc_get (health_doc db redis) ''checks'' \<rparr>"
    unfolding assms none fe_getSystemHealth_def by (simp add: d raw no_overview_def no_queue_def rat_or_def nullish_or_def)
  have "(\<forall>a k. \<exists>e. ag_authenticate g a k = Inl e) \<longrightarrow> fetched g l POST [''api'', ''v1'', ''deliveries'', i, ''retry''] hs m = None"
    by (intro impI anonymous_posts_refused)
  then show ?thesis unfolding none h by (simp add: health_doc_shown [OF raw] fe_getDLQJobs_def fe_getWorkers_def nullish_or_def posted_def fe_retryDelivery_def)
qed

theorem pages_show_samples_witness:
  "sh_systemStatus (fe_getSystemHealth 0 (fetched example_guards True GET [''api'', ''v1'', ''admin'', ''dashboard''] (\<lambda>_. None) (None, None))
     (Some (health_doc False False))) = ''healthy''"
  using pages_show_samples [OF refl, of 0 example_guards True "\<lambda>_. None" "(None, None)" False False] by blast

lemma rat_or_nonzero: "d \<noteq> 0 \<Longrightarrow> rat_or a d \<noteq> 0"
  by (simp add: rat_or_def split: option.split)

text \<open>What the overview can show at all: never that the program is offline, degraded only by that very word, an empty queue as eight jobs,
  and a chart that is drawn at random.\<close>
theorem overview_is_bounded:
  assumes "\<forall>k. 0 \<le> rnd k \<and> rnd k < 1"
  shows "(let h = fe_getSystemHealth now dash health; ps = fe_getTimeSeriesData hours rnd now in
    sh_systemStatus h \<in> {''healthy'', ''degraded''} \<and> 0 \<le> sh_successRate h \<and> sh_successRate h \<le> 100 \<and>
    sh_queueDepth h \<noteq> 0 \<and> sh_totalJobsProcessed h \<noteq> 0 \<and> sh_uptimePercent h \<noteq> 0 \<and>
    length ps = 25 \<and> list_all (\<lambda>p. 500 \<le> ts_completed p \<and> ts_completed p < 700 \<and> 0 \<le> ts_failed p \<and> ts_failed p < 5 \<and>
      0 \<le> ts_pending p \<and> ts_pending p < 15) ps)"
proof -
  have r: "0 \<le> rnd k" "rnd k < 1" for k using assms by auto
  have fl: "0 \<le> \<lfloor>rnd k * n\<rfloor> \<and> \<lfloor>rnd k * n\<rfloor> < n'" if "n = of_int n'" "0 < n'" for k n n'
    using r [of k] that by (simp add: floor_less_iff)
  have c: "500 \<le> \<lfloor>500 + rnd k * 200\<rfloor> \<and> \<lfloor>500 + rnd k * 200\<rfloor> < 700" for k
    using r [of k] by (simp add: floor_less_iff le_floor_iff)
  have chart: "length (fe_getTimeSeriesData hours rnd now) = 25" "list_all (\<lambda>p. 500 \<le> ts_completed p \<and> ts_completed p < 700 \<and> 0 \<le> ts_failed p \<and> ts_failed p < 5 \<and>
      0 \<le> ts_pending p \<and> ts_pending p < 15) (fe_getTimeSeriesData hours rnd now)"
    using c fl [of 5 5] fl [of 15 15] by (simp_all add: fe_getTimeSeriesData_def list_all_iff)
  have st: "shown_status raw \<in> {''healthy'', ''degraded''}" for raw by (simp add: shown_status_def)
  have h: "sh_systemStatus h \<in> {''healthy'', ''degraded''} \<and> 0 \<le> sh_successRate h \<and> sh_successRate h \<le> 100 \<and>
    sh_queueDepth h \<noteq> 0 \<and> sh_totalJobsProcessed h \<noteq> 0 \<and> sh_uptimePercent h \<noteq> 0" if "h = fe_getSystemHealth now dash health" for h
  proof -
    define hd where "hd = (case health of Some d \<Rightarrow> if doc_truthy health then d else DObj [] | None \<Rightarrow> DObj [])"
    define ov where "ov = nullish_or (Option.bind dash fst) no_overview"
    show ?thesis
    proof (cases "raw_status (doc_get hd ''status'') (ov_systemStatus ov)")
      case None
      then have "h = fallback_health now" unfolding that fe_getSystemHealth_def Let_def hd_def ov_def by (simp only: option.case)
      then show ?thesis by (simp add: fallback_health_def)
    next
      case (Some raw)
      then show ?thesis using st [of raw] unfolding that fe_getSystemHealth_def Let_def hd_def ov_def
        by (simp only: option.case SystemHealth.select_convs) (simp add: rat_or_nonzero)
    qed
  qed
  show ?thesis using h [OF refl] chart by (simp only: Let_def simp_thms)
qed

theorem overview_is_bounded_witness:
  "length (fe_getTimeSeriesData (\<lambda>_. 7) (\<lambda>_. 1 / 2) 0) = 25 \<and> sh_queueDepth (fe_getSystemHealth 0 None None) \<noteq> 0"
  using overview_is_bounded [of "\<lambda>_. 1 / 2" 0 None None "\<lambda>_. 7"] unfolding Let_def by simp

definition shows_delivery :: "delivery_filters \<Rightarrow> TaskDelivery \<Rightarrow> bool" where
  "shows_delivery f d \<longleftrightarrow> (case or_undefined (df_taskResultId f) of None \<Rightarrow> True | Some s \<Rightarrow> includes_str (lower (td_taskResultId d)) (lower s)) \<and>
     (case or_undefined (df_emailId f) of None \<Rightarrow> True | Some s \<Rightarrow> includes_str (lower (td_emailId d)) (lower s)) \<and>
     (case or_undefined (df_status f) of None \<Rightarrow> True | Some s \<Rightarrow> s = ''ALL'' \<or> td_status d = s)"

lemma fe_filter_shows: "fe_filter f ds = filter (shows_delivery f) ds"
  unfolding fe_filter_def Let_def shows_delivery_def
  by (cases "or_undefined (df_taskResultId f)"; cases "or_undefined (df_emailId f)"; cases "or_undefined (df_status f)") (auto intro: filter_cong)

lemma no_filters_show: "shows_delivery no_filters_given d"
  by (simp add: shows_delivery_def no_filters_given_def or_undefined_def)

lemma listing_filtered:
  "fe_getDeliveries suffix now answer f = (let ds = filter (shows_delivery f) (fst (fe_getDeliveries suffix now answer no_filters_given)) in (ds, length ds))"
  unfolding fe_getDeliveries_def Let_def fe_filter_shows fst_conv by (simp add: no_filters_show)

lemma lower_case_never_shown:
  assumes "list_all (\<lambda>i. \<exists>s. rw_status i = Some s \<and> s \<noteq> [] \<and> lower s = s) (raw_items b)" "df_status f = Some t" "lower t \<noteq> t" "t \<noteq> ''ALL''"
  shows "fe_getDeliveries suffix now (Some b) f = ([], 0)"
proof -
  have t: "or_undefined (Some t) = Some t" using assms(3) by (cases t) (simp_all add: or_undefined_def)
  have "\<not> shows_delivery f (shown_delivery now (x, i))" if "i \<in> set (raw_items b)" for x i
  proof -
    obtain s where "rw_status i = Some s" "s \<noteq> []" "lower s = s" using assms(1) \<open>i \<in> _\<close> unfolding list_all_iff by blast
    then have "td_status (shown_delivery now (x, i)) = s" "s \<noteq> t" using assms(3) by (auto simp: shown_delivery_def split: prod.split)
    then show ?thesis using assms(2,4) t by (simp add: shows_delivery_def)
  qed
  then have "filter (shows_delivery f) (map (shown_delivery now) (zip xs (raw_items b))) = []" for xs
    by (auto simp: filter_empty_conv dest!: set_zip_rightD)
  then show ?thesis by (simp add: fe_getDeliveries_def fe_filter_shows Let_def)
qed

text \<open>Searching: the page shows what matches of all there is, in order, and counts that. A status is searched for in upper case; of a program that
  answers in lower case, as the mapper of deliveries does, nothing is found. Resetting the fields searches once more for what they held before,
  and that is what the table shows under the empty fields; when the status was set there are two requests, and the table shows what
  matched the old fields if that answer is the later one.\<close>
theorem searching_deliveries:
  assumes "xp_requests s = []"
    and after_def: "after = foldl (explorer_step suffix now) s"
    and all_def: "all = fst (fe_getDeliveries suffix now a no_filters_given)"
  shows "fe_getDeliveries suffix now a f = (filter (shows_delivery f) all, length (filter (shows_delivery f) all)) \<and>
    (list_all (\<lambda>i. \<exists>s. rw_status i = Some s \<and> s \<noteq> [] \<and> lower s = s) (raw_items b) \<and> df_status f = Some t \<and> lower t \<noteq> t \<and> t \<noteq> ''ALL'' \<longrightarrow>
       fe_getDeliveries suffix now (Some b) f = ([], 0)) \<and>
    xp_deliveries (after [Submits, Arrives 0 a]) = filter (shows_delivery (explorer_filters s)) all \<and>
    explorer_filters (after [Resets]) = no_filters_given \<and>
    (xp_statusFilter s = ''ALL'' \<longrightarrow> xp_requests (after [Resets, Arrives 0 a]) = [] \<and>
       xp_deliveries (after [Resets, Arrives 0 a]) = filter (shows_delivery (explorer_filters s)) all) \<and>
    (xp_statusFilter s \<noteq> ''ALL'' \<longrightarrow> xp_requests (after [Resets, Arrives 1 a, Arrives 0 a]) = [] \<and>
       xp_deliveries (after [Resets, Arrives 0 a, Arrives 0 a]) = all \<and>
       xp_deliveries (after [Resets, Arrives 1 a, Arrives 0 a]) = filter (shows_delivery (explorer_filters s)) all)"
proof -
  have none: "explorer_filters (s\<lparr> xp_taskResultId := [], xp_emailId := [], xp_statusFilter := ''ALL'', xp_requests := rs \<rparr>) = no_filters_given" for rs
    by (simp add: explorer_filters_def no_filters_given_def or_undefined_def trim_Nil)
  have one: "fst (fe_getDeliveries suffix now a f) = filter (shows_delivery f) all" for f unfolding all_def
    by (subst listing_filtered) (simp add: Let_def)
  have run: "after [x, y] = explorer_step suffix now (after [x]) y" "after [x, y, z] = explorer_step suffix now (explorer_step suffix now (after [x]) y) z" for x y z
    by (simp_all add: after_def)
  have "fe_getDeliveries suffix now a f = (filter (shows_delivery f) all, length (filter (shows_delivery f) all))"
    unfolding all_def by (subst listing_filtered) (simp add: Let_def)
  moreover have "list_all (\<lambda>i. \<exists>s. rw_status i = Some s \<and> s \<noteq> [] \<and> lower s = s) (raw_items b) \<and> df_status f = Some t \<and> lower t \<noteq> t \<and> t \<noteq> ''ALL'' \<longrightarrow>
       fe_getDeliveries suffix now (Some b) f = ([], 0)" using lower_case_never_shown by blast
  moreover have "xp_deliveries (after [Submits, Arrives 0 a]) = filter (shows_delivery (explorer_filters s)) all"
    using assms(1) one by (simp add: after_def loadDeliveries_def)
  moreover have "xp_requests (after [Resets]) = explorer_filters s # (if xp_statusFilter s = ''ALL'' then [] else [no_filters_given])"
    using assms(1) none by (simp add: after_def handleResetFilters_def status_effect_def loadDeliveries_def)
  moreover have "explorer_filters (after [Resets]) = no_filters_given"
    by (simp add: after_def handleResetFilters_def status_effect_def loadDeliveries_def)
      (simp add: explorer_filters_def no_filters_given_def or_undefined_def trim_Nil)
  moreover have "xp_statusFilter s = ''ALL'' \<longrightarrow> xp_requests (after [Resets, Arrives 0 a]) = [] \<and>
       xp_deliveries (after [Resets, Arrives 0 a]) = filter (shows_delivery (explorer_filters s)) all"
    using calculation(4) one by (simp add: run)
  moreover have "xp_statusFilter s \<noteq> ''ALL'' \<longrightarrow> xp_requests (after [Resets, Arrives 1 a, Arrives 0 a]) = [] \<and>
       xp_deliveries (after [Resets, Arrives 0 a, Arrives 0 a]) = all \<and>
       xp_deliveries (after [Resets, Arrives 1 a, Arrives 0 a]) = filter (shows_delivery (explorer_filters s)) all"
    using calculation(4) one all_def [symmetric] by (simp add: run)
  ultimately show ?thesis by blast
qed

theorem searching_deliveries_witness:
  "xp_deliveries (foldl (explorer_step (\<lambda>_. []) 0) \<lparr> xp_deliveries = [], xp_taskResultId = ''nowhere'', xp_emailId = [], xp_statusFilter = ''ALL'', xp_requests = [] \<rparr>
     [Resets, Arrives 0 (Some (ListArray []))]) = []"
proof -
  let ?s = "\<lparr> xp_deliveries = [], xp_taskResultId = ''nowhere'', xp_emailId = [], xp_statusFilter = ''ALL'', xp_requests = [] \<rparr>"
  have none: "fst (fe_getDeliveries (\<lambda>_. []) 0 (Some (ListArray [])) no_filters_given) = []"
    by (simp add: fe_getDeliveries_def fe_filter_shows raw_items_def Let_def)
  have start: "xp_requests ?s = []" "xp_statusFilter ?s = ''ALL''" by (simp_all only: explorer.select_convs)
  note reset = searching_deliveries [OF start(1) refl refl, where suffix = "\<lambda>_. []" and now = 0 and a = "Some (ListArray [])",
    THEN conjunct2, THEN conjunct2, THEN conjunct2, THEN conjunct2, THEN conjunct1, THEN mp, OF start(2), THEN conjunct2]
  show ?thesis unfolding reset none by simp
qed

text \<open>Dead letters: deleting one takes it off the page and nothing else, so that it is there again after the next fetch; a retry is announced as done
  whatever the program answers and leaves the letters as they are. Each letter with a category is shown under it and under all; the
  categories are offered once each.\<close>
theorem dead_letters_stay:
  assumes "lp_items s = fe_getDLQJobs now answer"
  shows "fetchDLQ now answer (handleDeleteItem i s) = s\<lparr> lp_notice := Some ''DLQ item purged from Dead Letter Queue storage.'' \<rparr> \<and>
    i \<notin> di_item ` set (lp_items (handleDeleteItem i s)) \<and>
    handleRetryItem now answer post admin_post x s =
      s\<lparr> lp_notice := Some (''DLQ item '' @ take 8 (di_deliveryId x) @ ''... successfully re-enqueued to worker queue.'') \<rparr> \<and>
    distinct (letter_categories s) \<and>
    (c \<noteq> [] \<and> c \<noteq> ''ALL'' \<longrightarrow> (c \<in> set (letter_categories s) \<longleftrightarrow> filteredItems (s\<lparr> lp_category := c \<rparr>) \<noteq> []) \<and>
       (\<forall>y \<in> set (lp_items s). di_errorCategory y = Some c \<longleftrightarrow> y \<in> set (filteredItems (s\<lparr> lp_category := c \<rparr>)))) \<and>
    filteredItems (s\<lparr> lp_category := ''ALL'' \<rparr>) = lp_items s"
proof -
  have given: "or_undefined a = Some c \<longleftrightarrow> a = Some c \<and> c \<noteq> []" for a c
    by (auto simp: or_undefined_def split: option.splits list.splits)
  have cat: "c \<in> set (letter_categories s) \<longleftrightarrow> (\<exists>y \<in> set (lp_items s). di_errorCategory y = Some c)" if "c \<noteq> []"
  proof -
    have "c \<in> set (letter_categories s) \<longleftrightarrow> (\<exists>y \<in> set (lp_items s). or_undefined (di_errorCategory y) = Some c)"
      by (auto simp: letter_categories_def split: option.splits) force
    then show ?thesis using given [of _ c] that by simp
  qed
  have "c \<noteq> [] \<and> c \<noteq> ''ALL'' \<longrightarrow> (c \<in> set (letter_categories s) \<longleftrightarrow> filteredItems (s\<lparr> lp_category := c \<rparr>) \<noteq> [])"
    using cat by (auto simp: filteredItems_def filter_empty_conv)
  moreover have "c \<noteq> ''ALL'' \<longrightarrow> (\<forall>y \<in> set (lp_items s). di_errorCategory y = Some c \<longleftrightarrow> y \<in> set (filteredItems (s\<lparr> lp_category := c \<rparr>)))"
    by (simp add: filteredItems_def)
  moreover have "fetchDLQ now answer (handleDeleteItem i s) = s\<lparr> lp_notice := Some ''DLQ item purged from Dead Letter Queue storage.'' \<rparr>"
    using assms by (simp add: fetchDLQ_def handleDeleteItem_def)
  moreover have "handleRetryItem now answer post admin_post x s =
      s\<lparr> lp_notice := Some (''DLQ item '' @ take 8 (di_deliveryId x) @ ''... successfully re-enqueued to worker queue.'') \<rparr>"
    using assms by (simp add: handleRetryItem_def fetchDLQ_def split: prod.split)
  moreover have "i \<notin> di_item ` set (lp_items (handleDeleteItem i s))" by (auto simp: handleDeleteItem_def)
  moreover have "distinct (letter_categories s)" by (simp add: letter_categories_def)
  moreover have "filteredItems (s\<lparr> lp_category := ''ALL'' \<rparr>) = lp_items s" by (simp add: filteredItems_def)
  ultimately show ?thesis by blast
qed

theorem dead_letters_stay_witness:
  "fetchDLQ 0 None (handleDeleteItem ''dlq-item-1'' \<lparr> lp_items = sample_letters 0, lp_category = ''ALL'', lp_notice = None \<rparr>) =
     \<lparr> lp_items = sample_letters 0, lp_category = ''ALL'', lp_notice = Some ''DLQ item purged from Dead Letter Queue storage.'' \<rparr>"
proof -
  have "sample_letters 0 = fe_getDLQJobs 0 None" by (simp add: fe_getDLQJobs_def)
  then show ?thesis
    using dead_letters_stay [of "\<lparr> lp_items = sample_letters 0, lp_category = ''ALL'', lp_notice = None \<rparr>" 0 None "''dlq-item-1''", THEN conjunct1]
    by (simp only: letters_page.select_convs letters_page.update_convs)
qed

end
