(* ===== verification/QF_Access.thy ===== *)
theory QF_Access
  imports QF_Api QF_Pipeline
begin

text \<open>
  Two other doors to the program: the guards of the older interface (\<open>infrastructure/security/auth.middleware.ts\<close>), with the check of
  delivered signatures that a receiver uses, and the guard of the unmounted admin portal (\<open>api/admin/routes\<close>) with its table of routes.

  A guard answers whether the handler is next or the status it refuses with. \<open>env\<close> is \<open>process.env\<close>; \<open>jwt_verify\<close> is the
  library's check of a token against a secret; a comparison of buffers in constant time is equality of the texts. Bodies are JSON values; \<open>JSON.stringify\<close> of
  a parsed body is the text of the value. Shown: who is let in, that what the program signs is accepted, and what the defaults open.
\<close>

subsection \<open>API keys, tokens and signatures\<close>

datatype gate = GoOn | Refuse int

definition access_api_key :: "(string \<Rightarrow> string option) \<Rightarrow> string" where
  "access_api_key env = str_or (env ''API_KEY'') ''qf_secret_api_key_12345''"

definition access_jwt_secret :: "(string \<Rightarrow> string option) \<Rightarrow> string" where
  "access_jwt_secret env = str_or (env ''JWT_SECRET'') ''super-secret-jwt-key-change-this-in-production''"

definition legacy_validateApiKey :: "(string \<Rightarrow> string option) \<Rightarrow> headers \<Rightarrow> gate" where
  "legacy_validateApiKey env hs =
     (let headerKey = str_or (hs ''x-api-key'') []; authHeader = str_or (hs ''authorization'') [];
          provided = (if headerKey \<noteq> [] then headerKey else if starts_with ''ApiKey '' authHeader then drop 7 authHeader else []) in
      if provided = [] then Refuse 401 else if access_api_key env = provided then GoOn else Refuse 403)"

definition validateJwt :: "(string \<Rightarrow> string \<Rightarrow> bool) \<Rightarrow> (string \<Rightarrow> string option) \<Rightarrow> headers \<Rightarrow> gate" where
  "validateJwt jwt_verify env hs =
     (let authHeader = str_or (hs ''authorization'') [] in
      if \<not> starts_with ''Bearer '' authHeader then Refuse 401
      else if jwt_verify (drop 7 authHeader) (access_jwt_secret env) then GoOn else Refuse 403)"

definition legacy_requireAuth :: "(string \<Rightarrow> string \<Rightarrow> bool) \<Rightarrow> (string \<Rightarrow> string option) \<Rightarrow> headers \<Rightarrow> gate" where
  "legacy_requireAuth jwt_verify env hs =
     (let authHeader = str_or (hs ''authorization'') [] in
      if str_or (hs ''x-api-key'') [] \<noteq> [] \<or> starts_with ''ApiKey '' authHeader then legacy_validateApiKey env hs
      else if starts_with ''Bearer '' authHeader then validateJwt jwt_verify env hs else Refuse 401)"

definition verifyHmacSignature :: "mac \<Rightarrow> string \<Rightarrow> json \<Rightarrow> headers \<Rightarrow> gate" where
  "verifyHmacSignature mac secret body hs =
     (let signature = str_or (hs ''x-queueforge-signature'') [] in
      if signature = [] then Refuse 401 else if signature = computeHmac mac ''sha256'' (stringify body) secret then GoOn else Refuse 403)"

definition buildAuthHeader :: "string \<Rightarrow> headers" where
  "buildAuthHeader apiKey = [''x-api-key'' \<mapsto> apiKey, ''authorization'' \<mapsto> ''ApiKey '' @ apiKey]"

subsection \<open>The admin portal\<close>

definition portal_auth :: "headers \<Rightarrow> gate" where
  "portal_auth hs = (if str_or (hs ''x-admin-key'') (str_or (hs ''authorization'') []) = [] then Refuse 401 else GoOn)"

text \<open>The routes, in order, each with the method of the controller it calls.\<close>

definition portal_routes :: "(verb \<times> segment list \<times> string) list" where
  "portal_routes =
    [(GET, [Named ''dashboard''], ''getDashboard''), (GET, [Named ''dashboard'', Named ''queue-stats''], ''getQueueStats''),
     (GET, [Named ''deliveries''], ''listDeliveries''), (GET, [Named ''deliveries'', Param], ''getDelivery''),
     (POST, [Named ''deliveries'', Param, Named ''retry''], ''retryDelivery''), (POST, [Named ''deliveries'', Named ''retry-batch''], ''retryBatch''),
     (GET, [Named ''dlq''], ''listDLQItems''), (POST, [Named ''dlq'', Param, Named ''recover''], ''recoverDLQItem''), (GET, [Named ''dlq'', Named ''analysis''], ''analyzeDLQ''),
     (GET, [Named ''workers''], ''listWorkers''), (POST, [Named ''workers'', Param, Named ''pause''], ''pauseWorker''),
     (POST, [Named ''workers'', Param, Named ''resume''], ''resumeWorker''), (GET, [Named ''daemons''], ''listDaemons''),
     (POST, [Named ''daemons'', Param, Named ''trigger''], ''triggerDaemon''), (GET, [Named ''config''], ''getConfiguration''),
     (GET, [Named ''feature-flags''], ''getFeatureFlags''), (POST, [Named ''feature-flags'', Named ''toggle''], ''toggleFeatureFlag''),
     (GET, [Named ''audit-logs''], ''listAuditLogs''), (GET, [Named ''audit-logs'', Named ''compliance-report''], ''generateComplianceReport''),
     (GET, [Named ''api-keys''], ''listApiKeys''), (POST, [Named ''api-keys''], ''createApiKey''), (DELETE, [Named ''api-keys'', Param], ''revokeApiKey''),
     (GET, [Named ''roles''], ''listRoles''), (POST, [Named ''roles''], ''createRole''), (GET, [Named ''users''], ''listUsers''), (POST, [Named ''users''], ''createUser''),
     (GET, [Named ''diagnostics'', Named ''resources''], ''getResourceUsage''), (GET, [Named ''diagnostics'', Named ''performance''], ''getPerformanceMetrics''),
     (GET, [Named ''analytics'', Named ''overview''], ''getOverview''), (POST, [Named ''exports'', Named ''deliveries''], ''exportDeliveries''),
     (GET, [Named ''exports'', Named ''status'', Param], ''getExportStatus'')]"

definition portal_dispatch :: "headers \<Rightarrow> verb \<Rightarrow> string list \<Rightarrow> gate \<times> string option" where
  "portal_dispatch hs v path = (case portal_auth hs of Refuse s \<Rightarrow> (Refuse s, None)
     | GoOn \<Rightarrow> (GoOn, map_option (\<lambda>(_, _, h). h) (find (\<lambda>(w, p, _). w = v \<and> path_matches p path) portal_routes)))"

subsection \<open>Who is let in\<close>

lemma access_key_nonempty: "access_api_key env \<noteq> []"
  by (cases "env ''API_KEY''") (auto simp: access_api_key_def)

lemma starts_with_drop: "starts_with p s \<Longrightarrow> s = p @ drop (length p) s"
  by (auto simp: starts_with_iff)

lemma given_authorization: "str_or a [] = b \<Longrightarrow> b \<noteq> [] \<Longrightarrow> a = Some b"
  by (cases a) (auto split: if_splits)

text \<open>The header that is checked, by its two forms.\<close>

lemma legacy_validateApiKey_iff:
  "legacy_validateApiKey env hs = GoOn \<longleftrightarrow> str_or (hs ''x-api-key'') [] = access_api_key env \<or>
     str_or (hs ''x-api-key'') [] = [] \<and> hs ''authorization'' = Some (''ApiKey '' @ access_api_key env)"
proof (cases "str_or (hs ''x-api-key'') [] = []")
  case True
  show ?thesis
  proof (cases "starts_with ''ApiKey '' (str_or (hs ''authorization'') [])")
    case s: True
    then obtain r where r: "str_or (hs ''authorization'') [] = ''ApiKey '' @ r" unfolding starts_with_iff by blast
    then have "hs ''authorization'' = Some (''ApiKey '' @ r)" by (rule given_authorization) simp
    then show ?thesis using True access_key_nonempty [of env] by (auto simp: legacy_validateApiKey_def Let_def)
  next
    case False
    then have "hs ''authorization'' \<noteq> Some (''ApiKey '' @ access_api_key env)" by (auto simp: starts_with_iff)
    then show ?thesis using True False access_key_nonempty [of env] by (simp add: legacy_validateApiKey_def Let_def)
  qed
next
  case False
  then show ?thesis by (auto simp: legacy_validateApiKey_def Let_def)
qed

lemma validateJwt_iff:
  "validateJwt jwt_verify env hs = GoOn \<longleftrightarrow> (\<exists>token. hs ''authorization'' = Some (''Bearer '' @ token) \<and> jwt_verify token (access_jwt_secret env))"
proof (cases "starts_with ''Bearer '' (str_or (hs ''authorization'') [])")
  case True
  then obtain r where r: "str_or (hs ''authorization'') [] = ''Bearer '' @ r" unfolding starts_with_iff by blast
  then have "hs ''authorization'' = Some (''Bearer '' @ r)" by (rule given_authorization) simp
  then show ?thesis by (auto simp: validateJwt_def Let_def)
next
  case False
  then have "hs ''authorization'' \<noteq> Some (''Bearer '' @ token)" for token by (auto simp: starts_with_iff)
  then show ?thesis using False by (simp add: validateJwt_def Let_def)
qed

text \<open>Who passes the guard: whoever sends the key, by its header or, without that, in the authorization, or else a token that verifies. Headers that
  \<open>buildAuthHeader\<close> makes pass just for that key. Without a key in the environment the key is the one that is printed in the code and sent by the browser
  client, and a token may be signed with the secret that is printed there.\<close>
theorem legacy_guard:
  shows "(legacy_requireAuth jwt_verify env hs = GoOn \<longleftrightarrow>
      str_or (hs ''x-api-key'') [] = access_api_key env \<or>
      str_or (hs ''x-api-key'') [] = [] \<and> hs ''authorization'' = Some (''ApiKey '' @ access_api_key env) \<or>
      str_or (hs ''x-api-key'') [] = [] \<and> (\<exists>token. hs ''authorization'' = Some (''Bearer '' @ token) \<and> jwt_verify token (access_jwt_secret env))) \<and>
    (legacy_requireAuth jwt_verify env (buildAuthHeader apiKey) = GoOn \<longleftrightarrow> apiKey = access_api_key env) \<and>
    access_api_key Map.empty = ''qf_secret_api_key_12345'' \<and> access_jwt_secret Map.empty = ''super-secret-jwt-key-change-this-in-production''"
proof -
  have k: "starts_with ''ApiKey '' (str_or (hs ''authorization'') []) \<longleftrightarrow> (\<exists>r. hs ''authorization'' = Some (''ApiKey '' @ r))" for hs :: headers
    unfolding starts_with_iff by (auto dest: given_authorization)
  have b: "starts_with ''Bearer '' (str_or (hs ''authorization'') []) \<longleftrightarrow> (\<exists>r. hs ''authorization'' = Some (''Bearer '' @ r))" for hs :: headers
    unfolding starts_with_iff by (auto dest: given_authorization)
  have iff: "legacy_requireAuth jwt_verify env hs = GoOn \<longleftrightarrow>
      str_or (hs ''x-api-key'') [] = access_api_key env \<or>
      str_or (hs ''x-api-key'') [] = [] \<and> hs ''authorization'' = Some (''ApiKey '' @ access_api_key env) \<or>
      str_or (hs ''x-api-key'') [] = [] \<and> (\<exists>token. hs ''authorization'' = Some (''Bearer '' @ token) \<and> jwt_verify token (access_jwt_secret env))" for hs
    unfolding legacy_requireAuth_def Let_def k b using access_key_nonempty [of env] by (auto simp: legacy_validateApiKey_iff validateJwt_iff)
  have "legacy_requireAuth jwt_verify env (buildAuthHeader apiKey) = GoOn \<longleftrightarrow> apiKey = access_api_key env"
    unfolding iff using access_key_nonempty [of env] by (auto simp: buildAuthHeader_def)
  then show ?thesis using iff by (simp add: access_api_key_def access_jwt_secret_def)
qed

lemma signature_header: "deliver_headers en t attempt filters = Inr h \<Longrightarrow> js_get filters ''hmacSecret'' = js_val.VStr secret \<Longrightarrow> secret \<noteq> [] \<Longrightarrow>
  js_get h ''X-QueueForge-Signature'' = js_val.VStr (computeHmac (en_mac en) ''sha256'' (en_text en (tr_resultPayload t)) secret)"
  by (auto simp: deliver_headers_def Let_def js_get_def val_truthy_def mget_def [symmetric])

text \<open>C17: What the program delivers is accepted by the receiver's check: the body that is sent is read back as the value it was, and its signature, which no
  header of the destination's own can replace, passes with the destination's secret. With other secrets or bodies
  just those pass that have the same signature.\<close>
theorem delivered_signatures_verify:
  assumes "deliver_headers en t attempt filters = Inr h" "js_get filters ''hmacSecret'' = js_val.VStr secret" "secret \<noteq> []" "mac_laws (en_mac en)"
    "en_text en (tr_resultPayload t) = stringify body" "json_wf body" "js_get h ''X-QueueForge-Signature'' = js_val.VStr sig" "hs ''x-queueforge-signature'' = Some sig"
  shows "json_parse (en_text en (tr_resultPayload t)) = Some (embed body) \<and> verifyHmacSignature (en_mac en) secret body hs = GoOn \<and>
    (verifyHmacSignature (en_mac en) secret' body' hs = GoOn \<longleftrightarrow>
       computeHmac (en_mac en) ''sha256'' (stringify body') secret' = computeHmac (en_mac en) ''sha256'' (stringify body) secret)"
proof -
  have sig: "sig = computeHmac (en_mac en) ''sha256'' (stringify body) secret" using signature_header [OF assms(1-3)] assms(5,7) by simp
  have "en_mac en ''sha256'' secret (stringify body) \<noteq> []" using assms(4) by (simp add: mac_laws_def)
  then have "sig \<noteq> []" unfolding sig by (cases "en_mac en ''sha256'' secret (stringify body)") (simp_all add: computeHmac_def to_hex_def)
  then show ?thesis using assms(5,6,8) sig json_parse_stringify [of body] by (auto simp: verifyHmacSignature_def Let_def)
qed

theorem delivered_signatures_verify_witness:
  "\<forall>t. \<exists>h sig. deliver_headers (example_env\<lparr> en_mac := example_mac \<rparr>) t 1 [(''hmacSecret'', js_val.VStr ''s'')] = Inr h \<and>
     js_get h ''X-QueueForge-Signature'' = js_val.VStr sig \<and> verifyHmacSignature example_mac ''s'' (JObj []) [''x-queueforge-signature'' \<mapsto> sig] = GoOn"
proof
  fix t :: AiTaskResult
  let ?en = "example_env\<lparr> en_mac := example_mac \<rparr>" and ?f = "[(''hmacSecret'', js_val.VStr ''s'')]"
  have f: "js_get ?f ''hmacSecret'' = js_val.VStr ''s''" by (simp add: js_get_def)
  have ok: "\<exists>h. deliver_headers ?en t 1 ?f = Inr h" using f by (simp add: deliver_headers_def Let_def val_truthy_def)
  then obtain h where h: "deliver_headers ?en t 1 ?f = Inr h" by blast
  have e: "en_text ?en (tr_resultPayload t) = stringify (JObj [])" "en_mac ?en = example_mac" by (simp_all add: example_env_def)
  have s: "js_get h ''X-QueueForge-Signature'' = js_val.VStr (computeHmac (en_mac ?en) ''sha256'' (en_text ?en (tr_resultPayload t)) ''s'')"
    by (rule signature_header [OF h f]) simp
  have "verifyHmacSignature (en_mac ?en) ''s'' (JObj []) [''x-queueforge-signature'' \<mapsto> computeHmac (en_mac ?en) ''sha256'' (en_text ?en (tr_resultPayload t)) ''s''] = GoOn"
    by (rule delivered_signatures_verify [OF h f _ _ e(1) _ s, THEN conjunct2, THEN conjunct1]) (simp_all add: e(2) example_mac_laws)
  then show "\<exists>h sig. deliver_headers ?en t 1 ?f = Inr h \<and> js_get h ''X-QueueForge-Signature'' = js_val.VStr sig \<and>
      verifyHmacSignature example_mac ''s'' (JObj []) [''x-queueforge-signature'' \<mapsto> sig] = GoOn" using h s unfolding e(2) by blast
qed

text \<open>Whether two patterns have a path in common.\<close>

fun overlap :: "segment list \<Rightarrow> segment list \<Rightarrow> bool" where
  "overlap [] [] = True"
| "overlap (Named a # ps) (Named b # qs) = (a = b \<and> overlap ps qs)"
| "overlap (Param # ps) (q # qs) = overlap ps qs"
| "overlap (p # ps) (Param # qs) = overlap ps qs"
| "overlap ps qs = False"

lemma common_path: "path_matches p x \<Longrightarrow> path_matches q x \<Longrightarrow> overlap p q"
proof (induction x arbitrary: p q)
  case Nil
  have "r = []" if "path_matches r []" for r using that by (cases r; cases "hd r") auto
  from this [OF Nil.prems(1)] this [OF Nil.prems(2)] show ?case by simp
next
  case (Cons a x)
  obtain s ps t qs where pq: "p = s # ps" "q = t # qs" using Cons.prems by (cases p; cases q) auto
  have "path_matches ps x" "path_matches qs x" using Cons.prems unfolding pq by (cases s; cases t; simp)+
  then have "overlap ps qs" by (rule Cons.IH)
  then show ?case using Cons.prems unfolding pq by (cases s; cases t) auto
qed

lemma find_distinct: "x \<in> set xs \<Longrightarrow> P x \<Longrightarrow> \<forall>y \<in> set xs. P y \<longrightarrow> y = x \<Longrightarrow> find P xs = Some x"
proof (induction xs)
  case (Cons a xs)
  show ?case
  proof (cases "P a")
    case True
    then have "a = x" using Cons.prems(3) by (meson list.set_intros(1))
    then show ?thesis using True by simp
  next
    case False
    then have "x \<in> set xs" using Cons.prems(1,2) by auto
    moreover have "\<forall>y \<in> set xs. P y \<longrightarrow> y = x" using Cons.prems(3) by (meson list.set_intros(2))
    ultimately have "find P xs = Some x" using Cons.IH Cons.prems(2) by blast
    then show ?thesis by (simp add: False)
  qed
qed simp

lemma portal_disjoint: "\<forall>(v, p, h) \<in> set portal_routes. \<forall>(v', p', h') \<in> set portal_routes. v = v' \<and> overlap p p' \<longrightarrow> p = p' \<and> h = h'"
  by code_simp

text \<open>The admin portal is open to whoever sends any text in one of two headers; of its routes none hides another: every path of a route gets to that
  route's own handler.\<close>
theorem portal_is_open:
  assumes "hs ''x-admin-key'' = Some (c # s)" "(v, p, h) \<in> set portal_routes" "path_matches p path"
  shows "portal_dispatch hs v path = (GoOn, Some h) \<and> (hs' ''x-admin-key'' = None \<and> hs' ''authorization'' = None \<longrightarrow> portal_dispatch hs' v path = (Refuse 401, None))"
proof -
  have "y = (v, p, h)" if y: "y \<in> set portal_routes" "case y of (w, p, _) \<Rightarrow> w = v \<and> path_matches p path" for y
  proof -
    obtain p' h' where y': "y = (v, p', h')" "path_matches p' path" using y(2) by (cases y) auto
    have "overlap p p'" by (rule common_path [OF assms(3) y'(2)])
    moreover have "v = v \<and> overlap p p' \<longrightarrow> p = p' \<and> h = h'"
      using bspec [OF bspec [OF portal_disjoint assms(2), unfolded case_prod_conv] y(1), unfolded y'(1) case_prod_conv] .
    ultimately show ?thesis using y'(1) by simp
  qed
  then have "find (\<lambda>(w, p, _). w = v \<and> path_matches p path) portal_routes = Some (v, p, h)"
    by (intro find_distinct assms(2) ballI impI) (simp_all add: assms(3))
  then show ?thesis using assms(1) by (simp add: portal_dispatch_def portal_auth_def)
qed

theorem portal_is_open_witness:
  "portal_dispatch [''x-admin-key'' \<mapsto> ''x''] DELETE [''api-keys'', ''k1''] = (GoOn, Some ''revokeApiKey'')"
proof -
  have "(DELETE, [Named ''api-keys'', Param], ''revokeApiKey'') \<in> set portal_routes" "path_matches [Named ''api-keys'', Param] [''api-keys'', ''k1'']" by code_simp+
  then show ?thesis using portal_is_open [of "[''x-admin-key'' \<mapsto> ''x'']", OF _ _ _, of "CHR ''x''" "[]"] by simp
qed

end
