(* ===== verification/QF_Transact.thy ===== *)
theory QF_Transact
  imports QF_Repos
begin

text \<open>
  Transactions by hand (\<open>infrastructure/database/transaction.ts\<close>): \<open>beginTransaction\<close> opens an interactive transaction whose callback waits for the
  promise \<open>done\<close>, which committing resolves and rolling back rejects.

  The client's transaction runs beside the caller. Its steps are what Prisma documents: when the callback returns it is committed, or the commit
  fails and nothing is kept; when the callback throws, or the time of the transaction is over, it is rolled back. The handle's
  steps are the code's: a promise is settled by the first call alone, and both calls wait for \<open>done\<close> and swallow
  its rejection. Writing through the handle is left to the caller. Shown: what is committed was asked for first of all, and what a call that
  returned says about the database.
\<close>

datatype done_promise = Waiting | Resolved | Rejected

datatype tx_block = Suspended | Finishing | Committed | Undone

datatype tx_call = CommitCall | RollbackCall

text \<open>The calls in the order in which they are made, and those that have returned.\<close>

record manual_transaction =
  mt_done :: done_promise
  mt_block :: tx_block
  mt_calls :: "tx_call list"
  mt_returned :: "tx_call list"

text \<open>Opening answers a handle when the callback is entered, and otherwise the client's error as \<open>handleError\<close> maps it.\<close>

definition beginTransaction :: "tx_error option \<Rightarrow> worker_error + manual_transaction" where
  "beginTransaction failure = (case failure of Some e \<Rightarrow> Inl (tx_handleError e)
     | None \<Rightarrow> Inr \<lparr> mt_done = Waiting, mt_block = Suspended, mt_calls = [], mt_returned = [] \<rparr>)"

definition settle :: "done_promise \<Rightarrow> manual_transaction \<Rightarrow> manual_transaction" where
  "settle p s = (if mt_done s = Waiting then s\<lparr> mt_done := p \<rparr> else s)"

definition commitTransaction :: "manual_transaction \<Rightarrow> manual_transaction" where
  "commitTransaction s = (settle Resolved s)\<lparr> mt_calls := mt_calls s @ [CommitCall] \<rparr>"

definition rollbackTransaction :: "manual_transaction \<Rightarrow> manual_transaction" where
  "rollbackTransaction s = (settle Rejected s)\<lparr> mt_calls := mt_calls s @ [RollbackCall] \<rparr>"

text \<open>A call goes on once \<open>done\<close> is settled, either way, and returns without an error.\<close>

definition calls_of :: "tx_call \<Rightarrow> tx_call list \<Rightarrow> nat" where
  "calls_of c cs = length (filter (\<lambda>x. x = c) cs)"

lemma calls_of_simps [simp]: "calls_of c [] = 0" "calls_of c (x # xs) = (if x = c then Suc (calls_of c xs) else calls_of c xs)"
  "calls_of c (xs @ ys) = calls_of c xs + calls_of c ys"
  by (simp_all add: calls_of_def)

definition call_returns :: "tx_call \<Rightarrow> manual_transaction \<Rightarrow> manual_transaction option" where
  "call_returns c s = (if mt_done s \<noteq> Waiting \<and> calls_of c (mt_returned s) < calls_of c (mt_calls s)
     then Some (s\<lparr> mt_returned := mt_returned s @ [c] \<rparr>) else None)"

inductive tx_step :: "manual_transaction \<Rightarrow> manual_transaction \<Rightarrow> bool" where
  commits: "tx_step s (commitTransaction s)"
| rolls_back: "tx_step s (rollbackTransaction s)"
| returns: "call_returns c s = Some s' \<Longrightarrow> tx_step s s'"
| block_returns: "mt_block s = Suspended \<Longrightarrow> mt_done s = Resolved \<Longrightarrow> tx_step s (s\<lparr> mt_block := Finishing \<rparr>)"
| block_throws: "mt_block s = Suspended \<Longrightarrow> mt_done s = Rejected \<Longrightarrow> tx_step s (s\<lparr> mt_block := Undone \<rparr>)"
| times_out: "mt_block s = Suspended \<Longrightarrow> tx_step s (s\<lparr> mt_block := Undone \<rparr>)"
| commit_succeeds: "mt_block s = Finishing \<Longrightarrow> tx_step s (s\<lparr> mt_block := Committed \<rparr>)"
| commit_fails: "mt_block s = Finishing \<Longrightarrow> tx_step s (s\<lparr> mt_block := Undone \<rparr>)"

definition tx_inv :: "manual_transaction \<Rightarrow> bool" where
  "tx_inv s \<longleftrightarrow> mt_done s = (case mt_calls s of [] \<Rightarrow> Waiting | CommitCall # _ \<Rightarrow> Resolved | RollbackCall # _ \<Rightarrow> Rejected) \<and>
     (mt_block s \<in> {Finishing, Committed} \<longrightarrow> mt_done s = Resolved)"

lemma tx_inv_begin: "beginTransaction failure = Inr s \<Longrightarrow> tx_inv s"
  by (auto simp: beginTransaction_def tx_inv_def split: option.splits)

lemma tx_inv_step: "tx_step s s' \<Longrightarrow> tx_inv s \<Longrightarrow> tx_inv s'"
proof (induction rule: tx_step.induct)
  case (commits s)
  then show ?case by (cases "mt_calls s") (auto simp: tx_inv_def commitTransaction_def settle_def split: list.splits tx_call.splits)
next
  case (rolls_back s)
  then show ?case by (cases "mt_calls s") (auto simp: tx_inv_def rollbackTransaction_def settle_def split: list.splits tx_call.splits)
next
  case (returns c s s')
  then show ?case by (auto simp: tx_inv_def call_returns_def split: if_splits)
qed (auto simp: tx_inv_def)

lemma tx_inv_reachable: "tx_step\<^sup>*\<^sup>* s s' \<Longrightarrow> tx_inv s \<Longrightarrow> tx_inv s'"
  by (induction rule: rtranclp_induct) (auto intro: tx_inv_step)

lemma returned_calls_step: "tx_step s s' \<Longrightarrow> \<forall>c. calls_of c (mt_returned s) \<le> calls_of c (mt_calls s) \<Longrightarrow> \<forall>c. calls_of c (mt_returned s') \<le> calls_of c (mt_calls s')"
  by (induction rule: tx_step.induct)
    (auto simp: commitTransaction_def rollbackTransaction_def settle_def call_returns_def le_SucI trans_le_add1 split: if_splits)

lemma returned_calls: "tx_step\<^sup>*\<^sup>* s s' \<Longrightarrow> mt_returned s = [] \<Longrightarrow> calls_of c (mt_returned s') \<le> calls_of c (mt_calls s')"
proof -
  assume "tx_step\<^sup>*\<^sup>* s s'" "mt_returned s = []"
  then have "\<forall>c. calls_of c (mt_returned s') \<le> calls_of c (mt_calls s')"
    by (induction rule: rtranclp_induct) (simp, rule returned_calls_step)
  then show ?thesis by blast
qed

text \<open>The last state of a transaction, whatever happens in between.\<close>

lemma tx_final: "tx_step s s' \<Longrightarrow> mt_block s \<in> {Committed, Undone} \<Longrightarrow> mt_block s' = mt_block s"
  by (induction rule: tx_step.induct) (auto simp: commitTransaction_def rollbackTransaction_def settle_def call_returns_def split: if_splits)

lemma tx_final_reachable: "tx_step\<^sup>*\<^sup>* s s' \<Longrightarrow> mt_block s \<in> {Committed, Undone} \<Longrightarrow> mt_block s' = mt_block s"
  by (induction rule: rtranclp_induct) (auto dest: tx_final)

text \<open>Steps that lead to a state in which a commit has returned while the transaction is in a given block.\<close>

lemma commit_returned:
  assumes "mt_done s = Waiting" "mt_calls s = []" "mt_returned s = []"
  shows "tx_step\<^sup>*\<^sup>* s (s\<lparr> mt_done := Resolved, mt_calls := [CommitCall], mt_returned := [CommitCall] \<rparr>)"
proof -
  have "tx_step s (commitTransaction s)" by (rule commits)
  moreover have "tx_step (commitTransaction s) (s\<lparr> mt_done := Resolved, mt_calls := [CommitCall], mt_returned := [CommitCall] \<rparr>)"
    by (rule returns [of CommitCall]) (simp add: commitTransaction_def settle_def call_returns_def assms)
  ultimately show ?thesis by (meson converse_rtranclp_into_rtranclp rtranclp.rtrancl_refl)
qed

lemma commit_call_answers:
  assumes s0: "s0 = \<lparr> mt_done = Waiting, mt_block = Suspended, mt_calls = [], mt_returned = [] \<rparr>"
  shows "\<exists>t. tx_step\<^sup>*\<^sup>* s0 t \<and> mt_calls t = [CommitCall] \<and> mt_returned t = [CommitCall] \<and> mt_block t = b"
proof -
  let ?r = "s0\<lparr> mt_done := Resolved, mt_calls := [CommitCall], mt_returned := [CommitCall] \<rparr>"
  have r: "tx_step\<^sup>*\<^sup>* s0 ?r" by (rule commit_returned) (simp_all add: s0)
  have f: "tx_step\<^sup>*\<^sup>* s0 (?r\<lparr> mt_block := Finishing \<rparr>)"
    by (rule rtranclp.rtrancl_into_rtrancl [OF r], rule block_returns) (simp_all add: s0)
  have "tx_step (?r\<lparr> mt_block := Finishing \<rparr>) (?r\<lparr> mt_block := Finishing, mt_block := Committed \<rparr>)" by (rule commit_succeeds) simp
  then have c: "tx_step\<^sup>*\<^sup>* s0 (?r\<lparr> mt_block := Committed \<rparr>)" using f by simp
  have u: "tx_step\<^sup>*\<^sup>* s0 (?r\<lparr> mt_block := Undone \<rparr>)"
    by (rule rtranclp.rtrancl_into_rtrancl [OF r], rule times_out) (simp add: s0)
  show ?thesis
  proof (cases b)
    case Suspended
    then show ?thesis using r by (intro exI [of _ ?r]) (simp add: s0)
  next
    case Finishing
    then show ?thesis using f by (intro exI [of _ "?r\<lparr> mt_block := Finishing \<rparr>"]) simp
  next
    case Committed
    then show ?thesis using c by (intro exI [of _ "?r\<lparr> mt_block := Committed \<rparr>"]) simp
  next
    case Undone
    then show ?thesis using u by (intro exI [of _ "?r\<lparr> mt_block := Undone \<rparr>"]) simp
  qed
qed

lemma commit_call_after_rollback:
  assumes s0: "s0 = \<lparr> mt_done = Waiting, mt_block = Suspended, mt_calls = [], mt_returned = [] \<rparr>"
  shows "\<exists>t. tx_step\<^sup>*\<^sup>* s0 t \<and> mt_calls t = [RollbackCall, CommitCall] \<and> mt_returned t = [RollbackCall, CommitCall] \<and> mt_block t = Undone"
proof -
  let ?a = "rollbackTransaction s0"
  let ?b = "?a\<lparr> mt_block := Undone \<rparr>"
  let ?c = "?b\<lparr> mt_returned := [RollbackCall] \<rparr>"
  let ?e = "(commitTransaction ?c)\<lparr> mt_returned := [RollbackCall, CommitCall] \<rparr>"
  have "tx_step s0 ?a" by (rule rolls_back)
  moreover have "tx_step ?a ?b" by (rule block_throws) (simp_all add: s0 rollbackTransaction_def settle_def)
  moreover have "tx_step ?b ?c" by (rule returns [of RollbackCall]) (simp add: s0 rollbackTransaction_def settle_def call_returns_def)
  moreover have "tx_step ?c (commitTransaction ?c)" by (rule commits)
  moreover have "tx_step (commitTransaction ?c) ?e"
    by (rule returns [of CommitCall]) (simp add: s0 commitTransaction_def rollbackTransaction_def settle_def call_returns_def)
  ultimately have "tx_step\<^sup>*\<^sup>* s0 ?e" by (meson converse_rtranclp_into_rtranclp rtranclp.rtrancl_refl)
  then show ?thesis by (intro exI [of _ ?e]) (simp add: s0 commitTransaction_def rollbackTransaction_def settle_def)
qed



end
