(* ===== verification/QF_Portal.thy ===== *)
theory QF_Portal
  imports QF_Access
begin

text \<open>
  The administration portal behind \<open>createAdminRouter\<close>: its services (\<open>api/admin/services\<close>) with the maps they keep, its controllers
  (\<open>api/admin/controllers\<close>), its pagination and the schemas of its requests (\<open>api/admin/dto\<close>).

  What a service may have been given (repositories, the retry service) is an object with optional methods on the state \<open>pt_world\<close>
  behind it. A request is the path parameter, the query and the parsed body, with two ids from \<open>randomUUID\<close> and the reading of the clock;
  the body is not checked by any schema, so that its fields are any values. Logging is left out. A total that is not a number counts as
  missing in the number of pages. Shown: what becomes of keys, roles and users under any sequence of requests, what the batch of retries
  reports, and which requests only claim to act.
\<close>

subsection \<open>State\<close>

record portal_key =
  pk_id :: string
  pk_name :: "jdoc option"
  pk_tier :: "jdoc option"
  pk_rateLimit :: int
  pk_quotaLimit :: jdoc
  pk_enabled :: bool
  pk_createdAt :: ms

record portal_role =
  po_id :: string
  po_name :: "jdoc option"
  po_permissions :: jdoc

record portal_user =
  pu_id :: string
  pu_email :: "jdoc option"
  pu_name :: "jdoc option"
  pu_roles :: "portal_role list"

record portal_export =
  px_exportId :: string
  px_format :: jdoc
  px_downloadUrl :: string
  px_createdAt :: ms

record 'd portal =
  pt_keys :: "(string, portal_key) js_map"
  pt_roles :: "(string, portal_role) js_map"
  pt_users :: "(string, portal_user) js_map"
  pt_exports :: "(string, portal_export) js_map"
  pt_flags :: "(string, bool) js_map"
  pt_world :: 'd

record 'd portal_deps =
  pd_scheduleRetryService :: "'d obj"
  pd_deliveryRepository :: "'d obj"
  pd_auditRepository :: "'d obj"
  pd_retryManager :: bool
  pd_queueStats :: "queue_counts option"
  pd_rows :: "stored_delivery list option"
  pd_config :: "jdoc option"
  pd_shown :: "jdoc \<Rightarrow> string"

definition RoleService_new :: "(string, portal_role) js_map" where
  "RoleService_new = [(''role-admin'', \<lparr> po_id = ''role-admin'', po_name = Some (DStr ''Admin''), po_permissions = DArr [DStr ''*''] \<rparr>)]"

definition portal_new :: "'d \<Rightarrow> 'd portal" where
  "portal_new d = \<lparr> pt_keys = [], pt_roles = RoleService_new, pt_users = [], pt_exports = [],
     pt_flags = [(''enableAdvancedCircuitBreaker'', True), (''enableRealtimeAnalytics'', True), (''enableAuditExportParquet'', False)], pt_world = d \<rparr>"

subsection \<open>Services\<close>

definition portal_createApiKey :: "jdoc option \<Rightarrow> jdoc option \<Rightarrow> jdoc option \<Rightarrow> string \<Rightarrow> string \<Rightarrow> ms \<Rightarrow> 'd portal \<Rightarrow> 'd portal \<times> string \<times> string" where
  "portal_createApiKey name tier quotaOverride u1 u2 now p =
     (let info = \<lparr> pk_id = u1, pk_name = name, pk_tier = tier, pk_rateLimit = (if tier = Some (DStr ''ENTERPRISE'') then 1000 else 100),
            pk_quotaLimit = (if doc_truthy quotaOverride then the quotaOverride else DNum 10000), pk_enabled = True, pk_createdAt = now \<rparr>
      in (p\<lparr> pt_keys := mset_at u1 info (pt_keys p) \<rparr>, u1, ''qf_live_'' @ filter (\<lambda>c. c \<noteq> CHR ''-'') u2))"

definition portal_revokeApiKey :: "string \<Rightarrow> 'd portal \<Rightarrow> 'd portal" where
  "portal_revokeApiKey i p = (case mget (pt_keys p) i of None \<Rightarrow> p
     | Some k \<Rightarrow> p\<lparr> pt_keys := mset_at i (k\<lparr> pk_enabled := False \<rparr>) (pt_keys p) \<rparr>)"

definition portal_createRole :: "jdoc option \<Rightarrow> jdoc \<Rightarrow> string \<Rightarrow> 'd portal \<Rightarrow> 'd portal \<times> portal_role" where
  "portal_createRole name permissions u p = (let r = \<lparr> po_id = u, po_name = name, po_permissions = permissions \<rparr>
     in (p\<lparr> pt_roles := mset_at u r (pt_roles p) \<rparr>, r))"

text \<open>\<open>map\<close> is a method of arrays alone; an id that is not a text is in no map.\<close>

definition assigned_roles :: "(string, portal_role) js_map \<Rightarrow> jdoc list \<Rightarrow> portal_role list" where
  "assigned_roles m ids = List.map_filter (\<lambda>v. case v of DStr i \<Rightarrow> mget m i | _ \<Rightarrow> None) ids"

definition portal_createUser :: "jdoc option \<Rightarrow> jdoc option \<Rightarrow> jdoc \<Rightarrow> string \<Rightarrow> 'd portal \<Rightarrow> 'd portal \<times> (thrown + portal_user)" where
  "portal_createUser email name roleIds u p = (case roleIds of
       DArr ids \<Rightarrow> (let x = \<lparr> pu_id = u, pu_email = email, pu_name = name, pu_roles = assigned_roles (pt_roles p) ids \<rparr>
         in (p\<lparr> pt_users := mset_at u x (pt_users p) \<rparr>, Inr x))
     | _ \<Rightarrow> (p, Inl type_error))"

definition portal_createExportJob :: "jdoc \<Rightarrow> string \<Rightarrow> ms \<Rightarrow> 'd portal \<Rightarrow> 'd portal \<times> portal_export" where
  "portal_createExportJob format u now p =
     (let job = \<lparr> px_exportId = u, px_format = format, px_downloadUrl = ''/admin/exports/'' @ u @ ''/download'', px_createdAt = now \<rparr>
      in (p\<lparr> pt_exports := mset_at u job (pt_exports p) \<rparr>, job))"

text \<open>A value used as the name of a property; \<open>shown\<close> is the text of a number, an array or an object.\<close>

definition property_name :: "(jdoc \<Rightarrow> string) \<Rightarrow> jdoc option \<Rightarrow> string" where
  "property_name shown a = (case a of None \<Rightarrow> ''undefined'' | Some DNull \<Rightarrow> ''null'' | Some (DBool b) \<Rightarrow> if b then ''true'' else ''false''
     | Some (DStr s) \<Rightarrow> s | Some v \<Rightarrow> shown v)"

definition portal_toggleFeatureFlag :: "(jdoc \<Rightarrow> string) \<Rightarrow> jdoc option \<Rightarrow> bool \<Rightarrow> 'd portal \<Rightarrow> 'd portal" where
  "portal_toggleFeatureFlag shown flag enabled p = p\<lparr> pt_flags := mset_at (property_name shown flag) enabled (pt_flags p) \<rparr>"

definition portal_retryDelivery :: "'d portal_deps \<Rightarrow> jdoc option \<Rightarrow> 'd portal \<Rightarrow> 'd portal \<times> (thrown + unit)" where
  "portal_retryDelivery ds i p = (case pd_scheduleRetryService ds ''scheduleRetry'' of None \<Rightarrow> (p, Inr ())
     | Some f \<Rightarrow> (case f [i] (pt_world p) of (d, r) \<Rightarrow> (p\<lparr> pt_world := d \<rparr>, case r of Inl e \<Rightarrow> Inl e | Inr _ \<Rightarrow> Inr ())))"

fun portal_retryBatch :: "'d portal_deps \<Rightarrow> jdoc list \<Rightarrow> 'd portal \<Rightarrow> 'd portal \<times> (jdoc \<times> thrown option) list" where
  "portal_retryBatch ds [] p = (p, [])"
| "portal_retryBatch ds (i # ids) p = (case portal_retryDelivery ds (Some i) p of (p', r) \<Rightarrow>
     (case portal_retryBatch ds ids p' of (p'', rest) \<Rightarrow> (p'', (i, case r of Inl e \<Rightarrow> Some e | Inr _ \<Rightarrow> None) # rest)))"

definition portal_recoverDLQItem :: "'d portal_deps \<Rightarrow> string \<Rightarrow> 'd portal \<Rightarrow> 'd portal \<times> (thrown + unit)" where
  "portal_recoverDLQItem ds i p = (if pd_retryManager ds then portal_retryDelivery ds (Some (DStr i)) p else (p, Inr ()))"

text \<open>\<open>validatePage\<close> and \<open>validateLimit\<close>, on the number that a text of the query counts as in comparisons, \<open>Math.floor\<close> included; \<open>validateSort\<close>.\<close>

definition query_number :: "jdoc option \<Rightarrow> js_num option" where
  "query_number a = (if doc_truthy a then Some (case the a of DNum x \<Rightarrow> Fin x | v \<Rightarrow> js_Number (doc_word v)) else None)"

definition validatePage :: "js_num option \<Rightarrow> js_num" where
  "validatePage page = (case page of None \<Rightarrow> Fin 1 | Some v \<Rightarrow> if v = NotNum \<or> below v 1 then Fin 1
     else (case v of Fin x \<Rightarrow> Fin (of_int \<lfloor>x\<rfloor>) | w \<Rightarrow> w))"

definition validateLimit :: "js_num option \<Rightarrow> int" where
  "validateLimit limit = (case limit of None \<Rightarrow> 50 | Some v \<Rightarrow> if v = NotNum \<or> below v 1 then 50
     else (case v of Fin x \<Rightarrow> min \<lfloor>x\<rfloor> 100 | _ \<Rightarrow> 100))"

definition validateSort :: "string option \<Rightarrow> string \<times> string" where
  "validateSort sort_by = (if str_or sort_by [] = [] then (''createdAt'', ''desc'')
     else (let parts = split_on CHR '':'' (the sort_by); field = hd parts
           in (if field = [] then ''createdAt'' else field, if 1 < length parts \<and> lower (parts ! 1) = ''asc'' then ''asc'' else ''desc'')))"

record portal_page =
  pp_data :: "jdoc option"
  pp_total :: jdoc
  pp_page :: js_num
  pp_limit :: int

definition zero_if_falsy :: "jdoc option \<Rightarrow> jdoc" where
  "zero_if_falsy a = (if doc_truthy a then the a else DNum 0)"

definition doc_length :: "jdoc \<Rightarrow> jdoc option" where
  "doc_length v = (case v of DArr xs \<Rightarrow> Some (DNum (of_nat (length xs))) | DStr s \<Rightarrow> Some (DNum (of_nat (length s))) | _ \<Rightarrow> doc_get v ''length'')"

text \<open>What a repository answered: \<open>res.data || res\<close>. Reading a property of \<open>undefined\<close> or \<open>null\<close> throws.\<close>

definition portal_found_page :: "js_num \<Rightarrow> int \<Rightarrow> (jdoc \<Rightarrow> jdoc) \<Rightarrow> thrown + jdoc option \<Rightarrow> thrown + portal_page" where
  "portal_found_page page limit total_of r = (case r of Inl e \<Rightarrow> Inl e
     | Inr res \<Rightarrow> if doc_nullish res then Inl type_error
         else Inr \<lparr> pp_data = doc_or (doc_get (the res) ''data'') res, pp_total = total_of (the res), pp_page = page, pp_limit = limit \<rparr>)"

definition empty_page :: "js_num \<Rightarrow> int \<Rightarrow> portal_page" where
  "empty_page page limit = \<lparr> pp_data = Some (DArr []), pp_total = DNum 0, pp_page = page, pp_limit = limit \<rparr>"

definition page_value :: "js_num \<Rightarrow> jdoc" where
  "page_value v = (case v of Fin x \<Rightarrow> DNum x | _ \<Rightarrow> DNull)"

definition portal_listDeliveries :: "'d portal_deps \<Rightarrow> (string \<Rightarrow> jdoc option) \<Rightarrow> 'd portal \<Rightarrow> 'd portal \<times> (thrown + portal_page)" where
  "portal_listDeliveries ds filters p =
     (let page = validatePage (query_number (filters ''page'')); limit = validateLimit (query_number (filters ''limit''))
      in case pd_deliveryRepository ds ''findMany'' of None \<Rightarrow> (p, Inr (empty_page page limit))
         | Some f \<Rightarrow>
             (case f [Some (DObj (if doc_truthy (filters ''status'') then [(''status'', the (filters ''status''))] else [])),
                      Some (DObj [(''page'', page_value page), (''limit'', DNum (of_int limit))])] (pt_world p) of
                (d, r) \<Rightarrow> (p\<lparr> pt_world := d \<rparr>,
                  portal_found_page page limit (\<lambda>v. if doc_truthy (doc_get v ''total'') then the (doc_get v ''total'') else zero_if_falsy (doc_length v)) r)))"

definition portal_searchDeliveries :: "'d portal_deps \<Rightarrow> (string \<Rightarrow> jdoc option) \<Rightarrow> 'd portal \<Rightarrow> 'd portal \<times> (thrown + portal_page)" where
  "portal_searchDeliveries ds filters p = portal_listDeliveries ds filters p"

definition portal_getDeliveryDetail :: "'d portal_deps \<Rightarrow> string \<Rightarrow> 'd portal \<Rightarrow> 'd portal \<times> (thrown + jdoc option)" where
  "portal_getDeliveryDetail ds i p = (case pd_deliveryRepository ds ''findById'' of None \<Rightarrow> (p, Inr (Some DNull))
     | Some f \<Rightarrow> (case f [Some (DStr i)] (pt_world p) of (d, r) \<Rightarrow> (p\<lparr> pt_world := d \<rparr>, r)))"

definition portal_listDLQItems :: "'d portal_deps \<Rightarrow> 'd portal \<Rightarrow> 'd portal \<times> (thrown + portal_page)" where
  "portal_listDLQItems ds p = (case pd_deliveryRepository ds ''findMany'' of None \<Rightarrow> (p, Inr (empty_page (Fin 1) 50))
     | Some f \<Rightarrow> (case f [Some (DObj [(''status'', DStr ''FAILED_DLQ'')])] (pt_world p) of
         (d, r) \<Rightarrow> (p\<lparr> pt_world := d \<rparr>, portal_found_page (Fin 1) 50 (\<lambda>v. zero_if_falsy (doc_get v ''total'')) r)))"

definition portal_listAuditLogs :: "'d portal_deps \<Rightarrow> jdoc \<Rightarrow> 'd portal \<Rightarrow> 'd portal \<times> (thrown + portal_page)" where
  "portal_listAuditLogs ds filters p =
     (case (case pd_auditRepository ds ''findMany'' of None \<Rightarrow> pd_auditRepository ds ''getLogs'' | Some f \<Rightarrow> Some f) of
        None \<Rightarrow> (p, Inr (empty_page (Fin 1) 50))
      | Some f \<Rightarrow> (case f [Some filters] (pt_world p) of
          (d, r) \<Rightarrow> (p\<lparr> pt_world := d \<rparr>, portal_found_page (Fin 1) 50 (\<lambda>v. zero_if_falsy (doc_get v ''total'')) r)))"

text \<open>Answers that are written into the services.\<close>

definition generateComplianceReport :: "jdoc \<Rightarrow> jdoc \<Rightarrow> jdoc" where
  "generateComplianceReport startDate endDate = DObj [(''startDate'', startDate), (''endDate'', endDate), (''totalEvents'', DNum 120),
     (''securityEventsCount'', DNum 0), (''events'', DArr [])]"

definition getWorkerList :: jdoc where
  "getWorkerList = DArr [DObj [(''id'', DStr ''worker-node-1''), (''status'', DStr ''ACTIVE''), (''activeJobs'', DNum 3), (''concurrency'', DNum 10),
     (''uptimeSeconds'', DNum 3600)]]"

definition getDaemonList :: "ms \<Rightarrow> jdoc" where
  "getDaemonList now = (let daemon = (\<lambda>i n. DObj [(''id'', DStr i), (''name'', DStr n), (''status'', DStr ''RUNNING''), (''isLeader'', DBool True),
       (''lastRunAt'', DStr (toISOString now))])
     in DArr [daemon ''daemon-recovery'' ''RecoveryDaemon'', daemon ''daemon-health'' ''HealthDaemon'', daemon ''daemon-metrics'' ''MetricsDaemon''])"

definition analyzeDLQPatterns :: "ms \<Rightarrow> jdoc" where
  "analyzeDLQPatterns now = DObj [(''errorPatterns'', DObj [(''HTTP_500'', DNum 12), (''TIMEOUT'', DNum 4)]),
     (''topErrors'', DArr [DObj [(''error'', DStr ''Internal Server Error (500)''), (''count'', DNum 12)],
        DObj [(''error'', DStr ''ETIMEDOUT Gateway Timeout''), (''count'', DNum 4)]]),
     (''timeline'', DArr [DObj [(''date'', DStr (hd (split_on CHR ''T'' (toISOString now)))), (''count'', DNum 16)]])]"

definition getAnalyticsOverview :: "jdoc \<Rightarrow> jdoc" where
  "getAnalyticsOverview timeRange = DObj [(''timeRange'', timeRange), (''totalDeliveries'', DNum 45000), (''successRatePercent'', DNum (9998 / 100)),
     (''avgProcessingTimeMs'', DNum 38)]"

definition portal_getPerformanceMetrics :: jdoc where
  "portal_getPerformanceMetrics = DObj [(''avgLatencyMs'', DNum 42), (''p95LatencyMs'', DNum 110), (''p99LatencyMs'', DNum 250), (''throughputRps'', DNum 120),
     (''errorRatePercent'', DNum (1 / 100))]"

definition portal_getResourceUsage :: "rat \<Rightarrow> rat \<Rightarrow> jdoc" where
  "portal_getResourceUsage rss heapUsed = DObj [(''cpuUsagePercent'', DNum (25 / 10)), (''memoryUsageMb'', DNum (of_int (js_round (rss / 1048576)))),
     (''totalMemoryMb'', DNum 8192), (''heapUsedMb'', DNum (of_int (js_round (heapUsed / 1048576))))]"

definition getSystemHealthStatus :: jdoc where
  "getSystemHealthStatus = DObj [(''status'', DStr ''HEALTHY''), (''score'', DNum 100),
     (''components'', DObj [(''database'', DBool True), (''redis'', DBool True), (''queue'', DBool True)])]"

subsection \<open>Controllers\<close>

record portal_request =
  pq_param :: string
  pq_query :: "string \<Rightarrow> jdoc option"
  pq_body :: "jdoc option"
  pq_u1 :: string
  pq_u2 :: string
  pq_now :: ms

datatype portal_data =
    OfKeys "portal_key list" | OfNewKey string string | OfRoles "portal_role list" | OfRole portal_role
  | OfUsers "portal_user list" | OfUser portal_user | OfExport portal_export | OfFlags "(string, bool) js_map"
  | OfPage portal_page | OfPages portal_page int | OfRetry jdoc ms | OfBatch int int "(jdoc \<times> thrown option) list" | OfRecovery string
  | OfQueue queue_statistics | OfDashboard queue_statistics delivery_statistics jdoc | OfDoc "jdoc option" | Message string | Failure string

type_synonym 'd portal_answer = "'d portal \<times> (thrown + int \<times> portal_data)"

definition answered :: "int \<Rightarrow> ('a \<Rightarrow> portal_data) \<Rightarrow> 'd portal \<times> (thrown + 'a) \<Rightarrow> 'd portal_answer" where
  "answered status f a = (fst a, case snd a of Inl e \<Rightarrow> Inl e | Inr v \<Rightarrow> Inr (status, f v))"

text \<open>\<open>const { a, b } = req.body\<close> throws for a body that is missing.\<close>

definition with_body :: "portal_request \<Rightarrow> 'd portal \<Rightarrow> (jdoc \<Rightarrow> 'd portal_answer) \<Rightarrow> 'd portal_answer" where
  "with_body q p f = (if doc_nullish (pq_body q) then (p, Inl type_error) else f (the (pq_body q)))"

definition array_or_empty :: "jdoc option \<Rightarrow> jdoc" where
  "array_or_empty a = (if doc_truthy a then the a else DArr [])"

definition pc_createApiKey :: "portal_request \<Rightarrow> 'd portal \<Rightarrow> 'd portal_answer" where
  "pc_createApiKey q p = with_body q p (\<lambda>b.
     (case portal_createApiKey (doc_get b ''name'') (doc_get b ''tier'') (doc_get b ''quotaOverride'') (pq_u1 q) (pq_u2 q) (pq_now q) p of
        (p', i, k) \<Rightarrow> (p', Inr (201, OfNewKey i k))))"

definition pc_revokeApiKey :: "portal_request \<Rightarrow> 'd portal \<Rightarrow> 'd portal_answer" where
  "pc_revokeApiKey q p = (portal_revokeApiKey (pq_param q) p, Inr (200, Message (''API Key '' @ pq_param q @ '' revoked'')))"

definition pc_createRole :: "portal_request \<Rightarrow> 'd portal \<Rightarrow> 'd portal_answer" where
  "pc_createRole q p = with_body q p (\<lambda>b.
     (case portal_createRole (doc_get b ''name'') (array_or_empty (doc_get b ''permissions'')) (pq_u1 q) p of (p', r) \<Rightarrow> (p', Inr (201, OfRole r))))"

definition pc_createUser :: "portal_request \<Rightarrow> 'd portal \<Rightarrow> 'd portal_answer" where
  "pc_createUser q p = with_body q p (\<lambda>b.
     answered 201 OfUser (portal_createUser (doc_get b ''email'') (doc_get b ''name'') (array_or_empty (doc_get b ''roleIds'')) (pq_u1 q) p))"

text \<open>\<open>for (const id of deliveryIds)\<close>: the items of an array or the characters of a text; nothing else can be iterated.\<close>

definition iterated :: "jdoc \<Rightarrow> jdoc list option" where
  "iterated v = (case v of DArr xs \<Rightarrow> Some xs | DStr s \<Rightarrow> Some (map (\<lambda>c. DStr [c]) s) | _ \<Rightarrow> None)"

definition pc_retryBatch :: "'d portal_deps \<Rightarrow> portal_request \<Rightarrow> 'd portal \<Rightarrow> 'd portal_answer" where
  "pc_retryBatch ds q p = with_body q p (\<lambda>b. (case iterated (array_or_empty (doc_get b ''deliveryIds'')) of None \<Rightarrow> (p, Inl type_error)
     | Some ids \<Rightarrow> (case portal_retryBatch ds ids p of (p', details) \<Rightarrow>
         (p', Inr (200, OfBatch (int (length (filter (\<lambda>x. snd x = None) details))) (int (length (filter (\<lambda>x. snd x \<noteq> None) details))) details)))))"

definition pc_retryDelivery :: "'d portal_deps \<Rightarrow> portal_request \<Rightarrow> 'd portal \<Rightarrow> 'd portal_answer" where
  "pc_retryDelivery ds q p = answered 200 (\<lambda>_. OfRetry (DStr (pq_param q)) (pq_now q)) (portal_retryDelivery ds (Some (DStr (pq_param q))) p)"

definition pc_recoverDLQItem :: "'d portal_deps \<Rightarrow> portal_request \<Rightarrow> 'd portal \<Rightarrow> 'd portal_answer" where
  "pc_recoverDLQItem ds q p = answered 200 (\<lambda>_. OfRecovery (pq_param q)) (portal_recoverDLQItem ds (pq_param q) p)"

definition pc_exportDeliveries :: "portal_request \<Rightarrow> 'd portal \<Rightarrow> 'd portal_answer" where
  "pc_exportDeliveries q p = with_body q p (\<lambda>b.
     (case portal_createExportJob (if doc_truthy (doc_get b ''format'') then the (doc_get b ''format'') else DStr ''JSON'') (pq_u1 q) (pq_now q) p of
        (p', job) \<Rightarrow> (p', Inr (202, OfExport job))))"

definition pc_getExportStatus :: "portal_request \<Rightarrow> 'd portal \<Rightarrow> 'd portal_answer" where
  "pc_getExportStatus q p = (p, Inr (case mget (pt_exports p) (pq_param q) of None \<Rightarrow> (404, Failure ''Export job not found'') | Some job \<Rightarrow> (200, OfExport job)))"

definition pc_toggleFeatureFlag :: "'d portal_deps \<Rightarrow> portal_request \<Rightarrow> 'd portal \<Rightarrow> 'd portal_answer" where
  "pc_toggleFeatureFlag ds q p = with_body q p (\<lambda>b. let flag = doc_get b ''flag''; enabled = doc_get b ''enabled'' in
     (portal_toggleFeatureFlag (pd_shown ds) flag (doc_truthy enabled) p,
      Inr (200, Message (''Feature flag '' @ property_name (pd_shown ds) flag @ '' set to '' @ property_name (pd_shown ds) enabled))))"

text \<open>\<open>Math.ceil(total / limit) || 1\<close>\<close>

definition portal_pages :: "portal_page \<Rightarrow> int" where
  "portal_pages g = (let n = (case pp_total g of DNum x \<Rightarrow> \<lceil>x / of_int (pp_limit g)\<rceil> | _ \<Rightarrow> 0) in if n = 0 then 1 else n)"

definition pc_listDeliveries :: "'d portal_deps \<Rightarrow> portal_request \<Rightarrow> 'd portal \<Rightarrow> 'd portal_answer" where
  "pc_listDeliveries ds q p = answered 200 (\<lambda>g. OfPages g (portal_pages g)) (portal_listDeliveries ds (pq_query q) p)"

definition pc_getDelivery :: "'d portal_deps \<Rightarrow> portal_request \<Rightarrow> 'd portal \<Rightarrow> 'd portal_answer" where
  "pc_getDelivery ds q p = (case portal_getDeliveryDetail ds (pq_param q) p of (p', Inl e) \<Rightarrow> (p', Inl e)
     | (p', Inr v) \<Rightarrow> (p', Inr (if doc_truthy v then (200, OfDoc v) else (404, Failure ''Delivery not found''))))"

definition portal_text_or :: "jdoc option \<Rightarrow> string \<Rightarrow> jdoc" where
  "portal_text_or a s = (if doc_truthy a then the a else DStr s)"

definition pc_getDashboard :: "'d portal_deps \<Rightarrow> portal_request \<Rightarrow> 'd portal \<Rightarrow> 'd portal_answer" where
  "pc_getDashboard ds q p = (p, Inr (200, OfDashboard (getQueueStatistics (pd_queueStats ds)) (getDeliveryStatistics (pd_rows ds)) getSystemHealthStatus))"

definition pc_getQueueStats :: "'d portal_deps \<Rightarrow> portal_request \<Rightarrow> 'd portal \<Rightarrow> 'd portal_answer" where
  "pc_getQueueStats ds q p = (p, Inr (200, OfQueue (getQueueStatistics (pd_queueStats ds))))"

definition pc_listDLQItems :: "'d portal_deps \<Rightarrow> portal_request \<Rightarrow> 'd portal \<Rightarrow> 'd portal_answer" where
  "pc_listDLQItems ds q p = answered 200 OfPage (portal_listDLQItems ds p)"

definition pc_analyzeDLQ :: "portal_request \<Rightarrow> 'd portal \<Rightarrow> 'd portal_answer" where
  "pc_analyzeDLQ q p = (p, Inr (200, OfDoc (Some (analyzeDLQPatterns (pq_now q)))))"

definition pc_listWorkers :: "portal_request \<Rightarrow> 'd portal \<Rightarrow> 'd portal_answer" where
  "pc_listWorkers q p = (p, Inr (200, OfDoc (Some getWorkerList)))"

definition pc_pauseWorker :: "portal_request \<Rightarrow> 'd portal \<Rightarrow> 'd portal_answer" where
  "pc_pauseWorker q p = (p, Inr (200, Message (''Worker '' @ pq_param q @ '' paused'')))"

definition pc_resumeWorker :: "portal_request \<Rightarrow> 'd portal \<Rightarrow> 'd portal_answer" where
  "pc_resumeWorker q p = (p, Inr (200, Message (''Worker '' @ pq_param q @ '' resumed'')))"

definition pc_listDaemons :: "portal_request \<Rightarrow> 'd portal \<Rightarrow> 'd portal_answer" where
  "pc_listDaemons q p = (p, Inr (200, OfDoc (Some (getDaemonList (pq_now q)))))"

definition pc_triggerDaemon :: "portal_request \<Rightarrow> 'd portal \<Rightarrow> 'd portal_answer" where
  "pc_triggerDaemon q p = (p, Inr (200, Message (''Daemon '' @ pq_param q @ '' triggered'')))"

definition pc_getConfiguration :: "'d portal_deps \<Rightarrow> portal_request \<Rightarrow> 'd portal \<Rightarrow> 'd portal_answer" where
  "pc_getConfiguration ds q p = (p, Inr (200, OfDoc (Some (if doc_truthy (pd_config ds) then the (pd_config ds) else DObj []))))"

definition pc_getFeatureFlags :: "portal_request \<Rightarrow> 'd portal \<Rightarrow> 'd portal_answer" where
  "pc_getFeatureFlags q p = (p, Inr (200, OfFlags (pt_flags p)))"

definition pc_listAuditLogs :: "'d portal_deps \<Rightarrow> jdoc \<Rightarrow> portal_request \<Rightarrow> 'd portal \<Rightarrow> 'd portal_answer" where
  "pc_listAuditLogs ds whole_query q p = answered 200 OfPage (portal_listAuditLogs ds whole_query p)"

definition pc_generateComplianceReport :: "portal_request \<Rightarrow> 'd portal \<Rightarrow> 'd portal_answer" where
  "pc_generateComplianceReport q p = (p, Inr (200, OfDoc (Some (generateComplianceReport (portal_text_or (pq_query q ''startDate'') (toISOString (pq_now q)))
     (portal_text_or (pq_query q ''endDate'') (toISOString (pq_now q)))))))"

definition pc_listApiKeys :: "portal_request \<Rightarrow> 'd portal \<Rightarrow> 'd portal_answer" where
  "pc_listApiKeys q p = (p, Inr (200, OfKeys (map snd (pt_keys p))))"

definition pc_listRoles :: "portal_request \<Rightarrow> 'd portal \<Rightarrow> 'd portal_answer" where
  "pc_listRoles q p = (p, Inr (200, OfRoles (map snd (pt_roles p))))"

definition pc_listUsers :: "portal_request \<Rightarrow> 'd portal \<Rightarrow> 'd portal_answer" where
  "pc_listUsers q p = (p, Inr (200, OfUsers (map snd (pt_users p))))"

definition pc_getResourceUsage :: "rat \<times> rat \<Rightarrow> portal_request \<Rightarrow> 'd portal \<Rightarrow> 'd portal_answer" where
  "pc_getResourceUsage memory q p = (p, Inr (200, OfDoc (Some (portal_getResourceUsage (fst memory) (snd memory)))))"

definition pc_getPerformanceMetrics :: "portal_request \<Rightarrow> 'd portal \<Rightarrow> 'd portal_answer" where
  "pc_getPerformanceMetrics q p = (p, Inr (200, OfDoc (Some portal_getPerformanceMetrics)))"

definition pc_getOverview :: "portal_request \<Rightarrow> 'd portal \<Rightarrow> 'd portal_answer" where
  "pc_getOverview q p = (p, Inr (200, OfDoc (Some (getAnalyticsOverview (portal_text_or (pq_query q ''timeRange'') ''24h'')))))"

text \<open>The handler of a route by its name, as the table of routes has it.\<close>

definition portal_handle :: "'d portal_deps \<Rightarrow> rat \<times> rat \<Rightarrow> jdoc \<Rightarrow> string \<Rightarrow> portal_request \<Rightarrow> 'd portal \<Rightarrow> 'd portal_answer" where
  "portal_handle ds memory whole_query h q p = (
     if h = ''getDashboard'' then pc_getDashboard ds q p
     else if h = ''getQueueStats'' then pc_getQueueStats ds q p
     else if h = ''listDeliveries'' then pc_listDeliveries ds q p
     else if h = ''getDelivery'' then pc_getDelivery ds q p
     else if h = ''retryDelivery'' then pc_retryDelivery ds q p
     else if h = ''retryBatch'' then pc_retryBatch ds q p
     else if h = ''listDLQItems'' then pc_listDLQItems ds q p
     else if h = ''recoverDLQItem'' then pc_recoverDLQItem ds q p
     else if h = ''analyzeDLQ'' then pc_analyzeDLQ q p
     else if h = ''listWorkers'' then pc_listWorkers q p
     else if h = ''pauseWorker'' then pc_pauseWorker q p
     else if h = ''resumeWorker'' then pc_resumeWorker q p
     else if h = ''listDaemons'' then pc_listDaemons q p
     else if h = ''triggerDaemon'' then pc_triggerDaemon q p
     else if h = ''getConfiguration'' then pc_getConfiguration ds q p
     else if h = ''getFeatureFlags'' then pc_getFeatureFlags q p
     else if h = ''toggleFeatureFlag'' then pc_toggleFeatureFlag ds q p
     else if h = ''listAuditLogs'' then pc_listAuditLogs ds whole_query q p
     else if h = ''generateComplianceReport'' then pc_generateComplianceReport q p
     else if h = ''listApiKeys'' then pc_listApiKeys q p
     else if h = ''createApiKey'' then pc_createApiKey q p
     else if h = ''revokeApiKey'' then pc_revokeApiKey q p
     else if h = ''listRoles'' then pc_listRoles q p
     else if h = ''createRole'' then pc_createRole q p
     else if h = ''listUsers'' then pc_listUsers q p
     else if h = ''createUser'' then pc_createUser q p
     else if h = ''getResourceUsage'' then pc_getResourceUsage memory q p
     else if h = ''getPerformanceMetrics'' then pc_getPerformanceMetrics q p
     else if h = ''getOverview'' then pc_getOverview q p
     else if h = ''exportDeliveries'' then pc_exportDeliveries q p
     else if h = ''getExportStatus'' then pc_getExportStatus q p
     else (p, Inl type_error))"

lemmas portal_view_defs = pc_getDashboard_def pc_getQueueStats_def pc_listDLQItems_def pc_analyzeDLQ_def
  pc_listWorkers_def pc_pauseWorker_def pc_resumeWorker_def pc_listDaemons_def pc_triggerDaemon_def pc_getConfiguration_def
  pc_getFeatureFlags_def pc_listAuditLogs_def pc_generateComplianceReport_def pc_listApiKeys_def pc_listRoles_def
  pc_listUsers_def pc_getResourceUsage_def pc_getPerformanceMetrics_def pc_getOverview_def

subsection \<open>Any sequence of requests\<close>

fun portal_run :: "'d portal_deps \<Rightarrow> rat \<times> rat \<Rightarrow> jdoc \<Rightarrow> (string \<times> portal_request) list \<Rightarrow> 'd portal \<Rightarrow> 'd portal" where
  "portal_run ds memory wq [] p = p"
| "portal_run ds memory wq ((h, q) # steps) p = portal_run ds memory wq steps (fst (portal_handle ds memory wq h q p))"

lemmas portal_service_defs = portal_createApiKey_def portal_revokeApiKey_def portal_createRole_def portal_createUser_def portal_createExportJob_def
  portal_toggleFeatureFlag_def portal_retryDelivery_def portal_recoverDLQItem_def portal_listDeliveries_def portal_getDeliveryDetail_def
  portal_listDLQItems_def portal_listAuditLogs_def

lemmas portal_controller_defs = pc_createApiKey_def pc_revokeApiKey_def pc_createRole_def pc_createUser_def pc_retryBatch_def pc_retryDelivery_def
  pc_recoverDLQItem_def pc_exportDeliveries_def pc_getExportStatus_def pc_toggleFeatureFlag_def pc_listDeliveries_def pc_getDelivery_def
  answered_def with_body_def

lemma retryBatch_maps:
  "fst (portal_retryBatch ds ids p) = p\<lparr> pt_world := pt_world (fst (portal_retryBatch ds ids p)) \<rparr>"
proof (induction ids arbitrary: p)
  case (Cons i ids)
  have "fst (portal_retryDelivery ds (Some i) p) = p\<lparr> pt_world := pt_world (fst (portal_retryDelivery ds (Some i) p)) \<rparr>"
    by (simp add: portal_retryDelivery_def split: option.splits prod.splits)
  then show ?case using Cons.IH [of "fst (portal_retryDelivery ds (Some i) p)"]
    by (auto split: prod.splits) (metis portal.surjective portal.update_convs(6) portal.ext_inject)+
qed simp

text \<open>Handlers that keep all the maps.\<close>

definition makers :: "string list" where
  "makers = [''createApiKey'', ''revokeApiKey'', ''createRole'', ''createUser'', ''exportDeliveries'', ''toggleFeatureFlag'']"

definition keeps_maps :: "'d portal \<Rightarrow> 'd portal \<Rightarrow> bool" where
  "keeps_maps p p' \<longleftrightarrow> (\<exists>d. p' = p\<lparr> pt_world := d \<rparr>)"

lemma keeps_maps_refl [simp]: "keeps_maps p p"
  unfolding keeps_maps_def by (intro exI [of _ "pt_world p"]) simp

lemma keeps_maps_world [simp]: "keeps_maps p (p\<lparr> pt_world := d \<rparr>)"
  unfolding keeps_maps_def by blast

lemma keeps_maps_if: "(b \<Longrightarrow> keeps_maps p (fst x)) \<Longrightarrow> (\<not> b \<Longrightarrow> keeps_maps p (fst y)) \<Longrightarrow> keeps_maps p (fst (if b then x else y))"
  by simp

lemma keeps_maps_batch: "keeps_maps p (fst (portal_retryBatch ds ids p))"
  unfolding keeps_maps_def using retryBatch_maps by blast

lemma keeps_maps_controllers:
  "keeps_maps p (fst (pc_listDeliveries ds q p))" "keeps_maps p (fst (pc_getDelivery ds q p))" "keeps_maps p (fst (pc_retryDelivery ds q p))"
  "keeps_maps p (fst (answered s f (portal_listDLQItems ds p)))" "keeps_maps p (fst (pc_recoverDLQItem ds q p))"
  "keeps_maps p (fst (answered s f (portal_listAuditLogs ds wq p)))" "keeps_maps p (fst (pc_getExportStatus q p))"
  by (simp_all add: portal_controller_defs portal_service_defs Let_def split: option.split prod.split sum.split)

lemma keeps_maps_retryBatch: "keeps_maps p (fst (pc_retryBatch ds q p))"
  using keeps_maps_batch [of p ds] by (auto simp: pc_retryBatch_def with_body_def split: option.split prod.split) (metis fst_conv)

lemma handle_other: "h \<notin> set makers \<Longrightarrow> keeps_maps p (fst (portal_handle ds memory wq h q p))"
  unfolding portal_handle_def portal_view_defs
  by (intro keeps_maps_if keeps_maps_controllers keeps_maps_retryBatch; (simp only: fst_conv keeps_maps_refl)?; simp only: makers_def list.set insert_iff simp_thms)
lemma handle_makers:
  "portal_handle ds memory wq ''createApiKey'' q p = pc_createApiKey q p" "portal_handle ds memory wq ''revokeApiKey'' q p = pc_revokeApiKey q p"
  "portal_handle ds memory wq ''createRole'' q p = pc_createRole q p" "portal_handle ds memory wq ''createUser'' q p = pc_createUser q p"
  "portal_handle ds memory wq ''exportDeliveries'' q p = pc_exportDeliveries q p"
  "portal_handle ds memory wq ''toggleFeatureFlag'' q p = pc_toggleFeatureFlag ds q p"
  unfolding portal_handle_def by simp_all

definition used_ids :: "'d portal \<Rightarrow> string set" where
  "used_ids p = set (map fst (pt_keys p)) \<union> set (map fst (pt_roles p)) \<union> set (map fst (pt_users p)) \<union> set (map fst (pt_exports p))"

text \<open>What a request leaves of the entries there were: all of them, keys perhaps disabled.\<close>

definition entries_kept :: "(string \<Rightarrow> bool) \<Rightarrow> string list \<Rightarrow> 'd portal \<Rightarrow> 'd portal \<Rightarrow> bool" where
  "entries_kept revoked made p p' \<longleftrightarrow> map fst (pt_keys p') = map fst (pt_keys p) @ made \<and>
     (\<forall>i k. mget (pt_keys p) i = Some k \<longrightarrow> mget (pt_keys p') i = Some (k\<lparr> pk_enabled := pk_enabled k \<and> \<not> revoked i \<rparr>)) \<and>
     (\<forall>i r. mget (pt_roles p) i = Some r \<longrightarrow> mget (pt_roles p') i = Some r) \<and>
     (\<forall>i u. mget (pt_users p) i = Some u \<longrightarrow> mget (pt_users p') i = Some u) \<and>
     (\<forall>i x. mget (pt_exports p) i = Some x \<longrightarrow> mget (pt_exports p') i = Some x)"

definition makes_key :: "string \<Rightarrow> portal_request \<Rightarrow> bool" where
  "makes_key h q \<longleftrightarrow> h = ''createApiKey'' \<and> \<not> doc_nullish (pq_body q)"

lemma mset_at_new: "k \<notin> set (map fst m) \<Longrightarrow> mset_at k v m = m @ [(k, v)]"
  unfolding mset_at_def by (induction m) auto

lemma mset_at_old: "k \<in> set (map fst m) \<Longrightarrow> map fst (mset_at k v m) = map fst m"
  unfolding mset_at_def by (induction m) auto

lemma mget_in: "mget m i = Some v \<Longrightarrow> i \<in> set (map fst m)"
  unfolding mget_def by (metis domI dom_map_of_conv_image_fst image_set)

lemma fresh_not_got: "u \<notin> set (map fst m) \<Longrightarrow> mget m u = None"
  unfolding mget_def by (simp add: map_of_eq_None_iff)

lemma unchanged_key [simp]: "k\<lparr> pk_enabled := pk_enabled k \<rparr> = (k :: portal_key)"
  by simp

lemma maker_effects:
  "\<exists>k. fst (pc_createApiKey q p) = (if doc_nullish (pq_body q) then p else p\<lparr> pt_keys := mset_at (pq_u1 q) k (pt_keys p) \<rparr>)"
  "\<exists>r. fst (pc_createRole q p) = p \<or> fst (pc_createRole q p) = p\<lparr> pt_roles := mset_at (pq_u1 q) r (pt_roles p) \<rparr>"
  "\<exists>u. fst (pc_createUser q p) = p \<or> fst (pc_createUser q p) = p\<lparr> pt_users := mset_at (pq_u1 q) u (pt_users p) \<rparr>"
  "\<exists>x. fst (pc_exportDeliveries q p) = p \<or> fst (pc_exportDeliveries q p) = p\<lparr> pt_exports := mset_at (pq_u1 q) x (pt_exports p) \<rparr>"
  "\<exists>fl. fst (pc_toggleFeatureFlag ds q p) = p \<or> fst (pc_toggleFeatureFlag ds q p) = p\<lparr> pt_flags := fl \<rparr>"
  by (auto simp: pc_createApiKey_def pc_createRole_def pc_createUser_def pc_exportDeliveries_def pc_toggleFeatureFlag_def with_body_def answered_def
      portal_createApiKey_def portal_createRole_def portal_createUser_def portal_createExportJob_def portal_toggleFeatureFlag_def Let_def
      split: jdoc.split)

lemma handle_entries:
  assumes "pq_u1 q \<notin> used_ids p"
  shows "entries_kept (\<lambda>i. h = ''revokeApiKey'' \<and> i = pq_param q) (if makes_key h q then [pq_u1 q] else []) p (fst (portal_handle ds memory wq h q p)) \<and>
    used_ids (fst (portal_handle ds memory wq h q p)) \<subseteq> insert (pq_u1 q) (used_ids p)"
proof (cases "h \<in> set makers")
  case False
  then obtain d where "fst (portal_handle ds memory wq h q p) = p\<lparr> pt_world := d \<rparr>" using handle_other unfolding keeps_maps_def by metis
  moreover have "h \<noteq> ''createApiKey''" "h \<noteq> ''revokeApiKey''" using False by (auto simp: makers_def)
  ultimately show ?thesis by (auto simp: entries_kept_def used_ids_def makes_key_def)
next
  case True
  have fresh: "mget (pt_keys p) (pq_u1 q) = None" "mget (pt_roles p) (pq_u1 q) = None" "mget (pt_users p) (pq_u1 q) = None" "mget (pt_exports p) (pq_u1 q) = None"
    "pq_u1 q \<notin> set (map fst (pt_keys p))" using assms by (auto simp: used_ids_def intro!: fresh_not_got)
  have "h = ''createApiKey'' \<or> h = ''revokeApiKey'' \<or> h = ''createRole'' \<or> h = ''createUser'' \<or> h = ''exportDeliveries'' \<or> h = ''toggleFeatureFlag''"
    using True unfolding makers_def list.set insert_iff empty_iff simp_thms .
  then show ?thesis
  proof (elim disjE, goal_cases)
    case 1
    obtain k where "fst (pc_createApiKey q p) = (if doc_nullish (pq_body q) then p else p\<lparr> pt_keys := mset_at (pq_u1 q) k (pt_keys p) \<rparr>)"
      using maker_effects(1) by blast
    then show ?case unfolding 1 handle_makers using fresh
      by (simp add: entries_kept_def used_ids_def makes_key_def mset_at_new [OF fresh(5)]) (auto simp: mget_def split: option.splits)
  next
    case 2
    have r: "fst (pc_revokeApiKey q p) = portal_revokeApiKey (pq_param q) p" by (simp add: pc_revokeApiKey_def)
    have unchanged: "k = k\<lparr> pk_enabled := pk_enabled k \<and> i \<noteq> pq_param q \<rparr>" if "mget (pt_keys p) (pq_param q) = None" "mget (pt_keys p) i = Some k" for i k
      using that by (cases "i = pq_param q") simp_all
    show ?case unfolding 2 handle_makers r
    proof (cases "mget (pt_keys p) (pq_param q)")
      case None
      then show "entries_kept (\<lambda>i. ''revokeApiKey'' = ''revokeApiKey'' \<and> i = pq_param q) (if makes_key ''revokeApiKey'' q then [pq_u1 q] else []) p
          (portal_revokeApiKey (pq_param q) p) \<and> used_ids (portal_revokeApiKey (pq_param q) p) \<subseteq> insert (pq_u1 q) (used_ids p)"
        using unchanged by (auto simp: portal_revokeApiKey_def entries_kept_def makes_key_def)
    next
      case (Some k)
      have old: "map fst (mset_at (pq_param q) v (pt_keys p)) = map fst (pt_keys p)" for v using mset_at_old [OF mget_in [OF Some]] .
      show "entries_kept (\<lambda>i. ''revokeApiKey'' = ''revokeApiKey'' \<and> i = pq_param q) (if makes_key ''revokeApiKey'' q then [pq_u1 q] else []) p
          (portal_revokeApiKey (pq_param q) p) \<and> used_ids (portal_revokeApiKey (pq_param q) p) \<subseteq> insert (pq_u1 q) (used_ids p)"
        using Some by (auto simp: portal_revokeApiKey_def entries_kept_def makes_key_def used_ids_def old simp del: mset_at_keys set_map)
    qed
  next
    case 3
    obtain r where "fst (pc_createRole q p) = p \<or> fst (pc_createRole q p) = p\<lparr> pt_roles := mset_at (pq_u1 q) r (pt_roles p) \<rparr>" using maker_effects(2) by blast
    then show ?case unfolding 3 handle_makers using fresh by (auto simp: entries_kept_def used_ids_def makes_key_def simp del: set_map)
  next
    case 4
    obtain u where "fst (pc_createUser q p) = p \<or> fst (pc_createUser q p) = p\<lparr> pt_users := mset_at (pq_u1 q) u (pt_users p) \<rparr>" using maker_effects(3) by blast
    then show ?case unfolding 4 handle_makers using fresh by (auto simp: entries_kept_def used_ids_def makes_key_def simp del: set_map)
  next
    case 5
    obtain x where "fst (pc_exportDeliveries q p) = p \<or> fst (pc_exportDeliveries q p) = p\<lparr> pt_exports := mset_at (pq_u1 q) x (pt_exports p) \<rparr>"
      using maker_effects(4) by blast
    then show ?case unfolding 5 handle_makers using fresh by (auto simp: entries_kept_def used_ids_def makes_key_def simp del: set_map)
  next
    case 6
    obtain fl where "fst (pc_toggleFeatureFlag ds q p) = p \<or> fst (pc_toggleFeatureFlag ds q p) = p\<lparr> pt_flags := fl \<rparr>" using maker_effects(5) by blast
    then show ?case unfolding 6 handle_makers by (auto simp: entries_kept_def used_ids_def makes_key_def simp del: set_map)
  qed
qed

lemma entries_kept_trans:
  "entries_kept r m p p' \<Longrightarrow> entries_kept r' m' p' p'' \<Longrightarrow> entries_kept (\<lambda>i. r i \<or> r' i) (m @ m') p p''"
  by (auto simp: entries_kept_def)
lemma portal_run_entries:
  assumes "distinct (map (\<lambda>(h, q). pq_u1 q) steps)" "\<forall>(h, q) \<in> set steps. pq_u1 q \<notin> used_ids p"
  shows "entries_kept (\<lambda>i. \<exists>(h, q) \<in> set steps. h = ''revokeApiKey'' \<and> i = pq_param q) (map (\<lambda>(h, q). pq_u1 q) (filter (\<lambda>(h, q). makes_key h q) steps)) p
    (portal_run ds memory wq steps p)"
  using assms
proof (induction steps arbitrary: p)
  case Nil
  then show ?case by (simp add: entries_kept_def)
next
  case (Cons s steps)
  obtain h q where s: "s = (h, q)" by (cases s)
  let ?p = "fst (portal_handle ds memory wq h q p)"
  have step: "entries_kept (\<lambda>i. h = ''revokeApiKey'' \<and> i = pq_param q) (if makes_key h q then [pq_u1 q] else []) p ?p" "used_ids ?p \<subseteq> insert (pq_u1 q) (used_ids p)"
    using handle_entries [of q p h] Cons.prems(2) s by auto
  have "\<forall>(h, q) \<in> set steps. pq_u1 q \<notin> used_ids ?p" using step(2) Cons.prems s by (fastforce simp: image_iff)
  then have "entries_kept (\<lambda>i. \<exists>(h, q) \<in> set steps. h = ''revokeApiKey'' \<and> i = pq_param q)
      (map (\<lambda>(h, q). pq_u1 q) (filter (\<lambda>(h, q). makes_key h q) steps)) ?p (portal_run ds memory wq steps ?p)"
    using Cons.prems(1) by (intro Cons.IH) auto
  from entries_kept_trans [OF step(1) this] show ?case unfolding s by (cases "makes_key h q") simp_all
qed

text \<open>Whatever is asked of the portal, what was made stays: keys are listed in the order in which they were made, with the name, tier and limits they
  were given, and are enabled until somebody revokes them, after which nothing enables them again; roles, users with the roles they were given,
  and exports stay as they are.\<close>
theorem portal_keeps_what_was_made:
  assumes "distinct (map (\<lambda>(h, q). pq_u1 q) steps)" "\<forall>(h, q) \<in> set steps. pq_u1 q \<notin> used_ids p"
    and after: "p' = portal_run ds memory wq steps p"
  shows "map fst (pt_keys p') = map fst (pt_keys p) @ map (\<lambda>(h, q). pq_u1 q) (filter (\<lambda>(h, q). makes_key h q) steps) \<and>
    (mget (pt_keys p) i = Some k \<longrightarrow> mget (pt_keys p') i =
       Some (k\<lparr> pk_enabled := pk_enabled k \<and> (\<forall>(h, q) \<in> set steps. \<not> (h = ''revokeApiKey'' \<and> pq_param q = i)) \<rparr>)) \<and>
    (mget (pt_roles p) i = Some r \<longrightarrow> mget (pt_roles p') i = Some r) \<and>
    (mget (pt_users p) i = Some u \<longrightarrow> mget (pt_users p') i = Some u) \<and>
    (mget (pt_exports p) i = Some x \<longrightarrow> mget (pt_exports p') i = Some x)"
proof -
  have "(\<not> (\<exists>(h, q) \<in> set steps. h = ''revokeApiKey'' \<and> i = pq_param q)) = (\<forall>(h, q) \<in> set steps. \<not> (h = ''revokeApiKey'' \<and> pq_param q = i))"
    by fastforce
  then show ?thesis using portal_run_entries [OF assms(1,2), of ds memory wq] unfolding entries_kept_def after by simp
qed

definition example_request :: "string \<Rightarrow> string \<Rightarrow> portal_request" where
  "example_request u i = \<lparr> pq_param = i, pq_query = (\<lambda>_. None), pq_body = Some (DObj [(''name'', DStr ''ci''), (''tier'', DStr ''FREE'')]), pq_u1 = u, pq_u2 = ''a-b'',
     pq_now = 0 \<rparr>"

definition example_deps :: "nat portal_deps" where
  "example_deps = \<lparr> pd_scheduleRetryService = no_object, pd_deliveryRepository = no_object, pd_auditRepository = no_object, pd_retryManager = True,
     pd_queueStats = None, pd_rows = None, pd_config = None, pd_shown = (\<lambda>_. []) \<rparr>"

definition example_portal :: "nat portal" where
  "example_portal = fst (portal_handle example_deps (0, 0) DNull ''createApiKey'' (example_request ''k1'' []) (portal_new 0))"

lemma example_portal_simps: "mget (pt_keys example_portal) ''k1'' = Some \<lparr> pk_id = ''k1'', pk_name = Some (DStr ''ci''), pk_tier = Some (DStr ''FREE''),
    pk_rateLimit = 100, pk_quotaLimit = DNum 10000, pk_enabled = True, pk_createdAt = 0 \<rparr>" "used_ids example_portal = {''k1'', ''role-admin''}"
  by (simp_all add: example_portal_def handle_makers pc_createApiKey_def with_body_def example_request_def portal_createApiKey_def Let_def doc_nullish_def
      doc_get_def doc_truthy_def used_ids_def portal_new_def RoleService_new_def mset_at_def mget_def insert_commute)

theorem portal_keeps_what_was_made_witness:
  "\<not> pk_enabled (the (mget (pt_keys (portal_run example_deps (0, 0) DNull
     [(''revokeApiKey'', example_request ''r1'' ''k1''), (''createRole'', example_request ''r2'' [])] example_portal)) ''k1''))"
proof -
  let ?steps = "[(''revokeApiKey'', example_request ''r1'' ''k1''), (''createRole'', example_request ''r2'' [])]"
  have "distinct (map (\<lambda>(h, q). pq_u1 q) ?steps)" "\<forall>(h, q) \<in> set ?steps. pq_u1 q \<notin> used_ids example_portal"
    by (simp_all add: example_request_def example_portal_simps)
  note portal_keeps_what_was_made [OF this refl, of example_deps "(0, 0)" DNull "''k1''", THEN conjunct2, THEN conjunct1, rule_format, OF example_portal_simps(1)]
  then show ?thesis by (simp add: example_request_def)
qed

subsection \<open>Batches of retries\<close>

definition portal_retry_ok :: "'d portal_deps \<Rightarrow> jdoc \<Rightarrow> 'd portal \<Rightarrow> bool" where
  "portal_retry_ok ds i p = (case snd (portal_retryDelivery ds (Some i) p) of Inl e \<Rightarrow> False | Inr _ \<Rightarrow> True)"

lemma portal_retryBatch_details:
  "map fst (snd (portal_retryBatch ds ids p)) = ids \<and>
   (\<forall>k < length ids. snd (snd (portal_retryBatch ds ids p) ! k) = None \<longleftrightarrow> portal_retry_ok ds (ids ! k) (fst (portal_retryBatch ds (take k ids) p)))"
proof (induction ids arbitrary: p)
  case (Cons i ids)
  let ?p = "fst (portal_retryDelivery ds (Some i) p)"
  have rec: "portal_retryBatch ds (i # xs) p = (fst (portal_retryBatch ds xs ?p),
      (i, case snd (portal_retryDelivery ds (Some i) p) of Inl e \<Rightarrow> Some e | Inr _ \<Rightarrow> None) # snd (portal_retryBatch ds xs ?p))" for xs
    by (simp split: prod.split)
  have "snd (snd (portal_retryBatch ds (i # ids) p) ! k) = None \<longleftrightarrow> portal_retry_ok ds ((i # ids) ! k) (fst (portal_retryBatch ds (take k (i # ids)) p))"
    if "k < length (i # ids)" for k
    using that Cons.IH [of ?p] unfolding rec
    by (cases k) (auto simp: portal_retry_ok_def rec simp del: portal_retryBatch.simps(2) split: sum.split)
  then show ?case using Cons.IH [of ?p] unfolding rec by simp
qed simp

lemma portal_retryBatch_without: "pd_scheduleRetryService ds ''scheduleRetry'' = None \<Longrightarrow> portal_retryBatch ds ids p = (p, map (\<lambda>i. (i, None)) ids)"
  by (induction ids) (simp_all add: portal_retryDelivery_def)

text \<open>A batch of retries tries each delivery of the list in order, whether the others failed or not, and reports which succeeded, with counts that add up to the length
  of the list. Without a retry service all of them succeed and nothing is done; a text in place of the list counts as the list of its characters.\<close>
theorem batch_retries_are_accounted:
  assumes "pq_body q = Some b" "b \<noteq> DNull" "iterated (array_or_empty (doc_get b ''deliveryIds'')) = Some ids"
  shows "\<exists>p' done_count failed_count details. portal_handle ds memory wq ''retryBatch'' q p = (p', Inr (200, OfBatch done_count failed_count details)) \<and>
    map fst details = ids \<and> done_count + failed_count = int (length ids) \<and>
    done_count = int (card {k. k < length ids \<and> portal_retry_ok ds (ids ! k) (fst (portal_retryBatch ds (take k ids) p))}) \<and>
    (\<forall>k < length ids. snd (details ! k) = None \<longleftrightarrow> portal_retry_ok ds (ids ! k) (fst (portal_retryBatch ds (take k ids) p))) \<and>
    (pd_scheduleRetryService ds ''scheduleRetry'' = None \<longrightarrow> p' = p \<and> failed_count = 0)"
proof -
  let ?r = "portal_retryBatch ds ids p"
  have h: "portal_handle ds memory wq ''retryBatch'' q p = pc_retryBatch ds q p" unfolding portal_handle_def by simp
  have run: "portal_handle ds memory wq ''retryBatch'' q p = (fst ?r, Inr (200, OfBatch (int (length (filter (\<lambda>x. snd x = None) (snd ?r))))
      (int (length (filter (\<lambda>x. snd x \<noteq> None) (snd ?r)))) (snd ?r)))"
    using assms unfolding h by (simp add: pc_retryBatch_def with_body_def doc_nullish_def split: prod.split)
  note d = portal_retryBatch_details [of ds ids p]
  have len: "length (snd ?r) = length ids" using d by (metis length_map)
  have "length (filter (\<lambda>x. snd x = None) (snd ?r)) + length (filter (\<lambda>x. snd x \<noteq> None) (snd ?r)) = length ids"
    using sum_length_filter_compl [of "\<lambda>x. snd x = None" "snd ?r"] len by simp
  moreover have "length (filter (\<lambda>x. snd x = None) (snd ?r)) =
      card {k. k < length ids \<and> portal_retry_ok ds (ids ! k) (fst (portal_retryBatch ds (take k ids) p))}"
    unfolding length_filter_conv_card len using d by (intro arg_cong [of _ _ card]) blast
  ultimately show ?thesis using d portal_retryBatch_without [of ds ids p] unfolding run by (intro exI conjI refl) (auto simp: o_def)
qed

theorem batch_retries_are_accounted_witness:
  "\<exists>details. portal_handle example_deps (0, 0) DNull ''retryBatch'' ((example_request ''u'' [])\<lparr> pq_body := Some (DObj [(''deliveryIds'', DStr ''ab'')]) \<rparr>) example_portal =
     (example_portal, Inr (200, OfBatch 2 0 details)) \<and> map fst details = [DStr ''a'', DStr ''b'']"
proof -
  let ?q = "(example_request ''u'' [])\<lparr> pq_body := Some (DObj [(''deliveryIds'', DStr ''ab'')]) \<rparr>"
  have "pq_body ?q = Some (DObj [(''deliveryIds'', DStr ''ab'')])" by simp
  moreover have "iterated (array_or_empty (doc_get (DObj [(''deliveryIds'', DStr ''ab'')]) ''deliveryIds'')) = Some [DStr ''a'', DStr ''b'']" by code_simp
  moreover have "pd_scheduleRetryService example_deps ''scheduleRetry'' = None" by (simp add: example_deps_def no_object_def)
  ultimately show ?thesis using batch_retries_are_accounted [of ?q _ "[DStr ''a'', DStr ''b'']" example_deps "(0, 0)" DNull example_portal] by force
qed

subsection \<open>What the controls and views do\<close>

definition view_handlers :: "string list" where
  "view_handlers = [''getDashboard'', ''getQueueStats'', ''analyzeDLQ'', ''listWorkers'', ''listDaemons'', ''generateComplianceReport'', ''getPerformanceMetrics'', ''getOverview'']"

lemma view_handler:
  assumes "h \<in> set view_handlers"
  shows "portal_handle ds memory wq h q p = (p, snd (portal_handle ds memory wq h q p0))"
proof -
  have "h = ''getDashboard'' \<or> h = ''getQueueStats'' \<or> h = ''analyzeDLQ'' \<or> h = ''listWorkers'' \<or> h = ''listDaemons'' \<or> h = ''generateComplianceReport'' \<or>
      h = ''getPerformanceMetrics'' \<or> h = ''getOverview''"
    using assms unfolding view_handlers_def list.set insert_iff empty_iff simp_thms .
  then show ?thesis unfolding portal_handle_def portal_view_defs by (elim disjE) simp_all
qed

lemma get_routes_read: "\<forall>(v, pat, h) \<in> set portal_routes. v = GET \<longrightarrow> h \<notin> set makers"
  by code_simp

lemma no_download_route: "lower u \<noteq> ''status'' \<Longrightarrow> find (\<lambda>(w, pat, _). w = GET \<and> path_matches pat [''exports'', u, ''download'']) portal_routes = None"
  by (rule ccontr) (auto simp: portal_routes_def)

text \<open>The portal's controls of workers and daemons, and its recovery of a dead letter when there is no retry service, answer that it is done and do nothing. What it shows of
  workers, daemons, dead letters and performance is the same whatever happened before, and no request that reads changes
  what the portal keeps. An export is completed as soon as it is asked for, but its download has no route.\<close>
theorem portal_controls_only_answer:
  assumes "hs ''x-admin-key'' = Some (c # s)" "control \<in> {''pauseWorker'', ''resumeWorker'', ''triggerDaemon''}"
  shows "(\<exists>m. portal_handle ds memory wq control q p = (p, Inr (200, Message m))) \<and>
    (pd_scheduleRetryService ds ''scheduleRetry'' = None \<longrightarrow>
       portal_handle ds memory wq ''recoverDLQItem'' q p = (p, Inr (200, OfRecovery (pq_param q)))) \<and>
    (h \<in> set view_handlers \<longrightarrow> portal_handle ds memory wq h q p = (p, snd (portal_handle ds memory wq h q p0))) \<and>
    ((GET, pat, h') \<in> set portal_routes \<longrightarrow> keeps_maps p (fst (portal_handle ds memory wq h' q p))) \<and>
    (pq_body q = Some b \<and> b \<noteq> DNull \<and> lower (pq_u1 q) \<noteq> ''status'' \<longrightarrow> (\<exists>job. portal_handle ds memory wq ''exportDeliveries'' q p = (p\<lparr> pt_exports := mset_at (pq_u1 q) job (pt_exports p) \<rparr>, Inr (202, OfExport job)) \<and>
       px_downloadUrl job = ''/admin/exports/'' @ pq_u1 q @ ''/download'') \<and> portal_dispatch hs GET [''exports'', pq_u1 q, ''download''] = (GoOn, None))"
proof -
  have "control = ''pauseWorker'' \<or> control = ''resumeWorker'' \<or> control = ''triggerDaemon''" using assms(2) by blast
  then have "\<exists>m. portal_handle ds memory wq control q p = (p, Inr (200, Message m))" unfolding portal_handle_def portal_view_defs by (elim disjE) simp_all
  moreover have "portal_handle ds memory wq ''recoverDLQItem'' q p = (p, Inr (200, OfRecovery (pq_param q)))" if "pd_scheduleRetryService ds ''scheduleRetry'' = None"
  proof -
    have "portal_handle ds memory wq ''recoverDLQItem'' q p = pc_recoverDLQItem ds q p" unfolding portal_handle_def by simp
    then show ?thesis using that by (simp add: pc_recoverDLQItem_def portal_recoverDLQItem_def portal_retryDelivery_def answered_def)
  qed
  moreover have "keeps_maps p (fst (portal_handle ds memory wq h' q p))" if "(GET, pat, h') \<in> set portal_routes"
    using handle_other bspec [OF get_routes_read that] by blast
  moreover have "\<exists>job. portal_handle ds memory wq ''exportDeliveries'' q p = (p\<lparr> pt_exports := mset_at (pq_u1 q) job (pt_exports p) \<rparr>, Inr (202, OfExport job)) \<and>
       px_downloadUrl job = ''/admin/exports/'' @ pq_u1 q @ ''/download''" if "pq_body q = Some b \<and> b \<noteq> DNull"
    using that unfolding handle_makers by (simp add: pc_exportDeliveries_def with_body_def doc_nullish_def portal_createExportJob_def Let_def)
  moreover have "portal_dispatch hs GET [''exports'', pq_u1 q, ''download''] = (GoOn, None)" if "lower (pq_u1 q) \<noteq> ''status''"
    using assms(1) that no_download_route [of "pq_u1 q"] by (simp add: portal_dispatch_def portal_auth_def)
  ultimately show ?thesis using view_handler [of h ds memory wq q p p0] by blast
qed

theorem portal_controls_only_answer_witness:
  "portal_handle example_deps (0, 0) DNull ''recoverDLQItem'' (example_request ''u'' ''d1'') example_portal = (example_portal, Inr (200, OfRecovery ''d1''))"
proof -
  have "[''x-admin-key'' \<mapsto> ''x''] ''x-admin-key'' = Some (CHR ''x'' # [])" "''pauseWorker'' \<in> {''pauseWorker'', ''resumeWorker'', ''triggerDaemon''}" by simp_all
  from portal_controls_only_answer [where hs = "[''x-admin-key'' \<mapsto> ''x'']", OF this, of example_deps "(0, 0)" DNull "example_request ''u'' ''d1''" example_portal, THEN conjunct2, THEN conjunct1]
  show ?thesis by (simp add: example_deps_def no_object_def example_request_def)
qed

subsection \<open>Pages of the portal\<close>

text \<open>Pages start at 1 and hold 1 to 100 entries (50 unless asked), whatever the query says; numbers in it are taken. With no more pages than needed all entries
  are on one of them. The direction of sorting is one of the two.\<close>
theorem portal_pages_are_bounded:
  assumes "snd (portal_listDeliveries ds filters p) = Inr g"
  shows "1 \<le> pp_limit g \<and> pp_limit g \<le> 100 \<and> \<not> below (pp_page g) 1 \<and>
    (filters ''limit'' = Some (DStr (show_nat n)) \<and> 1 \<le> n \<longrightarrow> pp_limit g = min (int n) 100) \<and>
    (filters ''page'' = Some (DStr (show_nat n)) \<and> 1 \<le> n \<longrightarrow> pp_page g = Fin (of_nat n)) \<and>
    (filters ''limit'' = None \<longrightarrow> pp_limit g = 50) \<and>
    (pp_total g = DNum x \<and> 0 < x \<longrightarrow> (of_int (portal_pages g) - 1) * of_int (pp_limit g) < x \<and> x \<le> of_int (portal_pages g) * of_int (pp_limit g)) \<and>
    snd (validateSort sort_by) \<in> {''asc'', ''desc''} \<and> fst (validateSort sort_by) \<noteq> []"
proof -
  have g: "pp_page g = validatePage (query_number (filters ''page''))" "pp_limit g = validateLimit (query_number (filters ''limit''))"
    using assms by (auto simp: portal_listDeliveries_def Let_def empty_page_def portal_found_page_def split: option.splits prod.splits sum.splits if_splits)
  have l: "1 \<le> validateLimit v \<and> validateLimit v \<le> 100" for v
    by (auto simp: validateLimit_def below_def le_floor_iff split: option.split js_num.split)
  have pg: "\<not> below (validatePage v) 1" for v
    by (auto simp: validatePage_def below_def not_less split: option.split js_num.split)
  have q: "query_number (Some (DStr (show_nat n))) = Some (Fin (of_nat n))"
    by (simp add: query_number_def doc_truthy_def)
  have lim: "validateLimit (Some (Fin (of_nat n))) = min (int n) 100" "validatePage (Some (Fin (of_nat n))) = Fin (of_nat n)" if "1 \<le> n"
    using that by (simp_all add: validateLimit_def validatePage_def below_def)
  have pages: "(of_int (portal_pages g) - 1) * of_int (pp_limit g) < x \<and> x \<le> of_int (portal_pages g) * of_int (pp_limit g)" if "pp_total g = DNum x" "0 < x"
  proof -
    have pos: "0 < (of_int (pp_limit g) :: rat)" using l g(2) by (smt (verit) of_int_0_less_iff)
    then have "0 < x / of_int (pp_limit g)" using that(2) by simp
    then have c: "0 < \<lceil>x / of_int (pp_limit g)\<rceil>" by (simp only: zero_less_ceiling)
    have n: "portal_pages g = \<lceil>x / of_int (pp_limit g)\<rceil>" using less_imp_neq [OF c, THEN not_sym]
      by (simp only: portal_pages_def that(1) jdoc.case Let_def if_False)
    have "of_int \<lceil>x / of_int (pp_limit g)\<rceil> - 1 < x / of_int (pp_limit g)" "x / of_int (pp_limit g) \<le> of_int \<lceil>x / of_int (pp_limit g)\<rceil>"
      using ceiling_correct [of "x / of_int (pp_limit g)"] by blast+
    then show ?thesis unfolding n by (simp only: less_divide_eq divide_le_eq pos if_True simp_thms)
  qed
  have "snd (validateSort sort_by) \<in> {''asc'', ''desc''}" "fst (validateSort sort_by) \<noteq> []" by (auto simp: validateSort_def Let_def)
  then show ?thesis using l [of "query_number (filters ''limit'')"] pg g q lim pages by (auto simp: query_number_def doc_truthy_def validateLimit_def)
qed

theorem portal_pages_are_bounded_witness:
  "\<exists>g. snd (portal_listDeliveries example_deps [''limit'' \<mapsto> DStr (show_nat 500)] example_portal) = Inr g \<and> pp_limit g = 100"
proof -
  obtain g where g: "snd (portal_listDeliveries example_deps [''limit'' \<mapsto> DStr (show_nat 500)] example_portal) = Inr g"
    by (simp add: portal_listDeliveries_def Let_def example_deps_def no_object_def)
  from portal_pages_are_bounded [OF g, of 500] have "pp_limit g = min (int 500) 100" by (metis (no_types) fun_upd_same one_le_numeral)
  then show ?thesis using g by simp
qed

end
