(* ===== verification/QF_Analytics.thy ===== *)
theory QF_Analytics
  imports QF_Cache QF_Util QF_Redis
begin

text \<open>
  Analytics and the console (\<open>analytics\<close>, \<open>admin\<close>): the check of ad-hoc queries, exports as CSV and JSON, whole and streamed, the cache of query
  results, insights, reports and custom metrics; the planner, the latency analyzer and the serializer of the console.

  Rows are objects in the order of their properties, with names that are no array indices. Redis is the parameter of \<open>QF_Redis\<close>. Wiring, logging and
  answers without content are left out. Shown: which queries pass, what can be read back of a CSV file, what streaming makes of it, that the cache
  keeps its values, and what the percentiles promise.
\<close>

subsection \<open>Queries\<close>

definition destructiveKeywords :: "string list" where
  "destructiveKeywords = [''drop'', ''delete'', ''update'', ''insert'', ''alter'', ''truncate'', ''grant'', ''revoke'']"

text \<open>The reason a query is refused, if it is.\<close>

definition qv_validate :: "string \<Rightarrow> string option" where
  "qv_validate sql = (let sanitized = trim (lower sql) in
     case find (includes_str sanitized) destructiveKeywords of
       Some word \<Rightarrow> Some (''SQL contains unauthorized query keywords: '' @ word)
     | None \<Rightarrow> if \<not> starts_with ''select'' sanitized then Some ''SQL must start with SELECT read operations.'' else None)"

definition adhoc_run :: "string \<Rightarrow> string + (string \<times> rat) list list" where
  "adhoc_run sql = (case qv_validate sql of Some reason \<Rightarrow> Inl reason | None \<Rightarrow> Inr [[(''totalCount'', 14500), (''averageLatency'', 452 / 10)]])"

record query_config =
  qb_tableName :: string
  qb_selectFields :: "string list"
  qb_filterCondition :: "string option"
  qb_orderByField :: "string option"

definition qb_new :: "string \<Rightarrow> query_config" where
  "qb_new tableName = \<lparr> qb_tableName = tableName, qb_selectFields = [''*''], qb_filterCondition = None, qb_orderByField = None \<rparr>"

definition qb_select :: "string list \<Rightarrow> query_config \<Rightarrow> query_config" where
  "qb_select names c = c\<lparr> qb_selectFields := names \<rparr>"

definition qb_filterBy :: "string \<Rightarrow> query_config \<Rightarrow> query_config" where
  "qb_filterBy condition c = c\<lparr> qb_filterCondition := Some condition \<rparr>"

definition qb_orderBy :: "string \<Rightarrow> query_config \<Rightarrow> query_config" where
  "qb_orderBy field c = c\<lparr> qb_orderByField := Some field \<rparr>"

definition qb_build :: "query_config \<Rightarrow> query_config" where
  "qb_build c = c"

subsection \<open>Exports\<close>

text \<open>Texts with something between them; \<open>String(v)\<close>, in which \<open>null\<close> in an array is empty.\<close>

fun joined :: "string \<Rightarrow> string list \<Rightarrow> string" where
  "joined sep [] = []"
| "joined sep [x] = x"
| "joined sep (x # y # xs) = x @ sep @ joined sep (y # xs)"

primrec json_String :: "json \<Rightarrow> string" where
  "json_String JNull = ''null''"
| "json_String (JBool b) = bool_text b"
| "json_String (JNum n) = show_int n"
| "json_String (JStr s) = s"
| "json_String (JArr xs) = joined '','' (map (\<lambda>(x, t). if x = JNull then [] else t) (zip xs (map json_String xs)))"
| "json_String (JObj ps) = ''[object Object]''"

type_synonym export_row = "(string \<times> json) list"

definition csv_cell :: "export_row \<Rightarrow> string \<Rightarrow> string" where
  "csv_cell row header = (case map_of row header of None \<Rightarrow> ''undefined'' | Some (JStr s) \<Rightarrow> CHR 0x22 # s @ [CHR 0x22] | Some v \<Rightarrow> json_String v)"

definition csv_line :: "string list \<Rightarrow> export_row \<Rightarrow> string" where
  "csv_line headers row = joined '','' (map (csv_cell row) headers)"

definition csv_format :: "export_row list \<Rightarrow> string" where
  "csv_format rows = (case rows of [] \<Rightarrow> [] | r # _ \<Rightarrow> joined [CHR 0x0A] (joined '','' (map fst r) # map (csv_line (map fst r)) rows))"

text \<open>\<open>JSON.stringify(v, null, 2)\<close>\<close>

definition indented :: "nat \<Rightarrow> string list \<Rightarrow> string" where
  "indented n ts = joined ('','' @ [CHR 0x0A]) (map (\<lambda>t. replicate (n + 2) CHR '' '' @ t) ts)"

primrec json_pretty :: "json \<Rightarrow> nat \<Rightarrow> string" where
  "json_pretty JNull = (\<lambda>n. ''null'')"
| "json_pretty (JBool b) = (\<lambda>n. bool_text b)"
| "json_pretty (JNum i) = (\<lambda>n. show_int i)"
| "json_pretty (JStr s) = (\<lambda>n. quote s)"
| "json_pretty (JArr xs) = (\<lambda>n. if xs = [] then ''[]''
     else ''['' @ [CHR 0x0A] @ indented n (map (\<lambda>p. p (n + 2)) (map json_pretty xs)) @ [CHR 0x0A] @ replicate n CHR '' '' @ '']'')"
| "json_pretty (JObj ps) = (\<lambda>n. if ps = [] then ''{}''
     else ''{'' @ [CHR 0x0A] @ indented n (map (\<lambda>(k, p). quote k @ '': '' @ p (n + 2)) (map (map_prod id json_pretty) ps)) @ [CHR 0x0A] @ replicate n CHR '' '' @ ''}'')"

definition json_format :: "export_row list \<Rightarrow> string" where
  "json_format rows = json_pretty (JArr (map JObj rows)) 0"

definition mock_rows :: "string option \<Rightarrow> ms option \<Rightarrow> export_row list" where
  "mock_rows status now = map (\<lambda>i. [(''id'', JStr i), (''status'', JStr (str_or status ''SUCCESS''))] @
     (case now of None \<Rightarrow> [] | Some t \<Rightarrow> [(''timestamp'', JStr (toISOString t))])) [''del-1'', ''del-2'']"

definition analytics_exportDeliveries :: "string option \<Rightarrow> bool \<Rightarrow> ms \<Rightarrow> nat \<times> string" where
  "analytics_exportDeliveries status csv now = (let rows = mock_rows status (Some now) in (length rows, if csv then csv_format rows else json_format rows))"

text \<open>The stream: each reading takes one row off and gives its file, or the end.\<close>

definition stream_read :: "(export_row list \<Rightarrow> string) \<Rightarrow> export_row list \<Rightarrow> export_row list \<times> string option" where
  "stream_read format rows = (if rows = [] then ([], None) else (drop 1 rows, Some (format (take 1 rows))))"

fun stream_all :: "(export_row list \<Rightarrow> string) \<Rightarrow> export_row list \<Rightarrow> string list" where
  "stream_all format [] = []"
| "stream_all format (r # rs) = (case stream_read format (r # rs) of (_, None) \<Rightarrow> [] | (_, Some chunk) \<Rightarrow> chunk # stream_all format rs)"

definition streamDeliveries :: "string option \<Rightarrow> (export_row list \<Rightarrow> string) \<Rightarrow> string list" where
  "streamDeliveries status format = stream_all format (mock_rows status None)"

subsection \<open>Cache, insights, reports and metrics\<close>

definition analytics_key :: "string \<Rightarrow> string" where
  "analytics_key k = ''analytics:cache:'' @ k"

definition cacheResult :: "(string, 's) redis \<Rightarrow> ms \<Rightarrow> string \<Rightarrow> json \<Rightarrow> int option \<Rightarrow> 's \<Rightarrow> 's" where
  "cacheResult rd now k v ttlSeconds s = rd_set rd now (analytics_key k) (stringify v) (Some (nullish_or ttlSeconds 300 * 1000)) s"

text \<open>The inner \<open>None\<close> is a text that is not JSON, which throws.\<close>

definition getCachedResult :: "(string, 's) redis \<Rightarrow> ms \<Rightarrow> string \<Rightarrow> 's \<Rightarrow> jdoc option option" where
  "getCachedResult rd now k s = (case rd_get rd now (analytics_key k) s of None \<Rightarrow> Some None
     | Some raw \<Rightarrow> if raw = [] then Some None else map_option Some (json_parse raw))"

record insight =
  in_id :: string
  in_type :: string
  in_summary :: string
  in_detectedAt :: ms

definition generateInsights :: "ms \<Rightarrow> insight list" where
  "generateInsights now = [\<lparr> in_id = ''ins-'' @ show_int now, in_type = ''latency'', in_summary = ''P95 latency improved by 12% over the last 24 hours.'', in_detectedAt = now \<rparr>]"

definition saveInsight :: "insight \<Rightarrow> (string, insight) js_map \<Rightarrow> (string, insight) js_map" where
  "saveInsight i m = mset_at (in_id i) i m"

definition analytics_getInsights :: "ms \<Rightarrow> (string, insight) js_map \<Rightarrow> (string, insight) js_map \<times> insight list" where
  "analytics_getInsights now m = (let insights = map snd m in
     if insights = [] then (fold saveInsight (generateInsights now) m, generateInsights now) else (m, insights))"

record business_metrics =
  bm_totalProcessed :: int
  bm_successRate :: rat
  bm_costEstimate :: rat

definition calculateMetrics :: business_metrics where
  "calculateMetrics = \<lparr> bm_totalProcessed = 14500, bm_successRate = 9995 / 100, bm_costEstimate = 1812 / 100 \<rparr>"

record analytics_report =
  ar_id :: string
  ar_type :: string
  ar_generatedAt :: ms
  ar_metrics :: business_metrics
  ar_insights :: "insight list"

definition generateReport :: "string \<Rightarrow> ms \<Rightarrow> analytics_report" where
  "generateReport type now = \<lparr> ar_id = ''rep-'' @ show_int now, ar_type = type, ar_generatedAt = now, ar_metrics = calculateMetrics, ar_insights = generateInsights now \<rparr>"

definition rc_generateReport :: "string option \<Rightarrow> ms \<Rightarrow> analytics_report" where
  "rc_generateReport type now = generateReport (if type = Some ''weekly'' then ''weekly'' else ''daily'') now"

definition ec_exportDeliveries :: "string option \<Rightarrow> string option \<Rightarrow> ms \<Rightarrow> (string \<times> string) list \<times> string" where
  "ec_exportDeliveries status format now = (let csv = (format = Some ''csv'') in
     ([(''Content-Disposition'', ''attachment; filename=deliveries-export.'' @ (if csv then ''csv'' else ''json'')),
       (''Content-Type'', if csv then ''text/csv'' else ''application/json'')], snd (analytics_exportDeliveries status csv now)))"

record export_schedule =
  es_id :: string
  es_format :: string
  es_cronExpression :: string

definition scheduleRecurringExport :: "string \<Rightarrow> string \<Rightarrow> ms \<Rightarrow> export_schedule" where
  "scheduleRecurringExport format cron now = \<lparr> es_id = ''sched-'' @ show_int now, es_format = format, es_cronExpression = cron \<rparr>"

definition ec_scheduleRecurringExport :: "string option \<Rightarrow> string option \<Rightarrow> ms \<Rightarrow> export_schedule" where
  "ec_scheduleRecurringExport format cron now =
     scheduleRecurringExport (if format = Some ''csv'' then ''csv'' else ''json'') (str_or cron ''0 0 * * *'') now"

record custom_metric =
  cx_name :: string
  cx_value :: rat
  cx_timestamp :: ms

definition defineMetric :: "string \<Rightarrow> rat \<Rightarrow> ms \<Rightarrow> (string, custom_metric) js_map \<Rightarrow> (string, custom_metric) js_map" where
  "defineMetric name val now m = mset_at name \<lparr> cx_name = name, cx_value = val, cx_timestamp = now \<rparr> m"

definition queryMetric :: "string \<Rightarrow> (string, custom_metric) js_map \<Rightarrow> custom_metric option" where
  "queryMetric name m = mget m name"

subsection \<open>The console\<close>

fun grow :: "nat \<Rightarrow> rat \<Rightarrow> rat \<Rightarrow> rat" where
  "grow 0 rate projected = projected"
| "grow (Suc n) rate projected = grow n rate (projected + projected * (rate / 100))"

definition projectGrowth :: "rat \<Rightarrow> rat \<Rightarrow> int option \<Rightarrow> rat" where
  "projectGrowth currentBytes monthlyRatePercent monthsCount = grow (nat (nullish_or monthsCount 6)) monthlyRatePercent currentBytes"

text \<open>\<open>sorted[Math.ceil(sorted.length * q) - 1] || 0\<close>\<close>

definition ranked :: "rat list \<Rightarrow> rat \<Rightarrow> rat" where
  "ranked sorted_values q = (let i = \<lceil>of_nat (length sorted_values) * q\<rceil> - 1 in
     if 0 \<le> i \<and> i < int (length sorted_values) then sorted_values ! nat i else 0)"

record latency_profile =
  lt_p50 :: rat
  lt_p95 :: rat
  lt_recommendations :: "string list"

definition pa_analyze :: "rat list \<Rightarrow> latency_profile" where
  "pa_analyze latenciesMs = (if latenciesMs = [] then \<lparr> lt_p50 = 0, lt_p95 = 0, lt_recommendations = [] \<rparr>
     else let xs = sort_key (\<lambda>x. x) latenciesMs; p95Val = ranked xs (95 / 100) in
       \<lparr> lt_p50 = ranked xs (1 / 2), lt_p95 = p95Val,
         lt_recommendations = (if p95Val > 3500 then [''Ingestion latency P95 exceeds SLO. Scale up worker nodes allocations.''] else []) \<rparr>)"

record console_queue =
  kq_waiting :: int
  kq_active :: int
  kq_completed :: int
  kq_failed :: int
  kq_delayed :: int

definition buildQueueStats :: console_queue where
  "buildQueueStats = \<lparr> kq_waiting = 12, kq_active = 4, kq_completed = 14500, kq_failed = 4, kq_delayed = 0 \<rparr>"

definition serializeQueueStats :: "console_queue \<Rightarrow> console_queue \<times> int" where
  "serializeQueueStats s = (s, kq_waiting s + kq_active s + kq_completed s + kq_failed s + kq_delayed s)"

subsection \<open>Which queries pass\<close>

lemma includes_str_iff: "includes_str s p \<longleftrightarrow> (\<exists>a b. s = a @ p @ b)"
proof (induction s)
  case (Cons c s)
  have "(\<exists>a b. c # s = a @ p @ b) \<longleftrightarrow> (\<exists>b. c # s = p @ b) \<or> (\<exists>a b. s = a @ p @ b)"
    by (metis append_Cons append_Nil list.exhaust list.inject)
  then show ?case using Cons.IH by (simp add: starts_with_iff)
qed simp

lemma qv_validate_iff: "qv_validate sql = None \<longleftrightarrow> starts_with ''select'' (trim (lower sql)) \<and> (\<forall>word \<in> set destructiveKeywords. \<not> includes_str (trim (lower sql)) word)"
proof (cases "find (includes_str (trim (lower sql))) destructiveKeywords")
  case None
  then have "\<forall>word \<in> set destructiveKeywords. \<not> includes_str (trim (lower sql)) word" by (auto simp: find_None_iff)
  then show ?thesis using None by (simp add: qv_validate_def Let_def)
next
  case (Some word)
  then have "word \<in> set destructiveKeywords \<and> includes_str (trim (lower sql)) word" unfolding find_Some_iff by (metis nth_mem)
  then show ?thesis using Some by (auto simp: qv_validate_def)
qed

lemma dropWhile_infix: "w \<noteq> [] \<Longrightarrow> \<not> is_space (hd w) \<Longrightarrow> \<exists>x'. dropWhile is_space (x @ w @ y) = x' @ w @ y"
  by (induction x) (cases w; auto)+

lemma trim_infix:
  assumes "w \<noteq> []" "\<not> is_space (hd w)" "\<not> is_space (last w)"
  shows "\<exists>a b. trim (x @ w @ y) = a @ w @ b"
proof -
  obtain x' where x': "dropWhile is_space (x @ w @ y) = x' @ w @ y" using dropWhile_infix [OF assms(1,2)] by blast
  have "rev w \<noteq> []" "\<not> is_space (hd (rev w))" using assms by (simp_all add: hd_rev)
  then obtain y' where "dropWhile is_space (rev y @ rev w @ rev x') = y' @ rev w @ rev x'" using dropWhile_infix by blast
  then have "trim (x @ w @ y) = x' @ w @ rev y'" by (simp add: trim_def x')
  then show ?thesis by blast
qed

text \<open>A query is run if and only if it begins with \<open>select\<close> and has none of the words anywhere in it, in whatever case. A word counts inside another: a query that
  names a column like \<open>updatedAt\<close> or \<open>deletedAt\<close> is refused, a query that calls a function is not. The rows are the same for every query that is
  run.\<close>
theorem queries_are_filtered_by_words:
  assumes "ok = (\<lambda>q. \<exists>rows. adhoc_run q = Inr rows)"
  shows "(ok sql \<longleftrightarrow> starts_with ''select'' (trim (lower sql)) \<and> (\<forall>word \<in> set destructiveKeywords. \<nexists>a b. trim (lower sql) = a @ word @ b)) \<and>
    (ok sql \<and> ok sql' \<longrightarrow> adhoc_run sql = adhoc_run sql') \<and>
    \<not> ok (''SELECT '' @ c @ ''updatedAt'' @ r) \<and> ok ''SELECT pg_sleep(1000)''"
proof -
  have ok: "ok q \<longleftrightarrow> qv_validate q = None" for q unfolding assms by (simp add: adhoc_run_def split: option.split)
  have "lower (''SELECT '' @ c @ ''updatedAt'' @ r) = lower (''SELECT '' @ c) @ ''update'' @ lower (''dAt'' @ r)"
  proof -
    have "lower ''updatedAt'' = ''update'' @ lower ''dAt''" by code_simp
    then show ?thesis by (simp only: lower_def map_append append.assoc)
  qed
  moreover have "\<exists>a b. trim (x @ ''update'' @ y) = a @ ''update'' @ b" for x y
    by (rule trim_infix) code_simp+
  ultimately have "\<exists>a b. trim (lower (''SELECT '' @ c @ ''updatedAt'' @ r)) = a @ ''update'' @ b" by metis
  then have "\<not> ok (''SELECT '' @ c @ ''updatedAt'' @ r)" unfolding ok qv_validate_iff includes_str_iff
    unfolding destructiveKeywords_def list.set by blast
  moreover have "ok ''SELECT pg_sleep(1000)''" unfolding ok by code_simp
  moreover have "ok sql \<and> ok sql' \<longrightarrow> adhoc_run sql = adhoc_run sql'" unfolding ok by (simp add: adhoc_run_def)
  ultimately show ?thesis using ok [of sql] unfolding qv_validate_iff includes_str_iff by blast
qed

theorem queries_are_filtered_by_words_witness:
  "\<not> (\<exists>rows. adhoc_run (''SELECT '' @ ''max('' @ ''updatedAt'' @ '') FROM deliveries'') = Inr rows)"
  using queries_are_filtered_by_words [OF refl, of "''SELECT 1''" "''SELECT 2''" "''max(''" "'') FROM deliveries''"] by blast
subsection \<open>Files\<close>

lemma length_split_on: "length (split_on d s) = Suc (length (filter (\<lambda>c. c = d) s))"
  by (induction s) (auto split: list.splits)

lemma split_on_snoc_sep: "split_on d (a @ d # s) = split_on d a @ split_on d s"
  by (induction a) (auto split: list.splits)

lemma joined_Cons: "ts \<noteq> [] \<Longrightarrow> joined sep (t # ts) = t @ sep @ joined sep ts"
  by (cases ts) simp_all

lemma split_on_joined: "ts \<noteq> [] \<Longrightarrow> split_on d (joined [d] ts) = concat (map (split_on d) ts)"
proof (induction ts)
  case (Cons t ts)
  then show ?case by (cases "ts = []") (simp_all add: joined_Cons split_on_snoc_sep)
qed simp

lemma concat_split_fresh: "\<forall>t \<in> set ts. d \<notin> set t \<Longrightarrow> concat (map (split_on d) ts) = ts"
  by (induction ts) (simp_all add: split_on_fresh)

lemma joined_chars: "set (joined sep ts) \<subseteq> set sep \<union> (\<Union>t \<in> set ts. set t)"
  by (induction sep ts rule: joined.induct) auto

text \<open>A table whose names and values have neither commas nor line breaks is read back by cutting at them: the names, then each row with its values in the order of the
  first row's names, texts between quotation marks. Quotation marks do not protect anything: every comma in a value makes one more field of its
  line, so that what follows is in the wrong column.\<close>
theorem csv_tables_read_back:
  assumes "rows \<noteq> []" and heads: "headers = map fst (hd rows)" "headers \<noteq> []"
    and plain: "plain = (\<lambda>row. \<forall>h \<in> set headers. CHR '','' \<notin> set (csv_cell row h) \<and> CHR 0x0A \<notin> set (csv_cell row h))"
  shows "((\<forall>h \<in> set headers. CHR '','' \<notin> set h \<and> CHR 0x0A \<notin> set h) \<and> (\<forall>row \<in> set rows. plain row) \<longrightarrow>
      map (split_on CHR '','') (split_on CHR 0x0A (csv_format rows)) = headers # map (\<lambda>row. map (csv_cell row) headers) rows) \<and>
    length (split_on CHR '','' (csv_line headers row)) = length headers + sum_list (map (\<lambda>h. length (filter (\<lambda>c. c = CHR '','') (csv_cell row h))) headers) \<and>
    (map_of row h = Some (JStr s) \<longrightarrow> csv_cell row h = CHR 0x22 # s @ [CHR 0x22])"
proof -
  have tbl: "csv_format rows = joined [CHR 0x0A] (joined '','' headers # map (csv_line headers) rows)"
    using assms(1) heads by (cases rows) (simp_all add: csv_format_def)
  have line: "split_on CHR '','' (csv_line headers r) = concat (map (split_on CHR '','') (map (csv_cell r) headers))" for r
    unfolding csv_line_def by (rule split_on_joined) (simp add: heads(2))
  have "map (split_on CHR '','') (split_on CHR 0x0A (csv_format rows)) = headers # map (\<lambda>row. map (csv_cell row) headers) rows"
    if h: "\<forall>h \<in> set headers. CHR '','' \<notin> set h \<and> CHR 0x0A \<notin> set h" and r: "\<forall>row \<in> set rows. plain row"
  proof -
    have nl: "CHR 0x0A \<notin> set (joined '','' ts)" if "\<forall>t \<in> set ts. CHR 0x0A \<notin> set t" for ts
      using joined_chars [of "'',''" ts] that by auto
    have "\<forall>t \<in> set (joined '','' headers # map (csv_line headers) rows). CHR 0x0A \<notin> set t"
      using h r by (auto simp: csv_line_def plain intro!: nl dest: nl)
    then have "split_on CHR 0x0A (csv_format rows) = joined '','' headers # map (csv_line headers) rows"
      unfolding tbl by (simp only: split_on_joined concat_split_fresh list.distinct simp_thms)
    moreover have "split_on CHR '','' (joined '','' headers) = headers" using h heads(2) by (simp add: split_on_joined concat_split_fresh)
    moreover have "split_on CHR '','' (csv_line headers row) = map (csv_cell row) headers" if "row \<in> set rows" for row
      unfolding line using r that by (intro concat_split_fresh) (auto simp: plain)
    ultimately show ?thesis by simp
  qed
  moreover have "length (split_on CHR '','' (csv_line headers row)) = length headers + sum_list (map (\<lambda>h. length (filter (\<lambda>c. c = CHR '','') (csv_cell row h))) headers)"
    unfolding line by (simp add: length_concat length_split_on o_def sum_list_Suc)
  ultimately show ?thesis by (simp add: csv_cell_def)
qed

theorem csv_tables_read_back_witness:
  "map (split_on CHR '','') (split_on CHR 0x0A (csv_format [[(''id'', JStr ''a''), (''n'', JNum 2)]])) = [[''id'', ''n''], [[CHR 0x22, CHR ''a'', CHR 0x22], ''2'']]"
proof -
  let ?row = "[(''id'', JStr ''a''), (''n'', JNum 2)]"
  have c: "csv_cell ?row ''id'' = [CHR 0x22, CHR ''a'', CHR 0x22]" "csv_cell ?row ''n'' = ''2''" by code_simp+
  have "map (split_on CHR '','') (split_on CHR 0x0A (csv_format [?row])) = [''id'', ''n''] # map (\<lambda>row. map (csv_cell row) [''id'', ''n'']) [?row]"
    using csv_tables_read_back [where rows = "[?row]" and headers = "[''id'', ''n'']", OF _ _ _ refl] c by (simp add: c)
  then show ?thesis by (simp add: c)
qed

lemma split_on_three: "d \<notin> set a \<Longrightarrow> d \<notin> set b \<Longrightarrow> d \<notin> set c \<Longrightarrow> split_on d (a @ d # b @ d # c) = [a, b, c]"
  by (simp add: split_on_append split_on_fresh)

definition mock_line :: "string option \<Rightarrow> string \<Rightarrow> string" where
  "mock_line status i = csv_line [''id'', ''status''] [(''id'', JStr i), (''status'', JStr (str_or status ''SUCCESS''))]"

lemma mock_line_chars: "CHR 0x0A \<notin> set (str_or status ''SUCCESS'') \<Longrightarrow> CHR 0x0A \<notin> set i \<Longrightarrow> CHR 0x0A \<notin> set (mock_line status i)"
  by (simp add: mock_line_def csv_line_def csv_cell_def)

text \<open>The streamed export is not the export: each row comes as a file of its own, names included, without a line break before the next, so that a row
  and the next line of names are one line.\<close>
theorem streamed_rows_run_together:
  shows "streamDeliveries status format = map (\<lambda>row. format [row]) (mock_rows status None) \<and>
    (CHR 0x0A \<notin> set (str_or status ''SUCCESS'') \<longrightarrow>
       split_on CHR 0x0A (concat (streamDeliveries status csv_format)) = [''id,status'', mock_line status ''del-1'' @ ''id,status'', mock_line status ''del-2''] \<and>
       split_on CHR 0x0A (csv_format (mock_rows status None)) = [''id,status'', mock_line status ''del-1'', mock_line status ''del-2''])"
proof -
  let ?h = "''id,status''" and ?a = "mock_line status ''del-1''" and ?b = "mock_line status ''del-2''"
  have s: "streamDeliveries status format = map (\<lambda>row. format [row]) (mock_rows status None)" for format
    by (simp add: streamDeliveries_def mock_rows_def stream_read_def)
  have "concat (streamDeliveries status csv_format) = ?h @ CHR 0x0A # (?a @ ?h) @ CHR 0x0A # ?b"
    "csv_format (mock_rows status None) = ?h @ CHR 0x0A # ?a @ CHR 0x0A # ?b"
    by (simp_all add: s mock_rows_def csv_format_def mock_line_def)
  then show ?thesis using mock_line_chars [of status "''del-1''"] mock_line_chars [of status "''del-2''"] s
    by (auto simp only: intro!: split_on_three) auto
qed

theorem streamed_rows_run_together_witness:
  "split_on CHR 0x0A (concat (streamDeliveries None csv_format)) \<noteq> split_on CHR 0x0A (csv_format (mock_rows None None))"
proof -
  have "CHR 0x0A \<notin> set (str_or None ''SUCCESS'')" by simp
  note streamed_rows_run_together [of None csv_format, THEN conjunct2, rule_format, OF this]
  then show ?thesis by auto
qed

subsection \<open>What is kept\<close>

lemma stringify_nonempty: "stringify v \<noteq> []"
  by (cases v) (auto simp: bool_text_def quote_def show_int_def show_nat.simps)

text \<open>The cache gives back the value that was put under a key until its time is over, 300 seconds unless told otherwise, and keeps the keys apart. Once there are
  insights they are the answer for good: no later request generates any.\<close>
theorem analytics_are_kept:
  assumes "redis_laws rd" "json_wf v" "0 < nullish_or ttl 300" "now \<le> now'"
  shows "getCachedResult rd now' k (cacheResult rd now k v ttl s) = Some (if now' < now + nullish_or ttl 300 * 1000 then Some (embed v) else None) \<and>
    (k' \<noteq> k \<longrightarrow> getCachedResult rd now' k' (cacheResult rd now k v ttl s) = getCachedResult rd now' k' s) \<and>
    (let (m', first) = analytics_getInsights now m in first \<noteq> [] \<and> analytics_getInsights now' m' = (m', first)) \<and>
    queryMetric n (defineMetric n' x now cs) = (if n = n' then Some \<lparr> cx_name = n', cx_value = x, cx_timestamp = now \<rparr> else queryMetric n cs)"
proof -
  have "getCachedResult rd now' k (cacheResult rd now k v ttl s) = Some (if now' < now + nullish_or ttl 300 * 1000 then Some (embed v) else None)"
    using redis_get_set [OF assms(1,4), of "nullish_or ttl 300 * 1000"] assms(3)
    by (simp add: getCachedResult_def cacheResult_def stringify_nonempty json_parse_stringify [OF assms(2)])
  moreover have "getCachedResult rd now' k' (cacheResult rd now k v ttl s) = getCachedResult rd now' k' s" if "k' \<noteq> k"
    using redis_get_other [OF assms(1), of "analytics_key k'" "analytics_key k"] that
    by (simp add: getCachedResult_def cacheResult_def analytics_key_def)
  moreover have "let (m', first) = analytics_getInsights now m in first \<noteq> [] \<and> analytics_getInsights now' m' = (m', first)"
    by (cases m) (simp_all add: analytics_getInsights_def generateInsights_def saveInsight_def mset_at_def)
  ultimately show ?thesis by (simp add: queryMetric_def defineMetric_def)
qed

theorem analytics_are_kept_witness:
  "getCachedResult list_redis 299999 ''a'' (cacheResult list_redis 0 ''a'' (JNum 5) None []) = Some (Some (embed (JNum 5))) \<and>
   getCachedResult list_redis 300000 ''a'' (cacheResult list_redis 0 ''a'' (JNum 5) None []) = Some None"
  using analytics_are_kept [OF list_redis_laws, of "JNum 5" None 0 299999 "''a''" "[]"] analytics_are_kept [OF list_redis_laws, of "JNum 5" None 0 300000 "''a''" "[]"]
  by simp

subsection \<open>Latencies and growth\<close>

text \<open>The value of rank \<open>q\<close> is one of the list, at least that share of the list is not above it, and less than that share is below it.\<close>

definition of_rank :: "rat list \<Rightarrow> rat \<Rightarrow> rat \<Rightarrow> bool" where
  "of_rank xs q x \<longleftrightarrow> x \<in> set xs \<and> of_nat (length xs) * q \<le> of_nat (length (filter (\<lambda>y. y \<le> x) xs)) \<and>
     of_nat (length (filter (\<lambda>y. y < x) xs)) < of_nat (length xs) * q"

lemma of_rank_mset: "mset xs = mset ys \<Longrightarrow> of_rank xs q x = of_rank ys q x"
  unfolding of_rank_def by (metis mset_filter set_mset_mset size_mset)

lemma ranked_value:
  assumes "sorted xs" "xs \<noteq> []" "0 < q" "q \<le> 1"
  shows "of_rank xs q (ranked xs q)"
proof -
  let ?n = "length xs" define i where "i = \<lceil>of_nat ?n * q\<rceil> - 1"
  have n: "0 < (of_nat ?n :: rat)" using assms(2) by simp
  have pos: "0 < of_nat ?n * q" and le: "of_nat ?n * q \<le> of_nat ?n" using n assms(3,4) by (simp_all add: mult_le_cancel_left2)
  have c: "of_int i < of_nat ?n * q" "of_nat ?n * q \<le> of_int i + 1" unfolding i_def using ceiling_correct [of "of_nat ?n * q"] by simp_all
  have "0 < \<lceil>of_nat ?n * q\<rceil>" using pos by (simp only: zero_less_ceiling)
  then have "0 \<le> i" unfolding i_def by linarith
  moreover have "i < int ?n" using c(1) le by (metis less_le_trans of_int_less_iff of_int_of_nat_eq)
  ultimately obtain k where k: "i = int k" "k < ?n" using nonneg_int_cases by (metis of_nat_less_iff)
  have r: "ranked xs q = xs ! k" using k by (simp add: ranked_def Let_def flip: i_def)
  have "set (take (Suc k) xs) \<subseteq> {x. x \<le> xs ! k}" using assms(1) k(2) by (auto simp: in_set_conv_nth sorted_iff_nth_mono)
  then have "filter (\<lambda>x. x \<le> xs ! k) (take (Suc k) xs) = take (Suc k) xs" by (intro filter_True) blast
  moreover have "length (filter (\<lambda>x. x \<le> xs ! k) (take (Suc k) xs)) \<le> length (filter (\<lambda>x. x \<le> xs ! k) xs)"
    by (metis append_take_drop_id filter_append le_add1 length_append)
  ultimately have up: "Suc k \<le> length (filter (\<lambda>x. x \<le> xs ! k) xs)" using k(2) by (metis Suc_leI length_take min.absorb2)
  have "\<forall>x \<in> set (drop k xs). \<not> x < xs ! k" using assms(1) k(2) by (auto simp: in_set_conv_nth sorted_iff_nth_mono not_less)
  then have "filter (\<lambda>x. x < xs ! k) (drop k xs) = []" by (simp add: filter_empty_conv)
  then have "filter (\<lambda>x. x < xs ! k) xs = filter (\<lambda>x. x < xs ! k) (take k xs)" by (metis append_Nil2 append_take_drop_id filter_append)
  then have down: "length (filter (\<lambda>x. x < xs ! k) xs) \<le> k" by (metis length_filter_le length_take min.bounded_iff)
  have "of_nat ?n * q \<le> of_nat (Suc k)" using c(2) k(1) by simp
  also have "... \<le> of_nat (length (filter (\<lambda>x. x \<le> xs ! k) xs))" using up by (simp only: of_nat_le_iff)
  finally have "of_nat ?n * q \<le> of_nat (length (filter (\<lambda>x. x \<le> xs ! k) xs))" .
  moreover have "of_nat (length (filter (\<lambda>x. x < xs ! k) xs)) < of_nat ?n * q" using down c(1) k(1) by (metis le_less_trans of_int_of_nat_eq of_nat_le_iff)
  ultimately show ?thesis unfolding r of_rank_def using k(2) by simp
qed

lemma grow_power: "grow n rate x = x * (1 + rate / 100) ^ n"
  by (induction n arbitrary: x) (simp_all add: algebra_simps)

text \<open>The latencies that are reported are of the list: half of it, and 95 of 100, are not above them, and fewer are below; more than 3500 milliseconds
  recommend to scale. Growth compounds; the months that are not given are six.\<close>
theorem latency_profile_is_of_the_list:
  assumes "xs \<noteq> []" and prof: "r = pa_analyze xs"
  shows "of_rank xs (1 / 2) (lt_p50 r) \<and> of_rank xs (95 / 100) (lt_p95 r) \<and> (lt_recommendations r \<noteq> [] \<longleftrightarrow> lt_p95 r > 3500) \<and>
    (mset ys = mset xs \<longrightarrow> pa_analyze ys = r) \<and>
    projectGrowth x0 rate months = x0 * (1 + rate / 100) ^ nat (nullish_or months 6)"
proof -
  let ?s = "sort_key (\<lambda>x. x) xs"
  have s: "sorted ?s" "?s \<noteq> []" "mset ?s = mset xs" using assms(1) by (simp_all flip: length_greater_0_conv)
  have p: "lt_p50 r = ranked ?s (1 / 2)" "lt_p95 r = ranked ?s (95 / 100)" "lt_recommendations r \<noteq> [] \<longleftrightarrow> lt_p95 r > 3500"
    using assms by (simp_all add: pa_analyze_def Let_def)
  have "of_rank ?s (1 / 2) (ranked ?s (1 / 2))" "of_rank ?s (95 / 100) (ranked ?s (95 / 100))" by (rule ranked_value [OF s(1,2)]; simp)+
  then have "of_rank xs (1 / 2) (lt_p50 r)" "of_rank xs (95 / 100) (lt_p95 r)" unfolding p of_rank_mset [OF s(3)] .
  moreover have "pa_analyze ys = r" if "mset ys = mset xs"
  proof -
    have "sort_key (\<lambda>x. x) ys = ?s" using that by (metis mset_sort properties_for_sort sorted_sort)
    moreover have "ys \<noteq> []" using that assms(1) by auto
    ultimately show ?thesis using assms by (simp add: pa_analyze_def)
  qed
  ultimately show ?thesis using p(3) by (simp add: projectGrowth_def grow_power)
qed

theorem latency_profile_is_of_the_list_witness:
  "of_rank [4000, 10, 20] (95 / 100) (lt_p95 (pa_analyze [4000, 10, 20]))"
  by (rule latency_profile_is_of_the_list [of "[4000, 10, 20]", OF _ refl, THEN conjunct2, THEN conjunct1]) simp

end
